(* ===== verification/Semver.thy ===== *)
theory Semver
  imports Prelude "HOL-Library.Product_Lexorder"
begin

text \<open>
  \<open>internal/semver/semver.go\<close>: semantic versions, their precedence, and version constraints.
  \<open>Parse\<close>, \<open>Compare\<close>, \<open>comparePre\<close>, \<open>ParseConstraint\<close> and \<open>SatisfiedBy\<close> keep the source's
  branches in the source's order; an \<open>error\<close> return is \<open>Inl\<close>. The lemmas show that \<open>Compare\<close> is
  the lexicographic comparison of a key in a linear order (so it is a total preorder), that
  printing and parsing are inverse, and what each form of constraint accepts.
\<close>

record SemVer =
  Major :: int
  Minor :: int
  Patch :: int
  Pre :: string

definition zero_semver :: SemVer where
  "zero_semver = \<lparr>Major = 0, Minor = 0, Patch = 0, Pre = []\<rparr>"

datatype semver_error =
    InvalidMajor string
  | InvalidMinor string
  | InvalidPatch string
  | TooManySegments string
  | EmptyConstraint

section \<open>Parsing and printing a version\<close>

definition Parse :: "string \<Rightarrow> semver_error + SemVer" where
  "Parse v =
     (let (rest, pre) = (case str_index ''-'' v of
                           Some i \<Rightarrow> (take i v, drop (i + 1) v)
                         | None \<Rightarrow> (v, []));
          parts = split_on (CHR ''.'') rest
      in case atoi (parts ! 0) of
           None \<Rightarrow> Inl (InvalidMajor v)
         | Some ma \<Rightarrow>
             (case (if 2 \<le> length parts then atoi (parts ! 1) else Some 0) of
                None \<Rightarrow> Inl (InvalidMinor v)
              | Some mi \<Rightarrow>
                  (case (if 3 \<le> length parts then atoi (parts ! 2) else Some 0) of
                     None \<Rightarrow> Inl (InvalidPatch v)
                   | Some pa \<Rightarrow>
                       if 3 < length parts then Inl (TooManySegments v)
                       else Inr \<lparr>Major = ma, Minor = mi, Patch = pa, Pre = pre\<rparr>)))"

definition String :: "SemVer \<Rightarrow> string" where
  "String s =
     itoa (Major s) @ ''.'' @ itoa (Minor s) @ ''.'' @ itoa (Patch s)
       @ (if Pre s \<noteq> [] then ''-'' @ Pre s else [])"

section \<open>Precedence\<close>

fun comparePre_fields :: "string list \<Rightarrow> string list \<Rightarrow> int" where
  "comparePre_fields (x # xs) (y # ys) =
     (case (atoi x, atoi y) of
        (Some nx, Some ny) \<Rightarrow>
          if nx \<noteq> ny then (if nx < ny then -1 else 1) else comparePre_fields xs ys
      | (Some _, None) \<Rightarrow> -1
      | (None, Some _) \<Rightarrow> 1
      | (None, None) \<Rightarrow>
          if x \<noteq> y then (if x < y then -1 else 1) else comparePre_fields xs ys)"
| "comparePre_fields [] [] = 0"
| "comparePre_fields [] (y # ys) = -1"
| "comparePre_fields (x # xs) [] = 1"

definition comparePre :: "string \<Rightarrow> string \<Rightarrow> int" where
  "comparePre a b = comparePre_fields (split_on (CHR ''.'') a) (split_on (CHR ''.'') b)"

definition Compare :: "SemVer \<Rightarrow> SemVer \<Rightarrow> int" where
  "Compare s other =
     (if Major s \<noteq> Major other then wrap64 (Major s - Major other)
      else if Minor s \<noteq> Minor other then wrap64 (Minor s - Minor other)
      else if Patch s \<noteq> Patch other then wrap64 (Patch s - Patch other)
      else if Pre s = [] \<and> Pre other = [] then 0
      else if Pre s = [] then 1
      else if Pre other = [] then -1
      else comparePre (Pre s) (Pre other))"

definition Less :: "SemVer \<Rightarrow> SemVer \<Rightarrow> bool" where "Less s other \<longleftrightarrow> Compare s other < 0"
definition Greater :: "SemVer \<Rightarrow> SemVer \<Rightarrow> bool" where "Greater s other \<longleftrightarrow> Compare s other > 0"
definition Equal :: "SemVer \<Rightarrow> SemVer \<Rightarrow> bool" where "Equal s other \<longleftrightarrow> Compare s other = 0"

section \<open>Constraints\<close>

record Constraint =
  Min :: SemVer
  Max :: SemVer
  MinOpen :: bool
  MaxOpen :: bool
  hasMin :: bool
  hasMax :: bool

definition zero_constraint :: Constraint where
  "zero_constraint =
     \<lparr>Min = zero_semver, Max = zero_semver, MinOpen = False, MaxOpen = False,
      hasMin = False, hasMax = False\<rparr>"

definition looksLikeVersion :: "string \<Rightarrow> bool" where
  "looksLikeVersion s \<longleftrightarrow> atoi (hd (split_n2 ''.'' (trim_space s))) \<noteq> None"

definition between :: "SemVer \<Rightarrow> SemVer \<Rightarrow> Constraint" where
  "between lo hi = zero_constraint\<lparr>Min := lo, hasMin := True, Max := hi, hasMax := True\<rparr>"

definition upto_open :: "SemVer \<Rightarrow> SemVer \<Rightarrow> Constraint" where
  "upto_open lo hi = (between lo hi)\<lparr>MaxOpen := True\<rparr>"

definition parse_range :: "string list \<Rightarrow> semver_error + Constraint" where
  "parse_range parts =
     (case Parse (trim_space (parts ! 0)) of
        Inl e \<Rightarrow> Inl e
      | Inr v1 \<Rightarrow>
          (case Parse (trim_space (parts ! 1)) of
             Inl e \<Rightarrow> Inl e
           | Inr v2 \<Rightarrow> Inr (between v1 v2)))"

definition wild_to_zero :: "string \<Rightarrow> string" where
  "wild_to_zero s = map (\<lambda>c. if c \<in> {CHR ''x'', CHR ''X'', CHR ''*''} then CHR ''0'' else c) s"

definition dash_range :: "string \<Rightarrow> bool" where
  "dash_range s \<longleftrightarrow>
     str_contains s ''-'' \<and> \<not> str_contains s '' - '' \<and>
     looksLikeVersion (split_n2 ''-'' s ! 0) \<and> looksLikeVersion (split_n2 ''-'' s ! 1)"

definition ParseConstraint :: "string \<Rightarrow> semver_error + Constraint" where
  "ParseConstraint s0 =
     (let s = trim_space s0;
          arg = (\<lambda>n. Parse (trim_space (drop n s)))
      in if s = [] then Inl EmptyConstraint
         else if prefix ''>='' s then
           map_sum id (\<lambda>v. zero_constraint\<lparr>Min := v, hasMin := True\<rparr>) (arg 2)
         else if prefix ''>'' s then
           map_sum id (\<lambda>v. zero_constraint\<lparr>Min := v, MinOpen := True, hasMin := True\<rparr>) (arg 1)
         else if prefix ''<='' s then
           map_sum id (\<lambda>v. zero_constraint\<lparr>Max := v, hasMax := True\<rparr>) (arg 2)
         else if prefix ''<'' s then
           map_sum id (\<lambda>v. zero_constraint\<lparr>Max := v, MaxOpen := True, hasMax := True\<rparr>) (arg 1)
         else if prefix ''^'' s then
           map_sum id (\<lambda>v. upto_open v (zero_semver\<lparr>Major := wrap64 (Major v + 1)\<rparr>)) (arg 1)
         else if prefix ''~'' s then
           map_sum id (\<lambda>v. upto_open v
             (zero_semver\<lparr>Major := Major v, Minor := wrap64 (Minor v + 1)\<rparr>)) (arg 1)
         else if dash_range s then parse_range (split_n2 ''-'' s)
         else if str_contains s '' - '' then parse_range (split_n2 '' - '' s)
         else if list_ex (\<lambda>c. c \<in> {CHR ''x'', CHR ''X'', CHR ''*''}) s then
           map_sum id (\<lambda>v. upto_open v (zero_semver\<lparr>Major := wrap64 (Major v + 1)\<rparr>))
             (Parse (trim_space (wild_to_zero s)))
         else map_sum id (\<lambda>v. between v v) (Parse s))"

definition SatisfiedBy :: "Constraint \<Rightarrow> SemVer \<Rightarrow> bool" where
  "SatisfiedBy vc v \<longleftrightarrow>
     \<not> (hasMin vc \<and> (if MinOpen vc then Compare v (Min vc) \<le> 0 else Compare v (Min vc) < 0)) \<and>
     \<not> (hasMax vc \<and> (if MaxOpen vc then Compare v (Max vc) \<ge> 0 else Compare v (Max vc) > 0))"

definition HasMin :: "Constraint \<Rightarrow> bool" where "HasMin vc = hasMin vc"
definition HasMax :: "Constraint \<Rightarrow> bool" where "HasMax vc = hasMax vc"

section \<open>The order behind \<open>Compare\<close>\<close>

text \<open>
  A pre-release field is a number when \<open>Atoi\<close> takes it and a name otherwise; numbers come first.
  \<open>field_key\<close> maps a field to a pair that is compared lexicographically.
\<close>

datatype field_key = NumField int | NameField string

instantiation field_key :: linorder
begin

fun less_eq_field_key :: "field_key \<Rightarrow> field_key \<Rightarrow> bool" where
  "less_eq_field_key (NumField m) (NumField n) = (m \<le> n)"
| "less_eq_field_key (NumField _) (NameField _) = True"
| "less_eq_field_key (NameField _) (NumField _) = False"
| "less_eq_field_key (NameField s) (NameField t) = (s \<le> t)"

definition less_field_key :: "field_key \<Rightarrow> field_key \<Rightarrow> bool" where
  "less_field_key a b \<longleftrightarrow> a \<le> b \<and> \<not> b \<le> a"

instance
proof
  fix a b c :: field_key
  show "(a < b) = (a \<le> b \<and> \<not> b \<le> a)" by (rule less_field_key_def)
  show "a \<le> a" by (cases a) auto
  show "a \<le> b \<Longrightarrow> b \<le> c \<Longrightarrow> a \<le> c" by (cases a; cases b; cases c) auto
  show "a \<le> b \<Longrightarrow> b \<le> a \<Longrightarrow> a = b" by (cases a; cases b) auto
  show "a \<le> b \<or> b \<le> a" by (cases a; cases b) auto
qed

end

definition field_key :: "string \<Rightarrow> field_key" where
  "field_key s = (case atoi s of Some n \<Rightarrow> NumField n | None \<Rightarrow> NameField s)"

definition pre_key :: "string \<Rightarrow> field_key list" where
  "pre_key s = map field_key (split_on (CHR ''.'') s)"

text \<open>The sign of a comparison in a linear order.\<close>

definition cmp :: "'a::linorder \<Rightarrow> 'a \<Rightarrow> int" where
  "cmp a b = (if a < b then -1 else if b < a then 1 else 0)"

lemma comparePre_fields_cmp:
  "comparePre_fields xs ys = cmp (map field_key xs) (map field_key ys)"
  by (induction xs ys rule: comparePre_fields.induct)
    (auto simp: cmp_def field_key_def less_field_key_def split: option.splits)

lemma comparePre_cmp: "comparePre a b = cmp (pre_key a) (pre_key b)"
  by (simp add: comparePre_def comparePre_fields_cmp pre_key_def)


definition ver_key :: "SemVer \<Rightarrow> int \<times> int \<times> int \<times> bool \<times> field_key list" where
  "ver_key s =
     (Major s, Minor s, Patch s, Pre s = [], if Pre s = [] then [] else pre_key (Pre s))"

text \<open>What \<open>Parse\<close> returns: the numbers are those of a non-negative \<open>int\<close>.\<close>

definition wf_semver :: "SemVer \<Rightarrow> bool" where
  "wf_semver s \<longleftrightarrow>
     0 \<le> Major s \<and> Major s \<le> max_int64 \<and> 0 \<le> Minor s \<and> Minor s \<le> max_int64 \<and>
     0 \<le> Patch s \<and> Patch s \<le> max_int64"

lemma wrap64_diff:
  "0 \<le> a \<Longrightarrow> a \<le> max_int64 \<Longrightarrow> 0 \<le> b \<Longrightarrow> b \<le> max_int64 \<Longrightarrow> wrap64 (a - b) = a - b"
  by (intro wrap64_id) (auto simp: in_int64_def min_int64_def max_int64_def)

lemma sgn_cmp: "sgn (cmp a b) = cmp a b"
  by (simp add: cmp_def)

lemma cmp_zero_iff: "cmp a b = 0 \<longleftrightarrow> a = b"
  by (auto simp: cmp_def)

lemma cmp_neg_iff: "cmp a b < 0 \<longleftrightarrow> a < b"
  by (auto simp: cmp_def)

lemma Compare_sgn:
  assumes "wf_semver a" and "wf_semver b"
  shows "sgn (Compare a b) = cmp (ver_key a) (ver_key b)"
  using assms
  by (auto simp: Compare_def wf_semver_def wrap64_diff ver_key_def comparePre_cmp sgn_cmp)
    (auto simp: cmp_def less_prod_def')

lemma Compare_neg_iff: "wf_semver a \<Longrightarrow> wf_semver b \<Longrightarrow> Compare a b < 0 \<longleftrightarrow> ver_key a < ver_key b"
  by (metis Compare_sgn cmp_neg_iff sgn_less)

lemma Compare_zero_iff: "wf_semver a \<Longrightarrow> wf_semver b \<Longrightarrow> Compare a b = 0 \<longleftrightarrow> ver_key a = ver_key b"
  by (metis Compare_sgn cmp_zero_iff sgn_eq_0_iff)

lemma Compare_le_iff: "wf_semver a \<Longrightarrow> wf_semver b \<Longrightarrow> Compare a b \<le> 0 \<longleftrightarrow> ver_key a \<le> ver_key b"
  by (metis Compare_neg_iff Compare_zero_iff order_le_less)

lemmas Compare_iffs = Compare_neg_iff Compare_zero_iff Compare_le_iff

section \<open>Parsing keeps well-formedness, and undoes printing\<close>

lemma take_index_notin: "str_index [c] v = Some i \<Longrightarrow> c \<notin> set (take i v)"
proof (induction v arbitrary: i)
  case (Cons x xs)
  then show ?case by (cases i) (auto split: if_splits)
qed simp

lemma split_on_subset: "p \<in> set (split_on c s) \<Longrightarrow> set p \<subseteq> set s"
proof (induction s arbitrary: p)
  case (Cons x xs)
  then show ?case by (fastforce split: if_splits list.splits)
qed simp

lemma split_on_nth_notin:
  "d \<notin> set s \<Longrightarrow> k < length (split_on c s) \<Longrightarrow> d \<notin> set (split_on c s ! k)"
  using split_on_subset nth_mem by fastforce

lemma opt_atoi_range:
  assumes "(if k < length ps then atoi (ps ! k) else Some 0) = Some n"
    and "\<forall>p\<in>set ps. CHR ''-'' \<notin> set p"
  shows "0 \<le> n \<and> n \<le> max_int64"
  using assms atoi_in_int64 [of "ps ! k" n] atoi_nonneg [of "ps ! k" n]
  by (auto simp: in_int64_def max_int64_def split: if_splits)

lemma Parse_wf:
  assumes "Parse v = Inr s"
  shows "wf_semver s"
proof -
  define core where "core = (case str_index ''-'' v of Some i \<Rightarrow> take i v | None \<Rightarrow> v)"
  have nodash: "CHR ''-'' \<notin> set core"
    by (auto simp: core_def str_index_None_single dest: take_index_notin split: option.splits)
  define ps where "ps = split_on (CHR ''.'') core"
  have all: "\<forall>p\<in>set ps. CHR ''-'' \<notin> set p"
    using nodash split_on_subset by (fastforce simp: ps_def)
  have "ps \<noteq> []" by (simp add: ps_def)
  then have a0: "(if 0 < length ps then atoi (ps ! 0) else Some 0) = Some (Major s)"
    and a1: "(if 1 < length ps then atoi (ps ! 1) else Some 0) = Some (Minor s)"
    and a2: "(if 2 < length ps then atoi (ps ! 2) else Some 0) = Some (Patch s)"
    using assms
    by (auto simp: Parse_def Let_def ps_def core_def Suc_le_eq numeral_eq_Suc
        split: option.splits prod.splits if_splits)
  from a0 [THEN opt_atoi_range, OF all] a1 [THEN opt_atoi_range, OF all]
    a2 [THEN opt_atoi_range, OF all]
  show ?thesis by (simp add: wf_semver_def)
qed

definition core_string :: "SemVer \<Rightarrow> string" where
  "core_string s = itoa (Major s) @ ''.'' @ itoa (Minor s) @ ''.'' @ itoa (Patch s)"

lemma String_core: "String s = core_string s @ (if Pre s = [] then [] else CHR ''-'' # Pre s)"
  by (simp add: String_def core_string_def)

lemma core_string_split:
  "wf_semver s \<Longrightarrow>
   split_on (CHR ''.'') (core_string s) = [itoa (Major s), itoa (Minor s), itoa (Patch s)]"
  by (simp add: core_string_def wf_semver_def itoa_no_sep not_digit_sign split_on_append split_on_noc)

lemma core_string_nodash: "wf_semver s \<Longrightarrow> CHR ''-'' \<notin> set (core_string s)"
  by (auto simp: core_string_def wf_semver_def dest: itoa_no_sep [OF _ not_digit_sign(1)])

lemma wf_semver_int64: "wf_semver s \<Longrightarrow> in_int64 (Major s) \<and> in_int64 (Minor s) \<and> in_int64 (Patch s)"
  by (auto simp: wf_semver_def in_int64_def min_int64_def)

lemma Parse_String: "wf_semver s \<Longrightarrow> Parse (String s) = Inr s"
proof (cases "Pre s = []")
  case True
  assume wf: "wf_semver s"
  with True have "str_index ''-'' (String s) = None"
    by (simp add: String_core str_index_None_single core_string_nodash)
  with wf True wf_semver_int64 [OF wf] show ?thesis
    by (simp add: Parse_def Let_def String_core core_string_split atoi_itoa)
next
  case False
  assume wf: "wf_semver s"
  with False have "str_index ''-'' (String s) = Some (length (core_string s))"
    by (simp add: String_core str_index_single core_string_nodash)
  with wf False wf_semver_int64 [OF wf] show ?thesis
    by (simp add: Parse_def Let_def String_core core_string_split atoi_itoa)
qed


section \<open>The interface a version order offers\<close>

text \<open>
  What dependency resolution and constraint checking rely on: a three-way comparison that is a
  total preorder on the well-formed values.
\<close>

locale version_order =
  fixes compare :: "'v \<Rightarrow> 'v \<Rightarrow> int"
    and wf :: "'v \<Rightarrow> bool"
  assumes compare_refl: "wf a \<Longrightarrow> compare a a = 0"
    and compare_swap: "wf a \<Longrightarrow> wf b \<Longrightarrow> compare a b < 0 \<longleftrightarrow> compare b a > 0"
    and compare_trans: "wf a \<Longrightarrow> wf b \<Longrightarrow> wf c \<Longrightarrow> compare a b \<le> 0 \<Longrightarrow> compare b c \<le> 0 \<Longrightarrow> compare a c \<le> 0"
begin

lemma ge_iff: "wf a \<Longrightarrow> wf b \<Longrightarrow> compare a b \<ge> 0 \<longleftrightarrow> compare b a \<le> 0"
  using compare_swap [of a b] compare_swap [of b a] by linarith

lemma less_le_trans:
  "wf a \<Longrightarrow> wf b \<Longrightarrow> wf c \<Longrightarrow> compare a b < 0 \<Longrightarrow> compare b c \<le> 0 \<Longrightarrow> compare a c < 0"
  by (metis compare_swap compare_trans linorder_not_le order_less_imp_le)

lemma le_less_trans:
  "wf a \<Longrightarrow> wf b \<Longrightarrow> wf c \<Longrightarrow> compare a b \<le> 0 \<Longrightarrow> compare b c < 0 \<Longrightarrow> compare a c < 0"
  by (metis compare_swap compare_trans linorder_not_le order_less_imp_le)

lemma less_trans:
  "wf a \<Longrightarrow> wf b \<Longrightarrow> wf c \<Longrightarrow> compare a b < 0 \<Longrightarrow> compare b c < 0 \<Longrightarrow> compare a c < 0"
  by (meson less_le_trans order_less_imp_le)

lemma trichotomy:
  "wf a \<Longrightarrow> wf b \<Longrightarrow>
     (compare a b < 0 \<and> compare b a > 0) \<or> (compare a b = 0 \<and> compare b a = 0)
       \<or> (compare a b > 0 \<and> compare b a < 0)"
  using compare_swap [of a b] compare_swap [of b a] by linarith

lemma interval_convex:
  assumes "wf lo" "wf v" "wf hi" "wf m"
    and "compare lo v \<le> 0" "compare v hi \<le> 0"
  shows "compare lo m \<ge> 0 \<Longrightarrow> compare v m \<ge> 0" "compare lo m > 0 \<Longrightarrow> compare v m > 0"
    and "compare hi m \<le> 0 \<Longrightarrow> compare v m \<le> 0" "compare hi m < 0 \<Longrightarrow> compare v m < 0"
proof -
  show "compare lo m \<ge> 0 \<Longrightarrow> compare v m \<ge> 0"
    using ge_iff [of lo m] ge_iff [of v m] compare_trans [of m lo v] assms by simp
  show "compare lo m > 0 \<Longrightarrow> compare v m > 0"
    using compare_swap [of m lo] compare_swap [of m v] less_le_trans [of m lo v] assms by simp
  show "compare hi m \<le> 0 \<Longrightarrow> compare v m \<le> 0"
    using compare_trans [of v hi m] assms by simp
  show "compare hi m < 0 \<Longrightarrow> compare v m < 0"
    using le_less_trans [of v hi m] assms by simp
qed

end

interpretation sv: version_order Compare wf_semver
proof
  show "Compare a a = 0" if "wf_semver a" for a
    using that by (simp add: Compare_iffs)
  show "Compare a b < 0 \<longleftrightarrow> Compare b a > 0" if "wf_semver a" "wf_semver b" for a b
    using that by (metis Compare_le_iff Compare_neg_iff not_le)
  show "Compare a c \<le> 0"
    if "wf_semver a" "wf_semver b" "wf_semver c" "Compare a b \<le> 0" "Compare b c \<le> 0" for a b c
    using that by (auto simp: Compare_iffs)
qed

section \<open>Constraints on printed versions\<close>

lemma graphic_core: "wf_semver s \<Longrightarrow> graphic (hd (core_string s)) \<and> graphic (last (core_string s))"
  using itoa_digits [of "Major s"] itoa_digits [of "Patch s"]
  by (auto simp: core_string_def wf_semver_def list_all_iff intro!: is_digit_graphic)

lemma core_string_nonempty [simp]: "core_string s \<noteq> []"
  by (simp add: core_string_def)

lemma trim_core: "wf_semver s \<Longrightarrow> trim_space (core_string s) = core_string s"
  by (simp add: trim_space_id graphic_core)

lemma trim_op_core:
  "wf_semver s \<Longrightarrow> graphic c \<Longrightarrow> trim_space (c # core_string s) = c # core_string s"
  by (rule trim_space_id) (auto simp: graphic_core)

lemma core_string_chars:
  "wf_semver s \<Longrightarrow> c \<in> set (core_string s) \<Longrightarrow> is_digit c \<or> c = CHR ''.''"
  using itoa_digits [of "Major s"] itoa_digits [of "Minor s"] itoa_digits [of "Patch s"]
  by (auto simp: core_string_def wf_semver_def list_all_iff)

lemma core_string_hd_digit: "wf_semver s \<Longrightarrow> is_digit (hd (core_string s))"
  using itoa_digits [of "Major s"] by (auto simp: core_string_def wf_semver_def list_all_iff)

lemma not_digit_ops [simp]:
  "\<not> is_digit (CHR ''>'')" "\<not> is_digit (CHR ''<'')" "\<not> is_digit (CHR ''^'')" "\<not> is_digit (CHR ''~'')"
  "\<not> is_digit (CHR ''x'')" "\<not> is_digit (CHR ''X'')" "\<not> is_digit (CHR ''*'')" "\<not> is_digit (CHR '' '')"
  "\<not> is_digit (CHR ''-'')" "\<not> is_digit (CHR ''.'')"
  by (simp_all add: is_digit_def)

lemma str_contains_subset: "str_contains s pat \<Longrightarrow> set pat \<subseteq> set s"
  unfolding str_contains_def
  by (metis not_Some_eq set_append str_index_split Un_upper1 Un_upper2 le_supI1 sup.coboundedI2)

lemma prefix_ops_core:
  assumes "wf_semver s" and "\<not> is_digit c"
  shows "\<not> prefix (c # w) (core_string s @ t)"
proof
  assume "prefix (c # w) (core_string s @ t)"
  then have "hd (core_string s) = c"
    by (metis core_string_nonempty hd_append2 list.discI list.sel(1) prefix_hd)
  with core_string_hd_digit [OF assms(1)] assms(2) show False by simp
qed

text \<open>The exact form, for a version without pre-release part.\<close>

lemma ParseConstraint_exact:
  assumes wf: "wf_semver v" and pre: "Pre v = []"
  shows "ParseConstraint (String v) = Inr (between v v)"
proof -
  let ?s = "core_string v"
  have s: "String v = ?s" by (simp add: String_core pre)
  have tr: "trim_space ?s = ?s" by (rule trim_core [OF wf])
  have noops: "\<not> prefix ''>='' ?s" "\<not> prefix ''>'' ?s" "\<not> prefix ''<='' ?s" "\<not> prefix ''<'' ?s"
    "\<not> prefix ''^'' ?s" "\<not> prefix ''~'' ?s"
    using prefix_ops_core [OF wf, of _ _ "[]"] by simp_all
  have nodash: "\<not> str_contains ?s ''-''" "\<not> str_contains ?s '' - ''"
    using str_contains_subset [of ?s "''-''"] str_contains_subset [of ?s "'' - ''"]
      core_string_nodash [OF wf] by auto
  have "\<not> list_ex (\<lambda>c. c \<in> {CHR ''x'', CHR ''X'', CHR ''*''}) ?s"
    using core_string_chars [OF wf, of "CHR ''x''"] core_string_chars [OF wf, of "CHR ''X''"]
      core_string_chars [OF wf, of "CHR ''*''"] by (auto simp: list_ex_iff)
  moreover have "Parse ?s = Inr v" using Parse_String [OF wf] s by simp
  ultimately show ?thesis
    using noops nodash by (simp add: s ParseConstraint_def Let_def tr dash_range_def)
qed

lemma ParseConstraint_op:
  assumes wf: "wf_semver v" and pre: "Pre v = []"
  shows "ParseConstraint (CHR ''^'' # String v)
           = Inr (upto_open v (zero_semver\<lparr>Major := wrap64 (Major v + 1)\<rparr>))" (is ?caret)
    and "ParseConstraint (CHR ''~'' # String v)
           = Inr (upto_open v (zero_semver\<lparr>Major := Major v, Minor := wrap64 (Minor v + 1)\<rparr>))"
proof -
  have s: "String v = core_string v" by (simp add: String_core pre)
  have g: "graphic (CHR ''^'')" "graphic (CHR ''~'')" by (simp_all add: graphic_def)
  have "Parse (core_string v) = Inr v" using Parse_String [OF wf] s by simp
  then show ?caret
    and "ParseConstraint (CHR ''~'' # String v)
           = Inr (upto_open v (zero_semver\<lparr>Major := Major v, Minor := wrap64 (Minor v + 1)\<rparr>))"
    by (simp_all add: s ParseConstraint_def Let_def trim_op_core [OF wf] g trim_core [OF wf])
qed

section \<open>Properties\<close>

text \<open>
  C32. On the versions \<open>Parse\<close> returns, \<open>Less\<close> is a strict weak order: irreflexive and transitive,
  any two versions are ordered one way or compare \<open>Equal\<close>, and \<open>Equal\<close> is transitive too.
\<close>

theorem parsed_versions_ordered:
  assumes "Parse s1 = Inr a" and "Parse s2 = Inr b" and "Parse s3 = Inr c"
  shows "\<not> Less a a \<and> (Less a b \<and> Less b c \<longrightarrow> Less a c) \<and> (Equal a b \<and> Equal b c \<longrightarrow> Equal a c)
    \<and> (Less a b \<or> Equal a b \<or> Greater a b) \<and> (Less a b \<longleftrightarrow> Greater b a)"
proof -
  have wf: "wf_semver a" "wf_semver b" "wf_semver c"
    using assms by (auto dest: Parse_wf)
  have "\<not> Less a a" by (simp add: Less_def sv.compare_refl wf)
  moreover have "Less a b \<and> Less b c \<longrightarrow> Less a c"
    by (auto simp: Less_def intro: sv.less_trans [OF wf])
  moreover have "Equal a b \<and> Equal b c \<longrightarrow> Equal a c"
    using wf by (simp add: Equal_def Compare_zero_iff)
  moreover have "Less a b \<or> Equal a b \<or> Greater a b"
    by (auto simp: Less_def Equal_def Greater_def)
  ultimately show ?thesis
    by (simp add: Less_def Greater_def sv.compare_swap [OF wf(1,2)])
qed

lemma eval_parse_versions:
  "Parse ''1.0.0-alpha.2'' = Inr \<lparr>Major = 1, Minor = 0, Patch = 0, Pre = ''alpha.2''\<rparr>"
  "Parse ''1.0.0-alpha.10'' = Inr \<lparr>Major = 1, Minor = 0, Patch = 0, Pre = ''alpha.10''\<rparr>"
  "Parse ''1.0'' = Inr \<lparr>Major = 1, Minor = 0, Patch = 0, Pre = []\<rparr>"
  by code_simp+

theorem parsed_versions_ordered_witness:
  "Less \<lparr>Major = 1, Minor = 0, Patch = 0, Pre = ''alpha.2''\<rparr>
        \<lparr>Major = 1, Minor = 0, Patch = 0, Pre = []\<rparr>"
proof -
  have "Less \<lparr>Major = 1, Minor = 0, Patch = 0, Pre = ''alpha.2''\<rparr>
             \<lparr>Major = 1, Minor = 0, Patch = 0, Pre = ''alpha.10''\<rparr>"
    and "Less \<lparr>Major = 1, Minor = 0, Patch = 0, Pre = ''alpha.10''\<rparr>
             \<lparr>Major = 1, Minor = 0, Patch = 0, Pre = []\<rparr>"
    by code_simp+
  then show ?thesis using parsed_versions_ordered [OF eval_parse_versions] by blast
qed

text \<open>\<open>Parse\<close> undoes \<open>String\<close> on every version whose numbers are non-negative \<open>int\<close>s,
  whatever the pre-release part.\<close>

theorem parse_string_roundtrip:
  "wf_semver v \<Longrightarrow> Parse (String v) = Inr v"
  by (rule Parse_String)

theorem parse_string_roundtrip_witness:
  "Parse (String \<lparr>Major = 2, Minor = 10, Patch = 3, Pre = ''rc-1.x''\<rparr>)
     = Inr \<lparr>Major = 2, Minor = 10, Patch = 3, Pre = ''rc-1.x''\<rparr>"
  by (rule parse_string_roundtrip) (simp add: wf_semver_def max_int64_def)

text \<open>\<open>SatisfiedBy\<close> accepts an interval: a version between two accepted versions is accepted.\<close>

theorem satisfied_interval:
  assumes "wf_semver (Min vc)" and "wf_semver (Max vc)"
    and "wf_semver lo" and "wf_semver v" and "wf_semver hi"
    and "SatisfiedBy vc lo" and "SatisfiedBy vc hi"
    and "Compare lo v \<le> 0" and "Compare v hi \<le> 0"
  shows "SatisfiedBy vc v"
  using assms sv.interval_convex [of lo v hi "Min vc"] sv.interval_convex [of lo v hi "Max vc"]
  by (auto simp: SatisfiedBy_def not_le not_less split: if_splits)

theorem satisfied_interval_witness:
  "SatisfiedBy (between zero_semver (zero_semver\<lparr>Major := 2\<rparr>)) (zero_semver\<lparr>Major := 1\<rparr>)"
  by (rule satisfied_interval [of _ "zero_semver" _ "zero_semver\<lparr>Major := 2\<rparr>"])
    (simp_all add: between_def zero_constraint_def zero_semver_def wf_semver_def max_int64_def
      SatisfiedBy_def Compare_def wrap64_def)

text \<open>
  The caret form: \<open>^M.m.p\<close> accepts exactly the versions from \<open>M.m.p\<close> on that come before
  \<open>(M+1).0.0\<close>; the tilde form stops before \<open>M.(m+1).0\<close>; the bare form accepts the versions that
  compare equal.
\<close>

theorem constraint_forms:
  assumes wf: "wf_semver v" and pre: "Pre v = []"
    and "Major v < max_int64" and "Minor v < max_int64"
  shows "\<exists>caret tilde exact.
     ParseConstraint (CHR ''^'' # String v) = Inr caret \<and>
     ParseConstraint (CHR ''~'' # String v) = Inr tilde \<and>
     ParseConstraint (String v) = Inr exact \<and>
     (\<forall>u. SatisfiedBy caret u \<longleftrightarrow>
        Compare u v \<ge> 0 \<and> Less u (zero_semver\<lparr>Major := Major v + 1\<rparr>)) \<and>
     (\<forall>u. SatisfiedBy tilde u \<longleftrightarrow>
        Compare u v \<ge> 0 \<and> Less u (zero_semver\<lparr>Major := Major v, Minor := Minor v + 1\<rparr>)) \<and>
     (\<forall>u. SatisfiedBy exact u \<longleftrightarrow> Equal u v)"
proof -
  have "wrap64 (Major v + 1) = Major v + 1" and "wrap64 (Minor v + 1) = Minor v + 1"
    using assms by (auto simp: wf_semver_def in_int64_def min_int64_def)
  then show ?thesis
    by (auto simp: ParseConstraint_op [OF wf pre] ParseConstraint_exact [OF wf pre]
        SatisfiedBy_def upto_open_def between_def zero_constraint_def Less_def Equal_def)
qed

theorem constraint_forms_witness:
  "\<exists>caret. ParseConstraint (CHR ''^'' # String \<lparr>Major = 1, Minor = 2, Patch = 3, Pre = []\<rparr>) = Inr caret
     \<and> (\<forall>u. SatisfiedBy caret u \<longleftrightarrow>
          Compare u \<lparr>Major = 1, Minor = 2, Patch = 3, Pre = []\<rparr> \<ge> 0 \<and>
          Less u (zero_semver\<lparr>Major := 1 + 1\<rparr>))"
  using constraint_forms [of "\<lparr>Major = 1, Minor = 2, Patch = 3, Pre = []\<rparr>"]
  by (auto simp: wf_semver_def max_int64_def)

text \<open>
  Pre-releases break the bare form: a constraint that names one exact pre-release version can
  reject that very version (\<open>1.0.0-1\<close> is taken for the range from \<open>1.0.0\<close> to \<open>1\<close>) or accept
  others (\<open>1.0.0-next\<close> contains an \<open>x\<close> and is taken for a wildcard, so \<open>1.9.0\<close> satisfies it).
\<close>

theorem exact_prerelease_misparsed:
  "(\<exists>c v. ParseConstraint ''1.0.0-1'' = Inr c \<and> Parse ''1.0.0-1'' = Inr v \<and> \<not> SatisfiedBy c v) \<and>
   (\<exists>c v. ParseConstraint ''1.0.0-next'' = Inr c \<and> Parse ''1.9.0'' = Inr v \<and> SatisfiedBy c v)"
proof -
  have "case (ParseConstraint ''1.0.0-1'', Parse ''1.0.0-1'') of
     (Inr c, Inr v) \<Rightarrow> \<not> SatisfiedBy c v | _ \<Rightarrow> False"
    and "case (ParseConstraint ''1.0.0-next'', Parse ''1.9.0'') of
     (Inr c, Inr v) \<Rightarrow> SatisfiedBy c v | _ \<Rightarrow> False"
    by code_simp+
  then show ?thesis by (simp split: sum.splits)
qed

end
