(* ===== verification/Float64.thy ===== *)
theory Float64
  imports Complex_Main Prelude "HOL-Library.Log_Nat"
begin

text \<open>
  Go's \<open>float64\<close>: IEEE 754 binary64 with rounding to nearest, ties to even. A finite value is
  kept as the rational it denotes; every operation computes the exact rational result and rounds
  it (\<open>rnd\<close> for the 53-bit significand and the subnormal range, \<open>f64_of_rat\<close> for overflow).
  The two zeros are one value here: the sign of a zero is visible to Go only through a division
  by that zero, \<open>math.Signbit\<close> and printing, none of which the modelled code relies on (it tests
  a divisor against 0 first). Comparisons with a NaN are false, as in Go.

  The lemmas are what the components use: \<open>rnd\<close> is monotone, odd, the identity on representable
  values (all integers up to \<open>2 ^ 53\<close> among them), so bounds by representable constants survive
  every rounding.
\<close>

section \<open>Rounding\<close>

text \<open>The floor of the binary logarithm of a positive rational.\<close>

definition flog2 :: "rat \<Rightarrow> int" where
  "flog2 x =
     (let (p, q) = quotient_of x; e = bitlen p - bitlen q
      in if 2 powi e \<le> x then e else e - 1)"

text \<open>The nearest integer, ties to even.\<close>

definition rhe :: "rat \<Rightarrow> int" where
  "rhe y =
     (let n = \<lfloor>y\<rfloor>; d = y - of_int n
      in if d < 1 / 2 then n else if 1 / 2 < d then n + 1 else if even n then n else n + 1)"

definition ulp_exp :: "rat \<Rightarrow> int" where
  "ulp_exp x = max (flog2 \<bar>x\<bar> - 52) (- 1074)"

definition rnd :: "rat \<Rightarrow> rat" where
  "rnd x =
     (if x = 0 then 0
      else of_int (rhe (x / 2 powi ulp_exp x)) * 2 powi ulp_exp x)"

lemma powi_mono2: "a \<le> b \<Longrightarrow> (2::rat) powi a \<le> 2 powi b"
  by (rule power_int_increasing) auto

lemma powi_strict2: "a < b \<Longrightarrow> (2::rat) powi a < 2 powi b"
  by (rule power_int_strict_increasing) auto

lemma powi_less_iff2: "(2::rat) powi a < 2 powi b \<longleftrightarrow> a < b"
  by (meson not_le powi_mono2 powi_strict2)

lemma powi_le_iff2: "(2::rat) powi a \<le> 2 powi b \<longleftrightarrow> a \<le> b"
  by (meson not_le powi_mono2 powi_strict2)

lemma powi_pos2 [simp]: "0 < (2::rat) powi a"
  by simp

lemma powi_int2: "k \<le> j \<Longrightarrow> (2::rat) powi j / 2 powi k = of_int (2 ^ nat (j - k))"
proof -
  assume "k \<le> j"
  have "(2::rat) powi j / 2 powi k = 2 powi (j - k)" by (simp add: power_int_diff)
  also have "\<dots> = 2 ^ nat (j - k)" using \<open>k \<le> j\<close> by (simp add: power_int_def)
  finally show ?thesis by simp
qed

lemma bitlen_powi:
  assumes "0 < p"
  shows "(2::rat) powi (bitlen p - 1) \<le> of_int p" and "of_int p < (2::rat) powi bitlen p"
proof -
  have b: "2 ^ nat (bitlen p - 1) \<le> p" "p < 2 ^ nat (bitlen p)"
    using bitlen_bounds [OF assms] by auto
  have pos: "0 < bitlen p"
    using assms bitlen_ge_iff_power [of 1 p] by simp
  have "of_int (2 ^ nat (bitlen p - 1)) \<le> (of_int p :: rat)" using b(1) by (simp only: of_int_le_iff)
  then show "(2::rat) powi (bitlen p - 1) \<le> of_int p" using pos by (simp add: power_int_def)
  have "(of_int p :: rat) < of_int (2 ^ nat (bitlen p))" using b(2) by (simp only: of_int_less_iff)
  then show "of_int p < (2::rat) powi bitlen p" using pos by (simp add: power_int_def)
qed

lemma flog2_bounds:
  assumes "0 < x"
  shows "2 powi flog2 x \<le> x \<and> x < 2 powi (flog2 x + 1)"
proof -
  obtain p q where pq: "quotient_of x = (p, q)" by fastforce
  have q: "0 < q" using quotient_of_denom_pos [OF pq] .
  have x: "x = of_int p / of_int q" using quotient_of_div [OF pq] .
  with assms q have p: "0 < p" by (simp add: zero_less_divide_iff)
  define e where "e = bitlen p - bitlen q"
  note bp = bitlen_powi [OF p] and bq = bitlen_powi [OF q]
  have qpos: "0 < (of_int q :: rat)" using q by simp
  have up: "x < 2 powi (e + 1)"
  proof -
    have "of_int p < (2::rat) powi (e + 1) * 2 powi (bitlen q - 1)"
      using bp(2) by (simp add: e_def power_int_add [symmetric])
    also have "\<dots> \<le> 2 powi (e + 1) * of_int q" using bq(1) by (intro mult_left_mono) auto
    finally show ?thesis using qpos by (simp add: x pos_divide_less_eq)
  qed
  have lo: "2 powi (e - 1) \<le> x"
  proof -
    have "(2::rat) powi (e - 1) * of_int q \<le> 2 powi (e - 1) * 2 powi bitlen q"
      using bq(2) by (intro mult_left_mono) auto
    also have "\<dots> = 2 powi (bitlen p - 1)" by (simp add: e_def power_int_add [symmetric])
    also have "\<dots> \<le> of_int p" by (rule bp(1))
    finally show ?thesis using qpos by (simp add: x pos_le_divide_eq)
  qed
  have "flog2 x = (if 2 powi e \<le> x then e else e - 1)"
    by (simp add: flog2_def pq e_def Let_def)
  then show ?thesis using up lo by (auto simp: not_le)
qed

lemma flog2_unique: "2 powi e \<le> x \<Longrightarrow> x < 2 powi (e + 1) \<Longrightarrow> flog2 x = e"
proof -
  assume lo: "2 powi e \<le> x" and hi: "x < 2 powi (e + 1)"
  have "0 < x" by (rule order_less_le_trans [OF _ lo]) simp
  note b = flog2_bounds [OF this]
  have "(2::rat) powi e < 2 powi (flog2 x + 1)" "(2::rat) powi flog2 x < 2 powi (e + 1)"
    using b lo hi by linarith+
  then show ?thesis by (simp add: powi_less_iff2)
qed

lemma flog2_mono: "0 < x \<Longrightarrow> x \<le> y \<Longrightarrow> flog2 x \<le> flog2 y"
proof -
  assume "0 < x" "x \<le> y"
  then have "2 powi flog2 x < (2::rat) powi (flog2 y + 1)"
    using flog2_bounds [of x] flog2_bounds [of y] by linarith
  then show ?thesis by (simp add: powi_less_iff2)
qed

lemma rhe_of_int [simp]: "rhe (of_int n) = n"
  by (simp add: rhe_def)

lemma rhe_ge_floor: "\<lfloor>y\<rfloor> \<le> rhe y" and rhe_le_floor1: "rhe y \<le> \<lfloor>y\<rfloor> + 1"
  by (auto simp: rhe_def Let_def)

lemma rhe_mono: "y \<le> z \<Longrightarrow> rhe y \<le> rhe z"
proof (cases "\<lfloor>y\<rfloor> = \<lfloor>z\<rfloor>")
  case True
  assume "y \<le> z"
  with True show ?thesis by (auto simp: rhe_def Let_def)
next
  case False
  assume "y \<le> z"
  with False have "\<lfloor>y\<rfloor> + 1 \<le> \<lfloor>z\<rfloor>" using floor_mono [of y z] by linarith
  then show ?thesis using rhe_le_floor1 [of y] rhe_ge_floor [of z] by linarith
qed

lemma rhe_minus: "rhe (- y) = - rhe y"
proof (cases "y \<in> \<int>")
  case True
  then obtain n where "y = of_int n" by (auto elim: Ints_cases)
  then have "- y = of_int (- n)" by simp
  then show ?thesis using \<open>y = of_int n\<close> rhe_of_int by metis
next
  case False
  then have "\<lceil>y\<rceil> = \<lfloor>y\<rfloor> + 1" by (simp add: ceiling_altdef Ints_def) (metis rangeI)
  then have "\<lfloor>- y\<rfloor> = - \<lfloor>y\<rfloor> - 1" by (simp add: ceiling_def)
  then show ?thesis by (auto simp: rhe_def Let_def)
qed

lemma rhe_le_of_int: "y \<le> of_int n \<Longrightarrow> rhe y \<le> n"
  using rhe_mono [of y "of_int n"] by simp

lemma rhe_ge_of_int: "of_int n \<le> y \<Longrightarrow> n \<le> rhe y"
  using rhe_mono [of "of_int n" y] by simp

lemma rnd_0 [simp]: "rnd 0 = 0"
  by (simp add: rnd_def)

lemma rnd_minus [simp]: "rnd (- x) = - rnd x"
  by (simp add: rnd_def ulp_exp_def rhe_minus)

lemma rnd_nonneg: "0 \<le> x \<Longrightarrow> 0 \<le> rnd x"
  using rhe_ge_of_int [of 0] by (simp add: rnd_def)

lemma ulp_exp_mono: "0 < x \<Longrightarrow> x \<le> y \<Longrightarrow> ulp_exp x \<le> ulp_exp y"
  using flog2_mono [of x y] by (simp add: ulp_exp_def)

lemma rnd_le_powi:
  assumes "0 < x" and "x \<le> 2 powi j" and "ulp_exp x \<le> j"
  shows "rnd x \<le> 2 powi j"
proof -
  let ?q = "ulp_exp x"
  have "x / 2 powi ?q \<le> 2 powi j / 2 powi ?q" by (rule divide_right_mono [OF assms(2)]) simp
  then have "rhe (x / 2 powi ?q) \<le> 2 ^ nat (j - ?q)"
    by (intro rhe_le_of_int) (simp only: powi_int2 [OF assms(3)])
  then have "of_int (rhe (x / 2 powi ?q)) \<le> (2::rat) powi j / 2 powi ?q"
    by (simp only: powi_int2 [OF assms(3)] of_int_le_iff)
  then show ?thesis using assms(1) by (simp add: rnd_def pos_le_divide_eq)
qed

lemma rnd_ge_powi:
  assumes "0 < x" and "2 powi j \<le> x" and "ulp_exp x \<le> j"
  shows "2 powi j \<le> rnd x"
proof -
  let ?q = "ulp_exp x"
  have "2 powi j / 2 powi ?q \<le> x / 2 powi ?q" by (rule divide_right_mono [OF assms(2)]) simp
  then have "2 ^ nat (j - ?q) \<le> rhe (x / 2 powi ?q)"
    by (intro rhe_ge_of_int) (simp only: powi_int2 [OF assms(3)])
  then have "(2::rat) powi j / 2 powi ?q \<le> of_int (rhe (x / 2 powi ?q))"
    by (simp only: powi_int2 [OF assms(3)] of_int_le_iff)
  then show ?thesis using assms(1) by (simp add: rnd_def pos_divide_le_eq)
qed

lemma rnd_mono_pos:
  assumes "0 < x" and "x \<le> y"
  shows "rnd x \<le> rnd y"
proof (cases "ulp_exp x = ulp_exp y")
  case True
  have "x / 2 powi ulp_exp y \<le> y / 2 powi ulp_exp y" by (rule divide_right_mono [OF assms(2)]) simp
  then have "rhe (x / 2 powi ulp_exp y) \<le> rhe (y / 2 powi ulp_exp y)" by (rule rhe_mono)
  then show ?thesis using True assms by (simp add: rnd_def)
next
  case False
  with ulp_exp_mono [OF assms] have lt: "ulp_exp x < ulp_exp y" by simp
  let ?j = "flog2 y"
  have y: "0 < y" using assms by simp
  have uy: "ulp_exp y = ?j - 52" and ux: "flog2 x < ?j"
    using lt assms y by (auto simp: ulp_exp_def)
  have "x \<le> 2 powi ?j"
    using flog2_bounds [OF assms(1)] ux powi_mono2 [of "flog2 x + 1" ?j] by linarith
  then have "rnd x \<le> 2 powi ?j" using lt uy by (intro rnd_le_powi [OF assms(1)]) auto
  also have "\<dots> \<le> rnd y" using flog2_bounds [OF y] uy by (intro rnd_ge_powi [OF y]) auto
  finally show ?thesis .
qed

lemma rnd_mono: "x \<le> y \<Longrightarrow> rnd x \<le> rnd y"
proof (cases "0 < x")
  case True
  assume "x \<le> y"
  with True show ?thesis by (rule rnd_mono_pos)
next
  case False
  assume xy: "x \<le> y"
  show ?thesis
  proof (cases "0 \<le> y")
    case True
    then show ?thesis using False rnd_nonneg [of y] rnd_nonneg [of "- x"] by simp
  next
    case f: False
    with xy have "rnd (- y) \<le> rnd (- x)" by (intro rnd_mono_pos) auto
    then show ?thesis by simp
  qed
qed

text \<open>A multiple of a power of two with at most 53 bits is kept.\<close>

lemma rnd_id_lt:
  assumes "x = of_int m * 2 powi k" and "\<bar>m\<bar> < 2 ^ 53" and "- 1074 \<le> k"
  shows "rnd x = x"
proof (cases "x = 0")
  case False
  then have m: "m \<noteq> 0" using assms(1) by auto
  have ax: "\<bar>x\<bar> = of_int \<bar>m\<bar> * 2 powi k" by (simp add: assms(1) abs_mult)
  have "(of_int \<bar>m\<bar> :: rat) < of_int (2 ^ 53)" using assms(2) by (simp only: of_int_less_iff)
  then have "of_int \<bar>m\<bar> * 2 powi k < (2::rat) ^ 53 * 2 powi k" by simp
  also have "(2::rat) ^ 53 * 2 powi k = 2 powi (53 + k)" by (simp add: power_int_add)
  finally have lt: "\<bar>x\<bar> < 2 powi (53 + k)" by (simp add: ax)
  have "(2::rat) powi flog2 \<bar>x\<bar> < 2 powi (53 + k)"
    using flog2_bounds [of "\<bar>x\<bar>"] False lt by (simp add: order_le_less_trans)
  then have q: "ulp_exp x \<le> k" using assms(3) by (simp add: powi_less_iff2 ulp_exp_def)
  have "x / 2 powi ulp_exp x = of_int m * (2 powi k / 2 powi ulp_exp x)" by (simp add: assms(1))
  also have "\<dots> = of_int (m * 2 ^ nat (k - ulp_exp x))" by (simp only: powi_int2 [OF q] of_int_mult)
  finally have int: "x / 2 powi ulp_exp x = of_int (m * 2 ^ nat (k - ulp_exp x))" .
  have "rnd x = of_int (rhe (x / 2 powi ulp_exp x)) * 2 powi ulp_exp x" using False by (simp add: rnd_def)
  also have "\<dots> = x / 2 powi ulp_exp x * 2 powi ulp_exp x" by (simp only: int rhe_of_int)
  finally show ?thesis by simp
qed simp

lemma rnd_id:
  assumes "x = of_int m * 2 powi k" and "\<bar>m\<bar> \<le> 2 ^ 53" and "- 1074 \<le> k"
  shows "rnd x = x"
proof (cases "\<bar>m\<bar> = 2 ^ 53")
  case True
  have "x = of_int (sgn m * 2 ^ 52) * 2 powi (k + 1)"
  proof -
    have "m = sgn m * 2 ^ 53" using True by (metis sgn_mult_abs)
    then have "x = of_int (sgn m * 2 ^ 53) * 2 powi k" using assms(1) by simp
    then show ?thesis by (simp add: power_int_add)
  qed
  moreover have "\<bar>sgn m * 2 ^ 52\<bar> < (2::int) ^ 53" by (auto simp: abs_mult sgn_if)
  ultimately show ?thesis
    using assms(3) by (intro rnd_id_lt [of x "sgn m * 2 ^ 52" "k + 1"]) simp_all
next
  case False
  then show ?thesis using assms by (intro rnd_id_lt) auto
qed

lemma rnd_of_int [simp]: "\<bar>n\<bar> \<le> 2 ^ 53 \<Longrightarrow> rnd (of_int n) = of_int n"
  by (rule rnd_id [of _ n 0]) auto

lemma rnd_idem [simp]: "rnd (rnd x) = rnd x"
proof (cases "x = 0")
  case False
  let ?q = "ulp_exp x"
  let ?m = "rhe (x / 2 powi ?q)"
  have r: "rnd x = of_int ?m * 2 powi ?q" using False by (simp add: rnd_def)
  have "\<bar>x\<bar> < 2 powi (flog2 \<bar>x\<bar> + 1)" using flog2_bounds [of "\<bar>x\<bar>"] False by simp
  also have "\<dots> \<le> 2 powi (53 + ?q)" by (rule powi_mono2) (simp add: ulp_exp_def)
  finally have "\<bar>x / 2 powi ?q\<bar> \<le> of_int (2 ^ 53)"
    by (simp add: power_int_add pos_divide_le_eq abs_divide)
  then have "x / 2 powi ?q \<le> of_int (2 ^ 53)" and "of_int (- (2 ^ 53)) \<le> x / 2 powi ?q"
    by linarith+
  then have "?m \<le> 2 ^ 53" and "- (2 ^ 53) \<le> ?m"
    using rhe_le_of_int rhe_ge_of_int by blast+
  then show ?thesis unfolding r by (intro rnd_id [OF refl]) (auto simp: ulp_exp_def)
qed simp


section \<open>Values and operations\<close>

datatype f64 = NaN | PInf | NInf | Fin (val: rat)

definition f64_of_rat :: "rat \<Rightarrow> f64" where
  "f64_of_rat x =
     (let r = rnd x in if 2 ^ 1024 \<le> r then PInf else if r \<le> - (2 ^ 1024) then NInf else Fin r)"

definition f64_of_int :: "int \<Rightarrow> f64" where
  "f64_of_int n = f64_of_rat (of_int n)"

text \<open>A finite value is a \<open>float64\<close> when rounding keeps it.\<close>

definition rep :: "rat \<Rightarrow> bool" where
  "rep x \<longleftrightarrow> rnd x = x \<and> \<bar>x\<bar> < 2 ^ 1024"

fun wf64 :: "f64 \<Rightarrow> bool" where
  "wf64 (Fin x) = rep x"
| "wf64 _ = True"

fun is_fin :: "f64 \<Rightarrow> bool" where
  "is_fin (Fin _) = True"
| "is_fin _ = False"

fun f64_le :: "f64 \<Rightarrow> f64 \<Rightarrow> bool" where
  "f64_le NaN _ = False"
| "f64_le _ NaN = False"
| "f64_le NInf _ = True"
| "f64_le _ PInf = True"
| "f64_le (Fin a) (Fin b) = (a \<le> b)"
| "f64_le _ _ = False"

fun f64_eq :: "f64 \<Rightarrow> f64 \<Rightarrow> bool" where
  "f64_eq NaN _ = False"
| "f64_eq a b = (a = b)"

definition f64_lt :: "f64 \<Rightarrow> f64 \<Rightarrow> bool" where
  "f64_lt a b \<longleftrightarrow> f64_le a b \<and> \<not> f64_eq a b"

fun f64_neg :: "f64 \<Rightarrow> f64" where
  "f64_neg NaN = NaN"
| "f64_neg PInf = NInf"
| "f64_neg NInf = PInf"
| "f64_neg (Fin a) = Fin (- a)"

fun f64_abs :: "f64 \<Rightarrow> f64" where
  "f64_abs NaN = NaN"
| "f64_abs (Fin a) = Fin \<bar>a\<bar>"
| "f64_abs _ = PInf"

fun f64_add :: "f64 \<Rightarrow> f64 \<Rightarrow> f64" where
  "f64_add (Fin a) (Fin b) = f64_of_rat (a + b)"
| "f64_add NaN _ = NaN"
| "f64_add _ NaN = NaN"
| "f64_add PInf NInf = NaN"
| "f64_add NInf PInf = NaN"
| "f64_add PInf _ = PInf"
| "f64_add _ PInf = PInf"
| "f64_add NInf _ = NInf"
| "f64_add _ NInf = NInf"

definition f64_sub :: "f64 \<Rightarrow> f64 \<Rightarrow> f64" where
  "f64_sub a b = f64_add a (f64_neg b)"

text \<open>The infinity with the sign of a non-zero factor; \<open>\<infinity> * 0\<close> is a NaN.\<close>

definition inf_times :: "bool \<Rightarrow> rat \<Rightarrow> f64" where
  "inf_times pos a =
     (if a = 0 then NaN else if (0 < a) = pos then PInf else NInf)"

fun f64_mul :: "f64 \<Rightarrow> f64 \<Rightarrow> f64" where
  "f64_mul (Fin a) (Fin b) = f64_of_rat (a * b)"
| "f64_mul NaN _ = NaN"
| "f64_mul _ NaN = NaN"
| "f64_mul (Fin a) PInf = inf_times True a"
| "f64_mul (Fin a) NInf = inf_times False a"
| "f64_mul PInf (Fin a) = inf_times True a"
| "f64_mul NInf (Fin a) = inf_times False a"
| "f64_mul PInf PInf = PInf"
| "f64_mul NInf NInf = PInf"
| "f64_mul PInf NInf = NInf"
| "f64_mul NInf PInf = NInf"

fun f64_div :: "f64 \<Rightarrow> f64 \<Rightarrow> f64" where
  "f64_div (Fin a) (Fin b) =
     (if b = 0 then (if a = 0 then NaN else if 0 < a then PInf else NInf)
      else f64_of_rat (a / b))"
| "f64_div NaN _ = NaN"
| "f64_div _ NaN = NaN"
| "f64_div (Fin a) _ = Fin 0"
| "f64_div PInf (Fin b) = (if b < 0 then NInf else PInf)"
| "f64_div NInf (Fin b) = (if b < 0 then PInf else NInf)"
| "f64_div _ _ = NaN"

text \<open>\<open>math.Round\<close>: the nearest integer, ties away from zero. The result is exact.\<close>

definition rha :: "rat \<Rightarrow> int" where
  "rha y = (if 0 \<le> y then \<lfloor>y + 1 / 2\<rfloor> else - \<lfloor>- y + 1 / 2\<rfloor>)"

fun f64_round :: "f64 \<Rightarrow> f64" where
  "f64_round (Fin a) = Fin (of_int (rha a))"
| "f64_round a = a"

fun f64_max :: "f64 \<Rightarrow> f64 \<Rightarrow> f64" where
  "f64_max PInf _ = PInf"
| "f64_max _ PInf = PInf"
| "f64_max NaN _ = NaN"
| "f64_max _ NaN = NaN"
| "f64_max a b = (if f64_le a b then b else a)"

text \<open>
  \<open>int(x)\<close>: truncation; the language leaves a value out of range to the implementation, which on
  amd64 gives the least \<open>int64\<close>.
\<close>

fun int_of_f64 :: "f64 \<Rightarrow> int" where
  "int_of_f64 (Fin a) =
     (let t = (if 0 \<le> a then \<lfloor>a\<rfloor> else \<lceil>a\<rceil>) in if in_int64 t then t else min_int64)"
| "int_of_f64 _ = min_int64"

abbreviation f64_0 :: f64 where "f64_0 \<equiv> Fin 0"
abbreviation f64_1 :: f64 where "f64_1 \<equiv> Fin 1"

section \<open>Bounds survive rounding\<close>

lemma rep_of_int [simp]: "\<bar>n\<bar> \<le> 2 ^ 53 \<Longrightarrow> rep (of_int n)"
proof -
  assume n: "\<bar>n\<bar> \<le> 2 ^ 53"
  then have "of_int \<bar>n\<bar> \<le> (of_int (2 ^ 53) :: rat)" by (simp only: of_int_le_iff)
  also have "\<dots> < 2 ^ 1024" by simp
  finally show ?thesis using n by (simp add: rep_def)
qed

lemma rep_numeral [simp]: "numeral k \<le> (2 ^ 53 :: int) \<Longrightarrow> rep (numeral k)"
  using rep_of_int [of "numeral k"] by simp

lemma rep_0 [simp]: "rep 0" and rep_1 [simp]: "rep 1"
  using rep_of_int [of 0] rep_of_int [of 1] by simp_all

lemma rep_rnd: "\<bar>rnd x\<bar> < 2 ^ 1024 \<Longrightarrow> rep (rnd x)"
  by (simp add: rep_def)

lemma rep_minus [simp]: "rep (- x) \<longleftrightarrow> rep x"
  by (auto simp: rep_def)

lemma f64_of_rat_wf [simp]: "wf64 (f64_of_rat x)"
  by (auto simp: f64_of_rat_def Let_def rep_def not_le)

lemma f64_of_rat_rep [simp]: "rep x \<Longrightarrow> f64_of_rat x = Fin x"
  by (auto simp: f64_of_rat_def rep_def Let_def)

lemma f64_of_rat_bounds:
  assumes "rep lo" and "rep hi" and "lo \<le> x" and "x \<le> hi"
  obtains r where "f64_of_rat x = Fin r" and "r = rnd x" and "rep r" and "lo \<le> r" and "r \<le> hi"
proof -
  have b: "lo \<le> rnd x" "rnd x \<le> hi"
    using assms rnd_mono [of lo x] rnd_mono [of x hi] by (simp_all add: rep_def)
  then have lt: "\<bar>rnd x\<bar> < 2 ^ 1024" using assms(1,2) by (auto simp: rep_def)
  then have "f64_of_rat x = Fin (rnd x)" by (auto simp: f64_of_rat_def Let_def)
  with that b rep_rnd [OF lt] show thesis by blast
qed

lemma f64_of_rat_mono_Fin:
  "f64_of_rat x = Fin a \<Longrightarrow> f64_of_rat y = Fin b \<Longrightarrow> x \<le> y \<Longrightarrow> a \<le> b"
  by (auto simp: f64_of_rat_def Let_def rnd_mono split: if_splits)

lemma f64_of_rat_FinD: "f64_of_rat x = Fin a \<Longrightarrow> a = rnd x \<and> rep a"
  using f64_of_rat_wf [of x] by (auto simp: f64_of_rat_def Let_def split: if_splits)

lemma rha_mono: "y \<le> z \<Longrightarrow> rha y \<le> rha z"
proof -
  assume yz: "y \<le> z"
  consider "0 \<le> y" | "y < 0" "0 \<le> z" | "z < 0" by linarith
  then show ?thesis
  proof cases
    case 1
    with yz show ?thesis by (simp add: rha_def floor_mono)
  next
    case 2
    have "0 \<le> \<lfloor>- y + 1 / 2\<rfloor>" and "0 \<le> \<lfloor>z + 1 / 2\<rfloor>"
      using 2 by (simp_all add: zero_le_floor)
    then have "- \<lfloor>- y + 1 / 2\<rfloor> \<le> \<lfloor>z + 1 / 2\<rfloor>" by linarith
    moreover have "rha y = - \<lfloor>- y + 1 / 2\<rfloor>" and "rha z = \<lfloor>z + 1 / 2\<rfloor>"
      using 2 by (simp_all add: rha_def)
    ultimately show ?thesis by linarith
  next
    case 3
    with yz show ?thesis by (simp add: rha_def floor_mono)
  qed
qed

lemma rha_of_int [simp]: "rha (of_int n) = n"
proof -
  have "\<lfloor>of_int k + 1 / 2 :: rat\<rfloor> = k" for k by linarith
  from this [of n] this [of "- n"] show ?thesis by (simp add: rha_def)
qed

lemma rha_bounds: "of_int a \<le> y \<Longrightarrow> y \<le> of_int b \<Longrightarrow> a \<le> rha y \<and> rha y \<le> b"
  using rha_mono [of "of_int a" y] rha_mono [of y "of_int b"] by simp

lemma f64_lt_Fin [simp]: "f64_lt (Fin a) (Fin b) \<longleftrightarrow> a < b"
  by (auto simp: f64_lt_def)

lemma f64_lt_NaN [simp]: "\<not> f64_lt NaN b" "\<not> f64_lt a NaN" "\<not> f64_le a NaN"
  by (simp_all add: f64_lt_def) (cases a; simp)+

lemma f64_le_trans: "f64_le a b \<Longrightarrow> f64_le b c \<Longrightarrow> f64_le a c"
  by (cases a; cases b; cases c) auto

lemma f64_eq_Fin [simp]: "f64_eq a (Fin b) \<longleftrightarrow> a = Fin b"
  by (cases a) auto

text \<open>Products of factors in \<open>[0, 1]\<close>: the value never grows.\<close>

lemma f64_mul_unit:
  assumes "0 \<le> a" and "rep a" and "0 \<le> b" and "b \<le> 1"
  obtains r where "f64_mul (Fin a) (Fin b) = Fin r" and "rep r" and "0 \<le> r" and "r \<le> a"
proof -
  have "0 \<le> a * b" and "a * b \<le> a" using assms by (simp_all add: mult_left_le)
  with f64_of_rat_bounds [OF rep_0 assms(2), of "a * b"] that show thesis by auto
qed

lemma f64_mul_wf [simp]: "wf64 (f64_mul a b)"
  by (cases "(a, b)" rule: f64_mul.cases) (auto simp: inf_times_def)

lemma f64_add_wf [simp]: "wf64 (f64_add a b)"
  by (cases "(a, b)" rule: f64_add.cases) auto

lemma f64_div_wf [simp]: "wf64 (f64_div a b)"
  by (cases "(a, b)" rule: f64_div.cases) auto

lemma f64_sub_wf [simp]: "wf64 (f64_sub a b)"
  by (simp add: f64_sub_def)


section \<open>Decimal literals\<close>

text \<open>
  \<open>strconv.ParseFloat\<close> on its decimal forms and the names of the infinities and NaN: \<open>None\<close> is a
  syntax error, or a value out of range. (Its hexadecimal forms are not modelled: they give \<open>None\<close>.)
\<close>

definition to_lower_ascii :: "string \<Rightarrow> string" where
  "to_lower_ascii = map (\<lambda>c. if 65 \<le> (of_char c :: nat) \<and> of_char c \<le> (90 :: nat)
                             then char_of ((of_char c :: nat) + 32) else c)"

definition parse_exponent :: "string \<Rightarrow> int option" where
  "parse_exponent s =
     (case s of [] \<Rightarrow> Some 0
      | c # t \<Rightarrow>
          if c \<noteq> CHR ''e'' \<and> c \<noteq> CHR ''E'' then None
          else let neg = (t \<noteq> [] \<and> hd t = CHR ''-'');
                   ds = (if t \<noteq> [] \<and> (hd t = CHR ''-'' \<or> hd t = CHR ''+'') then tl t else t)
               in if ds = [] \<or> \<not> list_all is_digit ds then None
                  else Some (if neg then - int (digits_val ds) else int (digits_val ds)))"

definition parse_unsigned :: "string \<Rightarrow> rat option" where
  "parse_unsigned s =
     (let ip = takeWhile is_digit s; r1 = dropWhile is_digit s;
          dot = (r1 \<noteq> [] \<and> hd r1 = CHR ''.'');
          fp = (if dot then takeWhile is_digit (tl r1) else []);
          r2 = (if dot then dropWhile is_digit (tl r1) else r1)
      in if ip = [] \<and> fp = [] then None
         else map_option (\<lambda>e. of_nat (digits_val (ip @ fp)) * 10 powi (e - int (length fp)))
                (parse_exponent r2))"

definition ParseFloat :: "string \<Rightarrow> f64 option" where
  "ParseFloat s =
     (let neg = (s \<noteq> [] \<and> hd s = CHR ''-'');
          t = (if s \<noteq> [] \<and> (hd s = CHR ''-'' \<or> hd s = CHR ''+'') then tl s else s)
      in if to_lower_ascii t = ''inf'' \<or> to_lower_ascii t = ''infinity'' then Some (if neg then NInf else PInf)
         else if to_lower_ascii s = ''nan'' then Some NaN
         else (case parse_unsigned t of
                 None \<Rightarrow> None
               | Some x \<Rightarrow> let f = f64_of_rat (if neg then - x else x)
                          in if is_fin f then Some f else None))"

end
