(* ===== verification/Breaker_Interface.thy ===== *)
theory Breaker_Interface
  imports Prelude
begin

text \<open>
  What a circuit breaker promises to the code that calls through it. The platform has two: the
  per-method breaker of the kernel's interceptor chain (\<open>internal/kernel/circuitbreaker.go\<close>) and the
  per-module breaker of the resilience guard (\<open>internal/resilience/circuit.go\<close>). Both keep one
  record per key, ask \<open>admit\<close> before a call and record the outcome after it. The locale states the
  contract once; its lemmas (an invariant kept by every sequence of guarded calls, and isolation:
  calls under other keys never touch a key's record) are reused for both implementations.
\<close>

text \<open>One call through a breaker: \<open>Some ok\<close> is the outcome when the call was admitted.\<close>

datatype 'k guarded_call = GuardedCall (at_time: time) (call_key: 'k) (returns_ok: bool)

definition guarded ::
  "(time \<Rightarrow> 'k \<Rightarrow> 's \<Rightarrow> bool \<times> 's) \<Rightarrow> (time \<Rightarrow> 'k \<Rightarrow> 's \<Rightarrow> 's) \<Rightarrow> (time \<Rightarrow> 'k \<Rightarrow> 's \<Rightarrow> 's)
    \<Rightarrow> 'k guarded_call \<Rightarrow> 's \<Rightarrow> bool \<times> 's" where
  "guarded admit success failure c s =
     (let (ok, s') = admit (at_time c) (call_key c) s
      in if \<not> ok then (False, s')
         else (True, (if returns_ok c then success else failure) (at_time c) (call_key c) s'))"

definition guarded_all ::
  "(time \<Rightarrow> 'k \<Rightarrow> 's \<Rightarrow> bool \<times> 's) \<Rightarrow> (time \<Rightarrow> 'k \<Rightarrow> 's \<Rightarrow> 's) \<Rightarrow> (time \<Rightarrow> 'k \<Rightarrow> 's \<Rightarrow> 's)
    \<Rightarrow> 'k guarded_call list \<Rightarrow> 's \<Rightarrow> 's" where
  "guarded_all admit success failure cs s =
     fold (\<lambda>c s. snd (guarded admit success failure c s)) cs s"

locale call_breaker =
  fixes admit :: "time \<Rightarrow> 'k \<Rightarrow> 's \<Rightarrow> bool \<times> 's"
    and success :: "time \<Rightarrow> 'k \<Rightarrow> 's \<Rightarrow> 's"
    and failure :: "time \<Rightarrow> 'k \<Rightarrow> 's \<Rightarrow> 's"
    and inv :: "'s \<Rightarrow> bool"
    and view :: "'s \<Rightarrow> 'k \<Rightarrow> 'r option"
    and isolated :: "time \<Rightarrow> 's \<Rightarrow> 'k \<Rightarrow> bool"
  assumes inv_admit: "inv s \<Longrightarrow> inv (snd (admit now k s))"
    and inv_success: "inv s \<Longrightarrow> inv (success now k s)"
    and inv_failure: "inv s \<Longrightarrow> inv (failure now k s)"
    and frame_admit: "k' \<noteq> k \<Longrightarrow> view (snd (admit now k s)) k' = view s k'"
    and frame_success: "k' \<noteq> k \<Longrightarrow> view (success now k s) k' = view s k'"
    and frame_failure: "k' \<noteq> k \<Longrightarrow> view (failure now k s) k' = view s k'"
    and isolated_rejects: "isolated now s k \<Longrightarrow> \<not> fst (admit now k s)"
begin

lemma inv_guarded: "inv s \<Longrightarrow> inv (snd (guarded admit success failure c s))"
  using inv_admit [of s "at_time c" "call_key c"]
  by (auto simp: guarded_def split: prod.splits intro: inv_success inv_failure)

lemma frame_guarded:
  "k' \<noteq> call_key c \<Longrightarrow> view (snd (guarded admit success failure c s)) k' = view s k'"
  using frame_admit [of k' "call_key c" "at_time c" s]
  by (auto simp: guarded_def frame_success frame_failure split: prod.splits)

lemma inv_guarded_all: "inv s \<Longrightarrow> inv (guarded_all admit success failure cs s)"
  unfolding guarded_all_def by (induction cs arbitrary: s) (auto intro: inv_guarded)

lemma frame_guarded_all:
  "k' \<notin> call_key ` set cs \<Longrightarrow> view (guarded_all admit success failure cs s) k' = view s k'"
  unfolding guarded_all_def by (induction cs arbitrary: s) (auto simp: frame_guarded)

lemma isolated_not_called:
  "isolated (at_time c) s (call_key c) \<Longrightarrow> \<not> fst (guarded admit success failure c s)"
  using isolated_rejects [of "at_time c" s "call_key c"]
  by (auto simp: guarded_def split: prod.splits)

end

end
