(* ===== verification/Circuit_Breaker.thy ===== *)
theory Circuit_Breaker
  imports Float64 Breaker_Interface
begin

text \<open>
  \<open>internal/kernel/circuitbreaker.go\<close>: the circuit breaker of the kernel's interceptor chain, one
  record per \<open>service/method\<close> key.

  \<open>circuitRecord\<close> and \<open>CircuitBreakerConfig\<close> keep the source's fields; the two optional callbacks
  are booleans (set or nil) and what the code calls through them is appended to \<open>fired\<close> in order.
  Each operation is one atomic step (the source guards the map and the record with their mutexes)
  and reads the clock once: \<open>now\<close> is that instant. The invariant bounds every window by
  \<open>maxWindowSize\<close> and keeps the counter of half-open failures between 0 and its limit.
\<close>

datatype CircuitState = StateClosed | StateOpen | StateHalfOpen

definition state_String :: "CircuitState \<Rightarrow> string" where
  "state_String s =
     (case s of StateClosed \<Rightarrow> ''CLOSED'' | StateOpen \<Rightarrow> ''OPEN'' | StateHalfOpen \<Rightarrow> ''HALF_OPEN'')"

definition maxWindowSize :: nat where "maxWindowSize = 1000"

record CircuitBreakerConfig =
  FailureRatio :: f64
  MinRequests :: int
  Timeout :: duration
  WindowSize :: duration
  OnStateChange :: bool
  BreakerExtensions :: bool
  HalfOpenMaxFails :: int

record windowEntry =
  timestamp :: time
  success :: bool

record circuitRecord =
  state :: CircuitState
  lastStateChange :: time
  window :: "windowEntry list"
  halfOpenFails :: int

definition zero_record :: circuitRecord where
  "zero_record = \<lparr>state = StateClosed, lastStateChange = 0, window = [], halfOpenFails = 0\<rparr>"

datatype breaker_event =
    StateChange string string
  | BreakerExtension (ext_service: string) (ext_method: string) (ext_state: string)

record CircuitBreaker =
  records :: "string \<rightharpoonup> circuitRecord"
  cfg :: CircuitBreakerConfig
  fired :: "breaker_event list"

definition cb_key :: "string \<Rightarrow> string \<Rightarrow> string" where
  "cb_key service method = service @ ''/'' @ method"

definition fireBreakerExtension :: "string \<Rightarrow> string \<Rightarrow> CircuitBreaker \<Rightarrow> CircuitBreaker" where
  "fireBreakerExtension k st cb =
     (if \<not> BreakerExtensions (cfg cb) then cb
      else (case str_index ''/'' k of
              Some i \<Rightarrow> cb\<lparr>fired := fired cb @ [BreakerExtension (take i k) (drop (i + 1) k) st]\<rparr>
            | None \<Rightarrow> cb\<lparr>fired := fired cb @ [BreakerExtension k [] st]\<rparr>))"

definition notifyChange :: "string \<Rightarrow> string \<Rightarrow> string \<Rightarrow> CircuitBreaker \<Rightarrow> CircuitBreaker" where
  "notifyChange k what st cb =
     fireBreakerExtension k st
       (if OnStateChange (cfg cb) then cb\<lparr>fired := fired cb @ [StateChange k what]\<rparr> else cb)"

definition addEntry :: "time \<Rightarrow> bool \<Rightarrow> circuitRecord \<Rightarrow> circuitRecord" where
  "addEntry now ok r =
     (let w = window r @ [\<lparr>timestamp = now, success = ok\<rparr>]
      in r\<lparr>window := (if length w > maxWindowSize then drop (length w - maxWindowSize) w else w)\<rparr>)"

definition pruneWindow :: "time \<Rightarrow> duration \<Rightarrow> circuitRecord \<Rightarrow> circuitRecord" where
  "pruneWindow now windowSize r =
     (let cutoff = now - windowSize
      in r\<lparr>window := dropWhile (\<lambda>e. timestamp e < cutoff) (window r)\<rparr>)"

definition failures_in :: "circuitRecord \<Rightarrow> nat" where
  "failures_in r = length (filter (\<lambda>e. \<not> success e) (window r))"

definition successes_in :: "circuitRecord \<Rightarrow> nat" where
  "successes_in r = length (filter success (window r))"

definition stats :: "time \<Rightarrow> duration \<Rightarrow> circuitRecord \<Rightarrow> (nat \<times> nat) \<times> circuitRecord" where
  "stats now windowSize r =
     (let r' = pruneWindow now windowSize r in ((failures_in r', successes_in r'), r'))"

definition NewCircuitBreaker :: "CircuitBreakerConfig \<Rightarrow> CircuitBreaker" where
  "NewCircuitBreaker c0 =
     (let c1 = (if f64_le (FailureRatio c0) f64_0 then c0\<lparr>FailureRatio := Fin (1 / 2)\<rparr> else c0);
          c2 = (if MinRequests c1 \<le> 0 then c1\<lparr>MinRequests := 10\<rparr> else c1);
          c3 = (if Timeout c2 \<le> 0 then c2\<lparr>Timeout := 30 * second\<rparr> else c2);
          c4 = (if WindowSize c3 \<le> 0 then c3\<lparr>WindowSize := 60 * second\<rparr> else c3)
      in \<lparr>records = Map.empty, cfg = c4, fired = []\<rparr>)"

definition getRecord :: "string \<Rightarrow> CircuitBreaker \<Rightarrow> circuitRecord \<times> CircuitBreaker" where
  "getRecord k cb =
     (case records cb k of
        Some r \<Rightarrow> (r, cb)
      | None \<Rightarrow> (zero_record, cb\<lparr>records := (records cb)(k \<mapsto> zero_record)\<rparr>))"

definition putRecord :: "string \<Rightarrow> circuitRecord \<Rightarrow> CircuitBreaker \<Rightarrow> CircuitBreaker" where
  "putRecord k r cb = cb\<lparr>records := (records cb)(k \<mapsto> r)\<rparr>"

text \<open>\<open>state\<close>: an open circuit whose timeout has passed turns half-open when it is asked.\<close>

definition cb_state :: "time \<Rightarrow> string \<Rightarrow> CircuitBreaker \<Rightarrow> CircuitState \<times> CircuitBreaker" where
  "cb_state now k cb0 =
     (let (r, cb) = getRecord k cb0
      in if state r = StateOpen \<and> time_sub now (lastStateChange r) > Timeout (cfg cb)
         then (StateHalfOpen,
               notifyChange k ''state_change_to_half_open'' ''half_open''
                 (putRecord k (r\<lparr>state := StateHalfOpen, lastStateChange := now\<rparr>) cb))
         else (state r, cb))"

definition maxHalfOpenFails :: "CircuitBreakerConfig \<Rightarrow> int" where
  "maxHalfOpenFails c = (if HalfOpenMaxFails c \<le> 0 then 3 else HalfOpenMaxFails c)"

definition ratio_trips :: "CircuitBreakerConfig \<Rightarrow> nat \<Rightarrow> nat \<Rightarrow> bool" where
  "ratio_trips c failures successes =
     (let total = failures + successes
      in int total \<ge> MinRequests c \<and> total > 0 \<and>
         f64_le (FailureRatio c) (f64_div (f64_of_int (int failures)) (f64_of_int (int total))))"

definition recordFailure :: "time \<Rightarrow> string \<Rightarrow> CircuitBreaker \<Rightarrow> CircuitBreaker" where
  "recordFailure now k cb0 =
     (let (r0, cb) = getRecord k cb0;
          r = addEntry now False r0
      in case state r of
           StateClosed \<Rightarrow>
             (let ((failures, successes), r1) = stats now (WindowSize (cfg cb)) r
              in if ratio_trips (cfg cb) failures successes
                 then notifyChange k ''opened'' ''open''
                        (putRecord k (r1\<lparr>state := StateOpen, lastStateChange := now\<rparr>) cb)
                 else putRecord k r1 cb)
         | StateHalfOpen \<Rightarrow>
             (let r1 = r\<lparr>halfOpenFails := halfOpenFails r + 1\<rparr>
              in if halfOpenFails r1 \<ge> maxHalfOpenFails (cfg cb)
                 then notifyChange k ''reopened'' ''open''
                        (putRecord k (r1\<lparr>state := StateOpen, halfOpenFails := 0,
                                         lastStateChange := now\<rparr>) cb)
                 else putRecord k r1 cb)
         | StateOpen \<Rightarrow> putRecord k r cb)"

definition recordSuccess :: "time \<Rightarrow> string \<Rightarrow> CircuitBreaker \<Rightarrow> CircuitBreaker" where
  "recordSuccess now k cb0 =
     (let (r0, cb) = getRecord k cb0;
          r = pruneWindow now (WindowSize (cfg cb)) (addEntry now True r0)
      in case state r of
           StateHalfOpen \<Rightarrow>
             notifyChange k ''closed'' ''closed''
               (putRecord k (r\<lparr>state := StateClosed, halfOpenFails := 0, window := [],
                               lastStateChange := now\<rparr>) cb)
         | _ \<Rightarrow> putRecord k r cb)"

definition cb_Allow :: "time \<Rightarrow> string \<Rightarrow> CircuitBreaker \<Rightarrow> bool \<times> CircuitBreaker" where
  "cb_Allow now k cb =
     (let (s, cb') = cb_state now k cb in (s = StateClosed \<or> s = StateHalfOpen, cb'))"

definition cb_Reset :: "string \<Rightarrow> CircuitBreaker \<Rightarrow> CircuitBreaker" where
  "cb_Reset k cb =
     (case records cb k of
        Some r \<Rightarrow> putRecord k (r\<lparr>state := StateClosed, window := []\<rparr>) cb
      | None \<Rightarrow> cb)"

definition cb_Stats :: "time \<Rightarrow> string \<Rightarrow> CircuitBreaker \<Rightarrow> (CircuitState \<times> nat \<times> nat) \<times> CircuitBreaker" where
  "cb_Stats now k cb0 =
     (let (r, cb) = getRecord k cb0;
          ((f, s), r') = stats now (WindowSize (cfg cb)) r
      in ((state r, f, s), putRecord k r' cb))"

definition staleThreshold :: duration where "staleThreshold = 15 * minute"

definition cleanupStaleRecords :: "time \<Rightarrow> CircuitBreaker \<Rightarrow> CircuitBreaker" where
  "cleanupStaleRecords now cb =
     cb\<lparr>records := (\<lambda>k. case records cb k of
          None \<Rightarrow> None
        | Some r \<Rightarrow>
            if time_sub now (lastStateChange r) > staleThreshold \<and> state r = StateClosed
            then None else Some r)\<rparr>"

section \<open>The invariant\<close>

definition wf_record :: "CircuitBreakerConfig \<Rightarrow> circuitRecord \<Rightarrow> bool" where
  "wf_record c r \<longleftrightarrow>
     length (window r) \<le> maxWindowSize \<and> 0 \<le> halfOpenFails r \<and> halfOpenFails r < maxHalfOpenFails c"

definition cb_inv :: "CircuitBreaker \<Rightarrow> bool" where
  "cb_inv cb \<longleftrightarrow> (\<forall>k r. records cb k = Some r \<longrightarrow> wf_record (cfg cb) r)"

lemma wf_zero [simp]: "wf_record c zero_record"
  by (simp add: wf_record_def zero_record_def maxHalfOpenFails_def)

lemma cfg_frame [simp]:
  "cfg (fireBreakerExtension k st cb) = cfg cb" "cfg (notifyChange k w st cb) = cfg cb"
  "cfg (putRecord k r cb) = cfg cb" "cfg (snd (getRecord k cb)) = cfg cb"
  by (auto simp: fireBreakerExtension_def notifyChange_def putRecord_def getRecord_def
      split: option.splits)

lemma records_frame [simp]:
  "records (fireBreakerExtension k st cb) = records cb" "records (notifyChange k w st cb) = records cb"
  "records (putRecord k r cb) = (records cb)(k \<mapsto> r)"
  by (auto simp: fireBreakerExtension_def notifyChange_def putRecord_def split: option.splits)

lemma getRecord_cases:
  obtains r where "getRecord k cb = (r, cb\<lparr>records := (records cb)(k \<mapsto> r)\<rparr>)"
    and "records cb k = Some r \<or> records cb k = None \<and> r = zero_record"
proof (cases "records cb k")
  case None
  then show thesis using that by (simp add: getRecord_def)
next
  case (Some r)
  then have "cb\<lparr>records := (records cb)(k \<mapsto> r)\<rparr> = cb"
    by (simp add: fun_upd_idem)
  with Some show thesis using that by (simp add: getRecord_def)
qed

lemma getRecord_wf: "cb_inv cb \<Longrightarrow> getRecord k cb = (r, cb') \<Longrightarrow> wf_record (cfg cb) r \<and> cb_inv cb'"
  by (auto simp: getRecord_def cb_inv_def split: option.splits if_splits)

lemma inv_put:
  "cb_inv cb \<Longrightarrow> wf_record (cfg cb) r \<Longrightarrow> records cb' = (records cb)(k \<mapsto> r) \<Longrightarrow> cfg cb' = cfg cb
    \<Longrightarrow> cb_inv cb'"
  by (auto simp: cb_inv_def)

lemma cb_inv_notify [simp]: "cb_inv (notifyChange k w st cb) \<longleftrightarrow> cb_inv cb"
  by (simp add: cb_inv_def)

lemma cb_inv_putRecord: "cb_inv cb \<Longrightarrow> wf_record (cfg cb) r \<Longrightarrow> cb_inv (putRecord k r cb)"
  by (rule inv_put) auto

lemma wf_addEntry [intro]: "wf_record c r \<Longrightarrow> wf_record c (addEntry now ok r)"
  by (auto simp: wf_record_def addEntry_def Let_def)

lemma wf_pruneWindow [intro]: "wf_record c r \<Longrightarrow> wf_record c (pruneWindow now w r)"
  by (auto simp: wf_record_def pruneWindow_def Let_def intro: order_trans [OF length_dropWhile_le])

lemma wf_update:
  "wf_record c (r\<lparr>state := s\<rparr>) \<longleftrightarrow> wf_record c r"
  "wf_record c (r\<lparr>lastStateChange := t\<rparr>) \<longleftrightarrow> wf_record c r"
  "wf_record c r \<Longrightarrow> wf_record c (r\<lparr>window := []\<rparr>)"
  "wf_record c r \<Longrightarrow> wf_record c (r\<lparr>halfOpenFails := 0\<rparr>)"
  by (auto simp: wf_record_def)

lemma state_frames [simp]:
  "state (addEntry now ok r) = state r" "state (pruneWindow now w r) = state r"
  "halfOpenFails (addEntry now ok r) = halfOpenFails r"
  "halfOpenFails (pruneWindow now w r) = halfOpenFails r"
  "lastStateChange (addEntry now ok r) = lastStateChange r"
  "lastStateChange (pruneWindow now w r) = lastStateChange r"
  by (simp_all add: addEntry_def pruneWindow_def Let_def)

lemma inv_New [inv_intros]: "cb_inv (NewCircuitBreaker c)"
  by (simp add: cb_inv_def NewCircuitBreaker_def Let_def)

lemma inv_state [inv_intros]: "cb_inv cb \<Longrightarrow> cb_inv (snd (cb_state now k cb))"
  using getRecord_wf [of cb k]
  by (auto simp: cb_state_def Let_def wf_update split: prod.splits intro!: cb_inv_putRecord)
    (metis cfg_frame(4) snd_conv)


lemma inv_recordFailure [inv_intros]: "cb_inv cb \<Longrightarrow> cb_inv (recordFailure now k cb)"
proof -
  assume inv: "cb_inv cb"
  obtain r cb' where g: "getRecord k cb = (r, cb')" by fastforce
  with inv have wf: "wf_record (cfg cb') r" "cb_inv cb'" and c: "cfg cb' = cfg cb"
    using getRecord_wf [OF inv g] cfg_frame(4) [of k cb] by simp_all
  have "wf_record (cfg cb') (addEntry now False r)" using wf(1) by blast
  moreover from this have "halfOpenFails r + 1 < maxHalfOpenFails (cfg cb') \<Longrightarrow>
      wf_record (cfg cb') ((addEntry now False r)\<lparr>halfOpenFails := halfOpenFails r + 1\<rparr>)"
    by (simp add: wf_record_def)
  moreover have "wf_record (cfg cb') (addEntry now False r) \<Longrightarrow>
      wf_record (cfg cb') ((addEntry now False r)\<lparr>state := StateOpen, halfOpenFails := 0,
         lastStateChange := now\<rparr>)"
    by (simp add: wf_record_def maxHalfOpenFails_def)
  ultimately show ?thesis using wf(2)
    by (auto simp: recordFailure_def Let_def g stats_def wf_update not_le c
        split: CircuitState.splits intro!: cb_inv_putRecord)
qed

lemma inv_recordSuccess [inv_intros]: "cb_inv cb \<Longrightarrow> cb_inv (recordSuccess now k cb)"
proof -
  assume inv: "cb_inv cb"
  obtain r cb' where g: "getRecord k cb = (r, cb')" by fastforce
  then have wf: "wf_record (cfg cb') r" "cb_inv cb'"
    using getRecord_wf [OF inv g] cfg_frame(4) [of k cb] by simp_all
  then have "wf_record (cfg cb') (pruneWindow now (WindowSize (cfg cb')) (addEntry now True r))"
    by blast
  then show ?thesis using wf(2)
    by (auto simp: recordSuccess_def Let_def g wf_record_def maxHalfOpenFails_def
        split: CircuitState.splits intro!: cb_inv_putRecord)
qed

lemma inv_Allow [inv_intros]: "cb_inv cb \<Longrightarrow> cb_inv (snd (cb_Allow now k cb))"
  using inv_state [of cb now k] by (cases "cb_state now k cb") (simp add: cb_Allow_def)

lemma inv_Reset [inv_intros]: "cb_inv cb \<Longrightarrow> cb_inv (cb_Reset k cb)"
  by (auto simp: cb_Reset_def cb_inv_def wf_record_def split: option.splits)

lemma inv_Stats [inv_intros]: "cb_inv cb \<Longrightarrow> cb_inv (snd (cb_Stats now k cb))"
proof -
  assume inv: "cb_inv cb"
  obtain r cb' where g: "getRecord k cb = (r, cb')" by fastforce
  then have "wf_record (cfg cb') r" "cb_inv cb'"
    using getRecord_wf [OF inv g] cfg_frame(4) [of k cb] by simp_all
  then show ?thesis by (auto simp: cb_Stats_def g stats_def Let_def intro!: cb_inv_putRecord)
qed

lemma inv_cleanup [inv_intros]: "cb_inv cb \<Longrightarrow> cb_inv (cleanupStaleRecords now cb)"
  by (auto simp: cleanupStaleRecords_def cb_inv_def split: option.splits if_splits)

text \<open>An open circuit whose timeout has not passed is isolated: it stays open and is not admitted.\<close>

definition cb_isolated :: "time \<Rightarrow> CircuitBreaker \<Rightarrow> string \<Rightarrow> bool" where
  "cb_isolated now cb k \<longleftrightarrow>
     (\<exists>r. records cb k = Some r \<and> state r = StateOpen \<and>
          time_sub now (lastStateChange r) \<le> Timeout (cfg cb))"

lemma frame_getRecord: "k' \<noteq> k \<Longrightarrow> records (snd (getRecord k cb)) k' = records cb k'"
  by (auto simp: getRecord_def split: option.splits)

lemma frame_state: "k' \<noteq> k \<Longrightarrow> records (snd (cb_state now k cb)) k' = records cb k'"
  using frame_getRecord [of k' k cb] by (auto simp: cb_state_def split: prod.splits)

interpretation kernel_cb: call_breaker cb_Allow recordSuccess recordFailure cb_inv records cb_isolated
proof
  fix s :: CircuitBreaker and now :: time and k k' :: string
  show "k' \<noteq> k \<Longrightarrow> records (snd (cb_Allow now k s)) k' = records s k'"
    using frame_state [of k' k now s] by (cases "cb_state now k s") (simp add: cb_Allow_def)
  show "k' \<noteq> k \<Longrightarrow> records (recordSuccess now k s) k' = records s k'"
    using frame_getRecord [of k' k s]
    by (auto simp: recordSuccess_def Let_def split: prod.splits CircuitState.splits)
  show "k' \<noteq> k \<Longrightarrow> records (recordFailure now k s) k' = records s k'"
    using frame_getRecord [of k' k s]
    by (auto simp: recordFailure_def Let_def split: prod.splits CircuitState.splits)
  show "cb_isolated now s k \<Longrightarrow> \<not> fst (cb_Allow now k s)"
    by (auto simp: cb_isolated_def cb_Allow_def cb_state_def getRecord_def)
qed (auto intro: inv_intros)

section \<open>The transitions, branch by branch\<close>

lemma recordFailure_closed:
  fixes now :: time
  assumes "records cb k = Some r" and "state r = StateClosed"
  defines "r1 \<equiv> pruneWindow now (WindowSize (cfg cb)) (addEntry now False r)"
  shows "records (recordFailure now k cb) k =
     Some (if ratio_trips (cfg cb) (failures_in r1) (successes_in r1)
           then r1\<lparr>state := StateOpen, lastStateChange := now\<rparr> else r1)"
  using assms by (simp add: recordFailure_def getRecord_def Let_def stats_def)

lemma recordFailure_half_open:
  assumes "records cb k = Some r" and "state r = StateHalfOpen"
  shows "\<exists>r'. records (recordFailure now k cb) k = Some r' \<and>
     (if halfOpenFails r + 1 \<ge> maxHalfOpenFails (cfg cb)
      then state r' = StateOpen \<and> halfOpenFails r' = 0 \<and> lastStateChange r' = now
      else state r' = StateHalfOpen \<and> halfOpenFails r' = halfOpenFails r + 1)"
  using assms by (simp add: recordFailure_def getRecord_def Let_def)

lemma recordSuccess_half_open:
  assumes "records cb k = Some r" and "state r = StateHalfOpen"
  shows "\<exists>r'. records (recordSuccess now k cb) k = Some r' \<and> state r' = StateClosed \<and>
     window r' = [] \<and> halfOpenFails r' = 0 \<and> lastStateChange r' = now"
  using assms by (simp add: recordSuccess_def getRecord_def Let_def)

text \<open>With a window ordered by time, pruning keeps exactly the entries inside the window.\<close>

definition ordered_window :: "circuitRecord \<Rightarrow> bool" where
  "ordered_window r \<longleftrightarrow> sorted (map timestamp (window r))"

lemma dropWhile_sorted:
  "sorted (map f xs) \<Longrightarrow> dropWhile (\<lambda>e. f e < c) xs = filter (\<lambda>e. c \<le> f e) xs"
  for f :: "'a \<Rightarrow> 'b::linorder"
proof (induction xs)
  case (Cons x xs)
  then show ?case
    by (auto simp: not_less intro!: filter_True [symmetric])
qed simp

lemma pruneWindow_filter:
  "ordered_window r \<Longrightarrow>
   window (pruneWindow now w r) = filter (\<lambda>e. now - w \<le> timestamp e) (window r)"
  by (simp add: pruneWindow_def Let_def ordered_window_def dropWhile_sorted)

section \<open>Properties\<close>

text \<open>
  C33. Every sequence of guarded calls, from a new breaker on, keeps the invariant (no window longer
  than 1000 entries, the half-open failure counter within its limit), and leaves the record of every
  key that was not called as it was.
\<close>

theorem breaker_calls_invariant:
  "cb_inv (guarded_all cb_Allow recordSuccess recordFailure cs (NewCircuitBreaker c)) \<and>
   (\<forall>k. k \<notin> call_key ` set cs \<longrightarrow>
      records (guarded_all cb_Allow recordSuccess recordFailure cs cb) k = records cb k)"
  using kernel_cb.inv_guarded_all [OF inv_New] kernel_cb.frame_guarded_all by blast

definition sample_config :: CircuitBreakerConfig where
  "sample_config =
     \<lparr>FailureRatio = Fin (1 / 2), MinRequests = 2, Timeout = 30 * second, WindowSize = 60 * second,
      OnStateChange = False, BreakerExtensions = False, HalfOpenMaxFails = 0\<rparr>"

definition sample_breaker :: CircuitBreaker where
  "sample_breaker = \<lparr>records = [''b/m'' \<mapsto> zero_record], cfg = sample_config, fired = []\<rparr>"

theorem breaker_calls_invariant_witness:
  "records (guarded_all cb_Allow recordSuccess recordFailure
      [GuardedCall 5 ''a/m'' False, GuardedCall 6 ''a/m'' True] sample_breaker) ''b/m''
     = Some zero_record"
  using breaker_calls_invariant [of "[GuardedCall 5 ''a/m'' False, GuardedCall 6 ''a/m'' True]"
    sample_config sample_breaker]
  by (auto simp: sample_breaker_def)

text \<open>
  A closed circuit opens on a failure exactly when the calls inside the time window, this failure
  included, number at least \<open>MinRequests\<close> and their failure ratio reaches \<open>FailureRatio\<close>; an open one
  rejects every call until more than \<open>Timeout\<close> has passed, and then admits calls half-open.
\<close>

theorem breaker_opens_and_rejects:
  assumes r: "records cb k = Some r" and cl: "state r = StateClosed" and o: "ordered_window r"
    and t: "\<forall>e\<in>set (window r). timestamp e \<le> now" and len: "length (window r) < maxWindowSize"
  shows "let inside = filter (\<lambda>e. now - WindowSize (cfg cb) \<le> timestamp e)
                 (window r @ [\<lparr>timestamp = now, success = False\<rparr>]);
             nf = length (filter (\<lambda>e. \<not> success e) inside) in
     \<exists>r'. records (recordFailure now k cb) k = Some r' \<and> window r' = inside \<and>
     (state r' = StateOpen \<longleftrightarrow>
        int (length inside) \<ge> MinRequests (cfg cb) \<and> inside \<noteq> [] \<and>
        f64_le (FailureRatio (cfg cb))
          (f64_div (f64_of_int (int nf)) (f64_of_int (int (length inside))))) \<and>
     (state r' = StateOpen \<longrightarrow>
        (\<forall>t. fst (cb_Allow t k (recordFailure now k cb)) \<longleftrightarrow> time_sub t now > Timeout (cfg cb)))"
proof -
  define inside where "inside = filter (\<lambda>e. now - WindowSize (cfg cb) \<le> timestamp e)
     (window r @ [\<lparr>timestamp = now, success = False\<rparr>])"
  define nf where "nf = length (filter (\<lambda>e. \<not> success e) inside)"
  let ?a = "addEntry now False r"
  let ?r1 = "pruneWindow now (WindowSize (cfg cb)) ?a"
  have wa: "window ?a = window r @ [\<lparr>timestamp = now, success = False\<rparr>]"
    using len by (simp add: addEntry_def Let_def)
  have "ordered_window ?a"
    using o t by (auto simp: ordered_window_def wa sorted_append)
  then have w1: "window ?r1 = inside" by (simp add: pruneWindow_filter wa inside_def)
  have sum: "failures_in ?r1 + successes_in ?r1 = length inside"
    using sum_length_filter_compl [of success inside] by (simp add: failures_in_def successes_in_def w1)
  have trips: "ratio_trips (cfg cb) (failures_in ?r1) (successes_in ?r1) \<longleftrightarrow>
      int (length inside) \<ge> MinRequests (cfg cb) \<and> inside \<noteq> [] \<and>
      f64_le (FailureRatio (cfg cb)) (f64_div (f64_of_int (int nf)) (f64_of_int (int (length inside))))"
    unfolding ratio_trips_def Let_def sum by (simp add: failures_in_def w1 nf_def)
  obtain c where c: "cfg (recordFailure now k cb) = cfg cb" and rec:
    "records (recordFailure now k cb) k =
       Some (if ratio_trips (cfg cb) (failures_in ?r1) (successes_in ?r1)
             then ?r1\<lparr>state := StateOpen, lastStateChange := now\<rparr> else ?r1)"
    using recordFailure_closed [OF r cl] r cl
    by (simp add: recordFailure_def getRecord_def Let_def stats_def)
  show ?thesis
  proof (cases "ratio_trips (cfg cb) (failures_in ?r1) (successes_in ?r1)")
    case True
    with rec have "records (recordFailure now k cb) k = Some (?r1\<lparr>state := StateOpen, lastStateChange := now\<rparr>)"
      by simp
    moreover from this have "fst (cb_Allow t k (recordFailure now k cb)) \<longleftrightarrow>
        time_sub t now > Timeout (cfg cb)" for t
      by (simp add: cb_Allow_def cb_state_def getRecord_def c)
    ultimately show ?thesis using True trips w1
      unfolding Let_def nf_def [symmetric] inside_def [symmetric] by simp
  next
    case False
    with rec trips cl w1 show ?thesis
      unfolding Let_def nf_def [symmetric] inside_def [symmetric] by auto
  qed
qed


definition one_failure :: circuitRecord where
  "one_failure = zero_record\<lparr>window := [\<lparr>timestamp = 7, success = False\<rparr>]\<rparr>"

theorem breaker_opens_and_rejects_witness:
  "\<exists>r'. records (recordFailure 9 ''b/m'' (putRecord ''b/m'' one_failure sample_breaker)) ''b/m'' = Some r'
     \<and> state r' = StateOpen"
proof -
  have p: "records (putRecord ''b/m'' one_failure sample_breaker) ''b/m'' = Some one_failure"
    by simp
  have "state one_failure = StateClosed" "ordered_window one_failure"
    "\<forall>e\<in>set (window one_failure). timestamp e \<le> 9" "length (window one_failure) < maxWindowSize"
    by (simp_all add: one_failure_def zero_record_def ordered_window_def maxWindowSize_def)
  from breaker_opens_and_rejects [OF p this] show ?thesis
    by (auto simp: one_failure_def zero_record_def sample_breaker_def sample_config_def second_def
        Let_def f64_of_int_def rep_of_int [of 2, simplified])
qed

text \<open>
  Half-open: a success closes the circuit and empties its window; a failure keeps it half-open
  until the failures counted since reach the limit (3 when \<open>HalfOpenMaxFails\<close> is not positive), when
  it opens again with the counter cleared.
\<close>

theorem breaker_half_open:
  assumes "records cb k = Some r" and "state r = StateHalfOpen"
  shows "(\<exists>s. records (recordSuccess now k cb) k = Some s \<and> state s = StateClosed \<and> window s = [] \<and>
            halfOpenFails s = 0 \<and> lastStateChange s = now) \<and>
         (\<exists>f. records (recordFailure now k cb) k = Some f \<and>
            (if halfOpenFails r + 1 \<ge> maxHalfOpenFails (cfg cb)
             then state f = StateOpen \<and> halfOpenFails f = 0 \<and> lastStateChange f = now
             else state f = StateHalfOpen \<and> halfOpenFails f = halfOpenFails r + 1))"
  using recordSuccess_half_open [OF assms] recordFailure_half_open [OF assms] by blast

theorem breaker_half_open_witness:
  "\<exists>f. records (recordFailure 9 ''b/m''
         (putRecord ''b/m'' (zero_record\<lparr>state := StateHalfOpen, halfOpenFails := 2\<rparr>) sample_breaker)) ''b/m''
       = Some f \<and> state f = StateOpen"
  using breaker_half_open [of "putRecord ''b/m'' (zero_record\<lparr>state := StateHalfOpen, halfOpenFails := 2\<rparr>)
    sample_breaker" "''b/m''" "zero_record\<lparr>state := StateHalfOpen, halfOpenFails := 2\<rparr>" 9]
  by (auto simp: sample_breaker_def sample_config_def maxHalfOpenFails_def)

text \<open>
  Two slips. A record whose state never changed still has the zero \<open>lastStateChange\<close>, so the
  cleanup drops it however recent its failures are (the ``stale'' test does not look at the window);
  and \<open>Reset\<close> does not clear the half-open failure counter.
\<close>

theorem cleanup_and_reset_slips:
  "(\<forall>r. records cb k = Some r \<and> state r = StateClosed \<and> lastStateChange r = 0 \<and> now > staleThreshold
      \<longrightarrow> records (cleanupStaleRecords now cb) k = None) \<and>
   (\<forall>r. records cb k = Some r \<longrightarrow>
      (\<exists>r'. records (cb_Reset k cb) k = Some r' \<and> state r' = StateClosed \<and> window r' = [] \<and>
            halfOpenFails r' = halfOpenFails r))"
  by (auto simp: cleanupStaleRecords_def cb_Reset_def time_sub_def staleThreshold_def minute_def
      second_def max_int64_def min_int64_def)

theorem cleanup_and_reset_slips_witness:
  "records (cleanupStaleRecords (16 * minute)
      (putRecord ''b/m'' (zero_record\<lparr>window := [\<lparr>timestamp = 16 * minute - 1, success = False\<rparr>]\<rparr>)
        sample_breaker)) ''b/m'' = None"
  using cleanup_and_reset_slips [of "putRecord ''b/m''
      (zero_record\<lparr>window := [\<lparr>timestamp = 16 * minute - 1, success = False\<rparr>]\<rparr>) sample_breaker"
      "''b/m''" "16 * minute"]
  by (auto simp: zero_record_def staleThreshold_def minute_def second_def)

end
