(* ===== verification/Resilience.thy ===== *)
theory Resilience
  imports Breaker_Interface
begin

text \<open>
  \<open>internal/resilience\<close> (build tag \<open>resilience\<close>): the per-module circuit breaker (\<open>circuit.go\<close>), the
  panic guard (\<open>guard.go\<close>) and the health table (\<open>health.go\<close>).

  The package-level maps \<open>breakers\<close> and \<open>health\<close> are the state; every operation is one atomic step
  under its mutex and reads the clock once (\<open>now\<close>). A guarded function is given by its outcome: it
  returns nil, returns an error, or panics. Formatted messages and log lines are left out except the
  error values the functions return.
\<close>

datatype State = RClosed | ROpen | RHalfOpen

definition State_String :: "State \<Rightarrow> string" where
  "State_String s =
     (case s of RClosed \<Rightarrow> ''closed'' | ROpen \<Rightarrow> ''open'' | RHalfOpen \<Rightarrow> ''half-open'')"

record breaker =
  rb_state :: State
  rb_failures :: int
  rb_successes :: int
  rb_lastFailure :: time
  rb_openedAt :: time
  rb_totalTrips :: int
  rb_threshold :: int
  rb_window :: duration
  rb_cooldown :: duration

type_synonym breakers = "string \<rightharpoonup> breaker"

definition new_breaker :: breaker where
  "new_breaker =
     \<lparr>rb_state = RClosed, rb_failures = 0, rb_successes = 0, rb_lastFailure = 0, rb_openedAt = 0,
      rb_totalTrips = 0, rb_threshold = 5, rb_window = 5 * minute, rb_cooldown = 1 * minute\<rparr>"

definition getBreaker :: "string \<Rightarrow> breakers \<Rightarrow> breaker" where
  "getBreaker m bs = (case bs m of Some b \<Rightarrow> b | None \<Rightarrow> new_breaker)"

definition RecordFailure :: "time \<Rightarrow> string \<Rightarrow> breakers \<Rightarrow> breakers" where
  "RecordFailure now m bs =
     (let b0 = getBreaker m bs;
          b = b0\<lparr>rb_failures := rb_failures b0 + 1, rb_lastFailure := now, rb_successes := 0\<rparr>
      in bs(m \<mapsto>
           (if rb_failures b \<ge> rb_threshold b \<and> (rb_state b = RClosed \<or> rb_state b = RHalfOpen)
            then b\<lparr>rb_state := ROpen, rb_openedAt := now, rb_totalTrips := rb_totalTrips b + 1\<rparr>
            else b)))"

definition RecordSuccess :: "string \<Rightarrow> breakers \<Rightarrow> breakers" where
  "RecordSuccess m bs =
     (let b0 = getBreaker m bs;
          b = b0\<lparr>rb_successes := rb_successes b0 + 1, rb_failures := 0\<rparr>
      in bs(m \<mapsto> (if rb_state b = RHalfOpen then b\<lparr>rb_state := RClosed\<rparr> else b)))"

definition Allow :: "time \<Rightarrow> string \<Rightarrow> breakers \<Rightarrow> bool \<times> breakers" where
  "Allow now m bs =
     (let b = getBreaker m bs; bs' = bs(m \<mapsto> b)
      in case rb_state b of
           RClosed \<Rightarrow> (True, bs')
         | ROpen \<Rightarrow>
             if time_sub now (rb_openedAt b) > rb_cooldown b
             then (True, bs(m \<mapsto> b\<lparr>rb_state := RHalfOpen\<rparr>))
             else (False, bs')
         | RHalfOpen \<Rightarrow> (False, bs'))"

definition Reset :: "string \<Rightarrow> breakers \<Rightarrow> breakers" where
  "Reset m bs =
     (let b = getBreaker m bs
      in bs(m \<mapsto> b\<lparr>rb_state := RClosed, rb_failures := 0, rb_successes := 0\<rparr>))"

datatype Status_msg =
    StatusNormal (msg_module: string) (msg_failures: int)
  | StatusIsolated string (msg_trips: int) (msg_remaining: duration)
  | StatusTrial string

definition Status :: "time \<Rightarrow> string \<Rightarrow> breakers \<Rightarrow> (State \<times> Status_msg) \<times> breakers" where
  "Status now m bs =
     (let b = getBreaker m bs; bs' = bs(m \<mapsto> b)
      in case rb_state b of
           RClosed \<Rightarrow> ((RClosed, StatusNormal m (rb_failures b)), bs')
         | ROpen \<Rightarrow>
             ((ROpen, StatusIsolated m (rb_totalTrips b) (rb_cooldown b - time_sub now (rb_openedAt b))), bs')
         | RHalfOpen \<Rightarrow> ((RHalfOpen, StatusTrial m), bs'))"

record Snapshot =
  snap_Module :: string
  snap_State :: string
  snap_Failures :: int
  snap_Successes :: int
  snap_LastFailure :: time
  snap_OpenedAt :: time
  snap_TotalTrips :: int

text \<open>\<open>All\<close> ranges over the map: \<open>order\<close> is this run's iteration order.\<close>

definition All :: "string list \<Rightarrow> breakers \<Rightarrow> Snapshot list" where
  "All order bs =
     map (\<lambda>n. let b = getBreaker n bs in
            \<lparr>snap_Module = n, snap_State = State_String (rb_state b), snap_Failures = rb_failures b,
             snap_Successes = rb_successes b, snap_LastFailure = rb_lastFailure b,
             snap_OpenedAt = rb_openedAt b, snap_TotalTrips = rb_totalTrips b\<rparr>) order"

section \<open>The guard\<close>

datatype outcome = Returns | Fails string | Panics string

datatype guard_error = FnError string | ModulePanicked string string string

text \<open>\<open>Guard\<close> does not ask \<open>Allow\<close>: it runs the function and records how it ended.\<close>

definition Guard :: "time \<Rightarrow> string \<Rightarrow> string \<Rightarrow> outcome \<Rightarrow> breakers \<Rightarrow> guard_error option \<times> breakers" where
  "Guard now m op r bs =
     (case r of
        Returns \<Rightarrow> (None, RecordSuccess m bs)
      | Fails e \<Rightarrow> (Some (FnError e), RecordFailure now m bs)
      | Panics p \<Rightarrow> (Some (ModulePanicked m op p), RecordFailure now m bs))"

text \<open>
  \<open>GuardGo\<close>: whether the goroutine was launched, and the breakers once it has ended. A goroutine has
  no error result; only a panic is recorded.
\<close>

definition GuardGo :: "time \<Rightarrow> time \<Rightarrow> string \<Rightarrow> outcome \<Rightarrow> breakers \<Rightarrow> bool \<times> breakers" where
  "GuardGo now ended m r bs =
     (let (ok, bs') = Allow now m bs
      in if \<not> ok then (False, bs')
         else (True, (case r of Panics p \<Rightarrow> RecordFailure ended m bs' | _ \<Rightarrow> bs')))"

record ErrorRateLimiter =
  erl_count :: int
  erl_limit :: int
  erl_window :: time

definition NewErrorRateLimiter :: "time \<Rightarrow> int \<Rightarrow> ErrorRateLimiter" where
  "NewErrorRateLimiter now perMinute = \<lparr>erl_count = 0, erl_limit = perMinute, erl_window = now\<rparr>"

definition AllowError :: "time \<Rightarrow> ErrorRateLimiter \<Rightarrow> bool \<times> ErrorRateLimiter" where
  "AllowError now r0 =
     (let r1 = (if time_sub now (erl_window r0) > minute
                then r0\<lparr>erl_count := 0, erl_window := now\<rparr> else r0);
          r2 = r1\<lparr>erl_count := erl_count r1 + 1\<rparr>
      in (erl_count r2 \<le> erl_limit r2, r2))"

section \<open>Module health\<close>

record ModuleHealth =
  mh_Name :: string
  mh_Healthy :: bool
  mh_LastCheck :: time
  mh_Message :: string
  mh_Panics :: int
  mh_Restarts :: int

type_synonym health = "string \<rightharpoonup> ModuleHealth"

definition get_health :: "string \<Rightarrow> health \<Rightarrow> ModuleHealth" where
  "get_health n h =
     (case h n of Some x \<Rightarrow> x
      | None \<Rightarrow> \<lparr>mh_Name = n, mh_Healthy = False, mh_LastCheck = 0, mh_Message = [],
                 mh_Panics = 0, mh_Restarts = 0\<rparr>)"

definition ReportHealth :: "time \<Rightarrow> string \<Rightarrow> bool \<Rightarrow> string \<Rightarrow> health \<Rightarrow> health" where
  "ReportHealth now n ok msg h =
     h(n \<mapsto> (get_health n h)\<lparr>mh_Healthy := ok, mh_LastCheck := now, mh_Message := msg\<rparr>)"

definition ReportPanic :: "time \<Rightarrow> string \<Rightarrow> health \<Rightarrow> health" where
  "ReportPanic now n h =
     (let x = get_health n h
      in h(n \<mapsto> x\<lparr>mh_Panics := mh_Panics x + 1, mh_Healthy := False, mh_LastCheck := now\<rparr>))"

definition ReportRestart :: "time \<Rightarrow> string \<Rightarrow> health \<Rightarrow> health" where
  "ReportRestart now n h =
     (let x = get_health n h
      in h(n \<mapsto> x\<lparr>mh_Restarts := mh_Restarts x + 1, mh_LastCheck := now\<rparr>))"

definition HealthSummary :: "string list \<Rightarrow> health \<Rightarrow> ModuleHealth list" where
  "HealthSummary order h = map (\<lambda>n. get_health n h) order"

definition IsHealthy :: "string list \<Rightarrow> health \<Rightarrow> bool" where
  "IsHealthy order h = (if order = [] then True else list_all (\<lambda>n. mh_Healthy (get_health n h)) order)"

section \<open>The breaker's invariant and its interface\<close>

text \<open>
  Counters never go negative, the configuration is the default one, and a circuit that is not closed
  has at least \<open>threshold\<close> consecutive failures behind it or a success since.
\<close>

definition wf_breaker :: "breaker \<Rightarrow> bool" where
  "wf_breaker b \<longleftrightarrow>
     0 \<le> rb_failures b \<and> 0 \<le> rb_successes b \<and> 0 \<le> rb_totalTrips b \<and>
     rb_threshold b = 5 \<and> rb_window b = 5 * minute \<and> rb_cooldown b = minute \<and>
     (rb_state b = RClosed \<longrightarrow> rb_failures b < rb_threshold b) \<and>
     (rb_state b \<noteq> RClosed \<longrightarrow> 0 < rb_totalTrips b)"

definition breakers_inv :: "breakers \<Rightarrow> bool" where
  "breakers_inv bs \<longleftrightarrow> (\<forall>m b. bs m = Some b \<longrightarrow> wf_breaker b)"

lemma wf_new_breaker [simp]: "wf_breaker new_breaker"
  by (simp add: wf_breaker_def new_breaker_def)

lemma wf_getBreaker: "breakers_inv bs \<Longrightarrow> wf_breaker (getBreaker m bs)"
  by (auto simp: breakers_inv_def getBreaker_def split: option.splits)

lemma breakers_inv_upd: "breakers_inv bs \<Longrightarrow> wf_breaker b \<Longrightarrow> breakers_inv (bs(m \<mapsto> b))"
  by (auto simp: breakers_inv_def)

lemma breakers_inv_empty [inv_intros]: "breakers_inv Map.empty"
  by (simp add: breakers_inv_def)

lemma inv_RecordFailure [inv_intros]: "breakers_inv bs \<Longrightarrow> breakers_inv (RecordFailure now m bs)"
  using wf_getBreaker [of bs m]
  by (auto simp: RecordFailure_def Let_def wf_breaker_def intro!: breakers_inv_upd)

lemma inv_RecordSuccess [inv_intros]: "breakers_inv bs \<Longrightarrow> breakers_inv (RecordSuccess m bs)"
  using wf_getBreaker [of bs m]
  by (auto simp: RecordSuccess_def Let_def wf_breaker_def intro!: breakers_inv_upd)

lemma inv_module_Allow [inv_intros]: "breakers_inv bs \<Longrightarrow> breakers_inv (snd (Allow now m bs))"
  using wf_getBreaker [of bs m]
  by (auto simp: Allow_def Let_def wf_breaker_def split: State.splits intro!: breakers_inv_upd)

lemma inv_module_Reset [inv_intros]: "breakers_inv bs \<Longrightarrow> breakers_inv (Reset m bs)"
  using wf_getBreaker [of bs m]
  by (auto simp: Reset_def Let_def wf_breaker_def intro!: breakers_inv_upd)

definition rb_isolated :: "time \<Rightarrow> breakers \<Rightarrow> string \<Rightarrow> bool" where
  "rb_isolated now bs m \<longleftrightarrow>
     (let b = getBreaker m bs
      in rb_state b = RHalfOpen \<or> rb_state b = ROpen \<and> time_sub now (rb_openedAt b) \<le> rb_cooldown b)"

interpretation module_cb:
  call_breaker Allow "\<lambda>_. RecordSuccess" RecordFailure breakers_inv "\<lambda>bs. bs" rb_isolated
proof
  fix s :: breakers and now :: time and k k' :: string
  show "k' \<noteq> k \<Longrightarrow> snd (Allow now k s) k' = s k'"
    by (auto simp: Allow_def Let_def split: State.splits)
  show "k' \<noteq> k \<Longrightarrow> RecordSuccess k s k' = s k'" by (simp add: RecordSuccess_def Let_def)
  show "k' \<noteq> k \<Longrightarrow> RecordFailure now k s k' = s k'" by (simp add: RecordFailure_def Let_def)
  show "rb_isolated now s k \<Longrightarrow> \<not> fst (Allow now k s)"
    by (auto simp: rb_isolated_def Allow_def Let_def split: State.splits)
qed (auto intro: inv_intros)


section \<open>Streaks\<close>

text \<open>Recording a list of outcomes, each at its own time.\<close>

definition record_outcome :: "string \<Rightarrow> time \<times> bool \<Rightarrow> breakers \<Rightarrow> breakers" where
  "record_outcome m oc bs = (if snd oc then RecordSuccess m bs else RecordFailure (fst oc) m bs)"

definition record_outcomes :: "string \<Rightarrow> (time \<times> bool) list \<Rightarrow> breakers \<Rightarrow> breakers" where
  "record_outcomes m os bs = fold (record_outcome m) os bs"

definition five_failures :: "bool list \<Rightarrow> bool" where
  "five_failures os \<longleftrightarrow> sublist (replicate 5 False) os"

definition trailing_failures :: "bool list \<Rightarrow> nat" where
  "trailing_failures os = length (takeWhile Not (rev os))"

lemma suffix_replicate_iff:
  "suffix (replicate n False) os \<longleftrightarrow> n \<le> trailing_failures os"
proof (induction n arbitrary: os)
  case (Suc n)
  show ?case
  proof (cases os rule: rev_cases)
    case (snoc ys y)
    have "suffix (replicate (Suc n) False) (ys @ [y]) \<longleftrightarrow> \<not> y \<and> suffix (replicate n False) ys"
      by (simp only: replicate_Suc replicate_append_same [symmetric] snoc_suffix_snoc) auto
    with Suc.IH [of ys] show ?thesis by (simp add: snoc trailing_failures_def)
  qed (simp add: trailing_failures_def)
qed simp

lemma five_failures_snoc:
  "five_failures (os @ [x]) \<longleftrightarrow> five_failures os \<or> 5 \<le> trailing_failures (os @ [x])"
  unfolding five_failures_def sublist_snoc suffix_replicate_iff by blast

lemma trailing_snoc [simp]:
  "trailing_failures (os @ [True]) = 0" "trailing_failures (os @ [False]) = Suc (trailing_failures os)"
  by (simp_all add: trailing_failures_def)

lemma streak_state:
  "let b = getBreaker m (record_outcomes m os Map.empty)
   in rb_threshold b = 5 \<and>
      (if five_failures (map snd os) then rb_state b = ROpen
       else rb_state b = RClosed \<and> rb_failures b = int (trailing_failures (map snd os)))"
proof (induction os rule: rev_induct)
  case Nil
  then show ?case
    by (simp add: record_outcomes_def getBreaker_def new_breaker_def five_failures_def
        trailing_failures_def)
next
  case (snoc oc os)
  obtain t x where oc: "oc = (t, x)" by fastforce
  show ?case
  proof (cases x)
    case True
    with snoc oc show ?thesis
      by (auto simp: record_outcomes_def record_outcome_def RecordSuccess_def Let_def getBreaker_def
          five_failures_snoc split: if_splits)
  next
    case False
    with snoc oc show ?thesis
      by (auto simp: record_outcomes_def record_outcome_def RecordFailure_def Let_def getBreaker_def
          five_failures_snoc split: if_splits)
  qed
qed

section \<open>Properties\<close>

text \<open>
  From a fresh start, the circuit of a module is open after a list of recorded outcomes exactly
  when five failures stand next to each other in it. When they happened is irrelevant: the
  configured window of five minutes is never consulted.
\<close>

theorem resilience_opens_on_streak:
  "rb_state (getBreaker m (record_outcomes m os Map.empty)) =
     (if sublist (replicate 5 False) (map snd os) then ROpen else RClosed)"
  using streak_state [of m os] by (auto simp: Let_def five_failures_def split: if_splits)

text \<open>
  Guarded calls keep the breakers well-formed and never touch another module's breaker; an open
  circuit inside its cooldown, and a half-open one, admit no call.
\<close>

theorem resilience_calls_isolated:
  "breakers_inv (guarded_all Allow (\<lambda>_. RecordSuccess) RecordFailure cs Map.empty) \<and>
   (\<forall>k. k \<notin> call_key ` set cs \<longrightarrow>
      guarded_all Allow (\<lambda>_. RecordSuccess) RecordFailure cs bs k = bs k) \<and>
   (\<forall>c. rb_isolated (at_time c) bs (call_key c) \<longrightarrow>
      \<not> fst (guarded Allow (\<lambda>_. RecordSuccess) RecordFailure c bs))"
  using module_cb.inv_guarded_all [OF breakers_inv_empty] module_cb.frame_guarded_all
    module_cb.isolated_not_called by blast

theorem resilience_calls_isolated_witness:
  "\<not> fst (guarded Allow (\<lambda>_. RecordSuccess) RecordFailure (GuardedCall 9 ''trivy'' True)
      [''trivy'' \<mapsto> new_breaker\<lparr>rb_state := ROpen, rb_openedAt := 3\<rparr>])"
proof -
  let ?bs = "[''trivy'' \<mapsto> new_breaker\<lparr>rb_state := ROpen, rb_openedAt := 3\<rparr>]"
  have "rb_isolated (at_time (GuardedCall 9 ''trivy'' True)) ?bs (call_key (GuardedCall 9 ''trivy'' True))"
    by (simp add: rb_isolated_def getBreaker_def new_breaker_def time_sub_def minute_def second_def
        max_int64_def min_int64_def)
  then show ?thesis
    using resilience_calls_isolated [of "[]" ?bs] by blast
qed

definition guardgo_all :: "string \<Rightarrow> (time \<times> time \<times> outcome) list \<Rightarrow> breakers \<Rightarrow> bool list \<times> breakers" where
  "guardgo_all m cs bs =
     fold (\<lambda>(t, e, r) (oks, bs). let (ok, bs') = GuardGo t e m r bs in (oks @ [ok], bs')) cs ([], bs)"

lemma GuardGo_half_open:
  "rb_state (getBreaker m bs) = RHalfOpen \<Longrightarrow>
   \<exists>bs'. GuardGo t e m r bs = (False, bs') \<and> rb_state (getBreaker m bs') = RHalfOpen"
  by (simp add: GuardGo_def Allow_def Let_def getBreaker_def)

lemma guardgo_all_half_open:
  "rb_state (getBreaker m bs) = RHalfOpen \<Longrightarrow>
   \<exists>bs'. fold (\<lambda>(t, e, r) (oks, bs). let (ok, bs') = GuardGo t e m r bs in (oks @ [ok], bs')) cs (pre, bs)
     = (pre @ replicate (length cs) False, bs') \<and> rb_state (getBreaker m bs') = RHalfOpen"
proof (induction cs arbitrary: bs pre)
  case (Cons c cs)
  obtain t e r where c: "c = (t, e, r)" by (cases c)
  from GuardGo_half_open [OF Cons.prems, of t e r] obtain bs1 where
    g: "GuardGo t e m r bs = (False, bs1)" and h: "rb_state (getBreaker m bs1) = RHalfOpen"
    by blast
  from Cons.IH [OF h, of "pre @ [False]"] show ?case by (simp add: c g)
qed simp



end
