(* ===== verification/Rate_Limiter.thy ===== *)
theory Rate_Limiter
  imports Float64
begin

text \<open>
  \<open>internal/kernel/ratelimit.go\<close>: the token bucket per client address. \<open>tokens\<close> is a \<open>float64\<close>
  that is refilled by \<open>elapsed * rate\<close>, capped at \<open>burst\<close>, and pays one token per admitted request.
  \<open>Duration.Seconds\<close> of the standard library is written out. The ticker goroutine is the
  operation it runs (\<open>CleanupStale\<close> with 30 minutes); \<open>Stop\<close> keeps the flag the source keeps.
\<close>

record clientBucket =
  tokens :: f64
  lastRefill :: time

record RateLimiter =
  rl_rate :: f64
  rl_burst :: int
  rl_buckets :: "string \<rightharpoonup> clientBucket"
  rl_onRejected :: bool
  rl_Extensions :: bool
  rl_stopped :: bool

definition go_quot :: "int \<Rightarrow> int \<Rightarrow> int" where
  "go_quot a b = sgn a * sgn b * (\<bar>a\<bar> div \<bar>b\<bar>)"

definition go_rem :: "int \<Rightarrow> int \<Rightarrow> int" where
  "go_rem a b = a - b * go_quot a b"

definition Seconds :: "duration \<Rightarrow> f64" where
  "Seconds d =
     f64_add (f64_of_int (go_quot d second)) (f64_div (f64_of_int (go_rem d second)) (f64_of_int 1000000000))"

definition NewRateLimiter :: "f64 \<Rightarrow> int \<Rightarrow> bool \<Rightarrow> RateLimiter" where
  "NewRateLimiter ratePerSec0 burst0 onRejected =
     (let ratePerSec = (if f64_le ratePerSec0 f64_0 then Fin 100 else ratePerSec0);
          burst = (if burst0 \<le> 0 then int_of_f64 ratePerSec else burst0)
      in \<lparr>rl_rate = ratePerSec, rl_burst = burst, rl_buckets = Map.empty,
          rl_onRejected = onRejected, rl_Extensions = False, rl_stopped = False\<rparr>)"

definition rl_Stop :: "RateLimiter \<Rightarrow> RateLimiter" where
  "rl_Stop r = r\<lparr>rl_stopped := True\<rparr>"

definition refill :: "RateLimiter \<Rightarrow> time \<Rightarrow> clientBucket \<Rightarrow> clientBucket" where
  "refill r now b =
     (let elapsed = Seconds (time_sub now (lastRefill b))
      in if f64_lt f64_0 elapsed
         then let t = f64_add (tokens b) (f64_mul elapsed (rl_rate r));
                  cap = f64_of_int (rl_burst r)
              in b\<lparr>tokens := (if f64_lt cap t then cap else t)\<rparr>
         else b)"

definition rl_allow :: "time \<Rightarrow> string \<Rightarrow> RateLimiter \<Rightarrow> bool \<times> RateLimiter" where
  "rl_allow now clientAddr r =
     (let b0 = (case rl_buckets r clientAddr of
                  Some b \<Rightarrow> b
                | None \<Rightarrow> \<lparr>tokens = f64_of_int (rl_burst r), lastRefill = now\<rparr>);
          b1 = (refill r now b0)\<lparr>lastRefill := now\<rparr>
      in if f64_le f64_1 (tokens b1)
         then (True, r\<lparr>rl_buckets := (rl_buckets r)(clientAddr \<mapsto> b1\<lparr>tokens := f64_sub (tokens b1) f64_1\<rparr>)\<rparr>)
         else (False, r\<lparr>rl_buckets := (rl_buckets r)(clientAddr \<mapsto> b1)\<rparr>))"

definition CleanupStale :: "time \<Rightarrow> duration \<Rightarrow> RateLimiter \<Rightarrow> RateLimiter" where
  "CleanupStale now maxAge r =
     r\<lparr>rl_buckets := (\<lambda>a. case rl_buckets r a of
          None \<Rightarrow> None
        | Some b \<Rightarrow> if lastRefill b < now - maxAge then None else Some b)\<rparr>"

section \<open>Tokens stay between 0 and the burst\<close>

definition wf_bucket :: "int \<Rightarrow> clientBucket \<Rightarrow> bool" where
  "wf_bucket burst b \<longleftrightarrow> (\<exists>x. tokens b = Fin x \<and> rep x \<and> 0 \<le> x \<and> x \<le> of_int burst)"

definition wf_limiter :: "RateLimiter \<Rightarrow> bool" where
  "wf_limiter r \<longleftrightarrow>
     0 < rl_burst r \<and> rl_burst r \<le> 2 ^ 53 \<and>
     (\<exists>q. rl_rate r = Fin q \<and> rep q \<and> 0 < q) \<and>
     (\<forall>a b. rl_buckets r a = Some b \<longrightarrow> wf_bucket (rl_burst r) b)"

lemma burst_f64: "0 < n \<Longrightarrow> n \<le> 2 ^ 53 \<Longrightarrow> f64_of_int n = Fin (of_int n)"
  by (simp add: f64_of_int_def)

lemma Seconds_cases: "Seconds d = PInf \<or> Seconds d = NInf \<or> Seconds d = NaN \<or> (\<exists>x. Seconds d = Fin x)"
  by (cases "Seconds d") auto

lemma f64_of_rat_nonneg_cases: "0 \<le> x \<Longrightarrow> f64_of_rat x = PInf \<or> (\<exists>y. f64_of_rat x = Fin y \<and> 0 \<le> y \<and> rep y)"
proof -
  assume "0 \<le> x"
  then have n: "0 \<le> rnd x" by (rule rnd_nonneg)
  show ?thesis
  proof (cases "2 ^ 1024 \<le> rnd x")
    case True
    then show ?thesis by (simp add: f64_of_rat_def)
  next
    case False
    with n have "rep (rnd x)" by (auto simp: rep_def)
    with False n show ?thesis by (auto simp: f64_of_rat_def Let_def)
  qed
qed

lemma refill_tokens:
  assumes r: "wf_limiter r" and b: "wf_bucket (rl_burst r) b"
  shows "wf_bucket (rl_burst r) (refill r now b)"
proof (cases "f64_lt f64_0 (Seconds (time_sub now (lastRefill b)))")
  case False
  then show ?thesis using b by (simp add: refill_def)
next
  case True
  let ?e = "Seconds (time_sub now (lastRefill b))"
  obtain q where q: "rl_rate r = Fin q" "0 < q" using r by (auto simp: wf_limiter_def)
  obtain x where x: "tokens b = Fin x" "rep x" "0 \<le> x" using b by (auto simp: wf_bucket_def)
  let ?n = "rl_burst r"
  have n: "0 < ?n" "?n \<le> 2 ^ 53" and cap: "f64_of_int ?n = Fin (of_int ?n)"
    using r by (auto simp: wf_limiter_def burst_f64)
  have capwf: "wf_bucket ?n (b\<lparr>tokens := Fin (of_int ?n)\<rparr>)"
    using n by (simp add: wf_bucket_def)
  have prod: "f64_mul ?e (Fin q) = PInf \<or> (\<exists>y. f64_mul ?e (Fin q) = Fin y \<and> 0 \<le> y)"
    using True q(2) f64_of_rat_nonneg_cases [of "val ?e * q"]
    by (cases ?e) (auto simp: inf_times_def f64_lt_def)
  have "f64_add (tokens b) (f64_mul ?e (Fin q)) = PInf \<or>
      (\<exists>y. f64_add (tokens b) (f64_mul ?e (Fin q)) = Fin y \<and> 0 \<le> y \<and> rep y)"
  proof -
    from prod show ?thesis
    proof
      assume "f64_mul ?e (Fin q) = PInf"
      then show ?thesis by (simp add: x(1))
    next
      assume "\<exists>y. f64_mul ?e (Fin q) = Fin y \<and> 0 \<le> y"
      then obtain y where "f64_mul ?e (Fin q) = Fin y" "0 \<le> y" by blast
      then show ?thesis using f64_of_rat_nonneg_cases [of "val (tokens b) + y"] x(3) by (simp add: x(1))
    qed
  qed
  then show ?thesis
  proof
    assume "f64_add (tokens b) (f64_mul ?e (Fin q)) = PInf"
    then show ?thesis using True q cap capwf by (simp add: refill_def Let_def f64_lt_def)
  next
    assume "\<exists>y. f64_add (tokens b) (f64_mul ?e (Fin q)) = Fin y \<and> 0 \<le> y \<and> rep y"
    then obtain y where y: "f64_add (tokens b) (f64_mul ?e (Fin q)) = Fin y" "0 \<le> y" "rep y"
      by blast
    then show ?thesis using True q cap capwf by (auto simp: refill_def Let_def wf_bucket_def)
  qed
qed

lemma pay_token:
  assumes "rep x" and "1 \<le> x"
  obtains y where "f64_sub (Fin x) f64_1 = Fin y" and "rep y" and "0 \<le> y" and "y \<le> x"
    and "\<forall>k. x \<le> of_int k \<and> 0 \<le> k \<and> k \<le> 2 ^ 53 \<longrightarrow> y \<le> of_int (k - 1)"
proof -
  from assms obtain y where y: "f64_of_rat (x - 1) = Fin y" "y = rnd (x - 1)" "rep y" "0 \<le> y" "y \<le> x"
    by (auto intro: f64_of_rat_bounds [OF rep_0 assms(1), of "x - 1"])
  have "y \<le> of_int (k - 1)" if k: "x \<le> of_int k" "0 \<le> k" "k \<le> 2 ^ 53" for k
  proof -
    have "rnd (x - 1) \<le> rnd (of_int (k - 1))" using k(1) by (intro rnd_mono) simp
    also have "\<dots> = of_int (k - 1)" using k by (intro rnd_of_int) auto
    finally show ?thesis using y(2) by simp
  qed
  with that y show thesis by (simp add: f64_sub_def)
qed

lemma rl_allow_wf:
  assumes "wf_limiter r"
  shows "wf_limiter (snd (rl_allow now a r))"
proof -
  let ?n = "rl_burst r"
  define b0 where "b0 = (case rl_buckets r a of Some b \<Rightarrow> b
      | None \<Rightarrow> \<lparr>tokens = f64_of_int ?n, lastRefill = now\<rparr>)"
  have "wf_bucket ?n b0"
    using assms by (auto simp: b0_def wf_limiter_def wf_bucket_def burst_f64 split: option.splits)
  then have "wf_bucket ?n ((refill r now b0)\<lparr>lastRefill := now\<rparr>)"
    using refill_tokens [OF assms] by (simp add: wf_bucket_def)
  then obtain x where x: "tokens (refill r now b0) = Fin x" "rep x" "0 \<le> x" "x \<le> of_int ?n"
    by (auto simp: wf_bucket_def)
  show ?thesis
  proof (cases "1 \<le> x")
    case True
    then obtain y where "f64_sub (Fin x) f64_1 = Fin y" "rep y" "0 \<le> y" "y \<le> x"
      using pay_token [OF x(2)] by metis
    with True x assms show ?thesis
      by (auto simp: rl_allow_def Let_def b0_def [symmetric] wf_limiter_def wf_bucket_def)
  next
    case False
    with x assms show ?thesis
      by (auto simp: rl_allow_def Let_def b0_def [symmetric] wf_limiter_def wf_bucket_def)
  qed
qed

section \<open>How many requests one instant admits\<close>

fun admitted_at :: "time \<Rightarrow> string \<Rightarrow> nat \<Rightarrow> RateLimiter \<Rightarrow> nat" where
  "admitted_at now a 0 r = 0"
| "admitted_at now a (Suc n) r =
     (let (ok, r') = rl_allow now a r in (if ok then 1 else 0) + admitted_at now a n r')"

lemma Seconds_0 [simp]: "Seconds (time_sub now now) = Fin 0"
  by (simp add: Seconds_def time_sub_def min_int64_def max_int64_def go_quot_def go_rem_def
      f64_of_int_def)

lemma refill_same_instant [simp]: "lastRefill b = now \<Longrightarrow> refill r now b = b"
  by (auto simp: refill_def)

lemma admitted_at_bound:
  assumes "wf_limiter r" and "rl_buckets r a = Some b" and "lastRefill b = now"
    and "tokens b = Fin x" and "x \<le> of_int k" and "0 \<le> k" and "k \<le> 2 ^ 53"
  shows "int (admitted_at now a n r) \<le> k"
  using assms
proof (induction n arbitrary: r b x k)
  case (Suc n)
  have "wf_bucket (rl_burst r) b" using Suc.prems(1,2) by (auto simp: wf_limiter_def)
  then have wb: "rep x" "0 \<le> x" using Suc.prems(4) by (auto simp: wf_bucket_def)
  note wf' = rl_allow_wf [OF Suc.prems(1), of now a]
  have b': "b = \<lparr>tokens = Fin x, lastRefill = now\<rparr>" using Suc.prems(3,4) by (cases b) simp
  show ?case
  proof (cases "1 \<le> x")
    case True
    then obtain y where y: "f64_sub (Fin x) f64_1 = Fin y" "y \<le> of_int (k - 1)"
      using pay_token [OF wb(1)] Suc.prems(5,6,7) by metis
    let ?r = "r\<lparr>rl_buckets := (rl_buckets r)(a \<mapsto> b\<lparr>tokens := Fin y\<rparr>)\<rparr>"
    have al: "rl_allow now a r = (True, ?r)"
      using Suc.prems(2) True y by (simp add: b' rl_allow_def Let_def)
    have k1: "1 \<le> k" using True Suc.prems(5) by (metis of_int_1_le_iff order_trans)
    have "int (admitted_at now a n ?r) \<le> k - 1"
      using wf' Suc.prems k1 y(2) al by (intro Suc.IH [of ?r "b\<lparr>tokens := Fin y\<rparr>" y]) auto
    then show ?thesis by (simp add: al)
  next
    case False
    have al: "rl_allow now a r = (False, r\<lparr>rl_buckets := (rl_buckets r)(a \<mapsto> b)\<rparr>)"
      using Suc.prems(2) False by (simp add: b' rl_allow_def Let_def)
    have "int (admitted_at now a n (r\<lparr>rl_buckets := (rl_buckets r)(a \<mapsto> b)\<rparr>)) \<le> k"
      using wf' Suc.prems al by (intro Suc.IH [of _ b x]) auto
    then show ?thesis by (simp add: al)
  qed
qed simp

section \<open>Properties\<close>

text \<open>
  A limiter with a positive finite rate and a burst of at most \<open>2 ^ 53\<close> keeps every bucket's
  tokens a finite value between 0 and the burst, whatever the clock does; a request never touches
  another client's bucket.
\<close>

theorem limiter_tokens_bounded:
  assumes "wf_limiter r"
  shows "wf_limiter (snd (rl_allow now a r)) \<and> wf_limiter (CleanupStale now d r) \<and>
    (\<forall>a'. a' \<noteq> a \<longrightarrow> rl_buckets (snd (rl_allow now a r)) a' = rl_buckets r a')"
proof -
  have "wf_limiter (CleanupStale now d r)"
    using assms by (auto simp: wf_limiter_def CleanupStale_def split: option.splits if_splits)
  moreover have "\<forall>a'. a' \<noteq> a \<longrightarrow> rl_buckets (snd (rl_allow now a r)) a' = rl_buckets r a'"
    by (simp add: rl_allow_def Let_def)
  ultimately show ?thesis using rl_allow_wf [OF assms] by blast
qed

lemma new_limiter_wf:
  "rep q \<Longrightarrow> 0 < q \<Longrightarrow> 0 < n \<Longrightarrow> n \<le> 2 ^ 53 \<Longrightarrow> wf_limiter (NewRateLimiter (Fin q) n h)"
  by (auto simp: wf_limiter_def NewRateLimiter_def)

theorem limiter_tokens_bounded_witness:
  "wf_limiter (snd (rl_allow 5 ''10.0.0.1'' (NewRateLimiter (Fin 100) 50 True)))"
  using limiter_tokens_bounded [OF new_limiter_wf [of 100 50 True]] by simp

text \<open>
  C35. However many requests a client sends at one instant, a limiter admits at most \<open>burst\<close> of them,
  also when the client's bucket does not exist yet.
\<close>

theorem limiter_burst:
  assumes "wf_limiter r"
  shows "int (admitted_at now a n r) \<le> rl_burst r"
proof (cases n)
  case 0
  then show ?thesis using assms by (simp add: wf_limiter_def)
next
  case (Suc m)
  let ?n = "rl_burst r"
  obtain ok r1 where al: "rl_allow now a r = (ok, r1)" by fastforce
  have wf1: "wf_limiter r1" using rl_allow_wf [OF assms(1), of now a] by (simp add: al)
  define b0 where "b0 = (case rl_buckets r a of Some b \<Rightarrow> b
      | None \<Rightarrow> \<lparr>tokens = f64_of_int ?n, lastRefill = now\<rparr>)"
  have "wf_bucket ?n b0"
    using assms(1) by (auto simp: b0_def wf_limiter_def wf_bucket_def burst_f64 split: option.splits)
  from refill_tokens [OF assms(1) this, of now] obtain x where
    x: "tokens (refill r now b0) = Fin x" "rep x" "x \<le> of_int ?n"
    by (auto simp: wf_bucket_def)
  have n: "0 < ?n" "?n \<le> 2 ^ 53" using assms(1) by (auto simp: wf_limiter_def)
  have step: "\<exists>b1 y. rl_buckets r1 a = Some b1 \<and> lastRefill b1 = now \<and> tokens b1 = Fin y \<and>
      y \<le> of_int (if ok then ?n - 1 else ?n) \<and> rl_burst r1 = ?n"
  proof (cases "1 \<le> x")
    case True
    then obtain y where "f64_sub (Fin x) f64_1 = Fin y" "y \<le> of_int (?n - 1)"
      using pay_token [OF x(2)] x(3) n by (metis order_less_imp_le)
    with True x(1) al show ?thesis by (auto simp: rl_allow_def Let_def b0_def [symmetric])
  next
    case False
    with x al show ?thesis by (auto simp: rl_allow_def Let_def b0_def [symmetric])
  qed
  then obtain b1 y where b1: "rl_buckets r1 a = Some b1" "lastRefill b1 = now" "tokens b1 = Fin y"
    "y \<le> of_int (if ok then ?n - 1 else ?n)" by blast
  have "int (admitted_at now a m r1) \<le> (if ok then ?n - 1 else ?n)"
    using n by (intro admitted_at_bound [OF wf1 b1]) auto
  then show ?thesis by (simp add: Suc al split: if_splits)
qed

theorem limiter_burst_witness:
  "int (admitted_at 5 ''10.0.0.1'' 1000 (NewRateLimiter (Fin 100) 50 True)) \<le> 50"
  using limiter_burst [OF new_limiter_wf [of 100 50 True], of 5 "''10.0.0.1''" 1000]
  by (simp add: NewRateLimiter_def)

end
