(* ===== verification/Interceptor.thy ===== *)
theory Interceptor
  imports Circuit_Breaker Rate_Limiter
begin

text \<open>
  \<open>internal/kernel/interceptor.go\<close>, \<open>auditlog.go\<close> and the \<open>Interceptor\<close> methods of the rate limiter
  and the circuit breaker: the chain every request of the transport layer runs through.

  A handler takes a request and the state of the chain and returns a reply or panics (\<open>Panicked\<close>);
  the state holds what the interceptors share by pointer (the limiter, the breaker), the calls made
  through the hooks in order, the clock, and the state \<open>app\<close> of the service behind the chain, which is
  a parameter: a function of the request, the clock and \<open>app\<close>. \<open>Then\<close> wraps every interceptor in the
  source's deferred \<open>recover\<close>.
\<close>

record request =
  req_client :: "string option"
  req_service :: string
  req_method :: string
  req_payload :: string

datatype reply = Reply (resp: "string option") (err: "string option") | Panicked string

record InterceptorEvent =
  ev_Timestamp :: time
  ev_ClientAddr :: string
  ev_Service :: string
  ev_Method :: string
  ev_RequestSize :: nat
  ev_Success :: bool
  ev_Duration :: duration
  ev_Error :: string

record 'a chain_state =
  clock :: time
  limiter :: RateLimiter
  breaker :: CircuitBreaker
  audit :: "InterceptorEvent list"
  rejected :: "(string \<times> string \<times> string) list"
  exceeded :: "(string \<times> string \<times> string) list"
  app :: 'a

type_synonym 'a HandlerFunc = "request \<Rightarrow> 'a chain_state \<Rightarrow> reply \<times> 'a chain_state"
type_synonym 'a Interceptor = "'a HandlerFunc \<Rightarrow> 'a HandlerFunc"

text \<open>The service behind the chain, lifted to the chain's state.\<close>

definition service_handler ::
  "(request \<Rightarrow> time \<Rightarrow> 'a \<Rightarrow> reply \<times> time \<times> 'a) \<Rightarrow> 'a HandlerFunc" where
  "service_handler f = (\<lambda>q s. let (r, t, a) = f q (clock s) (app s) in (r, s\<lparr>clock := t, app := a\<rparr>))"

section \<open>The interceptors\<close>

definition audit_interceptor :: "bool \<Rightarrow> 'a Interceptor" where
  "audit_interceptor onAudit handler = (\<lambda>q s.
     let start = clock s; (r, s1) = handler q s
     in case r of
          Panicked p \<Rightarrow> (Panicked p, s1)
        | Reply rs er \<Rightarrow>
            (Reply rs er,
             if onAudit then s1\<lparr>audit := audit s1 @
               [\<lparr>ev_Timestamp = start,
                 ev_ClientAddr = (case req_client q of Some a \<Rightarrow> a | None \<Rightarrow> []),
                 ev_Service = req_service q, ev_Method = req_method q,
                 ev_RequestSize = length (req_payload q), ev_Success = (er = None),
                 ev_Duration = time_sub (clock s1) start,
                 ev_Error = (case er of Some e \<Rightarrow> e | None \<Rightarrow> [])\<rparr>]\<rparr>
             else s1))"

definition client_addr :: "request \<Rightarrow> string" where
  "client_addr q = (case req_client q of Some a \<Rightarrow> (if a = [] then ''unknown'' else a) | None \<Rightarrow> ''unknown'')"

definition limit_error :: "request \<Rightarrow> string" where
  "limit_error q = ''rate limit exceeded: '' @ req_service q @ ''/'' @ req_method q
     @ '' (client: '' @ client_addr q @ '')''"

definition limiter_interceptor :: "'a Interceptor" where
  "limiter_interceptor handler = (\<lambda>q s.
     let (ok, rl) = rl_allow (clock s) (client_addr q) (limiter s); s1 = s\<lparr>limiter := rl\<rparr>
     in if ok then handler q s1
        else
          (let s2 = (if rl_onRejected rl
                     then s1\<lparr>rejected := rejected s1 @ [(req_service q, req_method q, ''rate_limit_exceeded'')]\<rparr>
                     else s1);
               s3 = (if rl_Extensions rl
                     then s2\<lparr>exceeded := exceeded s2 @ [(req_service q, req_method q, client_addr q)]\<rparr>
                     else s2)
           in (Reply None (Some (limit_error q)), s3)))"

definition breaker_interceptor :: "'a Interceptor" where
  "breaker_interceptor handler = (\<lambda>q s.
     let k = cb_key (req_service q) (req_method q);
         (st, cb) = cb_state (clock s) k (breaker s); s1 = s\<lparr>breaker := cb\<rparr>
     in if st = StateOpen then (Reply None (Some (''circuit breaker open: '' @ k)), s1)
        else
          (let (r, s2) = handler q s1
           in case r of
                Panicked p \<Rightarrow> (Panicked p, s2)
              | Reply rs er \<Rightarrow>
                  (Reply rs er,
                   s2\<lparr>breaker := (if er \<noteq> None then recordFailure (clock s2) k (breaker s2)
                                 else recordSuccess (clock s2) k (breaker s2))\<rparr>)))"

section \<open>The chain\<close>

definition recovering :: "'a Interceptor \<Rightarrow> 'a Interceptor" where
  "recovering ic handler = (\<lambda>q s.
     case ic handler q s of
       (Panicked p, s') \<Rightarrow> (Reply None (Some (''interceptor panic: '' @ p)), s')
     | res \<Rightarrow> res)"

definition Then :: "'a Interceptor list \<Rightarrow> 'a HandlerFunc \<Rightarrow> 'a HandlerFunc" where
  "Then chain handler = foldr recovering chain handler"

definition Use :: "'a Interceptor list \<Rightarrow> 'a Interceptor list \<Rightarrow> 'a Interceptor list" where
  "Use chain ics = chain @ ics"

record InterceptorHooks =
  OnRejected :: bool
  OnBroken :: bool
  OnAudit :: bool

record InterceptorConfig =
  RateLimitEnabled :: bool
  RateLimitPerSec :: f64
  RateLimitBurst :: int
  CircuitBreakerEnabled :: bool
  CircuitBreakerRatio :: f64
  CircuitBreakerMinReq :: int
  CircuitBreakerTimeout :: duration
  AuditLogEnabled :: bool
  Hooks :: "InterceptorHooks option"

definition DefaultInterceptorHooks :: InterceptorHooks where
  "DefaultInterceptorHooks = \<lparr>OnRejected = True, OnBroken = True, OnAudit = True\<rparr>"

definition DefaultInterceptorConfig :: InterceptorConfig where
  "DefaultInterceptorConfig =
     \<lparr>RateLimitEnabled = False, RateLimitPerSec = Fin 100, RateLimitBurst = 50,
      CircuitBreakerEnabled = False, CircuitBreakerRatio = Fin (1 / 2), CircuitBreakerMinReq = 10,
      CircuitBreakerTimeout = 30 * second, AuditLogEnabled = True,
      Hooks = Some DefaultInterceptorHooks\<rparr>"

record 'a Interceptors =
  Chain :: "'a Interceptor list"
  icRateLimiter :: "RateLimiter option"
  icCircuitBreaker :: "CircuitBreaker option"
  icAuditLog :: bool

text \<open>\<open>None\<close> is the panic of reading a hook through a nil \<open>Hooks\<close>.\<close>

definition NewInterceptors :: "InterceptorConfig \<Rightarrow> 'a Interceptors option" where
  "NewInterceptors c =
     (if Hooks c = None \<and> (AuditLogEnabled c \<or> RateLimitEnabled c \<or> CircuitBreakerEnabled c) then None
      else
        (let hooks = (case Hooks c of Some h \<Rightarrow> h | None \<Rightarrow> DefaultInterceptorHooks);
             ch1 = (if AuditLogEnabled c then Use [] [audit_interceptor (OnAudit hooks)] else []);
             ch2 = (if RateLimitEnabled c then Use ch1 [limiter_interceptor] else ch1);
             ch3 = (if CircuitBreakerEnabled c then Use ch2 [breaker_interceptor] else ch2)
         in Some \<lparr>Chain = ch3,
              icRateLimiter =
                (if RateLimitEnabled c
                 then Some (NewRateLimiter (RateLimitPerSec c) (RateLimitBurst c) (OnRejected hooks))
                 else None),
              icCircuitBreaker =
                (if CircuitBreakerEnabled c
                 then Some (NewCircuitBreaker
                   \<lparr>FailureRatio = CircuitBreakerRatio c, MinRequests = CircuitBreakerMinReq c,
                    Timeout = CircuitBreakerTimeout c, WindowSize = 0, OnStateChange = OnBroken hooks,
                    BreakerExtensions = False, HalfOpenMaxFails = 0\<rparr>)
                 else None),
              icAuditLog = AuditLogEnabled c\<rparr>))"

section \<open>Reading the configuration\<close>

text \<open>\<open>common.ParseInt\<close>: digits only, and the sum wraps without an error.\<close>

definition ParseInt :: "string \<Rightarrow> int option" where
  "ParseInt s =
     (if s = [] \<or> \<not> list_all is_digit s then None
      else Some (foldl (\<lambda>n c. wrap64 (n * 10 + int (digit_val c))) 0 s))"

definition config_flag :: "string \<Rightarrow> bool" where
  "config_flag v \<longleftrightarrow> v = ''true'' \<or> v = ''1''"

definition with_flag :: "(string \<rightharpoonup> string) \<Rightarrow> string \<Rightarrow> (bool \<Rightarrow> 'c \<Rightarrow> 'c) \<Rightarrow> 'c \<Rightarrow> 'c" where
  "with_flag conf k f c = (case conf k of Some v \<Rightarrow> f (config_flag v) c | None \<Rightarrow> c)"

definition with_float :: "(string \<rightharpoonup> string) \<Rightarrow> string \<Rightarrow> (f64 \<Rightarrow> bool) \<Rightarrow> (f64 \<Rightarrow> 'c \<Rightarrow> 'c) \<Rightarrow> 'c \<Rightarrow> 'c" where
  "with_float conf k ok f c =
     (case conf k of
        Some v \<Rightarrow> (case ParseFloat v of Some x \<Rightarrow> if ok x then f x c else c | None \<Rightarrow> c)
      | None \<Rightarrow> c)"

definition with_int :: "(string \<rightharpoonup> string) \<Rightarrow> string \<Rightarrow> (int \<Rightarrow> 'c \<Rightarrow> 'c) \<Rightarrow> 'c \<Rightarrow> 'c" where
  "with_int conf k f c =
     (case conf k of
        Some v \<Rightarrow> (case ParseInt v of Some i \<Rightarrow> if 0 < i then f i c else c | None \<Rightarrow> c)
      | None \<Rightarrow> c)"

definition ResolveInterceptorConfig :: "(string \<rightharpoonup> string) \<Rightarrow> InterceptorConfig" where
  "ResolveInterceptorConfig conf =
     (let c0 = DefaultInterceptorConfig;
          c1 = with_flag conf ''interceptor.rate_limit_enabled'' (\<lambda>b c. c\<lparr>RateLimitEnabled := b\<rparr>) c0;
          c2 = with_float conf ''interceptor.rate_limit_per_sec'' (\<lambda>x. f64_lt f64_0 x)
                 (\<lambda>x c. c\<lparr>RateLimitPerSec := x\<rparr>) c1;
          c3 = with_int conf ''interceptor.rate_limit_burst'' (\<lambda>i c. c\<lparr>RateLimitBurst := i\<rparr>) c2;
          c4 = with_flag conf ''interceptor.circuit_breaker_enabled''
                 (\<lambda>b c. c\<lparr>CircuitBreakerEnabled := b\<rparr>) c3;
          c5 = with_float conf ''interceptor.circuit_breaker_ratio''
                 (\<lambda>x. f64_lt f64_0 x \<and> f64_le x f64_1) (\<lambda>x c. c\<lparr>CircuitBreakerRatio := x\<rparr>) c4;
          c6 = with_int conf ''interceptor.circuit_breaker_min_req''
                 (\<lambda>i c. c\<lparr>CircuitBreakerMinReq := i\<rparr>) c5;
          c7 = with_int conf ''interceptor.circuit_breaker_timeout_s''
                 (\<lambda>i c. c\<lparr>CircuitBreakerTimeout := wrap64 (i * second)\<rparr>) c6
      in with_flag conf ''interceptor.audit_log_enabled'' (\<lambda>b c. c\<lparr>AuditLogEnabled := b\<rparr>) c7)"

section \<open>The interface of an interceptor\<close>

text \<open>
  Every interceptor either answers by itself (\<open>Inr\<close>) or passes the same request on exactly once,
  from the state \<open>Inl s1\<close>, and may then rework the reply; it does not panic by itself.
\<close>

definition runs_as ::
  "'a Interceptor \<Rightarrow> (request \<Rightarrow> 'a chain_state \<Rightarrow> 'a chain_state + reply \<times> 'a chain_state)
    \<Rightarrow> (request \<Rightarrow> 'a chain_state \<Rightarrow> reply \<times> 'a chain_state \<Rightarrow> reply \<times> 'a chain_state) \<Rightarrow> bool" where
  "runs_as ic pre post \<longleftrightarrow>
     (\<forall>handler q s. ic handler q s =
        (case pre q s of Inr res \<Rightarrow> res
         | Inl s1 \<Rightarrow> (case handler q s1 of (Panicked p, s2) \<Rightarrow> (Panicked p, s2)
                     | res \<Rightarrow> post q s res)))"

fun is_reply :: "reply \<Rightarrow> bool" where
  "is_reply (Reply _ _) = True"
| "is_reply (Panicked _) = False"

locale interceptor =
  fixes ic :: "'a Interceptor"
    and pre :: "request \<Rightarrow> 'a chain_state \<Rightarrow> 'a chain_state + reply \<times> 'a chain_state"
    and post :: "request \<Rightarrow> 'a chain_state \<Rightarrow> reply \<times> 'a chain_state \<Rightarrow> reply \<times> 'a chain_state"
  assumes shape: "runs_as ic pre post"
    and pre_reply: "pre q s = Inr res \<Longrightarrow> is_reply (fst res)"
    and post_reply: "is_reply (fst res) \<Longrightarrow> is_reply (fst (post q s res))"
    and pre_frame: "pre q s = Inl s1 \<Longrightarrow> app s1 = app s \<and> clock s1 = clock s"
    and answer_app: "pre q s = Inr res \<Longrightarrow> app (snd res) = app s"
    and post_app: "app (snd (post q s res)) = app (snd res)"
begin

lemma run_cases:
  obtains (answered) res where "pre q s = Inr res" "ic handler q s = res" "is_reply (fst res)"
  | (panicked) s1 p s2 where "pre q s = Inl s1" "handler q s1 = (Panicked p, s2)" "ic handler q s = (Panicked p, s2)"
  | (replied) s1 rs er s2 where "pre q s = Inl s1" "handler q s1 = (Reply rs er, s2)"
      "ic handler q s = post q s (Reply rs er, s2)"
proof (cases "pre q s")
  case (Inr res)
  with shape pre_reply [OF Inr] that(1) show thesis by (simp add: runs_as_def)
next
  case (Inl s1)
  obtain r s2 where h: "handler q s1 = (r, s2)" by (cases "handler q s1")
  have run: "ic handler q s = (case (r, s2) of (Panicked p, s2) \<Rightarrow> (Panicked p, s2) | res \<Rightarrow> post q s res)"
    using shape Inl h by (simp add: runs_as_def)
  show thesis
  proof (cases r)
    case (Reply rs er)
    then show thesis using that(3) Inl h run by simp
  next
    case (Panicked p)
    then show thesis using that(2) Inl h run by simp
  qed
qed

lemma recovering_reply: "is_reply (fst (recovering ic handler q s))"
proof (rule run_cases [of q s handler])
  fix res assume "ic handler q s = res" "is_reply (fst res)"
  then show ?thesis by (cases res; cases "fst res") (auto simp: recovering_def)
next
  fix s1 p s2 assume "ic handler q s = (Panicked p, s2)"
  then show ?thesis by (simp add: recovering_def)
next
  fix s1 rs er s2
  assume e: "ic handler q s = post q s (Reply rs er, s2)"
  have "is_reply (fst (post q s (Reply rs er, s2)))" by (rule post_reply) simp
  with e show ?thesis
    by (cases "post q s (Reply rs er, s2)"; cases "fst (post q s (Reply rs er, s2))")
      (auto simp: recovering_def)
qed

lemma recovering_snd [simp]: "snd (recovering ic handler q s) = snd (ic handler q s)"
  by (simp add: recovering_def split: prod.splits reply.splits)

lemma app_step:
  assumes "\<And>s'. app s' = app s \<Longrightarrow> clock s' = clock s \<Longrightarrow> app (snd (handler q s')) = app s \<or> app (snd (handler q s')) = a"
  shows "app (snd (recovering ic handler q s)) = app s \<or> app (snd (recovering ic handler q s)) = a"
proof (rule run_cases [of q s handler])
  fix res assume "pre q s = Inr res" "ic handler q s = res"
  then show ?thesis using answer_app by auto
next
  fix s1 p s2 assume "pre q s = Inl s1" "handler q s1 = (Panicked p, s2)" "ic handler q s = (Panicked p, s2)"
  then show ?thesis using assms [of s1] pre_frame by simp
next
  fix s1 rs er s2
  assume "pre q s = Inl s1" "handler q s1 = (Reply rs er, s2)" "ic handler q s = post q s (Reply rs er, s2)"
  then show ?thesis using assms [of s1] pre_frame post_app [of q s "(Reply rs er, s2)"] by simp
qed

end

section \<open>The three interceptors behind the interface\<close>

definition audit_event :: "request \<Rightarrow> time \<Rightarrow> string option \<Rightarrow> time \<Rightarrow> InterceptorEvent" where
  "audit_event q start er finish =
     \<lparr>ev_Timestamp = start, ev_ClientAddr = (case req_client q of Some a \<Rightarrow> a | None \<Rightarrow> []),
      ev_Service = req_service q, ev_Method = req_method q, ev_RequestSize = length (req_payload q),
      ev_Success = (er = None), ev_Duration = time_sub finish start,
      ev_Error = (case er of Some e \<Rightarrow> e | None \<Rightarrow> [])\<rparr>"

fun audit_post :: "bool \<Rightarrow> request \<Rightarrow> 'a chain_state \<Rightarrow> reply \<times> 'a chain_state \<Rightarrow> reply \<times> 'a chain_state" where
  "audit_post b q s (Panicked p, s1) = (Panicked p, s1)"
| "audit_post b q s (Reply rs er, s1) =
     (Reply rs er, if b then s1\<lparr>audit := audit s1 @ [audit_event q (clock s) er (clock s1)]\<rparr> else s1)"

definition limiter_pre :: "request \<Rightarrow> 'a chain_state \<Rightarrow> 'a chain_state + reply \<times> 'a chain_state" where
  "limiter_pre q s =
     (let (ok, rl) = rl_allow (clock s) (client_addr q) (limiter s); s1 = s\<lparr>limiter := rl\<rparr>
      in if ok then Inl s1 else Inr (limiter_interceptor (\<lambda>q s. (Panicked [], s)) q s))"

definition breaker_pre :: "request \<Rightarrow> 'a chain_state \<Rightarrow> 'a chain_state + reply \<times> 'a chain_state" where
  "breaker_pre q s =
     (let (st, cb) = cb_state (clock s) (cb_key (req_service q) (req_method q)) (breaker s)
      in if st = StateOpen
         then Inr (Reply None (Some (''circuit breaker open: '' @ cb_key (req_service q) (req_method q))),
                   s\<lparr>breaker := cb\<rparr>)
         else Inl (s\<lparr>breaker := cb\<rparr>))"

fun breaker_post :: "request \<Rightarrow> 'a chain_state \<Rightarrow> reply \<times> 'a chain_state \<Rightarrow> reply \<times> 'a chain_state" where
  "breaker_post q s (Panicked p, s1) = (Panicked p, s1)"
| "breaker_post q s (Reply rs er, s1) =
     (Reply rs er, s1\<lparr>breaker :=
        (if er \<noteq> None then recordFailure else recordSuccess)
          (clock s1) (cb_key (req_service q) (req_method q)) (breaker s1)\<rparr>)"

interpretation audit_ic: interceptor "audit_interceptor b" "\<lambda>q s. Inl s" "audit_post b"
proof
  show "runs_as (audit_interceptor b) (\<lambda>q s. Inl s) (audit_post b)"
    by (auto simp: runs_as_def audit_interceptor_def audit_event_def Let_def split: reply.splits prod.splits)
  show "is_reply (fst res) \<Longrightarrow> is_reply (fst (audit_post b q s res))" for res q s
    by (cases res; cases "fst res") auto
  show "app (snd (audit_post b q s res)) = app (snd res)" for q s res
    by (cases res; cases "fst res") auto
qed auto

interpretation limiter_ic: interceptor limiter_interceptor limiter_pre "\<lambda>q s res. res"
proof
  show "runs_as limiter_interceptor limiter_pre (\<lambda>q s res. res)"
    by (auto simp: runs_as_def limiter_interceptor_def limiter_pre_def Let_def
        split: reply.splits prod.splits sum.splits if_splits)
qed (auto simp: limiter_pre_def limiter_interceptor_def Let_def split: prod.splits if_splits)

interpretation breaker_ic: interceptor breaker_interceptor breaker_pre breaker_post
proof
  show "runs_as breaker_interceptor breaker_pre breaker_post"
    by (auto simp: runs_as_def breaker_interceptor_def breaker_pre_def Let_def
        split: reply.splits prod.splits sum.splits if_splits)
  show "is_reply (fst res) \<Longrightarrow> is_reply (fst (breaker_post q s res))" for res q s
    by (cases res; cases "fst res") auto
  show "app (snd (breaker_post q s res)) = app (snd res)" for q s res
    by (cases res; cases "fst res") auto
qed (auto simp: breaker_pre_def Let_def split: prod.splits if_splits)

section \<open>Chains\<close>

definition runs_once :: "'a HandlerFunc \<Rightarrow> (request \<Rightarrow> time \<Rightarrow> 'a \<Rightarrow> 'a) \<Rightarrow> bool" where
  "runs_once handler step \<longleftrightarrow>
     (\<forall>q s. app (snd (handler q s)) = app s \<or> app (snd (handler q s)) = step q (clock s) (app s))"

lemma runs_once_service: "runs_once (service_handler f) (\<lambda>q t a. snd (snd (f q t a)))"
  by (auto simp: runs_once_def service_handler_def split: prod.splits)

lemma runs_once_wrapped:
  assumes "runs_once handler step"
  shows "runs_once (recovering (audit_interceptor b) handler) step"
    "runs_once (recovering limiter_interceptor handler) step"
    "runs_once (recovering breaker_interceptor handler) step"
  unfolding runs_once_def
  by (intro allI audit_ic.app_step limiter_ic.app_step breaker_ic.app_step;
      use assms in \<open>metis runs_once_def\<close>)+

lemmas interceptor_replies = audit_ic.recovering_reply limiter_ic.recovering_reply breaker_ic.recovering_reply

lemma chain_of_config:
  assumes "NewInterceptors c = Some ic"
  shows "Chain ic = (if AuditLogEnabled c then [audit_interceptor (OnAudit (the (Hooks c)))] else [])
      @ (if RateLimitEnabled c then [limiter_interceptor] else [])
      @ (if CircuitBreakerEnabled c then [breaker_interceptor] else [])"
  using assms by (cases "Hooks c") (auto simp: NewInterceptors_def Use_def split: if_splits)

definition keeps_audit :: "'a HandlerFunc \<Rightarrow> bool" where
  "keeps_audit handler \<longleftrightarrow> (\<forall>q s. audit (snd (handler q s)) = audit s)"

lemma keeps_audit_service: "keeps_audit (service_handler f)"
  by (auto simp: keeps_audit_def service_handler_def split: prod.splits)

lemma keeps_audit_wrapped:
  assumes "keeps_audit handler"
  shows "keeps_audit (recovering limiter_interceptor handler)"
    "keeps_audit (recovering breaker_interceptor handler)"
proof -
  have h: "audit (snd (handler q s)) = audit s" for q s
    using assms by (simp add: keeps_audit_def)
  have h': "handler q s = (r, s') \<Longrightarrow> audit s' = audit s" for q s r s'
    using h [of q s] by simp
  show "keeps_audit (recovering limiter_interceptor handler)"
    by (auto simp: keeps_audit_def limiter_interceptor_def Let_def h split: prod.splits)
  show "keeps_audit (recovering breaker_interceptor handler)"
    by (auto simp: keeps_audit_def breaker_interceptor_def Let_def dest!: h' split: prod.splits reply.splits)
qed

lemma audited_once:
  assumes "keeps_audit handler"
  shows "recovering (audit_interceptor True) handler q s =
     (case handler q s of
        (Panicked p, s1) \<Rightarrow> (Reply None (Some (''interceptor panic: '' @ p)), s1)
      | (Reply rs er, s1) \<Rightarrow>
          (Reply rs er, s1\<lparr>audit := audit s @ [audit_event q (clock s) er (clock s1)]\<rparr>))"
proof (cases "handler q s")
  case (Pair r s1)
  then have "audit s1 = audit s" using assms by (metis keeps_audit_def snd_conv)
  then show ?thesis
    by (cases r) (simp_all add: recovering_def audit_interceptor_def audit_event_def Pair Let_def)
qed

fun reply_err :: "reply \<Rightarrow> string option" where
  "reply_err (Reply rs er) = er"
| "reply_err (Panicked p) = Some p"

definition config_ok :: "InterceptorConfig \<Rightarrow> bool" where
  "config_ok c \<longleftrightarrow> f64_lt f64_0 (RateLimitPerSec c) \<and> RateLimitBurst c \<in> {1..max_int64}
     \<and> f64_lt f64_0 (CircuitBreakerRatio c) \<and> f64_le (CircuitBreakerRatio c) f64_1
     \<and> CircuitBreakerMinReq c \<in> {1..max_int64} \<and> Hooks c = Some DefaultInterceptorHooks"

lemma with_flag_inv: "P c \<Longrightarrow> (\<And>b c. P c \<Longrightarrow> P (f b c)) \<Longrightarrow> P (with_flag conf k f c)"
  by (simp add: with_flag_def split: option.splits)

lemma with_float_inv: "P c \<Longrightarrow> (\<And>x c. ok x \<Longrightarrow> P c \<Longrightarrow> P (f x c)) \<Longrightarrow> P (with_float conf k ok f c)"
  by (simp add: with_float_def split: option.splits)

lemma wrap64_le: "wrap64 x \<le> max_int64"
  using in_int64_wrap64 [of x] by (simp add: in_int64_def)

lemma config_ok_update:
  assumes "config_ok c"
  shows "config_ok (c\<lparr>RateLimitEnabled := b\<rparr>)" "config_ok (c\<lparr>CircuitBreakerEnabled := b\<rparr>)"
    "config_ok (c\<lparr>AuditLogEnabled := b\<rparr>)" "config_ok (c\<lparr>CircuitBreakerTimeout := d\<rparr>)"
    "f64_lt f64_0 x \<Longrightarrow> config_ok (c\<lparr>RateLimitPerSec := x\<rparr>)"
    "f64_lt f64_0 x \<and> f64_le x f64_1 \<Longrightarrow> config_ok (c\<lparr>CircuitBreakerRatio := x\<rparr>)"
    "0 < i \<Longrightarrow> i \<le> max_int64 \<Longrightarrow> config_ok (c\<lparr>RateLimitBurst := i\<rparr>)"
    "0 < i \<Longrightarrow> i \<le> max_int64 \<Longrightarrow> config_ok (c\<lparr>CircuitBreakerMinReq := i\<rparr>)"
  using assms by (simp_all add: config_ok_def)

lemma ParseInt_max: "ParseInt s = Some i \<Longrightarrow> i \<le> max_int64"
proof -
  have wrapped: "foldl (\<lambda>n c. wrap64 (n * 10 + int (digit_val c))) n s \<le> max_int64" if "n \<le> max_int64" for n
    using that by (induction s arbitrary: n) (simp_all add: wrap64_le)
  show "ParseInt s = Some i \<Longrightarrow> i \<le> max_int64"
    using wrapped [of 0] by (auto simp: ParseInt_def max_int64_def split: if_splits)
qed

lemma with_int_inv: "P c \<Longrightarrow> (\<And>i c. 0 < i \<Longrightarrow> i \<le> max_int64 \<Longrightarrow> P c \<Longrightarrow> P (f i c)) \<Longrightarrow> P (with_int conf k f c)"
  using ParseInt_max by (auto simp: with_int_def split: option.splits)

section \<open>Properties\<close>

text \<open>with any interceptor enabled, the chain that \<open>NewInterceptors\<close> builds returns a
  reply on every request, whatever the service does (its panics become errors), and the service's own
  state is either untouched or the result of one single run on the request as it came in.\<close>

theorem chain_recovers_and_runs_once:
  assumes "NewInterceptors c = Some ic"
    and "AuditLogEnabled c \<or> RateLimitEnabled c \<or> CircuitBreakerEnabled c"
  shows "is_reply (fst (Then (Chain ic) (service_handler f) q s))
    \<and> app (snd (Then (Chain ic) (service_handler f) q s)) \<in> {app s, snd (snd (f q (clock s) (app s)))}"
proof -
  have "runs_once (Then (Chain ic) (service_handler f)) (\<lambda>q t a. snd (snd (f q t a)))"
    by (simp add: chain_of_config [OF assms(1)] Then_def runs_once_wrapped runs_once_service)
  then have "app (snd (Then (Chain ic) (service_handler f) q s)) \<in> {app s, snd (snd (f q (clock s) (app s)))}"
    by (auto simp: runs_once_def)
  moreover have "is_reply (fst (Then (Chain ic) (service_handler f) q s))"
    using assms(2) by (auto simp: chain_of_config [OF assms(1)] Then_def interceptor_replies)
  ultimately show ?thesis by blast
qed

definition sample_request :: request where
  "sample_request = \<lparr>req_client = Some ''10.0.0.1'', req_service = ''svc'', req_method = ''m'', req_payload = ''xy''\<rparr>"

definition crashing :: "request \<Rightarrow> time \<Rightarrow> nat \<Rightarrow> reply \<times> time \<times> nat" where
  "crashing q t n = (Panicked ''nil map'', t + 1, n + 1)"

definition sample_chain_state :: "nat chain_state" where
  "sample_chain_state = \<lparr>clock = 5 * second, limiter = NewRateLimiter (Fin 100) 50 True,
     breaker = sample_breaker, audit = [], rejected = [], exceeded = [], app = 0\<rparr>"

theorem chain_recovers_and_runs_once_witness:
  "case NewInterceptors DefaultInterceptorConfig of None \<Rightarrow> False
   | Some ic \<Rightarrow> is_reply (fst (Then (Chain ic) (service_handler crashing) sample_request sample_chain_state))
       \<and> app (snd (Then (Chain ic) (service_handler crashing) sample_request sample_chain_state)) \<in> {0, 1}"
proof -
  obtain ic where ic: "NewInterceptors DefaultInterceptorConfig = Some (ic :: nat Interceptors)"
    by (simp add: NewInterceptors_def DefaultInterceptorConfig_def)
  show ?thesis
    using chain_recovers_and_runs_once [OF ic, of crashing sample_request sample_chain_state]
    by (simp add: ic) (simp add: DefaultInterceptorConfig_def crashing_def sample_chain_state_def)
qed

text \<open>the order of the chain. With all three interceptors on, a request of a client without a
  token is rejected before the breaker or the service see it, the hook and the extension fire once,
  and the audit log gets exactly one entry, marked as failed, with the error of the reply.\<close>

theorem rejected_before_breaker:
  assumes "NewInterceptors c = Some ic" "AuditLogEnabled c" "RateLimitEnabled c"
    and "OnAudit (the (Hooks c))"
    and "\<not> fst (rl_allow (clock s) (client_addr q) (limiter s))"
  shows "let (r, s') = Then (Chain ic) handler q s in
    r = Reply None (Some (limit_error q)) \<and> breaker s' = breaker s \<and> app s' = app s
    \<and> limiter s' = snd (rl_allow (clock s) (client_addr q) (limiter s))
    \<and> audit s' = audit s @ [audit_event q (clock s) (Some (limit_error q)) (clock s)]
    \<and> rejected s' = rejected s @
        (if rl_onRejected (limiter s) then [(req_service q, req_method q, ''rate_limit_exceeded'')] else [])"
proof (cases "rl_allow (clock s) (client_addr q) (limiter s)")
  case (Pair ok rl)
  with assms(5) have "\<not> ok" by simp
  moreover have "rl_onRejected rl = rl_onRejected (limiter s)"
    using Pair by (auto simp: rl_allow_def Let_def split: if_splits)
  ultimately show ?thesis
    using assms(2-4) Pair
    by (simp add: chain_of_config [OF assms(1)] Then_def recovering_def audit_interceptor_def
        limiter_interceptor_def audit_event_def Let_def)
qed

definition drained_chain_state :: "nat chain_state" where
  "drained_chain_state = sample_chain_state\<lparr>limiter := (limiter sample_chain_state)\<lparr>rl_buckets :=
     [client_addr sample_request \<mapsto> \<lparr>tokens = Fin 0, lastRefill = 5 * second\<rparr>]\<rparr>\<rparr>"

theorem rejected_before_breaker_witness:
  "case NewInterceptors (DefaultInterceptorConfig\<lparr>RateLimitEnabled := True, CircuitBreakerEnabled := True\<rparr>) of
     None \<Rightarrow> False
   | Some ic \<Rightarrow> fst (Then (Chain ic) (service_handler crashing) sample_request drained_chain_state)
       = Reply None (Some (limit_error sample_request))"
proof -
  let ?c = "DefaultInterceptorConfig\<lparr>RateLimitEnabled := True, CircuitBreakerEnabled := True\<rparr>"
  obtain ic where ic: "NewInterceptors ?c = Some (ic :: nat Interceptors)"
    by (simp add: NewInterceptors_def DefaultInterceptorConfig_def)
  have drained: "\<not> fst (rl_allow (clock drained_chain_state) (client_addr sample_request) (limiter drained_chain_state))"
    by (simp add: drained_chain_state_def sample_chain_state_def rl_allow_def NewRateLimiter_def Let_def)
  show ?thesis
    using rejected_before_breaker [OF ic, of drained_chain_state sample_request "service_handler crashing"] drained
    by (simp add: ic) (auto simp: DefaultInterceptorConfig_def DefaultInterceptorHooks_def Let_def
        split: prod.splits)
qed



text \<open>the breaker never counts a panic. It is the last interceptor of the chain, and a panic of
  the service unwinds through it before it is recovered, so the call leaves its records as the lookup of the
  state left them: a service that always crashes never opens its circuit.\<close>

theorem panics_never_trip_the_breaker:
  assumes "NewInterceptors c = Some ic" "CircuitBreakerEnabled c"
    and "f q (clock s) (app s) = (Panicked p, t, a)"
  shows "breaker (snd (Then (Chain ic) (service_handler f) q s))
    \<in> {breaker s, snd (cb_state (clock s) (cb_key (req_service q) (req_method q)) (breaker s))}"
proof -
  have base: "breaker (snd (recovering breaker_interceptor (service_handler f) q s'))
      = snd (cb_state (clock s) (cb_key (req_service q) (req_method q)) (breaker s))"
    if "breaker s' = breaker s" "clock s' = clock s" "app s' = app s" for s'
    using that assms(3)
    by (simp add: breaker_interceptor_def service_handler_def Let_def split: prod.splits)
  then have "breaker (snd (recovering limiter_interceptor (recovering breaker_interceptor (service_handler f)) q s))
      \<in> {breaker s, snd (cb_state (clock s) (cb_key (req_service q) (req_method q)) (breaker s))}"
    by (simp add: limiter_interceptor_def Let_def split: prod.splits)
  moreover have "breaker (snd (recovering (audit_interceptor b) h q s)) = breaker (snd (h q s))" for b h
    by (auto simp: audit_interceptor_def Let_def split: prod.splits reply.splits)
  ultimately show ?thesis
    using assms(2) base [of s] by (simp add: chain_of_config [OF assms(1)] Then_def)
qed

theorem panics_never_trip_the_breaker_witness:
  "case NewInterceptors (DefaultInterceptorConfig\<lparr>CircuitBreakerEnabled := True\<rparr>) of None \<Rightarrow> False
   | Some ic \<Rightarrow> breaker (snd (Then (Chain ic) (service_handler crashing) sample_request sample_chain_state))
       \<in> {sample_breaker, snd (cb_state (5 * second) ''svc/m'' sample_breaker)}"
proof -
  obtain ic where ic: "NewInterceptors (DefaultInterceptorConfig\<lparr>CircuitBreakerEnabled := True\<rparr>)
      = Some (ic :: nat Interceptors)"
    by (simp add: NewInterceptors_def DefaultInterceptorConfig_def)
  show ?thesis
    using panics_never_trip_the_breaker [OF ic, of crashing sample_request sample_chain_state]
    by (simp add: ic) (simp add: crashing_def sample_chain_state_def sample_request_def cb_key_def)
qed

text \<open>the configuration the chain is built from. Whatever the file says, the rate is positive,
  the ratio lies in (0, 1], and the burst and the minimum number of requests are positive machine integers;
  but the digits are summed with wrap-around and no error, so \<open>18446744073709551617\<close> reads as 1,
  and a timeout in seconds is multiplied after the check, so it can come out negative.\<close>

theorem resolved_config_in_range:
  "config_ok (ResolveInterceptorConfig conf)
   \<and> ParseInt ''18446744073709551617'' = Some 1
   \<and> CircuitBreakerTimeout (ResolveInterceptorConfig
        [''interceptor.circuit_breaker_timeout_s'' \<mapsto> ''9223372037'']) < 0"
proof (intro conjI)
  have "config_ok DefaultInterceptorConfig"
    by (simp add: config_ok_def DefaultInterceptorConfig_def max_int64_def)
  then show "config_ok (ResolveInterceptorConfig conf)"
    unfolding ResolveInterceptorConfig_def Let_def
    by (intro with_flag_inv [where P = config_ok] with_float_inv [where P = config_ok]
        with_int_inv [where P = config_ok]) (simp_all add: config_ok_update)
  show "ParseInt ''18446744073709551617'' = Some 1" by code_simp
  have "ParseInt ''9223372037'' = Some 9223372037" by code_simp
  then show "CircuitBreakerTimeout (ResolveInterceptorConfig
      [''interceptor.circuit_breaker_timeout_s'' \<mapsto> ''9223372037'']) < 0"
    by (simp add: ResolveInterceptorConfig_def with_flag_def with_float_def with_int_def Let_def
        second_def wrap64_def)
qed

end
