(* ===== verification/Plugin_Hub.thy ===== *)
theory Plugin_Hub
  imports Prelude
begin

text \<open>
  What the kernel relies on when it removes a plugin: the extension registry and the message bus both
  keep, per topic, the plugins attached to it in call order, and an operation that detaches a plugin
  everywhere. The locale states that contract; \<open>Extension_Registry\<close> and \<open>Message_Bus\<close> interpret it on
  their models, and \<open>Plugin_Kernel\<close> uses the two instances for \<open>UnregisterPlugin\<close>.
\<close>

locale plugin_hub =
  fixes inv :: "'s \<Rightarrow> bool"
    and attached :: "'s \<Rightarrow> string \<Rightarrow> string list"
    and detach :: "string \<Rightarrow> 's \<Rightarrow> 's"
  assumes inv_detach: "inv s \<Longrightarrow> inv (detach i s)"
    and attached_detach: "attached (detach i s) t = filter (\<lambda>j. j \<noteq> i) (attached s t)"
begin

lemma detach_gone: "i \<notin> set (attached (detach i s) t)"
  by (simp add: attached_detach)

lemma detach_others: "j \<noteq> i \<Longrightarrow> count_list (attached (detach i s) t) j = count_list (attached s t) j"
proof -
  assume "j \<noteq> i"
  then have "count_list (filter (\<lambda>k. k \<noteq> i) xs) j = count_list xs j" for xs
    by (induction xs) auto
  then show ?thesis by (simp add: attached_detach)
qed

lemma detach_all:
  "attached (fold detach is s) t = filter (\<lambda>j. j \<notin> set is) (attached s t)"
  by (induction "is" arbitrary: s) (auto simp: attached_detach intro!: filter_cong)

lemma inv_detach_all: "inv s \<Longrightarrow> inv (fold detach is s)"
  by (induction "is" arbitrary: s) (simp_all add: inv_detach)

end

section \<open>Rows per topic\<close>

text \<open>
  Both components keep a Go map from topics to slices and delete a topic whose slice becomes empty when
  a plugin is detached; a missing topic reads as the empty slice.
\<close>

definition rows :: "(string \<rightharpoonup> 'a list) \<Rightarrow> string \<Rightarrow> 'a list" where
  "rows m t = (case m t of Some xs \<Rightarrow> xs | None \<Rightarrow> [])"

definition keep_rows :: "('a \<Rightarrow> bool) \<Rightarrow> (string \<rightharpoonup> 'a list) \<Rightarrow> (string \<rightharpoonup> 'a list)" where
  "keep_rows P m =
     (\<lambda>t. case m t of None \<Rightarrow> None
          | Some xs \<Rightarrow> if filter P xs = [] then None else Some (filter P xs))"

lemma rows_keep [simp]: "rows (keep_rows P m) t = filter P (rows m t)"
  by (simp add: rows_def keep_rows_def split: option.splits)

lemma rows_upd [simp]: "rows (m(t \<mapsto> xs)) t' = (if t' = t then xs else rows m t')"
  by (simp add: rows_def)

lemma rows_empty [simp]: "rows Map.empty t = []"
  by (simp add: rows_def)

lemma dom_keep_rows: "dom (keep_rows P m) \<subseteq> dom m"
  by (auto simp: keep_rows_def split: option.splits)

lemma keep_rows_SomeD:
  "keep_rows P m t = Some xs \<Longrightarrow> xs \<noteq> [] \<and> (\<exists>ys. m t = Some ys \<and> xs = filter P ys)"
  by (auto simp: keep_rows_def split: option.splits if_splits)

end
