(* ===== verification/Extension_Registry.thy ===== *)
theory Extension_Registry
  imports Plugin_Hub
begin

text \<open>
  \<open>internal/kernel/extensions.go\<close>: the extension registry. Extension points are declared by the
  platform (\<open>RegisterPoint\<close>); plugins attach handlers with a priority. A handler is a value of \<open>'h\<close>;
  \<open>run h data w\<close> is what calling it does: an error or nil, and the world after the call. The registry
  is read under the lock and the rows are copied before the handlers run, so a handler that changes the
  registry does not change this execution. \<open>srt\<close> is \<open>sort.Slice\<close>, which promises nothing about ties.
\<close>

record ExtensionPoint =
  ep_Name :: string
  ep_Description :: string
  ep_Version :: string

record 'h registeredExtension =
  re_pluginID :: string
  re_point :: string
  re_handler :: 'h
  re_priority :: int

record 'h ExtensionRegistry =
  extensions :: "string \<rightharpoonup> 'h registeredExtension list"
  points :: "string \<rightharpoonup> ExtensionPoint"

definition NewExtensionRegistry :: "'h ExtensionRegistry" where
  "NewExtensionRegistry = \<lparr>extensions = Map.empty, points = Map.empty\<rparr>"

definition RegisterPoint :: "ExtensionPoint \<Rightarrow> 'h ExtensionRegistry \<Rightarrow> 'h ExtensionRegistry" where
  "RegisterPoint p r = r\<lparr>points := (points r)(ep_Name p \<mapsto> p)\<rparr>"

definition GetPoint :: "string \<Rightarrow> 'h ExtensionRegistry \<Rightarrow> ExtensionPoint option" where
  "GetPoint n r = points r n"

type_synonym 'h slice_sort = "'h registeredExtension list \<Rightarrow> 'h registeredExtension list"

definition RegisterExtension ::
  "'h slice_sort \<Rightarrow> string \<Rightarrow> string \<Rightarrow> 'h \<Rightarrow> int \<Rightarrow> 'h ExtensionRegistry
    \<Rightarrow> string option \<times> 'h ExtensionRegistry" where
  "RegisterExtension srt pluginID pointName handler priority r =
     (if points r pointName = None
      then (Some (''extension point '' @ pointName @ '' is not registered''), r)
      else
        (None, r\<lparr>extensions := (extensions r)(pointName \<mapsto> srt (rows (extensions r) pointName @
            [\<lparr>re_pluginID = pluginID, re_point = pointName, re_handler = handler, re_priority = priority\<rparr>]))\<rparr>))"

definition er_UnregisterPlugin :: "string \<Rightarrow> 'h ExtensionRegistry \<Rightarrow> 'h ExtensionRegistry" where
  "er_UnregisterPlugin pluginID r =
     r\<lparr>extensions := keep_rows (\<lambda>e. re_pluginID e \<noteq> pluginID) (extensions r)\<rparr>"

type_synonym ('h, 'd, 'w) runner = "'h \<Rightarrow> 'd \<Rightarrow> 'w \<Rightarrow> string option \<times> 'w"

fun run_extensions ::
  "('h, 'd, 'w) runner \<Rightarrow> 'd \<Rightarrow> 'h registeredExtension list \<Rightarrow> 'w \<Rightarrow> string list \<times> 'w" where
  "run_extensions run data [] w = ([], w)"
| "run_extensions run data (e # es) w =
     (let (er, w1) = run (re_handler e) data w; (errs, w2) = run_extensions run data es w1
      in (case er of Some m \<Rightarrow> (re_pluginID e @ '': '' @ m) # errs | None \<Rightarrow> errs, w2))"

definition Execute ::
  "('h, 'd, 'w) runner \<Rightarrow> string \<Rightarrow> 'd \<Rightarrow> 'h ExtensionRegistry \<Rightarrow> 'w \<Rightarrow> string list \<times> 'w" where
  "Execute run pointName data r w = run_extensions run data (rows (extensions r) pointName) w"

fun first_success ::
  "('h, 'd, 'w) runner \<Rightarrow> 'd \<Rightarrow> 'h registeredExtension list \<Rightarrow> 'w \<Rightarrow> string option \<times> 'w" where
  "first_success run data [] w = (None, w)"
| "first_success run data (e # es) w =
     (case run (re_handler e) data w of
        (Some _, w1) \<Rightarrow> first_success run data es w1
      | (None, w1) \<Rightarrow> (Some (re_pluginID e), w1))"

definition ExecuteUntilFirst ::
  "('h, 'd, 'w) runner \<Rightarrow> string \<Rightarrow> 'd \<Rightarrow> 'h ExtensionRegistry \<Rightarrow> 'w \<Rightarrow> (string + string) \<times> 'w" where
  "ExecuteUntilFirst run pointName data r w =
     (let exts = rows (extensions r) pointName
      in if exts = [] then (Inl (''no extension registered for point '' @ pointName), w)
         else (case first_success run data exts w of
                 (Some p, w') \<Rightarrow> (Inr p, w')
               | (None, w') \<Rightarrow> (Inl (''all handlers returned errors for point '' @ pointName), w')))"

definition ListExtensions :: "string \<Rightarrow> 'h ExtensionRegistry \<Rightarrow> string list" where
  "ListExtensions pointName r = map re_pluginID (rows (extensions r) pointName)"

text \<open>\<open>ListPoints\<close> ranges over the map: \<open>order\<close> is this run's iteration order.\<close>

definition ListPoints :: "string list \<Rightarrow> 'h ExtensionRegistry \<Rightarrow> ExtensionPoint list" where
  "ListPoints order r = map (\<lambda>n. the (points r n)) order"

section \<open>Well-formed registries\<close>

definition er_inv :: "'h ExtensionRegistry \<Rightarrow> bool" where
  "er_inv r \<longleftrightarrow>
     (\<forall>t es. extensions r t = Some es \<longrightarrow> es \<noteq> [] \<and> points r t \<noteq> None
        \<and> sorted (map re_priority es) \<and> (\<forall>e\<in>set es. re_point e = t))"

lemma sorts_by_nonempty: "sorts_by key srt \<Longrightarrow> xs \<noteq> [] \<Longrightarrow> srt xs \<noteq> []"
  using sorts_by_set [of key srt xs] by auto

lemma er_inv_new [inv_intros]: "er_inv NewExtensionRegistry"
  by (simp add: er_inv_def NewExtensionRegistry_def)

lemma er_inv_point [inv_intros]: "er_inv r \<Longrightarrow> er_inv (RegisterPoint p r)"
  by (auto simp: er_inv_def RegisterPoint_def)

lemma er_inv_rows: "er_inv r \<Longrightarrow> e \<in> set (rows (extensions r) t) \<Longrightarrow> re_point e = t"
  by (cases "extensions r t") (auto simp: er_inv_def rows_def)

lemma er_inv_extension [inv_intros]:
  assumes "sorts_by re_priority srt" "er_inv r"
  shows "er_inv (snd (RegisterExtension srt i t h p r))"
proof (cases "points r t")
  case None
  with assms(2) show ?thesis by (simp add: RegisterExtension_def)
next
  case (Some pt)
  let ?row = "rows (extensions r) t @ [\<lparr>re_pluginID = i, re_point = t, re_handler = h, re_priority = p\<rparr>]"
  have "\<forall>e\<in>set (srt ?row). re_point e = t"
    using sorts_by_set [OF assms(1), of ?row] er_inv_rows [OF assms(2)] by auto
  moreover have "sorted (map re_priority (srt ?row))" using assms(1) by (simp add: sorts_by_def)
  moreover have "srt ?row \<noteq> []" by (rule sorts_by_nonempty [OF assms(1)]) simp
  ultimately show ?thesis
    using assms(2) Some by (simp add: RegisterExtension_def er_inv_def)
qed

lemma er_inv_unregister [inv_intros]: "er_inv r \<Longrightarrow> er_inv (er_UnregisterPlugin i r)"
  unfolding er_inv_def er_UnregisterPlugin_def
  by (fastforce dest!: keep_rows_SomeD simp: sorted_map intro: sorted_wrt_filter)

interpretation extension_hub: plugin_hub er_inv "\<lambda>r t. ListExtensions t r" er_UnregisterPlugin
  by unfold_locales
    (simp_all add: er_inv_unregister, simp add: ListExtensions_def er_UnregisterPlugin_def filter_map comp_def)

section \<open>Runs of the registry and of its handlers\<close>

datatype 'h registry_op =
    AddPoint ExtensionPoint
  | AddExtension string string 'h int
  | DropPlugin string

fun registry_step :: "'h slice_sort \<Rightarrow> 'h registry_op \<Rightarrow> 'h ExtensionRegistry \<Rightarrow> 'h ExtensionRegistry" where
  "registry_step srt (AddPoint p) r = RegisterPoint p r"
| "registry_step srt (AddExtension i t h p) r = snd (RegisterExtension srt i t h p r)"
| "registry_step srt (DropPlugin i) r = er_UnregisterPlugin i r"

lemma er_inv_run: "sorts_by re_priority srt \<Longrightarrow> er_inv r \<Longrightarrow> er_inv (fold (registry_step srt) ops r)"
proof (induction ops arbitrary: r)
  case (Cons x xs)
  then have "er_inv (registry_step srt x r)" by (cases x) (simp_all add: inv_intros)
  then show ?case using Cons by simp
qed simp

text \<open>A runner that also records which handlers were called, in order.\<close>

definition logged :: "('h, 'd, 'w) runner \<Rightarrow> ('h, 'd, 'w \<times> 'h list) runner" where
  "logged run h d = (\<lambda>(w, log). let (er, w') = run h d w in (er, (w', log @ [h])))"

lemma logged_call [simp]:
  "logged run h d (w, log) = (fst (run h d w), (snd (run h d w), log @ [h]))"
  by (simp add: logged_def split: prod.splits)

lemma run_logged:
  "\<exists>w' errs. run_extensions (logged run) d es (w, log) = (errs, (w', log @ map re_handler es))"
proof (induction es arbitrary: w log)
  case (Cons e es)
  from Cons [of "snd (run (re_handler e) d w)" "log @ [re_handler e]"] show ?case by auto
qed simp

lemma first_logged:
  "\<exists>res w' pre. first_success (logged run) d es (w, log) = (res, (w', log @ map re_handler pre))
     \<and> prefix pre es \<and> (case res of Some p \<Rightarrow> pre \<noteq> [] \<and> p = re_pluginID (last pre) | None \<Rightarrow> pre = es)"
proof (induction es arbitrary: w log)
  case (Cons e es)
  show ?case
  proof (cases "fst (run (re_handler e) d w)")
    case None
    then show ?thesis
      by (intro exI [of _ "Some (re_pluginID e)"] exI [of _ "snd (run (re_handler e) d w)"] exI [of _ "[e]"]) simp
  next
    case (Some m)
    from Cons [of "snd (run (re_handler e) d w)" "log @ [re_handler e]"] obtain res w' pre where
      "first_success (logged run) d es (snd (run (re_handler e) d w), log @ [re_handler e])
         = (res, (w', (log @ [re_handler e]) @ map re_handler pre))" "prefix pre es"
      "case res of Some p \<Rightarrow> pre \<noteq> [] \<and> p = re_pluginID (last pre) | None \<Rightarrow> pre = es"
      by blast
    then show ?thesis using Some
      by (intro exI [of _ res] exI [of _ w'] exI [of _ "e # pre"]) (auto split: option.splits)
  qed
qed simp

section \<open>Properties\<close>

text \<open>after any sequence of declared points, registered extensions and removed plugins, every
  row of the registry is non-empty, belongs to a declared point and is in ascending order of priority,
  and a plugin that was removed last is in no row.\<close>

theorem registry_rows_sorted:
  assumes "sorts_by re_priority srt"
  shows "er_inv (fold (registry_step srt) ops NewExtensionRegistry)
    \<and> i \<notin> set (ListExtensions t (fold (registry_step srt) (ops @ [DropPlugin i]) NewExtensionRegistry))"
  using er_inv_run [OF assms er_inv_new, of ops] extension_hub.detach_gone by simp

definition two_extensions :: "nat registry_op list" where
  "two_extensions =
     [AddPoint \<lparr>ep_Name = ''p'', ep_Description = [], ep_Version = ''1.0''\<rparr>,
      AddExtension ''slow'' ''p'' 0 50, AddExtension ''fast'' ''p'' 1 10, AddExtension ''lost'' ''q'' 2 1]"

theorem registry_rows_sorted_witness:
  "er_inv (fold (registry_step (sort_key re_priority)) two_extensions NewExtensionRegistry)
   \<and> ListExtensions ''p'' (fold (registry_step (sort_key re_priority)) two_extensions NewExtensionRegistry)
       = [''fast'', ''slow'']"
  using registry_rows_sorted [OF sorts_by_sort_key, of two_extensions "[]" "[]"]
  by (simp add: two_extensions_def NewExtensionRegistry_def RegisterPoint_def RegisterExtension_def
      ListExtensions_def rows_def)

text \<open>\<open>Execute\<close> calls every handler of the point exactly once, in the order of the row (ascending
  priority), and goes on after an error; \<open>ExecuteUntilFirst\<close> calls a prefix of them: it reports the plugin
  whose handler it called last, or that all of them failed after it called the whole row.\<close>

theorem dispatch_in_priority_order:
  assumes "er_inv r"
  shows "let es = rows (extensions r) t;
      (errs, (w1, log1)) = Execute (logged run) t d r (w, []);
      (res, (w2, log2)) = ExecuteUntilFirst (logged run) t d r (w, [])
    in sorted (map re_priority es) \<and> log1 = map re_handler es
     \<and> (\<exists>pre. prefix pre es \<and> log2 = map re_handler pre
          \<and> (case res of Inr p \<Rightarrow> pre \<noteq> [] \<and> p = re_pluginID (last pre) | Inl _ \<Rightarrow> pre = es))"
proof -
  define es where "es = rows (extensions r) t"
  have "sorted (map re_priority es)"
    using assms by (cases "extensions r t") (auto simp: es_def rows_def er_inv_def)
  moreover obtain errs w1 where "Execute (logged run) t d r (w, []) = (errs, (w1, map re_handler es))"
    using run_logged [of run d es w "[]"] by (auto simp: Execute_def es_def)
  moreover obtain res w2 pre where "first_success (logged run) d es (w, []) = (res, (w2, map re_handler pre))"
      "prefix pre es" "case res of Some p \<Rightarrow> pre \<noteq> [] \<and> p = re_pluginID (last pre) | None \<Rightarrow> pre = es"
    using first_logged [of run d es w "[]"] by auto
  ultimately show ?thesis
    by (cases "es = []"; cases res) (auto simp: ExecuteUntilFirst_def es_def [symmetric])
qed

theorem dispatch_in_priority_order_witness:
  "snd (snd (Execute (logged (\<lambda>h d w. (if h = 1 then Some ''e'' else None, w))) ''p'' ()
      (fold (registry_step (sort_key re_priority)) two_extensions NewExtensionRegistry) ((), []))) = [1, 0]"
  using dispatch_in_priority_order
    [OF er_inv_run [OF sorts_by_sort_key er_inv_new, of two_extensions], of "''p''" "\<lambda>h d w. (if h = 1 then Some ''e'' else None, w)" "()" "()"]
  by (auto simp: Let_def two_extensions_def NewExtensionRegistry_def RegisterPoint_def RegisterExtension_def
      rows_def split: prod.splits)

end
