(* ===== verification/Message_Bus.thy ===== *)
theory Message_Bus
  imports Plugin_Hub "HOL-Library.Multiset"
begin

text \<open>
  \<open>internal/kernel/bus.go\<close>: the message bus. Subscriptions are rows per topic. \<open>Publish\<close> is concurrent:
  the publisher takes a snapshot of the row and starts one goroutine per subscriber under two counting
  semaphores. The model keeps the publishers that are still in their loop and the goroutines that have
  not ended, and every atomic action (take the snapshot, start the next goroutine or drop, win or miss
  the dispatch semaphore, end) is one step of \<open>bus_step\<close>; the steps of different goroutines interleave
  freely, and a handler's own calls of the bus are further steps while its goroutine runs.

  \<open>promised\<close>, \<open>lost\<close> and \<open>history\<close> record which messages were taken on for whom, which were dropped and
  how the others ended, for the statements only: no operation reads them. The
  drain timeout of \<open>Stop\<close> only bounds how long it waits and is not modelled.
\<close>

record 'p Message =
  msg_ID :: string
  msg_Topic :: string
  msg_Payload :: 'p
  msg_Timestamp :: time
  msg_Source :: string

record 'h subscriber =
  sub_id :: string
  sub_handler :: 'h

record BusMetrics =
  PanicCount :: nat
  ErrorCount :: nat
  MessageCount :: nat
  DroppedCount :: nat

datatype handler_result = HOk | HErr string | HPanic string

datatype delivery_end = Handled handler_result | Cancelled

record ('h, 'p) goroutine =
  go_sub :: "'h subscriber"
  go_msg :: "'p Message"
  go_acquired :: bool

record ('h, 'p) Bus =
  subscribers :: "string \<rightharpoonup> 'h subscriber list"
  queueSize :: nat
  publishers :: "('p Message \<times> 'h subscriber list) list"
  goroutines :: "('h, 'p) goroutine list"
  metrics :: BusMetrics
  stopped :: bool
  promised :: "(string \<times> 'p Message) list"
  lost :: "(string \<times> 'p Message) list"
  history :: "(string \<times> 'p Message \<times> delivery_end) list"

definition maxG :: nat where "maxG = 1024"

definition NewBus :: "int \<Rightarrow> ('h, 'p) Bus" where
  "NewBus n =
     \<lparr>subscribers = Map.empty, queueSize = (if n \<le> 0 then 256 else nat n), publishers = [], goroutines = [],
      metrics = \<lparr>PanicCount = 0, ErrorCount = 0, MessageCount = 0, DroppedCount = 0\<rparr>, stopped = False,
      promised = [], lost = [], history = []\<rparr>"

section \<open>Subscriptions\<close>

definition Subscribe :: "string \<Rightarrow> string \<Rightarrow> 'h \<Rightarrow> ('h, 'p) Bus \<Rightarrow> ('h, 'p) Bus" where
  "Subscribe topic i h b =
     (if list_ex (\<lambda>s. sub_id s = i) (rows (subscribers b) topic) then b
      else b\<lparr>subscribers := (subscribers b)(topic \<mapsto>
             rows (subscribers b) topic @ [\<lparr>sub_id = i, sub_handler = h\<rparr>])\<rparr>)"

fun remove_first :: "string \<Rightarrow> 'h subscriber list \<Rightarrow> 'h subscriber list" where
  "remove_first i [] = []"
| "remove_first i (s # ss) = (if sub_id s = i then ss else s # remove_first i ss)"

definition Unsubscribe :: "string \<Rightarrow> string \<Rightarrow> ('h, 'p) Bus \<Rightarrow> ('h, 'p) Bus" where
  "Unsubscribe topic i b =
     (if list_ex (\<lambda>s. sub_id s = i) (rows (subscribers b) topic)
      then b\<lparr>subscribers := (subscribers b)(topic \<mapsto> remove_first i (rows (subscribers b) topic))\<rparr>
      else b)"

definition UnsubscribeAll :: "string \<Rightarrow> ('h, 'p) Bus \<Rightarrow> ('h, 'p) Bus" where
  "UnsubscribeAll i b = b\<lparr>subscribers := keep_rows (\<lambda>s. sub_id s \<noteq> i) (subscribers b)\<rparr>"

definition SubscriberCount :: "string \<Rightarrow> ('h, 'p) Bus \<Rightarrow> nat" where
  "SubscriberCount topic b = length (rows (subscribers b) topic)"

definition GetMetrics :: "('h, 'p) Bus \<Rightarrow> BusMetrics" where
  "GetMetrics b = metrics b"

definition bus_Stop :: "('h, 'p) Bus \<Rightarrow> ('h, 'p) Bus" where
  "bus_Stop b = b\<lparr>stopped := True, subscribers := Map.empty\<rparr>"

section \<open>Asynchronous publishing\<close>

text \<open>The head of \<open>Publish\<close>: the check, the snapshot and the counter.\<close>

definition publish_begin :: "'p Message \<Rightarrow> ('h, 'p) Bus \<Rightarrow> ('h, 'p) Bus" where
  "publish_begin m b =
     (if stopped b then b
      else b\<lparr>publishers := publishers b @ [(m, rows (subscribers b) (msg_Topic m))],
             metrics := (metrics b)\<lparr>MessageCount := MessageCount (metrics b) + 1\<rparr>,
             promised := promised b @ map (\<lambda>s. (sub_id s, m)) (rows (subscribers b) (msg_Topic m))\<rparr>)"

definition drop_one :: "'h subscriber \<Rightarrow> 'p Message \<Rightarrow> ('h, 'p) Bus \<Rightarrow> ('h, 'p) Bus" where
  "drop_one s m b =
     b\<lparr>metrics := (metrics b)\<lparr>DroppedCount := DroppedCount (metrics b) + 1\<rparr>, lost := lost b @ [(sub_id s, m)]\<rparr>"

definition without :: "nat \<Rightarrow> 'x list \<Rightarrow> 'x list" where
  "without i xs = take i xs @ drop (Suc i) xs"

text \<open>One turn of the loop of \<open>Publish\<close>: a goroutine, or a drop when 1024 of them are alive.\<close>

definition publish_next :: "nat \<Rightarrow> ('h, 'p) Bus \<Rightarrow> ('h, 'p) Bus" where
  "publish_next i b =
     (case publishers b ! i of
        (m, []) \<Rightarrow> b\<lparr>publishers := without i (publishers b)\<rparr>
      | (m, s # ss) \<Rightarrow>
          (let b1 = b\<lparr>publishers := (publishers b)[i := (m, ss)]\<rparr>
           in if length (goroutines b) < maxG
              then b1\<lparr>goroutines := goroutines b @ [\<lparr>go_sub = s, go_msg = m, go_acquired = False\<rparr>]\<rparr>
              else drop_one s m b1))"

definition in_flight :: "('h, 'p) Bus \<Rightarrow> nat" where
  "in_flight b = length (filter go_acquired (goroutines b))"

text \<open>A goroutine wins a slot of the dispatch semaphore, or drops its message and ends.\<close>

definition dispatch :: "nat \<Rightarrow> ('h, 'p) Bus \<Rightarrow> ('h, 'p) Bus" where
  "dispatch j b =
     (if in_flight b < queueSize b
      then b\<lparr>goroutines := (goroutines b)[j := (goroutines b ! j)\<lparr>go_acquired := True\<rparr>]\<rparr>
      else drop_one (go_sub (goroutines b ! j)) (go_msg (goroutines b ! j))
             (b\<lparr>goroutines := without j (goroutines b)\<rparr>))"

text \<open>The end of a goroutine that has a slot: its context was cancelled, or its handler returned or panicked.\<close>

definition end_delivery :: "nat \<Rightarrow> delivery_end \<Rightarrow> ('h, 'p) Bus \<Rightarrow> ('h, 'p) Bus" where
  "end_delivery j e b =
     (let g = goroutines b ! j
      in b\<lparr>goroutines := without j (goroutines b),
           metrics := (case e of
               Handled (HErr _) \<Rightarrow> (metrics b)\<lparr>ErrorCount := ErrorCount (metrics b) + 1\<rparr>
             | Handled (HPanic _) \<Rightarrow> (metrics b)\<lparr>PanicCount := PanicCount (metrics b) + 1\<rparr>
             | _ \<Rightarrow> metrics b),
           history := history b @ [(sub_id (go_sub g), go_msg g, e)]\<rparr>)"

text \<open>A panic that \<open>invokeHandler\<close> recovers for a synchronous publisher.\<close>

definition count_panic :: "('h, 'p) Bus \<Rightarrow> ('h, 'p) Bus" where
  "count_panic b = b\<lparr>metrics := (metrics b)\<lparr>PanicCount := PanicCount (metrics b) + 1\<rparr>\<rparr>"

inductive bus_step :: "('h, 'p) Bus \<Rightarrow> ('h, 'p) Bus \<Rightarrow> bool" where
  step_subscribe: "bus_step b (Subscribe t i h b)"
| step_unsubscribe: "bus_step b (Unsubscribe t i b)"
| step_unsubscribe_all: "bus_step b (UnsubscribeAll i b)"
| step_publish: "bus_step b (publish_begin m b)"
| step_next: "i < length (publishers b) \<Longrightarrow> bus_step b (publish_next i b)"
| step_dispatch: "j < length (goroutines b) \<Longrightarrow> \<not> go_acquired (goroutines b ! j) \<Longrightarrow> bus_step b (dispatch j b)"
| step_end: "j < length (goroutines b) \<Longrightarrow> go_acquired (goroutines b ! j) \<Longrightarrow> bus_step b (end_delivery j e b)"
| step_sync_panic: "bus_step b (count_panic b)"
| step_stop: "bus_step b (bus_Stop b)"

inductive bus_reachable :: "int \<Rightarrow> ('h, 'p) Bus \<Rightarrow> bool" for n where
  reach_new: "bus_reachable n (NewBus n)"
| reach_step: "bus_reachable n b \<Longrightarrow> bus_step b b' \<Longrightarrow> bus_reachable n b'"

section \<open>Synchronous publishing\<close>

text \<open>\<open>run h m w\<close> is one call of a handler: how it ended and the world after it.\<close>

type_synonym ('h, 'p, 'w) caller = "'h \<Rightarrow> 'p Message \<Rightarrow> 'w \<Rightarrow> handler_result \<times> 'w"

definition invokeHandler ::
  "('h, 'p, 'w) caller \<Rightarrow> 'h subscriber \<Rightarrow> 'p Message \<Rightarrow> ('h, 'p) Bus \<Rightarrow> 'w
    \<Rightarrow> string option \<times> ('h, 'p) Bus \<times> 'w" where
  "invokeHandler run s m b w =
     (case run (sub_handler s) m w of
        (HOk, w') \<Rightarrow> (None, b, w')
      | (HErr e, w') \<Rightarrow> (Some e, b, w')
      | (HPanic p, w') \<Rightarrow>
          (Some (''subscriber '' @ sub_id s @ '' panicked: '' @ p),
           count_panic b, w'))"

fun publish_all ::
  "('h, 'p, 'w) caller \<Rightarrow> 'h subscriber list \<Rightarrow> 'p Message \<Rightarrow> ('h, 'p) Bus \<Rightarrow> 'w
    \<Rightarrow> string list \<times> ('h, 'p) Bus \<times> 'w" where
  "publish_all run [] m b w = ([], b, w)"
| "publish_all run (s # ss) m b w =
     (let (er, b1, w1) = invokeHandler run s m b w; (errs, b2, w2) = publish_all run ss m b1 w1
      in (case er of Some e \<Rightarrow> (sub_id s @ '': '' @ e) # errs | None \<Rightarrow> errs, b2, w2))"

definition PublishSync ::
  "('h, 'p, 'w) caller \<Rightarrow> 'p Message \<Rightarrow> ('h, 'p) Bus \<Rightarrow> 'w \<Rightarrow> string list \<times> ('h, 'p) Bus \<times> 'w" where
  "PublishSync run m b w = publish_all run (rows (subscribers b) (msg_Topic m)) m b w"

section \<open>The invariant\<close>

definition pending :: "('h, 'p) Bus \<Rightarrow> (string \<times> 'p Message) multiset" where
  "pending b = (\<Sum>(m, ss) \<leftarrow> publishers b. mset (map (\<lambda>s. (sub_id s, m)) ss))"

definition running :: "('h, 'p) Bus \<Rightarrow> (string \<times> 'p Message) multiset" where
  "running b = mset (map (\<lambda>g. (sub_id (go_sub g), go_msg g)) (goroutines b))"

definition ended :: "('h, 'p) Bus \<Rightarrow> (string \<times> 'p Message) multiset" where
  "ended b = mset (map (\<lambda>(i, m, e). (i, m)) (history b))"

fun failed :: "delivery_end \<Rightarrow> bool" where
  "failed (Handled (HErr _)) = True"
| "failed _ = False"

definition accounted :: "('h, 'p) Bus \<Rightarrow> bool" where
  "accounted b \<longleftrightarrow> mset (promised b) = pending b + running b + mset (lost b) + ended b
     \<and> DroppedCount (metrics b) = length (lost b)
     \<and> ErrorCount (metrics b) = length (filter (\<lambda>(i, m, e). failed e) (history b))"

definition bounded :: "('h, 'p) Bus \<Rightarrow> bool" where
  "bounded b \<longleftrightarrow> length (goroutines b) \<le> maxG \<and> in_flight b \<le> queueSize b"

definition ids_distinct :: "('h, 'p) Bus \<Rightarrow> bool" where
  "ids_distinct b \<longleftrightarrow> (\<forall>t. distinct (map sub_id (rows (subscribers b) t)))"

lemma mset_without: "i < length xs \<Longrightarrow> mset xs = add_mset (xs ! i) (mset (without i xs))"
  by (metis Cons_nth_drop_Suc append_take_drop_id mset.simps(2) mset_append union_mset_add_mset_right without_def)

lemma length_without: "i < length xs \<Longrightarrow> Suc (length (without i xs)) = length xs"
  by (simp add: without_def)

lemma filter_without: "i < length xs \<Longrightarrow> length (filter P (without i xs)) = length (filter P xs) - (if P (xs ! i) then 1 else 0)"
  by (subst (2) id_take_nth_drop [of i xs]) (auto simp: without_def)

lemma sum_without:
  fixes f :: "'x \<Rightarrow> 'c::comm_monoid_add"
  shows "i < length xs \<Longrightarrow> (\<Sum>x\<leftarrow>xs. f x) = f (xs ! i) + (\<Sum>x\<leftarrow>without i xs. f x)"
  by (subst id_take_nth_drop [of i xs]) (simp_all add: without_def ac_simps)

lemma sum_update:
  fixes f :: "'x \<Rightarrow> 'c::comm_monoid_add"
  shows "i < length xs \<Longrightarrow> (\<Sum>x\<leftarrow>xs[i := y]. f x) = f y + (\<Sum>x\<leftarrow>without i xs. f x)"
  by (simp add: upd_conv_take_nth_drop without_def ac_simps)

lemma distinct_remove_first: "distinct (map sub_id ss) \<Longrightarrow> distinct (map sub_id (remove_first i ss))
    \<and> set (map sub_id (remove_first i ss)) \<subseteq> set (map sub_id ss)"
  by (induction ss) auto

lemma ids_step: "bus_step b b' \<Longrightarrow> ids_distinct b \<Longrightarrow> ids_distinct b'"
proof (induction rule: bus_step.induct)
  case (step_subscribe b t i h)
  then show ?case by (auto simp: ids_distinct_def Subscribe_def list_ex_iff)
next
  case (step_unsubscribe b t i)
  then show ?case using distinct_remove_first by (auto simp: ids_distinct_def Unsubscribe_def)
next
  case (step_unsubscribe_all b i)
  then show ?case by (auto simp: ids_distinct_def UnsubscribeAll_def distinct_map_filter)
qed (auto simp: ids_distinct_def publish_begin_def publish_next_def dispatch_def end_delivery_def drop_one_def
    count_panic_def bus_Stop_def Let_def split: list.splits prod.splits)

lemmas bus_views = pending_def running_def ended_def in_flight_def

lemma frame_views [simp]:
  "pending (Subscribe t i h b) = pending b" "running (Subscribe t i h b) = running b" "ended (Subscribe t i h b) = ended b"
  "pending (Unsubscribe t i b) = pending b" "running (Unsubscribe t i b) = running b" "ended (Unsubscribe t i b) = ended b"
  "pending (UnsubscribeAll i b) = pending b" "running (UnsubscribeAll i b) = running b" "ended (UnsubscribeAll i b) = ended b"
  "pending (bus_Stop b) = pending b" "running (bus_Stop b) = running b" "ended (bus_Stop b) = ended b"
  "pending (count_panic b) = pending b" "running (count_panic b) = running b" "ended (count_panic b) = ended b"
  "pending (drop_one s m b) = pending b" "running (drop_one s m b) = running b" "ended (drop_one s m b) = ended b"
  by (simp_all add: bus_views Subscribe_def Unsubscribe_def UnsubscribeAll_def bus_Stop_def count_panic_def drop_one_def)

lemma accounted_begin: "accounted b \<Longrightarrow> accounted (publish_begin m b)"
  by (simp add: accounted_def publish_begin_def bus_views ac_simps)

lemma accounted_next:
  assumes "accounted b" "i < length (publishers b)"
  shows "accounted (publish_next i b)"
proof (cases "publishers b ! i")
  case (Pair m ss)
  show ?thesis
  proof (cases ss)
    case Nil
    have "pending (publish_next i b) = pending b"
      by (simp add: publish_next_def Pair Nil pending_def sum_without [OF assms(2)])
    then show ?thesis
      using assms(1) by (simp add: accounted_def publish_next_def Pair Nil running_def ended_def)
  next
    case (Cons s rest)
    have "pending b = add_mset (sub_id s, m) (pending (b\<lparr>publishers := (publishers b)[i := (m, rest)]\<rparr>))"
      by (simp add: Pair Cons pending_def sum_without [OF assms(2)] sum_update [OF assms(2)])
    then show ?thesis
      using assms(1)
      by (simp add: accounted_def publish_next_def Pair Cons Let_def pending_def)
        (simp add: running_def ended_def drop_one_def)
  qed
qed

lemma accounted_dispatch:
  assumes "accounted b" "j < length (goroutines b)"
  shows "accounted (dispatch j b)"
proof -
  have "map (\<lambda>g. (sub_id (go_sub g), go_msg g)) ((goroutines b)[j := (goroutines b ! j)\<lparr>go_acquired := True\<rparr>])
      = map (\<lambda>g. (sub_id (go_sub g), go_msg g)) (goroutines b)"
    using assms(2) by (metis (no_types, lifting) goroutine.ext_inject goroutine.surjective goroutine.update_convs(3)
        list_update_id map_update)
  then have same: "running (b\<lparr>goroutines := (goroutines b)[j := (goroutines b ! j)\<lparr>go_acquired := True\<rparr>]\<rparr>) = running b"
    by (simp add: running_def del: mset_map)
  have less: "running b = add_mset (sub_id (go_sub (goroutines b ! j)), go_msg (goroutines b ! j))
      (running (b\<lparr>goroutines := without j (goroutines b)\<rparr>))"
    by (simp add: running_def mset_without [OF assms(2)])
  show ?thesis
    using assms(1) same less by (auto simp: accounted_def dispatch_def drop_one_def pending_def ended_def running_def)
qed

lemma accounted_end:
  assumes "accounted b" "j < length (goroutines b)"
  shows "accounted (end_delivery j e b)"
proof -
  have "running b = add_mset (sub_id (go_sub (goroutines b ! j)), go_msg (goroutines b ! j))
      (running (b\<lparr>goroutines := without j (goroutines b)\<rparr>))"
    by (simp add: running_def mset_without [OF assms(2)])
  moreover have "ErrorCount (metrics (end_delivery j e b)) = ErrorCount (metrics b) + (if failed e then 1 else 0)"
      "DroppedCount (metrics (end_delivery j e b)) = DroppedCount (metrics b)"
    by (cases e rule: failed.cases; simp add: end_delivery_def Let_def)+
  ultimately show ?thesis
    using assms(1)
    by (simp add: accounted_def) (simp add: end_delivery_def Let_def pending_def ended_def running_def)
qed

lemma accounted_step: "bus_step b b' \<Longrightarrow> accounted b \<Longrightarrow> accounted b'"
proof (induction rule: bus_step.induct)
  case (step_publish b m) then show ?case by (simp add: accounted_begin)
next
  case (step_next i b) then show ?case by (simp add: accounted_next)
next
  case (step_dispatch j b) then show ?case by (simp add: accounted_dispatch)
next
  case (step_end j b e) then show ?case by (simp add: accounted_end)
qed (auto simp: accounted_def Subscribe_def Unsubscribe_def UnsubscribeAll_def count_panic_def bus_Stop_def
    bus_views)

lemma bounded_step: "bus_step b b' \<Longrightarrow> bounded b \<Longrightarrow> bounded b' \<and> queueSize b' = queueSize b"
proof (induction rule: bus_step.induct)
  case (step_dispatch j b)
  let ?g = "(goroutines b ! j)\<lparr>go_acquired := True\<rparr>"
  have "length (filter go_acquired ((goroutines b)[j := ?g])) \<le> Suc (length (filter go_acquired (goroutines b)))"
    by (subst (2) id_take_nth_drop [OF step_dispatch(1)], subst upd_conv_take_nth_drop [OF step_dispatch(1)]) simp
  then show ?case
    using step_dispatch length_without [OF step_dispatch(1)]
    by (auto simp: bounded_def dispatch_def drop_one_def in_flight_def filter_without [OF step_dispatch(1)])
next
  case (step_end j b e)
  then show ?case
    using length_without [OF step_end(1)]
    by (auto simp: bounded_def end_delivery_def Let_def in_flight_def filter_without)
next
  case (step_next i b)
  then show ?case
    by (auto simp: bounded_def publish_next_def drop_one_def in_flight_def Let_def split: list.splits prod.splits)
qed (auto simp: bounded_def Subscribe_def Unsubscribe_def UnsubscribeAll_def count_panic_def bus_Stop_def
    publish_begin_def in_flight_def)

lemma reachable_inv: "bus_reachable n b \<Longrightarrow> accounted b \<and> bounded b \<and> ids_distinct b"
proof (induction rule: bus_reachable.induct)
  case reach_new
  show ?case by (simp add: accounted_def bounded_def ids_distinct_def NewBus_def bus_views)
next
  case (reach_step b b')
  then show ?case using accounted_step bounded_step ids_step by blast
qed

interpretation bus_hub: plugin_hub ids_distinct "\<lambda>b t. map sub_id (rows (subscribers b) t)" UnsubscribeAll
proof
  show "ids_distinct s \<Longrightarrow> ids_distinct (UnsubscribeAll i s)" for i s
    by (rule ids_step [OF step_unsubscribe_all])
qed (simp add: UnsubscribeAll_def filter_map comp_def)

section \<open>Draining\<close>

text \<open>The steps that publishers and goroutines take by themselves.\<close>

definition work :: "('h, 'p) Bus \<Rightarrow> nat" where
  "work b = (\<Sum>(m, ss) \<leftarrow> publishers b. 1 + 3 * length ss)
     + (\<Sum>g \<leftarrow> goroutines b. if go_acquired g then 1 else 2)"

inductive delivery_step :: "('h, 'p) Bus \<Rightarrow> ('h, 'p) Bus \<Rightarrow> bool" where
  deliver_next: "i < length (publishers b) \<Longrightarrow> delivery_step b (publish_next i b)"
| deliver_dispatch: "j < length (goroutines b) \<Longrightarrow> \<not> go_acquired (goroutines b ! j) \<Longrightarrow> delivery_step b (dispatch j b)"
| deliver_end: "j < length (goroutines b) \<Longrightarrow> go_acquired (goroutines b ! j) \<Longrightarrow> delivery_step b (end_delivery j e b)"

lemma delivery_is_step: "delivery_step b b' \<Longrightarrow> bus_step b b'"
  by (induction rule: delivery_step.induct) (auto intro: bus_step.intros)

lemma delivery_keeps: "delivery_step b b' \<Longrightarrow> promised b' = promised b \<and> stopped b' = stopped b"
  by (induction rule: delivery_step.induct)
    (auto simp: publish_next_def dispatch_def end_delivery_def drop_one_def Let_def split: list.splits prod.splits)

lemma work_next:
  assumes "i < length (publishers b)"
  shows "work (publish_next i b) < work b"
proof (cases "publishers b ! i")
  case (Pair m ss)
  then show ?thesis
    by (cases ss)
      (simp_all add: work_def publish_next_def drop_one_def Let_def sum_without [OF assms] sum_update [OF assms])
qed

lemma delivery_progress: "delivery_step b b' \<Longrightarrow> work b' < work b"
proof (induction rule: delivery_step.induct)
  case (deliver_next i b)
  then show ?case by (rule work_next)
next
  case (deliver_dispatch j b)
  then show ?case
    by (simp add: work_def dispatch_def drop_one_def sum_without [OF deliver_dispatch(1)] sum_update [OF deliver_dispatch(1)])
next
  case (deliver_end j b e)
  then show ?case
    by (simp add: work_def end_delivery_def Let_def sum_without [OF deliver_end(1)])
qed

lemma delivery_possible: "publishers b \<noteq> [] \<or> goroutines b \<noteq> [] \<Longrightarrow> \<exists>b'. delivery_step b b'"
proof (cases "goroutines b")
  case Nil
  assume "publishers b \<noteq> [] \<or> goroutines b \<noteq> []"
  with Nil deliver_next [of 0 b] show ?thesis by auto
next
  case (Cons g gs)
  then show ?thesis using deliver_dispatch [of 0 b] deliver_end [of 0 b] by (cases "go_acquired g") auto
qed

section \<open>Properties\<close>

text \<open>C37: in every reachable state of the bus, under any interleaving of publishers, goroutines,
  subscriptions and a stop, at most 1024 goroutines are alive and at most \<open>queueSize\<close> handlers run; and
  every message taken on for a subscriber is in exactly one place: not started, in a goroutine, counted as
  dropped, or ended. In particular none is delivered twice.\<close>

theorem bus_accounts_for_every_message:
  assumes "bus_reachable n b"
  shows "length (goroutines b) \<le> 1024 \<and> in_flight b \<le> queueSize b
    \<and> mset (promised b) = pending b + running b + mset (lost b) + ended b
    \<and> DroppedCount (GetMetrics b) = length (lost b) \<and> ErrorCount (GetMetrics b) \<le> length (history b)"
  using reachable_inv [OF assms] by (simp add: accounted_def bounded_def GetMetrics_def maxG_def)

definition ping :: "unit Message" where
  "ping = \<lparr>msg_ID = ''1'', msg_Topic = ''t'', msg_Payload = (), msg_Timestamp = 0, msg_Source = ''s''\<rparr>"

definition one_sent :: "(nat, unit) Bus" where
  "one_sent = publish_next 0 (publish_begin ping (Subscribe ''t'' ''a'' 7 (NewBus 0)))"

lemma one_sent_reachable: "bus_reachable 0 one_sent"
  unfolding one_sent_def
  by (intro reach_step [OF _ step_next] reach_step [OF _ step_publish] reach_step [OF _ step_subscribe] reach_new)
    (simp add: publish_begin_def Subscribe_def NewBus_def)

theorem bus_accounts_for_every_message_witness:
  "running one_sent = {#(''a'', ping)#} \<and> pending one_sent = {#} \<and> ended one_sent = {#}
   \<and> mset (promised one_sent) = {#(''a'', ping)#}"
proof -
  have "running one_sent = {#(''a'', ping)#}" "pending one_sent = {#}" "ended one_sent = {#}" "lost one_sent = []"
    by (simp_all add: one_sent_def bus_views publish_begin_def publish_next_def Subscribe_def NewBus_def ping_def maxG_def)
  then show ?thesis using bus_accounts_for_every_message [OF one_sent_reachable] by simp
qed


text \<open>A caller that records the handlers it calls.\<close>

definition logged_call :: "('h, 'p, 'w) caller \<Rightarrow> ('h, 'p, 'w \<times> 'h list) caller" where
  "logged_call run h m = (\<lambda>(w, log). let (r, w') = run h m w in (r, (w', log @ [h])))"

lemma logged_call_apply [simp]:
  "logged_call run h m (w, log) = (fst (run h m w), (snd (run h m w), log @ [h]))"
  by (simp add: logged_call_def split: prod.splits)

definition more_panics :: "nat \<Rightarrow> ('h, 'p) Bus \<Rightarrow> ('h, 'p) Bus" where
  "more_panics k b = b\<lparr>metrics := (metrics b)\<lparr>PanicCount := PanicCount (metrics b) + k\<rparr>\<rparr>"

lemma more_panics_add: "more_panics k (more_panics l b) = more_panics (l + k) b" "more_panics 0 b = b"
  by (simp_all add: more_panics_def add.assoc)

lemma invokeHandler_logged:
  "\<exists>er k w'. invokeHandler (logged_call run) s m b (w, log) = (er, more_panics k b, (w', log @ [sub_handler s]))
     \<and> k \<le> (if er = None then 0 else 1)"
proof (cases "fst (run (sub_handler s) m w)")
  case HOk
  then show ?thesis by (intro exI [of _ None] exI [of _ 0]) (simp add: invokeHandler_def more_panics_def)
next
  case (HErr e)
  then show ?thesis by (intro exI [of _ "Some e"] exI [of _ 0]) (simp add: invokeHandler_def more_panics_def)
next
  case (HPanic e)
  then show ?thesis
    by (intro exI [of _ "Some (''subscriber '' @ sub_id s @ '' panicked: '' @ e)"] exI [of _ 1])
      (simp add: invokeHandler_def more_panics_def count_panic_def)
qed

lemma publish_all_logged:
  "\<exists>errs k w'. publish_all (logged_call run) ss m b (w, log) =
      (errs, more_panics k b, (w', log @ map sub_handler ss)) \<and> k \<le> length errs \<and> length errs \<le> length ss"
proof (induction ss arbitrary: b w log)
  case Nil
  show ?case by (intro exI [of _ "[]"] exI [of _ 0]) (simp add: more_panics_def)
next
  case (Cons s ss)
  obtain er k w' where head: "invokeHandler (logged_call run) s m b (w, log) = (er, more_panics k b, (w', log @ [sub_handler s]))"
    "k \<le> (if er = None then 0 else 1)"
    using invokeHandler_logged [of run s m b w log] by blast
  from Cons [of "more_panics k b" w' "log @ [sub_handler s]"] obtain errs l w'' where
    "publish_all (logged_call run) ss m (more_panics k b) (w', log @ [sub_handler s]) =
      (errs, more_panics (k + l) b, (w'', (log @ [sub_handler s]) @ map sub_handler ss))"
    "l \<le> length errs" "length errs \<le> length ss"
    by (auto simp: more_panics_add)
  with head show ?case
    by (intro exI [of _ "case er of Some e \<Rightarrow> (sub_id s @ '': '' @ e) # errs | None \<Rightarrow> errs"]
        exI [of _ "k + l"] exI [of _ w'']) (auto split: option.splits)
qed

text \<open>\<open>PublishSync\<close> calls every subscriber of the topic exactly once, in the order they subscribed,
  whether or not an earlier one failed or panicked; no subscriber is in a row twice, so none is called
  twice; of the bus only the panic counter changes, by at most the number of reported errors.\<close>

theorem publish_sync_calls_each_once:
  assumes "bus_reachable n b"
  shows "let ss = rows (subscribers b) (msg_Topic m);
      (errs, b', (w', log)) = PublishSync (logged_call run) m b (w, []) in
    log = map sub_handler ss \<and> distinct (map sub_id ss) \<and> length errs \<le> length ss
    \<and> (\<exists>k \<le> length errs. b' = more_panics k b)"
proof -
  have "distinct (map sub_id (rows (subscribers b) (msg_Topic m)))"
    using reachable_inv [OF assms] by (simp add: ids_distinct_def)
  moreover obtain errs k w' where
    "PublishSync (logged_call run) m b (w, []) =
      (errs, more_panics k b, (w', map sub_handler (rows (subscribers b) (msg_Topic m))))"
    "k \<le> length errs" "length errs \<le> length (rows (subscribers b) (msg_Topic m))"
    using publish_all_logged [of run "rows (subscribers b) (msg_Topic m)" m b w "[]"]
    by (auto simp: PublishSync_def)
  ultimately show ?thesis by auto
qed

theorem publish_sync_calls_each_once_witness:
  "snd (snd (snd (PublishSync (logged_call (\<lambda>h m w. (HPanic ''x'', w))) ping one_sent ((), [])))) = [7]"
  using publish_sync_calls_each_once [OF one_sent_reachable, of ping "\<lambda>h m w. (HPanic ''x'', w)" "()"]
  by (auto simp: Let_def one_sent_def publish_begin_def publish_next_def Subscribe_def NewBus_def ping_def maxG_def
      split: prod.splits)

end
