(* ===== verification/DI_Container.thy ===== *)
theory DI_Container
  imports Prelude
begin

text \<open>
  \<open>internal/kernel/di.go\<close>: the dependency container. What the code uses of \<open>reflect\<close> is modelled on types
  with a name (\<open>Type.String\<close>) and a method set: an interface is implemented by a type that has its
  methods, and a value is assignable to a field of its own type or of an interface it implements. A map
  range is a list \<open>ks\<close> of the keys, \<open>srt\<close> is \<open>sort.Slice\<close>.
\<close>

datatype gotype =
    Interface (ty_String: string) (ty_methods: "string list")
  | Concrete (ty_String: string) (ty_methods: "string list")
  | Pointer (ty_String: string) (ty_methods: "string list") (ty_Elem: gotype)

fun is_interface :: "gotype \<Rightarrow> bool" where
  "is_interface (Interface _ _) = True"
| "is_interface _ = False"

definition Implements :: "gotype \<Rightarrow> gotype \<Rightarrow> bool" where
  "Implements t i \<longleftrightarrow> is_interface i \<and> set (ty_methods i) \<subseteq> set (ty_methods t)"

definition AssignableTo :: "gotype \<Rightarrow> gotype \<Rightarrow> bool" where
  "AssignableTo t f \<longleftrightarrow> t = f \<or> Implements t f"

text \<open>A binding: a value with its dynamic type.\<close>

record bound_value =
  bv_type :: gotype
  bv_id :: nat

record Container =
  bindings :: "gotype \<rightharpoonup> bound_value"
  aliases :: "string \<rightharpoonup> gotype"

definition NewContainer :: Container where
  "NewContainer = \<lparr>bindings = Map.empty, aliases = Map.empty\<rparr>"

fun deref :: "gotype \<Rightarrow> gotype" where
  "deref (Pointer _ _ t) = t"
| "deref t = t"

definition Bind :: "gotype \<Rightarrow> bound_value \<Rightarrow> Container \<Rightarrow> Container" where
  "Bind iface impl c = c\<lparr>bindings := (bindings c)(deref iface \<mapsto> impl)\<rparr>"

definition BindNamed :: "string \<Rightarrow> gotype \<Rightarrow> bound_value \<Rightarrow> Container \<Rightarrow> Container" where
  "BindNamed name iface impl c =
     c\<lparr>bindings := (bindings c)(deref iface \<mapsto> impl), aliases := (aliases c)(name \<mapsto> deref iface)\<rparr>"

text \<open>Both branches of \<open>Resolve\<close> look the type up: the second one by ranging over the map.\<close>

definition Resolve :: "gotype list \<Rightarrow> gotype \<Rightarrow> Container \<Rightarrow> bound_value option" where
  "Resolve ks iface c =
     (let t = deref iface
      in if is_interface t then bindings c t
         else (case filter (\<lambda>k. k = t) ks of k # _ \<Rightarrow> bindings c k | [] \<Rightarrow> None))"

definition ResolveNamed :: "string \<Rightarrow> Container \<Rightarrow> bound_value option" where
  "ResolveNamed name c = (case aliases c name of None \<Rightarrow> None | Some t \<Rightarrow> bindings c t)"

definition Remove :: "gotype \<Rightarrow> Container \<Rightarrow> Container" where
  "Remove iface c = c\<lparr>bindings := (bindings c)(deref iface := None)\<rparr>"

definition sortedBindings :: "(gotype list \<Rightarrow> gotype list) \<Rightarrow> gotype list \<Rightarrow> Container \<Rightarrow> bound_value list" where
  "sortedBindings srt ks c = map (\<lambda>t. the (bindings c t)) (srt ks)"

record field =
  fd_tag :: string
  fd_type :: gotype
  fd_CanSet :: bool

text \<open>What one field is set to, if it is set.\<close>

definition inject_field ::
  "(gotype list \<Rightarrow> gotype list) \<Rightarrow> gotype list \<Rightarrow> Container \<Rightarrow> field \<Rightarrow> bound_value option" where
  "inject_field srt ks c f =
     (if fd_tag f = [] \<or> \<not> fd_CanSet f then None
      else
        (let named = (if fd_tag f \<noteq> ''true'' then ResolveNamed (fd_tag f) c else None);
             cands = sortedBindings srt ks c
         in case named of Some i \<Rightarrow> Some i
            | None \<Rightarrow>
                (case (if is_interface (fd_type f)
                       then find (\<lambda>b. Implements (bv_type b) (fd_type f)) cands else None) of
                   Some i \<Rightarrow> Some i
                 | None \<Rightarrow> find (\<lambda>b. AssignableTo (bv_type b) (fd_type f)) cands)))"

datatype inject_target = StructPointer "field list" | OtherTarget string

definition Inject ::
  "(gotype list \<Rightarrow> gotype list) \<Rightarrow> gotype list \<Rightarrow> inject_target \<Rightarrow> Container
    \<Rightarrow> string + bound_value option list" where
  "Inject srt ks target c =
     (case target of
        OtherTarget kind \<Rightarrow> Inl (''Inject: target must be a pointer to struct, got '' @ kind)
      | StructPointer fs \<Rightarrow> Inr (map (inject_field srt ks c) fs))"

section \<open>Lookups\<close>

lemma Resolve_lookup:
  assumes "iter_order ks (bindings c)"
  shows "Resolve ks t c = bindings c (deref t)"
proof (cases "deref t \<in> set ks")
  case True
  then obtain k rest where "filter (\<lambda>k. k = deref t) ks = k # rest"
    by (metis (mono_tags, lifting) filter_empty_conv neq_Nil_conv)
  moreover from this have "k = deref t" by (metis (mono_tags, lifting) Cons_eq_filterD)
  ultimately show ?thesis by (simp add: Resolve_def Let_def)
next
  case False
  then have "bindings c (deref t) = None" using assms by (auto simp: iter_order_def)
  moreover have "filter (\<lambda>k. k = deref t) ks = []" using False by (auto simp: filter_empty_conv)
  ultimately show ?thesis by (simp add: Resolve_def Let_def)
qed

lemma candidate_bound:
  assumes "iter_order ks (bindings c)" "sorts_by ty_String srt"
  shows "set (sortedBindings srt ks c) = ran (bindings c)"
  using assms sorts_by_set [OF assms(2), of ks]
  by (auto simp: sortedBindings_def iter_order_def ran_def image_iff domIff) (metis domI option.sel)

lemma find_SomeD: "find P xs = Some x \<Longrightarrow> x \<in> set xs \<and> P x"
  by (induction xs) (auto split: if_splits)

lemma find_NoneD: "find P xs = None \<Longrightarrow> x \<in> set xs \<Longrightarrow> \<not> P x"
  by (simp add: find_None_iff)

lemma inject_field_cases:
  assumes "fd_tag f \<noteq> []" "fd_CanSet f"
  obtains (by_alias) i where "ResolveNamed (fd_tag f) c = Some i" "inject_field srt ks c f = Some i"
  | (fits) i where "inject_field srt ks c f = Some i" "i \<in> set (sortedBindings srt ks c)"
      "AssignableTo (bv_type i) (fd_type f)"
  | (none) "inject_field srt ks c f = None"
      "find (\<lambda>b. AssignableTo (bv_type b) (fd_type f)) (sortedBindings srt ks c) = None"
proof -
  let ?cands = "sortedBindings srt ks c"
  let ?named = "if fd_tag f \<noteq> ''true'' then ResolveNamed (fd_tag f) c else None"
  let ?impl = "if is_interface (fd_type f) then find (\<lambda>b. Implements (bv_type b) (fd_type f)) ?cands else None"
  let ?any = "find (\<lambda>b. AssignableTo (bv_type b) (fd_type f)) ?cands"
  have run: "inject_field srt ks c f =
      (case ?named of Some i \<Rightarrow> Some i | None \<Rightarrow> (case ?impl of Some i \<Rightarrow> Some i | None \<Rightarrow> ?any))"
    using assms by (simp add: inject_field_def Let_def)
  show thesis
  proof (cases ?named)
    case (Some i)
    then have "ResolveNamed (fd_tag f) c = Some i" by (simp split: if_splits)
    then show thesis using that(1) run Some by simp
  next
    case no_name: None
    show thesis
    proof (cases ?impl)
      case (Some i)
      then have "find (\<lambda>b. Implements (bv_type b) (fd_type f)) ?cands = Some i" by (simp split: if_splits)
      then show thesis using that(2) run no_name Some by (auto dest: find_SomeD simp: AssignableTo_def)
    next
      case None
      then show thesis using that(2,3) run no_name by (cases ?any) (auto dest: find_SomeD)
    qed
  qed
qed

text \<open>the laws of the container: \<open>Resolve\<close> after \<open>Bind\<close> returns the bound value, for interfaces and
  for concrete types, also through a pointer, and leaves other types alone; \<open>BindNamed\<close> also answers the
  name; after \<open>Remove\<close> neither the type nor a name that points to it resolves. \<open>Inject\<close> sets a tagged
  field to a value that is bound and, when the tag is no alias, assignable to the field; and it leaves
  such a field alone only if no bound value fits it.\<close>

theorem container_laws:
  assumes order: "iter_order ks (bindings c)" and sorted: "sorts_by ty_String srt"
    and f: "fd_tag f \<noteq> []" "fd_CanSet f"
  shows "bindings (Bind t i c) (deref u) = (if deref u = deref t then Some i else Resolve ks u c)
    \<and> ResolveNamed n (BindNamed n t i c) = Some i
    \<and> bindings (Remove t c) (deref t) = None
    \<and> (aliases c n = Some (deref t) \<longrightarrow> ResolveNamed n (Remove t c) = None)
    \<and> (case inject_field srt ks c f of
         Some j \<Rightarrow> j \<in> ran (bindings c)
           \<and> (ResolveNamed (fd_tag f) c = Some j \<or> AssignableTo (bv_type j) (fd_type f))
       | None \<Rightarrow> \<forall>j \<in> ran (bindings c). \<not> AssignableTo (bv_type j) (fd_type f))"
proof (intro conjI)
  show "bindings (Bind t i c) (deref u) = (if deref u = deref t then Some i else Resolve ks u c)"
    by (simp add: Bind_def Resolve_lookup [OF order])
  show "ResolveNamed n (BindNamed n t i c) = Some i" by (simp add: ResolveNamed_def BindNamed_def)
  show "bindings (Remove t c) (deref t) = None" by (simp add: Remove_def)
  show "aliases c n = Some (deref t) \<longrightarrow> ResolveNamed n (Remove t c) = None"
    by (simp add: ResolveNamed_def Remove_def)
  note bound = candidate_bound [OF order sorted]
  show "case inject_field srt ks c f of
         Some j \<Rightarrow> j \<in> ran (bindings c)
           \<and> (ResolveNamed (fd_tag f) c = Some j \<or> AssignableTo (bv_type j) (fd_type f))
       | None \<Rightarrow> \<forall>j \<in> ran (bindings c). \<not> AssignableTo (bv_type j) (fd_type f)"
    by (rule inject_field_cases [OF f, of c srt ks])
      (auto simp: bound [symmetric] dest: find_NoneD, auto simp: bound ResolveNamed_def ran_def split: option.splits)
qed

section \<open>The binding a field gets\<close>

definition iface_reader :: gotype where "iface_reader = Interface ''pkg.Reader'' [''Read'']"
definition iface_closer :: gotype where "iface_closer = Interface ''pkg.Closer'' [''Close'']"
definition plain_reader :: bound_value where
  "plain_reader = \<lparr>bv_type = Pointer ''*pkg.R'' [''Read''] (Concrete ''pkg.R'' []), bv_id = 1\<rparr>"
definition read_closer :: bound_value where
  "read_closer = \<lparr>bv_type = Pointer ''*pkg.RC'' [''Read'', ''Close''] (Concrete ''pkg.RC'' []), bv_id = 2\<rparr>"

definition two_bindings :: Container where
  "two_bindings = Bind (Pointer [] [] iface_closer) read_closer (Bind (Pointer [] [] iface_reader) plain_reader NewContainer)"

lemma two_bindings_order: "iter_order [iface_reader, iface_closer] (bindings two_bindings)"
  by (auto simp: iter_order_def two_bindings_def Bind_def NewContainer_def iface_reader_def iface_closer_def)

theorem container_laws_witness:
  "inject_field (sort_key ty_String) [iface_reader, iface_closer] two_bindings
     \<lparr>fd_tag = ''true'', fd_type = iface_reader, fd_CanSet = True\<rparr> \<noteq> None"
proof -
  let ?f = "\<lparr>fd_tag = ''true'', fd_type = iface_reader, fd_CanSet = True\<rparr>"
  have "sorts_by ty_String (sort_key ty_String)" by (rule sorts_by_sort_key)
  then have "case inject_field (sort_key ty_String) [iface_reader, iface_closer] two_bindings ?f of
      Some j \<Rightarrow> True | None \<Rightarrow> \<forall>j \<in> ran (bindings two_bindings). \<not> AssignableTo (bv_type j) iface_reader"
    using container_laws [OF two_bindings_order, of "sort_key ty_String" ?f]
    by (auto split: option.splits)
  moreover have "plain_reader \<in> ran (bindings two_bindings)"
    by (auto simp: ran_def two_bindings_def Bind_def iface_reader_def iface_closer_def intro!: exI [of _ iface_reader])
  moreover have "AssignableTo (bv_type plain_reader) iface_reader"
    by (simp add: AssignableTo_def Implements_def iface_reader_def plain_reader_def)
  ultimately show ?thesis by (auto split: option.splits)
qed

text \<open>a field of an interface type does not get the value bound to that interface, but the
  first bound value that implements it, in the order of the names of the bound types: with \<open>Reader\<close> and
  \<open>Closer\<close> bound to different values, a \<open>Reader\<close> field gets the value of \<open>Closer\<close> when that one can
  read too.\<close>

theorem inject_ignores_the_exact_binding:
  "Resolve [iface_reader, iface_closer] iface_reader two_bindings = Some plain_reader
   \<and> Inject (sort_key ty_String) [iface_reader, iface_closer]
       (StructPointer [\<lparr>fd_tag = ''true'', fd_type = iface_reader, fd_CanSet = True\<rparr>]) two_bindings
     = Inr [Some read_closer]"
proof -
  have "sort_key ty_String [iface_reader, iface_closer] = [iface_closer, iface_reader]"
    by (simp add: iface_reader_def iface_closer_def)
  moreover have "the (bindings two_bindings iface_closer) = read_closer"
    by (simp add: two_bindings_def Bind_def)
  ultimately have "sortedBindings (sort_key ty_String) [iface_reader, iface_closer] two_bindings
      = [read_closer, the (bindings two_bindings iface_reader)]"
    by (simp add: sortedBindings_def)
  moreover have "Implements (bv_type read_closer) iface_reader"
    by (simp add: Implements_def iface_reader_def read_closer_def)
  ultimately show ?thesis
    by (simp add: Inject_def inject_field_def Let_def)
      (simp add: Resolve_def Let_def two_bindings_def Bind_def iface_reader_def iface_closer_def)
qed

end
