(* ===== verification/Plugin_Order.thy ===== *)
theory Plugin_Order
  imports Prelude "HOL-Library.Product_Lexorder" "HOL-Library.List_Lexorder" "HOL-Library.Char_ord"
    "HOL-Library.Sublist"
begin

text \<open>
  The start order of the plugins: \<open>orderPlugins\<close> and \<open>priorityOf\<close> of
  \<open>internal/kernel/kernel_lifecycle.go\<close>, over what they read of a plugin (its name, its priority and its
  dependencies, \<open>internal/kernel/plugin.go\<close>). Plugins are addressed by their index in the slice, as in the
  source. \<open>kahn\<close> is the loop over \<open>ready\<close>; every index enters \<open>ready\<close> at most once, so \<open>n\<close> turns are
  enough (\<open>kahn_done\<close>). \<open>srt\<close> is \<open>sort.Slice\<close> on the indices that are left.
\<close>

record PluginDependency =
  dep_Interface :: "string option"
  dep_Name :: string

record plugin_meta =
  pm_Name :: string
  pm_Priority :: "int option"
  pm_Dependencies :: "PluginDependency list"

definition priorityOf :: "plugin_meta \<Rightarrow> int" where
  "priorityOf p = (case pm_Priority p of Some x \<Rightarrow> x | None \<Rightarrow> 0)"

text \<open>\<open>byName\<close>: a later plugin of the same name overwrites the earlier one.\<close>

definition by_name :: "plugin_meta list \<Rightarrow> string \<rightharpoonup> nat" where
  "by_name ps = map_of (rev (zip (map pm_Name ps) [0..<length ps]))"

text \<open>The edges of \<open>deps\<close>, in the order the two loops add them: \<open>(j, i)\<close> means \<open>j\<close> starts before \<open>i\<close>.\<close>

definition edges_of :: "plugin_meta list \<Rightarrow> nat \<Rightarrow> (nat \<times> nat) list" where
  "edges_of ps i =
     concat (map (\<lambda>d. if dep_Name d = [] \<or> dep_Interface d \<noteq> None then []
                      else (case by_name ps (dep_Name d) of
                              Some j \<Rightarrow> if j = i then [] else [(j, i)]
                            | None \<Rightarrow> []))
            (pm_Dependencies (ps ! i)))"

definition dep_edges :: "plugin_meta list \<Rightarrow> (nat \<times> nat) list" where
  "dep_edges ps = concat (map (edges_of ps) [0..<length ps])"

definition successors :: "(nat \<times> nat) list \<Rightarrow> nat \<Rightarrow> nat list" where
  "successors es j = map snd (filter (\<lambda>e. fst e = j) es)"

definition indegree :: "(nat \<times> nat) list \<Rightarrow> nat \<Rightarrow> int" where
  "indegree es i = int (length (filter (\<lambda>e. snd e = i) es))"

definition plugin_key :: "plugin_meta list \<Rightarrow> nat \<Rightarrow> int \<times> string" where
  "plugin_key ps a = (priorityOf (ps ! a), pm_Name (ps ! a))"

definition less_plugin :: "plugin_meta list \<Rightarrow> nat \<Rightarrow> nat \<Rightarrow> bool" where
  "less_plugin ps a b =
     (let pa = priorityOf (ps ! a); pb = priorityOf (ps ! b)
      in if pa \<noteq> pb then pa < pb else pm_Name (ps ! a) < pm_Name (ps ! b))"

text \<open>The scan for the best ready plugin, from index 1 on.\<close>

definition best_index :: "plugin_meta list \<Rightarrow> nat list \<Rightarrow> nat" where
  "best_index ps ready =
     foldl (\<lambda>best i. if less_plugin ps (ready ! i) (ready ! best) then i else best) 0 [1..<length ready]"

text \<open>The inner loop: every successor loses one incoming edge, and joins \<open>ready\<close> at zero.\<close>

fun release :: "nat list \<Rightarrow> (nat \<Rightarrow> int) \<Rightarrow> nat list \<Rightarrow> (nat \<Rightarrow> int) \<times> nat list" where
  "release [] indeg ready = (indeg, ready)"
| "release (nxt # ns) indeg ready =
     (let indeg' = indeg(nxt := indeg nxt - 1)
      in release ns indeg' (if indeg' nxt = 0 then ready @ [nxt] else ready))"

fun kahn :: "plugin_meta list \<Rightarrow> (nat \<times> nat) list \<Rightarrow> nat \<Rightarrow> nat list \<Rightarrow> (nat \<Rightarrow> int) \<Rightarrow> nat list
    \<Rightarrow> nat list \<times> nat list" where
  "kahn ps es 0 ready indeg out = (ready, out)"
| "kahn ps es (Suc fuel) ready indeg out =
     (if ready = [] then ([], out)
      else
        (let b = best_index ps ready;
             idx = ready ! b;
             ready1 = take b ready @ drop (Suc b) ready;
             (indeg', ready') = release (successors es idx) indeg ready1
         in kahn ps es fuel ready' indeg' (out @ [idx])))"

definition kahn_order :: "plugin_meta list \<Rightarrow> nat list \<times> nat list" where
  "kahn_order ps =
     (let n = length ps; es = dep_edges ps
      in kahn ps es n (filter (\<lambda>i. indegree es i = 0) [0..<n]) (indegree es) [])"

text \<open>\<open>orderPlugins\<close>, as the indices of the result.\<close>

definition orderPlugins :: "(nat list \<Rightarrow> nat list) \<Rightarrow> plugin_meta list \<Rightarrow> nat list" where
  "orderPlugins srt ps =
     (let n = length ps
      in if n \<le> 1 then [0..<n]
         else
           (let out = snd (kahn_order ps)
            in if length out \<noteq> n
               then let seen = map (\<lambda>i. by_name ps (pm_Name (ps ! i))) out
                    in out @ srt (filter (\<lambda>i. Some i \<notin> set seen) [0..<n])
               else out))"

section \<open>The loop\<close>

lemma less_plugin_key: "less_plugin ps a b \<longleftrightarrow> plugin_key ps a < plugin_key ps b"
  by (auto simp: less_plugin_def plugin_key_def Let_def less_prod_def)

lemma best_index_bound: "ready \<noteq> [] \<Longrightarrow> best_index ps ready < length ready"
proof -
  assume ne: "ready \<noteq> []"
  have "\<forall>i\<in>set is. i < length ready \<Longrightarrow> b < length ready \<Longrightarrow>
      foldl (\<lambda>best i. if less_plugin ps (ready ! i) (ready ! best) then i else best) b is < length ready" for b "is"
    by (induction "is" arbitrary: b) auto
  with ne show ?thesis by (simp add: best_index_def)
qed

lemma best_index_minimal:
  assumes "k < length ready"
  shows "plugin_key ps (ready ! best_index ps ready) \<le> plugin_key ps (ready ! k)"
proof -
  let ?f = "\<lambda>best i. if less_plugin ps (ready ! i) (ready ! best) then i else best"
  have "\<forall>i \<in> insert b (set is). plugin_key ps (ready ! foldl ?f b is) \<le> plugin_key ps (ready ! i)" for b "is"
  proof (induction "is" arbitrary: b)
    case (Cons x xs)
    from Cons [of "?f b x"] show ?case
      by (auto simp: less_plugin_key split: if_splits)
  qed simp
  moreover have "k \<in> insert 0 (set [1..<length ready])" using assms by auto
  ultimately show ?thesis unfolding best_index_def by blast
qed

lemma release_spec:
  assumes "\<forall>i. int (count_list ns i) \<le> indeg i" "\<forall>i \<in> set ns. i \<notin> set ready" "distinct ready"
    and "release ns indeg ready = (indeg', ready')"
  shows "(\<forall>i. indeg' i = indeg i - int (count_list ns i)) \<and> distinct ready'
    \<and> set ready' = set ready \<union> {i \<in> set ns. indeg i = int (count_list ns i)}"
  using assms
proof (induction ns arbitrary: indeg ready)
  case (Cons x ns)
  let ?g = "indeg(x := indeg x - 1)"
  let ?r = "if ?g x = 0 then ready @ [x] else ready"
  have gx: "int (count_list ns x) \<le> ?g x" using spec [OF Cons.prems(1), of x] by simp
  have pre: "\<forall>i. int (count_list ns i) \<le> ?g i"
  proof
    fix i show "int (count_list ns i) \<le> ?g i"
      using spec [OF Cons.prems(1), of i] by (cases "i = x") auto
  qed
  have fresh: "\<forall>i \<in> set ns. i \<notin> set ?r"
    using Cons.prems(2) gx by (auto simp: count_list_0_iff)
  have dist: "distinct ?r" using Cons.prems(2,3) by simp
  have run: "release ns ?g ?r = (indeg', ready')" using Cons.prems(4) by (simp add: Let_def)
  note ih = Cons.IH [OF pre fresh dist run]
  have "set ready' = set ready \<union> {i \<in> set (x # ns). indeg i = int (count_list (x # ns) i)}"
  proof (cases "?g x = 0")
    case True
    then have "count_list ns x = 0" using gx by simp
    then have "x \<notin> set ns" by (simp add: count_list_0_iff)
    with True ih show ?thesis by auto
  next
    case False
    then have "x \<in> set ns \<or> indeg x \<noteq> int (count_list (x # ns) x)"
      by (auto simp: count_list_0_iff)
    with False ih show ?thesis by auto
  qed
  with ih show ?case by auto
qed auto

definition edges_within :: "nat \<Rightarrow> (nat \<times> nat) list \<Rightarrow> bool" where
  "edges_within n es \<longleftrightarrow> (\<forall>(j, i) \<in> set es. j < n \<and> i < n \<and> j \<noteq> i)"

definition open_edges :: "(nat \<times> nat) list \<Rightarrow> nat list \<Rightarrow> nat \<Rightarrow> int" where
  "open_edges es out i = int (length (filter (\<lambda>e. snd e = i \<and> fst e \<notin> set out) es))"

definition deps_first :: "(nat \<times> nat) list \<Rightarrow> nat list \<Rightarrow> bool" where
  "deps_first es out \<longleftrightarrow> (\<forall>as i bs. out = as @ i # bs \<longrightarrow> (\<forall>j. (j, i) \<in> set es \<longrightarrow> j \<in> set as))"

text \<open>Every turn takes the best of the plugins whose dependencies have started.\<close>

definition greedy :: "plugin_meta list \<Rightarrow> nat \<Rightarrow> (nat \<times> nat) list \<Rightarrow> nat list \<Rightarrow> bool" where
  "greedy ps n es out \<longleftrightarrow> (\<forall>as i bs. out = as @ i # bs \<longrightarrow>
     (\<forall>k < n. k \<notin> set as \<longrightarrow> open_edges es as k = 0 \<longrightarrow> plugin_key ps i \<le> plugin_key ps k))"

definition kahn_inv :: "plugin_meta list \<Rightarrow> nat \<Rightarrow> (nat \<times> nat) list \<Rightarrow> nat list \<Rightarrow> (nat \<Rightarrow> int) \<Rightarrow> nat list \<Rightarrow> bool" where
  "kahn_inv ps n es ready indeg out \<longleftrightarrow> greedy ps n es out \<and>
     distinct (out @ ready) \<and> set (out @ ready) \<subseteq> {..<n} \<and> (\<forall>i. indeg i = open_edges es out i)
     \<and> (\<forall>i<n. indeg i = 0 \<longleftrightarrow> i \<in> set (out @ ready)) \<and> deps_first es out"

lemma open_edges_0: "open_edges es out i = 0 \<longleftrightarrow> (\<forall>j. (j, i) \<in> set es \<longrightarrow> j \<in> set out)"
  by (auto simp: open_edges_def filter_empty_conv)

lemma count_successors: "count_list (successors es j) i = length (filter (\<lambda>e. e = (j, i)) es)"
  by (induction es) (auto simp: successors_def)

lemma open_edges_snoc:
  "j \<notin> set out \<Longrightarrow> open_edges es (out @ [j]) i = open_edges es out i - int (count_list (successors es j) i)"
  unfolding open_edges_def count_successors by (induction es) auto

lemma deps_first_snoc:
  assumes "deps_first es out" "open_edges es out i = 0"
  shows "deps_first es (out @ [i])"
  unfolding deps_first_def
proof (intro allI impI)
  fix as k bs j
  assume split: "out @ [i] = as @ k # bs" and e: "(j, k) \<in> set es"
  show "j \<in> set as"
  proof (cases bs rule: rev_cases)
    case Nil
    then show ?thesis using split e assms(2) by (auto simp: open_edges_0)
  next
    case (snoc cs c)
    then have "out = as @ k # cs" using split by simp
    then show ?thesis using assms(1) e by (auto simp: deps_first_def)
  qed
qed

lemma greedy_snoc:
  assumes "greedy ps n es out"
    and "\<And>k. k < n \<Longrightarrow> k \<notin> set out \<Longrightarrow> open_edges es out k = 0 \<Longrightarrow> plugin_key ps i \<le> plugin_key ps k"
  shows "greedy ps n es (out @ [i])"
  unfolding greedy_def
proof (intro allI impI)
  fix as j bs k
  assume split: "out @ [i] = as @ j # bs" and k: "k < n" "k \<notin> set as" "open_edges es as k = 0"
  show "plugin_key ps j \<le> plugin_key ps k"
  proof (cases bs rule: rev_cases)
    case Nil
    then show ?thesis using split k assms(2) by simp
  next
    case (snoc cs c)
    then have "out = as @ j # cs" using split by simp
    then show ?thesis using assms(1) k by (auto simp: greedy_def)
  qed
qed

lemma remove_middle: "distinct (as @ x # bs) \<Longrightarrow> set (as @ bs) = set (as @ x # bs) - {x} \<and> distinct (as @ bs)"
  by auto

lemma kahn_step:
  assumes inv: "kahn_inv ps n es ready indeg out" and within: "edges_within n es" and b: "b < length ready"
    and least: "\<forall>k < length ready. plugin_key ps (ready ! b) \<le> plugin_key ps (ready ! k)"
    and run: "release (successors es (ready ! b)) indeg (take b ready @ drop (Suc b) ready) = (indeg', ready')"
  shows "kahn_inv ps n es ready' indeg' (out @ [ready ! b])"
proof -
  let ?idx = "ready ! b" and ?r = "take b ready @ drop (Suc b) ready"
  have split: "ready = take b ready @ ?idx # drop (Suc b) ready" by (rule id_take_nth_drop [OF b])
  have dist: "distinct ready" "set out \<inter> set ready = {}" "distinct out" using inv by (auto simp: kahn_inv_def)
  have mem: "?idx \<in> set ready" using b by simp
  then have idx: "?idx \<in> set ready" "?idx \<notin> set out" "?idx < n"
    using inv dist by (auto simp: kahn_inv_def simp del: nth_mem)
  have r: "set ?r = set ready - {?idx}" "distinct ?r"
    using remove_middle [of "take b ready" ?idx "drop (Suc b) ready"] dist(1) split by simp_all
  have zero: "indeg i = 0" if "i \<in> set out \<union> set ready" for i
    using inv that by (auto simp: kahn_inv_def)
  have count: "int (count_list (successors es ?idx) i) \<le> indeg i" for i
    using inv open_edges_snoc [OF idx(2), of es i] by (simp add: kahn_inv_def open_edges_def)
  have fresh: "\<forall>i \<in> set (successors es ?idx). i \<notin> set ?r"
  proof
    fix i assume i: "i \<in> set (successors es ?idx)"
    then have "count_list (successors es ?idx) i \<noteq> 0" by (simp add: count_list_0_iff)
    then show "i \<notin> set ?r" using count [of i] zero [of i] r by auto
  qed
  note spec = release_spec [OF _ fresh r(2) run]
  have indeg': "indeg' i = open_edges es (out @ [?idx]) i" for i
    using spec count inv by (simp add: kahn_inv_def open_edges_snoc [OF idx(2)])
  have ready': "set ready' = set ?r \<union> {i \<in> set (successors es ?idx). indeg' i = 0}" "distinct ready'"
    using spec count by auto
  have succ: "i < n \<and> i \<noteq> ?idx \<and> i \<notin> set out" if "i \<in> set (successors es ?idx)" for i
  proof -
    have e: "(?idx, i) \<in> set es" using that by (auto simp: successors_def)
    moreover have "i \<notin> set out"
    proof
      assume "i \<in> set out"
      then have "open_edges es out i = 0" using zero [of i] inv by (simp add: kahn_inv_def)
      then show False using e idx(2) by (auto simp: open_edges_0)
    qed
    ultimately show ?thesis using within by (auto simp: edges_within_def)
  qed
  have "indeg' i = 0 \<longleftrightarrow> i \<in> set ((out @ [?idx]) @ ready')" if "i < n" for i
  proof (cases "i \<in> set (successors es ?idx)")
    case True
    then show ?thesis using succ [OF True] ready' fresh by auto
  next
    case False
    then have "count_list (successors es ?idx) i = 0" by (simp add: count_list_0_iff)
    then have "indeg' i = indeg i" using spec count by auto
    moreover have "indeg i = 0 \<longleftrightarrow> i \<in> set (out @ ready)" using inv that unfolding kahn_inv_def by blast
    ultimately show ?thesis using False ready' r idx by auto
  qed
  moreover have "?idx \<notin> set ready'" using succ [of ?idx] ready'(1) r(1) by blast
  then have "distinct ((out @ [?idx]) @ ready')" "set ((out @ [?idx]) @ ready') \<subseteq> {..<n}"
    using dist ready' r idx succ inv by (auto simp: kahn_inv_def)
  moreover have "deps_first es (out @ [?idx])"
    using deps_first_snoc zero [of ?idx] idx inv by (simp add: kahn_inv_def)
  moreover have "greedy ps n es (out @ [?idx])"
  proof (rule greedy_snoc)
    show "greedy ps n es out" using inv by (simp add: kahn_inv_def)
    fix k assume k: "k < n" "k \<notin> set out" "open_edges es out k = 0"
    then have "k \<in> set ready" using inv unfolding kahn_inv_def by auto
    then show "plugin_key ps ?idx \<le> plugin_key ps k" using least by (auto simp: in_set_conv_nth)
  qed
  ultimately show ?thesis using indeg' inv unfolding kahn_inv_def by blast
qed

lemma kahn_done:
  assumes "kahn_inv ps n es ready indeg out" "edges_within n es" "n \<le> length out + fuel"
    and "kahn ps es fuel ready indeg out = (rest, out')"
  shows "rest = [] \<and> (\<exists>indeg'. kahn_inv ps n es [] indeg' out')"
  using assms
proof (induction fuel arbitrary: ready indeg out)
  case 0
  have "card (set (out @ ready)) = length (out @ ready)" "set (out @ ready) \<subseteq> {..<n}"
    using 0(1) by (simp_all add: kahn_inv_def distinct_card del: set_append)
  then have "length out + length ready \<le> n" by (metis card_lessThan card_mono finite_lessThan length_append)
  with 0(3) have "length ready = 0" by linarith
  with 0 show ?case by auto
next
  case (Suc fuel)
  show ?case
  proof (cases "ready = []")
    case True
    with Suc.prems show ?thesis by auto
  next
    case False
    obtain indeg' ready' where r: "release (successors es (ready ! best_index ps ready)) indeg
        (take (best_index ps ready) ready @ drop (Suc (best_index ps ready)) ready) = (indeg', ready')"
      by fastforce
    have "kahn_inv ps n es ready' indeg' (out @ [ready ! best_index ps ready])"
      by (rule kahn_step [OF Suc.prems(1,2) best_index_bound [OF False] _ r]) (simp add: best_index_minimal)
    moreover have "kahn ps es fuel ready' indeg' (out @ [ready ! best_index ps ready]) = (rest, out')"
      using Suc.prems(4) False r by (simp add: Let_def)
    ultimately show ?thesis using Suc.IH Suc.prems by simp
  qed
qed

lemma by_name_Some: "by_name ps x = Some i \<Longrightarrow> i < length ps \<and> pm_Name (ps ! i) = x"
  unfolding by_name_def by (drule map_of_SomeD) (auto simp: set_zip)

lemma by_name_nth:
  assumes "distinct (map pm_Name ps)" "i < length ps"
  shows "by_name ps (pm_Name (ps ! i)) = Some i"
proof -
  have "distinct (map fst (rev (zip (map pm_Name ps) [0..<length ps])))"
    using assms(1) by (simp add: rev_map [symmetric])
  moreover have "(pm_Name (ps ! i), i) \<in> set (rev (zip (map pm_Name ps) [0..<length ps]))"
    using assms(2) by (force simp: set_zip)
  ultimately show ?thesis by (simp add: by_name_def)
qed

lemma edges_of_iff: "(j, k) \<in> set (edges_of ps i) \<longleftrightarrow> k = i \<and> j \<noteq> i
    \<and> (\<exists>d \<in> set (pm_Dependencies (ps ! i)). dep_Name d \<noteq> [] \<and> dep_Interface d = None \<and> by_name ps (dep_Name d) = Some j)"
  by (auto simp: edges_of_def split: option.splits if_splits) (rule_tac x = d in bexI; auto)

lemma dep_edges_iff: "(j, i) \<in> set (dep_edges ps) \<longleftrightarrow> i < length ps \<and> j \<noteq> i
    \<and> (\<exists>d \<in> set (pm_Dependencies (ps ! i)). dep_Name d \<noteq> [] \<and> dep_Interface d = None \<and> by_name ps (dep_Name d) = Some j)"
  by (auto simp: dep_edges_def edges_of_iff)

lemma dep_edges_within: "edges_within (length ps) (dep_edges ps)"
  by (auto simp: edges_within_def dep_edges_iff dest: by_name_Some)

lemma kahn_order_inv: "\<exists>indeg. fst (kahn_order ps) = [] \<and> kahn_inv ps (length ps) (dep_edges ps) [] indeg (snd (kahn_order ps))"
proof -
  let ?es = "dep_edges ps" and ?n = "length ps"
  let ?ready = "filter (\<lambda>i. indegree ?es i = 0) [0..<?n]"
  have "indegree ?es i = open_edges ?es [] i" for i by (simp add: indegree_def open_edges_def)
  then have inv: "kahn_inv ps ?n ?es ?ready (indegree ?es) []" by (auto simp: kahn_inv_def deps_first_def greedy_def)
  have le: "?n \<le> length ([] :: nat list) + ?n" by simp
  have run: "kahn ps ?es ?n ?ready (indegree ?es) [] = (fst (kahn_order ps), snd (kahn_order ps))"
    by (simp add: kahn_order_def Let_def)
  show ?thesis using kahn_done [OF inv dep_edges_within le run] by simp
qed

text \<open>The plugins the loop leaves out are those behind a dependency cycle.\<close>

lemma kahn_order_complete:
  fixes rank :: "nat \<Rightarrow> nat"
  assumes "\<forall>(j, i) \<in> set (dep_edges ps). rank j < rank i" "i < length ps"
  shows "i \<in> set (snd (kahn_order ps))"
  using assms(2)
proof (induction "rank i" arbitrary: i rule: less_induct)
  case less
  obtain indeg where inv: "kahn_inv ps (length ps) (dep_edges ps) [] indeg (snd (kahn_order ps))"
    using kahn_order_inv by blast
  have "open_edges (dep_edges ps) (snd (kahn_order ps)) i = 0"
    unfolding open_edges_0
  proof (intro allI impI)
    fix j assume e: "(j, i) \<in> set (dep_edges ps)"
    then have "rank j < rank i" using assms(1) by blast
    moreover have "j < length ps" using e dep_edges_within by (auto simp: edges_within_def)
    ultimately show "j \<in> set (snd (kahn_order ps))" by (rule less.hyps)
  qed
  then show ?case using inv less.prems by (auto simp: kahn_inv_def)
qed

lemma orderPlugins_permutation:
  assumes "distinct (map pm_Name ps)" "sorts_by (plugin_key ps) srt"
  shows "distinct (orderPlugins srt ps) \<and> set (orderPlugins srt ps) = {..<length ps}"
proof (cases "length ps \<le> 1")
  case True
  then show ?thesis by (auto simp: orderPlugins_def)
next
  case False
  obtain indeg where inv: "kahn_inv ps (length ps) (dep_edges ps) [] indeg (snd (kahn_order ps))"
    using kahn_order_inv by blast
  define out where "out = snd (kahn_order ps)"
  have out: "distinct out" "set out \<subseteq> {..<length ps}" using inv by (auto simp: kahn_inv_def out_def)
  show ?thesis
  proof (cases "length out = length ps")
    case True
    then have "set out = {..<length ps}"
      using out by (metis card_lessThan card_subset_eq distinct_card finite_lessThan)
    with True out False show ?thesis by (simp add: orderPlugins_def Let_def out_def)
  next
    case neq: False
    define rest where "rest = filter (\<lambda>i. Some i \<notin> (\<lambda>i. by_name ps (pm_Name (ps ! i))) ` set out) [0..<length ps]"
    have "(\<lambda>i. by_name ps (pm_Name (ps ! i))) ` set out = Some ` set out"
      using out(2) by_name_nth [OF assms(1)] by (intro image_cong) auto
    then have rest: "set rest = {..<length ps} - set out" "distinct rest" by (auto simp: rest_def)
    have sorted: "set (srt rest) = set rest" by (rule sorts_by_set [OF assms(2)])
    have "count_list (srt rest) x \<le> 1" for x
      using assms(2) distinct_count_list [OF rest(2), of x] by (simp add: sorts_by_def)
    then have "distinct (srt rest)" by (simp add: count_list_distinct)
    with sorted rest out have "distinct (out @ srt rest) \<and> set (out @ srt rest) = {..<length ps}" by auto
    moreover have "orderPlugins srt ps = out @ srt rest"
      using False neq by (simp add: orderPlugins_def Let_def out_def rest_def image_image)
    ultimately show ?thesis by simp
  qed
qed

section \<open>The order the loop computes\<close>

definition plugin_dep :: "plugin_meta \<Rightarrow> PluginDependency \<Rightarrow> bool" where
  "plugin_dep p d \<longleftrightarrow> d \<in> set (pm_Dependencies p) \<and> dep_Name d \<noteq> [] \<and> dep_Interface d = None
     \<and> dep_Name d \<noteq> pm_Name p"

definition acyclic_deps :: "plugin_meta set \<Rightarrow> (string \<Rightarrow> nat) \<Rightarrow> bool" where
  "acyclic_deps S rank \<longleftrightarrow>
     (\<forall>p\<in>S. \<forall>d. plugin_dep p d \<longrightarrow> dep_Name d \<in> pm_Name ` S \<longrightarrow> rank (dep_Name d) < rank (pm_Name p))"

definition startable :: "plugin_meta set \<Rightarrow> plugin_meta list \<Rightarrow> plugin_meta \<Rightarrow> bool" where
  "startable S as p \<longleftrightarrow> (\<forall>d q. plugin_dep p d \<longrightarrow> q \<in> S \<longrightarrow> pm_Name q = dep_Name d \<longrightarrow> q \<in> set as)"

definition meta_key :: "plugin_meta \<Rightarrow> int \<times> string" where
  "meta_key p = (priorityOf p, pm_Name p)"

definition start_spec :: "plugin_meta set \<Rightarrow> plugin_meta list \<Rightarrow> bool" where
  "start_spec S L \<longleftrightarrow> distinct L \<and> set L = S \<and>
     (\<forall>as p bs. L = as @ p # bs \<longrightarrow> startable S as p \<and>
        (\<forall>q\<in>S. q \<notin> set as \<longrightarrow> startable S as q \<longrightarrow> meta_key p \<le> meta_key q))"

lemma start_spec_unique:
  assumes "start_spec S L" "start_spec S L'" "inj_on pm_Name S"
  shows "L = L'"
proof -
  have len: "length L = length L'"
    using assms(1,2) by (metis distinct_card start_spec_def)
  have "L = as @ bs \<Longrightarrow> L' = as @ bs' \<Longrightarrow> bs = bs'" for as bs bs'
  proof (induction bs arbitrary: as bs')
    case Nil
    then show ?case using len by simp
  next
    case (Cons p r)
    then obtain p' r' where bs': "bs' = p' # r'" using len by (cases bs') auto
    have L: "startable S as p" "\<forall>q\<in>S. q \<notin> set as \<longrightarrow> startable S as q \<longrightarrow> meta_key p \<le> meta_key q"
      using assms(1) Cons.prems(1) by (auto simp: start_spec_def)
    have L': "startable S as p'" "\<forall>q\<in>S. q \<notin> set as \<longrightarrow> startable S as q \<longrightarrow> meta_key p' \<le> meta_key q"
      using assms(2) Cons.prems(2) bs' by (auto simp: start_spec_def)
    have "p \<in> S" "p \<notin> set as" "p' \<in> S" "p' \<notin> set as"
      using assms(1,2) Cons.prems bs' by (auto simp: start_spec_def)
    then have "meta_key p = meta_key p'" using L L' by (meson antisym)
    then have "p = p'" using assms(3) \<open>p \<in> S\<close> \<open>p' \<in> S\<close> by (auto simp: meta_key_def dest: inj_onD)
    then show ?case using Cons.IH [of "as @ [p]" r'] Cons.prems bs' by simp
  qed
  then show ?thesis by (metis append_Nil)
qed

lemma startable_edges:
  assumes "distinct (map pm_Name ps)" "i < length ps" "set as \<subseteq> {..<length ps}"
  shows "startable (set ps) (map ((!) ps) as) (ps ! i) \<longleftrightarrow> open_edges (dep_edges ps) as i = 0"
proof -
  have named: "by_name ps x = Some j \<longleftrightarrow> j < length ps \<and> pm_Name (ps ! j) = x" for x j
    using by_name_Some by_name_nth [OF assms(1)] by blast
  have inj: "ps ! j \<in> (!) ps ` set as \<longleftrightarrow> j \<in> set as" if "j < length ps" for j
    using assms that by (auto simp: distinct_map dest: nth_eq_iff_index_eq [THEN iffD1, rotated -1])
  have same: "pm_Name (ps ! j) = pm_Name (ps ! i) \<longleftrightarrow> j = i" if "j < length ps" for j
    using assms(1,2) that by (metis length_map nth_eq_iff_index_eq nth_map)
  have "startable (set ps) (map ((!) ps) as) (ps ! i) \<longleftrightarrow>
      (\<forall>d j. plugin_dep (ps ! i) d \<longrightarrow> j < length ps \<longrightarrow> pm_Name (ps ! j) = dep_Name d \<longrightarrow> j \<in> set as)"
  proof
    assume l: "startable (set ps) (map ((!) ps) as) (ps ! i)"
    show "\<forall>d j. plugin_dep (ps ! i) d \<longrightarrow> j < length ps \<longrightarrow> pm_Name (ps ! j) = dep_Name d \<longrightarrow> j \<in> set as"
    proof (intro allI impI)
      fix d j assume d: "plugin_dep (ps ! i) d" "j < length ps" "pm_Name (ps ! j) = dep_Name d"
      then have "ps ! j \<in> (!) ps ` set as" using l by (simp add: startable_def)
      then show "j \<in> set as" using inj d(2) by blast
    qed
  next
    assume "\<forall>d j. plugin_dep (ps ! i) d \<longrightarrow> j < length ps \<longrightarrow> pm_Name (ps ! j) = dep_Name d \<longrightarrow> j \<in> set as"
    then show "startable (set ps) (map ((!) ps) as) (ps ! i)"
      by (auto simp: startable_def in_set_conv_nth [of _ ps])
  qed
  also have "\<dots> \<longleftrightarrow> (\<forall>j. (j, i) \<in> set (dep_edges ps) \<longrightarrow> j \<in> set as)"
    using assms(2) same by (auto simp: dep_edges_iff plugin_dep_def named) metis
  finally show ?thesis by (simp add: open_edges_0)
qed

lemma orderPlugins_spec:
  assumes dist: "distinct (map pm_Name ps)" and rank: "acyclic_deps (set ps) rank"
  shows "start_spec (set ps) (map ((!) ps) (orderPlugins srt ps))"
proof -
  let ?n = "length ps"
  obtain indeg where inv: "kahn_inv ps ?n (dep_edges ps) [] indeg (snd (kahn_order ps))"
    using kahn_order_inv by blast
  define out where "out = snd (kahn_order ps)"
  have "\<forall>(j, i) \<in> set (dep_edges ps). rank (pm_Name (ps ! j)) < rank (pm_Name (ps ! i))"
  proof safe
    fix j i assume e: "(j, i) \<in> set (dep_edges ps)"
    then obtain d where d: "i < ?n" "j \<noteq> i" "d \<in> set (pm_Dependencies (ps ! i))" "dep_Name d \<noteq> []"
        "dep_Interface d = None" "by_name ps (dep_Name d) = Some j"
      by (auto simp: dep_edges_iff)
    then have j: "j < ?n" "pm_Name (ps ! j) = dep_Name d" by (auto dest: by_name_Some)
    then have "pm_Name (ps ! j) \<noteq> pm_Name (ps ! i)" using d dist by (metis length_map nth_eq_iff_index_eq nth_map)
    then have "plugin_dep (ps ! i) d" using d j by (simp add: plugin_dep_def)
    then show "rank (pm_Name (ps ! j)) < rank (pm_Name (ps ! i))"
      using rank d(1) j nth_mem [OF d(1)] imageI [OF nth_mem [OF j(1)], of pm_Name]
      by (simp add: acyclic_deps_def del: nth_mem)
  qed
  then have "i \<in> set out" if "i < ?n" for i
    using kahn_order_complete [of ps "\<lambda>i. rank (pm_Name (ps ! i))"] that by (simp add: out_def)
  then have out: "distinct out" "set out = {..<?n}" using inv by (auto simp: kahn_inv_def out_def)
  then have len: "length out = ?n" by (metis card_lessThan distinct_card)
  have "orderPlugins srt ps = out"
  proof (cases "?n \<le> 1")
    case True
    then have "?n = 0 \<or> ?n = 1" by linarith
    moreover have "out = [0..<?n]" if "?n = 0" using len that by simp
    moreover have "out = [0..<?n]" if one: "?n = 1"
    proof -
      obtain x where "out = [x]" using len one by (auto simp: length_Suc_conv)
      moreover have "x \<in> {..<1::nat}" using out(2) one \<open>out = [x]\<close> by auto
      ultimately show ?thesis using one by simp
    qed
    ultimately have "out = [0..<?n]" by blast
    then show ?thesis using True by (simp add: orderPlugins_def)
  next
    case False
    then show ?thesis using len by (simp add: orderPlugins_def Let_def out_def)
  qed
  moreover have "start_spec (set ps) (map ((!) ps) out)"
    unfolding start_spec_def
  proof (intro conjI allI impI)
    show "distinct (map ((!) ps) out)"
      using out dist unfolding distinct_map by (intro conjI inj_on_nth) simp_all
    show set_out: "set (map ((!) ps) out) = set ps" by (simp add: out(2) lessThan_atLeast0 nth_image)
    fix as p bs assume "map ((!) ps) out = as @ p # bs"
    then obtain iis i js where split: "out = iis @ i # js" and as: "as = map ((!) ps) iis" "p = ps ! i"
      by (auto simp: map_eq_append_conv map_eq_Cons_conv)
    have bound: "i < ?n" "set iis \<subseteq> {..<?n}" using out(2) split by auto
    have "open_edges (dep_edges ps) iis i = 0"
      using inv split by (auto simp: kahn_inv_def deps_first_def open_edges_0 simp flip: out_def)
    then show "startable (set ps) as p" using startable_edges [OF dist bound] as by simp
    show "\<forall>q\<in>set ps. q \<notin> set as \<longrightarrow> startable (set ps) as q \<longrightarrow> meta_key p \<le> meta_key q"
    proof (intro ballI impI)
      fix q assume q: "q \<in> set ps" "q \<notin> set as" "startable (set ps) as q"
      then obtain k where k: "k < ?n" "q = ps ! k" by (auto simp: in_set_conv_nth)
      then have "k \<notin> set iis" "open_edges (dep_edges ps) iis k = 0"
        using q as startable_edges [OF dist k(1) bound(2)] by auto
      then have "plugin_key ps i \<le> plugin_key ps k"
        using inv split k(1) by (auto simp: kahn_inv_def greedy_def simp flip: out_def)
      then show "meta_key p \<le> meta_key q" using k as by (simp add: meta_key_def plugin_key_def)
    qed
  qed
  ultimately show ?thesis by simp
qed

section \<open>Properties\<close>

text \<open>C39: the start order. Whatever the dependencies and the iteration order of the map, every
  plugin is started exactly once. When the dependencies on other plugins have no cycle, every plugin comes
  after the plugins it depends on, the next one is always the one with the least priority and name among
  those whose dependencies have started, and so the order is the same for every iteration order.\<close>

theorem start_order_deterministic:
  assumes "distinct (map pm_Name ps)" "sorts_by (plugin_key ps) srt"
  shows "distinct (orderPlugins srt ps) \<and> set (orderPlugins srt ps) = {..<length ps}
    \<and> (acyclic_deps (set ps) rank \<longrightarrow>
        start_spec (set ps) (map ((!) ps) (orderPlugins srt ps))
        \<and> (\<forall>ps' srt'. distinct (map pm_Name ps') \<longrightarrow> set ps' = set ps \<longrightarrow>
             map ((!) ps') (orderPlugins srt' ps') = map ((!) ps) (orderPlugins srt ps)))"
proof (intro conjI impI allI)
  show "distinct (orderPlugins srt ps)" "set (orderPlugins srt ps) = {..<length ps}"
    using orderPlugins_permutation [OF assms] by auto
  assume rank: "acyclic_deps (set ps) rank"
  show "start_spec (set ps) (map ((!) ps) (orderPlugins srt ps))"
    by (rule orderPlugins_spec [OF assms(1) rank])
  fix ps' srt' assume ps': "distinct (map pm_Name ps')" "set ps' = set ps"
  then have "acyclic_deps (set ps') rank" using rank by simp
  then show "map ((!) ps') (orderPlugins srt' ps') = map ((!) ps) (orderPlugins srt ps)"
    using start_spec_unique [of "set ps"] orderPlugins_spec [OF assms(1) rank, of srt]
      orderPlugins_spec [OF ps'(1), of rank srt'] ps' assms(1)
    by (auto simp: distinct_map)
qed

definition three_plugins :: "plugin_meta list" where
  "three_plugins =
     [\<lparr>pm_Name = ''policy'', pm_Priority = Some 1, pm_Dependencies = [\<lparr>dep_Interface = None, dep_Name = ''comms''\<rparr>]\<rparr>,
      \<lparr>pm_Name = ''comms'', pm_Priority = Some 5, pm_Dependencies = []\<rparr>,
      \<lparr>pm_Name = ''engine'', pm_Priority = None, pm_Dependencies = [\<lparr>dep_Interface = None, dep_Name = ''absent''\<rparr>]\<rparr>]"

theorem start_order_deterministic_witness:
  "map (pm_Name \<circ> (!) three_plugins) (orderPlugins (sort_key (plugin_key three_plugins)) three_plugins)
     = [''engine'', ''comms'', ''policy'']
   \<and> start_spec (set three_plugins)
       (map ((!) three_plugins) (orderPlugins (sort_key (plugin_key three_plugins)) three_plugins))"
proof -
  have rank: "acyclic_deps (set three_plugins) (\<lambda>n. if n = ''policy'' then 1 else 0)"
    by (auto simp: acyclic_deps_def plugin_dep_def three_plugins_def)
  have names: "distinct (map pm_Name three_plugins)" by (simp add: three_plugins_def)
  have "orderPlugins (sort_key (plugin_key three_plugins)) three_plugins = [2, 1, 0]"
    by code_simp
  then show ?thesis
    using start_order_deterministic [OF names sorts_by_sort_key, of "\<lambda>n. if n = ''policy'' then 1 else 0"] rank
    by (simp add: three_plugins_def)
qed

end
