(* ===== verification/Plugin_Kernel.thy ===== *)
theory Plugin_Kernel
  imports Plugin_Order Extension_Registry Message_Bus DI_Container
begin

text \<open>
  \<open>internal/kernel/kernel.go\<close>, \<open>kernel_lifecycle.go\<close> and \<open>plugin.go\<close>: the plugin kernel. A plugin is a
  handle of type \<open>'p\<close>; \<open>plugin_ops\<close> is Go's \<open>Plugin\<close> interface (with the optional interfaces
  \<open>PriorityPlugin\<close>, \<open>ConfigurablePlugin\<close> and \<open>HealthCheckable\<close>), that is, what calling each method does. A
  method works on the \<open>KernelContext\<close>: the container, the bus, the extension registry, the configuration and
  the rest of the world (\<open>kc_world\<close>, which holds the plugins' own states). It cannot reach the kernel's own
  fields, as in the source: the type of the kernel context is the interface of that name.

  \<open>calls\<close> records the calls of \<open>Init\<close>, \<open>Start\<close> and \<open>Stop\<close> the kernel makes, for the statements only.
  A range over the plugin map is a list \<open>ks\<close> of its keys; \<open>srt\<close> is \<open>sort.Slice\<close>.
\<close>

datatype PluginState =
    PluginUnregistered | PluginRegistered | PluginInitialized | PluginStarted | PluginStopping
  | PluginStopped | PluginFailed

definition PluginState_String :: "PluginState \<Rightarrow> string" where
  "PluginState_String s =
     (case s of PluginUnregistered \<Rightarrow> ''unregistered'' | PluginRegistered \<Rightarrow> ''registered''
      | PluginInitialized \<Rightarrow> ''initialized'' | PluginStarted \<Rightarrow> ''started'' | PluginStopping \<Rightarrow> ''stopping''
      | PluginStopped \<Rightarrow> ''stopped'' | PluginFailed \<Rightarrow> ''failed'')"

record ('e, 'b, 'm, 'w) KernelContext =
  kc_di :: Container
  kc_bus :: "('b, 'm) Bus"
  kc_ext :: "'e ExtensionRegistry"
  kc_config :: "string \<rightharpoonup> string"
  kc_cfg :: "bound_value option"
  kc_world :: 'w

record ('p, 'e, 'b, 'm, 'w) plugin_ops =
  meta :: "'p \<Rightarrow> plugin_meta"
  op_Configure :: "'p \<Rightarrow> ((string \<rightharpoonup> string) \<Rightarrow> ('e, 'b, 'm, 'w) KernelContext
                     \<Rightarrow> string option \<times> ('e, 'b, 'm, 'w) KernelContext) option"
  op_Init :: "'p \<Rightarrow> ('e, 'b, 'm, 'w) KernelContext \<Rightarrow> string option \<times> ('e, 'b, 'm, 'w) KernelContext"
  op_Start :: "'p \<Rightarrow> ('e, 'b, 'm, 'w) KernelContext \<Rightarrow> string option \<times> ('e, 'b, 'm, 'w) KernelContext"
  op_Stop :: "'p \<Rightarrow> ('e, 'b, 'm, 'w) KernelContext \<Rightarrow> string option \<times> ('e, 'b, 'm, 'w) KernelContext"
  op_State :: "'p \<Rightarrow> ('e, 'b, 'm, 'w) KernelContext \<Rightarrow> PluginState"
  op_HealthCheck :: "'p \<Rightarrow> (('e, 'b, 'm, 'w) KernelContext \<Rightarrow> string option) option"
  run_ext :: "('e, unit, ('e, 'b, 'm, 'w) KernelContext) runner"

datatype plugin_call = CInit string | CStart string | CStop string

record 'p pluginRecord =
  plugin :: 'p
  registered :: time

record ('p, 'e, 'b, 'm, 'w) Kernel =
  plugins :: "string \<rightharpoonup> 'p pluginRecord"
  kc :: "('e, 'b, 'm, 'w) KernelContext"
  cancelled :: bool
  done_closed :: bool
  startupOrder :: "string list"
  calls :: "plugin_call list"

definition kernel_points :: "ExtensionPoint list" where
  "kernel_points =
     [\<lparr>ep_Name = ''kernel.pre_init'', ep_Description = ''Called before all plugins are initialized'', ep_Version = ''1.0''\<rparr>,
      \<lparr>ep_Name = ''kernel.post_init'', ep_Description = ''Called after all plugins have been initialized'', ep_Version = ''1.0''\<rparr>,
      \<lparr>ep_Name = ''kernel.pre_start'', ep_Description = ''Called before all plugins are started'', ep_Version = ''1.0''\<rparr>,
      \<lparr>ep_Name = ''kernel.post_start'', ep_Description = ''Called after all plugins have started'', ep_Version = ''1.0''\<rparr>,
      \<lparr>ep_Name = ''kernel.pre_stop'', ep_Description = ''Called before shutdown sequence begins'', ep_Version = ''1.0''\<rparr>,
      \<lparr>ep_Name = ''kernel.post_stop'', ep_Description = ''Called after all plugins have stopped'', ep_Version = ''1.0''\<rparr>]"

definition NewKernel :: "'w \<Rightarrow> ('p, 'e, 'b, 'm, 'w) Kernel" where
  "NewKernel w =
     \<lparr>plugins = Map.empty,
      kc = \<lparr>kc_di = NewContainer, kc_bus = NewBus 512, kc_ext = fold RegisterPoint kernel_points NewExtensionRegistry,
            kc_config = Map.empty, kc_cfg = None, kc_world = w\<rparr>,
      cancelled = False, done_closed = False, startupOrder = [], calls = []\<rparr>"

section \<open>Registration and configuration\<close>

definition SetConfig :: "string \<Rightarrow> string \<Rightarrow> ('e, 'b, 'm, 'w) KernelContext \<Rightarrow> ('e, 'b, 'm, 'w) KernelContext" where
  "SetConfig key v c = c\<lparr>kc_config := (kc_config c)(key \<mapsto> v)\<rparr>"

definition SetConfigObj :: "gotype \<Rightarrow> bound_value \<Rightarrow> ('e, 'b, 'm, 'w) KernelContext \<Rightarrow> ('e, 'b, 'm, 'w) KernelContext" where
  "SetConfigObj config_ptr v c = c\<lparr>kc_cfg := Some v, kc_di := BindNamed ''config'' config_ptr v (kc_di c)\<rparr>"

definition RegisterPlugin ::
  "('p, 'e, 'b, 'm, 'w) plugin_ops \<Rightarrow> time \<Rightarrow> 'p \<Rightarrow> ('p, 'e, 'b, 'm, 'w) Kernel
    \<Rightarrow> string option \<times> ('p, 'e, 'b, 'm, 'w) Kernel" where
  "RegisterPlugin ops now p k =
     (let n = pm_Name (meta ops p)
      in if n = [] then (Some ''plugin name cannot be empty'', k)
         else if plugins k n \<noteq> None then (Some (''plugin '' @ n @ '' is already registered''), k)
         else (None, k\<lparr>plugins := (plugins k)(n \<mapsto> \<lparr>plugin = p, registered = now\<rparr>)\<rparr>))"

text \<open>
  \<open>UnregisterPlugin\<close> gives the lock up while it stops the plugin: \<open>meanwhile\<close> is what other goroutines do
  to the kernel between the two critical sections.
\<close>

definition UnregisterPlugin ::
  "('p, 'e, 'b, 'm, 'w) plugin_ops \<Rightarrow> (('p, 'e, 'b, 'm, 'w) Kernel \<Rightarrow> ('p, 'e, 'b, 'm, 'w) Kernel)
    \<Rightarrow> string \<Rightarrow> ('p, 'e, 'b, 'm, 'w) Kernel \<Rightarrow> string option \<times> ('p, 'e, 'b, 'm, 'w) Kernel" where
  "UnregisterPlugin ops meanwhile name k =
     (case plugins k name of
        None \<Rightarrow> (Some (''plugin '' @ name @ '' not found''), k)
      | Some r \<Rightarrow>
          (let k1 = (if op_State ops (plugin r) (kc k) = PluginStarted
                     then k\<lparr>kc := snd (op_Stop ops (plugin r) (kc k)), calls := calls k @ [CStop name]\<rparr>
                     else k);
               k2 = meanwhile k1
           in if plugins k2 name = None then (Some (''plugin '' @ name @ '' was removed concurrently''), k2)
              else (None, k2\<lparr>kc := (kc k2)\<lparr>kc_ext := er_UnregisterPlugin name (kc_ext (kc k2)),
                                          kc_bus := UnsubscribeAll name (kc_bus (kc k2))\<rparr>,
                             plugins := (plugins k2)(name := None)\<rparr>)))"

definition GetPlugin :: "string \<Rightarrow> ('p, 'e, 'b, 'm, 'w) Kernel \<Rightarrow> 'p option" where
  "GetPlugin name k = map_option plugin (plugins k name)"

definition ListPlugins ::
  "('p, 'e, 'b, 'm, 'w) plugin_ops \<Rightarrow> string list \<Rightarrow> ('p, 'e, 'b, 'm, 'w) Kernel \<Rightarrow> string list" where
  "ListPlugins ops ks k = map (\<lambda>n. pm_Name (meta ops (plugin (the (plugins k n))))) ks"

record PluginHealthStatus =
  ph_Name :: string
  ph_Healthy :: bool
  ph_Error :: string

definition HealthCheck ::
  "('p, 'e, 'b, 'm, 'w) plugin_ops \<Rightarrow> string list \<Rightarrow> ('p, 'e, 'b, 'm, 'w) Kernel \<Rightarrow> PluginHealthStatus list" where
  "HealthCheck ops ks k =
     map (\<lambda>n. let p = plugin (the (plugins k n))
              in case op_HealthCheck ops p of
                   None \<Rightarrow> \<lparr>ph_Name = pm_Name (meta ops p), ph_Healthy = True, ph_Error = []\<rparr>
                 | Some check \<Rightarrow>
                     (case check (kc k) of
                        Some e \<Rightarrow> \<lparr>ph_Name = pm_Name (meta ops p), ph_Healthy = False, ph_Error = e\<rparr>
                      | None \<Rightarrow> \<lparr>ph_Name = pm_Name (meta ops p), ph_Healthy = True, ph_Error = []\<rparr>)) ks"

section \<open>Bootstrap and shutdown\<close>

definition fire :: "('p, 'e, 'b, 'm, 'w) plugin_ops \<Rightarrow> string \<Rightarrow> ('p, 'e, 'b, 'm, 'w) Kernel
    \<Rightarrow> ('p, 'e, 'b, 'm, 'w) Kernel" where
  "fire ops point k = k\<lparr>kc := snd (Execute (run_ext ops) point () (kc_ext (kc k)) (kc k))\<rparr>"

definition name_of :: "('p, 'e, 'b, 'm, 'w) plugin_ops \<Rightarrow> 'p pluginRecord \<Rightarrow> string" where
  "name_of ops r = pm_Name (meta ops (plugin r))"

text \<open>Configure (its error is logged), look the dependencies up (logged), then \<open>Init\<close>.\<close>

fun init_all ::
  "('p, 'e, 'b, 'm, 'w) plugin_ops \<Rightarrow> 'p pluginRecord list \<Rightarrow> ('p, 'e, 'b, 'm, 'w) Kernel
    \<Rightarrow> string option \<times> ('p, 'e, 'b, 'm, 'w) Kernel" where
  "init_all ops [] k = (None, k)"
| "init_all ops (r # rs) k =
     (let c1 = (case op_Configure ops (plugin r) of
                  Some f \<Rightarrow> snd (f (kc_config (kc k)) (kc k)) | None \<Rightarrow> kc k);
          (er, c2) = op_Init ops (plugin r) c1;
          k1 = k\<lparr>kc := c2, calls := calls k @ [CInit (name_of ops r)]\<rparr>
      in case er of
           Some e \<Rightarrow> (Some (''init plugin '' @ name_of ops r @ '': '' @ e), k1)
         | None \<Rightarrow> init_all ops rs k1)"

fun start_all ::
  "('p, 'e, 'b, 'm, 'w) plugin_ops \<Rightarrow> 'p pluginRecord list \<Rightarrow> ('p, 'e, 'b, 'm, 'w) Kernel
    \<Rightarrow> string option \<times> ('p, 'e, 'b, 'm, 'w) Kernel" where
  "start_all ops [] k = (None, k)"
| "start_all ops (r # rs) k =
     (let (er, c) = op_Start ops (plugin r) (kc k);
          k1 = k\<lparr>kc := c, calls := calls k @ [CStart (name_of ops r)]\<rparr>
      in case er of
           Some e \<Rightarrow> (Some (''start plugin '' @ name_of ops r @ '': '' @ e), k1)
         | None \<Rightarrow> start_all ops rs k1)"

definition records_of :: "string list \<Rightarrow> ('p, 'e, 'b, 'm, 'w) Kernel \<Rightarrow> 'p pluginRecord list" where
  "records_of ks k = map (\<lambda>n. the (plugins k n)) ks"

definition ordered ::
  "('p, 'e, 'b, 'm, 'w) plugin_ops \<Rightarrow> (nat list \<Rightarrow> nat list) \<Rightarrow> 'p pluginRecord list \<Rightarrow> 'p pluginRecord list" where
  "ordered ops srt rs = map ((!) rs) (orderPlugins srt (map (\<lambda>r. meta ops (plugin r)) rs))"

definition Bootstrap ::
  "('p, 'e, 'b, 'm, 'w) plugin_ops \<Rightarrow> (nat list \<Rightarrow> nat list) \<Rightarrow> string list
    \<Rightarrow> ('p, 'e, 'b, 'm, 'w) Kernel \<Rightarrow> string option \<times> ('p, 'e, 'b, 'm, 'w) Kernel" where
  "Bootstrap ops srt ks k0 =
     (let rs = ordered ops srt (records_of ks k0);
          k1 = fire ops ''kernel.pre_init'' (k0\<lparr>startupOrder := map (name_of ops) rs\<rparr>);
          (er, k2) = init_all ops rs k1
      in case er of
           Some e \<Rightarrow> (Some e, k2)
         | None \<Rightarrow>
             (let k3 = fire ops ''kernel.pre_start'' (fire ops ''kernel.post_init'' k2);
                  (er, k4) = start_all ops rs k3
              in case er of
                   Some e \<Rightarrow> (Some e, k4)
                 | None \<Rightarrow> (None, fire ops ''kernel.post_start'' k4)))"

fun stop_all ::
  "('p, 'e, 'b, 'm, 'w) plugin_ops \<Rightarrow> 'p pluginRecord list \<Rightarrow> ('p, 'e, 'b, 'm, 'w) Kernel
    \<Rightarrow> ('p, 'e, 'b, 'm, 'w) Kernel" where
  "stop_all ops [] k = k"
| "stop_all ops (r # rs) k =
     stop_all ops rs
       (if op_State ops (plugin r) (kc k) \<noteq> PluginStarted then k
        else k\<lparr>kc := snd (op_Stop ops (plugin r) (kc k)), calls := calls k @ [CStop (name_of ops r)]\<rparr>)"

text \<open>\<open>shutdownOrder\<close> on the records of the map.\<close>

definition shutdown_records ::
  "('p, 'e, 'b, 'm, 'w) plugin_ops \<Rightarrow> ('p pluginRecord list \<Rightarrow> 'p pluginRecord list)
    \<Rightarrow> string list \<Rightarrow> 'p pluginRecord list \<Rightarrow> 'p pluginRecord list" where
  "shutdown_records ops srt order rs =
     (if order = [] then srt rs
      else List.map_filter (map_of (map (\<lambda>r. (name_of ops r, r)) (rev rs))) (rev order)
           @ filter (\<lambda>r. name_of ops r \<notin> set order) rs)"

definition Shutdown ::
  "('p, 'e, 'b, 'm, 'w) plugin_ops \<Rightarrow> ('p pluginRecord list \<Rightarrow> 'p pluginRecord list) \<Rightarrow> string list
    \<Rightarrow> ('p, 'e, 'b, 'm, 'w) Kernel \<Rightarrow> ('p, 'e, 'b, 'm, 'w) Kernel" where
  "Shutdown ops srt ks k0 =
     (let k1 = fire ops ''kernel.pre_stop'' k0;
          k2 = stop_all ops (shutdown_records ops srt (startupOrder k1) (records_of ks k1)) k1;
          k3 = k2\<lparr>cancelled := True, kc := (kc k2)\<lparr>kc_bus := bus_Stop (kc_bus (kc k2))\<rparr>\<rparr>
      in (fire ops ''kernel.post_stop'' k3)\<lparr>done_closed := True\<rparr>)"

text \<open>\<open>Run\<close>: what happens between the start and the signal is \<open>serve\<close>.\<close>

definition Run ::
  "('p, 'e, 'b, 'm, 'w) plugin_ops \<Rightarrow> (nat list \<Rightarrow> nat list) \<Rightarrow> ('p pluginRecord list \<Rightarrow> 'p pluginRecord list)
    \<Rightarrow> string list \<Rightarrow> string list \<Rightarrow> (('p, 'e, 'b, 'm, 'w) Kernel \<Rightarrow> ('p, 'e, 'b, 'm, 'w) Kernel)
    \<Rightarrow> ('p, 'e, 'b, 'm, 'w) Kernel \<Rightarrow> string option \<times> ('p, 'e, 'b, 'm, 'w) Kernel" where
  "Run ops srt srt_stop ks ks' serve k =
     (case Bootstrap ops srt ks k of
        (Some e, k1) \<Rightarrow> (Some e, k1)
      | (None, k1) \<Rightarrow> (None, Shutdown ops srt_stop ks' (serve k1)))"

definition IsRunning :: "('p, 'e, 'b, 'm, 'w) Kernel \<Rightarrow> bool" where
  "IsRunning k \<longleftrightarrow> \<not> done_closed k"

section \<open>Frames and traces\<close>

definition kernel_wf :: "('p, 'e, 'b, 'm, 'w) plugin_ops \<Rightarrow> ('p, 'e, 'b, 'm, 'w) Kernel \<Rightarrow> bool" where
  "kernel_wf ops k \<longleftrightarrow> (\<forall>n r. plugins k n = Some r \<longrightarrow> name_of ops r = n)"

lemma kernel_wf_new [inv_intros]: "kernel_wf ops (NewKernel w)"
  by (simp add: kernel_wf_def NewKernel_def)

lemma kernel_wf_register [inv_intros]: "kernel_wf ops k \<Longrightarrow> kernel_wf ops (snd (RegisterPlugin ops now p k))"
  by (auto simp: kernel_wf_def RegisterPlugin_def name_of_def Let_def)

lemma fire_frame [simp]:
  "plugins (fire ops pt k) = plugins k" "startupOrder (fire ops pt k) = startupOrder k"
  "calls (fire ops pt k) = calls k" "cancelled (fire ops pt k) = cancelled k" "done_closed (fire ops pt k) = done_closed k"
  by (simp_all add: fire_def)

lemma init_all_trace:
  "init_all ops rs k = (er, k') \<Longrightarrow>
   plugins k' = plugins k \<and> startupOrder k' = startupOrder k \<and> done_closed k' = done_closed k
   \<and> (\<exists>pre. prefix pre rs \<and> calls k' = calls k @ map (\<lambda>r. CInit (name_of ops r)) pre \<and> (er = None \<longrightarrow> pre = rs))"
proof (induction rs arbitrary: k)
  case (Cons r rs)
  let ?c1 = "case op_Configure ops (plugin r) of Some f \<Rightarrow> snd (f (kc_config (kc k)) (kc k)) | None \<Rightarrow> kc k"
  obtain e c2 where call: "op_Init ops (plugin r) ?c1 = (e, c2)" by fastforce
  let ?k1 = "k\<lparr>kc := c2, calls := calls k @ [CInit (name_of ops r)]\<rparr>"
  show ?case
  proof (cases e)
    case None
    then have "init_all ops rs ?k1 = (er, k')" using Cons.prems call by (simp add: Let_def)
    from Cons.IH [OF this] obtain pre where
      "plugins k' = plugins k" "startupOrder k' = startupOrder k" "done_closed k' = done_closed k" "prefix pre rs"
      "calls k' = calls k @ map (\<lambda>r. CInit (name_of ops r)) (r # pre)" "er = None \<longrightarrow> pre = rs"
      by auto
    then show ?thesis by (intro conjI exI [of _ "r # pre"]) simp_all
  next
    case (Some m)
    then have "k' = ?k1" "er \<noteq> None" using Cons.prems call by (auto simp: Let_def)
    then show ?thesis by (intro conjI exI [of _ "[r]"]) auto
  qed
qed simp

lemma start_all_trace:
  "start_all ops rs k = (er, k') \<Longrightarrow>
   plugins k' = plugins k \<and> startupOrder k' = startupOrder k \<and> done_closed k' = done_closed k
   \<and> (\<exists>pre. prefix pre rs \<and> calls k' = calls k @ map (\<lambda>r. CStart (name_of ops r)) pre \<and> (er = None \<longrightarrow> pre = rs))"
proof (induction rs arbitrary: k)
  case (Cons r rs)
  obtain e c where call: "op_Start ops (plugin r) (kc k) = (e, c)" by fastforce
  let ?k1 = "k\<lparr>kc := c, calls := calls k @ [CStart (name_of ops r)]\<rparr>"
  show ?case
  proof (cases e)
    case None
    then have "start_all ops rs ?k1 = (er, k')" using Cons.prems call by (simp add: Let_def)
    from Cons.IH [OF this] obtain pre where
      "plugins k' = plugins k" "startupOrder k' = startupOrder k" "done_closed k' = done_closed k" "prefix pre rs"
      "calls k' = calls k @ map (\<lambda>r. CStart (name_of ops r)) (r # pre)" "er = None \<longrightarrow> pre = rs"
      by auto
    then show ?thesis by (intro conjI exI [of _ "r # pre"]) simp_all
  next
    case (Some m)
    then have "k' = ?k1" "er \<noteq> None" using Cons.prems call by (auto simp: Let_def)
    then show ?thesis by (intro conjI exI [of _ "[r]"]) auto
  qed
qed simp

lemma stop_all_trace:
  "plugins (stop_all ops rs k) = plugins k \<and> done_closed (stop_all ops rs k) = done_closed k
   \<and> (\<exists>xs. subseq xs (map (name_of ops) rs) \<and> calls (stop_all ops rs k) = calls k @ map CStop xs)"
proof (induction rs arbitrary: k)
  case Nil
  show ?case by (auto intro!: exI [of _ "[]"])
next
  case (Cons r rs)
  let ?k1 = "if op_State ops (plugin r) (kc k) \<noteq> PluginStarted then k
        else k\<lparr>kc := snd (op_Stop ops (plugin r) (kc k)), calls := calls k @ [CStop (name_of ops r)]\<rparr>"
  from Cons [of ?k1] obtain xs where xs: "subseq xs (map (name_of ops) rs)"
      "calls (stop_all ops rs ?k1) = calls ?k1 @ map CStop xs" by auto
  let ?ys = "if op_State ops (plugin r) (kc k) \<noteq> PluginStarted then xs else name_of ops r # xs"
  have "subseq ?ys (map (name_of ops) (r # rs))" using xs(1) by (auto intro: list_emb_Cons)
  moreover have "calls (stop_all ops (r # rs) k) = calls k @ map CStop ?ys" using xs(2) by simp
  moreover have "plugins (stop_all ops (r # rs) k) = plugins k" "done_closed (stop_all ops (r # rs) k) = done_closed k"
    using Cons [of ?k1] by simp_all
  ultimately show ?case by blast
qed

lemma Bootstrap_trace:
  assumes "Bootstrap ops srt ks k = (er, k')" "rs = ordered ops srt (records_of ks k)"
  shows "plugins k' = plugins k \<and> startupOrder k' = map (name_of ops) rs \<and> done_closed k' = done_closed k
    \<and> (er = None \<longrightarrow> calls k' = calls k @ map CInit (map (name_of ops) rs) @ map CStart (map (name_of ops) rs))
    \<and> (er \<noteq> None \<longrightarrow> (\<exists>pre. prefix pre (map (name_of ops) rs) \<and>
         (calls k' = calls k @ map CInit pre
          \<or> calls k' = calls k @ map CInit (map (name_of ops) rs) @ map CStart pre)))"
proof -
  let ?k1 = "fire ops ''kernel.pre_init'' (k\<lparr>startupOrder := map (name_of ops) rs\<rparr>)"
  obtain e1 k2 where i: "init_all ops rs ?k1 = (e1, k2)" by fastforce
  from init_all_trace [OF i] obtain pre where init: "plugins k2 = plugins k" "startupOrder k2 = map (name_of ops) rs"
    "done_closed k2 = done_closed k" "prefix pre rs" "calls k2 = calls k @ map CInit (map (name_of ops) pre)"
    "e1 = None \<longrightarrow> pre = rs"
    by (auto simp: comp_def)
  show ?thesis
  proof (cases e1)
    case (Some m)
    then have "er = Some m" "k' = k2" using assms i by (simp_all add: Bootstrap_def Let_def)
    then show ?thesis using init by (auto intro!: exI [of _ "map (name_of ops) pre"] map_mono_prefix)
  next
    case None
    let ?k3 = "fire ops ''kernel.pre_start'' (fire ops ''kernel.post_init'' k2)"
    obtain e2 k4 where st: "start_all ops rs ?k3 = (e2, k4)" by fastforce
    from start_all_trace [OF st] obtain pre' where start: "plugins k4 = plugins k2" "startupOrder k4 = startupOrder k2"
      "done_closed k4 = done_closed k2" "prefix pre' rs" "calls k4 = calls k2 @ map CStart (map (name_of ops) pre')"
      "e2 = None \<longrightarrow> pre' = rs"
      by (auto simp: comp_def)
    show ?thesis
    proof (cases e2)
      case (Some m)
      then have "er = Some m" "k' = k4" using assms i None st by (simp_all add: Bootstrap_def Let_def)
      then show ?thesis using init start None
        by (auto intro!: exI [of _ "map (name_of ops) pre'"] map_mono_prefix)
    next
      case fin: None
      then have "er = None" "k' = fire ops ''kernel.post_start'' k4"
        using assms i None st by (simp_all add: Bootstrap_def Let_def)
      then show ?thesis using init start None fin by simp
    qed
  qed
qed

lemma ordered_set:
  assumes "kernel_wf ops k" "iter_order ks (plugins k)"
    and "sorts_by (plugin_key (map (\<lambda>r. meta ops (plugin r)) (records_of ks k))) srt"
  shows "set (map (name_of ops) (ordered ops srt (records_of ks k))) = dom (plugins k)"
    "length (ordered ops srt (records_of ks k)) = length ks"
proof -
  let ?rs = "records_of ks k"
  let ?ms = "map (\<lambda>r. meta ops (plugin r)) ?rs"
  have "name_of ops (the (plugins k n)) = n" if "n \<in> set ks" for n
    using assms(1,2) that by (auto simp: kernel_wf_def iter_order_def)
  then have named: "map (name_of ops) ?rs = ks" by (simp add: records_of_def map_idI)
  moreover have "map pm_Name ?ms = map (name_of ops) ?rs" by (simp add: name_of_def comp_def)
  ultimately have names: "map pm_Name ?ms = ks" by simp
  have "distinct (map pm_Name ?ms)" using names assms(2) by (simp add: iter_order_def)
  from orderPlugins_permutation [OF this assms(3)]
  have perm: "distinct (orderPlugins srt ?ms)" "set (orderPlugins srt ?ms) = {..<length ?rs}" by simp_all
  have len: "length ?rs = length ks" by (simp add: records_of_def)
  have "set (ordered ops srt ?rs) = set ?rs"
    by (simp add: ordered_def perm(2) lessThan_atLeast0 nth_image)
  then show "set (map (name_of ops) (ordered ops srt ?rs)) = dom (plugins k)"
    using named assms(2) by (metis iter_order_def set_map)
  show "length (ordered ops srt ?rs) = length ks"
    using perm len by (metis card_lessThan distinct_card length_map ordered_def)
qed

lemma shutdown_records_names:
  assumes "order \<noteq> []" "set (map (name_of ops) rs) \<subseteq> set order"
  shows "subseq (map (name_of ops) (shutdown_records ops srt order rs)) (rev order)"
proof -
  let ?m = "map_of (map (\<lambda>r. (name_of ops r, r)) (rev rs))"
  have val: "?m n = Some r \<Longrightarrow> name_of ops r = n" for n r by (auto dest: map_of_SomeD)
  have "subseq (map (name_of ops) (List.map_filter ?m ns)) ns" for ns
  proof (induction ns)
    case (Cons n ns)
    show ?case
    proof (cases "?m n")
      case None
      then show ?thesis using Cons by (simp add: List.map_filter_simps list_emb_Cons)
    next
      case (Some r)
      then show ?thesis using Cons val [OF Some] by (simp add: List.map_filter_simps)
    qed
  qed (simp add: List.map_filter_simps)
  moreover have "filter (\<lambda>r. name_of ops r \<notin> set order) rs = []"
    using assms(2) by (auto simp: filter_empty_conv)
  ultimately show ?thesis using assms(1) by (simp add: shutdown_records_def)
qed

section \<open>Properties\<close>

text \<open>what a start does, whatever the plugins and the extension handlers do. Either every plugin
  is initialised and then every plugin is started, both in the recorded start order; or the first error of
  an \<open>Init\<close> or \<open>Start\<close> ends it there. After such an error nothing is undone: \<open>Run\<close> returns the error with no
  plugin stopped, although the plugins before the failed one are started, and \<open>done\<close> stays open.\<close>

theorem bootstrap_all_or_first_error:
  "let (er, k1) = Bootstrap ops srt ks k; names = startupOrder k1 in
    (er = None \<longrightarrow> calls k1 = calls k @ map CInit names @ map CStart names)
    \<and> (er \<noteq> None \<longrightarrow> (\<exists>pre. prefix pre names
        \<and> (calls k1 = calls k @ map CInit pre \<or> calls k1 = calls k @ map CInit names @ map CStart pre))
        \<and> Run ops srt srt_stop ks ks' serve k = (er, k1) \<and> IsRunning k1 = IsRunning k)"
proof (cases "Bootstrap ops srt ks k")
  case (Pair er k1)
  then show ?thesis
    using Bootstrap_trace [OF Pair refl] by (auto simp: Run_def IsRunning_def Let_def)
qed

definition quiet_ops :: "(plugin_meta, unit, unit, unit, nat) plugin_ops" where
  "quiet_ops =
     \<lparr>meta = id, op_Configure = \<lambda>p. None, op_Init = \<lambda>p c. (None, c),
      op_Start = \<lambda>p c. (if pm_Name p = ''policy'' then Some ''boom'' else None, c\<lparr>kc_world := kc_world c + 1\<rparr>),
      op_Stop = \<lambda>p c. (None, c), op_State = \<lambda>p c. if 0 < kc_world c then PluginStarted else PluginInitialized,
      op_HealthCheck = \<lambda>p. None, run_ext = \<lambda>h d c. (None, c)\<rparr>"

definition two_plugin_kernel :: "(plugin_meta, unit, unit, unit, nat) Kernel" where
  "two_plugin_kernel =
     snd (RegisterPlugin quiet_ops 0 (three_plugins ! 1) (snd (RegisterPlugin quiet_ops 0 (three_plugins ! 2) (NewKernel 0))))"

lemma two_plugin_facts:
  "plugins two_plugin_kernel = [''engine'' \<mapsto> \<lparr>plugin = three_plugins ! 2, registered = 0\<rparr>,
     ''comms'' \<mapsto> \<lparr>plugin = three_plugins ! 1, registered = 0\<rparr>]"
  "calls two_plugin_kernel = []"
  by (simp_all add: two_plugin_kernel_def RegisterPlugin_def NewKernel_def quiet_ops_def three_plugins_def Let_def)

lemma quiet_bootstrap: "fst (Bootstrap quiet_ops srt [''comms'', ''engine''] two_plugin_kernel) = None"
proof -
  have ok: "name_of quiet_ops r \<noteq> ''policy'' \<Longrightarrow> op_Start quiet_ops (plugin r) c = (None, c\<lparr>kc_world := kc_world c + 1\<rparr>)" for r c
    by (simp add: quiet_ops_def name_of_def)
  have start: "\<forall>r\<in>set rs. name_of quiet_ops r \<noteq> ''policy'' \<Longrightarrow> fst (start_all quiet_ops rs k) = None" for rs k
    by (induction rs arbitrary: k) (simp_all add: ok Let_def)
  have init: "fst (init_all quiet_ops rs k) = None" for rs k
    by (induction rs arbitrary: k) (simp_all add: quiet_ops_def Let_def)
  let ?rs = "ordered quiet_ops srt (records_of [''comms'', ''engine''] two_plugin_kernel)"
  have "kahn_order [three_plugins ! 1, three_plugins ! 2] = ([], [1, 0])" by code_simp
  then have "orderPlugins srt [three_plugins ! 1, three_plugins ! 2] = [1, 0]" by (simp add: orderPlugins_def)
  then have "set ?rs \<subseteq> set (records_of [''comms'', ''engine''] two_plugin_kernel)"
    by (simp add: ordered_def records_of_def two_plugin_facts quiet_ops_def)
  then have "\<forall>r\<in>set ?rs. name_of quiet_ops r \<noteq> ''policy''"
    by (force simp: records_of_def two_plugin_facts name_of_def quiet_ops_def three_plugins_def)
  then show ?thesis
    using init start by (simp add: Bootstrap_def Let_def split: prod.splits option.splits) (metis fst_conv option.distinct(1))
qed

theorem bootstrap_all_or_first_error_witness:
  "let k1 = snd (Bootstrap quiet_ops (sort_key id) [''comms'', ''engine''] two_plugin_kernel) in
     calls k1 = map CInit (startupOrder k1) @ map CStart (startupOrder k1)"
  using bootstrap_all_or_first_error [of quiet_ops "sort_key id" "[''comms'', ''engine'']" two_plugin_kernel id "[]" id]
    quiet_bootstrap [of "sort_key id"]
  by (cases "Bootstrap quiet_ops (sort_key id) [''comms'', ''engine''] two_plugin_kernel")
    (simp add: Let_def two_plugin_facts)

text \<open>plugins are stopped in the reverse of the order in which they were started. After a
  successful start, and with no plugin registered or removed since, \<open>Shutdown\<close> stops a subsequence of the
  reversed start order (the plugins that report that they are started when their turn comes), each at most
  once, cancels the context and closes \<open>done\<close>.\<close>

theorem shutdown_reverses_start:
  assumes "kernel_wf ops k" "iter_order ks (plugins k)" "ks \<noteq> []"
    and "sorts_by (plugin_key (map (\<lambda>r. meta ops (plugin r)) (records_of ks k))) srt"
    and "Bootstrap ops srt ks k = (None, k1)"
    and "plugins k2 = plugins k1" "startupOrder k2 = startupOrder k1" "iter_order ks' (plugins k2)"
  shows "\<exists>order xs. calls k1 = calls k @ map CInit order @ map CStart order
    \<and> calls (Shutdown ops srt_stop ks' k2) = calls k2 @ map CStop xs \<and> subseq xs (rev order)
    \<and> cancelled (Shutdown ops srt_stop ks' k2) \<and> \<not> IsRunning (Shutdown ops srt_stop ks' k2)"
proof -
  let ?order = "startupOrder k1"
  note boot = Bootstrap_trace [OF assms(5) refl]
  have dom: "set ?order = dom (plugins k)" "length ?order = length ks"
    using boot ordered_set [OF assms(1,2,4)] by simp_all
  then have ne: "?order \<noteq> []" using assms(3) by auto
  define k3 where "k3 = fire ops ''kernel.pre_stop'' k2"
  define rs where "rs = shutdown_records ops srt_stop ?order (records_of ks' k3)"
  have "set (map (name_of ops) (records_of ks' k3)) \<subseteq> set ?order"
    using assms(1,6,8) boot dom(1)
    by (auto simp: records_of_def k3_def kernel_wf_def iter_order_def)
  then have sub: "subseq (map (name_of ops) rs) (rev ?order)"
    unfolding rs_def by (rule shutdown_records_names [OF ne])
  obtain xs where xs: "subseq xs (map (name_of ops) rs)" "calls (stop_all ops rs k3) = calls k2 @ map CStop xs"
    using stop_all_trace [of ops rs k3] by (auto simp: k3_def)
  have "calls (Shutdown ops srt_stop ks' k2) = calls (stop_all ops rs k3)"
      "cancelled (Shutdown ops srt_stop ks' k2)" "done_closed (Shutdown ops srt_stop ks' k2)"
    using assms(7) by (simp_all add: Shutdown_def Let_def k3_def rs_def)
  moreover have "subseq xs (rev ?order)" using xs(1) sub by (rule subseq_order.order_trans)
  moreover have "calls k1 = calls k @ map CInit ?order @ map CStart ?order" using boot by simp
  ultimately show ?thesis using xs(2) unfolding IsRunning_def by metis
qed

theorem shutdown_reverses_start_witness:
  "let ms = map (\<lambda>r. meta quiet_ops (plugin r)) (records_of [''comms'', ''engine''] two_plugin_kernel);
       k1 = snd (Bootstrap quiet_ops (sort_key (plugin_key ms)) [''comms'', ''engine''] two_plugin_kernel)
   in \<exists>order xs. calls k1 = map CInit order @ map CStart order
        \<and> calls (Shutdown quiet_ops id [''engine'', ''comms''] k1) = calls k1 @ map CStop xs \<and> subseq xs (rev order)"
proof -
  let ?ks = "[''comms'', ''engine'']" and ?k = two_plugin_kernel
  let ?srt = "sort_key (plugin_key (map (\<lambda>r. meta quiet_ops (plugin r)) (records_of ?ks ?k)))"
  let ?k1 = "snd (Bootstrap quiet_ops ?srt ?ks ?k)"
  have wf: "kernel_wf quiet_ops ?k" unfolding two_plugin_kernel_def by (intro inv_intros)
  have ks: "iter_order ?ks (plugins ?k)" "iter_order (rev ?ks) (plugins ?k)"
    by (auto simp: iter_order_def two_plugin_facts)
  have boot: "Bootstrap quiet_ops ?srt ?ks ?k = (None, ?k1)" using quiet_bootstrap [of ?srt] by (simp add: prod_eq_iff)
  have "plugins ?k1 = plugins ?k" using Bootstrap_trace [OF boot refl] by simp
  with ks(2) have ks': "iter_order (rev ?ks) (plugins ?k1)" by simp
  show ?thesis
    using shutdown_reverses_start [OF wf ks(1) _ sorts_by_sort_key boot refl refl ks', of id]
    by (simp add: Let_def two_plugin_facts(2)) blast
qed

text \<open>\<open>UnregisterPlugin\<close> of a registered plugin leaves no trace of it: it is gone from the map, from
  every extension point and from every topic of the bus; every other plugin's handlers stay as the stopped
  plugin left them, and a plugin that reported itself started was stopped once.\<close>

theorem unregister_leaves_no_trace:
  assumes "plugins k name = Some r"
  shows "let (er, k') = UnregisterPlugin ops id name k;
      started = (op_State ops (plugin r) (kc k) = PluginStarted);
      c = (if started then snd (op_Stop ops (plugin r) (kc k)) else kc k) in
    er = None \<and> plugins k' = (plugins k)(name := None)
    \<and> calls k' = calls k @ (if started then [CStop name] else [])
    \<and> (\<forall>t. name \<notin> set (ListExtensions t (kc_ext (kc k')))
         \<and> name \<notin> set (map sub_id (rows (subscribers (kc_bus (kc k'))) t)))
    \<and> (\<forall>t j. j \<noteq> name \<longrightarrow>
         count_list (ListExtensions t (kc_ext (kc k'))) j = count_list (ListExtensions t (kc_ext c)) j
         \<and> count_list (map sub_id (rows (subscribers (kc_bus (kc k'))) t)) j
           = count_list (map sub_id (rows (subscribers (kc_bus c)) t)) j)"
  by (simp add: UnregisterPlugin_def Let_def assms extension_hub.detach_gone bus_hub.detach_gone [simplified]
      extension_hub.detach_others bus_hub.detach_others)

theorem unregister_leaves_no_trace_witness:
  "plugins (snd (UnregisterPlugin quiet_ops id ''comms'' two_plugin_kernel)) ''comms'' = None
   \<and> GetPlugin ''engine'' (snd (UnregisterPlugin quiet_ops id ''comms'' two_plugin_kernel)) = Some (three_plugins ! 2)"
proof -
  have "plugins two_plugin_kernel ''comms'' = Some \<lparr>plugin = three_plugins ! 1, registered = 0\<rparr>"
    by (simp add: two_plugin_facts)
  from unregister_leaves_no_trace [OF this, of quiet_ops] show ?thesis
    by (simp add: Let_def GetPlugin_def two_plugin_facts split: prod.splits)
qed

end
