(* ===== verification/Lifecycle_Engine.thy ===== *)
theory Lifecycle_Engine
  imports Float64
begin

text \<open>
  \<open>internal/kernel/lifecycle.go\<close>, \<open>locator.go\<close> and \<open>blocker.go\<close>: the security lifecycle of a host. \<open>Run\<close>
  passes through the phases, asks the locator, the guider and the blocker (interfaces that may be nil:
  options of functions on the world \<open>'w\<close>), and repeats while the threat persists, at most 100 times.
  \<open>KernelLocator\<close> and \<open>KernelBlocker\<close> are the default implementations, over what they read and write of the
  policy, topology, propagation and commander modules (\<open>kworld\<close>).

  Executing an extension point appends an event to the trace and lets \<open>on_event\<close>, the handlers, change the
  world; \<open>is_done\<close> is the test of the context, \<open>backoff\<close> the wait of five seconds that a cancelled context
  ends early (its flag). Logging is left out.
\<close>

datatype LifecyclePhase =
    PhaseDetect | PhaseLocate | PhaseRespond | PhaseReport | PhaseGuide | PhaseBlock | PhaseRemediate
  | PhaseVerify | PhaseRelocate | PhaseArchive

definition phase_String :: "LifecyclePhase \<Rightarrow> string" where
  "phase_String p =
     (case p of PhaseDetect \<Rightarrow> ''detect'' | PhaseLocate \<Rightarrow> ''locate'' | PhaseRespond \<Rightarrow> ''respond''
      | PhaseReport \<Rightarrow> ''report'' | PhaseGuide \<Rightarrow> ''guide'' | PhaseBlock \<Rightarrow> ''block''
      | PhaseRemediate \<Rightarrow> ''remediate'' | PhaseVerify \<Rightarrow> ''verify'' | PhaseRelocate \<Rightarrow> ''relocate''
      | PhaseArchive \<Rightarrow> ''archive'')"

record AttackerLocation =
  FootholdHost :: string
  EntryHost :: string
  LateralPath :: "string list"
  ActiveSubnets :: "string list"
  C2Indicators :: "string list"
  APTGroup :: string
  Confidence :: f64

record BlockResult =
  Blocked :: bool
  RuleID :: string
  block_Err :: string

record ActivityState =
  as_HostID :: string
  as_Active :: bool
  as_LastSeen :: time

type_synonym activity_store = "string \<rightharpoonup> ActivityState"

definition MarkActive :: "time \<Rightarrow> string \<Rightarrow> activity_store \<Rightarrow> activity_store" where
  "MarkActive now h st = st(h \<mapsto> \<lparr>as_HostID = h, as_Active = True, as_LastSeen = now\<rparr>)"

definition IsActive :: "string \<Rightarrow> activity_store \<Rightarrow> bool" where
  "IsActive h st = (case st h of Some x \<Rightarrow> as_Active x | None \<Rightarrow> False)"

definition Clear :: "string \<Rightarrow> activity_store \<Rightarrow> activity_store" where
  "Clear h st = st(h := None)"

section \<open>The engine\<close>

datatype lc_event =
    Entered LifecyclePhase
  | Exited LifecyclePhase
  | Fired string

record 'w Locator =
  lo_Locate :: "string \<Rightarrow> 'w \<Rightarrow> (string + AttackerLocation option) \<times> 'w"
  lo_HasActiveThreat :: "string \<Rightarrow> 'w \<Rightarrow> bool \<times> 'w"

record 'w LifecycleEngine =
  has_extensions :: bool
  on_event :: "lc_event \<Rightarrow> 'w \<Rightarrow> 'w"
  locator :: "'w Locator option"
  guider :: "(AttackerLocation \<Rightarrow> 'w \<Rightarrow> (string + int) \<times> 'w) option"
  blocker :: "(AttackerLocation \<Rightarrow> 'w \<Rightarrow> (string + BlockResult option) \<times> 'w) option"
  is_done :: "'w \<Rightarrow> bool"
  now_of :: "'w \<Rightarrow> time"
  backoff :: "'w \<Rightarrow> bool \<times> 'w"

record 'w run_state =
  world :: 'w
  activity :: "activity_store option"
  events :: "lc_event list"

definition emit :: "'w LifecycleEngine \<Rightarrow> lc_event \<Rightarrow> 'w run_state \<Rightarrow> 'w run_state" where
  "emit e ev s = (if has_extensions e then s\<lparr>world := on_event e ev (world s), events := events s @ [ev]\<rparr> else s)"

text \<open>\<open>enterPhase\<close> followed by \<open>exitPhase\<close>.\<close>

definition pass_phase :: "'w LifecycleEngine \<Rightarrow> LifecyclePhase \<Rightarrow> 'w run_state \<Rightarrow> 'w run_state" where
  "pass_phase e p s = emit e (Exited p) (emit e (Entered p) s)"

definition locate_phase ::
  "'w LifecycleEngine \<Rightarrow> string \<Rightarrow> 'w run_state \<Rightarrow> AttackerLocation option \<times> 'w run_state" where
  "locate_phase e h s0 =
     (let s1 = emit e (Entered PhaseLocate) s0;
          (loc, s2) = (case locator e of
              None \<Rightarrow> (None, s1)
            | Some l \<Rightarrow> (case lo_Locate l h (world s1) of
                  (Inl er, w) \<Rightarrow> (None, s1\<lparr>world := w\<rparr>)
                | (Inr l, w) \<Rightarrow> (l, s1\<lparr>world := w\<rparr>)));
          s3 = (case loc of
              Some l \<Rightarrow> (if FootholdHost l \<noteq> [] then emit e (Fired ''locate.completed'') s2 else s2)
            | None \<Rightarrow> s2)
      in (loc, emit e (Exited PhaseLocate) s3))"

text \<open>The guide phase: whether guidance succeeded.\<close>

definition guide_phase ::
  "'w LifecycleEngine \<Rightarrow> AttackerLocation option \<Rightarrow> 'w run_state \<Rightarrow> bool \<times> 'w run_state" where
  "guide_phase e loc s0 =
     (let s1 = emit e (Entered PhaseGuide) s0;
          (guided, s2) = (case (guider e, loc) of
              (Some g, Some l) \<Rightarrow>
                (case g l (world s1) of
                   (Inr captures, w) \<Rightarrow>
                     (let t1 = emit e (Fired ''guide.completed'') (s1\<lparr>world := w\<rparr>)
                      in (True, if captures > 0 then emit e (Fired ''guide.confirmed'') t1 else t1))
                 | (Inl er, w) \<Rightarrow> (False, s1\<lparr>world := w\<rparr>))
            | _ \<Rightarrow> (False, s1))
      in (guided, emit e (Exited PhaseGuide) s2))"

text \<open>The block phase, entered only without guidance, with a blocker and a location.\<close>

definition block_phase ::
  "'w LifecycleEngine \<Rightarrow> bool \<Rightarrow> AttackerLocation option \<Rightarrow> 'w run_state \<Rightarrow> 'w run_state" where
  "block_phase e guided loc s0 =
     (case (guided, blocker e, loc) of
        (False, Some b, Some l) \<Rightarrow>
          (let s1 = emit e (Fired ''block.pre_apply'') (emit e (Entered PhaseBlock) s0);
               s2 = (case b l (world s1) of
                   (Inr (Some res), w) \<Rightarrow>
                     (let t1 = emit e (Fired ''block.post_apply'') (s1\<lparr>world := w\<rparr>)
                      in if Blocked res then emit e (Fired ''block.confirmed'') t1 else t1)
                 | (_, w) \<Rightarrow> s1\<lparr>world := w\<rparr>)
           in emit e (Exited PhaseBlock) s2)
      | _ \<Rightarrow> s0)"

definition relocate_phase :: "'w LifecycleEngine \<Rightarrow> string \<Rightarrow> 'w run_state \<Rightarrow> bool \<times> 'w run_state" where
  "relocate_phase e h s0 =
     (let s1 = emit e (Entered PhaseRelocate) s0;
          (still, s2) = (case locator e of
              None \<Rightarrow> (False, s1)
            | Some l \<Rightarrow> (let (a, w) = lo_HasActiveThreat l h (world s1) in (a, s1\<lparr>world := w\<rparr>)));
          s3 = (if still
                then (let t1 = emit e (Fired ''locate.threat_active'') s2
                      in t1\<lparr>activity := map_option (MarkActive (now_of e (world t1)) h) (activity t1)\<rparr>)
                else s2)
      in (still, emit e (Exited PhaseRelocate) s3))"

text \<open>One turn of the loop, after the test of the context: whether the threat is still there.\<close>

definition lifecycle_pass :: "'w LifecycleEngine \<Rightarrow> string \<Rightarrow> 'w run_state \<Rightarrow> bool \<times> 'w run_state" where
  "lifecycle_pass e h s0 =
     (let s1 = pass_phase e PhaseDetect s0;
          (loc, s2) = locate_phase e h s1;
          s3 = pass_phase e PhaseReport (pass_phase e PhaseRespond s2);
          (guided, s4) = guide_phase e loc s3;
          s5 = block_phase e guided loc s4;
          s6 = pass_phase e PhaseVerify (pass_phase e PhaseRemediate s5);
          (still, s7) = relocate_phase e h s6
      in (still, pass_phase e PhaseArchive s7))"

definition run_completed :: "'w LifecycleEngine \<Rightarrow> 'w run_state \<Rightarrow> 'w run_state" where
  "run_completed e s = emit e (Fired ''lifecycle.completed'') s"

definition maxIterations :: nat where "maxIterations = 100"

fun run_loop :: "'w LifecycleEngine \<Rightarrow> string \<Rightarrow> nat \<Rightarrow> 'w run_state \<Rightarrow> 'w run_state" where
  "run_loop e h 0 s = run_completed e s"
| "run_loop e h (Suc n) s =
     (if is_done e (world s) then s
      else
        (let (still, s1) = lifecycle_pass e h s
         in if still \<and> (case activity s1 of Some st \<Rightarrow> IsActive h st | None \<Rightarrow> False)
            then (let s2 = emit e (Fired ''lifecycle.repeat'') s1; (stop, w) = backoff e (world s2)
                  in if stop then s2\<lparr>world := w\<rparr> else run_loop e h n (s2\<lparr>world := w\<rparr>))
            else run_completed e (s1\<lparr>activity := map_option (Clear h) (activity s1)\<rparr>)))"

definition lc_Run :: "'w LifecycleEngine \<Rightarrow> string \<Rightarrow> 'w run_state \<Rightarrow> 'w run_state" where
  "lc_Run e h s = run_loop e h maxIterations s"

section \<open>The default locator and blocker\<close>

datatype HostStatus = HostOK | HostWarning | HostCritical | HostIsolated

record kworld =
  kw_policy :: "(string \<Rightarrow> HostStatus) option"
  kw_topology :: "string \<rightharpoonup> string list"
  kw_srd :: "(string \<Rightarrow> string list) option"
  kw_commander :: "(string \<times> string) list option"
  kw_cancelled :: bool
  kw_time :: time

definition hostStatus :: "string \<Rightarrow> kworld \<Rightarrow> HostStatus option" where
  "hostStatus h w = map_option (\<lambda>f. f h) (kw_policy w)"

definition reachableHosts :: "string \<Rightarrow> kworld \<Rightarrow> string list" where
  "reachableHosts h w = (case kw_srd w of Some f \<Rightarrow> f h | None \<Rightarrow> [])"

definition kernel_Locate :: "string \<Rightarrow> kworld \<Rightarrow> (string + AttackerLocation option) \<times> kworld" where
  "kernel_Locate h w =
     (let loc0 = \<lparr>FootholdHost = [], EntryHost = [], LateralPath = [], ActiveSubnets = [], C2Indicators = [],
                  APTGroup = [], Confidence = Fin 0\<rparr>;
          loc1 = loc0\<lparr>ActiveSubnets := (case kw_topology w h of Some xs \<Rightarrow> xs | None \<Rightarrow> [])\<rparr>;
          loc2 = loc1\<lparr>LateralPath := reachableHosts h w\<rparr>
      in (Inr (Some (case hostStatus h w of
            None \<Rightarrow> loc2
          | Some st \<Rightarrow>
              (if st = HostCritical \<or> st = HostIsolated
               then loc2\<lparr>FootholdHost := h, Confidence := f64_of_rat (7 / 10)\<rparr>
               else if st = HostWarning then loc2\<lparr>Confidence := f64_of_rat (4 / 10)\<rparr>
               else loc2\<lparr>Confidence := Fin 0\<rparr>))), w))"

definition kernel_HasActiveThreat :: "string \<Rightarrow> kworld \<Rightarrow> bool \<times> kworld" where
  "kernel_HasActiveThreat h w =
     ((case hostStatus h w of Some st \<Rightarrow> st = HostCritical \<or> st = HostIsolated | None \<Rightarrow> False), w)"

definition KernelLocator :: "kworld Locator" where
  "KernelLocator = \<lparr>lo_Locate = kernel_Locate, lo_HasActiveThreat = kernel_HasActiveThreat\<rparr>"

definition IsBlocked :: "string \<Rightarrow> kworld \<Rightarrow> bool" where
  "IsBlocked h w \<longleftrightarrow> hostStatus h w = Some HostIsolated"

definition enqueue :: "string \<Rightarrow> string \<Rightarrow> kworld \<Rightarrow> kworld" where
  "enqueue h cmd w = w\<lparr>kw_commander := map_option (\<lambda>q. q @ [(h, cmd)]) (kw_commander w)\<rparr>"

definition kernel_Block :: "AttackerLocation \<Rightarrow> kworld \<Rightarrow> (string + BlockResult option) \<times> kworld" where
  "kernel_Block loc w =
     (if FootholdHost loc = []
      then (Inr (Some \<lparr>Blocked = False, RuleID = [], block_Err = ''no foothold host to block''\<rparr>), w)
      else if IsBlocked (FootholdHost loc) w
      then (Inr (Some \<lparr>Blocked = True, RuleID = ''kernel-isolate'', block_Err = []\<rparr>), w)
      else if kw_commander w \<noteq> None
      then (Inr (Some \<lparr>Blocked = True, RuleID = ''kernel-isolate'', block_Err = []\<rparr>),
            enqueue (FootholdHost loc) ''isolate_host'' w)
      else (Inr (Some \<lparr>Blocked = False, RuleID = [], block_Err = ''commander unavailable''\<rparr>), w))"

definition kernel_Unblock :: "AttackerLocation option \<Rightarrow> kworld \<Rightarrow> kworld" where
  "kernel_Unblock loc w =
     (case loc of
        None \<Rightarrow> w
      | Some l \<Rightarrow> if FootholdHost l = [] \<or> kw_commander w = None then w
                  else enqueue (FootholdHost l) ''deisolate_host'' w)"

section \<open>The trace of a pass\<close>

definition entered :: "lc_event list \<Rightarrow> LifecyclePhase list" where
  "entered evs = List.map_filter (\<lambda>ev. case ev of Entered p \<Rightarrow> Some p | _ \<Rightarrow> None) evs"

definition exited :: "lc_event list \<Rightarrow> LifecyclePhase list" where
  "exited evs = List.map_filter (\<lambda>ev. case ev of Exited p \<Rightarrow> Some p | _ \<Rightarrow> None) evs"

definition fired_only :: "lc_event list \<Rightarrow> bool" where
  "fired_only evs \<longleftrightarrow> (\<forall>ev \<in> set evs. \<exists>x. ev = Fired x)"

lemma entered_simps [simp]:
  "entered [] = []" "entered (Entered p # evs) = p # entered evs" "entered (Exited p # evs) = entered evs"
  "entered (Fired x # evs) = entered evs" "entered (xs @ ys) = entered xs @ entered ys"
  by (simp_all add: entered_def List.map_filter_def)

lemma exited_simps [simp]:
  "exited [] = []" "exited (Exited p # evs) = p # exited evs" "exited (Entered p # evs) = exited evs"
  "exited (Fired x # evs) = exited evs" "exited (xs @ ys) = exited xs @ exited ys"
  by (simp_all add: exited_def List.map_filter_def)

lemma fired_only_none [simp]: "fired_only evs \<Longrightarrow> entered evs = [] \<and> exited evs = []"
proof (induction evs)
  case (Cons ev evs)
  then obtain x where "ev = Fired x" by (auto simp: fired_only_def)
  with Cons show ?case by (simp add: fired_only_def)
qed simp

definition guided_pass :: "LifecyclePhase list" where
  "guided_pass = [PhaseDetect, PhaseLocate, PhaseRespond, PhaseReport, PhaseGuide, PhaseRemediate, PhaseVerify,
     PhaseRelocate, PhaseArchive]"

definition blocked_pass :: "LifecyclePhase list" where
  "blocked_pass = [PhaseDetect, PhaseLocate, PhaseRespond, PhaseReport, PhaseGuide, PhaseBlock, PhaseRemediate,
     PhaseVerify, PhaseRelocate, PhaseArchive]"

lemma emit_events [simp]: "has_extensions e \<Longrightarrow> events (emit e ev s) = events s @ [ev]"
  by (simp add: emit_def)

lemma pass_phase_events [simp]: "has_extensions e \<Longrightarrow> events (pass_phase e p s) = events s @ [Entered p, Exited p]"
  by (simp add: pass_phase_def)

lemma locate_phase_events:
  "has_extensions e \<Longrightarrow>
   \<exists>xs. events (snd (locate_phase e h s)) = events s @ [Entered PhaseLocate] @ xs @ [Exited PhaseLocate]
     \<and> set xs \<subseteq> {Fired ''locate.completed''}"
  by (auto simp: locate_phase_def Let_def split: option.splits prod.splits sum.splits)

lemma guide_phase_events:
  "has_extensions e \<Longrightarrow>
   \<exists>xs. events (snd (guide_phase e loc s)) = events s @ [Entered PhaseGuide] @ xs @ [Exited PhaseGuide]
     \<and> set xs \<subseteq> {Fired ''guide.completed'', Fired ''guide.confirmed''}
     \<and> (Fired ''guide.completed'' \<in> set xs \<longleftrightarrow> fst (guide_phase e loc s))"
  by (auto simp: guide_phase_def Let_def split: option.splits prod.splits sum.splits)

lemma block_phase_events:
  assumes "has_extensions e"
  shows "if \<not> guided \<and> blocker e \<noteq> None \<and> loc \<noteq> None
    then \<exists>xs. events (block_phase e guided loc s) = events s @ [Entered PhaseBlock] @ xs @ [Exited PhaseBlock]
      \<and> set xs \<subseteq> {Fired ''block.pre_apply'', Fired ''block.post_apply'', Fired ''block.confirmed''}
      \<and> Fired ''block.pre_apply'' \<in> set xs
    else block_phase e guided loc s = s"
  using assms
  by (auto simp: block_phase_def Let_def split: option.splits prod.splits sum.splits bool.splits)

lemma relocate_phase_events:
  "has_extensions e \<Longrightarrow>
   \<exists>xs. events (snd (relocate_phase e h s)) = events s @ [Entered PhaseRelocate] @ xs @ [Exited PhaseRelocate]
     \<and> set xs \<subseteq> {Fired ''locate.threat_active''}"
  by (auto simp: relocate_phase_def Let_def split: option.splits prod.splits)

lemma subset_fired: "set xs \<subseteq> Fired ` A \<Longrightarrow> fired_only xs"
  by (auto simp: fired_only_def)

definition pass_trace :: "lc_event list \<Rightarrow> bool" where
  "pass_trace evs \<longleftrightarrow> exited evs = entered evs \<and>
     (entered evs = guided_pass \<and> Fired ''block.pre_apply'' \<notin> set evs
      \<or> entered evs = blocked_pass \<and> Fired ''block.pre_apply'' \<in> set evs \<and> Fired ''guide.completed'' \<notin> set evs)
     \<and> count_list evs (Fired ''lifecycle.repeat'') = 0"

lemma count_fired_subset: "set xs \<subseteq> Fired ` A \<Longrightarrow> x \<notin> A \<Longrightarrow> count_list xs (Fired x) = 0"
  by (auto simp: count_list_0_iff)

lemma lifecycle_pass_events:
  assumes "has_extensions e"
  shows "\<exists>evs. events (snd (lifecycle_pass e h s)) = events s @ evs \<and> pass_trace evs"
proof -
  define s1 where "s1 = pass_phase e PhaseDetect s"
  obtain loc s2 where l: "locate_phase e h s1 = (loc, s2)" by fastforce
  define s3 where "s3 = pass_phase e PhaseReport (pass_phase e PhaseRespond s2)"
  obtain g s4 where gu: "guide_phase e loc s3 = (g, s4)" by fastforce
  define s5 where "s5 = block_phase e g loc s4"
  define s6 where "s6 = pass_phase e PhaseVerify (pass_phase e PhaseRemediate s5)"
  obtain still s7 where r: "relocate_phase e h s6 = (still, s7)" by fastforce
  have run: "snd (lifecycle_pass e h s) = pass_phase e PhaseArchive s7"
    using l gu r by (simp add: lifecycle_pass_def s1_def s3_def s5_def s6_def Let_def)
  obtain xs1 where x1: "events s2 = events s1 @ [Entered PhaseLocate] @ xs1 @ [Exited PhaseLocate]"
    "set xs1 \<subseteq> Fired ` {''locate.completed''}"
    using locate_phase_events [OF assms, of h s1] l by auto
  obtain xs2 where x2: "events s4 = events s3 @ [Entered PhaseGuide] @ xs2 @ [Exited PhaseGuide]"
    "set xs2 \<subseteq> Fired ` {''guide.completed'', ''guide.confirmed''}" "Fired ''guide.completed'' \<in> set xs2 \<longleftrightarrow> g"
    using guide_phase_events [OF assms, of loc s3] gu by auto
  obtain xs4 where x4: "events s7 = events s6 @ [Entered PhaseRelocate] @ xs4 @ [Exited PhaseRelocate]"
    "set xs4 \<subseteq> Fired ` {''locate.threat_active''}"
    using relocate_phase_events [OF assms, of h s6] r by auto
  note silent = subset_fired [OF x1(2)] subset_fired [OF x2(2)] subset_fired [OF x4(2)]
  have absent: "Fired x \<notin> set xs1" "Fired x \<notin> set xs4" if "x \<in> {''block.pre_apply'', ''guide.completed''}" for x
    using x1(2) x4(2) that by auto
  note quiet = count_fired_subset [OF x1(2), of "''lifecycle.repeat''"] count_fired_subset [OF x2(2), of "''lifecycle.repeat''"]
    count_fired_subset [OF x4(2), of "''lifecycle.repeat''"]
  show ?thesis
  proof (cases "\<not> g \<and> blocker e \<noteq> None \<and> loc \<noteq> None")
    case True
    obtain xs3 where x3: "events s5 = events s4 @ [Entered PhaseBlock] @ xs3 @ [Exited PhaseBlock]"
      "set xs3 \<subseteq> Fired ` {''block.pre_apply'', ''block.post_apply'', ''block.confirmed''}" "Fired ''block.pre_apply'' \<in> set xs3"
      using block_phase_events [OF assms, of g loc s4] True by (auto simp: s5_def)
    let ?evs = "[Entered PhaseDetect, Exited PhaseDetect, Entered PhaseLocate] @ xs1 @ [Exited PhaseLocate,
      Entered PhaseRespond, Exited PhaseRespond, Entered PhaseReport, Exited PhaseReport, Entered PhaseGuide] @ xs2 @
      [Exited PhaseGuide, Entered PhaseBlock] @ xs3 @ [Exited PhaseBlock, Entered PhaseRemediate, Exited PhaseRemediate,
      Entered PhaseVerify, Exited PhaseVerify, Entered PhaseRelocate] @ xs4 @ [Exited PhaseRelocate,
      Entered PhaseArchive, Exited PhaseArchive]"
    have "events (snd (lifecycle_pass e h s)) = events s @ ?evs"
      using assms x1(1) x2(1) x3(1) x4(1) by (simp add: run s1_def s3_def s6_def)
    moreover have "Fired ''guide.completed'' \<notin> set xs3" using x3(2) by auto
    then have "pass_trace ?evs"
      using silent subset_fired [OF x3(2)] absent x2(3) x3(3) True quiet
        count_fired_subset [OF x3(2), of "''lifecycle.repeat''"]
      by (simp add: pass_trace_def blocked_pass_def guided_pass_def)
    ultimately show ?thesis by blast
  next
    case False
    then have s5: "s5 = s4" using block_phase_events [OF assms, of g loc s4] by (auto simp: s5_def split: if_splits)
    let ?evs = "[Entered PhaseDetect, Exited PhaseDetect, Entered PhaseLocate] @ xs1 @ [Exited PhaseLocate,
      Entered PhaseRespond, Exited PhaseRespond, Entered PhaseReport, Exited PhaseReport, Entered PhaseGuide] @ xs2 @
      [Exited PhaseGuide, Entered PhaseRemediate, Exited PhaseRemediate,
      Entered PhaseVerify, Exited PhaseVerify, Entered PhaseRelocate] @ xs4 @ [Exited PhaseRelocate,
      Entered PhaseArchive, Exited PhaseArchive]"
    have "events (snd (lifecycle_pass e h s)) = events s @ ?evs"
      using assms x1(1) x2(1) x4(1) s5 by (simp add: run s1_def s3_def s6_def)
    moreover have "Fired ''block.pre_apply'' \<notin> set xs2" using x2(2) by auto
    then have "pass_trace ?evs"
      using silent absent quiet by (simp add: pass_trace_def blocked_pass_def guided_pass_def)
    ultimately show ?thesis by blast
  qed
qed

lemma run_loop_events:
  assumes "has_extensions e"
  shows "\<exists>passes tail. events (run_loop e h n s) = events s @ concat passes @ tail \<and> length passes \<le> n
    \<and> (\<forall>evs \<in> set passes. \<exists>t. pass_trace evs \<or> evs = t @ [Fired ''lifecycle.repeat''] \<and> pass_trace t)
    \<and> set tail \<subseteq> {Fired ''lifecycle.completed''}"
proof (induction n arbitrary: s)
  case 0
  show ?case using assms by (intro exI [of _ "[]"] exI [of _ "[Fired ''lifecycle.completed'']"]) (simp add: run_completed_def)
next
  case (Suc n)
  obtain still s1 where p: "lifecycle_pass e h s = (still, s1)" by fastforce
  from lifecycle_pass_events [OF assms, of h s] p obtain evs where
    evs: "events s1 = events s @ evs" "pass_trace evs" by auto
  let ?again = "still \<and> (case activity s1 of Some st \<Rightarrow> IsActive h st | None \<Rightarrow> False)"
  obtain stop w where b: "backoff e (world (emit e (Fired ''lifecycle.repeat'') s1)) = (stop, w)" by fastforce
  consider (cancelled) "is_done e (world s)" | (done1) "\<not> is_done e (world s)" "\<not> ?again"
    | (stopped) "\<not> is_done e (world s)" "?again" stop | (again) "\<not> is_done e (world s)" "?again" "\<not> stop"
    by blast
  then show ?case
  proof cases
    case cancelled
    then show ?thesis by (intro exI [of _ "[]"]) simp
  next
    case done1
    then have "run_loop e h (Suc n) s = run_completed e (s1\<lparr>activity := map_option (Clear h) (activity s1)\<rparr>)"
      using p by (simp only: run_loop.simps if_False prod.case Let_def split: if_splits)
    then show ?thesis using assms evs
      by (intro exI [of _ "[evs]"] exI [of _ "[Fired ''lifecycle.completed'']"]) (simp add: run_completed_def)
  next
    case stopped
    then have "run_loop e h (Suc n) s = (emit e (Fired ''lifecycle.repeat'') s1)\<lparr>world := w\<rparr>"
      using p b by (simp add: Let_def)
    then show ?thesis using assms evs
      by (intro exI [of _ "[evs @ [Fired ''lifecycle.repeat'']]"] exI [of _ "[]"]) auto
  next
    case again
    let ?s2 = "(emit e (Fired ''lifecycle.repeat'') s1)\<lparr>world := w\<rparr>"
    have step: "run_loop e h (Suc n) s = run_loop e h n ?s2" using again p b by (simp add: Let_def)
    from Suc [of ?s2] obtain passes tail where rest:
      "events (run_loop e h n ?s2) = events ?s2 @ concat passes @ tail" "length passes \<le> n"
      "\<forall>evs \<in> set passes. \<exists>t. pass_trace evs \<or> evs = t @ [Fired ''lifecycle.repeat''] \<and> pass_trace t"
      "set tail \<subseteq> {Fired ''lifecycle.completed''}"
      by blast
    then show ?thesis using assms evs step
      by (intro exI [of _ "(evs @ [Fired ''lifecycle.repeat'']) # passes"] exI [of _ tail]) auto
  qed
qed

section \<open>An isolated host\<close>

definition default_engine :: "'w LifecycleEngine \<Rightarrow> bool" where
  "default_engine e \<longleftrightarrow> has_extensions e \<and> guider e = None"

definition stays_isolated :: "string \<Rightarrow> kworld LifecycleEngine \<Rightarrow> bool" where
  "stays_isolated h e \<longleftrightarrow>
     (\<forall>w ev. hostStatus h w = Some HostIsolated \<longrightarrow>
        \<not> is_done e w \<and> hostStatus h (on_event e ev w) = Some HostIsolated
        \<and> kw_commander (on_event e ev w) = kw_commander w
        \<and> \<not> fst (backoff e w) \<and> hostStatus h (snd (backoff e w)) = Some HostIsolated
        \<and> kw_commander (snd (backoff e w)) = kw_commander w)"

text \<open>The host stays isolated and no command is queued.\<close>

definition calm :: "string \<Rightarrow> (string \<times> string) list option \<Rightarrow> kworld run_state \<Rightarrow> bool" where
  "calm h q s \<longleftrightarrow> hostStatus h (world s) = Some HostIsolated \<and> kw_commander (world s) = q \<and> activity s \<noteq> None"

lemma calm_emit: "stays_isolated h e \<Longrightarrow> calm h q s \<Longrightarrow> calm h q (emit e ev s)"
  by (auto simp: calm_def emit_def stays_isolated_def)

lemma calm_pass_phase: "stays_isolated h e \<Longrightarrow> calm h q s \<Longrightarrow> calm h q (pass_phase e p s)"
  by (simp add: pass_phase_def calm_emit)

lemma calm_activity: "calm h q s \<Longrightarrow> calm h q (s\<lparr>activity := map_option f (activity s)\<rparr>)"
  by (simp add: calm_def)

lemma calm_pass:
  assumes e: "default_engine e" "stays_isolated h e" "locator e = Some KernelLocator" "blocker e = Some kernel_Block"
    and c: "calm h q s" and h: "h \<noteq> []"
    and p: "lifecycle_pass e h s = (still, s')"
  shows "still \<and> calm h q s' \<and> (\<exists>st. activity s' = Some st \<and> IsActive h st)"
proof -
  note calm_step = calm_emit [OF e(2)] calm_pass_phase [OF e(2)]
  define s1 where "s1 = pass_phase e PhaseDetect s"
  obtain loc s2 where l: "locate_phase e h s1 = (loc, s2)" by fastforce
  define s3 where "s3 = pass_phase e PhaseReport (pass_phase e PhaseRespond s2)"
  obtain g s4 where gu: "guide_phase e loc s3 = (g, s4)" by fastforce
  define s5 where "s5 = block_phase e g loc s4"
  define s6 where "s6 = pass_phase e PhaseVerify (pass_phase e PhaseRemediate s5)"
  obtain still' s7 where r: "relocate_phase e h s6 = (still', s7)" by fastforce
  have run: "lifecycle_pass e h s = (still', pass_phase e PhaseArchive s7)"
    using l gu r by (simp add: lifecycle_pass_def s1_def s3_def s5_def s6_def Let_def)
  have c1: "calm h q s1" using c by (simp add: s1_def calm_step)
  then have c1': "calm h q (emit e (Entered PhaseLocate) s1)" by (simp add: calm_step)
  have loc: "\<exists>l. fst (kernel_Locate h w) = Inr (Some l) \<and> FootholdHost l = h \<and> snd (kernel_Locate h w) = w"
    if "hostStatus h w = Some HostIsolated" for w
    using that by (simp add: kernel_Locate_def Let_def)
  have "hostStatus h (world (emit e (Entered PhaseLocate) s1)) = Some HostIsolated" using c1' by (simp add: calm_def)
  from loc [OF this] obtain l1 where "fst (kernel_Locate h (world (emit e (Entered PhaseLocate) s1))) = Inr (Some l1)"
    "FootholdHost l1 = h"
    "snd (kernel_Locate h (world (emit e (Entered PhaseLocate) s1))) = world (emit e (Entered PhaseLocate) s1)" by blast
  then have loc1: "kernel_Locate h (world (emit e (Entered PhaseLocate) s1))
      = (Inr (Some l1), world (emit e (Entered PhaseLocate) s1))" "FootholdHost l1 = h"
    by (simp_all add: prod_eq_iff)
  then have "locate_phase e h s1 = (Some l1, emit e (Exited PhaseLocate)
      (emit e (Fired ''locate.completed'') (emit e (Entered PhaseLocate) s1)))"
    using h by (simp add: locate_phase_def e(3) KernelLocator_def Let_def)
  with l have "loc = Some l1" "s2 = emit e (Exited PhaseLocate)
      (emit e (Fired ''locate.completed'') (emit e (Entered PhaseLocate) s1))" by simp_all
  then have "loc = Some l1 \<and> calm h q s2" using c1' by (simp add: calm_step)
  then have l1: "loc = Some l1" and c3: "calm h q s3" by (simp_all add: s3_def calm_step)
  have "guide_phase e loc s3 = (False, emit e (Exited PhaseGuide) (emit e (Entered PhaseGuide) s3))"
    using e(1) by (simp add: guide_phase_def default_engine_def Let_def)
  with gu c3 have "\<not> g \<and> calm h q s4" by (auto simp: calm_step)
  then have g: "\<not> g" and c4: "calm h q s4" by simp_all
  define t where "t = emit e (Fired ''block.pre_apply'') (emit e (Entered PhaseBlock) s4)"
  have t: "calm h q t" using c4 by (simp add: t_def calm_step)
  then have "kernel_Block l1 (world t) = (Inr (Some \<lparr>Blocked = True, RuleID = ''kernel-isolate'', block_Err = []\<rparr>), world t)"
    using loc1(2) h by (simp add: kernel_Block_def IsBlocked_def calm_def)
  then have "calm h q s5"
    using g l1 e(4) t by (simp add: s5_def block_phase_def Let_def calm_step flip: t_def)
  then have c6: "calm h q s6" by (simp add: s6_def calm_step)
  define t6 where "t6 = emit e (Entered PhaseRelocate) s6"
  have t6: "calm h q t6" using c6 by (simp add: t6_def calm_step)
  then have "kernel_HasActiveThreat h (world t6) = (True, world t6)"
    by (simp add: kernel_HasActiveThreat_def calm_def)
  then have rel: "still'" "s7 = emit e (Exited PhaseRelocate)
      ((emit e (Fired ''locate.threat_active'') t6)\<lparr>activity := map_option
        (MarkActive (now_of e (world (emit e (Fired ''locate.threat_active'') t6))) h)
        (activity (emit e (Fired ''locate.threat_active'') t6))\<rparr>)"
    using r by (simp_all add: relocate_phase_def e(3) KernelLocator_def Let_def flip: t6_def)
  have "calm h q s7" unfolding rel(2) by (intro calm_step calm_activity t6)
  moreover have "\<exists>st. activity s7 = Some st \<and> IsActive h st"
    using t6 by (auto simp: rel(2) emit_def calm_def MarkActive_def IsActive_def)
  moreover have "activity (pass_phase e PhaseArchive s7) = activity s7" by (simp add: pass_phase_def emit_def)
  ultimately show ?thesis using run p rel(1) calm_step by auto
qed

lemma isolated_loop:
  assumes e: "default_engine e" "stays_isolated h e" "locator e = Some KernelLocator" "blocker e = Some kernel_Block"
    and h: "h \<noteq> []" and c: "calm h q s" and a: "n = 0 \<Longrightarrow> \<exists>st. activity s = Some st \<and> IsActive h st"
  shows "count_list (events (run_loop e h n s)) (Fired ''lifecycle.repeat'')
      = count_list (events s) (Fired ''lifecycle.repeat'') + n
    \<and> kw_commander (world (run_loop e h n s)) = q
    \<and> (\<exists>st. activity (run_loop e h n s) = Some st \<and> IsActive h st)"
  using c a
proof (induction n arbitrary: s)
  case 0
  have "calm h q (run_completed e s)" using 0(1) by (simp add: run_completed_def calm_emit [OF e(2)])
  moreover have "activity (run_completed e s) = activity s" by (simp add: run_completed_def emit_def)
  ultimately show ?case using 0 e(1) by (auto simp: run_completed_def default_engine_def calm_def)
next
  case (Suc n)
  obtain still s1 where p: "lifecycle_pass e h s = (still, s1)" by fastforce
  from calm_pass [OF e Suc.prems(1) h p] obtain st where
    s1: still "calm h q s1" "activity s1 = Some st" "IsActive h st" by blast
  obtain evs where evs: "events s1 = events s @ evs" "pass_trace evs"
    using lifecycle_pass_events [of e h s] e(1) p by (auto simp: default_engine_def)
  let ?r = "emit e (Fired ''lifecycle.repeat'') s1"
  have r: "calm h q ?r" using s1(2) by (rule calm_emit [OF e(2)])
  obtain stop w where b: "backoff e (world ?r) = (stop, w)" by fastforce
  have b': "\<not> stop" "hostStatus h w = Some HostIsolated" "kw_commander w = q"
    using e(2) r b unfolding stays_isolated_def calm_def by (metis fst_conv snd_conv)+
  have "\<not> is_done e (world s)" using e(2) Suc.prems(1) by (auto simp: stays_isolated_def calm_def)
  then have step: "run_loop e h (Suc n) s = run_loop e h n (?r\<lparr>world := w\<rparr>)"
    using p s1 b b'(1) by (simp add: Let_def)
  have "activity ?r = Some st" using s1(3) by (simp add: emit_def)
  then have "calm h q (?r\<lparr>world := w\<rparr>)" "\<exists>st. activity (?r\<lparr>world := w\<rparr>) = Some st \<and> IsActive h st"
    using b' s1(4) by (auto simp: calm_def)
  from Suc.IH [OF this] show ?case
    using evs e(1) by (simp add: step default_engine_def pass_trace_def del: run_loop.simps)
qed

section \<open>Properties\<close>

text \<open>C40: guide before block, and at most 100 passes. The events of a run are those of at most 100
  passes and at most one completion. Every pass enters and leaves the phases in their fixed order; the block
  phase is entered in the passes that apply a block and in no other, and never in a pass whose guidance
  completed.\<close>

theorem lifecycle_guides_before_blocking:
  assumes "has_extensions e"
  shows "\<exists>passes tail. events (lc_Run e h s) = events s @ concat passes @ tail \<and> length passes \<le> 100
    \<and> (\<forall>evs \<in> set passes. \<exists>t. pass_trace evs \<or> evs = t @ [Fired ''lifecycle.repeat''] \<and> pass_trace t)
    \<and> set tail \<subseteq> {Fired ''lifecycle.completed''}"
  using run_loop_events [OF assms, of h maxIterations s] by (simp add: lc_Run_def maxIterations_def)

definition isolated_world :: kworld where
  "isolated_world = \<lparr>kw_policy = Some (\<lambda>h. HostIsolated), kw_topology = Map.empty, kw_srd = None,
     kw_commander = Some [], kw_cancelled = False, kw_time = 0\<rparr>"

definition kernel_engine :: "kworld LifecycleEngine" where
  "kernel_engine = \<lparr>has_extensions = True, on_event = \<lambda>ev w. w, locator = Some KernelLocator, guider = None,
     blocker = Some kernel_Block, is_done = kw_cancelled, now_of = kw_time,
     backoff = \<lambda>w. (kw_cancelled w, w\<lparr>kw_time := kw_time w + 5 * second\<rparr>)\<rparr>"

definition fresh_run :: "kworld run_state" where
  "fresh_run = \<lparr>world = isolated_world, activity = Some Map.empty, events = []\<rparr>"

theorem lifecycle_guides_before_blocking_witness:
  "\<exists>passes tail. events (lc_Run kernel_engine ''web-1'' fresh_run) = concat passes @ tail \<and> length passes \<le> 100"
  using lifecycle_guides_before_blocking [of kernel_engine "''web-1''" fresh_run]
  by (auto simp: kernel_engine_def fresh_run_def)

text \<open>a blocked host keeps the loop busy. With the default locator and blocker, a host that the policy
  already lists as isolated still counts as an active threat, so \<open>Run\<close> repeats all 100 passes (with the wait
  of five seconds after each), queues no command, and ends with the host still marked active.\<close>

theorem isolated_host_runs_all_passes:
  assumes "default_engine e" "stays_isolated h e" "locator e = Some KernelLocator" "blocker e = Some kernel_Block"
    and "h \<noteq> []" "hostStatus h (world s) = Some HostIsolated" "activity s \<noteq> None"
  shows "count_list (events (lc_Run e h s)) (Fired ''lifecycle.repeat'')
      = count_list (events s) (Fired ''lifecycle.repeat'') + 100
    \<and> kw_commander (world (lc_Run e h s)) = kw_commander (world s)
    \<and> (\<exists>st. activity (lc_Run e h s) = Some st \<and> IsActive h st)"
  using isolated_loop [OF assms(1-5), of "kw_commander (world s)" s maxIterations] assms(6,7)
  by (simp add: lc_Run_def maxIterations_def calm_def)

theorem isolated_host_runs_all_passes_witness:
  "count_list (events (lc_Run (kernel_engine\<lparr>is_done := \<lambda>w. False, backoff := \<lambda>w. (False, w)\<rparr>) ''web-1'' fresh_run))
     (Fired ''lifecycle.repeat'') = 100"
  using isolated_host_runs_all_passes
    [of "kernel_engine\<lparr>is_done := \<lambda>w. False, backoff := \<lambda>w. (False, w)\<rparr>" "''web-1''" fresh_run]
  by (simp add: kernel_engine_def fresh_run_def default_engine_def stays_isolated_def isolated_world_def hostStatus_def)

end
