(* ===== verification/Secure_Files.thy ===== *)
theory Secure_Files
  imports Prelude
begin

text \<open>
  The file operations under \<open>internal/securemode\<close>, with faults. A file is a list of bytes (\<open>char\<close>); every
  operating system call consults the oracle at the next position: it works, it fails (a failed write may
  leave any prefix of its data), or the process dies there. After the death every call fails and changes
  nothing, so what a function leaves behind then is what a restart finds. A crash here is the end of the
  process, not of the machine: what was written stays written. The random generator is a further oracle.

  Errors keep the difference the code looks at (\<open>os.IsNotExist\<close>); the text that \<open>fmt.Errorf\<close> puts around an
  error is left out.
\<close>

type_synonym bytes = string

datatype sm_error = ENotExist | EIO | EMsg string

datatype fault = Works | Fails nat | Dies nat

record host =
  disk :: "string \<rightharpoonup> bytes"
  calls_made :: nat
  faults :: "nat \<Rightarrow> fault"
  dead :: bool
  rand_used :: nat
  rand_oracle :: "nat \<Rightarrow> nat \<Rightarrow> bytes option"

type_synonym ('s, 'a) comp = "'s \<Rightarrow> (sm_error + 'a) \<times> 's"

type_synonym 'a io = "(host, 'a) comp"

definition ret :: "'a \<Rightarrow> ('s, 'a) comp" where
  "ret x = (\<lambda>s. (Inr x, s))"

definition raise :: "sm_error \<Rightarrow> ('s, 'a) comp" where
  "raise e = (\<lambda>s. (Inl e, s))"

definition and_then :: "('s, 'a) comp \<Rightarrow> ('a \<Rightarrow> ('s, 'b) comp) \<Rightarrow> ('s, 'b) comp" where
  "and_then m f = (\<lambda>s. case m s of (Inl e, s') \<Rightarrow> (Inl e, s') | (Inr x, s') \<Rightarrow> f x s')"

text \<open>\<open>if err := m; err != nil \<open>{\<close> clean; return err \<open>}\<close>\<close>.\<close>

definition or_else :: "('s, 'a) comp \<Rightarrow> ('s, unit) comp \<Rightarrow> ('s, 'a) comp" where
  "or_else m clean = (\<lambda>s. case m s of (Inl e, s') \<Rightarrow> (Inl e, snd (clean s')) | res \<Rightarrow> res)"

definition from_sum :: "sm_error + 'a \<Rightarrow> ('s, 'a) comp" where
  "from_sum r = (\<lambda>s. (r, s))"

definition tick :: "host \<Rightarrow> fault \<times> host" where
  "tick s = (let f = (if dead s then Dies 0 else faults s (calls_made s))
             in (f, s\<lparr>calls_made := calls_made s + 1, dead := (dead s \<or> (case f of Dies _ \<Rightarrow> True | _ \<Rightarrow> False))\<rparr>))"

text \<open>A call without an effect on the files.\<close>

definition os_check :: "unit io" where
  "os_check s = (case tick s of (Works, s') \<Rightarrow> (Inr (), s') | (_, s') \<Rightarrow> (Inl EIO, s'))"

definition os_ReadFile :: "string \<Rightarrow> bytes io" where
  "os_ReadFile p s =
     (case tick s of
        (Works, s') \<Rightarrow> ((case disk s' p of Some d \<Rightarrow> Inr d | None \<Rightarrow> Inl ENotExist), s')
      | (_, s') \<Rightarrow> (Inl EIO, s'))"

definition os_WriteFile :: "string \<Rightarrow> bytes \<Rightarrow> unit io" where
  "os_WriteFile p d s =
     (case tick s of
        (Works, s') \<Rightarrow> (Inr (), s'\<lparr>disk := (disk s')(p \<mapsto> d)\<rparr>)
      | (Fails n, s') \<Rightarrow> (Inl EIO, s'\<lparr>disk := (disk s')(p \<mapsto> take n d)\<rparr>)
      | (Dies n, s') \<Rightarrow> (Inl EIO, if dead s then s' else s'\<lparr>disk := (disk s')(p \<mapsto> take n d)\<rparr>))"

definition os_Rename :: "string \<Rightarrow> string \<Rightarrow> unit io" where
  "os_Rename p q s =
     (case tick s of
        (Works, s') \<Rightarrow>
          (case disk s' p of
             Some d \<Rightarrow> (Inr (), s'\<lparr>disk := ((disk s')(p := None))(q \<mapsto> d)\<rparr>)
           | None \<Rightarrow> (Inl ENotExist, s'))
      | (_, s') \<Rightarrow> (Inl EIO, s'))"

definition os_Remove :: "string \<Rightarrow> unit io" where
  "os_Remove p s =
     (case tick s of
        (Works, s') \<Rightarrow>
          (if disk s' p = None then (Inl ENotExist, s') else (Inr (), s'\<lparr>disk := (disk s')(p := None)\<rparr>))
      | (_, s') \<Rightarrow> (Inl EIO, s'))"

text \<open>\<open>os.Stat\<close> as the code uses it: any error counts as absent.\<close>

definition os_exists :: "string \<Rightarrow> host \<Rightarrow> bool \<times> host" where
  "os_exists p s = (case tick s of (Works, s') \<Rightarrow> (disk s' p \<noteq> None, s') | (_, s') \<Rightarrow> (False, s'))"

definition os_MkdirAll :: "unit io" where "os_MkdirAll = os_check"

definition syncDir :: "unit io" where "syncDir = os_check"

definition writeFile0600 :: "string \<Rightarrow> bytes \<Rightarrow> unit io" where
  "writeFile0600 p d = and_then (os_WriteFile p d) (\<lambda>_. os_check)"

definition syncFile :: "string \<Rightarrow> unit io" where
  "syncFile p = and_then (os_ReadFile p) (\<lambda>_. os_check)"

definition randomBytes :: "nat \<Rightarrow> bytes io" where
  "randomBytes n s =
     (let s' = s\<lparr>rand_used := rand_used s + 1\<rparr>
      in case rand_oracle s (rand_used s) n of Some b \<Rightarrow> (Inr b, s') | None \<Rightarrow> (Inl EIO, s'))"

text \<open>
  The commit sequence that the marker, the verifier, the persisted registry and the re-encrypted vaults
  share: write the temporary file, sync it, rename it over the target, sync the directory.
\<close>

definition atomic_replace :: "string \<Rightarrow> bytes \<Rightarrow> unit io" where
  "atomic_replace path d =
     (let tmp = path @ ''.tmp''
      in and_then (writeFile0600 tmp d) (\<lambda>_.
         and_then (or_else (syncFile tmp) (os_Remove tmp)) (\<lambda>_.
         and_then (or_else (os_Rename tmp path) (os_Remove tmp)) (\<lambda>_.
         syncDir))))"

section \<open>What the operations can do to the files\<close>

named_theorems io_simps

lemmas io_basics [io_simps] = ret_def raise_def and_then_def or_else_def from_sum_def

lemma tick_frame [simp]:
  "disk (snd (tick s)) = disk s" "rand_used (snd (tick s)) = rand_used s"
  "rand_oracle (snd (tick s)) = rand_oracle s" "faults (snd (tick s)) = faults s"
  by (simp_all add: tick_def Let_def)

lemma tick_files: "tick s = (f, s') \<Longrightarrow> disk s' = disk s \<and> rand_oracle s' = rand_oracle s \<and> (dead s \<longrightarrow> dead s' \<and> f = Dies 0)"
  by (auto simp: tick_def Let_def)

text \<open>\<open>touches P m\<close>: whatever the oracle does, \<open>m\<close> leaves every file outside \<open>P\<close> alone, and after the death
  all of them.\<close>

definition touches :: "string set \<Rightarrow> 'a io \<Rightarrow> bool" where
  "touches P m \<longleftrightarrow> (\<forall>s. (\<forall>q. q \<notin> P \<longrightarrow> disk (snd (m s)) q = disk s q)
     \<and> (dead s \<longrightarrow> disk (snd (m s)) = disk s \<and> dead (snd (m s)))
     \<and> rand_oracle (snd (m s)) = rand_oracle s)"

lemma touchesD: "touches P m \<Longrightarrow> q \<notin> P \<Longrightarrow> disk (snd (m s)) q = disk s q"
  by (simp add: touches_def)

lemma touches_mono: "touches P m \<Longrightarrow> P \<subseteq> Q \<Longrightarrow> touches Q m"
  unfolding touches_def by blast

lemma touches_prims [intro]:
  "touches P (ret x)" "touches P (raise e)" "touches P os_check" "touches P (os_ReadFile p)" "touches P (from_sum r)"
  "touches P os_MkdirAll" "touches P syncDir" "touches P (randomBytes n)"
  "p \<in> P \<Longrightarrow> touches P (os_WriteFile p d)" "p \<in> P \<Longrightarrow> touches P (os_Remove p)"
  "p \<in> P \<Longrightarrow> q \<in> P \<Longrightarrow> touches P (os_Rename p q)"
  by (auto simp: touches_def io_simps os_check_def os_ReadFile_def os_WriteFile_def os_Remove_def os_Rename_def
      os_MkdirAll_def syncDir_def randomBytes_def Let_def dest: tick_files split: prod.splits fault.splits option.splits)

lemma touches_and_then [intro]:
  assumes "touches P m" "\<And>x. touches P (f x)"
  shows "touches P (and_then m f)"
  unfolding touches_def
proof
  fix s
  obtain r s1 where m: "m s = (r, s1)" by fastforce
  have 1: "\<forall>q. q \<notin> P \<longrightarrow> disk s1 q = disk s q" "dead s \<longrightarrow> disk s1 = disk s \<and> dead s1" "rand_oracle s1 = rand_oracle s"
    using assms(1) m unfolding touches_def by (metis snd_conv)+
  show "(\<forall>q. q \<notin> P \<longrightarrow> disk (snd (and_then m f s)) q = disk s q)
      \<and> (dead s \<longrightarrow> disk (snd (and_then m f s)) = disk s \<and> dead (snd (and_then m f s)))
      \<and> rand_oracle (snd (and_then m f s)) = rand_oracle s"
    using 1 m assms(2) by (cases r) (auto simp: and_then_def touches_def)
qed

lemma touches_or_else [intro]:
  assumes "touches P m" "touches P c"
  shows "touches P (or_else m c)"
  unfolding touches_def
proof
  fix s
  obtain r s1 where m: "m s = (r, s1)" by fastforce
  have 1: "\<forall>q. q \<notin> P \<longrightarrow> disk s1 q = disk s q" "dead s \<longrightarrow> disk s1 = disk s \<and> dead s1" "rand_oracle s1 = rand_oracle s"
    using assms(1) m unfolding touches_def by (metis snd_conv)+
  show "(\<forall>q. q \<notin> P \<longrightarrow> disk (snd (or_else m c s)) q = disk s q)
      \<and> (dead s \<longrightarrow> disk (snd (or_else m c s)) = disk s \<and> dead (snd (or_else m c s)))
      \<and> rand_oracle (snd (or_else m c s)) = rand_oracle s"
    using 1 m assms(2) by (cases r) (auto simp: or_else_def touches_def)
qed

lemma touches_syncFile [intro]: "touches P (syncFile p)"
  unfolding syncFile_def by (intro touches_and_then touches_prims)

lemma touches_writeFile [intro]: "p \<in> P \<Longrightarrow> touches P (writeFile0600 p d)"
  unfolding writeFile0600_def by (intro touches_and_then touches_prims)

lemma touches_atomic_replace [intro]: "p \<in> P \<Longrightarrow> p @ ''.tmp'' \<in> P \<Longrightarrow> touches P (atomic_replace p d)"
  unfolding atomic_replace_def Let_def
  by (intro touches_and_then touches_or_else touches_prims touches_syncFile touches_writeFile)

lemma and_then_Inr: "and_then m f s = (Inr y, s') \<longleftrightarrow> (\<exists>x s1. m s = (Inr x, s1) \<and> f x s1 = (Inr y, s'))"
  by (auto simp: and_then_def split: prod.splits sum.splits)

lemma or_else_Inr: "or_else m c s = (Inr y, s') \<longleftrightarrow> m s = (Inr y, s')"
  by (auto simp: or_else_def split: prod.splits sum.splits)

lemma ret_Inr: "ret x s = (Inr y, s') \<longleftrightarrow> y = x \<and> s' = s"
  by (auto simp: ret_def)

lemma from_sum_Inr: "from_sum r s = (Inr y, s') \<longleftrightarrow> r = Inr y \<and> s' = s"
  by (auto simp: from_sum_def)

lemma os_check_Inr: "os_check s = (Inr y, s') \<Longrightarrow> disk s' = disk s"
  by (auto simp: os_check_def dest: tick_files split: prod.splits fault.splits)

lemma os_ReadFile_Inr: "os_ReadFile p s = (Inr d, s') \<Longrightarrow> disk s p = Some d \<and> disk s' = disk s"
  by (auto simp: os_ReadFile_def dest: tick_files split: prod.splits fault.splits option.splits)

lemma os_WriteFile_Inr: "os_WriteFile p d s = (Inr y, s') \<Longrightarrow> disk s' = (disk s)(p \<mapsto> d)"
  by (auto simp: os_WriteFile_def dest: tick_files split: prod.splits fault.splits)

lemma os_Rename_cases:
  "os_Rename p q s = (r, s') \<Longrightarrow>
   (case r of Inr _ \<Rightarrow> \<exists>d. disk s p = Some d \<and> disk s' = ((disk s)(p := None))(q \<mapsto> d) | Inl _ \<Rightarrow> disk s' = disk s)"
  by (auto simp: os_Rename_def dest: tick_files split: prod.splits fault.splits option.splits)

lemma os_Remove_cases:
  "os_Remove p s = (r, s') \<Longrightarrow> (case r of Inr _ \<Rightarrow> disk s' = (disk s)(p := None) | Inl _ \<Rightarrow> disk s' = disk s)"
  by (auto simp: os_Remove_def dest: tick_files split: prod.splits fault.splits if_splits)

lemmas io_inr = and_then_Inr or_else_Inr ret_Inr from_sum_Inr

lemma writeFile_Inr: "writeFile0600 p d s = (Inr y, s') \<Longrightarrow> disk s' = (disk s)(p \<mapsto> d)"
  by (auto simp: writeFile0600_def io_inr dest!: os_WriteFile_Inr os_check_Inr)

lemma syncFile_Inr: "syncFile p s = (Inr y, s') \<Longrightarrow> disk s' = disk s"
  by (auto simp: syncFile_def io_inr dest!: os_ReadFile_Inr os_check_Inr)

lemma tmp_neq [simp]: "p @ ''.tmp'' \<noteq> p" "p \<noteq> p @ ''.tmp''" "p @ ''.enc'' \<noteq> p" "p \<noteq> p @ ''.enc''"
  by simp_all

text \<open>The commit is atomic: the target holds its old content or the new data, and the new data after a success.\<close>

lemma atomic_replace_cases:
  assumes "atomic_replace p d s = (r, s')"
  shows "disk s' p \<in> {disk s p, Some d} \<and> (r = Inr () \<longrightarrow> disk s' = ((disk s)(p @ ''.tmp'' := None))(p \<mapsto> d))"
proof -
  let ?t = "p @ ''.tmp''"
  let ?pre = "and_then (writeFile0600 ?t d) (\<lambda>_. or_else (syncFile ?t) (os_Remove ?t))"
  have assoc: "atomic_replace p d s = and_then ?pre (\<lambda>_. and_then (or_else (os_Rename ?t p) (os_Remove ?t)) (\<lambda>_. syncDir)) s"
    by (simp add: atomic_replace_def and_then_def Let_def split: prod.splits sum.splits)
  obtain r1 s1 where pre: "?pre s = (r1, s1)" by fastforce
  have t: "touches {?t} ?pre" by (intro touches_and_then touches_or_else touches_syncFile touches_writeFile touches_prims) auto
  have p1: "disk s1 p = disk s p" using touchesD [OF t, of p s] pre by simp
  show ?thesis
  proof (cases r1)
    case (Inl e)
    then show ?thesis using assms assoc pre p1 by (auto simp: and_then_def)
  next
    case (Inr u)
    then have s1: "disk s1 = (disk s)(?t \<mapsto> d)"
      using pre by (auto simp: io_inr dest!: writeFile_Inr syncFile_Inr)
    obtain r2 s2 where ren: "os_Rename ?t p s1 = (r2, s2)" by fastforce
    note rc = os_Rename_cases [OF ren]
    show ?thesis
    proof (cases r2)
      case (Inl e)
      obtain r3 s3 where rm: "os_Remove ?t s2 = (r3, s3)" by fastforce
      have "s' = s3" "r \<noteq> Inr ()" using assms assoc pre Inr ren Inl rm by (auto simp: and_then_def or_else_def)
      moreover have "disk s3 p = disk s2 p" using os_Remove_cases [OF rm] by (auto split: sum.splits)
      ultimately show ?thesis using rc Inl p1 by simp
    next
      case inr: (Inr v)
      obtain r4 s4 where sd: "syncDir s2 = (r4, s4)" by fastforce
      then have "disk s4 = disk s2"
        by (auto simp: syncDir_def os_check_def dest: tick_files split: prod.splits fault.splits)
      moreover have "r = r4" "s' = s4" using assms assoc pre Inr ren inr sd by (auto simp: and_then_def or_else_def)
      moreover have "disk s2 = ((disk s)(?t := None))(p \<mapsto> d)" using rc inr s1 by auto
      ultimately show ?thesis by simp
    qed
  qed
qed

section \<open>A host on which nothing fails\<close>

definition calm :: "host \<Rightarrow> bool" where
  "calm s \<longleftrightarrow> \<not> dead s \<and> (\<forall>n\<ge>calls_made s. faults s n = Works)
     \<and> (\<forall>i n. case rand_oracle s i n of None \<Rightarrow> False | Some b \<Rightarrow> length b = n)"

lemma calm_tick:
  "calm s \<Longrightarrow> tick s = (Works, s\<lparr>calls_made := Suc (calls_made s)\<rparr>)"
  by (simp add: calm_def tick_def Let_def)

lemma calm_step [simp]:
  "calm s \<Longrightarrow> calm (s\<lparr>calls_made := Suc (calls_made s)\<rparr>)"
  "calm (s\<lparr>disk := d\<rparr>) \<longleftrightarrow> calm s" "calm (s\<lparr>rand_used := n\<rparr>) \<longleftrightarrow> calm s"
  by (auto simp: calm_def)

text \<open>\<open>yields m s x d\<close>: from \<open>s\<close>, \<open>m\<close> returns \<open>x\<close> and leaves a calm host with the files \<open>d\<close>.\<close>

definition yields :: "'a io \<Rightarrow> host \<Rightarrow> 'a \<Rightarrow> (string \<rightharpoonup> bytes) \<Rightarrow> bool" where
  "yields m s x d \<longleftrightarrow> (case m s of (Inl _, _) \<Rightarrow> False | (Inr y, s') \<Rightarrow> y = x \<and> disk s' = d \<and> calm s')"

lemma yieldsD: "yields m s x d \<Longrightarrow> \<exists>s'. m s = (Inr x, s') \<and> disk s' = d \<and> calm s'"
  by (auto simp: yields_def split: prod.splits sum.splits)

lemma yields_and_then:
  assumes "yields m s x d" "\<And>s1. calm s1 \<Longrightarrow> disk s1 = d \<Longrightarrow> yields (f x) s1 y d'"
  shows "yields (and_then m f) s y d'"
proof -
  from yieldsD [OF assms(1)] obtain s1 where "m s = (Inr x, s1)" "disk s1 = d" "calm s1" by blast
  with assms(2) [of s1] show ?thesis by (simp add: yields_def and_then_def)
qed

lemma yields_or_else: "yields m s x d \<Longrightarrow> yields (or_else m c) s x d"
  by (auto simp: yields_def or_else_def split: prod.splits sum.splits)

lemma yields_prims:
  "calm s \<Longrightarrow> disk s = d \<Longrightarrow> yields (ret x) s x d"
  "calm s \<Longrightarrow> disk s = d \<Longrightarrow> yields os_check s () d"
  "calm s \<Longrightarrow> disk s = d \<Longrightarrow> yields syncDir s () d"
  "calm s \<Longrightarrow> disk s = d \<Longrightarrow> yields os_MkdirAll s () d"
  "calm s \<Longrightarrow> disk s = d \<Longrightarrow> d p = Some b \<Longrightarrow> yields (os_ReadFile p) s b d"
  "calm s \<Longrightarrow> disk s = d \<Longrightarrow> yields (os_WriteFile p b) s () (d(p \<mapsto> b))"
  "calm s \<Longrightarrow> disk s = d \<Longrightarrow> d p = Some b \<Longrightarrow> yields (os_Rename p q) s () ((d(p := None))(q \<mapsto> b))"
  "calm s \<Longrightarrow> disk s = d \<Longrightarrow> d p \<noteq> None \<Longrightarrow> yields (os_Remove p) s () (d(p := None))"
  "calm s \<Longrightarrow> disk s = d \<Longrightarrow> r = Inr x \<Longrightarrow> yields (from_sum r) s x d"
  by (auto simp: yields_def ret_def os_check_def syncDir_def os_MkdirAll_def os_ReadFile_def os_WriteFile_def os_Rename_def
      os_Remove_def from_sum_def calm_tick)

lemma yields_randomBytes: "calm s \<Longrightarrow> disk s = d \<Longrightarrow> \<exists>b. length b = n \<and> yields (randomBytes n) s b d"
proof -
  assume c: "calm s" "disk s = d"
  then have "case rand_oracle s (rand_used s) n of None \<Rightarrow> False | Some b \<Rightarrow> length b = n" by (simp add: calm_def)
  with c show ?thesis by (auto simp: yields_def randomBytes_def Let_def split: option.splits)
qed

lemma yields_syncFile:
  assumes "calm s" "disk s = d" "d p = Some b"
  shows "yields (syncFile p) s () d"
  unfolding syncFile_def
  by (rule yields_and_then [OF yields_prims(5) [OF assms]], rule yields_prims(2), assumption+)

lemma yields_writeFile:
  assumes "calm s" "disk s = d"
  shows "yields (writeFile0600 p b) s () (d(p \<mapsto> b))"
  unfolding writeFile0600_def
  by (rule yields_and_then [OF yields_prims(6) [OF assms]], rule yields_prims(2), assumption+)

lemma yields_atomic_replace:
  assumes "calm s" "disk s = d"
  shows "yields (atomic_replace p b) s () ((d(p @ ''.tmp'' := None))(p \<mapsto> b))"
  unfolding atomic_replace_def Let_def
proof (rule yields_and_then [OF yields_writeFile [OF assms]])
  let ?t = "p @ ''.tmp''"
  fix s1 assume s1: "calm s1" "disk s1 = d(?t \<mapsto> b)"
  show "yields (and_then (or_else (syncFile ?t) (os_Remove ?t)) (\<lambda>_.
      and_then (or_else (os_Rename ?t p) (os_Remove ?t)) (\<lambda>_. syncDir))) s1 () ((d(?t := None))(p \<mapsto> b))"
  proof (rule yields_and_then [OF yields_or_else [OF yields_syncFile [OF s1]]])
    fix s2 assume s2: "calm s2" "disk s2 = d(?t \<mapsto> b)"
    have "yields (os_Rename ?t p) s2 () (((d(?t \<mapsto> b))(?t := None))(p \<mapsto> b))"
      by (rule yields_prims(7) [OF s2]) simp
    then have r: "yields (os_Rename ?t p) s2 () ((d(?t := None))(p \<mapsto> b))" by simp
    show "yields (and_then (or_else (os_Rename ?t p) (os_Remove ?t)) (\<lambda>_. syncDir)) s2 () ((d(?t := None))(p \<mapsto> b))"
      by (rule yields_and_then [OF yields_or_else [OF r]], rule yields_prims(3))
  qed simp
qed

end
