(* ===== verification/Secure_Crypt.thy ===== *)
theory Secure_Crypt
  imports Secure_Files
begin

text \<open>
  \<open>internal/securemode/crypt.go\<close>: the \<open>.enc\<close> file. The header is written and parsed byte by byte as in the
  source. The primitives of the Go libraries (argon2id, AES-GCM, SHA-256) are a record of functions;
  \<open>crypto_ok\<close> says what is documented of them: the lengths, and that \<open>Open\<close> undoes \<open>Seal\<close>.
\<close>

record crypto =
  IDKey :: "bytes \<Rightarrow> bytes \<Rightarrow> nat \<Rightarrow> nat \<Rightarrow> nat \<Rightarrow> nat \<Rightarrow> bytes"
  Seal :: "bytes \<Rightarrow> bytes \<Rightarrow> bytes \<Rightarrow> bytes"
  Open :: "bytes \<Rightarrow> bytes \<Rightarrow> bytes \<Rightarrow> bytes option"
  Sum256 :: "bytes \<Rightarrow> bytes"

definition nonceSize :: nat where "nonceSize = 12"

definition crypto_ok :: "crypto \<Rightarrow> bool" where
  "crypto_ok C \<longleftrightarrow> (\<forall>pw salt n r p k. length (IDKey C pw salt n r p k) = k)
     \<and> (\<forall>key nonce m. length key \<in> {16, 24, 32} \<longrightarrow> length nonce = nonceSize \<longrightarrow>
          Open C key nonce (Seal C key nonce m) = Some m \<and> length (Seal C key nonce m) = length m + 16)
     \<and> (\<forall>m. length (Sum256 C m) = 32)"

definition rand_ok :: "host \<Rightarrow> bool" where
  "rand_ok s \<longleftrightarrow> (\<forall>i n b. rand_oracle s i n = Some b \<longrightarrow> length b = n)"

definition Magic :: bytes where "Magic = ''ASCM''"
definition Version :: nat where "Version = 1"
definition MaxConfigSize :: nat where "MaxConfigSize = 10485760"

record Header =
  hd_Magic :: bytes
  hd_Version :: nat
  hd_Salt :: bytes
  ArgonN :: nat
  ArgonR :: nat
  ArgonP :: nat
  KeyLen :: nat
  hd_Envelope :: bytes
  hd_Nonce :: bytes

definition DefaultKDFParams :: "nat \<times> nat \<times> nat \<times> nat" where
  "DefaultKDFParams = (2, 65536, 4, 32)"

definition supportedKDFParams :: "(nat \<times> nat \<times> nat \<times> nat) list" where
  "supportedKDFParams = [(1, 65536, 4, 32), (2, 65536, 4, 32)]"

definition isSupportedKDFParams :: "nat \<Rightarrow> nat \<Rightarrow> nat \<Rightarrow> nat \<Rightarrow> bool" where
  "isSupportedKDFParams n r p k \<longleftrightarrow> (n, r, p, k) \<in> set supportedKDFParams"

definition deriveKey :: "crypto \<Rightarrow> bytes \<Rightarrow> bytes \<Rightarrow> nat \<Rightarrow> nat \<Rightarrow> nat \<Rightarrow> nat \<Rightarrow> bytes" where
  "deriveKey C pw salt n r p k = IDKey C pw salt n r (p mod 256) k"

section \<open>Big-endian integers\<close>

definition be16 :: "nat \<Rightarrow> bytes" where
  "be16 n = [char_of (n div 256), char_of n]"

definition be32 :: "nat \<Rightarrow> bytes" where
  "be32 n = [char_of (n div 16777216), char_of (n div 65536), char_of (n div 256), char_of n]"

definition read16 :: "bytes \<Rightarrow> nat" where
  "read16 b = of_char (b ! 0) * 256 + of_char (b ! 1)"

definition read32 :: "bytes \<Rightarrow> nat" where
  "read32 b = of_char (b ! 0) * 16777216 + of_char (b ! 1) * 65536 + of_char (b ! 2) * 256 + of_char (b ! 3)"

lemma length_be [simp]: "length (be16 n) = 2" "length (be32 n) = 4"
  by (simp_all add: be16_def be32_def)

lemma read16_be16: "n < 65536 \<Longrightarrow> read16 (be16 n @ rest) = n"
  by (simp add: read16_def be16_def of_char_of)

lemma base256:
  assumes "n < (4294967296 :: nat)"
  shows "n div 16777216 mod 256 * 16777216 + n div 65536 mod 256 * 65536 + n div 256 mod 256 * 256 + n mod 256 = n"
proof -
  define a where "a = n div 256"
  define b where "b = a div 256"
  define c where "c = b div 256"
  have "n div 65536 = b" "n div 16777216 = c"
    by (simp_all add: a_def b_def c_def flip: div_mult2_eq)
  moreover have "n = 256 * a + n mod 256" "a = 256 * b + a mod 256" "b = 256 * c + b mod 256"
    by (simp_all add: a_def b_def c_def)
  moreover have "c < 256" using assms by (simp add: a_def b_def c_def less_mult_imp_div_less flip: div_mult2_eq)
  ultimately show ?thesis by (simp add: a_def [symmetric])
qed

lemma read32_be32: "n < 4294967296 \<Longrightarrow> read32 (be32 n @ rest) = n"
  using base256 [of n] by (simp add: read32_def be32_def of_char_of)

lemma read16_append: "length b = 2 \<Longrightarrow> read16 (b @ rest) = read16 b"
  by (simp add: read16_def nth_append)

section \<open>The header\<close>

definition marshalHeader :: "Header \<Rightarrow> sm_error + bytes" where
  "marshalHeader h =
     (if length (hd_Salt h) > 65535 \<or> length (hd_Envelope h) > 4294967295 \<or> length (hd_Nonce h) > 65535
      then Inl (EMsg ''header field too large'')
      else Inr (hd_Magic h @ [char_of (hd_Version h)] @ be16 (length (hd_Salt h)) @ hd_Salt h
             @ be32 (ArgonN h) @ be32 (ArgonR h) @ be32 (ArgonP h) @ be32 (KeyLen h)
             @ be32 (length (hd_Envelope h)) @ hd_Envelope h @ be16 (length (hd_Nonce h)) @ hd_Nonce h))"

text \<open>The tail of the parser, from the salt on: \<open>d\<close> is what is left of the data, \<open>off\<close> how much was read.\<close>

definition parse_nonce :: "Header \<Rightarrow> nat \<Rightarrow> bytes \<Rightarrow> sm_error + (Header \<times> nat)" where
  "parse_nonce h off d =
     (if length d < 2 then Inl (EMsg ''truncated header'')
      else let n = read16 d; d = drop 2 d
           in if length d < n then Inl (EMsg ''truncated nonce'')
              else Inr (h\<lparr>hd_Nonce := take n d\<rparr>, off + 2 + n))"

definition parse_envelope :: "Header \<Rightarrow> nat \<Rightarrow> bytes \<Rightarrow> sm_error + (Header \<times> nat)" where
  "parse_envelope h off d =
     (if length d < 4 then Inl (EMsg ''truncated header'')
      else let n = read32 d; d = drop 4 d
           in if length d < n then Inl (EMsg ''truncated envelope'')
              else parse_nonce (h\<lparr>hd_Envelope := take n d\<rparr>) (off + 4 + n) (drop n d))"

definition parse_kdf :: "Header \<Rightarrow> nat \<Rightarrow> bytes \<Rightarrow> sm_error + (Header \<times> nat)" where
  "parse_kdf h off d =
     (if length d < 16 then Inl (EMsg ''truncated header'')
      else parse_envelope
             (h\<lparr>ArgonN := read32 d, ArgonR := read32 (drop 4 d), ArgonP := read32 (drop 8 d), KeyLen := read32 (drop 12 d)\<rparr>)
             (off + 16) (drop 16 d))"

definition parseHeader :: "bytes \<Rightarrow> sm_error + (Header \<times> nat)" where
  "parseHeader data =
     (if length data < 7 then Inl (EMsg ''encrypted data too short'')
      else if take 4 data \<noteq> Magic then Inl (EMsg (''bad magic: '' @ take 4 data))
      else if of_char (data ! 4) \<noteq> Version then Inl (EMsg ''unsupported version'')
      else let n = read16 (drop 5 data); d = drop 7 data
           in if length d < n then Inl (EMsg ''truncated salt'')
              else parse_kdf
                     \<lparr>hd_Magic = take 4 data, hd_Version = of_char (data ! 4), hd_Salt = take n d, ArgonN = 0, ArgonR = 0,
                      ArgonP = 0, KeyLen = 0, hd_Envelope = [], hd_Nonce = []\<rparr> (7 + n) (drop n d))"

section \<open>Encryption\<close>

definition cipher_key_ok :: "bytes \<Rightarrow> bool" where
  "cipher_key_ok k \<longleftrightarrow> length k \<in> {16, 24, 32}"

definition Encrypt :: "crypto \<Rightarrow> bytes \<Rightarrow> bytes \<Rightarrow> bytes io" where
  "Encrypt C plaintext password =
     (let (n, r, p, keyLen) = DefaultKDFParams
      in and_then (randomBytes 16) (\<lambda>salt.
         (let kek = deriveKey C password salt n r p keyLen
          in and_then (randomBytes 32) (\<lambda>dek.
             if \<not> cipher_key_ok kek then raise (EMsg ''invalid key size'') else
             and_then (randomBytes nonceSize) (\<lambda>envNonce.
               (let envelope = Seal C kek envNonce dek
                in if \<not> cipher_key_ok dek then raise (EMsg ''invalid key size'') else
                   and_then (randomBytes nonceSize) (\<lambda>payNonce.
                     (let ciphertext = payNonce @ Seal C dek payNonce plaintext;
                          h = \<lparr>hd_Magic = Magic, hd_Version = Version, hd_Salt = salt, ArgonN = n, ArgonR = r, ArgonP = p,
                               KeyLen = keyLen, hd_Envelope = envelope, hd_Nonce = envNonce\<rparr>
                      in and_then (from_sum (marshalHeader h)) (\<lambda>head. ret (head @ ciphertext))))))))))"

definition decrypt_failed :: sm_error where
  "decrypt_failed = EMsg ''decryption failed: wrong password or corrupted data''"

definition Decrypt :: "crypto \<Rightarrow> bytes \<Rightarrow> bytes \<Rightarrow> sm_error + bytes" where
  "Decrypt C data password =
     (if length data > MaxConfigSize then Inl (EMsg ''encrypted config too large'')
      else case parseHeader data of
        Inl e \<Rightarrow> Inl e
      | Inr (h, off) \<Rightarrow>
          if \<not> isSupportedKDFParams (ArgonN h) (ArgonR h) (ArgonP h) (KeyLen h)
          then Inl (EMsg ''unsupported KDF parameters in header'')
          else
            (let kek = deriveKey C password (hd_Salt h) (ArgonN h) (ArgonR h) (ArgonP h) (KeyLen h)
             in if \<not> cipher_key_ok kek then Inl (EMsg ''invalid key size'')
                else if length (hd_Nonce h) \<noteq> nonceSize then Inl (EMsg ''invalid nonce length in header'')
                else case Open C kek (hd_Nonce h) (hd_Envelope h) of
                  None \<Rightarrow> Inl decrypt_failed
                | Some dek \<Rightarrow>
                    if \<not> cipher_key_ok dek then Inl (EMsg ''invalid key size'')
                    else
                      (let payload = drop off data
                       in if length payload < nonceSize then Inl (EMsg ''ciphertext too short'')
                          else case Open C dek (take nonceSize payload) (drop nonceSize payload) of
                            None \<Rightarrow> Inl decrypt_failed
                          | Some plain \<Rightarrow> Inr plain)))"

section \<open>Round trips\<close>

definition wf_header :: "Header \<Rightarrow> bool" where
  "wf_header h \<longleftrightarrow> hd_Magic h = Magic \<and> hd_Version h = Version
     \<and> length (hd_Salt h) < 65536 \<and> length (hd_Envelope h) < 4294967296 \<and> length (hd_Nonce h) < 65536
     \<and> ArgonN h < 4294967296 \<and> ArgonR h < 4294967296 \<and> ArgonP h < 4294967296 \<and> KeyLen h < 4294967296"

lemma drop_be: "drop 2 (be16 n @ d) = d" "drop 4 (be32 n @ d) = d" "drop 8 (be32 n @ be32 m @ d) = d"
    "drop 12 (be32 n @ be32 m @ be32 k @ d) = d" "drop 16 (be32 n @ be32 m @ be32 k @ be32 l @ d) = d"
  by simp_all

lemma parse_nonce_marshal:
  "length x < 65536 \<Longrightarrow> parse_nonce h off (be16 (length x) @ x @ rest) = Inr (h\<lparr>hd_Nonce := x\<rparr>, off + 2 + length x)"
  by (simp add: parse_nonce_def read16_be16 Let_def)

lemma parse_envelope_marshal:
  "length e < 4294967296 \<Longrightarrow> parse_envelope h off (be32 (length e) @ e @ d) = parse_nonce (h\<lparr>hd_Envelope := e\<rparr>) (off + 4 + length e) d"
  by (simp add: parse_envelope_def read32_be32 Let_def)

lemma parse_kdf_marshal:
  "n < 4294967296 \<Longrightarrow> r < 4294967296 \<Longrightarrow> p < 4294967296 \<Longrightarrow> k < 4294967296 \<Longrightarrow>
   parse_kdf h off (be32 n @ be32 r @ be32 p @ be32 k @ d)
     = parse_envelope (h\<lparr>ArgonN := n, ArgonR := r, ArgonP := p, KeyLen := k\<rparr>) (off + 16) d"
  by (simp add: parse_kdf_def read32_be32)

lemma parse_marshal:
  assumes "wf_header h" "marshalHeader h = Inr b"
  shows "parseHeader (b @ rest) = Inr (h, length b)"
proof -
  let ?tail = "be32 (ArgonN h) @ be32 (ArgonR h) @ be32 (ArgonP h) @ be32 (KeyLen h)
      @ be32 (length (hd_Envelope h)) @ hd_Envelope h @ be16 (length (hd_Nonce h)) @ hd_Nonce h @ rest"
  have w: "hd_Magic h = ''ASCM''" "hd_Version h = 1" "length (hd_Salt h) < 65536" "length (hd_Envelope h) < 4294967296"
    "length (hd_Nonce h) < 65536" "ArgonN h < 4294967296" "ArgonR h < 4294967296" "ArgonP h < 4294967296" "KeyLen h < 4294967296"
    using assms(1) by (simp_all add: wf_header_def Magic_def Version_def)
  have b: "b @ rest = ''ASCM'' @ [char_of (1::nat)] @ be16 (length (hd_Salt h)) @ hd_Salt h @ ?tail"
    using assms(2) w(1,2) by (auto simp: marshalHeader_def split: if_splits)
  have len: "length b = 7 + length (hd_Salt h) + 16 + 4 + length (hd_Envelope h) + 2 + length (hd_Nonce h)"
    using assms(2) w(1) by (auto simp: marshalHeader_def split: if_splits)
  have "parseHeader (b @ rest) =
      parse_kdf \<lparr>hd_Magic = ''ASCM'', hd_Version = 1, hd_Salt = hd_Salt h, ArgonN = 0, ArgonR = 0, ArgonP = 0, KeyLen = 0,
        hd_Envelope = [], hd_Nonce = []\<rparr> (7 + length (hd_Salt h)) ?tail"
    unfolding b using w(3) read16_be16 [OF w(3), of "hd_Salt h @ ?tail"]
    by (simp add: parseHeader_def Magic_def Version_def Let_def)
  also have "\<dots> = Inr (\<lparr>hd_Magic = ''ASCM'', hd_Version = 1, hd_Salt = hd_Salt h, ArgonN = ArgonN h, ArgonR = ArgonR h,
      ArgonP = ArgonP h, KeyLen = KeyLen h, hd_Envelope = hd_Envelope h, hd_Nonce = hd_Nonce h\<rparr>, length b)"
    using w by (simp add: parse_kdf_marshal parse_envelope_marshal parse_nonce_marshal len)
  also have "\<dots> = Inr (h, length b)" using w(1,2) by (simp add: Header.equality)
  finally show ?thesis .
qed

lemma randomBytes_Inr:
  "rand_ok s \<Longrightarrow> randomBytes n s = (Inr b, s') \<Longrightarrow> length b = n \<and> rand_ok s' \<and> disk s' = disk s"
  by (auto simp: randomBytes_def rand_ok_def Let_def split: option.splits)

lemma Encrypt_parts:
  assumes "crypto_ok C" "rand_ok s" "Encrypt C m pw s = (Inr e, s')"
  obtains h kek dek nonce head where
    "e = head @ nonce @ Seal C dek nonce m" "marshalHeader h = Inr head" "wf_header h" "length head = 105"
    "kek = deriveKey C pw (hd_Salt h) (ArgonN h) (ArgonR h) (ArgonP h) (KeyLen h)" "cipher_key_ok kek"
    "isSupportedKDFParams (ArgonN h) (ArgonR h) (ArgonP h) (KeyLen h)" "length (hd_Nonce h) = nonceSize"
    "Open C kek (hd_Nonce h) (hd_Envelope h) = Some dek" "length dek = 32" "length nonce = nonceSize"
    "disk s' = disk s" "rand_ok s'"
proof -
  from assms(3) obtain salt s1 dek s2 en s3 pn s4 head where r:
    "randomBytes 16 s = (Inr salt, s1)" "randomBytes 32 s1 = (Inr dek, s2)" "randomBytes nonceSize s2 = (Inr en, s3)"
    "randomBytes nonceSize s3 = (Inr pn, s4)" "s' = s4" "e = head @ pn @ Seal C dek pn m"
    "marshalHeader \<lparr>hd_Magic = Magic, hd_Version = Version, hd_Salt = salt, ArgonN = 2, ArgonR = 65536, ArgonP = 4,
       KeyLen = 32, hd_Envelope = Seal C (deriveKey C pw salt 2 65536 4 32) en dek, hd_Nonce = en\<rparr> = Inr head"
    by (auto simp: Encrypt_def DefaultKDFParams_def io_inr raise_def Let_def split: if_splits)
  let ?kek = "deriveKey C pw salt 2 65536 4 32"
  let ?h = "\<lparr>hd_Magic = Magic, hd_Version = Version, hd_Salt = salt, ArgonN = 2, ArgonR = 65536, ArgonP = 4,
       KeyLen = 32, hd_Envelope = Seal C ?kek en dek, hd_Nonce = en\<rparr>"
  have l1: "length salt = 16" "rand_ok s1" "disk s1 = disk s" using randomBytes_Inr [OF assms(2) r(1)] by auto
  have l2: "length dek = 32" "rand_ok s2" "disk s2 = disk s" using randomBytes_Inr [OF l1(2) r(2)] l1 by auto
  have l3: "length en = nonceSize" "rand_ok s3" "disk s3 = disk s" using randomBytes_Inr [OF l2(2) r(3)] l2 by auto
  have l4: "length pn = nonceSize" "rand_ok s4" "disk s4 = disk s" using randomBytes_Inr [OF l3(2) r(4)] l3 by auto
  have kek: "length ?kek = 32" using assms(1) by (simp add: crypto_ok_def deriveKey_def)
  have env: "Open C ?kek en (Seal C ?kek en dek) = Some dek" "length (Seal C ?kek en dek) = 48"
    using assms(1) kek l2 l3 by (simp_all add: crypto_ok_def)
  have wf: "wf_header ?h" using l1 l3 env by (simp add: wf_header_def nonceSize_def)
  have "length head = 105"
    using r(7) l1 l3 env by (auto simp: marshalHeader_def nonceSize_def Magic_def split: if_splits)
  then show thesis
    using r(5,6,7) wf kek env l1 l2 l3 l4
    by (intro that [of head pn dek ?h ?kek])
      (simp_all add: cipher_key_ok_def isSupportedKDFParams_def supportedKDFParams_def)
qed

lemma Decrypt_Encrypt:
  assumes "crypto_ok C" "rand_ok s" "Encrypt C m pw s = (Inr e, s')"
  shows "length e = length m + 133 \<and> (length e \<le> MaxConfigSize \<longrightarrow> Decrypt C e pw = Inr m)
    \<and> Decrypt C (take 105 e) pw = Inl (EMsg ''ciphertext too short'') \<and> disk s' = disk s \<and> rand_ok s'"
proof (rule Encrypt_parts [OF assms])
  fix h kek dek nonce head
  assume p: "e = head @ nonce @ Seal C dek nonce m" "marshalHeader h = Inr head" "wf_header h" "length head = 105"
    "kek = deriveKey C pw (hd_Salt h) (ArgonN h) (ArgonR h) (ArgonP h) (KeyLen h)" "cipher_key_ok kek"
    "isSupportedKDFParams (ArgonN h) (ArgonR h) (ArgonP h) (KeyLen h)" "length (hd_Nonce h) = nonceSize"
    "Open C kek (hd_Nonce h) (hd_Envelope h) = Some dek" "length dek = 32" "length nonce = nonceSize"
    and fin: "disk s' = disk s" "rand_ok s'"
  have seal: "Open C dek nonce (Seal C dek nonce m) = Some m" "length (Seal C dek nonce m) = length m + 16"
    using assms(1) p(10,11) by (simp_all add: crypto_ok_def)
  have key: "cipher_key_ok dek" using p(10) by (simp add: cipher_key_ok_def)
  have "Decrypt C e pw = Inr m" if "length e \<le> MaxConfigSize"
    using that parse_marshal [OF p(3,2), of "nonce @ Seal C dek nonce m"] p key seal
    by (simp add: Decrypt_def Let_def)
  moreover have "Decrypt C (take 105 e) pw = Inl (EMsg ''ciphertext too short'')"
    using parse_marshal [OF p(3,2), of "[]"] p key
    by (simp add: Decrypt_def Let_def MaxConfigSize_def nonceSize_def)
  ultimately show ?thesis using p(1,4,11) seal fin by (simp add: nonceSize_def)
qed

section \<open>An instance of the assumptions\<close>

text \<open>A cipher that appends the front of the key and checks it, and a host on which every call works.\<close>

definition demo_crypto :: crypto where
  "demo_crypto = \<lparr>IDKey = (\<lambda>pw salt n r p k. take k (pw @ replicate k (CHR 0x00))),
     Seal = (\<lambda>key nonce m. m @ take 16 key),
     Open = (\<lambda>key nonce c. if 16 \<le> length c \<and> drop (length c - 16) c = take 16 key then Some (take (length c - 16) c) else None),
     Sum256 = (\<lambda>m. take 32 (m @ replicate 32 (CHR 0x00)))\<rparr>"

definition demo_host :: "(string \<rightharpoonup> bytes) \<Rightarrow> host" where
  "demo_host d = \<lparr>disk = d, calls_made = 0, faults = (\<lambda>_. Works), dead = False, rand_used = 0,
     rand_oracle = (\<lambda>_ n. Some (replicate n (CHR ''r'')))\<rparr>"

lemma demo_crypto_ok: "crypto_ok demo_crypto"
  by (auto simp: crypto_ok_def demo_crypto_def)

lemma demo_host_ok: "rand_ok (demo_host d)" "disk (demo_host d) = d"
  by (simp_all add: rand_ok_def demo_host_def)

text \<open>With this instance encryption always succeeds.\<close>

lemma demo_randomBytes:
  "randomBytes n (demo_host d\<lparr>rand_used := k\<rparr>) = (Inr (replicate n (CHR ''r'')), demo_host d\<lparr>rand_used := Suc k\<rparr>)"
  by (simp add: randomBytes_def demo_host_def)

lemma demo_Encrypt: "\<exists>e s'. Encrypt demo_crypto m pw (demo_host d) = (Inr e, s')"
proof -
  have 0: "demo_host d = demo_host d\<lparr>rand_used := 0\<rparr>" by (simp add: demo_host_def)
  have k: "length (deriveKey demo_crypto pw (replicate 16 (CHR ''r'')) 2 65536 4 32) = 32"
    by (simp add: deriveKey_def demo_crypto_def)
  have sl: "length (Seal demo_crypto key nonce x) \<le> length x + 16" for key nonce x
    by (simp add: demo_crypto_def)
  have e: "length (Seal demo_crypto key nonce (replicate 32 (CHR ''r''))) \<le> 4294967295" for key nonce
    by (rule order_trans [OF sl]) simp
  then show ?thesis
    by (subst 0) (simp add: Encrypt_def DefaultKDFParams_def and_then_def demo_randomBytes k cipher_key_ok_def
        marshalHeader_def nonceSize_def from_sum_def ret_def Let_def not_less)
qed

end
