(* ===== verification/Secure_State.thy ===== *)
theory Secure_State
  imports Secure_Crypt
begin

text \<open>
  The state the secure mode keeps beside the vaults: the mode marker (\<open>state.go\<close>), the password verifier and
  the strength gate (\<open>password.go\<close>), the registry of agent secrets (\<open>registry.go\<close>) and the memory guard
  (\<open>memguard.go\<close>) of \<open>internal/securemode\<close>. JSON is a pair of functions on the registry (\<open>codec\<close>); a decoded
  object is the list of its members, \<open>null\<close> is the inner \<open>None\<close>. \<open>unicode.IsLower\<close> and its like are predicates.
\<close>

datatype Mode = ModeDefault | ModeRun

definition mode_string :: "Mode \<Rightarrow> string" where
  "mode_string m = (case m of ModeDefault \<Rightarrow> ''default'' | ModeRun \<Rightarrow> ''run'')"

definition MarkerPath :: "string \<Rightarrow> string" where "MarkerPath dir = dir @ ''/.asscor-mode''"

definition ErrCorruptMarker :: sm_error where
  "ErrCorruptMarker = EMsg ''secure mode marker corrupt (possible tampering)''"

definition markerHash :: "crypto \<Rightarrow> nat \<Rightarrow> string \<Rightarrow> bytes" where
  "markerHash C v m = Sum256 C ([char_of v, char_of (length m)] @ m)"

definition marker_bytes :: "crypto \<Rightarrow> Mode \<Rightarrow> bytes" where
  "marker_bytes C m =
     (let ms = mode_string m
      in [char_of (1::nat)] @ [char_of (length ms)] @ ms @ markerHash C 1 ms)"

definition WriteMarker :: "crypto \<Rightarrow> string \<Rightarrow> Mode \<Rightarrow> unit io" where
  "WriteMarker C path m = and_then os_MkdirAll (\<lambda>_. atomic_replace path (marker_bytes C m))"

definition parse_marker :: "crypto \<Rightarrow> bytes \<Rightarrow> sm_error + Mode" where
  "parse_marker C data =
     (if length data < 34 then Inl ErrCorruptMarker
      else
        (let v = of_char (data ! 0); modeLen = of_char (data ! 1)
         in if modeLen < 1 \<or> 34 + modeLen \<noteq> length data then Inl ErrCorruptMarker
            else
              (let m = take modeLen (drop 2 data)
               in if drop (2 + modeLen) data \<noteq> markerHash C v m then Inl ErrCorruptMarker
                  else if v \<noteq> 1 then Inl ErrCorruptMarker
                  else if m = mode_string ModeDefault then Inr ModeDefault
                  else if m = mode_string ModeRun then Inr ModeRun
                  else Inl ErrCorruptMarker)))"

definition ReadMarker :: "crypto \<Rightarrow> string \<Rightarrow> Mode io" where
  "ReadMarker C path =
     (\<lambda>s. case os_ReadFile path s of
        (Inl ENotExist, s') \<Rightarrow> (Inr ModeDefault, s')
      | (Inl e, s') \<Rightarrow> (Inl e, s')
      | (Inr d, s') \<Rightarrow> (parse_marker C d, s'))"

section \<open>The password verifier\<close>

definition PasswordVerifierPath :: "string \<Rightarrow> string" where "PasswordVerifierPath dir = dir @ ''/.asscor-pw''"

definition minPasswordLen :: nat where "minPasswordLen = 12"
definition minPasswordClasses :: nat where "minPasswordClasses = 3"

record unicode =
  IsLower :: "char \<Rightarrow> bool"
  IsUpper :: "char \<Rightarrow> bool"
  IsDigit :: "char \<Rightarrow> bool"

definition password_classes :: "unicode \<Rightarrow> string \<Rightarrow> nat" where
  "password_classes U pw =
     (let lower = (\<lambda>c. IsLower U c);
          upper = (\<lambda>c. \<not> IsLower U c \<and> IsUpper U c);
          digit = (\<lambda>c. \<not> IsLower U c \<and> \<not> IsUpper U c \<and> IsDigit U c);
          symbol = (\<lambda>c. \<not> IsLower U c \<and> \<not> IsUpper U c \<and> \<not> IsDigit U c)
      in length (filter (\<lambda>P. list_ex P pw) [lower, upper, digit, symbol]))"

definition ValidatePasswordStrength :: "unicode \<Rightarrow> string \<Rightarrow> string option" where
  "ValidatePasswordStrength U pw =
     (if length pw < minPasswordLen then Some ''secure-mode password too short''
      else if password_classes U pw < minPasswordClasses then Some ''secure-mode password too weak''
      else None)"

definition verifier_bytes :: "crypto \<Rightarrow> bytes \<Rightarrow> string \<Rightarrow> bytes" where
  "verifier_bytes C salt pw =
     (let (n, r, p, keyLen) = DefaultKDFParams
      in [char_of (1::nat)] @ [char_of (length salt)] @ salt @ be32 n @ be32 r @ be32 p @ be32 keyLen
           @ deriveKey C pw salt n r p keyLen)"

definition pv_Exists :: "string \<Rightarrow> host \<Rightarrow> bool \<times> host" where
  "pv_Exists f s = os_exists f s"

definition pv_Set :: "crypto \<Rightarrow> string \<Rightarrow> string \<Rightarrow> unit io" where
  "pv_Set C f pw =
     (if pw = [] then raise (EMsg ''refusing empty secure-mode password'')
      else and_then (randomBytes 16) (\<lambda>salt.
           and_then os_MkdirAll (\<lambda>_. atomic_replace f (verifier_bytes C salt pw))))"

definition check_verifier :: "crypto \<Rightarrow> bytes \<Rightarrow> string \<Rightarrow> bool" where
  "check_verifier C data pw \<longleftrightarrow>
     length data \<ge> 66 \<and> of_char (data ! 0) = (1::nat) \<and>
     (let saltLen = of_char (data ! 1)
      in 2 + saltLen + 16 + 32 \<le> length data \<and>
         (let salt = take saltLen (drop 2 data); d = drop (2 + saltLen) data;
              n = read32 d; r = read32 (drop 4 d); p = read32 (drop 8 d); keyLen = read32 (drop 12 d)
          in isSupportedKDFParams n r p keyLen
             \<and> (let expected = take keyLen (drop 16 d); got = deriveKey C pw salt n r p keyLen
                in length got = length expected \<and> got = expected)))"

definition pv_Verify :: "crypto \<Rightarrow> string \<Rightarrow> string \<Rightarrow> host \<Rightarrow> bool \<times> host" where
  "pv_Verify C f pw s =
     (case os_ReadFile f s of (Inl _, s') \<Rightarrow> (False, s') | (Inr d, s') \<Rightarrow> (check_verifier C d pw, s'))"

definition remove_if_there :: "string \<Rightarrow> unit io" where
  "remove_if_there f = (\<lambda>s. case os_Remove f s of (Inl ENotExist, s') \<Rightarrow> (Inr (), s') | res \<Rightarrow> res)"

definition pv_Clear :: "string \<Rightarrow> unit io" where
  "pv_Clear f = remove_if_there f"

section \<open>The registry of agent secrets\<close>

record AgentSecret =
  sec_AgentID :: string
  sec_Password :: string
  sec_UpdatedAt :: time

type_synonym SecretRegistry = "string \<rightharpoonup> AgentSecret"

definition NewSecretRegistry :: SecretRegistry where "NewSecretRegistry = Map.empty"

definition reg_Register :: "time \<Rightarrow> string \<Rightarrow> string \<Rightarrow> string \<Rightarrow> SecretRegistry \<Rightarrow> string option \<times> SecretRegistry" where
  "reg_Register now fp agentID pw r =
     (if fp = [] \<or> agentID = [] \<or> pw = []
      then (Some ''fingerprint, agent_id and password are all required'', r)
      else case r fp of
        Some e \<Rightarrow>
          if sec_AgentID e \<noteq> agentID then (Some ''one certificate, one identity'', r)
          else (None, r(fp \<mapsto> e\<lparr>sec_Password := pw, sec_UpdatedAt := now\<rparr>))
      | None \<Rightarrow> (None, r(fp \<mapsto> \<lparr>sec_AgentID = agentID, sec_Password = pw, sec_UpdatedAt = now\<rparr>)))"

definition reg_Lookup :: "string \<Rightarrow> SecretRegistry \<Rightarrow> AgentSecret option" where "reg_Lookup fp r = r fp"

definition LookupByAgent :: "string list \<Rightarrow> string \<Rightarrow> SecretRegistry \<Rightarrow> AgentSecret option" where
  "LookupByAgent order agentID r = find (\<lambda>e. sec_AgentID e = agentID) (map (\<lambda>fp. the (r fp)) order)"

definition reg_Remove :: "string \<Rightarrow> SecretRegistry \<Rightarrow> SecretRegistry" where "reg_Remove fp r = r(fp := None)"

record AgentSecretEntry =
  ent_Fingerprint :: string
  ent_AgentID :: string
  ent_UpdatedAt :: time

definition ListEntries :: "string list \<Rightarrow> SecretRegistry \<Rightarrow> AgentSecretEntry list" where
  "ListEntries order r =
     map (\<lambda>fp. \<lparr>ent_Fingerprint = fp, ent_AgentID = sec_AgentID (the (r fp)), ent_UpdatedAt = sec_UpdatedAt (the (r fp))\<rparr>) order"

record codec =
  json_Marshal :: "SecretRegistry \<Rightarrow> bytes"
  json_Unmarshal :: "bytes \<Rightarrow> (string \<times> AgentSecret) list option option"

text \<open>What is documented of the package \<open>json\<close>, for a registry \<open>r\<close>: it is decoded to the members it was encoded
  from.\<close>

definition codec_reads :: "codec \<Rightarrow> SecretRegistry \<Rightarrow> bool" where
  "codec_reads J r \<longleftrightarrow>
     (case json_Unmarshal J (json_Marshal J r) of Some (Some kvs) \<Rightarrow> map_of kvs = r \<and> distinct (map fst kvs) | _ \<Rightarrow> False)"

definition demo_codec :: codec where
  "demo_codec = \<lparr>json_Marshal = (\<lambda>_. ''{}''), json_Unmarshal = (\<lambda>_. Some (Some []))\<rparr>"

definition reg_Marshal :: "codec \<Rightarrow> SecretRegistry \<Rightarrow> bytes" where "reg_Marshal J r = json_Marshal J r"

definition reg_Unmarshal :: "codec \<Rightarrow> bytes \<Rightarrow> sm_error + SecretRegistry" where
  "reg_Unmarshal J d =
     (case json_Unmarshal J d of
        None \<Rightarrow> Inl (EMsg ''registry unmarshal'')
      | Some None \<Rightarrow> Inl (EMsg ''registry unmarshal: null payload is not a registry'')
      | Some (Some kvs) \<Rightarrow>
          if list_ex (\<lambda>(fp, e). fp = [] \<or> sec_AgentID e = [] \<or> sec_Password e = []) kvs
          then Inl (EMsg ''registry unmarshal: invalid entry'')
          else Inr (map_of kvs))"

section \<open>The memory guard\<close>

record MemoryGuard =
  gd_data :: bytes
  gd_baseline :: bytes

definition NewMemoryGuard :: "crypto \<Rightarrow> bytes \<Rightarrow> MemoryGuard" where
  "NewMemoryGuard C plain = \<lparr>gd_data = plain, gd_baseline = Sum256 C plain\<rparr>"

definition IntegrityOK :: "crypto \<Rightarrow> MemoryGuard \<Rightarrow> bool" where
  "IntegrityOK C g \<longleftrightarrow> length (gd_baseline g) = 32 \<and> Sum256 C (gd_data g) = gd_baseline g"

definition gd_Replace :: "crypto \<Rightarrow> bytes \<Rightarrow> MemoryGuard \<Rightarrow> MemoryGuard" where
  "gd_Replace C plain g = g\<lparr>gd_data := plain, gd_baseline := Sum256 C plain\<rparr>"

section \<open>Lemmas\<close>

lemma parse_marker_bytes: "crypto_ok C \<Longrightarrow> parse_marker C (marker_bytes C m) = Inr m"
  by (cases m) (simp_all add: parse_marker_def marker_bytes_def mode_string_def markerHash_def crypto_ok_def Let_def)

lemma check_verifier_split:
  assumes "data = char_of (1::nat) # char_of (16::nat) # salt @ d" "length salt = 16" "length d = 48"
    and "read32 d = n" "read32 (drop 4 d) = r" "read32 (drop 8 d) = p" "read32 (drop 12 d) = 32"
  shows "check_verifier C data pw \<longleftrightarrow> isSupportedKDFParams n r p 32
    \<and> length (deriveKey C pw salt n r p 32) = 32 \<and> deriveKey C pw salt n r p 32 = drop 16 d"
proof -
  have "of_char (data ! 0) = (1::nat)" "of_char (data ! 1) = (16::nat)" "take 16 (drop 2 data) = salt"
    "drop 18 data = d" "length data = 66"
    using assms(1-3) by (simp_all add: of_char_of)
  moreover have "take 32 (drop 16 d) = drop 16 d" "length (drop 16 d) = 32" using assms(3) by simp_all
  ultimately show ?thesis using assms(4-7) unfolding check_verifier_def Let_def by auto
qed

lemma check_verifier_bytes:
  assumes "crypto_ok C" "length salt = 16"
  shows "check_verifier C (verifier_bytes C salt pw') pw \<longleftrightarrow> deriveKey C pw salt 2 65536 4 32 = deriveKey C pw' salt 2 65536 4 32"
proof -
  have len: "length (deriveKey C pw salt 2 65536 4 32) = 32" for pw
    using assms(1) by (simp add: crypto_ok_def deriveKey_def)
  let ?d = "be32 2 @ be32 65536 @ be32 4 @ be32 32 @ deriveKey C pw' salt 2 65536 4 32"
  have r: "read32 ?d = 2" "read32 (drop 4 ?d) = 65536" "read32 (drop 8 ?d) = 4" "read32 (drop 12 ?d) = 32"
    using read32_be32 [of 2] read32_be32 [of 65536] read32_be32 [of 4] read32_be32 [of 32] by simp_all
  have v: "verifier_bytes C salt pw' = char_of (1::nat) # char_of (16::nat) # salt @ ?d"
    using assms(2) by (simp add: verifier_bytes_def DefaultKDFParams_def)
  have "length ?d = 48" using len by simp
  from check_verifier_split [OF v assms(2) this r, of C pw] show ?thesis
    using len by (simp add: isSupportedKDFParams_def supportedKDFParams_def)
qed

definition reg_wf :: "SecretRegistry \<Rightarrow> bool" where
  "reg_wf r \<longleftrightarrow> (\<forall>fp e. r fp = Some e \<longrightarrow> fp \<noteq> [] \<and> sec_AgentID e \<noteq> [] \<and> sec_Password e \<noteq> [])"

lemma reg_wf_ops:
  "reg_wf NewSecretRegistry" "reg_wf r \<Longrightarrow> reg_wf (snd (reg_Register now fp a pw r))" "reg_wf r \<Longrightarrow> reg_wf (reg_Remove fp r)"
  by (auto simp: reg_wf_def NewSecretRegistry_def reg_Register_def reg_Remove_def split: option.splits)

lemma reg_Unmarshal_Marshal:
  assumes "codec_reads J r" "reg_wf r"
  shows "reg_Unmarshal J (reg_Marshal J r) = Inr r"
proof -
  obtain kvs where k: "json_Unmarshal J (json_Marshal J r) = Some (Some kvs)" "map_of kvs = r" "distinct (map fst kvs)"
    using assms(1) by (auto simp: codec_reads_def split: option.splits)
  have "\<not> list_ex (\<lambda>(fp, e). fp = [] \<or> sec_AgentID e = [] \<or> sec_Password e = []) kvs"
    using assms(2) k(2,3) by (auto simp: list_ex_iff reg_wf_def dest!: map_of_is_SomeI)
  then show ?thesis using k by (simp add: reg_Unmarshal_def reg_Marshal_def)
qed

datatype reg_op = RegRegister time string string string | RegRemove string

definition reg_step :: "reg_op \<Rightarrow> SecretRegistry \<Rightarrow> SecretRegistry" where
  "reg_step op r =
     (case op of RegRegister now fp a pw \<Rightarrow> snd (reg_Register now fp a pw r) | RegRemove fp \<Rightarrow> reg_Remove fp r)"

lemma reg_step_wf: "reg_wf r \<Longrightarrow> reg_wf (reg_step op r)"
  by (simp add: reg_step_def reg_wf_ops split: reg_op.splits)

lemma reg_Register_binding:
  "r fp = Some e \<Longrightarrow> \<exists>e'. snd (reg_Register now fp' a pw r) fp = Some e' \<and> sec_AgentID e' = sec_AgentID e"
  by (auto simp: reg_Register_def split: option.splits)

lemma touches_state [intro]:
  "p \<in> P \<Longrightarrow> p @ ''.tmp'' \<in> P \<Longrightarrow> touches P (WriteMarker C p m)"
  "p \<in> P \<Longrightarrow> p @ ''.tmp'' \<in> P \<Longrightarrow> touches P (pv_Set C p pw)"
  unfolding WriteMarker_def pv_Set_def
  by (auto intro!: touches_and_then touches_prims touches_atomic_replace)

section \<open>Properties\<close>

lemma reg_steps_binding:
  "r fp = Some e \<Longrightarrow> list_all (\<lambda>op. op \<noteq> RegRemove fp) ops \<Longrightarrow>
   \<exists>e'. fold reg_step ops r fp = Some e' \<and> sec_AgentID e' = sec_AgentID e"
proof (induction ops arbitrary: r e)
  case (Cons op ops)
  have "\<exists>e'. reg_step op r fp = Some e' \<and> sec_AgentID e' = sec_AgentID e"
    using Cons.prems reg_Register_binding [of r fp e, OF Cons.prems(1)]
    by (cases op) (auto simp: reg_step_def reg_Remove_def)
  then show ?case using Cons by fastforce
qed simp

text \<open>C8: One certificate, one identity. Whatever is registered and removed, no entry has an empty fingerprint,
  agent or password; a fingerprint keeps its agent until it is removed; and a registration under another agent is
  an error that changes nothing, while one under the same agent takes the new password.\<close>

theorem one_certificate_one_identity:
  assumes "r = fold reg_step before NewSecretRegistry" "r fp = Some e" "list_all (\<lambda>op. op \<noteq> RegRemove fp) after"
  shows "let r' = fold reg_step after r; agent = sec_AgentID e
         in reg_wf r'
            \<and> (case r' fp of None \<Rightarrow> False | Some e' \<Rightarrow> sec_AgentID e' = agent)
            \<and> (if a \<noteq> agent \<or> pw = [] then snd (reg_Register now fp a pw r') = r' \<and> fst (reg_Register now fp a pw r') \<noteq> None
               else reg_Register now fp a pw r' = (None, r'(fp \<mapsto> \<lparr>sec_AgentID = agent, sec_Password = pw, sec_UpdatedAt = now\<rparr>)))"
proof -
  have wf: "reg_wf (fold reg_step ops q)" if "reg_wf q" for ops q
    using that by (induction ops arbitrary: q) (simp_all add: reg_step_wf)
  let ?r = "fold reg_step after r"
  obtain e' where e': "?r fp = Some e'" "sec_AgentID e' = sec_AgentID e" using reg_steps_binding [of r fp e after] assms(2,3) by blast
  have "reg_wf ?r" unfolding assms(1) by (intro wf reg_wf_ops(1))
  then have "fp \<noteq> []" "sec_AgentID e \<noteq> []" using e' by (auto simp: reg_wf_def)
  then show ?thesis using e' \<open>reg_wf ?r\<close> by (auto simp: Let_def reg_Register_def intro!: AgentSecret.equality)
qed

lemma one_certificate_one_identity_witness:
  "let r' = fold reg_step [RegRegister 2 ''fp'' ''eve'' ''y'', RegRemove ''other'']
       (fold reg_step [RegRegister 1 ''fp'' ''ann'' ''x''] NewSecretRegistry)
   in r' ''fp'' = Some \<lparr>sec_AgentID = ''ann'', sec_Password = ''x'', sec_UpdatedAt = 1\<rparr>
      \<and> reg_Register 3 ''fp'' ''eve'' ''z'' r' = (Some ''one certificate, one identity'', r')"
  using one_certificate_one_identity [of "fold reg_step [RegRegister 1 ''fp'' ''ann'' ''x''] NewSecretRegistry"
      "[RegRegister 1 ''fp'' ''ann'' ''x'']" "''fp''" "\<lparr>sec_AgentID = ''ann'', sec_Password = ''x'', sec_UpdatedAt = 1\<rparr>"
      "[RegRegister 2 ''fp'' ''eve'' ''y'', RegRemove ''other'']" "''eve''" "''z''" 3]
  by (simp add: reg_step_def reg_Register_def reg_Remove_def NewSecretRegistry_def)

end
