(* ===== verification/Secure_Vault.thy ===== *)
theory Secure_Vault
  imports Secure_State
begin

text \<open>
  \<open>internal/securemode/vault.go\<close>: one protected configuration file, as plaintext or as \<open>.enc\<close>. Paths are
  joined as the code joins them; the directory calls (\<open>syncDir\<close>, \<open>os.ReadDir\<close>) consult the oracle like every
  other call. \<open>EncryptFile\<close> is cut at the rename into its preparation and its commit.
\<close>

record Vault =
  DataDir :: string
  ConfigPath :: string
  BootstrapHeader :: string

record vaultState =
  hasPlain :: bool
  hasEnc :: bool

definition encPath :: "Vault \<Rightarrow> string" where "encPath v = ConfigPath v @ ''.enc''"

definition newline :: char where "newline = CHR 0x0A"

definition blank_line :: string where "blank_line = [newline, newline]"

text \<open>One directory snapshot; an unreadable directory counts as holding neither file.\<close>

definition vault_State :: "Vault \<Rightarrow> host \<Rightarrow> vaultState \<times> host" where
  "vault_State v s =
     (case tick s of
        (Works, s') \<Rightarrow> (\<lparr>hasPlain = (disk s' (ConfigPath v) \<noteq> None), hasEnc = (disk s' (encPath v) \<noteq> None)\<rparr>, s')
      | (_, s') \<Rightarrow> (\<lparr>hasPlain = False, hasEnc = False\<rparr>, s'))"

definition HasPlaintext :: "Vault \<Rightarrow> host \<Rightarrow> bool \<times> host" where
  "HasPlaintext v s = (let (st, s') = vault_State v s in (hasPlain st, s'))"

definition IsEncrypted :: "Vault \<Rightarrow> host \<Rightarrow> bool \<times> host" where
  "IsEncrypted v s = (let (st, s') = vault_State v s in (hasEnc st, s'))"

definition Classify :: "Vault \<Rightarrow> host \<Rightarrow> string \<times> host" where
  "Classify v s =
     (let (st, s') = vault_State v s
      in (if hasPlain st \<and> hasEnc st then ''residue'' else if hasPlain st then ''default''
          else if hasEnc st then ''run'' else ''none'', s'))"

section \<open>The payload\<close>

definition splitBootstrap :: "Vault \<Rightarrow> string \<Rightarrow> string \<times> string \<times> bool" where
  "splitBootstrap v content =
     (if BootstrapHeader v = [] then ([], content, False)
      else case str_index (BootstrapHeader v) content of
        None \<Rightarrow> ([], content, False)
      | Some idx \<Rightarrow>
          (case str_index blank_line (drop idx content) of
             None \<Rightarrow> (content, [], True)
           | Some blank \<Rightarrow> (take (idx + blank) content, drop (idx + blank + 2) content, True)))"

definition EncryptContent :: "crypto \<Rightarrow> Vault \<Rightarrow> string \<Rightarrow> bytes \<Rightarrow> bytes io" where
  "EncryptContent C v password content =
     (let (bootstrap, rest, ok) = splitBootstrap v content
      in if ok \<and> BootstrapHeader v \<noteq> []
         then and_then (Encrypt C rest password) (\<lambda>encRest. ret (bootstrap @ blank_line @ encRest))
         else Encrypt C content password)"

definition reassemble :: "string \<Rightarrow> string \<Rightarrow> string" where
  "reassemble bootstrap rest = (if bootstrap = [] then rest else bootstrap @ blank_line @ rest)"

definition split_payload :: "Vault \<Rightarrow> bytes \<Rightarrow> string \<times> bytes" where
  "split_payload v payload =
     (if BootstrapHeader v = [] then ([], payload)
      else case str_index (BootstrapHeader v) payload of
        None \<Rightarrow> ([], payload)
      | Some idx \<Rightarrow>
          (case str_index blank_line (drop idx payload) of
             None \<Rightarrow> ([], payload)
           | Some blank \<Rightarrow> (take (idx + blank) payload, drop (idx + blank + 2) payload)))"

definition decryptPayload :: "crypto \<Rightarrow> Vault \<Rightarrow> bytes \<Rightarrow> string \<Rightarrow> sm_error + string" where
  "decryptPayload C v payload password =
     (let (bootstrap, raw) = split_payload v payload
      in case Decrypt C raw password of Inl e \<Rightarrow> Inl e | Inr plain \<Rightarrow> Inr (reassemble bootstrap plain))"

section \<open>Conversions\<close>

text \<open>Stages 1 and 2 of \<open>EncryptFile\<close>: read, encrypt into the temporary file, decrypt it again and compare.\<close>

definition encrypt_prepare :: "crypto \<Rightarrow> Vault \<Rightarrow> string \<Rightarrow> unit io" where
  "encrypt_prepare C v password =
     (let tmp = encPath v @ ''.tmp''
      in and_then (syncFile (ConfigPath v)) (\<lambda>_.
         and_then (os_ReadFile (ConfigPath v)) (\<lambda>plain.
         and_then (EncryptContent C v password plain) (\<lambda>payload.
         and_then (writeFile0600 tmp payload) (\<lambda>_.
         and_then (or_else (syncFile tmp) (os_Remove tmp)) (\<lambda>_.
         and_then (or_else (from_sum (decryptPayload C v payload password)) (os_Remove tmp)) (\<lambda>ver.
         if ver \<noteq> plain
         then or_else (raise (EMsg ''verification mismatch: encrypted output does not round-trip'')) (os_Remove tmp)
         else ret ())))))))"

text \<open>Stage 3: \<open>to\<close> is durable before \<open>gone\<close> is removed. \<open>DecryptFile\<close> ends with the same sequence.\<close>

definition convert_commit :: "string \<Rightarrow> string \<Rightarrow> string \<Rightarrow> unit io" where
  "convert_commit tmp to gone =
     and_then (or_else (os_Rename tmp to) (os_Remove tmp)) (\<lambda>_.
     and_then syncDir (\<lambda>_.
     and_then (os_Remove gone) (\<lambda>_.
     syncDir)))"

definition EncryptFile :: "crypto \<Rightarrow> Vault \<Rightarrow> string \<Rightarrow> unit io" where
  "EncryptFile C v password =
     and_then (encrypt_prepare C v password) (\<lambda>_. convert_commit (encPath v @ ''.tmp'') (encPath v) (ConfigPath v))"

definition decrypt_prepare :: "crypto \<Rightarrow> Vault \<Rightarrow> string \<Rightarrow> unit io" where
  "decrypt_prepare C v password =
     (let tmp = ConfigPath v @ ''.tmp''
      in and_then (os_ReadFile (encPath v)) (\<lambda>enc.
         and_then (from_sum (decryptPayload C v enc password)) (\<lambda>content.
         and_then (os_WriteFile tmp content) (\<lambda>_.
         or_else (syncFile tmp) (os_Remove tmp)))))"

definition DecryptFile :: "crypto \<Rightarrow> Vault \<Rightarrow> string \<Rightarrow> unit io" where
  "DecryptFile C v password =
     and_then (decrypt_prepare C v password) (\<lambda>_. convert_commit (ConfigPath v @ ''.tmp'') (ConfigPath v) (encPath v))"

definition LoadPlaintext :: "Vault \<Rightarrow> string io" where
  "LoadPlaintext v = os_ReadFile (ConfigPath v)"

definition LoadCiphertext :: "crypto \<Rightarrow> Vault \<Rightarrow> string \<Rightarrow> string io" where
  "LoadCiphertext C v password =
     and_then (os_ReadFile (encPath v)) (\<lambda>enc. from_sum (decryptPayload C v enc password))"

definition bootstrap_of :: "Vault \<Rightarrow> bytes \<Rightarrow> string" where
  "bootstrap_of v enc =
     (case str_index (BootstrapHeader v) enc of
        None \<Rightarrow> []
      | Some idx \<Rightarrow>
          (case str_index blank_line (drop idx enc) of
             Some blank \<Rightarrow> take blank (drop idx enc)
           | None \<Rightarrow> drop idx enc))"

definition ReadBootstrap :: "Vault \<Rightarrow> string io" where
  "ReadBootstrap v =
     (if BootstrapHeader v = [] then ret [] else and_then (os_ReadFile (encPath v)) (\<lambda>enc. ret (bootstrap_of v enc)))"

definition ReencryptOverwrite :: "crypto \<Rightarrow> Vault \<Rightarrow> string \<Rightarrow> bytes \<Rightarrow> unit io" where
  "ReencryptOverwrite C v password content =
     and_then (EncryptContent C v password content) (\<lambda>payload. atomic_replace (encPath v) payload)"

definition RotatePassword :: "crypto \<Rightarrow> Vault \<Rightarrow> string \<Rightarrow> string \<Rightarrow> unit io" where
  "RotatePassword C v oldPassword newPassword =
     and_then (os_ReadFile (encPath v)) (\<lambda>enc.
     and_then (from_sum (decryptPayload C v enc oldPassword)) (\<lambda>plain.
     and_then (EncryptContent C v newPassword plain) (\<lambda>payload.
     atomic_replace (encPath v) payload)))"

section \<open>Lemmas\<close>

lemma vault_paths [simp]:
  "encPath v \<noteq> ConfigPath v" "ConfigPath v \<noteq> encPath v" "encPath v @ ''.tmp'' \<noteq> ConfigPath v"
  "ConfigPath v \<noteq> encPath v @ ''.tmp''" "encPath v \<noteq> ConfigPath v @ ''.tmp''" "ConfigPath v @ ''.tmp'' \<noteq> encPath v"
  by (auto simp: encPath_def)

lemma touches_Encrypt [intro]: "touches P (Encrypt C m pw)"
  unfolding Encrypt_def DefaultKDFParams_def Let_def
  by (auto intro!: touches_and_then touches_prims)

lemma touches_EncryptContent [intro]: "touches P (EncryptContent C v pw m)"
  unfolding EncryptContent_def
  by (auto intro!: touches_and_then touches_prims touches_Encrypt split: prod.splits)

lemma touches_encrypt_prepare: "touches {encPath v @ ''.tmp''} (encrypt_prepare C v pw)"
  unfolding encrypt_prepare_def Let_def
  by (intro touches_and_then touches_or_else touches_prims touches_syncFile touches_writeFile touches_EncryptContent)
    (auto intro!: touches_or_else touches_prims)

lemma touches_decrypt_prepare: "touches {ConfigPath v @ ''.tmp''} (decrypt_prepare C v pw)"
  unfolding decrypt_prepare_def Let_def
  by (intro touches_and_then touches_or_else touches_prims touches_syncFile) auto

lemma touches_convert_commit: "{tmp, to, gone} \<subseteq> P \<Longrightarrow> touches P (convert_commit tmp to gone)"
  unfolding convert_commit_def
  by (intro touches_and_then touches_or_else touches_prims) auto

lemma EncryptContent_disk: "EncryptContent C v pw m s = (r, s') \<Longrightarrow> disk s' = disk s"
  using touchesD [OF touches_EncryptContent [of "{}" C v pw m], of _ s] by auto

lemma encrypt_prepare_Inr:
  assumes "encrypt_prepare C v pw s = (Inr u, s')"
  obtains m p where "disk s (ConfigPath v) = Some m" "disk s' = (disk s)(encPath v @ ''.tmp'' \<mapsto> p)"
    "decryptPayload C v p pw = Inr m" "\<exists>s1 s2. EncryptContent C v pw m s1 = (Inr p, s2)"
proof -
  let ?t = "encPath v @ ''.tmp''"
  from assms obtain u0 s1 m s2 p s3 u1 s4 u2 s5 where
    st: "syncFile (ConfigPath v) s = (Inr u0, s1)" "os_ReadFile (ConfigPath v) s1 = (Inr m, s2)"
      "EncryptContent C v pw m s2 = (Inr p, s3)" "writeFile0600 ?t p s3 = (Inr u1, s4)" "syncFile ?t s4 = (Inr u2, s5)"
      "decryptPayload C v p pw = Inr m" "s' = s5"
    by (auto simp: encrypt_prepare_def Let_def io_inr raise_def split: if_splits)
  have "disk s1 = disk s" "disk s1 (ConfigPath v) = Some m" "disk s2 = disk s1" "disk s3 = disk s2"
    "disk s4 = (disk s3)(?t \<mapsto> p)" "disk s5 = disk s4"
    using syncFile_Inr [OF st(1)] os_ReadFile_Inr [OF st(2)] EncryptContent_disk [OF st(3)] writeFile_Inr [OF st(4)]
      syncFile_Inr [OF st(5)] by auto
  then show thesis using st(3,6,7) by (intro that [of m p]) auto
qed

lemma decrypt_prepare_Inr:
  assumes "decrypt_prepare C v pw s = (Inr u, s')"
  obtains e m where "disk s (encPath v) = Some e" "disk s' = (disk s)(ConfigPath v @ ''.tmp'' \<mapsto> m)"
    "decryptPayload C v e pw = Inr m"
  using assms
  by (auto simp: decrypt_prepare_def Let_def io_inr dest!: syncFile_Inr os_ReadFile_Inr os_WriteFile_Inr)

text \<open>The commit from a temporary file holding \<open>d\<close>: the old file goes only once the new one is in place.\<close>

lemma convert_commit_cases:
  assumes "convert_commit tmp to gone s = (r, s')" "disk s tmp = Some d" "distinct [tmp, to, gone]"
  shows "(disk s' to = disk s to \<and> disk s' gone = disk s gone \<and> r \<noteq> Inr ())
       \<or> (disk s' to = Some d \<and> disk s' gone = disk s gone \<and> r \<noteq> Inr ())
       \<or> (disk s' to = Some d \<and> disk s' gone = None)"
proof -
  obtain r1 s1 where ren: "os_Rename tmp to s = (r1, s1)" by fastforce
  note rc = os_Rename_cases [OF ren]
  show ?thesis
  proof (cases r1)
    case (Inl e)
    obtain r2 s2 where rm: "os_Remove tmp s1 = (r2, s2)" by fastforce
    have "s' = s2" "r \<noteq> Inr ()" using assms(1) ren rm Inl by (auto simp: convert_commit_def and_then_def or_else_def)
    moreover have "disk s2 to = disk s1 to \<and> disk s2 gone = disk s1 gone"
      using os_Remove_cases [OF rm] assms(3) by (auto split: sum.splits)
    ultimately show ?thesis using rc Inl by simp
  next
    case (Inr u)
    then have d1: "disk s1 to = Some d" "disk s1 gone = disk s gone" using rc assms(2,3) by auto
    obtain r2 s2 where sd: "syncDir s1 = (r2, s2)" by fastforce
    have d2: "disk s2 = disk s1" using touchesD [OF touches_prims(7) [of "{}"], of _ s1] sd by auto
    show ?thesis
    proof (cases r2)
      case (Inl e)
      then show ?thesis using assms(1) ren Inr sd d1 d2 by (auto simp: convert_commit_def and_then_def or_else_def)
    next
      case inr2: (Inr u2)
      obtain r3 s3 where rm: "os_Remove gone s2 = (r3, s3)" by fastforce
      note d3 = os_Remove_cases [OF rm]
      obtain r4 s4 where sd4: "syncDir s3 = (r4, s4)" by fastforce
      have d4: "disk s4 = disk s3" using touchesD [OF touches_prims(7) [of "{}"], of _ s3] sd4 by auto
      have "(r3 = Inr () \<and> r = r4 \<and> s' = s4) \<or> ((\<exists>e. r3 = Inl e) \<and> s' = s3 \<and> r \<noteq> Inr ())"
        using assms(1) ren Inr sd inr2 rm sd4
        by (cases r3) (auto simp: convert_commit_def and_then_def or_else_def)
      then show ?thesis using d1 d2 d3 d4 assms(3) by auto
    qed
  qed
qed

lemma EncryptFile_cases:
  assumes "EncryptFile C v pw s = (r, s')"
  shows "(disk s' (ConfigPath v) = disk s (ConfigPath v) \<and> r \<noteq> Inr ()
      \<and> (disk s' (encPath v) = disk s (encPath v)
          \<or> (\<exists>m p. disk s (ConfigPath v) = Some m \<and> disk s' (encPath v) = Some p \<and> decryptPayload C v p pw = Inr m)))
    \<or> (disk s' (ConfigPath v) = None
        \<and> (\<exists>m p. disk s (ConfigPath v) = Some m \<and> disk s' (encPath v) = Some p \<and> decryptPayload C v p pw = Inr m))"
proof -
  let ?t = "encPath v @ ''.tmp''"
  obtain r1 s1 where pre: "encrypt_prepare C v pw s = (r1, s1)" by fastforce
  show ?thesis
  proof (cases r1)
    case (Inl e)
    then have "s' = s1" "r \<noteq> Inr ()" using assms pre by (auto simp: EncryptFile_def and_then_def)
    moreover have "disk s1 (ConfigPath v) = disk s (ConfigPath v)" "disk s1 (encPath v) = disk s (encPath v)"
      using touchesD [OF touches_encrypt_prepare [of v C pw], of _ s] pre by auto
    ultimately show ?thesis by simp
  next
    case (Inr u)
    then obtain m p where mp: "disk s (ConfigPath v) = Some m" "disk s1 = (disk s)(?t \<mapsto> p)" "decryptPayload C v p pw = Inr m"
      using pre by (auto elim!: encrypt_prepare_Inr)
    have "convert_commit ?t (encPath v) (ConfigPath v) s1 = (r, s')"
      using assms pre Inr by (simp add: EncryptFile_def and_then_def)
    from convert_commit_cases [OF this, of p] mp show ?thesis by auto
  qed
qed

lemma EncryptFile_Inr:
  assumes "EncryptFile C v pw s = (Inr (), s')"
  shows "disk s' (ConfigPath v) = None
    \<and> (\<exists>m p. disk s (ConfigPath v) = Some m \<and> disk s' (encPath v) = Some p \<and> decryptPayload C v p pw = Inr m)"
  using EncryptFile_cases [OF assms] by auto

lemma DecryptFile_cases:
  assumes "DecryptFile C v pw s = (r, s')"
  shows "(disk s' (ConfigPath v) = disk s (ConfigPath v) \<and> disk s' (encPath v) = disk s (encPath v) \<and> r \<noteq> Inr ())
    \<or> (\<exists>e m. disk s (encPath v) = Some e \<and> decryptPayload C v e pw = Inr m \<and> disk s' (ConfigPath v) = Some m
        \<and> (disk s' (encPath v) = Some e \<and> r \<noteq> Inr () \<or> disk s' (encPath v) = None))"
proof -
  let ?t = "ConfigPath v @ ''.tmp''"
  obtain r1 s1 where pre: "decrypt_prepare C v pw s = (r1, s1)" by fastforce
  show ?thesis
  proof (cases r1)
    case (Inl e)
    then have "s' = s1" "r \<noteq> Inr ()" using assms pre by (auto simp: DecryptFile_def and_then_def)
    moreover have "disk s1 (ConfigPath v) = disk s (ConfigPath v)" "disk s1 (encPath v) = disk s (encPath v)"
      using touchesD [OF touches_decrypt_prepare [of v C pw], of _ s] pre by auto
    ultimately show ?thesis by simp
  next
    case (Inr u)
    then obtain e m where em: "disk s (encPath v) = Some e" "disk s1 = (disk s)(?t \<mapsto> m)" "decryptPayload C v e pw = Inr m"
      using decrypt_prepare_Inr pre by metis
    have "convert_commit ?t (ConfigPath v) (encPath v) s1 = (r, s')"
      using assms pre Inr by (simp add: DecryptFile_def and_then_def)
    from convert_commit_cases [OF this, of m] em show ?thesis by auto
  qed
qed

lemma DecryptFile_Inr:
  assumes "DecryptFile C v pw s = (Inr (), s')"
  shows "\<exists>e m. disk s (encPath v) = Some e \<and> decryptPayload C v e pw = Inr m \<and> disk s' (ConfigPath v) = Some m
    \<and> disk s' (encPath v) = None"
  using DecryptFile_cases [OF assms] by auto

lemma wrong_password_changes_nothing:
  assumes "DecryptFile C v pw s = (r, s')" "disk s (encPath v) = Some e" "decryptPayload C v e pw = Inl err"
  shows "disk s' = disk s \<and> (\<exists>x. r = Inl x)"
proof -
  obtain r1 s1 where rd: "os_ReadFile (encPath v) s = (r1, s1)" by fastforce
  have "disk s1 = disk s" using touchesD [OF touches_prims(4) [of "{}" "encPath v"], of _ s] rd by auto
  moreover have "s' = s1 \<and> (\<exists>x. r = Inl x)"
  proof (cases r1)
    case (Inl x)
    then show ?thesis using assms(1) rd by (auto simp: DecryptFile_def decrypt_prepare_def and_then_def Let_def)
  next
    case (Inr d)
    then have "d = e" using os_ReadFile_Inr [of "encPath v" s d s1] rd assms(2) by simp
    then show ?thesis using assms(1,3) rd Inr
      by (auto simp: DecryptFile_def decrypt_prepare_def and_then_def from_sum_def Let_def)
  qed
  ultimately show ?thesis by simp
qed

text \<open>The split of a payload at its blank line only depends on the part up to that line.\<close>

lemma str_index_front:
  assumes "str_index pat (a @ b) = Some i" "i + length pat \<le> length a"
  shows "str_index pat (a @ b') = Some i"
proof (rule str_index_SomeI)
  have "prefix pat (drop i a @ drop (i - length a) b)" using str_index_prefix [OF assms(1)] by simp
  then have "prefix pat (drop i a)"
    by (rule prefix_length_prefix) (use assms(2) in auto)
  then show "prefix pat (drop i (a @ b'))" by simp
  show "\<forall>j<i. \<not> prefix pat (drop j (a @ b'))"
  proof (intro allI impI notI)
    fix j assume "j < i" "prefix pat (drop j (a @ b'))"
    then have "prefix pat (drop j a @ drop (j - length a) b')" by simp
    then have "prefix pat (drop j a)" by (rule prefix_length_prefix) (use assms(2) \<open>j < i\<close> in auto)
    then have "prefix pat (drop j (a @ b))" by simp
    then show False using str_index_least [OF assms(1) \<open>j < i\<close>] by simp
  qed
qed (use assms(2) in simp)

lemma str_index_NoneD: "str_index pat s = None \<Longrightarrow> j \<le> length s \<Longrightarrow> \<not> prefix pat (drop j s)"
proof
  assume a: "str_index pat s = None" "j \<le> length s" "prefix pat (drop j s)"
  define i where "i = (LEAST i. prefix pat (drop i s))"
  have "prefix pat (drop i s)" "i \<le> j" using a(3) unfolding i_def by (auto intro: LeastI Least_le)
  moreover have "\<forall>k<i. \<not> prefix pat (drop k s)" unfolding i_def using not_less_Least by blast
  ultimately show False using str_index_SomeI [of pat i s] a(1,2) by simp
qed

text \<open>What is assumed of the configured header (\<open>[bootstrap]\<close> in the program): not empty, no blank line in it, no
  newline in front.\<close>

definition header_ok :: "Vault \<Rightarrow> bool" where
  "header_ok v \<longleftrightarrow> BootstrapHeader v \<noteq> [] \<and> hd (BootstrapHeader v) \<noteq> newline \<and> str_index blank_line (BootstrapHeader v) = None"

lemma header_start:
  assumes "header_ok v" "prefix (BootstrapHeader v) t"
  shows "t \<noteq> [] \<and> hd t \<noteq> newline"
  using assms by (cases "BootstrapHeader v") (auto simp: header_ok_def prefix_def)

lemma split_found:
  assumes hd: "header_ok v" and i: "str_index (BootstrapHeader v) content = Some i"
    and k: "str_index blank_line (drop i content) = Some k"
  defines "b \<equiv> take (i + k) content" and "rest \<equiv> drop (i + k + 2) content"
  shows "splitBootstrap v content = (b, rest, True)" "content = b @ blank_line @ rest" "b \<noteq> []"
    "split_payload v (b @ blank_line @ e) = (b, e)" "bootstrap_of v (b @ blank_line @ e) = drop i b"
proof -
  have pre: "prefix (BootstrapHeader v) (drop i content)" by (rule str_index_prefix [OF i])
  have bl: "length blank_line = 2" by (simp add: blank_line_def)
  have le: "i + k + 2 \<le> length content" using str_index_bound [OF k] str_index_bound [OF i] bl by simp
  show sb: "splitBootstrap v content = (b, rest, True)"
    using hd i k by (simp add: splitBootstrap_def header_ok_def b_def rest_def)
  have "drop i content = take k (drop i content) @ blank_line @ drop (k + 2) (drop i content)"
    using str_index_split [OF k] bl by simp
  then have "take i content @ drop i content = take i content @ take k (drop i content) @ blank_line @ rest"
    by (simp add: rest_def add.commute add.left_commute)
  then show eq: "content = b @ blank_line @ rest"
    by (simp add: b_def take_add)
  show "b \<noteq> []"
  proof
    assume "b = []"
    then have "i + k = 0" using le by (auto simp: b_def)
    then show False using header_start [OF hd pre] str_index_prefix [OF k] by (auto simp: blank_line_def prefix_def)
  qed
  have "length (BootstrapHeader v) \<le> k + 2"
  proof (rule ccontr)
    assume n: "\<not> length (BootstrapHeader v) \<le> k + 2"
    obtain z where z: "drop i content = BootstrapHeader v @ z" using pre by (auto simp: prefix_def)
    then have "prefix blank_line (drop k (BootstrapHeader v) @ z)" using str_index_prefix [OF k] n by simp
    then have "prefix blank_line (drop k (BootstrapHeader v))" by (rule prefix_length_prefix) (use n bl in auto)
    then show False using str_index_NoneD [of blank_line "BootstrapHeader v" k] hd n by (simp add: header_ok_def)
  qed
  moreover have lb: "length b = i + k" using le by (simp add: b_def)
  ultimately have fit: "i + length (BootstrapHeader v) \<le> length (b @ blank_line)" using bl by simp
  have "str_index (BootstrapHeader v) ((b @ blank_line) @ rest) = Some i" using i unfolding append.assoc eq [symmetric] .
  from str_index_front [OF this fit]
  have hi: "str_index (BootstrapHeader v) (b @ blank_line @ e) = Some i" by simp
  have "drop i (b @ blank_line @ rest) = (drop i b @ blank_line) @ rest" using lb by simp
  then have "str_index blank_line ((drop i b @ blank_line) @ rest) = Some k" using k unfolding eq [symmetric] by simp
  then have "str_index blank_line ((drop i b @ blank_line) @ e) = Some k"
    by (rule str_index_front) (use lb bl in simp)
  then show "split_payload v (b @ blank_line @ e) = (b, e)" "bootstrap_of v (b @ blank_line @ e) = drop i b"
    using hd lb bl hi by (simp_all add: split_payload_def bootstrap_of_def header_ok_def)
qed

text \<open>A header without a blank line after it: whatever the encrypted part, the payload never reads back as the
  content.\<close>

lemma open_header_never_reads_back:
  assumes hd: "header_ok v" and i: "str_index (BootstrapHeader v) content = Some i"
    and k: "str_index blank_line (drop i content) = None"
  shows "splitBootstrap v content = (content, [], True)" "decryptPayload C v (content @ blank_line @ e) pw \<noteq> Inr content"
proof -
  have bl: "length blank_line = 2" by (simp add: blank_line_def)
  show "splitBootstrap v content = (content, [], True)" using assms by (simp add: splitBootstrap_def header_ok_def)
  have il: "i + length (BootstrapHeader v) \<le> length content" by (rule str_index_bound [OF i])
  have ip: "str_index (BootstrapHeader v) (content @ blank_line @ e) = Some i"
    using i il str_index_front [of "BootstrapHeader v" content "[]" i "blank_line @ e"] by simp
  let ?d = "drop i content"
  have dr: "drop i (content @ blank_line @ e) = ?d @ blank_line @ e" using il by simp
  have "prefix blank_line (drop (length ?d) (?d @ blank_line @ e))" by simp
  then obtain j where j: "str_index blank_line (?d @ blank_line @ e) = Some j"
    using str_index_NoneD [of blank_line "?d @ blank_line @ e" "length ?d"] by (cases "str_index blank_line (?d @ blank_line @ e)") auto
  have "\<not> length ?d < j" using str_index_least [OF j, of "length ?d"] by auto
  moreover have "\<not> j + 2 \<le> length ?d"
  proof
    assume a: "j + 2 \<le> length ?d"
    then have "str_index blank_line (?d @ []) = Some j" using str_index_front [OF j, of "[]"] bl by simp
    then show False using k by simp
  qed
  ultimately have jb: "j \<le> length content - i" "length content < i + j + 2" by auto
  have sp: "split_payload v (content @ blank_line @ e) = (take (i + j) content, drop (i + j + 2) (content @ blank_line @ e))"
    using hd ip j dr jb il by (simp add: split_payload_def header_ok_def)
  have "take (i + j) content \<noteq> []"
  proof
    assume "take (i + j) content = []"
    then have z: "i = 0" "j = 0" using header_start [OF hd str_index_prefix [OF i]] by auto
    then have "hd (content @ blank_line @ e) = newline" using str_index_prefix [OF j] dr
      by (auto simp: blank_line_def prefix_def)
    then show False using header_start [OF hd str_index_prefix [OF i]] z by simp
  qed
  moreover have "length (take (i + j) content) = i + j" using jb(1) il by simp
  ultimately show "decryptPayload C v (content @ blank_line @ e) pw \<noteq> Inr content"
    using sp jb(2) bl by (auto simp: decryptPayload_def reassemble_def dest!: arg_cong [of _ _ length] split: sum.splits)
qed

lemma EncryptContent_open_header:
  assumes "header_ok v" "str_index (BootstrapHeader v) content = Some i" "str_index blank_line (drop i content) = None"
    and "EncryptContent C v pw content s = (Inr p, s')"
  shows "decryptPayload C v p pw' \<noteq> Inr content"
proof -
  from assms(4) obtain e where "p = content @ blank_line @ e"
    using open_header_never_reads_back(1) [OF assms(1-3)] assms(1)
    by (auto simp: EncryptContent_def header_ok_def io_inr)
  then show ?thesis using open_header_never_reads_back(2) [OF assms(1-3)] by simp
qed

lemma EncryptFile_open_header:
  assumes "header_ok v" "disk s (ConfigPath v) = Some content"
    and "str_index (BootstrapHeader v) content = Some i" "str_index blank_line (drop i content) = None"
    and "EncryptFile C v pw s = (r, s')"
  shows "(\<exists>e. r = Inl e) \<and> (\<forall>q. q \<noteq> encPath v @ ''.tmp'' \<longrightarrow> disk s' q = disk s q)"
proof -
  obtain r1 s1 where pre: "encrypt_prepare C v pw s = (r1, s1)" by fastforce
  show ?thesis
  proof (cases r1)
    case (Inr u)
    from encrypt_prepare_Inr [of C v pw s u s1] pre Inr obtain m p s2 s3
      where "disk s (ConfigPath v) = Some m" "decryptPayload C v p pw = Inr m" "EncryptContent C v pw m s2 = (Inr p, s3)"
      by metis
    then show ?thesis using EncryptContent_open_header [OF assms(1,3,4)] assms(2) by simp
  next
    case (Inl e)
    then have "r = Inl e" "s' = s1" using assms(5) pre by (auto simp: EncryptFile_def and_then_def)
    then show ?thesis using touchesD [OF touches_encrypt_prepare [of v C pw], of _ s] pre by auto
  qed
qed

lemma ReencryptOverwrite_cases:
  assumes "ReencryptOverwrite C v pw content s = (r, s')"
  shows "(r \<noteq> Inr () \<and> disk s' (encPath v) = disk s (encPath v))
    \<or> (\<exists>p s1. EncryptContent C v pw content s = (Inr p, s1) \<and> disk s' (encPath v) = Some p)"
proof -
  obtain r1 s1 where ec: "EncryptContent C v pw content s = (r1, s1)" by fastforce
  note d = EncryptContent_disk [OF ec]
  show ?thesis
  proof (cases r1)
    case (Inl e)
    then show ?thesis using assms ec d by (auto simp: ReencryptOverwrite_def and_then_def)
  next
    case (Inr p)
    then have "atomic_replace (encPath v) p s1 = (r, s')" using assms ec by (simp add: ReencryptOverwrite_def and_then_def)
    from atomic_replace_cases [OF this] show ?thesis using ec Inr d by auto
  qed
qed

section \<open>Conversions on a calm host\<close>

lemma calm_rand_ok: "calm s \<Longrightarrow> rand_ok s"
  by (auto simp: calm_def rand_ok_def dest!: spec split: option.splits)

lemma yields_Encrypt:
  assumes "crypto_ok C" "calm s" "disk s = d"
  shows "\<exists>e. yields (Encrypt C m pw) s e d"
proof -
  have key: "length (deriveKey C p salt n r q k) = k" for p salt n r q k
    using assms(1) by (simp add: crypto_ok_def deriveKey_def)
  obtain salt where salt: "length salt = 16" "yields (randomBytes 16) s salt d" using yields_randomBytes [OF assms(2,3)] by blast
  obtain s1 where s1: "randomBytes 16 s = (Inr salt, s1)" "disk s1 = d" "calm s1" using yieldsD [OF salt(2)] by blast
  obtain dek where dek: "length dek = 32" "yields (randomBytes 32) s1 dek d" using yields_randomBytes [OF s1(3,2)] by blast
  obtain s2 where s2: "randomBytes 32 s1 = (Inr dek, s2)" "disk s2 = d" "calm s2" using yieldsD [OF dek(2)] by blast
  obtain en where en: "length en = nonceSize" "yields (randomBytes nonceSize) s2 en d" using yields_randomBytes [OF s2(3,2)] by blast
  obtain s3 where s3: "randomBytes nonceSize s2 = (Inr en, s3)" "disk s3 = d" "calm s3" using yieldsD [OF en(2)] by blast
  obtain pn where pn: "length pn = nonceSize" "yields (randomBytes nonceSize) s3 pn d" using yields_randomBytes [OF s3(3,2)] by blast
  obtain s4 where s4: "randomBytes nonceSize s3 = (Inr pn, s4)" "disk s4 = d" "calm s4" using yieldsD [OF pn(2)] by blast
  let ?kek = "deriveKey C pw salt 2 65536 4 32"
  have "length (Seal C ?kek en dek) = 48" using assms(1) key dek(1) en(1) by (simp add: crypto_ok_def)
  then have "\<exists>e. Encrypt C m pw s = (Inr e, s4)"
    using salt(1) dek(1) en(1) key s1(1) s2(1) s3(1) s4(1)
    by (simp add: Encrypt_def DefaultKDFParams_def and_then_def cipher_key_ok_def marshalHeader_def nonceSize_def
        from_sum_def ret_def Let_def)
  then show ?thesis using s4(2,3) by (auto simp: yields_def)
qed

text \<open>A configuration \<open>EncryptFile\<close> accepts: a header, a blank line after it, and room for the envelope.\<close>

definition protectable :: "Vault \<Rightarrow> string \<Rightarrow> bool" where
  "protectable v m \<longleftrightarrow> header_ok v \<and> length m + 133 \<le> MaxConfigSize
     \<and> (case str_index (BootstrapHeader v) m of None \<Rightarrow> False | Some i \<Rightarrow> str_index blank_line (drop i m) \<noteq> None)"

lemma protectable_payload:
  assumes "crypto_ok C" "protectable v m" "rand_ok s" "EncryptContent C v pw m s = (Inr p, s')"
  shows "decryptPayload C v p pw = Inr m"
proof -
  from assms(2) obtain i k where i: "str_index (BootstrapHeader v) m = Some i" "str_index blank_line (drop i m) = Some k"
    and h: "header_ok v" and len: "length m + 133 \<le> MaxConfigSize"
    by (auto simp: protectable_def split: option.splits)
  let ?b = "take (i + k) m" and ?r = "drop (i + k + 2) m"
  note f = split_found [OF h i]
  obtain e where e: "Encrypt C ?r pw s = (Inr e, s')" "p = ?b @ blank_line @ e"
    using h assms(4) f(1) by (auto simp: EncryptContent_def header_ok_def io_inr)
  have "length e \<le> MaxConfigSize" using Decrypt_Encrypt [OF assms(1,3) e(1)] len by simp
  then have "Decrypt C e pw = Inr ?r" using Decrypt_Encrypt [OF assms(1,3) e(1)] by simp
  moreover have "split_payload v p = (?b, e)" unfolding e(2) by (rule f(4))
  ultimately have "decryptPayload C v p pw = Inr (reassemble ?b ?r)" by (simp add: decryptPayload_def)
  also have "reassemble ?b ?r = m" unfolding reassemble_def using f(3) f(2) [symmetric] by (simp only: if_False)
  finally show ?thesis .
qed

lemma yields_EncryptContent:
  assumes "crypto_ok C" "calm s" "disk s = d"
  shows "\<exists>p. yields (EncryptContent C v pw m) s p d"
proof -
  obtain b r ok where sb: "splitBootstrap v m = (b, r, ok)" using prod_cases3 by blast
  obtain e where e: "yields (Encrypt C r pw) s e d" using yields_Encrypt [OF assms] by blast
  have "yields (and_then (Encrypt C r pw) (\<lambda>e. ret (b @ blank_line @ e))) s (b @ blank_line @ e) d"
    by (rule yields_and_then [OF e], rule yields_prims(1))
  then show ?thesis using yields_Encrypt [OF assms, of m pw] by (auto simp: EncryptContent_def sb)
qed

lemma yields_convert_commit:
  assumes "calm s" "disk s = d" "d tmp = Some b" "d gone \<noteq> None" "distinct [tmp, to, gone]"
  shows "yields (convert_commit tmp to gone) s () (((d(tmp := None))(to \<mapsto> b))(gone := None))"
  unfolding convert_commit_def
proof (rule yields_and_then [OF yields_or_else [OF yields_prims(7) [OF assms(1-3)]]])
  let ?d1 = "(d(tmp := None))(to \<mapsto> b)"
  fix s1 assume s1: "calm s1" "disk s1 = ?d1"
  show "yields (and_then syncDir (\<lambda>_. and_then (os_Remove gone) (\<lambda>_. syncDir))) s1 () (?d1(gone := None))"
  proof (rule yields_and_then [OF yields_prims(3) [OF s1]])
    fix s2 assume s2: "calm s2" "disk s2 = ?d1"
    have g: "?d1 gone \<noteq> None" using assms(4,5) by auto
    show "yields (and_then (os_Remove gone) (\<lambda>_. syncDir)) s2 () (?d1(gone := None))"
      by (rule yields_and_then [OF yields_prims(8) [OF s2 g]], rule yields_prims(3))
  qed
qed

lemma yields_EncryptFile:
  assumes "crypto_ok C" "calm s" "disk s = d" "d (ConfigPath v) = Some m" "protectable v m"
  shows "\<exists>p. decryptPayload C v p pw = Inr m
    \<and> yields (EncryptFile C v pw) s () ((d(encPath v @ ''.tmp'' := None, encPath v \<mapsto> p))(ConfigPath v := None))"
proof -
  let ?t = "encPath v @ ''.tmp''"
  obtain s1 where s1: "syncFile (ConfigPath v) s = (Inr (), s1)" "disk s1 = d" "calm s1"
    using yieldsD [OF yields_syncFile [OF assms(2-4)]] by blast
  obtain s2 where s2: "os_ReadFile (ConfigPath v) s1 = (Inr m, s2)" "disk s2 = d" "calm s2"
    using yieldsD [OF yields_prims(5) [OF s1(3,2) assms(4)]] by blast
  obtain p where p: "yields (EncryptContent C v pw m) s2 p d" using yields_EncryptContent [OF assms(1) s2(3,2)] by blast
  obtain s3 where s3: "EncryptContent C v pw m s2 = (Inr p, s3)" "disk s3 = d" "calm s3" using yieldsD [OF p] by blast
  have dp: "decryptPayload C v p pw = Inr m"
    by (rule protectable_payload [OF assms(1,5) calm_rand_ok [OF s2(3)] s3(1)])
  obtain s4 where s4: "writeFile0600 ?t p s3 = (Inr (), s4)" "disk s4 = d(?t \<mapsto> p)" "calm s4"
    using yieldsD [OF yields_writeFile [OF s3(3,2)]] by blast
  obtain s5 where s5: "syncFile ?t s4 = (Inr (), s5)" "disk s5 = d(?t \<mapsto> p)" "calm s5"
    using yieldsD [OF yields_syncFile [OF s4(3,2), of ?t p]] by auto
  have prep: "encrypt_prepare C v pw s = (Inr (), s5)"
    using s1(1) s2(1) s3(1) s4(1) s5(1) dp
    by (simp add: encrypt_prepare_def and_then_def or_else_def from_sum_def ret_def Let_def)
  have "yields (convert_commit ?t (encPath v) (ConfigPath v)) s5 () ((((d(?t \<mapsto> p))(?t := None))(encPath v \<mapsto> p))(ConfigPath v := None))"
    by (rule yields_convert_commit [OF s5(3,2)]) (use assms(4) in auto)
  then have "yields (EncryptFile C v pw) s () ((d(?t := None, encPath v \<mapsto> p))(ConfigPath v := None))"
    using prep by (simp add: EncryptFile_def yields_def and_then_def)
  then show ?thesis using dp by blast
qed

lemma yields_DecryptFile:
  assumes "calm s" "disk s = d" "d (encPath v) = Some p" "decryptPayload C v p pw = Inr m"
  shows "yields (DecryptFile C v pw) s () ((d(ConfigPath v @ ''.tmp'' := None, ConfigPath v \<mapsto> m))(encPath v := None))"
proof -
  let ?t = "ConfigPath v @ ''.tmp''"
  obtain s1 where s1: "os_ReadFile (encPath v) s = (Inr p, s1)" "disk s1 = d" "calm s1"
    using yieldsD [OF yields_prims(5) [OF assms(1-3)]] by blast
  obtain s2 where s2: "os_WriteFile ?t m s1 = (Inr (), s2)" "disk s2 = d(?t \<mapsto> m)" "calm s2"
    using yieldsD [OF yields_prims(6) [OF s1(3,2)]] by blast
  obtain s3 where s3: "syncFile ?t s2 = (Inr (), s3)" "disk s3 = d(?t \<mapsto> m)" "calm s3"
    using yieldsD [OF yields_syncFile [OF s2(3,2), of ?t m]] by auto
  have prep: "decrypt_prepare C v pw s = (Inr (), s3)"
    using s1(1) s2(1) s3(1) assms(4) by (simp add: decrypt_prepare_def and_then_def or_else_def from_sum_def Let_def)
  have "yields (convert_commit ?t (ConfigPath v) (encPath v)) s3 () ((((d(?t \<mapsto> m))(?t := None))(ConfigPath v \<mapsto> m))(encPath v := None))"
    by (rule yields_convert_commit [OF s3(3,2)]) (use assms(3) in auto)
  then show ?thesis using prep by (simp add: DecryptFile_def yields_def and_then_def)
qed

lemma yields_LoadCiphertext:
  assumes "calm s" "disk s = d" "d (encPath v) = Some p" "decryptPayload C v p pw = Inr m"
  shows "yields (LoadCiphertext C v pw) s m d"
  unfolding LoadCiphertext_def
  by (rule yields_and_then [OF yields_prims(5) [OF assms(1-3)]], rule yields_prims(9)) (use assms(4) in auto)

section \<open>Properties\<close>

definition holds_enc :: "crypto \<Rightarrow> Vault \<Rightarrow> string \<Rightarrow> bytes \<Rightarrow> host \<Rightarrow> bool" where
  "holds_enc C v pw m s \<longleftrightarrow> (case disk s (encPath v) of None \<Rightarrow> False | Some p \<Rightarrow> decryptPayload C v p pw = Inr m)"

text \<open>C1: Neither conversion loses the configuration, whatever system calls fail and wherever the process dies.
  After \<open>EncryptFile\<close> the plaintext is still there as it was, or it is gone and the \<open>.enc\<close> decrypts to exactly it
  (always so after a success); a file that cannot be read is an error. After \<open>DecryptFile\<close> the \<open>.enc\<close> is still
  there as it was, or the plaintext file holds what it decrypts to; a wrong password changes no file at all.\<close>

theorem conversion_never_loses_the_config:
  "(let (r, s') = EncryptFile C v pw s
    in case disk s (ConfigPath v) of
         None \<Rightarrow> (\<exists>e. r = Inl e) \<and> disk s' (ConfigPath v) = None \<and> disk s' (encPath v) = disk s (encPath v)
       | Some m \<Rightarrow>
           (case r of
              Inr _ \<Rightarrow> disk s' (ConfigPath v) = None \<and> holds_enc C v pw m s'
            | Inl _ \<Rightarrow> (disk s' (ConfigPath v) = Some m \<and> disk s' (encPath v) = disk s (encPath v))
                \<or> (disk s' (ConfigPath v) \<in> {Some m, None} \<and> holds_enc C v pw m s')))
   \<and> (let (r, s') = DecryptFile C v pw s
      in case disk s (encPath v) of
           None \<Rightarrow> (\<exists>e. r = Inl e) \<and> disk s' (encPath v) = None \<and> disk s' (ConfigPath v) = disk s (ConfigPath v)
         | Some p \<Rightarrow>
             (case decryptPayload C v p pw of
                Inl _ \<Rightarrow> (\<exists>e. r = Inl e) \<and> disk s' = disk s
              | Inr m \<Rightarrow>
                  (case r of
                     Inr _ \<Rightarrow> disk s' (ConfigPath v) = Some m \<and> disk s' (encPath v) = None
                   | Inl _ \<Rightarrow> (disk s' (ConfigPath v) = disk s (ConfigPath v) \<and> disk s' (encPath v) = Some p)
                       \<or> (disk s' (ConfigPath v) = Some m \<and> disk s' (encPath v) \<in> {Some p, None}))))"
proof (intro conjI)
  obtain r s' where e: "EncryptFile C v pw s = (r, s')" by fastforce
  show "let (r, s') = EncryptFile C v pw s
    in case disk s (ConfigPath v) of
         None \<Rightarrow> (\<exists>e. r = Inl e) \<and> disk s' (ConfigPath v) = None \<and> disk s' (encPath v) = disk s (encPath v)
       | Some m \<Rightarrow>
           (case r of
              Inr _ \<Rightarrow> disk s' (ConfigPath v) = None \<and> holds_enc C v pw m s'
            | Inl _ \<Rightarrow> (disk s' (ConfigPath v) = Some m \<and> disk s' (encPath v) = disk s (encPath v))
                \<or> (disk s' (ConfigPath v) \<in> {Some m, None} \<and> holds_enc C v pw m s'))"
    using EncryptFile_cases [OF e] by (cases r) (auto simp: e holds_enc_def split: option.splits)
next
  obtain r s' where d: "DecryptFile C v pw s = (r, s')" by fastforce
  have wrong: "disk s' = disk s \<and> (\<exists>x. r = Inl x)" if "disk s (encPath v) = Some p" "decryptPayload C v p pw = Inl x" for p x
    by (rule wrong_password_changes_nothing [OF d that])
  show "let (r, s') = DecryptFile C v pw s
      in case disk s (encPath v) of
           None \<Rightarrow> (\<exists>e. r = Inl e) \<and> disk s' (encPath v) = None \<and> disk s' (ConfigPath v) = disk s (ConfigPath v)
         | Some p \<Rightarrow>
             (case decryptPayload C v p pw of
                Inl _ \<Rightarrow> (\<exists>e. r = Inl e) \<and> disk s' = disk s
              | Inr m \<Rightarrow>
                  (case r of
                     Inr _ \<Rightarrow> disk s' (ConfigPath v) = Some m \<and> disk s' (encPath v) = None
                   | Inl _ \<Rightarrow> (disk s' (ConfigPath v) = disk s (ConfigPath v) \<and> disk s' (encPath v) = Some p)
                       \<or> (disk s' (ConfigPath v) = Some m \<and> disk s' (encPath v) \<in> {Some p, None})))"
    using DecryptFile_cases [OF d] wrong by (cases r) (auto simp: d split: option.splits sum.splits)
qed

text \<open>C6: What \<open>EncryptContent\<close> makes of a configuration reads back exactly. With a header and a blank line
  after it, the payload decrypts with its password to the same text, and the part from the header to that line is
  readable without any password. Without a header the payload decrypts to the text unless the ciphertext happens to
  contain the header. The limit is the reader's: \<open>Decrypt\<close> refuses more than 10 MiB, which the writer does not.\<close>

theorem payload_roundtrip:
  assumes "crypto_ok C" "rand_ok s" "header_ok v" "EncryptContent C v pw content s = (Inr p, s')" "length p \<le> MaxConfigSize"
  shows "disk s' = disk s \<and>
    (case str_index (BootstrapHeader v) content of
       None \<Rightarrow> decryptPayload C v p pw = Inr content \<or> str_index (BootstrapHeader v) p \<noteq> None
     | Some i \<Rightarrow>
         (case str_index blank_line (drop i content) of
            None \<Rightarrow> decryptPayload C v p pw \<noteq> Inr content
          | Some k \<Rightarrow> decryptPayload C v p pw = Inr content \<and> bootstrap_of v p = take k (drop i content)))"
proof (cases "str_index (BootstrapHeader v) content")
  case None
  then have "Encrypt C content pw s = (Inr p, s')" using assms(4) by (simp add: EncryptContent_def splitBootstrap_def split: if_splits)
  from Decrypt_Encrypt [OF assms(1,2) this] show ?thesis
    using None assms(5) by (auto simp: decryptPayload_def split_payload_def reassemble_def)
next
  case i: (Some i)
  show ?thesis
  proof (cases "str_index blank_line (drop i content)")
    case None
    then show ?thesis using EncryptContent_open_header [OF assms(3) i None assms(4)] EncryptContent_disk [OF assms(4)] i by simp
  next
    case (Some k)
    let ?b = "take (i + k) content" and ?r = "drop (i + k + 2) content"
    note f = split_found [OF assms(3) i Some]
    obtain e where e: "Encrypt C ?r pw s = (Inr e, s')" "p = ?b @ blank_line @ e"
      using assms(3,4) f(1) by (auto simp: EncryptContent_def header_ok_def io_inr)
    have "length e \<le> MaxConfigSize" using e(2) assms(5) by simp
    then have "Decrypt C e pw = Inr ?r" "disk s' = disk s" using Decrypt_Encrypt [OF assms(1,2) e(1)] by auto
    moreover have "split_payload v p = (?b, e)" unfolding e(2) by (rule f(4))
    ultimately have "decryptPayload C v p pw = Inr (reassemble ?b ?r)" by (simp add: decryptPayload_def)
    also have "reassemble ?b ?r = content" unfolding reassemble_def using f(3) f(2) [symmetric] by (simp only: if_False)
    finally have "decryptPayload C v p pw = Inr content" .
    moreover have "bootstrap_of v p = take k (drop i content)" using f(5) e(2) by (simp add: drop_take)
    ultimately show ?thesis using i Some \<open>disk s' = disk s\<close> by simp
  qed
qed

definition demo_vault :: Vault where
  "demo_vault = \<lparr>DataDir = ''/data'', ConfigPath = ''/data/k.ini'', BootstrapHeader = ''[b]''\<rparr>"

lemma demo_vault_ok: "header_ok demo_vault" "BootstrapHeader demo_vault = ''[b]''"
  by (simp_all add: header_ok_def demo_vault_def newline_def blank_line_def)

lemma payload_roundtrip_witness:
  "\<exists>p s'. EncryptContent demo_crypto demo_vault ''pw'' (''[b]x'' @ blank_line @ ''y'') (demo_host Map.empty) = (Inr p, s')
     \<and> decryptPayload demo_crypto demo_vault p ''pw'' = Inr (''[b]x'' @ blank_line @ ''y'') \<and> bootstrap_of demo_vault p = ''[b]x''"
proof -
  let ?c = "''[b]x'' @ blank_line @ ''y''"
  have i: "str_index ''[b]'' ?c = Some 0" "str_index blank_line (drop 0 ?c) = Some 4"
    by (simp_all add: blank_line_def newline_def)
  have sb: "splitBootstrap demo_vault ?c = (''[b]x'', ''y'', True)"
    using i by (simp add: splitBootstrap_def demo_vault_ok blank_line_def)
  obtain e s' where e: "Encrypt demo_crypto ''y'' ''pw'' (demo_host Map.empty) = (Inr e, s')"
    using demo_Encrypt by blast
  then have ec: "EncryptContent demo_crypto demo_vault ''pw'' ?c (demo_host Map.empty) = (Inr (''[b]x'' @ blank_line @ e), s')"
    using sb by (simp add: EncryptContent_def demo_vault_ok and_then_def ret_def)
  have "length e = 134" using Decrypt_Encrypt [OF demo_crypto_ok demo_host_ok(1) e] by simp
  then have "length (''[b]x'' @ blank_line @ e) \<le> MaxConfigSize" by (simp add: MaxConfigSize_def blank_line_def)
  from payload_roundtrip [OF demo_crypto_ok demo_host_ok(1) demo_vault_ok(1) ec this]
  show ?thesis using ec i by (simp add: demo_vault_ok blank_line_def)
qed

text \<open>A configuration whose header is followed by no blank line cannot be protected. \<open>EncryptFile\<close> refuses it
  and leaves it and any \<open>.enc\<close> alone. \<open>ReencryptOverwrite\<close>, which does not verify, replaces the \<open>.enc\<close> by a
  payload that no password turns back into that content.\<close>

theorem unprotectable_config:
  assumes "header_ok v" "disk s (ConfigPath v) = Some content" "str_index (BootstrapHeader v) content = Some i"
    and "str_index blank_line (drop i content) = None"
  shows "(let (r, s') = EncryptFile C v pw s
          in (\<exists>e. r = Inl e) \<and> disk s' (ConfigPath v) = Some content \<and> disk s' (encPath v) = disk s (encPath v))
     \<and> (let (r, s') = ReencryptOverwrite C v pw content s
        in case r of
             Inr _ \<Rightarrow> disk s' (encPath v) \<noteq> None \<and> (\<forall>pw'. \<not> holds_enc C v pw' content s')
           | Inl _ \<Rightarrow> disk s' (encPath v) = disk s (encPath v) \<or> (\<forall>pw'. \<not> holds_enc C v pw' content s'))"
proof -
  obtain r s' where e: "EncryptFile C v pw s = (r, s')" by fastforce
  obtain r2 s2 where o2: "ReencryptOverwrite C v pw content s = (r2, s2)" by fastforce
  have never: "decryptPayload C v p pw' \<noteq> Inr content" if "EncryptContent C v pw content s = (Inr p, s1)" for p s1 pw'
    by (rule EncryptContent_open_header [OF assms(1,3,4) that])
  show ?thesis
    using EncryptFile_open_header [OF assms e] ReencryptOverwrite_cases [OF o2] never assms(2)
    by (cases r2) (auto simp: e o2 holds_enc_def)
qed

lemma unprotectable_config_witness:
  "let s = demo_host [''/data/k.ini'' \<mapsto> ''[b]x'']
   in (\<exists>e. fst (EncryptFile demo_crypto demo_vault ''pw'' s) = Inl e)
      \<and> disk (snd (EncryptFile demo_crypto demo_vault ''pw'' s)) ''/data/k.ini'' = Some ''[b]x''"
proof -
  have "disk (demo_host [''/data/k.ini'' \<mapsto> ''[b]x'']) (ConfigPath demo_vault) = Some ''[b]x''"
    "str_index (BootstrapHeader demo_vault) ''[b]x'' = Some 0" "str_index blank_line (drop 0 ''[b]x'') = None"
    by (simp_all add: demo_host_ok demo_vault_def blank_line_def newline_def)
  from unprotectable_config [OF demo_vault_ok(1) this, of demo_crypto "''pw''"] show ?thesis
    by (simp add: demo_vault_def Let_def split: prod.splits)
qed

end
