(* ===== verification/Secure_Controller.thy ===== *)
theory Secure_Controller
  imports Secure_Vault
begin

text \<open>
  \<open>internal/securemode/controller.go\<close> and \<open>persist.go\<close>: the machine between the default and the run mode. An
  operation is a computation on the controller and the host together; its steps on files are lifted with
  \<open>on_host\<close>. The debugger probe is an argument. The core-dump switch, best effort and without a result, and the
  lock are left out (one operation runs at a time under the controller's mutex).
\<close>

record Controller =
  co_DataDir :: string
  co_Vaults :: "Vault list"
  co_Guard :: "MemoryGuard option"
  co_Mode :: Mode
  co_Secrets :: SecretRegistry
  runPassword :: string

type_synonym 'a ctl = "(Controller \<times> host, 'a) comp"

definition NewController :: "string \<Rightarrow> Vault list \<Rightarrow> Controller" where
  "NewController dataDir vaults =
     \<lparr>co_DataDir = dataDir, co_Vaults = vaults, co_Guard = None, co_Mode = ModeDefault, co_Secrets = NewSecretRegistry,
      runPassword = []\<rparr>"

definition on_host :: "'a io \<Rightarrow> 'a ctl" where
  "on_host m = (\<lambda>(c, s). let (r, s') = m s in (r, (c, s')))"

definition observe :: "(host \<Rightarrow> 'a \<times> host) \<Rightarrow> 'a io" where
  "observe f = (\<lambda>s. let (x, s') = f s in (Inr x, s'))"

definition get_ctl :: "Controller ctl" where
  "get_ctl = (\<lambda>(c, s). (Inr c, (c, s)))"

definition modify :: "(Controller \<Rightarrow> Controller) \<Rightarrow> unit ctl" where
  "modify f = (\<lambda>(c, s). (Inr (), (f c, s)))"

definition checkNotDebugged :: "bool \<Rightarrow> unit ctl" where
  "checkNotDebugged debuggerDetected =
     (if debuggerDetected then raise (EMsg ''refused: debugger/tracer detected'') else ret ())"

definition releaseGuard :: "Controller \<Rightarrow> Controller" where
  "releaseGuard c = c\<lparr>co_Guard := None\<rparr>"

definition SecretsFilePath :: "string \<Rightarrow> string" where
  "SecretsFilePath dir = dir @ ''/.asscor-secrets.enc''"

section \<open>The persisted registry\<close>

definition persistSecretsLocked :: "crypto \<Rightarrow> codec \<Rightarrow> unit ctl" where
  "persistSecretsLocked C J =
     and_then get_ctl (\<lambda>c.
     and_then (on_host (Encrypt C (reg_Marshal J (co_Secrets c)) (runPassword c))) (\<lambda>payload.
     on_host (atomic_replace (SecretsFilePath (co_DataDir c)) payload)))"

definition PersistSecrets :: "crypto \<Rightarrow> codec \<Rightarrow> unit ctl" where
  "PersistSecrets C J =
     and_then get_ctl (\<lambda>c.
     if co_Mode c \<noteq> ModeRun then ret ()
     else if runPassword c = [] then raise (EMsg ''persist secrets: no run-mode password retained'')
     else persistSecretsLocked C J)"

text \<open>Reading and decoding the registry file: \<open>None\<close> when there is no file.\<close>

definition read_secrets :: "crypto \<Rightarrow> codec \<Rightarrow> string \<Rightarrow> string \<Rightarrow> SecretRegistry option io" where
  "read_secrets C J path password =
     (\<lambda>s. case os_ReadFile path s of
        (Inl ENotExist, s') \<Rightarrow> (Inr None, s')
      | (Inl e, s') \<Rightarrow> (Inl e, s')
      | (Inr d, s') \<Rightarrow>
          (case Decrypt C d password of
             Inl e \<Rightarrow> (Inl e, s')
           | Inr plain \<Rightarrow> (case reg_Unmarshal J plain of Inl e \<Rightarrow> (Inl e, s') | Inr reg \<Rightarrow> (Inr (Some reg), s'))))"

definition loadSecretsLocked :: "crypto \<Rightarrow> codec \<Rightarrow> string \<Rightarrow> unit ctl" where
  "loadSecretsLocked C J password =
     and_then get_ctl (\<lambda>c.
     and_then (on_host (read_secrets C J (SecretsFilePath (co_DataDir c)) password)) (\<lambda>found.
     case found of None \<Rightarrow> ret () | Some reg \<Rightarrow> modify (\<lambda>c. c\<lparr>co_Secrets := reg\<rparr>)))"

definition LoadSecrets :: "crypto \<Rightarrow> codec \<Rightarrow> string \<Rightarrow> unit ctl" where
  "LoadSecrets C J password = loadSecretsLocked C J password"

section \<open>Entering and leaving the run mode\<close>

primrec encrypt_all :: "crypto \<Rightarrow> string \<Rightarrow> Vault list \<Rightarrow> unit io" where
  "encrypt_all C password [] = ret ()"
| "encrypt_all C password (v # vs) = and_then (EncryptFile C v password) (\<lambda>_. encrypt_all C password vs)"

primrec decrypt_all :: "crypto \<Rightarrow> string \<Rightarrow> Vault list \<Rightarrow> unit io" where
  "decrypt_all C password [] = ret ()"
| "decrypt_all C password (v # vs) = and_then (DecryptFile C v password) (\<lambda>_. decrypt_all C password vs)"

definition EnterRun :: "crypto \<Rightarrow> codec \<Rightarrow> bool \<Rightarrow> string \<Rightarrow> unit ctl" where
  "EnterRun C J debugged password =
     and_then (checkNotDebugged debugged) (\<lambda>_.
     and_then get_ctl (\<lambda>c.
     if co_Mode c = ModeRun then ret ()
     else
       and_then (on_host (encrypt_all C password (co_Vaults c))) (\<lambda>_.
       and_then (on_host (pv_Set C (PasswordVerifierPath (co_DataDir c)) password)) (\<lambda>_.
       if co_Vaults c = [] then raise (EMsg ''enter run: no vault configured'')
       else
         and_then (on_host (LoadCiphertext C (hd (co_Vaults c)) password)) (\<lambda>plain.
         and_then (modify (\<lambda>c. (releaseGuard c)\<lparr>co_Guard := Some (NewMemoryGuard C plain)\<rparr>)) (\<lambda>_.
         and_then (on_host (WriteMarker C (MarkerPath (co_DataDir c)) ModeRun)) (\<lambda>_.
         and_then (modify (\<lambda>c. c\<lparr>co_Mode := ModeRun, runPassword := password\<rparr>)) (\<lambda>_.
         persistSecretsLocked C J))))))))"

definition ExitRun :: "crypto \<Rightarrow> bool \<Rightarrow> string \<Rightarrow> unit ctl" where
  "ExitRun C debugged password =
     and_then (checkNotDebugged debugged) (\<lambda>_.
     and_then get_ctl (\<lambda>c.
     if co_Mode c = ModeDefault then ret ()
     else
       and_then (on_host (observe (pv_Verify C (PasswordVerifierPath (co_DataDir c)) password))) (\<lambda>good.
       if \<not> good then raise (EMsg ''exit run: incorrect password'')
       else if (case co_Guard c of None \<Rightarrow> False | Some g \<Rightarrow> \<not> IntegrityOK C g)
       then raise (EMsg ''exit run: in-memory config integrity check failed'')
       else
         and_then (modify (\<lambda>c. c\<lparr>runPassword := []\<rparr>)) (\<lambda>_.
         and_then (on_host (remove_if_there (SecretsFilePath (co_DataDir c)))) (\<lambda>_.
         and_then (on_host (decrypt_all C password (co_Vaults c))) (\<lambda>_.
         and_then (on_host (pv_Clear (PasswordVerifierPath (co_DataDir c)))) (\<lambda>_.
         and_then (on_host (WriteMarker C (MarkerPath (co_DataDir c)) ModeDefault)) (\<lambda>_.
         modify (\<lambda>c. releaseGuard (c\<lparr>co_Mode := ModeDefault\<rparr>))))))))))"

section \<open>Changing the password\<close>

primrec load_all :: "crypto \<Rightarrow> string \<Rightarrow> Vault list \<Rightarrow> string list io" where
  "load_all C password [] = ret []"
| "load_all C password (v # vs) =
     and_then (LoadCiphertext C v password) (\<lambda>p. and_then (load_all C password vs) (\<lambda>ps. ret (p # ps)))"

definition reencryptVault :: "crypto \<Rightarrow> Vault \<Rightarrow> string \<Rightarrow> string \<Rightarrow> unit io" where
  "reencryptVault C v plain password = ReencryptOverwrite C v password plain"

fun reencrypt_all :: "crypto \<Rightarrow> string \<Rightarrow> (Vault \<times> string) list \<Rightarrow> unit io" where
  "reencrypt_all C password [] = ret ()"
| "reencrypt_all C password ((v, p) # vps) =
     and_then (reencryptVault C v p password) (\<lambda>_. reencrypt_all C password vps)"

text \<open>The first error is kept.\<close>

definition first_err :: "sm_error option \<Rightarrow> sm_error \<Rightarrow> sm_error option" where
  "first_err old e = (case old of None \<Rightarrow> Some e | Some _ \<Rightarrow> old)"

fun rollback_vaults :: "crypto \<Rightarrow> string \<Rightarrow> string \<Rightarrow> Vault list \<Rightarrow> sm_error option \<Rightarrow> host \<Rightarrow> sm_error option \<times> host" where
  "rollback_vaults C old new [] err s = (err, s)"
| "rollback_vaults C old new (v # vs) err s =
     (case LoadCiphertext C v old s of
        (Inr _, s1) \<Rightarrow> rollback_vaults C old new vs err s1
      | (Inl _, s1) \<Rightarrow>
          (case LoadCiphertext C v new s1 of
             (Inl e, s2) \<Rightarrow> rollback_vaults C old new vs (first_err err e) s2
           | (Inr plain, s2) \<Rightarrow>
               (case reencryptVault C v plain old s2 of
                  (Inl e, s3) \<Rightarrow> rollback_vaults C old new vs (first_err err e) s3
                | (Inr _, s3) \<Rightarrow> rollback_vaults C old new vs err s3)))"

definition rollbackSetPassword :: "crypto \<Rightarrow> Controller \<Rightarrow> string \<Rightarrow> string \<Rightarrow> unit io" where
  "rollbackSetPassword C c old new =
     (\<lambda>s. let (err, s1) = rollback_vaults C old new (co_Vaults c) None s;
              (r, s2) = pv_Set C (PasswordVerifierPath (co_DataDir c)) old s1;
              err2 = (case r of Inl e \<Rightarrow> first_err err e | Inr _ \<Rightarrow> err)
          in ((case err2 of Some e \<Rightarrow> Inl e | None \<Rightarrow> Inr ()), s2))"

definition SetPassword :: "crypto \<Rightarrow> codec \<Rightarrow> bool \<Rightarrow> string \<Rightarrow> string \<Rightarrow> unit ctl" where
  "SetPassword C J debugged oldPassword newPassword =
     and_then (checkNotDebugged debugged) (\<lambda>_.
     and_then get_ctl (\<lambda>c.
     if co_Mode c \<noteq> ModeRun then raise (EMsg ''set password: only allowed in run mode'')
     else
       and_then (on_host (observe (pv_Verify C (PasswordVerifierPath (co_DataDir c)) oldPassword))) (\<lambda>good.
       if \<not> good then raise (EMsg ''set password: incorrect current password'')
       else
         and_then (on_host (load_all C oldPassword (co_Vaults c))) (\<lambda>plains.
         and_then (on_host (pv_Set C (PasswordVerifierPath (co_DataDir c)) newPassword)) (\<lambda>_.
         and_then (or_else (on_host (reencrypt_all C newPassword (zip (co_Vaults c) plains)))
                     (on_host (rollbackSetPassword C c oldPassword newPassword))) (\<lambda>_.
         and_then (modify (\<lambda>c. c\<lparr>runPassword := newPassword\<rparr>)) (\<lambda>_.
         or_else (persistSecretsLocked C J)
           (and_then (modify (\<lambda>c. c\<lparr>runPassword := oldPassword\<rparr>)) (\<lambda>_.
            on_host (rollbackSetPassword C c oldPassword newPassword))))))))))"

section \<open>Starting\<close>

primrec residue_scan :: "Vault list \<Rightarrow> unit io" where
  "residue_scan [] = ret ()"
| "residue_scan (v # vs) =
     and_then (observe (vault_State v)) (\<lambda>st.
     if hasPlain st \<and> hasEnc st then raise (EMsg ''crash residue'') else residue_scan vs)"

text \<open>The cases of the switch are tried in order, each with its own look at the verifier.\<close>

definition half_state :: "Mode \<Rightarrow> string \<Rightarrow> unit io" where
  "half_state mode pw =
     (case mode of
        ModeDefault \<Rightarrow>
          and_then (observe (pv_Exists pw)) (\<lambda>e1.
          if e1 then raise (EMsg ''enc-only vault with verifier present while marker=default'')
          else and_then (observe (pv_Exists pw)) (\<lambda>e2.
               if \<not> e2 then raise (EMsg ''enc-only vault with no verifier while marker=default'') else ret ()))
      | ModeRun \<Rightarrow>
          and_then (observe (pv_Exists pw)) (\<lambda>e3.
          if \<not> e3 then raise (EMsg ''run marker but no password verifier'') else ret ()))"

primrec half_state_scan :: "Mode \<Rightarrow> string \<Rightarrow> Vault list \<Rightarrow> unit io" where
  "half_state_scan mode pw [] = ret ()"
| "half_state_scan mode pw (v # vs) =
     and_then (observe (vault_State v)) (\<lambda>st.
     and_then (if \<not> hasPlain st \<and> hasEnc st then half_state mode pw else ret ()) (\<lambda>_.
     half_state_scan mode pw vs))"

definition Startup :: "crypto \<Rightarrow> unit ctl" where
  "Startup C =
     and_then get_ctl (\<lambda>c.
     and_then (on_host (ReadMarker C (MarkerPath (co_DataDir c)))) (\<lambda>mode.
     and_then (on_host (residue_scan (co_Vaults c))) (\<lambda>_.
     and_then (on_host (half_state_scan mode (PasswordVerifierPath (co_DataDir c)) (co_Vaults c))) (\<lambda>_.
     modify (\<lambda>c. c\<lparr>co_Mode := mode\<rparr>)))))"

definition Unlock :: "crypto \<Rightarrow> codec \<Rightarrow> bool \<Rightarrow> string \<Rightarrow> unit ctl" where
  "Unlock C J debugged password =
     and_then (checkNotDebugged debugged) (\<lambda>_.
     and_then get_ctl (\<lambda>c.
     if co_Mode c \<noteq> ModeRun then raise (EMsg ''unlock: only needed in run mode'')
     else
       and_then (on_host (observe (pv_Verify C (PasswordVerifierPath (co_DataDir c)) password))) (\<lambda>good.
       if \<not> good then raise (EMsg ''unlock: incorrect password'')
       else if co_Vaults c = [] then raise (EMsg ''unlock: no vault configured'')
       else
         and_then (on_host (LoadCiphertext C (hd (co_Vaults c)) password)) (\<lambda>plain.
         and_then (loadSecretsLocked C J password) (\<lambda>_.
         modify (\<lambda>c. (releaseGuard c)\<lparr>co_Guard := Some (NewMemoryGuard C plain), runPassword := password\<rparr>))))))"

section \<open>Starting on a calm host\<close>

definition marker_mode :: "crypto \<Rightarrow> string \<Rightarrow> (string \<rightharpoonup> bytes) \<Rightarrow> sm_error + Mode" where
  "marker_mode C dir d = (case d (MarkerPath dir) of None \<Rightarrow> Inr ModeDefault | Some b \<Rightarrow> parse_marker C b)"

definition both_present :: "(string \<rightharpoonup> bytes) \<Rightarrow> Vault \<Rightarrow> bool" where
  "both_present d v \<longleftrightarrow> d (ConfigPath v) \<noteq> None \<and> d (encPath v) \<noteq> None"

definition enc_only :: "(string \<rightharpoonup> bytes) \<Rightarrow> Vault \<Rightarrow> bool" where
  "enc_only d v \<longleftrightarrow> d (ConfigPath v) = None \<and> d (encPath v) \<noteq> None"

text \<open>The files a start accepts in a mode: the marker says so, no vault has both files, and an encrypted vault
  comes with the run mode and a verifier.\<close>

definition startable :: "crypto \<Rightarrow> string \<Rightarrow> Vault list \<Rightarrow> Mode \<Rightarrow> (string \<rightharpoonup> bytes) \<Rightarrow> bool" where
  "startable C dir vs mode d \<longleftrightarrow> marker_mode C dir d = Inr mode
     \<and> list_all (\<lambda>v. \<not> both_present d v \<and> (enc_only d v \<longrightarrow> mode = ModeRun \<and> d (PasswordVerifierPath dir) \<noteq> None)) vs"

lemma calm_observe:
  assumes "calm s" "disk s = d"
  shows "yields (observe (vault_State v)) s \<lparr>hasPlain = (d (ConfigPath v) \<noteq> None), hasEnc = (d (encPath v) \<noteq> None)\<rparr> d"
    "yields (observe (pv_Exists p)) s (d p \<noteq> None) d"
    "yields (observe (pv_Verify C p pw)) s (case d p of None \<Rightarrow> False | Some b \<Rightarrow> check_verifier C b pw) d"
  using assms
  by (auto simp: yields_def observe_def vault_State_def pv_Exists_def os_exists_def pv_Verify_def os_ReadFile_def calm_tick
      split: option.splits)

text \<open>\<open>gives m s r d\<close>: like \<open>yields\<close>, for any result.\<close>

definition gives :: "'a io \<Rightarrow> host \<Rightarrow> sm_error + 'a \<Rightarrow> (string \<rightharpoonup> bytes) \<Rightarrow> bool" where
  "gives m s r d \<longleftrightarrow> fst (m s) = r \<and> disk (snd (m s)) = d \<and> calm (snd (m s))"

lemma gives_Inr: "gives m s (Inr x) d \<longleftrightarrow> yields m s x d"
  by (auto simp: gives_def yields_def split: prod.splits sum.splits)

lemma gives_and_then:
  assumes "yields m s x d" "\<And>s1. calm s1 \<Longrightarrow> disk s1 = d \<Longrightarrow> gives (f x) s1 r d'"
  shows "gives (and_then m f) s r d'"
proof -
  from yieldsD [OF assms(1)] obtain s1 where "m s = (Inr x, s1)" "disk s1 = d" "calm s1" by blast
  with assms(2) [of s1] show ?thesis by (simp add: gives_def and_then_def)
qed

lemma gives_raise: "calm s \<Longrightarrow> disk s = d \<Longrightarrow> gives (raise e) s (Inl e) d"
  by (simp add: gives_def raise_def)

lemma gives_ret: "calm s \<Longrightarrow> disk s = d \<Longrightarrow> gives (ret x) s (Inr x) d"
  by (simp add: gives_def ret_def)

lemma gives_and_then_Inl:
  "gives m s (Inl e) d \<Longrightarrow> gives (and_then m f) s (Inl e) d"
  by (auto simp: gives_def and_then_def split: prod.splits sum.splits)

lemma residue_scan_calm:
  "calm s \<Longrightarrow> disk s = d \<Longrightarrow>
   gives (residue_scan vs) s (if list_ex (both_present d) vs then Inl (EMsg ''crash residue'') else Inr ()) d"
proof (induction vs arbitrary: s)
  case Nil
  then show ?case by (simp add: gives_ret)
next
  case (Cons v vs)
  show ?case unfolding residue_scan.simps
    by (rule gives_and_then [OF calm_observe(1) [OF Cons.prems]])
      (auto simp: both_present_def intro!: gives_raise dest: Cons.IH split: if_splits)
qed

definition half_verdict :: "Mode \<Rightarrow> bool \<Rightarrow> sm_error + unit" where
  "half_verdict mode present =
     (case mode of
        ModeDefault \<Rightarrow>
          Inl (EMsg (if present then ''enc-only vault with verifier present while marker=default''
                     else ''enc-only vault with no verifier while marker=default''))
      | ModeRun \<Rightarrow> if present then Inr () else Inl (EMsg ''run marker but no password verifier''))"

lemma half_verdict_Inr: "half_verdict mode present = Inr () \<longleftrightarrow> mode = ModeRun \<and> present"
  by (simp add: half_verdict_def split: Mode.splits)

lemma half_state_calm:
  assumes "calm s" "disk s = d"
  shows "gives (half_state mode pw) s (half_verdict mode (d pw \<noteq> None)) d"
proof (cases mode)
  case ModeRun
  then show ?thesis
    unfolding half_state_def half_verdict_def ModeRun Mode.case
    by (intro gives_and_then [OF calm_observe(2) [OF assms]]) (auto intro!: gives_raise gives_ret)
next
  case ModeDefault
  have again: "gives (and_then (observe (pv_Exists pw)) (\<lambda>e2. if \<not> e2 then raise e else ret ())) s1 (Inl e) d"
    if "calm s1" "disk s1 = d" "d pw = None" for s1 e
    by (rule gives_and_then [OF calm_observe(2) [OF that(1,2)]]) (simp add: that(3) gives_raise)
  show ?thesis
    unfolding half_state_def half_verdict_def ModeDefault Mode.case
    by (intro gives_and_then [OF calm_observe(2) [OF assms]]) (simp add: again gives_raise)
qed

lemma half_state_scan_calm:
  "calm s \<Longrightarrow> disk s = d \<Longrightarrow>
   gives (half_state_scan mode pw vs) s (if list_ex (enc_only d) vs then half_verdict mode (d pw \<noteq> None) else Inr ()) d"
proof (induction vs arbitrary: s)
  case Nil
  then show ?case by (simp add: gives_ret)
next
  case (Cons v vs)
  let ?h = "half_verdict mode (d pw \<noteq> None)"
  have vs: "gives (half_state_scan mode pw vs) s1 (if list_ex (enc_only d) (v # vs) then ?h else Inr ()) d"
    if "calm s1" "disk s1 = d" "enc_only d v \<longrightarrow> ?h = Inr ()" for s1
    using Cons.IH [OF that(1,2)] that(3) by (cases "list_ex (enc_only d) vs") simp_all
  have inner: "gives (and_then (if enc_only d v then half_state mode pw else ret ()) (\<lambda>_. half_state_scan mode pw vs)) s1
      (if list_ex (enc_only d) (v # vs) then ?h else Inr ()) d" if c: "calm s1" "disk s1 = d" for s1
  proof (cases "enc_only d v")
    case False
    show ?thesis
      by (simp only: False if_False, rule gives_and_then [OF yields_prims(1) [OF c]], rule vs) (simp_all add: False)
  next
    case True
    note h = half_state_calm [OF c, of mode pw]
    show ?thesis
    proof (cases ?h)
      case (Inl e)
      then show ?thesis using h True by (auto intro!: gives_and_then_Inl)
    next
      case (Inr u)
      then have y: "yields (half_state mode pw) s1 () d" using h by (simp add: gives_Inr)
      show ?thesis by (simp only: True if_True, rule gives_and_then [OF y], rule vs) (use Inr in simp_all)
    qed
  qed
  have eo: "(\<not> d (ConfigPath v) \<noteq> None \<and> d (encPath v) \<noteq> None) = enc_only d v" by (auto simp: enc_only_def)
  show ?case
    unfolding half_state_scan.simps
    by (rule gives_and_then [OF calm_observe(1) [OF Cons.prems]]) (simp only: vaultState.simps eo inner)
qed

lemma ReadMarker_calm:
  "calm s \<Longrightarrow> disk s = d \<Longrightarrow> gives (ReadMarker C (MarkerPath dir)) s (marker_mode C dir d) d"
  by (auto simp: gives_def ReadMarker_def os_ReadFile_def calm_tick marker_mode_def split: option.splits)

lemma on_host_and_then:
  "and_then (on_host m) f (c, s) = (case m s of (Inl e, s') \<Rightarrow> (Inl e, (c, s')) | (Inr x, s') \<Rightarrow> f x (c, s'))"
  by (simp add: and_then_def on_host_def Let_def split: prod.splits sum.splits)

lemma get_ctl_and_then: "and_then get_ctl f (c, s) = f c (c, s)"
  by (simp add: and_then_def get_ctl_def)

lemma modify_and_then: "and_then (modify g) f (c, s) = f () (g c, s)"
  by (simp add: and_then_def modify_def)

lemma modify_app: "modify g (c, s) = (Inr (), (g c, s))"
  by (simp add: modify_def)

lemmas ctl_simps = on_host_and_then get_ctl_and_then modify_and_then modify_app

lemma Startup_calm:
  assumes "calm s"
  shows "\<exists>r c' s'. Startup C (c, s) = (r, (c', s')) \<and> disk s' = disk s \<and> calm s'
    \<and> (case r of Inl _ \<Rightarrow> c' = c \<and> (\<forall>m. \<not> startable C (co_DataDir c) (co_Vaults c) m (disk s))
       | Inr _ \<Rightarrow> \<exists>m. startable C (co_DataDir c) (co_Vaults c) m (disk s) \<and> c' = c\<lparr>co_Mode := m\<rparr>)"
proof -
  let ?d = "disk s" and ?dir = "co_DataDir c" and ?vs = "co_Vaults c"
  obtain r1 s1 where 1: "ReadMarker C (MarkerPath ?dir) s = (r1, s1)" by fastforce
  have m: "r1 = marker_mode C ?dir ?d" "disk s1 = ?d" "calm s1"
    using ReadMarker_calm [OF assms refl, of C ?dir] 1 by (simp_all add: gives_def)
  obtain r2 s2 where 2: "residue_scan ?vs s1 = (r2, s2)" by fastforce
  have b: "r2 = (if list_ex (both_present ?d) ?vs then Inl (EMsg ''crash residue'') else Inr ())" "disk s2 = ?d" "calm s2"
    using residue_scan_calm [OF m(3,2), of ?vs] 2 by (simp_all add: gives_def)
  show ?thesis
  proof (cases r1)
    case (Inl e)
    then show ?thesis using 1 m by (auto simp: Startup_def ctl_simps startable_def)
  next
    case (Inr mode)
    obtain r3 s3 where 3: "half_state_scan mode (PasswordVerifierPath ?dir) ?vs s2 = (r3, s3)" by fastforce
    have h: "r3 = (if list_ex (enc_only ?d) ?vs then half_verdict mode (?d (PasswordVerifierPath ?dir) \<noteq> None) else Inr ())"
      "disk s3 = ?d" "calm s3"
      using half_state_scan_calm [OF b(3,2), of mode "PasswordVerifierPath ?dir" ?vs] 3 by (simp_all add: gives_def)
    have st: "startable C ?dir ?vs m' ?d \<longleftrightarrow> m' = mode \<and> r2 = Inr () \<and> r3 = Inr ()" for m'
      using Inr m(1) b(1) h(1) half_verdict_Inr [of mode "?d (PasswordVerifierPath ?dir) \<noteq> None"]
      by (auto simp: startable_def list_all_iff list_ex_iff)
    show ?thesis
      using 1 2 3 Inr b(2,3) h(2,3) st by (cases r2; cases r3) (simp_all add: Startup_def ctl_simps)
  qed
qed

section \<open>Entering the run mode under faults\<close>

definition vault_files :: "Vault \<Rightarrow> string list" where
  "vault_files v = [ConfigPath v, ConfigPath v @ ''.tmp'', encPath v, encPath v @ ''.tmp'']"

definition state_files :: "string \<Rightarrow> string list" where
  "state_files dir =
     [MarkerPath dir, MarkerPath dir @ ''.tmp'', PasswordVerifierPath dir, PasswordVerifierPath dir @ ''.tmp'',
      SecretsFilePath dir, SecretsFilePath dir @ ''.tmp'']"

text \<open>No two of the files the controller uses have the same path.\<close>

definition layout :: "string \<Rightarrow> Vault list \<Rightarrow> bool" where
  "layout dir vs \<longleftrightarrow> distinct (state_files dir @ concat (map vault_files vs))"

lemma touches_EncryptFile: "touches (set (vault_files v)) (EncryptFile C v pw)"
  unfolding EncryptFile_def
  by (intro touches_and_then touches_mono [OF touches_encrypt_prepare] touches_convert_commit) (auto simp: vault_files_def)

lemma touches_DecryptFile: "touches (set (vault_files v)) (DecryptFile C v pw)"
  unfolding DecryptFile_def
  by (intro touches_and_then touches_mono [OF touches_decrypt_prepare] touches_convert_commit) (auto simp: vault_files_def)

text \<open>A vault between two moments of an encryption: untouched, or its \<open>.enc\<close> holds its configuration.\<close>

definition conv_safe :: "crypto \<Rightarrow> string \<Rightarrow> host \<Rightarrow> host \<Rightarrow> Vault \<Rightarrow> bool" where
  "conv_safe C pw s s' v \<longleftrightarrow>
     disk s' (ConfigPath v) = disk s (ConfigPath v) \<and> disk s' (encPath v) = disk s (encPath v)
     \<or> (\<exists>m. disk s (ConfigPath v) = Some m \<and> disk s' (ConfigPath v) \<in> {Some m, None} \<and> holds_enc C v pw m s')"

definition conv_full :: "crypto \<Rightarrow> string \<Rightarrow> host \<Rightarrow> host \<Rightarrow> Vault \<Rightarrow> bool" where
  "conv_full C pw s s' v \<longleftrightarrow>
     (\<exists>m. disk s (ConfigPath v) = Some m \<and> disk s' (ConfigPath v) = None \<and> holds_enc C v pw m s')"

lemma conv_cong:
  assumes "disk s1 (ConfigPath v) = disk s2 (ConfigPath v)" "disk s1 (encPath v) = disk s2 (encPath v)"
  shows "conv_safe C pw s s1 v = conv_safe C pw s s2 v" "conv_full C pw s s1 v = conv_full C pw s s2 v"
    "conv_safe C pw s1 s v = conv_safe C pw s2 s v" "conv_full C pw s1 s v = conv_full C pw s2 s v"
  using assms by (simp_all add: conv_safe_def conv_full_def holds_enc_def)

lemma EncryptFile_conv:
  assumes "EncryptFile C v pw s = (r, s')"
  shows "conv_safe C pw s s' v" "r = Inr () \<Longrightarrow> conv_full C pw s s' v"
  using EncryptFile_cases [OF assms] by (auto simp: conv_safe_def conv_full_def holds_enc_def)

lemma encrypt_all_cases:
  assumes "encrypt_all C pw vs s = (r, s')" "distinct (concat (map vault_files vs))"
  shows "(\<forall>v\<in>set vs. conv_safe C pw s s' v) \<and> (r = Inr () \<longrightarrow> (\<forall>v\<in>set vs. conv_full C pw s s' v))
    \<and> (\<forall>q. q \<notin> set (concat (map vault_files vs)) \<longrightarrow> disk s' q = disk s q) \<and> rand_oracle s' = rand_oracle s"
  using assms
proof (induction vs arbitrary: s)
  case Nil
  then show ?case by (simp add: ret_def)
next
  case (Cons v vs)
  obtain r1 s1 where e: "EncryptFile C v pw s = (r1, s1)" by fastforce
  have fr: "disk s1 q = disk s q" if "q \<notin> set (vault_files v)" for q
    using touchesD [OF touches_EncryptFile that, of C pw s] e by simp
  have ro: "rand_oracle s1 = rand_oracle s" using touches_EncryptFile [of v C pw] e unfolding touches_def by (metis snd_conv)
  have mine: "ConfigPath w \<in> set (vault_files w)" "encPath w \<in> set (vault_files w)" for w by (simp_all add: vault_files_def)
  have disj: "set (vault_files v) \<inter> set (concat (map vault_files vs)) = {}" using Cons.prems(2) by simp
  have other: "disk s1 (ConfigPath w) = disk s (ConfigPath w)" "disk s1 (encPath w) = disk s (encPath w)" if "w \<in> set vs" for w
    using that disj mine [of w] by (auto intro!: fr)
  show ?case
  proof (cases r1)
    case (Inl x)
    then have "r = Inl x" "s' = s1" using Cons.prems(1) e by (auto simp: and_then_def)
    then show ?thesis using EncryptFile_conv(1) [OF e] fr ro other
      by (auto simp: conv_safe_def)
  next
    case (Inr u)
    then have "encrypt_all C pw vs s1 = (r, s')" using Cons.prems(1) e by (simp add: and_then_def)
    note ih = Cons.IH [OF this]
    have d: "distinct (concat (map vault_files vs))" using Cons.prems(2) by simp
    have v: "disk s' (ConfigPath v) = disk s1 (ConfigPath v)" "disk s' (encPath v) = disk s1 (encPath v)"
      using ih [OF d] disj mine [of v] by blast+
    have "conv_safe C pw s s' v" "conv_full C pw s s' v"
      using EncryptFile_conv [OF e] Inr conv_cong(1,2) [OF v] by auto
    moreover have "conv_safe C pw s s' w" "r = Inr () \<Longrightarrow> conv_full C pw s s' w" if "w \<in> set vs" for w
      using ih [OF d] that conv_cong(3,4) [OF other [OF that]] by auto
    ultimately show ?thesis using ih [OF d] fr ro by simp
  qed
qed

lemma WriteMarker_cases:
  assumes "WriteMarker C f m s = (r, s')"
  shows "disk s' f \<in> {disk s f, Some (marker_bytes C m)} \<and> (r = Inr () \<longrightarrow> disk s' f = Some (marker_bytes C m))"
proof -
  obtain r1 s1 where mk: "os_MkdirAll s = (r1, s1)" by fastforce
  have d: "disk s1 = disk s" using touchesD [OF touches_prims(6) [of "{}"], of _ s] mk by auto
  show ?thesis
  proof (cases r1)
    case (Inl e)
    then show ?thesis using assms mk d by (auto simp: WriteMarker_def and_then_def)
  next
    case (Inr u)
    then have "atomic_replace f (marker_bytes C m) s1 = (r, s')" using assms mk by (simp add: WriteMarker_def and_then_def)
    from atomic_replace_cases [OF this] d show ?thesis by auto
  qed
qed

lemma pv_Set_cases:
  assumes "pv_Set C f pw s = (r, s')" "rand_ok s"
  shows "(disk s' f = disk s f \<and> r \<noteq> Inr ()) \<or> (\<exists>salt. length salt = 16 \<and> disk s' f = Some (verifier_bytes C salt pw))"
proof -
  obtain r1 s1 where rb: "randomBytes 16 s = (r1, s1)" by fastforce
  obtain r2 s2 where mk: "os_MkdirAll s1 = (r2, s2)" by fastforce
  have d: "disk s1 = disk s" "disk s2 = disk s1"
    using touchesD [OF touches_prims(6) [of "{}"], of _ s1] touchesD [OF touches_prims(8) [of "{}"], of _ 16 s] rb mk by auto
  show ?thesis
  proof (cases "pw = [] \<or> (\<exists>e. r1 = Inl e) \<or> (\<exists>e. r2 = Inl e)")
    case True
    then have "disk s' = disk s \<and> r \<noteq> Inr ()"
      using assms(1) rb mk d by (cases "pw = []"; cases r1; cases r2) (auto simp: pv_Set_def and_then_def raise_def)
    then show ?thesis by simp
  next
    case False
    then obtain salt u where ok: "r1 = Inr salt" "r2 = Inr u" "pw \<noteq> []" by (cases r1; cases r2) auto
    then have "atomic_replace f (verifier_bytes C salt pw) s2 = (r, s')"
      using assms(1) rb mk by (simp add: pv_Set_def and_then_def)
    moreover have "length salt = 16" using randomBytes_Inr [OF assms(2)] rb ok(1) by simp
    ultimately show ?thesis using atomic_replace_cases [of f _ s2 r s'] d by auto
  qed
qed

lemma touches_persist:
  assumes "persistSecretsLocked C J (c, s) = (r, (c', s'))"
  shows "c' = c \<and> (\<forall>q. q \<notin> {SecretsFilePath (co_DataDir c), SecretsFilePath (co_DataDir c) @ ''.tmp''} \<longrightarrow> disk s' q = disk s q)"
proof -
  let ?P = "{SecretsFilePath (co_DataDir c), SecretsFilePath (co_DataDir c) @ ''.tmp''}"
  let ?m = "and_then (Encrypt C (reg_Marshal J (co_Secrets c)) (runPassword c)) (\<lambda>p. atomic_replace (SecretsFilePath (co_DataDir c)) p)"
  have "persistSecretsLocked C J (c, s) = on_host ?m (c, s)"
    unfolding persistSecretsLocked_def get_ctl_and_then on_host_and_then
    by (cases "Encrypt C (reg_Marshal J (co_Secrets c)) (runPassword c) s"; cases "fst (Encrypt C (reg_Marshal J (co_Secrets c)) (runPassword c) s)")
      (simp_all add: on_host_def and_then_def)
  moreover have "touches ?P ?m" by (intro touches_and_then touches_Encrypt touches_atomic_replace) auto
  ultimately show ?thesis using assms touchesD [of ?P ?m _ s] by (auto simp: on_host_def Let_def split: prod.splits)
qed

lemma touches_rand: "touches P m \<Longrightarrow> m s = (r, s') \<Longrightarrow> rand_oracle s' = rand_oracle s"
  unfolding touches_def by (metis snd_conv)

lemma touches_LoadCiphertext: "touches P (LoadCiphertext C v pw)"
  unfolding LoadCiphertext_def by (intro touches_and_then touches_prims)

definition accepts :: "crypto \<Rightarrow> string \<Rightarrow> string \<Rightarrow> host \<Rightarrow> bool" where
  "accepts C dir pw s \<longleftrightarrow> (case disk s (PasswordVerifierPath dir) of None \<Rightarrow> False | Some b \<Rightarrow> check_verifier C b pw)"

text \<open>What \<open>EnterRun\<close> leaves behind once all vaults are encrypted.\<close>

lemma EnterRun_tail:
  assumes enc: "encrypt_all C pw (co_Vaults c) s = (Inr (), s1)" and cok: "crypto_ok C" and rok: "rand_ok s1"
    and lay: "layout (co_DataDir c) (co_Vaults c)" and md: "co_Mode c = ModeDefault"
    and run: "EnterRun C J False pw (c, s) = (r, (c', s'))"
  shows "(\<forall>q. q \<notin> set (state_files (co_DataDir c)) \<longrightarrow> disk s' q = disk s1 q)
    \<and> ((disk s' (MarkerPath (co_DataDir c)) = disk s1 (MarkerPath (co_DataDir c)) \<and> r \<noteq> Inr ())
       \<or> (disk s' (MarkerPath (co_DataDir c)) = Some (marker_bytes C ModeRun) \<and> accepts C (co_DataDir c) pw s' \<and> co_Vaults c \<noteq> []
           \<and> (r = Inr () \<longrightarrow> co_Mode c' = ModeRun \<and> runPassword c' = pw)))"
proof -
  let ?dir = "co_DataDir c" and ?vs = "co_Vaults c"
  let ?M = "MarkerPath ?dir" and ?V = "PasswordVerifierPath ?dir" and ?S = "SecretsFilePath ?dir"
  have dis: "distinct (state_files ?dir)" using lay by (simp add: layout_def)
  have nV: "?V \<notin> {?M, ?M @ ''.tmp''}" and nVS: "?V \<notin> {?S, ?S @ ''.tmp''}" and nMS: "?M \<notin> {?S, ?S @ ''.tmp''}"
    and nMV: "?M \<notin> {?V, ?V @ ''.tmp''}"
    using dis unfolding state_files_def by auto
  have out: "q \<notin> {?M, ?M @ ''.tmp''} \<and> q \<notin> {?V, ?V @ ''.tmp''} \<and> q \<notin> {?S, ?S @ ''.tmp''}" if "q \<notin> set (state_files ?dir)" for q
    using that unfolding state_files_def by auto
  obtain r2 s2 where pv: "pv_Set C ?V pw s1 = (r2, s2)" by fastforce
  have t2: "touches {?V, ?V @ ''.tmp''} (pv_Set C ?V pw)" by (rule touches_state(2)) auto
  have f2: "disk s2 q = disk s1 q" if "q \<notin> {?V, ?V @ ''.tmp''}" for q using touchesD [OF t2 that, of s1] pv by simp
  have f2': "q \<notin> set (state_files ?dir) \<Longrightarrow> disk s2 q = disk s1 q" "disk s2 ?M = disk s1 ?M" for q
    using f2 out nMV by blast+
  show ?thesis
  proof (cases "\<exists>u. r2 = Inr u \<and> ?vs \<noteq> []")
    case False
    then have "s' = s2 \<and> r \<noteq> Inr ()"
      using run enc pv md by (auto simp: EnterRun_def ctl_simps checkNotDebugged_def and_then_def ret_def raise_def get_ctl_def
          on_host_def split: sum.splits if_splits)
    then show ?thesis using f2' by simp
  next
    case True
    then have r2: "r2 = Inr ()" and ne: "?vs \<noteq> []" by auto
    obtain salt where salt: "length salt = 16" "disk s2 ?V = Some (verifier_bytes C salt pw)"
      using pv_Set_cases [OF pv rok] r2 by auto
    obtain r3 s3 where ld: "LoadCiphertext C (hd ?vs) pw s2 = (r3, s3)" by fastforce
    have d3: "disk s3 = disk s2" using touchesD [OF touches_LoadCiphertext [of "{}"], of _ C "hd ?vs" pw s2] ld by auto
    show ?thesis
    proof (cases r3)
      case (Inl e)
      then have "s' = s3 \<and> r = Inl e"
        using run enc pv r2 ne ld md by (simp add: EnterRun_def checkNotDebugged_def and_then_def ret_def get_ctl_def on_host_def)
      then show ?thesis using f2' d3 by simp
    next
      case (Inr plain)
      obtain r4 s4 where wm: "WriteMarker C ?M ModeRun s3 = (r4, s4)" by fastforce
      have t4: "touches {?M, ?M @ ''.tmp''} (WriteMarker C ?M ModeRun)" by (rule touches_state(1)) auto
      have f4: "disk s4 q = disk s3 q" if "q \<notin> {?M, ?M @ ''.tmp''}" for q using touchesD [OF t4 that, of s3] wm by simp
      have f4': "q \<notin> set (state_files ?dir) \<Longrightarrow> disk s4 q = disk s1 q" "disk s4 ?V = disk s2 ?V" for q
        using f4 [of q] f4 [OF nV] f2'(1) [of q] out [of q] d3 by auto
      have acc: "check_verifier C (verifier_bytes C salt pw) pw" using check_verifier_bytes [OF cok salt(1)] by simp
      have mk: "disk s4 ?M \<in> {disk s1 ?M, Some (marker_bytes C ModeRun)}" "r4 = Inr () \<Longrightarrow> disk s4 ?M = Some (marker_bytes C ModeRun)"
        using WriteMarker_cases [OF wm] d3 f2'(2) by auto
      show ?thesis
      proof (cases r4)
        case e: (Inl e)
        then have "s' = s4 \<and> r = Inl e"
          using run enc pv r2 ne ld Inr wm md
          by (simp add: EnterRun_def checkNotDebugged_def and_then_def ret_def get_ctl_def on_host_def modify_def)
        then show ?thesis using f4' mk salt(2) acc ne by (auto simp: accepts_def)
      next
        case u: (Inr u)
        let ?c = "(releaseGuard c)\<lparr>co_Guard := Some (NewMemoryGuard C plain), co_Mode := ModeRun, runPassword := pw\<rparr>"
        have ps: "persistSecretsLocked C J (?c, s4) = (r, (c', s'))"
          using run enc pv r2 ne ld Inr wm u md
          by (simp add: EnterRun_def checkNotDebugged_def and_then_def ret_def get_ctl_def on_host_def modify_def)
        have "co_DataDir ?c = ?dir" by (simp add: releaseGuard_def)
        then have c': "c' = ?c" and f5: "disk s' q = disk s4 q" if "q \<notin> {?S, ?S @ ''.tmp''}" for q
          using touches_persist [OF ps] that by auto
        have "c' = ?c" using touches_persist [OF ps] by simp
        moreover have "q \<notin> set (state_files ?dir) \<Longrightarrow> disk s' q = disk s1 q" "disk s' ?V = disk s2 ?V" "disk s' ?M = disk s4 ?M" for q
          using f5 [of q] f5 [OF nVS] f5 [OF nMS] f4'(1) [of q] f4'(2) out [of q] by auto
        ultimately show ?thesis using mk u salt(2) acc ne by (auto simp: accepts_def)
      qed
    qed
  qed
qed

lemma encrypt_all_Inl:
  assumes "encrypt_all C pw (co_Vaults c) s = (Inl e, s1)" "co_Mode c = ModeDefault" "EnterRun C J False pw (c, s) = (r, (c', s'))"
  shows "r = Inl e \<and> s' = s1"
  using assms by (simp add: EnterRun_def checkNotDebugged_def and_then_def ret_def get_ctl_def on_host_def)

lemma marker_bytes_mode:
  "crypto_ok C \<Longrightarrow> d (MarkerPath dir) = Some (marker_bytes C m) \<Longrightarrow> marker_mode C dir d = Inr m"
  by (simp add: marker_mode_def parse_marker_bytes)

text \<open>Where the files stand after \<open>EnterRun\<close>: still with the default marker, or with all vaults converted, the
  verifier and the run marker in place.\<close>

lemma EnterRun_outcome:
  assumes cok: "crypto_ok C" and rok: "rand_ok s" and lay: "layout (co_DataDir c) (co_Vaults c)" and md: "co_Mode c = ModeDefault"
    and run: "EnterRun C J dbg pw (c, s) = (r, (c', s'))"
  shows "(\<forall>v\<in>set (co_Vaults c). conv_safe C pw s s' v)
    \<and> ((disk s' (MarkerPath (co_DataDir c)) = disk s (MarkerPath (co_DataDir c)) \<and> r \<noteq> Inr ())
       \<or> ((\<forall>v\<in>set (co_Vaults c). conv_full C pw s s' v) \<and> disk s' (MarkerPath (co_DataDir c)) = Some (marker_bytes C ModeRun)
           \<and> accepts C (co_DataDir c) pw s' \<and> (r = Inr () \<longrightarrow> co_Mode c' = ModeRun \<and> runPassword c' = pw)))"
proof (cases dbg)
  case True
  then have "s' = s" "r \<noteq> Inr ()"
    using run by (auto simp: EnterRun_def checkNotDebugged_def and_then_def raise_def)
  then show ?thesis by (simp add: conv_safe_def)
next
  case False
  let ?dir = "co_DataDir c" and ?vs = "co_Vaults c"
  have dv: "distinct (concat (map vault_files ?vs))"
    and disj: "set (state_files ?dir) \<inter> set (concat (map vault_files ?vs)) = {}"
    using lay by (simp_all add: layout_def)
  obtain r1 s1 where e: "encrypt_all C pw ?vs s = (r1, s1)" by fastforce
  note ea = encrypt_all_cases [OF e dv]
  have M: "disk s1 (MarkerPath ?dir) = disk s (MarkerPath ?dir)"
    using ea disj by (auto simp: state_files_def)
  show ?thesis
  proof (cases r1)
    case (Inl x)
    then show ?thesis using encrypt_all_Inl [of C pw c s x s1] e md run False ea M by auto
  next
    case (Inr u)
    have rok1: "rand_ok s1" using ea rok by (simp add: rand_ok_def)
    have run': "EnterRun C J False pw (c, s) = (r, (c', s'))" using run False by simp
    have e': "encrypt_all C pw ?vs s = (Inr (), s1)" using e Inr by simp
    note tail = EnterRun_tail [OF e' cok rok1 lay md run']
    have same: "disk s' (ConfigPath v) = disk s1 (ConfigPath v)" "disk s' (encPath v) = disk s1 (encPath v)" if "v \<in> set ?vs" for v
    proof -
      have "ConfigPath v \<notin> set (state_files ?dir)" "encPath v \<notin> set (state_files ?dir)"
        using that disj by (auto simp: vault_files_def)
      then show "disk s' (ConfigPath v) = disk s1 (ConfigPath v)" "disk s' (encPath v) = disk s1 (encPath v)" using tail by auto
    qed
    have "conv_safe C pw s s' v \<and> conv_full C pw s s' v" if "v \<in> set ?vs" for v
      using ea Inr that conv_cong(1,2) [OF same [OF that]] by auto
    then show ?thesis using tail M by auto
  qed
qed

section \<open>Entering and leaving on a calm host\<close>

lemma yields_encrypt_all:
  assumes "crypto_ok C" "distinct (concat (map vault_files vs))"
  shows "calm s \<Longrightarrow> disk s = d \<Longrightarrow> \<forall>v\<in>set vs. \<exists>m. d (ConfigPath v) = Some m \<and> protectable v m \<Longrightarrow> \<exists>d'. yields (encrypt_all C pw vs) s () d'"
  using assms(2)
proof (induction vs arbitrary: s d)
  case Nil
  show ?case by (rule exI [of _ "disk s"]) (simp add: yields_prims(1) Nil(1))
next
  case (Cons v vs)
  then obtain m where m: "d (ConfigPath v) = Some m" "protectable v m" by auto
  obtain p where "yields (EncryptFile C v pw) s () ((d(encPath v @ ''.tmp'' := None, encPath v \<mapsto> p))(ConfigPath v := None))"
    using yields_EncryptFile [OF assms(1) Cons.prems(1,2) m] by blast
  then obtain s1 where s1: "EncryptFile C v pw s = (Inr (), s1)" "calm s1" by (auto dest: yieldsD)
  have fr: "disk s1 q = d q" if "q \<notin> set (vault_files v)" for q
    using touchesD [OF touches_EncryptFile that, of C pw s] s1(1) Cons.prems(2) by simp
  have "\<exists>m. disk s1 (ConfigPath w) = Some m \<and> protectable w m" if "w \<in> set vs" for w
  proof -
    have "ConfigPath w \<notin> set (vault_files v)"
      using Cons.prems(4) that by (auto simp: vault_files_def)
    then show ?thesis using fr Cons.prems(3) that by simp
  qed
  then obtain d' where "yields (encrypt_all C pw vs) s1 () d'" using Cons.IH [OF s1(2) refl] Cons.prems(4) by auto
  then have "yields (encrypt_all C pw (v # vs)) s () d'" using s1(1) by (simp add: yields_def and_then_def)
  then show ?case by blast
qed

lemma yields_decrypt_all:
  assumes "distinct (concat (map vault_files vs))"
  shows "calm s \<Longrightarrow> \<forall>v\<in>set vs. conv_full C pw s0 s v \<Longrightarrow>
    \<exists>d'. yields (decrypt_all C pw vs) s () d' \<and> (\<forall>v\<in>set vs. d' (ConfigPath v) = disk s0 (ConfigPath v) \<and> d' (encPath v) = None)
      \<and> (\<forall>q. q \<notin> set (concat (map vault_files vs)) \<longrightarrow> d' q = disk s q)"
  using assms
proof (induction vs arbitrary: s)
  case Nil
  show ?case by (rule exI [of _ "disk s"]) (simp add: yields_prims(1) Nil(1))
next
  case (Cons v vs)
  then obtain m p where m: "disk s0 (ConfigPath v) = Some m" "disk s (encPath v) = Some p" "decryptPayload C v p pw = Inr m"
    by (auto simp: conv_full_def holds_enc_def split: option.splits)
  from yieldsD [OF yields_DecryptFile [OF Cons.prems(1) refl m(2,3)]]
  obtain s1 where s1: "DecryptFile C v pw s = (Inr (), s1)" "calm s1"
    "disk s1 = ((disk s)(ConfigPath v @ ''.tmp'' := None, ConfigPath v \<mapsto> m))(encPath v := None)" by blast
  have fr: "disk s1 q = disk s q" if "q \<notin> set (vault_files v)" for q
    using touchesD [OF touches_DecryptFile that, of C pw s] s1(1) by simp
  have d: "distinct (concat (map vault_files vs))" using Cons.prems(3) by simp
  have dj: "set (vault_files v) \<inter> set (concat (map vault_files vs)) = {}" using Cons.prems(3) by simp
  have mine: "ConfigPath w \<in> set (vault_files w)" "encPath w \<in> set (vault_files w)" for w by (simp_all add: vault_files_def)
  have "conv_full C pw s0 s1 w" if "w \<in> set vs" for w
  proof -
    have "set (vault_files w) \<subseteq> set (concat (map vault_files vs))" using that by auto
    then have "ConfigPath w \<notin> set (vault_files v)" "encPath w \<notin> set (vault_files v)"
      using dj mine [of w] by blast+
    then have "disk s1 (ConfigPath w) = disk s (ConfigPath w)" "disk s1 (encPath w) = disk s (encPath w)"
      using fr by blast+
    from conv_cong(2) [OF this] show ?thesis using Cons.prems(2) that by simp
  qed
  then obtain d' where d': "yields (decrypt_all C pw vs) s1 () d'"
    "\<forall>v\<in>set vs. d' (ConfigPath v) = disk s0 (ConfigPath v) \<and> d' (encPath v) = None"
    "\<forall>q. q \<notin> set (concat (map vault_files vs)) \<longrightarrow> d' q = disk s1 q"
    using Cons.IH [OF s1(2) _ d] by blast
  have "yields (decrypt_all C pw (v # vs)) s () d'" using d'(1) s1(1) by (simp add: yields_def and_then_def)
  moreover have "d' (ConfigPath v) = Some m" "d' (encPath v) = None"
  proof -
    have "ConfigPath v \<notin> set (concat (map vault_files vs))" "encPath v \<notin> set (concat (map vault_files vs))"
      using dj mine [of v] by blast+
    then have "d' (ConfigPath v) = disk s1 (ConfigPath v)" "d' (encPath v) = disk s1 (encPath v)" using d'(3) by blast+
    then show "d' (ConfigPath v) = Some m" "d' (encPath v) = None" using s1(3) by simp_all
  qed
  ultimately show ?case using d'(2,3) m(1) fr by (intro exI [of _ d']) auto
qed

lemma yields_state:
  assumes "calm s" "disk s = d"
  shows "yields (WriteMarker C f mode) s () ((d(f @ ''.tmp'' := None))(f \<mapsto> marker_bytes C mode))"
    "pw \<noteq> [] \<Longrightarrow> \<exists>salt. length salt = 16 \<and> yields (pv_Set C f pw) s () ((d(f @ ''.tmp'' := None))(f \<mapsto> verifier_bytes C salt pw))"
    "yields (remove_if_there f) s () (d(f := None))"
proof -
  show "yields (WriteMarker C f mode) s () ((d(f @ ''.tmp'' := None))(f \<mapsto> marker_bytes C mode))"
    unfolding WriteMarker_def by (rule yields_and_then [OF yields_prims(4) [OF assms]], rule yields_atomic_replace)
  show "yields (remove_if_there f) s () (d(f := None))"
    using assms by (auto simp: yields_def remove_if_there_def os_Remove_def calm_tick fun_upd_idem)
  obtain salt where salt: "length salt = 16" "yields (randomBytes 16) s salt d" using yields_randomBytes [OF assms] by blast
  show "\<exists>salt. length salt = 16 \<and> yields (pv_Set C f pw) s () ((d(f @ ''.tmp'' := None))(f \<mapsto> verifier_bytes C salt pw))" if "pw \<noteq> []"
  proof (intro exI conjI)
    show "yields (pv_Set C f pw) s () ((d(f @ ''.tmp'' := None))(f \<mapsto> verifier_bytes C salt pw))"
      unfolding pv_Set_def using that
      by simp (rule yields_and_then [OF salt(2)], rule yields_and_then [OF yields_prims(4)], assumption+, rule yields_atomic_replace)
  qed (rule salt(1))
qed

lemma persist_calm:
  assumes "crypto_ok C" "calm s"
  shows "\<exists>s'. persistSecretsLocked C J (c, s) = (Inr (), (c, s')) \<and> calm s'
    \<and> (\<forall>q. q \<notin> {SecretsFilePath (co_DataDir c), SecretsFilePath (co_DataDir c) @ ''.tmp''} \<longrightarrow> disk s' q = disk s q)
    \<and> (\<exists>e. disk s' (SecretsFilePath (co_DataDir c)) = Some e
         \<and> (length e \<le> MaxConfigSize \<longrightarrow> Decrypt C e (runPassword c) = Inr (reg_Marshal J (co_Secrets c))))"
proof -
  let ?S = "SecretsFilePath (co_DataDir c)" and ?m = "reg_Marshal J (co_Secrets c)"
  obtain e where "yields (Encrypt C ?m (runPassword c)) s e (disk s)" using yields_Encrypt [OF assms refl] by blast
  then obtain s1 where s1: "Encrypt C ?m (runPassword c) s = (Inr e, s1)" "disk s1 = disk s" "calm s1" by (auto dest: yieldsD)
  obtain s2 where s2: "atomic_replace ?S e s1 = (Inr (), s2)" "calm s2" "disk s2 = ((disk s)(?S @ ''.tmp'' := None))(?S \<mapsto> e)"
    using yieldsD [OF yields_atomic_replace [OF s1(3,2)]] by blast
  have "persistSecretsLocked C J (c, s) = (Inr (), (c, s2))"
    using s1(1) s2(1) by (simp add: persistSecretsLocked_def and_then_def get_ctl_def on_host_def)
  moreover have "length e \<le> MaxConfigSize \<longrightarrow> Decrypt C e (runPassword c) = Inr ?m"
    using Decrypt_Encrypt [OF assms(1) calm_rand_ok [OF assms(2)] s1(1)] by simp
  moreover have "\<forall>q. q \<notin> {?S, ?S @ ''.tmp''} \<longrightarrow> disk s2 q = disk s q" "disk s2 ?S = Some e" using s2(3) by auto
  ultimately show ?thesis using s2(2) by blast
qed

lemma EnterRun_calm:
  assumes "crypto_ok C" "calm s" "layout (co_DataDir c) (co_Vaults c)" "co_Vaults c \<noteq> []" "pw \<noteq> []" "co_Mode c = ModeDefault"
    and "\<forall>v\<in>set (co_Vaults c). \<exists>m. disk s (ConfigPath v) = Some m \<and> protectable v m"
  shows "\<exists>plain s'. EnterRun C J False pw (c, s) = (Inr (), (c\<lparr>co_Guard := Some (NewMemoryGuard C plain), co_Mode := ModeRun, runPassword := pw\<rparr>, s')) \<and> calm s'"
proof -
  let ?dir = "co_DataDir c" and ?vs = "co_Vaults c"
  have dv: "distinct (concat (map vault_files ?vs))"
    and disj: "set (state_files ?dir) \<inter> set (concat (map vault_files ?vs)) = {}"
    using assms(3) by (simp_all add: layout_def)
  obtain d1 where "yields (encrypt_all C pw ?vs) s () d1" using yields_encrypt_all [OF assms(1) dv assms(2) refl assms(7)] by blast
  then obtain s1 where s1: "encrypt_all C pw ?vs s = (Inr (), s1)" "calm s1" by (auto dest: yieldsD)
  obtain salt where "yields (pv_Set C (PasswordVerifierPath ?dir) pw) s1 ()
      (((disk s1)(PasswordVerifierPath ?dir @ ''.tmp'' := None))(PasswordVerifierPath ?dir \<mapsto> verifier_bytes C salt pw))"
    using yields_state(2) [OF s1(2) refl assms(5)] by blast
  then obtain s2 where s2: "pv_Set C (PasswordVerifierPath ?dir) pw s1 = (Inr (), s2)" "calm s2" by (auto dest: yieldsD)
  obtain v vs where vs: "?vs = v # vs" using assms(4) by (cases ?vs) auto
  have "conv_full C pw s s1 v" using encrypt_all_cases [OF s1(1) dv] vs by simp
  then obtain p m where p: "disk s1 (encPath v) = Some p" "decryptPayload C v p pw = Inr m"
    by (auto simp: conv_full_def holds_enc_def split: option.splits)
  have "encPath v \<notin> {PasswordVerifierPath ?dir, PasswordVerifierPath ?dir @ ''.tmp''}"
    using disj vs by (auto simp: vault_files_def state_files_def)
  moreover have "touches {PasswordVerifierPath ?dir, PasswordVerifierPath ?dir @ ''.tmp''} (pv_Set C (PasswordVerifierPath ?dir) pw)"
    by (rule touches_state(2)) auto
  ultimately have pe: "disk (snd (pv_Set C (PasswordVerifierPath ?dir) pw s1)) (encPath v) = disk s1 (encPath v)"
    by (blast dest: touchesD)
  then have "disk s2 (encPath v) = Some p" using s2(1) p(1) by simp
  from yieldsD [OF yields_LoadCiphertext [OF s2(2) refl this p(2)]]
  obtain s3 where s3: "LoadCiphertext C v pw s2 = (Inr m, s3)" "calm s3" by blast
  obtain s4 where s4: "WriteMarker C (MarkerPath ?dir) ModeRun s3 = (Inr (), s4)" "calm s4"
    using yieldsD [OF yields_state(1) [OF s3(2) refl]] by blast
  let ?c = "c\<lparr>co_Guard := Some (NewMemoryGuard C m), co_Mode := ModeRun, runPassword := pw\<rparr>"
  obtain s5 where s5: "persistSecretsLocked C J (?c, s4) = (Inr (), (?c, s5))" "calm s5"
    using persist_calm [OF assms(1) s4(2)] by blast
  have "EnterRun C J False pw (c, s) = (Inr (), (?c, s5))"
    using assms(6) s1(1) s2(1) vs s3(1) s4(1) s5(1)
    by (simp add: EnterRun_def checkNotDebugged_def and_then_def ret_def get_ctl_def on_host_def modify_def releaseGuard_def)
  then show ?thesis using s5(2) by blast
qed

text \<open>The part of \<open>ExitRun\<close> up to the converted vaults.\<close>

lemma ExitRun_prefix:
  assumes "calm s" "layout (co_DataDir c) (co_Vaults c)" "accepts C (co_DataDir c) pw s" "\<forall>v\<in>set (co_Vaults c). conv_full C pw s0 s v"
  shows "\<exists>s1 s2 s3. observe (pv_Verify C (PasswordVerifierPath (co_DataDir c)) pw) s = (Inr True, s1)
    \<and> remove_if_there (SecretsFilePath (co_DataDir c)) s1 = (Inr (), s2) \<and> decrypt_all C pw (co_Vaults c) s2 = (Inr (), s3) \<and> calm s3
    \<and> (\<forall>v\<in>set (co_Vaults c). disk s3 (ConfigPath v) = disk s0 (ConfigPath v) \<and> disk s3 (encPath v) = None)
    \<and> (\<forall>q. q \<notin> set (concat (map vault_files (co_Vaults c))) \<longrightarrow> disk s3 q = ((disk s)(SecretsFilePath (co_DataDir c) := None)) q)"
proof -
  let ?dir = "co_DataDir c" and ?vs = "co_Vaults c"
  let ?V = "PasswordVerifierPath ?dir" and ?S = "SecretsFilePath ?dir" and ?M = "MarkerPath ?dir"
  let ?vf = "set (concat (map vault_files ?vs))"
  have dv: "distinct (concat (map vault_files ?vs))" and disj: "set (state_files ?dir) \<inter> ?vf = {}"
    using assms(2) by (simp_all add: layout_def)
  have dis: "distinct (state_files ?dir)" using assms(2) by (simp add: layout_def)
  have nvf: "?V \<notin> ?vf" "?S \<notin> ?vf" "?M \<notin> ?vf" "?M @ ''.tmp'' \<notin> ?vf"
    using disj by (auto simp: state_files_def disjoint_iff)
  have neq: "?V \<noteq> ?S" "?V \<noteq> ?M" "?V \<noteq> ?M @ ''.tmp''" "?S \<noteq> ?M" "?S \<noteq> ?M @ ''.tmp''"
    using dis unfolding state_files_def by auto
  have "(case disk s ?V of None \<Rightarrow> False | Some b \<Rightarrow> check_verifier C b pw) = True" using assms(3) by (simp add: accepts_def)
  then have "yields (observe (pv_Verify C ?V pw)) s True (disk s)" using calm_observe(3) [OF assms(1) refl, of C ?V pw] by simp
  then obtain s1 where s1: "observe (pv_Verify C ?V pw) s = (Inr True, s1)" "calm s1" "disk s1 = disk s" by (auto dest: yieldsD)
  obtain s2 where s2: "remove_if_there ?S s1 = (Inr (), s2)" "calm s2" "disk s2 = (disk s)(?S := None)"
    using yieldsD [OF yields_state(3) [OF s1(2,3)]] by blast
  have mine: "ConfigPath w \<in> ?vf" "encPath w \<in> ?vf" if "w \<in> set ?vs" for w using that by (auto simp: vault_files_def)
  have "conv_full C pw s0 s2 v" if "v \<in> set ?vs" for v
  proof -
    have "ConfigPath v \<noteq> ?S" "encPath v \<noteq> ?S" using mine [OF that] nvf(2) by auto
    then have "disk s2 (ConfigPath v) = disk s (ConfigPath v)" "disk s2 (encPath v) = disk s (encPath v)" using s2(3) by simp_all
    from conv_cong(2) [OF this] show ?thesis using assms(4) that by simp
  qed
  then obtain d3 where d3: "yields (decrypt_all C pw ?vs) s2 () d3"
    "\<forall>v\<in>set ?vs. d3 (ConfigPath v) = disk s0 (ConfigPath v) \<and> d3 (encPath v) = None" "\<forall>q. q \<notin> ?vf \<longrightarrow> d3 q = disk s2 q"
    using yields_decrypt_all [OF dv s2(2), of C pw s0] by blast
  obtain s3 where s3: "decrypt_all C pw ?vs s2 = (Inr (), s3)" "disk s3 = d3" "calm s3" using yieldsD [OF d3(1)] by blast
  show ?thesis using s1(1) s2(1) s3 d3(2,3) s2(3) by (intro exI conjI) auto
qed

lemma ExitRun_calm:
  assumes "crypto_ok C" "calm s" "layout (co_DataDir c) (co_Vaults c)" "co_Mode c = ModeRun" "accepts C (co_DataDir c) pw s"
    and "\<forall>v\<in>set (co_Vaults c). conv_full C pw s0 s v" "case co_Guard c of None \<Rightarrow> True | Some g \<Rightarrow> IntegrityOK C g"
  shows "\<exists>s'. ExitRun C False pw (c, s) = (Inr (), (c\<lparr>co_Guard := None, co_Mode := ModeDefault, runPassword := []\<rparr>, s')) \<and> calm s'
    \<and> (\<forall>v\<in>set (co_Vaults c). disk s' (ConfigPath v) = disk s0 (ConfigPath v) \<and> disk s' (encPath v) = None)
    \<and> disk s' (PasswordVerifierPath (co_DataDir c)) = None \<and> disk s' (SecretsFilePath (co_DataDir c)) = None
    \<and> disk s' (MarkerPath (co_DataDir c)) = Some (marker_bytes C ModeDefault)"
proof -
  let ?dir = "co_DataDir c" and ?vs = "co_Vaults c"
  let ?V = "PasswordVerifierPath ?dir" and ?S = "SecretsFilePath ?dir" and ?M = "MarkerPath ?dir"
  let ?vf = "set (concat (map vault_files ?vs))"
  have disj: "set (state_files ?dir) \<inter> ?vf = {}" and dis: "distinct (state_files ?dir)"
    using assms(3) by (simp_all add: layout_def)
  have nvf: "?V \<notin> ?vf" "?S \<notin> ?vf" "?M \<notin> ?vf" "?M @ ''.tmp'' \<notin> ?vf"
    using disj by (auto simp: state_files_def disjoint_iff)
  have neq: "?V \<noteq> ?S" "?V \<noteq> ?M" "?V \<noteq> ?M @ ''.tmp''" "?S \<noteq> ?M" "?S \<noteq> ?M @ ''.tmp''"
    using dis unfolding state_files_def by auto
  have mine: "ConfigPath w \<in> ?vf" "encPath w \<in> ?vf" if "w \<in> set ?vs" for w using that by (auto simp: vault_files_def)
  obtain s1 s2 s3 where s1: "observe (pv_Verify C ?V pw) s = (Inr True, s1)" and s2: "remove_if_there ?S s1 = (Inr (), s2)"
    and s3: "decrypt_all C pw ?vs s2 = (Inr (), s3)" "calm s3"
    and d3: "\<forall>v\<in>set ?vs. disk s3 (ConfigPath v) = disk s0 (ConfigPath v) \<and> disk s3 (encPath v) = None"
      "\<forall>q. q \<notin> ?vf \<longrightarrow> disk s3 q = ((disk s)(?S := None)) q"
    using ExitRun_prefix [OF assms(2,3,5,6)] by blast
  obtain s4 where s4: "pv_Clear ?V s3 = (Inr (), s4)" "calm s4" "disk s4 = (disk s3)(?V := None)"
    using yieldsD [OF yields_state(3) [OF s3(2) refl]] unfolding pv_Clear_def by blast
  obtain s5 where s5: "WriteMarker C ?M ModeDefault s4 = (Inr (), s5)" "calm s5"
    "disk s5 = (((disk s3)(?V := None))(?M @ ''.tmp'' := None))(?M \<mapsto> marker_bytes C ModeDefault)"
    using yieldsD [OF yields_state(1) [OF s4(2,3)]] by blast
  have gd: "(case co_Guard c of None \<Rightarrow> False | Some g \<Rightarrow> \<not> IntegrityOK C g) = False" using assms(7) by (simp split: option.splits)
  have "ExitRun C False pw (c, s) = (Inr (), (c\<lparr>co_Guard := None, co_Mode := ModeDefault, runPassword := []\<rparr>, s5))"
    using assms(4) s1 s2 s3(1) s4(1) s5(1) gd
    by (simp add: ExitRun_def checkNotDebugged_def and_then_def ret_def get_ctl_def on_host_def modify_def releaseGuard_def)
  moreover have "disk s5 ?V = None" "disk s5 ?S = None" "disk s5 ?M = Some (marker_bytes C ModeDefault)"
    using s5(3) neq d3(2) nvf(2) by simp_all
  moreover have "disk s5 (ConfigPath v) = disk s3 (ConfigPath v) \<and> disk s5 (encPath v) = disk s3 (encPath v)" if "v \<in> set ?vs" for v
  proof -
    have "x \<noteq> ?V \<and> x \<noteq> ?M \<and> x \<noteq> ?M @ ''.tmp''" if "x \<in> ?vf" for x using that nvf by blast
    from this [OF mine(1) [OF that]] this [OF mine(2) [OF that]] show ?thesis using s5(3) by simp
  qed
  ultimately show ?thesis using s5(2) d3(1) by simp
qed

section \<open>Properties\<close>



text \<open>C2: Entering the run mode is safe under any failing call and any death of the process. Every vault still has
  its configuration, as plaintext or as an \<open>.enc\<close> that decrypts to it. A restart on the files left behind either
  refuses to start, or starts in the default mode with every plaintext as it was and no \<open>.enc\<close>, or starts in the
  run mode with every vault converted and the verifier accepting the password; the last always holds when
  \<open>EnterRun\<close> reported success.\<close>

theorem enter_run_crash_safe:
  assumes "crypto_ok C" "rand_ok s" "layout dir vs"
    and "marker_mode C dir (disk s) = Inr ModeDefault" "list_all (\<lambda>v. disk s (ConfigPath v) \<noteq> None \<and> disk s (encPath v) = None) vs"
    and "co_Mode c = ModeDefault" "co_DataDir c = dir" "co_Vaults c = vs"
    and "EnterRun C J debugged pw (c, s) = (r, (c', s'))" "calm t" "disk t = disk s'"
  shows "(\<forall>v\<in>set vs. conv_safe C pw s s' v)
    \<and> (case Startup C (NewController dir vs, t) of
         (Inl _, _) \<Rightarrow> r \<noteq> Inr ()
       | (Inr _, (c2, _)) \<Rightarrow>
           (case co_Mode c2 of
              ModeDefault \<Rightarrow> r \<noteq> Inr () \<and> list_all (\<lambda>v. disk t (ConfigPath v) = disk s (ConfigPath v) \<and> disk t (encPath v) = None) vs
            | ModeRun \<Rightarrow> accepts C dir pw t \<and> list_all (conv_full C pw s t) vs))"
proof -
  let ?M = "MarkerPath dir" and ?c = "NewController dir vs"
  have c: "co_DataDir ?c = dir" "co_Vaults ?c = vs" by (simp_all add: NewController_def)
  have oc: "(\<forall>v\<in>set vs. conv_safe C pw s s' v)
    \<and> ((disk s' ?M = disk s ?M \<and> r \<noteq> Inr ())
       \<or> ((\<forall>v\<in>set vs. conv_full C pw s s' v) \<and> disk s' ?M = Some (marker_bytes C ModeRun) \<and> accepts C dir pw s'))"
    using EnterRun_outcome [OF assms(1,2) _ assms(6) assms(9)] assms(3,7,8) by auto
  obtain r2 c2 t2 where st: "Startup C (?c, t) = (r2, (c2, t2))" using prod_cases3 by blast
  from Startup_calm [OF assms(10), of C ?c] st c
  have sc: "case r2 of Inl _ \<Rightarrow> \<forall>m. \<not> startable C dir vs m (disk t) | Inr _ \<Rightarrow> \<exists>m. startable C dir vs m (disk t) \<and> co_Mode c2 = m"
    by (auto split: sum.splits)
  have safe_t: "conv_safe C pw s t v" if "v \<in> set vs" for v
    using oc that conv_cong(1) [of t v s'] assms(11) by auto
  have default: "marker_mode C dir (disk t) = Inr ModeDefault" if "disk s' ?M = disk s ?M"
    using that assms(4,11) by (simp add: marker_mode_def)
  have kept: "disk t (ConfigPath v) = disk s (ConfigPath v) \<and> disk t (encPath v) = None"
    if "startable C dir vs ModeDefault (disk t)" "v \<in> set vs" for v
    using safe_t [OF that(2)] that assms(5)
    by (auto simp: startable_def list_all_iff both_present_def enc_only_def conv_safe_def holds_enc_def split: option.splits)
  have full_t: "conv_full C pw s t v" if "conv_full C pw s s' v" for v
    using that conv_cong(2) [of t v s'] assms(11) by auto
  have acc_t: "accepts C dir pw t = accepts C dir pw s'" using assms(11) by (simp add: accepts_def)
  from oc consider (same) "disk s' ?M = disk s ?M" "r \<noteq> Inr ()"
    | (conv) "\<forall>v\<in>set vs. conv_full C pw s s' v" "disk s' ?M = Some (marker_bytes C ModeRun)" "accepts C dir pw s'"
    by auto
  then show ?thesis
  proof cases
    case same
    have nr: "\<not> startable C dir vs ModeRun (disk t)"
      using default [OF same(1)] by (simp add: startable_def)
    have oc1: "\<forall>v\<in>set vs. conv_safe C pw s s' v" using oc by blast
    show ?thesis
      by (cases r2; cases "co_Mode c2") (use st sc oc1 nr same(2) kept in \<open>auto simp: list_all_iff\<close>)
  next
    case conv
    have mm: "marker_mode C dir (disk t) = Inr ModeRun"
      using marker_bytes_mode [OF assms(1), of "disk t" dir ModeRun] conv(2) assms(11) by simp
    have "startable C dir vs ModeRun (disk t)"
      using mm full_t conv(1,3) assms(11)
      by (auto simp: startable_def list_all_iff both_present_def enc_only_def conv_full_def accepts_def split: option.splits)
    moreover have "m = ModeRun" if "startable C dir vs m (disk t)" for m using that mm by (simp add: startable_def)
    moreover have "\<forall>v\<in>set vs. conv_safe C pw s s' v" using oc by blast
    ultimately show ?thesis
      by (cases r2; cases "co_Mode c2") (use st sc conv full_t acc_t in \<open>auto simp: list_all_iff\<close>)
  qed
qed

text \<open>C4: On a host whose calls work, entering the run mode and leaving it with the same password succeed and
  restore every configuration exactly. In between every plaintext is gone and its \<open>.enc\<close> decrypts to it;
  afterwards no \<open>.enc\<close>, verifier or persisted registry is left, the marker says default, and the password is no
  longer retained. The configurations are such that \<open>EncryptFile\<close> accepts them.\<close>

theorem enter_exit_roundtrip:
  assumes "crypto_ok C" "calm s" "layout (co_DataDir c) (co_Vaults c)" "co_Vaults c \<noteq> []" "pw \<noteq> []" "co_Mode c = ModeDefault"
    and "list_all (\<lambda>v. case disk s (ConfigPath v) of None \<Rightarrow> False | Some m \<Rightarrow> protectable v m) (co_Vaults c)"
  shows "\<exists>c1 s1 c2 s2. EnterRun C J False pw (c, s) = (Inr (), (c1, s1)) \<and> co_Mode c1 = ModeRun
    \<and> list_all (conv_full C pw s s1) (co_Vaults c)
    \<and> ExitRun C False pw (c1, s1) = (Inr (), (c2, s2)) \<and> co_Mode c2 = ModeDefault \<and> runPassword c2 = [] \<and> co_Guard c2 = None
    \<and> list_all (\<lambda>v. disk s2 (ConfigPath v) = disk s (ConfigPath v) \<and> disk s2 (encPath v) = None) (co_Vaults c)
    \<and> disk s2 (PasswordVerifierPath (co_DataDir c)) = None \<and> disk s2 (SecretsFilePath (co_DataDir c)) = None
    \<and> marker_mode C (co_DataDir c) (disk s2) = Inr ModeDefault"
proof -
  have "\<forall>v\<in>set (co_Vaults c). \<exists>m. disk s (ConfigPath v) = Some m \<and> protectable v m"
    using assms(7) by (auto simp: list_all_iff split: option.splits)
  from EnterRun_calm [OF assms(1-6) this] obtain plain s1
    where en: "EnterRun C J False pw (c, s) = (Inr (), (c\<lparr>co_Guard := Some (NewMemoryGuard C plain), co_Mode := ModeRun, runPassword := pw\<rparr>, s1))"
      and s1: "calm s1" by blast
  let ?c = "c\<lparr>co_Guard := Some (NewMemoryGuard C plain), co_Mode := ModeRun, runPassword := pw\<rparr>"
  have oc: "\<forall>v\<in>set (co_Vaults c). conv_full C pw s s1 v" "accepts C (co_DataDir c) pw s1"
    using EnterRun_outcome [OF assms(1) calm_rand_ok [OF assms(2)] assms(3,6) en] by auto
  have "IntegrityOK C (NewMemoryGuard C plain)" using assms(1) by (simp add: IntegrityOK_def NewMemoryGuard_def crypto_ok_def)
  then obtain s2 where ex: "ExitRun C False pw (?c, s1) = (Inr (), (?c\<lparr>co_Guard := None, co_Mode := ModeDefault, runPassword := []\<rparr>, s2))"
    "\<forall>v\<in>set (co_Vaults c). disk s2 (ConfigPath v) = disk s (ConfigPath v) \<and> disk s2 (encPath v) = None"
    "disk s2 (PasswordVerifierPath (co_DataDir c)) = None" "disk s2 (SecretsFilePath (co_DataDir c)) = None"
    "disk s2 (MarkerPath (co_DataDir c)) = Some (marker_bytes C ModeDefault)"
    using ExitRun_calm [OF assms(1) s1, of ?c pw s] assms(3) oc by auto
  show ?thesis
    using en ex oc marker_bytes_mode [OF assms(1), of "disk s2" "co_DataDir c" ModeDefault]
    by (intro exI [of _ ?c] exI [of _ s1] exI [of _ "?c\<lparr>co_Guard := None, co_Mode := ModeDefault, runPassword := []\<rparr>"] exI [of _ s2])
      (simp add: list_all_iff)
qed

definition demo_ctl :: Controller where
  "demo_ctl = NewController ''/data'' [demo_vault]"

definition demo_text :: string where
  "demo_text = ''[b]x'' @ blank_line @ ''y''"

lemma demo_layout: "layout ''/data'' [demo_vault]" "co_DataDir demo_ctl = ''/data''" "co_Vaults demo_ctl = [demo_vault]"
    "co_Mode demo_ctl = ModeDefault"
  by (simp_all add: layout_def demo_ctl_def NewController_def state_files_def vault_files_def MarkerPath_def
      PasswordVerifierPath_def SecretsFilePath_def encPath_def demo_vault_def)

lemma demo_protectable: "protectable demo_vault demo_text"
  by (simp add: protectable_def demo_vault_ok demo_text_def blank_line_def newline_def MaxConfigSize_def)

lemma demo_calm: "calm (demo_host d)"
  by (simp add: calm_def demo_host_def)

lemma enter_exit_roundtrip_witness:
  "\<exists>c1 s1 c2 s2. EnterRun demo_crypto demo_codec False ''pw'' (demo_ctl, demo_host [''/data/k.ini'' \<mapsto> demo_text]) = (Inr (), (c1, s1))
     \<and> ExitRun demo_crypto False ''pw'' (c1, s1) = (Inr (), (c2, s2)) \<and> disk s2 ''/data/k.ini'' = Some demo_text"
proof -
  let ?s = "demo_host [''/data/k.ini'' \<mapsto> demo_text]"
  have l: "layout (co_DataDir demo_ctl) (co_Vaults demo_ctl)" "co_Vaults demo_ctl \<noteq> []" using demo_layout by simp_all
  have ok: "list_all (\<lambda>v. case disk ?s (ConfigPath v) of None \<Rightarrow> False | Some m \<Rightarrow> protectable v m) (co_Vaults demo_ctl)"
    using demo_protectable by (simp add: demo_layout demo_host_ok demo_vault_def)
  have pw: "''pw'' \<noteq> []" by simp
  have cp: "ConfigPath demo_vault = ''/data/k.ini''" by (simp add: demo_vault_def)
  from enter_exit_roundtrip [OF demo_crypto_ok demo_calm l pw demo_layout(4) ok, of demo_codec] show ?thesis
    by (fastforce simp: demo_layout demo_host_ok cp)
qed

text \<open>The process dies at the tenth call.\<close>

lemma enter_run_crash_safe_witness:
  "let s = (demo_host [''/data/k.ini'' \<mapsto> demo_text])\<lparr>faults := (\<lambda>n. if n = 9 then Dies 0 else Works)\<rparr>;
       s' = snd (snd (EnterRun demo_crypto demo_codec False ''pw'' (demo_ctl, s)))
   in conv_safe demo_crypto ''pw'' s s' demo_vault"
proof -
  let ?s = "(demo_host [''/data/k.ini'' \<mapsto> demo_text])\<lparr>faults := (\<lambda>n. if n = 9 then Dies 0 else Works)\<rparr>"
  obtain r c' s' where e: "EnterRun demo_crypto demo_codec False ''pw'' (demo_ctl, ?s) = (r, (c', s'))" using prod_cases3 by blast
  have h: "rand_ok ?s" "marker_mode demo_crypto ''/data'' (disk ?s) = Inr ModeDefault"
    "list_all (\<lambda>v. disk ?s (ConfigPath v) \<noteq> None \<and> disk ?s (encPath v) = None) [demo_vault]"
    "calm (demo_host (disk s'))" "disk (demo_host (disk s')) = disk s'"
    by (simp_all add: rand_ok_def demo_host_def marker_mode_def MarkerPath_def encPath_def demo_vault_def calm_def)
  from enter_run_crash_safe [OF demo_crypto_ok h(1) demo_layout(1) h(2,3) demo_layout(4,2,3) e h(4,5)]
  show ?thesis by (simp add: e)
qed

text \<open>The persisted registry survives a restart. In the run mode with the password retained \<open>PersistSecrets\<close>
  succeeds on a working host, and \<open>LoadSecrets\<close> with that password then gives any controller on the same directory
  exactly the registry that was persisted. A file that does not decrypt is an error that leaves the registry and
  the file as they were; a missing file leaves the registry alone.\<close>

theorem persisted_registry_roundtrip:
  assumes "crypto_ok C" "calm s" "co_Mode c = ModeRun" "runPassword c \<noteq> []" "codec_reads J (co_Secrets c)" "reg_wf (co_Secrets c)"
    and "length (json_Marshal J (co_Secrets c)) + 133 \<le> MaxConfigSize" "co_DataDir c' = co_DataDir c"
  shows "\<exists>s'. PersistSecrets C J (c, s) = (Inr (), (c, s')) \<and> calm s'
    \<and> (\<exists>s''. LoadSecrets C J (runPassword c) (c', s') = (Inr (), (c'\<lparr>co_Secrets := co_Secrets c\<rparr>, s'')) \<and> disk s'' = disk s')
    \<and> (case disk s' (SecretsFilePath (co_DataDir c)) of
         None \<Rightarrow> False
       | Some e \<Rightarrow>
           (case Decrypt C e pw of
              Inl err \<Rightarrow> \<exists>s''. LoadSecrets C J pw (c', s') = (Inl err, (c', s'')) \<and> disk s'' = disk s'
            | Inr _ \<Rightarrow> True))"
proof -
  let ?S = "SecretsFilePath (co_DataDir c)" and ?m = "reg_Marshal J (co_Secrets c)"
  obtain e where "yields (Encrypt C ?m (runPassword c)) s e (disk s)" using yields_Encrypt [OF assms(1,2) refl] by blast
  then obtain s1 where s1: "Encrypt C ?m (runPassword c) s = (Inr e, s1)" "disk s1 = disk s" "calm s1" by (auto dest: yieldsD)
  obtain s2 where s2: "atomic_replace ?S e s1 = (Inr (), s2)" "calm s2" "disk s2 = ((disk s)(?S @ ''.tmp'' := None))(?S \<mapsto> e)"
    using yieldsD [OF yields_atomic_replace [OF s1(3,2)]] by blast
  have ps: "PersistSecrets C J (c, s) = (Inr (), (c, s2))"
    using s1(1) s2(1) assms(3,4) by (simp add: PersistSecrets_def persistSecretsLocked_def and_then_def get_ctl_def on_host_def)
  have "length e \<le> MaxConfigSize" using Decrypt_Encrypt [OF assms(1) calm_rand_ok [OF assms(2)] s1(1)] assms(7) by (simp add: reg_Marshal_def)
  then have dec: "Decrypt C e (runPassword c) = Inr ?m" using Decrypt_Encrypt [OF assms(1) calm_rand_ok [OF assms(2)] s1(1)] by simp
  have f: "disk s2 ?S = Some e" using s2(3) by simp
  obtain s3 where s3: "os_ReadFile ?S s2 = (Inr e, s3)" "disk s3 = disk s2"
    using yieldsD [OF yields_prims(5) [OF s2(2) refl f]] by blast
  have "LoadSecrets C J (runPassword c) (c', s2) = (Inr (), (c'\<lparr>co_Secrets := co_Secrets c\<rparr>, s3))"
    using s3(1) dec reg_Unmarshal_Marshal [OF assms(5,6)] assms(8)
    by (simp add: LoadSecrets_def loadSecretsLocked_def read_secrets_def and_then_def get_ctl_def on_host_def modify_def)
  moreover have "LoadSecrets C J pw (c', s2) = (Inl err, (c', s3))" if "Decrypt C e pw = Inl err" for err
    using s3(1) that assms(8)
    by (simp add: LoadSecrets_def loadSecretsLocked_def read_secrets_def and_then_def get_ctl_def on_host_def)
  ultimately show ?thesis using ps s2(2) s3(2) f by (intro exI [of _ s2]) (auto split: sum.splits)
qed

lemma persisted_registry_roundtrip_witness:
  "let r = [''fp'' \<mapsto> \<lparr>sec_AgentID = ''ann'', sec_Password = ''x'', sec_UpdatedAt = 1\<rparr>];
       J = \<lparr>json_Marshal = (\<lambda>_. ''reg''), json_Unmarshal = (\<lambda>_. Some (Some [(''fp'', \<lparr>sec_AgentID = ''ann'', sec_Password = ''x'', sec_UpdatedAt = 1\<rparr>)]))\<rparr>;
       c = demo_ctl\<lparr>co_Mode := ModeRun, runPassword := ''pw'', co_Secrets := r\<rparr>
   in \<exists>s' s''. PersistSecrets demo_crypto J (c, demo_host Map.empty) = (Inr (), (c, s'))
      \<and> LoadSecrets demo_crypto J ''pw'' (demo_ctl, s') = (Inr (), (demo_ctl\<lparr>co_Secrets := r\<rparr>, s''))"
proof -
  let ?e = "\<lparr>sec_AgentID = ''ann'', sec_Password = ''x'', sec_UpdatedAt = 1\<rparr>"
  let ?r = "[''fp'' \<mapsto> ?e]"
  let ?J = "\<lparr>json_Marshal = (\<lambda>_. ''reg''), json_Unmarshal = (\<lambda>_. Some (Some [(''fp'', ?e)]))\<rparr>"
  let ?c = "demo_ctl\<lparr>co_Mode := ModeRun, runPassword := ''pw'', co_Secrets := ?r\<rparr>"
  have h: "co_Mode ?c = ModeRun" "runPassword ?c \<noteq> []" "codec_reads ?J (co_Secrets ?c)" "reg_wf (co_Secrets ?c)"
    "length (json_Marshal ?J (co_Secrets ?c)) + 133 \<le> MaxConfigSize" "co_DataDir demo_ctl = co_DataDir ?c"
    by (simp_all add: codec_reads_def reg_wf_def MaxConfigSize_def)
  from persisted_registry_roundtrip [OF demo_crypto_ok demo_calm h, of Map.empty "[]"]
  show ?thesis by auto
qed

end
