(* ===== verification/Secure_Lockout.thy ===== *)
theory Secure_Lockout
  imports Secure_Controller
begin

text \<open>
  What the controller can no longer undo: the states in which no password is accepted and opens the first vault.
  They are kept by every operation, and one failing call inside \<open>ExitRun\<close> leads to one.
\<close>

datatype sm_op =
  OpEnter bool string
| OpExit bool string
| OpSetPassword bool string string
| OpUnlock bool string
| OpPersist
| OpLoad string

definition op_run :: "crypto \<Rightarrow> codec \<Rightarrow> sm_op \<Rightarrow> unit ctl" where
  "op_run C J op =
     (case op of
        OpEnter dbg pw \<Rightarrow> EnterRun C J dbg pw
      | OpExit dbg pw \<Rightarrow> ExitRun C dbg pw
      | OpSetPassword dbg old new \<Rightarrow> SetPassword C J dbg old new
      | OpUnlock dbg pw \<Rightarrow> Unlock C J dbg pw
      | OpPersist \<Rightarrow> PersistSecrets C J
      | OpLoad pw \<Rightarrow> LoadSecrets C J pw)"

fun run_ops :: "crypto \<Rightarrow> codec \<Rightarrow> sm_op list \<Rightarrow> Controller \<times> host \<Rightarrow> (sm_error + unit) list \<times> (Controller \<times> host)" where
  "run_ops C J [] cs = ([], cs)"
| "run_ops C J (op # ops) cs =
     (let (r, cs1) = op_run C J op cs; (rs, cs2) = run_ops C J ops cs1 in (r # rs, cs2))"

text \<open>The operations that need the password.\<close>

definition needs_password :: "sm_op \<Rightarrow> bool" where
  "needs_password op = (case op of OpExit _ _ \<Rightarrow> True | OpSetPassword _ _ _ \<Rightarrow> True | OpUnlock _ _ \<Rightarrow> True | _ \<Rightarrow> False)"

definition opens :: "crypto \<Rightarrow> Vault \<Rightarrow> string \<Rightarrow> host \<Rightarrow> bool" where
  "opens C v pw s \<longleftrightarrow>
     (case disk s (encPath v) of None \<Rightarrow> False | Some p \<Rightarrow> (case decryptPayload C v p pw of Inl _ \<Rightarrow> False | Inr _ \<Rightarrow> True))"

definition locked_out :: "crypto \<Rightarrow> Controller \<Rightarrow> host \<Rightarrow> bool" where
  "locked_out C c s \<longleftrightarrow> co_Mode c = ModeRun
     \<and> (case co_Vaults c of [] \<Rightarrow> False | v # _ \<Rightarrow> \<forall>pw. \<not> (accepts C (co_DataDir c) pw s \<and> opens C v pw s))"

section \<open>Nothing unlocks\<close>

lemma DecryptFile_not_open:
  assumes "DecryptFile C v pw s = (r, s')" "\<not> opens C v pw s"
  shows "(\<exists>e. r = Inl e) \<and> disk s' = disk s"
proof (cases "disk s (encPath v)")
  case (Some p)
  then obtain e where "decryptPayload C v p pw = Inl e" using assms(2) by (auto simp: opens_def split: sum.splits)
  from wrong_password_changes_nothing [OF assms(1) Some this] show ?thesis by simp
next
  case None
  obtain r1 s1 where rd: "os_ReadFile (encPath v) s = (r1, s1)" by fastforce
  have "disk s1 = disk s" using touchesD [OF touches_prims(4) [of "{}" "encPath v"], of _ s] rd by auto
  moreover obtain e where "r1 = Inl e" using os_ReadFile_Inr [of "encPath v" s] rd None by (cases r1) auto
  ultimately show ?thesis
    using assms(1) rd by (auto simp: DecryptFile_def decrypt_prepare_def and_then_def Let_def)
qed

lemma LoadCiphertext_not_open:
  assumes "LoadCiphertext C v pw s = (r, s')" "\<not> opens C v pw s"
  shows "\<exists>e. r = Inl e"
proof -
  obtain r1 s1 where rd: "os_ReadFile (encPath v) s = (r1, s1)" by fastforce
  show ?thesis
  proof (cases r1)
    case (Inl e)
    then show ?thesis using assms(1) rd by (auto simp: LoadCiphertext_def and_then_def)
  next
    case (Inr p)
    then have "disk s (encPath v) = Some p" using os_ReadFile_Inr rd by blast
    then show ?thesis using assms rd Inr
      by (auto simp: LoadCiphertext_def and_then_def from_sum_def opens_def split: sum.splits)
  qed
qed

lemma pv_Verify_good:
  assumes "observe (pv_Verify C (PasswordVerifierPath dir) pw) s = (r, s')"
  shows "disk s' = disk s \<and> (\<exists>b. r = Inr b \<and> (b \<longrightarrow> accepts C dir pw s))"
proof -
  obtain r1 s1 where rd: "os_ReadFile (PasswordVerifierPath dir) s = (r1, s1)" by fastforce
  have "disk s1 = disk s" using touchesD [OF touches_prims(4) [of "{}"], of _ "PasswordVerifierPath dir" s] rd by auto
  moreover have "disk s (PasswordVerifierPath dir) = Some d" if "r1 = Inr d" for d
    using os_ReadFile_Inr rd that by blast
  ultimately show ?thesis using assms rd
    by (cases r1) (auto simp: observe_def pv_Verify_def accepts_def)
qed

lemma locked_out_cong:
  assumes "co_Mode c' = co_Mode c" "co_Vaults c' = co_Vaults c" "co_DataDir c' = co_DataDir c"
    and "disk s' (PasswordVerifierPath (co_DataDir c)) = disk s (PasswordVerifierPath (co_DataDir c))"
    and "\<forall>v\<in>set (co_Vaults c). disk s' (encPath v) = disk s (encPath v)"
  shows "locked_out C c' s' = locked_out C c s"
  using assms by (auto simp: locked_out_def accepts_def opens_def split: list.splits)

lemma snd_remove_if_there: "snd (remove_if_there f s) = snd (os_Remove f s)"
  by (simp add: remove_if_there_def split: prod.splits sum.splits sm_error.splits)

lemma touches_remove_if_there: "f \<in> P \<Longrightarrow> touches P (remove_if_there f)"
  using touches_prims(10) [of f P] by (simp add: touches_def snd_remove_if_there)

text \<open>\<open>stays c s c' s'\<close>: the controller and the vaults are where they were, up to the registry and the retained
  password.\<close>

definition stays :: "Controller \<Rightarrow> host \<Rightarrow> Controller \<Rightarrow> host \<Rightarrow> bool" where
  "stays c s c' s' \<longleftrightarrow> co_Mode c' = co_Mode c \<and> co_Vaults c' = co_Vaults c \<and> co_DataDir c' = co_DataDir c
     \<and> (\<forall>q. q \<notin> {SecretsFilePath (co_DataDir c), SecretsFilePath (co_DataDir c) @ ''.tmp''} \<longrightarrow> disk s' q = disk s q)"

lemma stays_refl: "stays c s c s"
  by (simp add: stays_def)

lemma exit_locked:
  assumes "locked_out C c s" "layout (co_DataDir c) (co_Vaults c)" "ExitRun C dbg pw (c, s) = (r, (c', s'))"
  shows "(\<exists>e. r = Inl e) \<and> stays c s c' s'"
proof -
  let ?V = "PasswordVerifierPath (co_DataDir c)" and ?S = "SecretsFilePath (co_DataDir c)"
  obtain v vs where vs: "co_Vaults c = v # vs" and md: "co_Mode c = ModeRun"
    and no: "\<And>pw. \<not> (accepts C (co_DataDir c) pw s \<and> opens C v pw s)"
    using assms(1) by (auto simp: locked_out_def split: list.splits)
  obtain r1 s1 where pv: "observe (pv_Verify C ?V pw) s = (r1, s1)" by fastforce
  obtain b where b: "r1 = Inr b" "b \<Longrightarrow> accepts C (co_DataDir c) pw s" "disk s1 = disk s" using pv_Verify_good [OF pv] by auto
  let ?ok = "b \<and> (case co_Guard c of None \<Rightarrow> True | Some g \<Rightarrow> IntegrityOK C g)"
  show ?thesis
  proof (cases "dbg \<or> \<not> ?ok")
    case True
    then have "(\<exists>e. r = Inl e) \<and> c' = c \<and> (s' = s \<or> s' = s1)"
      using assms(3) pv b(1) md
      by (auto simp: ExitRun_def checkNotDebugged_def and_then_def ret_def raise_def get_ctl_def on_host_def split: if_splits option.splits)
    then show ?thesis using b(3) by (auto simp: stays_def)
  next
    case False
    let ?c = "c\<lparr>runPassword := []\<rparr>"
    obtain r2 s2 where rm: "remove_if_there ?S s1 = (r2, s2)" by fastforce
    have d2: "disk s2 q = disk s q" if "q \<noteq> ?S" for q
      using touchesD [OF touches_remove_if_there [of ?S "{?S}"], of q s1] rm that b(3) by simp
    have g: "(case co_Guard c of None \<Rightarrow> False | Some g \<Rightarrow> \<not> IntegrityOK C g) = False" using False by (simp split: option.splits)
    show ?thesis
    proof (cases r2)
      case (Inl e)
      then have "r = Inl e" "c' = ?c" "s' = s2" using assms(3) False pv b(1) md g rm
        by (simp_all add: ExitRun_def checkNotDebugged_def and_then_def ret_def get_ctl_def on_host_def modify_def)
      then show ?thesis using d2 by (simp add: stays_def)
    next
      case (Inr u)
      obtain r3 s3 where de: "DecryptFile C v pw s2 = (r3, s3)" by fastforce
      have "encPath v \<noteq> ?S" using assms(2) vs by (auto simp: layout_def state_files_def vault_files_def)
      then have "opens C v pw s2 = opens C v pw s" using d2 by (simp add: opens_def)
      then obtain e where e: "r3 = Inl e" "disk s3 = disk s2" using DecryptFile_not_open [OF de] no [of pw] False b(2) by auto
      have "r = Inl e" "c' = ?c" "s' = s3" using assms(3) False pv b(1) md g rm Inr de e(1) vs
        by (simp_all add: ExitRun_def checkNotDebugged_def and_then_def ret_def get_ctl_def on_host_def modify_def)
      then show ?thesis using d2 e(2) by (simp add: stays_def)
    qed
  qed
qed

lemma unlock_locked:
  assumes "locked_out C c s" "Unlock C J dbg pw (c, s) = (r, (c', s'))"
  shows "(\<exists>e. r = Inl e) \<and> stays c s c' s'"
proof -
  let ?V = "PasswordVerifierPath (co_DataDir c)"
  obtain v vs where vs: "co_Vaults c = v # vs" and md: "co_Mode c = ModeRun"
    and no: "\<And>pw. \<not> (accepts C (co_DataDir c) pw s \<and> opens C v pw s)"
    using assms(1) by (auto simp: locked_out_def split: list.splits)
  obtain r1 s1 where pv: "observe (pv_Verify C ?V pw) s = (r1, s1)" by fastforce
  obtain b where b: "r1 = Inr b" "b \<Longrightarrow> accepts C (co_DataDir c) pw s" "disk s1 = disk s" using pv_Verify_good [OF pv] by auto
  obtain r2 s2 where ld: "LoadCiphertext C v pw s1 = (r2, s2)" by fastforce
  have d2: "disk s2 = disk s1" using touchesD [OF touches_LoadCiphertext [of "{}"], of _ C v pw s1] ld by auto
  have op: "opens C v pw s1 = opens C v pw s" using b(3) by (simp add: opens_def)
  show ?thesis
  proof (cases "dbg \<or> \<not> b")
    case True
    then have "(\<exists>e. r = Inl e) \<and> c' = c \<and> (s' = s \<or> s' = s1)"
      using assms(2) pv b(1) md
      by (auto simp: Unlock_def checkNotDebugged_def and_then_def ret_def raise_def get_ctl_def on_host_def split: if_splits)
    then show ?thesis using b(3) by (auto simp: stays_def)
  next
    case False
    obtain e where e: "r2 = Inl e" using LoadCiphertext_not_open [OF ld] no [of pw] False b(2) op by auto
    then have "r = Inl e" "c' = c" "s' = s2" using assms(2) False pv b(1) md vs ld
      by (simp_all add: Unlock_def checkNotDebugged_def and_then_def ret_def get_ctl_def on_host_def)
    then show ?thesis using d2 b(3) by (simp add: stays_def)
  qed
qed

lemma set_password_locked:
  assumes "locked_out C c s" "SetPassword C J dbg old new (c, s) = (r, (c', s'))"
  shows "(\<exists>e. r = Inl e) \<and> stays c s c' s'"
proof -
  let ?V = "PasswordVerifierPath (co_DataDir c)"
  obtain v vs where vs: "co_Vaults c = v # vs" and md: "co_Mode c = ModeRun"
    and no: "\<And>pw. \<not> (accepts C (co_DataDir c) pw s \<and> opens C v pw s)"
    using assms(1) by (auto simp: locked_out_def split: list.splits)
  obtain r1 s1 where pv: "observe (pv_Verify C ?V old) s = (r1, s1)" by fastforce
  obtain b where b: "r1 = Inr b" "b \<Longrightarrow> accepts C (co_DataDir c) old s" "disk s1 = disk s" using pv_Verify_good [OF pv] by auto
  obtain r2 s2 where ld: "LoadCiphertext C v old s1 = (r2, s2)" by fastforce
  have d2: "disk s2 = disk s1" using touchesD [OF touches_LoadCiphertext [of "{}"], of _ C v old s1] ld by auto
  have op: "opens C v old s1 = opens C v old s" using b(3) by (simp add: opens_def)
  show ?thesis
  proof (cases "dbg \<or> \<not> b")
    case True
    then have "(\<exists>e. r = Inl e) \<and> c' = c \<and> (s' = s \<or> s' = s1)"
      using assms(2) pv b(1) md
      by (auto simp: SetPassword_def checkNotDebugged_def and_then_def ret_def raise_def get_ctl_def on_host_def split: if_splits)
    then show ?thesis using b(3) by (auto simp: stays_def)
  next
    case False
    obtain e where e: "r2 = Inl e" using LoadCiphertext_not_open [OF ld] no [of old] False b(2) op by auto
    then have "load_all C old (co_Vaults c) s1 = (Inl e, s2)" using vs ld by (simp add: and_then_def)
    then have "r = Inl e" "c' = c" "s' = s2" using assms(2) False pv b(1) md
      by (simp_all add: SetPassword_def checkNotDebugged_def and_then_def ret_def get_ctl_def on_host_def)
    then show ?thesis using d2 b(3) by (simp add: stays_def)
  qed
qed

lemma persist_stays: "PersistSecrets C J (c, s) = (r, (c', s')) \<Longrightarrow> stays c s c' s'"
  using touches_persist [of C J c s r c' s']
  by (auto simp: PersistSecrets_def get_ctl_and_then ret_def raise_def stays_def split: if_splits)

lemma load_stays: "LoadSecrets C J pw (c, s) = (r, (c', s')) \<Longrightarrow> stays c s c' s'"
proof -
  assume a: "LoadSecrets C J pw (c, s) = (r, (c', s'))"
  let ?S = "SecretsFilePath (co_DataDir c)"
  obtain r1 s1 where rd: "os_ReadFile ?S s = (r1, s1)" by fastforce
  obtain r2 s2 where rs: "read_secrets C J ?S pw s = (r2, s2)" by fastforce
  have "s2 = s1" using rs rd by (auto simp: read_secrets_def split: sum.splits sm_error.splits)
  moreover have "disk s1 = disk s" using touchesD [OF touches_prims(4) [of "{}"], of _ ?S s] rd by auto
  ultimately have "disk s2 = disk s" by simp
  then show ?thesis using a rs
    by (auto simp: LoadSecrets_def loadSecretsLocked_def get_ctl_and_then on_host_and_then modify_def ret_def stays_def
        split: sum.splits option.splits)
qed

lemma op_locked:
  assumes "locked_out C c s" "layout (co_DataDir c) (co_Vaults c)" "op_run C J op (c, s) = (r, (c', s'))"
  shows "stays c s c' s' \<and> (needs_password op \<longrightarrow> (\<exists>e. r = Inl e))"
proof (cases op)
  case (OpEnter dbg pw)
  have "co_Mode c = ModeRun" using assms(1) by (simp add: locked_out_def)
  then have "c' = c \<and> s' = s" using assms(3) OpEnter
    by (cases dbg) (simp_all add: op_run_def EnterRun_def checkNotDebugged_def and_then_def ret_def raise_def get_ctl_def)
  then show ?thesis using OpEnter by (simp add: stays_refl needs_password_def)
qed (use assms exit_locked unlock_locked set_password_locked persist_stays load_stays in
    \<open>auto simp: op_run_def needs_password_def\<close>)

lemma stays_locked:
  assumes "stays c s c' s'" "locked_out C c s" "layout (co_DataDir c) (co_Vaults c)"
  shows "locked_out C c' s'"
proof -
  let ?S = "SecretsFilePath (co_DataDir c)" and ?V = "PasswordVerifierPath (co_DataDir c)"
  have "?V \<notin> {?S, ?S @ ''.tmp''}" using assms(3) by (auto simp: layout_def state_files_def)
  moreover have "encPath v \<notin> {?S, ?S @ ''.tmp''}" if "v \<in> set (co_Vaults c)" for v
    using assms(3) that by (fastforce simp: layout_def state_files_def vault_files_def)
  ultimately show ?thesis using locked_out_cong [of c' c s' s C] assms(1,2) by (simp add: stays_def)
qed

section \<open>One failing call\<close>

text \<open>A computation only looks at the oracle between the calls made before and after it.\<close>

definition oracle_local :: "'a io \<Rightarrow> bool" where
  "oracle_local m \<longleftrightarrow> (\<forall>s. calls_made s \<le> calls_made (snd (m s)) \<and> faults (snd (m s)) = faults s
     \<and> (\<forall>f. (\<forall>n. calls_made s \<le> n \<and> n < calls_made (snd (m s)) \<longrightarrow> f n = faults s n)
          \<longrightarrow> m (s\<lparr>faults := f\<rparr>) = (fst (m s), (snd (m s))\<lparr>faults := f\<rparr>)))"

lemma oracle_localD:
  assumes "oracle_local m" "m s = (r, s')"
  shows "calls_made s \<le> calls_made s'" "faults s' = faults s"
    "(\<And>n. calls_made s \<le> n \<Longrightarrow> n < calls_made s' \<Longrightarrow> f n = faults s n) \<Longrightarrow> m (s\<lparr>faults := f\<rparr>) = (r, s'\<lparr>faults := f\<rparr>)"
  using assms(1) [unfolded oracle_local_def, rule_format, of s] assms(2) by auto

lemma oracle_local_prims:
  "oracle_local (ret x)" "oracle_local (raise e)" "oracle_local (from_sum r)" "oracle_local os_check"
  "oracle_local (os_ReadFile p)" "oracle_local (os_WriteFile p d)" "oracle_local (os_Rename p q)" "oracle_local (os_Remove p)"
  by (auto simp: oracle_local_def ret_def raise_def from_sum_def os_check_def os_ReadFile_def os_WriteFile_def os_Rename_def
      os_Remove_def tick_def Let_def split: fault.splits option.splits)

text \<open>The general form of the sequencing operators.\<close>

definition branch :: "'a io \<Rightarrow> (sm_error \<Rightarrow> 'b io) \<Rightarrow> ('a \<Rightarrow> 'b io) \<Rightarrow> 'b io" where
  "branch m f g = (\<lambda>s. case m s of (Inl e, s') \<Rightarrow> f e s' | (Inr x, s') \<Rightarrow> g x s')"

lemma oracle_local_branch:
  assumes m: "oracle_local m" and f: "\<And>x. oracle_local (f x)" and g: "\<And>x. oracle_local (g x)"
  shows "oracle_local (branch m f g)"
  unfolding oracle_local_def
proof (rule allI)
  fix s
  obtain r1 s1 where 1: "m s = (r1, s1)" by fastforce
  define k where "k = (case r1 of Inl e \<Rightarrow> f e | Inr x \<Rightarrow> g x)"
  have k: "oracle_local k" using f g by (simp add: k_def split: sum.splits)
  obtain r2 s2 where 2: "k s1 = (r2, s2)" by fastforce
  have b: "branch m f g s = (r2, s2)" using 1 2 by (simp add: branch_def k_def split: sum.splits)
  note l1 = oracle_localD [OF m 1] and l2 = oracle_localD [OF k 2]
  have "branch m f g (s\<lparr>faults := h\<rparr>) = (r2, s2\<lparr>faults := h\<rparr>)"
    if h: "\<forall>n. calls_made s \<le> n \<and> n < calls_made s2 \<longrightarrow> h n = faults s n" for h
  proof -
    have "m (s\<lparr>faults := h\<rparr>) = (r1, s1\<lparr>faults := h\<rparr>)" by (rule l1(3)) (use h l2(1) in auto)
    moreover have "k (s1\<lparr>faults := h\<rparr>) = (r2, s2\<lparr>faults := h\<rparr>)" by (rule l2(3)) (use h l1(1,2) in auto)
    ultimately show ?thesis by (simp add: branch_def k_def split: sum.splits)
  qed
  then show "calls_made s \<le> calls_made (snd (branch m f g s)) \<and> faults (snd (branch m f g s)) = faults s
     \<and> (\<forall>h. (\<forall>n. calls_made s \<le> n \<and> n < calls_made (snd (branch m f g s)) \<longrightarrow> h n = faults s n)
          \<longrightarrow> branch m f g (s\<lparr>faults := h\<rparr>) = (fst (branch m f g s), (snd (branch m f g s))\<lparr>faults := h\<rparr>))"
    using b l1(1,2) l2(1,2) by auto
qed

lemma branch_forms:
  "and_then m f = branch m raise f"
  "or_else m c = branch m (\<lambda>e. branch c (\<lambda>_. raise e) (\<lambda>_. raise e)) ret"
  "observe (pv_Verify C p pw) = branch (os_ReadFile p) (\<lambda>_. ret False) (\<lambda>d. ret (check_verifier C d pw))"
  "remove_if_there p = branch (os_Remove p) (\<lambda>e. if e = ENotExist then ret () else raise e) ret"
  by (rule ext, auto simp: branch_def and_then_def or_else_def observe_def pv_Verify_def remove_if_there_def raise_def ret_def Let_def
      split: prod.splits sum.splits sm_error.splits)+

lemma oracle_local_ops:
  "oracle_local m \<Longrightarrow> (\<And>x. oracle_local (f x)) \<Longrightarrow> oracle_local (and_then m f)"
  "oracle_local m \<Longrightarrow> oracle_local c \<Longrightarrow> oracle_local (or_else m c)"
  "oracle_local (observe (pv_Verify C p pw))" "oracle_local (remove_if_there p)"
  unfolding branch_forms
  by (auto intro!: oracle_local_branch oracle_local_prims)

lemma oracle_local_decrypt: "oracle_local (decrypt_all C pw vs)"
proof (induction vs)
  case (Cons v vs)
  have "oracle_local (DecryptFile C v pw)"
    unfolding DecryptFile_def decrypt_prepare_def convert_commit_def syncFile_def syncDir_def Let_def
    by (intro oracle_local_ops oracle_local_prims)
  then show ?case using Cons by (auto intro: oracle_local_ops(1))
qed (simp add: oracle_local_prims)

section \<open>Properties\<close>

lemma run_ops_locked:
  "locked_out C c s \<Longrightarrow> layout (co_DataDir c) (co_Vaults c) \<Longrightarrow> run_ops C J ops (c, s) = (rs, (c', s')) \<Longrightarrow>
   stays c s c' s' \<and> list_all2 (\<lambda>op r. case r of Inl _ \<Rightarrow> True | Inr _ \<Rightarrow> \<not> needs_password op) ops rs"
proof (induction ops arbitrary: c s rs)
  case Nil
  then show ?case by (simp add: stays_refl)
next
  case (Cons op ops)
  obtain r c1 s1 where 1: "op_run C J op (c, s) = (r, (c1, s1))" using prod_cases3 by blast
  obtain rs1 where 2: "run_ops C J ops (c1, s1) = (rs1, (c', s'))" and rs: "rs = r # rs1"
    using Cons.prems(3) 1 by (auto simp: Let_def split: prod.splits)
  note o1 = op_locked [OF Cons.prems(1,2) 1]
  have st: "stays c s c1 s1" using o1 by simp
  have l: "layout (co_DataDir c1) (co_Vaults c1)" using st Cons.prems(2) by (simp add: stays_def)
  note ih = Cons.IH [OF stays_locked [OF st Cons.prems(1,2)] l 2]
  have "stays c s c' s'" using st ih by (auto simp: stays_def)
  then show ?case using ih o1 rs by (cases r) auto
qed



text \<open>C3: \<open>ExitRun\<close> cannot be resumed. From any healthy run state and with the right password there is one system
  call whose failure alone (the process lives on, every other call works) leaves all plaintexts restored and the
  controller locked out: the vaults are decrypted before the verifier and the marker are changed, and neither
  a retry nor a restart, which starts in the run mode again, gets past the missing \<open>.enc\<close>.\<close>

theorem exit_run_cannot_be_resumed:
  assumes "crypto_ok C" "calm s" "layout (co_DataDir c) (co_Vaults c)" "co_Vaults c \<noteq> []" "co_Mode c = ModeRun"
    and "accepts C (co_DataDir c) pw s" "list_all (conv_full C pw s0 s) (co_Vaults c)"
    and "case co_Guard c of None \<Rightarrow> True | Some g \<Rightarrow> IntegrityOK C g" "marker_mode C (co_DataDir c) (disk s) = Inr ModeRun"
  shows "\<exists>k. let (r, (c', s')) = ExitRun C False pw (c, s\<lparr>faults := (\<lambda>n. if n = k then Fails 0 else Works)\<rparr>)
             in (\<exists>e. r = Inl e) \<and> list_all (\<lambda>v. disk s' (ConfigPath v) = disk s0 (ConfigPath v)) (co_Vaults c)
                \<and> calm s' \<and> locked_out C c' s'
                \<and> (let (r2, (c2, s2)) = Startup C (NewController (co_DataDir c) (co_Vaults c), s')
                   in r2 = Inr () \<and> locked_out C c2 s2)"
proof -
  let ?dir = "co_DataDir c" and ?vs = "co_Vaults c"
  let ?V = "PasswordVerifierPath ?dir" and ?S = "SecretsFilePath ?dir" and ?M = "MarkerPath ?dir"
  have full: "\<forall>v\<in>set ?vs. conv_full C pw s0 s v" using assms(7) by (simp add: list_all_iff)
  from ExitRun_prefix [OF assms(2,3,6) full] obtain s1 s2 s3 where
    p1: "observe (pv_Verify C ?V pw) s = (Inr True, s1)" and p2: "remove_if_there ?S s1 = (Inr (), s2)"
    and p3: "decrypt_all C pw ?vs s2 = (Inr (), s3)" and cal: "calm s3"
    and d3: "\<forall>v\<in>set ?vs. disk s3 (ConfigPath v) = disk s0 (ConfigPath v) \<and> disk s3 (encPath v) = None"
      "\<forall>q. q \<notin> set (concat (map vault_files ?vs)) \<longrightarrow> disk s3 q = ((disk s)(?S := None)) q" by blast
  define f where "f = (\<lambda>n. if n = calls_made s3 then Fails 0 else Works)"
  note l1 = oracle_localD [OF oracle_local_ops(3) p1] and l2 = oracle_localD [OF oracle_local_ops(4) p2]
    and l3 = oracle_localD [OF oracle_local_decrypt p3]
  have agree: "f n = faults s n" if "calls_made s \<le> n" "n < calls_made s3" for n
    using that assms(2) by (simp add: f_def calm_def)
  have q1: "observe (pv_Verify C ?V pw) (s\<lparr>faults := f\<rparr>) = (Inr True, s1\<lparr>faults := f\<rparr>)"
    by (rule l1(3)) (use agree l2(1) l3(1) in auto)
  have q2: "remove_if_there ?S (s1\<lparr>faults := f\<rparr>) = (Inr (), s2\<lparr>faults := f\<rparr>)"
    by (rule l2(3)) (use agree l1(1,2) l3(1) in auto)
  have q3: "decrypt_all C pw ?vs (s2\<lparr>faults := f\<rparr>) = (Inr (), s3\<lparr>faults := f\<rparr>)"
    by (rule l3(3)) (use agree l1(1,2) l2(1,2) in auto)
  let ?s4 = "s3\<lparr>faults := f, calls_made := Suc (calls_made s3)\<rparr>"
  have q4: "pv_Clear ?V (s3\<lparr>faults := f\<rparr>) = (Inl EIO, ?s4)"
    using cal by (simp add: pv_Clear_def remove_if_there_def os_Remove_def tick_def f_def calm_def Let_def)
  have gd: "(case co_Guard c of None \<Rightarrow> False | Some g \<Rightarrow> \<not> IntegrityOK C g) = False" using assms(8) by (simp split: option.splits)
  let ?c = "c\<lparr>runPassword := []\<rparr>"
  have ex: "ExitRun C False pw (c, s\<lparr>faults := f\<rparr>) = (Inl EIO, (?c, ?s4))"
    using assms(5) q1 q2 q3 q4 gd
    by (simp add: ExitRun_def checkNotDebugged_def and_then_def ret_def get_ctl_def on_host_def modify_def)
  obtain v vs where vs: "?vs = v # vs" using assms(4) by (cases ?vs) auto
  have lo: "locked_out C c' t" if "co_Mode c' = ModeRun" "co_Vaults c' = ?vs" "disk t = disk s3" for c' t
    using that vs d3(1) by (simp add: locked_out_def opens_def)
  have cal4: "calm ?s4" using cal by (simp add: calm_def f_def)
  have "?M \<notin> set (concat (map vault_files ?vs))" "?M \<noteq> ?S"
    using assms(3) by (auto simp: layout_def state_files_def disjoint_iff)
  then have mk: "marker_mode C ?dir (disk s3) = Inr ModeRun" using assms(9) d3(2) by (simp add: marker_mode_def)
  let ?n = "NewController ?dir ?vs"
  obtain r2 c2 s2' where st: "Startup C (?n, ?s4) = (r2, (c2, s2'))" using prod_cases3 by blast
  have "startable C ?dir ?vs ModeRun (disk s3)"
    using mk d3(1) by (simp add: startable_def list_all_iff both_present_def enc_only_def)
  moreover have "m = ModeRun" if "startable C ?dir ?vs m (disk s3)" for m using that mk by (simp add: startable_def)
  ultimately have "r2 = Inr () \<and> c2 = ?n\<lparr>co_Mode := ModeRun\<rparr> \<and> disk s2' = disk s3"
    using Startup_calm [OF cal4, of C ?n] st by (cases r2) (auto simp: NewController_def)
  then have st2: "Startup C (?n, ?s4) = (Inr (), (?n\<lparr>co_Mode := ModeRun\<rparr>, s2'))" "disk s2' = disk s3" using st by simp_all
  have "locked_out C (?n\<lparr>co_Mode := ModeRun\<rparr>) s2'" by (rule lo) (simp_all add: NewController_def st2(2))
  then show ?thesis
    using ex st2(1) cal4 d3(1) lo [of ?c ?s4] assms(5) unfolding f_def
    by (intro exI [of _ "calls_made s3"]) (simp add: list_all_iff)
qed

lemma exit_run_cannot_be_resumed_witness:
  "\<exists>c s k. list_all (conv_full demo_crypto ''pw'' (demo_host [''/data/k.ini'' \<mapsto> demo_text]) s) [demo_vault]
     \<and> (let (r, (c', s')) = ExitRun demo_crypto False ''pw'' (c, s\<lparr>faults := (\<lambda>n. if n = k then Fails 0 else Works)\<rparr>)
        in disk s' ''/data/k.ini'' = Some demo_text \<and> locked_out demo_crypto c' s')"
proof -
  let ?s = "demo_host [''/data/k.ini'' \<mapsto> demo_text]"
  let ?J = "\<lparr>json_Marshal = (\<lambda>_. []), json_Unmarshal = (\<lambda>_. None)\<rparr>"
  have pw: "''pw'' \<noteq> []" by simp
  have cp: "ConfigPath demo_vault = ''/data/k.ini''" by (simp add: demo_vault_def)
  have l: "layout (co_DataDir demo_ctl) (co_Vaults demo_ctl)" "co_Vaults demo_ctl \<noteq> []" using demo_layout by simp_all
  have ok: "\<forall>v\<in>set (co_Vaults demo_ctl). \<exists>m. disk ?s (ConfigPath v) = Some m \<and> protectable v m"
    using demo_protectable by (simp add: demo_layout demo_host_ok cp)
  from EnterRun_calm [OF demo_crypto_ok demo_calm l pw demo_layout(4) ok] obtain plain s1 where
    en: "EnterRun demo_crypto ?J False ''pw'' (demo_ctl, ?s)
      = (Inr (), (demo_ctl\<lparr>co_Guard := Some (NewMemoryGuard demo_crypto plain), co_Mode := ModeRun, runPassword := ''pw''\<rparr>, s1))"
    and cal: "calm s1" by blast
  let ?c = "demo_ctl\<lparr>co_Guard := Some (NewMemoryGuard demo_crypto plain), co_Mode := ModeRun, runPassword := ''pw''\<rparr>"
  note oc = EnterRun_outcome [OF demo_crypto_ok demo_host_ok(1) l(1) demo_layout(4) en]
  have h: "layout (co_DataDir ?c) (co_Vaults ?c)" "co_Vaults ?c \<noteq> []" "co_Mode ?c = ModeRun"
    "accepts demo_crypto (co_DataDir ?c) ''pw'' s1" "list_all (conv_full demo_crypto ''pw'' ?s s1) (co_Vaults ?c)"
    "case co_Guard ?c of None \<Rightarrow> True | Some g \<Rightarrow> IntegrityOK demo_crypto g"
    "marker_mode demo_crypto (co_DataDir ?c) (disk s1) = Inr ModeRun"
    using l oc marker_bytes_mode [OF demo_crypto_ok, of "disk s1" "co_DataDir ?c" ModeRun] demo_crypto_ok
    by (auto simp: list_all_iff IntegrityOK_def NewMemoryGuard_def crypto_ok_def)
  have "\<exists>k. let (r, (c', s')) = ExitRun demo_crypto False ''pw'' (?c, s1\<lparr>faults := (\<lambda>n. if n = k then Fails 0 else Works)\<rparr>)
      in list_all (\<lambda>v. disk s' (ConfigPath v) = disk ?s (ConfigPath v)) (co_Vaults ?c) \<and> locked_out demo_crypto c' s'"
    using exit_run_cannot_be_resumed [OF demo_crypto_ok cal h] by (elim ex_forward) (auto split: prod.splits)
  then obtain k where
    k: "let (r, (c', s')) = ExitRun demo_crypto False ''pw'' (?c, s1\<lparr>faults := (\<lambda>n. if n = k then Fails 0 else Works)\<rparr>)
      in list_all (\<lambda>v. disk s' (ConfigPath v) = disk ?s (ConfigPath v)) (co_Vaults ?c) \<and> locked_out demo_crypto c' s'" by blast
  show ?thesis
    using k h(5)
    by (intro exI [of _ ?c] exI [of _ s1] exI [of _ k]) (auto simp: demo_layout demo_host_ok cp)
qed

end
