(* ===== verification/Float64_Bounds.thy ===== *)
theory Float64_Bounds
  imports Float64
begin

text \<open>
  \<open>math.Sqrt\<close> on \<open>f64\<close>, and interval reasoning for the scoring code: \<open>btw lo hi a\<close> says that \<open>a\<close> is a finite
  \<open>float64\<close> between two bounds, and the rules show how each operation moves the bounds.
\<close>

abbreviation lit :: "rat \<Rightarrow> f64" where "lit x \<equiv> f64_of_rat x"

abbreviation f64_gt :: "f64 \<Rightarrow> f64 \<Rightarrow> bool" where "f64_gt a b \<equiv> f64_lt b a"

abbreviation f64_ge :: "f64 \<Rightarrow> f64 \<Rightarrow> bool" where "f64_ge a b \<equiv> f64_le b a"

section \<open>Square roots\<close>

text \<open>\<open>math.Sqrt\<close>: the correctly rounded root. \<open>isqrt\<close> is the integer root; the root of \<open>x\<close> is taken at the
  exponent its 53 bits need.\<close>

fun isqrt :: "nat \<Rightarrow> nat" where
  "isqrt n = (if n = 0 then 0 else let r = 2 * isqrt (n div 4) in if (r + 1) * (r + 1) \<le> n then r + 1 else r)"

declare isqrt.simps [simp del]

definition rsqrt :: "rat \<Rightarrow> rat" where
  "rsqrt x =
     (if x \<le> 0 then 0
      else let e = flog2 x div 2 - 52; y = x / (2 powi e * 2 powi e); n = isqrt (nat \<lfloor>y\<rfloor>); h = of_nat n + 1 / 2
           in (if h * h < y \<or> (y = h * h \<and> odd n) then of_nat (n + 1) else of_nat n) * 2 powi e)"

fun f64_sqrt :: "f64 \<Rightarrow> f64" where
  "f64_sqrt (Fin x) = (if x < 0 then NaN else f64_of_rat (rsqrt x))"
| "f64_sqrt PInf = PInf"
| "f64_sqrt _ = NaN"

section \<open>Their bounds\<close>

lemma isqrt_bounds: "isqrt n * isqrt n \<le> n \<and> n < (isqrt n + 1) * (isqrt n + 1)"
proof (induction n rule: isqrt.induct)
  case (1 n)
  show ?case
  proof (cases "n = 0")
    case True
    then show ?thesis by (simp add: isqrt.simps)
  next
    case False
    define k where "k = isqrt (n div 4)"
    have ih: "k * k \<le> n div 4" "n div 4 < (k + 1) * (k + 1)" using 1 [OF False] by (auto simp: k_def)
    have lo: "(2 * k) * (2 * k) \<le> n" using ih(1) by linarith
    have "n < 4 * ((k + 1) * (k + 1))" using ih(2) by linarith
    then have hi: "n < (2 * k + 2) * (2 * k + 2)" by (simp add: algebra_simps)
    have "isqrt n = (if (2 * k + 1) * (2 * k + 1) \<le> n then 2 * k + 1 else 2 * k)"
      using False by (subst isqrt.simps) (simp add: k_def Let_def)
    then show ?thesis using lo hi by (auto simp: not_le)
  qed
qed

lemma rsqrt_bounds:
  assumes "0 \<le> x"
  shows "0 \<le> rsqrt x" "rsqrt x * rsqrt x \<le> 4 * x"
proof -
  show "0 \<le> rsqrt x" by (simp add: rsqrt_def Let_def)
  show "rsqrt x * rsqrt x \<le> 4 * x"
  proof (cases "x = 0")
    case True
    then show ?thesis by (simp add: rsqrt_def)
  next
    case False
    define e where "e = flog2 x div 2 - 52"
    define y where "y = x / (2 powi e * 2 powi e)"
    define n where "n = isqrt (nat \<lfloor>y\<rfloor>)"
    define h where "h = (of_nat n :: rat) + 1 / 2"
    have y0: "0 \<le> y" using assms by (simp add: y_def)
    have "n * n \<le> nat \<lfloor>y\<rfloor>" using isqrt_bounds [of "nat \<lfloor>y\<rfloor>"] by (simp add: n_def)
    then have "(of_nat (n * n) :: rat) \<le> of_nat (nat \<lfloor>y\<rfloor>)" by (simp only: of_nat_le_iff)
    also have "\<dots> \<le> y" using y0 by (simp add: of_nat_nat)
    finally have nn: "(of_nat n :: rat) * of_nat n \<le> y" by simp
    define r where "r = (if h * h < y \<or> (y = h * h \<and> odd n) then (of_nat (n + 1) :: rat) else of_nat n)"
    have rr: "r * r \<le> 4 * y"
    proof (cases "h * h < y \<or> (y = h * h \<and> odd n)")
      case True
      then have "4 * (h * h) \<le> 4 * y" by auto
      moreover have "(of_nat (n + 1) :: rat) * of_nat (n + 1) \<le> 4 * (h * h)" by (simp add: h_def algebra_simps)
      ultimately show ?thesis using True by (simp add: r_def)
    next
      case False
      then have "r = of_nat n" by (simp only: r_def if_False)
      then have "r * r \<le> y" using nn by simp
      then show ?thesis using y0 by linarith
    qed
    have e1: "rsqrt x = r * 2 powi e"
      using assms False by (simp add: rsqrt_def r_def h_def n_def y_def e_def Let_def)
    have e2: "x = y * (2 powi e * 2 powi e)" by (simp add: y_def)
    have "r * r * (2 powi e * 2 powi e) \<le> 4 * y * (2 powi e * 2 powi e)" by (rule mult_right_mono [OF rr]) simp
    moreover have "rsqrt x * rsqrt x = r * r * (2 powi e * 2 powi e)" by (simp only: e1 mult_ac)
    moreover have "4 * y * (2 powi e * 2 powi e) = 4 * x" by (simp only: e2 mult.assoc)
    ultimately show ?thesis by simp
  qed
qed

section \<open>Intervals\<close>

text \<open>A value in an interval with representable ends.\<close>

definition btw :: "rat \<Rightarrow> rat \<Rightarrow> f64 \<Rightarrow> bool" where
  "btw lo hi a \<longleftrightarrow> (case a of Fin x \<Rightarrow> lo \<le> x \<and> x \<le> hi \<and> rep x | _ \<Rightarrow> False)"

lemma btwD: "btw lo hi a \<Longrightarrow> \<exists>x. a = Fin x \<and> lo \<le> x \<and> x \<le> hi \<and> rep x"
  by (cases a) (auto simp: btw_def)

lemma btw_Fin [simp]: "btw lo hi (Fin x) \<longleftrightarrow> lo \<le> x \<and> x \<le> hi \<and> rep x"
  by (simp add: btw_def)

lemma btw_of_rat: "rep lo \<Longrightarrow> rep hi \<Longrightarrow> lo \<le> x \<Longrightarrow> x \<le> hi \<Longrightarrow> btw lo hi (f64_of_rat x)"
  using f64_of_rat_bounds [of lo hi x] by (metis btw_Fin)

lemma btw_add:
  assumes "btw a b x" "btw c d y" "rep (a + c)" "rep (b + d)"
  shows "btw (a + c) (b + d) (f64_add x y)"
proof -
  obtain u v where u: "x = Fin u" "a \<le> u" "u \<le> b" and v: "y = Fin v" "c \<le> v" "v \<le> d"
    using btwD [OF assms(1)] btwD [OF assms(2)] by auto
  have "a + c \<le> u + v" "u + v \<le> b + d" using u v by linarith+
  then show ?thesis using assms(3,4) u(1) v(1) by (simp add: btw_of_rat)
qed

lemma btw_mul:
  assumes "btw 0 b x" "btw 0 d y" "rep (b * d)"
  shows "btw 0 (b * d) (f64_mul x y)"
proof -
  obtain u v where u: "x = Fin u" "0 \<le> u" "u \<le> b" and v: "y = Fin v" "0 \<le> v" "v \<le> d"
    using btwD [OF assms(1)] btwD [OF assms(2)] by auto
  have "0 \<le> u * v" "u * v \<le> b * d" using u v by (auto intro: mult_mono)
  then show ?thesis using assms(3) u(1) v(1) by (simp add: btw_of_rat)
qed

lemma btw_sub_from:
  assumes "btw 0 b x" "rep a" "rep (a - b)"
  shows "btw (a - b) a (f64_sub (Fin a) x)"
proof -
  obtain u where u: "x = Fin u" "0 \<le> u" "u \<le> b" using btwD [OF assms(1)] by auto
  have "a - b \<le> a + - u" "a + - u \<le> a" using u by linarith+
  then show ?thesis using assms(2,3) u(1) by (simp add: f64_sub_def btw_of_rat)
qed

lemma btw_div_le:
  assumes "btw 0 b x" "y = Fin v" "0 < v" "\<forall>u. x = Fin u \<longrightarrow> u \<le> v"
  shows "btw 0 1 (f64_div x y)"
proof -
  obtain u where u: "x = Fin u" "0 \<le> u" using btwD [OF assms(1)] by auto
  then have "u \<le> v" using assms(4) by simp
  then have "0 \<le> u / v" "u / v \<le> 1" using u(2) assms(3) by auto
  then show ?thesis using u(1) assms(2,3) by (simp add: btw_of_rat)
qed

lemma rep_scaled: "\<bar>m\<bar> \<le> 2 ^ 53 \<Longrightarrow> 0 \<le> k \<Longrightarrow> k \<le> 900 \<Longrightarrow> rep (of_int m * 2 powi k)"
proof -
  assume m: "\<bar>m\<bar> \<le> 2 ^ 53" and k: "0 \<le> k" "k \<le> 900"
  have "\<bar>of_int m :: rat\<bar> \<le> 2 ^ 53"
    using m by (metis of_int_abs of_int_le_iff of_int_numeral of_int_power)
  moreover have "(2::rat) powi k \<le> 2 powi 900" using k(2) by (rule powi_mono2)
  ultimately have "\<bar>of_int m\<bar> * 2 powi k \<le> (2::rat) ^ 53 * 2 powi 900" by (intro mult_mono) auto
  also have "\<dots> < 2 ^ 1024" by (simp add: power_int_def)
  finally show ?thesis using rnd_id [OF refl m, of k] k(1) by (simp add: rep_def abs_mult)
qed

text \<open>Between one half and one, the distance to one is exact.\<close>

lemma one_minus_exact:
  assumes "rep f" "1 / 2 \<le> f" "f \<le> 1"
  shows "rep (1 - f)"
proof (cases "f = 1")
  case False
  then have f: "f < 1" using assms(3) by simp
  have "flog2 f = - 1" using assms(2) f by (intro flog2_unique) (simp_all add: power_int_minus)
  then have q: "ulp_exp f = - 53" using assms(2) by (simp add: ulp_exp_def)
  have "f = rnd f" using assms(1) by (simp add: rep_def)
  then have fm: "f = of_int (rhe (f / 2 powi (- 53))) * 2 powi (- 53)" using assms(2) q by (simp add: rnd_def)
  define m where "m = rhe (f / 2 powi (- 53))"
  have fm': "f = of_int m * 2 powi (- 53)" using fm by (simp add: m_def)
  have "(0::rat) < 2 powi (- 53)" by simp
  have "0 \<le> m" using assms(2) rhe_ge_of_int [of 0 "f / 2 powi (- 53)"] by (simp add: m_def)
  moreover have "m \<le> 2 ^ 53"
  proof -
    have "f / 2 powi (- 53) \<le> of_int (2 ^ 53)" using assms(3) by (simp add: power_int_minus)
    then show ?thesis unfolding m_def by (rule rhe_le_of_int)
  qed
  ultimately have b: "\<bar>2 ^ 53 - m\<bar> \<le> (2::int) ^ 53" by auto
  have e: "1 - f = of_int (2 ^ 53 - m) * 2 powi (- 53)" by (simp add: fm' power_int_minus algebra_simps)
  have "rnd (1 - f) = 1 - f" by (rule rnd_id [OF e b]) simp
  moreover have "\<bar>1 - f\<bar> < (2::rat) ^ 1024"
  proof -
    have "\<bar>1 - f\<bar> \<le> 1" using assms by simp
    also have "(1::rat) < 2 ^ 1024" by simp
    finally show ?thesis .
  qed
  ultimately show ?thesis by (simp add: rep_def)
qed simp

lemma btw_rep: "btw lo hi (Fin x) \<Longrightarrow> rep x"
  by simp

lemma btw_wf: "btw lo hi a \<Longrightarrow> a \<noteq> NaN \<and> wf64 a \<and> is_fin a"
  by (cases a) (auto simp: btw_def)

lemma btw_mono: "btw a b x \<Longrightarrow> c \<le> a \<Longrightarrow> b \<le> d \<Longrightarrow> btw c d x"
  by (cases x) (auto simp: btw_def)

lemma rep_nat_scaled: "n \<le> 2 ^ 33 \<Longrightarrow> j \<le> 800 \<Longrightarrow> rep (of_nat n * 2 ^ j)"
proof -
  assume n: "n \<le> 2 ^ 33" and j: "j \<le> 800"
  have "int n \<le> 2 ^ 33" using n by simp
  then have m: "\<bar>int n\<bar> \<le> 2 ^ 53" by simp
  have "rep (of_int (int n) * 2 powi int j)" by (rule rep_scaled [OF m]) (use j in auto)
  then show ?thesis by (simp add: power_int_def)
qed

lemma rep_pow2: "j \<le> 800 \<Longrightarrow> rep (2 ^ j)"
  using rep_nat_scaled [of 1 j] by simp

text \<open>A running sum of at most \<open>2 ^ 30\<close> terms.\<close>

lemma acc_add:
  assumes "btw 0 (of_nat n * 2 ^ j) a" "btw 0 (2 ^ j) x" "n < 2 ^ 30" "j \<le> 800"
  shows "btw 0 (of_nat (Suc n) * 2 ^ j) (f64_add a x)"
proof -
  have r: "rep (of_nat (Suc n) * 2 ^ j)" by (rule rep_nat_scaled) (use assms(3,4) in simp_all)
  have e: "of_nat n * 2 ^ j + 2 ^ j = (of_nat (Suc n) * 2 ^ j :: rat)" by (simp add: algebra_simps)
  show ?thesis using btw_add [OF assms(1,2)] r by (simp only: e add_0 rep_0)
qed

lemma f64_mul_1 [simp]: "wf64 a \<Longrightarrow> f64_mul a f64_1 = a" "wf64 a \<Longrightarrow> f64_mul f64_1 a = a"
  by (cases a; simp add: inf_times_def)+

lemma f64_of_rat_nonneg: "0 \<le> x \<Longrightarrow> f64_le f64_0 (f64_of_rat x)"
  using rnd_nonneg [of x] by (simp add: f64_of_rat_def Let_def)

lemma f64_add_nonneg: "f64_le f64_0 a \<Longrightarrow> f64_le f64_0 b \<Longrightarrow> f64_le f64_0 (f64_add a b)"
  by (cases a; cases b) (simp_all add: f64_of_rat_nonneg)

text \<open>Rounding keeps the order, so sums and products keep it too.\<close>

lemma f64_of_rat_le:
  assumes "rep hi" "0 \<le> x" "x \<le> y" "y \<le> hi"
  shows "\<exists>a b. f64_of_rat x = Fin a \<and> f64_of_rat y = Fin b \<and> 0 \<le> a \<and> a \<le> b \<and> b \<le> hi \<and> rep a \<and> rep b"
proof -
  obtain a where a: "f64_of_rat x = Fin a" "0 \<le> a" "rep a"
    using f64_of_rat_bounds [OF rep_0 assms(1) assms(2)] assms(3,4) by (metis order_trans)
  obtain b where b: "f64_of_rat y = Fin b" "b \<le> hi" "rep b"
    using f64_of_rat_bounds [OF rep_0 assms(1), of y] assms(2,3,4) by (metis order_trans)
  show ?thesis using a b f64_of_rat_mono_Fin [OF a(1) b(1) assms(3)] by auto
qed

lemma f64_sqrt_nonneg:
  assumes "btw 0 (2 ^ j) x" "j \<le> 90"
  shows "btw 0 (2 ^ (j + 2)) (f64_sqrt x)"
proof -
  obtain u where u: "x = Fin u" "0 \<le> u" "u \<le> 2 ^ j" using btwD [OF assms(1)] by auto
  note r = rsqrt_bounds [OF u(2)]
  have "rsqrt u \<le> 2 ^ (j + 2)"
  proof (rule ccontr)
    assume "\<not> rsqrt u \<le> 2 ^ (j + 2)"
    then have gt: "2 ^ (j + 2) < rsqrt u" by simp
    have "(2::rat) ^ (j + 2) * 1 \<le> 2 ^ (j + 2) * rsqrt u"
      by (rule mult_left_mono) (use gt one_le_power [of "2::rat" "j + 2"] in linarith, simp)
    also have "\<dots> < rsqrt u * rsqrt u" by (rule mult_strict_right_mono [OF gt]) (use gt zero_less_power [of "2::rat" "j+2"] in linarith)
    finally have "4 * u < rsqrt u * rsqrt u" using u(3) by simp
    with r(2) show False by simp
  qed
  then have "btw 0 (2 ^ (j + 2)) (lit (rsqrt u))"
    by (intro btw_of_rat [OF rep_0 rep_pow2] r(1)) (use assms(2) in simp_all)
  then show ?thesis using u(1,2) by simp
qed

text \<open>Evaluation at a known binary exponent.\<close>

lemma rnd_eval:
  assumes "2 powi e \<le> x" "x < 2 powi (e + 1)" "- 1022 \<le> e"
  shows "rnd x = of_int (rhe (x / 2 powi (e - 52))) * 2 powi (e - 52)"
proof -
  have "0 < x" by (rule order_less_le_trans [OF _ assms(1)]) simp
  then have "ulp_exp x = e - 52" using flog2_unique [OF assms(1,2)] assms(3) by (simp add: ulp_exp_def)
  then show ?thesis using \<open>0 < x\<close> by (simp add: rnd_def)
qed

lemma rat_floor_numeral [simp]: "\<lfloor>numeral a / numeral b :: rat\<rfloor> = numeral a div numeral b"
  using floor_divide_of_int_eq [of "numeral a" "numeral b", where 'a = rat] by simp

lemma rnd_eval_neg:
  assumes "1 / 2 ^ j \<le> x" "x < 2 / 2 ^ j" "j \<le> 1022"
  shows "rnd x = of_int (rhe (x * 2 ^ (j + 52))) / 2 ^ (j + 52)"
proof -
  have p: "(2::rat) powi (- int j) = 1 / 2 ^ j" "(2::rat) powi (- int j + 1) = 2 / 2 ^ j"
    by (simp_all add: power_int_minus power_int_diff add.commute field_simps)
  have "- int j - 52 = - int (j + 52)" by simp
  then have q: "(2::rat) powi (- int j - 52) = 1 / 2 ^ (j + 52)"
    by (simp only: power_int_minus power_int_of_nat inverse_eq_divide)
  show ?thesis using rnd_eval [of "- int j" x] assms by (simp only: p q) simp
qed

lemma rnd_eval_pos:
  assumes "2 ^ j \<le> x" "x < 2 * 2 ^ j" "j \<le> 52"
  shows "rnd x = of_int (rhe (x * 2 ^ (52 - j))) / 2 ^ (52 - j)"
proof -
  have p: "(2::rat) powi (int j) = 2 ^ j" "(2::rat) powi (int j + 1) = 2 * 2 ^ j"
    by (simp_all add: power_int_add)
  have "int j - 52 = - int (52 - j)" using assms(3) by simp
  then have q: "(2::rat) powi (int j - 52) = 1 / 2 ^ (52 - j)"
    by (simp only: power_int_minus power_int_of_nat inverse_eq_divide)
  show ?thesis using rnd_eval [of "int j" x] assms by (simp only: p q) simp
qed

lemma rep_small: "x = of_int m / 2 ^ k \<Longrightarrow> \<bar>m\<bar> \<le> 2 ^ 53 \<Longrightarrow> k \<le> 1000 \<Longrightarrow> rep x"
proof -
  assume x: "x = of_int m / 2 ^ k" and m: "\<bar>m\<bar> \<le> 2 ^ 53" and k: "k \<le> 1000"
  have e: "x = of_int m * 2 powi (- int k)" by (simp add: x power_int_minus field_simps)
  have "rnd x = x" by (rule rnd_id [OF e m]) (use k in simp)
  moreover have "\<bar>x\<bar> < 2 ^ 1024"
  proof -
    have "\<bar>x\<bar> \<le> of_int \<bar>m\<bar>" by (simp add: x abs_divide pos_divide_le_eq mult_le_cancel_left1)
    also have "\<dots> \<le> (of_int (2 ^ 53) :: rat)" using m by (simp only: of_int_le_iff)
    also have "\<dots> < 2 ^ 1024" by simp
    finally show ?thesis .
  qed
  ultimately show ?thesis by (simp add: rep_def)
qed

lemma rep_fractions [simp]: "rep (1 / 2)" "rep (1 / 4)" "rep (3 / 4)"
  using rep_small [of "1 / 2" 1 1] rep_small [of "1 / 4" 1 2] rep_small [of "3 / 4" 3 2] by simp_all

text \<open>Gradual underflow: the difference of two different values is not rounded to 0.\<close>

lemma rep_multiple: "rep x \<Longrightarrow> \<exists>m. x = of_int m * 2 powi (- 1074)"
proof -
  assume "rep x"
  then have x: "rnd x = x" by (simp add: rep_def)
  show ?thesis
  proof (cases "x = 0")
    case True
    then show ?thesis by (intro exI [of _ 0]) simp
  next
    case False
    define q where "q = ulp_exp x"
    define m where "m = rhe (x / 2 powi q)"
    have q: "- 1074 \<le> q" by (simp add: q_def ulp_exp_def)
    have "x = of_int m * 2 powi q" using False x by (simp add: rnd_def m_def q_def)
    also have "(2::rat) powi q = of_int (2 ^ nat (q - (- 1074))) * 2 powi (- 1074)"
      using powi_int2 [OF q] by (metis nonzero_eq_divide_eq power_int_not_zero zero_neq_numeral)
    finally show ?thesis by (intro exI [of _ "m * 2 ^ nat (q - (- 1074))"]) simp
  qed
qed

lemma rnd_diff_pos:
  assumes "rep a" "rep b" "a < b"
  shows "0 < rnd (b - a)"
proof -
  obtain m n where mn: "a = of_int m * 2 powi (- 1074)" "b = of_int n * 2 powi (- 1074)"
    using rep_multiple [OF assms(1)] rep_multiple [OF assms(2)] by blast
  have "(0::rat) < 2 powi (- 1074)" by simp
  then have "m < n" using assms(3) by (simp add: mn)
  then have "(1::rat) \<le> of_int (n - m)" by linarith
  then have "1 * 2 powi (- 1074) \<le> of_int (n - m) * (2::rat) powi (- 1074)" by (rule mult_right_mono) simp
  also have "\<dots> = b - a" by (simp only: mn of_int_diff left_diff_distrib)
  finally have "rnd (2 powi (- 1074)) \<le> rnd (b - a)" by (intro rnd_mono) simp
  moreover have "rnd (2 powi (- 1074)) = 2 powi (- 1074)" by (rule rnd_id [of _ 1 "- 1074"]) simp_all
  moreover have "(0::rat) < 2 powi (- 1074)" by simp
  ultimately show ?thesis by linarith
qed

lemma ratio_btw:
  assumes "btw 0 1 (Fin a)" "btw 0 1 (Fin b)" "btw 0 1 (Fin c)" "btw 0 1 (Fin d)" "0 \<le> b - a" "b - a \<le> d - c" "c < d"
  shows "btw 0 1 (f64_div (f64_sub (Fin b) (Fin a)) (f64_sub (Fin d) (Fin c)))"
proof -
  have r: "rep c" "rep d" using assms(3,4) by simp_all
  have le1: "d - c \<le> 1" using assms(3,4) by simp
  obtain x y where xy: "f64_of_rat (b - a) = Fin x" "f64_of_rat (d - c) = Fin y" "0 \<le> x" "x \<le> y" "rep x" "rep y"
    using f64_of_rat_le [OF rep_1 assms(5,6) le1] by blast
  have "y = rnd (d - c)" using f64_of_rat_FinD [OF xy(2)] by simp
  then have "0 < y" using rnd_diff_pos [OF r assms(7)] by simp
  then have "0 \<le> x / y" "x / y \<le> 1" using xy(3,4) by auto
  then show ?thesis using xy(1,2) \<open>0 < y\<close> by (simp add: f64_sub_def btw_of_rat)
qed

text \<open>The order through the operations.\<close>

lemma f64_of_rat_mono: "x \<le> y \<Longrightarrow> f64_le (f64_of_rat x) (f64_of_rat y)"
  using rnd_mono [of x y] by (auto simp: f64_of_rat_def Let_def)

lemma f64_add_mono_btw:
  assumes "btw a b x" "btw a' b' x'" "btw c d y" "btw c' d' y'" "f64_le x x'" "f64_le y y'"
  shows "f64_le (f64_add x y) (f64_add x' y')"
  using btwD [OF assms(1)] btwD [OF assms(2)] btwD [OF assms(3)] btwD [OF assms(4)] assms(5,6)
  by (auto intro!: f64_of_rat_mono add_mono)

lemma f64_mul_mono_btw:
  assumes "btw 0 b x" "btw 0 b' x'" "btw 0 d y" "btw 0 d' y'" "f64_le x x'" "f64_le y y'"
  shows "f64_le (f64_mul x y) (f64_mul x' y')"
  using btwD [OF assms(1)] btwD [OF assms(2)] btwD [OF assms(3)] btwD [OF assms(4)] assms(5,6)
  by (auto intro!: f64_of_rat_mono mult_mono)

lemma f64_div_mono_btw:
  assumes "btw a b x" "btw a' b' x'" "f64_le x x'" "0 < v"
  shows "f64_le (f64_div x (Fin v)) (f64_div x' (Fin v))"
  using btwD [OF assms(1)] btwD [OF assms(2)] assms(3,4) by (auto intro!: f64_of_rat_mono divide_right_mono)

lemma f64_round_mono: "f64_le x y \<Longrightarrow> f64_le (f64_round x) (f64_round y)"
  by (cases x; cases y) (auto intro: rha_mono)

lemma btw_div:
  assumes "btw (a * v) (b * v) x" "0 < v" "rep a" "rep b"
  shows "btw a b (f64_div x (Fin v))"
proof -
  obtain u where u: "x = Fin u" "a * v \<le> u" "u \<le> b * v" using btwD [OF assms(1)] by auto
  then have "a \<le> u / v" "u / v \<le> b" using assms(2) by (simp_all add: pos_le_divide_eq pos_divide_le_eq)
  then show ?thesis using u(1) assms(2-4) by (simp add: btw_of_rat)
qed

lemma btw_round: "btw (of_int a) (of_int b) x \<Longrightarrow> \<bar>a\<bar> \<le> 2 ^ 53 \<Longrightarrow> \<bar>b\<bar> \<le> 2 ^ 53 \<Longrightarrow> btw (of_int a) (of_int b) (f64_round x)"
proof -
  assume x: "btw (of_int a) (of_int b) x" and a: "\<bar>a\<bar> \<le> 2 ^ 53" and b: "\<bar>b\<bar> \<le> 2 ^ 53"
  obtain u where u: "x = Fin u" "of_int a \<le> u" "u \<le> of_int b" using btwD [OF x] by auto
  note r = rha_bounds [OF u(2,3)]
  then have "\<bar>rha u\<bar> \<le> 2 ^ 53" using a b by auto
  then show ?thesis using r u(1) by simp
qed

lemma rsqrt_0 [simp]: "rsqrt 0 = 0"
  by (simp add: rsqrt_def)

lemma f64_sqrt_0 [simp]: "f64_sqrt f64_0 = f64_0"
  by simp

section \<open>Rounding to decimals\<close>

definition round_to :: "rat \<Rightarrow> f64 \<Rightarrow> f64" where
  "round_to k x = f64_div (f64_round (f64_mul x (lit k))) (lit k)"

lemma round_to_btw:
  assumes "btw 0 b x" "k = of_int n" "b * k = of_int m" "0 < n" "n \<le> 2 ^ 20" "0 \<le> m" "m \<le> 2 ^ 53" "rep b"
  shows "btw 0 b (round_to k x)"
proof -
  have k: "rep k" "btw 0 k (Fin k)" "lit k = Fin k" using assms(2,4,5) rep_of_int [of n] by simp_all
  have "rep (b * k)" using assms(3,6,7) rep_of_int [of m] by simp
  from btw_mul [OF assms(1) k(2) this] have "btw (of_int 0) (of_int m) (f64_mul x (Fin k))" using assms(3) by simp
  then have "btw (of_int 0) (of_int m) (f64_round (f64_mul x (Fin k)))" by (rule btw_round) (use assms(6,7) in simp_all)
  then have "btw (0 * k) (b * k) (f64_round (f64_mul x (Fin k)))" using assms(3) by simp
  then show ?thesis using btw_div [of 0 k b] k assms(2,4,8) by (simp add: round_to_def)
qed

end
