(* ===== verification/Ssam_Score.thy ===== *)
theory Ssam_Score
  imports Float64_Bounds
begin

text \<open>
  \<open>ssam-lib\<close>, the data of the scoring library, its confidence model (\<open>confidence.go\<close>), the scores of the domains
  and the evaluation of the edge factors (\<open>ssam.go\<close>). Every \<open>float64\<close> is an \<open>f64\<close>, with the operations in the
  order of the source. The two loops over Go maps take the iteration order of this run as an argument; their
  results are sorted by a key that occurs once, so \<open>sort.Slice\<close> is \<open>sort_key\<close>.
\<close>

record WeightConfig =
  wc_Domain :: string
  wc_Weight :: f64

record DomainScore =
  ds_Domain :: string
  ds_Score :: f64
  ds_Sigma :: f64
  ds_Confidence :: f64

record EdgeFactorResult =
  efr_ID :: string
  efr_Name :: string
  efr_Factor :: f64
  efr_Active :: bool
  efr_TriggerConfidence :: f64

record CheckInput =
  ck_CheckID :: string
  ck_Domain :: string
  ck_Name :: string
  ck_Passed :: bool
  ck_Delta :: f64
  ck_Detail :: string
  ck_Confidence :: f64

record EdgeFactorConfig =
  efc_ID :: string
  efc_Name :: string
  efc_Factor :: f64
  efc_TriggerCheck :: string
  efc_CascadeTo :: string
  efc_CascadeValue :: f64
  efc_CascadeOnly :: bool

record ConfidencePolicy =
  cp_Enabled :: bool
  cp_Default :: f64
  cp_Floor :: f64
  cp_PriorStrength :: f64
  cp_Algorithm :: string

section \<open>Weights and confidence\<close>

definition BuildWeightMap :: "WeightConfig list \<Rightarrow> string \<rightharpoonup> f64" where
  "BuildWeightMap weights = foldl (\<lambda>m w. m(wc_Domain w \<mapsto> wc_Weight w)) Map.empty weights"

definition AlgorithmBetaBayes :: string where "AlgorithmBetaBayes = ''beta_bayes''"

definition DefaultConfidencePolicy :: ConfidencePolicy where
  "DefaultConfidencePolicy =
     \<lparr>cp_Enabled = False, cp_Default = f64_1, cp_Floor = lit (5 / 100), cp_PriorStrength = lit 2, cp_Algorithm = []\<rparr>"

definition IsBetaBayes :: "ConfidencePolicy \<Rightarrow> bool" where
  "IsBetaBayes p \<longleftrightarrow> cp_Algorithm p = AlgorithmBetaBayes"

definition BetaShrinkConfidence :: "f64 \<Rightarrow> f64 \<Rightarrow> f64" where
  "BetaShrinkConfidence c k =
     (if f64_le k f64_0 then c else f64_div (f64_add k c) (f64_add k f64_1))"

definition NormalizeConfidence :: "f64 \<Rightarrow> ConfidencePolicy \<Rightarrow> f64" where
  "NormalizeConfidence raw p =
     (if \<not> cp_Enabled p then f64_1
      else let d = (if f64_le (cp_Default p) f64_0 \<or> f64_gt (cp_Default p) f64_1 then f64_1 else cp_Default p);
               f = (if f64_le (cp_Floor p) f64_0 \<or> f64_ge (cp_Floor p) f64_1 then lit (5 / 100) else cp_Floor p);
               c = (if f64_le raw f64_0 then d else raw);
               c = (if f64_lt c f then f else c)
           in if f64_gt c f64_1 then f64_1 else c)"

definition EffectiveConfidence :: "f64 \<Rightarrow> ConfidencePolicy \<Rightarrow> f64" where
  "EffectiveConfidence raw p =
     (let c = NormalizeConfidence raw p
      in if \<not> cp_Enabled p \<or> \<not> IsBetaBayes p then c
         else BetaShrinkConfidence c (if f64_le (cp_PriorStrength p) f64_0 then lit 2 else cp_PriorStrength p))"

section \<open>Domain scores\<close>

text \<open>The four running sums of \<open>DomainBayes\<close>: E, U, \<open>\<Sigma>|delta|\<close>, \<open>\<Sigma>|delta| c\<close>.\<close>

type_synonym bayes_sums = "f64 \<times> f64 \<times> f64 \<times> f64"

definition bayes_step :: "string \<Rightarrow> ConfidencePolicy \<Rightarrow> bayes_sums \<Rightarrow> CheckInput \<Rightarrow> bayes_sums" where
  "bayes_step domain p acc c =
     (if ck_Domain c \<noteq> domain \<or> ck_Passed c \<or> f64_ge (ck_Delta c) f64_0 then acc
      else
        (let (e, var, absd, wd) = acc; s = f64_abs (ck_Delta c); conf = EffectiveConfidence (ck_Confidence c) p
         in (f64_add e (f64_mul s conf),
             f64_add var (f64_mul (f64_mul (f64_mul s s) conf) (f64_sub f64_1 conf)),
             f64_add absd s,
             f64_add wd (f64_mul s conf))))"

definition DomainBayes :: "string \<Rightarrow> CheckInput list \<Rightarrow> ConfidencePolicy \<Rightarrow> f64 \<times> f64 \<times> f64" where
  "DomainBayes domain checks p =
     (let (e, var, absd, wd) = foldl (bayes_step domain p) (f64_0, f64_0, f64_0, f64_0) checks
      in (f64_max f64_0 (f64_sub (lit 100) e), f64_sqrt var, if f64_gt absd f64_0 then f64_div wd absd else f64_1))"

definition active_domains :: "WeightConfig list \<Rightarrow> CheckInput list \<Rightarrow> string list" where
  "active_domains weights checks =
     (if checks = [] then remdups (map wc_Domain weights) else remdups (map ck_Domain checks))"

definition ComputeDomainScoresBayes :: "WeightConfig list \<Rightarrow> CheckInput list \<Rightarrow> ConfidencePolicy \<Rightarrow> DomainScore list" where
  "ComputeDomainScoresBayes weights checks p =
     map (\<lambda>d. let (score, sigma, evidence) = DomainBayes d checks p
              in \<lparr>ds_Domain = d, ds_Score = score, ds_Sigma = sigma, ds_Confidence = evidence\<rparr>)
       (sort (active_domains weights checks))"

definition ComputeDomainScores :: "WeightConfig list \<Rightarrow> CheckInput list \<Rightarrow> DomainScore list" where
  "ComputeDomainScores weights checks = ComputeDomainScoresBayes weights checks DefaultConfidencePolicy"

definition ComputeDomainScoresWithConfidence :: "WeightConfig list \<Rightarrow> CheckInput list \<Rightarrow> ConfidencePolicy \<Rightarrow> DomainScore list" where
  "ComputeDomainScoresWithConfidence weights checks p = ComputeDomainScoresBayes weights checks p"

section \<open>Posterior statistics\<close>

definition weighted_domain :: "(string \<rightharpoonup> f64) \<Rightarrow> DomainScore \<Rightarrow> f64 option" where
  "weighted_domain m ds = (case m (ds_Domain ds) of None \<Rightarrow> None | Some w \<Rightarrow> if f64_gt w f64_0 then Some w else None)"

text \<open>\<open>!ok || w <= 0\<close> lets a NaN weight through; the formulas' \<open>ok && w > 0\<close> does not.\<close>

definition not_skipped :: "(string \<rightharpoonup> f64) \<Rightarrow> DomainScore \<Rightarrow> f64 option" where
  "not_skipped m ds = (case m (ds_Domain ds) of None \<Rightarrow> None | Some w \<Rightarrow> if f64_le w f64_0 then None else Some w)"

definition FinalBayesStats :: "WeightConfig list \<Rightarrow> DomainScore list \<Rightarrow> f64" where
  "FinalBayesStats weights domains =
     (let m = BuildWeightMap weights;
          (total, var) = foldl (\<lambda>(t, v) ds.
             case not_skipped m ds of None \<Rightarrow> (t, v)
             | Some w \<Rightarrow> (f64_add t w, f64_add v (f64_mul (f64_mul w (ds_Sigma ds)) (f64_mul w (ds_Sigma ds))))) (f64_0, f64_0) domains
      in if f64_eq total f64_0 then f64_0 else f64_div (f64_mul (lit (1 / 2)) (f64_sqrt var)) total)"

definition ConfidenceInterval :: "f64 \<Rightarrow> f64 \<Rightarrow> f64 \<times> f64" where
  "ConfidenceInterval point sigma =
     (let sigma = (if f64_lt sigma f64_0 then f64_0 else sigma);
          half = f64_mul (lit (196 / 100)) sigma;
          lower = f64_sub point half; upper = f64_add point half
      in (if f64_lt lower f64_0 then f64_0 else lower, upper))"

definition AcceptanceDecision :: "f64 \<Rightarrow> f64 \<Rightarrow> f64 \<Rightarrow> bool \<Rightarrow> bool" where
  "AcceptanceDecision point lower95 threshold acceptByLowerBound =
     (if acceptByLowerBound then f64_ge lower95 threshold else f64_ge point threshold)"

definition AggregateNodeConfidence :: "WeightConfig list \<Rightarrow> DomainScore list \<Rightarrow> f64" where
  "AggregateNodeConfidence weights domains =
     (let m = BuildWeightMap weights;
          (acc, total) = foldl (\<lambda>(a, t) ds.
             case not_skipped m ds of None \<Rightarrow> (a, t)
             | Some w \<Rightarrow> (f64_add a (f64_mul (ds_Confidence ds) w), f64_add t w)) (f64_0, f64_0) domains
      in if f64_eq total f64_0 then f64_1 else f64_div acc total)"

definition ComputeWeightedSum :: "WeightConfig list \<Rightarrow> DomainScore list \<Rightarrow> f64" where
  "ComputeWeightedSum weights domains =
     (let m = BuildWeightMap weights;
          (sum, total) = foldl (\<lambda>(s, t) ds.
             let w = (case m (ds_Domain ds) of None \<Rightarrow> f64_0 | Some w \<Rightarrow> w)
             in if f64_eq w f64_0 then (s, t) else (f64_add s (f64_mul (ds_Score ds) w), f64_add t w)) (f64_0, f64_0) domains
      in if f64_eq total f64_0 then f64_0 else f64_div sum total)"

section \<open>Edge factors\<close>

definition counts :: "EdgeFactorResult \<Rightarrow> bool" where
  "counts f \<longleftrightarrow> efr_Active f \<and> f64_gt (efr_Factor f) f64_0 \<and> f64_lt (efr_Factor f) f64_1"

text \<open>\<open>math.Round(x*100) / 100\<close>.\<close>

definition round2 :: "f64 \<Rightarrow> f64" where
  "round2 x = f64_div (f64_round (f64_mul x (lit 100))) (lit 100)"

definition times_factors :: "f64 \<Rightarrow> EdgeFactorResult list \<Rightarrow> f64" where
  "times_factors base factors = foldl (\<lambda>r f. if counts f then f64_mul r (efr_Factor f) else r) base factors"

definition ApplyEdgeFactors :: "f64 \<Rightarrow> EdgeFactorResult list \<Rightarrow> f64" where
  "ApplyEdgeFactors base factors = round2 (times_factors base factors)"

definition BuildCustomFactorMap :: "EdgeFactorConfig list \<Rightarrow> string \<rightharpoonup> f64" where
  "BuildCustomFactorMap efs = foldl (\<lambda>m f. m(efc_ID f \<mapsto> efc_Factor f)) Map.empty efs"

definition ef_map :: "EdgeFactorConfig list \<Rightarrow> string \<rightharpoonup> EdgeFactorConfig" where
  "ef_map efs = foldl (\<lambda>m f. m(efc_ID f \<mapsto> f)) Map.empty efs"

text \<open>The most confident failed check that triggers a factor. The inner loop updates each identifier on its own.\<close>

definition trigger_step :: "ConfidencePolicy \<Rightarrow> (string \<rightharpoonup> EdgeFactorConfig) \<Rightarrow> (string \<rightharpoonup> f64) \<Rightarrow> CheckInput \<Rightarrow> (string \<rightharpoonup> f64)" where
  "trigger_step p efs conf check =
     (if ck_Passed check then conf
      else let c = EffectiveConfidence (ck_Confidence check) p
           in (\<lambda>fid. case efs fid of
                 None \<Rightarrow> conf fid
               | Some cfg \<Rightarrow>
                   if efc_TriggerCheck cfg = ck_CheckID check
                   then (case conf fid of None \<Rightarrow> Some c | Some prev \<Rightarrow> if f64_gt c prev then Some c else Some prev)
                   else conf fid))"

definition trigger_conf :: "ConfidencePolicy \<Rightarrow> (string \<rightharpoonup> EdgeFactorConfig) \<Rightarrow> CheckInput list \<Rightarrow> (string \<rightharpoonup> f64)" where
  "trigger_conf p efs checks = foldl (trigger_step p efs) Map.empty checks"

definition cascade_step :: "(string \<rightharpoonup> EdgeFactorConfig) \<Rightarrow> (string \<rightharpoonup> f64) \<Rightarrow> (string \<rightharpoonup> f64) \<Rightarrow> string \<Rightarrow> (string \<rightharpoonup> f64)" where
  "cascade_step efs trig over fid =
     (case efs fid of
        None \<Rightarrow> over
      | Some cfg \<Rightarrow>
          if trig fid \<noteq> None \<and> efc_CascadeTo cfg \<noteq> [] \<and> f64_gt (efc_CascadeValue cfg) f64_0
          then over(efc_CascadeTo cfg \<mapsto> efc_CascadeValue cfg) else over)"

definition cascade_overrides :: "string list \<Rightarrow> (string \<rightharpoonup> EdgeFactorConfig) \<Rightarrow> (string \<rightharpoonup> f64) \<Rightarrow> (string \<rightharpoonup> f64)" where
  "cascade_overrides order efs trig = foldl (cascade_step efs trig) Map.empty order"

definition edge_result ::
    "(string \<rightharpoonup> f64) \<Rightarrow> (string \<rightharpoonup> f64) \<Rightarrow> (string \<rightharpoonup> f64) \<Rightarrow> string \<Rightarrow> EdgeFactorConfig \<Rightarrow> EdgeFactorResult" where
  "edge_result custom trig over fid cfg =
     (let factor = efc_Factor cfg;
          (active, tc, factor) =
            (case trig fid of
               None \<Rightarrow> (False, f64_0, factor)
             | Some c \<Rightarrow>
                 let factor = (case custom fid of
                                 Some x \<Rightarrow> if f64_gt x f64_0 \<and> f64_lt x f64_1 then x else factor
                               | None \<Rightarrow> factor);
                     factor = (if f64_gt factor f64_0 \<and> f64_lt factor f64_1
                               then f64_sub f64_1 (f64_mul (f64_sub f64_1 factor) c) else factor)
                 in (True, c, factor));
          (active, factor) =
            (case over fid of
               None \<Rightarrow> (active, factor)
             | Some x \<Rightarrow> (True, if f64_lt x factor then x else factor))
      in \<lparr>efr_ID = fid, efr_Name = efc_Name cfg, efr_Factor = factor, efr_Active = (active \<and> \<not> efc_CascadeOnly cfg),
          efr_TriggerConfidence = tc\<rparr>)"

definition ApplyEdgeFactorsToChecksPolicy ::
    "string list \<Rightarrow> EdgeFactorConfig list \<Rightarrow> CheckInput list \<Rightarrow> (string \<rightharpoonup> f64) \<Rightarrow> ConfidencePolicy \<Rightarrow> EdgeFactorResult list" where
  "ApplyEdgeFactorsToChecksPolicy order efs checks custom p =
     (let m = ef_map efs; trig = trigger_conf p m checks; over = cascade_overrides order m trig
      in sort_key efr_ID (map (\<lambda>fid. edge_result custom trig over fid (the (m fid))) order))"

definition ApplyEdgeFactorsToChecks :: "string list \<Rightarrow> EdgeFactorConfig list \<Rightarrow> CheckInput list \<Rightarrow> (string \<rightharpoonup> f64) \<Rightarrow> EdgeFactorResult list" where
  "ApplyEdgeFactorsToChecks order efs checks custom = ApplyEdgeFactorsToChecksPolicy order efs checks custom DefaultConfidencePolicy"

definition DefaultWeights :: "WeightConfig list" where
  "DefaultWeights =
     [\<lparr>wc_Domain = ''attack_surface'', wc_Weight = Fin 35\<rparr>, \<lparr>wc_Domain = ''business_continuity'', wc_Weight = Fin 25\<rparr>,
      \<lparr>wc_Domain = ''operation_trust'', wc_Weight = Fin 25\<rparr>, \<lparr>wc_Domain = ''resilience'', wc_Weight = Fin 15\<rparr>]"

definition plain_factor :: "string \<Rightarrow> string \<Rightarrow> rat \<Rightarrow> string \<Rightarrow> EdgeFactorConfig" where
  "plain_factor i n x t =
     \<lparr>efc_ID = i, efc_Name = n, efc_Factor = lit x, efc_TriggerCheck = t, efc_CascadeTo = [], efc_CascadeValue = f64_0, efc_CascadeOnly = False\<rparr>"

definition DefaultEdgeFactors :: "EdgeFactorConfig list" where
  "DefaultEdgeFactors =
     [plain_factor ''EF-002FA'' ''2FA Missing'' (85 / 100) ''EF-001'',
      plain_factor ''EF-SYNCOOKIE'' ''SYN Cookie Disabled'' (75 / 100) ''RS-005'',
      plain_factor ''EF-SELINUX'' ''SELinux Disabled'' (80 / 100) ''OT-005'',
      plain_factor ''EF-APPARMOR'' ''AppArmor Disabled'' (82 / 100) ''OT-005'',
      plain_factor ''EF-NO-SIEM'' ''SIEM Integration Missing'' (90 / 100) ''RS-007'',
      plain_factor ''EF-NO-IDS'' ''IDS/IPS Missing'' (88 / 100) ''RS-006'',
      (plain_factor ''EF-3FA'' ''3FA Not Met'' (82 / 100) ''EF-002'')
        \<lparr>efc_CascadeTo := ''EF-002FA'', efc_CascadeValue := lit (82 / 100), efc_CascadeOnly := True\<rparr>]"

section \<open>Confidence\<close>

text \<open>The policies and observations a configuration can carry: no NaN, and sizes far above any real one.\<close>

definition sane_policy :: "ConfidencePolicy \<Rightarrow> bool" where
  "sane_policy p \<longleftrightarrow>
     cp_Default p \<noteq> NaN \<and> wf64 (cp_Default p) \<and> cp_Floor p \<noteq> NaN \<and> wf64 (cp_Floor p) \<and>
     (\<exists>k. cp_PriorStrength p = Fin k \<and> rep k \<and> k \<le> 2 ^ 50)"

definition sane_check :: "CheckInput \<Rightarrow> bool" where
  "sane_check c \<longleftrightarrow> ck_Confidence c \<noteq> NaN \<and> wf64 (ck_Confidence c) \<and> (\<exists>d. ck_Delta c = Fin d \<and> rep d \<and> \<bar>d\<bar> \<le> 2 ^ 20)"

definition sane_checks :: "CheckInput list \<Rightarrow> bool" where
  "sane_checks cs \<longleftrightarrow> list_all sane_check cs \<and> length cs \<le> 2 ^ 30"

lemma sane_default [simp]: "sane_policy DefaultConfidencePolicy"
proof -
  have "btw 0 1 (lit (5 / 100))" by (rule btw_of_rat) simp_all
  from btw_wf [OF this] show ?thesis by (simp add: sane_policy_def DefaultConfidencePolicy_def)
qed

lemma unit_cases: "a \<noteq> NaN \<Longrightarrow> wf64 a \<Longrightarrow> \<not> f64_le a f64_0 \<Longrightarrow> \<not> f64_gt a f64_1 \<Longrightarrow> btw 0 1 a"
  by (cases a) (auto simp: f64_lt_def)

lemma NormalizeConfidence_unit:
  assumes "sane_policy p" "raw \<noteq> NaN" "wf64 raw"
  shows "btw 0 1 (NormalizeConfidence raw p)"
proof -
  define d where "d = (if f64_le (cp_Default p) f64_0 \<or> f64_gt (cp_Default p) f64_1 then f64_1 else cp_Default p)"
  define f where "f = (if f64_le (cp_Floor p) f64_0 \<or> f64_ge (cp_Floor p) f64_1 then lit (5 / 100) else cp_Floor p)"
  define c where "c = (if f64_le raw f64_0 then d else raw)"
  define c' where "c' = (if f64_lt c f then f else c)"
  have d: "btw 0 1 d" using assms(1) unit_cases [of "cp_Default p"] by (auto simp: d_def sane_policy_def)
  have f: "btw 0 1 f"
  proof (cases "f64_le (cp_Floor p) f64_0 \<or> f64_ge (cp_Floor p) f64_1")
    case True
    then show ?thesis by (simp add: f_def btw_of_rat)
  next
    case False
    then show ?thesis using assms(1) by (cases "cp_Floor p") (auto simp: f_def sane_policy_def)
  qed
  have c: "c \<noteq> NaN" "wf64 c" "\<not> f64_le c f64_0 \<or> btw 0 1 c" using d btw_wf [OF d] assms(2,3) by (auto simp: c_def)
  then have "c' \<noteq> NaN" "wf64 c'" "\<not> f64_le c' f64_0 \<or> btw 0 1 c'" using f btw_wf [OF f] by (auto simp: c'_def)
  then have "btw 0 1 (if f64_gt c' f64_1 then f64_1 else c')" using unit_cases [of c'] by auto
  moreover have "NormalizeConfidence raw p = (if \<not> cp_Enabled p then f64_1 else if f64_gt c' f64_1 then f64_1 else c')"
    by (simp only: NormalizeConfidence_def d_def f_def c_def c'_def Let_def)
  ultimately show ?thesis by simp
qed

lemma BetaShrink_unit:
  assumes "btw 0 1 c" "rep k" "0 < k" "k \<le> 2 ^ 50"
  shows "btw 0 1 (BetaShrinkConfidence c (Fin k))"
proof -
  obtain u where u: "c = Fin u" "0 \<le> u" "u \<le> 1" using btwD [OF assms(1)] by auto
  have r: "rep (2 ^ 51)" by (rule rep_pow2) simp
  obtain a b where ab: "f64_of_rat (k + u) = Fin a" "f64_of_rat (k + 1) = Fin b" "0 \<le> a" "a \<le> b" "rep a"
    using f64_of_rat_le [OF r, of "k + u" "k + 1"] u(2,3) assms(3,4) by fastforce
  have "k \<le> b" using f64_of_rat_mono_Fin [OF _ ab(2), of k k] assms(2) by simp
  then have "0 < b" using assms(3) by simp
  then have "0 \<le> a / b" "a / b \<le> 1" using ab(3,4) by auto
  then show ?thesis using u(1) ab assms(3) \<open>0 < b\<close> by (simp add: BetaShrinkConfidence_def btw_of_rat)
qed

lemma EffectiveConfidence_unit:
  assumes "sane_policy p" "raw \<noteq> NaN" "wf64 raw"
  shows "btw 0 1 (EffectiveConfidence raw p)"
proof -
  note n = NormalizeConfidence_unit [OF assms]
  obtain k where k: "cp_PriorStrength p = Fin k" "rep k" "k \<le> 2 ^ 50" using assms(1) by (auto simp: sane_policy_def)
  have "btw 0 1 (BetaShrinkConfidence (NormalizeConfidence raw p) (if f64_le (Fin k) f64_0 then lit 2 else Fin k))"
    using BetaShrink_unit [OF n, of 2] BetaShrink_unit [OF n k(2) _ k(3)] by (simp add: not_le)
  then show ?thesis using n k(1) by (auto simp: EffectiveConfidence_def Let_def)
qed

section \<open>The sums of a domain\<close>

definition sums_ok :: "nat \<Rightarrow> bayes_sums \<Rightarrow> bool" where
  "sums_ok n acc \<longleftrightarrow>
     (let (e, var, a, w) = acc
      in btw 0 (of_nat n * 2 ^ 20) e \<and> btw 0 (of_nat n * 2 ^ 40) var \<and> btw 0 (of_nat n * 2 ^ 20) a \<and>
         btw 0 (of_nat n * 2 ^ 20) w \<and> val w \<le> val a)"

lemma sums_ok_mono: "sums_ok n acc \<Longrightarrow> n \<le> k \<Longrightarrow> sums_ok k acc"
proof -
  assume ok: "sums_ok n acc" and "n \<le> k"
  then have "(of_nat n :: rat) * 2 ^ j \<le> of_nat k * 2 ^ j" for j by (intro mult_right_mono) auto
  from this [of 20] this [of 40] ok show ?thesis
    by (cases acc) (auto simp: sums_ok_def elim!: btw_mono)
qed

lemma bayes_step_ok:
  assumes "sums_ok n acc" "sane_check c" "sane_policy p" "n < 2 ^ 30"
  shows "sums_ok (Suc n) (bayes_step domain p acc c)"
proof (cases "ck_Domain c \<noteq> domain \<or> ck_Passed c \<or> f64_ge (ck_Delta c) f64_0")
  case True
  then show ?thesis using sums_ok_mono [OF assms(1), of "Suc n"] by (simp add: bayes_step_def)
next
  case False
  obtain e var a w where acc: "acc = (e, var, a, w)" by (cases acc)
  obtain d where d: "ck_Delta c = Fin d" "rep d" "\<bar>d\<bar> \<le> 2 ^ 20" using assms(2) by (auto simp: sane_check_def)
  define conf where "conf = EffectiveConfidence (ck_Confidence c) p"
  have conf: "btw 0 1 conf" unfolding conf_def
    by (rule EffectiveConfidence_unit [OF assms(3)]) (use assms(2) in \<open>auto simp: sane_check_def\<close>)
  obtain u where u: "conf = Fin u" "0 \<le> u" "u \<le> 1" "rep u" using btwD [OF conf] by auto
  have rd: "rep \<bar>d\<bar>" using d(2) by (simp add: abs_if)
  have s: "btw 0 (2 ^ 20) (Fin \<bar>d\<bar>)" using d(3) rd by simp
  obtain m where m: "f64_mul (Fin \<bar>d\<bar>) conf = Fin m" "rep m" "0 \<le> m" "m \<le> \<bar>d\<bar>"
    using f64_mul_unit [OF _ rd u(2,3)] u(1) by auto
  have bm: "btw 0 (2 ^ 20) (Fin m)" using m d(3) by simp
  have "btw 0 (2 ^ 20 * 2 ^ 20) (f64_mul (Fin \<bar>d\<bar>) (Fin \<bar>d\<bar>))" by (rule btw_mul [OF s s]) simp
  then have "btw 0 (2 ^ 20 * 2 ^ 20 * 1) (f64_mul (f64_mul (Fin \<bar>d\<bar>) (Fin \<bar>d\<bar>)) conf)" by (rule btw_mul [OF _ conf]) simp
  moreover have "btw 0 1 (f64_sub f64_1 conf)" using btw_sub_from [OF conf, of 1] by simp
  ultimately have "btw 0 (2 ^ 20 * 2 ^ 20 * 1 * 1) (f64_mul (f64_mul (f64_mul (Fin \<bar>d\<bar>) (Fin \<bar>d\<bar>)) conf) (f64_sub f64_1 conf))"
    by (rule btw_mul) simp
  then have bv: "btw 0 (2 ^ 40) (f64_mul (f64_mul (f64_mul (Fin \<bar>d\<bar>) (Fin \<bar>d\<bar>)) conf) (f64_sub f64_1 conf))" by simp
  have ok: "btw 0 (of_nat n * 2 ^ 20) e" "btw 0 (of_nat n * 2 ^ 40) var" "btw 0 (of_nat n * 2 ^ 20) a"
    "btw 0 (of_nat n * 2 ^ 20) w" "val w \<le> val a" using assms(1) by (auto simp: sums_ok_def acc)
  note sums = acc_add [OF ok(1) bm assms(4)] acc_add [OF ok(2) bv assms(4)] acc_add [OF ok(3) s assms(4)] acc_add [OF ok(4) bm assms(4)]
  obtain x y where xy: "a = Fin x" "w = Fin y" using btwD [OF ok(3)] btwD [OF ok(4)] by auto
  have "val (f64_add w (Fin m)) \<le> val (f64_add a (Fin \<bar>d\<bar>))"
  proof -
    have "y + m \<le> x + \<bar>d\<bar>" using ok(5) m(4) by (simp add: xy)
    then show ?thesis using btwD [OF sums(3)] btwD [OF sums(4)] f64_of_rat_mono_Fin by (auto simp: xy)
  qed
  moreover have "bayes_step domain p acc c =
      (f64_add e (Fin m), f64_add var (f64_mul (f64_mul (f64_mul (Fin \<bar>d\<bar>) (Fin \<bar>d\<bar>)) conf) (f64_sub f64_1 conf)),
       f64_add a (Fin \<bar>d\<bar>), f64_add w (Fin m))"
    using False by (simp only: bayes_step_def acc if_False Let_def prod.case conf_def [symmetric] d(1) f64_abs.simps m(1))
  ultimately show ?thesis using sums by (simp only: sums_ok_def Let_def prod.case)
qed

lemma bayes_fold_ok:
  "sums_ok n acc \<Longrightarrow> list_all sane_check cs \<Longrightarrow> sane_policy p \<Longrightarrow> n + length cs \<le> 2 ^ 30 \<Longrightarrow>
   sums_ok (n + length cs) (foldl (bayes_step domain p) acc cs)"
proof (induction cs arbitrary: n acc)
  case (Cons c cs)
  then have "sums_ok (Suc n) (bayes_step domain p acc c)" by (intro bayes_step_ok) auto
  from Cons.IH [OF this] Cons.prems show ?case by simp
qed simp

text \<open>What a domain score promises: a score on the scale, a finite deviation, a confidence.\<close>

definition good_score :: "DomainScore \<Rightarrow> bool" where
  "good_score ds \<longleftrightarrow> btw 0 100 (ds_Score ds) \<and> btw 0 (2 ^ 72) (ds_Sigma ds) \<and> btw 0 1 (ds_Confidence ds)"

lemma DomainBayes_good:
  assumes "sane_policy p" "sane_checks cs" "DomainBayes domain cs p = (score, sigma, evidence)"
  shows "btw 0 100 score \<and> btw 0 (2 ^ 72) sigma \<and> btw 0 1 evidence"
proof -
  define k where "k = length cs"
  obtain e var a w where acc: "foldl (bayes_step domain p) (f64_0, f64_0, f64_0, f64_0) cs = (e, var, a, w)"
    using prod_cases4 by blast
  have k: "k \<le> 2 ^ 30" using assms(2) by (simp add: sane_checks_def k_def)
  have "sums_ok 0 (f64_0, f64_0, f64_0, f64_0)" by (simp add: sums_ok_def)
  then have "sums_ok k (e, var, a, w)"
    using bayes_fold_ok [of 0 "(f64_0, f64_0, f64_0, f64_0)" cs p domain] assms(1,2) by (simp add: acc sane_checks_def k_def)
  then have ok: "btw 0 (of_nat k * 2 ^ 20) e" "btw 0 (of_nat k * 2 ^ 40) var" "btw 0 (of_nat k * 2 ^ 20) a"
    "btw 0 (of_nat k * 2 ^ 20) w" "val w \<le> val a" by (auto simp: sums_ok_def)
  have "(of_nat k :: rat) \<le> of_nat (2 ^ 30)" using k by (simp only: of_nat_le_iff)
  then have kk: "of_nat k * 2 ^ 40 \<le> (2 ^ 70 :: rat)" by simp
  have eq: "score = f64_max f64_0 (f64_sub (lit 100) e)" "sigma = f64_sqrt var" "evidence = (if f64_gt a f64_0 then f64_div w a else f64_1)"
    using assms(3) by (auto simp: DomainBayes_def acc)
  obtain x where x: "e = Fin x" "0 \<le> x" using btwD [OF ok(1)] by auto
  have "btw 0 100 score"
  proof (cases "x \<le> 100")
    case True
    then have "btw 0 100 (f64_of_rat (100 + - x))" by (intro btw_of_rat) (use x in auto)
    then show ?thesis using btwD [of 0 100 "f64_of_rat (100 + - x)"] by (auto simp: eq x f64_sub_def)
  next
    case False
    obtain z where "f64_sub (lit 100) e = z" by blast
    have "f64_le (f64_of_rat (100 + - x)) f64_0"
      using False f64_of_rat_mono_Fin [of "100 + - x" _ 0 0] rnd_mono [of "100 + - x" 0]
      by (cases "f64_of_rat (100 + - x)") (auto simp: f64_of_rat_def Let_def split: if_splits)
    then show ?thesis
      by (cases "f64_of_rat (100 + - x)") (auto simp: eq x f64_sub_def split: if_splits)
  qed
  moreover have "btw 0 (2 ^ 72) sigma"
    using f64_sqrt_nonneg [OF btw_mono [OF ok(2) order_refl kk]] by (simp add: eq)
  moreover have "btw 0 1 evidence"
  proof (cases "f64_gt a f64_0")
    case True
    then obtain y where "a = Fin y" "0 < y" using btwD [OF ok(3)] by auto
    moreover obtain u where "w = Fin u" using btwD [OF ok(4)] by auto
    ultimately show ?thesis using btw_div_le [OF ok(4), of a y] True ok(5) by (simp add: eq)
  qed (simp add: eq)
  ultimately show ?thesis by simp
qed

lemma ComputeDomainScoresBayes_mem:
  "ds \<in> set (ComputeDomainScoresBayes ws cs p) \<Longrightarrow>
   \<exists>d score sigma evidence. DomainBayes d cs p = (score, sigma, evidence) \<and>
     ds = \<lparr>ds_Domain = d, ds_Score = score, ds_Sigma = sigma, ds_Confidence = evidence\<rparr>"
  by (auto simp: ComputeDomainScoresBayes_def split: prod.splits)

text \<open>C29: Domain scores are well-formed. Under any policy without NaN and for any checks without NaN, every domain
  score is on \<open>[0, 100]\<close>, its deviation is finite and not negative and its evidence confidence lies in \<open>[0, 1]\<close>,
  whatever the confidences attached to the checks, infinite and negative ones included.\<close>

theorem domain_scores_in_range:
  assumes "sane_policy p" and "sane_checks cs"
  shows "list_all good_score (ComputeDomainScoresBayes ws cs p)"
  unfolding list_all_iff
proof
  fix ds
  assume "ds \<in> set (ComputeDomainScoresBayes ws cs p)"
  then obtain d score sigma evidence where
    "DomainBayes d cs p = (score, sigma, evidence)"
    "ds = \<lparr>ds_Domain = d, ds_Score = score, ds_Sigma = sigma, ds_Confidence = evidence\<rparr>"
    using ComputeDomainScoresBayes_mem by blast
  then show "good_score ds" using DomainBayes_good [OF assms] by (simp add: good_score_def)
qed

definition demo_check :: "string \<Rightarrow> string \<Rightarrow> bool \<Rightarrow> rat \<Rightarrow> f64 \<Rightarrow> CheckInput" where
  "demo_check cid d passed delta c =
     \<lparr>ck_CheckID = cid, ck_Domain = d, ck_Name = cid, ck_Passed = passed, ck_Delta = Fin delta, ck_Detail = [], ck_Confidence = c\<rparr>"

definition demo_policy :: ConfidencePolicy where
  "demo_policy = \<lparr>cp_Enabled = True, cp_Default = f64_1, cp_Floor = f64_0, cp_PriorStrength = Fin 2, cp_Algorithm = AlgorithmBetaBayes\<rparr>"

theorem domain_scores_in_range_witness:
  "list_all good_score (ComputeDomainScoresBayes [] [demo_check ''A'' ''d'' False (- 40) PInf, demo_check ''B'' ''d'' False (- 80) NInf] demo_policy)"
  by (rule domain_scores_in_range)
    (simp_all add: demo_policy_def demo_check_def sane_policy_def sane_checks_def sane_check_def)

section \<open>The disabled policy\<close>

text \<open>The accumulation the library's comments call legacy: the failed deductions of a domain, subtracted from 100.\<close>

definition legacy_deductions :: "string \<Rightarrow> CheckInput list \<Rightarrow> f64" where
  "legacy_deductions domain cs =
     foldl (\<lambda>t c. if ck_Domain c = domain \<and> \<not> ck_Passed c \<and> \<not> f64_ge (ck_Delta c) f64_0 then f64_add t (f64_abs (ck_Delta c)) else t) f64_0 cs"

definition legacy_score :: "CheckInput list \<Rightarrow> string \<Rightarrow> DomainScore" where
  "legacy_score cs d =
     \<lparr>ds_Domain = d, ds_Score = f64_max f64_0 (f64_sub (lit 100) (legacy_deductions d cs)), ds_Sigma = f64_0, ds_Confidence = f64_1\<rparr>"

lemma EffectiveConfidence_disabled [simp]: "\<not> cp_Enabled p \<Longrightarrow> EffectiveConfidence raw p = f64_1"
  by (simp add: EffectiveConfidence_def NormalizeConfidence_def Let_def)

lemma disabled_fold:
  assumes "\<not> cp_Enabled p" "list_all sane_check cs"
  shows "foldl (bayes_step domain p) (t, f64_0, t, t) cs =
     (let u = foldl (\<lambda>t c. if ck_Domain c = domain \<and> \<not> ck_Passed c \<and> \<not> f64_ge (ck_Delta c) f64_0 then f64_add t (f64_abs (ck_Delta c)) else t) t cs
      in (u, f64_0, u, u))"
  using assms(2)
proof (induction cs arbitrary: t)
  case (Cons c cs)
  obtain d where d: "ck_Delta c = Fin d" "rep d" "\<bar>d\<bar> \<le> 2 ^ 20" using Cons.prems by (auto simp: sane_check_def)
  have rd: "rep \<bar>d\<bar>" using d(2) by (simp add: abs_if)
  have b: "btw 0 (2 ^ 20) (Fin \<bar>d\<bar>)" using d(3) rd by simp
  have "btw 0 (2 ^ 20 * 2 ^ 20) (f64_mul (Fin \<bar>d\<bar>) (Fin \<bar>d\<bar>))" by (rule btw_mul [OF b b]) simp
  then obtain x where x: "f64_mul (Fin \<bar>d\<bar>) (Fin \<bar>d\<bar>) = Fin x" "rep x" using btwD by blast
  have m1: "f64_mul (Fin \<bar>d\<bar>) f64_1 = Fin \<bar>d\<bar>" using rd by simp
  have z: "f64_add f64_0 (f64_mul (f64_mul (f64_mul (Fin \<bar>d\<bar>) (Fin \<bar>d\<bar>)) f64_1) (f64_sub f64_1 f64_1)) = f64_0"
    unfolding x(1) using x(2) by (simp add: f64_sub_def)
  have "bayes_step domain p (t, f64_0, t, t) c =
     (let u = (if ck_Domain c = domain \<and> \<not> ck_Passed c \<and> \<not> f64_ge (ck_Delta c) f64_0 then f64_add t (f64_abs (ck_Delta c)) else t)
      in (u, f64_0, u, u))"
    unfolding bayes_step_def prod.case Let_def EffectiveConfidence_disabled [OF assms(1)] d(1) f64_abs.simps m1 z by simp
  then show ?case using Cons by (simp add: Let_def)
qed simp

lemma ComputeDomainScoresBayes_disabled:
  assumes "\<not> cp_Enabled p" and "sane_checks cs"
  shows "ComputeDomainScoresBayes ws cs p = map (legacy_score cs) (sort (active_domains ws cs))"
proof -
  have "DomainBayes d cs p = (ds_Score (legacy_score cs d), f64_0, f64_1)" for d
  proof -
    define u where "u = legacy_deductions d cs"
    have fold: "foldl (bayes_step d p) (f64_0, f64_0, f64_0, f64_0) cs = (u, f64_0, u, u)"
      using disabled_fold [OF assms(1), of cs d f64_0] assms(2) by (simp add: sane_checks_def legacy_deductions_def u_def Let_def)
    obtain q where q: "q = (f64_0, f64_0, f64_0, f64_0)" by blast
    have "sums_ok (length cs) (foldl (bayes_step d DefaultConfidencePolicy) (f64_0, f64_0, f64_0, f64_0) cs)"
      using bayes_fold_ok [of 0 "(f64_0, f64_0, f64_0, f64_0)" cs DefaultConfidencePolicy d] assms(2)
      by (simp add: sums_ok_def sane_checks_def)
    moreover have "foldl (bayes_step d DefaultConfidencePolicy) (f64_0, f64_0, f64_0, f64_0) cs = (u, f64_0, u, u)"
      using disabled_fold [of DefaultConfidencePolicy cs d f64_0] assms(2)
      by (simp add: sane_checks_def legacy_deductions_def u_def Let_def DefaultConfidencePolicy_def)
    ultimately have "btw 0 (of_nat (length cs) * 2 ^ 20) u" by (simp add: sums_ok_def)
    then obtain x where x: "u = Fin x" using btwD by blast
    show ?thesis by (simp add: DomainBayes_def fold legacy_score_def u_def [symmetric] x)
  qed
  then show ?thesis by (simp add: ComputeDomainScoresBayes_def legacy_score_def)
qed

text \<open>With confidence switched off (the factory default) the Bayesian scoring of domains is exactly the legacy
  one, to the last bit: 100 minus the sum of the failed deductions, floored at 0, with no deviation and full
  confidence, for every domain.\<close>

theorem disabled_policy_is_legacy:
  assumes "\<not> cp_Enabled p" and "sane_checks cs"
  shows "ComputeDomainScoresBayes ws cs p = map (legacy_score cs) (sort (active_domains ws cs))"
  by (rule ComputeDomainScoresBayes_disabled [OF assms])

theorem disabled_policy_is_legacy_witness:
  "ComputeDomainScoresBayes [] [demo_check ''A'' ''d'' False (- 40) PInf, demo_check ''B'' ''d'' False (- 80) NInf] DefaultConfidencePolicy =
   map (legacy_score [demo_check ''A'' ''d'' False (- 40) PInf, demo_check ''B'' ''d'' False (- 80) NInf]) (sort [''d''])"
  using disabled_policy_is_legacy [of DefaultConfidencePolicy "[demo_check ''A'' ''d'' False (- 40) PInf, demo_check ''B'' ''d'' False (- 80) NInf]" "[]"]
  by (simp add: active_domains_def demo_check_def sane_checks_def sane_check_def DefaultConfidencePolicy_def)

section \<open>Edge factors\<close>

lemma edge_result_ID [simp]: "efr_ID (edge_result custom trig over fid c) = fid"
  by (simp add: edge_result_def Let_def split: option.split prod.split)

lemma sort_key_distinct_unique:
  assumes "distinct (map k xs)" "distinct (map k ys)" "set xs = set ys"
  shows "sort_key k xs = sort_key k ys"
proof (rule map_sorted_distinct_set_unique)
  show "inj_on k (set (sort_key k xs) \<union> set (sort_key k ys))" using assms(1,3) by (simp add: distinct_map)
  have "distinct (map k (sort_key k zs))" if "distinct (map k zs)" for zs
    using that by (simp add: distinct_map)
  then show "distinct (map k (sort_key k xs))" "distinct (map k (sort_key k ys))" using assms(1,2) by blast+
qed (use assms(3) in simp_all)

text \<open>Two factors that are both triggered and cascade to one target disagree about its value.\<close>

definition cascades :: "(string \<rightharpoonup> EdgeFactorConfig) \<Rightarrow> (string \<rightharpoonup> f64) \<Rightarrow> string \<Rightarrow> bool" where
  "cascades efs trig fid \<longleftrightarrow>
     (case efs fid of None \<Rightarrow> False
      | Some c \<Rightarrow> trig fid \<noteq> None \<and> efc_CascadeTo c \<noteq> [] \<and> f64_gt (efc_CascadeValue c) f64_0)"

definition no_conflict :: "(string \<rightharpoonup> EdgeFactorConfig) \<Rightarrow> (string \<rightharpoonup> f64) \<Rightarrow> bool" where
  "no_conflict efs trig \<longleftrightarrow>
     (\<forall>a b. cascades efs trig a \<longrightarrow> cascades efs trig b \<longrightarrow> efc_CascadeTo (the (efs a)) = efc_CascadeTo (the (efs b)) \<longrightarrow>
            efc_CascadeValue (the (efs a)) = efc_CascadeValue (the (efs b)))"

lemma cascade_step_eq:
  "cascade_step efs trig over fid =
     (if cascades efs trig fid then over(efc_CascadeTo (the (efs fid)) \<mapsto> efc_CascadeValue (the (efs fid))) else over)"
  by (auto simp: cascade_step_def cascades_def split: option.splits)

lemma cascade_fold_Some:
  "(\<And>c. c \<in> set order \<Longrightarrow> cascades efs trig c \<Longrightarrow> efc_CascadeTo (the (efs c)) = t \<Longrightarrow> efc_CascadeValue (the (efs c)) = v) \<Longrightarrow>
   (\<exists>c\<in>set order. cascades efs trig c \<and> efc_CascadeTo (the (efs c)) = t) \<or> over t = Some v \<Longrightarrow>
   foldl (cascade_step efs trig) over order t = Some v"
proof (induction order arbitrary: over)
  case (Cons a order)
  have "foldl (cascade_step efs trig) (cascade_step efs trig over a) order t = Some v"
  proof (rule Cons.IH)
    show "cascades efs trig c \<Longrightarrow> efc_CascadeTo (the (efs c)) = t \<Longrightarrow> efc_CascadeValue (the (efs c)) = v" if "c \<in> set order" for c
      using Cons.prems(1) [of c] that by simp
    show "(\<exists>c\<in>set order. cascades efs trig c \<and> efc_CascadeTo (the (efs c)) = t) \<or> cascade_step efs trig over a t = Some v"
      using Cons.prems(2) Cons.prems(1) [of a] by (simp add: cascade_step_eq) blast
  qed
  then show ?case by simp
qed simp

lemma cascade_fold_other:
  "(\<And>c. c \<in> set order \<Longrightarrow> \<not> (cascades efs trig c \<and> efc_CascadeTo (the (efs c)) = t)) \<Longrightarrow>
   foldl (cascade_step efs trig) over order t = over t"
proof (induction order arbitrary: over)
  case (Cons a order)
  have "cascade_step efs trig over a t = over t" using Cons.prems [of a] unfolding cascade_step_eq by auto
  then show ?case using Cons.IH [of "cascade_step efs trig over a"] Cons.prems by simp
qed simp

lemma no_conflictD:
  "no_conflict efs trig \<Longrightarrow> cascades efs trig a \<Longrightarrow> cascades efs trig b \<Longrightarrow>
   efc_CascadeTo (the (efs a)) = efc_CascadeTo (the (efs b)) \<Longrightarrow> efc_CascadeValue (the (efs a)) = efc_CascadeValue (the (efs b))"
  unfolding no_conflict_def by blast

lemma cascade_overrides_set:
  assumes "no_conflict efs trig" "set r = set r'"
  shows "cascade_overrides r efs trig = cascade_overrides r' efs trig"
proof
  fix t
  show "cascade_overrides r efs trig t = cascade_overrides r' efs trig t"
  proof (cases "\<exists>c\<in>set r. cascades efs trig c \<and> efc_CascadeTo (the (efs c)) = t")
    case True
    then obtain a where a: "a \<in> set r" "cascades efs trig a" "efc_CascadeTo (the (efs a)) = t" by blast
    have "foldl (cascade_step efs trig) Map.empty q t = Some (efc_CascadeValue (the (efs a)))" if "set q = set r" for q
    proof (rule cascade_fold_Some)
      show "efc_CascadeValue (the (efs c)) = efc_CascadeValue (the (efs a))"
        if "c \<in> set q" "cascades efs trig c" "efc_CascadeTo (the (efs c)) = t" for c
        using no_conflictD [OF assms(1) that(2) a(2)] that(3) a(3) by simp
      show "(\<exists>c\<in>set q. cascades efs trig c \<and> efc_CascadeTo (the (efs c)) = t) \<or>
            Map.empty t = Some (efc_CascadeValue (the (efs a)))" using a that by blast
    qed
    from this [of r] this [of r'] show ?thesis using assms(2) by (simp add: cascade_overrides_def)
  next
    case False
    have "foldl (cascade_step efs trig) Map.empty q t = None" if "set q = set r" for q
      using cascade_fold_other [of q efs trig t Map.empty] False that by auto
    from this [of r] this [of r'] show ?thesis using assms(2) by (simp add: cascade_overrides_def)
  qed
qed

text \<open>The edge factors of an assessment do not depend on the order in which Go iterates over the map of
  factors, as long as no two triggered factors cascade different values to the same target.\<close>

theorem edge_factors_order_independent:
  assumes "distinct order" and "distinct order'" and "set order = dom (ef_map efs)" and "set order' = dom (ef_map efs)"
    and "no_conflict (ef_map efs) (trigger_conf p (ef_map efs) checks)"
  shows "ApplyEdgeFactorsToChecksPolicy order efs checks custom p = ApplyEdgeFactorsToChecksPolicy order' efs checks custom p"
proof -
  have s: "set order = set order'" using assms(3,4) by simp
  show ?thesis
    unfolding ApplyEdgeFactorsToChecksPolicy_def Let_def cascade_overrides_set [OF assms(5) s]
    by (rule sort_key_distinct_unique) (simp_all add: comp_def assms(1,2) s)
qed

lemma one_cascade_no_conflict:
  "(\<And>a b. cascades efs trig a \<Longrightarrow> cascades efs trig b \<Longrightarrow> a = b) \<Longrightarrow> no_conflict efs trig"
  unfolding no_conflict_def by metis

definition demo_factors :: "EdgeFactorConfig list" where
  "demo_factors = [DefaultEdgeFactors ! 0, DefaultEdgeFactors ! 6]"

lemma demo_factors_map:
  "ef_map demo_factors = [''EF-002FA'' \<mapsto> DefaultEdgeFactors ! 0, ''EF-3FA'' \<mapsto> DefaultEdgeFactors ! 6]"
  by (simp add: ef_map_def demo_factors_def DefaultEdgeFactors_def plain_factor_def)

theorem edge_factors_order_independent_witness:
  "ApplyEdgeFactorsToChecksPolicy [''EF-3FA'', ''EF-002FA''] demo_factors [demo_check ''EF-002'' ''d'' False (- 5) f64_1] Map.empty demo_policy =
   ApplyEdgeFactorsToChecksPolicy [''EF-002FA'', ''EF-3FA''] demo_factors [demo_check ''EF-002'' ''d'' False (- 5) f64_1] Map.empty demo_policy"
proof (rule edge_factors_order_independent)
  show "no_conflict (ef_map demo_factors) (trigger_conf demo_policy (ef_map demo_factors) [demo_check ''EF-002'' ''d'' False (- 5) f64_1])"
    by (rule one_cascade_no_conflict)
      (auto simp: cascades_def demo_factors_map DefaultEdgeFactors_def plain_factor_def split: if_splits option.splits)
qed (auto simp: demo_factors_map split: if_splits)

text \<open>Two factors on one trigger that cascade one half and one quarter to the same target.\<close>

definition rival_factors :: "EdgeFactorConfig list" where
  "rival_factors =
     [(plain_factor ''A'' [] (1 / 2) ''X'')\<lparr>efc_CascadeTo := ''T'', efc_CascadeValue := Fin (1 / 2)\<rparr>,
      (plain_factor ''B'' [] (1 / 2) ''X'')\<lparr>efc_CascadeTo := ''T'', efc_CascadeValue := Fin (1 / 4)\<rparr>,
      plain_factor ''T'' [] (3 / 4) ''Y'']"

definition rival_run :: "string list \<Rightarrow> EdgeFactorResult list" where
  "rival_run order = ApplyEdgeFactorsToChecks order rival_factors [demo_check ''X'' ''d'' False (- 5) f64_1] (BuildCustomFactorMap rival_factors)"

lemma rival_map: "ef_map rival_factors = [''A'' \<mapsto> rival_factors ! 0, ''B'' \<mapsto> rival_factors ! 1, ''T'' \<mapsto> rival_factors ! 2]"
  by (simp add: ef_map_def rival_factors_def plain_factor_def)

lemma rival_overrides:
  "cascade_overrides [''A'', ''B'', ''T''] (ef_map rival_factors) (trigger_conf DefaultConfidencePolicy (ef_map rival_factors) [demo_check ''X'' ''d'' False (- 5) f64_1]) ''T'' = Some (Fin (1 / 4))"
  "cascade_overrides [''B'', ''A'', ''T''] (ef_map rival_factors) (trigger_conf DefaultConfidencePolicy (ef_map rival_factors) [demo_check ''X'' ''d'' False (- 5) f64_1]) ''T'' = Some (Fin (1 / 2))"
  by (simp_all add: cascade_overrides_def cascade_step_def ef_map_def trigger_conf_def trigger_step_def demo_check_def
      rival_factors_def plain_factor_def Let_def)

lemma rival_trigger:
  "trigger_conf DefaultConfidencePolicy (ef_map rival_factors) [demo_check ''X'' ''d'' False (- 5) f64_1] ''T'' = None"
  by (simp add: ef_map_def trigger_conf_def trigger_step_def demo_check_def rival_factors_def plain_factor_def Let_def)

lemma edge_result_cascaded:
  "trig fid = None \<Longrightarrow> over fid = Some x \<Longrightarrow>
   efr_Factor (edge_result custom trig over fid c) = (if f64_lt x (efc_Factor c) then x else efc_Factor c)"
  by (simp add: edge_result_def)

text \<open>With rivals the result is the map's iteration order: the same assessment multiplies its score by one quarter
  in one run and by one half in the next.\<close>

theorem rival_cascades_depend_on_map_order:
  "rival_run [''A'', ''B'', ''T''] \<noteq> rival_run [''B'', ''A'', ''T'']"
proof
  assume eq: "rival_run [''A'', ''B'', ''T''] = rival_run [''B'', ''A'', ''T'']"
  define result where "result = (\<lambda>order. edge_result (BuildCustomFactorMap rival_factors)
    (trigger_conf DefaultConfidencePolicy (ef_map rival_factors) [demo_check ''X'' ''d'' False (- 5) f64_1])
    (cascade_overrides order (ef_map rival_factors) (trigger_conf DefaultConfidencePolicy (ef_map rival_factors) [demo_check ''X'' ''d'' False (- 5) f64_1])))"
  have set: "set (rival_run order) = (\<lambda>fid. result order fid (the (ef_map rival_factors fid))) ` set order" for order
    by (simp add: rival_run_def ApplyEdgeFactorsToChecks_def ApplyEdgeFactorsToChecksPolicy_def result_def Let_def)
  have f: "efr_Factor (result [''A'', ''B'', ''T''] ''T'' (the (ef_map rival_factors ''T''))) = Fin (1 / 4)"
    "efr_Factor (result [''B'', ''A'', ''T''] ''T'' (the (ef_map rival_factors ''T''))) = Fin (1 / 2)"
    unfolding result_def
    by (subst edge_result_cascaded, rule rival_trigger, rule rival_overrides, simp add: ef_map_def rival_factors_def plain_factor_def)+
  have "result [''A'', ''B'', ''T''] ''T'' (the (ef_map rival_factors ''T'')) \<in> set (rival_run [''B'', ''A'', ''T''])"
    unfolding eq [symmetric] set by simp
  then obtain fid where "result [''A'', ''B'', ''T''] ''T'' (the (ef_map rival_factors ''T'')) = result [''B'', ''A'', ''T''] fid (the (ef_map rival_factors fid))"
    unfolding set by blast
  moreover from this have "fid = ''T''" by (metis edge_result_ID result_def)
  ultimately show False using f by simp
qed

text \<open>An observation of full confidence applies the configured penalty: a triggered factor in \<open>[1/2, 1)\<close> comes
  out of the attenuation \<open>1 - (1 - factor) * c\<close> bit for bit, although it is computed in floating point.\<close>

theorem full_confidence_keeps_factor:
  assumes "\<not> cp_Enabled p" and "rep f" and "1 / 2 \<le> f" and "f < 1"
    and "custom fid = Some (Fin f)" and "trigger_conf p efs checks fid \<noteq> None" and "over fid = None"
  shows "efr_Factor (edge_result custom (trigger_conf p efs checks) over fid cfg) = Fin f"
proof -
  have one: "\<And>t x. (\<And>y. t fid = Some y \<Longrightarrow> y = f64_1) \<Longrightarrow> foldl (trigger_step p efs) t cs fid = Some x \<Longrightarrow> x = f64_1" for cs
  proof (induction cs)
    case (Cons c cs)
    have "y = f64_1" if "trigger_step p efs t c fid = Some y" for y
      using that Cons.prems(1) assms(1) by (auto simp: trigger_step_def Let_def split: if_splits option.splits)
    then show ?case using Cons.IH [of "trigger_step p efs t c" x] Cons.prems(2) by simp
  qed auto
  have t: "trigger_conf p efs checks fid = Some f64_1"
    using assms(6) one [of Map.empty checks] by (auto simp: trigger_conf_def)
  have r: "rep (1 - f)" using assms by (intro one_minus_exact) auto
  have "1 - (1 - f) = f" by simp
  then show ?thesis using assms r t by (simp add: edge_result_def f64_sub_def)
qed

theorem full_confidence_keeps_factor_witness:
  "efr_Factor (edge_result [''A'' \<mapsto> Fin (1 / 2)] (trigger_conf DefaultConfidencePolicy (ef_map rival_factors) [demo_check ''X'' ''d'' False (- 5) f64_1]) Map.empty ''A'' (rival_factors ! 0)) = Fin (1 / 2)"
  by (rule full_confidence_keeps_factor)
    (simp_all add: DefaultConfidencePolicy_def ef_map_def trigger_conf_def trigger_step_def demo_check_def rival_factors_def plain_factor_def Let_def)

text \<open>Below one half it does not: the configured 0.3 is applied as 0.30000000000000004.\<close>

lemma lit_3_10: "lit (3 / 10) = Fin (5404319552844595 / 2 ^ 54)"
proof -
  have r: "rnd (3 / 10) = 5404319552844595 / 2 ^ 54"
    by (subst rnd_eval_neg [of 2]) (simp_all add: rhe_def Let_def)
  then show ?thesis by (simp add: f64_of_rat_def)
qed

theorem small_factor_not_kept:
  "f64_sub f64_1 (f64_mul (f64_sub f64_1 (lit (3 / 10))) f64_1) = Fin (5404319552844596 / 2 ^ 54)"
proof -
  have r: "rnd (1 - 5404319552844595 / 2 ^ 54) = 6305039478318694 / 2 ^ 53"
    by (subst rnd_eval_neg [of 1]) (simp_all add: rhe_def Let_def)
  have s: "rep (6305039478318694 / 2 ^ 53)" "rep (2702159776422298 / 2 ^ 53)"
    using rep_small [of "6305039478318694 / 2 ^ 53" 6305039478318694 53] rep_small [of "2702159776422298 / 2 ^ 53" 2702159776422298 53] by simp_all
  have "f64_sub f64_1 (lit (3 / 10)) = Fin (6305039478318694 / 2 ^ 53)"
    using r unfolding lit_3_10 by (simp add: f64_sub_def f64_of_rat_def)
  then show ?thesis using s by (simp add: f64_sub_def)
qed

end
