(* ===== verification/Ssam_Formula.thy ===== *)
theory Ssam_Formula
  imports Ssam_Score
begin

text \<open>
  \<open>ssam-lib\<close>, the formulas: the formula language with its interpreter and its compiler to a stack machine
  (\<open>ast.go\<close>), the built-in formulas (\<open>formulas.go\<close>, \<open>formulas_ast.go\<close>, \<open>formulas_v2.go\<close>), the two hooks an
  assembly can inject (\<open>domain_adjust.go\<close> and the edge-factor strategy) and the interchange record (\<open>ir.go\<close>).
  The package variables of the hooks are the record \<open>hooks\<close>; a hook is a function of its arguments.
\<close>

record RiskContext =
  rc_Intrinsic :: f64
  rc_Exposure :: f64
  rc_Threat :: f64

record RiskLayerDetail =
  rl_Coeff :: f64
  rl_Weight :: f64
  rl_Contributors :: "string list"
  rl_Details :: "string \<rightharpoonup> f64"

record RiskLayers =
  ly_Intrinsic :: RiskLayerDetail
  ly_Exposure :: RiskLayerDetail
  ly_Threat :: RiskLayerDetail

record FinalScore =
  fs_Total :: f64
  fs_Layers :: RiskLayers

section \<open>The hooks\<close>

type_synonym EdgeFactorStrategy = "EdgeFactorResult list \<Rightarrow> f64"
type_synonym DomainAdjustFunc = "DomainScore list \<Rightarrow> EdgeFactorResult list \<Rightarrow> DomainScore list"

record hooks =
  edgeFactorStrategy :: EdgeFactorStrategy
  edgeFactorStrategyIsDefault :: bool
  domainAdjust :: "DomainAdjustFunc option"

definition evalProductChainStrategy :: EdgeFactorStrategy where
  "evalProductChainStrategy factors = times_factors f64_1 factors"

definition default_hooks :: hooks where
  "default_hooks =
     \<lparr>edgeFactorStrategy = evalProductChainStrategy, edgeFactorStrategyIsDefault = True, domainAdjust = None\<rparr>"

definition RegisterEdgeFactorStrategy :: "EdgeFactorStrategy option \<Rightarrow> hooks \<Rightarrow> hooks" where
  "RegisterEdgeFactorStrategy s hk =
     (case s of
        None \<Rightarrow> hk\<lparr>edgeFactorStrategy := evalProductChainStrategy, edgeFactorStrategyIsDefault := True\<rparr>
      | Some s \<Rightarrow> hk\<lparr>edgeFactorStrategy := s, edgeFactorStrategyIsDefault := False\<rparr>)"

definition RegisterDomainAdjust :: "DomainAdjustFunc option \<Rightarrow> hooks \<Rightarrow> hooks" where
  "RegisterDomainAdjust fn hk = hk\<lparr>domainAdjust := fn\<rparr>"

definition applyDomainAdjust :: "hooks \<Rightarrow> DomainScore list \<Rightarrow> EdgeFactorResult list \<Rightarrow> DomainScore list" where
  "applyDomainAdjust hk ds factors = (case domainAdjust hk of None \<Rightarrow> ds | Some fn \<Rightarrow> fn ds factors)"

definition applyEdgeFactorStrategy :: "hooks \<Rightarrow> EdgeFactorResult list \<Rightarrow> f64" where
  "applyEdgeFactorStrategy hk factors = edgeFactorStrategy hk factors"

definition applyEdgeFactorStrategyToBase :: "hooks \<Rightarrow> f64 \<Rightarrow> EdgeFactorResult list \<Rightarrow> f64" where
  "applyEdgeFactorStrategyToBase hk base factors =
     (if \<not> edgeFactorStrategyIsDefault hk then f64_mul base (edgeFactorStrategy hk factors) else times_factors base factors)"

section \<open>The formula language\<close>

datatype FormulaAST =
  AST (ast_Op: string) (ast_Left: "FormulaAST option") (ast_Right: "FormulaAST option") (ast_Ref: string) (ast_Const: f64)

record EvalContext =
  ec_DomainScores :: "DomainScore list"
  ec_Weights :: "WeightConfig list"
  ec_RiskContext :: RiskContext
  ec_EdgeFactors :: "EdgeFactorResult list"

text \<open>The loop all weighted formulas share.\<close>

definition weighted_sums :: "(string \<rightharpoonup> f64) \<Rightarrow> DomainScore list \<Rightarrow> f64 \<times> f64" where
  "weighted_sums m ds =
     foldl (\<lambda>(s, t) d. case weighted_domain m d of
              None \<Rightarrow> (s, t) | Some w \<Rightarrow> (f64_add s (f64_mul (ds_Score d) w), f64_add t w)) (f64_0, f64_0) ds"

definition weighted_mean :: "(string \<rightharpoonup> f64) \<Rightarrow> DomainScore list \<Rightarrow> f64" where
  "weighted_mean m ds = (let (s, t) = weighted_sums m ds in if f64_eq t f64_0 then f64_0 else f64_div s t)"

definition evalWeightedSum :: "hooks \<Rightarrow> EvalContext \<Rightarrow> f64" where
  "evalWeightedSum hk ctx =
     weighted_mean (BuildWeightMap (ec_Weights ctx)) (applyDomainAdjust hk (ec_DomainScores ctx) (ec_EdgeFactors ctx))"

definition evalRef :: "string \<Rightarrow> EvalContext \<Rightarrow> string + f64" where
  "evalRef ref ctx =
     (if ref = ''exposure'' then Inr (rc_Exposure (ec_RiskContext ctx))
      else if ref = ''threat'' then Inr (rc_Threat (ec_RiskContext ctx))
      else if ref = ''intrinsic'' then Inr (rc_Intrinsic (ec_RiskContext ctx))
      else if prefix ''domain_score:'' ref then
        (let domain = drop 13 ref
         in case find (\<lambda>d. ds_Domain d = domain) (ec_DomainScores ctx) of
              Some d \<Rightarrow> Inr (ds_Score d)
            | None \<Rightarrow> Inl (''ssam: ref domain_score not found: '' @ domain))
      else if prefix ''weight:'' ref then
        (let domain = drop 7 ref
         in case find (\<lambda>w. wc_Domain w = domain) (ec_Weights ctx) of
              Some w \<Rightarrow> Inr (wc_Weight w)
            | None \<Rightarrow> Inl (''ssam: ref weight not found: '' @ domain))
      else Inl (''ssam: unknown ref: '' @ ref))"

text \<open>The binary operators, shared by the interpreter and the stack machine.\<close>

definition binary_ops :: "string list" where
  "binary_ops = [''multiply'', ''divide'', ''add'', ''min'', ''max'']"

definition apply_binary :: "string \<Rightarrow> f64 \<Rightarrow> f64 \<Rightarrow> f64" where
  "apply_binary opn a b =
     (if opn = ''multiply'' then f64_mul a b
      else if opn = ''add'' then f64_add a b
      else if opn = ''divide'' then (if f64_lt (f64_abs b) (lit (1 / 10 ^ 12)) then f64_0 else f64_div a b)
      else if opn = ''min'' then (if f64_lt a b then a else b)
      else if f64_gt a b then a else b)"

fun EvalAST :: "hooks \<Rightarrow> FormulaAST \<Rightarrow> EvalContext \<Rightarrow> string + f64" where
  "EvalAST hk (AST opn lft rgt ref c) ctx =
     (if opn = ''const'' then Inr c
      else if opn = ''ref'' then evalRef ref ctx
      else if opn = ''weighted_sum'' then Inr (evalWeightedSum hk ctx)
      else if opn = ''product_chain'' then Inr (applyEdgeFactorStrategy hk (ec_EdgeFactors ctx))
      else if opn \<in> set binary_ops then
        (case lft of
           None \<Rightarrow> Inl (''ssam: '' @ opn @ '': left operand is nil'')
         | Some l \<Rightarrow>
             (case rgt of
                None \<Rightarrow> Inl (''ssam: '' @ opn @ '': right operand is nil'')
              | Some r \<Rightarrow>
                  (case EvalAST hk l ctx of
                     Inl e \<Rightarrow> Inl e
                   | Inr a \<Rightarrow> (case EvalAST hk r ctx of Inl e \<Rightarrow> Inl e | Inr b \<Rightarrow> Inr (apply_binary opn a b)))))
      else Inl (''ssam: unknown op: '' @ opn))"

section \<open>Its compiler\<close>

record compiledOp =
  co_op :: string
  co_left :: int
  co_right :: int
  co_ref :: string
  co_const :: f64

definition leaf_op :: "string \<Rightarrow> compiledOp" where
  "leaf_op opn = \<lparr>co_op = opn, co_left = 0, co_right = 0, co_ref = [], co_const = f64_0\<rparr>"

fun compileAST :: "FormulaAST \<Rightarrow> compiledOp list" where
  "compileAST (AST opn lft rgt ref c) =
     (if opn = ''const'' then [(leaf_op ''const'')\<lparr>co_const := c\<rparr>]
      else if opn = ''ref'' then [(leaf_op ''ref'')\<lparr>co_ref := ref\<rparr>]
      else if opn = ''weighted_sum'' then [leaf_op ''weighted_sum'']
      else if opn = ''product_chain'' then [leaf_op ''product_chain'']
      else if opn \<in> set binary_ops then
        (case lft of None \<Rightarrow> [] | Some l \<Rightarrow> compileAST l) @ (case rgt of None \<Rightarrow> [] | Some r \<Rightarrow> compileAST r) @ [leaf_op opn]
      else [(leaf_op ''const'')\<lparr>co_const := f64_0\<rparr>])"

text \<open>The stack, its top first. Popping an empty stack gives 0.\<close>

fun pop_f64 :: "f64 list \<Rightarrow> f64 \<times> f64 list" where
  "pop_f64 [] = (f64_0, [])"
| "pop_f64 (v # st) = (v, st)"

definition compiled_ref ::
    "string \<Rightarrow> DomainScore list \<Rightarrow> (string \<rightharpoonup> f64) \<Rightarrow> f64 \<Rightarrow> f64 \<Rightarrow> f64" where
  "compiled_ref ref ds m threat spc =
     (if ref = ''exposure'' then spc
      else if ref = ''threat'' then threat
      else if ref = ''intrinsic'' then f64_1
      else if prefix ''domain_score:'' ref then
        (case find (\<lambda>d. ds_Domain d = drop 13 ref) ds of Some d \<Rightarrow> ds_Score d | None \<Rightarrow> f64_0)
      else if prefix ''weight:'' ref then (case m (drop 7 ref) of Some w \<Rightarrow> w | None \<Rightarrow> f64_0)
      else f64_0)"

definition exec_op ::
    "hooks \<Rightarrow> DomainScore list \<Rightarrow> (string \<rightharpoonup> f64) \<Rightarrow> f64 \<Rightarrow> f64 \<Rightarrow> EdgeFactorResult list \<Rightarrow> f64 list \<Rightarrow> compiledOp \<Rightarrow> f64 list" where
  "exec_op hk ds m threat spc efs stack opr =
     (if co_op opr = ''const'' then co_const opr # stack
      else if co_op opr = ''ref'' then compiled_ref (co_ref opr) ds m threat spc # stack
      else if co_op opr = ''weighted_sum'' then weighted_mean m (applyDomainAdjust hk ds efs) # stack
      else if co_op opr = ''product_chain'' then applyEdgeFactorStrategy hk efs # stack
      else if co_op opr \<in> set binary_ops then
        (let (b, stack) = pop_f64 stack; (a, stack) = pop_f64 stack in apply_binary (co_op opr) a b # stack)
      else f64_0 # stack)"

definition ASTToFormula ::
    "hooks \<Rightarrow> FormulaAST \<Rightarrow> DomainScore list \<Rightarrow> WeightConfig list \<Rightarrow> f64 \<Rightarrow> f64 \<Rightarrow> EdgeFactorResult list \<Rightarrow> f64" where
  "ASTToFormula hk ast ds weights threat spc efs =
     fst (pop_f64 (foldl (exec_op hk ds (BuildWeightMap weights) threat spc efs) [] (compileAST ast)))"

section \<open>The built-in formulas\<close>

definition leaf_ast :: "string \<Rightarrow> FormulaAST" where
  "leaf_ast opn = AST opn None None [] f64_0"

definition binary_ast :: "string \<Rightarrow> FormulaAST \<Rightarrow> FormulaAST \<Rightarrow> FormulaAST" where
  "binary_ast opn l r = AST opn (Some l) (Some r) [] f64_0"

definition SSAMV12AST :: FormulaAST where
  "SSAMV12AST =
     binary_ast ''multiply''
       (binary_ast ''multiply''
         (binary_ast ''multiply'' (leaf_ast ''weighted_sum'') (AST ''ref'' None None ''threat'' f64_0))
         (AST ''ref'' None None ''exposure'' f64_0))
       (leaf_ast ''product_chain'')"

definition SSAMV20AST :: FormulaAST where
  "SSAMV20AST =
     binary_ast ''add''
       (binary_ast ''add''
         (binary_ast ''multiply''
           (binary_ast ''multiply'' (leaf_ast ''weighted_sum'') (leaf_ast ''product_chain''))
           (AST ''const'' None None [] (lit (1 / 2))))
         (binary_ast ''multiply''
           (binary_ast ''max'' (AST ''ref'' None None ''exposure'' f64_0) (AST ''const'' None None [] (lit (6 / 10))))
           (AST ''const'' None None [] (lit 30))))
       (binary_ast ''multiply''
         (binary_ast ''max'' (AST ''ref'' None None ''threat'' f64_0) (AST ''const'' None None [] (lit (6 / 10))))
         (AST ''const'' None None [] (lit 20)))"

type_synonym ScoringFormula = "DomainScore list \<Rightarrow> WeightConfig list \<Rightarrow> f64 \<Rightarrow> f64 \<Rightarrow> EdgeFactorResult list \<Rightarrow> f64"
type_synonym ScoringFormulaV2 = "DomainScore list \<Rightarrow> WeightConfig list \<Rightarrow> RiskContext \<Rightarrow> EdgeFactorResult list \<Rightarrow> FinalScore"

definition SSAMV12Formula :: ScoringFormula where
  "SSAMV12Formula ds weights threat spc efs =
     (let (sum, total) = weighted_sums (BuildWeightMap weights) ds
      in if f64_eq total f64_0 then f64_0
         else round2 (times_factors (f64_mul (f64_mul (f64_div sum total) threat) spc) efs))"

definition SimpleWeightedFormula :: ScoringFormula where
  "SimpleWeightedFormula ds weights threat spc efs =
     (let (sum, total) = weighted_sums (BuildWeightMap weights) ds
      in if f64_eq total f64_0 then f64_0 else round2 (f64_div sum total))"

definition RegisterBuiltinFormulas :: "string \<rightharpoonup> ScoringFormula" where
  "RegisterBuiltinFormulas = [''ssam_v1.2'' \<mapsto> SSAMV12Formula, ''simple_weighted'' \<mapsto> SimpleWeightedFormula]"

definition layer :: "f64 \<Rightarrow> f64 \<Rightarrow> string list \<Rightarrow> RiskLayerDetail" where
  "layer c w contributors = \<lparr>rl_Coeff = c, rl_Weight = w, rl_Contributors = contributors, rl_Details = Map.empty\<rparr>"

text \<open>The normalisation of the exposure and the threat coefficient inside the v2.0 formula.\<close>

definition floored_coeff :: "f64 \<Rightarrow> f64" where
  "floored_coeff x =
     (let x = (if f64_le x f64_0 then f64_1 else x) in if f64_lt x (lit (6 / 10)) then lit (6 / 10) else x)"

text \<open>The three layers, weighted 50 : 30 : 20.\<close>

definition layer_mix :: "f64 \<Rightarrow> f64 \<Rightarrow> f64 \<Rightarrow> f64" where
  "layer_mix ic ec tc =
     (let avg = f64_div (f64_add (f64_add (f64_mul ic (lit 50)) (f64_mul ec (lit 30))) (f64_mul tc (lit 20)))
                  (f64_add (f64_add (lit 50) (lit 30)) (lit 20))
      in f64_div (f64_round (f64_mul (f64_mul avg (lit 100)) (lit 100))) (lit 100))"

definition layers_total :: "f64 \<Rightarrow> f64 \<Rightarrow> f64 \<Rightarrow> f64" where
  "layers_total base ec tc = layer_mix (f64_div base (lit 100)) ec tc"

definition SSAMV20Formula :: "hooks \<Rightarrow> ScoringFormulaV2" where
  "SSAMV20Formula hk ds weights rc efs =
     (let ds = applyDomainAdjust hk ds efs; (sum, total) = weighted_sums (BuildWeightMap weights) ds
      in if f64_eq total f64_0
         then \<lparr>fs_Total = f64_0, fs_Layers =
                \<lparr>ly_Intrinsic = layer f64_0 f64_0 [''domain_scores''],
                 ly_Exposure = layer (rc_Exposure rc) f64_0 [''exposure_coefficient''],
                 ly_Threat = layer (rc_Threat rc) f64_0 [''threat_coefficient'']\<rparr>\<rparr>
         else let base = round2 (applyEdgeFactorStrategyToBase hk (f64_div sum total) efs);
                  ec = floored_coeff (rc_Exposure rc); tc = floored_coeff (rc_Threat rc)
              in \<lparr>fs_Total = layers_total base ec tc, fs_Layers =
                   \<lparr>ly_Intrinsic = layer (round2 (f64_div base (lit 100))) (lit 50)
                      (''domain_scores'' # map (\<lambda>f. ''edge_factor:'' @ efr_ID f) (filter counts efs)),
                    ly_Exposure = layer ec (lit 30) [''exposure_coefficient''],
                    ly_Threat = layer tc (lit 20) [''threat_coefficient'']\<rparr>\<rparr>)"

definition RegisterBuiltinFormulasV2 :: "hooks \<Rightarrow> (string \<rightharpoonup> ScoringFormulaV2)" where
  "RegisterBuiltinFormulasV2 hk = [''ssam_v2.0'' \<mapsto> SSAMV20Formula hk]"

section \<open>Scoring an assessment\<close>

datatype SSAMError = SSAMError (err_Code: string) (err_Message: string)

definition ErrInvalidScore :: SSAMError where
  "ErrInvalidScore = SSAMError ''invalid_score'' ''score out of valid range [0, 100]''"

record AssessmentInput =
  ai_HostID :: string
  ai_Hostname :: string
  ai_Threshold :: f64
  ai_Checks :: "CheckInput list"
  ai_ThreatCoeff :: f64
  ai_SPCScore :: f64
  ai_WeightShifts :: "string \<rightharpoonup> f64"

record AssessmentOutput =
  ao_HostID :: string
  ao_FinalScore :: f64
  ao_Acceptable :: bool
  ao_Threshold :: f64
  ao_DomainScores :: "DomainScore list"
  ao_EdgeFactors :: "EdgeFactorResult list"
  ao_ThreatCoeff :: f64
  ao_SPCScore :: f64
  ao_FormulaID :: string
  ao_Metadata :: "string \<rightharpoonup> string"
  ao_FinalSigma :: f64
  ao_Lower95 :: f64
  ao_Upper95 :: f64
  ao_EvidenceConfidence :: f64

record ScoringConfig =
  sc_Weights :: "WeightConfig list"
  sc_EdgeFactors :: "EdgeFactorConfig list"
  sc_FormulaID :: string
  sc_ConfidencePolicy :: ConfidencePolicy
  sc_AcceptByLowerBound :: bool

definition DefaultScoringConfig :: ScoringConfig where
  "DefaultScoringConfig =
     \<lparr>sc_Weights = DefaultWeights, sc_EdgeFactors = DefaultEdgeFactors, sc_FormulaID = ''ssam_v2.0'',
      sc_ConfidencePolicy = \<lparr>cp_Enabled = False, cp_Default = f64_0, cp_Floor = f64_0, cp_PriorStrength = f64_0, cp_Algorithm = []\<rparr>,
      sc_AcceptByLowerBound = False\<rparr>"

definition empty_domain_error :: "CheckInput list \<Rightarrow> SSAMError option" where
  "empty_domain_error checks =
     map_option (\<lambda>i. SSAMError ''empty_domain'' (''checks['' @ itoa (int i) @ ''].domain must not be empty''))
       (find (\<lambda>i. ck_Domain (checks ! i) = []) [0..<length checks])"

definition validate_request :: "string \<Rightarrow> f64 \<Rightarrow> CheckInput list \<Rightarrow> SSAMError option" where
  "validate_request host threshold checks =
     (if host = [] then Some (SSAMError ''empty_host_id'' ''host_id must not be empty'')
      else if f64_le threshold f64_0 \<or> f64_gt threshold (lit 100)
      then Some (SSAMError ''invalid_threshold'' ''threshold must be in range (0, 100]'')
      else empty_domain_error checks)"

definition ValidateInput :: "AssessmentInput \<Rightarrow> SSAMError option" where
  "ValidateInput input = validate_request (ai_HostID input) (ai_Threshold input) (ai_Checks input)"

definition ValidateOutput :: "AssessmentOutput \<Rightarrow> SSAMError option" where
  "ValidateOutput out =
     (if f64_lt (ao_FinalScore out) f64_0 \<or> f64_gt (ao_FinalScore out) (lit 100) then Some ErrInvalidScore else None)"

definition fillPosterior :: "ScoringConfig \<Rightarrow> DomainScore list \<Rightarrow> AssessmentOutput \<Rightarrow> AssessmentOutput" where
  "fillPosterior cf ds out =
     (let sigma = FinalBayesStats (sc_Weights cf) ds; (lo, up) = ConfidenceInterval (ao_FinalScore out) sigma
      in out\<lparr>ao_FinalSigma := sigma, ao_Lower95 := lo, ao_Upper95 := up,
             ao_EvidenceConfidence := AggregateNodeConfidence (sc_Weights cf) ds\<rparr>)"

text \<open>The three branches of \<open>computeScoreInternal\<close> differ in the score; what follows it is the same in each.\<close>

definition finish_output :: "ScoringConfig \<Rightarrow> DomainScore list \<Rightarrow> AssessmentOutput \<Rightarrow> SSAMError + AssessmentOutput" where
  "finish_output cf ds out =
     (let out = fillPosterior cf ds out;
          out = out\<lparr>ao_Acceptable := AcceptanceDecision (ao_FinalScore out) (ao_Lower95 out) (ao_Threshold out) (sc_AcceptByLowerBound cf)\<rparr>
      in case ValidateOutput out of Some e \<Rightarrow> Inl e | None \<Rightarrow> Inr out)"

definition raw_score ::
    "hooks \<Rightarrow> ScoringConfig \<Rightarrow> DomainScore list \<Rightarrow> f64 \<Rightarrow> f64 \<Rightarrow> EdgeFactorResult list \<Rightarrow> f64" where
  "raw_score hk cf ds threat spc efs =
     (case RegisterBuiltinFormulas (sc_FormulaID cf) of
        Some formula \<Rightarrow> round2 (formula ds (sc_Weights cf) threat spc efs)
      | None \<Rightarrow>
          (case RegisterBuiltinFormulasV2 hk (sc_FormulaID cf) of
             Some formula \<Rightarrow>
               fs_Total (formula ds (sc_Weights cf)
                 \<lparr>rc_Intrinsic = f64_1, rc_Exposure = (if f64_le spc f64_0 then f64_1 else spc),
                  rc_Threat = (if f64_le threat f64_0 then f64_1 else threat)\<rparr> efs)
           | None \<Rightarrow> round2 (SSAMV12Formula ds (sc_Weights cf) threat spc efs)))"

definition computeScoreInternal ::
    "hooks \<Rightarrow> string list \<Rightarrow> ScoringConfig \<Rightarrow> AssessmentInput \<Rightarrow> ConfidencePolicy \<Rightarrow> SSAMError + AssessmentOutput" where
  "computeScoreInternal hk order cf input p =
     (case ValidateInput input of
        Some e \<Rightarrow> Inl e
      | None \<Rightarrow>
          let threat = (if f64_eq (ai_ThreatCoeff input) f64_0 then f64_1 else ai_ThreatCoeff input);
              spc = (if f64_eq (ai_SPCScore input) f64_0 then f64_1 else ai_SPCScore input);
              spc = (if f64_lt spc (lit (6 / 10)) then lit (6 / 10) else spc);
              ds = ComputeDomainScoresBayes (sc_Weights cf) (ai_Checks input) p;
              efs = ApplyEdgeFactorsToChecksPolicy order (sc_EdgeFactors cf) (ai_Checks input) (BuildCustomFactorMap (sc_EdgeFactors cf)) p
          in finish_output cf ds
               \<lparr>ao_HostID = ai_HostID input, ao_FinalScore = raw_score hk cf ds threat spc efs, ao_Acceptable = False,
                ao_Threshold = ai_Threshold input, ao_DomainScores = ds, ao_EdgeFactors = efs, ao_ThreatCoeff = threat,
                ao_SPCScore = spc, ao_FormulaID = sc_FormulaID cf, ao_Metadata = Map.empty, ao_FinalSigma = f64_0,
                ao_Lower95 = f64_0, ao_Upper95 = f64_0, ao_EvidenceConfidence = f64_0\<rparr>)"

definition ComputeScore :: "hooks \<Rightarrow> string list \<Rightarrow> ScoringConfig \<Rightarrow> AssessmentInput \<Rightarrow> SSAMError + AssessmentOutput" where
  "ComputeScore hk order cf input = computeScoreInternal hk order cf input DefaultConfidencePolicy"

definition ComputeScoreWithConfidence ::
    "hooks \<Rightarrow> string list \<Rightarrow> ScoringConfig \<Rightarrow> AssessmentInput \<Rightarrow> ConfidencePolicy \<Rightarrow> SSAMError + AssessmentOutput" where
  "ComputeScoreWithConfidence hk order cf input p = computeScoreInternal hk order cf input p"

record AssessmentInputV2 =
  i2_HostID :: string
  i2_Hostname :: string
  i2_Threshold :: f64
  i2_Checks :: "CheckInput list"
  i2_RiskContext :: RiskContext
  i2_WeightShifts :: "string \<rightharpoonup> f64"

record AssessmentOutputV2 =
  o2_HostID :: string
  o2_FinalScore :: FinalScore
  o2_Acceptable :: bool
  o2_Threshold :: f64
  o2_DomainScores :: "DomainScore list"
  o2_EdgeFactors :: "EdgeFactorResult list"
  o2_FormulaID :: string
  o2_Metadata :: "string \<rightharpoonup> string"
  o2_FinalSigma :: f64
  o2_Lower95 :: f64
  o2_Upper95 :: f64
  o2_EvidenceConfidence :: f64

definition ValidateInputV2 :: "AssessmentInputV2 \<Rightarrow> SSAMError option" where
  "ValidateInputV2 input = validate_request (i2_HostID input) (i2_Threshold input) (i2_Checks input)"

definition normalizeRiskContext :: "RiskContext \<Rightarrow> RiskContext" where
  "normalizeRiskContext rc =
     (let one = (\<lambda>x. if f64_le x f64_0 then f64_1 else x)
      in \<lparr>rc_Intrinsic = one (rc_Intrinsic rc), rc_Exposure = one (rc_Exposure rc), rc_Threat = one (rc_Threat rc)\<rparr>)"

definition fillPosteriorV2 :: "ScoringConfig \<Rightarrow> DomainScore list \<Rightarrow> AssessmentOutputV2 \<Rightarrow> AssessmentOutputV2" where
  "fillPosteriorV2 cf ds out =
     (let sigma = FinalBayesStats (sc_Weights cf) ds; (lo, up) = ConfidenceInterval (fs_Total (o2_FinalScore out)) sigma
      in out\<lparr>o2_FinalSigma := sigma, o2_Lower95 := lo, o2_Upper95 := up,
             o2_EvidenceConfidence := AggregateNodeConfidence (sc_Weights cf) ds\<rparr>)"

definition ComputeScoreV2 :: "hooks \<Rightarrow> string list \<Rightarrow> ScoringConfig \<Rightarrow> AssessmentInputV2 \<Rightarrow> SSAMError + AssessmentOutputV2" where
  "ComputeScoreV2 hk order cf input =
     (case ValidateInputV2 input of
        Some e \<Rightarrow> Inl e
      | None \<Rightarrow>
          let rc = normalizeRiskContext (i2_RiskContext input); p = sc_ConfidencePolicy cf;
              ds = ComputeDomainScoresBayes (sc_Weights cf) (i2_Checks input) p;
              efs = ApplyEdgeFactorsToChecksPolicy order (sc_EdgeFactors cf) (i2_Checks input) (BuildCustomFactorMap (sc_EdgeFactors cf)) p;
              formula = (case RegisterBuiltinFormulasV2 hk (sc_FormulaID cf) of Some f \<Rightarrow> f | None \<Rightarrow> SSAMV20Formula hk);
              out = fillPosteriorV2 cf ds
                      \<lparr>o2_HostID = i2_HostID input, o2_FinalScore = formula ds (sc_Weights cf) rc efs, o2_Acceptable = False,
                       o2_Threshold = i2_Threshold input, o2_DomainScores = ds, o2_EdgeFactors = efs,
                       o2_FormulaID = sc_FormulaID cf, o2_Metadata = Map.empty, o2_FinalSigma = f64_0, o2_Lower95 = f64_0,
                       o2_Upper95 = f64_0, o2_EvidenceConfidence = f64_0\<rparr>
          in Inr (out\<lparr>o2_Acceptable := AcceptanceDecision (fs_Total (o2_FinalScore out)) (o2_Lower95 out) (o2_Threshold out)
                        (sc_AcceptByLowerBound cf)\<rparr>))"

section \<open>The interchange record\<close>

record IRMeta =
  im_Version :: string
  im_FormulaID :: string
  im_Timestamp :: string

record IRInput =
  ii_HostID :: string
  ii_Hostname :: string
  ii_Threshold :: f64
  ii_Checks :: "CheckInput list"
  ii_RiskContext :: RiskContext
  ii_Weights :: "WeightConfig list"
  ii_EdgeFactors :: "EdgeFactorConfig list"

record IROutput =
  io_FinalScore :: f64
  io_Acceptable :: bool
  io_Threshold :: f64
  io_DomainScores :: "DomainScore list"
  io_RiskLayers :: RiskLayers
  io_EdgeFactors :: "EdgeFactorResult list"

record SSAMIR =
  ir_Meta :: IRMeta
  ir_Input :: IRInput
  ir_Output :: IROutput

text \<open>\<open>now\<close> is the clock, in the format of RFC 3339.\<close>

definition NewIR :: "string \<Rightarrow> AssessmentInputV2 \<Rightarrow> ScoringConfig \<Rightarrow> AssessmentOutputV2 \<Rightarrow> SSAMIR" where
  "NewIR now input cf out =
     \<lparr>ir_Meta = \<lparr>im_Version = ''2.0'', im_FormulaID = sc_FormulaID cf, im_Timestamp = now\<rparr>,
      ir_Input = \<lparr>ii_HostID = i2_HostID input, ii_Hostname = i2_Hostname input, ii_Threshold = i2_Threshold input,
                  ii_Checks = i2_Checks input, ii_RiskContext = i2_RiskContext input, ii_Weights = sc_Weights cf,
                  ii_EdgeFactors = sc_EdgeFactors cf\<rparr>,
      ir_Output = \<lparr>io_FinalScore = fs_Total (o2_FinalScore out), io_Acceptable = o2_Acceptable out, io_Threshold = o2_Threshold out,
                   io_DomainScores = o2_DomainScores out, io_RiskLayers = fs_Layers (o2_FinalScore out),
                   io_EdgeFactors = o2_EdgeFactors out\<rparr>\<rparr>"

definition invalid_ir :: "string \<Rightarrow> SSAMError option" where
  "invalid_ir msg = Some (SSAMError ''invalid_ir'' msg)"

definition ValidateIR :: "SSAMIR \<Rightarrow> SSAMError option" where
  "ValidateIR ir =
     (if im_Version (ir_Meta ir) = [] then invalid_ir ''meta.version must not be empty''
      else if im_FormulaID (ir_Meta ir) = [] then invalid_ir ''meta.formula_id must not be empty''
      else if im_Timestamp (ir_Meta ir) = [] then invalid_ir ''meta.timestamp must not be empty''
      else if ii_HostID (ir_Input ir) = [] then invalid_ir ''input.host_id must not be empty''
      else if f64_le (ii_Threshold (ir_Input ir)) f64_0 \<or> f64_gt (ii_Threshold (ir_Input ir)) (lit 100)
      then invalid_ir ''input.threshold must be in range (0, 100]''
      else if f64_lt (io_FinalScore (ir_Output ir)) f64_0 \<or> f64_gt (io_FinalScore (ir_Output ir)) (lit 100)
      then invalid_ir ''output.final_score must be in range [0, 100]''
      else None)"

section \<open>The compiler is correct\<close>

lemma BuildWeightMap_find:
  "distinct (map wc_Domain ws) \<Longrightarrow> BuildWeightMap ws d = map_option wc_Weight (find (\<lambda>w. wc_Domain w = d) ws)"
proof -
  have "distinct (map wc_Domain ws) \<Longrightarrow>
      foldl (\<lambda>m w. m(wc_Domain w \<mapsto> wc_Weight w)) m ws d =
      (case find (\<lambda>w. wc_Domain w = d) ws of None \<Rightarrow> m d | Some w \<Rightarrow> Some (wc_Weight w))" for m
  proof (induction ws arbitrary: m)
    case (Cons w ws)
    have "find (\<lambda>v. wc_Domain v = wc_Domain w) ws = None" using Cons.prems by (auto simp: find_None_iff image_iff)
    then show ?case using Cons by auto
  qed simp
  from this [of Map.empty] show "distinct (map wc_Domain ws) \<Longrightarrow> ?thesis"
    by (simp add: BuildWeightMap_def split: option.split)
qed

lemma compiled_ref_correct:
  assumes "evalRef ref ctx = Inr v" "rc_Intrinsic (ec_RiskContext ctx) = f64_1" "distinct (map wc_Domain (ec_Weights ctx))"
  shows "compiled_ref ref (ec_DomainScores ctx) (BuildWeightMap (ec_Weights ctx)) (rc_Threat (ec_RiskContext ctx))
           (rc_Exposure (ec_RiskContext ctx)) = v"
  using assms by (auto simp: evalRef_def compiled_ref_def BuildWeightMap_find Let_def split: if_splits option.splits)

lemma exec_op_binary:
  "opn \<in> set binary_ops \<Longrightarrow> exec_op hk ds m threat spc efs (b # a # st) (leaf_op opn) = apply_binary opn a b # st"
  by (auto simp: exec_op_def leaf_op_def binary_ops_def)

abbreviation exec_ctx :: "hooks \<Rightarrow> EvalContext \<Rightarrow> f64 list \<Rightarrow> compiledOp \<Rightarrow> f64 list" where
  "exec_ctx hk ctx \<equiv>
     exec_op hk (ec_DomainScores ctx) (BuildWeightMap (ec_Weights ctx)) (rc_Threat (ec_RiskContext ctx))
       (rc_Exposure (ec_RiskContext ctx)) (ec_EdgeFactors ctx)"

lemma compile_pushes:
  assumes "EvalAST hk ast ctx = Inr v" "rc_Intrinsic (ec_RiskContext ctx) = f64_1" "distinct (map wc_Domain (ec_Weights ctx))"
  shows "foldl (exec_ctx hk ctx) st (compileAST ast) = v # st"
  using assms
proof (induction hk ast ctx arbitrary: v st rule: EvalAST.induct)
  case (1 hk opn lft rgt ref c ctx)
  note ctx = "1.prems"(2,3)
  show ?case
  proof (cases "opn \<in> set binary_ops")
    case True
    then have n: "opn \<noteq> ''const''" "opn \<noteq> ''ref''" "opn \<noteq> ''weighted_sum''" "opn \<noteq> ''product_chain''"
      by (auto simp: binary_ops_def)
    obtain l r a b where lr: "lft = Some l" "rgt = Some r" "EvalAST hk l ctx = Inr a" "EvalAST hk r ctx = Inr b"
      "v = apply_binary opn a b"
      using "1.prems"(1) n True by (auto split: option.splits sum.splits)
    have "foldl (exec_ctx hk ctx) st (compileAST l) = a # st" by (rule "1.IH"(1) [OF n True lr(1,2,3) ctx])
    moreover have "foldl (exec_ctx hk ctx) (a # st) (compileAST r) = b # a # st"
      by (rule "1.IH"(2) [OF n True lr(1,2,3,4) ctx])
    ultimately show ?thesis using n True lr(1,2,5) by (simp add: exec_op_binary)
  next
    case False
    then show ?thesis using "1.prems"
      by (auto simp: exec_op_def leaf_op_def evalWeightedSum_def intro: compiled_ref_correct [OF _ ctx] split: if_splits)
  qed
qed


definition demo_context :: EvalContext where
  "demo_context =
     \<lparr>ec_DomainScores = [\<lparr>ds_Domain = ''d'', ds_Score = Fin 50, ds_Sigma = f64_0, ds_Confidence = f64_1\<rparr>],
      ec_Weights = [\<lparr>wc_Domain = ''d'', wc_Weight = Fin 2\<rparr>],
      ec_RiskContext = \<lparr>rc_Intrinsic = f64_1, rc_Exposure = Fin 3, rc_Threat = Fin 4\<rparr>, ec_EdgeFactors = []\<rparr>"


text \<open>Where the interpreter reports an error the compiled formula goes on with 0, and a domain weighted twice gives
  the two different weights.\<close>

definition half_product :: FormulaAST where
  "half_product = AST ''multiply'' None (Some (AST ''const'' None None [] (Fin 5))) [] f64_0"

theorem compiled_formula_masks_errors:
  "EvalAST hk half_product ctx = Inl ''ssam: multiply: left operand is nil'' \<and>
   ASTToFormula hk half_product ds ws threat spc efs = f64_0"
  by (simp add: half_product_def ASTToFormula_def binary_ops_def exec_op_def leaf_op_def apply_binary_def)

definition twice_weighted :: "WeightConfig list" where
  "twice_weighted = [\<lparr>wc_Domain = ''d'', wc_Weight = Fin 1\<rparr>, \<lparr>wc_Domain = ''d'', wc_Weight = Fin 2\<rparr>]"

theorem duplicate_weight_differs:
  "EvalAST default_hooks (AST ''ref'' None None ''weight:d'' f64_0) (demo_context\<lparr>ec_Weights := twice_weighted\<rparr>) = Inr (Fin 1) \<and>
   ASTToFormula default_hooks (AST ''ref'' None None ''weight:d'' f64_0) [] twice_weighted f64_1 f64_1 [] = Fin 2"
  by (simp add: evalRef_def ASTToFormula_def exec_op_def leaf_op_def compiled_ref_def twice_weighted_def BuildWeightMap_def)

section \<open>The lower-bound rule\<close>

lemma BuildWeightMap_of: "BuildWeightMap ws = map_of (map (\<lambda>w. (wc_Domain w, wc_Weight w)) (rev ws))"
  by (induction ws rule: rev_induct) (simp_all add: BuildWeightMap_def)

lemma BuildWeightMap_SomeD: "BuildWeightMap ws d = Some w \<Longrightarrow> \<exists>v\<in>set ws. wc_Domain v = d \<and> wc_Weight v = w"
  unfolding BuildWeightMap_of by (drule map_of_SomeD) auto

lemma FinalBayesStats_no_sigma:
  assumes "list_all (\<lambda>d. ds_Sigma d = f64_0) ds" "list_all (\<lambda>w. wf64 (wc_Weight w) \<and> is_fin (wc_Weight w)) ws"
  shows "FinalBayesStats ws ds = f64_0"
proof -
  have fin: "is_fin w" if "BuildWeightMap ws d = Some w" for d w
    using BuildWeightMap_SomeD [OF that] assms(2) by (auto simp: list_all_iff)
  have sums: "foldl (\<lambda>(t, v) d.
             case not_skipped (BuildWeightMap ws) d of None \<Rightarrow> (t, v)
             | Some w \<Rightarrow> (f64_add t w, f64_add v (f64_mul (f64_mul w (ds_Sigma d)) (f64_mul w (ds_Sigma d))))) (t, f64_0) ds = (u, v)
      \<Longrightarrow> f64_le f64_0 t \<Longrightarrow> v = f64_0 \<and> f64_le f64_0 u" for t u v
    using assms(1)
  proof (induction ds arbitrary: t)
    case (Cons d ds)
    show ?case
    proof (cases "not_skipped (BuildWeightMap ws) d")
      case (Some w)
      then obtain x where x: "w = Fin x" "0 \<le> x"
        using fin [of "ds_Domain d" w] by (cases w) (auto simp: not_skipped_def split: option.splits if_splits)
      then have "f64_le f64_0 (f64_add t w)" using Cons.prems by (simp add: f64_add_nonneg)
      then show ?thesis using Cons.IH [of "f64_add t w"] Cons.prems Some x by simp
    qed (use Cons in auto)
  qed simp
  obtain u v where uv: "foldl (\<lambda>(t, v) d.
             case not_skipped (BuildWeightMap ws) d of None \<Rightarrow> (t, v)
             | Some w \<Rightarrow> (f64_add t w, f64_add v (f64_mul (f64_mul w (ds_Sigma d)) (f64_mul w (ds_Sigma d))))) (f64_0, f64_0) ds = (u, v)"
    by fastforce
  from sums [OF uv] have v: "v = f64_0" "f64_le f64_0 u" by auto
  have "FinalBayesStats ws ds = (if f64_eq u f64_0 then f64_0 else f64_div (f64_mul (lit (1 / 2)) (f64_sqrt v)) u)"
    by (simp only: FinalBayesStats_def Let_def uv prod.case)
  then show ?thesis using v by (cases u) auto
qed

lemma interval_no_sigma:
  "\<not> f64_lt x f64_0 \<Longrightarrow> wf64 x \<Longrightarrow> fst (ConfidenceInterval x f64_0) = x"
proof -
  assume x: "\<not> f64_lt x f64_0" "wf64 x"
  have "btw 0 2 (lit (196 / 100))" by (rule btw_of_rat) simp_all
  then obtain h where h: "lit (196 / 100) = Fin h" using btwD by blast
  have "f64_sub x f64_0 = x" using x(2) by (cases x) (simp_all add: f64_sub_def)
  then show ?thesis using x(1) by (simp add: ConfidenceInterval_def Let_def h [simplified])
qed

lemma round2_wf [simp]: "wf64 (round2 x)"
  by (simp add: round2_def)

lemma SSAMV20_wf: "wf64 (fs_Total (SSAMV20Formula hk ds ws rc efs))"
  by (simp add: SSAMV20Formula_def layers_total_def layer_mix_def Let_def split: prod.split)

lemma raw_score_wf: "wf64 (raw_score hk cf ds threat spc efs)"
  by (auto simp: raw_score_def RegisterBuiltinFormulasV2_def SSAMV20_wf split: option.splits)

lemma raw_score_rule [simp]:
  "raw_score hk (cf\<lparr>sc_AcceptByLowerBound := b\<rparr>) ds threat spc efs = raw_score hk cf ds threat spc efs"
  by (simp add: raw_score_def cong: option.case_cong)

lemma AcceptanceDecision_same [simp]: "AcceptanceDecision x x t b \<longleftrightarrow> f64_ge x t"
  by (simp add: AcceptanceDecision_def)

lemma finish_output_inert:
  assumes "FinalBayesStats (sc_Weights cf) ds = f64_0" "wf64 (ao_FinalScore out)"
  shows "finish_output (cf\<lparr>sc_AcceptByLowerBound := b\<rparr>) ds out = finish_output (cf\<lparr>sc_AcceptByLowerBound := b'\<rparr>) ds out"
proof (cases "f64_lt (ao_FinalScore out) f64_0")
  case True
  then show ?thesis by (simp add: finish_output_def fillPosterior_def ValidateOutput_def Let_def split: prod.split)
next
  case False
  obtain lo up where lu: "ConfidenceInterval (ao_FinalScore out) f64_0 = (lo, up)" by fastforce
  then have "lo = ao_FinalScore out" using interval_no_sigma [OF False assms(2)] by simp
  then show ?thesis by (simp add: finish_output_def fillPosterior_def assms(1) lu Let_def cong: option.case_cong)
qed

text \<open>With confidence switched off the option \<open>accept_by_lower_bound\<close> has no effect on any assessment by any
  formula: the deviation is 0, the interval collapses to the score, and both rules accept the same hosts.\<close>

theorem lower_bound_rule_inert:
  assumes "\<not> cp_Enabled p" and "sane_checks (ai_Checks input)"
    and "list_all (\<lambda>w. wf64 (wc_Weight w) \<and> is_fin (wc_Weight w)) (sc_Weights cf)"
  shows "computeScoreInternal hk order (cf\<lparr>sc_AcceptByLowerBound := b\<rparr>) input p =
         computeScoreInternal hk order (cf\<lparr>sc_AcceptByLowerBound := b'\<rparr>) input p"
proof -
  have "FinalBayesStats (sc_Weights cf) (ComputeDomainScoresBayes (sc_Weights cf) (ai_Checks input) p) = f64_0"
    by (rule FinalBayesStats_no_sigma [OF _ assms(3)])
      (auto simp: ComputeDomainScoresBayes_disabled [OF assms(1,2)] list_all_iff legacy_score_def)
  from finish_output_inert [OF this, of _ b b'] show ?thesis
    by (simp add: computeScoreInternal_def raw_score_wf Let_def cong: option.case_cong split: option.split)
qed

definition demo_input :: "f64 \<Rightarrow> CheckInput list \<Rightarrow> AssessmentInput" where
  "demo_input threat checks =
     \<lparr>ai_HostID = ''h'', ai_Hostname = ''h'', ai_Threshold = Fin 60, ai_Checks = checks, ai_ThreatCoeff = threat,
      ai_SPCScore = f64_1, ai_WeightShifts = Map.empty\<rparr>"

theorem lower_bound_rule_inert_witness:
  "computeScoreInternal default_hooks [] (\<lparr>sc_Weights = DefaultWeights, sc_EdgeFactors = [], sc_FormulaID = ''ssam_v2.0'',
       sc_ConfidencePolicy = DefaultConfidencePolicy, sc_AcceptByLowerBound = False\<rparr>\<lparr>sc_AcceptByLowerBound := True\<rparr>)
     (demo_input f64_1 [demo_check ''A'' ''resilience'' False (- 40) f64_1]) DefaultConfidencePolicy =
   computeScoreInternal default_hooks [] (\<lparr>sc_Weights = DefaultWeights, sc_EdgeFactors = [], sc_FormulaID = ''ssam_v2.0'',
       sc_ConfidencePolicy = DefaultConfidencePolicy, sc_AcceptByLowerBound = False\<rparr>\<lparr>sc_AcceptByLowerBound := False\<rparr>)
     (demo_input f64_1 [demo_check ''A'' ''resilience'' False (- 40) f64_1]) DefaultConfidencePolicy"
  by (rule lower_bound_rule_inert)
    (simp_all add: DefaultConfidencePolicy_def demo_input_def demo_check_def sane_checks_def sane_check_def DefaultWeights_def)

end
