(* ===== verification/Ssam_Range.thy ===== *)
theory Ssam_Range
  imports Ssam_Formula
begin

text \<open>
  \<open>ssam-lib\<close>, the range and the monotonicity of the v2.0 score, through every rounding of the computation, and
  what that means for the interchange record and for amplifying coefficients.
\<close>

section \<open>The range of the v2.0 score\<close>

lemma layer_mix_mono:
  assumes "btw 0 1 b" "btw 0 1 b'" "btw 0 1 e" "btw 0 1 e'" "btw 0 1 t" "btw 0 1 t'"
    and "f64_le b b'" "f64_le e e'" "f64_le t t'"
  shows "f64_le (layer_mix b e t) (layer_mix b' e' t')"
proof -
  have c: "btw 0 50 (lit 50)" "btw 0 30 (lit 30)" "btw 0 20 (lit 20)" "btw 0 100 (lit 100)" by simp_all
  have h: "f64_add (f64_add (lit 50) (lit 30)) (lit 20) = Fin 100" by simp
  define avg where "avg = (\<lambda>b e t. f64_div (f64_add (f64_add (f64_mul b (lit 50)) (f64_mul e (lit 30))) (f64_mul t (lit 20))) (Fin 100))"
  have p1: "btw 0 50 (f64_mul x (lit 50))" if "btw 0 1 x" for x using btw_mul [OF that c(1)] by simp
  have p2: "btw 0 30 (f64_mul x (lit 30))" if "btw 0 1 x" for x using btw_mul [OF that c(2)] by simp
  have p3: "btw 0 20 (f64_mul x (lit 20))" if "btw 0 1 x" for x using btw_mul [OF that c(3)] by simp
  have s1: "btw 0 80 (f64_add (f64_mul x (lit 50)) (f64_mul y (lit 30)))" if "btw 0 1 x" "btw 0 1 y" for x y
    using btw_add [OF p1 [OF that(1)] p2 [OF that(2)]] by simp
  have s2: "btw 0 100 (f64_add (f64_add (f64_mul x (lit 50)) (f64_mul y (lit 30))) (f64_mul z (lit 20)))"
    if "btw 0 1 x" "btw 0 1 y" "btw 0 1 z" for x y z
    using btw_add [OF s1 [OF that(1,2)] p3 [OF that(3)]] by simp
  have a: "btw 0 1 (avg x y z)" if "btw 0 1 x" "btw 0 1 y" "btw 0 1 z" for x y z
    using btw_div [of 0 100 1, OF _ _ rep_0 rep_1] s2 [OF that] by (simp add: avg_def)
  have le: "f64_le (avg b e t) (avg b' e' t')"
    unfolding avg_def
    by (intro f64_div_mono_btw [OF s2 [OF assms(1,3,5)] s2 [OF assms(2,4,6)]]
        f64_add_mono_btw [OF s1 [OF assms(1,3)] s1 [OF assms(2,4)] p3 [OF assms(5)] p3 [OF assms(6)]]
        f64_add_mono_btw [OF p1 [OF assms(1)] p1 [OF assms(2)] p2 [OF assms(3)] p2 [OF assms(4)]]
        f64_mul_mono_btw [OF assms(1,2) c(1) c(1)] f64_mul_mono_btw [OF assms(3,4) c(2) c(2)]
        f64_mul_mono_btw [OF assms(5,6) c(3) c(3)]) (use assms(7-9) in simp_all)
  have m1: "btw 0 100 (f64_mul x (lit 100))" if "btw 0 1 x" for x using btw_mul [OF that c(4)] by simp
  have m2: "btw 0 10000 (f64_mul (f64_mul x (lit 100)) (lit 100))" if "btw 0 1 x" for x using btw_mul [OF m1 [OF that] c(4)] by simp
  have m3: "btw 0 10000 (f64_round (f64_mul (f64_mul x (lit 100)) (lit 100)))" if "btw 0 1 x" for x
    using btw_round [of 0 10000] m2 [OF that] by simp
  note ab = a [OF assms(1,3,5)] and ab' = a [OF assms(2,4,6)]
  have "f64_le (f64_div (f64_round (f64_mul (f64_mul (avg b e t) (lit 100)) (lit 100))) (Fin 100))
          (f64_div (f64_round (f64_mul (f64_mul (avg b' e' t') (lit 100)) (lit 100))) (Fin 100))"
    by (intro f64_div_mono_btw [OF m3 [OF ab] m3 [OF ab']] f64_round_mono f64_mul_mono_btw [OF m1 [OF ab] m1 [OF ab'] c(4) c(4)]
        f64_mul_mono_btw [OF ab ab' c(4) c(4)] le) simp_all
  then show ?thesis unfolding layer_mix_def Let_def h by (simp add: avg_def)
qed

lemma percent_unit: "btw 0 100 x \<Longrightarrow> btw 0 1 (f64_div x (lit 100))"
  using btw_div [of 0 100 1 x] by simp

lemma layers_total_btw_mono:
  assumes "btw 0 100 b" "btw 0 100 b'" "btw 0 1 e" "btw 0 1 e'" "btw 0 1 t" "btw 0 1 t'"
    and "f64_le b b'" "f64_le e e'" "f64_le t t'"
  shows "f64_le (layers_total b e t) (layers_total b' e' t')"
proof -
  have "f64_le (f64_div b (lit 100)) (f64_div b' (lit 100))"
    using f64_div_mono_btw [OF assms(1,2,7), of 100] by simp
  then show ?thesis
    unfolding layers_total_def
    by (rule layer_mix_mono [OF percent_unit [OF assms(1)] percent_unit [OF assms(2)] assms(3-6) _ assms(8,9)])
qed

lemma lit_6_10: "lit (6 / 10) = Fin (5404319552844595 / 2 ^ 53)"
proof -
  have r: "rnd (3 / 5) = 5404319552844595 / 2 ^ 53"
    by (subst rnd_eval_neg [of 1]) (simp_all add: rhe_def Let_def)
  then show ?thesis by (simp add: f64_of_rat_def)
qed

lemma floor_layers: "layers_total f64_0 (lit (6 / 10)) (lit (6 / 10)) = Fin 30"
proof -
  have r1: "rnd (5404319552844595 / 2 ^ 53 * 30) = 18"
    by (subst rnd_eval_pos [of 4]) (simp_all add: rhe_def Let_def)
  have r2: "rnd (5404319552844595 / 2 ^ 53 * 20) = 12"
    by (subst rnd_eval_pos [of 3]) (simp_all add: rhe_def Let_def)
  have r3: "rnd (5404319552844595 / 2 ^ 54 * 100) = 30"
    by (subst rnd_eval_pos [of 4]) (simp_all add: rhe_def Let_def)
  have p1: "f64_mul (Fin (5404319552844595 / 2 ^ 53)) (Fin 30) = Fin 18" using r1 by (simp add: f64_of_rat_def)
  have p2: "f64_mul (Fin (5404319552844595 / 2 ^ 53)) (Fin 20) = Fin 12" using r2 by (simp add: f64_of_rat_def)
  have p3: "f64_mul (Fin (5404319552844595 / 2 ^ 54)) (Fin 100) = Fin 30" using r3 by (simp add: f64_of_rat_def)
  have l: "lit 50 = Fin 50" "lit 30 = Fin 30" "lit 20 = Fin 20" "lit 100 = Fin 100" by simp_all
  have "f64_div (f64_add (f64_add (f64_mul (f64_div f64_0 (Fin 100)) (Fin 50)) (Fin 18)) (Fin 12)) (Fin 100) = lit (3 / 10)"
    by simp
  then have d: "f64_div (f64_add (f64_add (f64_mul (f64_div f64_0 (Fin 100)) (Fin 50)) (Fin 18)) (Fin 12)) (Fin 100) = Fin (5404319552844595 / 2 ^ 54)"
    unfolding lit_3_10 .
  have h: "f64_add (f64_add (Fin 50) (Fin 30)) (Fin 20) = Fin 100" by simp
  have q: "f64_div (f64_round (f64_mul (Fin 30) (Fin 100))) (Fin 100) = Fin 30"
    using rha_of_int [of 3000] by simp
  show ?thesis unfolding layers_total_def layer_mix_def Let_def lit_6_10 l p1 p2 h d p3 q ..
qed

lemma ceiling_layers: "layers_total (Fin 100) f64_1 f64_1 = Fin 100"
  using rha_of_int [of 10000] by (simp add: layers_total_def layer_mix_def Let_def)

lemma lit_6_10_unit: "btw 0 1 (lit (6 / 10))"
  by (rule btw_of_rat) simp_all

lemma floored_coeff_btw:
  assumes "x \<noteq> NaN" "wf64 x" "f64_le x f64_1"
  shows "btw 0 1 (floored_coeff x) \<and> f64_le (lit (6 / 10)) (floored_coeff x) \<and> f64_le (floored_coeff x) f64_1"
proof -
  define y where "y = (if f64_le x f64_0 then f64_1 else x)"
  have y: "btw 0 1 y" using assms by (cases x) (auto simp: y_def)
  obtain u where u: "y = Fin u" "u \<le> 1" using btwD [OF y] by auto
  obtain c where c: "lit (6 / 10) = Fin c" "c \<le> 1" using btwD [OF lit_6_10_unit] by auto
  have e: "floored_coeff x = (if f64_lt y (lit (6 / 10)) then lit (6 / 10) else y)" by (simp only: floored_coeff_def y_def Let_def)
  show ?thesis unfolding e using y lit_6_10_unit u unfolding c(1) using c(2) by (auto simp: not_less)
qed

lemma layer_mix_range:
  assumes "btw 0 1 b" "btw 0 1 e" "btw 0 1 t" "f64_le (lit (6 / 10)) e" "f64_le (lit (6 / 10)) t"
  shows "f64_le (Fin 30) (layer_mix b e t) \<and> f64_le (layer_mix b e t) (Fin 100)"
proof
  obtain x y z where xyz: "b = Fin x" "e = Fin y" "t = Fin z" "0 \<le> x" "x \<le> 1" "y \<le> 1" "z \<le> 1"
    using btwD [OF assms(1)] btwD [OF assms(2)] btwD [OF assms(3)] by auto
  have "f64_le (layer_mix f64_0 (lit (6 / 10)) (lit (6 / 10))) (layer_mix b e t)"
    by (rule layer_mix_mono [OF _ assms(1) lit_6_10_unit assms(2) lit_6_10_unit assms(3) _ assms(4,5)]) (use xyz in simp_all)
  then show "f64_le (Fin 30) (layer_mix b e t)" using floor_layers by (simp add: layers_total_def)
  have "f64_le (layer_mix b e t) (layer_mix f64_1 f64_1 f64_1)"
    by (rule layer_mix_mono [OF assms(1) _ assms(2) _ assms(3)]) (use xyz in simp_all)
  then show "f64_le (layer_mix b e t) (Fin 100)" using ceiling_layers by (simp add: layers_total_def)
qed

lemma layers_total_range:
  assumes "btw 0 100 b" "btw 0 1 e" "btw 0 1 t" "f64_le (lit (6 / 10)) e" "f64_le (lit (6 / 10)) t"
  shows "f64_le (Fin 30) (layers_total b e t) \<and> f64_le (layers_total b e t) (Fin 100)"
  unfolding layers_total_def by (rule layer_mix_range [OF percent_unit [OF assms(1)] assms(2-5)])

text \<open>Weights in percentage points, as every configuration of the program gives them.\<close>

definition int_weight :: "WeightConfig \<Rightarrow> bool" where
  "int_weight w \<longleftrightarrow> (\<exists>k. wc_Weight w = Fin (of_nat k) \<and> k \<le> 2 ^ 20)"

lemma rep_of_nat: "n \<le> 2 ^ 53 \<Longrightarrow> rep (of_nat n)"
  using rep_of_int [of "int n"] by simp

lemma weighted_step:
  assumes "T \<le> k * 2 ^ 20" "k < 2 ^ 20" "btw 0 (100 * of_nat T) s" "btw 0 100 x" "n \<le> 2 ^ 20"
  shows "f64_add (Fin (of_nat T)) (Fin (of_nat n)) = Fin (of_nat (T + n)) \<and> T + n \<le> Suc k * 2 ^ 20 \<and>
         btw 0 (100 * of_nat (T + n)) (f64_add s (f64_mul x (Fin (of_nat n))))"
proof -
  have le: "T + n \<le> Suc k * 2 ^ 20" using assms(1,5) by simp
  have "Suc k * 2 ^ 20 \<le> 2 ^ 20 * (2 ^ 20 :: nat)" using assms(2) by (intro mult_right_mono) auto
  then have b: "100 * (T + n) \<le> 2 ^ 53" using le by simp
  then have r: "rep (of_nat (T + n))" "rep (100 * of_nat (T + n))" "rep (100 * of_nat n)" "rep (of_nat n)"
    using rep_of_nat [of "T + n"] rep_of_nat [of "100 * (T + n)"] rep_of_nat [of "100 * n"] rep_of_nat [of n] by simp_all
  have "btw 0 (100 * of_nat n) (f64_mul x (Fin (of_nat n)))"
    by (rule btw_mul [OF assms(4)]) (use r in simp_all)
  from btw_add [OF assms(3) this] have "btw 0 (100 * of_nat (T + n)) (f64_add s (f64_mul x (Fin (of_nat n))))"
    using r(2) by (simp add: algebra_simps)
  then show ?thesis using le r(1) by simp
qed

lemma weighted_domain_int:
  assumes "list_all int_weight ws" "weighted_domain (BuildWeightMap ws) d = Some w"
  shows "\<exists>n. w = Fin (of_nat n) \<and> n \<le> 2 ^ 20"
proof -
  obtain v where v: "v \<in> set ws" "wc_Weight v = w"
    using assms(2) BuildWeightMap_SomeD [of ws "ds_Domain d" w] by (auto simp: weighted_domain_def split: option.splits if_splits)
  then show ?thesis using assms(1) by (auto simp: list_all_iff int_weight_def)
qed

abbreviation sum_step :: "WeightConfig list \<Rightarrow> f64 \<times> f64 \<Rightarrow> DomainScore \<Rightarrow> f64 \<times> f64" where
  "sum_step ws \<equiv> (\<lambda>(s, t) d. case weighted_domain (BuildWeightMap ws) d of
              None \<Rightarrow> (s, t) | Some w \<Rightarrow> (f64_add s (f64_mul (ds_Score d) w), f64_add t w))"

lemma weighted_fold:
  assumes "list_all int_weight ws" "T \<le> k * 2 ^ 20" "btw 0 (100 * of_nat T) s" "list_all (\<lambda>d. btw 0 100 (ds_Score d)) ds" "k + length ds \<le> 2 ^ 20"
  shows "\<exists>T' s'. foldl (sum_step ws) (s, Fin (of_nat T)) ds = (s', Fin (of_nat T')) \<and> T' \<le> (k + length ds) * 2 ^ 20 \<and> btw 0 (100 * of_nat T') s'"
  using assms(2-)
proof (induction ds arbitrary: s T k)
  case (Cons d ds)
  show ?case
  proof (cases "weighted_domain (BuildWeightMap ws) d")
    case None
    then show ?thesis using Cons.IH [of T "Suc k" s] Cons.prems by simp
  next
    case (Some w)
    obtain n where n: "w = Fin (of_nat n)" "n \<le> 2 ^ 20" using weighted_domain_int [OF assms(1) Some] by blast
    note st = weighted_step [OF Cons.prems(1) _ Cons.prems(2), of "ds_Score d" n]
    show ?thesis using Cons.IH [of "T + n" "Suc k" "f64_add s (f64_mul (ds_Score d) (Fin (of_nat n)))"] st Cons.prems(3,4) Some n by simp
  qed
qed auto

lemma weighted_sums_int:
  assumes "list_all int_weight ws" "list_all (\<lambda>d. btw 0 100 (ds_Score d)) ds" "length ds \<le> 2 ^ 20"
  shows "\<exists>T s. weighted_sums (BuildWeightMap ws) ds = (s, Fin (of_nat T)) \<and> btw 0 (100 * of_nat T) s"
  using weighted_fold [OF assms(1), of 0 0 f64_0 ds] assms(2,3) by (fastforce simp: weighted_sums_def)

lemma times_factors_btw: "btw 0 100 b \<Longrightarrow> btw 0 100 (times_factors b efs)"
  unfolding times_factors_def
proof (induction efs arbitrary: b)
  case (Cons f efs)
  have "btw 0 100 (if counts f then f64_mul b (efr_Factor f) else b)"
  proof (cases "counts f")
    case True
    then obtain x where x: "efr_Factor f = Fin x" "0 < x" "x < 1"
      by (cases "efr_Factor f") (auto simp: counts_def f64_lt_def)
    obtain u where u: "b = Fin u" "0 \<le> u" "u \<le> 100" "rep u" using btwD [OF Cons.prems] by auto
    obtain r where "f64_mul (Fin u) (Fin x) = Fin r" "rep r" "0 \<le> r" "r \<le> u"
      using f64_mul_unit [OF u(2,4), of x] x by auto
    then show ?thesis using True u x by simp
  qed (use Cons.prems in simp)
  then show ?case using Cons.IH by simp
qed simp

lemma round2_btw: "btw 0 100 b \<Longrightarrow> btw 0 100 (round2 b)"
proof -
  assume b: "btw 0 100 b"
  have "btw 0 10000 (f64_mul b (lit 100))" using btw_mul [OF b, of 100 "lit 100"] by simp
  then have "btw 0 10000 (f64_round (f64_mul b (lit 100)))" using btw_round [of 0 10000] by simp
  then show ?thesis using btw_div [of 0 100 100] by (simp add: round2_def)
qed

text \<open>Coefficients that do not amplify.\<close>

definition damping :: "f64 \<Rightarrow> bool" where
  "damping x \<longleftrightarrow> x \<noteq> NaN \<and> wf64 x \<and> f64_le x f64_1"

lemma v20_total:
  assumes "weighted_sums (BuildWeightMap ws) ds = (s, t)" "t \<noteq> f64_0"
  shows "fs_Total (SSAMV20Formula default_hooks ds ws rc efs) =
         layers_total (round2 (times_factors (f64_div s t) efs)) (floored_coeff (rc_Exposure rc)) (floored_coeff (rc_Threat rc))"
  using assms by (simp add: SSAMV20Formula_def applyDomainAdjust_def default_hooks_def applyEdgeFactorStrategyToBase_def Let_def)

lemma v20_base:
  assumes "btw 0 (100 * of_nat T) s" "0 < T"
  shows "btw 0 100 (round2 (times_factors (f64_div s (Fin (of_nat T))) efs))"
  using btw_div [of 0 "of_nat T" 100 s] assms by (intro round2_btw times_factors_btw) simp

lemma v20_range:
  assumes "list_all int_weight ws" "list_all (\<lambda>d. btw 0 100 (ds_Score d)) ds" "length ds \<le> 2 ^ 20"
    and "snd (weighted_sums (BuildWeightMap ws) ds) \<noteq> f64_0" "damping (rc_Exposure rc)" "damping (rc_Threat rc)"
  shows "f64_le (Fin 30) (fs_Total (SSAMV20Formula default_hooks ds ws rc efs)) \<and>
         f64_le (fs_Total (SSAMV20Formula default_hooks ds ws rc efs)) (Fin 100)"
proof -
  obtain T s where ts: "weighted_sums (BuildWeightMap ws) ds = (s, Fin (of_nat T))" "btw 0 (100 * of_nat T) s"
    using weighted_sums_int [OF assms(1-3)] by blast
  then have "0 < T" using assms(4) by simp
  note b = v20_base [OF ts(2) this, of efs]
  have nz: "Fin (of_nat T) \<noteq> f64_0" using \<open>0 < T\<close> by simp
  show ?thesis
    unfolding v20_total [OF ts(1) nz]
    using floored_coeff_btw [of "rc_Exposure rc"] floored_coeff_btw [of "rc_Threat rc"] assms(5,6)
    by (intro layers_total_range [OF b]) (auto simp: damping_def)
qed


definition demo_rc :: RiskContext where
  "demo_rc = \<lparr>rc_Intrinsic = f64_1, rc_Exposure = Fin (1 / 2), rc_Threat = f64_1\<rparr>"

definition demo_scores :: "DomainScore list" where
  "demo_scores = [\<lparr>ds_Domain = ''resilience'', ds_Score = f64_0, ds_Sigma = f64_0, ds_Confidence = f64_1\<rparr>]"

lemma demo_weights: "list_all int_weight DefaultWeights"
proof -
  have "int_weight \<lparr>wc_Domain = d, wc_Weight = Fin (numeral k)\<rparr>" if "numeral k \<le> (2 ^ 20 :: nat)" for d k
    unfolding int_weight_def using that by (intro exI [of _ "numeral k"]) simp
  then show ?thesis by (simp add: DefaultWeights_def)
qed


lemma active_domains_length: "length (active_domains ws cs) \<le> max (length ws) (length cs)"
  using length_remdups_leq [of "map wc_Domain ws"] length_remdups_leq [of "map ck_Domain cs"]
  by (simp add: active_domains_def max_def)

text \<open>The v2 request the theorems are about: default hooks, percentage-point weights, no NaN.\<close>

definition sane_request :: "ScoringConfig \<Rightarrow> AssessmentInputV2 \<Rightarrow> bool" where
  "sane_request cf input \<longleftrightarrow>
     list_all int_weight (sc_Weights cf) \<and> length (sc_Weights cf) \<le> 2 ^ 20 \<and> sane_policy (sc_ConfidencePolicy cf) \<and>
     sane_checks (i2_Checks input) \<and> length (i2_Checks input) \<le> 2 ^ 20 \<and>
     damping (rc_Exposure (i2_RiskContext input)) \<and> damping (rc_Threat (i2_RiskContext input))"

lemma normalize_damping: "damping (rc_Exposure rc) \<Longrightarrow> damping (rc_Exposure (normalizeRiskContext rc))"
  "damping (rc_Threat rc) \<Longrightarrow> damping (rc_Threat (normalizeRiskContext rc))"
  by (auto simp: normalizeRiskContext_def damping_def Let_def)

lemma scores_good:
  assumes "sane_policy p" "sane_checks cs"
  shows "list_all (\<lambda>d. btw 0 100 (ds_Score d)) (ComputeDomainScoresBayes ws cs p)"
  unfolding list_all_iff
proof
  fix ds
  assume "ds \<in> set (ComputeDomainScoresBayes ws cs p)"
  then obtain d score sigma evidence where
    "DomainBayes d cs p = (score, sigma, evidence)"
    "ds = \<lparr>ds_Domain = d, ds_Score = score, ds_Sigma = sigma, ds_Confidence = evidence\<rparr>"
    using ComputeDomainScoresBayes_mem by blast
  then show "btw 0 100 (ds_Score ds)" using DomainBayes_good [OF assms] by simp
qed

lemma ComputeScoreV2_total:
  assumes "ComputeScoreV2 default_hooks order cf input = Inr out" "sane_request cf input"
  shows "\<not> f64_lt (fs_Total (o2_FinalScore out)) f64_0 \<and> \<not> f64_gt (fs_Total (o2_FinalScore out)) (lit 100) \<and>
         validate_request (i2_HostID input) (i2_Threshold input) (i2_Checks input) = None"
proof -
  define ds where "ds = ComputeDomainScoresBayes (sc_Weights cf) (i2_Checks input) (sc_ConfidencePolicy cf)"
  define efs where "efs = ApplyEdgeFactorsToChecksPolicy order (sc_EdgeFactors cf) (i2_Checks input) (BuildCustomFactorMap (sc_EdgeFactors cf)) (sc_ConfidencePolicy cf)"
  define rc where "rc = normalizeRiskContext (i2_RiskContext input)"
  have v: "ValidateInputV2 input = None" using assms(1) by (auto simp: ComputeScoreV2_def split: option.splits)
  have f: "(case RegisterBuiltinFormulasV2 default_hooks (sc_FormulaID cf) of Some f \<Rightarrow> f | None \<Rightarrow> SSAMV20Formula default_hooks) = SSAMV20Formula default_hooks"
    by (simp add: RegisterBuiltinFormulasV2_def)
  have out: "o2_FinalScore out = SSAMV20Formula default_hooks ds (sc_Weights cf) rc efs"
    using assms(1) v unfolding ComputeScoreV2_def f
    by (auto simp: fillPosteriorV2_def ds_def efs_def rc_def Let_def split: prod.splits)
  have b: "list_all (\<lambda>d. btw 0 100 (ds_Score d)) ds" using scores_good assms(2) by (simp add: ds_def sane_request_def)
  have len: "length ds \<le> 2 ^ 20"
    using active_domains_length [of "sc_Weights cf" "i2_Checks input"] assms(2)
    by (auto simp: ds_def ComputeDomainScoresBayes_def sane_request_def max_def split: if_splits)
  have "f64_le f64_0 (fs_Total (o2_FinalScore out)) \<and> f64_le (fs_Total (o2_FinalScore out)) (Fin 100)"
  proof (cases "snd (weighted_sums (BuildWeightMap (sc_Weights cf)) ds) = f64_0")
    case True
    then obtain s where "weighted_sums (BuildWeightMap (sc_Weights cf)) ds = (s, f64_0)" by (cases "weighted_sums (BuildWeightMap (sc_Weights cf)) ds") simp
    then show ?thesis
      by (simp add: out SSAMV20Formula_def applyDomainAdjust_def default_hooks_def Let_def)
  next
    case False
    have "f64_le (Fin 30) (fs_Total (o2_FinalScore out)) \<and> f64_le (fs_Total (o2_FinalScore out)) (Fin 100)"
      unfolding out by (rule v20_range [OF _ b len False]) (use assms(2) normalize_damping in \<open>auto simp: sane_request_def rc_def\<close>)
    then show ?thesis using f64_le_trans [of f64_0 "Fin 30"] by simp
  qed
  then show ?thesis using v
    by (cases "fs_Total (o2_FinalScore out)") (auto simp: ValidateInputV2_def f64_lt_def)
qed

text \<open>What \<open>ComputeScoreV2\<close> returns can be interchanged: with coefficients of at most 1 the record built from the
  request and its result passes \<open>Validate\<close>, for every scoring configuration with a formula identifier.\<close>

theorem v2_result_interchanges:
  assumes "ComputeScoreV2 default_hooks order cf input = Inr out" and "sane_request cf input"
    and "sc_FormulaID cf \<noteq> []" and "now \<noteq> []"
  shows "ValidateIR (NewIR now input cf out) = None"
  using ComputeScoreV2_total [OF assms(1,2)] assms(3,4)
  by (auto simp: ValidateIR_def NewIR_def validate_request_def split: if_splits)

definition demo_config :: ScoringConfig where
  "demo_config =
     \<lparr>sc_Weights = DefaultWeights, sc_EdgeFactors = [], sc_FormulaID = ''ssam_v2.0'', sc_ConfidencePolicy = demo_policy,
      sc_AcceptByLowerBound = True\<rparr>"

definition demo_request :: AssessmentInputV2 where
  "demo_request =
     \<lparr>i2_HostID = ''h'', i2_Hostname = ''h'', i2_Threshold = Fin 60,
      i2_Checks = [demo_check ''A'' ''resilience'' False (- 40) f64_1], i2_RiskContext = demo_rc, i2_WeightShifts = Map.empty\<rparr>"

lemma demo_request_sane: "sane_request demo_config demo_request"
  using demo_weights
  by (simp add: sane_request_def demo_config_def demo_request_def DefaultWeights_def demo_policy_def sane_policy_def sane_checks_def
      sane_check_def demo_check_def demo_rc_def damping_def)

lemma demo_request_returns: "\<exists>out. ComputeScoreV2 default_hooks [] demo_config demo_request = Inr out"
  by (simp add: ComputeScoreV2_def ValidateInputV2_def validate_request_def empty_domain_error_def demo_request_def demo_check_def Let_def)

theorem v2_result_interchanges_witness:
  "\<exists>out. ComputeScoreV2 default_hooks [] demo_config demo_request = Inr out \<and>
         ValidateIR (NewIR ''2026-01-01T00:00:00Z'' demo_request demo_config out) = None"
proof -
  obtain out where "ComputeScoreV2 default_hooks [] demo_config demo_request = Inr out" using demo_request_returns by blast
  with v2_result_interchanges [OF this demo_request_sane, of "''2026-01-01T00:00:00Z''"] show ?thesis
    by (simp add: demo_config_def)
qed

section \<open>Monotonicity\<close>

lemma bayes_step_grows:
  assumes "sums_ok n acc" "sane_check c" "sane_policy p" "n < 2 ^ 30"
  shows "f64_le (fst acc) (fst (bayes_step domain p acc c))"
proof -
  obtain e var a w where acc: "acc = (e, var, a, w)" by (cases acc)
  have e: "btw 0 (of_nat n * 2 ^ 20) e" using assms(1) by (simp add: sums_ok_def acc)
  obtain x where x: "e = Fin x" "rep x" using btwD [OF e] by auto
  obtain d where d: "ck_Delta c = Fin d" "rep d" using assms(2) by (auto simp: sane_check_def)
  have conf: "btw 0 1 (EffectiveConfidence (ck_Confidence c) p)"
    by (rule EffectiveConfidence_unit [OF assms(3)]) (use assms(2) in \<open>auto simp: sane_check_def\<close>)
  obtain u where u: "EffectiveConfidence (ck_Confidence c) p = Fin u" "0 \<le> u" "u \<le> 1" using btwD [OF conf] by auto
  have rd: "rep \<bar>d\<bar>" using d(2) by (simp add: abs_if)
  obtain m where m: "f64_mul (Fin \<bar>d\<bar>) (Fin u) = Fin m" "0 \<le> m"
    using f64_mul_unit [OF _ rd u(2,3)] by auto
  have "f64_le (f64_of_rat x) (f64_of_rat (x + m))" by (rule f64_of_rat_mono) (use m(2) in simp)
  then have le: "f64_le e (f64_add e (f64_mul (f64_abs (ck_Delta c)) (EffectiveConfidence (ck_Confidence c) p)))"
    unfolding d(1) u(1) f64_abs.simps m(1) using x by simp
  show ?thesis using le x by (simp add: acc bayes_step_def Let_def)
qed

lemma score_antitone:
  assumes "btw 0 b e" "btw 0 b' e'" "f64_le e e'"
  shows "f64_le (f64_max f64_0 (f64_sub (lit 100) e')) (f64_max f64_0 (f64_sub (lit 100) e))"
proof -
  obtain x y where xy: "e = Fin x" "e' = Fin y" "x \<le> y" using btwD [OF assms(1)] btwD [OF assms(2)] assms(3) by auto
  have "f64_le (f64_of_rat (100 + - y)) (f64_of_rat (100 + - x))" by (rule f64_of_rat_mono) (use xy in simp)
  then show ?thesis
    by (cases "f64_of_rat (100 + - y)"; cases "f64_of_rat (100 + - x)") (auto simp: xy f64_sub_def)
qed

lemma DomainBayes_snoc:
  assumes "sane_policy p" "sane_checks (cs @ [c])"
  shows "f64_le (fst (DomainBayes d (cs @ [c]) p)) (fst (DomainBayes d cs p))"
proof -
  define acc where "acc = foldl (bayes_step d p) (f64_0, f64_0, f64_0, f64_0) cs"
  have n: "length cs < 2 ^ 30" "list_all sane_check cs" "sane_check c" using assms(2) by (auto simp: sane_checks_def)
  have ok: "sums_ok (length cs) acc"
    using bayes_fold_ok [of 0 "(f64_0, f64_0, f64_0, f64_0)" cs p d] assms(1) n by (simp add: sums_ok_def acc_def)
  note ok' = bayes_step_ok [OF ok n(3) assms(1) n(1), of d] and le = bayes_step_grows [OF ok n(3) assms(1) n(1), of d]
  obtain e v a w where acc: "acc = (e, v, a, w)" by (cases acc)
  obtain e' v' a' w' where acc': "bayes_step d p acc c = (e', v', a', w')" by (cases "bayes_step d p acc c")
  have "fst (DomainBayes d cs p) = f64_max f64_0 (f64_sub (lit 100) e)"
    using acc by (simp add: DomainBayes_def acc_def)
  moreover have "fst (DomainBayes d (cs @ [c]) p) = f64_max f64_0 (f64_sub (lit 100) e')"
    using acc' by (simp add: DomainBayes_def acc_def)
  moreover have "btw 0 (of_nat (length cs) * 2 ^ 20) e" "btw 0 (of_nat (Suc (length cs)) * 2 ^ 20) e'" "f64_le e e'"
    using ok ok' le unfolding acc' unfolding acc by (simp_all add: sums_ok_def)
  ultimately show ?thesis using score_antitone by simp
qed

definition scores_below :: "DomainScore list \<Rightarrow> DomainScore list \<Rightarrow> bool" where
  "scores_below = list_all2 (\<lambda>x y. ds_Domain x = ds_Domain y \<and> f64_le (ds_Score x) (ds_Score y))"

lemma active_domains_snoc:
  assumes "ck_Domain c \<in> ck_Domain ` set cs"
  shows "sort (active_domains ws (cs @ [c])) = sort (active_domains ws cs)"
proof -
  have "cs \<noteq> []" using assms by auto
  then show ?thesis
    by (intro sorted_distinct_set_unique) (use assms in \<open>auto simp: active_domains_def\<close>)
qed

lemma scores_below_snoc:
  assumes "sane_policy p" "sane_checks (cs @ [c])" "ck_Domain c \<in> ck_Domain ` set cs"
  shows "scores_below (ComputeDomainScoresBayes ws (cs @ [c]) p) (ComputeDomainScoresBayes ws cs p)"
proof -
  have "f64_le (ds_Score (let (score, sigma, evidence) = DomainBayes d (cs @ [c]) p in \<lparr>ds_Domain = d, ds_Score = score, ds_Sigma = sigma, ds_Confidence = evidence\<rparr>))
          (ds_Score (let (score, sigma, evidence) = DomainBayes d cs p in \<lparr>ds_Domain = d, ds_Score = score, ds_Sigma = sigma, ds_Confidence = evidence\<rparr>))" for d
    using DomainBayes_snoc [OF assms(1,2), of d] by (cases "DomainBayes d (cs @ [c]) p"; cases "DomainBayes d cs p") simp
  then show ?thesis
    unfolding scores_below_def ComputeDomainScoresBayes_def active_domains_snoc [OF assms(3)]
    by (auto simp: list_all2_conv_all_nth split: prod.split)
qed

lemma scores_below_fold:
  assumes "list_all int_weight ws" "T \<le> k * 2 ^ 20" "btw 0 (100 * of_nat T) s" "btw 0 (100 * of_nat T) s'" "f64_le s s'"
    and "list_all (\<lambda>d. btw 0 100 (ds_Score d)) ds" "list_all (\<lambda>d. btw 0 100 (ds_Score d)) ds'"
    and "scores_below ds ds'" "k + length ds \<le> 2 ^ 20"
  shows "\<exists>T' u u'. foldl (sum_step ws) (s, Fin (of_nat T)) ds = (u, Fin (of_nat T')) \<and>
    foldl (sum_step ws) (s', Fin (of_nat T)) ds' = (u', Fin (of_nat T')) \<and> btw 0 (100 * of_nat T') u \<and> btw 0 (100 * of_nat T') u' \<and> f64_le u u'"
  using assms(2-)
proof (induction ds arbitrary: ds' s s' T k)
  case Nil
  then show ?case by (auto simp: scores_below_def)
next
  case (Cons d ds)
  obtain d' es where ds': "ds' = d' # es" "ds_Domain d = ds_Domain d'" "f64_le (ds_Score d) (ds_Score d')" "scores_below ds es"
    using Cons.prems(7) by (auto simp: scores_below_def list_all2_Cons1)
  have same: "weighted_domain (BuildWeightMap ws) d' = weighted_domain (BuildWeightMap ws) d" using ds'(2) by (simp add: weighted_domain_def)
  show ?case
  proof (cases "weighted_domain (BuildWeightMap ws) d")
    case None
    then show ?thesis using Cons.IH [of T "Suc k" s s' es] Cons.prems ds' same by simp
  next
    case (Some w)
    obtain n where n: "w = Fin (of_nat n)" "n \<le> 2 ^ 20" using weighted_domain_int [OF assms(1) Some] by blast
    have sc: "btw 0 100 (ds_Score d)" "btw 0 100 (ds_Score d')" using Cons.prems(5,6) ds'(1) by simp_all
    have k: "k < 2 ^ 20" using Cons.prems(8) by simp
    note st = weighted_step [OF Cons.prems(1) k Cons.prems(2) sc(1) n(2)] and st' = weighted_step [OF Cons.prems(1) k Cons.prems(3) sc(2) n(2)]
    have r: "btw 0 (of_nat n) (Fin (of_nat n))" "rep (100 * of_nat n)"
      using rep_of_nat [of n] rep_of_nat [of "100 * n"] n(2) by simp_all
    have m: "btw 0 (100 * of_nat n) (f64_mul (ds_Score d) (Fin (of_nat n)))" "btw 0 (100 * of_nat n) (f64_mul (ds_Score d') (Fin (of_nat n)))"
      using btw_mul [OF sc(1) r(1) r(2)] btw_mul [OF sc(2) r(1) r(2)] by auto
    have "f64_le (f64_add s (f64_mul (ds_Score d) (Fin (of_nat n)))) (f64_add s' (f64_mul (ds_Score d') (Fin (of_nat n))))"
      by (intro f64_add_mono_btw [OF Cons.prems(2,3) m Cons.prems(4)] f64_mul_mono_btw [OF sc r(1) r(1) ds'(3)]) simp
    then show ?thesis
      using Cons.IH [of "T + n" "Suc k" "f64_add s (f64_mul (ds_Score d) (Fin (of_nat n)))" "f64_add s' (f64_mul (ds_Score d') (Fin (of_nat n)))" es]
        st st' Cons.prems(5,6,8) Some n(1) same ds'(1,4) by simp
  qed
qed

lemma times_factors_mono:
  "btw 0 100 b \<Longrightarrow> btw 0 100 b' \<Longrightarrow> f64_le b b' \<Longrightarrow> f64_le (times_factors b efs) (times_factors b' efs)"
  unfolding times_factors_def
proof (induction efs arbitrary: b b')
  case (Cons f efs)
  show ?case
  proof (cases "counts f")
    case True
    have one: "times_factors b [f] = f64_mul b (efr_Factor f)" "times_factors b' [f] = f64_mul b' (efr_Factor f)"
      using True by (simp_all add: times_factors_def)
    obtain x where x: "efr_Factor f = Fin x" "0 < x"
      using True by (cases "efr_Factor f") (auto simp: counts_def f64_lt_def)
    obtain u v where uv: "b = Fin u" "b' = Fin v" "u \<le> v" using btwD [OF Cons.prems(1)] btwD [OF Cons.prems(2)] Cons.prems(3) by auto
    have "f64_le (f64_mul b (efr_Factor f)) (f64_mul b' (efr_Factor f))"
      using x uv by (auto intro!: f64_of_rat_mono mult_right_mono)
    then show ?thesis
      using Cons.IH [of "f64_mul b (efr_Factor f)" "f64_mul b' (efr_Factor f)"] times_factors_btw [OF Cons.prems(1), of "[f]"]
        times_factors_btw [OF Cons.prems(2), of "[f]"] True by (simp add: one)
  qed (use Cons in simp)
qed simp

lemma round2_mono: "btw 0 100 b \<Longrightarrow> btw 0 100 b' \<Longrightarrow> f64_le b b' \<Longrightarrow> f64_le (round2 b) (round2 b')"
proof -
  assume b: "btw 0 100 b" and b': "btw 0 100 b'" and le: "f64_le b b'"
  have c: "btw 0 100 (lit 100)" by simp
  have m: "btw 0 10000 (f64_round (f64_mul x (lit 100)))" if "btw 0 100 x" for x
    using btw_round [of 0 10000] btw_mul [OF that c] by simp
  have l: "lit 100 = Fin 100" by simp
  have "f64_le (f64_div (f64_round (f64_mul b (lit 100))) (Fin 100)) (f64_div (f64_round (f64_mul b' (lit 100))) (Fin 100))"
    by (intro f64_div_mono_btw [OF m [OF b] m [OF b']] f64_round_mono f64_mul_mono_btw [OF b b' c c le]) simp_all
  then show ?thesis by (simp only: round2_def l)
qed

lemma btw_le_refl: "btw a b x \<Longrightarrow> f64_le x x"
  by (cases x) (auto simp: btw_def)

lemma v20_mono_factors:
  assumes "list_all int_weight ws" "list_all (\<lambda>d. btw 0 100 (ds_Score d)) ds" "list_all (\<lambda>d. btw 0 100 (ds_Score d)) ds'"
    "scores_below ds ds'" "length ds \<le> 2 ^ 20" "damping (rc_Exposure rc)" "damping (rc_Threat rc)"
    and "\<And>b. btw 0 100 b \<Longrightarrow> f64_le (times_factors b efs) (times_factors b efs')"
  shows "f64_le (fs_Total (SSAMV20Formula default_hooks ds ws rc efs)) (fs_Total (SSAMV20Formula default_hooks ds' ws rc efs'))"
proof -
  obtain T u u' where tu: "weighted_sums (BuildWeightMap ws) ds = (u, Fin (of_nat T))" "weighted_sums (BuildWeightMap ws) ds' = (u', Fin (of_nat T))"
    "btw 0 (100 * of_nat T) u" "btw 0 (100 * of_nat T) u'" "f64_le u u'"
    using scores_below_fold [OF assms(1), of 0 0 f64_0 f64_0 ds ds'] assms(2-5) by (fastforce simp: weighted_sums_def)
  show ?thesis
  proof (cases "T = 0")
    case True
    then show ?thesis using tu(1,2) by (simp add: SSAMV20Formula_def applyDomainAdjust_def default_hooks_def)
  next
    case False
    then have T: "0 < T" "Fin (of_nat T) \<noteq> f64_0" by simp_all
    have q: "btw 0 100 (f64_div x (Fin (of_nat T)))" if "btw 0 (100 * of_nat T) x" for x
      using btw_div [of 0 "of_nat T" 100 x] that T(1) by simp
    have le: "f64_le (f64_div u (Fin (of_nat T))) (f64_div u' (Fin (of_nat T)))"
      by (rule f64_div_mono_btw [OF tu(3,4,5)]) (use T in simp)
    have "f64_le (times_factors (f64_div u (Fin (of_nat T))) efs) (times_factors (f64_div u' (Fin (of_nat T))) efs')"
      using times_factors_mono [OF q [OF tu(3)] q [OF tu(4)] le, of efs] assms(8) [OF q [OF tu(4)]] f64_le_trans by blast
    then have "f64_le (round2 (times_factors (f64_div u (Fin (of_nat T))) efs)) (round2 (times_factors (f64_div u' (Fin (of_nat T))) efs'))"
      by (intro round2_mono times_factors_btw q tu(3,4))
    moreover have "btw 0 1 (floored_coeff (rc_Exposure rc))" "btw 0 1 (floored_coeff (rc_Threat rc))"
      using floored_coeff_btw [of "rc_Exposure rc"] floored_coeff_btw [of "rc_Threat rc"] assms(6,7) by (auto simp: damping_def)
    moreover have "f64_le x x" if "btw a b x" for a b x using btwD [OF that] by auto
    ultimately show ?thesis
      unfolding v20_total [OF tu(1) T(2)] v20_total [OF tu(2) T(2)]
      by (intro layers_total_btw_mono v20_base tu(3,4) T(1)) blast+
  qed
qed

lemma v20_mono:
  assumes "list_all int_weight ws" "list_all (\<lambda>d. btw 0 100 (ds_Score d)) ds" "list_all (\<lambda>d. btw 0 100 (ds_Score d)) ds'"
    "scores_below ds ds'" "length ds \<le> 2 ^ 20" "damping (rc_Exposure rc)" "damping (rc_Threat rc)"
  shows "f64_le (fs_Total (SSAMV20Formula default_hooks ds ws rc efs)) (fs_Total (SSAMV20Formula default_hooks ds' ws rc efs))"
  by (rule v20_mono_factors [OF assms]) (rule btw_le_refl, rule times_factors_btw)



section \<open>Amplified threat\<close>

lemma amplified_layers: "layers_total (Fin 100) f64_1 (lit (14 / 10)) = Fin 108"
proof -
  have r0: "rnd (7 / 5) = 6305039478318694 / 2 ^ 52"
    by (subst rnd_eval_pos [of 0]) (simp_all add: rhe_def Let_def)
  have r1: "rnd (6305039478318694 / 2 ^ 52 * 20) = 28"
    by (subst rnd_eval_pos [of 4]) (simp_all add: rhe_def Let_def)
  have r2: "rnd (27 / 25) = 4863887597560136 / 2 ^ 52"
    by (subst rnd_eval_pos [of 0]) (simp_all add: rhe_def Let_def)
  have r3: "rnd (4863887597560136 / 2 ^ 52 * 100) = 108"
    by (subst rnd_eval_pos [of 6]) (simp_all add: rhe_def Let_def)
  have p0: "lit (14 / 10) = Fin (6305039478318694 / 2 ^ 52)" using r0 by (simp add: f64_of_rat_def)
  have p1: "f64_mul (Fin (6305039478318694 / 2 ^ 52)) (Fin 20) = Fin 28" using r1 by (simp add: f64_of_rat_def)
  have p2: "f64_div (f64_add (f64_add (f64_mul (f64_div (Fin 100) (Fin 100)) (Fin 50)) (f64_mul f64_1 (Fin 30))) (Fin 28)) (Fin 100) = Fin (4863887597560136 / 2 ^ 52)"
  proof -
    have "f64_of_rat (27 / 25) = Fin (4863887597560136 / 2 ^ 52)" using r2 by (simp add: f64_of_rat_def)
    then show ?thesis by simp
  qed
  have p3: "f64_mul (Fin (4863887597560136 / 2 ^ 52)) (Fin 100) = Fin 108" using r3 by (simp add: f64_of_rat_def)
  have l: "lit 50 = Fin 50" "lit 30 = Fin 30" "lit 20 = Fin 20" "lit 100 = Fin 100" by simp_all
  have h: "f64_add (f64_add (Fin 50) (Fin 30)) (Fin 20) = Fin 100" by simp
  have q: "f64_div (f64_round (f64_mul (Fin 108) (Fin 100))) (Fin 100) = Fin 108"
    using rha_of_int [of 10800] by simp
  show ?thesis unfolding layers_total_def layer_mix_def Let_def p0 l p1 h p2 p3 q ..
qed

definition perfect_host :: AssessmentInput where
  "perfect_host = demo_input (lit (14 / 10)) [demo_check ''A'' ''resilience'' True 0 f64_1]"

lemma perfect_scores:
  "ComputeDomainScoresBayes ws (ai_Checks perfect_host) p =
   [\<lparr>ds_Domain = ''resilience'', ds_Score = Fin 100, ds_Sigma = f64_0, ds_Confidence = f64_1\<rparr>]"
  by (simp add: perfect_host_def demo_input_def demo_check_def ComputeDomainScoresBayes_def active_domains_def DomainBayes_def
      bayes_step_def f64_sub_def)

lemma perfect_weighted:
  "weighted_sums (BuildWeightMap DefaultWeights) [\<lparr>ds_Domain = ''resilience'', ds_Score = Fin 100, ds_Sigma = f64_0, ds_Confidence = f64_1\<rparr>] =
   (Fin 1500, Fin 15)"
  by (simp add: weighted_sums_def weighted_domain_def BuildWeightMap_def DefaultWeights_def)

lemma lit_14_10_gt: "\<not> f64_le (lit (14 / 10)) f64_0" "lit (14 / 10) \<noteq> f64_0" "\<not> f64_lt (lit (14 / 10)) (lit (6 / 10))"
proof -
  have "f64_le f64_1 (lit (14 / 10))" using f64_of_rat_mono [of 1 "14 / 10"] by simp
  then show "\<not> f64_le (lit (14 / 10)) f64_0" "lit (14 / 10) \<noteq> f64_0" by (cases "lit (14 / 10)"; simp)+
  obtain c where c: "lit (6 / 10) = Fin c" "c \<le> 1" using btwD [OF lit_6_10_unit] by auto
  with \<open>f64_le f64_1 (lit (14 / 10))\<close> show "\<not> f64_lt (lit (14 / 10)) (lit (6 / 10))"
    unfolding c(1) by (cases "lit (14 / 10)") (auto simp: f64_lt_def)
qed

text \<open>An amplifying threat coefficient makes the best hosts unscorable: at 1.4 the v2.0 total of a host that
  passes everything is 108, and \<open>ComputeScore\<close> answers with \<open>ErrInvalidScore\<close> instead of an assessment, under every
  policy.\<close>

theorem amplified_threat_rejected:
  "computeScoreInternal default_hooks [] (demo_config\<lparr>sc_AcceptByLowerBound := b\<rparr>) perfect_host p = Inl ErrInvalidScore"
proof -
  let ?ds = "[\<lparr>ds_Domain = ''resilience'', ds_Score = Fin 100, ds_Sigma = f64_0, ds_Confidence = f64_1\<rparr>]"
  have threat: "ai_ThreatCoeff perfect_host = lit (14 / 10)" "ai_SPCScore perfect_host = f64_1"
    by (simp_all add: perfect_host_def demo_input_def)
  have nz: "Fin 15 \<noteq> f64_0" by simp
  have base: "round2 (times_factors (f64_div (Fin 1500) (Fin 15)) []) = Fin 100"
    using rha_of_int [of 10000] by (simp add: times_factors_def round2_def)
  obtain c where c: "lit (6 / 10) = Fin c" "c \<le> 1" using btwD [OF lit_6_10_unit] by auto
  have coeff: "floored_coeff (lit (14 / 10)) = lit (14 / 10)" "floored_coeff f64_1 = f64_1" "\<not> f64_lt f64_1 (lit (6 / 10))"
    using lit_14_10_gt c(2) unfolding floored_coeff_def Let_def c(1) by auto
  have total: "fs_Total (SSAMV20Formula default_hooks ?ds DefaultWeights \<lparr>rc_Intrinsic = f64_1, rc_Exposure = f64_1, rc_Threat = lit (14 / 10)\<rparr> []) = Fin 108"
    unfolding v20_total [OF perfect_weighted nz] RiskContext.select_convs coeff base by (rule amplified_layers)
  have efs: "ApplyEdgeFactorsToChecksPolicy [] [] cs custom p = []" for cs custom by (simp add: ApplyEdgeFactorsToChecksPolicy_def Let_def)
  have score: "raw_score default_hooks demo_config ?ds (lit (14 / 10)) f64_1 [] = Fin 108"
    unfolding raw_score_def by (simp add: demo_config_def RegisterBuiltinFormulas_def RegisterBuiltinFormulasV2_def lit_14_10_gt [simplified] total [simplified])
  have valid: "ValidateInput perfect_host = None"
    by (simp add: ValidateInput_def perfect_host_def demo_input_def validate_request_def empty_domain_error_def demo_check_def)
  have ws: "sc_Weights (demo_config\<lparr>sc_AcceptByLowerBound := b\<rparr>) = DefaultWeights" "sc_EdgeFactors (demo_config\<lparr>sc_AcceptByLowerBound := b\<rparr>) = []"
    by (simp_all add: demo_config_def)
  have fin: "finish_output cf ds out = Inl ErrInvalidScore" if "ao_FinalScore out = Fin 108" for cf ds out
    using that by (simp add: finish_output_def fillPosterior_def ValidateOutput_def Let_def split: prod.split)
  show ?thesis
    unfolding computeScoreInternal_def valid threat ws perfect_scores efs Let_def
    using lit_14_10_gt(2) coeff(3) by (simp add: fin score [simplified])
qed

end
