(* ===== verification/Prism_Core.thy ===== *)
theory Prism_Core
  imports Float64_Bounds
begin

text \<open>
  \<open>prism-lib\<close>, the core layer (\<open>types.go\<close>, \<open>config.go\<close>, \<open>core.go\<close>): propagated risk, security debt, collapse and
  the dynamic score of a node. \<open>math.Pow\<close> is not correctly rounded and its error is not documented, so it is the
  argument \<open>pw\<close>; \<open>pow_ok\<close> states what the code relies on. The node pointers of the maps are not nil.
\<close>

record CheckFailure =
  cf_CheckID :: string
  cf_Delta :: f64
  cf_FailUnix :: int
  cf_Confidence :: f64

record NodeState =
  ns_HostID :: string
  ns_SSAMScore :: f64
  ns_FailedChecks :: "CheckFailure list"
  ns_Criticality :: f64
  ns_Confidence :: f64

record EdgeState =
  es_Source :: string
  es_Target :: string
  es_RiskTransmission :: f64

record PrismConfig =
  pc_DebtAlpha :: f64
  pc_PropCap :: f64
  pc_DebtCap :: f64
  pc_DebtNormDays :: f64
  pc_PathDecay :: f64
  pc_MaxPathDepth :: int
  pc_ScoreFloor :: f64
  pc_CollapseBeta :: f64
  pc_AggregationMode :: string
  pc_StableThreshold :: f64
  pc_DegradedThreshold :: f64
  pc_UntrustedThreshold :: f64
  pc_HorizonDays :: int

record AssetRiskResult =
  ar_HostID :: string
  ar_SsamScore :: f64
  ar_PrismScore :: f64
  ar_ExternalRisk :: f64
  ar_PropagatedRisk :: f64
  ar_PropPenalty :: f64
  ar_DebtRaw :: f64
  ar_DebtPenalty :: f64
  ar_CollapseModifier :: f64
  ar_RiskVelocity :: f64
  ar_Confidence :: f64
  ar_EffectiveFailures :: f64

record RiskSnapshot =
  sn_HostID :: string
  sn_PrismScore :: f64
  sn_Timestamp :: int

definition prism_DefaultConfig :: PrismConfig where
  "prism_DefaultConfig =
     \<lparr>pc_DebtAlpha = lit (12 / 10), pc_PropCap = lit (25 / 100), pc_DebtCap = lit (30 / 100), pc_DebtNormDays = lit 1500,
      pc_PathDecay = lit (80 / 100), pc_MaxPathDepth = 5, pc_ScoreFloor = lit (15 / 100), pc_CollapseBeta = lit (15 / 10),
      pc_AggregationMode = ''rss'', pc_StableThreshold = lit (90 / 100), pc_DegradedThreshold = lit (70 / 100),
      pc_UntrustedThreshold = lit (50 / 100), pc_HorizonDays = 7\<rparr>"

section \<open>The core layer\<close>

text \<open>\<open>math.Min\<close>.\<close>

fun f64_min :: "f64 \<Rightarrow> f64 \<Rightarrow> f64" where
  "f64_min NInf _ = NInf"
| "f64_min _ NInf = NInf"
| "f64_min NaN _ = NaN"
| "f64_min _ NaN = NaN"
| "f64_min a b = (if f64_le a b then a else b)"

definition secondsPerDay :: f64 where "secondsPerDay = lit 86400"

definition TransmissionFloor :: f64 where "TransmissionFloor = lit (1 / 10)"

definition externalRisk :: "f64 \<Rightarrow> f64" where
  "externalRisk ssam = f64_div (f64_sub (lit 100) ssam) (lit 100)"

definition WeightedTransmission :: "f64 \<Rightarrow> f64 \<Rightarrow> f64" where
  "WeightedTransmission base ssam =
     (if f64_le base f64_0 then f64_0
      else let r = externalRisk ssam;
               r = (if f64_lt r f64_0 then f64_0 else r);
               r = (if f64_gt r f64_1 then f64_1 else r)
           in f64_mul base (f64_add TransmissionFloor (f64_mul (lit (1 - 1 / 10)) r)))"

definition computeSpillover :: "f64 \<Rightarrow> f64 \<Rightarrow> f64 \<Rightarrow> f64" where
  "computeSpillover erisk transmission criticality =
     (let c = (if f64_le criticality f64_0 then lit (1 / 2) else criticality)
      in f64_mul (f64_mul erisk transmission) (f64_add (lit (1 / 2)) c))"

text \<open>The spill-over of each incoming edge with a known source, in the order of the edges.\<close>

definition spills :: "EdgeState list \<Rightarrow> (string \<rightharpoonup> NodeState) \<Rightarrow> f64 list" where
  "spills edges nodes =
     List.map_filter (\<lambda>e. map_option
        (\<lambda>up. computeSpillover (externalRisk (ns_SSAMScore up)) (es_RiskTransmission e) (ns_Criticality up)) (nodes (es_Source e))) edges"

definition computePropagatedRiskRSS :: "EdgeState list \<Rightarrow> (string \<rightharpoonup> NodeState) \<Rightarrow> f64" where
  "computePropagatedRiskRSS edges nodes =
     f64_min f64_1 (f64_sqrt (foldl (\<lambda>t s. f64_add t (f64_mul s s)) f64_0 (spills edges nodes)))"

definition computePropagatedRisk :: "EdgeState list \<Rightarrow> (string \<rightharpoonup> NodeState) \<Rightarrow> string \<Rightarrow> f64" where
  "computePropagatedRisk edges nodes mode =
     (if mode = ''max'' then foldl (\<lambda>m s. if f64_gt s m then s else m) f64_0 (spills edges nodes)
      else if mode = ''linear'' then f64_min f64_1 (foldl f64_add f64_0 (spills edges nodes))
      else computePropagatedRiskRSS edges nodes)"

definition unit_or_one :: "f64 \<Rightarrow> f64" where
  "unit_or_one c = (if f64_le c f64_0 then f64_1 else if f64_gt c f64_1 then f64_1 else c)"

definition failureConfidence :: "CheckFailure \<Rightarrow> f64" where
  "failureConfidence f = unit_or_one (cf_Confidence f)"

definition normalizeNodeConfidence :: "f64 \<Rightarrow> f64" where
  "normalizeNodeConfidence c = unit_or_one c"

definition nodeConfidence :: "NodeState \<Rightarrow> f64" where
  "nodeConfidence node = normalizeNodeConfidence (ns_Confidence node)"

definition elapsed_days :: "int \<Rightarrow> int \<Rightarrow> f64" where
  "elapsed_days now since = f64_div (f64_of_int (wrap64 (now - since))) secondsPerDay"

definition debt_of :: "(f64 \<Rightarrow> f64 \<Rightarrow> f64) \<Rightarrow> f64 \<Rightarrow> int \<Rightarrow> CheckFailure \<Rightarrow> f64" where
  "debt_of pw alpha now f =
     (let e = elapsed_days now (cf_FailUnix f); e = (if f64_lt e f64_0 then f64_0 else e)
      in f64_mul (f64_mul (f64_abs (cf_Delta f)) (failureConfidence f)) (pw e alpha))"

definition computeDebtRaw :: "(f64 \<Rightarrow> f64 \<Rightarrow> f64) \<Rightarrow> CheckFailure list \<Rightarrow> f64 \<Rightarrow> int \<Rightarrow> f64" where
  "computeDebtRaw pw failures alpha now = foldl (\<lambda>t f. f64_add t (debt_of pw alpha now f)) f64_0 failures"

definition effectiveFailureCount :: "CheckFailure list \<Rightarrow> f64" where
  "effectiveFailureCount failures = foldl (\<lambda>n f. f64_add n (failureConfidence f)) f64_0 failures"

definition computeCollapseModifier :: "(f64 \<Rightarrow> f64 \<Rightarrow> f64) \<Rightarrow> f64 \<Rightarrow> f64 \<Rightarrow> PrismConfig \<Rightarrow> f64" where
  "computeCollapseModifier pw debt n cf =
     (if f64_lt n (lit 2) \<or> f64_le debt f64_0 then f64_0
      else let denom = f64_mul (f64_mul (pc_DebtNormDays cf) (pc_DebtCap cf)) (f64_sqrt n)
           in if f64_le denom f64_0 then f64_0 else f64_min f64_1 (pw (f64_div debt denom) (pc_CollapseBeta cf)))"

definition ComputeRiskVelocity :: "f64 \<Rightarrow> RiskSnapshot option \<Rightarrow> int \<Rightarrow> f64" where
  "ComputeRiskVelocity score prior now =
     (case prior of
        None \<Rightarrow> f64_0
      | Some sn \<Rightarrow>
          let d = elapsed_days now (sn_Timestamp sn)
          in if f64_le d f64_0 then f64_0 else f64_div (f64_sub score (sn_PrismScore sn)) d)"

definition ComputeDynamicScore ::
    "(f64 \<Rightarrow> f64 \<Rightarrow> f64) \<Rightarrow> NodeState \<Rightarrow> EdgeState list \<Rightarrow> (string \<rightharpoonup> NodeState) \<Rightarrow> PrismConfig \<Rightarrow> int \<Rightarrow> AssetRiskResult" where
  "ComputeDynamicScore pw node edges nodes cf now =
     (let prop = computePropagatedRisk edges nodes (pc_AggregationMode cf);
          propPenalty = f64_min (pc_PropCap cf) prop;
          debt = computeDebtRaw pw (ns_FailedChecks node) (pc_DebtAlpha cf) now;
          debtPenalty = f64_min (pc_DebtCap cf) (f64_div debt (pc_DebtNormDays cf));
          eff = effectiveFailureCount (ns_FailedChecks node);
          collapse = computeCollapseModifier pw debt eff cf;
          ssam = ns_SSAMScore node;
          score = f64_mul (f64_mul (f64_mul ssam (f64_sub f64_1 propPenalty)) (f64_sub f64_1 debtPenalty)) (f64_sub f64_1 collapse);
          score = f64_max (f64_mul ssam (pc_ScoreFloor cf)) score;
          score = f64_min (lit 100) score
      in \<lparr>ar_HostID = ns_HostID node, ar_SsamScore = ssam, ar_PrismScore = round_to 100 score,
          ar_ExternalRisk = round_to 10000 (externalRisk ssam), ar_PropagatedRisk = round_to 10000 prop,
          ar_PropPenalty = round_to 10000 propPenalty, ar_DebtRaw = round_to 100 debt,
          ar_DebtPenalty = round_to 10000 debtPenalty, ar_CollapseModifier = round_to 10000 collapse,
          ar_RiskVelocity = f64_0, ar_Confidence = nodeConfidence node, ar_EffectiveFailures = round_to 1000 eff\<rparr>)"

section \<open>The range of the results\<close>

text \<open>What the code relies on in \<open>math.Pow\<close>: it computes the power, so it is not negative on a non-negative base, and
  a moderate base with an exponent of at most 2 does not overflow.\<close>

definition pow_ok :: "(f64 \<Rightarrow> f64 \<Rightarrow> f64) \<Rightarrow> bool" where
  "pow_ok pw \<longleftrightarrow>
     (\<forall>x y. wf64 (pw x y)) \<and>
     (\<forall>x y. f64_le f64_0 x \<longrightarrow> f64_le f64_0 y \<longrightarrow> f64_le f64_0 (pw x y)) \<and>
     (\<forall>x y. btw 0 (2 ^ 48) x \<longrightarrow> btw 0 2 y \<longrightarrow> btw 0 (2 ^ 97) (pw x y))"

definition sane_prism_config :: "PrismConfig \<Rightarrow> bool" where
  "sane_prism_config cf \<longleftrightarrow>
     btw 0 2 (pc_DebtAlpha cf) \<and> btw 0 1 (pc_PropCap cf) \<and> btw 0 1 (pc_DebtCap cf) \<and> btw 1 (2 ^ 20) (pc_DebtNormDays cf) \<and>
     btw 0 1 (pc_ScoreFloor cf) \<and> btw 0 4 (pc_CollapseBeta cf)"

definition sane_failure :: "CheckFailure \<Rightarrow> bool" where
  "sane_failure f \<longleftrightarrow> cf_Confidence f \<noteq> NaN \<and> wf64 (cf_Confidence f) \<and> btw (- (2 ^ 20)) (2 ^ 20) (cf_Delta f)"

definition sane_node :: "NodeState \<Rightarrow> bool" where
  "sane_node n \<longleftrightarrow>
     btw 0 100 (ns_SSAMScore n) \<and> btw (- 1) 1 (ns_Criticality n) \<and> ns_Confidence n \<noteq> NaN \<and> wf64 (ns_Confidence n) \<and>
     list_all sane_failure (ns_FailedChecks n) \<and> length (ns_FailedChecks n) \<le> 2 ^ 20"

definition sane_edge :: "EdgeState \<Rightarrow> bool" where
  "sane_edge e \<longleftrightarrow> btw 0 1 (es_RiskTransmission e)"

lemma unit_or_one_btw: "c \<noteq> NaN \<Longrightarrow> wf64 c \<Longrightarrow> btw 0 1 (unit_or_one c)"
  by (cases c) (auto simp: unit_or_one_def f64_lt_def)

lemma f64_min_btw: "btw 0 b x \<Longrightarrow> f64_le f64_0 y \<Longrightarrow> wf64 y \<Longrightarrow> btw 0 b (f64_min x y)"
  by (cases x; cases y) (auto simp: btw_def)

lemma f64_min_btw_low: "btw a b y \<Longrightarrow> b' \<le> b \<Longrightarrow> a \<le> b' \<Longrightarrow> rep b' \<Longrightarrow> btw a b' (f64_min (Fin b') y)"
  by (cases y) (auto simp: btw_def)

lemma f64_max_btw: "btw 0 b x \<Longrightarrow> btw 0 b y \<Longrightarrow> btw 0 b (f64_max x y)"
  by (cases x; cases y) (auto simp: btw_def)

lemma btw_nonneg: "btw 0 b x \<Longrightarrow> f64_le f64_0 x"
  by (cases x) (auto simp: btw_def)

lemma externalRisk_btw: "btw 0 100 x \<Longrightarrow> btw 0 1 (externalRisk x)"
  using btw_sub_from [of 100 x 100] btw_div [of 0 100 1] by (simp add: externalRisk_def)

lemma rep_3_2 [simp]: "rep (3 / 2)"
  using rep_small [of "3 / 2" 3 1] by simp

lemma spill_btw:
  assumes "btw 0 1 r" "btw 0 1 t" "btw (- 1) 1 c"
  shows "btw 0 (3 / 2) (computeSpillover r t c)"
proof -
  define c' where "c' = (if f64_le c f64_0 then lit (1 / 2) else c)"
  have c: "btw 0 1 c'" using btwD [OF assms(3)] by (auto simp: c'_def)
  have "btw (1 / 2 + 0) (1 / 2 + 1) (f64_add (lit (1 / 2)) c')" by (rule btw_add [OF _ c]) simp_all
  then have a: "btw 0 (3 / 2) (f64_add (lit (1 / 2)) c')" by (rule btw_mono) simp_all
  have "btw 0 1 (f64_mul r t)" using btw_mul [OF assms(1,2)] by simp
  then have "btw 0 (3 / 2) (f64_mul (f64_mul r t) (f64_add (lit (1 / 2)) c'))" using btw_mul [OF _ a, of 1] by simp
  then show ?thesis by (simp only: computeSpillover_def Let_def c'_def)
qed

lemma spills_btw:
  assumes "list_all sane_edge edges" "\<forall>n\<in>ran nodes. sane_node n" "s \<in> set (spills edges nodes)"
  shows "btw 0 (3 / 2) s"
proof -
  obtain e up where e: "e \<in> set edges" "nodes (es_Source e) = Some up"
    "s = computeSpillover (externalRisk (ns_SSAMScore up)) (es_RiskTransmission e) (ns_Criticality up)"
    using assms(3) by (auto simp: spills_def List.map_filter_def split: option.splits)
  have "sane_node up" using assms(2) e(2) by (auto simp: ran_def)
  then show ?thesis
    unfolding e(3) using assms(1) e(1)
    by (intro spill_btw externalRisk_btw) (auto simp: sane_node_def sane_edge_def list_all_iff)
qed

lemma fold_nonneg:
  "(\<And>t s. s \<in> set xs \<Longrightarrow> f64_le f64_0 t \<Longrightarrow> f64_le f64_0 (g t s)) \<Longrightarrow> f64_le f64_0 t \<Longrightarrow> f64_le f64_0 (foldl g t xs)"
  by (induction xs arbitrary: t) auto

lemma f64_mul_nonneg: "f64_le f64_0 (Fin a) \<Longrightarrow> f64_le f64_0 (Fin b) \<Longrightarrow> f64_le f64_0 (f64_mul (Fin a) (Fin b))"
  by (simp add: f64_of_rat_nonneg)

lemma f64_sqrt_ge0: "f64_le f64_0 x \<Longrightarrow> f64_le f64_0 (f64_sqrt x)"
  using rsqrt_bounds(1) by (cases x) (auto simp: f64_of_rat_nonneg)

lemma f64_sqrt_wf [simp]: "wf64 (f64_sqrt x)"
  by (cases x) auto

lemma fold_wf: "(\<And>t s. wf64 t \<Longrightarrow> wf64 s \<Longrightarrow> wf64 (g t s)) \<Longrightarrow> (\<And>s. s \<in> set xs \<Longrightarrow> wf64 s) \<Longrightarrow> wf64 t \<Longrightarrow> wf64 (foldl g t xs)"
  by (induction xs arbitrary: t) auto

lemma propagated_nonneg:
  assumes "list_all sane_edge edges" "\<forall>n\<in>ran nodes. sane_node n"
  shows "f64_le f64_0 (computePropagatedRisk edges nodes mode) \<and> wf64 (computePropagatedRisk edges nodes mode)"
proof -
  have sp: "\<exists>x. s = Fin x \<and> 0 \<le> x \<and> rep x" if "s \<in> set (spills edges nodes)" for s
    using btwD [OF spills_btw [OF assms that]] by blast
  have m: "f64_le f64_0 (foldl (\<lambda>m s. if f64_gt s m then s else m) f64_0 (spills edges nodes))"
    by (rule fold_nonneg) (use sp in fastforce)+
  have l: "f64_le f64_0 (foldl f64_add f64_0 (spills edges nodes))"
    by (rule fold_nonneg) (use sp in \<open>fastforce intro: f64_add_nonneg\<close>)+
  have "f64_le f64_0 (foldl (\<lambda>t s. f64_add t (f64_mul s s)) f64_0 (spills edges nodes))"
  proof (rule fold_nonneg)
    fix t s
    assume "s \<in> set (spills edges nodes)" "f64_le f64_0 t"
    moreover from this sp obtain x where "s = Fin x" "0 \<le> x" by blast
    ultimately show "f64_le f64_0 (f64_add t (f64_mul s s))" by (intro f64_add_nonneg) (simp_all add: f64_of_rat_nonneg)
  qed simp
  then have r: "f64_le f64_0 (f64_sqrt (foldl (\<lambda>t s. f64_add t (f64_mul s s)) f64_0 (spills edges nodes)))"
    by (rule f64_sqrt_ge0)
  have w: "wf64 (foldl (\<lambda>m s. if f64_gt s m then s else m) f64_0 (spills edges nodes))"
    by (rule fold_wf) (use sp in fastforce)+
  have wl: "wf64 (foldl f64_add f64_0 (spills edges nodes))"
    by (rule fold_wf) (use sp in fastforce)+
  have min: "f64_le f64_0 (f64_min f64_1 y) \<and> wf64 (f64_min f64_1 y)" if "f64_le f64_0 y" "wf64 y" for y
    using btwD [OF f64_min_btw [of 1 f64_1 y]] that by auto
  show ?thesis using m w min [OF l wl] min [OF r] by (simp add: computePropagatedRisk_def computePropagatedRiskRSS_def)
qed

lemma elapsed_btw: "btw 0 (2 ^ 48) (let e = elapsed_days now since in if f64_lt e f64_0 then f64_0 else e)"
proof -
  define d where "d = wrap64 (now - since)"
  have d: "- (2 ^ 63) \<le> d" "d < 2 ^ 63" using in_int64_wrap64 [of "now - since"] by (simp_all add: d_def in_int64_def min_int64_def max_int64_def)
  have r: "rep (2 ^ 63)" "rep (2 ^ 48)" by (rule rep_pow2, simp)+
  have "of_int (- (2 ^ 63)) \<le> (of_int d :: rat)" "of_int d \<le> (of_int (2 ^ 63) :: rat)"
    using d by (simp_all only: of_int_le_iff)
  then have f: "btw (- (2 ^ 63)) (2 ^ 63) (f64_of_int d)"
    unfolding f64_of_int_def by (intro btw_of_rat) (use r in simp_all)
  then obtain x where x: "f64_of_int d = Fin x" "- (2 ^ 63) \<le> x" "x \<le> 2 ^ 63" using btwD by blast
  have "- (2 ^ 48) \<le> x / 86400" "x / 86400 \<le> 2 ^ 48" using x(2,3) by simp_all
  then have "btw (- (2 ^ 48)) (2 ^ 48) (f64_of_rat (x / 86400))" by (intro btw_of_rat) (use r in simp_all)
  then obtain y where "elapsed_days now since = Fin y" "y \<le> 2 ^ 48" "rep y"
    using btwD x(1) unfolding elapsed_days_def d_def [symmetric] secondsPerDay_def by fastforce
  then show ?thesis by simp
qed

lemma debt_of_btw:
  assumes "pow_ok pw" "btw 0 2 alpha" "sane_failure f"
  shows "btw 0 (2 ^ 117) (debt_of pw alpha now f)"
proof -
  obtain x where x: "cf_Delta f = Fin x" "- (2 ^ 20) \<le> x" "x \<le> 2 ^ 20" "rep x" using assms(3) btwD unfolding sane_failure_def by blast
  have a: "btw 0 (2 ^ 20) (f64_abs (cf_Delta f))" using x by (simp add: abs_le_iff abs_if)
  have c: "btw 0 1 (failureConfidence f)"
    unfolding failureConfidence_def by (rule unit_or_one_btw) (use assms(3) in \<open>auto simp: sane_failure_def\<close>)
  have "btw 0 (2 ^ 20 * 1) (f64_mul (f64_abs (cf_Delta f)) (failureConfidence f))" by (rule btw_mul [OF a c]) simp
  moreover have "btw 0 (2 ^ 97) (pw (let e = elapsed_days now (cf_FailUnix f) in if f64_lt e f64_0 then f64_0 else e) alpha)"
    using assms(1,2) elapsed_btw unfolding pow_ok_def by blast
  ultimately have "btw 0 (2 ^ 20 * 1 * 2 ^ 97) (debt_of pw alpha now f)"
    unfolding debt_of_def Let_def by (rule btw_mul) (use rep_pow2 [of 117] in simp)
  then show ?thesis by simp
qed

lemma sum_fold_btw:
  assumes "\<And>x. x \<in> set xs \<Longrightarrow> btw 0 (2 ^ j) (h x)" "j \<le> 700"
  shows "n + length xs < 2 ^ 30 \<Longrightarrow> btw 0 (of_nat n * 2 ^ j) t \<Longrightarrow>
    btw 0 (of_nat (n + length xs) * 2 ^ j) (foldl (\<lambda>t x. f64_add t (h x)) t xs)"
  using assms(1)
proof (induction xs arbitrary: n t)
  case (Cons x xs)
  have "btw 0 (of_nat (Suc n) * 2 ^ j) (f64_add t (h x))"
    by (rule acc_add) (use Cons.prems assms(2) in auto)
  from Cons.IH [OF _ this] Cons.prems show ?case by simp
qed simp

lemma sum_fold_bound:
  assumes "\<And>x. x \<in> set xs \<Longrightarrow> btw 0 (2 ^ j) (h x)" "j \<le> 700" "length xs \<le> 2 ^ 20"
  shows "btw 0 (2 ^ (j + 20)) (foldl (\<lambda>t x. f64_add t (h x)) f64_0 xs)"
proof -
  have "btw 0 (of_nat (0 + length xs) * 2 ^ j) (foldl (\<lambda>t x. f64_add t (h x)) f64_0 xs)"
    by (rule sum_fold_btw) (use assms in simp_all)
  moreover have "(of_nat (0 + length xs) :: rat) * 2 ^ j \<le> 2 ^ (j + 20)"
  proof -
    have "(of_nat (length xs) :: rat) \<le> of_nat (2 ^ 20)" using assms(3) by (simp only: of_nat_le_iff)
    then have "(of_nat (length xs) :: rat) * 2 ^ j \<le> of_nat (2 ^ 20) * 2 ^ j" by (rule mult_right_mono) simp
    then show ?thesis by (simp add: power_add)
  qed
  ultimately show ?thesis by (rule btw_mono [OF _ order_refl])
qed

lemma debt_btw:
  assumes "pow_ok pw" "btw 0 2 alpha" "list_all sane_failure fs" "length fs \<le> 2 ^ 20"
  shows "btw 0 (2 ^ 137) (computeDebtRaw pw fs alpha now)"
  using sum_fold_bound [of fs 117 "debt_of pw alpha now"] debt_of_btw [OF assms(1,2)] assms(3,4)
  by (simp add: computeDebtRaw_def list_all_iff)

lemma eff_btw: "list_all sane_failure fs \<Longrightarrow> length fs \<le> 2 ^ 20 \<Longrightarrow> btw 0 (2 ^ 20) (effectiveFailureCount fs)"
proof -
  assume f: "list_all sane_failure fs" and l: "length fs \<le> 2 ^ 20"
  have "btw 0 (2 ^ 0) (failureConfidence x)" if "x \<in> set fs" for x
    using f that unit_or_one_btw by (auto simp: failureConfidence_def sane_failure_def list_all_iff)
  from sum_fold_bound [OF this _ l] show ?thesis by (simp add: effectiveFailureCount_def)
qed

lemma collapse_btw:
  assumes "pow_ok pw" "sane_prism_config cf" "btw 0 (2 ^ 137) debt" "btw 0 (2 ^ 20) n"
  shows "btw 0 1 (computeCollapseModifier pw debt n cf)"
proof -
  define denom where "denom = f64_mul (f64_mul (pc_DebtNormDays cf) (pc_DebtCap cf)) (f64_sqrt n)"
  have norm: "btw 0 (2 ^ 20) (pc_DebtNormDays cf)" "btw 0 1 (pc_DebtCap cf)" "f64_le f64_0 (pc_CollapseBeta cf)"
    using assms(2) btw_mono [of 1 "2 ^ 20" "pc_DebtNormDays cf" 0 "2 ^ 20"] btw_nonneg by (auto simp: sane_prism_config_def)
  have "btw 0 (2 ^ 20 * 1) (f64_mul (pc_DebtNormDays cf) (pc_DebtCap cf))" by (rule btw_mul [OF norm(1,2)]) simp
  moreover have "btw 0 (2 ^ (20 + 2)) (f64_sqrt n)" by (rule f64_sqrt_nonneg [OF assms(4)]) simp
  ultimately have "btw 0 (2 ^ 20 * 1 * 2 ^ (20 + 2)) denom" unfolding denom_def by (rule btw_mul) simp
  then obtain d where d: "denom = Fin d" using btwD by blast
  obtain x where x: "debt = Fin x" "0 \<le> x" using btwD [OF assms(3)] by blast
  have "btw 0 1 (f64_min f64_1 (pw (f64_div debt denom) (pc_CollapseBeta cf)))" if "\<not> f64_le denom f64_0"
  proof (rule f64_min_btw)
    have "f64_le f64_0 (f64_div debt denom)" using that x d by (simp add: f64_of_rat_nonneg)
    then show "f64_le f64_0 (pw (f64_div debt denom) (pc_CollapseBeta cf))" using assms(1) norm(3) unfolding pow_ok_def by blast
    show "wf64 (pw (f64_div debt denom) (pc_CollapseBeta cf))" using assms(1) unfolding pow_ok_def by blast
  qed simp
  then show ?thesis by (simp add: computeCollapseModifier_def denom_def [symmetric])
qed

text \<open>What a core result promises: the score on the scale, the risks and the penalties in the unit interval.\<close>

definition good_asset :: "AssetRiskResult \<Rightarrow> bool" where
  "good_asset r \<longleftrightarrow>
     btw 0 100 (ar_PrismScore r) \<and> btw 0 1 (ar_ExternalRisk r) \<and> btw 0 1 (ar_PropPenalty r) \<and> btw 0 1 (ar_DebtPenalty r) \<and>
     btw 0 1 (ar_CollapseModifier r) \<and> btw 0 1 (ar_Confidence r)"

lemma rest_btw: "btw 0 1 x \<Longrightarrow> btw 0 1 (f64_sub f64_1 x)"
  using btw_sub_from [of 1 x 1] by simp

lemma ComputeDynamicScore_good:
  assumes "pow_ok pw" "sane_prism_config cf" "sane_node node" "list_all sane_edge edges" "\<forall>n\<in>ran nodes. sane_node n"
  shows "good_asset (ComputeDynamicScore pw node edges nodes cf now)"
proof -
  let ?spread = "computePropagatedRisk edges nodes (pc_AggregationMode cf)"
  let ?debt = "computeDebtRaw pw (ns_FailedChecks node) (pc_DebtAlpha cf) now"
  let ?eff = "effectiveFailureCount (ns_FailedChecks node)"
  have cf: "btw 0 1 (pc_PropCap cf)" "btw 0 1 (pc_DebtCap cf)" "btw 0 1 (pc_ScoreFloor cf)" "btw 0 2 (pc_DebtAlpha cf)"
    using assms(2) by (auto simp: sane_prism_config_def)
  have ssam: "btw 0 100 (ns_SSAMScore node)" and fs: "list_all sane_failure (ns_FailedChecks node)" "length (ns_FailedChecks node) \<le> 2 ^ 20"
    using assms(3) by (auto simp: sane_node_def)
  have pp: "btw 0 1 (f64_min (pc_PropCap cf) ?spread)"
    using propagated_nonneg [OF assms(4,5)] cf(1) by (intro f64_min_btw) auto
  have debt: "btw 0 (2 ^ 137) ?debt" by (rule debt_btw [OF assms(1) cf(4) fs])
  obtain x k where xk: "?debt = Fin x" "0 \<le> x" "pc_DebtNormDays cf = Fin k" "1 \<le> k"
    using btwD [OF debt] btwD [of 1 "2 ^ 20" "pc_DebtNormDays cf"] assms(2) by (auto simp: sane_prism_config_def)
  have dp: "btw 0 1 (f64_min (pc_DebtCap cf) (f64_div ?debt (pc_DebtNormDays cf)))"
    using xk by (intro f64_min_btw [OF cf(2)]) (simp_all add: f64_of_rat_nonneg)
  have cm: "btw 0 1 (computeCollapseModifier pw ?debt ?eff cf)" by (rule collapse_btw [OF assms(1,2) debt eff_btw [OF fs]])
  have m: "btw 0 100 (f64_mul a b)" if "btw 0 100 a" "btw 0 1 b" for a b using btw_mul [OF that] by simp
  note score = m [OF m [OF m [OF ssam rest_btw [OF pp]] rest_btw [OF dp]] rest_btw [OF cm]]
  have "btw 0 100 (f64_min (lit 100) (f64_max (f64_mul (ns_SSAMScore node) (pc_ScoreFloor cf))
      (f64_mul (f64_mul (f64_mul (ns_SSAMScore node) (f64_sub f64_1 (f64_min (pc_PropCap cf) ?spread)))
        (f64_sub f64_1 (f64_min (pc_DebtCap cf) (f64_div ?debt (pc_DebtNormDays cf))))) (f64_sub f64_1 (computeCollapseModifier pw ?debt ?eff cf)))))"
    using f64_min_btw_low [OF f64_max_btw [OF m [OF ssam cf(3)] score], of 100] by simp
  then have "btw 0 100 (ar_PrismScore (ComputeDynamicScore pw node edges nodes cf now))"
    unfolding ComputeDynamicScore_def Let_def AssetRiskResult.select_convs
    by (rule round_to_btw [of _ _ _ 100 10000]) simp_all
  moreover have r4: "btw 0 1 (round_to 10000 y)" if "btw 0 1 y" for y
    by (rule round_to_btw [OF that, of _ 10000 10000]) simp_all
  moreover have "btw 0 1 (unit_or_one (ns_Confidence node))" using assms(3) by (intro unit_or_one_btw) (auto simp: sane_node_def)
  ultimately show ?thesis
    using r4 [OF externalRisk_btw [OF ssam]] r4 [OF pp] r4 [OF dp] r4 [OF cm]
    by (simp add: good_asset_def ComputeDynamicScore_def nodeConfidence_def normalizeNodeConfidence_def Let_def)
qed

text \<open>C30: A dynamic score is on the scale and its penalties are in the unit interval, for every node, every set of
  incoming edges, every age of the failures (clock skew and the wrap-around of the \<open>int64\<close> difference included) and every
  aggregation mode.\<close>

theorem dynamic_score_in_range:
  assumes "pow_ok pw" and "sane_prism_config cf" and "sane_node node" and "list_all sane_edge edges"
    and "\<forall>n\<in>ran nodes. sane_node n"
  shows "good_asset (ComputeDynamicScore pw node edges nodes cf now)"
  by (rule ComputeDynamicScore_good [OF assms])

definition demo_node :: NodeState where
  "demo_node =
     \<lparr>ns_HostID = ''a'', ns_SSAMScore = Fin 80,
      ns_FailedChecks = [\<lparr>cf_CheckID = ''X'', cf_Delta = Fin (- 5), cf_FailUnix = max_int64, cf_Confidence = PInf\<rparr>],
      ns_Criticality = f64_0, ns_Confidence = f64_1\<rparr>"

definition demo_edge :: "string \<Rightarrow> string \<Rightarrow> EdgeState" where
  "demo_edge s t = \<lparr>es_Source = s, es_Target = t, es_RiskTransmission = Fin (1 / 2)\<rparr>"

text \<open>A stand-in for \<open>math.Pow\<close> with its documented values at the exponents 0 and 1.\<close>

definition demo_pow :: "f64 \<Rightarrow> f64 \<Rightarrow> f64" where
  "demo_pow x y = (if y = f64_1 \<and> wf64 x then x else f64_1)"

lemma demo_pow_ok: "pow_ok demo_pow"
  unfolding pow_ok_def demo_pow_def
proof (intro conjI allI impI)
  fix x y assume x: "btw 0 (2 ^ 48) x"
  have "btw 0 (2 ^ 97) x" by (rule btw_mono [OF x]) simp_all
  then show "btw 0 (2 ^ 97) (if y = f64_1 \<and> wf64 x then x else f64_1)" by simp
qed simp_all

lemma demo_config_sane: "sane_prism_config prism_DefaultConfig"
  unfolding sane_prism_config_def prism_DefaultConfig_def by (simp add: btw_of_rat)

lemma demo_node_sane: "sane_node demo_node"
  by (simp add: sane_node_def demo_node_def sane_failure_def)

theorem dynamic_score_in_range_witness:
  "good_asset (ComputeDynamicScore demo_pow demo_node [demo_edge ''a'' ''a'', demo_edge ''b'' ''a''] [''a'' \<mapsto> demo_node] prism_DefaultConfig min_int64)"
  by (rule dynamic_score_in_range [OF demo_pow_ok demo_config_sane demo_node_sane])
    (simp_all add: sane_edge_def demo_edge_def demo_node_sane)

end
