(* ===== verification/Prism_Paths.thy ===== *)
theory Prism_Paths
  imports Prism_Core "HOL-Library.Multiset"
begin

text \<open>
  \<open>prism-lib/paths.go\<close>: the depth-first search for propagation paths. The recursion carries what the closure
  captures; \<open>visited\<close> is restored after each call, so it is an argument. \<open>srt\<close> is \<open>sort.Slice\<close> with the descending
  order of the accumulated risk. The search is specified without recursion by the simple routes of the graph.
\<close>

type_synonym found = "(string list \<times> f64) list"

definition hop_risk :: "NodeState \<Rightarrow> EdgeState \<Rightarrow> f64 \<Rightarrow> f64" where
  "hop_risk up e decay =
     f64_mul (computeSpillover (externalRisk (ns_SSAMScore up)) (es_RiskTransmission e) (ns_Criticality up)) decay"

function path_dfs ::
    "(string \<rightharpoonup> NodeState) \<Rightarrow> EdgeState list \<Rightarrow> f64 \<Rightarrow> string \<Rightarrow> int \<Rightarrow> string \<Rightarrow> string list \<Rightarrow> f64 \<Rightarrow> f64 \<Rightarrow> int \<Rightarrow> string set \<Rightarrow> found" where
  "path_dfs nodes edges pd target depth cur path accum decay hop visited =
     (if hop > depth then []
      else if cur = target \<and> hop > 0 then [(path, accum)]
      else concat (map (\<lambda>e.
             if es_Target e \<in> visited then []
             else case nodes cur of
                    None \<Rightarrow> []
                  | Some up \<Rightarrow>
                      path_dfs nodes edges pd target depth (es_Target e) (path @ [es_Target e])
                        (f64_add accum (hop_risk up e decay)) (f64_mul decay pd) (hop + 1) (insert (es_Target e) visited))
             (filter (\<lambda>e. es_Source e = cur) edges)))"
  by pat_completeness auto
termination
  by (relation "measure (\<lambda>(nodes, edges, pd, target, depth, cur, path, accum, decay, hop, visited). nat (depth + 1 - hop))") auto

declare path_dfs.simps [simp del]

definition FindPropagationPaths ::
    "(found \<Rightarrow> found) \<Rightarrow> string \<Rightarrow> string \<Rightarrow> (string \<rightharpoonup> NodeState) \<Rightarrow> EdgeState list \<Rightarrow> PrismConfig \<Rightarrow> int \<Rightarrow> int \<Rightarrow> found" where
  "FindPropagationPaths srt source target nodes edges cf maxDepth limit =
     (let depth = (if maxDepth \<le> 0 then pc_MaxPathDepth cf else maxDepth);
          limit = (if limit \<le> 0 then 10 else limit);
          all = path_dfs nodes edges (pc_PathDecay cf) target depth source [source] f64_0 f64_1 0 {source}
      in take (nat limit) (srt all))"

section \<open>Routes\<close>

text \<open>A route is a chain of edges; its risk adds each hop's spill-over, damped by the hops before it.\<close>

fun chain :: "(string \<rightharpoonup> NodeState) \<Rightarrow> EdgeState list \<Rightarrow> string \<Rightarrow> EdgeState list \<Rightarrow> bool" where
  "chain nodes edges cur [] = True"
| "chain nodes edges cur (e # es) = (e \<in> set edges \<and> es_Source e = cur \<and> nodes cur \<noteq> None \<and> chain nodes edges (es_Target e) es)"

definition route_end :: "string \<Rightarrow> EdgeState list \<Rightarrow> string" where
  "route_end cur es = last (cur # map es_Target es)"

fun route_risk :: "(string \<rightharpoonup> NodeState) \<Rightarrow> f64 \<Rightarrow> f64 \<Rightarrow> f64 \<Rightarrow> EdgeState list \<Rightarrow> f64" where
  "route_risk nodes pd accum decay [] = accum"
| "route_risk nodes pd accum decay (e # es) =
     route_risk nodes pd (f64_add accum (hop_risk (the (nodes (es_Source e))) e decay)) (f64_mul decay pd) es"

text \<open>The routes from \<open>source\<close> to \<open>target\<close> of at most \<open>depth\<close> hops that visit no node twice.\<close>

definition simple_route :: "(string \<rightharpoonup> NodeState) \<Rightarrow> EdgeState list \<Rightarrow> int \<Rightarrow> string \<Rightarrow> string \<Rightarrow> EdgeState list \<Rightarrow> bool" where
  "simple_route nodes edges depth source target es \<longleftrightarrow>
     es \<noteq> [] \<and> int (length es) \<le> depth \<and> chain nodes edges source es \<and> distinct (source # map es_Target es) \<and> route_end source es = target"

text \<open>The walks the search makes from a node it has reached.\<close>

fun walk :: "(string \<rightharpoonup> NodeState) \<Rightarrow> EdgeState list \<Rightarrow> string \<Rightarrow> int \<Rightarrow> string \<Rightarrow> int \<Rightarrow> string set \<Rightarrow> EdgeState list \<Rightarrow> bool" where
  "walk nodes edges target depth cur hop visited [] = (hop \<le> depth \<and> cur = target \<and> hop > 0)"
| "walk nodes edges target depth cur hop visited (e # es) =
     (hop \<le> depth \<and> \<not> (cur = target \<and> hop > 0) \<and> e \<in> set edges \<and> es_Source e = cur \<and> es_Target e \<notin> visited \<and> nodes cur \<noteq> None \<and>
      walk nodes edges target depth (es_Target e) (hop + 1) (insert (es_Target e) visited) es)"

lemma ex_list: "(\<exists>xs. Q xs) \<longleftrightarrow> Q [] \<or> (\<exists>x xs. Q (x # xs))"
  by (metis list.exhaust)

lemma path_dfs_walks:
  "(q, r) \<in> set (path_dfs nodes edges pd target depth cur path accum decay hop visited) \<longleftrightarrow>
   (\<exists>es. walk nodes edges target depth cur hop visited es \<and> q = path @ map es_Target es \<and> r = route_risk nodes pd accum decay es)"
proof (induction nodes edges pd target depth cur path accum decay hop visited arbitrary: q r rule: path_dfs.induct)
  case (1 nodes edges pd target depth cur path accum decay hop visited)
  let ?step = "\<lambda>up e. path_dfs nodes edges pd target depth (es_Target e) (path @ [es_Target e])
     (f64_add accum (hop_risk up e decay)) (f64_mul decay pd) (hop + 1) (insert (es_Target e) visited)"
  let ?found = "\<lambda>es. walk nodes edges target depth cur hop visited es \<and> q = path @ map es_Target es \<and> r = route_risk nodes pd accum decay es"
  show ?case
  proof (cases "hop > depth \<or> cur = target \<and> hop > 0")
    case True
    then have "(\<exists>es. ?found es) \<longleftrightarrow> ?found []" using ex_list [of ?found] by auto
    then show ?thesis using True by (subst path_dfs.simps) auto
  next
    case False
    show ?thesis
    proof (cases "nodes cur")
      case None
      then have "\<not> ?found es" for es using False by (cases es) auto
      then show ?thesis using False None by (subst path_dfs.simps) auto
    next
      case (Some up)
      have IH: "(q, r) \<in> set (?step up e) \<longleftrightarrow>
          (\<exists>es. walk nodes edges target depth (es_Target e) (hop + 1) (insert (es_Target e) visited) es \<and>
             q = (path @ [es_Target e]) @ map es_Target es \<and> r = route_risk nodes pd (f64_add accum (hop_risk up e decay)) (f64_mul decay pd) es)"
        if "e \<in> set (filter (\<lambda>e. es_Source e = cur) edges)" "es_Target e \<notin> visited" for e
        using "1.IH" [of e up q r] False that Some by blast
      have "(q, r) \<in> set (path_dfs nodes edges pd target depth cur path accum decay hop visited) \<longleftrightarrow>
        (\<exists>e\<in>set (filter (\<lambda>e. es_Source e = cur) edges). es_Target e \<notin> visited \<and> (q, r) \<in> set (?step up e))"
        using False Some by (subst path_dfs.simps) (auto split: if_splits)
      also have "\<dots> \<longleftrightarrow> (\<exists>e es. ?found (e # es))"
      proof
        assume "\<exists>e\<in>set (filter (\<lambda>e. es_Source e = cur) edges). es_Target e \<notin> visited \<and> (q, r) \<in> set (?step up e)"
        then obtain e where e: "e \<in> set (filter (\<lambda>e. es_Source e = cur) edges)" "es_Target e \<notin> visited" "(q, r) \<in> set (?step up e)" by blast
        then obtain es where "walk nodes edges target depth (es_Target e) (hop + 1) (insert (es_Target e) visited) es"
          "q = (path @ [es_Target e]) @ map es_Target es" "r = route_risk nodes pd (f64_add accum (hop_risk up e decay)) (f64_mul decay pd) es"
          using IH [OF e(1,2)] by blast
        then have "?found (e # es)" using e False Some by simp
        then show "\<exists>e es. ?found (e # es)" by blast
      next
        assume "\<exists>e es. ?found (e # es)"
        then obtain e es where f: "?found (e # es)" by blast
        then have e: "e \<in> set (filter (\<lambda>e. es_Source e = cur) edges)" "es_Target e \<notin> visited" by simp_all
        moreover have "(q, r) \<in> set (?step up e)" unfolding IH [OF e] by (rule exI [of _ es]) (use f Some in auto)
        ultimately show "\<exists>e\<in>set (filter (\<lambda>e. es_Source e = cur) edges). es_Target e \<notin> visited \<and> (q, r) \<in> set (?step up e)" by blast
      qed
      also have "\<dots> \<longleftrightarrow> (\<exists>es. ?found es)"
      proof -
        have "\<not> ?found []" using False by auto
        with ex_list [of ?found] show ?thesis by argo
      qed
      finally show ?thesis .
    qed
  qed
qed

lemma walk_iff:
  assumes "0 < hop \<longrightarrow> cur \<in> visited" "0 \<le> hop"
  shows "walk nodes edges target depth cur hop visited es \<longleftrightarrow>
    chain nodes edges cur es \<and> distinct (map es_Target es) \<and> set (map es_Target es) \<inter> visited = {} \<and> route_end cur es = target \<and>
    hop + int (length es) \<le> depth \<and> 0 < hop + int (length es)"
  using assms
proof (induction es arbitrary: cur hop visited)
  case (Cons e es)
  have IH: "walk nodes edges target depth (es_Target e) (hop + 1) (insert (es_Target e) visited) es \<longleftrightarrow>
    chain nodes edges (es_Target e) es \<and> distinct (map es_Target es) \<and> set (map es_Target es) \<inter> insert (es_Target e) visited = {} \<and>
    route_end (es_Target e) es = target \<and> hop + 1 + int (length es) \<le> depth"
    using Cons.IH [of "hop + 1" "es_Target e" "insert (es_Target e) visited"] Cons.prems(2) by simp
  have last: "route_end cur (e # es) = route_end (es_Target e) es" by (simp only: route_end_def list.map last.simps list.distinct if_False)
  have "last (map es_Target (e # es)) \<in> set (map es_Target (e # es))" by (rule last_in_set) simp
  then have mem: "route_end cur (e # es) \<in> set (map es_Target (e # es))" by (simp add: route_end_def)
  have stop: "\<not> (cur = target \<and> hop > 0)"
    if t: "route_end cur (e # es) = target" and d: "set (map es_Target (e # es)) \<inter> visited = {}"
  proof
    assume c: "cur = target \<and> hop > 0"
    then have "target \<in> visited" using Cons.prems(1) by simp
    moreover have "target \<in> set (map es_Target (e # es))" using mem unfolding t .
    ultimately show False using d by (meson disjoint_iff)
  qed
  show ?case
  proof
    assume w: "walk nodes edges target depth cur hop visited (e # es)"
    then show "chain nodes edges cur (e # es) \<and> distinct (map es_Target (e # es)) \<and> set (map es_Target (e # es)) \<inter> visited = {} \<and>
        route_end cur (e # es) = target \<and> hop + int (length (e # es)) \<le> depth \<and> 0 < hop + int (length (e # es))"
    proof -
      have g: "e \<in> set edges" "es_Source e = cur" "es_Target e \<notin> visited" "nodes cur \<noteq> None" using w by simp_all
      have "walk nodes edges target depth (es_Target e) (hop + 1) (insert (es_Target e) visited) es" using w by simp
      then have h: "chain nodes edges (es_Target e) es" "distinct (map es_Target es)" "set (map es_Target es) \<inter> insert (es_Target e) visited = {}"
        "route_end (es_Target e) es = target" "hop + 1 + int (length es) \<le> depth" unfolding IH by blast+
      have "es_Target e \<notin> set (map es_Target es)" "set (map es_Target es) \<inter> visited = {}" using h(3) by blast+
      then show ?thesis using g h Cons.prems(2) by (simp add: last)
    qed
  next
    assume c: "chain nodes edges cur (e # es) \<and> distinct (map es_Target (e # es)) \<and> set (map es_Target (e # es)) \<inter> visited = {} \<and>
        route_end cur (e # es) = target \<and> hop + int (length (e # es)) \<le> depth \<and> 0 < hop + int (length (e # es))"
    then have h: "es_Target e \<notin> set (map es_Target es)" "set (map es_Target es) \<inter> visited = {}" "es_Target e \<notin> visited" by auto
    then have "set (map es_Target es) \<inter> insert (es_Target e) visited = {}" by blast
    then have "walk nodes edges target depth (es_Target e) (hop + 1) (insert (es_Target e) visited) es"
      unfolding IH using c by (simp add: last)
    moreover have "\<not> (cur = target \<and> hop > 0)" by (rule stop) (use c in blast)+
    ultimately show "walk nodes edges target depth cur hop visited (e # es)" using c h(3) by simp
  qed
qed (auto simp: route_end_def)

lemma path_dfs_routes:
  "set (path_dfs nodes edges pd target depth source [source] f64_0 f64_1 0 {source}) =
   {(source # map es_Target es, route_risk nodes pd f64_0 f64_1 es) | es. simple_route nodes edges depth source target es}"
proof -
  have "walk nodes edges target depth source 0 {source} es \<longleftrightarrow> simple_route nodes edges depth source target es" for es
    by (subst walk_iff) (auto simp: simple_route_def)
  then show ?thesis by (auto simp: path_dfs_walks)
qed

lemma hop_risk_btw:
  assumes "sane_node up" "sane_edge e" "btw 0 1 decay"
  shows "btw 0 (3 / 2) (hop_risk up e decay)"
proof -
  have "btw 0 (3 / 2) (computeSpillover (externalRisk (ns_SSAMScore up)) (es_RiskTransmission e) (ns_Criticality up))"
    using assms(1,2) by (intro spill_btw externalRisk_btw) (auto simp: sane_node_def sane_edge_def)
  from btw_mul [OF this assms(3)] show ?thesis by (simp add: hop_risk_def)
qed

lemma route_risk_nonneg:
  assumes "list_all sane_edge edges" "\<forall>n\<in>ran nodes. sane_node n" "btw 0 1 pd"
  shows "chain nodes edges cur es \<Longrightarrow> f64_le f64_0 accum \<Longrightarrow> btw 0 1 decay \<Longrightarrow> f64_le f64_0 (route_risk nodes pd accum decay es)"
proof (induction es arbitrary: cur accum decay)
  case (Cons e es)
  obtain up where up: "nodes (es_Source e) = Some up" "e \<in> set edges" using Cons.prems(1) by auto
  have "btw 0 (3 / 2) (hop_risk up e decay)"
    using assms(1,2) up Cons.prems(3) by (intro hop_risk_btw) (auto simp: list_all_iff ran_def)
  then have "f64_le f64_0 (f64_add accum (hop_risk up e decay))"
    using Cons.prems(2) btw_nonneg by (intro f64_add_nonneg) auto
  moreover have "btw 0 1 (f64_mul decay pd)" using btw_mul [OF Cons.prems(3) assms(3)] by simp
  ultimately show ?case using Cons.IH [of "es_Target e"] Cons.prems(1) up(1) by simp
qed simp

text \<open>What \<open>sort.Slice\<close> promises here: a permutation, descending when the order is total (no NaN).\<close>

definition sorts_desc :: "(found \<Rightarrow> found) \<Rightarrow> bool" where
  "sorts_desc srt \<longleftrightarrow>
     (\<forall>xs. mset (srt xs) = mset xs \<and> (NaN \<notin> snd ` set xs \<longrightarrow> sorted_wrt (\<lambda>a b. f64_le (snd b) (snd a)) (srt xs)))"

text \<open>C28: The path search is sound and complete. What it returns are simple routes of the graph within the depth, each
  with the risk of its hops; at most \<open>limit\<close> of them; and a route it leaves out was left out because the limit is
  exhausted, by routes of at least its risk.\<close>

theorem propagation_paths_complete:
  assumes "sorts_desc srt" and "list_all sane_edge edges" and "\<forall>n\<in>ran nodes. sane_node n" and "btw 0 1 (pc_PathDecay cf)"
    and "0 < depth" and "0 < limit"
  shows "let found = FindPropagationPaths srt source target nodes edges cf depth limit;
             routes = {(source # map es_Target es, route_risk nodes (pc_PathDecay cf) f64_0 f64_1 es) | es.
                       simple_route nodes edges depth source target es}
         in set found \<subseteq> routes \<and> int (length found) \<le> limit \<and>
            (\<forall>x\<in>routes - set found. int (length found) = limit \<and> (\<forall>y\<in>set found. f64_le (snd x) (snd y)))"
proof -
  define all where "all = path_dfs nodes edges (pc_PathDecay cf) target depth source [source] f64_0 f64_1 0 {source}"
  define routes where "routes = {(source # map es_Target es, route_risk nodes (pc_PathDecay cf) f64_0 f64_1 es) | es.
      simple_route nodes edges depth source target es}"
  define n where "n = nat limit"
  have found: "FindPropagationPaths srt source target nodes edges cf depth limit = take n (srt all)"
    using assms(5,6) by (simp add: FindPropagationPaths_def all_def n_def)
  have all: "set all = routes" unfolding all_def routes_def by (rule path_dfs_routes)
  have perm: "mset (srt all) = mset all" using assms(1) by (simp add: sorts_desc_def)
  have srt: "set (srt all) = routes" using mset_eq_setD [OF perm] all by simp
  have "f64_le f64_0 (snd x)" if "x \<in> routes" for x
    using that route_risk_nonneg [OF assms(2-4)] by (auto simp: routes_def simple_route_def)
  then have "snd x \<noteq> NaN" if "x \<in> set all" for x using that all by fastforce
  then have nan: "NaN \<notin> snd ` set all" by (metis imageE)
  then have "sorted_wrt (\<lambda>a b. f64_le (snd b) (snd a)) (srt all)" using assms(1) by (simp add: sorts_desc_def)
  then have "sorted_wrt (\<lambda>a b. f64_le (snd b) (snd a)) (take n (srt all) @ drop n (srt all))" by simp
  then have order: "f64_le (snd x) (snd y)" if "y \<in> set (take n (srt all))" "x \<in> set (drop n (srt all))" for x y
    using that unfolding sorted_wrt_append by blast
  have split: "routes = set (take n (srt all)) \<union> set (drop n (srt all))"
    unfolding srt [symmetric] set_append [symmetric] append_take_drop_id ..
  show ?thesis
    unfolding Let_def found routes_def [symmetric]
  proof (intro conjI ballI)
    show "set (take n (srt all)) \<subseteq> routes" using split by blast
    show "int (length (take n (srt all))) \<le> limit" using assms(6) by (simp add: n_def)
    fix x
    assume "x \<in> routes - set (take n (srt all))"
    then have x: "x \<in> set (drop n (srt all))" using split by blast
    then have "n < length (srt all)" by (cases "n < length (srt all)") auto
    then show "int (length (take n (srt all))) = limit" using assms(6) by (simp add: n_def)
    show "f64_le (snd x) (snd y)" if "y \<in> set (take n (srt all))" for y by (rule order [OF that x])
  qed
qed

text \<open>An insertion sort that is descending in the risk.\<close>

fun insert_desc :: "string list \<times> f64 \<Rightarrow> found \<Rightarrow> found" where
  "insert_desc x [] = [x]"
| "insert_desc x (y # ys) = (if f64_le (snd y) (snd x) then x # y # ys else y # insert_desc x ys)"

definition demo_sort :: "found \<Rightarrow> found" where
  "demo_sort xs = foldr insert_desc xs []"

lemma insert_desc_mset: "mset (insert_desc x ys) = add_mset x (mset ys)"
  by (induction ys) auto

lemma insert_desc_sorted:
  "snd x \<noteq> NaN \<Longrightarrow> NaN \<notin> snd ` set ys \<Longrightarrow> sorted_wrt (\<lambda>a b. f64_le (snd b) (snd a)) ys \<Longrightarrow>
   sorted_wrt (\<lambda>a b. f64_le (snd b) (snd a)) (insert_desc x ys)"
proof (induction ys)
  case (Cons y ys)
  show ?case
  proof (cases "f64_le (snd y) (snd x)")
    case True
    then show ?thesis using Cons.prems(3) f64_le_trans by auto
  next
    case False
    then have "f64_le (snd x) (snd y)" using Cons.prems(1,2) by (cases "snd x"; cases "snd y") auto
    moreover have "set (insert_desc x ys) = insert x (set ys)" using insert_desc_mset [of x ys] by (metis set_mset_add_mset_insert set_mset_mset)
    ultimately show ?thesis using False Cons by auto
  qed
qed simp

lemma demo_sort_desc: "sorts_desc demo_sort"
proof -
  have m: "mset (demo_sort xs) = mset xs" for xs by (induction xs) (simp_all add: demo_sort_def insert_desc_mset)
  moreover have "sorted_wrt (\<lambda>a b. f64_le (snd b) (snd a)) (demo_sort xs)" if "NaN \<notin> snd ` set xs" for xs
    using that
  proof (induction xs)
    case (Cons x xs)
    have "set (demo_sort xs) = set xs" using m by (metis set_mset_mset)
    then show ?case using Cons insert_desc_sorted [of x "demo_sort xs"] by (force simp: demo_sort_def)
  qed (simp add: demo_sort_def)
  ultimately show ?thesis by (simp add: sorts_desc_def)
qed

theorem propagation_paths_complete_witness:
  "let found = FindPropagationPaths demo_sort ''a'' ''b'' [''a'' \<mapsto> demo_node] [demo_edge ''a'' ''b''] prism_DefaultConfig 5 1;
       routes = {(''a'' # map es_Target es, route_risk [''a'' \<mapsto> demo_node] (pc_PathDecay prism_DefaultConfig) f64_0 f64_1 es) | es.
                 simple_route [''a'' \<mapsto> demo_node] [demo_edge ''a'' ''b''] 5 ''a'' ''b'' es}
   in set found \<subseteq> routes \<and> int (length found) \<le> 1 \<and>
      (\<forall>x\<in>routes - set found. int (length found) = 1 \<and> (\<forall>y\<in>set found. f64_le (snd x) (snd y)))"
proof (rule propagation_paths_complete [OF demo_sort_desc])
  show "btw 0 1 (pc_PathDecay prism_DefaultConfig)" by (simp add: prism_DefaultConfig_def btw_of_rat)
qed (simp_all add: sane_edge_def demo_edge_def demo_node_sane)

end
