(* ===== verification/Prism_Inference.thy ===== *)
theory Prism_Inference
  imports Prism_Core
begin

text \<open>
  \<open>prism-lib\<close>, the semantic layer (\<open>semantic.go\<close>), the inference layer (\<open>inference.go\<close>) and the interchange record
  (\<open>prismir.go\<close>). A \<open>[4]float64\<close> is a list of four values. \<open>math.Log2\<close> is the argument \<open>lg\<close>; the rendering of a
  \<open>float64\<close> and of a quoted string in error messages are the arguments \<open>showf\<close> and \<open>quote\<close>.
\<close>

type_synonym vec4 = "f64 list"
type_synonym mat4 = "f64 list list"

record SemanticRiskReport =
  sr_HostID :: string
  sr_StableMembership :: f64
  sr_DegradedMembership :: f64
  sr_UntrustedMembership :: f64
  sr_CollapseMembership :: f64
  sr_CurrentState :: string
  sr_StateVector :: vec4
  sr_InputConfidence :: f64

record InferenceModel =
  im_Predict :: "vec4 \<Rightarrow> int \<Rightarrow> vec4 \<times> f64"
  im_Name :: string

record FutureRiskReport =
  fr_HostID :: string
  fr_HorizonDays :: int
  fr_StableProb :: f64
  fr_DegradedProb :: f64
  fr_UntrustedProb :: f64
  fr_CollapseProb :: f64
  fr_Confidence :: f64
  fr_Trend :: string
  fr_CollapseRisk :: f64

section \<open>The semantic layer\<close>

definition trapezoidUp :: "f64 \<Rightarrow> f64 \<Rightarrow> f64 \<Rightarrow> f64" where
  "trapezoidUp x lo up =
     (if f64_le x lo then f64_0 else if f64_ge x up then f64_1 else f64_div (f64_sub x lo) (f64_sub up lo))"

definition trapezoidDown :: "f64 \<Rightarrow> f64 \<Rightarrow> f64 \<Rightarrow> f64" where
  "trapezoidDown x lo up =
     (if f64_le x lo then f64_1 else if f64_ge x up then f64_0 else f64_div (f64_sub up x) (f64_sub up lo))"

definition trapezoidTri :: "f64 \<Rightarrow> f64 \<Rightarrow> f64 \<Rightarrow> f64 \<Rightarrow> f64" where
  "trapezoidTri x lo center up =
     (if f64_le x lo \<or> f64_ge x up then f64_0
      else if f64_le x center then f64_div (f64_sub x lo) (f64_sub center lo)
      else f64_div (f64_sub up x) (f64_sub up center))"

definition computeMemberships :: "f64 \<Rightarrow> PrismConfig \<Rightarrow> f64 \<times> f64 \<times> f64 \<times> f64" where
  "computeMemberships s cf =
     (let s = f64_max f64_0 (f64_min f64_1 s);
          ts = pc_StableThreshold cf; td = pc_DegradedThreshold cf; tu = pc_UntrustedThreshold cf
      in (trapezoidUp s td ts,
          trapezoidTri s tu (f64_div (f64_add td tu) (lit 2)) ts,
          trapezoidTri s f64_0 (f64_div (f64_add tu f64_0) (lit 2)) td,
          trapezoidDown s f64_0 tu))"

definition state_names :: "string list" where
  "state_names = [''Stable'', ''Degraded'', ''Untrusted'', ''Collapse'']"

text \<open>The first index of the greatest value, as the loop picks it.\<close>

definition best_state :: "vec4 \<Rightarrow> nat" where
  "best_state v = foldl (\<lambda>b i. if f64_gt (v ! i) (v ! b) then i else b) 0 [1..<4]"

definition determineCurrentState :: "vec4 \<Rightarrow> string \<times> vec4" where
  "determineCurrentState ms =
     (let sum = foldl f64_add f64_0 ms;
          v = (if f64_gt sum (lit (1 / 10 ^ 12)) then map (\<lambda>m. round_to 10000 (f64_div m sum)) ms else [f64_1, f64_0, f64_0, f64_0])
      in (state_names ! best_state v, v))"

definition ComputeSemanticState :: "AssetRiskResult option \<Rightarrow> PrismConfig \<Rightarrow> SemanticRiskReport option" where
  "ComputeSemanticState core cf =
     map_option (\<lambda>core.
       let (stable, degraded, untrusted, collapse) = computeMemberships (f64_div (ar_PrismScore core) (lit 100)) cf;
           (st, v) = determineCurrentState [stable, degraded, untrusted, collapse]
       in \<lparr>sr_HostID = ar_HostID core, sr_StableMembership = stable, sr_DegradedMembership = degraded,
           sr_UntrustedMembership = untrusted, sr_CollapseMembership = collapse, sr_CurrentState = st, sr_StateVector = v,
           sr_InputConfidence = normalizeNodeConfidence (ar_Confidence core)\<rparr>) core"

definition ComputeSemanticBatch :: "AssetRiskResult option list \<Rightarrow> PrismConfig \<Rightarrow> SemanticRiskReport option list" where
  "ComputeSemanticBatch results cf = map (\<lambda>r. ComputeSemanticState r cf) (filter (\<lambda>r. r \<noteq> None) results)"

section \<open>The inference layer\<close>

definition MarkovDefaultTransition :: mat4 where
  "MarkovDefaultTransition =
     [[lit (95 / 100), lit (4 / 100), lit (1 / 100), f64_0],
      [lit (2 / 100), lit (90 / 100), lit (7 / 100), lit (1 / 100)],
      [f64_0, lit (3 / 100), lit (85 / 100), lit (12 / 100)],
      [f64_0, f64_0, lit (5 / 100), lit (95 / 100)]]"

definition dot4 :: "(nat \<Rightarrow> f64) \<Rightarrow> (nat \<Rightarrow> f64) \<Rightarrow> f64" where
  "dot4 f g = foldl (\<lambda>s i. f64_add s (f64_mul (f i) (g i))) f64_0 [0..<4]"

definition matMulVec4 :: "vec4 \<Rightarrow> mat4 \<Rightarrow> vec4" where
  "matMulVec4 v m = map (\<lambda>j. dot4 (\<lambda>i. v ! i) (\<lambda>i. m ! i ! j)) [0..<4]"

definition mat_mul :: "mat4 \<Rightarrow> mat4 \<Rightarrow> mat4" where
  "mat_mul a b = map (\<lambda>i. map (\<lambda>j. dot4 (\<lambda>k. a ! i ! k) (\<lambda>k. b ! k ! j)) [0..<4]) [0..<4]"

definition identity4 :: mat4 where
  "identity4 = map (\<lambda>i. map (\<lambda>j. if i = j then f64_1 else f64_0) [0..<4]) [0..<4]"

function mat_pow_loop :: "mat4 \<Rightarrow> mat4 \<Rightarrow> int \<Rightarrow> mat4" where
  "mat_pow_loop result base n =
     (if n \<le> 0 then result
      else mat_pow_loop (if odd n then mat_mul result base else result) (mat_mul base base) (n div 2))"
  by pat_completeness auto
termination
  by (relation "measure (\<lambda>(r, b, n). nat n)") auto

declare mat_pow_loop.simps [simp del]

definition matPow :: "mat4 \<Rightarrow> int \<Rightarrow> mat4" where
  "matPow m steps = mat_pow_loop identity4 m steps"

text \<open>\<open>- \<Sigma> p log2 p\<close> over the entries above \<open>1e-12\<close>.\<close>

definition entropy4 :: "(f64 \<Rightarrow> f64) \<Rightarrow> vec4 \<Rightarrow> f64" where
  "entropy4 lg v = foldl (\<lambda>e p. if f64_gt p (lit (1 / 10 ^ 12)) then f64_sub e (f64_mul p (lg p)) else e) f64_0 v"

definition horizon_decay :: "int \<Rightarrow> f64" where
  "horizon_decay steps = f64_div f64_1 (f64_add f64_1 (f64_mul (f64_of_int steps) (lit (2 / 100))))"

definition markov_Predict :: "(f64 \<Rightarrow> f64) \<Rightarrow> mat4 \<Rightarrow> vec4 \<Rightarrow> int \<Rightarrow> vec4 \<times> f64" where
  "markov_Predict lg transition current steps =
     (if steps \<le> 0 then (current, f64_1)
      else let future = matMulVec4 current (matPow transition steps);
               entropyConf = f64_sub f64_1 (f64_div (entropy4 lg future) (lg (lit 4)));
               concentration = f64_sqrt (foldl (\<lambda>c p. f64_add c (f64_mul p p)) f64_0 current);
               confidence = f64_mul (f64_mul entropyConf (horizon_decay steps)) concentration
           in (future, f64_max f64_0 (f64_min f64_1 confidence)))"

definition isZeroMatrix :: "mat4 \<Rightarrow> bool" where
  "isZeroMatrix m = list_all (list_all (\<lambda>x. f64_eq x f64_0)) m"

definition NewMarkovChainModel :: "(f64 \<Rightarrow> f64) \<Rightarrow> mat4 \<Rightarrow> InferenceModel" where
  "NewMarkovChainModel lg transition =
     \<lparr>im_Predict = markov_Predict lg (if isZeroMatrix transition then MarkovDefaultTransition else transition),
      im_Name = ''MarkovChain''\<rparr>"

definition DefaultInferenceModel :: "(f64 \<Rightarrow> f64) \<Rightarrow> InferenceModel" where
  "DefaultInferenceModel lg = NewMarkovChainModel lg MarkovDefaultTransition"

text \<open>The Bayesian model: the rows for good and bad news of each state, normalised.\<close>

definition cpt_row :: "nat \<Rightarrow> bool \<Rightarrow> vec4" where
  "cpt_row st bad =
     (let raw = map (\<lambda>j. let p = MarkovDefaultTransition ! st ! j
                         in if bad then f64_mul p (if j \<ge> st then lit (13 / 10) else lit (3 / 10))
                            else f64_mul p (if j \<le> st then lit (12 / 10) else lit (5 / 10))) [0..<4];
          sum = foldl f64_add f64_0 raw
      in if f64_gt sum f64_0 then map (\<lambda>x. f64_div x sum) raw else raw)"

definition bayes_next :: "f64 \<Rightarrow> vec4 \<Rightarrow> vec4" where
  "bayes_next w posterior =
     map (\<lambda>j. dot4 (\<lambda>i. posterior ! i)
        (\<lambda>i. f64_add (f64_mul (f64_sub f64_1 w) (cpt_row i False ! j)) (f64_mul w (cpt_row i True ! j)))) [0..<4]"

definition bayes_Predict :: "(f64 \<Rightarrow> f64) \<Rightarrow> vec4 \<Rightarrow> int \<Rightarrow> vec4 \<times> f64" where
  "bayes_Predict lg current steps =
     (if steps \<le> 0 then (current, f64_1)
      else let w = f64_add (f64_mul (current ! 2) (lit (1 / 2))) (f64_mul (current ! 3) (lit (8 / 10)));
               posterior = (bayes_next w ^^ nat steps) current;
               gain = f64_div (f64_sub (entropy4 lg current) (entropy4 lg posterior)) (lg (lit 4));
               confidence = f64_mul (f64_div (f64_add gain f64_1) (lit 2)) (horizon_decay steps)
           in (posterior, f64_max f64_0 (f64_min f64_1 confidence)))"

definition NewBayesModel :: "(f64 \<Rightarrow> f64) \<Rightarrow> InferenceModel" where
  "NewBayesModel lg = \<lparr>im_Predict = bayes_Predict lg, im_Name = ''BayesNet''\<rparr>"

definition determineTrend :: "vec4 \<Rightarrow> vec4 \<Rightarrow> string" where
  "determineTrend current future =
     (if f64_gt (current ! 3) (lit (3 / 10)) \<and> f64_gt (future ! 3) (lit (3 / 10)) then ''collapsing''
      else if f64_gt (f64_sub (future ! 3) (current ! 3)) (lit (1 / 10)) then ''collapsing''
      else let weights = [lit 3, lit 2, lit 1, f64_0];
               delta = f64_sub (dot4 (\<lambda>i. future ! i) (\<lambda>i. weights ! i)) (dot4 (\<lambda>i. current ! i) (\<lambda>i. weights ! i))
           in if f64_gt delta (lit (3 / 100)) then ''improving''
              else if f64_lt delta (lit (- (3 / 100))) then ''degrading'' else ''stable'')"

definition PredictFuture ::
    "(f64 \<Rightarrow> f64) \<Rightarrow> SemanticRiskReport option \<Rightarrow> InferenceModel option \<Rightarrow> PrismConfig \<Rightarrow> FutureRiskReport option" where
  "PredictFuture lg semantic model cf =
     map_option (\<lambda>sem.
       let m = (case model of None \<Rightarrow> DefaultInferenceModel lg | Some m \<Rightarrow> m);
           steps = (if pc_HorizonDays cf \<le> 0 then 7 else pc_HorizonDays cf);
           (future, confidence) = im_Predict m (sr_StateVector sem) steps;
           inputConf = normalizeNodeConfidence (sr_InputConfidence sem);
           confidence = (if f64_lt inputConf confidence then inputConf else confidence)
       in \<lparr>fr_HostID = sr_HostID sem, fr_HorizonDays = steps, fr_StableProb = round_to 10000 (future ! 0),
           fr_DegradedProb = round_to 10000 (future ! 1), fr_UntrustedProb = round_to 10000 (future ! 2),
           fr_CollapseProb = round_to 10000 (future ! 3), fr_Confidence = round_to 10000 confidence,
           fr_Trend = determineTrend (sr_StateVector sem) future,
           fr_CollapseRisk = round_to 10000 (f64_add (future ! 2) (future ! 3))\<rparr>) semantic"

definition PredictFutureBatch ::
    "(f64 \<Rightarrow> f64) \<Rightarrow> SemanticRiskReport option list \<Rightarrow> InferenceModel option \<Rightarrow> PrismConfig \<Rightarrow> FutureRiskReport option list" where
  "PredictFutureBatch lg reports model cf = map (\<lambda>r. PredictFuture lg r model cf) (filter (\<lambda>r. r \<noteq> None) reports)"

section \<open>The interchange record\<close>

record PrismIRMeta =
  pm_Version :: string
  pm_Engine :: string
  pm_Timestamp :: string
  pm_HorizonDays :: int

record IRCheckFailure =
  ic_CheckID :: string
  ic_Delta :: f64
  ic_FailAt :: int

record IRPrismConfig =
  ip_DebtAlpha :: f64
  ip_PropCap :: f64
  ip_DebtCap :: f64
  ip_DebtNormDays :: f64
  ip_ScoreFloor :: f64
  ip_MaxPathDepth :: int

record PrismIRInput =
  pi_HostID :: string
  pi_SSAMScore :: f64
  pi_FailedChecks :: "IRCheckFailure list"
  pi_PropagationEdges :: "EdgeState list"
  pi_Config :: IRPrismConfig

record IRCoreLayer =
  il_PrismScore :: f64
  il_ExternalRisk :: f64
  il_PropagatedRisk :: f64
  il_PropPenalty :: f64
  il_DebtRaw :: f64
  il_DebtPenalty :: f64
  il_CollapseModifier :: f64
  il_RiskVelocity :: f64

record IRSemanticLayer =
  is_StateVector :: vec4
  is_DominantState :: string
  is_Membership :: "f64 \<times> f64 \<times> f64 \<times> f64"

record IRInferenceLayer =
  if_HorizonDays :: int
  if_FutureVector :: vec4
  if_Confidence :: f64
  if_Trend :: string
  if_CollapseRisk :: f64
  if_Model :: string

record PrismIR =
  pr_Version :: string
  pr_Meta :: PrismIRMeta
  pr_Input :: PrismIRInput
  pr_Core :: IRCoreLayer
  pr_Semantic :: IRSemanticLayer
  pr_Inference :: IRInferenceLayer

definition prism_NewIR ::
    "string \<Rightarrow> NodeState \<Rightarrow> EdgeState list \<Rightarrow> PrismConfig \<Rightarrow> AssetRiskResult \<Rightarrow> SemanticRiskReport \<Rightarrow> FutureRiskReport \<Rightarrow> string \<Rightarrow> PrismIR" where
  "prism_NewIR now node edges cf core sem fut modelName =
     \<lparr>pr_Version = ''1.0'',
      pr_Meta = \<lparr>pm_Version = ''1.0'', pm_Engine = ''prism'', pm_Timestamp = now, pm_HorizonDays = fr_HorizonDays fut\<rparr>,
      pr_Input = \<lparr>pi_HostID = ns_HostID node, pi_SSAMScore = ns_SSAMScore node,
        pi_FailedChecks = map (\<lambda>f. \<lparr>ic_CheckID = cf_CheckID f, ic_Delta = cf_Delta f, ic_FailAt = cf_FailUnix f\<rparr>) (ns_FailedChecks node),
        pi_PropagationEdges = edges,
        pi_Config = \<lparr>ip_DebtAlpha = pc_DebtAlpha cf, ip_PropCap = pc_PropCap cf, ip_DebtCap = pc_DebtCap cf,
          ip_DebtNormDays = pc_DebtNormDays cf, ip_ScoreFloor = pc_ScoreFloor cf, ip_MaxPathDepth = pc_MaxPathDepth cf\<rparr>\<rparr>,
      pr_Core = \<lparr>il_PrismScore = ar_PrismScore core, il_ExternalRisk = ar_ExternalRisk core, il_PropagatedRisk = ar_PropagatedRisk core,
        il_PropPenalty = ar_PropPenalty core, il_DebtRaw = ar_DebtRaw core, il_DebtPenalty = ar_DebtPenalty core,
        il_CollapseModifier = ar_CollapseModifier core, il_RiskVelocity = ar_RiskVelocity core\<rparr>,
      pr_Semantic = \<lparr>is_StateVector = sr_StateVector sem, is_DominantState = sr_CurrentState sem,
        is_Membership = (sr_StableMembership sem, sr_DegradedMembership sem, sr_UntrustedMembership sem, sr_CollapseMembership sem)\<rparr>,
      pr_Inference = \<lparr>if_HorizonDays = fr_HorizonDays fut,
        if_FutureVector = [fr_StableProb fut, fr_DegradedProb fut, fr_UntrustedProb fut, fr_CollapseProb fut],
        if_Confidence = fr_Confidence fut, if_Trend = fr_Trend fut, if_CollapseRisk = fr_CollapseRisk fut, if_Model = modelName\<rparr>\<rparr>"

definition trend_names :: "string list" where
  "trend_names = [''improving'', ''stable'', ''degrading'', ''collapsing'']"

definition prism_Validate :: "(f64 \<Rightarrow> string) \<Rightarrow> (string \<Rightarrow> string) \<Rightarrow> PrismIR \<Rightarrow> string option" where
  "prism_Validate showf quote ir =
     (let out = (\<lambda>x. f64_lt x f64_0 \<or> f64_gt x (lit 100)); ssam = pi_SSAMScore (pr_Input ir); score = il_PrismScore (pr_Core ir);
          dominant = is_DominantState (pr_Semantic ir); trend = if_Trend (pr_Inference ir)
      in if pr_Version ir = [] then Some ''prismir: prismir_version must not be empty''
         else if pm_Version (pr_Meta ir) = [] then Some ''prismir: meta.version must not be empty''
         else if pm_Engine (pr_Meta ir) = [] then Some ''prismir: meta.engine must not be empty''
         else if pm_Timestamp (pr_Meta ir) = [] then Some ''prismir: meta.timestamp must not be empty''
         else if pm_HorizonDays (pr_Meta ir) \<le> 0 then Some (''prismir: meta.horizon_days must be positive, got '' @ itoa (pm_HorizonDays (pr_Meta ir)))
         else if pi_HostID (pr_Input ir) = [] then Some ''prismir: input.host_id must not be empty''
         else if out ssam then Some (''prismir: input.ssam_score must be in [0, 100], got '' @ showf ssam)
         else if out score then Some (''prismir: output.core.prism_score must be in [0, 100], got '' @ showf score)
         else if dominant = [] then Some ''prismir: output.semantic.dominant_state must not be empty''
         else if dominant \<notin> set state_names
         then Some (''prismir: output.semantic.dominant_state must be one of Stable/Degraded/Untrusted/Collapse, got '' @ quote dominant)
         else if trend \<notin> set trend_names
         then Some (''prismir: output.inference.trend must be one of improving/stable/degrading/collapsing, got '' @ quote trend)
         else if if_Model (pr_Inference ir) = [] then Some ''prismir: output.inference.model must not be empty''
         else None)"

section \<open>The range of the semantic layer\<close>

definition sane_thresholds :: "PrismConfig \<Rightarrow> bool" where
  "sane_thresholds cf \<longleftrightarrow>
     btw 0 1 (pc_StableThreshold cf) \<and> btw 0 1 (pc_DegradedThreshold cf) \<and> btw 0 1 (pc_UntrustedThreshold cf) \<and>
     f64_le (pc_UntrustedThreshold cf) (pc_DegradedThreshold cf) \<and> f64_le (pc_DegradedThreshold cf) (pc_StableThreshold cf)"

lemma trapezoidUp_btw: "btw 0 1 x \<Longrightarrow> btw 0 1 lo \<Longrightarrow> btw 0 1 up \<Longrightarrow> btw 0 1 (trapezoidUp x lo up)"
proof -
  assume b: "btw 0 1 x" "btw 0 1 lo" "btw 0 1 up"
  obtain a l u where v: "x = Fin a" "lo = Fin l" "up = Fin u" using btwD [OF b(1)] btwD [OF b(2)] btwD [OF b(3)] by blast
  show ?thesis
  proof (cases "l < a \<and> a < u")
    case True
    then show ?thesis using ratio_btw [of l a l u] b by (simp add: trapezoidUp_def v not_le)
  next
    case False
    then show ?thesis using b by (auto simp: trapezoidUp_def v)
  qed
qed

lemma trapezoidDown_btw: "btw 0 1 x \<Longrightarrow> btw 0 1 lo \<Longrightarrow> btw 0 1 up \<Longrightarrow> btw 0 1 (trapezoidDown x lo up)"
proof -
  assume b: "btw 0 1 x" "btw 0 1 lo" "btw 0 1 up"
  obtain a l u where v: "x = Fin a" "lo = Fin l" "up = Fin u" using btwD [OF b(1)] btwD [OF b(2)] btwD [OF b(3)] by blast
  show ?thesis
  proof (cases "l < a \<and> a < u")
    case True
    then show ?thesis using ratio_btw [of a u l u] b by (simp add: trapezoidDown_def v not_le)
  next
    case False
    then show ?thesis using b by (auto simp: trapezoidDown_def v)
  qed
qed

lemma trapezoidTri_btw: "btw 0 1 x \<Longrightarrow> btw 0 1 lo \<Longrightarrow> btw 0 1 c \<Longrightarrow> btw 0 1 up \<Longrightarrow> btw 0 1 (trapezoidTri x lo c up)"
proof -
  assume b: "btw 0 1 x" "btw 0 1 lo" "btw 0 1 c" "btw 0 1 up"
  obtain a l m u where v: "x = Fin a" "lo = Fin l" "c = Fin m" "up = Fin u"
    using btwD [OF b(1)] btwD [OF b(2)] btwD [OF b(3)] btwD [OF b(4)] by blast
  consider "a \<le> l \<or> u \<le> a" | "l < a" "a < u" "a \<le> m" | "l < a" "a < u" "m < a" by linarith
  then show ?thesis
  proof cases
    case 1
    then show ?thesis by (simp add: trapezoidTri_def v)
  next
    case 2
    then show ?thesis using ratio_btw [of l a l m] b by (simp add: trapezoidTri_def v not_le)
  next
    case 3
    then show ?thesis using ratio_btw [of a u m u] b by (simp add: trapezoidTri_def v not_le)
  qed
qed

lemma mid_btw: "btw 0 1 a \<Longrightarrow> btw 0 1 b \<Longrightarrow> btw 0 1 (f64_div (f64_add a b) (lit 2))"
  using btw_add [of 0 1 a 0 1 b] btw_div [of 0 2 1] by simp

lemma memberships_btw:
  assumes "sane_thresholds cf" "computeMemberships s cf = (w, x, y, z)" "btw 0 1 s"
  shows "btw 0 1 w \<and> btw 0 1 x \<and> btw 0 1 y \<and> btw 0 1 z"
proof -
  define s' where "s' = f64_max f64_0 (f64_min f64_1 s)"
  have s: "btw 0 1 s'"
    unfolding s'_def by (intro f64_max_btw f64_min_btw) (use assms(3) btw_nonneg btw_wf in auto)
  have t: "btw 0 1 (pc_StableThreshold cf)" "btw 0 1 (pc_DegradedThreshold cf)" "btw 0 1 (pc_UntrustedThreshold cf)" "btw 0 1 f64_0"
    using assms(1) by (simp_all add: sane_thresholds_def)
  have "w = trapezoidUp s' (pc_DegradedThreshold cf) (pc_StableThreshold cf)"
    "x = trapezoidTri s' (pc_UntrustedThreshold cf) (f64_div (f64_add (pc_DegradedThreshold cf) (pc_UntrustedThreshold cf)) (lit 2)) (pc_StableThreshold cf)"
    "y = trapezoidTri s' f64_0 (f64_div (f64_add (pc_UntrustedThreshold cf) f64_0) (lit 2)) (pc_DegradedThreshold cf)"
    "z = trapezoidDown s' f64_0 (pc_UntrustedThreshold cf)"
    using assms(2) by (simp_all only: computeMemberships_def s'_def Let_def prod.inject)
  then show ?thesis
    by (simp only: trapezoidUp_btw [OF s t(2,1)] trapezoidTri_btw [OF s t(3) mid_btw [OF t(2,3)] t(1)]
        trapezoidTri_btw [OF s t(4) mid_btw [OF t(3,4)] t(2)] trapezoidDown_btw [OF s t(4,3)])
qed

lemma sum4_btw:
  assumes "\<forall>m\<in>set ms. btw 0 1 m" "length ms \<le> 2 ^ 20"
  shows "btw 0 (2 ^ 20) (foldl f64_add f64_0 ms) \<and> (\<forall>m\<in>set ms. f64_le m (foldl f64_add f64_0 ms))"
proof
  show b: "btw 0 (2 ^ 20) (foldl f64_add f64_0 ms)"
    using sum_fold_bound [of ms 0 "\<lambda>x. x"] assms by simp
  have "\<forall>m\<in>set ms. f64_le m (foldl f64_add f64_0 ms)"
    using assms
  proof (induction ms rule: rev_induct)
    case (snoc y ys)
    have b: "btw 0 (2 ^ 20) (foldl f64_add f64_0 ys)" using sum_fold_bound [of ys 0 "\<lambda>x. x"] snoc.prems by simp
    obtain u v where uv: "foldl f64_add f64_0 ys = Fin u" "0 \<le> u" "rep u" "y = Fin v" "0 \<le> v" "rep v"
      using btwD [OF b] btwD [of 0 1 y] snoc.prems(1) by fastforce
    have "f64_le (f64_of_rat u) (f64_of_rat (u + v))" "f64_le (f64_of_rat v) (f64_of_rat (u + v))"
      using uv by (intro f64_of_rat_mono; simp)+
    then have le: "f64_le (Fin u) (foldl f64_add f64_0 (ys @ [y]))" "f64_le y (foldl f64_add f64_0 (ys @ [y]))"
      using uv by simp_all
    show ?case
    proof
      fix m
      assume "m \<in> set (ys @ [y])"
      then consider "m = y" | "m \<in> set ys" by auto
      then show "f64_le m (foldl f64_add f64_0 (ys @ [y]))"
      proof cases
        case 2
        then have "f64_le m (Fin u)" using snoc uv(1) by simp
        then show ?thesis using le(1) f64_le_trans by blast
      qed (use le in simp)
    qed
  qed simp
  then show "\<forall>m\<in>set ms. f64_le m (foldl f64_add f64_0 ms)" .
qed

lemma upt4 [simp]: "[0..<4] = [0, 1, 2, 3 :: nat]" "[Suc 0..<4] = [1, 2, 3 :: nat]"
  by (simp_all add: upt_rec)

lemma best_state_max:
  assumes "length v = 4" "\<forall>x\<in>set v. btw 0 1 x"
  shows "best_state v < 4 \<and> (\<forall>x\<in>set v. f64_le x (v ! best_state v))"
proof -
  obtain a b c d where v: "v = [a, b, c, d]" using assms(1) by (auto simp: numeral_eq_Suc length_Suc_conv)
  obtain p q r s where f: "a = Fin p" "b = Fin q" "c = Fin r" "d = Fin s"
    using btwD [of 0 1 a] btwD [of 0 1 b] btwD [of 0 1 c] btwD [of 0 1 d] assms(2) v by auto
  show ?thesis unfolding v f by (simp add: best_state_def)
qed

lemma determineCurrentState_good:
  assumes "length ms = 4" "\<forall>m\<in>set ms. btw 0 1 m" "determineCurrentState ms = (st, v)"
  shows "length v = 4 \<and> (\<forall>x\<in>set v. btw 0 1 x) \<and> best_state v < 4 \<and> st = state_names ! best_state v \<and> (\<forall>x\<in>set v. f64_le x (v ! best_state v))"
proof -
  define sm where "sm = foldl f64_add f64_0 ms"
  have sm: "btw 0 (2 ^ 20) sm" "\<forall>m\<in>set ms. f64_le m sm"
    using sum4_btw [OF assms(2)] assms(1) by (simp_all add: sm_def)
  obtain k where k: "sm = Fin k" "0 \<le> k" using btwD [OF sm(1)] by blast
  have v: "v = (if f64_gt sm (lit (1 / 10 ^ 12)) then map (\<lambda>m. round_to 10000 (f64_div m sm)) ms else [f64_1, f64_0, f64_0, f64_0])"
    and st: "st = state_names ! best_state v"
    using assms(3) by (auto simp only: determineCurrentState_def sm_def Let_def prod.inject)
  have unit: "btw 0 1 (round_to 10000 (f64_div m sm))" if "m \<in> set ms" "f64_gt sm (lit (1 / 10 ^ 12))" for m
  proof (rule round_to_btw [of _ _ _ 10000 10000])
    have "f64_le f64_0 (lit (1 / 10 ^ 12))" by (rule f64_of_rat_nonneg) simp
    then have "0 < k" using that(2) k by (cases "lit (1 / 10 ^ 12)") (auto simp: f64_lt_def)
    moreover have "\<forall>u. m = Fin u \<longrightarrow> u \<le> k" using sm(2) that(1) k(1) by fastforce
    ultimately show "btw 0 1 (f64_div m sm)" using btw_div_le [of 1 m sm k] assms(2) that(1) k(1) by blast
  qed simp_all
  have "length v = 4 \<and> (\<forall>x\<in>set v. btw 0 1 x)" using assms(1) unit by (auto simp: v)
  then show ?thesis using best_state_max st by blast
qed

text \<open>What a semantic report promises: memberships in the unit interval and the name of a state no other one exceeds.\<close>

definition good_report :: "SemanticRiskReport \<Rightarrow> bool" where
  "good_report r \<longleftrightarrow>
     list_all (btw 0 1) [sr_StableMembership r, sr_DegradedMembership r, sr_UntrustedMembership r, sr_CollapseMembership r] \<and>
     length (sr_StateVector r) = 4 \<and> list_all (btw 0 1) (sr_StateVector r) \<and> btw 0 1 (sr_InputConfidence r) \<and>
     (\<exists>i<4. sr_CurrentState r = state_names ! i \<and> list_all (\<lambda>x. f64_le x (sr_StateVector r ! i)) (sr_StateVector r))"

lemma good_asset_norm: "good_asset a \<Longrightarrow> btw 0 1 (f64_div (ar_PrismScore a) (lit 100))"
  using btw_div [of 0 100 1 "ar_PrismScore a"] by (simp add: good_asset_def)

lemma ComputeSemanticState_good:
  assumes "good_asset core" "sane_thresholds cf" "ComputeSemanticState (Some core) cf = Some r"
  shows "good_report r"
proof -
  obtain w x y z where m: "computeMemberships (f64_div (ar_PrismScore core) (lit 100)) cf = (w, x, y, z)" using prod_cases4 by blast
  obtain st v where d: "determineCurrentState [w, x, y, z] = (st, v)" by fastforce
  have b: "btw 0 1 w \<and> btw 0 1 x \<and> btw 0 1 y \<and> btw 0 1 z" by (rule memberships_btw [OF assms(2) m good_asset_norm [OF assms(1)]])
  have v: "length v = 4 \<and> (\<forall>x\<in>set v. btw 0 1 x) \<and> best_state v < 4 \<and> st = state_names ! best_state v \<and> (\<forall>x\<in>set v. f64_le x (v ! best_state v))"
    by (rule determineCurrentState_good [OF _ _ d]) (use b in auto)
  have "r = \<lparr>sr_HostID = ar_HostID core, sr_StableMembership = w, sr_DegradedMembership = x, sr_UntrustedMembership = y,
      sr_CollapseMembership = z, sr_CurrentState = st, sr_StateVector = v, sr_InputConfidence = normalizeNodeConfidence (ar_Confidence core)\<rparr>"
    using assms(3) m by (simp add: ComputeSemanticState_def d [simplified])
  moreover have "btw 0 1 (unit_or_one (ar_Confidence core))"
    using assms(1) btw_wf by (intro unit_or_one_btw) (auto simp: good_asset_def)
  ultimately show ?thesis using b v by (auto simp: good_report_def normalizeNodeConfidence_def list_all_iff)
qed

text \<open>The semantic layer turns every core result in range into a well-formed report: all memberships and the whole
  state vector lie in the unit interval, and the state it names has the greatest entry of the vector, for every choice
  of ordered thresholds.\<close>

theorem semantic_report_well_formed:
  assumes "good_asset core" and "sane_thresholds cf" and "ComputeSemanticState (Some core) cf = Some r"
  shows "good_report r"
  by (rule ComputeSemanticState_good [OF assms])

definition demo_asset :: AssetRiskResult where
  "demo_asset = ComputeDynamicScore demo_pow demo_node [] Map.empty prism_DefaultConfig 0"

lemma demo_asset_good: "good_asset demo_asset"
  unfolding demo_asset_def by (rule ComputeDynamicScore_good [OF demo_pow_ok demo_config_sane demo_node_sane]) simp_all

lemma demo_thresholds: "sane_thresholds prism_DefaultConfig"
  unfolding sane_thresholds_def prism_DefaultConfig_def
  using f64_of_rat_mono [of "50 / 100" "70 / 100"] f64_of_rat_mono [of "70 / 100" "90 / 100"] by (simp add: btw_of_rat)

theorem semantic_report_well_formed_witness:
  "\<exists>r. ComputeSemanticState (Some demo_asset) prism_DefaultConfig = Some r \<and> good_report r"
proof -
  obtain r where r: "ComputeSemanticState (Some demo_asset) prism_DefaultConfig = Some r" by (simp add: ComputeSemanticState_def)
  from semantic_report_well_formed [OF demo_asset_good demo_thresholds r] r show ?thesis by blast
qed

section \<open>The evidence caps the prediction\<close>

lemma f64_of_rat_extremes: "f64_le (f64_of_rat x) PInf" "f64_le NInf (f64_of_rat x)"
  by (simp_all add: f64_of_rat_def Let_def)

lemma f64_scale_mono:
  assumes "f64_le a b" "0 < k"
  shows "f64_le (f64_mul a (Fin k)) (f64_mul b (Fin k))" "f64_le (f64_div a (Fin k)) (f64_div b (Fin k))"
proof -
  have m: "f64_le (f64_of_rat (x * k)) (f64_of_rat (y * k))" "f64_le (f64_of_rat (x / k)) (f64_of_rat (y / k))" if "x \<le> y" for x y
    using that assms(2) by (simp_all add: f64_of_rat_mono mult_right_mono divide_right_mono)
  have k: "k \<noteq> 0" "\<not> k < 0" "0 < k" using assms(2) by simp_all
  show "f64_le (f64_mul a (Fin k)) (f64_mul b (Fin k))"
    using assms(1) k by (cases a; cases b) (simp_all add: inf_times_def m f64_of_rat_extremes)
  show "f64_le (f64_div a (Fin k)) (f64_div b (Fin k))"
    using assms(1) k by (cases a; cases b) (simp_all add: m f64_of_rat_extremes)
qed

lemma round_to_mono: "f64_le a b \<Longrightarrow> lit k = Fin k \<Longrightarrow> 0 < k \<Longrightarrow> f64_le (round_to k a) (round_to k b)"
  by (simp add: round_to_def f64_scale_mono f64_round_mono)

text \<open>The weakest link. Whatever model is plugged in, the reported confidence never exceeds the confidence of the
  evidence (unless the model answers NaN), and the evidence changes nothing else: against full evidence the
  probabilities, the trend and the collapse risk are the same.\<close>

theorem evidence_caps_prediction:
  assumes "PredictFuture lg (Some sem) model cf = Some r"
    and "PredictFuture lg (Some (sem\<lparr>sr_InputConfidence := f64_1\<rparr>)) model cf = Some full"
  shows "r\<lparr>fr_Confidence := f64_0\<rparr> = full\<lparr>fr_Confidence := f64_0\<rparr> \<and>
         (fr_Confidence r = NaN \<or> sr_InputConfidence sem = NaN \<or>
          f64_le (fr_Confidence r) (round_to 10000 (normalizeNodeConfidence (sr_InputConfidence sem))))"
proof -
  define m where "m = (case model of None \<Rightarrow> DefaultInferenceModel lg | Some m \<Rightarrow> m)"
  define steps where "steps = (if pc_HorizonDays cf \<le> 0 then 7 else pc_HorizonDays cf)"
  obtain future c where p: "im_Predict m (sr_StateVector sem) steps = (future, c)" by fastforce
  define i where "i = normalizeNodeConfidence (sr_InputConfidence sem)"
  define c' where "c' = (if f64_lt i c then i else c)"
  have r: "fr_Confidence r = round_to 10000 c'"
    using assms(1) p by (auto simp: PredictFuture_def Let_def m_def steps_def i_def c'_def)
  have same: "r\<lparr>fr_Confidence := f64_0\<rparr> = full\<lparr>fr_Confidence := f64_0\<rparr>"
    using assms p by (auto simp: PredictFuture_def Let_def m_def steps_def)
  have "c' = NaN \<or> i = NaN \<or> f64_le c' i" by (cases c; cases i) (auto simp: c'_def f64_lt_def)
  moreover have "i = NaN \<Longrightarrow> sr_InputConfidence sem = NaN"
    by (cases "sr_InputConfidence sem") (auto simp: i_def normalizeNodeConfidence_def unit_or_one_def f64_lt_def split: if_splits)
  moreover have "round_to 10000 NaN = NaN" by (simp add: round_to_def)
  ultimately show ?thesis using same round_to_mono [of c' i 10000] by (auto simp: r i_def)
qed

definition demo_model :: InferenceModel where
  "demo_model = \<lparr>im_Predict = (\<lambda>v steps. (v, PInf)), im_Name = ''demo''\<rparr>"

definition demo_report :: SemanticRiskReport where
  "demo_report =
     \<lparr>sr_HostID = ''a'', sr_StableMembership = f64_1, sr_DegradedMembership = f64_0, sr_UntrustedMembership = f64_0,
      sr_CollapseMembership = f64_0, sr_CurrentState = ''Stable'', sr_StateVector = [f64_1, f64_0, f64_0, f64_0],
      sr_InputConfidence = Fin (1 / 2)\<rparr>"

lemma PredictFuture_Some: "\<exists>r. PredictFuture lg (Some sem) model cf = Some r"
  by (simp add: PredictFuture_def)

theorem evidence_caps_prediction_witness:
  "\<exists>r full. PredictFuture (\<lambda>x. f64_0) (Some demo_report) (Some demo_model) prism_DefaultConfig = Some r \<and>
     r\<lparr>fr_Confidence := f64_0\<rparr> = full\<lparr>fr_Confidence := f64_0\<rparr> \<and>
     (fr_Confidence r = NaN \<or> sr_InputConfidence demo_report = NaN \<or>
      f64_le (fr_Confidence r) (round_to 10000 (normalizeNodeConfidence (sr_InputConfidence demo_report))))"
proof -
  obtain r where r: "PredictFuture (\<lambda>x. f64_0) (Some demo_report) (Some demo_model) prism_DefaultConfig = Some r"
    using PredictFuture_Some by blast
  obtain full where full: "PredictFuture (\<lambda>x. f64_0) (Some (demo_report\<lparr>sr_InputConfidence := f64_1\<rparr>)) (Some demo_model) prism_DefaultConfig = Some full"
    using PredictFuture_Some by blast
  from evidence_caps_prediction [OF r full] r show ?thesis by blast
qed

section \<open>The three layers together\<close>

lemma determineTrend_names: "determineTrend u v \<in> set trend_names"
  by (simp add: determineTrend_def trend_names_def Let_def)

text \<open>The three layers fit together: the record built from a node, its dynamic score, its semantic state and its
  prediction passes \<open>Validate\<close>, for every node and graph in range, every ordered thresholds and every named model.\<close>

theorem pipeline_record_validates:
  assumes "pow_ok pw" and "sane_prism_config cf" and "sane_thresholds cf" and "sane_node node" and "list_all sane_edge edges"
    and "\<forall>n\<in>ran nodes. sane_node n" and "ns_HostID node \<noteq> []" and "now \<noteq> []" and "modelName \<noteq> []"
    and "core = ComputeDynamicScore pw node edges nodes cf t"
    and "ComputeSemanticState (Some core) cf = Some sem" and "PredictFuture lg (Some sem) model cf = Some fut"
  shows "prism_Validate showf quote (prism_NewIR now node edges cf core sem fut modelName) = None"
proof -
  have core: "good_asset core" unfolding assms(10) by (rule ComputeDynamicScore_good [OF assms(1,2,4,5,6)])
  have "good_report sem" by (rule ComputeSemanticState_good [OF core assms(3,11)])
  then obtain i where "i < 4" "sr_CurrentState sem = state_names ! i" unfolding good_report_def by blast
  then have st: "sr_CurrentState sem \<in> set state_names" using nth_mem [of i state_names] by (simp add: state_names_def)
  then have st': "sr_CurrentState sem \<noteq> []" by (auto simp: state_names_def)
  have h: "0 < fr_HorizonDays fut" using assms(12) by (auto simp: PredictFuture_def Let_def split: prod.splits if_splits)
  have tr: "fr_Trend fut \<in> set trend_names" using assms(12) determineTrend_names by (auto simp: PredictFuture_def Let_def split: prod.splits)
  obtain x where x: "ns_SSAMScore node = Fin x" "0 \<le> x" "x \<le> 100" using btwD assms(4) unfolding sane_node_def by blast
  obtain y where y: "ar_PrismScore core = Fin y" "0 \<le> y" "y \<le> 100" using btwD core unfolding good_asset_def by blast
  show ?thesis
    unfolding prism_Validate_def prism_NewIR_def Let_def using assms(7-9) st st' h tr x y by simp
qed

theorem pipeline_record_validates_witness:
  "\<exists>sem fut. ComputeSemanticState (Some demo_asset) prism_DefaultConfig = Some sem \<and>
     PredictFuture (\<lambda>x. f64_0) (Some sem) None prism_DefaultConfig = Some fut \<and>
     prism_Validate (\<lambda>x. []) (\<lambda>x. x) (prism_NewIR ''now'' demo_node [] prism_DefaultConfig demo_asset sem fut ''MarkovChain'') = None"
proof -
  obtain sem where sem: "ComputeSemanticState (Some demo_asset) prism_DefaultConfig = Some sem" by (simp add: ComputeSemanticState_def)
  obtain fut where fut: "PredictFuture (\<lambda>x. f64_0) (Some sem) None prism_DefaultConfig = Some fut" using PredictFuture_Some by blast
  have "prism_Validate (\<lambda>x. []) (\<lambda>x. x) (prism_NewIR ''now'' demo_node [] prism_DefaultConfig demo_asset sem fut ''MarkovChain'') = None"
    by (rule pipeline_record_validates [OF demo_pow_ok demo_config_sane demo_thresholds demo_node_sane _ _ _ _ _ demo_asset_def sem fut])
      (simp_all add: demo_node_def)
  then show ?thesis using sem fut by blast
qed

text \<open>The documented memberships peak at the thresholds; the code's triangles peak half-way below them. At the
  untrusted threshold itself the documentation gives 1 and the code less.\<close>

definition half_config :: PrismConfig where
  "half_config = prism_DefaultConfig\<lparr>pc_StableThreshold := f64_1, pc_DegradedThreshold := Fin (3 / 4), pc_UntrustedThreshold := Fin (1 / 2)\<rparr>"

theorem degraded_peaks_below_threshold:
  "fst (snd (computeMemberships (Fin (3 / 4)) half_config)) = f64_of_rat (2 / 3)"
proof -
  have r: "rep (5 / 4)" "rep (5 / 8)" "rep (3 / 8)"
    using rep_small [of "5 / 4" 5 2] rep_small [of "5 / 8" 5 3] rep_small [of "3 / 8" 3 3] by simp_all
  show ?thesis using r
    by (simp add: computeMemberships_def half_config_def trapezoidTri_def trapezoidUp_def trapezoidDown_def f64_sub_def Let_def)
qed

end
