(* ===== verification/Edge_Factor.thy ===== *)
theory Edge_Factor
  imports Float64_Bounds
begin

text \<open>
  \<open>internal/edgefactor\<close>: the synthesis of the edge factors into a coefficient per domain (\<open>model.go\<close>, \<open>plan.go\<close>,
  \<open>synthesize.go\<close>). A loop over a Go map takes the iteration order of this run (\<open>map_orders\<close>); \<open>math.Exp\<close>,
  \<open>sort.Slice\<close>, \<open>json.Marshal\<close> and \<open>sha256.Sum256\<close> are the record \<open>synth_lib\<close>. An error is the constructor of its
  \<open>fmt.Errorf\<close> with the arguments.
\<close>

abbreviation ModelLegacy :: string where "ModelLegacy \<equiv> ''legacy''"
abbreviation ModelVector :: string where "ModelVector \<equiv> ''vector''"
abbreviation ModelGraph :: string where "ModelGraph \<equiv> ''graph''"
abbreviation ModelChain :: string where "ModelChain \<equiv> ''chain''"

record Params =
  p_Model :: string
  p_PFloor :: f64
  p_Lambda :: "string \<rightharpoonup> f64"
  p_Vectors :: "string \<rightharpoonup> (string \<rightharpoonup> f64)"
  p_Coupling :: "string \<rightharpoonup> (string \<rightharpoonup> f64)"
  p_ChainWindowSeconds :: int
  p_Factors :: "string \<rightharpoonup> f64"

definition DefaultDomains :: "string list" where
  "DefaultDomains = [''attack_surface'', ''business_continuity'', ''operation_trust'', ''resilience'', ''kernel_security'']"

datatype ef_error =
    UnknownModel string
  | FloorNotFinite f64
  | FloorOutOfRange f64
  | LambdaUnknownDomain string
  | LambdaNotFinite string f64
  | LambdaNotPositive string f64
  | FactorNotFinite string f64
  | FactorOutOfRange string f64
  | VectorUnknownDomain string string
  | VectorNotFinite string string f64
  | VectorNegative string string
  | VectorSum string f64
  | VectorNotCovering string string
  | CouplingNotFinite string string f64
  | CouplingNegative string string
  | WindowMissing
  | NoLambda string
  | NoTimestamp string
  | NoEffectiveValue string
  | EffectiveNotFinite string f64
  | EffectiveOutOfRange string f64

section \<open>Validation\<close>

text \<open>The order in which this run iterates over each map of the parameters.\<close>

record map_orders =
  or_Lambda :: "string list"
  or_Factors :: "string list"
  or_Vectors :: "string list"
  or_Vector :: "string \<Rightarrow> string list"
  or_Coupling :: "string list"
  or_Tos :: "string \<Rightarrow> string list"

definition orders_of :: "map_orders \<Rightarrow> Params \<Rightarrow> bool" where
  "orders_of ord p \<longleftrightarrow>
     iter_order (or_Lambda ord) (p_Lambda p) \<and> iter_order (or_Factors ord) (p_Factors p) \<and>
     iter_order (or_Vectors ord) (p_Vectors p) \<and> iter_order (or_Coupling ord) (p_Coupling p) \<and>
     (\<forall>fid vec. p_Vectors p fid = Some vec \<longrightarrow> iter_order (or_Vector ord fid) vec) \<and>
     (\<forall>fid tos. p_Coupling p fid = Some tos \<longrightarrow> iter_order (or_Tos ord fid) tos)"

fun first_of :: "'e option list \<Rightarrow> 'e option" where
  "first_of [] = None"
| "first_of (None # es) = first_of es"
| "first_of (Some e # es) = Some e"

definition nonFinite :: "f64 \<Rightarrow> bool" where
  "nonFinite v \<longleftrightarrow> v = NaN \<or> v = PInf \<or> v = NInf"

definition model_error :: "Params \<Rightarrow> ef_error option" where
  "model_error p = (if p_Model p \<in> {ModelLegacy, ModelVector, ModelGraph, ModelChain} then None else Some (UnknownModel (p_Model p)))"

definition floor_error :: "Params \<Rightarrow> ef_error option" where
  "floor_error p =
     (if nonFinite (p_PFloor p) then Some (FloorNotFinite (p_PFloor p))
      else if f64_le (p_PFloor p) f64_0 \<or> f64_ge (p_PFloor p) f64_1 then Some (FloorOutOfRange (p_PFloor p)) else None)"

definition lambda_error :: "string list \<Rightarrow> Params \<Rightarrow> string \<Rightarrow> ef_error option" where
  "lambda_error domains p d =
     (case p_Lambda p d of
        None \<Rightarrow> None
      | Some l \<Rightarrow>
          if d \<notin> set domains then Some (LambdaUnknownDomain d)
          else if nonFinite l then Some (LambdaNotFinite d l)
          else if f64_le l f64_0 then Some (LambdaNotPositive d l) else None)"

definition factor_error :: "Params \<Rightarrow> string \<Rightarrow> ef_error option" where
  "factor_error p fid =
     (case p_Factors p fid of
        None \<Rightarrow> None
      | Some f \<Rightarrow>
          if nonFinite f then Some (FactorNotFinite fid f)
          else if f64_le f f64_0 \<or> f64_gt f f64_1 then Some (FactorOutOfRange fid f) else None)"

text \<open>The loop over one vector: the first bad component, or the sum in the order of the iteration.\<close>

fun vector_sum :: "string list \<Rightarrow> string \<Rightarrow> (string \<rightharpoonup> f64) \<Rightarrow> f64 \<Rightarrow> string list \<Rightarrow> ef_error + f64" where
  "vector_sum domains fid vec acc [] = Inr acc"
| "vector_sum domains fid vec acc (d # ds) =
     (case vec d of
        None \<Rightarrow> vector_sum domains fid vec acc ds
      | Some v \<Rightarrow>
          if d \<notin> set domains then Inl (VectorUnknownDomain fid d)
          else if nonFinite v then Inl (VectorNotFinite fid d v)
          else if f64_lt v f64_0 then Inl (VectorNegative fid d)
          else vector_sum domains fid vec (f64_add acc v) ds)"

definition vector_error :: "map_orders \<Rightarrow> string list \<Rightarrow> Params \<Rightarrow> string \<Rightarrow> ef_error option" where
  "vector_error ord domains p fid =
     (case p_Vectors p fid of
        None \<Rightarrow> None
      | Some vec \<Rightarrow>
          (case vector_sum domains fid vec f64_0 (or_Vector ord fid) of
             Inl e \<Rightarrow> Some e
           | Inr acc \<Rightarrow>
               if f64_gt acc f64_1 then Some (VectorSum fid acc)
               else first_of (map (\<lambda>d. if vec d = None then Some (VectorNotCovering fid d) else None) domains)))"

definition coupling_error :: "Params \<Rightarrow> string \<Rightarrow> string \<Rightarrow> ef_error option" where
  "coupling_error p from to =
     (case Option.bind (p_Coupling p from) (\<lambda>tos. tos to) of
        None \<Rightarrow> None
      | Some c \<Rightarrow>
          if nonFinite c then Some (CouplingNotFinite from to c)
          else if f64_lt c f64_0 then Some (CouplingNegative from to) else None)"

definition window_error :: "Params \<Rightarrow> ef_error option" where
  "window_error p = (if p_Model p = ModelChain \<and> p_ChainWindowSeconds p \<le> 0 then Some WindowMissing else None)"

definition Validate :: "map_orders \<Rightarrow> string list \<Rightarrow> Params \<Rightarrow> ef_error option" where
  "Validate ord domains p =
     first_of ([model_error p, floor_error p] @ map (lambda_error domains p) (or_Lambda ord) @
       map (factor_error p) (or_Factors ord) @ map (vector_error ord domains p) (or_Vectors ord) @
       concat (map (\<lambda>from. map (coupling_error p from) (or_Tos ord from)) (or_Coupling ord)) @ [window_error p])"

section \<open>Identifiers and pruning\<close>

text \<open>\<open>strings.ToUpper\<close>: the fast path for ASCII strings; \<open>uni\<close> is the Unicode mapping of other strings.\<close>

definition upper_char :: "char \<Rightarrow> char" where
  "upper_char c = (let n = (of_char c :: nat) in if 97 \<le> n \<and> n \<le> 122 then char_of (n - 32) else c)"

definition to_upper :: "(string \<Rightarrow> string) \<Rightarrow> string \<Rightarrow> string" where
  "to_upper uni s = (if list_all (\<lambda>c. (of_char c :: nat) < 128) s then map upper_char s else uni s)"

definition NormalizeFactorID :: "(string \<Rightarrow> string) \<Rightarrow> string \<Rightarrow> string" where
  "NormalizeFactorID uni fid = to_upper uni (trim_space fid)"

definition RequestedDomains :: "Params \<Rightarrow> string list" where
  "RequestedDomains p = filter (\<lambda>d. p_Lambda p d \<noteq> None) DefaultDomains"

definition PruneToDomains :: "Params \<Rightarrow> string list \<Rightarrow> Params" where
  "PruneToDomains p domains =
     p\<lparr>p_Lambda := p_Lambda p |` set domains,
       p_Vectors := (\<lambda>fid. map_option (\<lambda>vec. vec |` set domains) (p_Vectors p fid))\<rparr>"

section \<open>Synthesis\<close>

record FactorActivation =
  fa_FactorID :: string
  fa_TriggerCheck :: string
  fa_CTrigger :: f64
  fa_EffectiveFactor :: f64
  fa_TS :: time

record Input =
  in_DomainScores :: "string \<rightharpoonup> f64"
  in_Factors :: "FactorActivation list"

record Result =
  rs_Model :: string
  rs_ParamsHash :: string
  rs_L :: "string \<rightharpoonup> f64"
  rs_P :: "string \<rightharpoonup> f64"
  rs_DomainScores :: "string \<rightharpoonup> f64"
  rs_GlobalMultiplier :: f64

record contribution =
  ct_id :: string
  ct_a :: "string \<Rightarrow> f64"
  ct_ts :: time

record synth_lib =
  lib_exp :: "f64 \<Rightarrow> f64"
  lib_sort :: "contribution list \<Rightarrow> contribution list"
  lib_json :: "Params \<Rightarrow> string option"
  lib_sha :: "string \<Rightarrow> string"

definition hex_digit :: "nat \<Rightarrow> char" where
  "hex_digit n = (if n < 10 then char_of (48 + n) else char_of (87 + n))"

definition hex_encode :: "string \<Rightarrow> string" where
  "hex_encode s = concat (map (\<lambda>c. let n = (of_char c :: nat) in [hex_digit (n div 16), hex_digit (n mod 16)]) s)"

definition hashSentinel :: string where
  "hashSentinel = ''0000000000000000''"

definition Hash :: "synth_lib \<Rightarrow> Params \<Rightarrow> string" where
  "Hash lib p = (case lib_json lib p of None \<Rightarrow> hashSentinel | Some raw \<Rightarrow> take 16 (hex_encode (lib_sha lib raw)))"

definition EffectiveFactor :: "f64 \<Rightarrow> f64 \<Rightarrow> f64" where
  "EffectiveFactor f c =
     (if f64_le c f64_0 then f64_1 else if f64_ge c f64_1 then f
      else f64_sub f64_1 (f64_mul (f64_sub f64_1 f) c))"

definition resolveEffective :: "Params \<Rightarrow> FactorActivation \<Rightarrow> ef_error + f64" where
  "resolveEffective p f =
     (let check = (\<lambda>eff.
        if nonFinite eff then Inl (EffectiveNotFinite (fa_FactorID f) eff)
        else if f64_le eff f64_0 \<or> f64_gt eff f64_1 then Inl (EffectiveOutOfRange (fa_FactorID f) eff)
        else Inr eff)
      in if f64_eq (fa_EffectiveFactor f) f64_0
         then (case p_Factors p (fa_FactorID f) of None \<Rightarrow> Inl (NoEffectiveValue (fa_FactorID f)) | Some w \<Rightarrow> check w)
         else check (fa_EffectiveFactor f))"

fun resolve_all :: "Params \<Rightarrow> FactorActivation list \<Rightarrow> ef_error + f64 list" where
  "resolve_all p [] = Inr []"
| "resolve_all p (f # fs) =
     (case resolveEffective p f of
        Inl e \<Rightarrow> Inl e
      | Inr eff \<Rightarrow> (case resolve_all p fs of Inl e \<Rightarrow> Inl e | Inr effs \<Rightarrow> Inr (eff # effs)))"

definition couplingValue :: "Params \<Rightarrow> string \<Rightarrow> string \<Rightarrow> f64" where
  "couplingValue p from to =
     (case Option.bind (p_Coupling p from) (\<lambda>tos. tos to) of
        Some c \<Rightarrow> c
      | None \<Rightarrow>
          if p_Model p = ModelGraph
          then (case Option.bind (p_Coupling p to) (\<lambda>tos. tos from) of Some c \<Rightarrow> c | None \<Rightarrow> f64_0)
          else f64_0)"

definition contribution_of :: "Params \<Rightarrow> string list \<Rightarrow> FactorActivation \<Rightarrow> f64 \<Rightarrow> contribution" where
  "contribution_of p domains f eff =
     (let vec = (case p_Vectors p (fa_FactorID f) of
                   Some v \<Rightarrow> v | None \<Rightarrow> (\<lambda>d. if d \<in> set domains then Some f64_1 else None))
      in \<lparr>ct_id = fa_FactorID f,
          ct_a = (\<lambda>d. f64_mul (f64_sub f64_1 eff) (case vec d of None \<Rightarrow> f64_0 | Some v \<Rightarrow> v)),
          ct_ts = fa_TS f\<rparr>)"

text \<open>What the pair \<open>(from, to)\<close> adds to the load of a domain, if anything.\<close>

definition coupled :: "Params \<Rightarrow> string \<Rightarrow> contribution \<Rightarrow> contribution \<Rightarrow> f64 option" where
  "coupled p d from to =
     (let c = couplingValue p (ct_id from) (ct_id to); term = f64_mul (f64_mul c (ct_a from d)) (ct_a to d)
      in if ct_id from = ct_id to then None
         else if f64_eq c f64_0 then None
         else if p_Model p = ModelChain then
           (if \<not> ct_ts from < ct_ts to \<or> ct_ts from = 0 \<or> ct_ts to = 0 then None
            else if time_sub (ct_ts to) (ct_ts from) > wrap64 (p_ChainWindowSeconds p * second) then None
            else Some term)
         else if ct_id from < ct_id to then Some term else None)"

definition load_terms :: "Params \<Rightarrow> string \<Rightarrow> contribution list \<Rightarrow> f64 list" where
  "load_terms p d cs =
     map (\<lambda>c. ct_a c d) cs @
     (if p_Model p = ModelGraph \<or> p_Model p = ModelChain
      then concat (map (\<lambda>from. List.map_filter (coupled p d from) cs) cs) else [])"

definition load :: "Params \<Rightarrow> string \<Rightarrow> contribution list \<Rightarrow> f64" where
  "load p d cs = foldl f64_add f64_0 (load_terms p d cs)"

definition attenuation :: "synth_lib \<Rightarrow> Params \<Rightarrow> string \<Rightarrow> f64 \<Rightarrow> f64" where
  "attenuation lib p d ld =
     (let lambda = (case p_Lambda p d of None \<Rightarrow> f64_0 | Some l \<Rightarrow> l)
      in f64_add (p_PFloor p) (f64_mul (f64_sub f64_1 (p_PFloor p)) (lib_exp lib (f64_mul (f64_neg lambda) ld))))"

definition score_of :: "Input \<Rightarrow> string \<Rightarrow> f64" where
  "score_of inp d = (case in_DomainScores inp d of None \<Rightarrow> f64_0 | Some s \<Rightarrow> s)"

definition on_domains :: "string list \<Rightarrow> (string \<Rightarrow> f64) \<Rightarrow> (string \<rightharpoonup> f64)" where
  "on_domains domains f = (\<lambda>d. if d \<in> set domains then Some (f d) else None)"

text \<open>The checks before the computation.\<close>

definition synth_error :: "map_orders \<Rightarrow> Params \<Rightarrow> string list \<Rightarrow> Input \<Rightarrow> ef_error option" where
  "synth_error ord p domains inp =
     first_of ([Validate ord domains p] @
       (if p_Model p \<noteq> ModelLegacy then map (\<lambda>d. if p_Lambda p d = None then Some (NoLambda d) else None) domains else []) @
       (if p_Model p = ModelChain
        then map (\<lambda>f. if fa_TS f = 0 then Some (NoTimestamp (fa_FactorID f)) else None) (in_Factors inp) else []))"

definition Synthesize :: "synth_lib \<Rightarrow> map_orders \<Rightarrow> Params \<Rightarrow> string list \<Rightarrow> Input \<Rightarrow> ef_error + Result" where
  "Synthesize lib ord p domains inp =
     (case synth_error ord p domains inp of
        Some e \<Rightarrow> Inl e
      | None \<Rightarrow>
          (case resolve_all p (in_Factors inp) of
             Inl e \<Rightarrow> Inl e
           | Inr effs \<Rightarrow>
               if p_Model p = ModelLegacy then
                 Inr \<lparr>rs_Model = p_Model p, rs_ParamsHash = Hash lib p, rs_L = on_domains domains (\<lambda>d. f64_0),
                      rs_P = on_domains domains (\<lambda>d. f64_1), rs_DomainScores = on_domains domains (score_of inp),
                      rs_GlobalMultiplier = foldl f64_mul f64_1 effs\<rparr>
               else
                 (let cs = lib_sort lib (map2 (contribution_of p domains) (in_Factors inp) effs);
                      att = (\<lambda>d. attenuation lib p d (load p d cs))
                  in Inr \<lparr>rs_Model = p_Model p, rs_ParamsHash = Hash lib p, rs_L = on_domains domains (\<lambda>d. load p d cs),
                          rs_P = on_domains domains att,
                          rs_DomainScores = on_domains domains (\<lambda>d. f64_mul (score_of inp d) (att d)),
                          rs_GlobalMultiplier = f64_1\<rparr>)))"

section \<open>What validation establishes\<close>

lemma first_of_None [simp]: "first_of es = None \<longleftrightarrow> (\<forall>e\<in>set es. e = None)"
  by (induction es rule: first_of.induct) auto

lemma first_of_map: "first_of (map f xs) = None \<longleftrightarrow> (\<forall>x\<in>set xs. f x = None)"
  by (simp only: first_of_None set_map ball_simps)

lemma vector_sum_Inr:
  "vector_sum domains fid vec acc ds = Inr s \<longleftrightarrow>
     (\<forall>d\<in>set ds. \<forall>v. vec d = Some v \<longrightarrow> d \<in> set domains \<and> \<not> nonFinite v \<and> \<not> f64_lt v f64_0) \<and>
     s = foldl f64_add acc (List.map_filter vec ds)"
  by (induction ds arbitrary: acc) (auto simp: List.map_filter_simps split: option.split)

lemma not_nonFinite [simp]: "\<not> nonFinite v \<longleftrightarrow> (\<exists>x. v = Fin x)"
  by (cases v) (auto simp: nonFinite_def)

lemma finite_nonneg: "\<not> nonFinite v \<and> \<not> f64_lt v f64_0 \<longleftrightarrow> (\<exists>x. v = Fin x \<and> 0 \<le> x)"
  by (cases v) (auto simp: nonFinite_def not_less)

lemma nonFinite_Fin [simp]: "\<not> nonFinite (Fin x)"
  by (simp add: nonFinite_def)

text \<open>Every number of the parameters is a \<open>float64\<close>.\<close>

definition wf_params :: "Params \<Rightarrow> bool" where
  "wf_params p \<longleftrightarrow> wf64 (p_PFloor p) \<and> (\<forall>l\<in>ran (p_Lambda p). wf64 l) \<and> (\<forall>f\<in>ran (p_Factors p). wf64 f) \<and>
     (\<forall>vec\<in>ran (p_Vectors p). \<forall>v\<in>ran vec. wf64 v) \<and> (\<forall>tos\<in>ran (p_Coupling p). \<forall>c\<in>ran tos. wf64 c)"

text \<open>The sum of a vector in a given order of its domains.\<close>

definition vector_total :: "(string \<rightharpoonup> f64) \<Rightarrow> string list \<Rightarrow> f64" where
  "vector_total vec ds = foldl f64_add f64_0 (List.map_filter vec ds)"

text \<open>What does not depend on the iteration order.\<close>

definition sound_params :: "string list \<Rightarrow> Params \<Rightarrow> bool" where
  "sound_params domains p \<longleftrightarrow>
     p_Model p \<in> {ModelLegacy, ModelVector, ModelGraph, ModelChain} \<and>
     (\<exists>q. p_PFloor p = Fin q \<and> 0 < q \<and> q < 1) \<and>
     (\<forall>d l. p_Lambda p d = Some l \<longrightarrow> d \<in> set domains \<and> (\<exists>x. l = Fin x \<and> 0 < x)) \<and>
     (\<forall>fid f. p_Factors p fid = Some f \<longrightarrow> (\<exists>x. f = Fin x \<and> 0 < x \<and> x \<le> 1)) \<and>
     (\<forall>fid vec. p_Vectors p fid = Some vec \<longrightarrow> dom vec = set domains \<and> (\<forall>d v. vec d = Some v \<longrightarrow> (\<exists>x. v = Fin x \<and> 0 \<le> x))) \<and>
     (\<forall>from tos to c. p_Coupling p from = Some tos \<longrightarrow> tos to = Some c \<longrightarrow> (\<exists>x. c = Fin x \<and> 0 \<le> x)) \<and>
     (p_Model p = ModelChain \<longrightarrow> 0 < p_ChainWindowSeconds p)"

lemma iter_order_set: "iter_order ks m \<Longrightarrow> k \<in> set ks \<longleftrightarrow> (\<exists>v. m k = Some v)"
  by (auto simp: iter_order_def)

lemma lambda_error_None:
  "lambda_error domains p d = None \<longleftrightarrow>
     (\<forall>l. p_Lambda p d = Some l \<longrightarrow> d \<in> set domains \<and> (\<exists>x. l = Fin x \<and> 0 < x))"
  by (auto simp: lambda_error_def not_le split: option.split)

lemma factor_error_None:
  "factor_error p fid = None \<longleftrightarrow> (\<forall>f. p_Factors p fid = Some f \<longrightarrow> (\<exists>x. f = Fin x \<and> 0 < x \<and> x \<le> 1))"
  by (auto simp: factor_error_def not_le split: option.split)

lemma coupling_error_None:
  "coupling_error p from to = None \<longleftrightarrow>
     (\<forall>tos c. p_Coupling p from = Some tos \<longrightarrow> tos to = Some c \<longrightarrow> (\<exists>x. c = Fin x \<and> 0 \<le> x))"
  by (auto simp: coupling_error_def not_less split: option.split Option.bind_split)

lemma vector_error_None:
  assumes "\<And>vec. p_Vectors p fid = Some vec \<Longrightarrow> iter_order (or_Vector ord fid) vec"
  shows "vector_error ord domains p fid = None \<longleftrightarrow>
     (\<forall>vec. p_Vectors p fid = Some vec \<longrightarrow> dom vec = set domains \<and> (\<forall>d v. vec d = Some v \<longrightarrow> (\<exists>x. v = Fin x \<and> 0 \<le> x)) \<and>
        \<not> f64_gt (vector_total vec (or_Vector ord fid)) f64_1)"
proof (cases "p_Vectors p fid")
  case (Some vec)
  note io = iter_order_set [OF assms [OF Some]]
  define ok where "ok \<longleftrightarrow> (\<forall>d v. vec d = Some v \<longrightarrow> d \<in> set domains \<and> (\<exists>x. v = Fin x \<and> 0 \<le> x))"
  have b: "(\<forall>d\<in>set (or_Vector ord fid). \<forall>v. vec d = Some v \<longrightarrow> d \<in> set domains \<and> \<not> nonFinite v \<and> \<not> f64_lt v f64_0) \<longleftrightarrow> ok"
    unfolding ok_def finite_nonneg by (meson io)
  have v: "vector_sum domains fid vec f64_0 (or_Vector ord fid) = Inr s \<longleftrightarrow> ok \<and> s = vector_total vec (or_Vector ord fid)" for s
    by (simp only: vector_sum_Inr b vector_total_def)
  have "vector_error ord domains p fid = None \<longleftrightarrow>
      ok \<and> \<not> f64_gt (vector_total vec (or_Vector ord fid)) f64_1 \<and> (\<forall>d\<in>set domains. vec d \<noteq> None)"
  proof (cases ok)
    case True
    then have "vector_sum domains fid vec f64_0 (or_Vector ord fid) = Inr (vector_total vec (or_Vector ord fid))" by (simp only: v)
    then show ?thesis using Some True by (auto simp: vector_error_def first_of_map simp del: first_of_None split: if_splits)
  next
    case False
    then obtain e where "vector_sum domains fid vec f64_0 (or_Vector ord fid) = Inl e" using v by (meson sumE)
    then show ?thesis using Some False by (simp add: vector_error_def)
  qed
  also have "\<dots> \<longleftrightarrow> dom vec = set domains \<and> (\<forall>d v. vec d = Some v \<longrightarrow> (\<exists>x. v = Fin x \<and> 0 \<le> x)) \<and>
        \<not> f64_gt (vector_total vec (or_Vector ord fid)) f64_1"
    unfolding ok_def by blast
  finally show ?thesis using Some by simp
qed (simp add: vector_error_def)

lemma Validate_None:
  assumes "orders_of ord p"
  shows "Validate ord domains p = None \<longleftrightarrow>
    sound_params domains p \<and>
    (\<forall>fid vec. p_Vectors p fid = Some vec \<longrightarrow> \<not> f64_gt (vector_total vec (or_Vector ord fid)) f64_1)"
proof -
  have io: "iter_order (or_Lambda ord) (p_Lambda p)" "iter_order (or_Factors ord) (p_Factors p)"
    "iter_order (or_Vectors ord) (p_Vectors p)" "iter_order (or_Coupling ord) (p_Coupling p)"
    "\<And>fid vec. p_Vectors p fid = Some vec \<Longrightarrow> iter_order (or_Vector ord fid) vec"
    "\<And>fid tos. p_Coupling p fid = Some tos \<Longrightarrow> iter_order (or_Tos ord fid) tos"
    using assms by (auto simp: orders_of_def)
  note sets = iter_order_set [OF io(1)] iter_order_set [OF io(2)] iter_order_set [OF io(3)] iter_order_set [OF io(4)] iter_order_set [OF io(6)]
  have 1: "(\<forall>d\<in>set (or_Lambda ord). lambda_error domains p d = None) \<longleftrightarrow>
      (\<forall>d l. p_Lambda p d = Some l \<longrightarrow> d \<in> set domains \<and> (\<exists>x. l = Fin x \<and> 0 < x))"
    unfolding lambda_error_None by (meson sets(1))
  have 2: "(\<forall>fid\<in>set (or_Factors ord). factor_error p fid = None) \<longleftrightarrow>
      (\<forall>fid f. p_Factors p fid = Some f \<longrightarrow> (\<exists>x. f = Fin x \<and> 0 < x \<and> x \<le> 1))"
    unfolding factor_error_None by (meson sets(2))
  have 3: "(\<forall>fid\<in>set (or_Vectors ord). vector_error ord domains p fid = None) \<longleftrightarrow>
      (\<forall>fid vec. p_Vectors p fid = Some vec \<longrightarrow> dom vec = set domains \<and> (\<forall>d v. vec d = Some v \<longrightarrow> (\<exists>x. v = Fin x \<and> 0 \<le> x)) \<and>
        \<not> f64_gt (vector_total vec (or_Vector ord fid)) f64_1)"
    using vector_error_None [OF io(5)] sets(3) by (smt (verit, best))
  have 4: "(\<forall>from\<in>set (or_Coupling ord). \<forall>to\<in>set (or_Tos ord from). coupling_error p from to = None) \<longleftrightarrow>
      (\<forall>from tos to c. p_Coupling p from = Some tos \<longrightarrow> tos to = Some c \<longrightarrow> (\<exists>x. c = Fin x \<and> 0 \<le> x))" (is "?l \<longleftrightarrow> ?r")
  proof
    assume l: ?l
    show ?r
    proof (intro allI impI)
      fix a tos b c
      assume t: "p_Coupling p a = Some tos" "tos b = Some c"
      then have "a \<in> set (or_Coupling ord)" "b \<in> set (or_Tos ord a)" using sets(4) sets(5) [OF t(1)] by auto
      then show "\<exists>x. c = Fin x \<and> 0 \<le> x" using l t coupling_error_None by blast
    qed
  qed (simp add: coupling_error_None)
  have 5: "floor_error p = None \<longleftrightarrow> (\<exists>q. p_PFloor p = Fin q \<and> 0 < q \<and> q < 1)"
    by (auto simp: floor_error_def not_le)
  have 6: "model_error p = None \<longleftrightarrow> p_Model p \<in> {ModelLegacy, ModelVector, ModelGraph, ModelChain}"
    by (simp add: model_error_def)
  have 7: "window_error p = None \<longleftrightarrow> (p_Model p = ModelChain \<longrightarrow> 0 < p_ChainWindowSeconds p)"
    by (auto simp: window_error_def)
  have split: "first_of (xs @ ys) = None \<longleftrightarrow> first_of xs = None \<and> first_of ys = None" for xs ys :: "ef_error option list"
    by auto
  have cat: "first_of (concat (map f xs)) = None \<longleftrightarrow> (\<forall>x\<in>set xs. first_of (f x) = None)" for f and xs :: "string list"
    by auto
  have one: "first_of [e] = None \<longleftrightarrow> e = None" "first_of [e, e'] = None \<longleftrightarrow> e = None \<and> e' = None" for e e' :: "ef_error option"
    by auto
  have "Validate ord domains p = None \<longleftrightarrow>
      p_Model p \<in> {ModelLegacy, ModelVector, ModelGraph, ModelChain} \<and> (\<exists>q. p_PFloor p = Fin q \<and> 0 < q \<and> q < 1) \<and>
      (\<forall>d l. p_Lambda p d = Some l \<longrightarrow> d \<in> set domains \<and> (\<exists>x. l = Fin x \<and> 0 < x)) \<and>
      (\<forall>fid f. p_Factors p fid = Some f \<longrightarrow> (\<exists>x. f = Fin x \<and> 0 < x \<and> x \<le> 1)) \<and>
      (\<forall>fid vec. p_Vectors p fid = Some vec \<longrightarrow> dom vec = set domains \<and> (\<forall>d v. vec d = Some v \<longrightarrow> (\<exists>x. v = Fin x \<and> 0 \<le> x)) \<and>
        \<not> f64_gt (vector_total vec (or_Vector ord fid)) f64_1) \<and>
      (\<forall>from tos to c. p_Coupling p from = Some tos \<longrightarrow> tos to = Some c \<longrightarrow> (\<exists>x. c = Fin x \<and> 0 \<le> x)) \<and>
      (p_Model p = ModelChain \<longrightarrow> 0 < p_ChainWindowSeconds p)"
    unfolding Validate_def split cat first_of_map one 1 2 3 4 5 6 7 by (simp only: conj_assoc)
  then show ?thesis unfolding sound_params_def by blast
qed

end
