(* ===== verification/Edge_Synthesis.thy ===== *)
theory Edge_Synthesis
  imports Edge_Factor
begin

text \<open>
  What the synthesis of \<open>internal/edgefactor\<close> promises: no coefficient leaves \<open>[p_floor, 1]\<close>, a further factor never
  lightens a domain, and no iteration order or sorting of ties shows in a result.
\<close>

section \<open>The complement of the floor\<close>

lemma rhe_half: "\<bar>of_int (rhe y) - y\<bar> \<le> 1 / 2"
proof -
  have "of_int \<lfloor>y\<rfloor> \<le> y" "y < of_int \<lfloor>y\<rfloor> + 1" by linarith+
  then show ?thesis unfolding rhe_def Let_def by (simp add: abs_le_iff)
qed

lemma rnd_near_1: "x \<le> 1 + 1 / 2 ^ 54 \<Longrightarrow> rnd x \<le> 1"
proof -
  assume "x \<le> 1 + 1 / 2 ^ 54"
  then have "rnd x \<le> rnd (1 + 1 / 2 ^ 54)" by (rule rnd_mono)
  also have "\<dots> = 1" by (subst rnd_eval_pos [of 0]) (simp_all add: rhe_def Let_def)
  finally show ?thesis .
qed

text \<open>Rounding \<open>1 - p\<close> and adding \<open>p\<close> again does not exceed 1.\<close>

lemma complement_error:
  assumes "rep p" "0 < p" "p < 1"
  shows "p + rnd (1 - p) \<le> 1 + 1 / 2 ^ 54"
proof (cases "1 / 2 \<le> p")
  case True
  then have "rep (1 - p)" using one_minus_exact [OF assms(1)] assms(3) by simp
  then show ?thesis by (simp add: rep_def)
next
  case False
  define x where "x = 1 - p"
  have x: "1 / 2 ^ 1 \<le> x" "x < 2 / 2 ^ 1" using False assms(2) by (simp_all add: x_def)
  have e: "rnd x = of_int (rhe (x * 2 ^ 53)) / 2 ^ 53" using rnd_eval_neg [OF x] by simp
  have "of_int (rhe (x * 2 ^ 53)) \<le> x * 2 ^ 53 + 1 / 2" using rhe_half [of "x * 2 ^ 53"] by linarith
  then have "rnd x \<le> (x * 2 ^ 53 + 1 / 2) / 2 ^ 53" unfolding e by (rule divide_right_mono) simp
  also have "\<dots> = x + 1 / 2 ^ 54" by (simp add: field_simps)
  finally show ?thesis by (simp add: x_def)
qed

lemma blend_btw:
  assumes "rep p" "0 < p" "p < 1" "btw 0 1 e"
  shows "btw p 1 (f64_add (Fin p) (f64_mul (f64_sub f64_1 (Fin p)) e))"
proof -
  obtain x where x: "e = Fin x" "0 \<le> x" "x \<le> 1" using btwD [OF assms(4)] by auto
  obtain r where r: "f64_of_rat (1 - p) = Fin r" "r = rnd (1 - p)" "rep r" "0 \<le> r" "r \<le> 1"
    using f64_of_rat_bounds [OF rep_0 rep_1, of "1 - p"] assms(2,3) by auto
  obtain m where m: "f64_mul (Fin r) (Fin x) = Fin m" "0 \<le> m" "m \<le> r"
    using f64_mul_unit [OF r(4) r(3) x(2,3)] by blast
  have "p + m \<le> 1 + 1 / 2 ^ 54" using complement_error [OF assms(1-3)] m(3) r(2) by simp
  then have hi: "rnd (p + m) \<le> 1" by (rule rnd_near_1)
  have lo: "p \<le> rnd (p + m)" using rnd_mono [of p "p + m"] assms(1) m(2) by (simp add: rep_def)
  have "rnd (p + m) < 2 ^ 1024" using hi by (rule order_le_less_trans) simp
  moreover have "- (2 ^ 1024) < rnd (p + m)" 
  proof -
    have "- (2 ^ 1024) < (0::rat)" by simp
    also have "0 < rnd (p + m)" using lo assms(2) by linarith
    finally show ?thesis .
  qed
  ultimately have "f64_of_rat (p + m) = Fin (rnd (p + m))" "rep (rnd (p + m))"
    by (auto simp: f64_of_rat_def Let_def intro!: rep_rnd)
  moreover have "f64_sub f64_1 (Fin p) = Fin r" using r(1) by (simp add: f64_sub_def)
  ultimately show ?thesis using lo hi m(1) by (simp only: x(1) f64_add.simps btw_Fin)
qed

section \<open>Sums of loads\<close>

definition nonneg :: "f64 \<Rightarrow> bool" where
  "nonneg x \<longleftrightarrow> f64_le f64_0 x \<and> wf64 x"

lemma nonneg_cases: "nonneg x \<Longrightarrow> x = PInf \<or> (\<exists>y. x = Fin y \<and> 0 \<le> y \<and> rep y)"
  by (cases x) (auto simp: nonneg_def)

lemma nonneg_0 [simp]: "nonneg f64_0"
  by (simp add: nonneg_def)

lemma nonneg_add [intro]: "nonneg a \<Longrightarrow> nonneg b \<Longrightarrow> nonneg (f64_add a b)"
  by (simp add: nonneg_def f64_add_nonneg)

lemma f64_le_PInf: "a \<noteq> NaN \<Longrightarrow> f64_le a PInf"
  by (cases a) simp_all

lemma f64_of_rat_not_NaN [simp]: "f64_of_rat x \<noteq> NaN"
  by (simp add: f64_of_rat_def Let_def)

lemma nonneg_sum: "nonneg a \<Longrightarrow> \<forall>x\<in>set xs. nonneg x \<Longrightarrow> nonneg (foldl f64_add a xs)"
  by (induction xs arbitrary: a) auto

lemma nonneg_add_mono:
  assumes "nonneg a" "nonneg b" "nonneg x" "f64_le a b"
  shows "f64_le (f64_add a x) (f64_add b x)" and "f64_le a (f64_add a x)"
proof -
  show "f64_le (f64_add a x) (f64_add b x)"
    using nonneg_cases [OF assms(1)] nonneg_cases [OF assms(2)] nonneg_cases [OF assms(3)] assms(4)
    by (auto intro!: f64_of_rat_mono f64_le_PInf)
  show "f64_le a (f64_add a x)"
  proof (cases "\<exists>u v. a = Fin u \<and> x = Fin v")
    case True
    then obtain u v where uv: "a = Fin u" "x = Fin v" by blast
    then have "0 \<le> v" "rep u" using assms(1,3) by (auto simp: nonneg_def)
    then have "f64_le (f64_of_rat u) (f64_of_rat (u + v))" by (intro f64_of_rat_mono) simp
    then show ?thesis using \<open>rep u\<close> uv by simp
  next
    case False
    then show ?thesis using nonneg_cases [OF assms(1)] nonneg_cases [OF assms(3)] by auto
  qed
qed

lemma sum_ge_acc: "nonneg a \<Longrightarrow> \<forall>x\<in>set xs. nonneg x \<Longrightarrow> f64_le a (foldl f64_add a xs)"
proof (induction xs arbitrary: a)
  case Nil
  then show ?case by (cases a) (simp_all add: nonneg_def)
next
  case (Cons x xs)
  have "f64_le a (f64_add a x)" using nonneg_add_mono(2) [of a a x] Cons.prems nonneg_cases [OF Cons.prems(1)] by auto
  moreover have "f64_le (f64_add a x) (foldl f64_add (f64_add a x) xs)" using Cons by (intro Cons.IH) auto
  ultimately show ?case using f64_le_trans by simp
qed

lemma nonneg_refl: "nonneg a \<Longrightarrow> f64_le a a"
  by (cases a) (simp_all add: nonneg_def)

lemma f64_add_commute: "f64_add a b = f64_add b a"
  by (cases a; cases b) (simp_all add: add.commute)

lemma sum_ge_mem: "nonneg a \<Longrightarrow> \<forall>x\<in>set xs. nonneg x \<Longrightarrow> x \<in> set xs \<Longrightarrow> f64_le x (foldl f64_add a xs)"
proof (induction xs arbitrary: a)
  case (Cons y xs)
  show ?case
  proof (cases "x = y")
    case True
    have "f64_le y (f64_add y a)" using nonneg_add_mono(2) [of y y a] nonneg_refl Cons.prems by simp
    moreover have "f64_le (f64_add a y) (foldl f64_add (f64_add a y) xs)" using Cons.prems by (intro sum_ge_acc) auto
    ultimately show ?thesis using True f64_le_trans by (simp add: f64_add_commute)
  next
    case False
    then show ?thesis using Cons by (simp add: nonneg_add)
  qed
qed simp

text \<open>More terms, in the same places, sum to at least as much.\<close>

lemma sum_subseq_mono:
  "subseq xs ys \<Longrightarrow> nonneg a \<Longrightarrow> nonneg b \<Longrightarrow> f64_le a b \<Longrightarrow> \<forall>y\<in>set ys. nonneg y \<Longrightarrow>
     f64_le (foldl f64_add a xs) (foldl f64_add b ys)"
proof (induction ys arbitrary: xs a b)
  case Nil
  then show ?case by (auto dest: list_emb_Nil2)
next
  case (Cons y ys)
  have y: "nonneg y" "\<forall>z\<in>set ys. nonneg z" using Cons.prems(5) by auto
  show ?case
  proof (cases "\<exists>zs. xs = y # zs \<and> subseq zs ys")
    case True
    then obtain zs where zs: "xs = y # zs" "subseq zs ys" by blast
    have "f64_le (foldl f64_add (f64_add a y) zs) (foldl f64_add (f64_add b y) ys)"
      by (rule Cons.IH [OF zs(2)]) (use Cons.prems y nonneg_add_mono(1) in auto)
    then show ?thesis by (simp add: zs(1))
  next
    case False
    then have "subseq xs ys" using Cons.prems(1) by (cases xs) (auto split: if_splits)
    moreover have "f64_le a (f64_add b y)"
      using nonneg_add_mono(2) [OF Cons.prems(3,3) y(1)] nonneg_refl [OF Cons.prems(3)] Cons.prems(4) f64_le_trans by blast
    ultimately show ?thesis using Cons.IH [of xs a "f64_add b y"] Cons.prems y by auto
  qed
qed

section \<open>Contributions\<close>

lemma resolveEffective_Inr:
  assumes "resolveEffective p f = Inr eff" "wf_params p" "wf64 (fa_EffectiveFactor f)"
  shows "\<exists>x. eff = Fin x \<and> 0 < x \<and> x \<le> 1 \<and> rep x"
proof -
  have c: "\<exists>x. eff = Fin x \<and> 0 < x \<and> x \<le> 1 \<and> rep x"
    if "(if nonFinite w then Inl e1 else if f64_le w f64_0 \<or> f64_gt w f64_1 then Inl e2 else Inr w) = Inr eff" "wf64 w"
    for w and e1 e2 :: ef_error
    using that by (cases w) (auto simp: nonFinite_def not_le not_less split: if_splits)
  show ?thesis
  proof (cases "f64_eq (fa_EffectiveFactor f) f64_0")
    case True
    then obtain w where w: "p_Factors p (fa_FactorID f) = Some w"
      using assms(1) by (auto simp: resolveEffective_def Let_def split: option.splits)
    then have "wf64 w" using assms(2) by (auto simp: wf_params_def ran_def)
    moreover have "(if nonFinite w then Inl (EffectiveNotFinite (fa_FactorID f) w) else if f64_le w f64_0 \<or> f64_gt w f64_1
        then Inl (EffectiveOutOfRange (fa_FactorID f) w) else Inr w) = Inr eff"
      using assms(1) True w by (simp add: resolveEffective_def Let_def)
    ultimately show ?thesis using c by blast
  next
    case False
    then have "(if nonFinite (fa_EffectiveFactor f) then Inl (EffectiveNotFinite (fa_FactorID f) (fa_EffectiveFactor f))
        else if f64_le (fa_EffectiveFactor f) f64_0 \<or> f64_gt (fa_EffectiveFactor f) f64_1
        then Inl (EffectiveOutOfRange (fa_FactorID f) (fa_EffectiveFactor f)) else Inr (fa_EffectiveFactor f)) = Inr eff"
      using assms(1) by (simp add: resolveEffective_def Let_def)
    then show ?thesis using c assms(3) by blast
  qed
qed

definition unit_contribution :: "string list \<Rightarrow> contribution \<Rightarrow> bool" where
  "unit_contribution domains c \<longleftrightarrow> (\<forall>d\<in>set domains. btw 0 1 (ct_a c d))"

text \<open>The components of a validated vector are at most 1.\<close>

lemma vector_component:
  assumes "orders_of ord p" "wf_params p" "Validate ord domains p = None" "p_Vectors p fid = Some vec" "vec d = Some v"
  shows "btw 0 1 v"
proof -
  note ok = assms(3) [unfolded Validate_None [OF assms(1)]]
  have io: "iter_order (or_Vector ord fid) vec" using assms(1,4) by (auto simp: orders_of_def)
  have nn: "nonneg w" if "vec e = Some w" for e w
  proof -
    have "wf64 w" using assms(2,4) that by (fastforce simp: wf_params_def ran_def)
    moreover have "\<exists>x. w = Fin x \<and> 0 \<le> x" using ok assms(4) that unfolding sound_params_def by blast
    ultimately show ?thesis by (auto simp: nonneg_def)
  qed
  have mem: "v \<in> set (List.map_filter vec (or_Vector ord fid))"
    using assms(5) iter_order_set [OF io, of d] by (force simp: List.map_filter_def)
  have all: "\<forall>x\<in>set (List.map_filter vec (or_Vector ord fid)). nonneg x"
    using nn by (auto simp: List.map_filter_def)
  have "f64_le v (vector_total vec (or_Vector ord fid))"
    unfolding vector_total_def by (rule sum_ge_mem [OF nonneg_0 all mem])
  moreover have "\<not> f64_gt (vector_total vec (or_Vector ord fid)) f64_1" using ok assms(4) by blast
  moreover have "nonneg (vector_total vec (or_Vector ord fid))"
    unfolding vector_total_def by (rule nonneg_sum [OF nonneg_0 all])
  ultimately show ?thesis using nn [OF assms(5)] nonneg_cases
    by (cases v; cases "vector_total vec (or_Vector ord fid)") (auto simp: nonneg_def f64_lt_def)
qed

lemma contribution_unit:
  assumes "orders_of ord p" "wf_params p" "Validate ord domains p = None"
    and "resolveEffective p f = Inr eff" "wf64 (fa_EffectiveFactor f)"
  shows "unit_contribution domains (contribution_of p domains f eff)"
  unfolding unit_contribution_def
proof
  fix d
  assume d: "d \<in> set domains"
  obtain x where x: "eff = Fin x" "0 < x" "x \<le> 1" "rep x" using resolveEffective_Inr [OF assms(4,2,5)] by blast
  have "btw 0 1 (f64_sub f64_1 eff)" using btw_sub_from [of 1 eff 1] x by simp
  moreover have "btw 0 1 (case (case p_Vectors p (fa_FactorID f) of Some v \<Rightarrow> v
        | None \<Rightarrow> \<lambda>d. if d \<in> set domains then Some f64_1 else None) d of None \<Rightarrow> f64_0 | Some v \<Rightarrow> v)"
    using vector_component [OF assms(1-3)] d by (auto split: option.split)
  ultimately show "btw 0 1 (ct_a (contribution_of p domains f eff) d)"
    using btw_mul [of 1 _ 1] by (simp add: contribution_of_def Let_def)
qed

section \<open>Loads\<close>

definition coupling_ok :: "Params \<Rightarrow> bool" where
  "coupling_ok p \<longleftrightarrow> (\<forall>from tos to c. p_Coupling p from = Some tos \<longrightarrow> tos to = Some c \<longrightarrow> (\<exists>x. c = Fin x \<and> 0 \<le> x \<and> rep x))"

lemma sound_coupling: "sound_params domains p \<Longrightarrow> wf_params p \<Longrightarrow> coupling_ok p"
  unfolding coupling_ok_def
proof (intro allI impI)
  fix a tos b c
  assume p: "sound_params domains p" "wf_params p" and t: "p_Coupling p a = Some tos" "tos b = Some c"
  have "wf64 c" using p(2) t by (fastforce simp: wf_params_def ran_def)
  moreover have "\<exists>x. c = Fin x \<and> 0 \<le> x" using p(1) t unfolding sound_params_def by blast
  ultimately show "\<exists>x. c = Fin x \<and> 0 \<le> x \<and> rep x" by auto
qed

lemma couplingValue_ok: "coupling_ok p \<Longrightarrow> \<exists>x. couplingValue p a b = Fin x \<and> 0 \<le> x \<and> rep x"
  unfolding couplingValue_def coupling_ok_def
  by (auto split: option.split Option.bind_splits simp: bind_eq_Some_conv)

lemma coupled_nonneg:
  assumes "coupling_ok p" "btw 0 1 (ct_a c d)" "btw 0 1 (ct_a c' d)" "coupled p d c c' = Some t"
  shows "nonneg t"
proof -
  obtain x where x: "couplingValue p (ct_id c) (ct_id c') = Fin x" "0 \<le> x" "rep x" using couplingValue_ok [OF assms(1)] by blast
  obtain u v where uv: "ct_a c d = Fin u" "0 \<le> u" "u \<le> 1" "ct_a c' d = Fin v" "0 \<le> v" "v \<le> 1"
    using btwD [OF assms(2)] btwD [OF assms(3)] by auto
  obtain y where y: "f64_mul (Fin x) (Fin u) = Fin y" "rep y" "0 \<le> y" using f64_mul_unit [OF x(2,3) uv(2,3)] by blast
  obtain z where z: "f64_mul (Fin y) (Fin v) = Fin z" "rep z" "0 \<le> z" using f64_mul_unit [OF y(3,2) uv(5,6)] by blast
  have "t = Fin z" using assms(4) x(1) uv(1,4) y(1) z(1) by (auto simp: coupled_def Let_def split: if_splits simp del: f64_mul.simps)
  then show ?thesis using z by (simp add: nonneg_def)
qed

lemma load_terms_nonneg:
  assumes "coupling_ok p" "\<forall>c\<in>set cs. btw 0 1 (ct_a c d)"
  shows "\<forall>t\<in>set (load_terms p d cs). nonneg t"
proof -
  have "nonneg (ct_a c d)" if "c \<in> set cs" for c using btwD [of 0 1 "ct_a c d"] assms(2) that by (auto simp: nonneg_def)
  moreover have "nonneg t" if "c \<in> set cs" "c' \<in> set cs" "coupled p d c c' = Some t" for c c' t
    using coupled_nonneg [OF assms(1) _ _ that(3)] assms(2) that(1,2) by blast
  ultimately show ?thesis by (auto simp: load_terms_def List.map_filter_def)
qed

lemma subseq_map_filter: "subseq xs ys \<Longrightarrow> subseq (List.map_filter f xs) (List.map_filter f ys)"
  by (induction rule: list_emb.induct) (auto simp: List.map_filter_simps split: option.split)

lemma subseq_concat_map:
  "subseq xs ys \<Longrightarrow> (\<And>x. subseq (f x) (g x)) \<Longrightarrow> subseq (concat (map f xs)) (concat (map g ys))"
proof (induction rule: list_emb.induct)
  case (list_emb_Cons xs ys y)
  then show ?case by (simp add: list_emb_prefix subseq_drop_many)
next
  case (list_emb_Cons2 x y xs ys)
  then show ?case by (simp add: list_emb_append_mono)
qed simp

lemma load_terms_subseq: "subseq cs cs' \<Longrightarrow> subseq (load_terms p d cs) (load_terms p d cs')"
  unfolding load_terms_def by (auto intro!: list_emb_append_mono subseq_map subseq_concat_map subseq_map_filter)

lemma load_mono:
  assumes "coupling_ok p" "\<forall>c\<in>set cs'. btw 0 1 (ct_a c d)" "subseq cs cs'"
  shows "f64_le (load p d cs) (load p d cs')"
  unfolding load_def
  by (rule sum_subseq_mono [OF load_terms_subseq [OF assms(3)]]) (use load_terms_nonneg [OF assms(1,2)] in auto)

text \<open>\<open>math.Exp\<close> of an argument that is not positive lies in \<open>[0, 1]\<close>.\<close>

definition exp_ok :: "synth_lib \<Rightarrow> bool" where
  "exp_ok lib \<longleftrightarrow> (\<forall>x. f64_le x f64_0 \<longrightarrow> btw 0 1 (lib_exp lib x))"

lemma attenuation_btw:
  assumes "exp_ok lib" "sound_params domains p" "wf_params p" "p_Lambda p d = Some l" "nonneg ld" "p_PFloor p = Fin q"
  shows "btw q 1 (attenuation lib p d ld)"
proof -
  obtain x where x: "l = Fin x" "0 < x" using assms(2,4) unfolding sound_params_def by blast
  have "f64_le (f64_mul (f64_neg l) ld) f64_0"
  proof (cases ld)
    case (Fin y)
    then have "- x * y \<le> 0" using x assms(5) by (simp add: nonneg_def)
    then have "f64_le (f64_of_rat (- x * y)) (f64_of_rat 0)" by (rule f64_of_rat_mono)
    then show ?thesis using x Fin by simp
  qed (use x assms(5) in \<open>simp_all add: nonneg_def inf_times_def\<close>)
  then have "btw 0 1 (lib_exp lib (f64_mul (f64_neg l) ld))" using assms(1) by (simp add: exp_ok_def)
  moreover have "rep q" "0 < q" "q < 1" using assms(2,3,6) by (auto simp: sound_params_def wf_params_def)
  ultimately show ?thesis using blend_btw assms(4,6) x(1) by (simp add: attenuation_def)
qed

section \<open>Results\<close>

definition contrib :: "Params \<Rightarrow> string list \<Rightarrow> FactorActivation \<Rightarrow> contribution" where
  "contrib p domains f = contribution_of p domains f (projr (resolveEffective p f))"

lemma ct_id_contrib [simp]: "ct_id (contrib p domains f) = fa_FactorID f"
  by (simp add: contrib_def contribution_of_def Let_def)

lemma resolve_all_Inr:
  "resolve_all p fs = Inr effs \<Longrightarrow>
     (\<forall>f\<in>set fs. \<exists>eff. resolveEffective p f = Inr eff) \<and> effs = map (\<lambda>f. projr (resolveEffective p f)) fs"
  by (induction fs arbitrary: effs) (auto split: sum.splits)

lemma synth_error_None:
  "synth_error ord p domains inp = None \<longleftrightarrow>
     Validate ord domains p = None \<and> (p_Model p \<noteq> ModelLegacy \<longrightarrow> (\<forall>d\<in>set domains. p_Lambda p d \<noteq> None)) \<and>
     (p_Model p = ModelChain \<longrightarrow> (\<forall>f\<in>set (in_Factors inp). fa_TS f \<noteq> 0))"
proof -
  have split: "first_of (xs @ ys) = None \<longleftrightarrow> first_of xs = None \<and> first_of ys = None" for xs ys :: "ef_error option list"
    by auto
  have one: "first_of [e] = None \<longleftrightarrow> e = None" for e :: "ef_error option" by simp
  show ?thesis
    unfolding synth_error_def split one by (auto simp: first_of_map simp del: first_of_None split: if_splits)
qed

lemma Synthesize_Inr:
  assumes "Synthesize lib ord p domains inp = Inr r"
  shows "synth_error ord p domains inp = None" and "\<forall>f\<in>set (in_Factors inp). \<exists>eff. resolveEffective p f = Inr eff"
    and "p_Model p \<noteq> ModelLegacy \<Longrightarrow>
      (let cs = lib_sort lib (map (contrib p domains) (in_Factors inp));
           att = (\<lambda>d. attenuation lib p d (load p d cs))
       in r = \<lparr>rs_Model = p_Model p, rs_ParamsHash = Hash lib p, rs_L = on_domains domains (\<lambda>d. load p d cs),
               rs_P = on_domains domains att, rs_DomainScores = on_domains domains (\<lambda>d. f64_mul (score_of inp d) (att d)),
               rs_GlobalMultiplier = f64_1\<rparr>)"
    and "p_Model p = ModelLegacy \<Longrightarrow> rs_L r = on_domains domains (\<lambda>d. f64_0) \<and> rs_P r = on_domains domains (\<lambda>d. f64_1) \<and>
      rs_DomainScores r = on_domains domains (score_of inp)"
proof -
  obtain effs where e: "synth_error ord p domains inp = None" "resolve_all p (in_Factors inp) = Inr effs"
    using assms by (auto simp: Synthesize_def split: option.splits sum.splits)
  then show "synth_error ord p domains inp = None" "\<forall>f\<in>set (in_Factors inp). \<exists>eff. resolveEffective p f = Inr eff"
    using resolve_all_Inr by blast+
  have effs: "effs = map (\<lambda>f. projr (resolveEffective p f)) (in_Factors inp)" using resolve_all_Inr [OF e(2)] by blast
  have "map2 (contribution_of p domains) fs (map h fs) = map (\<lambda>f. contribution_of p domains f (h f)) fs" for h fs
    by (induction fs) auto
  then have cs: "map2 (contribution_of p domains) (in_Factors inp) effs = map (contrib p domains) (in_Factors inp)"
    by (simp add: effs contrib_def)
  show "p_Model p \<noteq> ModelLegacy \<Longrightarrow>
      (let cs = lib_sort lib (map (contrib p domains) (in_Factors inp));
           att = (\<lambda>d. attenuation lib p d (load p d cs))
       in r = \<lparr>rs_Model = p_Model p, rs_ParamsHash = Hash lib p, rs_L = on_domains domains (\<lambda>d. load p d cs),
               rs_P = on_domains domains att, rs_DomainScores = on_domains domains (\<lambda>d. f64_mul (score_of inp d) (att d)),
               rs_GlobalMultiplier = f64_1\<rparr>)"
    using assms by (simp add: Synthesize_def e cs Let_def)
  show "p_Model p = ModelLegacy \<Longrightarrow> rs_L r = on_domains domains (\<lambda>d. f64_0) \<and> rs_P r = on_domains domains (\<lambda>d. f64_1) \<and>
      rs_DomainScores r = on_domains domains (score_of inp)"
    using assms by (auto simp: Synthesize_def e)
qed

definition wf_activations :: "FactorActivation list \<Rightarrow> bool" where
  "wf_activations fs \<longleftrightarrow> list_all (\<lambda>f. wf64 (fa_EffectiveFactor f)) fs"

lemma contribs_unit:
  assumes "Synthesize lib ord p domains inp = Inr r" "orders_of ord p" "wf_params p" "wf_activations (in_Factors inp)"
    and "f \<in> set (in_Factors inp)" "d \<in> set domains"
  shows "btw 0 1 (ct_a (contrib p domains f) d)"
proof -
  have v: "Validate ord domains p = None" using Synthesize_Inr(1) [OF assms(1)] synth_error_None by blast
  obtain eff where eff: "resolveEffective p f = Inr eff" using Synthesize_Inr(2) [OF assms(1)] assms(5) by blast
  have "wf64 (fa_EffectiveFactor f)" using assms(4,5) by (auto simp: wf_activations_def list_all_iff)
  from contribution_unit [OF assms(2,3) v eff this] show ?thesis
    using assms(6) by (simp add: unit_contribution_def contrib_def eff)
qed

lemma sound_of_synth:
  assumes "Synthesize lib ord p domains inp = Inr r" "orders_of ord p"
  shows "sound_params domains p"
  using Synthesize_Inr(1) [OF assms(1)] synth_error_None Validate_None [OF assms(2)] by blast

text \<open>A sort by a key that occurs once has one result.\<close>

lemma sorts_by_unique:
  assumes "sorts_by k srt" "distinct (map k xs)"
  shows "srt xs = sort_key k xs"
proof (rule map_sorted_distinct_set_unique)
  have s: "set (srt xs) = set xs" by (rule sorts_by_set [OF assms(1)])
  have i: "inj_on k (set xs)" using assms(2) by (simp add: distinct_map)
  have "count_list (srt xs) x \<le> 1" for x
    using assms distinct_count_list [of xs x] by (simp add: sorts_by_def distinct_map)
  then have "distinct (srt xs)" by (rule count_list_distinct)
  then show "distinct (map k (srt xs))" using s i by (simp add: distinct_map)
  show "distinct (map k (sort_key k xs))" using i assms(2) by (simp add: distinct_map)
  show "inj_on k (set (srt xs) \<union> set (sort_key k xs))" using s i by simp
qed (use assms(1) sorts_by_set [OF assms(1)] in \<open>auto simp: sorts_by_def\<close>)

section \<open>A sum that depends on the order\<close>

text \<open>The decimals 0.1, 0.2, 0.3 and 0.4 and the sums two iteration orders go through.\<close>

lemma f64_of_rat_eval: "rnd x = y \<Longrightarrow> \<bar>y\<bar> \<le> 2 \<Longrightarrow> f64_of_rat x = Fin y"
proof -
  assume y: "rnd x = y" "\<bar>y\<bar> \<le> 2"
  have "(2::rat) < 2 ^ 1024" by simp
  then have "y < 2 ^ 1024" "- (2 ^ 1024) < y" using y(2) by linarith+
  then show ?thesis using y(1) by (simp add: f64_of_rat_def)
qed

lemma decimals:
  "lit (1 / 10) = Fin (3602879701896397 / 2 ^ 55)"
  "lit (2 / 10) = Fin (3602879701896397 / 2 ^ 54)"
  "lit (3 / 10) = Fin (5404319552844595 / 2 ^ 54)"
  "lit (4 / 10) = Fin (3602879701896397 / 2 ^ 53)"
proof -
  show "lit (1 / 10) = Fin (3602879701896397 / 2 ^ 55)"
    by (rule f64_of_rat_eval, subst rnd_eval_neg [of 4], simp_all add: rhe_def Let_def)
  show "lit (2 / 10) = Fin (3602879701896397 / 2 ^ 54)"
    by (rule f64_of_rat_eval, subst rnd_eval_neg [of 3], simp_all add: rhe_def Let_def)
  show "lit (3 / 10) = Fin (5404319552844595 / 2 ^ 54)"
    by (rule f64_of_rat_eval, subst rnd_eval_neg [of 2], simp_all add: rhe_def Let_def)
  show "lit (4 / 10) = Fin (3602879701896397 / 2 ^ 53)"
    by (rule f64_of_rat_eval, subst rnd_eval_neg [of 2], simp_all add: rhe_def Let_def)
qed

lemma sums_above:
  "f64_add (Fin (3602879701896397 / 2 ^ 54)) (Fin (3602879701896397 / 2 ^ 53)) = Fin (1351079888211149 / 2 ^ 51)"
  "f64_add (Fin (1351079888211149 / 2 ^ 51)) (Fin (5404319552844595 / 2 ^ 54)) = Fin (4053239664633447 / 2 ^ 52)"
  "f64_add (Fin (4053239664633447 / 2 ^ 52)) (Fin (3602879701896397 / 2 ^ 55)) = Fin (4503599627370497 / 2 ^ 52)"
proof -
  show "f64_add (Fin (3602879701896397 / 2 ^ 54)) (Fin (3602879701896397 / 2 ^ 53)) = Fin (1351079888211149 / 2 ^ 51)"
    by (simp only: f64_add.simps, rule f64_of_rat_eval, subst rnd_eval_neg [of 1], simp_all add: rhe_def Let_def)
  show "f64_add (Fin (1351079888211149 / 2 ^ 51)) (Fin (5404319552844595 / 2 ^ 54)) = Fin (4053239664633447 / 2 ^ 52)"
    by (simp only: f64_add.simps, rule f64_of_rat_eval, subst rnd_eval_neg [of 1], simp_all add: rhe_def Let_def)
  show "f64_add (Fin (4053239664633447 / 2 ^ 52)) (Fin (3602879701896397 / 2 ^ 55)) = Fin (4503599627370497 / 2 ^ 52)"
    by (simp only: f64_add.simps, rule f64_of_rat_eval, subst rnd_eval_pos [of 0], simp_all add: rhe_def Let_def)
qed

lemma sums_exact:
  "f64_add (Fin (3602879701896397 / 2 ^ 55)) (Fin (5404319552844595 / 2 ^ 54)) = Fin (3602879701896397 / 2 ^ 53)"
  "f64_add (Fin (3602879701896397 / 2 ^ 53)) (Fin (3602879701896397 / 2 ^ 53)) = Fin (3602879701896397 / 2 ^ 52)"
  "f64_add (Fin (3602879701896397 / 2 ^ 52)) (Fin (3602879701896397 / 2 ^ 54)) = Fin 1"
proof -
  show "f64_add (Fin (3602879701896397 / 2 ^ 55)) (Fin (5404319552844595 / 2 ^ 54)) = Fin (3602879701896397 / 2 ^ 53)"
    by (simp only: f64_add.simps, rule f64_of_rat_eval, subst rnd_eval_neg [of 2], simp_all add: rhe_def Let_def)
  show "f64_add (Fin (3602879701896397 / 2 ^ 53)) (Fin (3602879701896397 / 2 ^ 53)) = Fin (3602879701896397 / 2 ^ 52)"
    by (simp only: f64_add.simps, rule f64_of_rat_eval, subst rnd_eval_neg [of 1], simp_all add: rhe_def Let_def)
  show "f64_add (Fin (3602879701896397 / 2 ^ 52)) (Fin (3602879701896397 / 2 ^ 54)) = Fin 1"
    by (simp only: f64_add.simps, rule f64_of_rat_eval, subst rnd_eval_pos [of 0], simp_all add: rhe_def Let_def)
qed


definition decimal_vector :: "string \<rightharpoonup> f64" where
  "decimal_vector = [''attack_surface'' \<mapsto> lit (1 / 10), ''business_continuity'' \<mapsto> lit (2 / 10), ''operation_trust'' \<mapsto> lit (3 / 10),
     ''resilience'' \<mapsto> lit (4 / 10), ''kernel_security'' \<mapsto> f64_0]"

definition decimal_params :: Params where
  "decimal_params =
     \<lparr>p_Model = ModelVector, p_PFloor = Fin (1 / 2), p_Lambda = (\<lambda>d. if d \<in> set DefaultDomains then Some f64_1 else None), p_Vectors = [''EF-NO-IDS'' \<mapsto> decimal_vector],
      p_Coupling = Map.empty, p_ChainWindowSeconds = 0, p_Factors = [''EF-NO-IDS'' \<mapsto> Fin (1 / 2)]\<rparr>"

definition decimal_orders :: "string list \<Rightarrow> map_orders" where
  "decimal_orders ds =
     \<lparr>or_Lambda = DefaultDomains, or_Factors = [''EF-NO-IDS''], or_Vectors = [''EF-NO-IDS''], or_Vector = (\<lambda>_. ds),
      or_Coupling = [], or_Tos = (\<lambda>_. [])\<rparr>"

definition order_above :: "string list" where
  "order_above = [''kernel_security'', ''business_continuity'', ''resilience'', ''operation_trust'', ''attack_surface'']"

definition order_exact :: "string list" where
  "order_exact = [''kernel_security'', ''attack_surface'', ''operation_trust'', ''resilience'', ''business_continuity'']"

lemma decimal_orders_of:
  "orders_of (decimal_orders order_above) decimal_params" "orders_of (decimal_orders order_exact) decimal_params"
  by (auto simp: orders_of_def iter_order_def decimal_orders_def decimal_params_def decimal_vector_def order_above_def order_exact_def DefaultDomains_def dom_def
      split: if_splits)

lemma decimal_totals:
  "vector_total decimal_vector order_above = Fin (4503599627370497 / 2 ^ 52)" "vector_total decimal_vector order_exact = f64_1"
proof -
  have z: "f64_add f64_0 f64_0 = f64_0" "f64_add f64_0 (Fin (3602879701896397 / 2 ^ 54)) = Fin (3602879701896397 / 2 ^ 54)"
    "f64_add f64_0 (Fin (3602879701896397 / 2 ^ 55)) = Fin (3602879701896397 / 2 ^ 55)"
    using rep_small [of "3602879701896397 / 2 ^ 54" 3602879701896397 54] rep_small [of "3602879701896397 / 2 ^ 55" 3602879701896397 55]
    by simp_all
  have "List.map_filter decimal_vector order_above = [f64_0, lit (2 / 10), lit (4 / 10), lit (3 / 10), lit (1 / 10)]"
    "List.map_filter decimal_vector order_exact = [f64_0, lit (1 / 10), lit (3 / 10), lit (4 / 10), lit (2 / 10)]"
    by (simp_all add: List.map_filter_simps decimal_vector_def order_above_def order_exact_def)
  then show "vector_total decimal_vector order_above = Fin (4503599627370497 / 2 ^ 52)" "vector_total decimal_vector order_exact = f64_1"
    by (simp_all only: vector_total_def decimals z sums_above sums_exact foldl.simps)
qed

lemma decimal_sound: "sound_params DefaultDomains decimal_params"
proof -
  have "\<exists>x. lit (1 / 10) = Fin x \<and> 0 \<le> x" "\<exists>x. lit (2 / 10) = Fin x \<and> 0 \<le> x" "\<exists>x. lit (3 / 10) = Fin x \<and> 0 \<le> x" "\<exists>x. lit (4 / 10) = Fin x \<and> 0 \<le> x"
    unfolding decimals by (rule exI, rule conjI, rule refl, simp)+
  then show ?thesis
    by (auto simp: sound_params_def decimal_params_def decimal_vector_def DefaultDomains_def intro!: exI [of _ "1 / 2"] split: if_splits)
qed

text \<open>
  \<open>Validate\<close> sums a vector in the order Go iterates over the map, and rounds at every step. The vector 0.1, 0.2, 0.3,
  0.4, whose decimals add up to exactly 1, is accepted in one run and rejected in another.
\<close>

theorem validation_depends_on_map_order:
  "Validate (decimal_orders order_exact) DefaultDomains decimal_params = None \<and>
   Validate (decimal_orders order_above) DefaultDomains decimal_params \<noteq> None"
  unfolding Validate_None [OF decimal_orders_of(1)] Validate_None [OF decimal_orders_of(2)]
  using decimal_sound by (simp add: decimal_orders_def decimal_totals) (simp add: decimal_params_def decimal_totals)

section \<open>A concrete model\<close>

definition demo_lib :: synth_lib where
  "demo_lib = \<lparr>lib_exp = (\<lambda>x. if f64_le f64_0 x then f64_1 else Fin (1 / 4)), lib_sort = sort_key ct_id,
     lib_json = (\<lambda>_. None), lib_sha = (\<lambda>s. s)\<rparr>"

definition graph_params :: Params where
  "graph_params =
     \<lparr>p_Model = ModelGraph, p_PFloor = Fin (1 / 2), p_Lambda = [''d'' \<mapsto> f64_1], p_Vectors = [''A'' \<mapsto> [''d'' \<mapsto> Fin (1 / 2)]],
      p_Coupling = [''A'' \<mapsto> [''B'' \<mapsto> Fin (1 / 2)]], p_ChainWindowSeconds = 0, p_Factors = [''A'' \<mapsto> Fin (1 / 2), ''B'' \<mapsto> Fin (1 / 2)]\<rparr>"

definition graph_orders :: map_orders where
  "graph_orders =
     \<lparr>or_Lambda = [''d''], or_Factors = [''B'', ''A''], or_Vectors = [''A''], or_Vector = (\<lambda>_. [''d'']),
      or_Coupling = [''A''], or_Tos = (\<lambda>_. [''B''])\<rparr>"

definition activation :: "string \<Rightarrow> f64 \<Rightarrow> FactorActivation" where
  "activation fid f = \<lparr>fa_FactorID = fid, fa_TriggerCheck = [], fa_CTrigger = f64_1, fa_EffectiveFactor = f, fa_TS = 0\<rparr>"

definition graph_input :: "string list \<Rightarrow> Input" where
  "graph_input ids = \<lparr>in_DomainScores = [''d'' \<mapsto> Fin 80], in_Factors = map (\<lambda>i. activation i f64_0) ids\<rparr>"

lemma demo_lib_ok: "exp_ok demo_lib" "sorts_by ct_id (lib_sort demo_lib)"
proof -
  have "rep (1 / 4)" by simp
  then show "exp_ok demo_lib" by (auto simp: exp_ok_def demo_lib_def)
  show "sorts_by ct_id (lib_sort demo_lib)" by (simp add: demo_lib_def sorts_by_sort_key)
qed

lemma graph_ok: "orders_of graph_orders graph_params" "wf_params graph_params" "sound_params [''d''] graph_params"
  by (auto simp: orders_of_def iter_order_def graph_orders_def graph_params_def wf_params_def sound_params_def split: if_splits
      intro!: exI [of _ "1 / 2"])

lemma graph_valid: "Validate graph_orders [''d''] graph_params = None"
  unfolding Validate_None [OF graph_ok(1)]
  by (simp add: graph_ok(3)) (simp add: graph_params_def graph_orders_def vector_total_def List.map_filter_simps)

lemma resolve_all_ok: "\<forall>f\<in>set fs. \<exists>eff. resolveEffective p f = Inr eff \<Longrightarrow> \<exists>effs. resolve_all p fs = Inr effs"
  by (induction fs) auto

lemma Synthesize_total:
  assumes "synth_error ord p domains inp = None" "\<forall>f\<in>set (in_Factors inp). \<exists>eff. resolveEffective p f = Inr eff"
  shows "\<exists>r. Synthesize lib ord p domains inp = Inr r"
  using assms(1) resolve_all_ok [OF assms(2)] by (auto simp: Synthesize_def Let_def)

lemma graph_synthesizes:
  assumes "set ids \<subseteq> {''A'', ''B''}"
  shows "Synthesize lib graph_orders graph_params [''d''] (graph_input ids) =
    Inr (projr (Synthesize lib graph_orders graph_params [''d''] (graph_input ids)))"
proof -
  have "synth_error graph_orders graph_params [''d''] (graph_input ids) = None"
    unfolding synth_error_None by (simp add: graph_valid) (simp add: graph_params_def)
  moreover have "\<exists>eff. resolveEffective graph_params f = Inr eff" if "f \<in> set (in_Factors (graph_input ids))" for f
    using that assms by (auto simp: graph_input_def activation_def resolveEffective_def graph_params_def)
  ultimately obtain r where "Synthesize lib graph_orders graph_params [''d''] (graph_input ids) = Inr r"
    using Synthesize_total by blast
  then show ?thesis by simp
qed

lemma graph_wf: "wf_activations (in_Factors (graph_input ids))"
  by (simp add: wf_activations_def graph_input_def activation_def list_all_iff)

section \<open>Properties\<close>

lemma contribs_sorted:
  assumes "sorts_by ct_id (lib_sort lib)" "distinct (map fa_FactorID fs)"
  shows "lib_sort lib (map (contrib p domains) fs) = sort_key ct_id (map (contrib p domains) fs)"
  by (rule sorts_by_unique [OF assms(1)]) (use assms(2) in \<open>simp add: comp_def\<close>)

lemma synthesis_btw:
  assumes "exp_ok lib" "sorts_by ct_id (lib_sort lib)" "orders_of ord p" "wf_params p" "wf_activations (in_Factors inp)"
    and "Synthesize lib ord p domains inp = Inr r" "d \<in> set domains" "p_PFloor p = Fin q"
  shows "\<exists>c. rs_P r d = Some c \<and> btw q 1 c \<and> rs_DomainScores r d = Some (if p_Model p = ModelLegacy then score_of inp d else f64_mul (score_of inp d) c)"
proof (cases "p_Model p = ModelLegacy")
  case True
  have "0 < q" "q < 1" using sound_of_synth [OF assms(6,3)] assms(8) by (auto simp: sound_params_def)
  then show ?thesis using Synthesize_Inr(4) [OF assms(6) True] assms(7) True by (simp add: on_domains_def)
next
  case False
  note r = Synthesize_Inr(3) [OF assms(6) False, unfolded Let_def]
  define cs where "cs = lib_sort lib (map (contrib p domains) (in_Factors inp))"
  have sound: "sound_params domains p" by (rule sound_of_synth [OF assms(6,3)])
  have "set cs = contrib p domains ` set (in_Factors inp)" unfolding cs_def using sorts_by_set [OF assms(2)] by simp
  then have "\<forall>c\<in>set cs. btw 0 1 (ct_a c d)" using contribs_unit [OF assms(6,3-5) _ assms(7)] by auto
  then have ld: "nonneg (load p d cs)"
    unfolding load_def using load_terms_nonneg [OF sound_coupling [OF sound assms(4)]] by (intro nonneg_sum) auto
  obtain l where "p_Lambda p d = Some l"
    using Synthesize_Inr(1) [OF assms(6)] assms(7) False unfolding synth_error_None by auto
  from attenuation_btw [OF assms(1) sound assms(4) this ld assms(8)] show ?thesis
    using assms(7) False by (simp add: r on_domains_def cs_def [symmetric])
qed



text \<open>Activating further factors never lightens a domain: with more of the factors active, in any order, under any
  iteration orders of the maps, the load of every domain is at least as high. This covers the vector, graph and chain
  models, their couplings and the rounding of the sums.\<close>

theorem further_factors_never_lighten:
  assumes "sorts_by ct_id (lib_sort lib)" and "orders_of ord p" and "orders_of ord' p" and "wf_params p"
    and "wf_activations (in_Factors inp')" and "distinct (map fa_FactorID (in_Factors inp))" and "distinct (map fa_FactorID (in_Factors inp'))"
    and "set (in_Factors inp) \<subseteq> set (in_Factors inp')"
    and "Synthesize lib ord p domains inp = Inr r" and "Synthesize lib ord' p domains inp' = Inr r'" and "d \<in> set domains"
  shows "f64_le (the (rs_L r d)) (the (rs_L r' d))"
proof (cases "p_Model p = ModelLegacy")
  case True
  then show ?thesis using Synthesize_Inr(4) [OF assms(9) True] Synthesize_Inr(4) [OF assms(10) True] assms(11) by (simp add: on_domains_def)
next
  case False
  let ?c = "contrib p domains"
  have inj: "inj_on ct_id (?c ` set (in_Factors inp'))" using assms(7) by (auto simp: distinct_map inj_on_def)
  have "sort_key ct_id (map ?c (in_Factors inp)) = sort_key ct_id (filter (\<lambda>c. c \<in> ?c ` set (in_Factors inp)) (map ?c (in_Factors inp')))"
  proof (rule map_sorted_distinct_set_unique)
    let ?xs = "map ?c (in_Factors inp)" and ?ys = "filter (\<lambda>c. c \<in> ?c ` set (in_Factors inp)) (map ?c (in_Factors inp'))"
    have s: "set ?ys = set ?xs" using assms(8) by auto
    have i: "inj_on ct_id (set ?xs)" by (rule inj_on_subset [OF inj]) (use assms(8) in auto)
    show "inj_on ct_id (set (sort_key ct_id ?xs) \<union> set (sort_key ct_id ?ys))" using s i by simp
    have "distinct ?xs" "distinct (map ?c (in_Factors inp'))"
      using assms(6,7) by (auto simp: distinct_map inj_on_def dest: arg_cong [of "?c _" "?c _" ct_id])
    then show "distinct (map ct_id (sort_key ct_id ?xs))" "distinct (map ct_id (sort_key ct_id ?ys))"
      using s i by (simp_all add: distinct_map)
    show "set (sort_key ct_id ?xs) = set (sort_key ct_id ?ys)" using s by simp
  qed simp_all
  also have "\<dots> = filter (\<lambda>c. c \<in> ?c ` set (in_Factors inp)) (sort_key ct_id (map ?c (in_Factors inp')))"
    by (simp add: filter_sort)
  finally have sub: "subseq (sort_key ct_id (map ?c (in_Factors inp))) (sort_key ct_id (map ?c (in_Factors inp')))" by simp
  have unit: "\<forall>c\<in>set (sort_key ct_id (map ?c (in_Factors inp'))). btw 0 1 (ct_a c d)"
    using contribs_unit [OF assms(10,3,4,5) _ assms(11)] by auto
  from load_mono [OF sound_coupling [OF sound_of_synth [OF assms(9,2)] assms(4)] unit sub] show ?thesis
    using Synthesize_Inr(3) [OF assms(9) False] Synthesize_Inr(3) [OF assms(10) False] assms(11)
    by (simp add: on_domains_def Let_def contribs_sorted [OF assms(1,6)] contribs_sorted [OF assms(1,7)])
qed

theorem further_factors_never_lighten_witness:
  "f64_le (the (rs_L (projr (Synthesize demo_lib graph_orders graph_params [''d''] (graph_input [''B'']))) ''d''))
     (the (rs_L (projr (Synthesize demo_lib graph_orders graph_params [''d''] (graph_input [''A'', ''B'']))) ''d''))"
  by (rule further_factors_never_lighten [OF demo_lib_ok(2) graph_ok(1,1,2) graph_wf _ _ _ graph_synthesizes graph_synthesizes])
    (auto simp: graph_input_def activation_def)

text \<open>What comes out of a synthesis depends on the parameters and the set of active factors only: two runs that both
  succeed agree to the last bit, whatever the iteration orders of the maps, the order of the factors and the sort.\<close>

theorem synthesis_deterministic:
  assumes "sorts_by ct_id (lib_sort lib)" and "sorts_by ct_id srt" and "p_Model p \<noteq> ModelLegacy"
    and "distinct (map fa_FactorID (in_Factors inp))" and "distinct (map fa_FactorID fs)" and "set fs = set (in_Factors inp)"
    and "Synthesize lib ord p domains inp = Inr r"
    and "Synthesize (lib\<lparr>lib_sort := srt\<rparr>) ord' p domains (inp\<lparr>in_Factors := fs\<rparr>) = Inr r'"
  shows "r = r'"
proof -
  let ?c = "contrib p domains"
  have "sort_key ct_id (map ?c (in_Factors inp)) = sort_key ct_id (map ?c fs)"
  proof (rule map_sorted_distinct_set_unique)
    have i: "inj_on ct_id (?c ` set fs)" using assms(5) by (auto simp: distinct_map inj_on_def)
    show "inj_on ct_id (set (sort_key ct_id (map ?c (in_Factors inp))) \<union> set (sort_key ct_id (map ?c fs)))" using assms(6) i by simp
    have "distinct (map ?c (in_Factors inp))" "distinct (map ?c fs)"
      using assms(4,5) by (auto simp: distinct_map inj_on_def dest: arg_cong [of "?c _" "?c _" ct_id])
    then show "distinct (map ct_id (sort_key ct_id (map ?c (in_Factors inp))))" "distinct (map ct_id (sort_key ct_id (map ?c fs)))"
      using i assms(6) by (simp_all add: distinct_map)
  qed (use assms(6) in simp_all)
  moreover have "srt (map ?c fs) = sort_key ct_id (map ?c fs)"
    by (rule sorts_by_unique [OF assms(2)]) (use assms(5) in \<open>simp add: comp_def\<close>)
  moreover have "attenuation (lib\<lparr>lib_sort := srt\<rparr>) p = attenuation lib p" "Hash (lib\<lparr>lib_sort := srt\<rparr>) p = Hash lib p"
    "score_of (inp\<lparr>in_Factors := fs\<rparr>) = score_of inp"
    by (simp_all add: fun_eq_iff attenuation_def Hash_def score_of_def split: option.split)
  ultimately show ?thesis
    using Synthesize_Inr(3) [OF assms(7,3)] Synthesize_Inr(3) [OF assms(8,3)]
    by (simp add: Let_def contribs_sorted [OF assms(1,4)])
qed

theorem synthesis_deterministic_witness:
  "projr (Synthesize demo_lib graph_orders graph_params [''d''] (graph_input [''A'', ''B''])) =
   projr (Synthesize (demo_lib\<lparr>lib_sort := sort_key ct_id\<rparr>) graph_orders graph_params [''d'']
     ((graph_input [''A'', ''B''])\<lparr>in_Factors := in_Factors (graph_input [''B'', ''A''])\<rparr>))"
  by (rule synthesis_deterministic [OF demo_lib_ok(2) sorts_by_sort_key, where p = graph_params and domains = "[''d'']" and inp = "graph_input [''A'', ''B'']"
        and fs = "in_Factors (graph_input [''B'', ''A''])"])
    (use graph_synthesizes [of "[''A'', ''B'']" demo_lib] graph_synthesizes [of "[''B'', ''A'']" "demo_lib\<lparr>lib_sort := sort_key ct_id\<rparr>"] in
      \<open>auto simp: graph_input_def activation_def graph_params_def\<close>)

end
