(* ===== verification/Edge_Assembly.thy ===== *)
theory Edge_Assembly
  imports Edge_Synthesis Ssam_Range
begin

text \<open>
  \<open>internal/engine/ssam/edgefactor.go\<close> and the assembly of \<open>engine.go\<close>: from the configuration to the parameters of the
  synthesis, the plan for scoring, and the two hooks it installs in \<open>ssam-lib\<close>. The record \<open>ef_config\<close> holds the
  fields of \<open>config.Config\<close> this code reads. Each loop over a map has an order of its own (\<open>assembly_orders\<close>), and so
  has each call of a hook; \<open>uni\<close> is \<open>strings.ToUpper\<close> outside ASCII.
\<close>

section \<open>The configuration\<close>

record CustomEdgeFactorConfig =
  cef_Factor :: f64
  cef_TriggerCheck :: string

record EdgeFactorWeights =
  efw_TwoFactorFailure :: f64
  efw_SYNCookieDisabled :: f64
  efw_SELinuxDisabled :: f64
  efw_AppArmorDisabled :: f64
  efw_NoSIEM :: f64
  efw_NoIDS :: f64

record EdgeFactorModelConfig =
  efm_Model :: string
  efm_PFloor :: f64
  efm_Lambda :: "string \<rightharpoonup> f64"
  efm_Vectors :: "string \<rightharpoonup> (string \<rightharpoonup> f64)"
  efm_Coupling :: "string \<rightharpoonup> (string \<rightharpoonup> f64)"
  efm_ChainWindowSeconds :: int
  efm_TriggerMap :: "string \<rightharpoonup> string"

record ef_config =
  cfg_EdgeFactors :: EdgeFactorWeights
  cfg_EdgeFactorsCustom :: "string \<rightharpoonup> CustomEdgeFactorConfig"
  cfg_EdgeFactorModel :: EdgeFactorModelConfig

record assembly_orders =
  ao_custom :: "string list"
  ao_trigger :: "string list"
  ao_keys :: map_orders
  ao_symmetry :: map_orders
  ao_validate :: map_orders

datatype assembly_error =
    ConfigMissing
  | TriggerUnknownFactor string
  | TriggerEmpty string
  | VectorUnknownFactor string
  | CouplingUnknownFrom string
  | CouplingUnknownTo string
  | SelfCoupling string
  | CouplingConflict string string f64 f64
  | InvalidParams ef_error
  | ChainOffline
  | NoOnlinePlan string
  | NoRequestedDomain string

section \<open>Parameters from the configuration\<close>

definition ef3FAFactorID :: string where
  "ef3FAFactorID = ''EF-3FA''"

definition legacyOnlyParams :: Params where
  "legacyOnlyParams =
     \<lparr>p_Model = ModelLegacy, p_PFloor = f64_0, p_Lambda = Map.empty, p_Vectors = Map.empty, p_Coupling = Map.empty,
      p_ChainWindowSeconds = 0, p_Factors = Map.empty\<rparr>"

definition builtin_factors :: "EdgeFactorWeights \<Rightarrow> (string \<rightharpoonup> f64)" where
  "builtin_factors w =
     [''EF-002FA'' \<mapsto> efw_TwoFactorFailure w, ''EF-SYNCOOKIE'' \<mapsto> efw_SYNCookieDisabled w, ''EF-SELINUX'' \<mapsto> efw_SELinuxDisabled w,
      ''EF-APPARMOR'' \<mapsto> efw_AppArmorDisabled w, ''EF-NO-SIEM'' \<mapsto> efw_NoSIEM w, ''EF-NO-IDS'' \<mapsto> efw_NoIDS w]"

definition factorWeights :: "(string \<Rightarrow> string) \<Rightarrow> string list \<Rightarrow> ef_config \<Rightarrow> (string \<rightharpoonup> f64)" where
  "factorWeights uni order cf =
     foldl (\<lambda>m fid.
        case cfg_EdgeFactorsCustom cf fid of
          None \<Rightarrow> m
        | Some c \<Rightarrow>
            let key = NormalizeFactorID uni fid
            in if key = [] \<or> m key \<noteq> None then m else m(key \<mapsto> cef_Factor c))
       (builtin_factors (cfg_EdgeFactors cf)) order"

definition knownTriggerFactorIDs :: "(string \<rightharpoonup> f64) \<Rightarrow> string \<Rightarrow> bool" where
  "knownTriggerFactorIDs factors fid \<longleftrightarrow> factors fid \<noteq> None \<or> fid = ef3FAFactorID"

definition validateTriggerOverrides :: "string list \<Rightarrow> (string \<rightharpoonup> string) \<Rightarrow> (string \<Rightarrow> bool) \<Rightarrow> assembly_error option" where
  "validateTriggerOverrides order overrides known =
     first_of (map (\<lambda>fid.
       case overrides fid of
         None \<Rightarrow> None
       | Some check \<Rightarrow>
           if \<not> known fid then Some (TriggerUnknownFactor fid)
           else if trim_space check = [] then Some (TriggerEmpty fid) else None) order)"

definition key_errors :: "map_orders \<Rightarrow> Params \<Rightarrow> assembly_error option list" where
  "key_errors ord p =
     map (\<lambda>fid. if p_Factors p fid = None then Some (VectorUnknownFactor fid) else None) (or_Vectors ord) @
     concat (map (\<lambda>from.
        (if p_Factors p from = None then Some (CouplingUnknownFrom from) else None) #
        map (\<lambda>to. if p_Factors p to = None then Some (CouplingUnknownTo to)
                   else if from = to then Some (SelfCoupling from) else None) (or_Tos ord from)) (or_Coupling ord))"

definition symmetry_error :: "Params \<Rightarrow> string \<Rightarrow> string \<Rightarrow> assembly_error option" where
  "symmetry_error p from to =
     (if to < from then None
      else case (Option.bind (p_Coupling p from) (\<lambda>tos. tos to), Option.bind (p_Coupling p to) (\<lambda>tos. tos from)) of
             (Some c, Some other) \<Rightarrow> if f64_eq other c then None else Some (CouplingConflict from to c other)
           | _ \<Rightarrow> None)"

definition validateAssembly :: "map_orders \<Rightarrow> map_orders \<Rightarrow> Params \<Rightarrow> assembly_error option" where
  "validateAssembly ord ord' p =
     first_of (key_errors ord p @
       (if p_Model p \<noteq> ModelGraph then []
        else concat (map (\<lambda>from. map (symmetry_error p from) (or_Tos ord' from)) (or_Coupling ord'))))"

definition config_params :: "(string \<Rightarrow> string) \<Rightarrow> assembly_orders \<Rightarrow> ef_config \<Rightarrow> Params" where
  "config_params uni ao cf =
     (let m = cfg_EdgeFactorModel cf
      in \<lparr>p_Model = ModelLegacy, p_PFloor = efm_PFloor m, p_Lambda = efm_Lambda m, p_Vectors = efm_Vectors m,
          p_Coupling = efm_Coupling m, p_ChainWindowSeconds = efm_ChainWindowSeconds m,
          p_Factors = factorWeights uni (ao_custom ao) cf\<rparr>)"

text \<open>The three results of the source: the parameters, whether a model is enabled, the error.\<close>

definition ParamsFromConfig ::
    "(string \<Rightarrow> string) \<Rightarrow> assembly_orders \<Rightarrow> ef_config option \<Rightarrow> Params \<times> bool \<times> assembly_error option" where
  "ParamsFromConfig uni ao cfg =
     (case cfg of
        None \<Rightarrow> (legacyOnlyParams, False, Some ConfigMissing)
      | Some cf \<Rightarrow>
          let m = cfg_EdgeFactorModel cf; p = config_params uni ao cf
          in case validateTriggerOverrides (ao_trigger ao) (efm_TriggerMap m) (knownTriggerFactorIDs (p_Factors p)) of
               Some e \<Rightarrow> (legacyOnlyParams, False, Some e)
             | None \<Rightarrow>
                 if efm_Model m = [] then (p, False, None)
                 else let p = p\<lparr>p_Model := efm_Model m\<rparr>
                      in case validateAssembly (ao_keys ao) (ao_symmetry ao) p of
                           Some e \<Rightarrow> (legacyOnlyParams, False, Some e)
                         | None \<Rightarrow>
                             (case Validate (ao_validate ao) DefaultDomains p of
                                Some e \<Rightarrow> (legacyOnlyParams, False, Some (InvalidParams e))
                              | None \<Rightarrow> (p, True, None)))"

section \<open>Activations and the plan\<close>

definition ActivationFromResult :: "(string \<Rightarrow> string) \<Rightarrow> EdgeFactorResult \<Rightarrow> string \<Rightarrow> FactorActivation option" where
  "ActivationFromResult uni r check =
     (if \<not> efr_Active r then None
      else Some \<lparr>fa_FactorID = NormalizeFactorID uni (efr_ID r), fa_TriggerCheck = check, fa_CTrigger = efr_TriggerConfidence r,
                 fa_EffectiveFactor = EffectiveFactor (efr_Factor r) (efr_TriggerConfidence r), fa_TS = 0\<rparr>)"

definition activationsFromResults :: "(string \<Rightarrow> string) \<Rightarrow> Params \<Rightarrow> EdgeFactorResult list \<Rightarrow> FactorActivation list" where
  "activationsFromResults uni p results =
     List.map_filter (\<lambda>r.
       case ActivationFromResult uni r [] of
         None \<Rightarrow> None
       | Some act \<Rightarrow>
           let fid = NormalizeFactorID uni (fa_FactorID act)
           in if p_Factors p fid = None then None else Some (act\<lparr>fa_FactorID := fid\<rparr>)) results"

record synthesizePlan =
  sp_params :: Params
  sp_domains :: "string list"

definition newSynthesizePlan :: "Params \<Rightarrow> assembly_error + synthesizePlan" where
  "newSynthesizePlan p =
     (if p_Model p = ModelChain then Inl ChainOffline
      else if p_Model p \<noteq> ModelVector \<and> p_Model p \<noteq> ModelGraph then Inl (NoOnlinePlan (p_Model p))
      else let all = RequestedDomains p
           in if all = [] then Inl (NoRequestedDomain (p_Model p))
              else Inr \<lparr>sp_params = PruneToDomains p all, sp_domains = all\<rparr>)"

definition synthesizeWithModel ::
    "synth_lib \<Rightarrow> (string \<Rightarrow> string) \<Rightarrow> map_orders \<Rightarrow> synthesizePlan \<Rightarrow> EdgeFactorResult list \<Rightarrow> ef_error + Result" where
  "synthesizeWithModel lib uni ord plan factors =
     Synthesize lib ord (sp_params plan) (sp_domains plan)
       \<lparr>in_DomainScores = Map.empty, in_Factors = activationsFromResults uni (sp_params plan) factors\<rparr>"

text \<open>The two closures \<open>ApplyEdgeFactorModel\<close> installs.\<close>

definition strategy_hook ::
    "synth_lib \<Rightarrow> (string \<Rightarrow> string) \<Rightarrow> map_orders \<Rightarrow> synthesizePlan \<Rightarrow> EdgeFactorStrategy" where
  "strategy_hook lib uni ord plan factors =
     (case synthesizeWithModel lib uni ord plan factors of Inl _ \<Rightarrow> f64_1 | Inr r \<Rightarrow> rs_GlobalMultiplier r)"

definition adjust_hook ::
    "synth_lib \<Rightarrow> (string \<Rightarrow> string) \<Rightarrow> map_orders \<Rightarrow> synthesizePlan \<Rightarrow> DomainAdjustFunc" where
  "adjust_hook lib uni ord plan scores factors =
     (case synthesizeWithModel lib uni ord plan factors of
        Inl _ \<Rightarrow> scores
      | Inr r \<Rightarrow>
          map (\<lambda>s. case rs_P r (ds_Domain s) of None \<Rightarrow> s | Some pd \<Rightarrow> s\<lparr>ds_Score := f64_mul (ds_Score s) pd\<rparr>) scores)"

section \<open>Assembling the model\<close>

text \<open>The part of \<open>Engine\<close> the assembly writes, with the hooks of the library, which are global to the process.\<close>

record edge_state =
  es_params :: Params
  es_loaded :: bool
  es_hooks :: hooks

record edge_env =
  en_lib :: synth_lib
  en_uni :: "string \<Rightarrow> string"
  en_orders :: assembly_orders
  en_strategy_order :: map_orders
  en_adjust_order :: map_orders

definition resetEdgeFactorHooks :: "edge_state \<Rightarrow> edge_state" where
  "resetEdgeFactorHooks s = s\<lparr>es_hooks := RegisterDomainAdjust None (RegisterEdgeFactorStrategy None (es_hooks s))\<rparr>"

definition clearEdgeFactorModel :: "edge_state \<Rightarrow> edge_state" where
  "clearEdgeFactorModel s = s\<lparr>es_params := legacyOnlyParams\<lparr>p_Model := []\<rparr>, es_loaded := False\<rparr>"

definition storeEdgeFactorModel :: "Params \<Rightarrow> edge_state \<Rightarrow> edge_state" where
  "storeEdgeFactorModel p s = s\<lparr>es_params := p, es_loaded := True\<rparr>"

definition LoadedEdgeFactorParams :: "edge_state \<Rightarrow> Params option" where
  "LoadedEdgeFactorParams s = (if es_loaded s then Some (es_params s) else None)"

definition install_hooks :: "edge_env \<Rightarrow> synthesizePlan \<Rightarrow> edge_state \<Rightarrow> edge_state" where
  "install_hooks en plan s =
     s\<lparr>es_hooks := RegisterDomainAdjust (Some (adjust_hook (en_lib en) (en_uni en) (en_adjust_order en) plan))
         (RegisterEdgeFactorStrategy (Some (strategy_hook (en_lib en) (en_uni en) (en_strategy_order en) plan)) (es_hooks s))\<rparr>"

definition ApplyEdgeFactorModel :: "edge_env \<Rightarrow> ef_config option \<Rightarrow> edge_state \<Rightarrow> edge_state \<times> assembly_error option" where
  "ApplyEdgeFactorModel en cfg s =
     (let off = resetEdgeFactorHooks (clearEdgeFactorModel s)
      in case cfg of
           None \<Rightarrow> (off, None)
         | Some cf \<Rightarrow>
             (case ParamsFromConfig (en_uni en) (en_orders en) (Some cf) of
                (p, enabled, Some e) \<Rightarrow> (off, Some e)
              | (p, enabled, None) \<Rightarrow>
                  if \<not> enabled then (off, None)
                  else if p_Model p = ModelLegacy then (resetEdgeFactorHooks (storeEdgeFactorModel p s), None)
                  else (case newSynthesizePlan p of
                          Inl e \<Rightarrow> (off, Some e)
                        | Inr plan \<Rightarrow> (install_hooks en plan (storeEdgeFactorModel p s), None))))"

section \<open>The plan is executable\<close>

lemma EffectiveFactor_unit:
  assumes "btw 0 1 f" "c \<noteq> NaN"
  shows "btw 0 1 (EffectiveFactor f c)"
proof -
  obtain x where x: "f = Fin x" "0 \<le> x" "x \<le> 1" "rep x" using btwD [OF assms(1)] by auto
  have d: "btw 0 1 (f64_sub f64_1 f)" using btw_sub_from [OF assms(1), of 1] by simp
  show ?thesis
  proof (cases "f64_le c f64_0 \<or> f64_ge c f64_1")
    case True
    then show ?thesis using assms(1) by (auto simp: EffectiveFactor_def)
  next
    case False
    then obtain y where y: "c = Fin y" "0 < y" "y < 1" using assms(2) by (cases c) auto
    obtain u where u: "f64_sub f64_1 f = Fin u" "0 \<le> u" "u \<le> 1" "rep u" using btwD [OF d] by auto
    obtain r where "f64_mul (Fin u) (Fin y) = Fin r" "rep r" "0 \<le> r" "r \<le> u"
      using f64_mul_unit [OF u(2,4), of y] y by auto
    then have "btw 0 1 (f64_mul (f64_sub f64_1 f) c)" using u y by simp
    from btw_sub_from [OF this, of 1] False show ?thesis by (simp add: EffectiveFactor_def)
  qed
qed

text \<open>No order of summing a vector exceeds 1.\<close>

definition sum_robust :: "Params \<Rightarrow> bool" where
  "sum_robust p \<longleftrightarrow>
     (\<forall>fid vec ds. p_Vectors p fid = Some vec \<longrightarrow> distinct ds \<longrightarrow> set ds \<subseteq> dom vec \<longrightarrow> \<not> f64_gt (vector_total vec ds) f64_1)"

definition sane_results :: "EdgeFactorResult list \<Rightarrow> bool" where
  "sane_results rs \<longleftrightarrow> list_all (\<lambda>r. btw 0 1 (efr_Factor r) \<and> efr_TriggerConfidence r \<noteq> NaN) rs"

lemma map_filter_cong: "(\<And>d. d \<in> set ds \<Longrightarrow> f d = g d) \<Longrightarrow> List.map_filter f ds = List.map_filter g ds"
  by (induction ds) (simp_all add: List.map_filter_simps cong: option.case_cong)

lemma prune_sound:
  assumes "sound_params DefaultDomains p"
  shows "sound_params (RequestedDomains p) (PruneToDomains p (RequestedDomains p))"
proof -
  have s: "set (RequestedDomains p) = {d \<in> set DefaultDomains. p_Lambda p d \<noteq> None}" by (simp add: RequestedDomains_def)
  have lam: "\<forall>d l. p_Lambda (PruneToDomains p (RequestedDomains p)) d = Some l \<longrightarrow> d \<in> set (RequestedDomains p) \<and> (\<exists>x. l = Fin x \<and> 0 < x)"
    using assms unfolding sound_params_def PruneToDomains_def by (simp add: restrict_map_def)
  have vec: "dom v = set (RequestedDomains p) \<and> (\<forall>d x. v d = Some x \<longrightarrow> (\<exists>y. x = Fin y \<and> 0 \<le> y))"
    if v: "p_Vectors (PruneToDomains p (RequestedDomains p)) fid = Some v" for fid v
  proof -
    obtain w where w: "p_Vectors p fid = Some w" "v = w |` set (RequestedDomains p)" using v by (auto simp: PruneToDomains_def)
    have "dom w = set DefaultDomains" "\<forall>d x. w d = Some x \<longrightarrow> (\<exists>y. x = Fin y \<and> 0 \<le> y)"
      using assms w(1) unfolding sound_params_def by blast+
    moreover from this have "set (RequestedDomains p) \<subseteq> dom w" using s by auto
    moreover have "(w |` A) d = Some x \<Longrightarrow> w d = Some x" for A d x by (simp add: restrict_map_def split: if_splits)
    ultimately show ?thesis unfolding w(2) dom_restrict by blast
  qed
  have rest: "p_Model (PruneToDomains p ds) = p_Model p" "p_PFloor (PruneToDomains p ds) = p_PFloor p"
    "p_Factors (PruneToDomains p ds) = p_Factors p" "p_Coupling (PruneToDomains p ds) = p_Coupling p"
    "p_ChainWindowSeconds (PruneToDomains p ds) = p_ChainWindowSeconds p" for ds
    by (simp_all add: PruneToDomains_def)
  show ?thesis
    unfolding sound_params_def rest using assms lam vec unfolding sound_params_def by blast
qed

lemma prune_valid:
  assumes "Validate ord DefaultDomains p = None" "orders_of ord p" "sum_robust p"
    and "orders_of ord' (PruneToDomains p (RequestedDomains p))"
  shows "Validate ord' (RequestedDomains p) (PruneToDomains p (RequestedDomains p)) = None"
proof -
  let ?D = "RequestedDomains p"
  have sound: "sound_params DefaultDomains p" using assms(1) Validate_None [OF assms(2)] by blast
  have "\<not> f64_gt (vector_total vec' (or_Vector ord' fid)) f64_1"
    if v': "p_Vectors (PruneToDomains p ?D) fid = Some vec'" for fid vec'
  proof -
    obtain vec where v: "p_Vectors p fid = Some vec" "vec' = vec |` set ?D"
      using v' by (auto simp: PruneToDomains_def)
    have io: "iter_order (or_Vector ord' fid) vec'" using assms(4) v' by (auto simp: orders_of_def)
    then have d: "distinct (or_Vector ord' fid)" "set (or_Vector ord' fid) = dom vec \<inter> set ?D" by (auto simp: iter_order_def v(2))
    have "vector_total vec' (or_Vector ord' fid) = vector_total vec (or_Vector ord' fid)"
      unfolding vector_total_def by (rule arg_cong [of _ _ "foldl f64_add f64_0"], rule map_filter_cong) (use d in \<open>simp add: v(2)\<close>)
    then show ?thesis using assms(3) v(1) d unfolding sum_robust_def by (metis Int_lower1)
  qed
  then show ?thesis using Validate_None [OF assms(4)] prune_sound [OF sound] by blast
qed

lemma activations_from:
  assumes "a \<in> set (activationsFromResults uni p rs)"
  shows "\<exists>r\<in>set rs. fa_EffectiveFactor a = EffectiveFactor (efr_Factor r) (efr_TriggerConfidence r) \<and> p_Factors p (fa_FactorID a) \<noteq> None"
  using assms
  by (auto simp: activationsFromResults_def List.map_filter_def ActivationFromResult_def Let_def split: if_splits option.splits)

lemma plan_params:
  assumes "newSynthesizePlan p = Inr plan"
  shows "sp_domains plan = RequestedDomains p" and "sp_params plan = PruneToDomains p (RequestedDomains p)"
    and "p_Model (sp_params plan) = p_Model p" and "p_Model p = ModelVector \<or> p_Model p = ModelGraph"
  using assms by (auto simp: newSynthesizePlan_def PruneToDomains_def Let_def split: if_splits)

text \<open>C23: A model that was accepted can be executed: for an accepted configuration whose vectors sum to at most 1 in any
  order, no scoring run ever falls back to the silent default, whatever the results of the checks and the iteration
  orders of that run.\<close>

theorem accepted_model_always_synthesizes:
  assumes "ParamsFromConfig uni ao (Some cf) = (p, True, None)" and "orders_of (ao_validate ao) p" and "sum_robust p"
    and "newSynthesizePlan p = Inr plan" and "orders_of ord (sp_params plan)" and "sane_results results"
  shows "\<exists>r. synthesizeWithModel lib uni ord plan results = Inr r"
proof -
  have v: "Validate (ao_validate ao) DefaultDomains p = None"
    using assms(1) by (auto simp: ParamsFromConfig_def Let_def split: option.splits if_splits)
  note plan = plan_params [OF assms(4)]
  let ?D = "RequestedDomains p"
  have v': "Validate ord ?D (sp_params plan) = None"
    using prune_valid [OF v assms(2,3)] assms(5) by (simp add: plan(2))
  have sound: "sound_params ?D (sp_params plan)" using v' Validate_None [OF assms(5)] by blast
  have lam: "\<forall>d\<in>set ?D. p_Lambda (sp_params plan) d \<noteq> None"
    by (auto simp: plan(2) PruneToDomains_def RequestedDomains_def)
  have "synth_error ord (sp_params plan) ?D \<lparr>in_DomainScores = Map.empty, in_Factors = activationsFromResults uni (sp_params plan) results\<rparr> = None"
    unfolding synth_error_None using v' lam plan(3,4) by auto
  moreover have "\<exists>eff. resolveEffective (sp_params plan) a = Inr eff" if a: "a \<in> set (activationsFromResults uni (sp_params plan) results)" for a
  proof -
    obtain r where r: "r \<in> set results" "fa_EffectiveFactor a = EffectiveFactor (efr_Factor r) (efr_TriggerConfidence r)"
      "p_Factors (sp_params plan) (fa_FactorID a) \<noteq> None" using activations_from [OF a] by blast
    obtain x where x: "fa_EffectiveFactor a = Fin x" "0 \<le> x" "x \<le> 1"
      using btwD [OF EffectiveFactor_unit [of "efr_Factor r" "efr_TriggerConfidence r"]] assms(6) r(1,2)
      by (auto simp: sane_results_def list_all_iff)
    obtain w where w: "p_Factors (sp_params plan) (fa_FactorID a) = Some w" using r(3) by auto
    obtain y where "w = Fin y" "0 < y" "y \<le> 1" using sound w unfolding sound_params_def by blast
    then show ?thesis using x w by (cases "x = 0") (simp_all add: resolveEffective_def)
  qed
  ultimately show ?thesis
    unfolding synthesizeWithModel_def plan(1) by (intro Synthesize_total) simp_all
qed

section \<open>Concrete configurations\<close>

definition half :: f64 where "half = Fin (1 / 2)"

definition demo_weights_half :: EdgeFactorWeights where
  "demo_weights_half =
     \<lparr>efw_TwoFactorFailure = half, efw_SYNCookieDisabled = half, efw_SELinuxDisabled = half, efw_AppArmorDisabled = half,
      efw_NoSIEM = half, efw_NoIDS = half\<rparr>"

definition vector_config :: "(string \<rightharpoonup> f64) \<Rightarrow> ef_config" where
  "vector_config vec =
     \<lparr>cfg_EdgeFactors = demo_weights_half, cfg_EdgeFactorsCustom = Map.empty,
      cfg_EdgeFactorModel =
        \<lparr>efm_Model = ModelVector, efm_PFloor = half, efm_Lambda = (\<lambda>d. if d \<in> set DefaultDomains then Some f64_1 else None),
         efm_Vectors = [''EF-NO-IDS'' \<mapsto> vec], efm_Coupling = Map.empty, efm_ChainWindowSeconds = 0, efm_TriggerMap = Map.empty\<rparr>\<rparr>"

definition vector_model :: "(string \<rightharpoonup> f64) \<Rightarrow> Params" where
  "vector_model vec =
     \<lparr>p_Model = ModelVector, p_PFloor = half, p_Lambda = (\<lambda>d. if d \<in> set DefaultDomains then Some f64_1 else None),
      p_Vectors = [''EF-NO-IDS'' \<mapsto> vec], p_Coupling = Map.empty, p_ChainWindowSeconds = 0,
      p_Factors = builtin_factors demo_weights_half\<rparr>"

definition builtin_ids :: "string list" where
  "builtin_ids = [''EF-002FA'', ''EF-SYNCOOKIE'', ''EF-SELINUX'', ''EF-APPARMOR'', ''EF-NO-SIEM'', ''EF-NO-IDS'']"

definition vector_orders :: "string list \<Rightarrow> map_orders" where
  "vector_orders ds =
     \<lparr>or_Lambda = DefaultDomains, or_Factors = builtin_ids, or_Vectors = [''EF-NO-IDS''], or_Vector = (\<lambda>_. ds),
      or_Coupling = [], or_Tos = (\<lambda>_. [])\<rparr>"

definition vector_assembly :: "string list \<Rightarrow> assembly_orders" where
  "vector_assembly ds =
     \<lparr>ao_custom = [], ao_trigger = [], ao_keys = vector_orders ds, ao_symmetry = vector_orders ds, ao_validate = vector_orders ds\<rparr>"

lemma builtin_half: "builtin_factors demo_weights_half fid = (if fid \<in> set builtin_ids then Some half else None)"
  by (simp add: builtin_factors_def demo_weights_half_def builtin_ids_def)

lemma builtin_ids_distinct: "distinct builtin_ids" "distinct DefaultDomains"
  by (simp_all add: builtin_ids_def DefaultDomains_def)

lemma vector_orders_of:
  assumes "distinct ds" "set ds = set DefaultDomains" "dom vec = set DefaultDomains"
  shows "orders_of (vector_orders ds) (vector_model vec)"
  using assms builtin_ids_distinct
  by (auto simp: orders_of_def iter_order_def vector_orders_def vector_model_def builtin_half dom_def split: if_splits)

lemma vector_sound:
  assumes "dom vec = set DefaultDomains" "\<forall>d v. vec d = Some v \<longrightarrow> (\<exists>x. v = Fin x \<and> 0 \<le> x)"
  shows "sound_params DefaultDomains (vector_model vec)"
  using assms unfolding sound_params_def vector_model_def
  by (auto simp: builtin_half half_def intro!: exI [of _ "1 / 2"] split: if_splits)

lemma vector_accepted:
  assumes "distinct ds" "set ds = set DefaultDomains" "dom vec = set DefaultDomains"
    and "\<forall>d v. vec d = Some v \<longrightarrow> (\<exists>x. v = Fin x \<and> 0 \<le> x)" and "\<not> f64_gt (vector_total vec ds) f64_1"
  shows "ParamsFromConfig uni (vector_assembly ds) (Some (vector_config vec)) = (vector_model vec, True, None)"
proof -
  have p: "(config_params uni (vector_assembly ds) (vector_config vec))\<lparr>p_Model := ModelVector\<rparr> = vector_model vec"
    by (simp add: config_params_def vector_config_def vector_assembly_def vector_model_def factorWeights_def Let_def)
  have "Validate (vector_orders ds) DefaultDomains (vector_model vec) = None"
    unfolding Validate_None [OF vector_orders_of [OF assms(1-3)]]
    using vector_sound [OF assms(3,4)] assms(5) by (auto simp: vector_model_def vector_orders_def split: if_splits)
  moreover have "validateAssembly (vector_orders ds) (vector_orders ds) (vector_model vec) = None"
    by (simp add: validateAssembly_def key_errors_def vector_orders_def vector_model_def builtin_half builtin_ids_def)
  moreover have "efm_Model (cfg_EdgeFactorModel (vector_config vec)) = ModelVector" "efm_TriggerMap (cfg_EdgeFactorModel (vector_config vec)) = Map.empty"
    by (simp_all add: vector_config_def)
  moreover have "validateTriggerOverrides [] m k = None" for m k by (simp add: validateTriggerOverrides_def)
  ultimately show ?thesis
    using p by (simp add: ParamsFromConfig_def Let_def vector_assembly_def)
qed

lemma vector_plan:
  assumes "dom vec = set DefaultDomains"
  shows "newSynthesizePlan (vector_model vec) = Inr \<lparr>sp_params = vector_model vec, sp_domains = DefaultDomains\<rparr>"
proof -
  have r: "RequestedDomains (vector_model vec) = DefaultDomains" by (simp add: RequestedDomains_def vector_model_def)
  have v: "vec |` set DefaultDomains = vec" unfolding assms [symmetric] by (rule ext) (auto simp: restrict_map_def domIff)
  have "PruneToDomains (vector_model vec) DefaultDomains = vector_model vec"
    unfolding PruneToDomains_def by (auto simp: vector_model_def restrict_map_def v fun_eq_iff) (metis restrict_map_def v)
  then show ?thesis by (simp add: newSynthesizePlan_def r) (simp add: vector_model_def DefaultDomains_def)
qed

definition half_vector :: "string \<rightharpoonup> f64" where
  "half_vector d = (if d \<in> set DefaultDomains then Some (if d = ''resilience'' then half else f64_0) else None)"

lemma half_vector_dom: "dom half_vector = set DefaultDomains" "\<forall>d v. half_vector d = Some v \<longrightarrow> (\<exists>x. v = Fin x \<and> 0 \<le> x)"
  by (auto simp: half_vector_def dom_def half_def intro: exI [of _ "1 / 2"] split: if_splits)

lemma half_vector_fold:
  fixes ds :: "string list"
  assumes "distinct ds" "acc = f64_0 \<or> acc = half \<and> ''resilience'' \<notin> set ds"
  shows "foldl f64_add acc (List.map_filter half_vector ds) \<in> {f64_0, half}"
  using assms
proof (induction ds arbitrary: acc)
  case (Cons d ds)
  have a: "f64_add f64_0 f64_0 = f64_0" "f64_add f64_0 half = half" "f64_add half f64_0 = half" by (simp_all add: half_def)
  show ?case
    using Cons.prems a Cons.IH [of acc] Cons.IH [of half] by (auto simp: List.map_filter_simps half_vector_def split: if_splits)
qed (auto simp: List.map_filter_simps)

lemma half_vector_robust: "sum_robust (vector_model half_vector)"
  unfolding sum_robust_def
proof (intro allI impI)
  fix fid vec and ds :: "string list"
  assume v: "p_Vectors (vector_model half_vector) fid = Some vec" "distinct ds"
  have "foldl f64_add f64_0 (List.map_filter half_vector ds) \<in> {f64_0, half}" by (rule half_vector_fold) (use v(2) in auto)
  moreover have "vec = half_vector" using v(1) by (simp add: vector_model_def split: if_splits)
  ultimately show "\<not> f64_gt (vector_total vec ds) f64_1" by (auto simp: vector_total_def half_def)
qed

lemma half_vector_sum: "\<not> f64_gt (vector_total half_vector DefaultDomains) f64_1"
  using half_vector_robust builtin_ids_distinct(2) half_vector_dom(1)
  unfolding sum_robust_def by (metis (no_types) Params.select_convs(4) fun_upd_same order_refl vector_model_def)

definition ids_result :: "string \<Rightarrow> EdgeFactorResult" where
  "ids_result fid = \<lparr>efr_ID = fid, efr_Name = fid, efr_Factor = half, efr_Active = True, efr_TriggerConfidence = f64_1\<rparr>"

theorem accepted_model_always_synthesizes_witness:
  "\<exists>r. synthesizeWithModel demo_lib (\<lambda>s. s) (vector_orders (rev DefaultDomains))
     \<lparr>sp_params = vector_model half_vector, sp_domains = DefaultDomains\<rparr> [ids_result ''EF-NO-IDS''] = Inr r"
proof (rule accepted_model_always_synthesizes [OF vector_accepted [of DefaultDomains half_vector]])
  show "orders_of (ao_validate (vector_assembly DefaultDomains)) (vector_model half_vector)"
    using vector_orders_of [OF builtin_ids_distinct(2) refl half_vector_dom(1)] by (simp add: vector_assembly_def)
  show "newSynthesizePlan (vector_model half_vector) = Inr \<lparr>sp_params = vector_model half_vector, sp_domains = DefaultDomains\<rparr>"
    by (rule vector_plan [OF half_vector_dom(1)])
  show "orders_of (vector_orders (rev DefaultDomains)) (sp_params \<lparr>sp_params = vector_model half_vector, sp_domains = DefaultDomains\<rparr>)"
    using vector_orders_of [of "rev DefaultDomains" half_vector] builtin_ids_distinct(2) half_vector_dom(1) by simp
  show "\<not> f64_gt (vector_total half_vector DefaultDomains) f64_1"
    by (rule half_vector_sum)
  show "sane_results [ids_result ''EF-NO-IDS'']" by (simp add: sane_results_def ids_result_def half_def)
qed (use half_vector_robust half_vector_dom builtin_ids_distinct(2) in auto)

text \<open>The vector of decimals is accepted in one order; a run that iterates in another falls back and punishes nothing.\<close>

theorem accepted_model_may_score_nothing:
  "ParamsFromConfig uni (vector_assembly order_exact) (Some (vector_config decimal_vector)) = (vector_model decimal_vector, True, None) \<and>
   newSynthesizePlan (vector_model decimal_vector) = Inr \<lparr>sp_params = vector_model decimal_vector, sp_domains = DefaultDomains\<rparr> \<and>
   orders_of (vector_orders order_above) (vector_model decimal_vector) \<and>
   adjust_hook lib uni (vector_orders order_above) \<lparr>sp_params = vector_model decimal_vector, sp_domains = DefaultDomains\<rparr> scores factors = scores \<and>
   strategy_hook lib uni (vector_orders order_above) \<lparr>sp_params = vector_model decimal_vector, sp_domains = DefaultDomains\<rparr> factors = f64_1"
proof (intro conjI)
  have d: "dom decimal_vector = set DefaultDomains" "\<forall>d v. decimal_vector d = Some v \<longrightarrow> (\<exists>x. v = Fin x \<and> 0 \<le> x)"
  proof -
    have "p_Vectors decimal_params ''EF-NO-IDS'' = Some decimal_vector" by (simp add: decimal_params_def)
    then show "dom decimal_vector = set DefaultDomains" "\<forall>d v. decimal_vector d = Some v \<longrightarrow> (\<exists>x. v = Fin x \<and> 0 \<le> x)"
      using decimal_sound unfolding sound_params_def by blast+
  qed
  have o: "distinct order_exact" "set order_exact = set DefaultDomains" "distinct order_above" "set order_above = set DefaultDomains"
    by (auto simp: order_exact_def order_above_def DefaultDomains_def)
  show "ParamsFromConfig uni (vector_assembly order_exact) (Some (vector_config decimal_vector)) = (vector_model decimal_vector, True, None)"
    by (rule vector_accepted [OF o(1,2) d]) (simp add: decimal_totals)
  show "newSynthesizePlan (vector_model decimal_vector) = Inr \<lparr>sp_params = vector_model decimal_vector, sp_domains = DefaultDomains\<rparr>"
    by (rule vector_plan [OF d(1)])
  show ord: "orders_of (vector_orders order_above) (vector_model decimal_vector)" by (rule vector_orders_of [OF o(3,4) d(1)])
  have "Validate (vector_orders order_above) DefaultDomains (vector_model decimal_vector) \<noteq> None"
    unfolding Validate_None [OF ord] by (simp add: vector_model_def vector_orders_def decimal_totals)
  then obtain e where "synth_error (vector_orders order_above) (vector_model decimal_vector) DefaultDomains inp = Some e" for inp
    unfolding synth_error_def by auto
  then have "\<exists>e. synthesizeWithModel lib uni (vector_orders order_above) \<lparr>sp_params = vector_model decimal_vector, sp_domains = DefaultDomains\<rparr> factors = Inl e"
    by (simp add: synthesizeWithModel_def Synthesize_def)
  then show "adjust_hook lib uni (vector_orders order_above) \<lparr>sp_params = vector_model decimal_vector, sp_domains = DefaultDomains\<rparr> scores factors = scores"
    "strategy_hook lib uni (vector_orders order_above) \<lparr>sp_params = vector_model decimal_vector, sp_domains = DefaultDomains\<rparr> factors = f64_1"
    by (auto simp: adjust_hook_def strategy_hook_def)
qed

text \<open>A custom factor with the identifier of a built-in one in lower case, as the factory configuration has them, is
  normalised to the same identifier and counted a second time.\<close>

lemma upper_ids: "map upper_char ''EF-NO-IDS'' = ''EF-NO-IDS''" "map upper_char ''ef-no-ids'' = ''EF-NO-IDS''"
  by code_simp+

lemma normalize_ids: "NormalizeFactorID uni ''EF-NO-IDS'' = ''EF-NO-IDS''" "NormalizeFactorID uni ''ef-no-ids'' = ''EF-NO-IDS''"
proof -
  have "trim_space ''EF-NO-IDS'' = ''EF-NO-IDS''" "trim_space ''ef-no-ids'' = ''ef-no-ids''"
    by (rule trim_space_id; simp add: graphic_def)+
  then show "NormalizeFactorID uni ''EF-NO-IDS'' = ''EF-NO-IDS''" "NormalizeFactorID uni ''ef-no-ids'' = ''EF-NO-IDS''"
    using upper_ids by (simp_all add: NormalizeFactorID_def to_upper_def)
qed

theorem repeated_factor_counts_twice:
  "activationsFromResults uni (vector_model half_vector) [ids_result ''EF-NO-IDS'', ids_result ''ef-no-ids''] =
   [activation ''EF-NO-IDS'' half, activation ''EF-NO-IDS'' half]"
proof -
  have "p_Factors (vector_model half_vector) ''EF-NO-IDS'' = Some half" by (simp add: vector_model_def builtin_half builtin_ids_def)
  moreover have "EffectiveFactor half f64_1 = half" by (simp add: EffectiveFactor_def)
  ultimately show ?thesis
    by (simp add: activationsFromResults_def ActivationFromResult_def List.map_filter_simps ids_result_def normalize_ids activation_def Let_def)
qed

section \<open>Hooks and stamp\<close>

lemma hooks_eqI:
  "edgeFactorStrategy h = edgeFactorStrategy h' \<Longrightarrow> edgeFactorStrategyIsDefault h = edgeFactorStrategyIsDefault h' \<Longrightarrow> domainAdjust h = domainAdjust h' \<Longrightarrow>
   h = (h' :: hooks)"
  by simp

lemma reset_hooks: "es_hooks (resetEdgeFactorHooks s) = default_hooks"
  by (simp add: resetEdgeFactorHooks_def RegisterDomainAdjust_def RegisterEdgeFactorStrategy_def default_hooks_def)

lemma ParamsFromConfig_enabled:
  "ParamsFromConfig uni ao cfg = (p, True, None) \<Longrightarrow> Validate (ao_validate ao) DefaultDomains p = None"
  by (auto simp: ParamsFromConfig_def Let_def split: option.splits if_splits)

lemma applied_hooks:
  "let (t, err) = ApplyEdgeFactorModel en cfg s
   in case LoadedEdgeFactorParams t of
        None \<Rightarrow> es_hooks t = default_hooks
      | Some p \<Rightarrow> err = None \<and>
          (if p_Model p = ModelLegacy then es_hooks t = default_hooks
           else \<exists>plan. newSynthesizePlan p = Inr plan \<and>
                  es_hooks t = \<lparr>edgeFactorStrategy = strategy_hook (en_lib en) (en_uni en) (en_strategy_order en) plan,
                    edgeFactorStrategyIsDefault = False,
                    domainAdjust = Some (adjust_hook (en_lib en) (en_uni en) (en_adjust_order en) plan)\<rparr>)"
proof -
  have l: "LoadedEdgeFactorParams (resetEdgeFactorHooks (clearEdgeFactorModel s)) = None"
    "LoadedEdgeFactorParams (resetEdgeFactorHooks (storeEdgeFactorModel p s)) = Some p"
    "LoadedEdgeFactorParams (install_hooks en plan (storeEdgeFactorModel p s)) = Some p" for p plan
    by (simp_all add: LoadedEdgeFactorParams_def resetEdgeFactorHooks_def clearEdgeFactorModel_def storeEdgeFactorModel_def install_hooks_def)
  have h: "es_hooks (install_hooks en plan t) = \<lparr>edgeFactorStrategy = strategy_hook (en_lib en) (en_uni en) (en_strategy_order en) plan,
      edgeFactorStrategyIsDefault = False, domainAdjust = Some (adjust_hook (en_lib en) (en_uni en) (en_adjust_order en) plan)\<rparr>" for plan t
    by (simp add: install_hooks_def RegisterDomainAdjust_def RegisterEdgeFactorStrategy_def)
  show ?thesis
    by (auto simp: ApplyEdgeFactorModel_def Let_def l h reset_hooks split: option.split prod.split sum.split)
qed

lemma apply_model_forgets: "ApplyEdgeFactorModel en cfg s = ApplyEdgeFactorModel en cfg s'"
proof -
  have "resetEdgeFactorHooks (clearEdgeFactorModel s) = resetEdgeFactorHooks (clearEdgeFactorModel s')"
    "resetEdgeFactorHooks (storeEdgeFactorModel p s) = resetEdgeFactorHooks (storeEdgeFactorModel p s')"
    "install_hooks en plan (storeEdgeFactorModel p s) = install_hooks en plan (storeEdgeFactorModel p s')" for p plan
    by (simp_all add: resetEdgeFactorHooks_def clearEdgeFactorModel_def storeEdgeFactorModel_def install_hooks_def
        RegisterDomainAdjust_def RegisterEdgeFactorStrategy_def)
  then show ?thesis by (auto simp: ApplyEdgeFactorModel_def Let_def split: option.split prod.split sum.split)
qed

text \<open>C24: A reload replaces everything. The engine's parameters and the process-wide hooks after \<open>ApplyEdgeFactorModel\<close>
  depend on the configuration only, never on what was installed before; and they belong together: without loaded
  parameters, or with the legacy model, the hooks are the library's defaults, and otherwise they are the closures over
  the plan of exactly the parameters that stamp the output. An error leaves nothing loaded.\<close>

theorem reload_replaces_everything:
  "ApplyEdgeFactorModel en cfg s = ApplyEdgeFactorModel en cfg s' \<and>
   (let (t, err) = ApplyEdgeFactorModel en cfg s
    in case LoadedEdgeFactorParams t of
         None \<Rightarrow> es_hooks t = default_hooks
       | Some p \<Rightarrow> err = None \<and>
           (if p_Model p = ModelLegacy then es_hooks t = default_hooks
            else \<exists>plan. newSynthesizePlan p = Inr plan \<and>
                   es_hooks t = \<lparr>edgeFactorStrategy = strategy_hook (en_lib en) (en_uni en) (en_strategy_order en) plan,
                     edgeFactorStrategyIsDefault = False,
                     domainAdjust = Some (adjust_hook (en_lib en) (en_uni en) (en_adjust_order en) plan)\<rparr>))"
proof
  show "ApplyEdgeFactorModel en cfg s = ApplyEdgeFactorModel en cfg s'" by (rule apply_model_forgets)
  show "let (t, err) = ApplyEdgeFactorModel en cfg s
    in case LoadedEdgeFactorParams t of
         None \<Rightarrow> es_hooks t = default_hooks
       | Some p \<Rightarrow> err = None \<and>
           (if p_Model p = ModelLegacy then es_hooks t = default_hooks
            else \<exists>plan. newSynthesizePlan p = Inr plan \<and>
                   es_hooks t = \<lparr>edgeFactorStrategy = strategy_hook (en_lib en) (en_uni en) (en_strategy_order en) plan,
                     edgeFactorStrategyIsDefault = False,
                     domainAdjust = Some (adjust_hook (en_lib en) (en_uni en) (en_adjust_order en) plan)\<rparr>)"
    by (rule applied_hooks)
qed

section \<open>Scores under a model\<close>

lemma times_factors_le: "btw 0 100 b \<Longrightarrow> f64_le (times_factors b efs) b"
proof (induction efs arbitrary: b)
  case Nil
  then show ?case using btwD [of 0 100 b] by (auto simp: times_factors_def)
next
  case (Cons f efs)
  show ?case
  proof (cases "counts f")
    case True
    have m: "btw 0 100 (times_factors b [f])" by (rule times_factors_btw [OF Cons.prems])
    obtain x where x: "efr_Factor f = Fin x" "0 < x" "x < 1"
      using True by (cases "efr_Factor f") (auto simp: counts_def f64_lt_def)
    obtain u where u: "b = Fin u" "0 \<le> u" "rep u" using btwD [OF Cons.prems] by auto
    obtain r where r: "f64_mul (Fin u) (Fin x) = Fin r" "r \<le> u" using f64_mul_unit [OF u(2,3), of x] x by auto
    then have le: "f64_le (times_factors b [f]) b" using True u(1) x(1) by (simp add: times_factors_def)
    have "times_factors b (f # efs) = times_factors (times_factors b [f]) efs" by (simp add: times_factors_def)
    then show ?thesis using Cons.IH [OF m] le f64_le_trans by metis
  next
    case False
    then show ?thesis using Cons.IH [OF Cons.prems] by (simp add: times_factors_def)
  qed
qed

lemma f64_mul_one: "wf64 b \<Longrightarrow> f64_mul b f64_1 = b"
  by simp

lemma strategy_hook_one:
  assumes "newSynthesizePlan p = Inr plan"
  shows "strategy_hook lib uni ord plan factors = f64_1"
proof (cases "synthesizeWithModel lib uni ord plan factors")
  case (Inr r)
  have "p_Model (sp_params plan) \<noteq> ModelLegacy" using plan_params(3,4) [OF assms] by auto
  from Synthesize_Inr(3) [OF Inr [unfolded synthesizeWithModel_def] this] show ?thesis
    by (simp add: strategy_hook_def Inr Let_def)
qed (simp add: strategy_hook_def)

lemma ran_restrict: "x \<in> ran (m |` A) \<Longrightarrow> x \<in> ran m"
  by (auto simp: ran_def restrict_map_def split: if_splits)

lemma prune_vectors: "v \<in> ran (p_Vectors (PruneToDomains p ds)) \<Longrightarrow> \<exists>w\<in>ran (p_Vectors p). v = w |` set ds"
  by (auto simp: PruneToDomains_def ran_def)

lemma prune_wf:
  assumes "wf_params p"
  shows "wf_params (PruneToDomains p ds)"
  unfolding wf_params_def
proof (intro conjI ballI)
  fix v x
  assume "v \<in> ran (p_Vectors (PruneToDomains p ds))" "x \<in> ran v"
  then obtain w where "w \<in> ran (p_Vectors p)" "x \<in> ran w" using prune_vectors ran_restrict by metis
  then show "wf64 x" using assms by (simp add: wf_params_def)
qed (use assms in \<open>auto simp: PruneToDomains_def wf_params_def dest: ran_restrict\<close>)

lemma EffectiveFactor_wf: "wf64 f \<Longrightarrow> wf64 (EffectiveFactor f c)"
  by (simp add: EffectiveFactor_def)

text \<open>The domain hook scales every score by a coefficient of at most 1, or leaves it.\<close>

lemma adjust_hook_below:
  assumes "exp_ok lib" "sorts_by ct_id (lib_sort lib)" "newSynthesizePlan p = Inr plan" "wf_params p" "orders_of ord (sp_params plan)"
    and "list_all (\<lambda>f. wf64 (efr_Factor f)) efs" "list_all (\<lambda>d. btw 0 100 (ds_Score d)) ds"
  shows "scores_below (adjust_hook lib uni ord plan ds efs) ds \<and> list_all (\<lambda>d. btw 0 100 (ds_Score d)) (adjust_hook lib uni ord plan ds efs)"
proof (cases "synthesizeWithModel lib uni ord plan efs")
  case (Inl e)
  have "f64_le (ds_Score d) (ds_Score d)" if "d \<in> set ds" for d using assms(7) that btw_le_refl by (auto simp: list_all_iff)
  then show ?thesis using Inl assms(7) by (simp add: adjust_hook_def scores_below_def list_all2_same)
next
  case (Inr r)
  let ?p = "sp_params plan" and ?inp = "\<lparr>in_DomainScores = Map.empty, in_Factors = activationsFromResults uni (sp_params plan) efs\<rparr>"
  have r: "Synthesize lib ord ?p (sp_domains plan) ?inp = Inr r" using Inr by (simp add: synthesizeWithModel_def)
  have wp: "wf_params ?p" using plan_params(2) [OF assms(3)] prune_wf [OF assms(4)] by simp
  have "wf64 (fa_EffectiveFactor a)" if "a \<in> set (in_Factors ?inp)" for a
    using activations_from [of a uni ?p efs] that assms(6) EffectiveFactor_wf by (auto simp: list_all_iff)
  then have wa: "wf_activations (in_Factors ?inp)" by (simp only: wf_activations_def list_all_iff) blast
  obtain q where q: "p_PFloor ?p = Fin q" "0 < q" using sound_of_synth [OF r assms(5)] by (auto simp: sound_params_def)
  have legacy: "p_Model ?p \<noteq> ModelLegacy" using plan_params(3,4) [OF assms(3)] by auto
  have unit: "btw 0 1 c" if "rs_P r d = Some c" for c d
  proof -
    have "d \<in> set (sp_domains plan)" using that Synthesize_Inr(3) [OF r legacy] by (auto simp: Let_def on_domains_def split: if_splits)
    from synthesis_btw [OF assms(1,2,5) wp wa r this q(1)] show ?thesis using that q(2) btw_mono [of q 1 c 0 1] by auto
  qed
  let ?f = "\<lambda>s. case rs_P r (ds_Domain s) of None \<Rightarrow> s | Some pd \<Rightarrow> s\<lparr>ds_Score := f64_mul (ds_Score s) pd\<rparr>"
  have one: "ds_Domain (?f d) = ds_Domain d \<and> f64_le (ds_Score (?f d)) (ds_Score d) \<and> btw 0 100 (ds_Score (?f d))" if d: "d \<in> set ds" for d
  proof (cases "rs_P r (ds_Domain d)")
    case None
    then show ?thesis using d assms(7) btw_le_refl by (auto simp: list_all_iff)
  next
    case (Some c)
    obtain x where x: "c = Fin x" "0 \<le> x" "x \<le> 1" using btwD [OF unit [OF Some]] by auto
    have "btw 0 100 (ds_Score d)" using assms(7) d by (simp add: list_all_iff)
    from btwD [OF this] obtain y where y: "ds_Score d = Fin y" "0 \<le> y" "y \<le> 100" "rep y" by blast
    obtain z where "f64_mul (Fin y) (Fin x) = Fin z" "rep z" "0 \<le> z" "z \<le> y" using f64_mul_unit [OF y(2,4) x(2,3)] by blast
    then show ?thesis using Some x(1) y by (simp del: f64_mul.simps)
  qed
  have "adjust_hook lib uni ord plan ds efs = map ?f ds" using Inr by (simp add: adjust_hook_def)
  then show ?thesis using one
    by (simp add: scores_below_def list_all2_map1 list_all2_same list_all_iff)
qed

lemma v20_hooked:
  assumes "edgeFactorStrategy hk efs = f64_1" "\<not> edgeFactorStrategyIsDefault hk" "domainAdjust hk = Some f"
  shows "fs_Total (SSAMV20Formula hk ds ws rc efs) = fs_Total (SSAMV20Formula default_hooks (f ds efs) ws rc [])"
  using assms
  by (simp add: SSAMV20Formula_def applyDomainAdjust_def applyEdgeFactorStrategyToBase_def default_hooks_def times_factors_def
      Let_def split: prod.split)

text \<open>C11: Edge factors only ever take points away, whichever model a configuration selects. The v2.0 total under the hooks
  of any configuration, accepted or refused, with any results of the factors, is at most the total of the same domains
  without edge factors, through every rounding.\<close>

theorem edge_model_never_raises_score:
  assumes "ApplyEdgeFactorModel en cfg s = (t, err)" and "exp_ok (en_lib en)" and "sorts_by ct_id (lib_sort (en_lib en))"
    and "\<forall>p plan. LoadedEdgeFactorParams t = Some p \<longrightarrow> newSynthesizePlan p = Inr plan \<longrightarrow>
           wf_params p \<and> orders_of (en_adjust_order en) (sp_params plan)"
    and "list_all (\<lambda>f. wf64 (efr_Factor f)) efs"
    and "list_all int_weight ws" and "list_all good_score ds" and "length ds \<le> 2 ^ 20" and "damping (rc_Exposure rc)" and "damping (rc_Threat rc)"
  shows "f64_le (fs_Total (SSAMV20Formula (es_hooks t) ds ws rc efs)) (fs_Total (SSAMV20Formula default_hooks ds ws rc []))"
proof -
  have ds: "list_all (\<lambda>d. btw 0 100 (ds_Score d)) ds" using assms(7) by (simp add: list_all_iff good_score_def)
  have same: "scores_below ds ds"
    using ds btw_le_refl by (auto simp: scores_below_def list_all2_same list_all_iff)
  have default: ?thesis if "es_hooks t = default_hooks"
    unfolding that by (rule v20_mono_factors [OF assms(6) ds ds same assms(8-10)])
      (use times_factors_le in \<open>simp add: times_factors_def\<close>)
  have hooked: ?thesis if p: "LoadedEdgeFactorParams t = Some p" "newSynthesizePlan p = Inr plan"
    "es_hooks t = \<lparr>edgeFactorStrategy = strategy_hook (en_lib en) (en_uni en) (en_strategy_order en) plan, edgeFactorStrategyIsDefault = False,
       domainAdjust = Some (adjust_hook (en_lib en) (en_uni en) (en_adjust_order en) plan)\<rparr>" for p plan
  proof -
    have "wf_params p" "orders_of (en_adjust_order en) (sp_params plan)" using assms(4) p(1,2) by blast+
    note b = adjust_hook_below [OF assms(2,3) p(2) this assms(5) ds, of "en_uni en"]
    have "length (adjust_hook (en_lib en) (en_uni en) (en_adjust_order en) plan ds efs) = length ds"
      using b by (auto simp: scores_below_def dest: list_all2_lengthD)
    then show ?thesis
      using v20_mono [OF assms(6) _ ds _ _ assms(9,10)] b assms(8)
        v20_hooked [of "es_hooks t" efs, OF _ _ ] strategy_hook_one [OF p(2)] p(3) by simp
  qed
  show ?thesis
    using applied_hooks [of en cfg s] assms(1) default hooked
    by (auto simp: split: option.splits if_splits)
qed

definition demo_env :: edge_env where
  "demo_env =
     \<lparr>en_lib = demo_lib, en_uni = (\<lambda>s. s), en_orders = vector_assembly DefaultDomains,
      en_strategy_order = vector_orders DefaultDomains, en_adjust_order = vector_orders DefaultDomains\<rparr>"

definition idle_state :: edge_state where
  "idle_state = \<lparr>es_params = legacyOnlyParams, es_loaded = False, es_hooks = default_hooks\<rparr>"

lemma demo_applies:
  "ApplyEdgeFactorModel demo_env (Some (vector_config half_vector)) idle_state =
     (install_hooks demo_env \<lparr>sp_params = vector_model half_vector, sp_domains = DefaultDomains\<rparr>
        (storeEdgeFactorModel (vector_model half_vector) idle_state), None)"
proof -
  have "ParamsFromConfig (\<lambda>s. s) (vector_assembly DefaultDomains) (Some (vector_config half_vector)) = (vector_model half_vector, True, None)"
    by (rule vector_accepted [OF builtin_ids_distinct(2) refl half_vector_dom half_vector_sum])
  moreover have "p_Model (vector_model half_vector) \<noteq> ModelLegacy" by (simp add: vector_model_def)
  moreover have "en_uni demo_env = (\<lambda>s. s)" "en_orders demo_env = vector_assembly DefaultDomains" by (simp_all add: demo_env_def)
  ultimately show ?thesis
    by (simp add: ApplyEdgeFactorModel_def Let_def) (simp add: vector_plan [OF half_vector_dom(1)])
qed

lemma vector_model_wf: "wf_params (vector_model half_vector)"
  by (auto simp: wf_params_def vector_model_def half_def half_vector_def ran_def builtin_half split: if_splits)

theorem edge_model_never_raises_score_witness:
  "f64_le (fs_Total (SSAMV20Formula (es_hooks (fst (ApplyEdgeFactorModel demo_env (Some (vector_config half_vector)) idle_state)))
       demo_scores DefaultWeights demo_rc [ids_result ''EF-NO-IDS'']))
     (fs_Total (SSAMV20Formula default_hooks demo_scores DefaultWeights demo_rc []))"
proof (rule edge_model_never_raises_score [OF prod.collapse [symmetric] _ _ _ _ demo_weights])
  let ?t = "fst (ApplyEdgeFactorModel demo_env (Some (vector_config half_vector)) idle_state)"
  have "LoadedEdgeFactorParams ?t = Some (vector_model half_vector)"
    by (simp add: demo_applies install_hooks_def storeEdgeFactorModel_def LoadedEdgeFactorParams_def)
  then show "\<forall>p plan. LoadedEdgeFactorParams ?t = Some p \<longrightarrow> newSynthesizePlan p = Inr plan \<longrightarrow>
      wf_params p \<and> orders_of (en_adjust_order demo_env) (sp_params plan)"
    using vector_model_wf vector_orders_of [OF builtin_ids_distinct(2) refl half_vector_dom(1)]
    by (auto simp: vector_plan [OF half_vector_dom(1)] demo_env_def)
qed (use demo_lib_ok in \<open>simp_all add: demo_env_def ids_result_def half_def demo_scores_def good_score_def demo_rc_def damping_def\<close>)

end
