(* ===== verification/Config_Sections.thy ===== *)
theory Config_Sections
  imports Edge_Assembly
begin

text \<open>
  The section parser of \<open>internal/config/config.go\<close> and its typed lookups. The sections are a map of maps as in the
  source; \<open>lo\<close> is \<open>strings.ToLower\<close> on the strings that are not pure ASCII.
\<close>

type_synonym section_map = "string \<rightharpoonup> string"

type_synonym sections = "string \<rightharpoonup> section_map"

definition to_lower :: "(string \<Rightarrow> string) \<Rightarrow> string \<Rightarrow> string" where
  "to_lower lo s = (if list_all (\<lambda>c. (of_char c :: nat) < 128) s then to_lower_ascii s else lo s)"

definition equal_fold :: "string \<Rightarrow> string \<Rightarrow> bool" where
  "equal_fold s t \<longleftrightarrow> to_lower_ascii s = to_lower_ascii t"

definition key_line :: "(string \<Rightarrow> string) \<Rightarrow> string \<times> sections \<Rightarrow> string \<Rightarrow> string \<times> sections" where
  "key_line lo st line =
     (case split_n2 ''='' line of
        [k, v] \<Rightarrow>
          (let (cur, secs) = st; kv = (case secs cur of None \<Rightarrow> Map.empty | Some kv \<Rightarrow> kv)
           in (cur, secs(cur \<mapsto> kv(trim_space (to_lower lo k) \<mapsto> trim_space v))))
      | _ \<Rightarrow> st)"

definition parse_line :: "(string \<Rightarrow> string) \<Rightarrow> string \<times> sections \<Rightarrow> string \<Rightarrow> string \<times> sections" where
  "parse_line lo st raw =
     (let line = trim_space raw
      in if line = [] \<or> prefix ''#'' line \<or> prefix '';'' line then st
         else if prefix ''['' line \<and> suffix '']'' line then
           (let cur = to_lower lo (trim_space (take (length line - 2) (drop 1 line)))
            in (cur, if snd st cur = None then (snd st)(cur \<mapsto> Map.empty) else snd st))
         else key_line lo st line)"

definition parseSections :: "(string \<Rightarrow> string) \<Rightarrow> string \<Rightarrow> sections" where
  "parseSections lo content =
     snd (foldl (parse_line lo) (''global'', [''global'' \<mapsto> Map.empty]) (split_on (CHR 0x0A) content))"

definition getFloat :: "section_map \<Rightarrow> string \<Rightarrow> f64 option" where
  "getFloat sec key = Option.bind (sec key) ParseFloat"

definition getBool :: "section_map \<Rightarrow> string \<Rightarrow> bool" where
  "getBool sec key = (case sec key of None \<Rightarrow> False | Some v \<Rightarrow> equal_fold v ''true'' \<or> equal_fold v ''on'' \<or> v = ''1'')"

definition getString :: "section_map \<Rightarrow> string \<Rightarrow> string" where
  "getString sec key = (case sec key of None \<Rightarrow> [] | Some v \<Rightarrow> trim_space v)"

section \<open>Keys are lower-case\<close>

definition upper_ascii :: "char \<Rightarrow> bool" where
  "upper_ascii c \<longleftrightarrow> 65 \<le> (of_char c :: nat) \<and> (of_char c :: nat) \<le> 90"

text \<open>What \<open>strings.ToLower\<close> documents of the upper-case ASCII letters.\<close>

definition lower_ok :: "(string \<Rightarrow> string) \<Rightarrow> bool" where
  "lower_ok lo \<longleftrightarrow> (\<forall>s. \<not> list_ex upper_ascii (lo s))"

lemma upper_ascii_iff: "upper_ascii c \<longleftrightarrow> 65 \<le> (of_char c :: nat) \<and> of_char c \<le> (90 :: nat)"
  by (simp add: upper_ascii_def)

lemma lower_ascii_no_upper: "\<not> list_ex upper_ascii (to_lower_ascii s)"
  by (auto simp: to_lower_ascii_def upper_ascii_def list_ex_iff)

lemma to_lower_no_upper: "lower_ok lo \<Longrightarrow> \<not> list_ex upper_ascii (to_lower lo s)"
  by (simp add: to_lower_def lower_ok_def lower_ascii_no_upper)

lemma strip_all_subset: "set (strip_all ws s) \<subseteq> set s"
proof (induction ws s rule: strip_all.induct)
  case (1 ws s)
  show ?case
  proof (cases "strip_one ws s")
    case None
    then show ?thesis by (simp add: strip_all_id)
  next
    case (Some t)
    moreover have "set t \<subseteq> set s" using Some by (auto simp: strip_one_def dest: in_set_dropD)
    ultimately show ?thesis using "1" by (subst strip_all.simps) auto
  qed
qed

lemma trim_space_subset: "set (trim_space s) \<subseteq> set s"
  using strip_all_subset [of "map rev go_spaces" "rev (strip_all go_spaces s)"] strip_all_subset [of go_spaces s]
  by (simp add: trim_space_def)

definition lower_keys :: "sections \<Rightarrow> bool" where
  "lower_keys secs \<longleftrightarrow> (\<forall>sec kv k. secs sec = Some kv \<longrightarrow> kv k \<noteq> None \<longrightarrow> \<not> list_ex upper_ascii k)"

lemma key_line_lower: "lower_ok lo \<Longrightarrow> lower_keys (snd st) \<Longrightarrow> lower_keys (snd (key_line lo st line))"
proof -
  assume lo: "lower_ok lo" and st: "lower_keys (snd st)"
  have "\<not> list_ex upper_ascii (trim_space (to_lower lo k))" for k
    using to_lower_no_upper [OF lo, of k] trim_space_subset [of "to_lower lo k"] by (auto simp: list_ex_iff)
  with st show ?thesis
    by (auto simp: key_line_def lower_keys_def Let_def split: list.split prod.split option.split if_splits)
qed

lemma parse_line_lower: "lower_ok lo \<Longrightarrow> lower_keys (snd st) \<Longrightarrow> lower_keys (snd (parse_line lo st raw))"
  by (auto simp: parse_line_def Let_def key_line_lower) (auto simp: lower_keys_def)

lemma parse_lines_lower: "lower_ok lo \<Longrightarrow> lower_keys (snd st) \<Longrightarrow> lower_keys (snd (foldl (parse_line lo) st ls))"
  by (induction ls arbitrary: st) (auto simp: parse_line_lower)

lemma parseSections_lower: "lower_ok lo \<Longrightarrow> lower_keys (parseSections lo content)"
  unfolding parseSections_def by (rule parse_lines_lower) (auto simp: lower_keys_def split: if_splits)

lemma section_key_lower:
  "lower_ok lo \<Longrightarrow> parseSections lo content sec = Some kv \<Longrightarrow> list_ex upper_ascii k \<Longrightarrow> kv k = None"
  using parseSections_lower [of lo content] unfolding lower_keys_def by blast

text \<open>Every section holds finitely many keys.\<close>

definition finite_keys :: "sections \<Rightarrow> bool" where
  "finite_keys secs \<longleftrightarrow> (\<forall>sec kv. secs sec = Some kv \<longrightarrow> finite (dom kv))"

lemma parse_line_finite: "finite_keys (snd st) \<Longrightarrow> finite_keys (snd (parse_line lo st raw))"
  by (auto simp: parse_line_def key_line_def finite_keys_def Let_def split: list.split prod.split option.split if_splits)

lemma parse_lines_finite: "finite_keys (snd st) \<Longrightarrow> finite_keys (snd (foldl (parse_line lo) st ls))"
  by (induction ls arbitrary: st) (auto simp: parse_line_finite)

lemma parseSections_finite: "parseSections lo content sec = Some kv \<Longrightarrow> finite (dom kv)"
proof -
  have "finite_keys (parseSections lo content)"
    unfolding parseSections_def by (rule parse_lines_finite) (auto simp: finite_keys_def split: if_splits)
  then show "parseSections lo content sec = Some kv \<Longrightarrow> finite (dom kv)" by (simp add: finite_keys_def)
qed

section \<open>What a number may be\<close>

lemma ParseFloat_wf: "ParseFloat s = Some f \<Longrightarrow> wf64 f"
  by (auto simp: ParseFloat_def Let_def split: if_splits option.splits)

lemma getFloat_wf: "getFloat sec key = Some f \<Longrightarrow> wf64 f"
  by (auto simp: getFloat_def Option.bind_eq_Some_conv intro: ParseFloat_wf)

end
