(* ===== verification/Config_Confidence.thy ===== *)
theory Config_Confidence
  imports Config_Sections
begin

text \<open>
  The confidence rules of a configuration (\<open>internal/config/confidence.go\<close>): parsing with its errors, resolution, and the
  policy the scoring library receives (\<open>ConfidencePolicyFromConfig\<close> of \<open>internal/engine/assessor.go\<close>). The \<open>regexp\<close>
  package is the record \<open>regex_lib\<close>; a compiled pattern is kept as its source text.
\<close>

abbreviation AlgorithmWeightedEvidence :: string where "AlgorithmWeightedEvidence \<equiv> ''weighted_evidence''"

record regex_lib =
  rx_compiles :: "string \<Rightarrow> bool"
  rx_matches :: "string \<Rightarrow> string \<Rightarrow> bool"

record ConfidencePatternRule =
  cpr_Pattern :: string
  cpr_Confidence :: f64

record ConfidenceConfig =
  cc_Enabled :: bool
  cc_Algorithm :: string
  cc_AcceptByLowerBound :: bool
  cc_Default :: f64
  cc_Floor :: f64
  cc_PriorStrength :: f64
  cc_ByCheckID :: "string \<rightharpoonup> f64"
  cc_BySource :: "string \<rightharpoonup> f64"
  cc_ByDomain :: "string \<rightharpoonup> f64"
  cc_CheckPatterns :: "ConfidencePatternRule list"

datatype value_error = InvalidNumber | NotFinite | NotUnit | NotNonNegative | NotBoolean | UnsupportedAlgorithm string | FloorNotBelow1

datatype confidence_error =
    ConfidenceValueError string string string value_error
  | InvalidRegex string

definition DefaultConfidenceConfig :: ConfidenceConfig where
  "DefaultConfidenceConfig =
     \<lparr>cc_Enabled = False, cc_Algorithm = AlgorithmWeightedEvidence, cc_AcceptByLowerBound = False, cc_Default = f64_1,
      cc_Floor = lit (5 / 100), cc_PriorStrength = lit 2, cc_ByCheckID = Map.empty,
      cc_BySource = [''user'' \<mapsto> lit (90 / 100), ''adapter'' \<mapsto> lit (80 / 100)], cc_ByDomain = Map.empty, cc_CheckPatterns = []\<rparr>"

section \<open>Values\<close>

definition parseUnitFloat :: "string \<Rightarrow> value_error + f64" where
  "parseUnitFloat v =
     (case ParseFloat (trim_space v) of
        None \<Rightarrow> Inl InvalidNumber
      | Some f \<Rightarrow> if nonFinite f then Inl NotFinite else if f64_lt f f64_0 \<or> f64_gt f f64_1 then Inl NotUnit else Inr f)"

definition parseNonNegativeFloat :: "string \<Rightarrow> value_error + f64" where
  "parseNonNegativeFloat v =
     (case ParseFloat (trim_space v) of
        None \<Rightarrow> Inl InvalidNumber
      | Some f \<Rightarrow> if nonFinite f then Inl NotFinite else if f64_lt f f64_0 then Inl NotNonNegative else Inr f)"

definition parseConfidenceBool :: "(string \<Rightarrow> string) \<Rightarrow> string \<Rightarrow> value_error + bool" where
  "parseConfidenceBool lo v =
     (let s = to_lower lo (trim_space v)
      in if s \<in> {''true'', ''yes'', ''1''} then Inr True else if s \<in> {''false'', ''no'', ''0''} then Inr False else Inl NotBoolean)"

section \<open>The scalar section\<close>

text \<open>One key: absent keeps the configuration, a value error names section, key and value.\<close>

definition scalar ::
    "string \<Rightarrow> (string \<Rightarrow> value_error + 'a) \<Rightarrow> ('a \<Rightarrow> ConfidenceConfig \<Rightarrow> value_error + ConfidenceConfig) \<Rightarrow> section_map \<Rightarrow>
     confidence_error + ConfidenceConfig \<Rightarrow> confidence_error + ConfidenceConfig" where
  "scalar key parse put sec st =
     (case st of
        Inl e \<Rightarrow> Inl e
      | Inr cc \<Rightarrow>
          (case sec key of
             None \<Rightarrow> Inr cc
           | Some v \<Rightarrow>
               (case parse v of
                  Inl e \<Rightarrow> Inl (ConfidenceValueError ''confidence'' key v e)
                | Inr x \<Rightarrow> (case put x cc of Inl e \<Rightarrow> Inl (ConfidenceValueError ''confidence'' key v e) | Inr cc' \<Rightarrow> Inr cc'))))"

definition set_algorithm :: "string \<Rightarrow> ConfidenceConfig \<Rightarrow> value_error + ConfidenceConfig" where
  "set_algorithm a cc =
     (if a = [] then Inr cc
      else if a = AlgorithmWeightedEvidence \<or> a = AlgorithmBetaBayes then Inr (cc\<lparr>cc_Algorithm := a\<rparr>)
      else Inl (UnsupportedAlgorithm a))"

definition parse_scalars :: "(string \<Rightarrow> string) \<Rightarrow> section_map \<Rightarrow> ConfidenceConfig \<Rightarrow> confidence_error + ConfidenceConfig" where
  "parse_scalars lo sec cc =
     scalar ''prior_strength'' parseNonNegativeFloat
       (\<lambda>f c. Inr (if f64_eq f f64_0 then c else c\<lparr>cc_PriorStrength := f\<rparr>)) sec
     (scalar ''floor'' parseUnitFloat
       (\<lambda>f c. if f64_eq f f64_1 then Inl FloorNotBelow1 else Inr (if f64_eq f f64_0 then c else c\<lparr>cc_Floor := f\<rparr>)) sec
     (scalar ''default'' parseUnitFloat
       (\<lambda>f c. Inr (if f64_eq f f64_0 then c else c\<lparr>cc_Default := f\<rparr>)) sec
     (scalar ''accept_by_lower_bound'' (parseConfidenceBool lo) (\<lambda>b c. Inr (c\<lparr>cc_AcceptByLowerBound := b\<rparr>)) sec
     (scalar ''algorithm'' (\<lambda>v. Inr (trim_space v)) set_algorithm sec
     (scalar ''enabled'' (parseConfidenceBool lo) (\<lambda>b c. Inr (c\<lparr>cc_Enabled := b\<rparr>)) sec
       (Inr cc))))))"

section \<open>The rule tables\<close>

definition sortedConfidenceKeys :: "section_map \<Rightarrow> string list" where
  "sortedConfidenceKeys sec = sorted_list_of_set (dom sec)"

fun rule_table :: "string \<Rightarrow> section_map \<Rightarrow> string list \<Rightarrow> (string \<rightharpoonup> f64) \<Rightarrow> confidence_error + (string \<rightharpoonup> f64)" where
  "rule_table name sec [] m = Inr m"
| "rule_table name sec (k # ks) m =
     (let v = (case sec k of None \<Rightarrow> [] | Some v \<Rightarrow> v)
      in case parseUnitFloat v of
           Inl e \<Rightarrow> Inl (ConfidenceValueError name k v e)
         | Inr f \<Rightarrow> rule_table name sec ks (if f64_eq f f64_0 then m(k := None) else m(k \<mapsto> f)))"

fun rule_patterns :: "regex_lib \<Rightarrow> section_map \<Rightarrow> string list \<Rightarrow> ConfidencePatternRule list \<Rightarrow> confidence_error + ConfidencePatternRule list" where
  "rule_patterns rx sec [] rs = Inr rs"
| "rule_patterns rx sec (k # ks) rs =
     (let v = (case sec k of None \<Rightarrow> [] | Some v \<Rightarrow> v)
      in case parseUnitFloat v of
           Inl e \<Rightarrow> Inl (ConfidenceValueError ''confidence.checkrx'' k v e)
         | Inr f \<Rightarrow>
             if \<not> rx_compiles rx k then Inl (InvalidRegex k)
             else rule_patterns rx sec ks (if f64_eq f f64_0 then rs else rs @ [\<lparr>cpr_Pattern = k, cpr_Confidence = f\<rparr>]))"

text \<open>A section that is absent changes nothing; the first failing section ends the parse.\<close>

definition with_section ::
    "sections \<Rightarrow> string \<Rightarrow> (section_map \<Rightarrow> ConfidenceConfig \<Rightarrow> confidence_error + ConfidenceConfig) \<Rightarrow>
     confidence_error + ConfidenceConfig \<Rightarrow> confidence_error + ConfidenceConfig" where
  "with_section secs name f st =
     (case st of Inl e \<Rightarrow> Inl e | Inr cc \<Rightarrow> (case secs name of None \<Rightarrow> Inr cc | Some sec \<Rightarrow> f sec cc))"

definition table_section ::
    "string \<Rightarrow> (ConfidenceConfig \<Rightarrow> (string \<rightharpoonup> f64)) \<Rightarrow> ((string \<rightharpoonup> f64) \<Rightarrow> ConfidenceConfig \<Rightarrow> ConfidenceConfig) \<Rightarrow>
     section_map \<Rightarrow> ConfidenceConfig \<Rightarrow> confidence_error + ConfidenceConfig" where
  "table_section name get put sec cc =
     (case rule_table name sec (sortedConfidenceKeys sec) (get cc) of Inl e \<Rightarrow> Inl e | Inr m \<Rightarrow> Inr (put m cc))"

definition pattern_section :: "regex_lib \<Rightarrow> section_map \<Rightarrow> ConfidenceConfig \<Rightarrow> confidence_error + ConfidenceConfig" where
  "pattern_section rx sec cc =
     (case rule_patterns rx sec (sortedConfidenceKeys sec) (cc_CheckPatterns cc) of
        Inl e \<Rightarrow> Inl e | Inr rs \<Rightarrow> Inr (cc\<lparr>cc_CheckPatterns := rs\<rparr>))"

definition parseConfidenceSections ::
    "(string \<Rightarrow> string) \<Rightarrow> regex_lib \<Rightarrow> sections \<Rightarrow> ConfidenceConfig \<Rightarrow> confidence_error + ConfidenceConfig" where
  "parseConfidenceSections lo rx secs cc =
     with_section secs ''confidence.domain'' (table_section ''confidence.domain'' cc_ByDomain (\<lambda>m c. c\<lparr>cc_ByDomain := m\<rparr>))
     (with_section secs ''confidence.source'' (table_section ''confidence.source'' cc_BySource (\<lambda>m c. c\<lparr>cc_BySource := m\<rparr>))
     (with_section secs ''confidence.checkrx'' (pattern_section rx)
     (with_section secs ''confidence.check'' (table_section ''confidence.check'' cc_ByCheckID (\<lambda>m c. c\<lparr>cc_ByCheckID := m\<rparr>))
     (with_section secs ''confidence'' (parse_scalars lo) (Inr cc)))))"

section \<open>Resolution\<close>

definition clampConfidence :: "ConfidenceConfig \<Rightarrow> f64 \<Rightarrow> f64" where
  "clampConfidence cc v =
     (let fl = (if f64_le (cc_Floor cc) f64_0 \<or> f64_ge (cc_Floor cc) f64_1 then lit (5 / 100) else cc_Floor cc);
          v1 = (if f64_lt v fl then fl else v)
      in if f64_gt v1 f64_1 then f64_1 else v1)"

definition resolveRaw :: "(string \<Rightarrow> string) \<Rightarrow> regex_lib \<Rightarrow> ConfidenceConfig \<Rightarrow> string \<Rightarrow> string \<Rightarrow> string \<Rightarrow> f64" where
  "resolveRaw lo rx cc checkID sourceKey domain =
     (let foldID = to_lower lo checkID
      in case cc_ByCheckID cc foldID of
           Some v \<Rightarrow> v
         | None \<Rightarrow>
             (case find (\<lambda>r. rx_matches rx (cpr_Pattern r) foldID) (cc_CheckPatterns cc) of
                Some r \<Rightarrow> cpr_Confidence r
              | None \<Rightarrow>
                  (case cc_BySource cc (to_lower lo sourceKey) of
                     Some v \<Rightarrow> v
                   | None \<Rightarrow>
                       (case cc_ByDomain cc (to_lower lo domain) of
                          Some v \<Rightarrow> v
                        | None \<Rightarrow> if f64_le (cc_Default cc) f64_0 \<or> f64_gt (cc_Default cc) f64_1 then f64_1 else cc_Default cc))))"

definition conf_Resolve :: "(string \<Rightarrow> string) \<Rightarrow> regex_lib \<Rightarrow> ConfidenceConfig \<Rightarrow> string \<Rightarrow> string \<Rightarrow> string \<Rightarrow> f64" where
  "conf_Resolve lo rx cc checkID sourceKey domain =
     (if \<not> cc_Enabled cc then f64_1 else clampConfidence cc (resolveRaw lo rx cc checkID sourceKey domain))"

record CheckResult =
  cr_CheckID :: string
  cr_Domain :: string
  cr_Name :: string
  cr_Passed :: bool
  cr_Delta :: f64
  cr_Detail :: string
  cr_ComplianceRef :: string
  cr_Source :: string
  cr_Confidence :: f64
  cr_EffectiveConfidence :: f64

definition resolve_check :: "(string \<Rightarrow> string) \<Rightarrow> regex_lib \<Rightarrow> ConfidenceConfig \<Rightarrow> CheckResult \<Rightarrow> CheckResult" where
  "resolve_check lo rx cc c =
     (if f64_gt (cr_Confidence c) f64_0 then c
      else c\<lparr>cr_Confidence :=
               conf_Resolve lo rx cc (cr_CheckID c) (if cr_Source c = [] then ''builtin'' else cr_Source c) (cr_Domain c)\<rparr>)"

definition ResolveChecks :: "(string \<Rightarrow> string) \<Rightarrow> regex_lib \<Rightarrow> ConfidenceConfig \<Rightarrow> CheckResult list \<Rightarrow> CheckResult list" where
  "ResolveChecks lo rx cc checks = (if \<not> cc_Enabled cc then checks else map (resolve_check lo rx cc) checks)"

definition ConfidencePolicyFromConfig :: "ConfidenceConfig option \<Rightarrow> ConfidencePolicy" where
  "ConfidencePolicyFromConfig cfg =
     (case cfg of
        None \<Rightarrow> DefaultConfidencePolicy
      | Some cc \<Rightarrow>
          if \<not> cc_Enabled cc then DefaultConfidencePolicy
          else \<lparr>cp_Enabled = True, cp_Default = cc_Default cc, cp_Floor = cc_Floor cc, cp_PriorStrength = cc_PriorStrength cc,
                cp_Algorithm = cc_Algorithm cc\<rparr>)"

section \<open>What a parsed configuration guarantees\<close>

definition unit_conf :: "f64 \<Rightarrow> bool" where
  "unit_conf x \<longleftrightarrow> (\<exists>q. x = Fin q \<and> 0 < q \<and> q \<le> 1 \<and> rep q)"

definition sound_confidence :: "regex_lib \<Rightarrow> ConfidenceConfig \<Rightarrow> bool" where
  "sound_confidence rx cc \<longleftrightarrow>
     cc_Algorithm cc \<in> {AlgorithmWeightedEvidence, AlgorithmBetaBayes} \<and> unit_conf (cc_Default cc) \<and>
     unit_conf (cc_Floor cc) \<and> cc_Floor cc \<noteq> f64_1 \<and> (\<exists>k. cc_PriorStrength cc = Fin k \<and> 0 < k \<and> rep k) \<and>
     (\<forall>f\<in>ran (cc_ByCheckID cc). unit_conf f) \<and> (\<forall>f\<in>ran (cc_BySource cc). unit_conf f) \<and>
     (\<forall>f\<in>ran (cc_ByDomain cc). unit_conf f) \<and>
     (\<forall>r\<in>set (cc_CheckPatterns cc). unit_conf (cpr_Confidence r) \<and> rx_compiles rx (cpr_Pattern r))"

lemma parseUnitFloat_Inr: "parseUnitFloat v = Inr f \<Longrightarrow> \<exists>q. f = Fin q \<and> 0 \<le> q \<and> q \<le> 1 \<and> rep q"
  by (cases f) (auto simp: parseUnitFloat_def nonFinite_def f64_lt_def split: option.splits if_splits dest: ParseFloat_wf)

lemma unit_conf_nonzero: "parseUnitFloat v = Inr f \<Longrightarrow> \<not> f64_eq f f64_0 \<Longrightarrow> unit_conf f"
  using parseUnitFloat_Inr [of v f] by (auto simp: unit_conf_def)

lemma parseNonNegativeFloat_Inr: "parseNonNegativeFloat v = Inr f \<Longrightarrow> \<exists>q. f = Fin q \<and> 0 \<le> q \<and> rep q"
  by (cases f) (auto simp: parseNonNegativeFloat_def nonFinite_def f64_lt_def split: option.splits if_splits dest: ParseFloat_wf)

lemma with_section_Inr:
  "with_section secs name f st = Inr cc \<longleftrightarrow>
     (\<exists>c. st = Inr c \<and> (case secs name of None \<Rightarrow> cc = c | Some sec \<Rightarrow> f sec c = Inr cc))"
  by (auto simp: with_section_def split: sum.split option.split)

text \<open>What holds of every successful result.\<close>

definition succeeds_with :: "('a \<Rightarrow> bool) \<Rightarrow> 'e + 'a \<Rightarrow> bool" where
  "succeeds_with P st \<longleftrightarrow> (\<forall>c. st = Inr c \<longrightarrow> P c)"

lemma succeeds_withD: "succeeds_with P (Inr c) \<Longrightarrow> P c"
  by (simp add: succeeds_with_def)

lemma scalar_inv:
  assumes "\<And>v x c c'. parse v = Inr x \<Longrightarrow> put x c = Inr c' \<Longrightarrow> P c \<Longrightarrow> P c'" and "succeeds_with P st"
  shows "succeeds_with P (scalar key parse put sec st)"
  using assms by (auto simp: succeeds_with_def scalar_def split: sum.splits option.splits)

lemma with_section_inv:
  assumes "\<And>sec c c'. secs name = Some sec \<Longrightarrow> f sec c = Inr c' \<Longrightarrow> P c \<Longrightarrow> P c'" and "succeeds_with P st"
  shows "succeeds_with P (with_section secs name f st)"
  using assms by (auto simp: succeeds_with_def with_section_def split: sum.splits option.splits)

definition sound_scalars :: "ConfidenceConfig \<Rightarrow> bool" where
  "sound_scalars cc \<longleftrightarrow>
     cc_Algorithm cc \<in> {AlgorithmWeightedEvidence, AlgorithmBetaBayes} \<and> unit_conf (cc_Default cc) \<and>
     unit_conf (cc_Floor cc) \<and> cc_Floor cc \<noteq> f64_1 \<and> (\<exists>k. cc_PriorStrength cc = Fin k \<and> 0 < k \<and> rep k)"

lemma parse_scalars_inv:
  assumes "parse_scalars lo sec cc = Inr cc'"
    and "\<And>b c. P c \<Longrightarrow> P (c\<lparr>cc_Enabled := b\<rparr>)" "\<And>b c. P c \<Longrightarrow> P (c\<lparr>cc_AcceptByLowerBound := b\<rparr>)"
    and "\<And>a c. a \<in> {AlgorithmWeightedEvidence, AlgorithmBetaBayes} \<Longrightarrow> P c \<Longrightarrow> P (c\<lparr>cc_Algorithm := a\<rparr>)"
    and "\<And>f c. unit_conf f \<Longrightarrow> P c \<Longrightarrow> P (c\<lparr>cc_Default := f\<rparr>)"
    and "\<And>f c. unit_conf f \<Longrightarrow> f \<noteq> f64_1 \<Longrightarrow> P c \<Longrightarrow> P (c\<lparr>cc_Floor := f\<rparr>)"
    and "\<And>k c. 0 < k \<Longrightarrow> rep k \<Longrightarrow> P c \<Longrightarrow> P (c\<lparr>cc_PriorStrength := Fin k\<rparr>)" and "P cc"
  shows "P cc'"
proof -
  have prior: "P c'" if v: "parseNonNegativeFloat v = Inr f" "Inr (if f64_eq f f64_0 then c else c\<lparr>cc_PriorStrength := f\<rparr>) = (Inr c' :: value_error + ConfidenceConfig)" "P c" for v f c c'
    using parseNonNegativeFloat_Inr [OF v(1)] v(2,3) assms(7) by (auto split: if_splits)
  have flr: "P c'" if v: "parseUnitFloat v = Inr f" "(if f64_eq f f64_1 then Inl FloorNotBelow1 else Inr (if f64_eq f f64_0 then c else c\<lparr>cc_Floor := f\<rparr>)) = Inr c'" "P c" for v f c c'
    using unit_conf_nonzero [OF v(1)] v(2,3) assms(6) by (auto split: if_splits)
  have def: "P c'" if v: "parseUnitFloat v = Inr f" "Inr (if f64_eq f f64_0 then c else c\<lparr>cc_Default := f\<rparr>) = (Inr c' :: value_error + ConfidenceConfig)" "P c" for v f c c'
    using unit_conf_nonzero [OF v(1)] v(2,3) assms(5) by (auto split: if_splits)
  have alg: "P c'" if "set_algorithm a c = Inr c'" "P c" for a c c'
    using that assms(4) by (auto simp: set_algorithm_def split: if_splits)
  have "succeeds_with P (parse_scalars lo sec cc)"
    unfolding parse_scalars_def
    by (intro scalar_inv) (use prior flr def alg assms(2,3,8) in \<open>auto simp: succeeds_with_def\<close>)
  then show ?thesis using assms(1) by (simp add: succeeds_with_def)
qed

text \<open>What a rule section says of a key: a confidence, or 0, which clears the key.\<close>

definition rule_value :: "section_map \<Rightarrow> string \<Rightarrow> f64 option" where
  "rule_value sec k =
     (case parseUnitFloat (case sec k of None \<Rightarrow> [] | Some v \<Rightarrow> v) of
        Inl _ \<Rightarrow> None | Inr f \<Rightarrow> if f64_eq f f64_0 then None else Some f)"

lemma rule_value_unit: "rule_value sec k = Some f \<Longrightarrow> unit_conf f"
  by (auto simp: rule_value_def unit_conf_nonzero split: sum.splits if_splits)

lemma rule_table_lookup:
  "rule_table name sec ks m = Inr m' \<Longrightarrow> distinct ks \<Longrightarrow> m' k = (if k \<in> set ks then rule_value sec k else m k)"
proof (induction ks arbitrary: m)
  case (Cons a ks)
  then obtain f where f: "parseUnitFloat (case sec a of None \<Rightarrow> [] | Some v \<Rightarrow> v) = Inr f"
    "rule_table name sec ks (if f64_eq f f64_0 then m(a := None) else m(a \<mapsto> f)) = Inr m'"
    by (auto simp: Let_def split: sum.splits)
  from Cons.IH [OF this(2)] Cons.prems(2) f(1) show ?case by (auto simp: rule_value_def)
qed simp

lemma rule_patterns_rules:
  "rule_patterns rx sec ks rs = Inr rs' \<Longrightarrow>
     rs' = rs @ map (\<lambda>k. \<lparr>cpr_Pattern = k, cpr_Confidence = the (rule_value sec k)\<rparr>) (filter (\<lambda>k. rule_value sec k \<noteq> None) ks) \<and>
     (\<forall>k\<in>set ks. rx_compiles rx k)"
proof (induction ks arbitrary: rs)
  case (Cons a ks)
  then obtain f where f: "parseUnitFloat (case sec a of None \<Rightarrow> [] | Some v \<Rightarrow> v) = Inr f" "rx_compiles rx a"
    "rule_patterns rx sec ks (if f64_eq f f64_0 then rs else rs @ [\<lparr>cpr_Pattern = a, cpr_Confidence = f\<rparr>]) = Inr rs'"
    by (auto simp: Let_def split: sum.splits if_splits)
  from Cons.IH [OF this(3)] f(1,2) show ?case by (auto simp: rule_value_def)
qed simp

text \<open>A rule section laid over a table.\<close>

definition overlay :: "sections \<Rightarrow> string \<Rightarrow> (string \<rightharpoonup> f64) \<Rightarrow> (string \<rightharpoonup> f64)" where
  "overlay secs name m k =
     (case secs name of None \<Rightarrow> m k | Some sec \<Rightarrow> if sec k = None then m k else rule_value sec k)"

definition pattern_rules :: "sections \<Rightarrow> ConfidencePatternRule list" where
  "pattern_rules secs =
     (case secs ''confidence.checkrx'' of
        None \<Rightarrow> []
      | Some sec \<Rightarrow>
          map (\<lambda>k. \<lparr>cpr_Pattern = k, cpr_Confidence = the (rule_value sec k)\<rparr>)
            (filter (\<lambda>k. rule_value sec k \<noteq> None) (sortedConfidenceKeys sec)))"

lemma sorted_keys: "finite (dom sec) \<Longrightarrow> set (sortedConfidenceKeys sec) = dom sec \<and> distinct (sortedConfidenceKeys sec) \<and> sorted (sortedConfidenceKeys sec)"
  by (simp add: sortedConfidenceKeys_def)

lemma table_section_Inr:
  assumes "table_section name get put sec cc = Inr cc'" "secs name = Some sec" "finite_keys secs"
  shows "cc' = put (overlay secs name (get cc)) cc"
proof -
  obtain m where m: "rule_table name sec (sortedConfidenceKeys sec) (get cc) = Inr m" "cc' = put m cc"
    using assms(1) by (auto simp: table_section_def split: sum.splits)
  have s: "set (sortedConfidenceKeys sec) = dom sec" "distinct (sortedConfidenceKeys sec)"
    using sorted_keys [of sec] assms(2,3) by (auto simp: finite_keys_def)
  have "m = overlay secs name (get cc)"
  proof
    fix k
    show "m k = overlay secs name (get cc) k"
      using rule_table_lookup [OF m(1) s(2), of k] s(1) assms(2) by (cases "sec k") (auto simp: overlay_def)
  qed
  with m(2) show ?thesis by simp
qed

lemma overlay_none: "secs name = None \<Longrightarrow> overlay secs name m = m"
  by (rule ext) (simp add: overlay_def)

lemma with_table_Inr:
  assumes "with_section secs name (table_section name get put) st = Inr cc'" "finite_keys secs" "\<And>c. put (get c) c = c"
  obtains c where "st = Inr c" "cc' = put (overlay secs name (get c)) c"
proof -
  obtain c where c: "st = Inr c" "case secs name of None \<Rightarrow> cc' = c | Some sec \<Rightarrow> table_section name get put sec c = Inr cc'"
    using assms(1) by (auto simp: with_section_def split: sum.splits option.splits)
  show thesis
  proof (cases "secs name")
    case None
    then show thesis using that c assms(3) by (simp add: overlay_none)
  next
    case (Some sec)
    then show thesis using that c table_section_Inr [OF _ Some assms(2)] by auto
  qed
qed

lemma with_pattern_Inr:
  assumes "with_section secs ''confidence.checkrx'' (pattern_section rx) st = Inr cc'" "finite_keys secs"
  obtains c where "st = Inr c" "cc' = c\<lparr>cc_CheckPatterns := cc_CheckPatterns c @ pattern_rules secs\<rparr>"
    "\<forall>r\<in>set (pattern_rules secs). rx_compiles rx (cpr_Pattern r)"
proof -
  obtain c where c: "st = Inr c" "case secs ''confidence.checkrx'' of None \<Rightarrow> cc' = c | Some sec \<Rightarrow> pattern_section rx sec c = Inr cc'"
    using assms(1) by (auto simp: with_section_def split: sum.splits option.splits)
  show thesis
  proof (cases "secs ''confidence.checkrx''")
    case None
    then show thesis using that c by (simp add: pattern_rules_def)
  next
    case (Some sec)
    then obtain rs where rs: "rule_patterns rx sec (sortedConfidenceKeys sec) (cc_CheckPatterns c) = Inr rs" "cc' = c\<lparr>cc_CheckPatterns := rs\<rparr>"
      using c(2) by (auto simp: pattern_section_def split: sum.splits)
    from rule_patterns_rules [OF rs(1)] show thesis
      using that c(1) rs(2) Some by (auto simp: pattern_rules_def)
  qed
qed

section \<open>Properties\<close>

lemma parsed_tables:
  assumes "parseConfidenceSections lo rx secs cc0 = Inr cc" "finite_keys secs"
  obtains c1 where "case secs ''confidence'' of None \<Rightarrow> c1 = cc0 | Some sec \<Rightarrow> parse_scalars lo sec cc0 = Inr c1"
    "cc = c1\<lparr>cc_ByCheckID := overlay secs ''confidence.check'' (cc_ByCheckID c1),
             cc_CheckPatterns := cc_CheckPatterns c1 @ pattern_rules secs,
             cc_BySource := overlay secs ''confidence.source'' (cc_BySource c1),
             cc_ByDomain := overlay secs ''confidence.domain'' (cc_ByDomain c1)\<rparr>"
    "\<forall>r\<in>set (pattern_rules secs). rx_compiles rx (cpr_Pattern r)"
proof -
  note parse = assms(1) [unfolded parseConfidenceSections_def]
  obtain c4 where c4: "with_section secs ''confidence.source'' (table_section ''confidence.source'' cc_BySource (\<lambda>m c. c\<lparr>cc_BySource := m\<rparr>))
     (with_section secs ''confidence.checkrx'' (pattern_section rx)
     (with_section secs ''confidence.check'' (table_section ''confidence.check'' cc_ByCheckID (\<lambda>m c. c\<lparr>cc_ByCheckID := m\<rparr>))
     (with_section secs ''confidence'' (parse_scalars lo) (Inr cc0)))) = Inr c4"
    "cc = c4\<lparr>cc_ByDomain := overlay secs ''confidence.domain'' (cc_ByDomain c4)\<rparr>"
    by (rule with_table_Inr [OF parse assms(2)]) (simp, erule (1) that)
  obtain c3 where c3: "with_section secs ''confidence.checkrx'' (pattern_section rx)
     (with_section secs ''confidence.check'' (table_section ''confidence.check'' cc_ByCheckID (\<lambda>m c. c\<lparr>cc_ByCheckID := m\<rparr>))
     (with_section secs ''confidence'' (parse_scalars lo) (Inr cc0))) = Inr c3"
    "c4 = c3\<lparr>cc_BySource := overlay secs ''confidence.source'' (cc_BySource c3)\<rparr>"
    by (rule with_table_Inr [OF c4(1) assms(2)]) (simp, erule (1) that)
  obtain c2 where c2: "with_section secs ''confidence.check'' (table_section ''confidence.check'' cc_ByCheckID (\<lambda>m c. c\<lparr>cc_ByCheckID := m\<rparr>))
     (with_section secs ''confidence'' (parse_scalars lo) (Inr cc0)) = Inr c2"
    "c3 = c2\<lparr>cc_CheckPatterns := cc_CheckPatterns c2 @ pattern_rules secs\<rparr>" "\<forall>r\<in>set (pattern_rules secs). rx_compiles rx (cpr_Pattern r)"
    by (rule with_pattern_Inr [OF c3(1) assms(2)]) (erule (2) that)
  obtain c1 where c1: "with_section secs ''confidence'' (parse_scalars lo) (Inr cc0) = Inr c1"
    "c2 = c1\<lparr>cc_ByCheckID := overlay secs ''confidence.check'' (cc_ByCheckID c1)\<rparr>"
    by (rule with_table_Inr [OF c2(1) assms(2)]) (simp, erule (1) that)
  have "case secs ''confidence'' of None \<Rightarrow> c1 = cc0 | Some sec \<Rightarrow> parse_scalars lo sec cc0 = Inr c1"
    using c1(1) by (auto simp: with_section_def split: option.splits)
  with that c4(2) c3(2) c2(2,3) c1(2) show thesis by simp
qed

lemma unit_lit: "btw lo hi (lit q) \<Longrightarrow> 0 < lo \<Longrightarrow> hi \<le> 1 \<Longrightarrow> unit_conf (lit q)"
  using btwD [of lo hi "lit q"] by (force simp: unit_conf_def)

lemma default_sound: "sound_confidence rx DefaultConfidenceConfig"
proof -
  have "rep (1 / 32)" using rep_small [of "1 / 32" 1 5] by simp
  then have b: "btw (1 / 32) (1 / 2) (lit (5 / 100))" "btw (1 / 2) 1 (lit (90 / 100))" "btw (1 / 2) 1 (lit (80 / 100))"
    by (simp_all add: btw_of_rat)
  then have u: "unit_conf (lit (5 / 100))" "unit_conf (lit (90 / 100))" "unit_conf (lit (80 / 100))" "unit_conf f64_1"
    by (auto intro!: unit_lit) (simp add: unit_conf_def)
  have "lit (5 / 100) \<noteq> f64_1" using btwD [OF b(1)] by auto
  moreover have "\<exists>k. lit 2 = Fin k \<and> 0 < k \<and> rep k" by (simp add: f64_of_rat_rep)
  ultimately show ?thesis using u by (auto simp: sound_confidence_def DefaultConfidenceConfig_def ran_def split: if_splits)
qed

lemma overlay_Some:
  "overlay secs name m k = Some f \<Longrightarrow> m k = Some f \<or> (\<exists>sec. secs name = Some sec \<and> rule_value sec k = Some f)"
  by (auto simp: overlay_def split: option.splits if_splits)

lemma overlay_unit: "\<forall>f\<in>ran m. unit_conf f \<Longrightarrow> \<forall>f\<in>ran (overlay secs name m). unit_conf f"
  using overlay_Some rule_value_unit unfolding ran_def by blast

lemma pattern_rules_unit: "\<forall>r\<in>set (pattern_rules secs). unit_conf (cpr_Confidence r)"
  by (auto simp: pattern_rules_def rule_value_unit split: option.splits)

lemma sections_finite_keys: "finite_keys (parseSections lo content)"
  by (simp add: finite_keys_def parseSections_finite)

lemma parsed_sound:
  assumes "parseConfidenceSections lo rx secs DefaultConfidenceConfig = Inr cc" "finite_keys secs"
  shows "sound_confidence rx cc"
proof -
  obtain c1 where c1: "case secs ''confidence'' of None \<Rightarrow> c1 = DefaultConfidenceConfig | Some sec \<Rightarrow> parse_scalars lo sec DefaultConfidenceConfig = Inr c1"
    and cc: "cc = c1\<lparr>cc_ByCheckID := overlay secs ''confidence.check'' (cc_ByCheckID c1),
             cc_CheckPatterns := cc_CheckPatterns c1 @ pattern_rules secs,
             cc_BySource := overlay secs ''confidence.source'' (cc_BySource c1),
             cc_ByDomain := overlay secs ''confidence.domain'' (cc_ByDomain c1)\<rparr>"
    and rx: "\<forall>r\<in>set (pattern_rules secs). rx_compiles rx (cpr_Pattern r)"
    by (rule parsed_tables [OF assms])
  have "sound_confidence rx c1"
  proof (cases "secs ''confidence''")
    case None
    then show ?thesis using c1 default_sound by simp
  next
    case (Some sec)
    then have "parse_scalars lo sec DefaultConfidenceConfig = Inr c1" using c1 by simp
    then show ?thesis
      by (rule parse_scalars_inv) (use default_sound in \<open>auto simp: sound_confidence_def\<close>)
  qed
  then show ?thesis
    using rx overlay_unit pattern_rules_unit unfolding cc sound_confidence_def by (auto simp: overlay_unit)
qed

lemma resolveRaw_unit:
  assumes "sound_confidence rx cc"
  shows "unit_conf (resolveRaw lo rx cc checkID sourceKey domain)"
proof -
  have t: "unit_conf f" if "m k = Some f" "\<forall>f\<in>ran m. unit_conf f" for m :: "string \<rightharpoonup> f64" and k f
    using that by (auto simp: ran_def)
  have p: "unit_conf (cpr_Confidence r)" if "find P (cc_CheckPatterns cc) = Some r" for P r
    using that assms by (auto simp: sound_confidence_def find_Some_iff)
  have d: "unit_conf (cc_Default cc)" "unit_conf f64_1" using assms by (simp_all add: sound_confidence_def) (simp add: unit_conf_def)
  have m: "\<forall>f\<in>ran (cc_ByCheckID cc). unit_conf f" "\<forall>f\<in>ran (cc_BySource cc). unit_conf f" "\<forall>f\<in>ran (cc_ByDomain cc). unit_conf f"
    using assms by (simp_all add: sound_confidence_def)
  show ?thesis
    unfolding resolveRaw_def Let_def using t [OF _ m(1)] t [OF _ m(2)] t [OF _ m(3)] p d
    by (simp split: option.split)
qed

text \<open>Between the floor and 1 nothing is clamped.\<close>

lemma clamp_unit:
  assumes "sound_confidence rx cc" "unit_conf v"
  shows "unit_conf (clampConfidence cc v) \<and> f64_le (cc_Floor cc) (clampConfidence cc v)"
proof -
  obtain q r where "cc_Floor cc = Fin q" "0 < q" "q < 1" "rep q" "v = Fin r" "0 < r" "r \<le> 1" "rep r"
    using assms by (force simp: sound_confidence_def unit_conf_def)
  then show ?thesis by (auto simp: clampConfidence_def f64_lt_def unit_conf_def Let_def)
qed

lemma normalize_fixed:
  assumes "sound_confidence rx cc" "cc_Enabled cc" "unit_conf v" "f64_le (cc_Floor cc) v"
  shows "NormalizeConfidence v (ConfidencePolicyFromConfig (Some cc)) = v"
proof -
  obtain q r where "cc_Floor cc = Fin q" "0 < q" "q < 1" "v = Fin r" "q \<le> r" "0 < r" "r \<le> 1"
    using assms by (force simp: sound_confidence_def unit_conf_def)
  then show ?thesis using assms(2) by (simp add: NormalizeConfidence_def ConfidencePolicyFromConfig_def f64_lt_def Let_def)
qed

text \<open>A configuration that parses is sound, whatever its text: the algorithm is one of the two supported ones, the
  default, the floor and every rule is a confidence above 0 and at most 1, the floor is below 1, the prior is positive, and
  every pattern compiles. A 0 never ends up in a table: it clears the key, also one of the factory priors.\<close>

theorem parsed_confidence_sound:
  assumes "parseConfidenceSections lo rx (parseSections lo content) DefaultConfidenceConfig = Inr cc"
  shows "sound_confidence rx cc \<and> (\<forall>sec k v. parseSections lo content ''confidence.source'' = Some sec \<longrightarrow> sec k = Some v \<longrightarrow>
           parseUnitFloat v = Inr f64_0 \<longrightarrow> cc_BySource cc k = None)"
proof (intro conjI allI impI)
  show "sound_confidence rx cc" by (rule parsed_sound [OF assms sections_finite_keys])
  fix sec k v assume k: "parseSections lo content ''confidence.source'' = Some sec" "sec k = Some v" "parseUnitFloat v = Inr f64_0"
  show "cc_BySource cc k = None"
    by (rule parsed_tables [OF assms sections_finite_keys]) (use k in \<open>simp add: overlay_def rule_value_def\<close>)
qed


text \<open>Which rule wins. A rule for the exact check beats every pattern; otherwise, of the patterns that match, the one
  with the byte-least key does, whatever the order of the lines; both are folded to lower case first.\<close>

theorem byte_least_pattern_wins:
  assumes "parseConfidenceSections lo rx (parseSections lo content) DefaultConfidenceConfig = Inr cc" and "cc_Enabled cc"
    and "parseSections lo content ''confidence.checkrx'' = Some sec" and "rule_value sec k = Some f" and "sec k \<noteq> None"
    and "rx_matches rx k (to_lower lo checkID)"
    and "\<forall>k'. k' < k \<longrightarrow> sec k' \<noteq> None \<longrightarrow> rule_value sec k' \<noteq> None \<longrightarrow> \<not> rx_matches rx k' (to_lower lo checkID)"
  shows "conf_Resolve lo rx cc checkID sourceKey domain =
           clampConfidence cc (case cc_ByCheckID cc (to_lower lo checkID) of Some v \<Rightarrow> v | None \<Rightarrow> f)"
proof -
  let ?P = "\<lambda>r. rx_matches rx (cpr_Pattern r) (to_lower lo checkID)"
  let ?rule = "\<lambda>k. \<lparr>cpr_Pattern = k, cpr_Confidence = the (rule_value sec k)\<rparr>"
  have ks: "set (sortedConfidenceKeys sec) = dom sec" "sorted (sortedConfidenceKeys sec)"
    using sorted_keys [OF parseSections_finite [OF assms(3)]] by auto
  have "find ?P (map ?rule (filter (\<lambda>k. rule_value sec k \<noteq> None) xs)) = Some (?rule k)"
    if "sorted xs" "k \<in> set xs" "set xs \<subseteq> dom sec" for xs
    using that
  proof (induction xs)
    case (Cons x xs)
    show ?case
    proof (cases "x = k")
      case True
      then show ?thesis using assms(4,6) by simp
    next
      case False
      then have "x < k" "k \<in> set xs" "sec x \<noteq> None" using Cons.prems by (auto simp: less_le)
      then show ?thesis using Cons assms(7) by auto
    qed
  qed simp
  then have f: "find ?P (pattern_rules (parseSections lo content)) = Some (?rule k)"
    using ks assms(3,5) by (auto simp: pattern_rules_def)
  have p: "cc_CheckPatterns cc = pattern_rules (parseSections lo content)"
  proof (rule parsed_tables [OF assms(1) sections_finite_keys])
    fix c1
    assume c1: "case parseSections lo content ''confidence'' of None \<Rightarrow> c1 = DefaultConfidenceConfig | Some sec \<Rightarrow> parse_scalars lo sec DefaultConfidenceConfig = Inr c1"
      and cc: "cc = c1\<lparr>cc_ByCheckID := overlay (parseSections lo content) ''confidence.check'' (cc_ByCheckID c1),
             cc_CheckPatterns := cc_CheckPatterns c1 @ pattern_rules (parseSections lo content),
             cc_BySource := overlay (parseSections lo content) ''confidence.source'' (cc_BySource c1),
             cc_ByDomain := overlay (parseSections lo content) ''confidence.domain'' (cc_ByDomain c1)\<rparr>"
    have "cc_CheckPatterns c1 = []"
    proof (cases "parseSections lo content ''confidence''")
      case None
      then show ?thesis using c1 by (simp add: DefaultConfidenceConfig_def)
    next
      case (Some s)
      then have "parse_scalars lo s DefaultConfidenceConfig = Inr c1" using c1 by simp
      then show ?thesis by (rule parse_scalars_inv) (auto simp: DefaultConfidenceConfig_def)
    qed
    then show ?thesis using cc by simp
  qed
  show ?thesis using assms(2,4) f p by (simp add: conf_Resolve_def resolveRaw_def Let_def split: option.split)
qed

section \<open>Concrete configurations\<close>

definition demo_text :: string where
  "demo_text = ''[confidence]'' @ [CHR 0x0A] @ ''enabled=true'' @ [CHR 0x0A] @ ''[confidence.checkrx]'' @ [CHR 0x0A] @
     ''b=1'' @ [CHR 0x0A] @ ''ab=1'' @ [CHR 0x0A] @ ''[confidence.source]'' @ [CHR 0x0A] @ ''user=0''"

definition demo_rx :: regex_lib where
  "demo_rx = \<lparr>rx_compiles = (\<lambda>_. True), rx_matches = (\<lambda>p s. str_index p s \<noteq> None)\<rparr>"

lemma demo_lines:
  "split_on (CHR 0x0A) demo_text = [''[confidence]'', ''enabled=true'', ''[confidence.checkrx]'', ''b=1'', ''ab=1'', ''[confidence.source]'', ''user=0'']"
  by (simp add: demo_text_def)

lemma demo_sections:
  "parseSections lo demo_text = [''global'' \<mapsto> Map.empty, ''confidence'' \<mapsto> [''enabled'' \<mapsto> ''true''],
     ''confidence.checkrx'' \<mapsto> [''b'' \<mapsto> ''1'', ''ab'' \<mapsto> ''1''], ''confidence.source'' \<mapsto> [''user'' \<mapsto> ''0'']]"
  unfolding parseSections_def demo_lines
  by (simp add: parse_line_def key_line_def trim_space_id graphic_def to_lower_def to_lower_ascii_def split_n2_def Let_def suffix_def)

definition demo_confidence :: ConfidenceConfig where
  "demo_confidence =
     DefaultConfidenceConfig\<lparr>cc_Enabled := True, cc_BySource := [''adapter'' \<mapsto> lit (80 / 100)],
       cc_CheckPatterns := [\<lparr>cpr_Pattern = ''ab'', cpr_Confidence = f64_1\<rparr>, \<lparr>cpr_Pattern = ''b'', cpr_Confidence = f64_1\<rparr>]\<rparr>"

lemma demo_keys: "sortedConfidenceKeys [''b'' \<mapsto> ''1'', ''ab'' \<mapsto> ''1''] = [''ab'', ''b'']"
  "sortedConfidenceKeys [''user'' \<mapsto> ''0''] = [''user'']"
  by (simp_all add: sortedConfidenceKeys_def sorted_list_of_set_insert_remove less_char_def)

lemma demo_values: "parseUnitFloat ''1'' = Inr f64_1" "parseUnitFloat ''0'' = Inr f64_0" "parseConfidenceBool lo ''true'' = Inr True"
  by (simp_all add: parseConfidenceBool_def to_lower_def parseUnitFloat_def ParseFloat_def trim_space_id graphic_def to_lower_ascii_def parse_unsigned_def parse_exponent_def
      is_digit_def digits_val_def digit_val_def f64_lt_def nonFinite_def)

lemma demo_parse: "parseConfidenceSections lo demo_rx (parseSections lo demo_text) DefaultConfidenceConfig = Inr demo_confidence"
proof -
  have rx: "rx_compiles demo_rx k" for k by (simp add: demo_rx_def)
  show ?thesis
    unfolding demo_sections parseConfidenceSections_def
    by (simp add: with_section_def parse_scalars_def scalar_def table_section_def pattern_section_def demo_keys demo_values rx Let_def)
      (simp add: demo_confidence_def DefaultConfidenceConfig_def fun_eq_iff)
qed

theorem parsed_confidence_sound_witness:
  "sound_confidence demo_rx demo_confidence \<and> cc_BySource demo_confidence ''user'' = None"
  using parsed_confidence_sound [OF demo_parse [where lo = "\<lambda>s. s"]] demo_values(2)
  unfolding demo_sections by simp


theorem byte_least_pattern_wins_witness:
  "conf_Resolve (\<lambda>s. s) demo_rx demo_confidence ''XB-1'' ''trivy'' ''resilience'' = clampConfidence demo_confidence f64_1"
proof -
  have id: "to_lower (\<lambda>s. s) ''XB-1'' = ''xb-1''" by code_simp
  let ?sec = "[''b'' \<mapsto> ''1'', ''ab'' \<mapsto> ''1'']"
  have v: "rule_value ?sec ''b'' = Some f64_1" by (simp add: rule_value_def demo_values)
  have rx: "rx_matches demo_rx ''b'' ''xb-1''" "\<not> rx_matches demo_rx ''ab'' ''xb-1''" by (simp_all add: demo_rx_def)
  have "conf_Resolve (\<lambda>s. s) demo_rx demo_confidence ''XB-1'' ''trivy'' ''resilience'' =
      clampConfidence demo_confidence (case cc_ByCheckID demo_confidence (to_lower (\<lambda>s. s) ''XB-1'') of Some v \<Rightarrow> v | None \<Rightarrow> f64_1)"
  proof (rule byte_least_pattern_wins [OF demo_parse])
    show "cc_Enabled demo_confidence" by (simp add: demo_confidence_def)
    show "parseSections (\<lambda>s. s) demo_text ''confidence.checkrx'' = Some ?sec" by (simp add: demo_sections)
  qed (use v rx in \<open>auto simp: id\<close>)
  then show ?thesis by (simp add: demo_confidence_def DefaultConfidenceConfig_def)
qed

text \<open>
  The section parser lower-cases every key, and the keys of \<open>[confidence.checkrx]\<close> are regular expressions: the class
  \<open>\D\<close> of the text becomes \<open>\d\<close>, its complement.
\<close>

definition class_text :: string where
  "class_text = ''[confidence.checkrx]'' @ [CHR 0x0A] @ [CHR 0x5C] @ ''D=1''"

theorem pattern_class_inverted:
  "pattern_rules (parseSections lo class_text) = [\<lparr>cpr_Pattern = [CHR 0x5C] @ ''d'', cpr_Confidence = f64_1\<rparr>]"
proof -
  have l: "split_on (CHR 0x0A) class_text = [''[confidence.checkrx]'', [CHR 0x5C] @ ''D=1'']" by (simp add: class_text_def)
  have d: "to_lower_ascii ([CHR 0x5C] @ ''D'') = [CHR 0x5C] @ ''d''" by code_simp
  have "parseSections lo class_text = [''global'' \<mapsto> Map.empty, ''confidence.checkrx'' \<mapsto> [[CHR 0x5C] @ ''d'' \<mapsto> ''1'']]"
    unfolding parseSections_def l using d
    by (simp add: parse_line_def key_line_def trim_space_id graphic_def to_lower_def split_n2_def Let_def suffix_def)
      (simp add: to_lower_ascii_def)
  then show ?thesis by (simp add: pattern_rules_def sortedConfidenceKeys_def rule_value_def demo_values)
qed

end
