(* ===== verification/Edge_Config.thy ===== *)
theory Edge_Config
  imports Config_Sections "HOL-Library.Multiset"
begin

text \<open>
  The section \<open>[edge_factors.model]\<close> (\<open>internal/config/edgefactor.go\<close>): its parser with every error, and the trigger
  table. The loop over the section takes the iteration order of this run; each key yields an update of the parse state or
  an error, and the state is the configuration with the flag \<open>pFloorSeen\<close>.
\<close>

definition edgeFactorDomainOrder :: "string list" where
  "edgeFactorDomainOrder = [''attack_surface'', ''business_continuity'', ''operation_trust'', ''resilience'', ''kernel_security'']"

definition isEdgeFactorModelSectionKey :: "(string \<Rightarrow> string) \<Rightarrow> string \<Rightarrow> bool" where
  "isEdgeFactorModelSectionKey lo key \<longleftrightarrow>
     (let k = to_lower lo (trim_space key)
      in k \<in> {''model'', ''p_floor''} \<or>
         list_ex (\<lambda>p. prefix p k) [''lambda.'', ''vector.'', ''coupling.'', ''chain.'', ''trigger.''])"

datatype edge_parse_error =
    UnknownModelName string
  | NotANumber string string
  | NumberNotFinite string string
  | FloorRange string
  | EmptyDomainName string
  | LambdaValue string string
  | EmptyFactorID string
  | VectorArity string nat
  | VectorValue string nat string
  | CouplingKey string
  | CouplingValue string string
  | WindowValue string
  | EmptyTriggerCheck string
  | UnknownKey string
  | NoModelKey
  | NoFloorKey string
  | ChainWithoutWindow

definition parseEdgeFactorNumber :: "string \<Rightarrow> string \<Rightarrow> edge_parse_error + f64" where
  "parseEdgeFactorNumber key raw =
     (case ParseFloat raw of
        None \<Rightarrow> Inl (NotANumber key raw)
      | Some f \<Rightarrow> if nonFinite f then Inl (NumberNotFinite key raw) else Inr f)"

definition canonicalFactorID :: "(string \<Rightarrow> string) \<Rightarrow> string \<Rightarrow> string" where
  "canonicalFactorID uni name = to_upper uni (trim_space name)"

definition last_index :: "char \<Rightarrow> string \<Rightarrow> nat option" where
  "last_index c s = (case dropWhile (\<lambda>x. x \<noteq> c) (rev s) of [] \<Rightarrow> None | x # r \<Rightarrow> Some (length r))"

section \<open>One key\<close>

text \<open>What a key assigns.\<close>

datatype edge_update =
    SetModel string
  | SetFloor f64
  | SetLambda string f64
  | SetVector string "string \<rightharpoonup> f64"
  | SetCoupling string string f64
  | SetWindow int
  | SetTrigger string string

fun apply_update :: "edge_update \<Rightarrow> EdgeFactorModelConfig \<times> bool \<Rightarrow> EdgeFactorModelConfig \<times> bool" where
  "apply_update (SetModel m) (c, seen) = (c\<lparr>efm_Model := m\<rparr>, seen)"
| "apply_update (SetFloor f) (c, seen) = (c\<lparr>efm_PFloor := f\<rparr>, True)"
| "apply_update (SetLambda d f) (c, seen) = (c\<lparr>efm_Lambda := (efm_Lambda c)(d \<mapsto> f)\<rparr>, seen)"
| "apply_update (SetVector fid vec) (c, seen) = (c\<lparr>efm_Vectors := (efm_Vectors c)(fid \<mapsto> vec)\<rparr>, seen)"
| "apply_update (SetCoupling a b f) (c, seen) =
     (c\<lparr>efm_Coupling := (efm_Coupling c)(a \<mapsto> (case efm_Coupling c a of None \<Rightarrow> Map.empty | Some m \<Rightarrow> m)(b \<mapsto> f))\<rparr>, seen)"
| "apply_update (SetWindow n) (c, seen) = (c\<lparr>efm_ChainWindowSeconds := n\<rparr>, seen)"
| "apply_update (SetTrigger fid check) (c, seen) = (c\<lparr>efm_TriggerMap := (efm_TriggerMap c)(fid \<mapsto> check)\<rparr>, seen)"

definition after :: "string \<Rightarrow> string \<Rightarrow> string" where
  "after p key = drop (length p) key"

definition model_update :: "string \<Rightarrow> edge_parse_error + edge_update" where
  "model_update value =
     (if value \<in> {''legacy'', ''vector'', ''graph'', ''chain''} then Inr (SetModel value) else Inl (UnknownModelName value))"

definition floor_update :: "string \<Rightarrow> string \<Rightarrow> edge_parse_error + edge_update" where
  "floor_update key value =
     (case parseEdgeFactorNumber key value of
        Inl e \<Rightarrow> Inl e
      | Inr f \<Rightarrow> if f64_le f f64_0 \<or> f64_ge f f64_1 then Inl (FloorRange value) else Inr (SetFloor f))"

definition lambda_update :: "(string \<Rightarrow> string) \<Rightarrow> string \<Rightarrow> string \<Rightarrow> edge_parse_error + edge_update" where
  "lambda_update lo key value =
     (let domain = to_lower lo (trim_space (after ''lambda.'' key))
      in if domain = [] then Inl (EmptyDomainName key)
         else case parseEdgeFactorNumber key value of
                Inl e \<Rightarrow> Inl e
              | Inr f \<Rightarrow> if f64_le f f64_0 then Inl (LambdaValue key value) else Inr (SetLambda domain f))"

fun parse_vector :: "string \<Rightarrow> nat \<Rightarrow> (string \<times> string) list \<Rightarrow> (string \<rightharpoonup> f64) \<Rightarrow> edge_parse_error + (string \<rightharpoonup> f64)" where
  "parse_vector key i [] vec = Inr vec"
| "parse_vector key i ((d, part) # ps) vec =
     (let raw = trim_space part
      in case parseEdgeFactorNumber (key @ ''['' @ itoa (int i) @ '']'') raw of
           Inl e \<Rightarrow> Inl e
         | Inr f \<Rightarrow> if f64_lt f f64_0 then Inl (VectorValue key i raw) else parse_vector key (i + 1) ps (vec(d \<mapsto> f)))"

definition vector_update :: "(string \<Rightarrow> string) \<Rightarrow> string \<Rightarrow> string \<Rightarrow> edge_parse_error + edge_update" where
  "vector_update uni key value =
     (let factor = canonicalFactorID uni (after ''vector.'' key); parts = split_on (CHR '','') value
      in if factor = [] then Inl (EmptyFactorID key)
         else if length parts \<noteq> length edgeFactorDomainOrder then Inl (VectorArity key (length parts))
         else case parse_vector key 0 (zip edgeFactorDomainOrder parts) Map.empty of
                Inl e \<Rightarrow> Inl e
              | Inr vec \<Rightarrow> Inr (SetVector factor vec))"

definition coupling_update :: "(string \<Rightarrow> string) \<Rightarrow> string \<Rightarrow> string \<Rightarrow> edge_parse_error + edge_update" where
  "coupling_update uni key value =
     (let rest = after ''coupling.'' key
      in case last_index (CHR ''.'') rest of
           None \<Rightarrow> Inl (CouplingKey key)
         | Some i \<Rightarrow>
             if i = 0 \<or> i = length rest - 1 then Inl (CouplingKey key)
             else let a = canonicalFactorID uni (take i rest); b = canonicalFactorID uni (drop (i + 1) rest)
                  in if a = [] \<or> b = [] then Inl (EmptyFactorID key)
                     else case parseEdgeFactorNumber key value of
                            Inl e \<Rightarrow> Inl e
                          | Inr f \<Rightarrow> if f64_lt f f64_0 then Inl (CouplingValue key value) else Inr (SetCoupling a b f))"

definition window_update :: "string \<Rightarrow> edge_parse_error + edge_update" where
  "window_update value =
     (case atoi value of None \<Rightarrow> Inl (WindowValue value) | Some n \<Rightarrow> if n \<le> 0 then Inl (WindowValue value) else Inr (SetWindow n))"

definition trigger_update :: "(string \<Rightarrow> string) \<Rightarrow> string \<Rightarrow> string \<Rightarrow> edge_parse_error + edge_update" where
  "trigger_update uni key value =
     (let factor = canonicalFactorID uni (after ''trigger.'' key); check = to_upper uni value
      in if factor = [] then Inl (EmptyFactorID key)
         else if check = [] then Inl (EmptyTriggerCheck key) else Inr (SetTrigger factor check))"

definition parse_edge_key :: "(string \<Rightarrow> string) \<Rightarrow> (string \<Rightarrow> string) \<Rightarrow> string \<Rightarrow> string \<Rightarrow> edge_parse_error + edge_update" where
  "parse_edge_key lo uni key value =
     (if key = ''model'' then model_update value
      else if key = ''p_floor'' then floor_update key value
      else if prefix ''lambda.'' key then lambda_update lo key value
      else if prefix ''vector.'' key then vector_update uni key value
      else if prefix ''coupling.'' key then coupling_update uni key value
      else if key = ''chain.window_seconds'' then window_update value
      else if prefix ''trigger.'' key then trigger_update uni key value
      else Inl (UnknownKey key))"

section \<open>The section\<close>

fun parse_edge_keys ::
    "(string \<Rightarrow> string) \<Rightarrow> (string \<Rightarrow> string) \<Rightarrow> section_map \<Rightarrow> string list \<Rightarrow> EdgeFactorModelConfig \<times> bool \<Rightarrow>
     edge_parse_error + (EdgeFactorModelConfig \<times> bool)" where
  "parse_edge_keys lo uni kv [] st = Inr st"
| "parse_edge_keys lo uni kv (k # ks) st =
     (case kv k of
        None \<Rightarrow> parse_edge_keys lo uni kv ks st
      | Some raw \<Rightarrow>
          (case parse_edge_key lo uni k (trim_space raw) of
             Inl e \<Rightarrow> Inl e
           | Inr u \<Rightarrow> parse_edge_keys lo uni kv ks (apply_update u st)))"

definition noEdgeFactorModel :: EdgeFactorModelConfig where
  "noEdgeFactorModel =
     \<lparr>efm_Model = [], efm_PFloor = f64_0, efm_Lambda = Map.empty, efm_Vectors = Map.empty, efm_Coupling = Map.empty,
      efm_ChainWindowSeconds = 0, efm_TriggerMap = Map.empty\<rparr>"

text \<open>The result: the configuration and whether the section is present.\<close>

definition ParseEdgeFactorModel ::
    "(string \<Rightarrow> string) \<Rightarrow> (string \<Rightarrow> string) \<Rightarrow> string list \<Rightarrow> sections \<Rightarrow> edge_parse_error + (EdgeFactorModelConfig \<times> bool)" where
  "ParseEdgeFactorModel lo uni order secs =
     (case secs ''edge_factors.model'' of
        None \<Rightarrow> Inr (noEdgeFactorModel, False)
      | Some kv \<Rightarrow>
          (case parse_edge_keys lo uni kv order (noEdgeFactorModel, False) of
             Inl e \<Rightarrow> Inl e
           | Inr (c, seen) \<Rightarrow>
               if efm_Model c = [] then Inl NoModelKey
               else if \<not> seen then Inl (NoFloorKey (efm_Model c))
               else if efm_Model c = ''chain'' \<and> efm_ChainWindowSeconds c \<le> 0 then Inl ChainWithoutWindow
               else Inr (c, True)))"

definition DefaultEdgeFactorTriggerMap :: "string \<rightharpoonup> string" where
  "DefaultEdgeFactorTriggerMap =
     [''EF-002FA'' \<mapsto> ''EF-001'', ''EF-SYNCOOKIE'' \<mapsto> ''RS-005'', ''EF-SELINUX'' \<mapsto> ''OT-005'', ''EF-APPARMOR'' \<mapsto> ''OT-005'',
      ''EF-NO-SIEM'' \<mapsto> ''RS-007'', ''EF-NO-IDS'' \<mapsto> ''RS-006'', ef3FAFactorID \<mapsto> ''EF-002'']"

definition ResolveEdgeFactorTriggerMap :: "EdgeFactorModelConfig option \<Rightarrow> (string \<rightharpoonup> string)" where
  "ResolveEdgeFactorTriggerMap cfg =
     (case cfg of
        None \<Rightarrow> DefaultEdgeFactorTriggerMap
      | Some m \<Rightarrow>
          (\<lambda>fid. case efm_TriggerMap m fid of
                   None \<Rightarrow> DefaultEdgeFactorTriggerMap fid
                 | Some check \<Rightarrow> if trim_space check = [] then DefaultEdgeFactorTriggerMap fid else Some check))"

section \<open>The order of the keys\<close>

text \<open>Two updates collide when they write the same place.\<close>

fun same_place :: "edge_update \<Rightarrow> edge_update \<Rightarrow> bool" where
  "same_place (SetModel _) (SetModel _) = True"
| "same_place (SetFloor _) (SetFloor _) = True"
| "same_place (SetLambda d _) (SetLambda d' _) = (d = d')"
| "same_place (SetVector fid _) (SetVector fid' _) = (fid = fid')"
| "same_place (SetCoupling a b _) (SetCoupling a' b' _) = (a = a' \<and> b = b')"
| "same_place (SetWindow _) (SetWindow _) = True"
| "same_place (SetTrigger fid _) (SetTrigger fid' _) = (fid = fid')"
| "same_place _ _ = False"

lemma updates_commute:
  assumes "\<not> same_place u w"
  shows "apply_update u (apply_update w st) = apply_update w (apply_update u st)"
proof -
  obtain c seen where "st = (c, seen)" by (cases st)
  then show ?thesis
    using assms by (cases u; cases w) (auto simp: fun_upd_twist split: option.split)
qed

definition key_update :: "(string \<Rightarrow> string) \<Rightarrow> (string \<Rightarrow> string) \<Rightarrow> section_map \<Rightarrow> string \<Rightarrow> edge_update option" where
  "key_update lo uni kv k =
     Option.bind (kv k) (\<lambda>raw. case parse_edge_key lo uni k (trim_space raw) of Inl _ \<Rightarrow> None | Inr u \<Rightarrow> Some u)"

lemma parse_edge_keys_Inr:
  "parse_edge_keys lo uni kv ks st = Inr st' \<longleftrightarrow>
     (\<forall>k\<in>set ks. kv k = None \<or> key_update lo uni kv k \<noteq> None) \<and>
     st' = fold apply_update (List.map_filter (key_update lo uni kv) ks) st"
proof (induction ks arbitrary: st)
  case (Cons k ks)
  then show ?case
    by (auto simp: key_update_def List.map_filter_simps split: option.splits sum.splits)
qed (auto simp: List.map_filter_simps)

text \<open>No two keys of the section write the same place.\<close>

definition keys_distinct :: "(string \<Rightarrow> string) \<Rightarrow> (string \<Rightarrow> string) \<Rightarrow> section_map \<Rightarrow> bool" where
  "keys_distinct lo uni kv \<longleftrightarrow>
     (\<forall>k k' u u'. key_update lo uni kv k = Some u \<longrightarrow> key_update lo uni kv k' = Some u' \<longrightarrow> same_place u u' \<longrightarrow> k = k')"

lemma fold_updates_permute:
  assumes "keys_distinct lo uni kv" "mset ks = mset ks'" "distinct ks"
  shows "fold apply_update (List.map_filter (key_update lo uni kv) ks) = fold apply_update (List.map_filter (key_update lo uni kv) ks')"
proof -
  let ?f = "\<lambda>k. case key_update lo uni kv k of None \<Rightarrow> id | Some u \<Rightarrow> apply_update u"
  have e: "fold apply_update (List.map_filter (key_update lo uni kv) xs) = fold ?f xs" for xs
    by (induction xs) (simp_all add: List.map_filter_simps split: option.split)
  have "?f x \<circ> ?f y = ?f y \<circ> ?f x" for x y
  proof (cases "x = y")
    case False
    then have "\<not> same_place u w" if "key_update lo uni kv x = Some u" "key_update lo uni kv y = Some w" for u w
      using assms(1) that unfolding keys_distinct_def by blast
    then show ?thesis
      by (intro ext, cases "key_update lo uni kv x"; cases "key_update lo uni kv y") (auto intro!: updates_commute)
  qed simp
  then show ?thesis unfolding e using assms(2) by (intro fold_multiset_equiv) auto
qed

text \<open>The order in which a run iterates over the section does not matter as long as no two keys name the same place:
  the parser succeeds in both orders with the same configuration, or in neither.\<close>

theorem parse_order_irrelevant:
  assumes "secs ''edge_factors.model'' = Some kv" and "keys_distinct lo uni kv" and "iter_order o1 kv" and "iter_order o2 kv"
  shows "ParseEdgeFactorModel lo uni o1 secs = Inr r \<longleftrightarrow> ParseEdgeFactorModel lo uni o2 secs = Inr r"
proof -
  have s: "set o1 = set o2" "distinct o1" "distinct o2" using assms(3,4) by (auto simp: iter_order_def)
  then have "mset o1 = mset o2" by (simp add: set_eq_iff_mset_eq_distinct)
  note f = fold_updates_permute [OF assms(2) this s(2)]
  have "parse_edge_keys lo uni kv o1 st = Inr st' \<longleftrightarrow> parse_edge_keys lo uni kv o2 st = Inr st'" for st st'
    unfolding parse_edge_keys_Inr f s(1) ..
  then show ?thesis
    using assms(1) by (auto simp: ParseEdgeFactorModel_def split: sum.splits) (metis Inr_not_Inl Inr_inject Pair_inject)+
qed

section \<open>The ranges of a parsed section\<close>

definition nonneg_number :: "f64 \<Rightarrow> bool" where
  "nonneg_number v \<longleftrightarrow> (\<exists>q. v = Fin q \<and> 0 \<le> q)"

definition pos_number :: "f64 \<Rightarrow> bool" where
  "pos_number v \<longleftrightarrow> (\<exists>q. v = Fin q \<and> 0 < q)"

definition floor_number :: "f64 \<Rightarrow> bool" where
  "floor_number v \<longleftrightarrow> (\<exists>q. v = Fin q \<and> 0 < q \<and> q < 1)"

definition full_vector :: "(string \<rightharpoonup> f64) \<Rightarrow> bool" where
  "full_vector vec \<longleftrightarrow> dom vec = set DefaultDomains \<and> (\<forall>v\<in>ran vec. nonneg_number v)"

definition model_name :: "string \<Rightarrow> bool" where
  "model_name m \<longleftrightarrow> m \<in> {''legacy'', ''vector'', ''graph'', ''chain''}"

fun good_update :: "edge_update \<Rightarrow> bool" where
  "good_update (SetModel m) = model_name m"
| "good_update (SetFloor f) = floor_number f"
| "good_update (SetLambda d f) = pos_number f"
| "good_update (SetVector fid vec) = full_vector vec"
| "good_update (SetCoupling a b f) = nonneg_number f"
| "good_update (SetWindow n) = (0 < n)"
| "good_update (SetTrigger fid check) = (check \<noteq> [])"

lemma number_Inr: "parseEdgeFactorNumber key raw = Inr f \<Longrightarrow> \<exists>q. f = Fin q"
  by (cases f) (auto simp: parseEdgeFactorNumber_def nonFinite_def split: option.splits if_splits)

lemma parse_vector_Inr:
  "parse_vector key i ps vec = Inr vec' \<Longrightarrow> (\<forall>v\<in>ran vec. nonneg_number v) \<Longrightarrow>
     dom vec' = dom vec \<union> set (map fst ps) \<and> (\<forall>v\<in>ran vec'. nonneg_number v)"
proof (induction ps arbitrary: vec i)
  case (Cons p ps)
  obtain d part where p: "p = (d, part)" by (cases p)
  obtain f where f: "parseEdgeFactorNumber (key @ ''['' @ itoa (int i) @ '']'') (trim_space part) = Inr f" "\<not> f64_lt f f64_0"
    "parse_vector key (i + 1) ps (vec(d \<mapsto> f)) = Inr vec'"
    using Cons.prems(1) by (auto simp: p Let_def split: sum.splits if_splits)
  have "nonneg_number f" using number_Inr [OF f(1)] f(2) by (auto simp: nonneg_number_def f64_lt_def)
  then have "\<forall>v\<in>ran (vec(d \<mapsto> f)). nonneg_number v" using Cons.prems(2) by (auto simp: ran_def split: if_splits)
  from Cons.IH [OF f(3) this] show ?case by (auto simp: p)
qed simp

lemma parse_edge_key_good: "parse_edge_key lo uni key value = Inr u \<Longrightarrow> good_update u"
proof -
  assume u: "parse_edge_key lo uni key value = Inr u"
  have fl: "good_update u" if "floor_update key value = Inr u"
    using that by (auto simp: floor_update_def floor_number_def split: sum.splits if_splits dest!: number_Inr)
  have la: "good_update u" if "lambda_update lo key value = Inr u"
    using that by (auto simp: lambda_update_def Let_def pos_number_def split: sum.splits if_splits dest!: number_Inr)
  have ve: "good_update u" if v: "vector_update uni key value = Inr u"
  proof -
    obtain vec where vec: "length (split_on (CHR '','') value) = length edgeFactorDomainOrder"
      "parse_vector key 0 (zip edgeFactorDomainOrder (split_on (CHR '','') value)) Map.empty = Inr vec" "\<exists>fid. u = SetVector fid vec"
      using v by (auto simp: vector_update_def Let_def split: sum.splits if_splits)
    have "edgeFactorDomainOrder = DefaultDomains" by (simp add: edgeFactorDomainOrder_def DefaultDomains_def)
    then show ?thesis using parse_vector_Inr [OF vec(2)] vec(1,3) by (auto simp: full_vector_def)
  qed
  have co: "good_update u" if "coupling_update uni key value = Inr u"
    using that by (auto simp: coupling_update_def Let_def nonneg_number_def f64_lt_def split: sum.splits option.splits if_splits dest!: number_Inr)
  have wi: "good_update u" if "window_update value = Inr u"
    using that by (auto simp: window_update_def split: option.splits if_splits)
  have mo: "good_update u" if "model_update value = Inr u"
    using that by (auto simp: model_update_def model_name_def split: if_splits)
  have tr: "good_update u" if "trigger_update uni key value = Inr u"
    using that by (auto simp: trigger_update_def Let_def split: if_splits)
  show ?thesis using u fl la ve co wi mo tr by (auto simp: parse_edge_key_def split: if_splits)
qed

definition good_tables :: "EdgeFactorModelConfig \<Rightarrow> bool" where
  "good_tables m \<longleftrightarrow>
     (\<forall>l\<in>ran (efm_Lambda m). pos_number l) \<and> (\<forall>vec\<in>ran (efm_Vectors m). full_vector vec) \<and>
     (\<forall>tos\<in>ran (efm_Coupling m). \<forall>c\<in>ran tos. nonneg_number c)"

definition good_state :: "EdgeFactorModelConfig \<times> bool \<Rightarrow> bool" where
  "good_state st \<longleftrightarrow>
     good_tables (fst st) \<and> (efm_Model (fst st) = [] \<or> model_name (efm_Model (fst st))) \<and> (snd st \<longrightarrow> floor_number (efm_PFloor (fst st)))"

lemma ran_upd: "(\<forall>x\<in>ran m. P x) \<Longrightarrow> P v \<Longrightarrow> \<forall>x\<in>ran (m(k \<mapsto> v)). P x"
  by (auto simp: ran_def)

lemma good_coupling:
  assumes "\<forall>tos\<in>ran m. \<forall>c\<in>ran tos. nonneg_number c" "nonneg_number f"
  shows "\<forall>tos\<in>ran (m(a \<mapsto> (case m a of None \<Rightarrow> Map.empty | Some tos \<Rightarrow> tos)(b \<mapsto> f))). \<forall>c\<in>ran tos. nonneg_number c"
proof (rule ran_upd [where P = "\<lambda>tos. \<forall>c\<in>ran tos. nonneg_number c", OF assms(1)])
  have "\<forall>c\<in>ran (case m a of None \<Rightarrow> Map.empty | Some tos \<Rightarrow> tos). nonneg_number c"
    using assms(1) by (cases "m a") (auto simp: ran_def)
  from ran_upd [where P = nonneg_number, OF this assms(2)]
  show "\<forall>c\<in>ran ((case m a of None \<Rightarrow> Map.empty | Some tos \<Rightarrow> tos)(b \<mapsto> f)). nonneg_number c" .
qed

lemma good_lambda: "(\<forall>l\<in>ran m. pos_number l) \<Longrightarrow> pos_number f \<Longrightarrow> \<forall>l\<in>ran (m(d \<mapsto> f)). pos_number l"
  by (rule ran_upd)

lemma good_vectors: "(\<forall>v\<in>ran m. full_vector v) \<Longrightarrow> full_vector vec \<Longrightarrow> \<forall>v\<in>ran (m(fid \<mapsto> vec)). full_vector v"
  by (rule ran_upd)

lemma apply_update_good: "good_update u \<Longrightarrow> good_state st \<Longrightarrow> good_state (apply_update u st)"
  by (cases st; cases u; simp add: good_state_def good_tables_def; (rule good_lambda good_vectors good_coupling; simp)?)

lemma key_update_good: "key_update lo uni kv k = Some u \<Longrightarrow> good_update u"
  by (cases "kv k"; cases "parse_edge_key lo uni k (trim_space (the (kv k)))")
    (auto simp: key_update_def dest: parse_edge_key_good)

lemma updates_good:
  "good_state st \<Longrightarrow> good_state (fold apply_update (List.map_filter (key_update lo uni kv) ks) st)"
proof (induction ks arbitrary: st)
  case (Cons k ks)
  then show ?case
    by (cases "key_update lo uni kv k") (simp_all add: List.map_filter_simps apply_update_good [OF key_update_good])
qed (simp add: List.map_filter_simps)

lemma parsed_ranges:
  assumes "ParseEdgeFactorModel lo uni order secs = Inr (m, True)"
  shows "good_tables m \<and> model_name (efm_Model m) \<and> floor_number (efm_PFloor m) \<and>
     (efm_Model m = ''chain'' \<longrightarrow> 0 < efm_ChainWindowSeconds m)"
proof -
  obtain kv seen where kv: "parse_edge_keys lo uni kv order (noEdgeFactorModel, False) = Inr (m, seen)" "efm_Model m \<noteq> []" "seen"
    "efm_Model m = ''chain'' \<longrightarrow> 0 < efm_ChainWindowSeconds m"
    using assms by (auto simp: ParseEdgeFactorModel_def split: option.splits sum.splits if_splits)
  have "good_state (noEdgeFactorModel, False)" by (simp add: good_state_def good_tables_def noEdgeFactorModel_def)
  then have "good_state (m, seen)" using kv(1) updates_good unfolding parse_edge_keys_Inr by metis
  then show ?thesis using kv(2-4) by (simp add: good_state_def)
qed

section \<open>What is left to the assembly\<close>

lemma first_of_Some: "first_of es = Some e \<Longrightarrow> Some e \<in> set es"
  by (induction es rule: first_of.induct) auto

lemma vector_sum_good:
  "set ds \<subseteq> set domains \<Longrightarrow> (\<forall>v\<in>ran vec. nonneg_number v) \<Longrightarrow> \<exists>acc'. vector_sum domains fid vec acc ds = Inr acc'"
proof (induction ds arbitrary: acc)
  case (Cons d ds)
  then show ?case
    by (cases "vec d") (auto simp: nonneg_number_def nonFinite_def f64_lt_def ran_def)
qed simp

lemma Validate_structural:
  assumes "Validate ord DefaultDomains p = Some e" and "orders_of ord p"
    and "model_name (p_Model p)" "floor_number (p_PFloor p)" "\<forall>l\<in>ran (p_Lambda p). pos_number l"
    and "\<forall>f\<in>ran (p_Factors p). \<exists>q. f = Fin q \<and> 0 < q \<and> q \<le> 1" "\<forall>vec\<in>ran (p_Vectors p). full_vector vec"
    and "\<forall>tos\<in>ran (p_Coupling p). \<forall>c\<in>ran tos. nonneg_number c" "p_Model p = ModelChain \<longrightarrow> 0 < p_ChainWindowSeconds p"
  shows "(\<exists>d. e = LambdaUnknownDomain d) \<or> (\<exists>fid v. e = VectorSum fid v)"
proof -
  have m: "model_error p \<noteq> Some e" using assms(3) by (auto simp: model_error_def model_name_def)
  have fl: "floor_error p \<noteq> Some e" using assms(4) by (auto simp: floor_error_def floor_number_def nonFinite_def)
  have la: ?thesis if "lambda_error DefaultDomains p d = Some e" for d
    using that assms(5) by (auto simp: lambda_error_def pos_number_def nonFinite_def ran_def split: option.splits if_splits)
  have fa: "factor_error p fid \<noteq> Some e" for fid
    using assms(6) by (auto simp: factor_error_def nonFinite_def f64_lt_def ran_def split: option.splits if_splits)
  have co: "coupling_error p a b \<noteq> Some e" for a b
  proof
    assume "coupling_error p a b = Some e"
    then obtain tos c where c: "p_Coupling p a = Some tos" "tos b = Some c" "nonFinite c \<or> f64_lt c f64_0"
      by (cases "p_Coupling p a") (auto simp: coupling_error_def split: option.splits if_splits)
    have "tos \<in> ran (p_Coupling p)" "c \<in> ran tos" using c by (simp_all add: ranI)
    then have "nonneg_number c" using assms(8) by blast
    then show False using c(3) by (auto simp: nonneg_number_def nonFinite_def f64_lt_def)
  qed
  have wi: "window_error p \<noteq> Some e" using assms(9) by (auto simp: window_error_def)
  have ve: ?thesis if v: "vector_error ord DefaultDomains p fid = Some e" for fid
  proof -
    obtain vec where vec: "p_Vectors p fid = Some vec" using v by (auto simp: vector_error_def split: option.splits)
    then have f: "full_vector vec" using assms(7) by (auto simp: ran_def)
    have "set (or_Vector ord fid) \<subseteq> set DefaultDomains"
      using f assms(2) vec by (auto simp: orders_of_def iter_order_def full_vector_def)
    then obtain acc where acc: "vector_sum DefaultDomains fid vec f64_0 (or_Vector ord fid) = Inr acc"
      using vector_sum_good f by (metis full_vector_def)
    have "vec d \<noteq> None" if "d \<in> set DefaultDomains" for d using f that by (auto simp: full_vector_def)
    then have nc: "first_of (map (\<lambda>d. if vec d = None then Some (VectorNotCovering fid d) else None) DefaultDomains) = None"
      by (auto simp: first_of_map simp del: first_of_None)
    show ?thesis using v vec acc nc by (auto simp: vector_error_def simp del: first_of_None split: if_splits)
  qed
  have mem: "Some e \<in> set ([model_error p, floor_error p] @ map (lambda_error DefaultDomains p) (or_Lambda ord) @
       map (factor_error p) (or_Factors ord) @ map (vector_error ord DefaultDomains p) (or_Vectors ord) @
       concat (map (\<lambda>a. map (coupling_error p a) (or_Tos ord a)) (or_Coupling ord)) @ [window_error p])"
    using first_of_Some [OF assms(1) [unfolded Validate_def]] .
  show ?thesis
  proof (rule ccontr)
    assume n: "\<not> ?thesis"
    have "Some e \<noteq> lambda_error DefaultDomains p d" "Some e \<noteq> vector_error ord DefaultDomains p d" for d
      using la [of d] ve [of d] n by metis+
    then show False using mem m [symmetric] fl [symmetric] fa [symmetric] co [symmetric] wi [symmetric] by auto metis
  qed
qed

lemma config_params_select:
  "p_PFloor (config_params uni ao cf) = efm_PFloor (cfg_EdgeFactorModel cf)" "p_Lambda (config_params uni ao cf) = efm_Lambda (cfg_EdgeFactorModel cf)"
  "p_Vectors (config_params uni ao cf) = efm_Vectors (cfg_EdgeFactorModel cf)" "p_Coupling (config_params uni ao cf) = efm_Coupling (cfg_EdgeFactorModel cf)"
  "p_ChainWindowSeconds (config_params uni ao cf) = efm_ChainWindowSeconds (cfg_EdgeFactorModel cf)"
  "p_Factors (config_params uni ao cf) = factorWeights uni (ao_custom ao) cf"
  by (simp_all add: config_params_def Let_def)


section \<open>Concrete sections\<close>

text \<open>A section of the graph model with one vector and one coupling, and two spellings of one key.\<close>

definition graph_section :: section_map where
  "graph_section =
     [''model'' \<mapsto> ''graph'', ''p_floor'' \<mapsto> ''0.5'', ''lambda.resilience'' \<mapsto> ''1'', ''vector.ef-no-ids'' \<mapsto> ''0,0,0,1,0'',
      ''coupling.ef-no-ids.ef-no-siem'' \<mapsto> ''1'']"

definition graph_keys :: "string list" where
  "graph_keys = [''model'', ''p_floor'', ''lambda.resilience'', ''vector.ef-no-ids'', ''coupling.ef-no-ids.ef-no-siem'']"

definition rival_section :: section_map where
  "rival_section = [''model'' \<mapsto> ''vector'', ''p_floor'' \<mapsto> ''0.5'', ''lambda.x'' \<mapsto> ''1'', ''lambda. x'' \<mapsto> ''2'']"

lemma trims: "trim_space ''graph'' = ''graph''" "trim_space ''vector'' = ''vector''" "trim_space ''0.5'' = ''0.5''" "trim_space ''1'' = ''1''" "trim_space ''0'' = ''0''"
  "trim_space ''2'' = ''2''" "trim_space ''0,0,0,1,0'' = ''0,0,0,1,0''" "trim_space ''resilience'' = ''resilience''" "trim_space ''ef-no-ids'' = ''ef-no-ids''"
  "trim_space ''ef-no-siem'' = ''ef-no-siem''" "trim_space ''x'' = ''x''"
  by (rule trim_space_id; simp add: graphic_def)+

lemma trims2: "trim_space '' x'' = ''x''"
  by code_simp

lemma numbers: "ParseFloat ''0.5'' = Some (Fin (1 / 2))" "ParseFloat ''1'' = Some f64_1" "ParseFloat ''0'' = Some f64_0" "ParseFloat ''2'' = Some (Fin 2)"
  by (simp_all add: ParseFloat_def to_lower_ascii_def parse_unsigned_def parse_exponent_def is_digit_def digits_val_def digit_val_def power_int_def)

lemma uppers: "to_upper uni ''ef-no-ids'' = ''EF-NO-IDS''" "to_upper uni ''ef-no-siem'' = ''EF-NO-SIEM''"
proof -
  have "map upper_char ''ef-no-siem'' = ''EF-NO-SIEM''" by code_simp
  then show "to_upper uni ''ef-no-siem'' = ''EF-NO-SIEM''" by (simp add: to_upper_def)
  show "to_upper uni ''ef-no-ids'' = ''EF-NO-IDS''" using upper_ids(2) by (simp add: to_upper_def)
qed

lemma lowers: "to_lower lo ''resilience'' = ''resilience''" "to_lower lo ''x'' = ''x''"
  by (simp_all add: to_lower_def to_lower_ascii_def)

definition resilience_vector :: "string \<rightharpoonup> f64" where
  "resilience_vector =
     [''attack_surface'' \<mapsto> f64_0, ''business_continuity'' \<mapsto> f64_0, ''operation_trust'' \<mapsto> f64_0, ''resilience'' \<mapsto> f64_1,
      ''kernel_security'' \<mapsto> f64_0]"

lemma graph_parses:
  "parse_edge_key lo uni ''model'' ''graph'' = Inr (SetModel ''graph'')"
  "parse_edge_key lo uni ''p_floor'' ''0.5'' = Inr (SetFloor (Fin (1 / 2)))"
  "parse_edge_key lo uni ''lambda.resilience'' ''1'' = Inr (SetLambda ''resilience'' f64_1)"
  "parse_edge_key lo uni ''vector.ef-no-ids'' ''0,0,0,1,0'' = Inr (SetVector ''EF-NO-IDS'' resilience_vector)"
  "parse_edge_key lo uni ''coupling.ef-no-ids.ef-no-siem'' ''1'' = Inr (SetCoupling ''EF-NO-IDS'' ''EF-NO-SIEM'' f64_1)"
  by (simp_all add: parse_edge_key_def model_update_def floor_update_def lambda_update_def vector_update_def coupling_update_def
      parseEdgeFactorNumber_def after_def trims numbers uppers lowers nonFinite_def canonicalFactorID_def edgeFactorDomainOrder_def
      last_index_def resilience_vector_def f64_lt_def)

lemma graph_updates:
  "key_update lo uni graph_section k =
     (if k = ''model'' then Some (SetModel ''graph'') else if k = ''p_floor'' then Some (SetFloor (Fin (1 / 2)))
      else if k = ''lambda.resilience'' then Some (SetLambda ''resilience'' f64_1)
      else if k = ''vector.ef-no-ids'' then Some (SetVector ''EF-NO-IDS'' resilience_vector)
      else if k = ''coupling.ef-no-ids.ef-no-siem'' then Some (SetCoupling ''EF-NO-IDS'' ''EF-NO-SIEM'' f64_1) else None)"
  by (simp add: key_update_def graph_section_def trims graph_parses)

lemma graph_distinct: "keys_distinct lo uni graph_section"
  by (simp add: keys_distinct_def graph_updates)

lemma graph_order: "iter_order graph_keys graph_section" "iter_order (rev graph_keys) graph_section"
  by (auto simp: iter_order_def graph_keys_def graph_section_def)

theorem parse_order_irrelevant_witness:
  "ParseEdgeFactorModel (\<lambda>s. s) (\<lambda>s. s) (rev graph_keys) [''edge_factors.model'' \<mapsto> graph_section] =
     Inr (\<lparr>efm_Model = ''graph'', efm_PFloor = Fin (1 / 2), efm_Lambda = [''resilience'' \<mapsto> f64_1],
           efm_Vectors = [''EF-NO-IDS'' \<mapsto> resilience_vector], efm_Coupling = [''EF-NO-IDS'' \<mapsto> [''EF-NO-SIEM'' \<mapsto> f64_1]],
           efm_ChainWindowSeconds = 0, efm_TriggerMap = Map.empty\<rparr>, True)"
proof -
  have "ParseEdgeFactorModel (\<lambda>s. s) (\<lambda>s. s) graph_keys [''edge_factors.model'' \<mapsto> graph_section] =
     Inr (\<lparr>efm_Model = ''graph'', efm_PFloor = Fin (1 / 2), efm_Lambda = [''resilience'' \<mapsto> f64_1],
           efm_Vectors = [''EF-NO-IDS'' \<mapsto> resilience_vector], efm_Coupling = [''EF-NO-IDS'' \<mapsto> [''EF-NO-SIEM'' \<mapsto> f64_1]],
           efm_ChainWindowSeconds = 0, efm_TriggerMap = Map.empty\<rparr>, True)"
    by (simp add: ParseEdgeFactorModel_def graph_keys_def graph_section_def trims graph_parses noEdgeFactorModel_def)
  then show ?thesis by (subst parse_order_irrelevant [OF _ graph_distinct graph_order(2,1)]) simp_all
qed

lemma rival_parses:
  "parse_edge_key lo uni ''model'' ''vector'' = Inr (SetModel ''vector'')"
  "parse_edge_key lo uni ''lambda.x'' ''1'' = Inr (SetLambda ''x'' f64_1)"
  "parse_edge_key lo uni ''lambda. x'' ''2'' = Inr (SetLambda ''x'' (Fin 2))"
  by (simp_all add: parse_edge_key_def model_update_def lambda_update_def parseEdgeFactorNumber_def after_def trims trims2 numbers lowers nonFinite_def)

definition rival_model :: "f64 \<Rightarrow> EdgeFactorModelConfig" where
  "rival_model l =
     \<lparr>efm_Model = ''vector'', efm_PFloor = Fin (1 / 2), efm_Lambda = [''x'' \<mapsto> l], efm_Vectors = Map.empty, efm_Coupling = Map.empty,
      efm_ChainWindowSeconds = 0, efm_TriggerMap = Map.empty\<rparr>"

text \<open>Two spellings of one domain: which value wins depends on the iteration order of the run.\<close>

theorem colliding_spellings_depend_on_order:
  "ParseEdgeFactorModel lo uni [''model'', ''p_floor'', ''lambda.x'', ''lambda. x''] [''edge_factors.model'' \<mapsto> rival_section] = Inr (rival_model (Fin 2), True) \<and>
   ParseEdgeFactorModel lo uni [''model'', ''p_floor'', ''lambda. x'', ''lambda.x''] [''edge_factors.model'' \<mapsto> rival_section] = Inr (rival_model f64_1, True)"
  by (simp add: ParseEdgeFactorModel_def rival_section_def trims rival_parses graph_parses noEdgeFactorModel_def rival_model_def)

definition rival_config :: ef_config where
  "rival_config =
     \<lparr>cfg_EdgeFactors = demo_weights_half, cfg_EdgeFactorsCustom = Map.empty, cfg_EdgeFactorModel = rival_model (Fin 2)\<rparr>"

definition rival_orders :: map_orders where
  "rival_orders =
     \<lparr>or_Lambda = [''x''], or_Factors = builtin_ids, or_Vectors = [], or_Vector = (\<lambda>_. []), or_Coupling = [], or_Tos = (\<lambda>_. [])\<rparr>"

definition rival_assembly :: assembly_orders where
  "rival_assembly = \<lparr>ao_custom = [], ao_trigger = [], ao_keys = rival_orders, ao_symmetry = rival_orders, ao_validate = rival_orders\<rparr>"


end
