(* ===== verification/Config_Core.thy ===== *)
theory Config_Core
  imports Config_Confidence Edge_Config
begin

text \<open>
  The configuration the scorer reads (\<open>internal/config/config.go\<close>, \<open>ranges.go\<close>): \<open>Default\<close>, the sections of \<open>Parse\<close>
  that feed the score, \<open>validateRanges\<close>, and the check inputs the legacy scorer builds from it
  (\<open>legacyCheckInputs\<close> of \<open>internal/engine/assessor.go\<close>). The sections of the extension manager, of SPC, of ATT&CK and of
  the adapters write other fields and are left out.
\<close>

record Weights =
  wt_AttackSurface :: f64
  wt_BusinessContinuity :: f64
  wt_OperationTrust :: f64
  wt_Resilience :: f64
  wt_KernelSecurity :: f64

record Config = ef_config +
  cf_Weights :: Weights
  cf_Threshold :: f64
  cf_ThreatCoeff :: f64
  cf_SPCEnabled :: bool
  cf_ComplianceFramework :: string
  cf_DataDir :: string
  cf_TopologyExcludeCIDRs :: "string list"
  cf_ACINetworkSegmentation :: f64
  cf_ACILAPSEnabled :: f64
  cf_ACIOfflineBackup :: f64
  cf_ACIEDRRunning :: f64
  cf_ACIRemoteLogging :: f64
  cf_ACIAppWhitelist :: f64
  cf_ACIDLPMeasures :: f64
  cf_CheckDeltas :: "string \<rightharpoonup> f64"
  cf_Extensions :: "string \<rightharpoonup> bool"
  cf_ExtensionWeights :: "string \<rightharpoonup> f64"
  cf_HotloadEnabled :: bool
  cf_HotloadIntervalS :: int
  cf_PrismDefaultTransmission :: f64
  cf_ScoringEngine :: string
  cf_Zones :: "string \<rightharpoonup> string"
  cf_Confidence :: ConfidenceConfig

datatype config_error =
    MisplacedEdgeKey string
  | EdgeModelError edge_parse_error
  | PrismNotFinite string
  | PrismOutOfRange string
  | ConfidenceError confidence_error
  | RangeError string f64

definition Default :: Config where
  "Default =
     \<lparr>cfg_EdgeFactors =
        \<lparr>efw_TwoFactorFailure = f64_1, efw_SYNCookieDisabled = lit (75 / 100), efw_SELinuxDisabled = lit (80 / 100),
         efw_AppArmorDisabled = lit (82 / 100), efw_NoSIEM = lit (90 / 100), efw_NoIDS = lit (88 / 100)\<rparr>,
      cfg_EdgeFactorsCustom = Map.empty, cfg_EdgeFactorModel = noEdgeFactorModel,
      cf_Weights = \<lparr>wt_AttackSurface = lit 35, wt_BusinessContinuity = lit 25, wt_OperationTrust = lit 25, wt_Resilience = lit 15,
                    wt_KernelSecurity = f64_0\<rparr>,
      cf_Threshold = lit 80, cf_ThreatCoeff = f64_1, cf_SPCEnabled = False, cf_ComplianceFramework = [], cf_DataDir = [],
      cf_TopologyExcludeCIDRs = [], cf_ACINetworkSegmentation = lit (- 15), cf_ACILAPSEnabled = lit (- 10),
      cf_ACIOfflineBackup = lit (- 20), cf_ACIEDRRunning = lit (- 10), cf_ACIRemoteLogging = lit (- 10),
      cf_ACIAppWhitelist = lit (- 10), cf_ACIDLPMeasures = lit (- 5), cf_CheckDeltas = Map.empty, cf_Extensions = Map.empty,
      cf_ExtensionWeights = Map.empty, cf_HotloadEnabled = False, cf_HotloadIntervalS = 30,
      cf_PrismDefaultTransmission = lit (3 / 10), cf_ScoringEngine = [], cf_Zones = Map.empty, cf_Confidence = DefaultConfidenceConfig\<rparr>"

definition GetPrismDefaultTransmission :: "Config \<Rightarrow> f64" where
  "GetPrismDefaultTransmission cf =
     (if f64_le (cf_PrismDefaultTransmission cf) f64_0 then lit (3 / 10) else cf_PrismDefaultTransmission cf)"

section \<open>The sections\<close>

definition on_section :: "sections \<Rightarrow> string \<Rightarrow> (section_map \<Rightarrow> 'c \<Rightarrow> 'c) \<Rightarrow> 'c \<Rightarrow> 'c" where
  "on_section secs name f c = (case secs name of None \<Rightarrow> c | Some sec \<Rightarrow> f sec c)"

definition number_or :: "section_map \<Rightarrow> string \<Rightarrow> f64 \<Rightarrow> f64" where
  "number_or sec key old = (case getFloat sec key of None \<Rightarrow> old | Some f \<Rightarrow> f)"

definition text_or :: "section_map \<Rightarrow> string \<Rightarrow> string \<Rightarrow> string" where
  "text_or sec key old = (case sec key of None \<Rightarrow> old | Some v \<Rightarrow> v)"

text \<open>The values of a section that are numbers, over a table.\<close>

definition numbers_over :: "section_map \<Rightarrow> (string \<rightharpoonup> f64) \<Rightarrow> (string \<rightharpoonup> f64)" where
  "numbers_over sec m k = (case getFloat sec k of None \<Rightarrow> m k | Some f \<Rightarrow> Some f)"

definition parse_weights :: "section_map \<Rightarrow> Config \<Rightarrow> Config" where
  "parse_weights sec c =
     (let w = cf_Weights c
      in c\<lparr>cf_ScoringEngine := (if sec ''scoring_engine'' = None then cf_ScoringEngine c else getString sec ''scoring_engine''),
           cf_Weights :=
             \<lparr>wt_AttackSurface = number_or sec ''attack_surface'' (wt_AttackSurface w),
              wt_BusinessContinuity = number_or sec ''business_continuity'' (wt_BusinessContinuity w),
              wt_OperationTrust = number_or sec ''operation_trust'' (wt_OperationTrust w),
              wt_Resilience = number_or sec ''resilience'' (wt_Resilience w),
              wt_KernelSecurity = number_or sec ''kernel_security'' (wt_KernelSecurity w)\<rparr>\<rparr>)"

definition parse_acceptability :: "section_map \<Rightarrow> Config \<Rightarrow> Config" where
  "parse_acceptability sec c =
     c\<lparr>cf_Threshold := number_or sec ''threshold'' (cf_Threshold c),
       cf_ComplianceFramework := text_or sec ''compliance_framework'' (cf_ComplianceFramework c),
       cf_DataDir := text_or sec ''data_dir'' (cf_DataDir c)\<rparr>"

definition parse_global :: "section_map \<Rightarrow> Config \<Rightarrow> Config" where
  "parse_global sec c = (case sec ''data_dir'' of None \<Rightarrow> c | Some v \<Rightarrow> if v = [] then c else c\<lparr>cf_DataDir := v\<rparr>)"

definition misplaced_key :: "(string \<Rightarrow> string) \<Rightarrow> string list \<Rightarrow> section_map \<Rightarrow> string option" where
  "misplaced_key lo order sec =
     first_of (map (\<lambda>k. if sec k \<noteq> None \<and> isEdgeFactorModelSectionKey lo k then Some k else None) order)"

definition parse_edge_factors :: "section_map \<Rightarrow> Config \<Rightarrow> Config" where
  "parse_edge_factors sec c =
     (let e = cfg_EdgeFactors c
      in c\<lparr>cfg_EdgeFactors :=
             \<lparr>efw_TwoFactorFailure = number_or sec ''two_factor_failure'' (efw_TwoFactorFailure e),
              efw_SYNCookieDisabled = number_or sec ''syn_cookie_disabled'' (efw_SYNCookieDisabled e),
              efw_SELinuxDisabled = number_or sec ''selinux_disabled'' (efw_SELinuxDisabled e),
              efw_AppArmorDisabled = number_or sec ''apparmor_disabled'' (efw_AppArmorDisabled e),
              efw_NoSIEM = number_or sec ''no_siem'' (efw_NoSIEM e), efw_NoIDS = number_or sec ''no_ids'' (efw_NoIDS e)\<rparr>\<rparr>)"

definition parse_level4 :: "section_map \<Rightarrow> Config \<Rightarrow> Config" where
  "parse_level4 sec c =
     (let e = cfg_EdgeFactors c
      in c\<lparr>cfg_EdgeFactors := e\<lparr>efw_TwoFactorFailure := number_or sec ''two_factor_failure'' (efw_TwoFactorFailure e)\<rparr>\<rparr>)"

definition parse_threat :: "section_map \<Rightarrow> Config \<Rightarrow> Config" where
  "parse_threat sec c =
     c\<lparr>cf_ThreatCoeff := number_or sec ''coefficient'' (cf_ThreatCoeff c), cf_SPCEnabled := getBool sec ''spc_enabled''\<rparr>"

definition parse_resilience :: "section_map \<Rightarrow> Config \<Rightarrow> Config" where
  "parse_resilience sec c =
     c\<lparr>cf_ACINetworkSegmentation := number_or sec ''aci_network_segmentation'' (cf_ACINetworkSegmentation c),
       cf_ACILAPSEnabled := number_or sec ''aci_laps_enabled'' (cf_ACILAPSEnabled c),
       cf_ACIOfflineBackup := number_or sec ''aci_offline_backup'' (cf_ACIOfflineBackup c),
       cf_ACIEDRRunning := number_or sec ''aci_edr_running'' (cf_ACIEDRRunning c),
       cf_ACIRemoteLogging := number_or sec ''aci_remote_logging'' (cf_ACIRemoteLogging c),
       cf_ACIAppWhitelist := number_or sec ''aci_app_whitelist'' (cf_ACIAppWhitelist c),
       cf_ACIDLPMeasures := number_or sec ''aci_dlp_measures'' (cf_ACIDLPMeasures c)\<rparr>"

definition parse_prism :: "section_map \<Rightarrow> Config \<Rightarrow> config_error + Config" where
  "parse_prism sec c =
     (case sec ''default_transmission'' of
        None \<Rightarrow> Inr c
      | Some raw \<Rightarrow>
          (case ParseFloat raw of
             None \<Rightarrow> Inl (PrismNotFinite raw)
           | Some f \<Rightarrow>
               if nonFinite f then Inl (PrismNotFinite raw)
               else if \<not> (f64_gt f f64_0 \<and> f64_le f f64_1) then Inl (PrismOutOfRange raw)
               else Inr (c\<lparr>cf_PrismDefaultTransmission := f\<rparr>)))"

definition parse_extensions :: "section_map \<Rightarrow> Config \<Rightarrow> Config" where
  "parse_extensions sec c =
     c\<lparr>cf_Extensions := (\<lambda>k. case sec k of None \<Rightarrow> cf_Extensions c k
                              | Some v \<Rightarrow> Some (equal_fold v ''on'' \<or> equal_fold v ''true'' \<or> v = ''1''))\<rparr>"

definition parse_custom :: "section_map \<Rightarrow> section_map \<Rightarrow> Config \<Rightarrow> Config" where
  "parse_custom triggers sec c =
     c\<lparr>cfg_EdgeFactorsCustom := (\<lambda>k.
         case getFloat sec k of
           None \<Rightarrow> cfg_EdgeFactorsCustom c k
         | Some f \<Rightarrow>
             if f64_gt f f64_0 \<and> f64_lt f f64_1
             then Some \<lparr>cef_Factor = f, cef_TriggerCheck = (case triggers k of None \<Rightarrow> [] | Some t \<Rightarrow> t)\<rparr>
             else cfg_EdgeFactorsCustom c k)\<rparr>"

definition parse_hotload :: "section_map \<Rightarrow> Config \<Rightarrow> Config" where
  "parse_hotload sec c =
     c\<lparr>cf_HotloadEnabled := (case sec ''enabled'' of None \<Rightarrow> cf_HotloadEnabled c | Some v \<Rightarrow> equal_fold v ''true'' \<or> v = ''1''),
       cf_HotloadIntervalS :=
         (case Option.bind (sec ''interval_s'') atoi of
            None \<Rightarrow> cf_HotloadIntervalS c | Some i \<Rightarrow> if 0 < i then i else cf_HotloadIntervalS c)\<rparr>"

definition parse_topology :: "section_map \<Rightarrow> Config \<Rightarrow> Config" where
  "parse_topology sec c =
     (case sec ''exclude_cidrs'' of
        None \<Rightarrow> c
      | Some v \<Rightarrow>
          c\<lparr>cf_TopologyExcludeCIDRs :=
              cf_TopologyExcludeCIDRs c @ filter (\<lambda>s. s \<noteq> []) (map trim_space (split_on (CHR '','') v))\<rparr>)"

definition Normalize :: "Weights \<Rightarrow> Weights" where
  "Normalize w =
     (let core = f64_add (f64_add (f64_add (wt_AttackSurface w) (wt_BusinessContinuity w)) (wt_OperationTrust w)) (wt_Resilience w)
      in if f64_eq core f64_0 \<or> f64_eq core (Fin 100) then w
         else w\<lparr>wt_AttackSurface := f64_mul (f64_div (wt_AttackSurface w) core) (Fin 100),
                wt_BusinessContinuity := f64_mul (f64_div (wt_BusinessContinuity w) core) (Fin 100),
                wt_OperationTrust := f64_mul (f64_div (wt_OperationTrust w) core) (Fin 100),
                wt_Resilience := f64_mul (f64_div (wt_Resilience w) core) (Fin 100)\<rparr>)"

section \<open>Ranges\<close>

text \<open>The iteration orders of the maps of this run.\<close>

record config_orders =
  co_edge :: "string list"
  co_model :: "string list"
  co_extension :: "string list"
  co_deltas :: "string list"

definition below :: "f64 \<Rightarrow> string \<times> f64 \<Rightarrow> config_error option" where
  "below lo nv = (if f64_lt (snd nv) lo then Some (RangeError (fst nv) (snd nv)) else None)"

definition penalty_error :: "string \<times> f64 \<Rightarrow> config_error option" where
  "penalty_error nv =
     (if f64_lt (snd nv) (Fin (- 100)) \<or> f64_gt (snd nv) f64_0 then Some (RangeError (fst nv) (snd nv)) else None)"

definition multiplier_error :: "string \<times> f64 \<Rightarrow> config_error option" where
  "multiplier_error nv =
     (if f64_le (snd nv) f64_0 \<or> f64_gt (snd nv) f64_1 then Some (RangeError (fst nv) (snd nv)) else None)"

definition weight_fields :: "Weights \<Rightarrow> (string \<times> f64) list" where
  "weight_fields w =
     [(''attack_surface'', wt_AttackSurface w), (''business_continuity'', wt_BusinessContinuity w),
      (''operation_trust'', wt_OperationTrust w), (''resilience'', wt_Resilience w), (''kernel_security'', wt_KernelSecurity w)]"

definition aci_fields :: "Config \<Rightarrow> (string \<times> f64) list" where
  "aci_fields c =
     [(''aci_network_segmentation'', cf_ACINetworkSegmentation c), (''aci_laps_enabled'', cf_ACILAPSEnabled c),
      (''aci_offline_backup'', cf_ACIOfflineBackup c), (''aci_edr_running'', cf_ACIEDRRunning c),
      (''aci_remote_logging'', cf_ACIRemoteLogging c), (''aci_app_whitelist'', cf_ACIAppWhitelist c),
      (''aci_dlp_measures'', cf_ACIDLPMeasures c)]"

definition edge_fields :: "EdgeFactorWeights \<Rightarrow> (string \<times> f64) list" where
  "edge_fields e =
     [(''two_factor_failure'', efw_TwoFactorFailure e), (''syn_cookie_disabled'', efw_SYNCookieDisabled e),
      (''selinux_disabled'', efw_SELinuxDisabled e), (''apparmor_disabled'', efw_AppArmorDisabled e),
      (''no_siem'', efw_NoSIEM e), (''no_ids'', efw_NoIDS e)]"

definition table_errors :: "(string \<times> f64 \<Rightarrow> config_error option) \<Rightarrow> string list \<Rightarrow> (string \<rightharpoonup> f64) \<Rightarrow> config_error option list" where
  "table_errors err order m = map (\<lambda>k. case m k of None \<Rightarrow> None | Some v \<Rightarrow> err (k, v)) order"

definition validateRanges :: "config_orders \<Rightarrow> Config \<Rightarrow> config_error option" where
  "validateRanges co c =
     first_of
       (map (below f64_0) (weight_fields (cf_Weights c)) @ table_errors (below f64_0) (co_extension co) (cf_ExtensionWeights c) @
        [if f64_le (cf_Threshold c) f64_0 \<or> f64_gt (cf_Threshold c) (Fin 100) then Some (RangeError ''threshold'' (cf_Threshold c)) else None,
         if f64_le (cf_ThreatCoeff c) f64_0 then Some (RangeError ''coefficient'' (cf_ThreatCoeff c)) else None] @
        map penalty_error (aci_fields c) @ map multiplier_error (edge_fields (cfg_EdgeFactors c)) @
        table_errors penalty_error (co_deltas co) (cf_CheckDeltas c) @
        (let cc = cf_Confidence c
         in if \<not> cc_Enabled cc then []
            else [if f64_le (cc_Default cc) f64_0 \<or> f64_gt (cc_Default cc) f64_1 then Some (RangeError ''default'' (cc_Default cc)) else None,
                  if f64_le (cc_Floor cc) f64_0 \<or> f64_ge (cc_Floor cc) f64_1 then Some (RangeError ''floor'' (cc_Floor cc)) else None]))"

section \<open>Parsing\<close>

definition parse_edge_sections ::
    "(string \<Rightarrow> string) \<Rightarrow> (string \<Rightarrow> string) \<Rightarrow> config_orders \<Rightarrow> sections \<Rightarrow> Config \<Rightarrow> config_error + Config" where
  "parse_edge_sections lo uni co secs c =
     (case (case secs ''edge_factors'' of None \<Rightarrow> None | Some sec \<Rightarrow> misplaced_key lo (co_edge co) sec) of
        Some k \<Rightarrow> Inl (MisplacedEdgeKey k)
      | None \<Rightarrow>
          let c1 = on_section secs ''edge_factors.level4_override'' parse_level4 (on_section secs ''edge_factors'' parse_edge_factors c)
          in case ParseEdgeFactorModel lo uni (co_model co) secs of
               Inl e \<Rightarrow> Inl (EdgeModelError e)
             | Inr (m, present) \<Rightarrow> Inr (if present then c1\<lparr>cfg_EdgeFactorModel := m\<rparr> else c1))"

text \<open>The sections between \<open>[threat]\<close> and the confidence rules, in the order of the source.\<close>

definition parse_plain_sections :: "sections \<Rightarrow> Config \<Rightarrow> config_error + Config" where
  "parse_plain_sections secs c =
     (let c1 = on_section secs ''resilience'' parse_resilience (on_section secs ''threat'' parse_threat c)
      in case (case secs ''prism'' of None \<Rightarrow> Inr c1 | Some sec \<Rightarrow> parse_prism sec c1) of
           Inl e \<Rightarrow> Inl e
         | Inr c2 \<Rightarrow>
             let c3 = on_section secs ''zones'' (\<lambda>sec c. c\<lparr>cf_Zones := sec\<rparr>) c2;
                 deltas = (\<lambda>sec c. c\<lparr>cf_CheckDeltas := numbers_over sec (cf_CheckDeltas c)\<rparr>);
                 c4 = on_section secs ''check_deltas.ks'' deltas (on_section secs ''check_deltas'' deltas c3);
                 c5 = on_section secs ''extensions'' parse_extensions c4;
                 c6 = on_section secs ''extension_weights''
                        (\<lambda>sec c. c\<lparr>cf_ExtensionWeights := numbers_over sec (cf_ExtensionWeights c)\<rparr>) c5;
                 c7 = c6\<lparr>cf_Weights := Normalize (cf_Weights c6)\<rparr>;
                 triggers = (case secs ''edge_factors.custom_triggers'' of None \<Rightarrow> Map.empty | Some t \<Rightarrow> t);
                 c8 = on_section secs ''edge_factors.custom'' (parse_custom triggers) c7
             in Inr (on_section secs ''topology'' parse_topology (on_section secs ''weights_hotload'' parse_hotload c8)))"

definition config_Parse ::
    "(string \<Rightarrow> string) \<Rightarrow> (string \<Rightarrow> string) \<Rightarrow> regex_lib \<Rightarrow> config_orders \<Rightarrow> string \<Rightarrow> config_error + Config" where
  "config_Parse lo uni rx co content =
     (let secs = parseSections lo content;
          c = on_section secs ''global'' parse_global (on_section secs ''acceptability'' parse_acceptability
                (on_section secs ''weights'' parse_weights Default))
      in case parse_edge_sections lo uni co secs c of
           Inl e \<Rightarrow> Inl e
         | Inr c1 \<Rightarrow>
             (case parse_plain_sections secs c1 of
                Inl e \<Rightarrow> Inl e
              | Inr c2 \<Rightarrow>
                  (case parseConfidenceSections lo rx secs (cf_Confidence c2) of
                     Inl e \<Rightarrow> Inl (ConfidenceError e)
                   | Inr cc \<Rightarrow>
                       let c3 = c2\<lparr>cf_Confidence := cc\<rparr>
                       in (case validateRanges co c3 of Some e \<Rightarrow> Inl e | None \<Rightarrow> Inr c3))))"

section \<open>The inputs of the legacy scorer\<close>

definition configured_delta :: "Config \<Rightarrow> CheckResult \<Rightarrow> f64" where
  "configured_delta c r =
     (let d = (case cf_CheckDeltas c (cr_CheckID r) of None \<Rightarrow> f64_0 | Some d \<Rightarrow> d)
      in if \<not> f64_eq d f64_0 then d else cr_Delta r)"

text \<open>The checks of the result, updated in place, and the inputs.\<close>

definition legacyCheckInputs :: "(string \<Rightarrow> string) \<Rightarrow> regex_lib \<Rightarrow> Config option \<Rightarrow> CheckResult list \<Rightarrow> CheckResult list \<times> CheckInput list" where
  "legacyCheckInputs lo rx cfg checks =
     (let policy = ConfidencePolicyFromConfig (map_option cf_Confidence cfg);
          resolved = (case cfg of None \<Rightarrow> checks | Some c \<Rightarrow> ResolveChecks lo rx (cf_Confidence c) checks);
          done' = map (\<lambda>r. r\<lparr>cr_EffectiveConfidence := EffectiveConfidence (cr_Confidence r) policy\<rparr>) resolved
      in (done',
          map (\<lambda>r. \<lparr>ck_CheckID = cr_CheckID r, ck_Domain = cr_Domain r, ck_Name = cr_Name r, ck_Passed = cr_Passed r,
                    ck_Delta = (case cfg of None \<Rightarrow> cr_Delta r | Some c \<Rightarrow> configured_delta c r), ck_Detail = cr_Detail r,
                    ck_Confidence = cr_Confidence r\<rparr>) done'))"

section \<open>Penalty overrides\<close>

lemma on_section_keep: "(\<And>sec c. g (f sec c) = g c) \<Longrightarrow> g (on_section secs name f c) = g c"
  by (simp add: on_section_def split: option.split)

lemma config_Parse_Inr:
  assumes "config_Parse lo uni rx co content = Inr c"
  obtains c1 c2 cc where
    "parse_edge_sections lo uni co (parseSections lo content)
       (on_section (parseSections lo content) ''global'' parse_global (on_section (parseSections lo content) ''acceptability'' parse_acceptability
         (on_section (parseSections lo content) ''weights'' parse_weights Default))) = Inr c1"
    "parse_plain_sections (parseSections lo content) c1 = Inr c2"
    "parseConfidenceSections lo rx (parseSections lo content) (cf_Confidence c2) = Inr cc" "c = c2\<lparr>cf_Confidence := cc\<rparr>"
    "validateRanges co c = None"
  using assms by (auto simp: config_Parse_def Let_def split: sum.splits option.splits)

text \<open>The first sections touch neither the deltas nor the confidence rules.\<close>

lemma head_keeps:
  assumes "parse_edge_sections lo uni co secs
       (on_section secs ''global'' parse_global (on_section secs ''acceptability'' parse_acceptability
         (on_section secs ''weights'' parse_weights Default))) = Inr c1"
  shows "cf_CheckDeltas c1 = Map.empty" "cf_Confidence c1 = DefaultConfidenceConfig"
proof -
  have k: "cf_CheckDeltas (on_section secs n f c) = cf_CheckDeltas c" "cf_Confidence (on_section secs n f c) = cf_Confidence c"
    if "f \<in> {parse_global, parse_acceptability, parse_weights, parse_level4, parse_edge_factors}" for n f c
    using that by (auto simp: on_section_def parse_global_def parse_acceptability_def parse_weights_def parse_level4_def
        parse_edge_factors_def Let_def split: option.split)
  show "cf_CheckDeltas c1 = Map.empty" "cf_Confidence c1 = DefaultConfidenceConfig"
    using assms by (auto simp: parse_edge_sections_def Let_def k Default_def split: option.splits sum.splits if_splits)
qed

lemma plain_deltas:
  assumes "parse_plain_sections secs c1 = Inr c2"
  shows "cf_CheckDeltas c2 = on_section secs ''check_deltas.ks'' numbers_over (on_section secs ''check_deltas'' numbers_over (cf_CheckDeltas c1))"
    "cf_Confidence c2 = cf_Confidence c1"
proof -
  have k: "cf_CheckDeltas (on_section secs n f c) = cf_CheckDeltas c" "cf_Confidence (on_section secs n f c) = cf_Confidence c"
    if "f \<in> {parse_resilience, parse_threat, parse_extensions, parse_topology, parse_hotload, \<lambda>sec c. c\<lparr>cf_Zones := sec\<rparr>,
            \<lambda>sec c. c\<lparr>cf_ExtensionWeights := numbers_over sec (cf_ExtensionWeights c)\<rparr>}" for n f c
    using that by (auto simp: on_section_def parse_resilience_def parse_threat_def parse_extensions_def parse_topology_def
        parse_hotload_def split: option.split)
  have cu: "cf_CheckDeltas (on_section secs n (parse_custom t) c) = cf_CheckDeltas c"
    "cf_Confidence (on_section secs n (parse_custom t) c) = cf_Confidence c" for n t c
    by (simp_all add: on_section_def parse_custom_def split: option.split)
  have pr: "cf_CheckDeltas c' = cf_CheckDeltas c \<and> cf_Confidence c' = cf_Confidence c" if "parse_prism sec c = Inr c'" for sec c c'
    using that by (auto simp: parse_prism_def split: option.splits if_splits)
  have d: "cf_CheckDeltas (on_section secs n (\<lambda>sec c. c\<lparr>cf_CheckDeltas := numbers_over sec (cf_CheckDeltas c)\<rparr>) c) =
       on_section secs n numbers_over (cf_CheckDeltas c)"
    "cf_Confidence (on_section secs n (\<lambda>sec c. c\<lparr>cf_CheckDeltas := numbers_over sec (cf_CheckDeltas c)\<rparr>) c) = cf_Confidence c" for n c
    by (simp_all add: on_section_def split: option.split)
  show "cf_CheckDeltas c2 = on_section secs ''check_deltas.ks'' numbers_over (on_section secs ''check_deltas'' numbers_over (cf_CheckDeltas c1))"
    "cf_Confidence c2 = cf_Confidence c1"
    using assms by (auto simp: parse_plain_sections_def Let_def k cu d dest!: pr split: sum.splits option.splits)
qed

lemma numbers_over_lower:
  assumes "lower_ok lo" "list_ex upper_ascii k" "m k = None"
  shows "on_section (parseSections lo content) name numbers_over m k = None"
proof (cases "parseSections lo content name")
  case (Some sec)
  then show ?thesis
    using section_key_lower [OF assms(1) Some assms(2)] assms(3) by (simp add: on_section_def numbers_over_def getFloat_def)
qed (simp add: on_section_def assms(3))

lemma parsed_deltas_lower:
  assumes "lower_ok lo" "config_Parse lo uni rx co content = Inr c" "list_ex upper_ascii k"
  shows "cf_CheckDeltas c k = None"
proof (rule config_Parse_Inr [OF assms(2)])
  fix c1 c2 cc
  assume h: "parse_edge_sections lo uni co (parseSections lo content)
       (on_section (parseSections lo content) ''global'' parse_global (on_section (parseSections lo content) ''acceptability'' parse_acceptability
         (on_section (parseSections lo content) ''weights'' parse_weights Default))) = Inr c1"
    and p: "parse_plain_sections (parseSections lo content) c1 = Inr c2" and c: "c = c2\<lparr>cf_Confidence := cc\<rparr>"
  show ?thesis
    using plain_deltas(1) [OF p] head_keeps(1) [OF h] c numbers_over_lower [OF assms(1,3)] by simp
qed

text \<open>The per-check penalties of \<open>[check_deltas]\<close> never reach the scorer. The section parser lower-cases every key and
  the scorer looks the overrides up by the identifier of the check, so for checks whose identifiers contain an upper-case
  letter, as all the shipped ones do, the inputs carry the built-in penalties whatever the configuration says.\<close>

theorem configured_deltas_never_apply:
  assumes "lower_ok lo" and "config_Parse lo uni rx co content = Inr c" and "\<forall>r\<in>set checks. list_ex upper_ascii (cr_CheckID r)"
  shows "map ck_Delta (snd (legacyCheckInputs lo rx (Some c) checks)) = map cr_Delta checks"
proof -
  let ?r = "resolve_check lo rx (cf_Confidence c)"
  have d: "configured_delta c (r\<lparr>cr_EffectiveConfidence := e\<rparr>) = cr_Delta r" if "list_ex upper_ascii (cr_CheckID r)" for r e
    using parsed_deltas_lower [OF assms(1,2) that] by (simp add: configured_delta_def)
  have s: "cr_Delta (?r r) = cr_Delta r" "cr_CheckID (?r r) = cr_CheckID r" for r by (simp_all add: resolve_check_def)
  show ?thesis
    using assms(3) by (auto simp: legacyCheckInputs_def ResolveChecks_def Let_def d s)
qed

text \<open>
  Scoring a result again changes nothing: with any configuration that parses, a second pass over the checks a first pass
  has updated leaves them as they are and gives the scorer the same inputs.
\<close>

theorem rescoring_is_stable:
  assumes "config_Parse lo uni rx co content = Inr c" and "legacyCheckInputs lo rx (Some c) checks = (checks', inputs)"
  shows "legacyCheckInputs lo rx (Some c) checks' = (checks', inputs)"
proof -
  let ?cc = "cf_Confidence c" and ?p = "ConfidencePolicyFromConfig (Some (cf_Confidence c))"
  let ?e = "\<lambda>r. r\<lparr>cr_EffectiveConfidence := EffectiveConfidence (cr_Confidence r) ?p\<rparr>"
  have s: "sound_confidence rx ?cc"
  proof (rule config_Parse_Inr [OF assms(1)])
    fix c1 c2 cc
    assume h: "parse_edge_sections lo uni co (parseSections lo content)
       (on_section (parseSections lo content) ''global'' parse_global (on_section (parseSections lo content) ''acceptability'' parse_acceptability
         (on_section (parseSections lo content) ''weights'' parse_weights Default))) = Inr c1"
      and p: "parse_plain_sections (parseSections lo content) c1 = Inr c2"
      and q: "parseConfidenceSections lo rx (parseSections lo content) (cf_Confidence c2) = Inr cc" and c: "c = c2\<lparr>cf_Confidence := cc\<rparr>"
    have "cf_Confidence c2 = DefaultConfidenceConfig" using plain_deltas(2) [OF p] head_keeps(2) [OF h] by simp
    then show ?thesis using parsed_sound [OF _ sections_finite_keys] q c by simp
  qed
  have r: "ResolveChecks lo rx ?cc (map ?e (ResolveChecks lo rx ?cc checks)) = map ?e (ResolveChecks lo rx ?cc checks)"
  proof (cases "cc_Enabled ?cc")
    case True
    have "f64_gt (cr_Confidence (resolve_check lo rx ?cc r)) f64_0" for r
    proof (cases "f64_gt (cr_Confidence r) f64_0")
      case False
      have "f64_gt (conf_Resolve lo rx ?cc a b d) f64_0" for a b d
        using clamp_unit [OF s resolveRaw_unit [OF s, of lo a b d]] True by (auto simp: conf_Resolve_def unit_conf_def f64_lt_def)
      then show ?thesis using False by (simp add: resolve_check_def)
    qed (simp add: resolve_check_def)
    then have "resolve_check lo rx ?cc (?e (resolve_check lo rx ?cc r)) = ?e (resolve_check lo rx ?cc r)" for r
      by (subst resolve_check_def) simp
    then show ?thesis using True by (simp add: ResolveChecks_def)
  qed (simp add: ResolveChecks_def)
  have "checks' = map ?e (ResolveChecks lo rx ?cc checks)" using assms(2) by (auto simp: legacyCheckInputs_def Let_def)
  then have "ResolveChecks lo rx ?cc checks' = checks'" "map ?e checks' = checks'" using r by simp_all
  then show ?thesis using assms(2) by (auto simp: legacyCheckInputs_def Let_def)
qed

section \<open>Weights\<close>

lemma share_btw:
  assumes "nonneg x" "x \<noteq> PInf" "nonneg core" "f64_le x core" "core \<noteq> f64_0"
  shows "btw 0 100 (f64_mul (f64_div x core) (Fin 100))"
proof -
  obtain u where u: "x = Fin u" "0 \<le> u" "rep u" using nonneg_cases [OF assms(1)] assms(2) by auto
  have d: "btw 0 1 (f64_div x core)"
  proof (cases "core = PInf")
    case False
    then obtain v where v0: "core = Fin v" "0 \<le> v" using nonneg_cases [OF assms(3)] by auto
    then have v: "core = Fin v" "0 < v" "u \<le> v" using assms(4,5) u(1) by (simp_all add: less_le)
    show ?thesis by (rule btw_div_le [of u x core v]) (use u v in simp_all)
  qed (simp add: u(1))
  have "btw 0 (1 * 100) (f64_mul (f64_div x core) (Fin 100))" by (rule btw_mul [OF d]) simp_all
  then show ?thesis by simp
qed

text \<open>Normalization turns any non-negative finite weights into percentages: every core weight ends up between 0 and 100,
  through the rounding of the sum, the quotients and the products, also when the sum overflows.\<close>

theorem normalized_weights_in_range:
  assumes "\<forall>x\<in>{wt_AttackSurface w, wt_BusinessContinuity w, wt_OperationTrust w, wt_Resilience w}. nonneg x \<and> x \<noteq> PInf"
  shows "let n = Normalize w
         in \<forall>x\<in>{wt_AttackSurface n, wt_BusinessContinuity n, wt_OperationTrust n, wt_Resilience n}. btw 0 100 x"
proof -
  define core where "core = foldl f64_add (wt_AttackSurface w) [wt_BusinessContinuity w, wt_OperationTrust w, wt_Resilience w]"
  have n: "nonneg core" unfolding core_def using assms by (simp add: nonneg_add)
  have "f64_le (wt_AttackSurface w) core" unfolding core_def by (rule sum_ge_acc) (use assms in auto)
  moreover have "\<forall>x\<in>{wt_BusinessContinuity w, wt_OperationTrust w, wt_Resilience w}. f64_le x core"
    unfolding core_def using sum_ge_mem [of "wt_AttackSurface w" "[wt_BusinessContinuity w, wt_OperationTrust w, wt_Resilience w]"] assms by auto
  ultimately have le: "\<forall>x\<in>{wt_AttackSurface w, wt_BusinessContinuity w, wt_OperationTrust w, wt_Resilience w}. f64_le x core" by auto
  have c: "core = f64_add (f64_add (f64_add (wt_AttackSurface w) (wt_BusinessContinuity w)) (wt_OperationTrust w)) (wt_Resilience w)"
    by (simp add: core_def)
  show ?thesis
  proof (cases "f64_eq core f64_0 \<or> f64_eq core (Fin 100)")
    case True
    then obtain q where q: "core = Fin q" "q \<le> 100" by (cases core) auto
    have "btw 0 100 x" if "nonneg x" "x \<noteq> PInf" "f64_le x core" for x
      using nonneg_cases [OF that(1)] that(2,3) q by auto
    then show ?thesis using True le assms by (simp add: Normalize_def c [symmetric] Let_def)
  next
    case False
    then have "core \<noteq> f64_0" using n by (cases core) (auto simp: nonneg_def)
    from share_btw [OF _ _ n _ this] show ?thesis using False le assms by (simp add: Normalize_def c [symmetric] Let_def)
  qed
qed

section \<open>Concrete configurations\<close>

definition shares :: "f64 \<Rightarrow> f64 \<Rightarrow> f64 \<Rightarrow> f64 \<Rightarrow> Weights" where
  "shares a b c d = \<lparr>wt_AttackSurface = a, wt_BusinessContinuity = b, wt_OperationTrust = c, wt_Resilience = d, wt_KernelSecurity = f64_0\<rparr>"

theorem normalized_weights_in_range_witness:
  "let n = Normalize (shares (Fin 1) (Fin 1) (Fin 3) f64_0)
   in \<forall>x\<in>{wt_AttackSurface n, wt_BusinessContinuity n, wt_OperationTrust n, wt_Resilience n}. btw 0 100 x"
  by (rule normalized_weights_in_range) (simp add: shares_def nonneg_def)

text \<open>Normalization runs before the ranges are checked, so weights that are all negative pass as positive ones.\<close>

theorem negative_weights_accepted:
  "Normalize (shares (Fin (- 50)) (Fin (- 50)) f64_0 f64_0) = shares (Fin 50) (Fin 50) f64_0 f64_0 \<and>
   first_of (map (below f64_0) (weight_fields (Normalize (shares (Fin (- 50)) (Fin (- 50)) f64_0 f64_0)))) = None"
proof -
  have n: "Normalize (shares (Fin (- 50)) (Fin (- 50)) f64_0 f64_0) = shares (Fin 50) (Fin 50) f64_0 f64_0"
    using f64_of_rat_rep [of "1 / 2"] f64_of_rat_rep [of "- 100"] by (simp add: Normalize_def shares_def Let_def)
  show ?thesis unfolding n by (simp add: weight_fields_def shares_def below_def f64_lt_def)
qed

lemma default_weights: "Normalize (cf_Weights Default) = cf_Weights Default"
  by (simp add: Normalize_def Default_def Let_def)

lemma default_multipliers: "\<forall>nv\<in>set (edge_fields (cfg_EdgeFactors Default)). multiplier_error nv = None"
proof -
  have m: "multiplier_error (n, lit q) = None" if "1 / 2 \<le> q" "q \<le> 1" for n q
  proof -
    have "btw (1 / 2) 1 (lit q)" by (rule btw_of_rat) (use that in simp_all)
    from btwD [OF this] show ?thesis by (auto simp: multiplier_error_def f64_lt_def)
  qed
  have "multiplier_error (n, f64_1) = None" "multiplier_error (n, Fin (3 / 4)) = None" for n
    by (simp_all add: multiplier_error_def f64_lt_def)
  then show ?thesis by (simp add: edge_fields_def Default_def m)
qed

lemma default_ranges:
  assumes "\<And>k v. m k = Some v \<Longrightarrow> penalty_error (k, v) = None" "\<not> f64_le t f64_0"
  shows "validateRanges co (Default\<lparr>cf_ThreatCoeff := t, cf_CheckDeltas := m\<rparr>) = None"
proof -
  have e: "edge_fields (cfg_EdgeFactors (Default\<lparr>cf_ThreatCoeff := t, cf_CheckDeltas := m\<rparr>)) = edge_fields (cfg_EdgeFactors Default)"
    by (simp add: Default_def)
  have a: "\<forall>nv\<in>set (aci_fields (Default\<lparr>cf_ThreatCoeff := t, cf_CheckDeltas := m\<rparr>)). penalty_error nv = None"
    by (simp add: aci_fields_def Default_def penalty_error_def f64_lt_def)
  have w: "\<forall>nv\<in>set (weight_fields (cf_Weights Default)). below f64_0 nv = None"
    by (simp add: weight_fields_def Default_def below_def f64_lt_def)
  have d: "\<forall>x\<in>set (table_errors penalty_error order m). x = None" for order
    using assms(1) by (auto simp: table_errors_def split: option.split)
  show ?thesis
    using default_multipliers a w d assms(2) unfolding validateRanges_def first_of_None e
    by (auto simp: table_errors_def Default_def DefaultConfidenceConfig_def f64_lt_def Let_def)
qed

text \<open>Two texts: a penalty override for a shipped check, and a coefficient that is not a number.\<close>

definition delta_text :: string where
  "delta_text = ''[check_deltas]'' @ [CHR 0x0A] @ ''AS-001=-9''"

definition nan_text :: string where
  "nan_text = ''[threat]'' @ [CHR 0x0A] @ ''coefficient=nan''"

lemma id_lower: "to_lower_ascii ''AS-001'' = ''as-001''"
  by code_simp

lemma delta_sections:
  "parseSections lo delta_text = [''global'' \<mapsto> Map.empty, ''check_deltas'' \<mapsto> [''as-001'' \<mapsto> ''-9'']]"
  "parseSections lo nan_text = [''global'' \<mapsto> Map.empty, ''threat'' \<mapsto> [''coefficient'' \<mapsto> ''nan'']]"
proof -
  have l: "split_on (CHR 0x0A) delta_text = [''[check_deltas]'', ''AS-001=-9'']" "split_on (CHR 0x0A) nan_text = [''[threat]'', ''coefficient=nan'']"
    by (simp_all add: delta_text_def nan_text_def)
  have lc: "to_lower_ascii ''check_deltas'' = ''check_deltas''" "to_lower_ascii ''threat'' = ''threat''" "to_lower_ascii ''coefficient'' = ''coefficient''"
    by (simp_all add: to_lower_ascii_def)
  show "parseSections lo delta_text = [''global'' \<mapsto> Map.empty, ''check_deltas'' \<mapsto> [''as-001'' \<mapsto> ''-9'']]"
    "parseSections lo nan_text = [''global'' \<mapsto> Map.empty, ''threat'' \<mapsto> [''coefficient'' \<mapsto> ''nan'']]"
    unfolding parseSections_def l
    by (simp_all add: parse_line_def key_line_def trim_space_id graphic_def to_lower_def lc id_lower split_n2_def Let_def suffix_def)
qed

lemma minus_nine: "ParseFloat ''-9'' = Some (Fin (- 9))" "ParseFloat ''nan'' = Some NaN"
  by (simp_all add: ParseFloat_def to_lower_ascii_def parse_unsigned_def parse_exponent_def is_digit_def digits_val_def digit_val_def)

lemma on_section_none: "secs name = None \<Longrightarrow> on_section secs name f c = c"
  by (simp add: on_section_def)

lemma parse_simple:
  assumes "parseSections lo content = [''global'' \<mapsto> Map.empty, name \<mapsto> sec]" "name \<in> {''check_deltas'', ''threat''}"
  defines "deltas \<equiv> \<lambda>sec c. c\<lparr>cf_CheckDeltas := numbers_over sec (cf_CheckDeltas c)\<rparr>"
  shows "config_Parse lo uni rx co content =
     (let c = on_section (parseSections lo content) ''check_deltas'' deltas (on_section (parseSections lo content) ''threat'' parse_threat Default)
      in case validateRanges co c of Some e \<Rightarrow> Inl e | None \<Rightarrow> Inr c)"
proof -
  define S where "S = parseSections lo content"
  have none: "S n = None" if "n \<notin> {''global'', ''check_deltas'', ''threat''}" for n
    using that assms(1,2) by (auto simp: S_def)
  have g: "on_section S ''global'' parse_global c = c" for c
    using assms(1,2) by (auto simp: S_def on_section_def parse_global_def)
  have cc: "parseConfidenceSections lo rx S cc = Inr cc" for cc
    by (simp add: parseConfidenceSections_def with_section_def none)
  have e: "parse_edge_sections lo uni co S c = Inr c" for c
    by (simp add: parse_edge_sections_def ParseEdgeFactorModel_def on_section_none none)
  have w: "c\<lparr>cf_Weights := Normalize (cf_Weights c)\<rparr> = c" if "cf_Weights c = cf_Weights Default" for c
    using that default_weights by simp
  have k: "cf_Weights (on_section S ''check_deltas'' deltas (on_section S ''threat'' parse_threat Default)) = cf_Weights Default"
    by (simp add: on_section_def deltas_def parse_threat_def split: option.split)
  have p: "parse_plain_sections S Default = Inr (on_section S ''check_deltas'' deltas (on_section S ''threat'' parse_threat Default))"
    unfolding parse_plain_sections_def deltas_def [symmetric]
    by (simp add: on_section_none none w [OF k])
  show ?thesis
    unfolding config_Parse_def S_def [symmetric]
    by (simp add: on_section_none none g e p cc)
qed

definition delta_orders :: config_orders where
  "delta_orders = \<lparr>co_edge = [], co_model = [], co_extension = [], co_deltas = [''as-001'']\<rparr>"

definition delta_config :: Config where
  "delta_config = Default\<lparr>cf_ThreatCoeff := f64_1, cf_CheckDeltas := [''as-001'' \<mapsto> Fin (- 9)]\<rparr>"

definition as_check :: CheckResult where
  "as_check =
     \<lparr>cr_CheckID = ''AS-001'', cr_Domain = ''attack_surface'', cr_Name = [], cr_Passed = False, cr_Delta = Fin (- 8), cr_Detail = [],
      cr_ComplianceRef = [], cr_Source = [], cr_Confidence = f64_0, cr_EffectiveConfidence = f64_0\<rparr>"

lemma delta_parses: "config_Parse lo uni demo_rx delta_orders delta_text = Inr delta_config"
proof -
  have d: "Default\<lparr>cf_CheckDeltas := numbers_over [''as-001'' \<mapsto> ''-9''] (cf_CheckDeltas Default)\<rparr> = delta_config"
    by (auto simp: Default_def numbers_over_def getFloat_def minus_nine delta_config_def)
  have v: "validateRanges delta_orders delta_config = None"
    unfolding delta_config_def by (rule default_ranges) (auto simp: penalty_error_def f64_lt_def split: if_splits)
  show ?thesis
    unfolding parse_simple [OF delta_sections(1) [of lo], simplified]
    by (simp add: delta_sections on_section_def d v)
qed

theorem configured_deltas_never_apply_witness:
  "cf_CheckDeltas delta_config ''as-001'' = Some (Fin (- 9)) \<and>
   map ck_Delta (snd (legacyCheckInputs to_lower_ascii demo_rx (Some delta_config) [as_check])) = [Fin (- 8)]"
proof -
  have "lower_ok to_lower_ascii" by (simp add: lower_ok_def lower_ascii_no_upper)
  from configured_deltas_never_apply [OF this delta_parses, of "[as_check]"] show ?thesis
    by (simp add: upper_ascii_def as_check_def delta_config_def)
qed

theorem rescoring_is_stable_witness:
  "legacyCheckInputs to_lower_ascii demo_rx (Some delta_config) (fst (legacyCheckInputs to_lower_ascii demo_rx (Some delta_config) [as_check])) =
   legacyCheckInputs to_lower_ascii demo_rx (Some delta_config) [as_check]"
  using rescoring_is_stable [OF delta_parses prod.collapse [symmetric]] by simp

text \<open>No range check rejects NaN: every comparison with it is false.\<close>

theorem nan_coefficient_accepted:
  "\<exists>c. config_Parse lo uni rx co nan_text = Inr c \<and> cf_ThreatCoeff c = NaN"
proof -
  have d: "parse_threat [''coefficient'' \<mapsto> ''nan''] Default = Default\<lparr>cf_ThreatCoeff := NaN, cf_CheckDeltas := Map.empty\<rparr>"
    by (simp add: Default_def parse_threat_def number_or_def getFloat_def getBool_def minus_nine)
  have v: "validateRanges co (Default\<lparr>cf_ThreatCoeff := NaN, cf_CheckDeltas := Map.empty\<rparr>) = None"
    by (rule default_ranges) simp_all
  have "config_Parse lo uni rx co nan_text = Inr (Default\<lparr>cf_ThreatCoeff := NaN, cf_CheckDeltas := Map.empty\<rparr>)"
    unfolding parse_simple [OF delta_sections(2) [of lo], simplified]
    by (simp add: delta_sections on_section_def d v)
  then show ?thesis by simp
qed

end
