(* ===== verification/Model_Data.thy ===== *)
theory Model_Data
  imports Config_Core
begin

text \<open>
  \<open>internal/model\<close>: the result record every engine fills, the running of one check, the domain registry, the dynamic
  score and weight tables and the chain of edge factors. The chain hands out pointers to its entries, so its entries
  live in a store of cells (\<open>ef_store\<close>). Orders of map iteration and \<open>sort.Slice\<close> are arguments.
\<close>

section \<open>Domains\<close>

abbreviation DomainAttackSurface :: string where "DomainAttackSurface \<equiv> ''attack_surface''"
abbreviation DomainBusinessContinuity :: string where "DomainBusinessContinuity \<equiv> ''business_continuity''"
abbreviation DomainOperationTrust :: string where "DomainOperationTrust \<equiv> ''operation_trust''"
abbreviation DomainResilience :: string where "DomainResilience \<equiv> ''resilience''"
abbreviation DomainKernelSecurity :: string where "DomainKernelSecurity \<equiv> ''kernel_security''"

definition builtin_domains :: "string list" where
  "builtin_domains =
     [DomainAttackSurface, DomainBusinessContinuity, DomainOperationTrust, DomainResilience, DomainKernelSecurity]"

section \<open>Running a check\<close>

text \<open>A check function returns the verdict and the detail, or panics with a text.\<close>

record CheckItem =
  ci_ID :: string
  ci_Domain :: string
  ci_Name :: string
  ci_Description :: string
  ci_Delta :: f64
  ci_ComplianceRef :: string
  ci_Platform :: string
  ci_Check :: "string + bool \<times> string"
  ci_Privilege :: int
  ci_Source :: string

definition PrivilegeLevel_String :: "int \<Rightarrow> string" where
  "PrivilegeLevel_String p = (if p = 1 then ''root'' else ''normal'')"

definition utf8 :: "nat list \<Rightarrow> string" where
  "utf8 bs = map char_of bs"

definition skip_text :: string where
  "skip_text = ''skipped '' @ utf8 [226, 128, 148] @ '' requires root privileges''"

definition denied_texts :: "string list" where
  "denied_texts =
     [''permission denied'', ''operation not permitted'', ''access denied'', ''access is denied'', ''eacces'', ''eperm'',
      ''requires root'']"

text \<open>The Chinese texts of the source, as UTF-8.\<close>

definition denied_texts_zh :: "string list" where
  "denied_texts_zh =
     [utf8 [230, 157, 131, 233, 153, 144, 228, 184, 141, 232, 182, 179],
      utf8 [230, 151, 160, 230, 157, 131, 233, 153, 144],
      utf8 [230, 139, 146, 231, 187, 157, 232, 174, 191, 233, 151, 174],
      utf8 [233, 156, 128, 232, 166, 129] @ '' root'',
      utf8 [233, 156, 128, 232, 166, 129] @ ''root'']"

definition IsPermissionDeniedDetail :: "(string \<Rightarrow> string) \<Rightarrow> string \<Rightarrow> bool" where
  "IsPermissionDeniedDetail lo detail \<longleftrightarrow>
     list_ex (str_contains (to_lower lo detail)) denied_texts \<or> list_ex (str_contains detail) denied_texts_zh"

definition item_result :: "CheckItem \<Rightarrow> bool \<Rightarrow> f64 \<Rightarrow> string \<Rightarrow> CheckResult" where
  "item_result c passed delta detail =
     \<lparr>cr_CheckID = ci_ID c, cr_Domain = ci_Domain c, cr_Name = ci_Name c, cr_Passed = passed, cr_Delta = delta,
      cr_Detail = detail, cr_ComplianceRef = ci_ComplianceRef c, cr_Source = ci_Source c, cr_Confidence = f64_0,
      cr_EffectiveConfidence = f64_0\<rparr>"

definition skipResult :: "CheckItem \<Rightarrow> string \<Rightarrow> CheckResult" where
  "skipResult c detail = item_result c True f64_0 detail"

definition CheckItem_Run :: "(string \<Rightarrow> string) \<Rightarrow> int \<Rightarrow> CheckItem \<Rightarrow> CheckResult" where
  "CheckItem_Run lo euid c =
     (if ci_Privilege c = 1 \<and> euid \<noteq> 0 then skipResult c skip_text
      else let (passed, detail) = (case ci_Check c of Inl p \<Rightarrow> (False, ''panic: '' @ p) | Inr r \<Rightarrow> r)
           in if \<not> passed \<and> IsPermissionDeniedDetail lo detail then skipResult c (skip_text @ '' ('' @ detail @ '')'')
              else item_result c passed (ci_Delta c) detail)"

definition MatchesPlatform :: "string \<Rightarrow> CheckItem \<Rightarrow> bool" where
  "MatchesPlatform goos c \<longleftrightarrow> ci_Platform c = [] \<or> ci_Platform c = goos"

section \<open>Domain scores\<close>

record DomainScores =
  dsc_AttackSurface :: f64
  dsc_BusinessContinuity :: f64
  dsc_OperationTrust :: f64
  dsc_Resilience :: f64
  dsc_KernelSecurity :: f64
  dsc_Extra :: "string \<rightharpoonup> f64"

definition no_scores :: DomainScores where
  "no_scores =
     \<lparr>dsc_AttackSurface = f64_0, dsc_BusinessContinuity = f64_0, dsc_OperationTrust = f64_0, dsc_Resilience = f64_0,
      dsc_KernelSecurity = f64_0, dsc_Extra = Map.empty\<rparr>"

definition DomainScores_Get :: "DomainScores \<Rightarrow> string \<Rightarrow> f64" where
  "DomainScores_Get d dn =
     (if dn = DomainAttackSurface then dsc_AttackSurface d
      else if dn = DomainBusinessContinuity then dsc_BusinessContinuity d
      else if dn = DomainOperationTrust then dsc_OperationTrust d
      else if dn = DomainResilience then dsc_Resilience d
      else if dn = DomainKernelSecurity then dsc_KernelSecurity d
      else case dsc_Extra d dn of Some v \<Rightarrow> v | None \<Rightarrow> f64_0)"

definition DomainScores_Set :: "string \<Rightarrow> f64 \<Rightarrow> DomainScores \<Rightarrow> DomainScores" where
  "DomainScores_Set dn score d =
     (let s = (if f64_lt score f64_0 then f64_0 else score); s = (if f64_gt s (lit 100) then lit 100 else s)
      in if dn = DomainAttackSurface then d\<lparr>dsc_AttackSurface := s\<rparr>
         else if dn = DomainBusinessContinuity then d\<lparr>dsc_BusinessContinuity := s\<rparr>
         else if dn = DomainOperationTrust then d\<lparr>dsc_OperationTrust := s\<rparr>
         else if dn = DomainResilience then d\<lparr>dsc_Resilience := s\<rparr>
         else if dn = DomainKernelSecurity then d\<lparr>dsc_KernelSecurity := s\<rparr>
         else d\<lparr>dsc_Extra := (dsc_Extra d)(dn \<mapsto> s)\<rparr>)"

definition core_scores :: "DomainScores \<Rightarrow> (string \<rightharpoonup> f64)" where
  "core_scores d =
     (let m = [DomainAttackSurface \<mapsto> dsc_AttackSurface d, DomainBusinessContinuity \<mapsto> dsc_BusinessContinuity d,
               DomainOperationTrust \<mapsto> dsc_OperationTrust d, DomainResilience \<mapsto> dsc_Resilience d]
      in if f64_eq (dsc_KernelSecurity d) f64_0 then m else m(DomainKernelSecurity \<mapsto> dsc_KernelSecurity d))"

definition GetAllDomainScores :: "DomainScores \<Rightarrow> (string \<rightharpoonup> f64)" where
  "GetAllDomainScores d = core_scores d ++ dsc_Extra d"

definition Weights_Get :: "Weights \<Rightarrow> string \<Rightarrow> f64" where
  "Weights_Get w dn =
     (if dn = DomainAttackSurface then wt_AttackSurface w
      else if dn = DomainBusinessContinuity then wt_BusinessContinuity w
      else if dn = DomainOperationTrust then wt_OperationTrust w
      else if dn = DomainResilience then wt_Resilience w else f64_0)"

section \<open>The edge factors of a result\<close>

record EdgeFactors =
  ef_TwoFactorFailure :: f64
  ef_SYNCookieDisabled :: f64
  ef_SELinuxDisabled :: f64
  ef_AppArmorDisabled :: f64
  ef_NoSIEM :: f64
  ef_NoIDS :: f64
  ef_Model :: string
  ef_ParamsHash :: string

definition ActiveFactors :: "EdgeFactors \<Rightarrow> f64 list" where
  "ActiveFactors e =
     filter (\<lambda>f. f64_gt f f64_0 \<and> f64_lt f f64_1)
       [ef_TwoFactorFailure e, ef_SYNCookieDisabled e, ef_SELinuxDisabled e, ef_AppArmorDisabled e, ef_NoSIEM e, ef_NoIDS e]"

section \<open>The result of an assessment\<close>

record ATTACKCoverageInfo =
  cov_TacticID :: string
  cov_TacticName :: string
  cov_TotalTechniques :: int
  cov_CoveredDet :: int
  cov_CoverageDet :: f64
  cov_CoveragePrev :: f64
  cov_CoverageComp :: f64
  cov_RiskLevel :: string

record ATTACKKillChainStage =
  kcs_Name :: string
  kcs_Score :: f64
  kcs_Status :: string
  kcs_ChecksPassed :: int
  kcs_ChecksTotal :: int

record ATTACKKillChainInfo =
  kc_Stages :: "ATTACKKillChainStage list"
  kc_OverallScore :: f64
  kc_WeakestStage :: string

record ATTACKAPTMatchInfo =
  apt_GroupID :: string
  apt_GroupName :: string
  apt_Similarity :: f64
  apt_Confidence :: string
  apt_OverlapTech :: "string list"

record ATTACKPredictedRiskInfo =
  prk_MaxRiskScore :: f64
  prk_EnhancedThreat :: f64
  prk_PredictedPaths :: int
  prk_Recommendations :: "string list"

text \<open>The fields the engines read or write; the Prism fields and the signature are filled elsewhere.\<close>

record AssessmentResult =
  ar_HostID :: string
  ar_Hostname :: string
  ar_Timestamp :: time
  ar_FinalScore :: f64
  ar_Acceptable :: bool
  ar_Threshold :: f64
  ar_DomainScores :: DomainScores
  ar_DomainWeightShift :: "string \<rightharpoonup> f64"
  ar_EdgeFactors :: EdgeFactors
  ar_ThreatCoeff :: f64
  ar_SPCScore :: f64
  ar_ATTACKCoverage :: "ATTACKCoverageInfo list"
  ar_ATTACKKillChain :: "ATTACKKillChainInfo option"
  ar_ATTACKAPTMatches :: "ATTACKAPTMatchInfo list"
  ar_ATTACKPredictedRisk :: "ATTACKPredictedRiskInfo option"
  ar_ATTACKFailedTechs :: "string list"
  ar_Checks :: "CheckResult list"
  ar_FinalSigma :: f64
  ar_ScoreLower95 :: f64
  ar_ScoreUpper95 :: f64
  ar_EvidenceConfidence :: f64

section \<open>The domain registry\<close>

record DomainMeta =
  dm_ID :: string
  dm_Label :: string
  dm_Description :: string
  dm_Category :: string
  dm_DefaultWeight :: f64

abbreviation CategoryCore :: string where "CategoryCore \<equiv> ''core''"
abbreviation CategoryExtension :: string where "CategoryExtension \<equiv> ''extension''"

type_synonym domain_registry = "string \<rightharpoonup> DomainMeta"

definition domain_meta :: "string \<Rightarrow> string \<Rightarrow> string \<Rightarrow> string \<Rightarrow> rat \<Rightarrow> string \<times> DomainMeta" where
  "domain_meta dn label descr cat w =
     (dn, \<lparr>dm_ID = dn, dm_Label = label, dm_Description = descr, dm_Category = cat, dm_DefaultWeight = lit w\<rparr>)"

definition globalDomainRegistry :: domain_registry where
  "globalDomainRegistry = map_of
     [domain_meta DomainAttackSurface ''Attack Surface''
        ''Attacksurface management: unused services, open ports, strong auth, SSH config'' CategoryCore 35,
      domain_meta DomainBusinessContinuity ''Business Continuity''
        ''Business continuity: critical services, backup, resource adequacy'' CategoryCore 25,
      domain_meta DomainOperationTrust ''Operation Trust''
        ''Operation trust: file permissions, audit logs, command history, supply chain, MAC'' CategoryCore 25,
      domain_meta DomainResilience ''Resilience''
        ''Resilience: auto-block precision, SYN cookie, connection limits, ACI'' CategoryCore 15,
      domain_meta DomainKernelSecurity ''Kernel Security''
        ''Kernel security: CVE check, module signing, KASLR, hardening sysctls'' CategoryExtension 10]"

definition RegisterDomain :: "DomainMeta \<Rightarrow> domain_registry \<Rightarrow> domain_registry" where
  "RegisterDomain m reg = reg(dm_ID m \<mapsto> m)"

definition UnregisterDomain :: "string \<Rightarrow> domain_registry \<Rightarrow> domain_registry" where
  "UnregisterDomain dn reg = reg(dn := None)"

definition GetDomainMeta :: "domain_registry \<Rightarrow> string \<Rightarrow> DomainMeta option" where
  "GetDomainMeta reg dn = reg dn"

definition model_ListDomains :: "string list \<Rightarrow> domain_registry \<Rightarrow> DomainMeta list" where
  "model_ListDomains order reg = List.map_filter reg order"

definition ListDomainIDs :: "string list \<Rightarrow> domain_registry \<Rightarrow> string list" where
  "ListDomainIDs order reg = filter (\<lambda>dn. reg dn \<noteq> None) order"

definition ListDomainsByCategory :: "string list \<Rightarrow> string \<Rightarrow> domain_registry \<Rightarrow> DomainMeta list" where
  "ListDomainsByCategory order cat reg = filter (\<lambda>m. dm_Category m = cat) (List.map_filter reg order)"

definition ListDomainIDsByCategory :: "string list \<Rightarrow> string \<Rightarrow> domain_registry \<Rightarrow> string list" where
  "ListDomainIDsByCategory order cat reg = map dm_ID (ListDomainsByCategory order cat reg)"

definition model_GetDomainLabel :: "domain_registry \<Rightarrow> string \<Rightarrow> string" where
  "model_GetDomainLabel reg dn = (case GetDomainMeta reg dn of Some m \<Rightarrow> dm_Label m | None \<Rightarrow> dn)"

section \<open>Dynamic scores\<close>

fun f64_min :: "f64 \<Rightarrow> f64 \<Rightarrow> f64" where
  "f64_min NInf _ = NInf"
| "f64_min _ NInf = NInf"
| "f64_min NaN _ = NaN"
| "f64_min _ NaN = NaN"
| "f64_min a b = (if f64_le a b then a else b)"

type_synonym dyn_scores = "string \<rightharpoonup> f64"

definition clamp100 :: "f64 \<Rightarrow> f64" where
  "clamp100 s = f64_max f64_0 (f64_min (lit 100) s)"

definition dyn_Set :: "string \<Rightarrow> f64 \<Rightarrow> dyn_scores \<Rightarrow> dyn_scores" where
  "dyn_Set dn score d = d(dn \<mapsto> clamp100 score)"

definition dyn_Get :: "dyn_scores \<Rightarrow> string \<Rightarrow> f64" where
  "dyn_Get d dn = (case d dn of Some v \<Rightarrow> v | None \<Rightarrow> lit 100)"

definition dyn_Has :: "dyn_scores \<Rightarrow> string \<Rightarrow> bool" where
  "dyn_Has d dn \<longleftrightarrow> d dn \<noteq> None"

definition dyn_Add :: "string \<Rightarrow> f64 \<Rightarrow> dyn_scores \<Rightarrow> dyn_scores" where
  "dyn_Add dn delta d =
     (let current = (case d dn of Some v \<Rightarrow> v | None \<Rightarrow> lit 100) in d(dn \<mapsto> clamp100 (f64_add current delta)))"

definition FillFromLegacy :: "DomainScores \<Rightarrow> dyn_scores \<Rightarrow> dyn_scores" where
  "FillFromLegacy legacy d =
     (let m = d(DomainAttackSurface \<mapsto> dsc_AttackSurface legacy, DomainBusinessContinuity \<mapsto> dsc_BusinessContinuity legacy,
                DomainOperationTrust \<mapsto> dsc_OperationTrust legacy, DomainResilience \<mapsto> dsc_Resilience legacy);
          m = (if f64_eq (dsc_KernelSecurity legacy) f64_0 then m else m(DomainKernelSecurity \<mapsto> dsc_KernelSecurity legacy))
      in m ++ dsc_Extra legacy)"

definition ToLegacy :: "dyn_scores \<Rightarrow> DomainScores" where
  "ToLegacy d =
     (let getOr = (\<lambda>k. case d k of Some v \<Rightarrow> v | None \<Rightarrow> lit 100)
      in \<lparr>dsc_AttackSurface = getOr DomainAttackSurface, dsc_BusinessContinuity = getOr DomainBusinessContinuity,
          dsc_OperationTrust = getOr DomainOperationTrust, dsc_Resilience = getOr DomainResilience,
          dsc_KernelSecurity = getOr DomainKernelSecurity, dsc_Extra = d |` (- set builtin_domains)\<rparr>)"

section \<open>Dynamic weights\<close>

type_synonym dyn_weights = "string \<rightharpoonup> f64"

definition dw_Set :: "string \<Rightarrow> f64 \<Rightarrow> dyn_weights \<Rightarrow> dyn_weights" where
  "dw_Set dn w ws = ws(dn \<mapsto> w)"

definition dw_Get :: "dyn_weights \<Rightarrow> string \<Rightarrow> f64" where
  "dw_Get ws dn = (case ws dn of Some v \<Rightarrow> v | None \<Rightarrow> f64_0)"

definition dw_Total :: "string list \<Rightarrow> dyn_weights \<Rightarrow> f64" where
  "dw_Total order ws = foldl f64_add f64_0 (List.map_filter ws order)"

definition dw_Normalize :: "string list \<Rightarrow> f64 \<Rightarrow> dyn_weights \<Rightarrow> dyn_weights" where
  "dw_Normalize order target ws =
     (let s = dw_Total order ws
      in if f64_eq s f64_0 \<or> f64_eq s target then ws
         else let ratio = f64_div target s in (\<lambda>dn. map_option (\<lambda>v. f64_mul v ratio) (ws dn)))"

definition ApplyDefaults :: "DomainMeta list \<Rightarrow> dyn_weights \<Rightarrow> dyn_weights" where
  "ApplyDefaults metas ws =
     foldl (\<lambda>w m. if w (dm_ID m) = None then w(dm_ID m \<mapsto> dm_DefaultWeight m) else w) ws metas"

definition dw_FromLegacy :: "Weights \<Rightarrow> dyn_weights \<Rightarrow> dyn_weights" where
  "dw_FromLegacy l ws =
     (let m = ws(DomainAttackSurface \<mapsto> wt_AttackSurface l, DomainBusinessContinuity \<mapsto> wt_BusinessContinuity l,
                 DomainOperationTrust \<mapsto> wt_OperationTrust l, DomainResilience \<mapsto> wt_Resilience l)
      in if f64_eq (wt_KernelSecurity l) f64_0 then m else m(DomainKernelSecurity \<mapsto> wt_KernelSecurity l))"

definition dw_ToLegacy :: "dyn_weights \<Rightarrow> Weights" where
  "dw_ToLegacy ws =
     \<lparr>wt_AttackSurface = dw_Get ws DomainAttackSurface, wt_BusinessContinuity = dw_Get ws DomainBusinessContinuity,
      wt_OperationTrust = dw_Get ws DomainOperationTrust, wt_Resilience = dw_Get ws DomainResilience,
      wt_KernelSecurity = dw_Get ws DomainKernelSecurity\<rparr>"

section \<open>The chain of edge factors\<close>

record EdgeFactor =
  eg_ID :: string
  eg_Name :: string
  eg_Description :: string
  eg_Factor :: f64
  eg_Active :: bool
  eg_Priority :: int

record ef_store =
  st_cells :: "nat \<Rightarrow> EdgeFactor"
  st_factors :: "string \<rightharpoonup> nat"
  st_fresh :: nat

definition ef_lookup :: "ef_store \<Rightarrow> string \<Rightarrow> EdgeFactor option" where
  "ef_lookup st fid = map_option (st_cells st) (st_factors st fid)"

definition RegisterEdgeFactor :: "EdgeFactor \<Rightarrow> ef_store \<Rightarrow> ef_store" where
  "RegisterEdgeFactor ef st =
     st\<lparr>st_cells := (st_cells st)(st_fresh st := ef), st_factors := (st_factors st)(eg_ID ef \<mapsto> st_fresh st),
        st_fresh := Suc (st_fresh st)\<rparr>"

definition UnregisterEdgeFactor :: "string \<Rightarrow> ef_store \<Rightarrow> ef_store" where
  "UnregisterEdgeFactor fid st = st\<lparr>st_factors := (st_factors st)(fid := None)\<rparr>"

definition write_factor :: "string \<Rightarrow> (EdgeFactor \<Rightarrow> EdgeFactor) \<Rightarrow> ef_store \<Rightarrow> ef_store" where
  "write_factor fid f st =
     (case st_factors st fid of
        None \<Rightarrow> st
      | Some p \<Rightarrow> st\<lparr>st_cells := (st_cells st)(p := f (st_cells st p))\<rparr>)"

definition SetEdgeFactorActive :: "string \<Rightarrow> bool \<Rightarrow> ef_store \<Rightarrow> ef_store" where
  "SetEdgeFactorActive fid active st = write_factor fid (eg_Active_update (\<lambda>_. active)) st"

definition SetEdgeFactorValue :: "string \<Rightarrow> f64 \<Rightarrow> ef_store \<Rightarrow> ef_store" where
  "SetEdgeFactorValue fid factor st =
     write_factor fid (\<lambda>ef. ef\<lparr>eg_Factor := factor, eg_Active := f64_lt factor f64_1\<rparr>) st"

text \<open>The pointer, not a copy.\<close>

definition GetEdgeFactor :: "ef_store \<Rightarrow> string \<Rightarrow> nat option" where
  "GetEdgeFactor st fid = st_factors st fid"

definition listed_factors :: "string list \<Rightarrow> ef_store \<Rightarrow> EdgeFactor list" where
  "listed_factors order st = List.map_filter (ef_lookup st) order"

definition model_ListEdgeFactors :: "(EdgeFactor list \<Rightarrow> EdgeFactor list) \<Rightarrow> string list \<Rightarrow> ef_store \<Rightarrow> EdgeFactor list" where
  "model_ListEdgeFactors srt order st = srt (listed_factors order st)"

definition ActiveEdgeFactors :: "(EdgeFactor list \<Rightarrow> EdgeFactor list) \<Rightarrow> string list \<Rightarrow> ef_store \<Rightarrow> f64 list" where
  "ActiveEdgeFactors srt order st = map eg_Factor (filter eg_Active (srt (listed_factors order st)))"

definition ResetAllEdgeFactors :: "string list \<Rightarrow> ef_store \<Rightarrow> ef_store" where
  "ResetAllEdgeFactors order st =
     foldl (\<lambda>st fid. write_factor fid (\<lambda>ef. ef\<lparr>eg_Factor := f64_1, eg_Active := False\<rparr>) st) st order"

definition init_factor :: "string \<Rightarrow> string \<Rightarrow> string \<Rightarrow> rat \<Rightarrow> int \<Rightarrow> EdgeFactor" where
  "init_factor fid name descr f prio =
     \<lparr>eg_ID = fid, eg_Name = name, eg_Description = descr, eg_Factor = lit f, eg_Active = False, eg_Priority = prio\<rparr>"

definition empty_chain :: ef_store where
  "empty_chain = \<lparr>st_cells = (\<lambda>_. init_factor [] [] [] 0 0), st_factors = Map.empty, st_fresh = 0\<rparr>"

definition builtin_chain :: ef_store where
  "builtin_chain = foldl (\<lambda>st ef. RegisterEdgeFactor ef st) empty_chain
     [init_factor ''EF-002FA'' ''2FA Missing'' ''Dual-factor authentication not enforced'' (85 / 100) 10,
      init_factor ''EF-SYNCOOKIE'' ''SYN Cookie Disabled'' ''SYN Cookie not enabled (net.ipv4.tcp_syncookies=0)'' (75 / 100) 20,
      init_factor ''EF-SELINUX'' ''SELinux Disabled'' ''Mandatory Access Control (SELinux) not enforcing'' (80 / 100) 30,
      init_factor ''EF-APPARMOR'' ''AppArmor Disabled'' ''AppArmor not enforcing'' (82 / 100) 31,
      init_factor ''EF-NO-SIEM'' ''SIEM Integration Missing'' ''No SIEM/SOAR integration for centralized log monitoring'' (90 / 100) 40,
      init_factor ''EF-NO-IDS'' ''IDS/IPS Missing'' ''No intrusion detection/prevention system deployed'' (88 / 100) 50,
      init_factor ''EF-3FA'' ''3FA Not Met'' ''Three-factor authentication not achieved (Level 4 override)'' (82 / 100) 5]"

section \<open>One contract for the two score tables\<close>

text \<open>
  \<open>DomainScores\<close> clamps with two comparisons and answers 0 for a domain without a score, \<open>DynamicDomainScores\<close> clamps
  with \<open>math.Max\<close> and \<open>math.Min\<close> and answers 100. What both promise of a written score:
\<close>

lemma rep_100: "rep 100"
  using rep_of_nat [of 100] by simp

lemma lit_100: "lit 100 = Fin 100"
  by (rule f64_of_rat_rep [OF rep_100])

lemma clamp_compare:
  "(let s = (if f64_lt score f64_0 then f64_0 else score) in if f64_gt s (lit 100) then lit 100 else s) = clamp100 score"
  by (cases score) (simp_all add: clamp100_def f64_lt_def lit_100 Let_def)

locale score_table =
  fixes get :: "'s \<Rightarrow> string \<Rightarrow> f64" and put :: "string \<Rightarrow> f64 \<Rightarrow> 's \<Rightarrow> 's"
  assumes get_put: "get (put dn v s) dn = clamp100 v"
    and get_put_other: "dn' \<noteq> dn \<Longrightarrow> get (put dn v s) dn' = get s dn'"
begin

lemma get_put_all_other:
  "dn \<notin> ds_Domain ` set xs \<Longrightarrow> get (foldl (\<lambda>s x. put (ds_Domain x) (ds_Score x) s) s xs) dn = get s dn"
  by (induction xs arbitrary: s) (simp_all add: get_put_other)

lemma get_put_all:
  "distinct (map ds_Domain xs) \<Longrightarrow> x \<in> set xs \<Longrightarrow>
     get (foldl (\<lambda>s x. put (ds_Domain x) (ds_Score x) s) s xs) (ds_Domain x) = clamp100 (ds_Score x)"
  by (induction xs arbitrary: s) (auto simp: get_put get_put_all_other image_iff)

end

interpretation legacy_scores: score_table DomainScores_Get DomainScores_Set
proof
  show "DomainScores_Get (DomainScores_Set dn v s) dn = clamp100 v" for dn v s
    by (simp add: DomainScores_Get_def DomainScores_Set_def clamp_compare [symmetric] Let_def)
  show "DomainScores_Get (DomainScores_Set dn v s) dn' = DomainScores_Get s dn'" if "dn' \<noteq> dn" for dn' dn v s
    using that by (auto simp: DomainScores_Get_def DomainScores_Set_def Let_def)
qed

interpretation dynamic_scores: score_table dyn_Get dyn_Set
  by unfold_locales (simp_all add: dyn_Get_def dyn_Set_def)

lemma clamp100_id: "btw 0 100 s \<Longrightarrow> clamp100 s = s"
  by (auto dest!: btwD simp: clamp100_def lit_100)

lemma clamp100_range: "s \<noteq> NaN \<Longrightarrow> wf64 s \<Longrightarrow> btw 0 100 (clamp100 s)"
  by (cases s) (auto simp: clamp100_def lit_100 rep_100)

section \<open>Round trip of the scores\<close>

text \<open>Reading a result's scores into the dynamic table and back is the identity, except that a kernel security
  score of 0 comes back as 100.\<close>

theorem scores_roundtrip:
  assumes "dom (dsc_Extra ds) \<inter> set builtin_domains = {}"
  shows "ToLegacy (FillFromLegacy ds Map.empty) =
    (if f64_eq (dsc_KernelSecurity ds) f64_0 then ds\<lparr>dsc_KernelSecurity := lit 100\<rparr> else ds)"
proof -
  have none: "dsc_Extra ds dn = None" if "dn \<in> set builtin_domains" for dn using assms that by auto
  have "(FillFromLegacy ds Map.empty) |` (- set builtin_domains) = dsc_Extra ds"
  proof
    fix dn show "((FillFromLegacy ds Map.empty) |` (- set builtin_domains)) dn = dsc_Extra ds dn"
      using none [of dn]
      by (auto simp: FillFromLegacy_def builtin_domains_def restrict_map_def map_add_def Let_def split: option.splits)
  qed
  then show ?thesis
    using none by (simp add: ToLegacy_def FillFromLegacy_def builtin_domains_def map_add_def Let_def)
qed

lemma scores_roundtrip_witness:
  "ToLegacy (FillFromLegacy no_scores Map.empty) = no_scores\<lparr>dsc_KernelSecurity := lit 100\<rparr>"
  using scores_roundtrip [of no_scores] by (simp add: no_scores_def)

section \<open>The chain stays consistent\<close>

text \<open>Every entry has a cell of its own, and its factor carries the identifier it is registered under.\<close>

definition chain_ok :: "ef_store \<Rightarrow> bool" where
  "chain_ok st \<longleftrightarrow>
     inj_on (st_factors st) (dom (st_factors st)) \<and>
     (\<forall>fid p. st_factors st fid = Some p \<longrightarrow> p < st_fresh st \<and> eg_ID (st_cells st p) = fid)"

datatype chain_op =
    OpRegister EdgeFactor
  | OpUnregister string
  | OpActive string bool
  | OpValue string f64
  | OpReset "string list"

fun chain_step :: "chain_op \<Rightarrow> ef_store \<Rightarrow> ef_store" where
  "chain_step (OpRegister ef) st = RegisterEdgeFactor ef st"
| "chain_step (OpUnregister fid) st = UnregisterEdgeFactor fid st"
| "chain_step (OpActive fid b) st = SetEdgeFactorActive fid b st"
| "chain_step (OpValue fid f) st = SetEdgeFactorValue fid f st"
| "chain_step (OpReset order) st = ResetAllEdgeFactors order st"

lemma write_factor_ok: "(\<And>ef. eg_ID (f ef) = eg_ID ef) \<Longrightarrow> chain_ok st \<Longrightarrow> chain_ok (write_factor fid f st)"
  by (auto simp: chain_ok_def write_factor_def split: option.split)

lemma register_ok:
  assumes "chain_ok st"
  shows "chain_ok (RegisterEdgeFactor ef st)"
proof -
  have less: "p < st_fresh st" if "st_factors st fid = Some p" for fid p using assms that by (auto simp: chain_ok_def)
  have "inj_on ((st_factors st)(eg_ID ef \<mapsto> st_fresh st)) (dom ((st_factors st)(eg_ID ef \<mapsto> st_fresh st)))"
    using assms less by (fastforce simp: inj_on_def chain_ok_def dest: less)
  then show ?thesis using assms less by (fastforce simp: chain_ok_def RegisterEdgeFactor_def)
qed

lemma reset_ok: "chain_ok st \<Longrightarrow> chain_ok (ResetAllEdgeFactors order st)"
  unfolding ResetAllEdgeFactors_def by (induction order arbitrary: st) (simp_all add: write_factor_ok)

lemma chain_step_ok: "chain_ok st \<Longrightarrow> chain_ok (chain_step c st)"
proof (cases c)
  case (OpUnregister fid)
  assume "chain_ok st"
  then show ?thesis using OpUnregister by (auto simp: chain_ok_def UnregisterEdgeFactor_def inj_on_def)
qed (simp_all add: register_ok reset_ok SetEdgeFactorActive_def SetEdgeFactorValue_def write_factor_ok)

lemma builtin_chain_ok: "chain_ok builtin_chain"
proof -
  have "chain_ok empty_chain" by (simp add: chain_ok_def empty_chain_def)
  then show ?thesis unfolding builtin_chain_def by (simp add: register_ok)
qed

lemma chain_run_ok: "chain_ok st \<Longrightarrow> chain_ok (foldl (\<lambda>st c. chain_step c st) st cs)"
  by (induction cs arbitrary: st) (simp_all add: chain_step_ok)

lemma set_map_filter: "set (List.map_filter f xs) = {y. \<exists>x\<in>set xs. f x = Some y}"
  by (induction xs) (auto simp: List.map_filter_simps split: option.split)

lemma listed_distinct:
  assumes "chain_ok st" "distinct order"
  shows "distinct (map eg_ID (listed_factors order st))"
proof -
  have "map eg_ID (listed_factors order st) = filter (\<lambda>fid. st_factors st fid \<noteq> None) order"
    using assms(1) by (induction order) (auto simp: listed_factors_def List.map_filter_simps ef_lookup_def chain_ok_def split: option.split)
  then show ?thesis using assms(2) by simp
qed

text \<open>Whatever sequence of registrations, removals and updates ran since start-up, the listing shows each registered
  factor exactly once, in order of priority, and the pointer \<open>GetEdgeFactor\<close> returns is to the entry of that very
  identifier.\<close>

theorem chain_listing:
  assumes "iter_order order (st_factors st)" and "sorts_by eg_Priority srt"
    and "st = foldl (\<lambda>st c. chain_step c st) builtin_chain cs"
  shows "let l = model_ListEdgeFactors srt order st
    in sorted (map eg_Priority l) \<and> distinct l \<and> set (map eg_ID l) = dom (st_factors st) \<and>
       list_all (\<lambda>ef. map_option (st_cells st) (GetEdgeFactor st (eg_ID ef)) = Some ef) l"
proof -
  have ok: "chain_ok st" unfolding assms(3) by (rule chain_run_ok [OF builtin_chain_ok])
  have ord: "distinct order" "set order = dom (st_factors st)" using assms(1) by (auto simp: iter_order_def)
  let ?l = "srt (listed_factors order st)"
  have s: "set ?l = set (listed_factors order st)" by (rule sorts_by_set [OF assms(2)])
  have mem: "ef \<in> set ?l \<longleftrightarrow> (\<exists>fid. ef_lookup st fid = Some ef)" for ef
    by (subst s) (auto simp: listed_factors_def set_map_filter ord(2) ef_lookup_def)
  have "count_list ?l x \<le> 1" for x
    using assms(2) distinct_count_list [of "listed_factors order st" x] listed_distinct [OF ok ord(1)]
    by (simp add: sorts_by_def distinct_map)
  then have "distinct ?l" by (rule count_list_distinct)
  moreover have "set (map eg_ID ?l) = dom (st_factors st)"
  proof -
    have "set ?l = {ef. \<exists>fid. ef_lookup st fid = Some ef}" using mem by blast
    then show ?thesis using ok by (force simp: ef_lookup_def chain_ok_def)
  qed
  moreover have "list_all (\<lambda>ef. map_option (st_cells st) (GetEdgeFactor st (eg_ID ef)) = Some ef) ?l"
    using ok by (auto simp: list_all_iff mem GetEdgeFactor_def ef_lookup_def chain_ok_def)
  ultimately show ?thesis using assms(2) by (simp add: model_ListEdgeFactors_def sorts_by_def)
qed

lemma chain_listing_witness:
  "set (map eg_ID (model_ListEdgeFactors (sort_key eg_Priority)
     [''EF-002FA'', ''EF-SYNCOOKIE'', ''EF-SELINUX'', ''EF-APPARMOR'', ''EF-NO-SIEM'', ''EF-NO-IDS'', ''EF-3FA''] builtin_chain)) =
   {''EF-002FA'', ''EF-SYNCOOKIE'', ''EF-SELINUX'', ''EF-APPARMOR'', ''EF-NO-SIEM'', ''EF-NO-IDS'', ''EF-3FA''}"
proof -
  have d: "dom (st_factors builtin_chain) =
    {''EF-002FA'', ''EF-SYNCOOKIE'', ''EF-SELINUX'', ''EF-APPARMOR'', ''EF-NO-SIEM'', ''EF-NO-IDS'', ''EF-3FA''}"
    by (auto simp: builtin_chain_def RegisterEdgeFactor_def empty_chain_def init_factor_def)
  have i: "iter_order [''EF-002FA'', ''EF-SYNCOOKIE'', ''EF-SELINUX'', ''EF-APPARMOR'', ''EF-NO-SIEM'', ''EF-NO-IDS'', ''EF-3FA'']
    (st_factors builtin_chain)" by (simp add: iter_order_def d)
  show ?thesis using chain_listing [OF i sorts_by_sort_key, of "[]"] d by (simp add: Let_def)
qed

end
