(* ===== verification/Legacy_Engine.thy ===== *)
theory Legacy_Engine
  imports Model_Data
begin

text \<open>
  The built-in scorer: \<open>internal/engine/extensibility.go\<close> (hooks, weights, formula and check registries) and the scoring
  half of \<open>internal/engine/assessor.go\<close>: domain scores, the chain of edge factors, the three layers, the posterior, and
  the recomputation of a finished result. A hook is a function of the result; its context is always
  \<open>context.Background()\<close>.
\<close>

section \<open>Hooks\<close>

type_synonym AssessmentHook = "AssessmentResult \<Rightarrow> AssessmentResult \<times> string option"

record 'h hookRegistration =
  hr_id :: string
  hr_hook :: 'h
  hr_priority :: int

type_synonym 'h hook_table = "string \<rightharpoonup> 'h hookRegistration list"

definition hooks_at :: "'h hook_table \<Rightarrow> string \<Rightarrow> 'h hookRegistration list" where
  "hooks_at t phase = (case t phase of None \<Rightarrow> [] | Some hs \<Rightarrow> hs)"

definition HookRegistry_Register ::
    "('h hookRegistration list \<Rightarrow> 'h hookRegistration list) \<Rightarrow> string \<Rightarrow> string \<Rightarrow> 'h \<Rightarrow> int \<Rightarrow> 'h hook_table \<Rightarrow> 'h hook_table" where
  "HookRegistry_Register srt hid phase hook prio t =
     t(phase \<mapsto> srt (hooks_at t phase @ [\<lparr>hr_id = hid, hr_hook = hook, hr_priority = prio\<rparr>]))"

definition HookRegistry_Unregister :: "string \<Rightarrow> 'h hook_table \<Rightarrow> 'h hook_table" where
  "HookRegistry_Unregister hid t =
     (\<lambda>phase. case t phase of
                None \<Rightarrow> None
              | Some hs \<Rightarrow> let kept = filter (\<lambda>h. hr_id h \<noteq> hid) hs in if kept = [] then None else Some kept)"

fun run_hooks :: "AssessmentHook hookRegistration list \<Rightarrow> AssessmentResult \<Rightarrow> AssessmentResult \<times> (string \<times> string) list" where
  "run_hooks [] r = (r, [])"
| "run_hooks (h # hs) r =
     (let (r1, err) = hr_hook h r; (r2, errs) = run_hooks hs r1
      in (r2, (case err of None \<Rightarrow> errs | Some e \<Rightarrow> (hr_id h, e) # errs)))"

definition HookRegistry_Execute :: "AssessmentHook hook_table \<Rightarrow> string \<Rightarrow> AssessmentResult \<Rightarrow> AssessmentResult \<times> (string \<times> string) list" where
  "HookRegistry_Execute t phase r = run_hooks (hooks_at t phase) r"

section \<open>Registries\<close>

record ScoreFormula =
  sf_ID :: string
  sf_Name :: string
  sf_Description :: string
  sf_Compute :: "dyn_scores \<Rightarrow> dyn_weights \<Rightarrow> f64"

definition RegisterScoreFormula :: "ScoreFormula \<Rightarrow> (string \<rightharpoonup> ScoreFormula) \<Rightarrow> (string \<rightharpoonup> ScoreFormula)" where
  "RegisterScoreFormula f reg = reg(sf_ID f \<mapsto> f)"

definition ListScoreFormulas :: "string list \<Rightarrow> (string \<rightharpoonup> ScoreFormula) \<Rightarrow> ScoreFormula list" where
  "ListScoreFormulas order reg = List.map_filter reg order"

record check_ext =
  ce_activators :: "string \<rightharpoonup> (CheckItem \<Rightarrow> AssessmentResult \<Rightarrow> bool)"
  ce_priorities :: "string \<rightharpoonup> int"

definition RegisterCheckActivator :: "string \<Rightarrow> (CheckItem \<Rightarrow> AssessmentResult \<Rightarrow> bool) \<Rightarrow> check_ext \<Rightarrow> check_ext" where
  "RegisterCheckActivator cid f x = x\<lparr>ce_activators := (ce_activators x)(cid \<mapsto> f)\<rparr>"

definition SetCheckPriority :: "string \<Rightarrow> int \<Rightarrow> check_ext \<Rightarrow> check_ext" where
  "SetCheckPriority cid p x = x\<lparr>ce_priorities := (ce_priorities x)(cid \<mapsto> p)\<rparr>"

definition GetCheckPriority :: "check_ext \<Rightarrow> string \<Rightarrow> int" where
  "GetCheckPriority x cid = (case ce_priorities x cid of Some p \<Rightarrow> p | None \<Rightarrow> 50)"

definition ShouldActivateCheck :: "check_ext \<Rightarrow> CheckItem \<Rightarrow> AssessmentResult \<Rightarrow> bool" where
  "ShouldActivateCheck x item r = (case ce_activators x (ci_ID item) of Some f \<Rightarrow> f item r | None \<Rightarrow> True)"

text \<open>\<open>sort.SliceStable\<close>.\<close>

definition SortChecksByPriority :: "check_ext \<Rightarrow> CheckItem list \<Rightarrow> CheckItem list" where
  "SortChecksByPriority x items = sort_key (\<lambda>i. GetCheckPriority x (ci_ID i)) items"

section \<open>The weights\<close>

text \<open>The weighted mean over the weights, visited in \<open>order\<close>; without any weight, over the defaults of the registry.\<close>

definition effective_weights :: "string list \<Rightarrow> domain_registry \<Rightarrow> dyn_weights \<Rightarrow> dyn_weights" where
  "effective_weights regorder reg ws =
     (if ws = Map.empty then ApplyDefaults (model_ListDomains regorder reg) Map.empty else ws)"

definition dyn_weighted_sums :: "string list \<Rightarrow> dyn_weights \<Rightarrow> dyn_scores \<Rightarrow> f64 \<times> f64" where
  "dyn_weighted_sums order ws scores =
     foldl (\<lambda>(s, t) dn.
       case ws dn of
         None \<Rightarrow> (s, t)
       | Some w \<Rightarrow> if \<not> dyn_Has scores dn then (s, t) else (f64_add s (f64_mul (dyn_Get scores dn) w), f64_add t w))
       (f64_0, f64_0) order"

definition engine_ComputeWeightedSum ::
    "string list \<Rightarrow> string list \<Rightarrow> domain_registry \<Rightarrow> dyn_weights \<Rightarrow> dyn_scores \<Rightarrow> f64" where
  "engine_ComputeWeightedSum order regorder reg ws scores =
     (let (s, total) = dyn_weighted_sums order (effective_weights regorder reg ws) scores
      in if f64_eq total f64_0 then f64_0 else f64_div s total)"

definition engine_InitializeDefaults :: "string list \<Rightarrow> string list \<Rightarrow> domain_registry \<Rightarrow> dyn_weights \<Rightarrow> dyn_weights" where
  "engine_InitializeDefaults order regorder reg ws =
     dw_Normalize order (lit 100)
       (foldl (\<lambda>w m. if f64_eq (dw_Get w (dm_ID m)) f64_0 then dw_Set (dm_ID m) (dm_DefaultWeight m) w else w) ws
          (model_ListDomains regorder reg))"

text \<open>The four core weights and the extension weights of a configuration; the weight of kernel security is not read.\<close>

definition set_config_weights :: "Config \<Rightarrow> dyn_weights \<Rightarrow> dyn_weights" where
  "set_config_weights cf ws =
     (let w = cf_Weights cf
      in dw_Set DomainResilience (wt_Resilience w) (dw_Set DomainOperationTrust (wt_OperationTrust w)
           (dw_Set DomainBusinessContinuity (wt_BusinessContinuity w) (dw_Set DomainAttackSurface (wt_AttackSurface w) ws)))
         ++ cf_ExtensionWeights cf)"

section \<open>Edge factors\<close>

definition custom_factor :: "f64 \<Rightarrow> string \<Rightarrow> CustomEdgeFactorConfig" where
  "custom_factor f check = \<lparr>cef_Factor = f, cef_TriggerCheck = check\<rparr>"

definition legacyDefaultCustomFactors :: "Config \<Rightarrow> (string \<rightharpoonup> CustomEdgeFactorConfig)" where
  "legacyDefaultCustomFactors cf =
     [''EF-002FA'' \<mapsto> custom_factor (efw_TwoFactorFailure (cfg_EdgeFactors cf)) ''EF-001'',
      ''EF-SYNCOOKIE'' \<mapsto> custom_factor (lit (75 / 100)) ''RS-005'', ''EF-SELINUX'' \<mapsto> custom_factor (lit (80 / 100)) ''OT-005'',
      ''EF-APPARMOR'' \<mapsto> custom_factor (lit (82 / 100)) ''OT-005'', ''EF-NO-SIEM'' \<mapsto> custom_factor (lit (90 / 100)) ''RS-007'',
      ''EF-NO-IDS'' \<mapsto> custom_factor (lit (88 / 100)) ''RS-006'']"

text \<open>In the order \<open>sort.Strings\<close> leaves them.\<close>

definition legacyOverrideFactorIDs :: "string list" where
  "legacyOverrideFactorIDs = [''EF-APPARMOR'', ''EF-NO-IDS'', ''EF-NO-SIEM'', ''EF-SELINUX'', ''EF-SYNCOOKIE'']"

definition legacyTriggerOverridesByCheck :: "Config \<Rightarrow> string \<Rightarrow> string list" where
  "legacyTriggerOverridesByCheck cf check =
     filter (\<lambda>fid. efm_TriggerMap (cfg_EdgeFactorModel cf) fid = Some check \<and> trim_space check \<noteq> []) legacyOverrideFactorIDs"

definition penalty_of :: "CustomEdgeFactorConfig option \<Rightarrow> f64 option" where
  "penalty_of c =
     (case c of
        None \<Rightarrow> None
      | Some v \<Rightarrow> if f64_gt (cef_Factor v) f64_0 \<and> f64_lt (cef_Factor v) f64_1 then Some (cef_Factor v) else None)"

definition legacyOverridePenalty :: "Config \<Rightarrow> (string \<rightharpoonup> CustomEdgeFactorConfig) \<Rightarrow> string \<Rightarrow> f64 option" where
  "legacyOverridePenalty cf customs fid =
     (case penalty_of (customs fid) of Some f \<Rightarrow> Some f | None \<Rightarrow> penalty_of (legacyDefaultCustomFactors cf fid))"

definition trigger_confidence :: "CheckResult \<Rightarrow> f64" where
  "trigger_confidence c =
     (if f64_le (cr_Confidence c) f64_0 \<or> f64_gt (cr_Confidence c) f64_1 then f64_1 else cr_Confidence c)"

definition attenuate :: "f64 \<Rightarrow> f64 \<Rightarrow> f64" where
  "attenuate conf f =
     (if f64_le f f64_0 \<or> f64_ge f f64_1 then f else f64_sub f64_1 (f64_mul (f64_sub f64_1 f) conf))"

definition str_at :: "(string \<rightharpoonup> string) \<Rightarrow> string \<Rightarrow> string" where
  "str_at m k = (case m k of None \<Rightarrow> [] | Some v \<Rightarrow> v)"

definition builtin_trigger ::
    "Config \<Rightarrow> (string \<rightharpoonup> CustomEdgeFactorConfig) \<Rightarrow> (string \<rightharpoonup> string) \<Rightarrow> CheckResult \<Rightarrow> (string \<rightharpoonup> f64) \<Rightarrow> (string \<rightharpoonup> f64)" where
  "builtin_trigger cf customs triggers check m =
     (let att = attenuate (trigger_confidence check)
      in if cr_CheckID check = str_at triggers ''EF-002FA''
         then m(''EF-002FA'' \<mapsto> att (case customs ''EF-002FA'' of Some v \<Rightarrow> cef_Factor v
                                  | None \<Rightarrow> efw_TwoFactorFailure (cfg_EdgeFactors cf)))
         else if cr_CheckID check = str_at triggers ef3FAFactorID
         then let m1 = m(ef3FAFactorID \<mapsto> att (case customs ef3FAFactorID of Some v \<Rightarrow> cef_Factor v | None \<Rightarrow> lit (82 / 100)))
              in (case m1 ''EF-002FA'' of
                    None \<Rightarrow> m1(''EF-002FA'' \<mapsto> lit (82 / 100))
                  | Some v \<Rightarrow> if f64_gt v (lit (82 / 100)) then m1(''EF-002FA'' \<mapsto> lit (82 / 100)) else m1)
         else (case customs (cr_CheckID check) of
                 None \<Rightarrow> m
               | Some pen \<Rightarrow> if f64_lt (cef_Factor pen) f64_1 then m(cr_CheckID check \<mapsto> att (cef_Factor pen)) else m))"

definition chain_check ::
    "Config \<Rightarrow> (string \<rightharpoonup> CustomEdgeFactorConfig) \<Rightarrow> (string \<rightharpoonup> string) \<Rightarrow> (string \<rightharpoonup> f64) \<Rightarrow> CheckResult \<Rightarrow> (string \<rightharpoonup> f64)" where
  "chain_check cf customs triggers m check =
     (if cr_Passed check then m
      else foldl (\<lambda>m fid.
             case legacyOverridePenalty cf customs fid of
               None \<Rightarrow> m
             | Some pen \<Rightarrow> m(fid \<mapsto> attenuate (trigger_confidence check) pen))
             (builtin_trigger cf customs triggers check m) (legacyTriggerOverridesByCheck cf (cr_CheckID check)))"

definition chain_customs :: "Config \<Rightarrow> (string \<rightharpoonup> CustomEdgeFactorConfig)" where
  "chain_customs cf =
     (if cfg_EdgeFactorsCustom cf = Map.empty then legacyDefaultCustomFactors cf else cfg_EdgeFactorsCustom cf)"

definition local_factors :: "EdgeFactor list \<Rightarrow> Config \<Rightarrow> CheckResult list \<Rightarrow> (string \<rightharpoonup> f64)" where
  "local_factors listing cf checks =
     foldl (chain_check cf (chain_customs cf) (ResolveEdgeFactorTriggerMap (Some (cfg_EdgeFactorModel cf))))
       (foldl (\<lambda>m ef. m(eg_ID ef \<mapsto> f64_1)) Map.empty listing) checks"

definition mapped_factor :: "(string \<rightharpoonup> f64) \<Rightarrow> string \<Rightarrow> f64" where
  "mapped_factor m fid = (case m fid of None \<Rightarrow> f64_1 | Some v \<Rightarrow> if f64_lt v f64_1 then v else f64_1)"

definition evaluateEdgeFactorChain :: "EdgeFactor list \<Rightarrow> Config \<Rightarrow> AssessmentResult \<Rightarrow> AssessmentResult" where
  "evaluateEdgeFactorChain listing cf r =
     (let m = local_factors listing cf (ar_Checks r)
      in r\<lparr>ar_EdgeFactors :=
             \<lparr>ef_TwoFactorFailure = mapped_factor m ''EF-002FA'', ef_SYNCookieDisabled = mapped_factor m ''EF-SYNCOOKIE'',
              ef_SELinuxDisabled = mapped_factor m ''EF-SELINUX'', ef_AppArmorDisabled = mapped_factor m ''EF-APPARMOR'',
              ef_NoSIEM = mapped_factor m ''EF-NO-SIEM'', ef_NoIDS = mapped_factor m ''EF-NO-IDS'', ef_Model = [], ef_ParamsHash = []\<rparr>\<rparr>)"

section \<open>Scoring a result\<close>

record legacy_env =
  le_lo :: "string \<Rightarrow> string"
  le_rx :: regex_lib
  le_registry :: domain_registry
  le_reg_order :: "string list"
  le_weight_order :: "string list"
  le_listing :: "EdgeFactor list"

definition legacyWeights :: "string list \<Rightarrow> dyn_weights \<Rightarrow> WeightConfig list" where
  "legacyWeights order ws =
     map (\<lambda>dn. \<lparr>wc_Domain = dn, wc_Weight = dw_Get ws dn\<rparr>) (sort (filter (\<lambda>dn. ws dn \<noteq> None) order))"

definition resolveChecksConfidence :: "legacy_env \<Rightarrow> Config \<Rightarrow> AssessmentResult \<Rightarrow> AssessmentResult" where
  "resolveChecksConfidence le cf r = r\<lparr>ar_Checks := ResolveChecks (le_lo le) (le_rx le) (cf_Confidence cf) (ar_Checks r)\<rparr>"

text \<open>The checks of the result are updated on the way to the inputs of the library.\<close>

definition computeLegacyDomainBayes :: "legacy_env \<Rightarrow> Config \<Rightarrow> dyn_weights \<Rightarrow> AssessmentResult \<Rightarrow> AssessmentResult \<times> DomainScore list" where
  "computeLegacyDomainBayes le cf ws r =
     (let (checks, inputs) = legacyCheckInputs (le_lo le) (le_rx le) (Some cf) (ar_Checks r)
      in (r\<lparr>ar_Checks := checks\<rparr>,
          ComputeDomainScoresBayes (legacyWeights (le_weight_order le) ws) inputs (ConfidencePolicyFromConfig (Some (cf_Confidence cf)))))"

definition set_scores :: "DomainScore list \<Rightarrow> DomainScores \<Rightarrow> DomainScores" where
  "set_scores xs d = foldl (\<lambda>s x. DomainScores_Set (ds_Domain x) (ds_Score x) s) d xs"

definition dyn_of_scores :: "DomainScore list \<Rightarrow> dyn_scores" where
  "dyn_of_scores xs = foldl (\<lambda>s x. dyn_Set (ds_Domain x) (ds_Score x) s) Map.empty xs"

definition computeDynamicDomainScores :: "legacy_env \<Rightarrow> Config \<Rightarrow> dyn_weights \<Rightarrow> AssessmentResult \<Rightarrow> AssessmentResult \<times> dyn_scores" where
  "computeDynamicDomainScores le cf ws r =
     (let (r, bayes) = computeLegacyDomainBayes le cf ws r in (r, dyn_of_scores bayes))"

definition ensureDefaults :: "Config \<Rightarrow> AssessmentResult \<Rightarrow> AssessmentResult" where
  "ensureDefaults cf r =
     r\<lparr>ar_ThreatCoeff := (if f64_eq (ar_ThreatCoeff r) f64_0 then cf_ThreatCoeff cf else ar_ThreatCoeff r),
       ar_SPCScore := (if f64_eq (ar_SPCScore r) f64_0 then f64_1 else ar_SPCScore r)\<rparr>"

definition at_least_6_10 :: "f64 \<Rightarrow> f64" where
  "at_least_6_10 x = (if f64_lt x (lit (6 / 10)) then lit (6 / 10) else x)"

definition computeDynamicFinalScore :: "legacy_env \<Rightarrow> dyn_weights \<Rightarrow> dyn_scores \<Rightarrow> AssessmentResult \<Rightarrow> f64" where
  "computeDynamicFinalScore le ws scores r =
     (let weightedSum = engine_ComputeWeightedSum (le_weight_order le) (le_reg_order le) (le_registry le) ws scores;
          intrinsic = foldl f64_mul (f64_div weightedSum (lit 100)) (ActiveFactors (ar_EdgeFactors r))
      in layer_mix intrinsic (at_least_6_10 (ar_SPCScore r)) (at_least_6_10 (ar_ThreatCoeff r)))"

definition fillLegacyPosterior :: "legacy_env \<Rightarrow> dyn_weights \<Rightarrow> DomainScore list \<Rightarrow> AssessmentResult \<Rightarrow> AssessmentResult" where
  "fillLegacyPosterior le ws bayes r =
     (let weights = legacyWeights (le_weight_order le) ws; sigma = FinalBayesStats weights bayes;
          (lo, up) = ConfidenceInterval (ar_FinalScore r) sigma
      in r\<lparr>ar_FinalSigma := sigma, ar_ScoreLower95 := lo, ar_ScoreUpper95 := up,
           ar_EvidenceConfidence := AggregateNodeConfidence weights bayes\<rparr>)"

definition acceptable :: "Config \<Rightarrow> AssessmentResult \<Rightarrow> bool" where
  "acceptable cf r =
     AcceptanceDecision (ar_FinalScore r) (ar_ScoreLower95 r) (ar_Threshold r) (cc_AcceptByLowerBound (cf_Confidence cf))"

definition runLegacyScoring :: "legacy_env \<Rightarrow> Config \<Rightarrow> dyn_weights \<Rightarrow> AssessmentResult \<Rightarrow> AssessmentResult" where
  "runLegacyScoring le cf ws r =
     (let (r, bayes) = computeLegacyDomainBayes le cf ws (resolveChecksConfidence le cf r);
          r = r\<lparr>ar_DomainScores := set_scores bayes (ar_DomainScores r)\<rparr>;
          r = ensureDefaults cf (evaluateEdgeFactorChain (le_listing le) cf r);
          r = r\<lparr>ar_FinalScore := computeDynamicFinalScore le ws (dyn_of_scores bayes) r\<rparr>;
          r = fillLegacyPosterior le ws bayes r
      in r\<lparr>ar_Acceptable := acceptable cf r\<rparr>)"

text \<open>A plugin engine returns the result it has written to, and an error or none.\<close>

type_synonym plugin_engine = "AssessmentResult \<Rightarrow> AssessmentResult \<times> string option"

definition tryPluginScore :: "plugin_engine option \<Rightarrow> AssessmentResult \<Rightarrow> AssessmentResult \<times> bool" where
  "tryPluginScore plugin r =
     (case plugin of None \<Rightarrow> (r, False) | Some compute \<Rightarrow> (case compute r of (r1, None) \<Rightarrow> (r1, True) | (r1, Some _) \<Rightarrow> (r1, False)))"

definition score_result :: "legacy_env \<Rightarrow> Config \<Rightarrow> dyn_weights \<Rightarrow> plugin_engine option \<Rightarrow> AssessmentResult \<Rightarrow> AssessmentResult" where
  "score_result le cf ws plugin r =
     (case tryPluginScore plugin r of (r1, True) \<Rightarrow> r1 | (r1, False) \<Rightarrow> runLegacyScoring le cf ws r1)"

definition RecomputeFinalScore :: "legacy_env \<Rightarrow> Config \<Rightarrow> dyn_weights \<Rightarrow> plugin_engine option \<Rightarrow> AssessmentResult \<Rightarrow> AssessmentResult" where
  "RecomputeFinalScore le cf ws plugin r =
     (let r = r\<lparr>ar_SPCScore := (if f64_eq (ar_SPCScore r) f64_0 then f64_1 else ar_SPCScore r),
                ar_ThreatCoeff := (if f64_eq (ar_ThreatCoeff r) f64_0 then f64_1 else ar_ThreatCoeff r)\<rparr>
      in case tryPluginScore plugin r of
           (r1, True) \<Rightarrow> r1
         | (r1, False) \<Rightarrow>
             let r1 = resolveChecksConfidence le cf r1;
                 r1 = r1\<lparr>ar_FinalScore := computeDynamicFinalScore le ws (FillFromLegacy (ar_DomainScores r1) Map.empty) r1\<rparr>;
                 (r2, bayes) = computeLegacyDomainBayes le cf ws r1;
                 r2 = fillLegacyPosterior le ws bayes r2
             in r2\<lparr>ar_Acceptable := acceptable cf r2\<rparr>)"

definition ValidateEdgeFactors :: "CheckItem list \<Rightarrow> string list" where
  "ValidateEdgeFactors items =
     map (\<lambda>label. ''Edge factor conflict: '' @ label)
       (List.map_filter (\<lambda>i. map_of
          [(''RS-005'', ''SYN Cookie edge factor overlap (SSAM 1.3 removed overlap, resilience domain only)''),
           (''OT-004'', ''Supply chain edge factor overlap (SSAM 1.3 removed overlap, operation trust domain only)''),
           (''RS-003'', ''Auto-block edge factor overlap (SSAM 1.3 removed overlap, resilience domain only)''),
           (''BC-003'', ''Resource tension edge factor overlap (SSAM 1.3 removed overlap, business continuity domain only)'')]
          (ci_ID i)) items)"

section \<open>Hooks run in order of priority\<close>

definition hooks_ok :: "'h hook_table \<Rightarrow> bool" where
  "hooks_ok t \<longleftrightarrow> (\<forall>phase hs. t phase = Some hs \<longrightarrow> hs \<noteq> [] \<and> sorted (map hr_priority hs))"

lemma register_hooks_ok:
  assumes "sorts_by hr_priority srt" "hooks_ok t"
  shows "hooks_ok (HookRegistry_Register srt hid phase hook prio t)"
proof -
  have "sorted (map hr_priority (srt ys))" for ys using assms(1) by (simp add: sorts_by_def)
  moreover have "srt (ys @ [y]) \<noteq> []" for ys y
    using sorts_by_set [OF assms(1), of "ys @ [y]"] by (metis empty_set snoc_eq_iff_butlast set_empty)
  ultimately show ?thesis using assms(2) by (auto simp: hooks_ok_def HookRegistry_Register_def)
qed

lemma sorted_filter_map: "sorted (map f xs) \<Longrightarrow> sorted (map f (filter P xs))"
  by (induction xs) auto

lemma unregister_hooks_ok: "hooks_ok t \<Longrightarrow> hooks_ok (HookRegistry_Unregister hid t)"
  by (auto simp: hooks_ok_def HookRegistry_Unregister_def Let_def sorted_filter_map split: option.splits if_splits)

lemma hooks_at_unregister: "hooks_at (HookRegistry_Unregister hid t) phase = filter (\<lambda>h. hr_id h \<noteq> hid) (hooks_at t phase)"
  by (simp add: hooks_at_def HookRegistry_Unregister_def Let_def split: option.split)

lemma set_hooks_at_register:
  "sorts_by hr_priority srt \<Longrightarrow>
   set (hooks_at (HookRegistry_Register srt hid phase hook prio t) phase') =
     (if phase' = phase then insert \<lparr>hr_id = hid, hr_hook = hook, hr_priority = prio\<rparr> (set (hooks_at t phase)) else set (hooks_at t phase'))"
  by (auto simp: hooks_at_def HookRegistry_Register_def sorts_by_set)

lemma hooks_at_sorted: "hooks_ok t \<Longrightarrow> sorted (map hr_priority (hooks_at t phase))"
  by (auto simp: hooks_ok_def hooks_at_def split: option.split)

section \<open>When the order of the checks matters\<close>

lemma builtin_trigger_add:
  "cr_CheckID c = str_at triggers ''EF-002FA'' \<or> cr_CheckID c \<noteq> str_at triggers ef3FAFactorID \<Longrightarrow>
     builtin_trigger cf customs triggers c m = m ++ builtin_trigger cf customs triggers c Map.empty"
  by (elim disjE) (simp_all add: builtin_trigger_def Let_def split: option.split)

lemma override_fold_add:
  "foldl (\<lambda>m fid. case f fid of None \<Rightarrow> m | Some v \<Rightarrow> m(fid \<mapsto> g v)) (m ++ m') fids =
     m ++ foldl (\<lambda>m fid. case f fid of None \<Rightarrow> m | Some v \<Rightarrow> m(fid \<mapsto> g v)) m' fids"
  by (induction fids arbitrary: m') (simp_all add: map_add_upd [symmetric] del: map_add_upd split: option.split)

text \<open>What one check writes, and when it only writes.\<close>

abbreviation check_writes :: "Config \<Rightarrow> CheckResult \<Rightarrow> (string \<rightharpoonup> f64)" where
  "check_writes cf c \<equiv>
     chain_check cf (chain_customs cf) (ResolveEdgeFactorTriggerMap (Some (cfg_EdgeFactorModel cf))) Map.empty c"

definition cascade_check :: "Config \<Rightarrow> CheckResult \<Rightarrow> bool" where
  "cascade_check cf c \<longleftrightarrow>
     (let t = ResolveEdgeFactorTriggerMap (Some (cfg_EdgeFactorModel cf))
      in \<not> cr_Passed c \<and> cr_CheckID c = str_at t ef3FAFactorID \<and> cr_CheckID c \<noteq> str_at t ''EF-002FA'')"

lemma chain_check_add:
  assumes "\<not> cascade_check cf c"
  shows "chain_check cf (chain_customs cf) (ResolveEdgeFactorTriggerMap (Some (cfg_EdgeFactorModel cf))) m c = m ++ check_writes cf c"
proof (cases "cr_Passed c")
  case True
  then show ?thesis by (simp add: chain_check_def)
next
  case False
  then have "cr_CheckID c = str_at (ResolveEdgeFactorTriggerMap (Some (cfg_EdgeFactorModel cf))) ''EF-002FA'' \<or>
    cr_CheckID c \<noteq> str_at (ResolveEdgeFactorTriggerMap (Some (cfg_EdgeFactorModel cf))) ef3FAFactorID"
    using assms by (auto simp: cascade_check_def Let_def)
  note add = builtin_trigger_add [OF this]
  show ?thesis using False by (simp only: chain_check_def if_False add [of cf "chain_customs cf" m] override_fold_add)
qed

lemma fold_add_value:
  assumes "\<And>c c'. c \<in> set cs \<Longrightarrow> c' \<in> set cs \<Longrightarrow> k \<in> dom (w c) \<Longrightarrow> k \<in> dom (w c') \<Longrightarrow> w c k = w c' k"
    and "c \<in> set cs" "w c k = Some v"
  shows "foldl (\<lambda>m c. m ++ w c) m cs k = Some v"
  using assms
proof (induction cs rule: rev_induct)
  case (snoc c' cs)
  show ?case
  proof (cases "w c' k")
    case None
    then have "c \<in> set cs" using snoc.prems(2,3) by auto
    then have "foldl (\<lambda>m c. m ++ w c) m cs k = Some v" using snoc.IH snoc.prems(1,3) by (simp add: dom_def)
    then show ?thesis using None by (simp add: map_add_def)
  next
    case (Some v')
    then have "v' = v" using snoc.prems(1) [of c' c] snoc.prems(2,3) by (auto simp: dom_def)
    then show ?thesis using Some by simp
  qed
qed simp

lemma fold_add_none: "(\<And>c. c \<in> set cs \<Longrightarrow> w c k = None) \<Longrightarrow> foldl (\<lambda>m c. m ++ w c) m cs k = m k"
  by (induction cs arbitrary: m) (simp_all add: map_add_def)

lemma fold_add_same_set:
  assumes "\<And>c c' k. c \<in> set cs \<Longrightarrow> c' \<in> set cs \<Longrightarrow> k \<in> dom (w c) \<Longrightarrow> k \<in> dom (w c') \<Longrightarrow> w c k = w c' k"
    and "set cs' = set cs"
  shows "foldl (\<lambda>m c. m ++ w c) m cs = foldl (\<lambda>m c. m ++ w c) m cs'"
proof
  fix k
  show "foldl (\<lambda>m c. m ++ w c) m cs k = foldl (\<lambda>m c. m ++ w c) m cs' k"
  proof (cases "\<exists>c\<in>set cs. w c k \<noteq> None")
    case True
    then obtain c v where c: "c \<in> set cs" "w c k = Some v" by auto
    have "foldl (\<lambda>m c. m ++ w c) m cs k = Some v" 
      by (rule fold_add_value [of cs k w c]) (use assms(1) c in blast)+
    moreover have "foldl (\<lambda>m c. m ++ w c) m cs' k = Some v"
      by (rule fold_add_value [of cs' k w c]) (use assms c in blast)+
    ultimately show ?thesis by simp
  next
    case False
    then show ?thesis using fold_add_none [of cs w k m] fold_add_none [of cs' w k m] assms(2) by simp
  qed
qed

text \<open>C22: As long as no failed check is the one that cascades and no two checks disagree about a factor, the edge
  factors of a result do not depend on the order in which the checks finished.\<close>

theorem edge_factors_order_free:
  assumes "set (ar_Checks r') = set (ar_Checks r)" and "\<forall>c\<in>set (ar_Checks r). \<not> cascade_check cf c"
    and "\<forall>c\<in>set (ar_Checks r). \<forall>c'\<in>set (ar_Checks r). \<forall>k\<in>dom (check_writes cf c) \<inter> dom (check_writes cf c').
           check_writes cf c k = check_writes cf c' k"
  shows "ar_EdgeFactors (evaluateEdgeFactorChain listing cf r') = ar_EdgeFactors (evaluateEdgeFactorChain listing cf r)"
proof -
  let ?t = "ResolveEdgeFactorTriggerMap (Some (cfg_EdgeFactorModel cf))"
  have fold: "foldl (chain_check cf (chain_customs cf) ?t) m cs = foldl (\<lambda>m c. m ++ check_writes cf c) m cs"
    if "set cs = set (ar_Checks r)" for m cs
  proof (rule foldl_cong [OF refl refl])
    fix m c assume "c \<in> set cs"
    then have "\<not> cascade_check cf c" using that assms(2) by blast
    then show "chain_check cf (chain_customs cf) ?t m c = m ++ check_writes cf c" by (rule chain_check_add)
  qed
  have "local_factors listing cf (ar_Checks r') = local_factors listing cf (ar_Checks r)"
    unfolding local_factors_def fold [OF assms(1)] fold [OF refl]
    by (rule fold_add_same_set [OF _ assms(1) [symmetric]]) (use assms(1,3) in blast)
  then show ?thesis by (simp add: evaluateEdgeFactorChain_def Let_def)
qed

lemma default_triggers: "ResolveEdgeFactorTriggerMap (Some noEdgeFactorModel) = DefaultEdgeFactorTriggerMap"
  by (rule ext) (simp add: ResolveEdgeFactorTriggerMap_def noEdgeFactorModel_def)

lemma default_labels:
  "str_at DefaultEdgeFactorTriggerMap ''EF-002FA'' = ''EF-001''" "str_at DefaultEdgeFactorTriggerMap ef3FAFactorID = ''EF-002''"
  by (simp_all add: str_at_def DefaultEdgeFactorTriggerMap_def ef3FAFactorID_def)

lemma no_overrides: "legacyTriggerOverridesByCheck (cf\<lparr>cfg_EdgeFactorModel := noEdgeFactorModel\<rparr>) check = []"
  by (simp add: legacyTriggerOverridesByCheck_def noEdgeFactorModel_def)

lemma lit_82: "f64_lt (lit (82 / 100)) f64_1"
proof -
  have "btw 0 (7 / 8) (lit (82 / 100))"
    by (rule btw_of_rat) (use rep_small [of "7 / 8" 7 3] in simp_all)
  then obtain x where "lit (82 / 100) = Fin x" "x \<le> 7 / 8" using btwD by blast
  then show ?thesis by simp
qed

text \<open>With the default triggers, a failed \<open>EF-001\<close> and a failed \<open>EF-002\<close> give two different two-factor penalties
  according to which of the two finished first: the cascade bounds the factor at 0.82 only when it comes second. The
  checks of a local assessment run concurrently, so either order can occur.\<close>

theorem cascade_depends_on_order:
  assumes "cfg_EdgeFactorModel cf = noEdgeFactorModel" and "cfg_EdgeFactorsCustom cf = Map.empty"
    and "cr_CheckID a = ''EF-001''" "cr_CheckID b = ''EF-002''" "\<not> cr_Passed a" "\<not> cr_Passed b"
    and "f64_gt (attenuate (trigger_confidence a) (efw_TwoFactorFailure (cfg_EdgeFactors cf))) (lit (82 / 100))"
  shows "let penalty = (\<lambda>cs. ef_TwoFactorFailure (ar_EdgeFactors (evaluateEdgeFactorChain listing cf (r\<lparr>ar_Checks := cs\<rparr>))))
    in penalty [a, b] = lit (82 / 100) \<and> f64_gt (penalty [b, a]) (lit (82 / 100))"
proof -
  have cf: "cf = cf\<lparr>cfg_EdgeFactorModel := noEdgeFactorModel\<rparr>" using assms(1) by simp
  have ov: "legacyTriggerOverridesByCheck cf check = []" for check using no_overrides [of cf check] cf by simp
  define c where "c = chain_customs cf"
  have c: "c ''EF-002FA'' = Some (custom_factor (efw_TwoFactorFailure (cfg_EdgeFactors cf)) ''EF-001'')" "c ef3FAFactorID = None"
    using assms(2) by (simp_all add: c_def chain_customs_def legacyDefaultCustomFactors_def ef3FAFactorID_def)
  let ?v = "attenuate (trigger_confidence a) (efw_TwoFactorFailure (cfg_EdgeFactors cf))"
  have n: "ef3FAFactorID \<noteq> ''EF-002FA''" by (simp add: ef3FAFactorID_def)
  have sa: "chain_check cf c DefaultEdgeFactorTriggerMap m a = m(''EF-002FA'' \<mapsto> ?v)" for m
    using assms(3,5) c by (simp add: chain_check_def ov builtin_trigger_def default_labels Let_def custom_factor_def)
  have sb: "chain_check cf c DefaultEdgeFactorTriggerMap (m(''EF-002FA'' \<mapsto> ?v)) b ''EF-002FA'' = Some (lit (82 / 100))" for m
    using assms(4,6,7) c n by (simp add: chain_check_def ov builtin_trigger_def default_labels Let_def)
  have lt: "f64_lt (lit (82 / 100)) f64_1" by (rule lit_82)
  have m1: "local_factors listing cf [a, b] ''EF-002FA'' = Some (lit (82 / 100))"
    unfolding local_factors_def assms(1) default_triggers c_def [symmetric] by (simp only: foldl.simps sa sb)
  have m2: "local_factors listing cf [b, a] ''EF-002FA'' = Some ?v"
    unfolding local_factors_def assms(1) default_triggers c_def [symmetric] by (simp add: sa)
  show ?thesis
    unfolding evaluateEdgeFactorChain_def Let_def using lt assms(7) by (simp add: mapped_factor_def m1 m2)
qed

definition failed_check :: "string \<Rightarrow> CheckResult" where
  "failed_check cid =
     \<lparr>cr_CheckID = cid, cr_Domain = DomainAttackSurface, cr_Name = [], cr_Passed = False, cr_Delta = lit (- 10), cr_Detail = [],
      cr_ComplianceRef = [], cr_Source = [], cr_Confidence = f64_0, cr_EffectiveConfidence = f64_0\<rparr>"

lemma cascade_depends_on_order_witness:
  "\<exists>r cf a b. ar_EdgeFactors (evaluateEdgeFactorChain [] cf (r\<lparr>ar_Checks := [a, b]\<rparr>)) \<noteq>
     ar_EdgeFactors (evaluateEdgeFactorChain [] cf (r\<lparr>ar_Checks := [b, a]\<rparr>))"
proof -
  have g: "f64_gt (attenuate (trigger_confidence (failed_check ''EF-001'')) (efw_TwoFactorFailure (cfg_EdgeFactors Default))) (lit (82 / 100))"
    using lit_82 by (simp add: attenuate_def Default_def)
  have h: "cfg_EdgeFactorModel Default = noEdgeFactorModel" "cfg_EdgeFactorsCustom Default = Map.empty"
    "cr_CheckID (failed_check c) = c" "\<not> cr_Passed (failed_check c)" for c
    by (simp_all add: Default_def failed_check_def)
  note t = cascade_depends_on_order [OF h(1,2,3,3,4,4) g, of "[]" r, unfolded Let_def]
  have "f64_lt x y \<Longrightarrow> x \<noteq> y" for x y by (cases x; cases y) (auto simp: f64_lt_def)
  from this [OF conjunct2 [OF t]] conjunct1 [OF t]
  have "ef_TwoFactorFailure (ar_EdgeFactors (evaluateEdgeFactorChain [] Default (r\<lparr>ar_Checks := [failed_check ''EF-001'', failed_check ''EF-002'']\<rparr>))) \<noteq>
    ef_TwoFactorFailure (ar_EdgeFactors (evaluateEdgeFactorChain [] Default (r\<lparr>ar_Checks := [failed_check ''EF-002'', failed_check ''EF-001'']\<rparr>)))"
    by (simp only: not_False_eq_True)
  then show ?thesis by (intro exI) (erule contrapos_nn, erule arg_cong)
qed

section \<open>What a recomputation reads\<close>

lemma zero_sums:
  assumes "\<forall>dn v. scores dn = Some v \<longrightarrow> v = f64_0" "\<forall>dn w. ws dn = Some w \<longrightarrow> is_fin w \<and> f64_le f64_0 w"
    and "f64_le f64_0 t"
  shows "\<exists>t'. foldl (\<lambda>(s, t) dn.
       case ws dn of
         None \<Rightarrow> (s, t)
       | Some w \<Rightarrow> if \<not> dyn_Has scores dn then (s, t) else (f64_add s (f64_mul (dyn_Get scores dn) w), f64_add t w))
       (f64_0, t) order = (f64_0, t') \<and> f64_le f64_0 t'"
  using assms(3)
proof (induction order arbitrary: t)
  case (Cons dn order)
  show ?case
  proof (cases "ws dn = None \<or> \<not> dyn_Has scores dn")
    case True
    then have "(case ws dn of None \<Rightarrow> (f64_0, t)
       | Some w \<Rightarrow> if \<not> dyn_Has scores dn then (f64_0, t) else (f64_add f64_0 (f64_mul (dyn_Get scores dn) w), f64_add t w)) = (f64_0, t)"
      by (auto split: option.split)
    then show ?thesis using Cons by simp
  next
    case False
    then obtain w v where w: "ws dn = Some w" "scores dn = Some v" by (auto simp: dyn_Has_def)
    have "v = f64_0" using assms(1) w(2) by blast
    moreover have "is_fin w \<and> f64_le f64_0 w" using assms(2) w(1) by blast
    then obtain q where q: "w = Fin q" "0 \<le> q" by (cases w) auto
    ultimately have "f64_add f64_0 (f64_mul (dyn_Get scores dn) w) = f64_0" using w by (simp add: dyn_Get_def)
    moreover have "f64_le f64_0 (f64_add t w)" using Cons.prems q by (auto intro!: f64_add_nonneg)
    ultimately show ?thesis using Cons.IH [of "f64_add t w"] w by (simp add: dyn_Has_def)
  qed
qed simp

lemma zero_weighted_sum:
  assumes "\<forall>dn v. scores dn = Some v \<longrightarrow> v = f64_0" and "ws \<noteq> Map.empty"
    and "\<forall>dn w. ws dn = Some w \<longrightarrow> is_fin w \<and> f64_le f64_0 w"
  shows "engine_ComputeWeightedSum order regorder reg ws scores = f64_0"
proof -
  obtain t where t: "dyn_weighted_sums order ws scores = (f64_0, t)" "f64_le f64_0 t"
    using zero_sums [OF assms(1,3), of f64_0 order] by (auto simp: dyn_weighted_sums_def)
  have "f64_eq t f64_0 \<or> f64_div f64_0 t = f64_0" using t(2) by (cases t) auto
  then show ?thesis using t assms(2) by (auto simp: engine_ComputeWeightedSum_def effective_weights_def)
qed

lemma fill_zero: "FillFromLegacy no_scores Map.empty dn = Some v \<Longrightarrow> v = f64_0"
  by (auto simp: FillFromLegacy_def no_scores_def Let_def split: if_splits)

text \<open>Without a plugin engine, recomputing a result that has no domain scores yet, as \<open>EvaluateFromResults\<close> of the
  assessor module does with the checks an agent sent, gives a score that does not depend on those checks at all.\<close>

theorem recompute_ignores_checks:
  assumes "ar_DomainScores r = no_scores" and "ActiveFactors (ar_EdgeFactors r) = []"
    and "ws \<noteq> Map.empty" "\<forall>dn w. ws dn = Some w \<longrightarrow> is_fin w \<and> f64_le f64_0 w"
  shows "ar_FinalScore (RecomputeFinalScore le cf ws None r) =
    layer_mix f64_0 (at_least_6_10 (if f64_eq (ar_SPCScore r) f64_0 then f64_1 else ar_SPCScore r))
      (at_least_6_10 (if f64_eq (ar_ThreatCoeff r) f64_0 then f64_1 else ar_ThreatCoeff r))"
proof -
  have z: "engine_ComputeWeightedSum order regorder reg ws (FillFromLegacy no_scores Map.empty) = f64_0" for order regorder reg
    by (rule zero_weighted_sum [OF _ assms(3,4)]) (use fill_zero in blast)
  have d: "f64_div f64_0 (lit 100) = f64_0" by (simp add: lit_100)
  show ?thesis
    by (simp add: RecomputeFinalScore_def tryPluginScore_def resolveChecksConfidence_def computeLegacyDomainBayes_def
        fillLegacyPosterior_def computeDynamicFinalScore_def assms(1,2) z d Let_def split: prod.split)
qed

definition no_edge_factors :: EdgeFactors where
  "no_edge_factors =
     \<lparr>ef_TwoFactorFailure = f64_0, ef_SYNCookieDisabled = f64_0, ef_SELinuxDisabled = f64_0, ef_AppArmorDisabled = f64_0,
      ef_NoSIEM = f64_0, ef_NoIDS = f64_0, ef_Model = [], ef_ParamsHash = []\<rparr>"

text \<open>A result with nothing but the checks, as the Go literal leaves it.\<close>

definition fresh_result :: "string \<Rightarrow> string \<Rightarrow> time \<Rightarrow> f64 \<Rightarrow> CheckResult list \<Rightarrow> AssessmentResult" where
  "fresh_result host name now threshold checks =
     \<lparr>ar_HostID = host, ar_Hostname = name, ar_Timestamp = now, ar_FinalScore = f64_0, ar_Acceptable = False,
      ar_Threshold = threshold, ar_DomainScores = no_scores, ar_DomainWeightShift = Map.empty, ar_EdgeFactors = no_edge_factors,
      ar_ThreatCoeff = f64_0, ar_SPCScore = f64_0, ar_ATTACKCoverage = [], ar_ATTACKKillChain = None, ar_ATTACKAPTMatches = [],
      ar_ATTACKPredictedRisk = None, ar_ATTACKFailedTechs = [], ar_Checks = checks, ar_FinalSigma = f64_0,
      ar_ScoreLower95 = f64_0, ar_ScoreUpper95 = f64_0, ar_EvidenceConfidence = f64_0\<rparr>"

lemma ActiveFactors_fresh: "ActiveFactors no_edge_factors = []"
  by (simp add: ActiveFactors_def no_edge_factors_def)

definition core_weights :: dyn_weights where
  "core_weights = set_config_weights Default Map.empty"

lemma at_least_1 [simp]: "at_least_6_10 f64_1 = f64_1"
proof -
  obtain x where "lit (6 / 10) = Fin x" "x \<le> 1" using btwD [OF lit_6_10_unit] by blast
  then show ?thesis by (simp add: at_least_6_10_def)
qed

lemma layer_mix_ends: "layer_mix f64_0 f64_1 f64_1 = lit 50"
  using rha_of_int [of 5000] by (simp add: layer_mix_def Let_def)

text \<open>A host that fails every check it reports and one that passes them all both get 50.\<close>

lemma recompute_ignores_checks_witness:
  "\<forall>le host name now checks.
     ar_FinalScore (RecomputeFinalScore le Default core_weights None (fresh_result host name now (lit 80) checks)) = lit 50"
proof (intro allI)
  fix le host name now checks
  have w: "\<forall>dn w. core_weights dn = Some w \<longrightarrow> is_fin w \<and> f64_le f64_0 w" "core_weights \<noteq> Map.empty"
    by (auto simp: core_weights_def set_config_weights_def Default_def dw_Set_def Let_def split: if_splits)
  show "ar_FinalScore (RecomputeFinalScore le Default core_weights None (fresh_result host name now (lit 80) checks)) = lit 50"
    using recompute_ignores_checks [of "fresh_result host name now (lit 80) checks" core_weights le Default]
    by (simp add: fresh_result_def ActiveFactors_fresh w layer_mix_ends)
qed

lemma edge_factors_order_free_witness:
  "\<forall>listing r.
     ar_EdgeFactors (evaluateEdgeFactorChain listing Default (r\<lparr>ar_Checks := [failed_check ''RS-005'', failed_check ''EF-001'']\<rparr>)) =
     ar_EdgeFactors (evaluateEdgeFactorChain listing Default (r\<lparr>ar_Checks := [failed_check ''EF-001'', failed_check ''RS-005'']\<rparr>))"
proof (intro allI, rule edge_factors_order_free)
  fix r
  have cf: "cfg_EdgeFactorModel Default = noEdgeFactorModel" by (simp add: Default_def)
  have ov: "legacyTriggerOverridesByCheck Default check = []" for check using no_overrides [of Default check] by (simp add: cf [symmetric])
  have fc: "cr_CheckID (failed_check c) = c" "\<not> cr_Passed (failed_check c)" for c by (simp_all add: failed_check_def)
  have cu: "chain_customs Default ''RS-005'' = None" by (simp add: chain_customs_def legacyDefaultCustomFactors_def Default_def)
  have w: "check_writes Default (failed_check ''RS-005'') = Map.empty"
    using cu by (simp add: cf default_triggers chain_check_def ov builtin_trigger_def default_labels Let_def fc)
  show "\<forall>c\<in>set (ar_Checks (r\<lparr>ar_Checks := [failed_check ''EF-001'', failed_check ''RS-005'']\<rparr>)). \<not> cascade_check Default c"
    by (simp add: cascade_check_def cf default_triggers default_labels failed_check_def Let_def)
  show "\<forall>c\<in>set (ar_Checks (r\<lparr>ar_Checks := [failed_check ''EF-001'', failed_check ''RS-005'']\<rparr>)).
    \<forall>c'\<in>set (ar_Checks (r\<lparr>ar_Checks := [failed_check ''EF-001'', failed_check ''RS-005'']\<rparr>)).
    \<forall>k\<in>dom (check_writes Default c) \<inter> dom (check_writes Default c'). check_writes Default c k = check_writes Default c' k"
    by (simp add: w)
qed auto

section \<open>The result and the score agree on the domains\<close>

lemma bayes_domains: "distinct (map ds_Domain (ComputeDomainScoresBayes ws cs p))"
  by (simp add: ComputeDomainScoresBayes_def active_domains_def comp_def case_prod_beta Let_def)

text \<open>The domain scores a legacy run writes into the result are the ones its final score was computed from: every
  scored domain reads the same, clamped to [0, 100], from the result and from the dynamic table.\<close>

theorem legacy_scores_agree:
  "let (r1, bayes) = computeLegacyDomainBayes le cf ws r
   in \<forall>ds\<in>set bayes. DomainScores_Get (set_scores bayes (ar_DomainScores r)) (ds_Domain ds) = clamp100 (ds_Score ds) \<and>
        dyn_Get (dyn_of_scores bayes) (ds_Domain ds) = clamp100 (ds_Score ds)"
proof -
  obtain r1 bayes where e: "computeLegacyDomainBayes le cf ws r = (r1, bayes)" by fastforce
  then have d: "distinct (map ds_Domain bayes)" by (auto simp: computeLegacyDomainBayes_def bayes_domains split: prod.splits)
  show ?thesis
    unfolding e set_scores_def dyn_of_scores_def using legacy_scores.get_put_all [OF d] dynamic_scores.get_put_all [OF d] by simp
qed

lemma legacy_scores_agree_witness:
  "\<exists>le h n t ds. ds \<in> set (snd (computeLegacyDomainBayes le Default core_weights (fresh_result h n t (lit 80) [failed_check ''EF-001'']))) \<and>
     dyn_Get (dyn_of_scores (snd (computeLegacyDomainBayes le Default core_weights (fresh_result h n t (lit 80) [failed_check ''EF-001'']))))
       (ds_Domain ds) = clamp100 (ds_Score ds)"
proof -
  let ?b = "computeLegacyDomainBayes le Default core_weights (fresh_result h n t (lit 80) [failed_check ''EF-001''])"
  have "snd ?b \<noteq> []"
    by (simp add: computeLegacyDomainBayes_def legacyCheckInputs_def fresh_result_def ComputeDomainScoresBayes_def active_domains_def
        ResolveChecks_def Let_def)
  then obtain ds where "ds \<in> set (snd ?b)" by (meson list.set_sel(1))
  then show ?thesis
    using legacy_scores_agree [of le Default core_weights "fresh_result h n t (lit 80) [failed_check ''EF-001'']"]
    by (intro exI [of _ le] exI [of _ h] exI [of _ n] exI [of _ t] exI [of _ ds]) (simp add: case_prod_beta)
qed

end
