(* ===== verification/Adapter_Core.thy ===== *)
theory Adapter_Core
  imports Legacy_Engine
begin

text \<open>
  \<open>internal/adapter\<close>: the findings of external tools, their delegation to checks, the pipeline that runs the adapters and
  the script adapter. An adapter is a record of functions; its fetch is the effect of the outside world (the bytes, or an
  error). The results of the concurrent pipeline arrive in an order the scheduler chooses.
\<close>

section \<open>Findings\<close>

abbreviation SeverityCritical :: string where "SeverityCritical \<equiv> ''critical''"
abbreviation SeverityHigh :: string where "SeverityHigh \<equiv> ''high''"
abbreviation SeverityMedium :: string where "SeverityMedium \<equiv> ''medium''"
abbreviation SeverityLow :: string where "SeverityLow \<equiv> ''low''"
abbreviation SeverityInfo :: string where "SeverityInfo \<equiv> ''info''"
abbreviation SeverityNone :: string where "SeverityNone \<equiv> ''none''"

definition ParseSeverity :: "string \<Rightarrow> string" where
  "ParseSeverity s =
     (if s = ''CRITICAL'' \<or> s = ''critical'' then SeverityCritical
      else if s = ''HIGH'' \<or> s = ''high'' then SeverityHigh
      else if s = ''MEDIUM'' \<or> s = ''medium'' then SeverityMedium
      else if s = ''LOW'' \<or> s = ''low'' then SeverityLow
      else if s = ''INFO'' \<or> s = ''info'' then SeverityInfo else SeverityNone)"

abbreviation FindingVulnerability :: string where "FindingVulnerability \<equiv> ''vulnerability''"
abbreviation FindingMisconfig :: string where "FindingMisconfig \<equiv> ''misconfiguration''"
abbreviation FindingCompliance :: string where "FindingCompliance \<equiv> ''compliance''"
abbreviation FindingAlert :: string where "FindingAlert \<equiv> ''alert''"
abbreviation FindingConfigState :: string where "FindingConfigState \<equiv> ''config_state''"

record NormalizedFinding =
  nf_ID :: string
  nf_Source :: string
  nf_ToolName :: string
  nf_FindingType :: string
  nf_Severity :: string
  nf_CheckID :: string
  nf_Domain :: string
  nf_DelegatedTo :: string
  nf_Confidence :: f64
  nf_Title :: string
  nf_Description :: string
  nf_Resource :: string
  nf_CVE :: string
  nf_Reference :: string
  nf_Passed :: bool
  nf_Detail :: string

definition severityToDelta :: "NormalizedFinding \<Rightarrow> f64" where
  "severityToDelta n =
     (if nf_Passed n then f64_0
      else if nf_Severity n = SeverityCritical then lit (- 20)
      else if nf_Severity n = SeverityHigh then lit (- 15)
      else if nf_Severity n = SeverityMedium then lit (- 10)
      else if nf_Severity n = SeverityLow then lit (- 5)
      else if nf_Severity n = SeverityInfo then lit (- 2) else f64_0)"

definition ToCheckResult :: "NormalizedFinding \<Rightarrow> CheckResult" where
  "ToCheckResult n =
     \<lparr>cr_CheckID = nf_CheckID n, cr_Domain = nf_Domain n, cr_Name = nf_Title n, cr_Passed = nf_Passed n,
      cr_Delta = severityToDelta n, cr_Detail = nf_Detail n, cr_ComplianceRef = nf_Reference n, cr_Source = nf_Source n,
      cr_Confidence = nf_Confidence n, cr_EffectiveConfidence = f64_0\<rparr>"

section \<open>Delegation\<close>

record DelegationCriterion =
  dcr_Field :: string
  dcr_Operator :: string
  dcr_Value :: string

record DelegationRule =
  dr_CheckID :: string
  dr_Domain :: string
  dr_Criteria :: "DelegationCriterion list"

definition rule_for :: "string \<Rightarrow> string \<Rightarrow> (string \<times> string \<times> string) list \<Rightarrow> DelegationRule" where
  "rule_for check dn cs =
     \<lparr>dr_CheckID = check, dr_Domain = dn, dr_Criteria = map (\<lambda>(f, op, v). \<lparr>dcr_Field = f, dcr_Operator = op, dcr_Value = v\<rparr>) cs\<rparr>"

definition delegationRules :: "(string \<times> DelegationRule list) list" where
  "delegationRules =
     [(''trivy'', [rule_for ''KS-001'' DomainKernelSecurity [(''Resource'', ''contains'', ''kernel'')],
                   rule_for ''AS-005'' DomainAttackSurface []]),
      (''nuclei'', [rule_for ''AS-006'' DomainAttackSurface [(''Severity'', ''eq'', ''critical'')],
                    rule_for ''AS-005'' DomainAttackSurface []]),
      (''lynis'', [rule_for ''OT-001'' DomainOperationTrust [(''Title'', ''contains'', ''permission'')],
                   rule_for ''KS-001'' DomainKernelSecurity [(''Title'', ''contains'', ''kernel'')],
                   rule_for ''OT-099'' DomainOperationTrust []]),
      (''openscap'', [rule_for ''OT-001'' DomainOperationTrust []]),
      (''wazuh_agent'', [rule_for ''RS-006'' DomainResilience []]),
      (''suricata'', [rule_for ''RS-006'' DomainResilience [(''Title'', ''contains'', ''alert'')],
                      rule_for ''AS-006'' DomainAttackSurface []]),
      (''falco'', [rule_for ''RS-006'' DomainResilience []]),
      (''clamav'', [rule_for ''RS-008'' DomainResilience []]),
      (''osv_scanner'', [rule_for ''KS-001'' DomainKernelSecurity [(''CVE'', ''prefix'', ''CVE'')],
                         rule_for ''RS-001'' DomainResilience []]),
      (''aide'', [rule_for ''OT-001'' DomainOperationTrust []]),
      (''nikto'', [rule_for ''AS-006'' DomainAttackSurface []]),
      (''ansible'', [rule_for ''OT-001'' DomainOperationTrust []]),
      (''netbox'', [rule_for ''BC-005'' DomainBusinessContinuity []]),
      (''snipe_it'', [rule_for ''BC-006'' DomainBusinessContinuity []]),
      (''freeipa'', [rule_for ''OT-004'' DomainOperationTrust [(''Title'', ''contains'', ''Disabled'')],
                     rule_for ''OT-099'' DomainOperationTrust []]),
      (''keycloak'', [rule_for ''OT-004'' DomainOperationTrust [(''Title'', ''contains'', ''Realms'')],
                      rule_for ''OT-099'' DomainOperationTrust []]),
      (''wazuh_siem'', [rule_for ''RS-007'' DomainResilience []]),
      (''rundeck'', [rule_for ''OT-009'' DomainOperationTrust [(''Title'', ''contains'', ''executor'')],
                     rule_for ''OT-099'' DomainOperationTrust []]),
      (''jira'', [rule_for ''OT-009'' DomainOperationTrust []]),
      (''terraform'', [rule_for ''OT-001'' DomainOperationTrust []]),
      (''opentofu'', [rule_for ''OT-001'' DomainOperationTrust []])]"

definition GetDelegationRules :: "string \<Rightarrow> DelegationRule list" where
  "GetDelegationRules aid = (case map_of delegationRules aid of None \<Rightarrow> [] | Some rs \<Rightarrow> rs)"

definition getFieldValue :: "NormalizedFinding \<Rightarrow> string \<Rightarrow> string" where
  "getFieldValue f field =
     (if field = ''Resource'' then nf_Resource f else if field = ''Title'' then nf_Title f
      else if field = ''Description'' then nf_Description f else if field = ''CVE'' then nf_CVE f
      else if field = ''Severity'' then nf_Severity f else [])"

definition matchCondition :: "(string \<Rightarrow> string) \<Rightarrow> string \<Rightarrow> string \<Rightarrow> string \<Rightarrow> bool" where
  "matchCondition lo value operator expected \<longleftrightarrow>
     (if operator = ''eq'' then equal_fold value expected
      else if operator = ''contains'' then str_contains (to_lower lo value) (to_lower lo expected)
      else if operator = ''prefix'' then prefix (to_lower lo expected) (to_lower lo value)
      else if operator = ''suffix'' then suffix (to_lower lo expected) (to_lower lo value) else True)"

definition matchCriteria :: "(string \<Rightarrow> string) \<Rightarrow> NormalizedFinding \<Rightarrow> DelegationCriterion list \<Rightarrow> bool" where
  "matchCriteria lo f cs \<longleftrightarrow> list_all (\<lambda>c. matchCondition lo (getFieldValue f (dcr_Field c)) (dcr_Operator c) (dcr_Value c)) cs"

definition deriveCheckID :: "(string \<Rightarrow> string) \<Rightarrow> string \<Rightarrow> string" where
  "deriveCheckID uni aid = take 6 (to_upper uni aid) @ ''-AUTO''"

definition deriveDomain :: "NormalizedFinding \<Rightarrow> string" where
  "deriveDomain f =
     (if nf_FindingType f = FindingVulnerability then DomainAttackSurface
      else if nf_FindingType f = FindingMisconfig \<or> nf_FindingType f = FindingCompliance \<or> nf_FindingType f = FindingConfigState
      then DomainOperationTrust
      else if nf_FindingType f = FindingAlert then DomainResilience else DomainAttackSurface)"

definition fill_target :: "string \<Rightarrow> string \<Rightarrow> NormalizedFinding \<Rightarrow> NormalizedFinding" where
  "fill_target check dn f =
     f\<lparr>nf_CheckID := (if nf_CheckID f = [] then check else nf_CheckID f), nf_Domain := (if nf_Domain f = [] then dn else nf_Domain f)\<rparr>"

definition ApplyDelegation :: "(string \<Rightarrow> string) \<Rightarrow> (string \<Rightarrow> string) \<Rightarrow> string \<Rightarrow> NormalizedFinding \<Rightarrow> NormalizedFinding" where
  "ApplyDelegation lo uni aid f =
     (if nf_Domain f \<noteq> [] \<and> nf_CheckID f \<noteq> [] then f
      else case find (\<lambda>r. matchCriteria lo f (dr_Criteria r)) (GetDelegationRules aid) of
             Some r \<Rightarrow> (fill_target (dr_CheckID r) (dr_Domain r) f)\<lparr>nf_DelegatedTo := aid\<rparr>
           | None \<Rightarrow> fill_target (deriveCheckID uni aid) (deriveDomain f) f)"

section \<open>Adapters\<close>

type_synonym adapter_config = "string \<rightharpoonup> string"

text \<open>A \<open>nil\<close> entry of a list of findings is \<open>None\<close>.\<close>

record Adapter =
  ad_ID :: string
  ad_Name :: string
  ad_Category :: string
  ad_Fetch :: "adapter_config \<Rightarrow> string + string"
  ad_Parse :: "string \<Rightarrow> string + NormalizedFinding option list"
  ad_Map :: "NormalizedFinding option list \<Rightarrow> NormalizedFinding option list"
  ad_Validate :: "NormalizedFinding option list \<Rightarrow> NormalizedFinding option list \<times> string list"
  ad_IsEnabled :: "adapter_config \<Rightarrow> bool"

definition BaseAdapter_IsEnabled :: "string \<Rightarrow> adapter_config \<Rightarrow> bool" where
  "BaseAdapter_IsEnabled aid cfg =
     (case cfg aid of None \<Rightarrow> False | Some v \<Rightarrow> v \<in> {''on'', ''true'', ''1'', ''yes''})"

definition ExecuteAdapter ::
    "(string \<Rightarrow> string) \<Rightarrow> (string \<Rightarrow> string) \<Rightarrow> Adapter \<Rightarrow> adapter_config \<Rightarrow> string + NormalizedFinding option list" where
  "ExecuteAdapter lo uni a cfg =
     (if \<not> ad_IsEnabled a cfg then Inr []
      else case ad_Fetch a cfg of
             Inl e \<Rightarrow> Inl (''adapter '' @ ad_ID a @ '' fetch: '' @ e)
           | Inr raw \<Rightarrow>
               (case ad_Parse a raw of
                  Inl e \<Rightarrow> Inl (''adapter '' @ ad_ID a @ '' parse: '' @ e)
                | Inr findings \<Rightarrow>
                    Inr (fst (ad_Validate a (ad_Map a (map (map_option (ApplyDelegation lo uni (ad_ID a))) findings))))))"

fun DefaultValidate :: "NormalizedFinding option list \<Rightarrow> NormalizedFinding option list \<times> string list" where
  "DefaultValidate [] = ([], [])"
| "DefaultValidate (None # fs) = DefaultValidate fs"
| "DefaultValidate (Some f # fs) =
     (let (valid, errs) = DefaultValidate fs
      in if nf_Title f = [] then (valid, (''finding '' @ nf_ID f @ '' has empty title'') # errs)
         else if nf_Domain f = [] then (valid, (''finding '' @ nf_ID f @ '' ('' @ nf_Title f @ '') has empty domain'') # errs)
         else (Some f # valid, errs))"

section \<open>The registry and the pipeline\<close>

definition adapter_Register :: "Adapter \<Rightarrow> (string \<rightharpoonup> Adapter) \<Rightarrow> (string \<rightharpoonup> Adapter)" where
  "adapter_Register a reg = reg(ad_ID a \<mapsto> a)"

definition adapter_List :: "(Adapter list \<Rightarrow> Adapter list) \<Rightarrow> string list \<Rightarrow> (string \<rightharpoonup> Adapter) \<Rightarrow> Adapter list" where
  "adapter_List srt order reg = srt (List.map_filter reg order)"

definition adapter_ListByCategory ::
    "(Adapter list \<Rightarrow> Adapter list) \<Rightarrow> string list \<Rightarrow> string \<Rightarrow> (string \<rightharpoonup> Adapter) \<Rightarrow> Adapter list" where
  "adapter_ListByCategory srt order cat reg = srt (filter (\<lambda>a. ad_Category a = cat) (List.map_filter reg order))"

record PipelineResult =
  pr_AdapterID :: string
  pr_AdapterName :: string
  pr_Findings :: "NormalizedFinding option list"
  pr_Error :: "string option"

definition pipeline_result :: "(string \<Rightarrow> string) \<Rightarrow> (string \<Rightarrow> string) \<Rightarrow> adapter_config \<Rightarrow> Adapter \<Rightarrow> PipelineResult" where
  "pipeline_result lo uni cfg a =
     (let (findings, err) = (case ExecuteAdapter lo uni a cfg of Inl e \<Rightarrow> ([], Some e) | Inr fs \<Rightarrow> (fs, None))
      in \<lparr>pr_AdapterID = ad_ID a, pr_AdapterName = ad_Name a, pr_Findings = findings, pr_Error = err\<rparr>)"

definition filterEnabled :: "adapter_config \<Rightarrow> Adapter list \<Rightarrow> Adapter list" where
  "filterEnabled cfg as = filter (\<lambda>a. ad_IsEnabled a cfg) as"

text \<open>The results in order of completion, which \<open>arrive\<close> chooses.\<close>

definition RunAll ::
    "(string \<Rightarrow> string) \<Rightarrow> (string \<Rightarrow> string) \<Rightarrow> (PipelineResult list \<Rightarrow> PipelineResult list) \<Rightarrow> adapter_config \<Rightarrow> Adapter list \<Rightarrow> PipelineResult list" where
  "RunAll lo uni arrive cfg as = arrive (map (pipeline_result lo uni cfg) (filterEnabled cfg as))"

definition Summary :: "PipelineResult list \<Rightarrow> string" where
  "Summary rs =
     (if rs = [] then ''[adapter] no adapters enabled or executed''
      else ''[adapter] '' @ itoa (int (length rs)) @ '' adapters executed, ''
           @ itoa (int (sum_list (map (\<lambda>r. length (pr_Findings r)) rs))) @ '' findings, ''
           @ itoa (int (length (filter (\<lambda>r. pr_Error r \<noteq> None) rs))) @ '' failures'')"

section \<open>Paths\<close>

text \<open>\<open>filepath.Clean\<close> and \<open>filepath.Abs\<close> on Unix.\<close>

definition clean_step :: "bool \<Rightarrow> string list \<Rightarrow> string \<Rightarrow> string list" where
  "clean_step rooted acc c =
     (if c = [] \<or> c = ''.'' then acc
      else if c = ''..'' then
        (if acc \<noteq> [] \<and> last acc \<noteq> ''..'' then butlast acc else if rooted then acc else acc @ [''..''])
      else acc @ [c])"

definition is_abs :: "string \<Rightarrow> bool" where
  "is_abs p \<longleftrightarrow> prefix ''/'' p"

definition filepath_Clean :: "string \<Rightarrow> string" where
  "filepath_Clean p =
     (let cs = foldl (clean_step (is_abs p)) [] (split_on (CHR ''/'') p)
      in if is_abs p then CHR ''/'' # join_with (CHR ''/'') cs else if cs = [] then ''.'' else join_with (CHR ''/'') cs)"

definition filepath_Abs :: "string \<Rightarrow> string \<Rightarrow> string" where
  "filepath_Abs cwd p = filepath_Clean (if is_abs p then p else cwd @ ''/'' @ p)"

section \<open>Script adapters and tools\<close>

record file_info =
  fi_dir :: bool
  fi_regular :: bool
  fi_symlink :: bool
  fi_perm :: nat
  fi_root_owned :: bool

definition AllowedScriptDirs :: "string list" where
  "AllowedScriptDirs = [''/opt/asscor/scripts'', ''/etc/asscor/scripts'', ''/var/lib/asscor/scripts'']"

text \<open>The world-write bit of the permissions.\<close>

definition isWorldWritable :: "file_info \<Rightarrow> bool" where
  "isWorldWritable i \<longleftrightarrow> bit (fi_perm i) 1"

definition validateScriptPath :: "string \<Rightarrow> (string \<Rightarrow> file_info option) \<Rightarrow> string \<Rightarrow> bool" where
  "validateScriptPath cwd lstat path =
     (let abs = filepath_Abs cwd (filepath_Clean path)
      in if \<not> list_ex (\<lambda>dir. prefix (filepath_Clean dir @ ''/'') abs) AllowedScriptDirs then False
         else case lstat abs of
                None \<Rightarrow> False
              | Some info \<Rightarrow>
                  if fi_dir info \<or> fi_symlink info then False else \<not> isWorldWritable info \<and> fi_root_owned info)"

record ScriptAdapter =
  sa_scriptPath :: string
  sa_adapterID :: string

definition NewScriptAdapter :: "string \<Rightarrow> (string \<Rightarrow> file_info option) \<Rightarrow> string \<Rightarrow> string \<Rightarrow> ScriptAdapter option" where
  "NewScriptAdapter cwd lstat aid path =
     (if \<not> validateScriptPath cwd lstat path then None else Some \<lparr>sa_scriptPath = path, sa_adapterID = aid\<rparr>)"

record scriptFinding =
  sfd_ID :: string
  sfd_Title :: string
  sfd_Severity :: string
  sfd_Detail :: string
  sfd_Domain :: string
  sfd_CheckID :: string
  sfd_FindingType :: string

definition scriptSeverity :: "(string \<Rightarrow> string) \<Rightarrow> string \<Rightarrow> string" where
  "scriptSeverity lo s =
     (let l = to_lower lo s
      in if l \<in> {SeverityCritical, SeverityHigh, SeverityMedium, SeverityLow, SeverityInfo} then l else SeverityMedium)"

definition scriptFindingType :: "(string \<Rightarrow> string) \<Rightarrow> string \<Rightarrow> string" where
  "scriptFindingType lo s =
     (let l = to_lower lo s
      in if l = ''vulnerability'' then FindingVulnerability else if l = ''misconfig'' then FindingMisconfig
         else if l = ''compliance'' then FindingCompliance else if l = ''alert'' then FindingAlert else FindingConfigState)"

definition script_finding :: "(string \<Rightarrow> string) \<Rightarrow> string \<Rightarrow> nat \<Rightarrow> scriptFinding \<Rightarrow> NormalizedFinding" where
  "script_finding lo aid i sf =
     \<lparr>nf_ID = (if sfd_ID sf = [] then ''SCRIPT-'' @ aid @ ''-'' @ itoa (int i + 1) else sfd_ID sf), nf_Source = aid, nf_ToolName = aid,
      nf_FindingType = scriptFindingType lo (sfd_FindingType sf), nf_Severity = scriptSeverity lo (sfd_Severity sf),
      nf_CheckID = sfd_CheckID sf, nf_Domain = sfd_Domain sf, nf_DelegatedTo = [], nf_Confidence = f64_0,
      nf_Title = (if sfd_Title sf = [] then aid @ '' finding'' else sfd_Title sf), nf_Description = [], nf_Resource = [],
      nf_CVE = [], nf_Reference = [], nf_Passed = False, nf_Detail = sfd_Detail sf\<rparr>"

text \<open>\<open>json\<close> is \<open>json.Unmarshal\<close> into a list of script findings.\<close>

definition ScriptAdapter_Parse ::
    "(string \<Rightarrow> string) \<Rightarrow> (string \<Rightarrow> scriptFinding list option) \<Rightarrow> string \<Rightarrow> string \<Rightarrow> NormalizedFinding option list" where
  "ScriptAdapter_Parse lo json aid raw =
     (case json raw of
        Some (sf # sfs) \<Rightarrow> map (\<lambda>(i, sf). Some (script_finding lo aid i sf)) (enumerate 0 (sf # sfs))
      | _ \<Rightarrow> [Some \<lparr>nf_ID = ''SCRIPT-'' @ aid, nf_Source = aid, nf_ToolName = aid, nf_FindingType = FindingConfigState,
                    nf_Severity = SeverityInfo, nf_CheckID = [], nf_Domain = [], nf_DelegatedTo = [], nf_Confidence = f64_0,
                    nf_Title = aid, nf_Description = [], nf_Resource = [], nf_CVE = [], nf_Reference = [], nf_Passed = False,
                    nf_Detail = raw\<rparr>])"

text \<open>The script as an adapter; \<open>run\<close> is the guarded execution, which fails on a timeout, an exit code or 1 MB of output.\<close>

definition script_adapter ::
    "(string \<Rightarrow> string) \<Rightarrow> (string \<Rightarrow> scriptFinding list option) \<Rightarrow> (string \<Rightarrow> string + string) \<Rightarrow> ScriptAdapter \<Rightarrow> Adapter" where
  "script_adapter lo json run sa =
     \<lparr>ad_ID = sa_adapterID sa, ad_Name = sa_adapterID sa, ad_Category = ''external_script'',
      ad_Fetch = (\<lambda>_. case run (sa_scriptPath sa) of
                        Inl e \<Rightarrow> Inl e
                      | Inr out \<Rightarrow> if length out > 1024 * 1024 then Inl (''script '' @ sa_scriptPath sa @ '' output exceeds 1MB limit'')
                                  else Inr out),
      ad_Parse = (\<lambda>raw. Inr (ScriptAdapter_Parse lo json (sa_adapterID sa) raw)),
      ad_Map = (\<lambda>fs. fs), ad_Validate = DefaultValidate, ad_IsEnabled = BaseAdapter_IsEnabled (sa_adapterID sa)\<rparr>"

text \<open>\<open>strings.SplitN(k, ".", 3)\<close>.\<close>

definition split_n3 :: "string \<Rightarrow> string \<Rightarrow> string list" where
  "split_n3 sep s = (case split_n2 sep s of [a, b] \<Rightarrow> a # split_n2 sep b | xs \<Rightarrow> xs)"

definition script_section :: "string \<Rightarrow> string option" where
  "script_section k =
     (if prefix ''adapter_script.'' k
      then (case split_n3 ''.'' k of [a, name, rest] \<Rightarrow> if rest = ''path'' then Some name else None | _ \<Rightarrow> None)
      else None)"

definition RegisterScriptAdapters ::
    "(ScriptAdapter \<Rightarrow> Adapter) \<Rightarrow> string \<Rightarrow> (string \<Rightarrow> file_info option) \<Rightarrow> string list \<Rightarrow> adapter_config \<Rightarrow>
     (string \<rightharpoonup> Adapter) \<Rightarrow> (string \<rightharpoonup> Adapter)" where
  "RegisterScriptAdapters mk cwd lstat order cfg reg =
     foldl (\<lambda>reg k.
       case (script_section k, cfg k) of
         (Some name, Some v) \<Rightarrow>
           if v = [] then reg
           else (case NewScriptAdapter cwd lstat name v of None \<Rightarrow> reg | Some sa \<Rightarrow> adapter_Register (mk sa) reg)
       | _ \<Rightarrow> reg) reg order"

definition DomainFromFindingType :: "string \<Rightarrow> string" where
  "DomainFromFindingType ft =
     (if ft = FindingVulnerability then DomainAttackSurface
      else if ft = FindingAlert then DomainResilience else DomainOperationTrust)"

definition SetCheckIDIfEmpty :: "string \<Rightarrow> NormalizedFinding \<Rightarrow> NormalizedFinding" where
  "SetCheckIDIfEmpty aid f = (if nf_CheckID f = [] then f\<lparr>nf_CheckID := ''EXT-'' @ aid\<rparr> else f)"

datatype tool_error = ToolNotAbsolute string | ToolMissing string | ToolNotRegular string | ToolWritable string | ToolNotFound string

definition verifyToolBinary :: "(string \<Rightarrow> file_info option) \<Rightarrow> string \<Rightarrow> tool_error option" where
  "verifyToolBinary stat p =
     (if \<not> is_abs p then Some (ToolNotAbsolute p)
      else case stat p of
             None \<Rightarrow> Some (ToolMissing p)
           | Some i \<Rightarrow>
               if fi_dir i \<or> \<not> fi_regular i then Some (ToolNotRegular p)
               else if bit (fi_perm i) 1 \<or> bit (fi_perm i) 4 then Some (ToolWritable p) else None)"

definition ResolveConfiguredTool :: "(string \<Rightarrow> file_info option) \<Rightarrow> adapter_config \<Rightarrow> string \<Rightarrow> tool_error + string" where
  "ResolveConfiguredTool stat cfg key =
     (let v = str_at cfg key
      in if v = [] then Inr [] else case verifyToolBinary stat v of Some e \<Rightarrow> Inl e | None \<Rightarrow> Inr v)"

definition ResolveToolBinary :: "(string \<Rightarrow> file_info option) \<Rightarrow> adapter_config \<Rightarrow> string \<Rightarrow> string \<Rightarrow> tool_error + string" where
  "ResolveToolBinary stat cfg key fallback =
     (let v = str_at cfg key
      in if v \<noteq> [] then (case verifyToolBinary stat v of Some e \<Rightarrow> Inl e | None \<Rightarrow> Inr v)
         else case find (\<lambda>p. verifyToolBinary stat p = None)
                     (map (\<lambda>dir. filepath_Clean (dir @ ''/'' @ fallback)) [''/usr/local/bin'', ''/usr/bin'', ''/bin'']) of
                Some p \<Rightarrow> Inr p
              | None \<Rightarrow> Inl (ToolNotFound fallback))"

section \<open>Every finding finds a check\<close>

lemma rules_targets: "r \<in> set (GetDelegationRules aid) \<Longrightarrow> dr_CheckID r \<noteq> [] \<and> dr_Domain r \<noteq> []"
proof -
  have "\<forall>(a, rs)\<in>set delegationRules. \<forall>r\<in>set rs. dr_CheckID r \<noteq> [] \<and> dr_Domain r \<noteq> []"
    by (simp add: delegationRules_def rule_for_def)
  then show "r \<in> set (GetDelegationRules aid) \<Longrightarrow> dr_CheckID r \<noteq> [] \<and> dr_Domain r \<noteq> []"
    by (fastforce simp: GetDelegationRules_def split: option.splits dest: map_of_SomeD)
qed

lemma delegation_targets: "nf_CheckID (ApplyDelegation lo uni aid f) \<noteq> [] \<and> nf_Domain (ApplyDelegation lo uni aid f) \<noteq> []"
  using rules_targets [of _ aid]
  by (auto simp: ApplyDelegation_def fill_target_def deriveCheckID_def deriveDomain_def find_Some_iff split: option.split)

lemma delegation_keeps: "nf_Title (ApplyDelegation lo uni aid f) = nf_Title f"
  "nf_Severity (ApplyDelegation lo uni aid f) = nf_Severity f" "nf_Passed (ApplyDelegation lo uni aid f) = nf_Passed f"
  "nf_CheckID f \<noteq> [] \<Longrightarrow> nf_CheckID (ApplyDelegation lo uni aid f) = nf_CheckID f"
  "nf_Domain f \<noteq> [] \<Longrightarrow> nf_Domain (ApplyDelegation lo uni aid f) = nf_Domain f"
  by (auto simp: ApplyDelegation_def fill_target_def split: option.split)

text \<open>The second application of \<open>ApplyDelegation\<close> to a finding changes nothing, so a list that holds the same pointer
  twice behaves as one that holds two copies.\<close>

lemma delegation_idempotent: "ApplyDelegation lo uni aid (ApplyDelegation lo uni aid f) = ApplyDelegation lo uni aid f"
  using delegation_targets [of lo uni aid f] by (subst ApplyDelegation_def) simp

lemma DefaultValidate_filter:
  "fst (DefaultValidate fs) = filter (\<lambda>o'. case o' of None \<Rightarrow> False | Some f \<Rightarrow> nf_Title f \<noteq> [] \<and> nf_Domain f \<noteq> []) fs"
  by (induction fs rule: DefaultValidate.induct) (auto simp: Let_def split: prod.split)

text \<open>An enabled adapter whose fetch and parse succeed loses no titled finding: with the default mapping and validation
  exactly the findings that are not \<open>nil\<close> and have a title come back, in order, each with a check and a domain, and with the
  check, the domain and the severity the tool had given it.\<close>

theorem titled_findings_survive:
  assumes "ad_IsEnabled a cfg" "ad_Fetch a cfg = Inr raw" "ad_Parse a raw = Inr fs"
    and "ad_Map a = (\<lambda>x. x)" "ad_Validate a = DefaultValidate"
  shows "let titled = filter (\<lambda>f. nf_Title f \<noteq> []) (List.map_filter (\<lambda>x. x) fs)
    in ExecuteAdapter lo uni a cfg = Inr (map (\<lambda>f. Some (ApplyDelegation lo uni (ad_ID a) f)) titled) \<and>
       list_all (\<lambda>f. let g = ApplyDelegation lo uni (ad_ID a) f
                     in nf_CheckID g \<noteq> [] \<and> nf_Domain g \<noteq> [] \<and> nf_Severity g = nf_Severity f \<and> nf_Title g = nf_Title f \<and>
                        (nf_CheckID f \<noteq> [] \<longrightarrow> nf_CheckID g = nf_CheckID f) \<and> (nf_Domain f \<noteq> [] \<longrightarrow> nf_Domain g = nf_Domain f)) titled"
proof -
  let ?d = "ApplyDelegation lo uni (ad_ID a)"
  have "filter (\<lambda>o'. case o' of None \<Rightarrow> False | Some f \<Rightarrow> nf_Title f \<noteq> [] \<and> nf_Domain f \<noteq> []) (map (map_option ?d) fs) =
    map (\<lambda>f. Some (?d f)) (filter (\<lambda>f. nf_Title f \<noteq> []) (List.map_filter (\<lambda>x. x) fs))"
    by (induction fs) (auto simp: List.map_filter_simps delegation_targets delegation_keeps split: option.split)
  then show ?thesis
    using assms by (simp add: ExecuteAdapter_def DefaultValidate_filter delegation_targets delegation_keeps list_all_iff Let_def)
qed

definition untitled_free_script :: "string \<Rightarrow> ScriptAdapter" where
  "untitled_free_script aid = \<lparr>sa_scriptPath = ''/opt/asscor/scripts/check.sh'', sa_adapterID = aid\<rparr>"

text \<open>A script whose output is not JSON: one finding, for a check of its own.\<close>

lemma titled_findings_survive_witness:
  "\<forall>lo uni. \<exists>f. ExecuteAdapter lo uni (script_adapter lo (\<lambda>_. None) (\<lambda>_. Inr ''ok'') (untitled_free_script ''mycheck'')) [''mycheck'' \<mapsto> ''on''] =
         Inr [Some f] \<and> nf_CheckID f = ''MYCHEC-AUTO'' \<and> nf_Domain f = DomainOperationTrust"
proof (intro allI)
  fix lo uni :: "string \<Rightarrow> string"
  let ?a = "script_adapter lo (\<lambda>_. None) (\<lambda>_. Inr ''ok'') (untitled_free_script ''mycheck'')"
  have "to_upper uni ''mycheck'' = ''MYCHECK''" by code_simp
  then show "\<exists>f. ExecuteAdapter lo uni ?a [''mycheck'' \<mapsto> ''on''] =
      Inr [Some f] \<and> nf_CheckID f = ''MYCHEC-AUTO'' \<and> nf_Domain f = DomainOperationTrust"
    using titled_findings_survive [of ?a "[''mycheck'' \<mapsto> ''on'']" "''ok''" "ScriptAdapter_Parse lo (\<lambda>_. None) ''mycheck'' ''ok''" lo uni]
    by (simp add: script_adapter_def untitled_free_script_def BaseAdapter_IsEnabled_def ScriptAdapter_Parse_def
        List.map_filter_simps ApplyDelegation_def GetDelegationRules_def delegationRules_def fill_target_def deriveCheckID_def
        deriveDomain_def Let_def)
qed

section \<open>Script paths\<close>

lemma split_on_parts: "x \<in> set (split_on c s) \<Longrightarrow> c \<notin> set x"
  by (induction s arbitrary: x) (auto split: list.splits if_splits)

lemma split_on_join: "cs \<noteq> [] \<Longrightarrow> list_all (\<lambda>s. c \<notin> set s) cs \<Longrightarrow> split_on c (join_with c cs) = cs"
  by (induction c cs rule: join_with.induct) (auto simp: split_on_noc split_on_append)

lemma clean_rooted:
  "list_all (\<lambda>s. s \<noteq> ''..'' \<and> c \<notin> set s) acc \<Longrightarrow> list_all (\<lambda>s. c \<notin> set s) cs \<Longrightarrow>
     list_all (\<lambda>s. s \<noteq> ''..'' \<and> c \<notin> set s) (foldl (clean_step True) acc cs)"
proof (induction cs arbitrary: acc)
  case (Cons x cs)
  have "list_all (\<lambda>s. s \<noteq> ''..'' \<and> c \<notin> set s) (clean_step True acc x)"
    using Cons.prems by (auto simp: clean_step_def list_all_iff dest: in_set_butlastD)
  then show ?case using Cons.IH Cons.prems(2) by simp
qed simp

lemma Clean_abs_parts:
  assumes "is_abs p"
  shows "''..'' \<notin> set (split_on (CHR ''/'') (filepath_Clean p))"
proof -
  let ?cs = "foldl (clean_step True) [] (split_on (CHR ''/'') p)"
  have ok: "list_all (\<lambda>s. s \<noteq> ''..'' \<and> CHR ''/'' \<notin> set s) ?cs"
    by (rule clean_rooted) (auto simp: list_all_iff dest: split_on_parts)
  have e: "filepath_Clean p = CHR ''/'' # join_with (CHR ''/'') ?cs" using assms by (simp add: filepath_Clean_def)
  show ?thesis
  proof (cases "?cs = []")
    case True
    then show ?thesis by (simp add: e)
  next
    case False
    then have "split_on (CHR ''/'') (join_with (CHR ''/'') ?cs) = ?cs" by (rule split_on_join) (use ok in \<open>auto simp: list_all_iff\<close>)
    then show ?thesis using ok unfolding e by (auto simp: list_all_iff)
  qed
qed

text \<open>What is checked before a script is accepted: the cleaned absolute path lies under an allowed directory, has no
  \<open>..\<close> component left, and names a file owned by root that is no directory, no symbolic link and not world-writable.\<close>

theorem script_path_confined:
  assumes "NewScriptAdapter cwd lstat aid path = Some sa" and "is_abs cwd"
  shows "let abs = filepath_Abs cwd (filepath_Clean path)
    in (\<exists>dir\<in>set AllowedScriptDirs. prefix (dir @ ''/'') abs) \<and> ''..'' \<notin> set (split_on (CHR ''/'') abs) \<and>
       (\<exists>info. lstat abs = Some info \<and> \<not> fi_dir info \<and> \<not> fi_symlink info \<and> \<not> isWorldWritable info \<and> fi_root_owned info)"
proof -
  let ?abs = "filepath_Abs cwd (filepath_Clean path)"
  have v: "validateScriptPath cwd lstat path" using assms(1) by (simp add: NewScriptAdapter_def split: if_splits)
  have "filepath_Clean dir = dir" if "dir \<in> set AllowedScriptDirs" for dir
    using that by (auto simp: AllowedScriptDirs_def filepath_Clean_def is_abs_def clean_step_def)
  then have "\<exists>dir\<in>set AllowedScriptDirs. prefix (dir @ ''/'') ?abs"
    using v by (auto simp: validateScriptPath_def Let_def list_ex_iff split: if_splits)
  moreover have "''..'' \<notin> set (split_on (CHR ''/'') ?abs)"
    unfolding filepath_Abs_def by (rule Clean_abs_parts) (use assms(2) in \<open>auto simp: is_abs_def\<close>)
  moreover have "\<exists>info. lstat ?abs = Some info \<and> \<not> fi_dir info \<and> \<not> fi_symlink info \<and> \<not> isWorldWritable info \<and> fi_root_owned info"
    using v by (auto simp: validateScriptPath_def Let_def split: if_splits option.splits)
  ultimately show ?thesis by (simp add: Let_def)
qed

definition root_script :: file_info where
  "root_script = \<lparr>fi_dir = False, fi_regular = True, fi_symlink = False, fi_perm = 493, fi_root_owned = True\<rparr>"

abbreviation detour :: string where "detour \<equiv> ''/opt/asscor/scripts/link/../check.sh''"

lemma detour_clean: "filepath_Clean detour = ''/opt/asscor/scripts/check.sh''"
  by (simp add: filepath_Clean_def is_abs_def clean_step_def)

lemma detour_abs: "filepath_Abs cwd (filepath_Clean detour) = ''/opt/asscor/scripts/check.sh''"
  unfolding filepath_Abs_def detour_clean by (simp add: filepath_Clean_def is_abs_def clean_step_def)

lemma detour_accepted:
  "NewScriptAdapter cwd [''/opt/asscor/scripts/check.sh'' \<mapsto> root_script] aid detour = Some \<lparr>sa_scriptPath = detour, sa_adapterID = aid\<rparr>"
proof -
  have d: "filepath_Clean ''/opt/asscor/scripts'' = ''/opt/asscor/scripts''"
    by (simp add: filepath_Clean_def is_abs_def clean_step_def)
  have p: "\<not> bit (493 :: nat) 1" by (simp add: bit_iff_odd)
  show ?thesis
    unfolding NewScriptAdapter_def validateScriptPath_def detour_abs
    by (simp add: AllowedScriptDirs_def d root_script_def isWorldWritable_def p)
qed

lemma script_path_confined_witness:
  "''..'' \<notin> set (split_on (CHR ''/'') (filepath_Abs ''/root'' (filepath_Clean detour)))"
  using script_path_confined [OF detour_accepted, of "''/root''"] by (simp add: is_abs_def Let_def)

text \<open>The path that was checked is not the path that is executed: the adapter keeps the path as configured. One that
  leaves an allowed directory through a symbolic link and comes back with \<open>..\<close> is cleaned to a harmless path for the check,
  while the operating system follows the link.\<close>

theorem script_runs_unchecked_path:
  "let lstat = [''/opt/asscor/scripts/check.sh'' \<mapsto> root_script]
   in \<exists>sa. NewScriptAdapter cwd lstat aid detour = Some sa \<and> lstat (sa_scriptPath sa) = None \<and>
        (\<forall>run. ad_Fetch (script_adapter lo json run sa) cfg =
           (case run detour of Inl e \<Rightarrow> Inl e
            | Inr out \<Rightarrow> if length out > 1024 * 1024 then Inl (''script '' @ detour @ '' output exceeds 1MB limit'') else Inr out))"
  unfolding Let_def by (rule exI, rule conjI, rule detour_accepted) (simp add: script_adapter_def split: sum.split)

lemma verify_None:
  "verifyToolBinary stat p = None \<longleftrightarrow>
     is_abs p \<and> (\<exists>i. stat p = Some i \<and> fi_regular i \<and> \<not> fi_dir i \<and> \<not> bit (fi_perm i) 1 \<and> \<not> bit (fi_perm i) 4)"
  by (auto simp: verifyToolBinary_def split: option.split)

text \<open>A tool is only ever run from an absolute path of a regular file that neither its group nor others can write; a
  configured path that fails this is an error and never replaced by a system directory.\<close>

theorem tool_path_safe:
  assumes "ResolveToolBinary stat cfg key fallback = Inr p"
  shows "is_abs p \<and> (\<exists>i. stat p = Some i \<and> fi_regular i \<and> \<not> fi_dir i \<and> \<not> bit (fi_perm i) 1 \<and> \<not> bit (fi_perm i) 4) \<and>
    (str_at cfg key \<noteq> [] \<longrightarrow> p = str_at cfg key)"
proof (cases "str_at cfg key = []")
  case False
  then have "p = str_at cfg key \<and> verifyToolBinary stat p = None"
    using assms by (auto simp: ResolveToolBinary_def Let_def split: option.splits)
  then show ?thesis unfolding verify_None by blast
next
  case True
  then obtain q where "find (\<lambda>p. verifyToolBinary stat p = None)
      (map (\<lambda>dir. filepath_Clean (dir @ ''/'' @ fallback)) [''/usr/local/bin'', ''/usr/bin'', ''/bin'']) = Some q" "p = q"
    using assms by (auto simp: ResolveToolBinary_def Let_def split: option.splits)
  then have "verifyToolBinary stat p = None" by (simp only: find_Some_iff) blast
  then show ?thesis using True unfolding verify_None by blast
qed

lemma tool_path_safe_witness: "\<not> bit (fi_perm root_script) 1"
proof -
  have b: "\<not> bit (493 :: nat) 1" "\<not> bit (493 :: nat) 4" by (simp_all add: bit_iff_odd)
  have "ResolveToolBinary [''/opt/trivy'' \<mapsto> root_script] [''trivy_path'' \<mapsto> ''/opt/trivy''] ''trivy_path'' ''trivy'' = Inr ''/opt/trivy''"
    by (simp add: ResolveToolBinary_def str_at_def verifyToolBinary_def is_abs_def root_script_def b)
  from tool_path_safe [OF this] show ?thesis by auto
qed

end
