(* ===== verification/Assessor.thy ===== *)
theory Assessor
  imports Adapter_Core
begin

text \<open>
  The assessor of \<open>internal/engine/assessor.go\<close> around the scoring of theory \<open>Legacy_Engine\<close>: construction and hot reload of
  the weights, the run of checks and adapters, SPC and ATT&CK providers, the cache of results. A provider or plugin engine
  is an interface the source only calls; a plugin is a codatatype of its answers, the providers are records over a state of
  their own. What the environment decides (clock, host name, order of completion) is in \<open>assess_env\<close>.
\<close>

section \<open>Interfaces\<close>

codatatype plugin =
  Plugin (pl_name: string) (pl_compute: "AssessmentResult \<Rightarrow> AssessmentResult \<times> string option") (pl_reload: "Config \<Rightarrow> plugin")

record SPCCompensations =
  sp_VirtualPatch :: bool
  sp_WAFRules :: bool
  sp_IPSRules :: bool
  sp_AppWhitelist :: bool

record SPCLocalAsset =
  sla_HostID :: string
  sla_NetworkZone :: string
  sla_Role :: string
  sla_Packages :: "string list"
  sla_InstalledCPEs :: "string list"
  sla_Compensations :: SPCCompensations

record SPCCorrection =
  spc_Score :: f64
  spc_Weights :: "string \<rightharpoonup> f64"
  spc_Action :: string

record 's SPCProvider =
  spp_Enabled :: "'s \<Rightarrow> bool"
  spp_GetAsset :: "'s \<Rightarrow> string \<Rightarrow> SPCLocalAsset option"
  spp_UpsertAsset :: "SPCLocalAsset \<Rightarrow> 's \<Rightarrow> 's"
  spp_Calculate :: "'s \<Rightarrow> string \<Rightarrow> string list \<Rightarrow> SPCCorrection \<times> 's"

record ATTACKTechniqueInfo =
  ti_ID :: string
  ti_Name :: string
  ti_AsscorChecks :: "string list"

record ATTACKTacticInfo =
  ta_ID :: string
  ta_Name :: string
  ta_Techniques :: "ATTACKTechniqueInfo list"

text \<open>The result types of the provider have the fields of those of the model, so the model's records stand for both.\<close>

record ATTACKProvider =
  ap_CalculateCoverage :: "(string \<rightharpoonup> bool) \<Rightarrow> ATTACKCoverageInfo list"
  ap_AssessKillChain :: "string \<Rightarrow> (string \<rightharpoonup> bool) \<Rightarrow> ATTACKKillChainInfo"
  ap_MatchAPTGroup :: "string list \<Rightarrow> ATTACKAPTMatchInfo list"
  ap_PredictRisk :: "string \<Rightarrow> string list \<Rightarrow> int \<Rightarrow> ATTACKPredictedRiskInfo"
  ap_GetAllTactics :: "ATTACKTacticInfo list"

section \<open>The assessor\<close>

record 's Assessor =
  as_cfg :: Config
  as_weights :: dyn_weights
  as_hooks :: "AssessmentHook hook_table"
  as_plugin :: "plugin option"
  as_spc :: "('s SPCProvider \<times> 's) option"
  as_attack :: "ATTACKProvider option"
  as_cache :: "string \<rightharpoonup> AssessmentResult"

text \<open>Construction with a configuration; \<open>order\<close> and \<open>regorder\<close> are the map orders of the normalisation.\<close>

definition NewAssessor :: "string list \<Rightarrow> string list \<Rightarrow> domain_registry \<Rightarrow> Config \<Rightarrow> 's Assessor" where
  "NewAssessor order regorder reg cf =
     \<lparr>as_cfg = cf, as_weights = engine_InitializeDefaults order regorder reg (set_config_weights cf Map.empty),
      as_hooks = Map.empty, as_plugin = None, as_spc = None, as_attack = None, as_cache = Map.empty\<rparr>"

definition SetPluginEngine :: "plugin option \<Rightarrow> 's Assessor \<Rightarrow> 's Assessor" where
  "SetPluginEngine p a = a\<lparr>as_plugin := map_option (\<lambda>p. pl_reload p (as_cfg a)) p\<rparr>"

definition Assessor_ReloadWeights :: "Config option \<Rightarrow> 's Assessor \<Rightarrow> 's Assessor" where
  "Assessor_ReloadWeights cfg a =
     (case cfg of
        None \<Rightarrow> a
      | Some cf \<Rightarrow>
          a\<lparr>as_cfg := cf, as_cache := Map.empty, as_weights := set_config_weights cf (as_weights a),
            as_plugin := map_option (\<lambda>p. pl_reload p cf) (as_plugin a)\<rparr>)"

definition Assessor_RegisterHook ::
    "(AssessmentHook hookRegistration list \<Rightarrow> AssessmentHook hookRegistration list) \<Rightarrow> string \<Rightarrow> string \<Rightarrow> AssessmentHook \<Rightarrow> int \<Rightarrow>
     's Assessor \<Rightarrow> 's Assessor" where
  "Assessor_RegisterHook srt hid phase hook prio a = a\<lparr>as_hooks := HookRegistry_Register srt hid phase hook prio (as_hooks a)\<rparr>"

definition Assessor_UnregisterHook :: "string \<Rightarrow> 's Assessor \<Rightarrow> 's Assessor" where
  "Assessor_UnregisterHook hid a = a\<lparr>as_hooks := HookRegistry_Unregister hid (as_hooks a)\<rparr>"

section \<open>The environment of a run\<close>

record assess_env =
  ae_legacy :: legacy_env
  ae_now :: time
  ae_hostname :: string
  ae_items :: "CheckItem list"
  ae_ext :: check_ext
  ae_euid :: int
  ae_arrive :: "CheckResult list \<Rightarrow> CheckResult list"
  ae_adapters :: "Adapter list"
  ae_adapter_config :: adapter_config
  ae_adapter_keys :: "string list"
  ae_adapter_arrive :: "PipelineResult list \<Rightarrow> PipelineResult list"
  ae_upper :: "string \<Rightarrow> string"
  ae_sha256 :: "string \<Rightarrow> string"
  ae_float_bytes :: "f64 \<Rightarrow> string"

definition isPermDenied :: "(string \<Rightarrow> string) \<Rightarrow> string \<Rightarrow> bool" where
  "isPermDenied lo detail \<longleftrightarrow>
     (let lower = to_lower lo detail
      in list_ex (str_contains lower)
           [''permission denied'', ''permission_error'', ''operation not permitted'', ''access denied'', ''access is denied'',
            ''eacces'', ''eperm''] \<or>
         list_ex (str_contains detail)
           [utf8 [230, 157, 131, 233, 153, 144], utf8 [230, 151, 160, 230, 157, 131, 233, 153, 144],
            utf8 [230, 139, 146, 231, 187, 157, 232, 174, 191, 233, 151, 174], utf8 [232, 168, 177, 229, 143, 175]] \<or>
         str_contains lower ''open '' \<and> str_contains lower ''permission denied'')"

definition skip_denied :: "(string \<Rightarrow> string) \<Rightarrow> CheckResult \<Rightarrow> CheckResult" where
  "skip_denied lo r =
     (if \<not> cr_Passed r \<and> isPermDenied lo (cr_Detail r)
      then r\<lparr>cr_Passed := True, cr_Delta := f64_0, cr_Detail := skip_text @ '' ('' @ cr_Detail r @ '')''\<rparr> else r)"

definition runChecksConcurrently :: "assess_env \<Rightarrow> CheckItem list \<Rightarrow> AssessmentResult \<Rightarrow> AssessmentResult" where
  "runChecksConcurrently ae items r =
     r\<lparr>ar_Checks := ar_Checks r @
         map (skip_denied (le_lo (ae_legacy ae))) (ae_arrive ae (map (CheckItem_Run (le_lo (ae_legacy ae)) (ae_euid ae)) items))\<rparr>"

text \<open>The pipeline runs only if some value is \<open>on\<close>, \<open>true\<close> or \<open>1\<close>.\<close>

definition adapters_enabled :: "string list \<Rightarrow> adapter_config \<Rightarrow> bool" where
  "adapters_enabled keys cfg \<longleftrightarrow> list_ex (\<lambda>k. cfg k \<in> {Some ''on'', Some ''true'', Some ''1''}) keys"

definition runAdapterPipeline :: "assess_env \<Rightarrow> PipelineResult list" where
  "runAdapterPipeline ae =
     (if \<not> adapters_enabled (ae_adapter_keys ae) (ae_adapter_config ae) then []
      else RunAll (le_lo (ae_legacy ae)) (ae_upper ae) (ae_adapter_arrive ae) (ae_adapter_config ae) (ae_adapters ae))"

definition buildDelegatedSet :: "PipelineResult list \<Rightarrow> string list" where
  "buildDelegatedSet rs =
     concat (map (\<lambda>r.
        if pr_Error r \<noteq> None then []
        else concat (map (\<lambda>f. case f of
                       None \<Rightarrow> []
                     | Some f \<Rightarrow> if nf_DelegatedTo f \<noteq> [] then map dr_CheckID (GetDelegationRules (pr_AdapterID r)) else [])
               (pr_Findings r))) rs)"

definition adapter_failure :: "string \<Rightarrow> PipelineResult \<Rightarrow> CheckResult" where
  "adapter_failure e r =
     \<lparr>cr_CheckID = ''ADAPTER-'' @ pr_AdapterID r, cr_Domain = DomainAttackSurface, cr_Name = ''External Adapter: '' @ pr_AdapterName r,
      cr_Passed = False, cr_Delta = lit (- 5), cr_Detail = ''Adapter '' @ pr_AdapterName r @ '' execution failed: '' @ e,
      cr_ComplianceRef = [], cr_Source = [], cr_Confidence = f64_0, cr_EffectiveConfidence = f64_0\<rparr>"

definition finding_checks :: "PipelineResult \<Rightarrow> CheckResult list" where
  "finding_checks r = map ToCheckResult (List.map_filter (\<lambda>f. f) (pr_Findings r))"

definition adapter_checks :: "PipelineResult list \<Rightarrow> CheckResult list" where
  "adapter_checks rs =
     concat (map (\<lambda>r. finding_checks r @ (case pr_Error r of None \<Rightarrow> [] | Some e \<Rightarrow> [adapter_failure e r])) rs)"

definition buildEmptyResult :: "Config \<Rightarrow> AssessmentResult \<Rightarrow> AssessmentResult" where
  "buildEmptyResult cf r =
     r\<lparr>ar_Acceptable := True, ar_FinalScore := lit 100,
       ar_DomainScores :=
         no_scores\<lparr>dsc_AttackSurface := lit 100, dsc_BusinessContinuity := lit 100, dsc_OperationTrust := lit 100, dsc_Resilience := lit 100\<rparr>,
       ar_ThreatCoeff := cf_ThreatCoeff cf, ar_SPCScore := f64_1\<rparr>"

section \<open>SPC\<close>

text \<open>The last check of an identifier decides.\<close>

definition aci_passed :: "CheckResult list \<Rightarrow> string \<Rightarrow> bool" where
  "aci_passed checks cid = (case find (\<lambda>c. cr_CheckID c = cid) (rev checks) of None \<Rightarrow> False | Some c \<Rightarrow> cr_Passed c)"

definition synced_asset :: "CheckResult list \<Rightarrow> SPCLocalAsset \<Rightarrow> SPCLocalAsset" where
  "synced_asset checks asset =
     (let zone = (if aci_passed checks ''AC-001'' \<and> sla_NetworkZone asset \<noteq> ''internal'' \<and> sla_NetworkZone asset \<noteq> ''lan''
                  then ''internal'' else sla_NetworkZone asset);
          comp = sla_Compensations asset
      in asset\<lparr>sla_NetworkZone := zone,
               sla_Compensations := comp\<lparr>sp_IPSRules := sp_IPSRules comp \<or> aci_passed checks ''AC-004'',
                                         sp_AppWhitelist := sp_AppWhitelist comp \<or> aci_passed checks ''AC-005''\<rparr>\<rparr>)"

definition new_asset :: "string \<Rightarrow> SPCLocalAsset" where
  "new_asset host =
     \<lparr>sla_HostID = host, sla_NetworkZone = [], sla_Role = [], sla_Packages = [], sla_InstalledCPEs = [],
      sla_Compensations = \<lparr>sp_VirtualPatch = False, sp_WAFRules = False, sp_IPSRules = False, sp_AppWhitelist = False\<rparr>\<rparr>"

definition syncACIToSPCAsset :: "'s SPCProvider \<Rightarrow> string \<Rightarrow> CheckResult list \<Rightarrow> 's \<Rightarrow> 's" where
  "syncACIToSPCAsset sp host checks s =
     (let asset = (case spp_GetAsset sp s host of None \<Rightarrow> new_asset host | Some a \<Rightarrow> a); synced = synced_asset checks asset
      in if synced \<noteq> asset then spp_UpsertAsset sp synced s else s)"

definition package_keywords :: "string list" where
  "package_keywords =
     [''openssl'', ''nginx'', ''php'', ''apache'', ''httpd'', ''openssh'', ''ssh'', ''bind'', ''postfix'', ''dovecot'',
      ''mysql'', ''mariadb'', ''postgresql'', ''redis'', ''mongodb'', ''java'', ''tomcat'', ''node'', ''python'', ''perl'', ''ruby'',
      ''kernel'', ''linux'', ''systemd'', ''docker'', ''containerd'', ''clamav'', ''suricata'', ''fail2ban'', ''aide'', ''ossec'',
      ''rsync'', ''rclone'', ''chrony'', ''ntpd'', ''auditd'']"

definition extractPkgHints :: "string \<Rightarrow> string list \<Rightarrow> string list" where
  "extractPkgHints detail packages =
     foldl (\<lambda>ps kw. if str_contains detail kw \<and> kw \<notin> set ps then ps @ [kw] else ps) packages package_keywords"

definition collectPackageHints :: "(string \<Rightarrow> string) \<Rightarrow> CheckResult list \<Rightarrow> string list" where
  "collectPackageHints lo checks = foldl (\<lambda>ps c. extractPkgHints (to_lower lo (cr_Detail c)) ps) [] checks"

text \<open>The score, with the result and the state of the provider it leaves.\<close>

definition computeSPCScore ::
    "(string \<Rightarrow> string) \<Rightarrow> ('s SPCProvider \<times> 's) option \<Rightarrow> string \<Rightarrow> AssessmentResult \<Rightarrow> f64 \<times> AssessmentResult \<times> ('s SPCProvider \<times> 's) option" where
  "computeSPCScore lo spc host r =
     (case spc of
        None \<Rightarrow> (f64_1, r, None)
      | Some (sp, s) \<Rightarrow>
          if \<not> spp_Enabled sp s then (f64_1, r, Some (sp, s))
          else let s1 = syncACIToSPCAsset sp host (ar_Checks r) s;
                   known = (case spp_GetAsset sp s1 host of None \<Rightarrow> [] | Some a \<Rightarrow> sla_Packages a);
                   packages = (if known = [] then collectPackageHints lo (ar_Checks r) else known);
                   (corr, s2) = spp_Calculate sp s1 host packages
               in (spc_Score corr, r\<lparr>ar_DomainWeightShift := ar_DomainWeightShift r ++ spc_Weights corr\<rparr>, Some (sp, s2)))"

section \<open>ATT\&CK\<close>

definition passed_map :: "CheckResult list \<Rightarrow> (string \<rightharpoonup> bool)" where
  "passed_map checks = foldl (\<lambda>m c. m(cr_CheckID c \<mapsto> cr_Passed c)) Map.empty checks"

text \<open>A technique of a tactic of insufficient coverage counts as failed when one of its checks failed.\<close>

definition failed_techniques :: "ATTACKTacticInfo list \<Rightarrow> (string \<rightharpoonup> bool) \<Rightarrow> ATTACKCoverageInfo list \<Rightarrow> string list" where
  "failed_techniques tactics results covs =
     (let by_id = foldl (\<lambda>m t. m(ta_ID t \<mapsto> t)) Map.empty tactics
      in concat (map (\<lambda>cov.
           if f64_ge (cov_CoverageDet cov) (lit 100) then []
           else case by_id (cov_TacticID cov) of
                  None \<Rightarrow> []
                | Some t \<Rightarrow> map ti_ID (filter (\<lambda>tech. list_ex (\<lambda>c. results c = Some False) (ti_AsscorChecks tech)) (ta_Techniques t))) covs))"

definition applyATTACK :: "ATTACKProvider option \<Rightarrow> string \<Rightarrow> AssessmentResult \<Rightarrow> AssessmentResult" where
  "applyATTACK provider host r =
     (case provider of
        None \<Rightarrow> r
      | Some ap \<Rightarrow>
          let results = passed_map (ar_Checks r);
              covs = ap_CalculateCoverage ap results;
              kc = ap_AssessKillChain ap host results;
              failed = failed_techniques (ap_GetAllTactics ap) results covs;
              apts = ap_MatchAPTGroup ap failed;
              risk = ap_PredictRisk ap host failed 3
          in r\<lparr>ar_ATTACKCoverage := (if covs \<noteq> [] then covs else ar_ATTACKCoverage r),
               ar_ATTACKKillChain :=
                 (if f64_gt (kc_OverallScore kc) f64_0 \<or> kc_Stages kc \<noteq> [] then Some kc else ar_ATTACKKillChain r),
               ar_ATTACKAPTMatches := (if failed \<noteq> [] \<and> apts \<noteq> [] then apts else ar_ATTACKAPTMatches r),
               ar_ATTACKPredictedRisk :=
                 (if failed \<noteq> [] \<and> (f64_gt (prk_MaxRiskScore risk) f64_0 \<or> prk_PredictedPaths risk > 0) then Some risk
                  else ar_ATTACKPredictedRisk r),
               ar_ATTACKFailedTechs := failed\<rparr>)"

section \<open>Assessments\<close>

definition at_phase :: "'s Assessor \<Rightarrow> string \<Rightarrow> AssessmentResult \<Rightarrow> AssessmentResult" where
  "at_phase a phase r = fst (HookRegistry_Execute (as_hooks a) phase r)"

text \<open>From the scoring on, both entry points agree.\<close>

definition score_and_report :: "assess_env \<Rightarrow> 's Assessor \<Rightarrow> string \<Rightarrow> AssessmentResult \<Rightarrow> AssessmentResult" where
  "score_and_report ae a host r =
     at_phase a ''post_report'' (at_phase a ''pre_report'' (at_phase a ''post_score''
       (applyATTACK (as_attack a) host
         (score_result (ae_legacy ae) (as_cfg a) (as_weights a) (map_option pl_compute (as_plugin a)) (at_phase a ''pre_score'' r)))))"

definition Assess :: "assess_env \<Rightarrow> 's Assessor \<Rightarrow> string \<Rightarrow> string \<Rightarrow> AssessmentResult \<times> 's Assessor" where
  "Assess ae a hostID hostname =
     (let host = (if hostID = [] then ae_hostname ae else hostID); name = (if hostname = [] then ae_hostname ae else hostname);
          r = at_phase a ''pre_check'' (fresh_result host name (ae_now ae) (cf_Threshold (as_cfg a)) []);
          prs = runAdapterPipeline ae;
          r = r\<lparr>ar_Checks := ar_Checks r @ adapter_checks prs\<rparr>
      in if ae_items ae = [] \<and> ar_Checks r = [] then (buildEmptyResult (as_cfg a) r, a)
         else let items = SortChecksByPriority (ae_ext ae)
                    (filter (\<lambda>i. ci_ID i \<notin> set (buildDelegatedSet prs) \<and> ShouldActivateCheck (ae_ext ae) i r) (ae_items ae));
                  r = at_phase a ''post_check'' (runChecksConcurrently ae items r);
                  (_, r, spc) = computeSPCScore (le_lo (ae_legacy ae)) (as_spc a) host r
              in (score_and_report ae a host r, a\<lparr>as_spc := spc\<rparr>))"

definition check_bytes :: "assess_env \<Rightarrow> CheckResult \<Rightarrow> string" where
  "check_bytes ae r =
     cr_CheckID r @ (if cr_Passed r then ''1'' else ''0'') @ ae_float_bytes ae (cr_Delta r) @ ae_float_bytes ae (cr_Confidence r) @ cr_Source r"

definition hashCheckResults :: "assess_env \<Rightarrow> CheckResult list \<Rightarrow> string" where
  "hashCheckResults ae rs = take 16 (hex_encode (ae_sha256 ae (concat (map (check_bytes ae) rs))))"

definition cache_key :: "assess_env \<Rightarrow> string \<Rightarrow> CheckResult list \<Rightarrow> string" where
  "cache_key ae host rs = host @ ''_'' @ itoa (int (length rs)) @ ''_'' @ hashCheckResults ae rs"

definition AssessFromResults :: "assess_env \<Rightarrow> 's Assessor \<Rightarrow> string \<Rightarrow> string \<Rightarrow> CheckResult list \<Rightarrow> AssessmentResult \<times> 's Assessor" where
  "AssessFromResults ae a host name checks =
     (let key = cache_key ae host checks; hit = (case as_cache a key of
                  Some c \<Rightarrow> if time_sub (ae_now ae) (ar_Timestamp c) < 5 * minute then Some c else None
                | None \<Rightarrow> None)
      in case hit of
           Some c \<Rightarrow> (c, a)
         | None \<Rightarrow>
             let a = a\<lparr>as_cache := (as_cache a)(key := None)\<rparr>;
                 r = at_phase a ''pre_check'' (fresh_result host name (ae_now ae) (cf_Threshold (as_cfg a)) checks);
                 r = r\<lparr>ar_Checks := ar_Checks r @ concat (map finding_checks (runAdapterPipeline ae))\<rparr>;
                 r = at_phase a ''post_check'' r
             in if ar_Checks r = [] then (buildEmptyResult (as_cfg a) r, a)
                else let (score, r, spc) = computeSPCScore (le_lo (ae_legacy ae)) (as_spc a) host r;
                         r = score_and_report ae a host (r\<lparr>ar_SPCScore := score\<rparr>)
                     in (r, a\<lparr>as_spc := spc, as_cache := (as_cache a)(key \<mapsto> r)\<rparr>))"

section \<open>What the two entry points make of a provider's score\<close>

lemma no_hooks: "as_hooks a = Map.empty \<Longrightarrow> at_phase a phase r = r"
  by (simp add: at_phase_def HookRegistry_Execute_def hooks_at_def)

lemma bayes_keeps:
  "ar_SPCScore (fst (computeLegacyDomainBayes le cf ws r)) = ar_SPCScore r"
  "ar_Timestamp (fst (computeLegacyDomainBayes le cf ws r)) = ar_Timestamp r"
  "ar_Threshold (fst (computeLegacyDomainBayes le cf ws r)) = ar_Threshold r"
  by (simp_all add: computeLegacyDomainBayes_def split: prod.split)

lemma legacy_keeps:
  "ar_SPCScore (runLegacyScoring le cf ws r) = (if f64_eq (ar_SPCScore r) f64_0 then f64_1 else ar_SPCScore r)"
  "ar_Timestamp (runLegacyScoring le cf ws r) = ar_Timestamp r"
  "ar_Threshold (runLegacyScoring le cf ws r) = ar_Threshold r"
  using bayes_keeps [of le cf ws "resolveChecksConfidence le cf r"]
  by (simp_all add: runLegacyScoring_def fillLegacyPosterior_def ensureDefaults_def evaluateEdgeFactorChain_def
      resolveChecksConfidence_def case_prod_beta Let_def)

lemma attack_keeps:
  "ar_SPCScore (applyATTACK p host r) = ar_SPCScore r" "ar_Timestamp (applyATTACK p host r) = ar_Timestamp r"
  "ar_Threshold (applyATTACK p host r) = ar_Threshold r"
  by (simp_all add: applyATTACK_def Let_def split: option.split)

lemma report_keeps:
  assumes "as_hooks a = Map.empty" "as_plugin a = None"
  shows "ar_SPCScore (score_and_report ae a host r) = (if f64_eq (ar_SPCScore r) f64_0 then f64_1 else ar_SPCScore r)"
    "ar_Timestamp (score_and_report ae a host r) = ar_Timestamp r"
    "ar_Threshold (score_and_report ae a host r) = ar_Threshold r"
  by (simp_all add: score_and_report_def no_hooks [OF assms(1)] attack_keeps score_result_def tryPluginScore_def assms(2) legacy_keeps)

lemma spc_keeps:
  "computeSPCScore lo spc host r = (score, r1, spc1) \<Longrightarrow>
     ar_SPCScore r1 = ar_SPCScore r \<and> ar_Timestamp r1 = ar_Timestamp r \<and> ar_Threshold r1 = ar_Threshold r"
  by (auto simp: computeSPCScore_def case_prod_beta Let_def split: option.splits if_splits)

lemma fresh_fields:
  "ar_SPCScore (fresh_result h n t th cs) = f64_0" "ar_Timestamp (fresh_result h n t th cs) = t"
  "ar_Threshold (fresh_result h n t th cs) = th" "ar_Checks (fresh_result h n t th cs) = cs"
  by (simp_all add: fresh_result_def)

lemma f64_0_eq: "f64_eq f64_0 f64_0"
  by simp

text \<open>A live assessment calculates the SPC correction and drops it: without hooks or a plugin engine the result carries the
  neutral SPC score 1, whatever the provider answers.\<close>

theorem live_run_drops_spc_score:
  assumes "as_hooks a = Map.empty" "as_plugin a = None"
  shows "ar_SPCScore (fst (Assess ae a hostID hostname)) = f64_1"
proof -
  have 1: "ar_SPCScore (runChecksConcurrently ae items r) = ar_SPCScore r" for items r by (simp add: runChecksConcurrently_def)
  show ?thesis
    by (auto simp: Assess_def no_hooks [OF assms(1)] report_keeps [OF assms] buildEmptyResult_def fresh_fields 1 f64_0_eq Let_def
        dest: spc_keeps split: prod.split)
qed

definition half_provider :: "unit SPCProvider" where
  "half_provider =
     \<lparr>spp_Enabled = (\<lambda>_. True), spp_GetAsset = (\<lambda>_ _. None), spp_UpsertAsset = (\<lambda>_ s. s),
      spp_Calculate = (\<lambda>s _ _. (\<lparr>spc_Score = lit (1 / 2), spc_Weights = Map.empty, spc_Action = ''isolate''\<rparr>, s))\<rparr>"

lemma live_run_drops_spc_score_witness:
  "\<forall>ae. ar_SPCScore (fst (Assess ae (NewAssessor [] [] Map.empty Default\<lparr>as_spc := Some (half_provider, ())\<rparr>) ''h'' ''n'')) = f64_1"
  by (intro allI, rule live_run_drops_spc_score) (simp_all add: NewAssessor_def)

section \<open>The cache\<close>

lemma check_bytes_domain: "check_bytes ae (c\<lparr>cr_Domain := d\<rparr>) = check_bytes ae c"
  by (simp add: check_bytes_def)

lemma cache_key_domain: "cache_key ae host (map (\<lambda>c. c\<lparr>cr_Domain := d\<rparr>) cs) = cache_key ae host cs"
  by (simp add: cache_key_def hashCheckResults_def comp_def check_bytes_domain)

lemma stored_result:
  assumes "as_cache a (cache_key ae host cs) = None" "AssessFromResults ae a host name cs = (r, a1)" "cs \<noteq> []"
    and "as_hooks a = Map.empty"
  shows "as_cache a1 (cache_key ae host cs) = Some r"
  using assms(1-3)
  by (auto simp: AssessFromResults_def no_hooks [of "_\<lparr>as_cache := _\<rparr>"] assms(4) fresh_fields Let_def split: prod.splits)

lemma results_timestamp:
  assumes "as_cache a (cache_key ae host cs) = None" "as_hooks a = Map.empty" "as_plugin a = None"
  shows "ar_Timestamp (fst (AssessFromResults ae a host name cs)) = ae_now ae"
    and "ar_Threshold (fst (AssessFromResults ae a host name cs)) = cf_Threshold (as_cfg a)"
  by (auto simp: AssessFromResults_def no_hooks report_keeps assms fresh_fields buildEmptyResult_def Let_def
      dest: spc_keeps split: prod.split)

text \<open>The key of the cache leaves the domain of a check out: results that differ from a batch scored a moment ago only in
  their domains are answered with the scores of that batch.\<close>

theorem relabelled_checks_answered_from_cache:
  assumes "as_hooks a = Map.empty" "as_plugin a = None" "as_cache a (cache_key ae host cs) = None" "cs \<noteq> []"
  shows "let (r, a1) = AssessFromResults ae a host name cs
         in AssessFromResults ae a1 host name (map (\<lambda>c. c\<lparr>cr_Domain := d\<rparr>) cs) = (r, a1)"
proof -
  obtain r a1 where e: "AssessFromResults ae a host name cs = (r, a1)" by fastforce
  have t: "ar_Timestamp r = ae_now ae" using results_timestamp(1) [OF assms(3,1,2), of name] e by simp
  have "AssessFromResults ae a1 host name (map (\<lambda>c. c\<lparr>cr_Domain := d\<rparr>) cs) = (r, a1)"
    by (simp add: AssessFromResults_def cache_key_domain stored_result [OF assms(3) e assms(4,1)] t time_sub_def minute_def second_def max_int64_def min_int64_def)
  then show ?thesis by (simp add: e)
qed

lemma relabelled_checks_answered_from_cache_witness:
  "\<forall>ae. let (r, a1) = AssessFromResults ae (NewAssessor [] [] Map.empty Default :: unit Assessor) ''h'' ''n'' [failed_check ''EF-001'']
   in AssessFromResults ae a1 ''h'' ''n'' [(failed_check ''EF-001'')\<lparr>cr_Domain := DomainResilience\<rparr>] = (r, a1)"
proof
  fix ae
  show "let (r, a1) = AssessFromResults ae (NewAssessor [] [] Map.empty Default :: unit Assessor) ''h'' ''n'' [failed_check ''EF-001'']
    in AssessFromResults ae a1 ''h'' ''n'' [(failed_check ''EF-001'')\<lparr>cr_Domain := DomainResilience\<rparr>] = (r, a1)"
    using relabelled_checks_answered_from_cache
      [of "NewAssessor [] [] Map.empty Default :: unit Assessor" ae "''h''" "[failed_check ''EF-001'']" "''n''" DomainResilience]
    by (simp add: NewAssessor_def)
qed



section \<open>Adapters and the built-in checks they replace\<close>

text \<open>One delegated finding removes the check of every rule of its adapter from the run, of the rules it did not match as
  well.\<close>

theorem delegated_set_exact:
  "set (buildDelegatedSet rs) =
     {cid. \<exists>r f. r \<in> set rs \<and> pr_Error r = None \<and> Some f \<in> set (pr_Findings r) \<and> nf_DelegatedTo f \<noteq> [] \<and>
           cid \<in> dr_CheckID ` set (GetDelegationRules (pr_AdapterID r))}"
  by (auto simp: buildDelegatedSet_def split: option.splits if_splits)

text \<open>The value \<open>yes\<close> enables an adapter by its own test, and the assessor does not run it.\<close>

theorem yes_adapter_never_runs:
  "BaseAdapter_IsEnabled aid [aid \<mapsto> ''yes''] \<and> runAdapterPipeline (ae\<lparr>ae_adapter_config := [aid \<mapsto> ''yes'']\<rparr>) = []"
  by (simp add: BaseAdapter_IsEnabled_def runAdapterPipeline_def adapters_enabled_def list_ex_iff)

end
