(* ===== verification/Attck_Core.thy ===== *)
theory Attck_Core
  imports Assessor
begin

text \<open>
  The core of \<open>internal/attck/attck.go\<close>: the matrix of tactics and techniques with the checks mapped to them, coverage,
  kill chain, similarity to APT groups, predicted risk, the history of a host, the updates of the tables, the provider the
  assessor is given, and what the pipeline on the bus does with a finished assessment.
\<close>

section \<open>Data\<close>

record ATTACKTechnique =
  tq_ID :: string
  tq_Name :: string
  tq_SubTechniques :: "string list"
  tq_AsscorChecks :: "string list"
  tq_Detected :: bool
  tq_Prevented :: bool
  tq_Weight :: f64

record ATTACKTactic =
  tac_ID :: string
  tac_Name :: string
  tac_Description :: string
  tac_Techniques :: "ATTACKTechnique list"
  tac_Domain :: string
  tac_CoverageDet :: f64
  tac_CoveragePrev :: f64
  tac_CoverageComp :: f64
  tac_RiskLevel :: string

record ATTACKCoverage =
  tc_TacticID :: string
  tc_TacticName :: string
  tc_TotalTechniques :: int
  tc_CoveredDet :: int
  tc_CoveredPrev :: int
  tc_CoverageDet :: f64
  tc_CoveragePrev :: f64
  tc_CoverageComp :: f64
  tc_RiskLevel :: string
  tc_BlindSpots :: "string list"

record APTGroupProfile =
  agp_GroupID :: string
  agp_Name :: string
  agp_Aliases :: "string list"
  agp_Description :: string
  agp_PrimaryTargets :: "string list"
  agp_Techniques :: "string \<rightharpoonup> f64"
  agp_PreferredCVETypes :: "string list"
  agp_MISPGalaxyID :: string

record APTMatchResult =
  am_GroupID :: string
  am_GroupName :: string
  am_Similarity :: f64
  am_OverlapTech :: "string list"
  am_Confidence :: string
  am_MatchCount :: int

type_synonym TransitionMatrix = "string \<rightharpoonup> (string \<rightharpoonup> f64)"

record PredictedPath =
  pp_Path :: "string list"
  pp_Probability :: f64
  pp_EndTech :: string
  pp_Risk :: f64

record PredictiveRisk =
  pk_HostID :: string
  pk_CurrentTech :: "string list"
  pk_PredictedPaths :: "PredictedPath list"
  pk_MaxRiskScore :: f64
  pk_EnhancedThreat :: f64
  pk_Recommendations :: "string list"
  pk_Timestamp :: time

record KillChainStage =
  ks_Name :: string
  ks_Tactics :: "string list"
  ks_Score :: f64
  ks_Status :: string
  ks_ChecksPassed :: int
  ks_ChecksTotal :: int

record KillChainAssessment =
  ka_HostID :: string
  ka_Stages :: "KillChainStage list"
  ka_OverallScore :: f64
  ka_WeakestStage :: string
  ka_AssessmentTime :: time

section \<open>The default matrix\<close>

definition buildTechniques :: "string list \<Rightarrow> (string \<rightharpoonup> string list) \<Rightarrow> ATTACKTechnique list" where
  "buildTechniques ids checks =
     map (\<lambda>tid. let cs = (case checks tid of None \<Rightarrow> [] | Some cs \<Rightarrow> cs)
                 in \<lparr>tq_ID = tid, tq_Name = ''Technique '' @ tid, tq_SubTechniques = [], tq_AsscorChecks = cs,
                     tq_Detected = cs \<noteq> [], tq_Prevented = cs \<noteq> [], tq_Weight = f64_1\<rparr>) ids"

definition default_tactic :: "string \<Rightarrow> string \<Rightarrow> string \<Rightarrow> string \<Rightarrow> string list \<Rightarrow> (string \<times> string list) list \<Rightarrow> ATTACKTactic" where
  "default_tactic tid name dn desc ids checks =
     \<lparr>tac_ID = tid, tac_Name = name, tac_Description = desc, tac_Techniques = buildTechniques ids (map_of checks),
      tac_Domain = dn, tac_CoverageDet = f64_0, tac_CoveragePrev = f64_0, tac_CoverageComp = f64_0, tac_RiskLevel = []\<rparr>"

definition tactic_TA0043 :: ATTACKTactic where
  "tactic_TA0043 =
     default_tactic ''TA0043'' ''Reconnaissance'' ''attack_surface''
       ''The adversary is trying to gather information they can use to plan future operations.''
       [''T1595'', ''T1592'', ''T1589'', ''T1590'', ''T1591'', ''T1593'', ''T1594'', ''T1596'', ''T1597'', ''T1598'']
       [(''T1595'', [''AS-001'', ''AS-002'']), (''T1592'', [''AS-001''])]"

definition tactic_TA0042 :: ATTACKTactic where
  "tactic_TA0042 =
     default_tactic ''TA0042'' ''Resource Development'' ''attack_surface''
       ''The adversary is trying to establish resources they can use to support operations.''
       [''T1583'', ''T1584'', ''T1585'', ''T1586'', ''T1587'', ''T1588'', ''T1608'', ''T1609'']
       [(''T1588'', [''OT-003'']), (''T1608'', [''AS-001''])]"

definition tactic_TA0001 :: ATTACKTactic where
  "tactic_TA0001 =
     default_tactic ''TA0001'' ''Initial Access'' ''attack_surface''
       ''The adversary is trying to get into your network.''
       [''T1189'', ''T1190'', ''T1133'', ''T1200'', ''T1566'', ''T1091'', ''T1195'', ''T1199'', ''T1078'']
       [(''T1190'', [''AS-001'', ''AS-002'', ''AS-003'']), (''T1133'', [''AS-002'', ''AS-004'']), (''T1566'', [''AS-007'']),
        (''T1078'', [''OT-004'', ''OT-012'']), (''T1200'', [''RS-001'']), (''T1195'', [''OT-003'']), (''T1091'', [''AS-001''])]"

definition tactic_TA0002 :: ATTACKTactic where
  "tactic_TA0002 =
     default_tactic ''TA0002'' ''Execution'' ''operation_trust''
       ''The adversary is trying to run malicious code.''
       [''T1059'', ''T1203'', ''T1559'', ''T1569'', ''T1609'', ''T1106'', ''T1053'', ''T1204'', ''T1210'', ''T1129'',
        ''T1072'', ''T1647'', ''T1546'', ''T1055'']
       [(''T1059'', [''OT-010'', ''OT-014'']), (''T1203'', [''OT-001'']), (''T1053'', [''OT-009'']),
        (''T1055'', [''OT-005'', ''OT-006'']), (''T1546'', [''OT-008'']), (''T1210'', [''RS-001'', ''RS-010'']),
        (''T1569'', [''OT-016'']), (''T1559'', [''RS-011'']), (''T1106'', [''OT-002'']), (''T1072'', [''OT-019''])]"

definition tactic_TA0003 :: ATTACKTactic where
  "tactic_TA0003 =
     default_tactic ''TA0003'' ''Persistence'' ''operation_trust''
       ''The adversary is trying to maintain their foothold.''
       [''T1547'', ''T1543'', ''T1546'', ''T1053'', ''T1098'', ''T1505'', ''T1078'', ''T1136'', ''T1137'', ''T1525'',
        ''T1554'', ''T1037'', ''T1176'', ''T1133'', ''T1574'', ''T1656'', ''T1528'', ''T1559'', ''T1526'', ''T1648'']
       [(''T1547'', [''OT-008'']), (''T1053'', [''OT-009'']), (''T1505'', [''AS-003'']), (''T1078'', [''OT-004'', ''OT-012'']),
        (''T1136'', [''OT-004'']), (''T1546'', [''OT-002'', ''OT-005'']), (''T1574'', [''OT-022'']), (''T1543'', [''OT-008'']),
        (''T1525'', [''AS-002'', ''AS-004'']), (''T1528'', [''OT-014'']), (''T1176'', [''OT-015'']), (''T1559'', [''RS-011'']),
        (''T1037'', [''OT-018''])]"

definition tactic_TA0004 :: ATTACKTactic where
  "tactic_TA0004 =
     default_tactic ''TA0004'' ''Privilege Escalation'' ''operation_trust''
       ''The adversary is trying to gain higher-level permissions.''
       [''T1068'', ''T1548'', ''T1134'', ''T1055'', ''T1547'', ''T1543'', ''T1053'', ''T1078'', ''T1546'', ''T1574'',
        ''T1545'', ''T1611'']
       [(''T1068'', [''OT-005'', ''OT-007'']), (''T1548'', [''OT-005'']), (''T1134'', [''OT-006'']),
        (''T1055'', [''OT-005'', ''OT-006'']), (''T1547'', [''OT-008'']), (''T1053'', [''OT-009'']), (''T1078'', [''OT-004'']),
        (''T1546'', [''OT-002'']), (''T1574'', [''OT-022'']), (''T1543'', [''OT-008''])]"

definition tactic_TA0005 :: ATTACKTactic where
  "tactic_TA0005 =
     default_tactic ''TA0005'' ''Defense Evasion'' ''operation_trust''
       ''The adversary is trying to avoid being detected.''
       [''T1562'', ''T1070'', ''T1480'', ''T1027'', ''T1036'', ''T1055'', ''T1548'', ''T1574'', ''T1497'', ''T1564'',
        ''T1553'', ''T1556'', ''T1202'', ''T1531'', ''T1218'', ''T1140'', ''T1622'', ''T1222'', ''T1550'', ''T1601'']
       [(''T1562'', [''OT-001'', ''RS-006'']), (''T1070'', [''OT-001'', ''RS-008'']), (''T1027'', [''OT-010'']),
        (''T1480'', [''OT-001'']), (''T1055'', [''OT-005'', ''OT-006'']), (''T1574'', [''OT-022'']), (''T1218'', [''OT-010'']),
        (''T1548'', [''OT-005'']), (''T1036'', [''OT-010'']), (''T1531'', [''RS-008'']), (''T1550'', [''OT-019'']),
        (''T1622'', [''OT-021'']), (''T1222'', [''OT-002'', ''OT-020'']), (''T1497'', [''OT-010'']), (''T1601'', [''OT-019'']),
        (''T1202'', [''OT-020'']), (''T1564'', [''OT-001'']), (''T1553'', [''OT-015''])]"

definition tactic_TA0006 :: ATTACKTactic where
  "tactic_TA0006 =
     default_tactic ''TA0006'' ''Credential Access'' ''operation_trust''
       ''The adversary is trying to steal account names and passwords.''
       [''T1003'', ''T1110'', ''T1552'', ''T1040'', ''T1555'', ''T1539'', ''T1111'', ''T1621'', ''T1187'', ''T1557'',
        ''T1056'', ''T1528'', ''T1212'', ''T1649'', ''T1606'', ''T1558'', ''T1534'']
       [(''T1003'', [''OT-011'', ''OT-002'']), (''T1110'', [''OT-012'', ''OT-013'']), (''T1552'', [''OT-002'', ''OT-011'']),
        (''T1555'', [''OT-015'']), (''T1040'', [''OT-001'']), (''T1056'', [''OT-001'', ''OT-016'']), (''T1558'', [''OT-014'']),
        (''T1528'', [''OT-014'']), (''T1621'', [''OT-013'']), (''T1539'', [''OT-015'']), (''T1606'', [''OT-014'']),
        (''T1187'', [''OT-011''])]"

definition tactic_TA0007 :: ATTACKTactic where
  "tactic_TA0007 =
     default_tactic ''TA0007'' ''Discovery'' ''resilience''
       ''The adversary is trying to figure out your environment.''
       [''T1082'', ''T1083'', ''T1018'', ''T1049'', ''T1135'', ''T1016'', ''T1033'', ''T1007'', ''T1069'', ''T1057'',
        ''T1518'', ''T1526'', ''T1087'', ''T1120'', ''T1497'', ''T1613'', ''T1614'', ''T1615'', ''T1622'']
       [(''T1082'', [''OT-007'']), (''T1083'', [''OT-002'']), (''T1049'', [''AS-001'', ''AS-002'']), (''T1135'', [''RS-010'']),
        (''T1016'', [''AS-001'']), (''T1069'', [''OT-004'']), (''T1087'', [''OT-004'']), (''T1518'', [''OT-003''])]"

definition tactic_TA0008 :: ATTACKTactic where
  "tactic_TA0008 =
     default_tactic ''TA0008'' ''Lateral Movement'' ''resilience''
       ''The adversary is trying to move through your environment.''
       [''T1021'', ''T1210'', ''T1550'', ''T1570'', ''T1563'', ''T1021.006'', ''T1072'', ''T1091'', ''T1534'']
       [(''T1021'', [''RS-010'', ''RS-011'', ''OT-013'']), (''T1210'', [''RS-001'', ''RS-010'']),
        (''T1550'', [''OT-002'', ''RS-010'']), (''T1570'', [''RS-010'']), (''T1563'', [''RS-011'']), (''T1534'', [''RS-010'']),
        (''T1072'', [''OT-019''])]"

definition tactic_TA0009 :: ATTACKTactic where
  "tactic_TA0009 =
     default_tactic ''TA0009'' ''Collection'' ''resilience''
       ''The adversary is trying to gather data of interest to their goal.''
       [''T1005'', ''T1560'', ''T1113'', ''T1056'', ''T1074'', ''T1125'', ''T1115'', ''T1114'', ''T1185'', ''T1557'',
        ''T1213'', ''T1025'', ''T1123'', ''T1530'', ''T1039'', ''T1602'', ''T1621'']
       [(''T1005'', [''RS-009'']), (''T1560'', [''RS-009'']), (''T1056'', [''OT-001'', ''OT-016'']), (''T1113'', [''RS-006'']),
        (''T1213'', [''RS-009''])]"

definition tactic_TA0011 :: ATTACKTactic where
  "tactic_TA0011 =
     default_tactic ''TA0011'' ''Command and Control'' ''resilience''
       ''The adversary is trying to communicate with compromised systems to control them.''
       [''T1071'', ''T1573'', ''T1095'', ''T1090'', ''T1102'', ''T1105'', ''T1008'', ''T1571'', ''T1572'', ''T1568'',
        ''T1219'', ''T1205'', ''T1132'', ''T1011'', ''T1001'', ''T1540'']
       [(''T1071'', [''RS-011'', ''RS-005'']), (''T1573'', [''RS-011'']), (''T1090'', [''RS-010'']), (''T1102'', [''RS-001'']),
        (''T1219'', [''RS-001'']), (''T1008'', [''RS-010'']), (''T1568'', [''RS-010'']), (''T1205'', [''RS-006''])]"

definition tactic_TA0010 :: ATTACKTactic where
  "tactic_TA0010 =
     default_tactic ''TA0010'' ''Exfiltration'' ''resilience''
       ''The adversary is trying to steal data.''
       [''T1041'', ''T1048'', ''T1020'', ''T1567'', ''T1052'', ''T1011'', ''T1029'', ''T1530'', ''T1030'']
       [(''T1041'', [''RS-001'', ''RS-011'']), (''T1048'', [''RS-001'', ''RS-005'']), (''T1567'', [''RS-001'']),
        (''T1052'', [''RS-001'']), (''T1020'', [''RS-005'']), (''T1029'', [''RS-005''])]"

definition tactic_TA0040 :: ATTACKTactic where
  "tactic_TA0040 =
     default_tactic ''TA0040'' ''Impact'' ''business_continuity''
       ''The adversary is trying to manipulate, interrupt, or destroy your systems and data.''
       [''T1486'', ''T1485'', ''T1565'', ''T1499'', ''T1489'', ''T1498'', ''T1531'', ''T1491'', ''T1529'', ''T1490'',
        ''T1496'', ''T1482'', ''T1495'']
       [(''T1486'', [''BC-006'', ''BC-005'']), (''T1485'', [''BC-005'', ''BC-006'', ''BC-007'']), (''T1565'', [''BC-005'']),
        (''T1499'', [''AS-003'']), (''T1489'', [''BC-005'']), (''T1498'', [''AS-003'']), (''T1531'', [''BC-006'']),
        (''T1491'', [''BC-005'']), (''T1529'', [''BC-005'']), (''T1490'', [''BC-005''])]"

definition loadDefaultMatrix :: "ATTACKTactic list" where
  "loadDefaultMatrix =
     [tactic_TA0043, tactic_TA0042, tactic_TA0001, tactic_TA0002, tactic_TA0003, tactic_TA0004, tactic_TA0005, tactic_TA0006,
      tactic_TA0007, tactic_TA0008, tactic_TA0009, tactic_TA0011, tactic_TA0010, tactic_TA0040]"

section \<open>The default groups and transitions\<close>

definition galaxy :: "string \<Rightarrow> string" where
  "galaxy name = ''misp-galaxy:threat-actor='' @ [CHR 0x22] @ name @ [CHR 0x22]"

definition techniques_G0016 :: "(string \<times> f64) list" where
  "techniques_G0016 =
     [(''T1566'', lit (9 / 10)), (''T1071'', lit (8 / 10)), (''T1003'', lit (85 / 100)),
      (''T1059'', lit (7 / 10)), (''T1133'', lit (6 / 10)), (''T1055'', lit (5 / 10)),
      (''T1485'', lit (3 / 10)), (''T1070'', lit (6 / 10)), (''T1027'', lit (7 / 10)),
      (''T1505'', lit (4 / 10)), (''T1568'', lit (5 / 10))]"

definition apt_G0016 :: APTGroupProfile where
  "apt_G0016 =
     \<lparr>agp_GroupID = ''G0016'', agp_Name = ''APT29'', agp_Aliases = [''Cozy Bear'', ''The Dukes''],
      agp_Description = ''Russian threat group targeting government and diplomatic organizations.'',
      agp_PrimaryTargets = [''government'', ''diplomatic'', ''think_tank''],
      agp_Techniques = map_of techniques_G0016,
      agp_PreferredCVETypes = [''mail_client_rce'', ''auth_bypass''], agp_MISPGalaxyID = galaxy ''APT 29''\<rparr>"

definition techniques_G0096 :: "(string \<times> f64) list" where
  "techniques_G0096 =
     [(''T1190'', lit (95 / 100)), (''T1059'', lit (8 / 10)), (''T1021'', lit (7 / 10)),
      (''T1003'', lit (6 / 10)), (''T1566'', lit (8 / 10)), (''T1574'', lit (5 / 10)),
      (''T1505'', lit (6 / 10)), (''T1547'', lit (4 / 10)), (''T1078'', lit (5 / 10)),
      (''T1486'', lit (4 / 10))]"

definition apt_G0096 :: APTGroupProfile where
  "apt_G0096 =
     \<lparr>agp_GroupID = ''G0096'', agp_Name = ''APT41'', agp_Aliases = [''Wicked Spider'', ''Double Dragon''],
      agp_Description = ''Chinese threat group conducting both espionage and financially motivated operations.'',
      agp_PrimaryTargets = [''multi_industry'', ''healthcare'', ''telecom''],
      agp_Techniques = map_of techniques_G0096,
      agp_PreferredCVETypes = [''web_server_rce'', ''supply_chain''], agp_MISPGalaxyID = galaxy ''APT 41''\<rparr>"

definition techniques_G0032 :: "(string \<times> f64) list" where
  "techniques_G0032 =
     [(''T1566'', lit (9 / 10)), (''T1203'', lit (8 / 10)), (''T1486'', lit (85 / 100)),
      (''T1059'', lit (7 / 10)), (''T1210'', lit (65 / 100)), (''T1021'', lit (6 / 10)),
      (''T1055'', lit (5 / 10)), (''T1547'', lit (4 / 10)), (''T1003'', lit (45 / 100)),
      (''T1070'', lit (4 / 10)), (''T1583'', lit (3 / 10))]"

definition apt_G0032 :: APTGroupProfile where
  "apt_G0032 =
     \<lparr>agp_GroupID = ''G0032'', agp_Name = ''Lazarus Group'', agp_Aliases = [''HIDDEN COBRA'', ''Zinc''],
      agp_Description = ''North Korean threat group targeting financial institutions and cryptocurrency.'',
      agp_PrimaryTargets = [''financial'', ''cryptocurrency'', ''defense''],
      agp_Techniques = map_of techniques_G0032,
      agp_PreferredCVETypes = [''browser_exploit'', ''document_exploit''], agp_MISPGalaxyID = galaxy ''Lazarus Group''\<rparr>"

definition techniques_G0007 :: "(string \<times> f64) list" where
  "techniques_G0007 =
     [(''T1566'', lit (9 / 10)), (''T1133'', lit (85 / 100)), (''T1110'', lit (8 / 10)),
      (''T1059'', lit (7 / 10)), (''T1021'', lit (6 / 10)), (''T1547'', lit (5 / 10)),
      (''T1003'', lit (65 / 100)), (''T1070'', lit (5 / 10)), (''T1573'', lit (4 / 10)),
      (''T1090'', lit (4 / 10))]"

definition apt_G0007 :: APTGroupProfile where
  "apt_G0007 =
     \<lparr>agp_GroupID = ''G0007'', agp_Name = ''APT28'', agp_Aliases = [''Fancy Bear'', ''Sofacy''],
      agp_Description = ''Russian threat group targeting government and military organizations.'',
      agp_PrimaryTargets = [''government'', ''military'', ''media''],
      agp_Techniques = map_of techniques_G0007,
      agp_PreferredCVETypes = [''vpn_exploit'', ''auth_system''], agp_MISPGalaxyID = galaxy ''APT 28''\<rparr>"

definition techniques_G0046 :: "(string \<times> f64) list" where
  "techniques_G0046 =
     [(''T1566'', lit (9 / 10)), (''T1055'', lit (85 / 100)), (''T1210'', lit (8 / 10)),
      (''T1021'', lit (75 / 100)), (''T1059'', lit (7 / 10)), (''T1003'', lit (65 / 100)),
      (''T1053'', lit (5 / 10)), (''T1082'', lit (55 / 100)), (''T1027'', lit (45 / 100)),
      (''T1070'', lit (4 / 10))]"

definition apt_G0046 :: APTGroupProfile where
  "apt_G0046 =
     \<lparr>agp_GroupID = ''G0046'', agp_Name = ''FIN7'', agp_Aliases = [''Carbanak'', ''Anunak''],
      agp_Description = ''Financially motivated threat group targeting retail and hospitality.'',
      agp_PrimaryTargets = [''retail'', ''financial'', ''hospitality''],
      agp_Techniques = map_of techniques_G0046,
      agp_PreferredCVETypes = [''office_app_exploit'', ''rdp_exploit''], agp_MISPGalaxyID = galaxy ''FIN7''\<rparr>"

definition loadDefaultAPTProfiles :: "string \<rightharpoonup> APTGroupProfile" where
  "loadDefaultAPTProfiles =
     map_of [(''G0016'', apt_G0016), (''G0096'', apt_G0096), (''G0032'', apt_G0032), (''G0007'', apt_G0007), (''G0046'', apt_G0046)]"

definition default_transitions :: "(string \<times> (string \<times> f64) list) list" where
  "default_transitions =
    [(''T1190'', [(''T1059'', lit (7 / 10)), (''T1003'', lit (5 / 10)), (''T1082'', lit (4 / 10)), (''T1021'', lit (3 / 10))]),
     (''T1566'', [(''T1059'', lit (6 / 10)), (''T1547'', lit (4 / 10)), (''T1082'', lit (3 / 10))]),
     (''T1133'', [(''T1059'', lit (5 / 10)), (''T1547'', lit (5 / 10)), (''T1003'', lit (3 / 10))]),
     (''T1059'', [(''T1003'', lit (5 / 10)), (''T1082'', lit (6 / 10)), (''T1021'', lit (4 / 10)), (''T1547'', lit (3 / 10))]),
     (''T1547'', [(''T1082'', lit (5 / 10)), (''T1003'', lit (4 / 10)), (''T1021'', lit (3 / 10))]),
     (''T1003'', [(''T1021'', lit (5 / 10)), (''T1486'', lit (3 / 10)), (''T1041'', lit (3 / 10))]),
     (''T1082'', [(''T1003'', lit (4 / 10)), (''T1021'', lit (5 / 10)), (''T1018'', lit (3 / 10))]),
     (''T1021'', [(''T1003'', lit (3 / 10)), (''T1486'', lit (3 / 10)), (''T1041'', lit (4 / 10))]),
     (''T1210'', [(''T1059'', lit (5 / 10)), (''T1021'', lit (4 / 10)), (''T1082'', lit (3 / 10))]),
     (''T1203'', [(''T1059'', lit (7 / 10)), (''T1547'', lit (3 / 10))]),
     (''T1078'', [(''T1082'', lit (6 / 10)), (''T1003'', lit (4 / 10)), (''T1021'', lit (3 / 10))]),
     (''T1110'', [(''T1078'', lit (6 / 10)), (''T1082'', lit (3 / 10))]),
     (''T1486'', [(''T1485'', lit (4 / 10)), (''T1491'', lit (3 / 10))]),
     (''T1041'', [(''T1560'', lit (5 / 10)), (''T1486'', lit (2 / 10))]),
     (''T1071'', [(''T1041'', lit (3 / 10)), (''T1003'', lit (2 / 10))])]"

definition buildTransitionMatrix :: TransitionMatrix where
  "buildTransitionMatrix = map_option map_of \<circ> map_of default_transitions"

section \<open>Techniques that failed\<close>

text \<open>A technique fails when one of its checks has a result and the result is negative.\<close>

definition technique_failed :: "(string \<rightharpoonup> bool) \<Rightarrow> string list \<Rightarrow> bool" where
  "technique_failed results checks \<longleftrightarrow> list_ex (\<lambda>c. results c = Some False) checks"

definition extractFailedTechniques :: "ATTACKTactic list \<Rightarrow> (string \<rightharpoonup> bool) \<Rightarrow> string list" where
  "extractFailedTechniques tactics results =
     sort (remdups (concat (map (\<lambda>t. map tq_ID (filter (\<lambda>q. technique_failed results (tq_AsscorChecks q)) (tac_Techniques t))) tactics)))"

definition extractFailedChecks :: "string list \<Rightarrow> (string \<rightharpoonup> bool) \<Rightarrow> string list" where
  "extractFailedChecks order results = sort (filter (\<lambda>c. results c = Some False) order)"

section \<open>Coverage\<close>

text \<open>The results may be absent (\<open>nil\<close>).\<close>

definition technique_holds :: "(string \<rightharpoonup> bool) option \<Rightarrow> ATTACKTechnique \<Rightarrow> bool" where
  "technique_holds results q \<longleftrightarrow>
     (case results of None \<Rightarrow> True | Some m \<Rightarrow> tq_AsscorChecks q = [] \<or> \<not> technique_failed m (tq_AsscorChecks q))"

definition risk_level :: "f64 \<Rightarrow> string" where
  "risk_level cc =
     (if f64_lt cc (lit (25 / 100)) then ''red'' else if f64_lt cc (lit (50 / 100)) then ''orange''
      else if f64_lt cc (lit (65 / 100)) then ''yellow'' else ''green'')"

definition composite :: "f64 \<Rightarrow> f64 \<Rightarrow> f64" where
  "composite dc pc = f64_add (f64_mul (lit (4 / 10)) dc) (f64_mul (lit (6 / 10)) pc)"

definition tactic_coverage :: "(string \<rightharpoonup> bool) option \<Rightarrow> ATTACKTactic \<Rightarrow> ATTACKCoverage" where
  "tactic_coverage results t =
     (let qs = tac_Techniques t; total = length qs;
          det = (\<lambda>q. tq_Detected q \<and> technique_holds results q); prev = (\<lambda>q. tq_Prevented q \<and> technique_holds results q);
          dc = f64_div (f64_of_int (int (length (filter det qs)))) (f64_of_int (int total));
          pc = f64_div (f64_of_int (int (length (filter prev qs)))) (f64_of_int (int total));
          cc = composite dc pc
      in \<lparr>tc_TacticID = tac_ID t, tc_TacticName = tac_Name t, tc_TotalTechniques = int total,
          tc_CoveredDet = int (length (filter det qs)), tc_CoveredPrev = int (length (filter prev qs)),
          tc_CoverageDet = round_to 1000 dc, tc_CoveragePrev = round_to 1000 pc, tc_CoverageComp = round_to 1000 cc,
          tc_RiskLevel = risk_level cc, tc_BlindSpots = sort (map tq_ID (filter (\<lambda>q. \<not> det q) qs))\<rparr>)"

definition CalculateCoverage :: "ATTACKTactic list \<Rightarrow> (string \<rightharpoonup> bool) option \<Rightarrow> ATTACKCoverage list" where
  "CalculateCoverage tactics results = map (tactic_coverage results) (filter (\<lambda>t. tac_Techniques t \<noteq> []) tactics)"

record coverage_summary =
  cs_detection :: f64
  cs_prevention :: f64
  cs_composite :: f64
  cs_high_blind :: int
  cs_total :: int
  cs_details :: "ATTACKCoverage list"

definition GetCoverageSummary :: "ATTACKTactic list \<Rightarrow> (string \<rightharpoonup> bool) option \<Rightarrow> coverage_summary" where
  "GetCoverageSummary tactics results =
     (let cs = CalculateCoverage tactics results; n = f64_of_int (if cs = [] then 1 else int (length cs));
          avg = (\<lambda>f. round_to 1000 (f64_div (foldl (\<lambda>a c. f64_add a (f c)) f64_0 cs) n))
      in \<lparr>cs_detection = avg tc_CoverageDet, cs_prevention = avg tc_CoveragePrev, cs_composite = avg tc_CoverageComp,
          cs_high_blind = int (length (filter (\<lambda>c. tc_RiskLevel c = ''red'' \<or> tc_RiskLevel c = ''orange'') cs)),
          cs_total = int (length cs), cs_details = cs\<rparr>)"

section \<open>Similarity to APT groups\<close>

text \<open>\<open>order\<close> is the order in which the techniques of the group are visited.\<close>

definition match_confidence :: "f64 \<Rightarrow> nat \<Rightarrow> string" where
  "match_confidence sim n =
     (if f64_ge sim (lit (6 / 10)) \<and> n \<ge> 5 then ''high'' else if f64_ge sim (lit (4 / 10)) \<and> n \<ge> 3 then ''medium'' else ''low'')"

definition match_group :: "string list \<Rightarrow> string list \<Rightarrow> APTGroupProfile \<Rightarrow> APTMatchResult option" where
  "match_group detected order g =
     (let overlap = filter (\<lambda>t. t \<in> set detected) order; union = remdups (detected @ order);
          weight = foldl (\<lambda>w t. case agp_Techniques g t of None \<Rightarrow> w | Some x \<Rightarrow> f64_add w x) f64_0 overlap;
          raw = f64_mul (f64_div (f64_of_int (int (length overlap))) (f64_of_int (int (length union)))) weight;
          sim = (if f64_gt raw f64_1 then f64_1 else raw)
      in if overlap = [] then None
         else Some \<lparr>am_GroupID = agp_GroupID g, am_GroupName = agp_Name g, am_Similarity = round_to 1000 sim,
                    am_OverlapTech = overlap, am_Confidence = match_confidence sim (length overlap),
                    am_MatchCount = int (length overlap)\<rparr>)"

text \<open>Groups in the order \<open>gorder\<close> of the map, the techniques of the group \<open>gid\<close> in the order \<open>torder gid\<close>; the second
  component are the matches published on the bus.\<close>

definition MatchAPTGroup ::
    "(APTMatchResult list \<Rightarrow> APTMatchResult list) \<Rightarrow> string list \<Rightarrow> (string \<Rightarrow> string list) \<Rightarrow> (string \<rightharpoonup> APTGroupProfile) \<Rightarrow> string list \<Rightarrow>
     APTMatchResult list \<times> APTMatchResult list" where
  "MatchAPTGroup srt gorder torder groups detected =
     (let results = srt (List.map_filter (\<lambda>gid. case groups gid of None \<Rightarrow> None | Some g \<Rightarrow> match_group detected (torder gid) g) gorder)
      in (results, filter (\<lambda>r. am_Confidence r = ''high'') results))"

definition ListAPTGroups :: "string list \<Rightarrow> (string \<rightharpoonup> APTGroupProfile) \<Rightarrow> string list" where
  "ListAPTGroups gorder groups = sort (map agp_Name (List.map_filter groups gorder))"

section \<open>Predicted risk\<close>

text \<open>\<open>ord path\<close> is the order in which the successors of the end of \<open>path\<close> are visited.\<close>

definition one_step :: "string \<Rightarrow> string \<Rightarrow> f64 \<Rightarrow> PredictedPath" where
  "one_step start nx p = \<lparr>pp_Path = [start, nx], pp_Probability = round_to 1000 p, pp_EndTech = nx, pp_Risk = p\<rparr>"

definition two_steps :: "string \<Rightarrow> string \<Rightarrow> string \<Rightarrow> f64 \<Rightarrow> PredictedPath" where
  "two_steps start nx sub p = \<lparr>pp_Path = [start, nx, sub], pp_Probability = round_to 1000 p, pp_EndTech = sub, pp_Risk = p\<rparr>"

definition further_paths :: "(string list \<Rightarrow> string list) \<Rightarrow> TransitionMatrix \<Rightarrow> string \<Rightarrow> string \<Rightarrow> f64 \<Rightarrow> PredictedPath list" where
  "further_paths ord m start nx p =
     (case m nx of
        None \<Rightarrow> []
      | Some row \<Rightarrow> List.map_filter (\<lambda>sub. map_option (\<lambda>q. two_steps start nx sub (f64_mul p q)) (row sub)) (ord [start, nx]))"

definition all_paths :: "(string list \<Rightarrow> string list) \<Rightarrow> TransitionMatrix \<Rightarrow> string \<Rightarrow> int \<Rightarrow> PredictedPath list" where
  "all_paths ord m start depth =
     (case m start of
        None \<Rightarrow> []
      | Some row \<Rightarrow>
          concat (List.map_filter (\<lambda>nx. map_option (\<lambda>p. (if depth > 1 then further_paths ord m start nx p else []) @ [one_step start nx p])
            (row nx)) (ord [start])))"

definition findPaths ::
    "(PredictedPath list \<Rightarrow> PredictedPath list) \<Rightarrow> (string list \<Rightarrow> string list) \<Rightarrow> TransitionMatrix \<Rightarrow> string \<Rightarrow> int \<Rightarrow> PredictedPath list" where
  "findPaths srt ord m start depth = take 10 (srt (all_paths ord m start depth))"

definition harden_text :: string where
  "harden_text = utf8 [229, 138, 160, 229, 155, 186]"

definition recommendation :: "ATTACKTactic \<Rightarrow> string \<Rightarrow> string list" where
  "recommendation t tid =
     (case find (\<lambda>q. tq_ID q = tid \<and> tq_AsscorChecks q \<noteq> []) (tac_Techniques t) of
        None \<Rightarrow> []
      | Some q \<Rightarrow> [harden_text @ '' '' @ tq_ID q @ '' '' @ tac_Name t @ '': '' @ join_with (CHR '','') (tq_AsscorChecks q)])"

fun generateRecommendations :: "ATTACKTactic list \<Rightarrow> string list \<Rightarrow> PredictedPath list \<Rightarrow> string list" where
  "generateRecommendations tactics seen [] = []"
| "generateRecommendations tactics seen (p # ps) =
     (if \<not> f64_gt (pp_Risk p) (lit (3 / 10)) \<or> pp_EndTech p \<in> set seen then generateRecommendations tactics seen ps
      else concat (map (\<lambda>t. recommendation t (pp_EndTech p)) tactics) @ generateRecommendations tactics (pp_EndTech p # seen) ps)"

text \<open>\<open>ords ! i\<close> belongs to the search from the \<open>i\<close>th technique.\<close>

definition PredictRisk ::
    "(PredictedPath list \<Rightarrow> PredictedPath list) \<Rightarrow> (nat \<Rightarrow> string list \<Rightarrow> string list) \<Rightarrow> ATTACKTactic list \<Rightarrow> TransitionMatrix \<Rightarrow> time \<Rightarrow>
     string \<Rightarrow> string list \<Rightarrow> int \<Rightarrow> PredictiveRisk" where
  "PredictRisk srt ords tactics m now host detected depth =
     (let depth = (if depth \<le> 0 then 3 else depth);
          paths = concat (map (\<lambda>(i, start). findPaths srt (ords i) m start depth) (enumerate 0 detected));
          maxRisk = foldl (\<lambda>r p. if f64_gt (pp_Risk p) r then pp_Risk p else r) f64_0 paths;
          score = round_to 1000 maxRisk
      in \<lparr>pk_HostID = host, pk_CurrentTech = detected, pk_PredictedPaths = paths, pk_MaxRiskScore = score,
          pk_EnhancedThreat = f64_max (lit (75 / 100)) (f64_sub f64_1 (f64_mul score (lit (25 / 100)))),
          pk_Recommendations = generateRecommendations tactics [] paths, pk_Timestamp = now\<rparr>)"

section \<open>Kill chain\<close>

definition stage_status :: "f64 \<Rightarrow> string" where
  "stage_status s =
     (if f64_ge s (lit 80) then ''healthy'' else if f64_ge s (lit 60) then ''moderate''
      else if f64_ge s (lit 40) then ''vulnerable'' else ''critical'')"

definition stage_checks :: "ATTACKTactic list \<Rightarrow> string list \<Rightarrow> string list" where
  "stage_checks tactics ids =
     concat (map (\<lambda>tid. concat (map (\<lambda>t. if tac_ID t \<noteq> tid then [] else concat (map tq_AsscorChecks (tac_Techniques t))) tactics)) ids)"

definition check_passes :: "(string \<rightharpoonup> bool) option \<Rightarrow> string \<Rightarrow> bool" where
  "check_passes results c \<longleftrightarrow> (case results of None \<Rightarrow> True | Some m \<Rightarrow> m c = Some True)"

definition assess_stage :: "ATTACKTactic list \<Rightarrow> (string \<rightharpoonup> bool) option \<Rightarrow> KillChainStage \<Rightarrow> KillChainStage" where
  "assess_stage tactics results st =
     (let cs = stage_checks tactics (ks_Tactics st); passed = length (filter (check_passes results) cs);
          score = (if cs \<noteq> [] then f64_mul (f64_div (f64_of_int (int passed)) (f64_of_int (int (length cs)))) (lit 100) else ks_Score st)
      in st\<lparr>ks_Score := score, ks_Status := stage_status score, ks_ChecksPassed := int passed, ks_ChecksTotal := int (length cs)\<rparr>)"

definition assessKillChain ::
    "ATTACKTactic list \<Rightarrow> time \<Rightarrow> string \<Rightarrow> (string \<rightharpoonup> bool) option \<Rightarrow> KillChainStage list \<Rightarrow> KillChainAssessment" where
  "assessKillChain tactics now host results stages =
     (let sts = map (assess_stage tactics results) stages; total = foldl (\<lambda>a s. f64_add a (ks_Score s)) f64_0 sts;
          (weakest, _) = foldl (\<lambda>(w, sc) s. if f64_lt (ks_Score s) sc then (ks_Name s, ks_Score s) else (w, sc)) ([], lit 100) sts
      in \<lparr>ka_HostID = host, ka_Stages = sts, ka_OverallScore = round_to 100 (f64_div total (f64_of_int (int (length sts)))),
          ka_WeakestStage = weakest, ka_AssessmentTime = now\<rparr>)"

definition stage :: "nat list \<Rightarrow> string list \<Rightarrow> KillChainStage" where
  "stage name ids = \<lparr>ks_Name = utf8 name, ks_Tactics = ids, ks_Score = lit 100, ks_Status = [], ks_ChecksPassed = 0, ks_ChecksTotal = 0\<rparr>"

definition kill_chain_stages :: "KillChainStage list" where
  "kill_chain_stages =
     [stage [228, 190, 166, 229, 175, 159] [''TA0043'', ''TA0042''],
      stage [230, 138, 149, 233, 128, 146] [''TA0001''],
      stage [231, 170, 129, 231, 160, 180] [''TA0002''],
      stage [230, 143, 144, 230, 157, 131] [''TA0004''],
      stage [233, 169, 187, 231, 149, 153] [''TA0003''],
      stage [230, 168, 170, 229, 144, 145, 231, 167, 187, 229, 138, 168] [''TA0008''],
      stage [231, 170, 131, 229, 143, 150] [''TA0010'', ''TA0009''],
      stage [233, 152, 178, 229, 190, 161, 232, 167, 132, 233, 129, 191] [''TA0005''],
      stage [231, 160, 180, 229, 157, 143] [''TA0040'']]"

definition AssessKillChain :: "ATTACKTactic list \<Rightarrow> time \<Rightarrow> string \<Rightarrow> (string \<rightharpoonup> bool) option \<Rightarrow> KillChainAssessment" where
  "AssessKillChain tactics now host results = assessKillChain tactics now host results kill_chain_stages"

section \<open>Updates\<close>

fun AddTechniqueToTactic :: "string \<Rightarrow> ATTACKTechnique \<Rightarrow> ATTACKTactic list \<Rightarrow> ATTACKTactic list" where
  "AddTechniqueToTactic tid q [] = []"
| "AddTechniqueToTactic tid q (t # ts) =
     (if tac_ID t \<noteq> tid then t # AddTechniqueToTactic tid q ts
      else if tq_ID q \<in> set (map tq_ID (tac_Techniques t)) then t # ts
      else t\<lparr>tac_Techniques := tac_Techniques t @ [q]\<rparr> # ts)"

definition map_checks :: "string list \<Rightarrow> ATTACKTechnique \<Rightarrow> ATTACKTechnique" where
  "map_checks cs q = (if cs = [] then q\<lparr>tq_AsscorChecks := cs\<rparr> else q\<lparr>tq_AsscorChecks := cs, tq_Detected := True, tq_Prevented := True\<rparr>)"

fun update_first :: "string \<Rightarrow> string list \<Rightarrow> ATTACKTechnique list \<Rightarrow> ATTACKTechnique list" where
  "update_first tid cs [] = []"
| "update_first tid cs (q # qs) = (if tq_ID q = tid then map_checks cs q # qs else q # update_first tid cs qs)"

fun UpdateCheckMapping :: "string \<Rightarrow> string list \<Rightarrow> ATTACKTactic list \<Rightarrow> ATTACKTactic list" where
  "UpdateCheckMapping tid cs [] = []"
| "UpdateCheckMapping tid cs (t # ts) =
     (if tid \<in> set (map tq_ID (tac_Techniques t)) then t\<lparr>tac_Techniques := update_first tid cs (tac_Techniques t)\<rparr> # ts
      else t # UpdateCheckMapping tid cs ts)"

definition UpsertAPTGroup :: "APTGroupProfile \<Rightarrow> (string \<rightharpoonup> APTGroupProfile) \<Rightarrow> (string \<rightharpoonup> APTGroupProfile)" where
  "UpsertAPTGroup p groups = groups(agp_GroupID p \<mapsto> p)"

definition GetTechniquesByTactic :: "string \<Rightarrow> ATTACKTactic list \<Rightarrow> ATTACKTechnique list" where
  "GetTechniquesByTactic tid tactics = (case find (\<lambda>t. tac_ID t = tid) tactics of None \<Rightarrow> [] | Some t \<Rightarrow> tac_Techniques t)"

section \<open>History\<close>

text \<open>The identifiers and counts that the detection, hunting and gap analyses contribute are opaque here.\<close>

record HostAnalysisRecord =
  ha_HostID :: string
  ha_Timestamp :: time
  ha_AssessmentScore :: f64
  ha_FailedChecks :: "string list"
  ha_FailedTechniques :: "string list"
  ha_Coverages :: "ATTACKCoverage list"
  ha_KillChain :: KillChainAssessment
  ha_APTMatches :: "APTMatchResult list"
  ha_PredictedRisk :: "PredictiveRisk option"
  ha_AttackChainID :: string
  ha_GapAnalysisID :: string
  ha_HuntHypothesesGen :: int
  ha_AlertsTriggered :: int

definition keep_last :: "nat \<Rightarrow> 'a list \<Rightarrow> 'a list" where
  "keep_last n xs = drop (length xs - n) xs"

type_synonym host_history = "string \<rightharpoonup> HostAnalysisRecord list"

definition history_of :: "host_history \<Rightarrow> string \<Rightarrow> HostAnalysisRecord list" where
  "history_of h host = (case h host of None \<Rightarrow> [] | Some rs \<Rightarrow> rs)"

definition storeAnalysisRecord :: "HostAnalysisRecord \<Rightarrow> host_history \<Rightarrow> host_history" where
  "storeAnalysisRecord r h = h(ha_HostID r \<mapsto> keep_last 50 (history_of h (ha_HostID r) @ [r]))"

definition GetHostAnalysisHistory :: "string \<Rightarrow> int \<Rightarrow> host_history \<Rightarrow> HostAnalysisRecord list" where
  "GetHostAnalysisHistory host limit h =
     (let rs = history_of h host; n = (if limit \<le> 0 \<or> limit > int (length rs) then length rs else nat limit) in keep_last n rs)"

section \<open>The provider of the assessor\<close>

text \<open>What the module leaves open: the orders of its maps, the sorts of ties, the clock.\<close>

record attck_env =
  ae_sort_matches :: "APTMatchResult list \<Rightarrow> APTMatchResult list"
  ae_groups :: "string list"
  ae_techniques :: "string \<Rightarrow> string list"
  ae_sort_paths :: "PredictedPath list \<Rightarrow> PredictedPath list"
  ae_successors :: "nat \<Rightarrow> string list \<Rightarrow> string list"
  ae_time :: time

record attck_module =
  at_tactics :: "ATTACKTactic list"
  at_aptGroups :: "string \<rightharpoonup> APTGroupProfile"
  at_transMatrix :: TransitionMatrix
  at_history :: host_history

definition default_module :: attck_module where
  "default_module =
     \<lparr>at_tactics = loadDefaultMatrix, at_aptGroups = loadDefaultAPTProfiles, at_transMatrix = buildTransitionMatrix,
      at_history = Map.empty\<rparr>"

definition coverage_info :: "ATTACKCoverage \<Rightarrow> ATTACKCoverageInfo" where
  "coverage_info c =
     \<lparr>cov_TacticID = tc_TacticID c, cov_TacticName = tc_TacticName c, cov_TotalTechniques = tc_TotalTechniques c,
      cov_CoveredDet = tc_CoveredDet c, cov_CoverageDet = tc_CoverageDet c, cov_CoveragePrev = tc_CoveragePrev c,
      cov_CoverageComp = tc_CoverageComp c, cov_RiskLevel = tc_RiskLevel c\<rparr>"

definition kill_chain_info :: "KillChainAssessment \<Rightarrow> ATTACKKillChainInfo" where
  "kill_chain_info k =
     \<lparr>kc_Stages = map (\<lambda>s. \<lparr>kcs_Name = ks_Name s, kcs_Score = ks_Score s, kcs_Status = ks_Status s,
        kcs_ChecksPassed = ks_ChecksPassed s, kcs_ChecksTotal = ks_ChecksTotal s\<rparr>) (ka_Stages k),
      kc_OverallScore = ka_OverallScore k, kc_WeakestStage = ka_WeakestStage k\<rparr>"

definition match_info :: "APTMatchResult \<Rightarrow> ATTACKAPTMatchInfo" where
  "match_info r =
     \<lparr>apt_GroupID = am_GroupID r, apt_GroupName = am_GroupName r, apt_Similarity = am_Similarity r,
      apt_Confidence = am_Confidence r, apt_OverlapTech = am_OverlapTech r\<rparr>"

definition risk_info :: "PredictiveRisk \<Rightarrow> ATTACKPredictedRiskInfo" where
  "risk_info p =
     \<lparr>prk_MaxRiskScore = pk_MaxRiskScore p, prk_EnhancedThreat = pk_EnhancedThreat p,
      prk_PredictedPaths = int (length (pk_PredictedPaths p)), prk_Recommendations = pk_Recommendations p\<rparr>"

definition tactic_info :: "ATTACKTactic \<Rightarrow> ATTACKTacticInfo" where
  "tactic_info t =
     \<lparr>ta_ID = tac_ID t, ta_Name = tac_Name t,
      ta_Techniques = map (\<lambda>q. \<lparr>ti_ID = tq_ID q, ti_Name = tq_Name q, ti_AsscorChecks = tq_AsscorChecks q\<rparr>) (tac_Techniques t)\<rparr>"

definition AsEngineProvider :: "attck_env \<Rightarrow> attck_module \<Rightarrow> ATTACKProvider" where
  "AsEngineProvider ae m =
     \<lparr>ap_CalculateCoverage = (\<lambda>results. map coverage_info (CalculateCoverage (at_tactics m) (Some results))),
      ap_AssessKillChain = (\<lambda>host results. kill_chain_info (AssessKillChain (at_tactics m) (ae_time ae) host (Some results))),
      ap_MatchAPTGroup =
        (\<lambda>techs. map match_info (fst (MatchAPTGroup (ae_sort_matches ae) (ae_groups ae) (ae_techniques ae) (at_aptGroups m) techs))),
      ap_PredictRisk =
        (\<lambda>host techs depth.
           risk_info (PredictRisk (ae_sort_paths ae) (ae_successors ae) (at_tactics m) (at_transMatrix m) (ae_time ae) host techs depth)),
      ap_GetAllTactics = map tactic_info (at_tactics m)\<rparr>"

section \<open>The pipeline on the bus\<close>

text \<open>What the other parts of the module contribute to the record.\<close>

record pipeline_parts =
  pt_alerts :: int
  pt_hunt :: int
  pt_chain :: string
  pt_gap :: string

record analysis_outcome =
  ao_record :: HostAnalysisRecord
  ao_published :: "APTMatchResult list"
  ao_threat_enhanced :: bool

definition weak_tactics :: "ATTACKCoverage list \<Rightarrow> string list" where
  "weak_tactics cs = map tc_TacticID (filter (\<lambda>c. f64_lt (tc_CoverageDet c) (lit 50)) cs)"

definition analyse :: "attck_env \<Rightarrow> pipeline_parts \<Rightarrow> attck_module \<Rightarrow> AssessmentResult \<Rightarrow> analysis_outcome" where
  "analyse ae parts m r =
     (let results = passed_map (ar_Checks r); order = remdups (map cr_CheckID (ar_Checks r));
          failed = extractFailedTechniques (at_tactics m) results; covs = CalculateCoverage (at_tactics m) (Some results);
          weak = weak_tactics covs;
          (matches, high) = (if weak = [] then ([], [])
            else MatchAPTGroup (ae_sort_matches ae) (ae_groups ae) (ae_techniques ae) (at_aptGroups m) weak);
          risk = (if failed = [] then None
            else Some (PredictRisk (ae_sort_paths ae) (ae_successors ae) (at_tactics m) (at_transMatrix m) (ae_time ae) (ar_HostID r) failed 3))
      in \<lparr>ao_record =
            \<lparr>ha_HostID = ar_HostID r, ha_Timestamp = ae_time ae, ha_AssessmentScore = ar_FinalScore r,
             ha_FailedChecks = extractFailedChecks order results, ha_FailedTechniques = failed, ha_Coverages = covs,
             ha_KillChain = AssessKillChain (at_tactics m) (ae_time ae) (ar_HostID r) (Some results), ha_APTMatches = matches,
             ha_PredictedRisk = risk, ha_AttackChainID = pt_chain parts, ha_GapAnalysisID = pt_gap parts,
             ha_HuntHypothesesGen = pt_hunt parts, ha_AlertsTriggered = pt_alerts parts\<rparr>,
          ao_published = high,
          ao_threat_enhanced = (case risk of None \<Rightarrow> False | Some k \<Rightarrow> f64_gt (pk_EnhancedThreat k) f64_1)\<rparr>)"

definition onAssessmentResult :: "attck_env \<Rightarrow> pipeline_parts \<Rightarrow> attck_module \<Rightarrow> AssessmentResult \<Rightarrow> attck_module" where
  "onAssessmentResult ae parts m r = m\<lparr>at_history := storeAnalysisRecord (ao_record (analyse ae parts m r)) (at_history m)\<rparr>"

section \<open>Coverage ratios\<close>

definition small_matrix :: "ATTACKTactic list \<Rightarrow> bool" where
  "small_matrix ts \<longleftrightarrow> list_all (\<lambda>t. length (tac_Techniques t) \<le> 2 ^ 20) ts"

lemma of_count: "n \<le> 2 ^ 20 \<Longrightarrow> f64_of_int (int n) = Fin (of_nat n)"
proof -
  assume "n \<le> 2 ^ 20"
  then have "\<bar>int n\<bar> \<le> 2 ^ 53" by simp
  from rep_of_int [OF this] show ?thesis by (simp add: f64_of_int_def)
qed

lemma count_ratio_btw:
  assumes "n \<le> t" "0 < t" "t \<le> 2 ^ 20"
  shows "btw 0 1 (f64_div (f64_of_int (int n)) (f64_of_int (int t)))"
proof -
  have "(0::rat) \<le> of_nat n / of_nat t" "of_nat n / of_nat t \<le> (1::rat)" using assms(1,2) by auto
  then have "btw 0 1 (lit (of_nat n / of_nat t))" by (intro btw_of_rat) simp_all
  then show ?thesis using assms by (simp add: of_count)
qed

lemma lit_4_10: "lit (4 / 10) = Fin (7205759403792794 / 2 ^ 54)"
proof -
  have r: "rnd (2 / 5) = 7205759403792794 / 2 ^ 54"
    by (subst rnd_eval_neg [of 2]) (simp_all add: rhe_def Let_def)
  then show ?thesis by (simp add: f64_of_rat_def)
qed

lemma composite_btw:
  assumes "btw 0 1 x" "btw 0 1 y"
  shows "btw 0 1 (composite x y)"
proof -
  have r: "rep (7205759403792794 / 2 ^ 54)" "rep (5404319552844595 / 2 ^ 53)"
    by (rule rep_small [where m = 7205759403792794 and k = 54]; simp) (rule rep_small [where m = 5404319552844595 and k = 53]; simp)
  have u: "btw 0 (7205759403792794 / 2 ^ 54) (lit (4 / 10))" "btw 0 (5404319552844595 / 2 ^ 53) (lit (6 / 10))"
    unfolding lit_4_10 lit_6_10 btw_Fin using r by (intro conjI; simp)+
  have a: "btw 0 (7205759403792794 / 2 ^ 54 * 1) (f64_mul (lit (4 / 10)) x)"
    by (rule btw_mul [OF u(1) assms(1)]) (simp only: r mult_1_right)
  have b: "btw 0 (5404319552844595 / 2 ^ 53 * 1) (f64_mul (lit (6 / 10)) y)"
    by (rule btw_mul [OF u(2) assms(2)]) (simp only: r mult_1_right)
  have e: "7205759403792794 / 2 ^ 54 * 1 + 5404319552844595 / 2 ^ 53 * 1 = (1::rat)" by simp
  show ?thesis unfolding composite_def using btw_add [OF a b] unfolding e by simp
qed

lemma round3_unit: "btw 0 1 x \<Longrightarrow> btw 0 1 (round_to 1000 x)"
  by (rule round_to_btw [where n = 1000 and m = 1000]) simp_all

lemma tactic_coverage_btw:
  assumes "tac_Techniques t \<noteq> []" "length (tac_Techniques t) \<le> 2 ^ 20"
  shows "btw 0 1 (tc_CoverageDet (tactic_coverage results t))" "btw 0 1 (tc_CoveragePrev (tactic_coverage results t))"
    "btw 0 1 (tc_CoverageComp (tactic_coverage results t))"
proof -
  have l: "0 < length (tac_Techniques t)" using assms(1) by simp
  note r = count_ratio_btw [OF length_filter_le l assms(2)]
  show "btw 0 1 (tc_CoverageDet (tactic_coverage results t))" "btw 0 1 (tc_CoveragePrev (tactic_coverage results t))"
    "btw 0 1 (tc_CoverageComp (tactic_coverage results t))"
    using r by (auto simp: tactic_coverage_def Let_def intro!: round3_unit composite_btw)
qed

text \<open>Every coverage is a ratio, and what is not detected is listed as a blind spot.\<close>

theorem coverage_is_a_ratio:
  assumes "small_matrix ts" "c \<in> set (CalculateCoverage ts results)"
  shows "btw 0 1 (tc_CoverageDet c) \<and> btw 0 1 (tc_CoveragePrev c) \<and> btw 0 1 (tc_CoverageComp c) \<and>
    0 \<le> tc_CoveredDet c \<and> int (length (tc_BlindSpots c)) = tc_TotalTechniques c - tc_CoveredDet c \<and> 0 < tc_TotalTechniques c"
proof -
  obtain t where t: "t \<in> set ts" "tac_Techniques t \<noteq> []" "c = tactic_coverage results t"
    using assms(2) by (auto simp: CalculateCoverage_def)
  then have l: "length (tac_Techniques t) \<le> 2 ^ 20" using assms(1) by (auto simp: small_matrix_def list_all_iff)
  have "int (length (filter (\<lambda>q. \<not> P q) xs)) = int (length xs) - int (length (filter P xs))" for P and xs :: "ATTACKTechnique list"
    using sum_length_filter_compl [of P xs] by linarith
  from this [of "\<lambda>q. tq_Detected q \<and> technique_holds results q" "tac_Techniques t"]
  have n: "0 \<le> tc_CoveredDet c \<and> int (length (tc_BlindSpots c)) = tc_TotalTechniques c - tc_CoveredDet c \<and> 0 < tc_TotalTechniques c"
    using t(2) by (simp add: t(3) tactic_coverage_def Let_def)
  show ?thesis using tactic_coverage_btw [OF t(2) l, of results] n by (simp add: t(3))
qed

lemmas tactic_defs =
  tactic_TA0043_def tactic_TA0042_def tactic_TA0001_def tactic_TA0002_def tactic_TA0003_def tactic_TA0004_def tactic_TA0005_def
  tactic_TA0006_def tactic_TA0007_def tactic_TA0008_def tactic_TA0009_def tactic_TA0011_def tactic_TA0010_def tactic_TA0040_def

lemma default_tactic_sel [simp]:
  "tac_ID (default_tactic tid n d de ids cs) = tid" "tac_Name (default_tactic tid n d de ids cs) = n"
  "tac_Techniques (default_tactic tid n d de ids cs) = buildTechniques ids (map_of cs)"
  by (simp_all add: default_tactic_def)

lemma buildTechniques_ids: "map tq_ID (buildTechniques ids cs) = ids" "length (buildTechniques ids cs) = length ids"
  by (induction ids) (simp_all add: buildTechniques_def Let_def)

lemma default_small: "small_matrix loadDefaultMatrix"
  by (simp add: small_matrix_def loadDefaultMatrix_def tactic_defs buildTechniques_ids)

lemma default_ids:
  "map tac_ID loadDefaultMatrix =
     [''TA0043'', ''TA0042'', ''TA0001'', ''TA0002'', ''TA0003'', ''TA0004'', ''TA0005'', ''TA0006'', ''TA0007'', ''TA0008'',
      ''TA0009'', ''TA0011'', ''TA0010'', ''TA0040'']"
  by (simp add: loadDefaultMatrix_def tactic_defs)

lemma coverage_is_a_ratio_witness:
  "btw 0 1 (tc_CoverageComp (tactic_coverage (Some [''OT-010'' \<mapsto> False]) tactic_TA0002))"
proof -
  have "tac_Techniques tactic_TA0002 \<noteq> []" by (simp add: tactic_TA0002_def buildTechniques_def)
  then have "tactic_coverage (Some [''OT-010'' \<mapsto> False]) tactic_TA0002 \<in>
      set (CalculateCoverage loadDefaultMatrix (Some [''OT-010'' \<mapsto> False]))"
    by (simp add: CalculateCoverage_def loadDefaultMatrix_def)
  from coverage_is_a_ratio [OF default_small this] show ?thesis by simp
qed

section \<open>The assessor and the module agree on the failed techniques\<close>

lemma failed_techniques_all:
  assumes "small_matrix ts" "distinct (map tac_ID ts)"
  shows "failed_techniques (map tactic_info ts) results (map coverage_info (CalculateCoverage ts (Some results))) =
    concat (map (\<lambda>t. map tq_ID (filter (\<lambda>q. technique_failed results (tq_AsscorChecks q)) (tac_Techniques t))) ts)"
proof -
  have by_id: "foldl (\<lambda>m t. m(ta_ID t \<mapsto> t)) m (map tactic_info us) (tac_ID t) =
      (if t \<in> set us then Some (tactic_info t) else m (tac_ID t))"
    if "distinct (map tac_ID us)" "t \<in> set us \<or> tac_ID t \<notin> tac_ID ` set us" for us m t
    using that by (induction us arbitrary: m) (auto simp: tactic_info_def)
  have full: "\<not> f64_ge (tc_CoverageDet (tactic_coverage r t)) (lit 100)"
    if "t \<in> set ts" "tac_Techniques t \<noteq> []" for r t
    using btwD [OF tactic_coverage_btw(1) [OF that(2)], of r] that(1) assms(1) by (auto simp: small_matrix_def list_all_iff lit_100)
  let ?f = "\<lambda>t. map tq_ID (filter (\<lambda>q. technique_failed results (tq_AsscorChecks q)) (tac_Techniques t))"
  have one: "(let cov = coverage_info (tactic_coverage (Some results) t) in
      if f64_ge (cov_CoverageDet cov) (lit 100) then []
      else case foldl (\<lambda>m t. m(ta_ID t \<mapsto> t)) Map.empty (map tactic_info ts) (cov_TacticID cov) of
             None \<Rightarrow> []
           | Some t \<Rightarrow> map ti_ID (filter (\<lambda>tech. list_ex (\<lambda>c. results c = Some False) (ti_AsscorChecks tech)) (ta_Techniques t))) = ?f t"
    if t: "t \<in> set ts" "tac_Techniques t \<noteq> []" for t
  proof -
    have i: "tc_TacticID (tactic_coverage r t) = tac_ID t" for r by (simp add: tactic_coverage_def Let_def)
    have "map ti_ID (filter (\<lambda>tech. list_ex (\<lambda>c. results c = Some False) (ti_AsscorChecks tech)) (ta_Techniques (tactic_info t))) = ?f t"
      by (simp add: tactic_info_def technique_failed_def filter_map comp_def)
    then show ?thesis using full [OF t, of "Some results"] by_id [OF assms(2), of t Map.empty] t(1) by (simp add: coverage_info_def i)
  qed
  have "concat (map g (filter P xs)) = concat (map h xs)"
    if "\<And>x. x \<in> set xs \<Longrightarrow> P x \<Longrightarrow> g x = h x" "\<And>x. \<not> P x \<Longrightarrow> h x = []" for g h and P :: "'x \<Rightarrow> bool" and xs
    using that by (induction xs) auto
  from this [of ts "\<lambda>t. tac_Techniques t \<noteq> []", OF one]
  show ?thesis by (simp add: failed_techniques_def CalculateCoverage_def Let_def comp_def)
qed

text \<open>C18: The assessor skips the tactics whose coverage is at least 100, but a coverage is a ratio of at most 1: no tactic is
  ever skipped, and the techniques the assessor collects over the provider are those the module extracts itself.\<close>

theorem assessor_collects_all_failed_techniques:
  assumes "small_matrix (at_tactics m)" "distinct (map tac_ID (at_tactics m))"
  shows "let ap = AsEngineProvider ae m in
    set (failed_techniques (ap_GetAllTactics ap) results (ap_CalculateCoverage ap results)) =
      set (extractFailedTechniques (at_tactics m) results)"
  by (simp add: AsEngineProvider_def failed_techniques_all [OF assms] extractFailedTechniques_def)

lemma assessor_collects_all_failed_techniques_witness:
  "\<forall>ae results. let ap = AsEngineProvider ae default_module in
    set (failed_techniques (ap_GetAllTactics ap) results (ap_CalculateCoverage ap results)) =
      set (extractFailedTechniques loadDefaultMatrix results)"
  using assessor_collects_all_failed_techniques [of default_module] by (simp add: default_module_def default_small default_ids)

section \<open>Predicted risk\<close>

text \<open>The sort of the paths: a permutation that on finite risks leaves no larger risk behind a smaller one.\<close>

definition sorts_paths :: "(PredictedPath list \<Rightarrow> PredictedPath list) \<Rightarrow> bool" where
  "sorts_paths srt \<longleftrightarrow>
     (\<forall>ps. set (srt ps) = set ps \<and> length (srt ps) = length ps \<and>
        (list_all (\<lambda>p. is_fin (pp_Risk p)) ps \<longrightarrow> sorted_wrt (\<lambda>p q. f64_ge (pp_Risk p) (pp_Risk q)) (srt ps)))"

definition unit_matrix :: "TransitionMatrix \<Rightarrow> bool" where
  "unit_matrix m \<longleftrightarrow> (\<forall>a row b p. m a = Some row \<longrightarrow> row b = Some p \<longrightarrow> btw 0 1 p)"

text \<open>The searches visit every successor.\<close>

definition visits_all :: "TransitionMatrix \<Rightarrow> (string list \<Rightarrow> string list) \<Rightarrow> bool" where
  "visits_all m ord \<longleftrightarrow> (\<forall>path row. path \<noteq> [] \<longrightarrow> m (last path) = Some row \<longrightarrow> set (ord path) = dom row)"

lemma all_paths_cases:
  assumes "p \<in> set (all_paths ord m start depth)" "unit_matrix m"
  shows "\<exists>row nx q. m start = Some row \<and> row nx = Some q \<and> btw 0 1 (pp_Risk p) \<and> f64_le (pp_Risk p) q"
proof -
  obtain row where row: "m start = Some row" using assms(1) by (cases "m start") (simp_all add: all_paths_def)
  obtain nx q where q: "row nx = Some q" "p = one_step start nx q \<or> p \<in> set (further_paths ord m start nx q)"
    using assms(1) row by (auto simp: all_paths_def set_map_filter split: if_splits)
  have u: "btw 0 1 q" using assms(2) row q(1) by (auto simp: unit_matrix_def)
  have "btw 0 1 (pp_Risk p) \<and> f64_le (pp_Risk p) q"
  proof (cases "p = one_step start nx q")
    case True
    then show ?thesis using u by (cases q) (auto simp: one_step_def btw_def)
  next
    case False
    then obtain row2 sub q2 where r: "m nx = Some row2" "row2 sub = Some q2" "p = two_steps start nx sub (f64_mul q q2)"
      using q(2) False by (cases "m nx") (auto simp: further_paths_def set_map_filter)
    have u2: "btw 0 1 q2" using assms(2) r by (auto simp: unit_matrix_def)
    have "f64_le (f64_mul q q2) (f64_mul q f64_1)"
      by (rule f64_mul_mono_btw [OF u u u2, of 1]) (use btwD [OF u] btwD [OF u2] in auto)
    moreover have "wf64 q" using btw_wf [OF u] by simp
    ultimately show ?thesis using btw_mul [OF u u2] r(3) by (simp add: two_steps_def)
  qed
  then show ?thesis using row q(1) by blast
qed

lemma step_listed:
  assumes "visits_all m ord" "m start = Some row" "row nx = Some q"
  shows "one_step start nx q \<in> set (all_paths ord m start depth)"
proof -
  have "nx \<in> set (ord [start])" using assms by (auto simp: visits_all_def)
  moreover let ?f = "\<lambda>nx. map_option (\<lambda>p. (if depth > 1 then further_paths ord m start nx p else []) @ [one_step start nx p]) (row nx)"
  let ?ps = "(if depth > 1 then further_paths ord m start nx q else []) @ [one_step start nx q]"
  have "?f nx = Some ?ps" by (simp add: assms(3))
  ultimately have "?ps \<in> set (List.map_filter ?f (ord [start]))" unfolding set_map_filter by blast
  moreover have "one_step start nx q \<in> set ?ps" by simp
  ultimately show ?thesis unfolding all_paths_def assms(2) option.case set_concat by (rule UN_I)
qed

text \<open>The truncation to ten paths keeps one that is at least as risky as any.\<close>

lemma findPaths_keeps_best:
  assumes "sorts_paths srt" "unit_matrix m" "p \<in> set (all_paths ord m start depth)"
  shows "\<exists>p'\<in>set (findPaths srt ord m start depth). f64_le (pp_Risk p) (pp_Risk p')"
proof -
  let ?ps = "all_paths ord m start depth"
  have fin: "list_all (\<lambda>p. is_fin (pp_Risk p)) ?ps"
    using all_paths_cases [OF _ assms(2)] btw_wf by (fastforce simp: list_all_iff)
  have s: "set (srt ?ps) = set ?ps" "sorted_wrt (\<lambda>p q. f64_ge (pp_Risk p) (pp_Risk q)) (srt ?ps)"
    using assms(1) fin by (auto simp: sorts_paths_def)
  then obtain b bs where b: "srt ?ps = b # bs" using assms(3) by (cases "srt ?ps") auto
  have "is_fin (pp_Risk p)" using fin assms(3) by (auto simp: list_all_iff)
  then have "f64_le (pp_Risk p) (pp_Risk p)" by (cases "pp_Risk p") auto
  moreover have "p = b \<or> p \<in> set bs" using s(1) b assms(3) by auto
  ultimately have "f64_le (pp_Risk p) (pp_Risk b)" using s(2) b by auto
  then show ?thesis by (intro bexI [of _ b]) (simp_all add: findPaths_def b)
qed

lemma findPaths_subset: "sorts_paths srt \<Longrightarrow> set (findPaths srt ord m start depth) \<subseteq> set (all_paths ord m start depth)"
  using set_take_subset [of 10 "srt (all_paths ord m start depth)"] by (auto simp: findPaths_def sorts_paths_def)

lemma fold_max_risk:
  assumes "\<forall>p\<in>set ps. btw 0 1 (pp_Risk p)" "btw 0 1 r"
  defines "peak \<equiv> foldl (\<lambda>r p. if f64_gt (pp_Risk p) r then pp_Risk p else r) r ps"
  shows "btw 0 1 peak" "f64_le r peak" "\<forall>p\<in>set ps. f64_le (pp_Risk p) peak" "peak = r \<or> (\<exists>p\<in>set ps. peak = pp_Risk p)"
proof -
  have "btw 0 1 peak \<and> f64_le r peak \<and> (\<forall>p\<in>set ps. f64_le (pp_Risk p) peak) \<and> (peak = r \<or> (\<exists>p\<in>set ps. peak = pp_Risk p))"
    unfolding peak_def using assms(1,2)
  proof (induction ps arbitrary: r)
    case Nil
    then show ?case by (cases r) (auto simp: btw_def)
  next
    case (Cons p ps)
    let ?r = "if f64_gt (pp_Risk p) r then pp_Risk p else r"
    have r: "btw 0 1 ?r" "f64_le r ?r" "f64_le (pp_Risk p) ?r"
      using Cons.prems btwD [of 0 1 r] btwD [of 0 1 "pp_Risk p"] by auto
    show ?case using Cons.IH [OF _ r(1)] Cons.prems r f64_le_trans [OF r(2)] f64_le_trans [OF r(3)] by (auto split: if_splits)
  qed
  then show "btw 0 1 peak" "f64_le r peak" "\<forall>p\<in>set ps. f64_le (pp_Risk p) peak" "peak = r \<or> (\<exists>p\<in>set ps. peak = pp_Risk p)" by auto
qed

lemma le_antisym_btw: "btw 0 1 x \<Longrightarrow> btw 0 1 y \<Longrightarrow> f64_le x y \<Longrightarrow> f64_le y x \<Longrightarrow> x = y"
  by (cases x; cases y) auto

lemma round3_mono: "f64_le a b \<Longrightarrow> btw 0 1 a \<Longrightarrow> btw 0 1 b \<Longrightarrow> f64_le (round_to 1000 a) (round_to 1000 b)"
proof -
  assume le: "f64_le a b" and ab: "btw 0 1 a" "btw 0 1 b"
  have k: "btw 0 1000 (Fin 1000)" "lit 1000 = Fin 1000" using rep_of_int [of 1000] by simp_all
  have m: "f64_le (f64_mul a (Fin 1000)) (f64_mul b (Fin 1000))"
    by (rule f64_mul_mono_btw [OF ab k(1) k(1) le]) simp
  have "btw (of_int 0) (of_int 1000) (f64_round (f64_mul x (Fin 1000)))" if "btw 0 1 x" for x
    by (rule btw_round) (use btw_mul [OF that k(1)] in simp_all)
  from f64_div_mono_btw [OF this [OF ab(1)] this [OF ab(2)] f64_round_mono [OF m], of 1000] show ?thesis by (simp add: round_to_def k(2))
qed

lemma risk_paths:
  assumes "p \<in> set (concat (map (\<lambda>(i, start). findPaths srt (ords i) m start depth) (enumerate 0 detected)))"
    and "sorts_paths srt"
  shows "\<exists>i start. start \<in> set detected \<and> p \<in> set (all_paths (ords i) m start depth)"
  using assms(1) findPaths_subset [OF assms(2)] by (auto simp: in_set_enumerate_eq) (metis nth_mem subsetD)

lemma risk_facts:
  assumes "sorts_paths srt" "unit_matrix m" "\<And>i. visits_all m (ords i)"
  shows "let k = PredictRisk srt ords tactics m now host detected depth
    in (\<forall>start row nx q. start \<in> set detected \<and> m start = Some row \<and> row nx = Some q \<longrightarrow>
            f64_le (round_to 1000 q) (pk_MaxRiskScore k)) \<and>
       (pk_MaxRiskScore k = round_to 1000 f64_0 \<or>
        (\<exists>start row nx q. start \<in> set detected \<and> m start = Some row \<and> row nx = Some q \<and> pk_MaxRiskScore k = round_to 1000 q)) \<and>
       btw (3 / 4) 1 (pk_EnhancedThreat k)"
proof -
  define k where "k = PredictRisk srt ords tactics m now host detected depth"
  define d where "d = (if depth \<le> 0 then 3 else depth)"
  define ps where "ps = concat (map (\<lambda>(i, start). findPaths srt (ords i) m start d) (enumerate 0 detected))"
  define peak where "peak = foldl (\<lambda>r p. if f64_gt (pp_Risk p) r then pp_Risk p else r) f64_0 ps"
  have k: "pk_MaxRiskScore k = round_to 1000 peak"
    "pk_EnhancedThreat k = f64_max (lit (75 / 100)) (f64_sub f64_1 (f64_mul (round_to 1000 peak) (lit (25 / 100))))"
    by (simp_all add: k_def PredictRisk_def d_def ps_def peak_def Let_def)
  have in_ps: "\<exists>i start. start \<in> set detected \<and> p \<in> set (all_paths (ords i) m start d)" if "p \<in> set ps" for p
    using risk_paths [OF that [unfolded ps_def] assms(1)] .
  have u: "\<forall>p\<in>set ps. btw 0 1 (pp_Risk p)" using in_ps all_paths_cases [OF _ assms(2)] by blast
  have z: "btw 0 1 f64_0" by simp
  note peak = fold_max_risk [OF u z, folded peak_def]
  have best: "f64_le q peak" "btw 0 1 q" if h: "start \<in> set detected" "m start = Some row" "row nx = Some q" for start row nx q
  proof -
    obtain i where i: "i < length detected" "detected ! i = start" using h(1) by (auto simp: in_set_conv_nth)
    obtain p where p: "p \<in> set (findPaths srt (ords i) m start d)" "f64_le q (pp_Risk p)"
      using findPaths_keeps_best [OF assms(1,2) step_listed [OF assms(3) h(2,3)]] by (auto simp: one_step_def)
    have "p \<in> set ps" using p(1) i by (auto simp: ps_def in_set_enumerate_eq intro!: bexI [of _ "(i, start)"])
    then show "f64_le q peak" using p(2) peak(3) f64_le_trans by blast
    show "btw 0 1 q" using assms(2) h by (auto simp: unit_matrix_def)
  qed
  have 1: "f64_le (round_to 1000 q) (pk_MaxRiskScore k)" if "start \<in> set detected \<and> m start = Some row \<and> row nx = Some q" for start row nx q
    using best [of start row nx q] that peak(1) by (simp add: k round3_mono)
  have 2: "pk_MaxRiskScore k = round_to 1000 f64_0 \<or>
     (\<exists>start row nx q. start \<in> set detected \<and> m start = Some row \<and> row nx = Some q \<and> pk_MaxRiskScore k = round_to 1000 q)"
  proof (cases "peak = f64_0")
    case False
    then obtain p where p: "p \<in> set ps" "peak = pp_Risk p" using peak(4) by blast
    obtain i start row nx q where q: "start \<in> set detected" "m start = Some row" "row nx = Some q" "f64_le peak q"
      using in_ps [OF p(1)] all_paths_cases [OF _ assms(2)] p(2) by metis
    have "peak = q" by (rule le_antisym_btw [OF peak(1) best(2) [OF q(1-3)] q(4) best(1) [OF q(1-3)]])
    then show ?thesis using q(1-3) k(1) by blast
  qed (simp add: k)
  have q: "lit (25 / 100) = Fin (1 / 4)" "lit (75 / 100) = Fin (3 / 4)" by simp_all
  have "btw 0 (1 * (1 / 4)) (f64_mul (round_to 1000 peak) (Fin (1 / 4)))" by (rule btw_mul [OF round3_unit [OF peak(1)]]) simp_all
  from btw_sub_from [OF this, of 1] have "btw (3 / 4) 1 (f64_sub f64_1 (f64_mul (round_to 1000 peak) (Fin (1 / 4))))" by simp
  then have "btw (3 / 4) 1 (pk_EnhancedThreat k)"
    unfolding k(2) q by (cases "f64_sub f64_1 (f64_mul (round_to 1000 peak) (Fin (1 / 4)))") auto
  then show ?thesis using 1 2 unfolding Let_def k_def [symmetric] by blast
qed

lemma enhanced_threat_btw:
  assumes "sorts_paths srt" "unit_matrix m" "\<And>i. visits_all m (ords i)"
  shows "btw (3 / 4) 1 (pk_EnhancedThreat (PredictRisk srt ords tactics m now host detected depth))"
  by (rule conjunct2 [OF conjunct2 [OF risk_facts [unfolded Let_def]]]) fact+

text \<open>The risk score is the probability of the likeliest single step out of a detected technique, rounded: neither the
  second steps nor the truncation to ten paths change it. The threat coefficient lies between 0.75 and 1.\<close>

theorem max_risk_is_best_step:
  assumes "sorts_paths srt" "unit_matrix m" "\<And>i. visits_all m (ords i)"
  shows "let k = PredictRisk srt ords tactics m now host detected depth
    in (\<forall>start row nx q. start \<in> set detected \<and> m start = Some row \<and> row nx = Some q \<longrightarrow>
            f64_le (round_to 1000 q) (pk_MaxRiskScore k)) \<and>
       (pk_MaxRiskScore k = round_to 1000 f64_0 \<or>
        (\<exists>start row nx q. start \<in> set detected \<and> m start = Some row \<and> row nx = Some q \<and> pk_MaxRiskScore k = round_to 1000 q)) \<and>
       btw (3 / 4) 1 (pk_EnhancedThreat k)"
  by (rule risk_facts) fact+

lemma probability_lit: "0 \<le> x \<Longrightarrow> x \<le> 1 \<Longrightarrow> btw 0 1 (lit x)"
  by (rule btw_of_rat) simp_all

lemma default_unit: "unit_matrix buildTransitionMatrix"
proof -
  have "list_all (\<lambda>(a, row). list_all (\<lambda>(b, p). btw 0 1 p) row) default_transitions"
    by (simp add: default_transitions_def probability_lit)
  then show ?thesis
    by (fastforce simp: unit_matrix_def buildTransitionMatrix_def list_all_iff dest: map_of_SomeD)
qed

definition listed_successors :: "string list \<Rightarrow> string list" where
  "listed_successors path = (case map_of default_transitions (last path) of None \<Rightarrow> [] | Some row \<Rightarrow> map fst row)"

lemma listed_visits_all: "visits_all buildTransitionMatrix listed_successors"
  by (clarsimp simp: visits_all_def listed_successors_def buildTransitionMatrix_def) (simp add: dom_map_of_conv_image_fst)

definition sort_risks :: "PredictedPath list \<Rightarrow> PredictedPath list" where
  "sort_risks = sort_key (\<lambda>p. - val (pp_Risk p))"

lemma sort_risks_sorts: "sorts_paths sort_risks"
proof -
  have "sorted_wrt (\<lambda>p q. f64_ge (pp_Risk p) (pp_Risk q)) (sort_risks ps)" if f: "list_all (\<lambda>p. is_fin (pp_Risk p)) ps" for ps
  proof -
    have "sorted_wrt (\<lambda>p q. - val (pp_Risk p) \<le> - val (pp_Risk q)) (sort_risks ps)"
      using sorted_sort_key [of "\<lambda>p. - val (pp_Risk p)" ps] by (simp add: sort_risks_def sorted_map)
    moreover have "f64_ge (pp_Risk p) (pp_Risk q)"
      if "p \<in> set (sort_risks ps)" "q \<in> set (sort_risks ps)" "- val (pp_Risk p) \<le> - val (pp_Risk q)" for p q
    proof -
      have "is_fin (pp_Risk p)" "is_fin (pp_Risk q)" using f that(1,2) by (auto simp: sort_risks_def list_all_iff)
      then show ?thesis using that(3) by (cases "pp_Risk p"; cases "pp_Risk q") auto
    qed
    ultimately show ?thesis by (rule sorted_wrt_mono_rel [rotated]) blast
  qed
  then show ?thesis by (simp add: sorts_paths_def) (simp add: sort_risks_def)
qed

lemma max_risk_is_best_step_witness:
  "let k = PredictRisk sort_risks (\<lambda>_. listed_successors) loadDefaultMatrix buildTransitionMatrix 0 ''h'' [''T1190''] 3
   in f64_le (round_to 1000 (lit (7 / 10))) (pk_MaxRiskScore k) \<and> btw (3 / 4) 1 (pk_EnhancedThreat k)"
proof -
  define row where "row = map_of [(''T1059'', lit (7 / 10)), (''T1003'', lit (5 / 10)), (''T1082'', lit (4 / 10)), (''T1021'', lit (3 / 10))]"
  have r: "''T1190'' \<in> set [''T1190''] \<and> buildTransitionMatrix ''T1190'' = Some row \<and> row ''T1059'' = Some (lit (7 / 10))"
    by (simp add: buildTransitionMatrix_def default_transitions_def row_def)
  note f = max_risk_is_best_step [OF sort_risks_sorts default_unit listed_visits_all, unfolded Let_def]
  show ?thesis unfolding Let_def using conjunct1 [OF f, rule_format, OF r] conjunct2 [OF conjunct2 [OF f]] by blast
qed

text \<open>Any depth of two or more gives the same paths, the default 3 included.\<close>

lemma depth_beyond_two_ignored: "1 < depth \<Longrightarrow> findPaths srt ord m start depth = findPaths srt ord m start 2"
proof -
  assume "1 < depth"
  then have "(1 < depth) = (1 < (2::int))" by simp
  then show ?thesis by (simp only: findPaths_def all_paths_def)
qed

section \<open>The pipeline asks for groups by tactic\<close>

lemma not_above_one: "btw a 1 x \<Longrightarrow> \<not> f64_gt x f64_1"
  by (cases x) (auto simp: btw_def)

lemma match_none: "set detected \<inter> set order = {} \<Longrightarrow> match_group detected order g = None"
proof -
  assume "set detected \<inter> set order = {}"
  then have "filter (\<lambda>t. t \<in> set detected) order = []" by (auto simp: filter_empty_conv)
  then show ?thesis by (simp add: match_group_def Let_def)
qed

lemmas technique_tables =
  techniques_G0016_def techniques_G0096_def techniques_G0032_def techniques_G0007_def techniques_G0046_def

lemmas apt_defs = apt_G0016_def apt_G0096_def apt_G0032_def apt_G0007_def apt_G0046_def

lemma groups_know_no_tactics:
  assumes "loadDefaultAPTProfiles gid = Some g"
  shows "set (map tac_ID loadDefaultMatrix) \<inter> dom (agp_Techniques g) = {}"
proof -
  have "g \<in> {apt_G0016, apt_G0096, apt_G0032, apt_G0007, apt_G0046}"
    using assms by (auto simp: loadDefaultAPTProfiles_def split: if_splits)
  then show ?thesis unfolding default_ids by (elim insertE emptyE) (simp_all add: apt_defs technique_tables dom_map_of_conv_image_fst)
qed

lemma weak_tactics_ids: "set (weak_tactics (CalculateCoverage ts results)) \<subseteq> set (map tac_ID ts)"
  by (auto simp: weak_tactics_def CalculateCoverage_def tactic_coverage_def Let_def)

text \<open>The pipeline hands the identifiers of weak tactics to a search over techniques: with the default tables it never
  reports a group, whatever the assessment. The message of an enhanced threat is never sent either, as the coefficient it
  looks for is above 1.\<close>

theorem pipeline_never_matches_groups:
  assumes "ae_sort_matches ae [] = []" "sorts_paths (ae_sort_paths ae)"
    and "\<And>i. visits_all buildTransitionMatrix (ae_successors ae i)"
    and "\<And>gid g. loadDefaultAPTProfiles gid = Some g \<Longrightarrow> set (ae_techniques ae gid) = dom (agp_Techniques g)"
  shows "let out = analyse ae parts (default_module\<lparr>at_history := h\<rparr>) r
    in ha_APTMatches (ao_record out) = [] \<and> ao_published out = [] \<and> \<not> ao_threat_enhanced out"
proof -
  have none: "match_group (weak_tactics (CalculateCoverage loadDefaultMatrix results)) (ae_techniques ae gid) g = None"
    if "loadDefaultAPTProfiles gid = Some g" for gid g results
    by (rule match_none) (use groups_know_no_tactics [OF that] weak_tactics_ids assms(4) [OF that] in fastforce)
  have m: "MatchAPTGroup (ae_sort_matches ae) (ae_groups ae) (ae_techniques ae) loadDefaultAPTProfiles
      (weak_tactics (CalculateCoverage loadDefaultMatrix results)) = ([], [])" for results
  proof -
    have "List.map_filter (\<lambda>gid. case loadDefaultAPTProfiles gid of None \<Rightarrow> None
        | Some g \<Rightarrow> match_group (weak_tactics (CalculateCoverage loadDefaultMatrix results)) (ae_techniques ae gid) g) gs = []" for gs
      by (induction gs) (simp_all add: List.map_filter_simps none split: option.split)
    then show ?thesis by (simp add: MatchAPTGroup_def assms(1) Let_def)
  qed
  have "btw (3 / 4) 1 (pk_EnhancedThreat (PredictRisk (ae_sort_paths ae) (ae_successors ae) ts buildTransitionMatrix now host techs 3))"
    for ts now host techs
    using enhanced_threat_btw [OF assms(2) default_unit assms(3)] .
  then have "\<not> f64_gt (pk_EnhancedThreat (PredictRisk (ae_sort_paths ae) (ae_successors ae) ts buildTransitionMatrix now host techs 3)) f64_1"
    for ts now host techs
    by (rule not_above_one)
  then show ?thesis by (simp add: analyse_def default_module_def m Let_def split: option.split prod.split)
qed

definition listed_techniques :: "string \<Rightarrow> string list" where
  "listed_techniques gid =
     (case map_of [(''G0016'', techniques_G0016), (''G0096'', techniques_G0096), (''G0032'', techniques_G0032),
                   (''G0007'', techniques_G0007), (''G0046'', techniques_G0046)] gid of None \<Rightarrow> [] | Some ts \<Rightarrow> map fst ts)"

lemma listed_techniques_all: "loadDefaultAPTProfiles gid = Some g \<Longrightarrow> set (listed_techniques gid) = dom (agp_Techniques g)"
proof -
  assume "loadDefaultAPTProfiles gid = Some g"
  then have "gid = ''G0016'' \<and> g = apt_G0016 \<or> gid = ''G0096'' \<and> g = apt_G0096 \<or> gid = ''G0032'' \<and> g = apt_G0032 \<or>
      gid = ''G0007'' \<and> g = apt_G0007 \<or> gid = ''G0046'' \<and> g = apt_G0046"
    by (auto simp: loadDefaultAPTProfiles_def split: if_splits)
  then show ?thesis by (elim disjE conjE) (simp_all add: listed_techniques_def apt_defs dom_map_of_conv_image_fst)
qed

definition default_env :: attck_env where
  "default_env =
     \<lparr>ae_sort_matches = (\<lambda>xs. xs), ae_groups = [''G0016'', ''G0096'', ''G0032'', ''G0007'', ''G0046''], ae_techniques = listed_techniques,
      ae_sort_paths = sort_risks, ae_successors = (\<lambda>_. listed_successors), ae_time = 0\<rparr>"

lemma pipeline_never_matches_groups_witness:
  "\<forall>parts r. ha_APTMatches (ao_record (analyse default_env parts default_module r)) = []"
proof (intro allI)
  fix parts r
  have "default_module\<lparr>at_history := Map.empty\<rparr> = default_module" by (simp add: default_module_def)
  then show "ha_APTMatches (ao_record (analyse default_env parts default_module r)) = []"
    using pipeline_never_matches_groups [of default_env parts Map.empty r]
    by (simp add: default_env_def sort_risks_sorts listed_visits_all listed_techniques_all Let_def)
qed

section \<open>Coverage and kill chain read an absent result differently\<close>

abbreviation checks_of :: "ATTACKTactic \<Rightarrow> string list" where
  "checks_of t \<equiv> concat (map tq_AsscorChecks (tac_Techniques t))"

lemma length_concat_le: "(\<And>x. x \<in> set xs \<Longrightarrow> length (f x) \<le> n) \<Longrightarrow> length (concat (map f xs)) \<le> length xs * n"
  by (induction xs) (auto intro: add_mono)

lemma buildTechniques_checks:
  "map tq_AsscorChecks (buildTechniques ids m) = map (\<lambda>tid. case m tid of None \<Rightarrow> [] | Some cs \<Rightarrow> cs) ids"
  by (simp add: buildTechniques_def Let_def)

lemma checks_of_default_length:
  "length (concat (map tq_AsscorChecks (buildTechniques ids (map_of cs)))) \<le> length ids * sum_list (map (length \<circ> snd) cs)"
  unfolding buildTechniques_checks
proof (rule length_concat_le)
  fix tid
  show "length (case map_of cs tid of None \<Rightarrow> [] | Some v \<Rightarrow> v) \<le> sum_list (map (length \<circ> snd) cs)"
  proof (cases "map_of cs tid")
    case (Some v)
    then have "length v \<in> set (map (length \<circ> snd) cs)" by (force dest: map_of_SomeD)
    then show ?thesis using Some by (simp add: member_le_sum_list)
  qed simp
qed

lemma checks_of_default_nonempty:
  "k \<in> set ids \<Longrightarrow> v \<noteq> [] \<Longrightarrow> concat (map tq_AsscorChecks (buildTechniques ids (map_of ((k, v) # cs)))) \<noteq> []"
  unfolding buildTechniques_checks by (auto split: option.splits)

definition modest_checks :: "ATTACKTactic \<Rightarrow> bool" where
  "modest_checks t \<longleftrightarrow> checks_of t \<noteq> [] \<and> length (checks_of t) \<le> 1000"

lemma modest_default:
  "k \<in> set ids \<Longrightarrow> v \<noteq> [] \<Longrightarrow> length ids * sum_list (map (length \<circ> snd) ((k, v) # cs)) \<le> 1000 \<Longrightarrow>
   modest_checks (default_tactic tid n dn de ids ((k, v) # cs))"
  using checks_of_default_length [of ids "(k, v) # cs"] checks_of_default_nonempty [of k ids v cs] by (auto simp: modest_checks_def)

lemma default_modest: "list_all modest_checks loadDefaultMatrix"
  unfolding loadDefaultMatrix_def tactic_defs list.pred_inject by (intro conjI TrueI modest_default) simp_all

lemma stage_checks_length:
  assumes "list_all modest_checks ts"
  shows "length (stage_checks ts ids) \<le> length ids * (length ts * 1000)"
  unfolding stage_checks_def using assms by (intro length_concat_le) (auto simp: list_all_iff modest_checks_def)

lemma stage_checks_nonempty:
  assumes "list_all modest_checks ts" "list_ex (\<lambda>tid. tid \<in> set (map tac_ID ts)) ids"
  shows "stage_checks ts ids \<noteq> []"
proof -
  obtain t where t: "t \<in> set ts" "tac_ID t \<in> set ids" using assms(2) by (auto simp: list_ex_iff)
  then obtain c where "c \<in> set (checks_of t)" using assms(1) by (cases "checks_of t") (auto simp: list_all_iff modest_checks_def)
  then have "c \<in> set (concat (map (\<lambda>u. if tac_ID u \<noteq> tac_ID t then [] else checks_of u) ts))" using t(1) by auto
  then have "c \<in> set (stage_checks ts ids)" unfolding stage_checks_def using t(2) by auto
  then show ?thesis by auto
qed

lemma unrun_stage:
  assumes "stage_checks ts (ks_Tactics s) \<noteq> []" "length (stage_checks ts (ks_Tactics s)) \<le> 2 ^ 20"
  shows "ks_Score (assess_stage ts (Some Map.empty) s) = f64_0" "ks_Status (assess_stage ts (Some Map.empty) s) = ''critical''"
proof -
  let ?n = "length (stage_checks ts (ks_Tactics s))"
  have n: "f64_of_int (int ?n) = Fin (of_nat ?n)" by (rule of_count) (rule assms(2))
  have f: "filter (check_passes (Some Map.empty)) cs = []" for cs by (simp add: check_passes_def filter_empty_conv)
  have z: "f64_of_int 0 = f64_0" by (simp add: f64_of_int_def)
  have sc: "stage_status f64_0 = ''critical''"
  proof -
    have "rep 80" "rep 60" "rep 40" using rep_of_int [of 80] rep_of_int [of 60] rep_of_int [of 40] by simp_all
    then show ?thesis by (simp add: stage_status_def)
  qed
  have "f64_mul (f64_div f64_0 (Fin (of_nat ?n))) (lit 100) = f64_0" using assms(1) by (simp add: lit_100)
  then show "ks_Score (assess_stage ts (Some Map.empty) s) = f64_0" "ks_Status (assess_stage ts (Some Map.empty) s) = ''critical''"
    using assms(1) by (simp_all add: assess_stage_def f z n sc Let_def)
qed

lemma default_stages: "s \<in> set kill_chain_stages \<Longrightarrow>
  list_ex (\<lambda>tid. tid \<in> set (map tac_ID loadDefaultMatrix)) (ks_Tactics s) \<and> length (ks_Tactics s) \<le> 2"
  unfolding default_ids by (auto simp: kill_chain_stages_def stage_def)

text \<open>On a host of which no check was run, coverage counts every mapped technique as covered, as it does without any results,
  while the kill chain has every stage critical at score 0.\<close>

theorem unrun_checks_read_differently:
  "CalculateCoverage ts (Some Map.empty) = CalculateCoverage ts None \<and>
   list_all (\<lambda>s. ks_Score s = f64_0 \<and> ks_Status s = ''critical'')
     (ka_Stages (AssessKillChain loadDefaultMatrix now host (Some Map.empty)))"
proof
  have "technique_holds (Some Map.empty) = technique_holds None" by (auto simp: technique_holds_def technique_failed_def list_ex_iff)
  then show "CalculateCoverage ts (Some Map.empty) = CalculateCoverage ts None"
    by (simp add: CalculateCoverage_def tactic_coverage_def Let_def)
  show "list_all (\<lambda>s. ks_Score s = f64_0 \<and> ks_Status s = ''critical'')
     (ka_Stages (AssessKillChain loadDefaultMatrix now host (Some Map.empty)))"
  proof -
    have "ks_Score (assess_stage loadDefaultMatrix (Some Map.empty) s) = f64_0 \<and>
        ks_Status (assess_stage loadDefaultMatrix (Some Map.empty) s) = ''critical''" if s: "s \<in> set kill_chain_stages" for s
    proof -
      have "length loadDefaultMatrix = 14" by (simp add: loadDefaultMatrix_def)
      then have "length (ks_Tactics s) * (length loadDefaultMatrix * 1000) \<le> 2 ^ 20" using default_stages [OF s] by simp
      then have "length (stage_checks loadDefaultMatrix (ks_Tactics s)) \<le> 2 ^ 20"
        using stage_checks_length [OF default_modest, of "ks_Tactics s"] by linarith
      then show ?thesis using unrun_stage stage_checks_nonempty [OF default_modest] default_stages [OF s] by blast
    qed
    then show ?thesis by (simp add: AssessKillChain_def assessKillChain_def case_prod_beta Let_def list_all_iff)
  qed
qed

section \<open>History and updates\<close>

lemma keep_last_snoc: "keep_last n (keep_last n xs @ [x]) = keep_last n (xs @ [x])"
  by (cases "length xs \<le> n") (simp_all add: keep_last_def Suc_diff_le drop_Cons')

lemma history_of_empty: "history_of Map.empty host = keep_last n []"
  by (simp add: history_of_def keep_last_def)

lemma history_of_store:
  "history_of (storeAnalysisRecord r h) host =
     (if ha_HostID r = host then keep_last 50 (history_of h host @ [r]) else history_of h host)"
  by (simp add: history_of_def storeAnalysisRecord_def)

text \<open>The history of a host is what it was sent last, at most fifty records, the newest at the end.\<close>

theorem history_is_recent_suffix:
  "history_of (foldl (\<lambda>h r. storeAnalysisRecord r h) Map.empty rs) host = keep_last 50 (filter (\<lambda>r. ha_HostID r = host) rs)"
  by (induction rs rule: rev_induct) (simp_all add: history_of_store keep_last_snoc history_of_empty)

text \<open>A new mapping reaches the first tactic that lists the technique; the other tactics keep the old checks.\<close>

theorem mapping_update_reaches_one_tactic:
  "let ts = UpdateCheckMapping ''T1078'' [''OT-099''] loadDefaultMatrix
   in map tq_AsscorChecks (filter (\<lambda>q. tq_ID q = ''T1078'') (GetTechniquesByTactic ''TA0001'' ts)) = [[''OT-099'']] \<and>
      map tq_AsscorChecks (filter (\<lambda>q. tq_ID q = ''T1078'') (GetTechniquesByTactic ''TA0003'' ts)) = [[''OT-004'', ''OT-012'']]"
  by (simp add: loadDefaultMatrix_def tactic_defs default_tactic_def buildTechniques_def GetTechniquesByTactic_def map_checks_def Let_def)

lemma add_technique_distinct:
  "list_all (\<lambda>t. distinct (map tq_ID (tac_Techniques t))) ts \<Longrightarrow>
   list_all (\<lambda>t. distinct (map tq_ID (tac_Techniques t))) (AddTechniqueToTactic tid q ts)"
  by (induction ts) auto

end
