(* ===== verification/Ssam_Engine.thy ===== *)
theory Ssam_Engine
  imports Assessor Edge_Assembly
begin

text \<open>
  The scoring engine of \<open>internal/engine/ssam\<close> around the library of theory \<open>Ssam_Formula\<close>: \<open>engine.go\<close> (configuration,
  custom formulas, hooks, \<open>ComputeScore\<close>), \<open>adapter.go\<close> (the conversions between configuration, model and library) and
  \<open>adapter_engine.go\<close> (the adapter the assessor uses as its plugin, with the stamp of the edge factor model). The edge
  factor state and its hooks are those of theory \<open>Edge_Assembly\<close>.
\<close>

section \<open>The engine\<close>

datatype engine_error = LibraryError SSAMError | ContextError string

definition ErrNilInput :: SSAMError where
  "ErrNilInput = SSAMError ''nil_input'' ''assessment input must not be nil''"

text \<open>What a hook can write to: its input, its output, and the arrays of domain scores and edge factors that the output shares
  with the local variables of \<open>ComputeScore\<close>.\<close>

record hook_view =
  hv_input :: AssessmentInput
  hv_output :: AssessmentOutput
  hv_scores :: "DomainScore list"
  hv_factors :: "EdgeFactorResult list"

type_synonym engine_hook = "hook_view \<Rightarrow> hook_view \<times> string option"

record ssam_engine =
  eg_cfg :: ScoringConfig
  eg_formulas :: "string \<rightharpoonup> ScoringFormula option"
  eg_hooks :: "engine_hook hook_table"
  eg_edge :: edge_state

text \<open>The hooks of the library are global to the process, so a new engine finds those that are installed.\<close>

definition NewEngine :: "hooks \<Rightarrow> ssam_engine" where
  "NewEngine hk =
     \<lparr>eg_cfg = DefaultScoringConfig, eg_formulas = Map.empty, eg_hooks = Map.empty,
      eg_edge = \<lparr>es_params = legacyOnlyParams\<lparr>p_Model := []\<rparr>, es_loaded = False, es_hooks = hk\<rparr>\<rparr>"

fun run_engine_hooks :: "engine_hook hookRegistration list \<Rightarrow> hook_view \<Rightarrow> hook_view \<times> string list" where
  "run_engine_hooks [] v = (v, [])"
| "run_engine_hooks (h # hs) v =
     (let (v1, err) = hr_hook h v; (v2, errs) = run_engine_hooks hs v1 in (v2, (case err of None \<Rightarrow> errs | Some e \<Rightarrow> e # errs)))"

definition ExecuteHooks :: "ssam_engine \<Rightarrow> string \<Rightarrow> hook_view \<Rightarrow> hook_view" where
  "ExecuteHooks en phase v = fst (run_engine_hooks (hooks_at (eg_hooks en) phase) v)"

definition engine_RegisterHook ::
    "(engine_hook hookRegistration list \<Rightarrow> engine_hook hookRegistration list) \<Rightarrow> string \<Rightarrow> string \<Rightarrow> engine_hook \<Rightarrow> int \<Rightarrow>
     ssam_engine \<Rightarrow> ssam_engine" where
  "engine_RegisterHook srt phase hid hook prio en = en\<lparr>eg_hooks := HookRegistry_Register srt hid phase hook prio (eg_hooks en)\<rparr>"

definition engine_UnregisterHook :: "string \<Rightarrow> ssam_engine \<Rightarrow> ssam_engine" where
  "engine_UnregisterHook hid en = en\<lparr>eg_hooks := HookRegistry_Unregister hid (eg_hooks en)\<rparr>"

definition SetWeights :: "WeightConfig list \<Rightarrow> ssam_engine \<Rightarrow> ssam_engine" where
  "SetWeights ws en = en\<lparr>eg_cfg := (eg_cfg en)\<lparr>sc_Weights := ws\<rparr>\<rparr>"

definition SetFormula :: "string \<Rightarrow> ssam_engine \<Rightarrow> ssam_engine" where
  "SetFormula fid en = en\<lparr>eg_cfg := (eg_cfg en)\<lparr>sc_FormulaID := fid\<rparr>\<rparr>"

text \<open>A registered formula may be \<open>nil\<close>; it is selected at once.\<close>

definition RegisterFormula :: "string \<Rightarrow> ScoringFormula option \<Rightarrow> ssam_engine \<Rightarrow> ssam_engine" where
  "RegisterFormula fid f en = SetFormula fid (en\<lparr>eg_formulas := (eg_formulas en)(fid \<mapsto> f)\<rparr>)"

definition SetEdgeFactors :: "EdgeFactorConfig list \<Rightarrow> ssam_engine \<Rightarrow> ssam_engine" where
  "SetEdgeFactors fs en = en\<lparr>eg_cfg := (eg_cfg en)\<lparr>sc_EdgeFactors := fs\<rparr>\<rparr>"

definition SetConfidencePolicy :: "ConfidencePolicy \<Rightarrow> ssam_engine \<Rightarrow> ssam_engine" where
  "SetConfidencePolicy p en = en\<lparr>eg_cfg := (eg_cfg en)\<lparr>sc_ConfidencePolicy := p\<rparr>\<rparr>"

definition SetAcceptByLowerBound :: "bool \<Rightarrow> ssam_engine \<Rightarrow> ssam_engine" where
  "SetAcceptByLowerBound b en = en\<lparr>eg_cfg := (eg_cfg en)\<lparr>sc_AcceptByLowerBound := b\<rparr>\<rparr>"

definition engine_ListEdgeFactors :: "(EdgeFactorResult list \<Rightarrow> EdgeFactorResult list) \<Rightarrow> ssam_engine \<Rightarrow> EdgeFactorResult list" where
  "engine_ListEdgeFactors srt en =
     srt (map (\<lambda>c. \<lparr>efr_ID = efc_ID c, efr_Name = efc_Name c, efr_Factor = efc_Factor c, efr_Active = False, efr_TriggerConfidence = f64_0\<rparr>)
       (sc_EdgeFactors (eg_cfg en)))"

definition engine_ListDomains :: "ssam_engine \<Rightarrow> string list" where
  "engine_ListDomains en = sort (map wc_Domain (sc_Weights (eg_cfg en)))"

definition GetDefaultWeight :: "ssam_engine \<Rightarrow> string \<Rightarrow> f64" where
  "GetDefaultWeight en dn =
     (case find (\<lambda>w. wc_Domain w = dn) (sc_Weights (eg_cfg en)) of None \<Rightarrow> f64_0 | Some w \<Rightarrow> wc_Weight w)"

text \<open>\<open>order\<close> is the map order of the default weights.\<close>

definition ssam_InitializeDefaults :: "string list \<Rightarrow> (string \<rightharpoonup> f64) \<Rightarrow> EdgeFactorConfig list \<Rightarrow> ssam_engine \<Rightarrow> ssam_engine" where
  "ssam_InitializeDefaults order ws fs en =
     (let cf = eg_cfg en;
          cf = (if sc_Weights cf = [] \<and> ws \<noteq> Map.empty
                then cf\<lparr>sc_Weights := List.map_filter (\<lambda>dn. map_option (\<lambda>w. \<lparr>wc_Domain = dn, wc_Weight = w\<rparr>) (ws dn)) order\<rparr> else cf);
          cf = (if sc_EdgeFactors cf = [] \<and> fs \<noteq> [] then cf\<lparr>sc_EdgeFactors := fs\<rparr> else cf)
      in en\<lparr>eg_cfg := cf\<rparr>)"

definition buildCustomFactorMap :: "ssam_engine \<Rightarrow> (string \<rightharpoonup> f64)" where
  "buildCustomFactorMap en = foldl (\<lambda>m f. m(efc_ID f \<mapsto> efc_Factor f)) Map.empty (sc_EdgeFactors (eg_cfg en))"

section \<open>Scoring\<close>

definition threat_or_one :: "f64 \<Rightarrow> f64" where
  "threat_or_one t = (if f64_eq t f64_0 then f64_1 else t)"

definition spc_floored :: "f64 \<Rightarrow> f64" where
  "spc_floored s = (let s = (if f64_eq s f64_0 then f64_1 else s) in if f64_lt s (lit (6 / 10)) then lit (6 / 10) else s)"

definition start_output :: "AssessmentInput \<Rightarrow> AssessmentOutput" where
  "start_output i =
     \<lparr>ao_HostID = ai_HostID i, ao_FinalScore = f64_0, ao_Acceptable = False, ao_Threshold = ai_Threshold i, ao_DomainScores = [],
      ao_EdgeFactors = [], ao_ThreatCoeff = threat_or_one (ai_ThreatCoeff i), ao_SPCScore = spc_floored (ai_SPCScore i),
      ao_FormulaID = [], ao_Metadata = Map.empty, ao_FinalSigma = f64_0, ao_Lower95 = f64_0, ao_Upper95 = f64_0,
      ao_EvidenceConfidence = f64_0\<rparr>"

definition custom_or_v20 :: "ssam_engine \<Rightarrow> hook_view \<Rightarrow> f64" where
  "custom_or_v20 en v =
     (let cf = eg_cfg en; out = hv_output v
      in case eg_formulas en (sc_FormulaID cf) of
           Some (Some formula) \<Rightarrow> formula (hv_scores v) (sc_Weights cf) (ao_ThreatCoeff out) (ao_SPCScore out) (hv_factors v)
         | _ \<Rightarrow> fs_Total (SSAMV20Formula (es_hooks (eg_edge en)) (hv_scores v) (sc_Weights cf)
                  \<lparr>rc_Intrinsic = f64_0, rc_Exposure = ao_SPCScore out, rc_Threat = ao_ThreatCoeff out\<rparr> (hv_factors v)))"

definition finish_score :: "ssam_engine \<Rightarrow> hook_view \<Rightarrow> AssessmentOutput" where
  "finish_score en v =
     (let cf = eg_cfg en; score = round2 (custom_or_v20 en v); sigma = FinalBayesStats (sc_Weights cf) (hv_scores v);
          (lo, up) = ConfidenceInterval score sigma; out = hv_output v
      in out\<lparr>ao_FinalScore := score, ao_FormulaID := sc_FormulaID cf, ao_FinalSigma := sigma, ao_Lower95 := lo, ao_Upper95 := up,
             ao_EvidenceConfidence := AggregateNodeConfidence (sc_Weights cf) (hv_scores v),
             ao_Acceptable := AcceptanceDecision score lo (ao_Threshold out) (sc_AcceptByLowerBound cf)\<rparr>)"

text \<open>The scores go to the output before the hooks of their phase run. \<open>ctx i\<close> is the error of the context at the \<open>i\<close>th
  look at it, \<open>order\<close> the order of the edge factors in their map.\<close>

definition scored_view :: "ssam_engine \<Rightarrow> AssessmentInput \<Rightarrow> hook_view" where
  "scored_view en i =
     (let v = ExecuteHooks en ''pre_score'' \<lparr>hv_input = i, hv_output = start_output i, hv_scores = [], hv_factors = []\<rparr>;
          ds = ComputeDomainScoresBayes (sc_Weights (eg_cfg en)) (ai_Checks (hv_input v)) (sc_ConfidencePolicy (eg_cfg en))
      in v\<lparr>hv_scores := ds, hv_output := (hv_output v)\<lparr>ao_DomainScores := ds\<rparr>\<rparr>)"

definition edge_view :: "string list \<Rightarrow> ssam_engine \<Rightarrow> hook_view \<Rightarrow> hook_view" where
  "edge_view order en v =
     (let v = ExecuteHooks en ''pre_edge'' (ExecuteHooks en ''post_score'' v);
          efs = ApplyEdgeFactorsToChecksPolicy order (sc_EdgeFactors (eg_cfg en)) (ai_Checks (hv_input v)) (buildCustomFactorMap en)
                  (sc_ConfidencePolicy (eg_cfg en))
      in v\<lparr>hv_factors := efs, hv_output := (hv_output v)\<lparr>ao_EdgeFactors := efs\<rparr>\<rparr>)"

definition engine_ComputeScore ::
    "(nat \<Rightarrow> string option) \<Rightarrow> string list \<Rightarrow> ssam_engine \<Rightarrow> AssessmentInput option \<Rightarrow> engine_error + AssessmentOutput" where
  "engine_ComputeScore ctx order en input =
     (case input of
        None \<Rightarrow> Inl (LibraryError ErrNilInput)
      | Some i \<Rightarrow>
          (case ValidateInput i of
             Some e \<Rightarrow> Inl (LibraryError e)
           | None \<Rightarrow>
               (case ctx 0 of Some e \<Rightarrow> Inl (ContextError e) | None \<Rightarrow>
                let v = scored_view en i in
                (case ctx 1 of Some e \<Rightarrow> Inl (ContextError e) | None \<Rightarrow>
                 let v = edge_view order en v in
                 (case ctx 2 of Some e \<Rightarrow> Inl (ContextError e) | None \<Rightarrow>
                  Inr (finish_score en (ExecuteHooks en ''post_edge'' v)))))))"

definition engine_ComputeScoreV2 ::
    "(nat \<Rightarrow> string option) \<Rightarrow> string list \<Rightarrow> ssam_engine \<Rightarrow> AssessmentInputV2 option \<Rightarrow> engine_error + AssessmentOutputV2" where
  "engine_ComputeScoreV2 ctx order en input =
     (case input of
        None \<Rightarrow> Inl (LibraryError ErrNilInput)
      | Some i \<Rightarrow>
          (case ctx 0 of
             Some e \<Rightarrow> Inl (ContextError e)
           | None \<Rightarrow> (case ComputeScoreV2 (es_hooks (eg_edge en)) order (eg_cfg en) i of Inl e \<Rightarrow> Inl (LibraryError e) | Inr out \<Rightarrow> Inr out)))"

section \<open>Conversions\<close>

text \<open>\<open>order\<close> is the map order of the extension weights, of the custom factors respectively.\<close>

definition weight_of :: "string \<Rightarrow> f64 \<Rightarrow> WeightConfig" where
  "weight_of dn w = \<lparr>wc_Domain = dn, wc_Weight = w\<rparr>"

definition ConfigToWeights :: "string list \<Rightarrow> Config \<Rightarrow> WeightConfig list" where
  "ConfigToWeights order cf =
     (let w = cf_Weights cf
      in [weight_of DomainAttackSurface (wt_AttackSurface w), weight_of DomainBusinessContinuity (wt_BusinessContinuity w),
          weight_of DomainOperationTrust (wt_OperationTrust w), weight_of DomainResilience (wt_Resilience w)]
         @ (if f64_eq (wt_KernelSecurity w) f64_0 then [] else [weight_of DomainKernelSecurity (wt_KernelSecurity w)])
         @ List.map_filter (\<lambda>dn. map_option (weight_of dn) (cf_ExtensionWeights cf dn)) order)"

definition trigger_factor :: "string \<Rightarrow> string \<Rightarrow> f64 \<Rightarrow> string \<Rightarrow> EdgeFactorConfig" where
  "trigger_factor fid name f check =
     \<lparr>efc_ID = fid, efc_Name = name, efc_Factor = f, efc_TriggerCheck = check, efc_CascadeTo = [], efc_CascadeValue = f64_0,
      efc_CascadeOnly = False\<rparr>"

definition builtin_factor_configs :: "ef_config \<Rightarrow> EdgeFactorConfig list" where
  "builtin_factor_configs cf =
     (let t = str_at (ResolveEdgeFactorTriggerMap (Some (cfg_EdgeFactorModel cf))); w = cfg_EdgeFactors cf
      in [trigger_factor ''EF-002FA'' ''2FA Missing'' (efw_TwoFactorFailure w) (t ''EF-002FA''),
          trigger_factor ''EF-SYNCOOKIE'' ''SYN Cookie Disabled'' (efw_SYNCookieDisabled w) (t ''EF-SYNCOOKIE''),
          trigger_factor ''EF-SELINUX'' ''SELinux Disabled'' (efw_SELinuxDisabled w) (t ''EF-SELINUX''),
          trigger_factor ''EF-APPARMOR'' ''AppArmor Disabled'' (efw_AppArmorDisabled w) (t ''EF-APPARMOR''),
          trigger_factor ''EF-NO-SIEM'' ''SIEM Integration Missing'' (efw_NoSIEM w) (t ''EF-NO-SIEM''),
          trigger_factor ''EF-NO-IDS'' ''IDS/IPS Missing'' (efw_NoIDS w) (t ''EF-NO-IDS''),
          (trigger_factor ef3FAFactorID ''3FA Not Met'' (lit (82 / 100)) (t ef3FAFactorID))
            \<lparr>efc_CascadeTo := ''EF-002FA'', efc_CascadeValue := lit (82 / 100), efc_CascadeOnly := True\<rparr>])"

definition custom_factor_config :: "(string \<Rightarrow> string) \<Rightarrow> ef_config \<Rightarrow> string \<Rightarrow> CustomEdgeFactorConfig \<Rightarrow> EdgeFactorConfig" where
  "custom_factor_config uni cf fid c =
     (let check = (case efm_TriggerMap (cfg_EdgeFactorModel cf) (NormalizeFactorID uni fid) of
                     None \<Rightarrow> cef_TriggerCheck c
                   | Some override \<Rightarrow> if trim_space override \<noteq> [] then override else cef_TriggerCheck c)
      in trigger_factor fid fid (cef_Factor c) check)"

definition ConfigToEdgeFactors :: "(string \<Rightarrow> string) \<Rightarrow> string list \<Rightarrow> ef_config \<Rightarrow> EdgeFactorConfig list" where
  "ConfigToEdgeFactors uni order cf =
     builtin_factor_configs cf @ List.map_filter (\<lambda>fid. map_option (custom_factor_config uni cf fid) (cfg_EdgeFactorsCustom cf fid)) order"

definition check_input :: "CheckResult \<Rightarrow> CheckInput" where
  "check_input c =
     \<lparr>ck_CheckID = cr_CheckID c, ck_Domain = cr_Domain c, ck_Name = cr_Name c, ck_Passed = cr_Passed c, ck_Delta = cr_Delta c,
      ck_Detail = cr_Detail c, ck_Confidence = cr_Confidence c\<rparr>"

definition CheckResultsToInputs :: "CheckResult list \<Rightarrow> CheckInput list" where
  "CheckResultsToInputs cs = map check_input cs"

definition DomainScoresToOutput :: "DomainScore list \<Rightarrow> DomainScores" where
  "DomainScoresToOutput ds = set_scores ds no_scores"

text \<open>The last active factor of an identifier decides.\<close>

definition put_factor :: "EdgeFactors \<Rightarrow> EdgeFactorResult \<Rightarrow> EdgeFactors" where
  "put_factor e f =
     (if \<not> efr_Active f \<or> f64_ge (efr_Factor f) f64_1 then e
      else if efr_ID f = ''EF-002FA'' then e\<lparr>ef_TwoFactorFailure := efr_Factor f\<rparr>
      else if efr_ID f = ''EF-SYNCOOKIE'' then e\<lparr>ef_SYNCookieDisabled := efr_Factor f\<rparr>
      else if efr_ID f = ''EF-SELINUX'' then e\<lparr>ef_SELinuxDisabled := efr_Factor f\<rparr>
      else if efr_ID f = ''EF-APPARMOR'' then e\<lparr>ef_AppArmorDisabled := efr_Factor f\<rparr>
      else if efr_ID f = ''EF-NO-SIEM'' then e\<lparr>ef_NoSIEM := efr_Factor f\<rparr>
      else if efr_ID f = ''EF-NO-IDS'' then e\<lparr>ef_NoIDS := efr_Factor f\<rparr> else e)"

definition EdgeFactorsToModel :: "EdgeFactorResult list \<Rightarrow> EdgeFactors" where
  "EdgeFactorsToModel fs = foldl put_factor no_edge_factors fs"

definition ModelToInput :: "AssessmentResult \<Rightarrow> AssessmentInput" where
  "ModelToInput r =
     \<lparr>ai_HostID = ar_HostID r, ai_Hostname = ar_Hostname r, ai_Threshold = ar_Threshold r, ai_Checks = CheckResultsToInputs (ar_Checks r),
      ai_ThreatCoeff = ar_ThreatCoeff r, ai_SPCScore = ar_SPCScore r, ai_WeightShifts = Map.empty\<rparr>"

definition OutputToModel :: "AssessmentOutput \<Rightarrow> AssessmentResult \<Rightarrow> AssessmentResult" where
  "OutputToModel out r =
     r\<lparr>ar_FinalScore := ao_FinalScore out, ar_Acceptable := ao_Acceptable out, ar_DomainScores := DomainScoresToOutput (ao_DomainScores out),
       ar_EdgeFactors := EdgeFactorsToModel (ao_EdgeFactors out), ar_ThreatCoeff := ao_ThreatCoeff out, ar_SPCScore := ao_SPCScore out,
       ar_FinalSigma := ao_FinalSigma out, ar_ScoreLower95 := ao_Lower95 out, ar_ScoreUpper95 := ao_Upper95 out,
       ar_EvidenceConfidence := ao_EvidenceConfidence out\<rparr>"

definition OutputV2ToModel :: "AssessmentOutputV2 \<Rightarrow> AssessmentResult \<Rightarrow> AssessmentResult" where
  "OutputV2ToModel out r =
     (let ly = fs_Layers (o2_FinalScore out)
      in r\<lparr>ar_FinalScore := fs_Total (o2_FinalScore out), ar_Acceptable := o2_Acceptable out,
           ar_DomainScores := DomainScoresToOutput (o2_DomainScores out), ar_EdgeFactors := EdgeFactorsToModel (o2_EdgeFactors out),
           ar_ThreatCoeff := rl_Coeff (ly_Threat ly), ar_SPCScore := rl_Coeff (ly_Exposure ly),
           ar_FinalSigma := o2_FinalSigma out, ar_ScoreLower95 := o2_Lower95 out, ar_ScoreUpper95 := o2_Upper95 out,
           ar_EvidenceConfidence := o2_EvidenceConfidence out\<rparr>)"

section \<open>The adapter\<close>

record EngineAdapter =
  ea_engine :: ssam_engine
  ea_cfg :: "Config option"

text \<open>Orders and library functions; the context of the assessor never ends.\<close>

record adapter_env =
  de_edge :: edge_env
  de_lo :: "string \<Rightarrow> string"
  de_rx :: regex_lib
  de_weight_order :: "string list"
  de_custom_order :: "string list"
  de_factor_order :: "EdgeFactorConfig list \<Rightarrow> string list"

definition configure_engine :: "adapter_env \<Rightarrow> Config \<Rightarrow> ssam_engine \<Rightarrow> ssam_engine" where
  "configure_engine de cf en =
     SetAcceptByLowerBound (cc_AcceptByLowerBound (cf_Confidence cf))
       (SetConfidencePolicy (ConfidencePolicyFromConfig (Some (cf_Confidence cf)))
         (SetEdgeFactors (ConfigToEdgeFactors (en_uni (de_edge de)) (de_custom_order de) (ef_config.truncate cf))
           (SetWeights (ConfigToWeights (de_weight_order de) cf) en)))"

definition engine_ApplyEdgeFactorModel :: "adapter_env \<Rightarrow> Config option \<Rightarrow> ssam_engine \<Rightarrow> ssam_engine" where
  "engine_ApplyEdgeFactorModel de cfg en =
     en\<lparr>eg_edge := fst (ApplyEdgeFactorModel (de_edge de) (map_option ef_config.truncate cfg) (eg_edge en))\<rparr>"

definition NewEngineAdapter :: "adapter_env \<Rightarrow> hooks \<Rightarrow> Config option \<Rightarrow> EngineAdapter" where
  "NewEngineAdapter de hk cfg =
     (let en = (case cfg of None \<Rightarrow> NewEngine hk | Some cf \<Rightarrow> configure_engine de cf (NewEngine hk));
          en = ssam_InitializeDefaults [] Map.empty [] en
      in \<lparr>ea_engine = engine_ApplyEdgeFactorModel de cfg en, ea_cfg = cfg\<rparr>)"

definition adapter_ReloadWeights :: "adapter_env \<Rightarrow> Config option \<Rightarrow> EngineAdapter \<Rightarrow> EngineAdapter" where
  "adapter_ReloadWeights de cfg a =
     (case cfg of
        None \<Rightarrow> a
      | Some cf \<Rightarrow> \<lparr>ea_engine = engine_ApplyEdgeFactorModel de (Some cf) (configure_engine de cf (ea_engine a)), ea_cfg = Some cf\<rparr>)"

definition resolve_checks :: "adapter_env \<Rightarrow> Config option \<Rightarrow> CheckResult list \<Rightarrow> CheckResult list" where
  "resolve_checks de cfg cs =
     (let cs = (case cfg of None \<Rightarrow> cs | Some cf \<Rightarrow> ResolveChecks (de_lo de) (de_rx de) (cf_Confidence cf) cs);
          policy = ConfidencePolicyFromConfig (map_option cf_Confidence cfg)
      in map (\<lambda>c. c\<lparr>cr_EffectiveConfidence := EffectiveConfidence (cr_Confidence c) policy\<rparr>) cs)"

definition stamp :: "adapter_env \<Rightarrow> ssam_engine \<Rightarrow> AssessmentResult \<Rightarrow> AssessmentResult" where
  "stamp de en r =
     (case LoadedEdgeFactorParams (eg_edge en) of
        None \<Rightarrow> r
      | Some p \<Rightarrow> r\<lparr>ar_EdgeFactors := (ar_EdgeFactors r)\<lparr>ef_Model := p_Model p, ef_ParamsHash := Hash (en_lib (de_edge de)) p\<rparr>\<rparr>)"

definition engine_error_text :: "engine_error \<Rightarrow> string" where
  "engine_error_text e = (case e of LibraryError (SSAMError code msg) \<Rightarrow> ''ssam: '' @ code @ '': '' @ msg | ContextError m \<Rightarrow> m)"

definition adapter_ComputeScore :: "adapter_env \<Rightarrow> EngineAdapter \<Rightarrow> AssessmentResult \<Rightarrow> AssessmentResult \<times> string option" where
  "adapter_ComputeScore de a r =
     (let r = r\<lparr>ar_Checks := resolve_checks de (ea_cfg a) (ar_Checks r)\<rparr>; en = ea_engine a
      in case engine_ComputeScore (\<lambda>_. None) (de_factor_order de (sc_EdgeFactors (eg_cfg en))) en (Some (ModelToInput r)) of
           Inl e \<Rightarrow> (r, Some (engine_error_text e))
         | Inr out \<Rightarrow> (stamp de en (OutputToModel out r), None))"

text \<open>The adapter as the plugin of the assessor.\<close>

primcorec adapter_plugin :: "adapter_env \<Rightarrow> EngineAdapter \<Rightarrow> plugin" where
  "adapter_plugin de a =
     Plugin ''ssam_v2.0'' (adapter_ComputeScore de a) (\<lambda>cf. adapter_plugin de (adapter_ReloadWeights de (Some cf) a))"

section \<open>A reload is a fresh construction\<close>

text \<open>What no configuration changes: custom formulas, hooks, the selected formula.\<close>

definition plain_engine :: "ssam_engine \<Rightarrow> bool" where
  "plain_engine en \<longleftrightarrow> eg_formulas en = Map.empty \<and> eg_hooks en = Map.empty \<and> sc_FormulaID (eg_cfg en) = ''ssam_v2.0''"

lemmas setter_defs = SetWeights_def SetEdgeFactors_def SetConfidencePolicy_def SetAcceptByLowerBound_def

lemma new_engine_plain: "plain_engine (NewEngine hk)"
  by (simp add: plain_engine_def NewEngine_def DefaultScoringConfig_def)

lemma configure_plain: "plain_engine en \<Longrightarrow> plain_engine (configure_engine de cf en)"
  by (simp add: plain_engine_def configure_engine_def setter_defs)

lemma apply_plain: "plain_engine (engine_ApplyEdgeFactorModel de cfg en) = plain_engine en"
  by (simp add: plain_engine_def engine_ApplyEdgeFactorModel_def)

lemma no_defaults: "ssam_InitializeDefaults order Map.empty [] en = en"
  by (simp add: ssam_InitializeDefaults_def)

lemma new_adapter_plain: "plain_engine (ea_engine (NewEngineAdapter de hk cfg))"
  by (simp add: NewEngineAdapter_def no_defaults apply_plain new_engine_plain configure_plain split: option.split)

lemma reload_plain: "plain_engine (ea_engine a) \<Longrightarrow> plain_engine (ea_engine (adapter_ReloadWeights de cfg a))"
  by (simp add: adapter_ReloadWeights_def apply_plain configure_plain split: option.split)

lemma configured_alike:
  assumes "plain_engine en" "plain_engine en'"
  shows "engine_ApplyEdgeFactorModel de cfg (configure_engine de cf en) = engine_ApplyEdgeFactorModel de cfg (configure_engine de cf en')"
proof -
  have "ApplyEdgeFactorModel (de_edge de) c (eg_edge (configure_engine de cf en)) =
      ApplyEdgeFactorModel (de_edge de) c (eg_edge (configure_engine de cf en'))" for c
    by (rule apply_model_forgets)
  then show ?thesis using assms
    by (intro ssam_engine.equality ScoringConfig.equality)
      (simp_all add: engine_ApplyEdgeFactorModel_def configure_engine_def plain_engine_def setter_defs)
qed

lemma reload_plain_fresh:
  assumes "plain_engine (ea_engine a)"
  shows "adapter_ReloadWeights de (Some cf) a = NewEngineAdapter de hk (Some cf)"
  using configured_alike [OF assms new_engine_plain [of hk], of de "Some cf" cf]
  by (simp add: adapter_ReloadWeights_def NewEngineAdapter_def no_defaults)

text \<open>C19: However often the adapter was reloaded, and whatever hooks and model were installed before, it is the adapter that a
  construction from the last configuration gives: nothing of an earlier configuration survives.\<close>

theorem adapter_reload_is_fresh:
  "foldl (\<lambda>a cf. adapter_ReloadWeights de (Some cf) a) (NewEngineAdapter de hk cfg) (cfs @ [cf]) = NewEngineAdapter de hk' (Some cf)"
proof -
  have "plain_engine (ea_engine (foldl (\<lambda>a cf. adapter_ReloadWeights de (Some cf) a) (NewEngineAdapter de hk cfg) cfs))"
    by (induction cfs rule: rev_induct) (simp_all add: new_adapter_plain reload_plain)
  from reload_plain_fresh [OF this] show ?thesis by simp
qed

text \<open>The reload of the assessor reaches its plugin: after it the assessor scores with the adapter of the new configuration.\<close>

theorem assessor_reload_renews_plugin:
  assumes "as_plugin a = Some (adapter_plugin de (NewEngineAdapter de hk cfg))"
  shows "as_plugin (Assessor_ReloadWeights (Some cf) a) = Some (adapter_plugin de (NewEngineAdapter de hk' (Some cf))) \<and>
    as_cfg (Assessor_ReloadWeights (Some cf) a) = cf"
  using reload_plain_fresh [OF new_adapter_plain [of de hk cfg], of de cf hk']
  by (simp add: Assessor_ReloadWeights_def assms)

text \<open>The threat coefficient of the configuration never reaches the plugin: adapters of configurations that differ in it only
  score alike.\<close>

theorem plugin_ignores_threat_coefficient:
  "fst (adapter_ComputeScore de (NewEngineAdapter de hk (Some (cf\<lparr>cf_ThreatCoeff := t\<rparr>))) r) =
   fst (adapter_ComputeScore de (NewEngineAdapter de hk (Some cf)) r)"
proof -
  have t: "ef_config.truncate (cf\<lparr>cf_ThreatCoeff := t\<rparr>) = ef_config.truncate cf" by (simp add: ef_config.truncate_def)
  have "ea_engine (NewEngineAdapter de hk (Some (cf\<lparr>cf_ThreatCoeff := t\<rparr>))) = ea_engine (NewEngineAdapter de hk (Some cf))"
    by (simp add: NewEngineAdapter_def no_defaults configure_engine_def ConfigToWeights_def engine_ApplyEdgeFactorModel_def t Let_def)
  moreover have "resolve_checks de (Some (cf\<lparr>cf_ThreatCoeff := t\<rparr>)) cs = resolve_checks de (Some cf) cs" for cs
    by (simp add: resolve_checks_def Let_def)
  ultimately show ?thesis by (simp add: adapter_ComputeScore_def NewEngineAdapter_def Let_def)
qed

section \<open>The engine and the library\<close>

lemma near_scaled:
  assumes "of_int a / 2 ^ 20 \<le> x" "x \<le> of_int b / 2 ^ 20" "\<bar>a\<bar> \<le> 2 ^ 40" "\<bar>b\<bar> \<le> 2 ^ 40"
  shows "of_int a / 2 ^ 20 \<le> rnd x \<and> rnd x \<le> of_int b / 2 ^ 20"
proof -
  have "rep (of_int a / 2 ^ 20)" "rep (of_int b / 2 ^ 20)"
    by (rule rep_small [OF refl]; use assms(3,4) in simp)+
  then have "rnd (of_int a / 2 ^ 20) = of_int a / 2 ^ 20" "rnd (of_int b / 2 ^ 20) = of_int b / 2 ^ 20" by (simp_all add: rep_def)
  then show ?thesis using rnd_mono [OF assms(1)] rnd_mono [OF assms(2)] by simp
qed

lemma rnd_error:
  assumes "\<bar>x\<bar> \<le> 2 ^ 19"
  shows "\<bar>rnd x - x\<bar> \<le> 1 / 1000"
proof -
  define a where "a = \<lfloor>x * 2 ^ 20\<rfloor>"
  have a: "of_int a \<le> x * 2 ^ 20" "x * 2 ^ 20 < of_int a + 1" unfolding a_def by linarith+
  have b: "\<bar>a\<bar> \<le> 2 ^ 40 - 1"
  proof -
    have x: "x \<le> 2 ^ 19" "- (2 ^ 19) \<le> x" using assms by (simp_all add: abs_le_iff)
    then have "x * 2 ^ 20 \<le> of_int (2 ^ 39)" "of_int (- (2 ^ 39)) \<le> x * 2 ^ 20" by simp_all
    then have "a \<le> 2 ^ 39" "- (2 ^ 39) \<le> a" unfolding a_def by (simp_all add: floor_le_iff le_floor_iff)
    then show ?thesis by (simp add: abs_le_iff)
  qed
  have l: "of_int a / 2 ^ 20 \<le> x" "x \<le> of_int (a + 1) / 2 ^ 20" using a by (simp_all add: field_simps)
  have "of_int a / 2 ^ 20 \<le> rnd x \<and> rnd x \<le> of_int (a + 1) / 2 ^ 20" by (rule near_scaled [OF l]) (use b in linarith)+
  moreover have "of_int (a + 1) / 2 ^ 20 = of_int a / 2 ^ 20 + 1 / (2 ^ 20 :: rat)" by (simp add: add_divide_distrib)
  moreover have "1 / (2 ^ 20 :: rat) \<le> 1 / 1000" by simp
  ultimately show ?thesis using l unfolding abs_le_iff by linarith
qed

lemma rha_near:
  assumes "\<bar>y - of_int n\<bar> \<le> 1 / 4"
  shows "rha y = n"
proof (cases "0 \<le> y")
  case True
  have "\<lfloor>y + 1 / 2\<rfloor> = n" by (rule floor_unique) (use assms in \<open>simp_all only: abs_le_iff\<close>, linarith+)
  then show ?thesis using True by (simp add: rha_def)
next
  case False
  have "\<lfloor>- y + 1 / 2\<rfloor> = - n" by (rule floor_unique) (use assms in \<open>simp_all only: abs_le_iff of_int_minus\<close>, linarith+)
  then show ?thesis using False by (simp add: rha_def)
qed

text \<open>A score rounded to hundredths stays as it is when it is rounded again.\<close>

lemma round2_again:
  assumes "\<bar>n\<bar> \<le> 10000"
  shows "round2 (f64_div (Fin (of_int n)) (lit 100)) = f64_div (Fin (of_int n)) (lit 100)"
proof -
  define v :: rat where "v = rnd (of_int n / 100)"
  have n: "\<bar>of_int n :: rat\<bar> \<le> 10000" using assms by (metis of_int_abs of_int_le_iff of_int_numeral)
  then have "\<bar>of_int n / 100 :: rat\<bar> \<le> 2 ^ 19" by simp
  from rnd_error [OF this] have v: "\<bar>v - of_int n / 100\<bar> \<le> 1 / 1000" by (simp add: v_def)
  have vb: "\<bar>v\<bar> \<le> 101" 
  proof -
    show ?thesis using v n unfolding abs_le_iff by linarith
  qed
  have f: "f64_of_rat y = Fin (rnd y)" if "\<bar>rnd y\<bar> \<le> 2 ^ 20" for y
  proof -
    have "\<bar>rnd y\<bar> < (2::rat) ^ 1024" by (rule order_le_less_trans [OF that]) simp
    then show ?thesis by (simp add: f64_of_rat_def Let_def abs_less_iff)
  qed
  have d: "f64_div (Fin (of_int n)) (lit 100) = Fin v" using f [of "of_int n / 100"] vb by (simp add: lit_100 v_def [symmetric])
  have w: "\<bar>rnd (v * 100) - v * 100\<bar> \<le> 1 / 1000" by (rule rnd_error) (use vb in \<open>simp add: abs_mult\<close>)
  have wn: "\<bar>rnd (v * 100) - of_int n\<bar> \<le> 1 / 4" using v w unfolding abs_le_iff by linarith
  have "\<bar>rnd (v * 100)\<bar> \<le> 20000" using wn n unfolding abs_le_iff by linarith
  then have wb: "\<bar>rnd (v * 100)\<bar> \<le> 2 ^ 20" by simp
  have m: "f64_mul (Fin v) (lit 100) = Fin (rnd (v * 100))" using f [OF wb] by (simp add: lit_100)
  have "f64_round (Fin (rnd (v * 100))) = Fin (of_int n)" using rha_near [OF wn] by simp
  then show ?thesis by (simp only: d round2_def m)
qed

lemma rounded_again:
  assumes "y = f64_div (f64_round x) (lit 100)" "\<not> f64_lt y f64_0" "\<not> f64_gt y (lit 100)"
  shows "round2 y = y"
proof (cases x)
  case (Fin u)
  define n where "n = rha u"
  have y: "y = f64_div (Fin (of_int n)) (lit 100)" using assms(1) Fin by (simp add: n_def)
  have yr: "y = lit (of_int n / 100)" by (simp add: y lit_100)
  have big: "n \<le> 10000"
  proof (rule ccontr)
    assume "\<not> n \<le> 10000"
    then have "10001 \<le> n" by simp
    then have "(10001::rat) \<le> of_int n" by (metis of_int_le_iff of_int_numeral)
    then have "(12801 / 128 :: rat) \<le> of_int n / 100" by simp
    moreover have "lit (12801 / 128) = Fin (12801 / 128)" using rep_small [of "12801 / 128" 12801 7] by simp
    ultimately have "f64_le (Fin (12801 / 128)) y" using f64_of_rat_mono unfolding yr by metis
    then show False using assms(3) by (cases y) (auto simp: lit_100 f64_lt_def)
  qed
  have small: "- 10000 \<le> n"
  proof (rule ccontr)
    assume "\<not> - 10000 \<le> n"
    then have "of_int n / 100 \<le> (- 1 :: rat)" by simp
    moreover have "lit (- 1) = Fin (- 1)" using rep_of_int [of "- 1"] by simp
    ultimately have "f64_le y (Fin (- 1))" using f64_of_rat_mono unfolding yr by metis
    then show False using assms(2) by (cases y) (auto simp: f64_lt_def)
  qed
  from big small have "\<bar>n\<bar> \<le> 10000" by simp
  from round2_again [OF this] show ?thesis by (simp only: y)
qed (use assms in \<open>auto simp: round2_def lit_100 f64_lt_def\<close>)

lemma floored_coeff_none: "f64_le x f64_0 \<Longrightarrow> floored_coeff x = floored_coeff f64_1"
  by (simp add: floored_coeff_def Let_def)

lemma v20_total_norm:
  "fs_Total (SSAMV20Formula hk ds ws \<lparr>rc_Intrinsic = a, rc_Exposure = (if f64_le s f64_0 then f64_1 else s),
     rc_Threat = (if f64_le t f64_0 then f64_1 else t)\<rparr> efs) =
   fs_Total (SSAMV20Formula hk ds ws \<lparr>rc_Intrinsic = b, rc_Exposure = s, rc_Threat = t\<rparr> efs)"
  by (simp add: SSAMV20Formula_def case_prod_beta Let_def floored_coeff_none)

lemma v20_total_rounded: "\<exists>x. fs_Total (SSAMV20Formula hk ds ws rc efs) = f64_div (f64_round x) (lit 100)"
proof (cases "f64_eq (snd (weighted_sums (BuildWeightMap ws) (applyDomainAdjust hk ds efs))) f64_0")
  case True
  then have "fs_Total (SSAMV20Formula hk ds ws rc efs) = f64_div (f64_round f64_0) (lit 100)"
    using rha_of_int [of 0] by (simp add: SSAMV20Formula_def case_prod_beta Let_def lit_100)
  then show ?thesis by blast
next
  case False
  then show ?thesis by (auto simp: SSAMV20Formula_def layers_total_def layer_mix_def case_prod_beta Let_def)
qed

lemma plain_hooks_idle: "plain_engine en \<Longrightarrow> ExecuteHooks en phase v = v"
  by (simp add: ExecuteHooks_def plain_engine_def hooks_at_def)

lemma library_score:
  assumes "ValidateInput i = None"
  shows "computeScoreInternal hk order cf i p =
    (let ds = ComputeDomainScoresBayes (sc_Weights cf) (ai_Checks i) p;
         efs = ApplyEdgeFactorsToChecksPolicy order (sc_EdgeFactors cf) (ai_Checks i) (BuildCustomFactorMap (sc_EdgeFactors cf)) p;
         out = start_output i
     in finish_output cf ds
          (out\<lparr>ao_FinalScore := raw_score hk cf ds (ao_ThreatCoeff out) (ao_SPCScore out) efs, ao_DomainScores := ds, ao_EdgeFactors := efs,
               ao_FormulaID := sc_FormulaID cf\<rparr>))"
  using assms by (simp add: computeScoreInternal_def start_output_def threat_or_one_def spc_floored_def Let_def)



lemma assessor_reload_renews_plugin_witness:
  "\<forall>de a. as_plugin (Assessor_ReloadWeights (Some Default)
      (a\<lparr>as_plugin := Some (adapter_plugin de (NewEngineAdapter de default_hooks None))\<rparr> :: unit Assessor)) =
     Some (adapter_plugin de (NewEngineAdapter de default_hooks (Some Default)))"
proof (intro allI)
  fix de and a :: "unit Assessor"
  show "as_plugin (Assessor_ReloadWeights (Some Default) (a\<lparr>as_plugin := Some (adapter_plugin de (NewEngineAdapter de default_hooks None))\<rparr>)) =
     Some (adapter_plugin de (NewEngineAdapter de default_hooks (Some Default)))"
    using assessor_reload_renews_plugin [of "a\<lparr>as_plugin := Some (adapter_plugin de (NewEngineAdapter de default_hooks None))\<rparr>" de default_hooks
        None Default default_hooks] by simp
qed

text \<open>An error leaves the scores of the result alone; the assessor then scores the same checks itself.\<close>

lemma adapter_error_keeps_scores:
  "adapter_ComputeScore de a r = (r1, Some e) \<Longrightarrow> r1 = r\<lparr>ar_Checks := resolve_checks de (ea_cfg a) (ar_Checks r)\<rparr>"
  by (auto simp: adapter_ComputeScore_def Let_def split: sum.splits)

end
