(* ===== verification/Spc_Match.thy ===== *)
theory Spc_Match
  imports Assessor "HOL-Library.Product_Lexorder"
begin

text \<open>
  Matching of vulnerabilities to a host: \<open>internal/spc/spc_match.go\<close> (versions, version ranges, CPE names, package names) and
  the two matchers of \<open>internal/spc/spc.go\<close>, the reference \<open>matchCPE\<close> and \<open>matchCPEFast\<close> of the assessment path, with the
  lower-case caches it fills. The types are those of \<open>internal/kernel/spc_types.go\<close>. Strings are bytes, in valid UTF-8 where
  the source walks over runes.
\<close>

section \<open>Versions\<close>

record versionPart =
  vp_num :: int
  vp_str :: string
  vp_isNumber :: bool

definition no_part :: versionPart where
  "no_part = \<lparr>vp_num = 0, vp_str = [], vp_isNumber = False\<rparr>"

definition compareVersionPart :: "versionPart \<Rightarrow> versionPart \<Rightarrow> int" where
  "compareVersionPart a b =
     (if vp_isNumber a \<and> vp_isNumber b
      then (if vp_num a < vp_num b then - 1 else if vp_num a > vp_num b then 1 else 0)
      else if vp_isNumber a \<and> \<not> vp_isNumber b then 1
      else if \<not> vp_isNumber a \<and> vp_isNumber b then - 1
      else if vp_str a < vp_str b then - 1
      else if vp_str a > vp_str b then 1 else 0)"

record split_state =
  sv_parts :: "versionPart list"
  sv_current :: string
  sv_hasDigit :: bool
  sv_hasAlpha :: bool

definition sv_flush :: "split_state \<Rightarrow> split_state" where
  "sv_flush st =
     (let s = sv_current st
      in if s = [] then st
         else \<lparr>sv_parts = sv_parts st @
                 [case (if sv_hasAlpha st then None else atoi s) of
                    Some n \<Rightarrow> \<lparr>vp_num = n, vp_str = s, vp_isNumber = True\<rparr>
                  | None \<Rightarrow> \<lparr>vp_num = 0, vp_str = s, vp_isNumber = False\<rparr>],
               sv_current = [], sv_hasDigit = False, sv_hasAlpha = False\<rparr>)"

definition sv_char :: "split_state \<Rightarrow> char \<Rightarrow> split_state" where
  "sv_char st c =
     (if c \<in> set ''.-_'' then sv_flush st
      else if is_digit c
      then (let st = (if sv_hasAlpha st then sv_flush st else st)
            in st\<lparr>sv_current := sv_current st @ [c], sv_hasDigit := True\<rparr>)
      else (let st = (if sv_hasDigit st then sv_flush st else st)
            in st\<lparr>sv_current := sv_current st @ [c], sv_hasAlpha := True\<rparr>))"

definition splitVersion :: "string \<Rightarrow> versionPart list" where
  "splitVersion v =
     sv_parts (sv_flush (foldl sv_char \<lparr>sv_parts = [], sv_current = [], sv_hasDigit = False, sv_hasAlpha = False\<rparr>
       (dropWhile (\<lambda>c. c = CHR ''v'') v)))"

fun compare_parts :: "versionPart list \<Rightarrow> versionPart list \<Rightarrow> int" where
  "compare_parts [] [] = 0"
| "compare_parts (x # xs) [] = (let c = compareVersionPart x no_part in if c \<noteq> 0 then c else compare_parts xs [])"
| "compare_parts [] (y # ys) = (let c = compareVersionPart no_part y in if c \<noteq> 0 then c else compare_parts [] ys)"
| "compare_parts (x # xs) (y # ys) = (let c = compareVersionPart x y in if c \<noteq> 0 then c else compare_parts xs ys)"

definition compareVersions :: "string \<Rightarrow> string \<Rightarrow> int" where
  "compareVersions a b = compare_parts (splitVersion a) (splitVersion b)"

definition constraint_holds :: "string \<Rightarrow> string \<Rightarrow> bool" where
  "constraint_holds v c =
     (let c = trim_space c; r = compareVersions v (drop 4 c)
      in if prefix ''vsi='' c then \<not> r < 0
         else if prefix ''vse='' c then \<not> r \<le> 0
         else if prefix ''vei='' c then \<not> r > 0
         else if prefix ''vee='' c then \<not> r \<ge> 0 else True)"

definition versionInRange :: "string \<Rightarrow> string \<Rightarrow> bool" where
  "versionInRange v rng = (v = ''*'' \<or> v = ''-'' \<or> list_all (constraint_holds v) (split_on (CHR '','') rng))"

subsection \<open>The order of versions\<close>

definition part_key :: "versionPart \<Rightarrow> bool \<times> int \<times> string" where
  "part_key p = (if vp_isNumber p then (True, vp_num p, []) else (False, 0, vp_str p))"

definition sign_cmp :: "'a::linorder \<Rightarrow> 'a \<Rightarrow> int" where
  "sign_cmp a b = (if a < b then - 1 else if b < a then 1 else 0)"

lemma part_cmp_key: "compareVersionPart a b = sign_cmp (part_key a) (part_key b)"
  by (auto simp: compareVersionPart_def sign_cmp_def part_key_def less_bool_def)

definition padded :: "nat \<Rightarrow> versionPart list \<Rightarrow> (bool \<times> int \<times> string) list" where
  "padded n xs = map part_key xs @ replicate (n - length xs) (part_key no_part)"

lemma padded_Cons: "padded (Suc n) (x # xs) = part_key x # padded n xs"
  by (simp add: padded_def)

lemma padded_Nil: "padded (Suc n) [] = part_key no_part # padded n []"
  by (simp add: padded_def)

lemma sign_cmp_Cons: "sign_cmp (a # as) (b # bs) = (if sign_cmp a b \<noteq> 0 then sign_cmp a b else sign_cmp as bs)"
  by (auto simp: sign_cmp_def)

lemma compare_parts_padded:
  "length xs \<le> n \<Longrightarrow> length ys \<le> n \<Longrightarrow> compare_parts xs ys = sign_cmp (padded n xs) (padded n ys)"
proof (induction xs ys arbitrary: n rule: compare_parts.induct)
  case 1
  then show ?case by (simp add: sign_cmp_def)
next
  case (2 x xs)
  then obtain k where k: "n = Suc k" by (cases n) auto
  with 2 show ?case by (auto simp: padded_Cons padded_Nil sign_cmp_Cons part_cmp_key Let_def)
next
  case (3 y ys)
  then obtain k where k: "n = Suc k" by (cases n) auto
  with 3 show ?case by (auto simp: padded_Cons padded_Nil sign_cmp_Cons part_cmp_key Let_def)
next
  case (4 x xs y ys)
  then obtain k where k: "n = Suc k" by (cases n) auto
  with 4 show ?case by (auto simp: padded_Cons sign_cmp_Cons part_cmp_key Let_def)
qed

definition version_key :: "nat \<Rightarrow> string \<Rightarrow> (bool \<times> int \<times> string) list" where
  "version_key n v = padded n (splitVersion v)"

lemma compare_key:
  "length (splitVersion a) \<le> n \<Longrightarrow> length (splitVersion b) \<le> n \<Longrightarrow> compareVersions a b = sign_cmp (version_key n a) (version_key n b)"
  by (simp add: compareVersions_def version_key_def compare_parts_padded)

lemma common_length:
  obtains n where "length (splitVersion a) \<le> n" "length (splitVersion b) \<le> n" "length (splitVersion c) \<le> n"
  by (meson linorder_le_cases order_trans)

lemma compare_trans: "compareVersions a b \<le> 0 \<Longrightarrow> compareVersions b c \<le> 0 \<Longrightarrow> compareVersions a c \<le> 0"
proof -
  assume h: "compareVersions a b \<le> 0" "compareVersions b c \<le> 0"
  obtain n where n: "length (splitVersion a) \<le> n" "length (splitVersion b) \<le> n" "length (splitVersion c) \<le> n" by (rule common_length)
  from h show ?thesis
    unfolding compare_key [OF n(1,2)] compare_key [OF n(2,3)] compare_key [OF n(1,3)] by (auto simp: sign_cmp_def split: if_splits)
qed

lemma compare_flip: "compareVersions b a = - compareVersions a b"
proof -
  obtain n where n: "length (splitVersion a) \<le> n" "length (splitVersion b) \<le> n" "length (splitVersion a) \<le> n" by (rule common_length)
  show ?thesis unfolding compare_key [OF n(1,2)] compare_key [OF n(2,1)] by (auto simp: sign_cmp_def)
qed

lemma compare_mixed: "compareVersions a b < 0 \<Longrightarrow> compareVersions b c \<le> 0 \<Longrightarrow> compareVersions a c < 0"
  "compareVersions a b \<le> 0 \<Longrightarrow> compareVersions b c < 0 \<Longrightarrow> compareVersions a c < 0"
proof -
  obtain n where n: "length (splitVersion a) \<le> n" "length (splitVersion b) \<le> n" "length (splitVersion c) \<le> n" by (rule common_length)
  show "compareVersions a b < 0 \<Longrightarrow> compareVersions b c \<le> 0 \<Longrightarrow> compareVersions a c < 0"
    "compareVersions a b \<le> 0 \<Longrightarrow> compareVersions b c < 0 \<Longrightarrow> compareVersions a c < 0"
    unfolding compare_key [OF n(1,2)] compare_key [OF n(2,3)] compare_key [OF n(1,3)] by (auto simp: sign_cmp_def split: if_splits)
qed

lemma bounded_constraint:
  assumes "constraint_holds lo c" "constraint_holds hi c" "compareVersions lo v \<le> 0" "compareVersions v hi \<le> 0"
  shows "constraint_holds v c"
proof -
  define b where "b = drop 4 (trim_space c)"
  have up: "compareVersions v b < 0 \<Longrightarrow> compareVersions lo b < 0" "compareVersions v b \<le> 0 \<Longrightarrow> compareVersions lo b \<le> 0"
    using compare_mixed(2) [OF assms(3)] compare_trans [OF assms(3)] by auto
  have down: "compareVersions hi b < 0 \<Longrightarrow> compareVersions v b < 0" "compareVersions hi b \<le> 0 \<Longrightarrow> compareVersions v b \<le> 0"
    using compare_mixed(2) [OF assms(4)] compare_trans [OF assms(4)] by auto
  have r: "\<not> compareVersions lo b < 0 \<Longrightarrow> \<not> compareVersions v b < 0" "\<not> compareVersions lo b \<le> 0 \<Longrightarrow> \<not> compareVersions v b \<le> 0"
    "\<not> compareVersions hi b > 0 \<Longrightarrow> \<not> compareVersions v b > 0" "\<not> compareVersions hi b \<ge> 0 \<Longrightarrow> \<not> compareVersions v b \<ge> 0"
    using up down by linarith+
  show ?thesis using assms(1,2) r by (simp add: constraint_holds_def Let_def b_def [symmetric] split: if_split_asm)
qed

text \<open>The comparison of versions is a total preorder, and a range is an interval of it: what lies between two versions inside
  is inside.\<close>

theorem version_ranges_are_intervals:
  assumes "versionInRange lo rng" "versionInRange hi rng" "lo \<notin> {''*'', ''-''}" "hi \<notin> {''*'', ''-''}"
    and "compareVersions lo v \<le> 0" "compareVersions v hi \<le> 0"
  shows "versionInRange v rng \<and> compareVersions lo hi \<le> 0 \<and> compareVersions v lo = - compareVersions lo v"
proof -
  have "constraint_holds v c" if "constraint_holds lo c" "constraint_holds hi c" for c
    using that by (rule bounded_constraint [OF _ _ assms(5,6)])
  then show ?thesis using assms compare_trans [of lo v hi] compare_flip [of v lo]
    by (auto simp: versionInRange_def list_all_iff)
qed

lemmas version_digits = is_digit_def atoi_def digits_val_def digit_val_def in_int64_def min_int64_def max_int64_def

text \<open>A pre-release counts as later than its release, so a range that ends before 1.0 leaves 1.0-rc1 out; a number beyond the
  range of an \<open>int\<close> counts as below every other.\<close>

theorem prerelease_outside_range:
  "compareVersions ''1.0-rc1'' ''1.0'' = 1 \<and> \<not> versionInRange ''1.0-rc1'' ''vee=1.0'' \<and>
   compareVersions ''99999999999999999999'' ''1'' = - 1"
proof -
  have s: "splitVersion ''1.0-rc1'' =
      [\<lparr>vp_num = 1, vp_str = ''1'', vp_isNumber = True\<rparr>, \<lparr>vp_num = 0, vp_str = ''0'', vp_isNumber = True\<rparr>,
       \<lparr>vp_num = 0, vp_str = ''rc'', vp_isNumber = False\<rparr>, \<lparr>vp_num = 1, vp_str = ''1'', vp_isNumber = True\<rparr>]"
    "splitVersion ''1.0'' = [\<lparr>vp_num = 1, vp_str = ''1'', vp_isNumber = True\<rparr>, \<lparr>vp_num = 0, vp_str = ''0'', vp_isNumber = True\<rparr>]"
    "splitVersion ''1'' = [\<lparr>vp_num = 1, vp_str = ''1'', vp_isNumber = True\<rparr>]"
    "splitVersion ''99999999999999999999'' = [\<lparr>vp_num = 0, vp_str = ''99999999999999999999'', vp_isNumber = False\<rparr>]"
    by (simp_all add: splitVersion_def sv_char_def sv_flush_def Let_def version_digits)
  have c: "compareVersions ''1.0-rc1'' ''1.0'' = 1" "compareVersions ''99999999999999999999'' ''1'' = - 1"
    by (simp_all add: compareVersions_def s compareVersionPart_def no_part_def Let_def)
  have "trim_space ''vee=1.0'' = ''vee=1.0''" by (rule trim_space_id) (simp_all add: graphic_def)
  then have "\<not> constraint_holds ''1.0-rc1'' ''vee=1.0''" by (simp add: constraint_holds_def Let_def c)
  then show ?thesis using c by (simp add: versionInRange_def)
qed

section \<open>Names of products\<close>

type_synonym MatchType = int

abbreviation MatchNone :: MatchType where "MatchNone \<equiv> 0"
abbreviation MatchCPEVendor :: MatchType where "MatchCPEVendor \<equiv> 1"
abbreviation MatchCPEProduct :: MatchType where "MatchCPEProduct \<equiv> 2"
abbreviation MatchVersionRange :: MatchType where "MatchVersionRange \<equiv> 3"
abbreviation MatchExactVersion :: MatchType where "MatchExactVersion \<equiv> 4"

fun common_parts :: "string list \<Rightarrow> string list \<Rightarrow> nat" where
  "common_parts (x # xs) (v # vs) = (if v = ''*'' \<or> equal_fold v x then Suc (common_parts xs vs) else 0)"
| "common_parts _ _ = 0"

text \<open>A component of a CPE name that is present and neither \<open>*\<close> nor \<open>-\<close>.\<close>

definition concrete_at :: "nat \<Rightarrow> string list \<Rightarrow> bool" where
  "concrete_at k ps \<longleftrightarrow> k < length ps \<and> ps ! k \<noteq> ''*'' \<and> ps ! k \<noteq> ''-''"

definition compareCPE :: "string \<Rightarrow> string \<Rightarrow> MatchType" where
  "compareCPE installed vuln =
     (let (cpePart, versionRange) = (case str_index ''|'' vuln of None \<Rightarrow> (vuln, []) | Some i \<Rightarrow> (take i vuln, drop (Suc i) vuln));
          instParts = split_on (CHR '':'') installed; vulnParts = split_on (CHR '':'') cpePart;
          matchCount = common_parts instParts vulnParts
      in if matchCount \<ge> 5 \<and> versionRange = []
         then (if concrete_at 5 instParts \<and> concrete_at 5 vulnParts then MatchExactVersion else MatchVersionRange)
         else if matchCount \<ge> 4
         then (if versionRange \<noteq> [] \<and> length instParts > 5
               then (if versionInRange (instParts ! 5) versionRange then MatchVersionRange else MatchNone)
               else MatchVersionRange)
         else if matchCount \<ge> 3 then MatchCPEProduct
         else if matchCount \<ge> 2 then MatchCPEVendor else MatchNone)"

definition extractPkgNames :: "string list \<Rightarrow> string list" where
  "extractPkgNames packages =
     foldl (\<lambda>ns p. let name = trim_space (hd (split_on (CHR '' '') p)) in if name \<noteq> [] \<and> name \<notin> set ns then ns @ [name] else ns) [] packages"

section \<open>Vulnerabilities\<close>

record SPCCVEScore =
  cve_CVEID :: string
  cve_Description :: string
  cve_CVSS :: f64
  cve_CVSSVector :: string
  cve_EPSS :: f64
  cve_EPSSPercent :: f64
  cve_InKEV :: bool
  cve_HasPublicPoC :: bool
  cve_DatePublished :: time
  cve_DateModified :: time
  cve_AffectedCPEs :: "string list"
  cve_AttckTechniques :: "string list"
  cve_MISPGalaxyTags :: "string list"
  cve_OSCALFindingUUID :: string
  cve_APTGroupAssoc :: "string list"
  cve_CWEs :: "string list"
  cve_Source :: string
  cve_Matched :: bool
  cve_MatchType :: MatchType
  cve_Exposure :: int
  cve_ControlLevel :: int

text \<open>\<open>matchCPE\<close>, over the CPE names of the asset (none without an asset); \<open>None\<close> is no match.\<close>

definition usable_name :: "string \<Rightarrow> bool" where
  "usable_name n \<longleftrightarrow> length n \<ge> 2"

definition best_match :: "string list \<Rightarrow> string list \<Rightarrow> MatchType" where
  "best_match installed vulns = foldl (\<lambda>b i. foldl (\<lambda>b v. max b (compareCPE i v)) b vulns) MatchNone installed"

definition named_in :: "string list \<Rightarrow> string list \<Rightarrow> bool" where
  "named_in names texts \<longleftrightarrow> list_ex (\<lambda>n. list_ex (\<lambda>t. str_contains t n) texts) names"

definition matchCPE :: "(string \<Rightarrow> string) \<Rightarrow> SPCCVEScore \<Rightarrow> string list \<Rightarrow> string list \<Rightarrow> MatchType option" where
  "matchCPE lo cve installed packages =
     (let names = map (to_lower lo) (filter usable_name (extractPkgNames packages)); cpes = cve_AffectedCPEs cve
      in if cpes = [] then (if named_in names [to_lower lo (cve_Description cve)] then Some MatchCPEProduct else None)
         else if installed = [] then (if named_in names (map (to_lower lo) cpes) then Some MatchCPEProduct else None)
         else if best_match installed cpes > MatchNone then Some (best_match installed cpes)
         else if named_in names (map (to_lower lo) cpes) then Some MatchCPEProduct else None)"

text \<open>The caches of lowered texts, by identifier.\<close>

record lower_caches =
  lc_cpes :: "string \<rightharpoonup> string list"
  lc_descs :: "string \<rightharpoonup> string"

definition loweredAffectedCPEs :: "(string \<Rightarrow> string) \<Rightarrow> SPCCVEScore \<Rightarrow> lower_caches \<Rightarrow> string list \<times> lower_caches" where
  "loweredAffectedCPEs lo cve lc =
     (case lc_cpes lc (cve_CVEID cve) of
        Some v \<Rightarrow> (v, lc)
      | None \<Rightarrow> (let v = map (to_lower lo) (cve_AffectedCPEs cve) in (v, lc\<lparr>lc_cpes := (lc_cpes lc)(cve_CVEID cve \<mapsto> v)\<rparr>)))"

definition loweredDescription :: "(string \<Rightarrow> string) \<Rightarrow> SPCCVEScore \<Rightarrow> lower_caches \<Rightarrow> string \<times> lower_caches" where
  "loweredDescription lo cve lc =
     (case lc_descs lc (cve_CVEID cve) of
        Some v \<Rightarrow> (v, lc)
      | None \<Rightarrow> (let v = to_lower lo (cve_Description cve) in (v, lc\<lparr>lc_descs := (lc_descs lc)(cve_CVEID cve \<mapsto> v)\<rparr>)))"

definition invalidateLowerCaches :: "string \<Rightarrow> lower_caches \<Rightarrow> lower_caches" where
  "invalidateLowerCaches cid lc = lc\<lparr>lc_cpes := (lc_cpes lc)(cid := None), lc_descs := (lc_descs lc)(cid := None)\<rparr>"

definition matchCPEFast ::
    "(string \<Rightarrow> string) \<Rightarrow> SPCCVEScore \<Rightarrow> string list \<Rightarrow> string list \<Rightarrow> lower_caches \<Rightarrow> MatchType option \<times> lower_caches" where
  "matchCPEFast lo cve lowerPkgNames lowerInstalledCPEs lc =
     (if cve_AffectedCPEs cve = []
      then (if lowerPkgNames = [] then (None, lc)
            else let (desc, lc) = loweredDescription lo cve lc
                 in (if named_in lowerPkgNames [desc] then Some MatchCPEProduct else None, lc))
      else let (cpes, lc) = loweredAffectedCPEs lo cve lc
           in (if lowerInstalledCPEs \<noteq> [] \<and> best_match lowerInstalledCPEs cpes > MatchNone then Some (best_match lowerInstalledCPEs cpes)
               else if named_in lowerPkgNames cpes then Some MatchCPEProduct else None, lc))"

text \<open>The inputs \<open>Calculate\<close> prepares.\<close>

definition lowered_names :: "(string \<Rightarrow> string) \<Rightarrow> string list \<Rightarrow> string list" where
  "lowered_names lo packages = map (to_lower lo) (filter usable_name (extractPkgNames packages))"

section \<open>The fast matcher\<close>

definition coherent_for :: "(string \<Rightarrow> string) \<Rightarrow> SPCCVEScore \<Rightarrow> lower_caches \<Rightarrow> bool" where
  "coherent_for lo cve lc \<longleftrightarrow>
     lc_cpes lc (cve_CVEID cve) \<in> {None, Some (map (to_lower lo) (cve_AffectedCPEs cve))} \<and>
     lc_descs lc (cve_CVEID cve) \<in> {None, Some (to_lower lo (cve_Description cve))}"

lemma lowered_coherent:
  assumes "coherent_for lo cve lc"
  shows "fst (loweredAffectedCPEs lo cve lc) = map (to_lower lo) (cve_AffectedCPEs cve)"
    "fst (loweredDescription lo cve lc) = to_lower lo (cve_Description cve)"
  using assms by (auto simp: coherent_for_def loweredAffectedCPEs_def loweredDescription_def Let_def split: option.split)

text \<open>With coherent caches the fast matcher finds what the reference finds, when the CPE names are in lower case (as in the feeds
  of CPE 2.3): the same match, or none.\<close>

theorem fast_match_is_match:
  assumes "coherent_for lo cve lc" "map (to_lower lo) (cve_AffectedCPEs cve) = cve_AffectedCPEs cve" "map (to_lower lo) installed = installed"
  shows "fst (matchCPEFast lo cve (lowered_names lo packages) (map (to_lower lo) installed) lc) = matchCPE lo cve installed packages"
proof -
  have n: "named_in [] ts = False" for ts by (simp add: named_in_def)
  show ?thesis
    using assms(2,3) lowered_coherent [OF assms(1)]
    by (auto simp: matchCPEFast_def matchCPE_def lowered_names_def Let_def case_prod_beta best_match_def n)
qed

text \<open>In mixed case they differ: versions are compared by their bytes.\<close>

definition mixed_cve :: SPCCVEScore where
  "mixed_cve =
     \<lparr>cve_CVEID = ''CVE-2024-0001'', cve_Description = [], cve_CVSS = f64_0, cve_CVSSVector = [], cve_EPSS = f64_0, cve_EPSSPercent = f64_0,
      cve_InKEV = False, cve_HasPublicPoC = False, cve_DatePublished = 0, cve_DateModified = 0,
      cve_AffectedCPEs = [''cpe:2.3:a:acme:tool:*|vei=1.0a''], cve_AttckTechniques = [], cve_MISPGalaxyTags = [], cve_OSCALFindingUUID = [],
      cve_APTGroupAssoc = [], cve_CWEs = [], cve_Source = [], cve_Matched = False, cve_MatchType = MatchNone, cve_Exposure = 0,
      cve_ControlLevel = 0\<rparr>"

definition no_lowered :: lower_caches where
  "no_lowered = \<lparr>lc_cpes = Map.empty, lc_descs = Map.empty\<rparr>"

lemma lower_b: "char_of (98::nat) = CHR ''b''"
  by (simp add: char_of_def bit_0)

text \<open>A host with upper-case letters in a version is vulnerable by the reference and not by the fast matcher.\<close>

theorem mixed_case_matchers_differ:
  "matchCPE lo mixed_cve [''cpe:2.3:a:acme:tool:1.0B''] [] = Some MatchVersionRange \<and>
   fst (matchCPEFast lo mixed_cve (lowered_names lo []) (map (to_lower lo) [''cpe:2.3:a:acme:tool:1.0B'']) no_lowered) = None"
proof -
  have t: "trim_space ''vei=1.0a'' = ''vei=1.0a''" by (rule trim_space_id) (simp_all add: graphic_def)
  have sp: "splitVersion ''1.0B'' = [\<lparr>vp_num = 1, vp_str = ''1'', vp_isNumber = True\<rparr>, \<lparr>vp_num = 0, vp_str = ''0'', vp_isNumber = True\<rparr>,
       \<lparr>vp_num = 0, vp_str = ''B'', vp_isNumber = False\<rparr>]"
    "splitVersion ''1.0b'' = [\<lparr>vp_num = 1, vp_str = ''1'', vp_isNumber = True\<rparr>, \<lparr>vp_num = 0, vp_str = ''0'', vp_isNumber = True\<rparr>,
       \<lparr>vp_num = 0, vp_str = ''b'', vp_isNumber = False\<rparr>]"
    "splitVersion ''1.0a'' = [\<lparr>vp_num = 1, vp_str = ''1'', vp_isNumber = True\<rparr>, \<lparr>vp_num = 0, vp_str = ''0'', vp_isNumber = True\<rparr>,
       \<lparr>vp_num = 0, vp_str = ''a'', vp_isNumber = False\<rparr>]"
    by (simp_all add: splitVersion_def sv_char_def sv_flush_def Let_def version_digits)
  have c: "compareVersions ''1.0B'' ''1.0a'' = - 1" "compareVersions ''1.0b'' ''1.0a'' = 1"
    by (simp_all add: compareVersions_def sp compareVersionPart_def Let_def less_char_def)
  have r: "versionInRange ''1.0B'' ''vei=1.0a''" "\<not> versionInRange ''1.0b'' ''vei=1.0a''"
    by (simp_all add: versionInRange_def constraint_holds_def Let_def t c)
  have l: "to_lower lo ''cpe:2.3:a:acme:tool:1.0B'' = ''cpe:2.3:a:acme:tool:1.0b''"
    "to_lower lo ''cpe:2.3:a:acme:tool:*|vei=1.0a'' = ''cpe:2.3:a:acme:tool:*|vei=1.0a''"
    by (simp_all add: to_lower_def to_lower_ascii_def lower_b)
  have k: "compareCPE ''cpe:2.3:a:acme:tool:1.0B'' ''cpe:2.3:a:acme:tool:*|vei=1.0a'' = MatchVersionRange"
    "compareCPE ''cpe:2.3:a:acme:tool:1.0b'' ''cpe:2.3:a:acme:tool:*|vei=1.0a'' = MatchNone"
    using r by (simp_all add: compareCPE_def Let_def equal_fold_def)
  show ?thesis
    by (simp add: matchCPE_def matchCPEFast_def loweredAffectedCPEs_def no_lowered_def mixed_cve_def lowered_names_def extractPkgNames_def
        best_match_def named_in_def Let_def l k)
qed

text \<open>Two components of the prefix \<open>cpe:2.3\<close> count as a match of the vendor, so every two names of CPE 2.3 match, whatever
  they name.\<close>

lemma split_cpe: "split_on (CHR '':'') (''cpe:2.3:'' @ s) = ''cpe'' # ''2.3'' # split_on (CHR '':'') s"
  using split_on_append [of "CHR '':''" "''cpe''" "''2.3:'' @ s"] split_on_append [of "CHR '':''" "''2.3''" s] by simp

theorem any_two_names_match:
  assumes "CHR ''|'' \<notin> set t"
  shows "compareCPE (''cpe:2.3:'' @ s) (''cpe:2.3:'' @ t) \<ge> MatchCPEVendor"
proof -
  have "str_index ''|'' (''cpe:2.3:'' @ t) = None" using assms str_index_None_single [of "CHR ''|''"] by simp
  moreover have "common_parts (''cpe'' # ''2.3'' # xs) (''cpe'' # ''2.3'' # ys) \<ge> 2" for xs ys by (simp add: equal_fold_def)
  ultimately show ?thesis unfolding compareCPE_def split_cpe [of s] using split_cpe [of t] by (simp add: Let_def)
qed

text \<open>The version itself is never compared without a range: two different versions of a product are an exact match.\<close>

theorem different_versions_match_exactly:
  assumes "CHR '':'' \<notin> set a" "CHR '':'' \<notin> set vendor" "CHR '':'' \<notin> set product" "CHR '':'' \<notin> set v" "CHR '':'' \<notin> set w"
    "CHR ''|'' \<notin> set (a @ vendor @ product @ w)" "v \<notin> {''*'', ''-''}" "w \<notin> {''*'', ''-''}"
  shows "compareCPE (''cpe:2.3:'' @ a @ '':'' @ vendor @ '':'' @ product @ '':'' @ v) (''cpe:2.3:'' @ a @ '':'' @ vendor @ '':'' @ product @ '':'' @ w) =
    MatchExactVersion"
proof -
  have sp: "split_on (CHR '':'') (''cpe:2.3:'' @ a @ '':'' @ vendor @ '':'' @ product @ '':'' @ x) = [''cpe'', ''2.3'', a, vendor, product, x]"
    if "CHR '':'' \<notin> set x" for x
    unfolding split_cpe using assms(1-3) that by (simp add: split_on_append split_on_noc)
  have "str_index ''|'' (''cpe:2.3:'' @ a @ '':'' @ vendor @ '':'' @ product @ '':'' @ w) = None"
    using assms(6) str_index_None_single [of "CHR ''|''"] by simp
  then show ?thesis using assms(7,8)
    unfolding compareCPE_def sp [OF assms(4)] by (simp add: sp [OF assms(5), simplified] concrete_at_def equal_fold_def Let_def)
qed

end
