(* ===== verification/Spc_Core.thy ===== *)
theory Spc_Core
  imports Spc_Match
begin

text \<open>
  The posture calculator of \<open>internal/spc\<close>: the cache of vulnerabilities with its index (\<open>spc_persist.go\<close>: adding, merging by
  source, eviction; the merge loops of the fetchers; the yearly cleanup of \<open>spc.go\<close> as its two critical sections), the parsers
  of NVD and EPSS records, and \<open>Calculate\<close>. Network, JSON and the log are left out: a fetcher is the loop that merges what it
  decoded. \<open>math.Log\<close> is the argument \<open>lnf\<close>; times are nanoseconds since the epoch. Map iteration orders are arguments.
\<close>

section \<open>State\<close>

text \<open>\<open>time.Time{}\<close>, the first of January of the year 1.\<close>

definition zero_time :: time where
  "zero_time = - 62135596800000000000"

definition CVESourcePriority :: "(string \<times> int) list" where
  "CVESourcePriority =
     [(''nvd'', 100), (''kev'', 90), (''epss'', 80), (''misp'', 70), (''cnnvd'', 60), (''cnvd'', 50), (''oscal'', 40)]"

definition source_priority :: "string \<Rightarrow> int" where
  "source_priority s = (case map_of CVESourcePriority s of Some p \<Rightarrow> p | None \<Rightarrow> 0)"

record LocalAsset = SPCLocalAsset +
  la_Hostname :: string
  la_Services :: "string list"
  la_Ports :: "int list"

record spc_module =
  sm_cveCache :: "SPCCVEScore list"
  sm_cveIndex :: "string \<rightharpoonup> nat"
  sm_assetCache :: "string \<rightharpoonup> LocalAsset"
  sm_lowered :: lower_caches
  sm_fetchInterval :: duration
  sm_enabled :: bool
  sm_minPScore :: f64
  sm_maxCacheSize :: int
  sm_kevCatalog :: "string set"

definition New :: spc_module where
  "New = \<lparr>sm_cveCache = [], sm_cveIndex = Map.empty, sm_assetCache = Map.empty, sm_lowered = no_lowered, sm_fetchInterval = 60 * minute,
          sm_enabled = False, sm_minPScore = lit (60 / 100), sm_maxCacheSize = 100000, sm_kevCatalog = {}\<rparr>"

record SPCConfig =
  sc_Enabled :: bool
  sc_MinPScore :: f64
  sc_FetchIntervalH :: int
  sc_MaxCacheSize :: int

text \<open>The part of the configuration that the calculator itself reads.\<close>

definition ConfigureFromConfig :: "SPCConfig option \<Rightarrow> spc_module \<Rightarrow> spc_module" where
  "ConfigureFromConfig cfg m =
     (case cfg of
        None \<Rightarrow> m
      | Some c \<Rightarrow>
          m\<lparr>sm_enabled := sc_Enabled c,
            sm_minPScore := (if f64_eq (sc_MinPScore c) f64_0 then lit (60 / 100) else sc_MinPScore c),
            sm_fetchInterval := (let d = wrap64 (sc_FetchIntervalH c * (60 * minute)) in if d = 0 then 60 * minute else d),
            sm_maxCacheSize := (if sc_MaxCacheSize c > 0 then sc_MaxCacheSize c else sm_maxCacheSize m)\<rparr>)"

definition SetEnabled :: "bool \<Rightarrow> spc_module \<Rightarrow> spc_module" where
  "SetEnabled v m = m\<lparr>sm_enabled := v\<rparr>"

definition UpsertAsset :: "LocalAsset \<Rightarrow> spc_module \<Rightarrow> spc_module" where
  "UpsertAsset a m = m\<lparr>sm_assetCache := (sm_assetCache m)(sla_HostID a \<mapsto> a)\<rparr>"

definition GetAsset :: "spc_module \<Rightarrow> string \<Rightarrow> LocalAsset option" where
  "GetAsset m host = sm_assetCache m host"

section \<open>The cache\<close>

definition cve_digits_pattern :: "string \<Rightarrow> bool" where
  "cve_digits_pattern s \<longleftrightarrow>
     prefix ''CVE-'' s \<and> length s \<ge> 13 \<and> list_all is_digit (take 4 (drop 4 s)) \<and> s ! 8 = CHR ''-'' \<and> list_all is_digit (drop 9 s)"

definition isCVEID :: "string \<Rightarrow> bool" where
  "isCVEID s = (if cve_digits_pattern s then True else if prefix ''CVE-'' s \<and> length s \<ge> 10 then True else False)"

text \<open>Field by field, the value that \<open>mergeCVEInPlace\<close> leaves in the cache.\<close>

definition mergeCVE :: "SPCCVEScore \<Rightarrow> SPCCVEScore \<Rightarrow> SPCCVEScore" where
  "mergeCVE inc old =
     (let higher = source_priority (cve_Source inc) > source_priority (cve_Source old);
          taken = (\<lambda>new cur. if new \<noteq> [] \<and> (cur = [] \<or> higher) then new else cur)
      in old\<lparr>cve_CVSS :=
               (if f64_gt (cve_CVSS inc) f64_0 \<and> source_priority (cve_Source inc) \<ge> source_priority (cve_Source old) then cve_CVSS inc
                else if f64_gt (cve_CVSS inc) (cve_CVSS old) then cve_CVSS inc else cve_CVSS old),
             cve_CVSSVector := (if cve_CVSSVector inc \<noteq> [] \<and> (cve_CVSSVector old = [] \<or> higher) then cve_CVSSVector inc else cve_CVSSVector old),
             cve_EPSS := (if f64_gt (cve_EPSS inc) f64_0 \<and> (f64_eq (cve_EPSS old) f64_0 \<or> higher) then cve_EPSS inc else cve_EPSS old),
             cve_EPSSPercent :=
               (if f64_gt (cve_EPSSPercent inc) f64_0 \<and> (f64_eq (cve_EPSSPercent old) f64_0 \<or> higher) then cve_EPSSPercent inc
                else cve_EPSSPercent old),
             cve_InKEV := (cve_InKEV inc \<or> cve_InKEV old),
             cve_HasPublicPoC := (cve_HasPublicPoC inc \<or> cve_HasPublicPoC old),
             cve_DateModified :=
               (if cve_DateModified inc \<noteq> zero_time \<and> cve_DateModified inc > cve_DateModified old then cve_DateModified inc else cve_DateModified old),
             cve_AffectedCPEs := taken (cve_AffectedCPEs inc) (cve_AffectedCPEs old),
             cve_AttckTechniques := taken (cve_AttckTechniques inc) (cve_AttckTechniques old),
             cve_MISPGalaxyTags := taken (cve_MISPGalaxyTags inc) (cve_MISPGalaxyTags old),
             cve_APTGroupAssoc := taken (cve_APTGroupAssoc inc) (cve_APTGroupAssoc old),
             cve_CWEs := taken (cve_CWEs inc) (cve_CWEs old),
             cve_Description := (if cve_Description inc \<noteq> [] \<and> (cve_Description old = [] \<or> higher) then cve_Description inc else cve_Description old),
             cve_Source := (if higher then cve_Source inc else cve_Source old)\<rparr>)"

text \<open>The caches of an entry are dropped when its names or its description were replaced.\<close>

definition merge_invalidates :: "SPCCVEScore \<Rightarrow> SPCCVEScore \<Rightarrow> bool" where
  "merge_invalidates inc old \<longleftrightarrow>
     (let higher = source_priority (cve_Source inc) > source_priority (cve_Source old)
      in cve_AffectedCPEs inc \<noteq> [] \<and> (cve_AffectedCPEs old = [] \<or> higher) \<or>
         cve_Description inc \<noteq> [] \<and> (cve_Description old = [] \<or> higher))"

definition mergeCVEInPlace :: "nat \<Rightarrow> SPCCVEScore \<Rightarrow> spc_module \<Rightarrow> spc_module" where
  "mergeCVEInPlace idx inc m =
     (let old = sm_cveCache m ! idx
      in m\<lparr>sm_cveCache := (sm_cveCache m)[idx := mergeCVE inc old],
           sm_lowered := (if merge_invalidates inc old then invalidateLowerCaches (cve_CVEID old) (sm_lowered m) else sm_lowered m)\<rparr>)"

text \<open>The position of the first entry with the least score among those not listed as exploited.\<close>

definition eviction_score :: "SPCCVEScore \<Rightarrow> f64" where
  "eviction_score c = f64_add (f64_mul (cve_CVSS c) (lit 10)) (f64_mul (cve_EPSS c) (lit 20))"

definition worst_step :: "(nat \<times> f64) option \<Rightarrow> nat \<times> SPCCVEScore \<Rightarrow> (nat \<times> f64) option" where
  "worst_step w ic =
     (let (i, c) = ic; s = eviction_score c
      in if cve_InKEV c then w
         else (case w of None \<Rightarrow> Some (i, s) | Some (j, t) \<Rightarrow> if f64_lt s t then Some (i, s) else w))"

definition worst_entry :: "SPCCVEScore list \<Rightarrow> nat option" where
  "worst_entry cs = map_option fst (foldl worst_step None (enumerate 0 cs))"

definition evictLowestPriorityCVE :: "spc_module \<Rightarrow> spc_module" where
  "evictLowestPriorityCVE m =
     (case worst_entry (sm_cveCache m) of
        None \<Rightarrow> m
      | Some w \<Rightarrow>
          (let evicted = cve_CVEID (sm_cveCache m ! w)
           in m\<lparr>sm_cveCache := take w (sm_cveCache m) @ drop (Suc w) (sm_cveCache m),
                sm_cveIndex := (\<lambda>cid. if cid = evicted then None else map_option (\<lambda>i. if i > w then i - 1 else i) (sm_cveIndex m cid)),
                sm_lowered := invalidateLowerCaches evicted (sm_lowered m)\<rparr>))"

definition spc_append :: "SPCCVEScore \<Rightarrow> spc_module \<Rightarrow> spc_module" where
  "spc_append c m =
     m\<lparr>sm_cveIndex := (sm_cveIndex m)(cve_CVEID c \<mapsto> length (sm_cveCache m)), sm_cveCache := sm_cveCache m @ [c]\<rparr>"

definition cache_full :: "spc_module \<Rightarrow> bool" where
  "cache_full m \<longleftrightarrow> int (length (sm_cveCache m)) \<ge> sm_maxCacheSize m"

text \<open>The body shared by \<open>AddCVE\<close>, \<open>AddCVEs\<close> and \<open>MergeCVEs\<close>: merged, added or skipped.\<close>

datatype merge_result = Updated | Added | Skipped

definition put_cve :: "SPCCVEScore \<Rightarrow> spc_module \<Rightarrow> merge_result \<times> spc_module" where
  "put_cve c m =
     (case sm_cveIndex m (cve_CVEID c) of
        Some idx \<Rightarrow> (Updated, mergeCVEInPlace idx c m)
      | None \<Rightarrow>
          if cache_full m
          then (if cve_InKEV c then (Added, spc_append c (evictLowestPriorityCVE m)) else (Skipped, m))
          else (Added, spc_append c m))"

definition AddCVE :: "SPCCVEScore \<Rightarrow> spc_module \<Rightarrow> spc_module" where
  "AddCVE c m = (if \<not> isCVEID (cve_CVEID c) then m else snd (put_cve c m))"

definition AddCVEs :: "SPCCVEScore list \<Rightarrow> spc_module \<Rightarrow> spc_module" where
  "AddCVEs cs m = foldl (\<lambda>m c. AddCVE c m) m cs"

fun MergeCVEs :: "SPCCVEScore list \<Rightarrow> spc_module \<Rightarrow> (nat \<times> nat) \<times> spc_module" where
  "MergeCVEs [] m = ((0, 0), m)"
| "MergeCVEs (c # cs) m =
     (let (r, m) = put_cve c m; ((added, updated), m) = MergeCVEs cs m
      in ((if r = Added then Suc added else added, if r = Updated then Suc updated else updated), m))"

definition ClearCache :: "spc_module \<Rightarrow> spc_module" where
  "ClearCache m = m\<lparr>sm_cveCache := [], sm_cveIndex := Map.empty, sm_lowered := no_lowered\<rparr>"

text \<open>What \<open>loadCacheFromDisk\<close> does with the entries it decoded: the last entry of an identifier is indexed.\<close>

definition index_of_entries :: "SPCCVEScore list \<Rightarrow> string \<rightharpoonup> nat" where
  "index_of_entries cs = foldl (\<lambda>ix ic. ix(cve_CVEID (snd ic) \<mapsto> fst ic)) Map.empty (enumerate 0 cs)"

definition loadCache :: "SPCCVEScore list \<Rightarrow> spc_module \<Rightarrow> spc_module" where
  "loadCache cs m = m\<lparr>sm_cveCache := cs, sm_cveIndex := index_of_entries cs, sm_lowered := no_lowered\<rparr>"

text \<open>\<open>cleanupOldCVEs\<close> reads the cache under one lock and writes it back under another.\<close>

definition cleanup_kept :: "time \<Rightarrow> SPCCVEScore list \<Rightarrow> SPCCVEScore list" where
  "cleanup_kept cutoff cs = filter (\<lambda>c. cve_DateModified c > cutoff \<or> cve_InKEV c) cs"

definition cleanup_commit :: "SPCCVEScore list \<Rightarrow> spc_module \<Rightarrow> spc_module" where
  "cleanup_commit kept m = m\<lparr>sm_cveCache := kept, sm_cveIndex := index_of_entries kept\<rparr>"

definition cleanupOldCVEs :: "time \<Rightarrow> spc_module \<Rightarrow> spc_module" where
  "cleanupOldCVEs cutoff m =
     (let kept = cleanup_kept cutoff (sm_cveCache m)
      in if length kept = length (sm_cveCache m) then m else cleanup_commit kept m)"

section \<open>Feeds\<close>

text \<open>The loops by which the fetchers merge what they decoded: NVD and MISP stop at a full cache, the two Chinese databases fill
  gaps only, OSCAL looks at the size before every record.\<close>

fun merge_feed :: "SPCCVEScore list \<Rightarrow> spc_module \<Rightarrow> spc_module" where
  "merge_feed [] m = m"
| "merge_feed (c # cs) m =
     (case sm_cveIndex m (cve_CVEID c) of
        Some idx \<Rightarrow> merge_feed cs (mergeCVEInPlace idx c m)
      | None \<Rightarrow> if cache_full m then m else merge_feed cs (spc_append c m))"

definition fill_gaps :: "SPCCVEScore \<Rightarrow> SPCCVEScore \<Rightarrow> SPCCVEScore" where
  "fill_gaps inc old =
     old\<lparr>cve_CVSS := (if f64_gt (cve_CVSS inc) (cve_CVSS old) then cve_CVSS inc else cve_CVSS old),
         cve_AffectedCPEs := (if cve_AffectedCPEs inc \<noteq> [] \<and> cve_AffectedCPEs old = [] then cve_AffectedCPEs inc else cve_AffectedCPEs old)\<rparr>"

definition upd_entry :: "nat \<Rightarrow> (SPCCVEScore \<Rightarrow> SPCCVEScore) \<Rightarrow> spc_module \<Rightarrow> spc_module" where
  "upd_entry idx f m = m\<lparr>sm_cveCache := (sm_cveCache m)[idx := f (sm_cveCache m ! idx)]\<rparr>"

fun merge_cn :: "SPCCVEScore list \<Rightarrow> spc_module \<Rightarrow> spc_module" where
  "merge_cn [] m = m"
| "merge_cn (c # cs) m =
     (case sm_cveIndex m (cve_CVEID c) of
        Some idx \<Rightarrow> merge_cn cs (upd_entry idx (fill_gaps c) m)
      | None \<Rightarrow> if cache_full m then m else merge_cn cs (spc_append c m))"

fun merge_oscal :: "SPCCVEScore list \<Rightarrow> spc_module \<Rightarrow> spc_module" where
  "merge_oscal [] m = m"
| "merge_oscal (c # cs) m =
     (if cache_full m then m
      else case sm_cveIndex m (cve_CVEID c) of
             Some idx \<Rightarrow> merge_oscal cs (mergeCVEInPlace idx c m)
           | None \<Rightarrow> merge_oscal cs (spc_append c m))"

definition empty_cve :: "string \<Rightarrow> SPCCVEScore" where
  "empty_cve cid =
     \<lparr>cve_CVEID = cid, cve_Description = [], cve_CVSS = f64_0, cve_CVSSVector = [], cve_EPSS = f64_0, cve_EPSSPercent = f64_0,
      cve_InKEV = False, cve_HasPublicPoC = False, cve_DatePublished = zero_time, cve_DateModified = zero_time, cve_AffectedCPEs = [],
      cve_AttckTechniques = [], cve_MISPGalaxyTags = [], cve_OSCALFindingUUID = [], cve_APTGroupAssoc = [], cve_CWEs = [],
      cve_Source = [], cve_Matched = False, cve_MatchType = MatchNone, cve_Exposure = 0, cve_ControlLevel = 0\<rparr>"

text \<open>A line of the EPSS file, and the updates in map order.\<close>

definition epss_line :: "(string \<Rightarrow> string) \<Rightarrow> string \<Rightarrow> (string \<times> f64 \<times> f64) option" where
  "epss_line uni line =
     (let line = trim_space line
      in if line = [] \<or> prefix ''#'' line \<or> prefix ''model'' line \<or> prefix ''cve'' line then None
         else (case split_on (CHR '','') line of
                 cid # e # p # _ \<Rightarrow>
                   (let cid = trim_space cid
                    in if \<not> prefix ''CVE-'' (to_upper uni cid) then None
                       else (case ParseFloat (trim_space e) of
                               None \<Rightarrow> None
                             | Some ev \<Rightarrow> map_option (\<lambda>pv. (cid, ev, pv)) (ParseFloat (trim_space p))))
               | _ \<Rightarrow> None))"

definition epss_updates :: "(string \<Rightarrow> string) \<Rightarrow> string list \<Rightarrow> string \<rightharpoonup> f64 \<times> f64" where
  "epss_updates uni lines =
     foldl (\<lambda>u l. case epss_line uni l of None \<Rightarrow> u | Some (cid, v) \<Rightarrow> u(cid \<mapsto> v)) Map.empty lines"

definition epss_put :: "spc_module \<Rightarrow> string \<times> f64 \<times> f64 \<Rightarrow> spc_module" where
  "epss_put m u =
     (let (cid, e, p) = u
      in case sm_cveIndex m cid of
           Some idx \<Rightarrow>
             if idx < length (sm_cveCache m) then upd_entry idx (\<lambda>c. c\<lparr>cve_EPSS := e, cve_EPSSPercent := p\<rparr>) m
             else if \<not> cache_full m then spc_append ((empty_cve cid)\<lparr>cve_EPSS := e, cve_EPSSPercent := p\<rparr>) m else m
         | None \<Rightarrow> if \<not> cache_full m then spc_append ((empty_cve cid)\<lparr>cve_EPSS := e, cve_EPSSPercent := p\<rparr>) m else m)"

definition merge_epss :: "string list \<Rightarrow> (string \<rightharpoonup> f64 \<times> f64) \<Rightarrow> spc_module \<Rightarrow> spc_module" where
  "merge_epss order upds m = foldl epss_put m (List.map_filter (\<lambda>cid. map_option (\<lambda>v. (cid, v)) (upds cid)) order)"

record kevEntry =
  kv_CVEID :: string
  kv_Ransomware :: bool
  kv_CWEs :: "string list"
  kv_Description :: string

definition appendUnique :: "string list \<Rightarrow> string \<Rightarrow> string list" where
  "appendUnique xs v = (if v \<in> set xs then xs else xs @ [v])"

definition kev_mark :: "kevEntry \<Rightarrow> SPCCVEScore \<Rightarrow> SPCCVEScore" where
  "kev_mark e c =
     c\<lparr>cve_InKEV := True,
       cve_APTGroupAssoc := (if kv_Ransomware e then appendUnique (cve_APTGroupAssoc c) ''ransomware'' else cve_APTGroupAssoc c),
       cve_CWEs := (if kv_CWEs e \<noteq> [] \<and> cve_CWEs c = [] then kv_CWEs e else cve_CWEs c)\<rparr>"

definition kev_new :: "kevEntry \<Rightarrow> SPCCVEScore" where
  "kev_new e =
     (empty_cve (kv_CVEID e))\<lparr>cve_InKEV := True, cve_APTGroupAssoc := (if kv_Ransomware e then [''ransomware''] else []),
       cve_CWEs := kv_CWEs e, cve_Description := kv_Description e\<rparr>"

definition kev_put :: "spc_module \<Rightarrow> kevEntry \<Rightarrow> spc_module" where
  "kev_put m e =
     (case sm_cveIndex m (kv_CVEID e) of
        Some idx \<Rightarrow>
          if idx < length (sm_cveCache m) then upd_entry idx (kev_mark e) m
          else if \<not> cache_full m then spc_append (kev_new e) m else m
      | None \<Rightarrow> if \<not> cache_full m then spc_append (kev_new e) m else m)"

text \<open>The decoded vulnerabilities of the catalogue: identifier, use by ransomware, weaknesses, description.\<close>

definition kev_entries :: "(string \<times> string \<times> string list \<times> string) list \<Rightarrow> kevEntry list" where
  "kev_entries vs =
     List.map_filter (\<lambda>(cid, use, cwes, desc).
       if trim_space cid = [] then None
       else Some \<lparr>kv_CVEID = trim_space cid, kv_Ransomware = equal_fold use ''known'', kv_CWEs = cwes, kv_Description = desc\<rparr>) vs"

definition merge_kev :: "(string \<times> string \<times> string list \<times> string) list \<Rightarrow> spc_module \<Rightarrow> spc_module" where
  "merge_kev vs m = (foldl kev_put m (kev_entries vs))\<lparr>sm_kevCatalog := kv_CVEID ` set (kev_entries vs)\<rparr>"

subsection \<open>Records of the NVD\<close>

record nvdCPEMatch =
  nm_Vulnerable :: bool
  nm_Criteria :: string
  nm_VersionStartIncluding :: string
  nm_VersionStartExcluding :: string
  nm_VersionEndIncluding :: string
  nm_VersionEndExcluding :: string

record nvdCVE =
  nv_ID :: string
  nv_Published :: string
  nv_LastModified :: string
  nv_Descriptions :: "(string \<times> string) list"
  nv_V40 :: "(f64 \<times> string) list"
  nv_V31 :: "(f64 \<times> string) list"
  nv_V30 :: "(f64 \<times> string) list"
  nv_V2 :: "(f64 \<times> string) list"
  nv_Configurations :: "nvdCPEMatch list list list"
  nv_References :: "string list list"

definition range_parts :: "nvdCPEMatch \<Rightarrow> string list" where
  "range_parts k =
     map (\<lambda>(key, v). key @ v)
       (filter (\<lambda>(key, v). v \<noteq> [])
         [(''vsi='', nm_VersionStartIncluding k), (''vse='', nm_VersionStartExcluding k), (''vei='', nm_VersionEndIncluding k),
          (''vee='', nm_VersionEndExcluding k)])"

definition cpe_of_match :: "nvdCPEMatch \<Rightarrow> string option" where
  "cpe_of_match k =
     (if nm_Vulnerable k \<and> nm_Criteria k \<noteq> []
      then Some (if range_parts k = [] then nm_Criteria k else nm_Criteria k @ ''|'' @ join_with (CHR '','') (range_parts k))
      else None)"

definition nvd_description :: "(string \<times> string) list \<Rightarrow> string" where
  "nvd_description ds =
     (let desc = (case find (\<lambda>d. fst d = ''en'') ds of Some d \<Rightarrow> snd d | None \<Rightarrow> [])
      in if desc = [] \<and> ds \<noteq> [] then snd (hd ds) else desc)"

definition nvd_metric :: "nvdCVE \<Rightarrow> f64 \<times> string" where
  "nvd_metric c =
     (if nv_V40 c \<noteq> [] then hd (nv_V40 c) else if nv_V31 c \<noteq> [] then hd (nv_V31 c)
      else if nv_V30 c \<noteq> [] then hd (nv_V30 c) else if nv_V2 c \<noteq> [] then hd (nv_V2 c) else (f64_0, []))"

definition attck_tag :: "string \<Rightarrow> string option" where
  "attck_tag t =
     (if prefix ''ATT&CK:'' t then Some (drop 7 t) else if prefix ''MITRE ATT&CK:'' t then Some (drop 13 t) else None)"

text \<open>\<open>stamp\<close> and \<open>rfc\<close> parse a time in the two layouts; a failure is the zero time.\<close>

definition parse_date :: "(string \<Rightarrow> time) \<Rightarrow> (string \<Rightarrow> time) \<Rightarrow> string \<Rightarrow> time" where
  "parse_date stmp rfc s = (if stmp s = zero_time then rfc s else stmp s)"

definition parseNVDCVE :: "(string \<Rightarrow> time) \<Rightarrow> (string \<Rightarrow> time) \<Rightarrow> nvdCVE \<Rightarrow> SPCCVEScore" where
  "parseNVDCVE stmp rfc c =
     (empty_cve (nv_ID c))
       \<lparr>cve_Description := nvd_description (nv_Descriptions c), cve_CVSS := fst (nvd_metric c), cve_CVSSVector := snd (nvd_metric c),
        cve_DatePublished := parse_date stmp rfc (nv_Published c), cve_DateModified := parse_date stmp rfc (nv_LastModified c),
        cve_AffectedCPEs := List.map_filter cpe_of_match (concat (concat (nv_Configurations c))),
        cve_AttckTechniques := List.map_filter attck_tag (concat (nv_References c))\<rparr>"

section \<open>The calculation\<close>

definition match_factor :: "MatchType \<Rightarrow> f64" where
  "match_factor t =
     (if t = MatchExactVersion then f64_1 else if t = MatchVersionRange then lit (7 / 10) else if t = MatchCPEProduct then lit (3 / 10)
      else if t = MatchCPEVendor then lit (15 / 100) else f64_0)"

datatype ExposureLevel = ExposureLocalhost | ExposureInternal | ExposureDMZ | ExposurePublic

fun exposure_factor :: "ExposureLevel \<Rightarrow> f64" where
  "exposure_factor ExposurePublic = f64_1"
| "exposure_factor ExposureDMZ = lit (7 / 10)"
| "exposure_factor ExposureInternal = lit (4 / 10)"
| "exposure_factor ExposureLocalhost = lit (1 / 10)"

datatype ControlLevel = ControlNone | ControlPartial | ControlEffective

fun control_factor :: "ControlLevel \<Rightarrow> f64" where
  "control_factor ControlNone = f64_1"
| "control_factor ControlPartial = lit (5 / 10)"
| "control_factor ControlEffective = lit (2 / 10)"

definition ClassifyAction :: "f64 \<Rightarrow> string" where
  "ClassifyAction p =
     (if f64_ge p (lit (95 / 100)) then ''none'' else if f64_ge p (lit (85 / 100)) then ''notify_admin''
      else if f64_ge p (lit (75 / 100)) then ''patch_recommended'' else if f64_ge p (lit (65 / 100)) then ''priority_fix''
      else ''isolate_host'')"

definition determineExposure :: "(string \<Rightarrow> string) \<Rightarrow> LocalAsset option \<Rightarrow> ExposureLevel" where
  "determineExposure lo asset =
     (case asset of
        None \<Rightarrow> ExposureInternal
      | Some a \<Rightarrow>
          (let z = to_lower lo (sla_NetworkZone a)
           in if z \<in> {''public'', ''internet'', ''wan''} then ExposurePublic
              else if z = ''dmz'' then ExposureDMZ
              else if z \<in> {''internal'', ''lan'', ''intranet''} then ExposureInternal
              else if z \<in> {''localhost'', ''loopback''} then ExposureLocalhost
              else if sla_Role a = ''bastion'' \<or> sla_Role a = ''web-server'' then ExposureDMZ else ExposureInternal))"

definition determineControlLevel :: "LocalAsset option \<Rightarrow> ControlLevel" where
  "determineControlLevel asset =
     (case asset of
        None \<Rightarrow> ControlNone
      | Some a \<Rightarrow>
          (let c = sla_Compensations a
           in if sp_VirtualPatch c then ControlEffective
              else if sp_WAFRules c \<or> sp_IPSRules c then ControlPartial
              else if sp_AppWhitelist c then ControlPartial else ControlNone))"

text \<open>\<open>Duration.Hours\<close>, with the division of Go, which truncates.\<close>

definition duration_hours :: "duration \<Rightarrow> f64" where
  "duration_hours d =
     (let h = 60 * minute; q = (if d \<ge> 0 then d div h else - ((- d) div h)); r = (if d \<ge> 0 then d mod h else - ((- d) mod h))
      in f64_add (f64_of_int q) (f64_div (f64_of_int r) (f64_of_int h)))"

record CVEPenalty =
  cp_CVEID :: string
  cp_CVSS :: f64
  cp_EPSS :: f64
  cp_InKEV :: bool
  cp_HasPoC :: bool
  cp_Impact :: f64
  cp_CVSSFactor :: f64
  cp_EPSSFactor :: f64
  cp_KEVFactor :: f64
  cp_LocalFactor :: f64
  cp_TimeFactor :: f64
  cp_Penalty :: f64
  cp_Products :: string

record Correction = SPCCorrection +
  co_AffectedCVE :: "string list"
  co_TopCVEImpact :: string
  co_TotalPenalty :: f64
  co_PenaltyBreakdown :: "CVEPenalty list"
  co_KillChainScore :: f64

definition cvss_factor :: "SPCCVEScore \<Rightarrow> f64" where
  "cvss_factor c = f64_min f64_1 (f64_div (cve_CVSS c) (lit 10))"

definition epss_factor :: "(f64 \<Rightarrow> f64) \<Rightarrow> SPCCVEScore \<Rightarrow> f64" where
  "epss_factor lnf c =
     (if f64_gt (cve_EPSS c) f64_0 then f64_min f64_1 (f64_div (f64_neg (lnf (f64_sub f64_1 (cve_EPSS c)))) (lit 5)) else f64_0)"

definition kev_factor :: "string set \<Rightarrow> SPCCVEScore \<Rightarrow> f64" where
  "kev_factor kev c =
     (let k = (if cve_InKEV c then f64_1 else if cve_CVEID c \<in> kev then f64_1 else f64_0)
      in if f64_eq k f64_0 \<and> cve_HasPublicPoC c then lit (3 / 10) else k)"

definition base_impact :: "f64 \<Rightarrow> f64 \<Rightarrow> f64 \<Rightarrow> f64" where
  "base_impact cv ep kv = f64_add (f64_add (f64_mul (lit (20 / 100)) cv) (f64_mul (lit (50 / 100)) ep)) (f64_mul (lit (30 / 100)) kv)"

definition boosted :: "rat \<Rightarrow> nat \<Rightarrow> f64 \<Rightarrow> f64" where
  "boosted step n impact = (if n > 0 then f64_mul impact (f64_add f64_1 (f64_mul (lit step) (f64_of_int (int n)))) else impact)"

definition cve_impact :: "(f64 \<Rightarrow> f64) \<Rightarrow> string set \<Rightarrow> SPCCVEScore \<Rightarrow> f64" where
  "cve_impact lnf kev c =
     boosted (2 / 10) (length (cve_APTGroupAssoc c))
       (boosted (1 / 10) (length (cve_AttckTechniques c)) (base_impact (cvss_factor c) (epss_factor lnf c) (kev_factor kev c)))"

definition local_factor :: "(string \<Rightarrow> string) \<Rightarrow> MatchType \<Rightarrow> LocalAsset option \<Rightarrow> f64" where
  "local_factor lo t asset =
     f64_mul (f64_mul (match_factor t) (exposure_factor (determineExposure lo asset))) (control_factor (determineControlLevel asset))"

definition time_factor :: "time \<Rightarrow> SPCCVEScore \<Rightarrow> f64" where
  "time_factor now c =
     (let days = f64_div (duration_hours (time_sub now (cve_DatePublished c))) (lit 24); days = (if f64_lt days f64_0 then f64_0 else days)
      in f64_max (lit (3 / 10)) (f64_sub f64_1 (f64_div days (lit 90))))"

definition product_parts :: "string list \<Rightarrow> string list" where
  "product_parts cpes =
     map snd (foldl (\<lambda>ps cpe. let fs = split_on (CHR '':'') cpe; p = (fs ! 3, fs ! 4)
                             in if length fs \<ge> 5 \<and> p \<notin> set ps then ps @ [p] else ps) [] cpes)"

fun join_products :: "string list \<Rightarrow> string" where
  "join_products [] = []"
| "join_products [p] = p"
| "join_products (p # q # ps) = p @ '', '' @ join_products (q # ps)"

definition cve_penalty ::
    "(string \<Rightarrow> string) \<Rightarrow> (f64 \<Rightarrow> f64) \<Rightarrow> time \<Rightarrow> string set \<Rightarrow> LocalAsset option \<Rightarrow> SPCCVEScore \<Rightarrow> MatchType \<Rightarrow> CVEPenalty" where
  "cve_penalty lo lnf now kev asset c t =
     (let impact = cve_impact lnf kev c; loc = local_factor lo t asset; tm = time_factor now c
      in \<lparr>cp_CVEID = cve_CVEID c, cp_CVSS = cve_CVSS c, cp_EPSS = cve_EPSS c, cp_InKEV = cve_InKEV c, cp_HasPoC = cve_HasPublicPoC c,
          cp_Impact = impact, cp_CVSSFactor = cvss_factor c, cp_EPSSFactor = epss_factor lnf c, cp_KEVFactor = kev_factor kev c,
          cp_LocalFactor = loc, cp_TimeFactor = tm, cp_Penalty = f64_mul (f64_mul impact loc) tm,
          cp_Products = join_products (take 3 (product_parts (cve_AffectedCPEs c)))\<rparr>)"

text \<open>The loop over the cache.\<close>

record calc_state =
  ca_lowered :: lower_caches
  ca_sum :: f64
  ca_affected :: "string list"
  ca_top :: string
  ca_topVal :: f64
  ca_penalties :: "CVEPenalty list"

definition count_penalty :: "CVEPenalty \<Rightarrow> calc_state \<Rightarrow> calc_state" where
  "count_penalty p st =
     (let pen = cp_Penalty p
      in st\<lparr>ca_sum := f64_add (ca_sum st) (f64_mul pen pen), ca_affected := ca_affected st @ [cp_CVEID p],
            ca_top := (if f64_gt pen (ca_topVal st) then cp_CVEID p else ca_top st),
            ca_topVal := (if f64_gt pen (ca_topVal st) then pen else ca_topVal st),
            ca_penalties := ca_penalties st @ [p]\<rparr>)"

definition calc_step ::
    "(string \<Rightarrow> string) \<Rightarrow> (SPCCVEScore \<Rightarrow> MatchType \<Rightarrow> CVEPenalty) \<Rightarrow> string list \<Rightarrow> string list \<Rightarrow> calc_state \<Rightarrow> SPCCVEScore \<Rightarrow> calc_state" where
  "calc_step lo pen names cpes st c =
     (let (mt, lc) = matchCPEFast lo c names cpes (ca_lowered st); st = st\<lparr>ca_lowered := lc\<rparr>
      in case mt of None \<Rightarrow> st | Some t \<Rightarrow> count_penalty (pen c t) st)"

definition generateWeightShift :: "string list \<Rightarrow> SPCCVEScore list \<Rightarrow> string \<rightharpoonup> f64" where
  "generateWeightShift affected cves =
     (let cveMap = foldl (\<lambda>m c. m(cve_CVEID c \<mapsto> c)) Map.empty cves;
          exposed = length (filter (\<lambda>cid. case cveMap cid of None \<Rightarrow> False | Some c \<Rightarrow> cve_Exposure c \<ge> 2) affected);
          shift = [DomainAttackSurface \<mapsto> f64_0, DomainBusinessContinuity \<mapsto> f64_0, DomainOperationTrust \<mapsto> f64_0, DomainResilience \<mapsto> f64_0]
      in if exposed \<ge> 3
         then shift(DomainAttackSurface \<mapsto> lit 5, DomainBusinessContinuity \<mapsto> lit (- 3), DomainResilience \<mapsto> lit (- 2))
         else shift)"

definition techToTactics :: "(string \<times> string list) list" where
  "techToTactics =
     [(''T1190'', [''initial_access'']), (''T1133'', [''initial_access'']),
      (''T1078'', [''initial_access'', ''persistence'', ''privilege_escalation'']), (''T1071'', [''command_and_control'']),
      (''T1095'', [''command_and_control'']), (''T1571'', [''command_and_control'']), (''T1573'', [''command_and_control'']),
      (''T1059'', [''execution'']), (''T1203'', [''execution'']), (''T1053'', [''execution'', ''persistence'']),
      (''T1543'', [''persistence'', ''privilege_escalation'']), (''T1547'', [''persistence'', ''privilege_escalation'']),
      (''T1136'', [''persistence'']), (''T1548'', [''privilege_escalation'', ''defense_evasion'']), (''T1068'', [''privilege_escalation'']),
      (''T1055'', [''defense_evasion'', ''privilege_escalation'']), (''T1562'', [''defense_evasion'']), (''T1070'', [''defense_evasion'']),
      (''T1550'', [''credential_access'', ''lateral_movement'']), (''T1003'', [''credential_access'']), (''T1110'', [''credential_access'']),
      (''T1558'', [''credential_access'']), (''T1210'', [''lateral_movement'']), (''T1021'', [''lateral_movement'']),
      (''T1080'', [''lateral_movement'']), (''T1048'', [''exfiltration'']), (''T1041'', [''exfiltration'']), (''T1567'', [''exfiltration'']),
      (''T1486'', [''impact'']), (''T1489'', [''impact'']), (''T1490'', [''impact'']), (''T1498'', [''impact'']), (''T1499'', [''impact'']),
      (''T1592'', [''initial_access'']), (''T1595'', [''initial_access'']), (''T1199'', [''initial_access'']), (''T1566'', [''initial_access''])]"

definition allStages :: "string list" where
  "allStages =
     [''initial_access'', ''execution'', ''persistence'', ''privilege_escalation'', ''defense_evasion'', ''credential_access'',
      ''lateral_movement'', ''exfiltration'', ''impact'', ''command_and_control'']"

definition stage_hit :: "(string \<Rightarrow> f64) \<Rightarrow> string \<Rightarrow> (string \<Rightarrow> f64)" where
  "stage_hit sc stage = sc(stage := f64_max f64_0 (f64_sub (sc stage) (lit 10)))"

definition stage_scores :: "SPCCVEScore list \<Rightarrow> string \<Rightarrow> f64" where
  "stage_scores cves =
     foldl stage_hit (\<lambda>_. lit 100)
       (concat (map (\<lambda>tech. case map_of techToTactics tech of None \<Rightarrow> [] | Some ss \<Rightarrow> ss)
         (concat (map cve_AttckTechniques (filter cve_Matched cves)))))"

definition calculateKillChainScore :: "string list \<Rightarrow> SPCCVEScore list \<Rightarrow> LocalAsset option \<Rightarrow> f64" where
  "calculateKillChainScore order cves asset =
     (if asset = None \<or> filter cve_Matched cves = [] then lit 100
      else f64_div (foldl f64_add f64_0 (map (stage_scores cves) order)) (f64_of_int (int (length allStages))))"

definition neutral :: "string \<Rightarrow> Correction" where
  "neutral action =
     \<lparr>spc_Score = f64_1, spc_Weights = Map.empty, spc_Action = action, co_AffectedCVE = [], co_TopCVEImpact = [], co_TotalPenalty = f64_0,
      co_PenaltyBreakdown = [], co_KillChainScore = f64_0\<rparr>"

text \<open>What the environment of a calculation decides: lower case beyond ASCII, the logarithm, the clock, a map order.\<close>

record calc_env =
  ce_lo :: "string \<Rightarrow> string"
  ce_log :: "f64 \<Rightarrow> f64"
  ce_now :: time
  ce_order :: "string list"

definition calc_start :: "lower_caches \<Rightarrow> calc_state" where
  "calc_start lc = \<lparr>ca_lowered = lc, ca_sum = f64_0, ca_affected = [], ca_top = [], ca_topVal = f64_0, ca_penalties = []\<rparr>"

definition calc_result :: "calc_env \<Rightarrow> f64 \<Rightarrow> SPCCVEScore list \<Rightarrow> LocalAsset option \<Rightarrow> calc_state \<Rightarrow> Correction" where
  "calc_result ce minPScore cves asset st =
     (let total = f64_sqrt (ca_sum st); pscore = f64_max minPScore (f64_sub f64_1 total)
      in \<lparr>spc_Score = round_to 1000 pscore, spc_Weights = generateWeightShift (ca_affected st) cves, spc_Action = ClassifyAction pscore,
          co_AffectedCVE = ca_affected st, co_TopCVEImpact = ca_top st, co_TotalPenalty = round_to 1000 total,
          co_PenaltyBreakdown = ca_penalties st,
          co_KillChainScore = round_to 100 (calculateKillChainScore (ce_order ce) cves asset)\<rparr>)"

definition Calculate :: "calc_env \<Rightarrow> spc_module \<Rightarrow> string \<Rightarrow> string list \<Rightarrow> Correction \<times> spc_module" where
  "Calculate ce m host packages =
     (let cves = sm_cveCache m; asset = sm_assetCache m host; names = lowered_names (ce_lo ce) packages;
          cpes = (case asset of None \<Rightarrow> [] | Some a \<Rightarrow> map (to_lower (ce_lo ce)) (sla_InstalledCPEs a))
      in if cves = [] then (neutral ''no_data'', m)
         else if names = [] \<and> cpes = [] then (neutral ''no_input'', m)
         else (let st = foldl (calc_step (ce_lo ce) (cve_penalty (ce_lo ce) (ce_log ce) (ce_now ce) (sm_kevCatalog m) asset) names cpes)
                          (calc_start (sm_lowered m)) cves
               in (calc_result ce (sm_minPScore m) cves asset st, m\<lparr>sm_lowered := ca_lowered st\<rparr>)))"

text \<open>The calculator as the provider of the assessor (\<open>cmd/asscor/spc_on.go\<close>): the assessor's asset has no host name, services
  and ports, and writing it back drops them.\<close>

definition asset_of :: "SPCLocalAsset \<Rightarrow> LocalAsset" where
  "asset_of a = SPCLocalAsset.extend a (LocalAsset.fields [] [] [])"

definition spc_provider :: "calc_env \<Rightarrow> spc_module SPCProvider" where
  "spc_provider ce =
     \<lparr>spp_Enabled = sm_enabled, spp_GetAsset = (\<lambda>m host. map_option SPCLocalAsset.truncate (GetAsset m host)),
      spp_UpsertAsset = (\<lambda>a m. UpsertAsset (asset_of a) m),
      spp_Calculate = (\<lambda>m host packages. let (c, m) = Calculate ce m host packages in (SPCCorrection.truncate c, m))\<rparr>"

end
