(* ===== verification/Spc_Cache.thy ===== *)
theory Spc_Cache
  imports Spc_Core
begin

text \<open>
  What the cache of vulnerabilities promises under any sequence of its operations: the index is exact, the size bounded, no
  vulnerability known to be exploited is ever lost, the lowered texts are those of the entries. And what it does not: the
  cleanup writes back a snapshot and leaves the lowered texts of what it removed.
\<close>

section \<open>The index\<close>

definition index_exact :: "SPCCVEScore list \<Rightarrow> (string \<rightharpoonup> nat) \<Rightarrow> bool" where
  "index_exact cs ix \<longleftrightarrow> (\<forall>cid i. ix cid = Some i \<longleftrightarrow> i < length cs \<and> cve_CVEID (cs ! i) = cid)"

definition cache_ok :: "spc_module \<Rightarrow> bool" where
  "cache_ok m \<longleftrightarrow> index_exact (sm_cveCache m) (sm_cveIndex m)"

definition within_size :: "spc_module \<Rightarrow> bool" where
  "within_size m \<longleftrightarrow> int (length (sm_cveCache m)) \<le> sm_maxCacheSize m \<or> list_all cve_InKEV (sm_cveCache m)"

definition kev_ids :: "spc_module \<Rightarrow> string set" where
  "kev_ids m = cve_CVEID ` {c \<in> set (sm_cveCache m). cve_InKEV c}"

lemma index_exactD: "index_exact cs ix \<Longrightarrow> ix cid = Some i \<Longrightarrow> i < length cs \<and> cve_CVEID (cs ! i) = cid"
  by (simp add: index_exact_def)

lemma index_exact_distinct: "index_exact cs ix \<Longrightarrow> distinct (map cve_CVEID cs)"
proof -
  assume h: "index_exact cs ix"
  have "i = j" if "i < length cs" "j < length cs" "cve_CVEID (cs ! i) = cve_CVEID (cs ! j)" for i j
  proof -
    have "ix (cve_CVEID (cs ! i)) = Some i" "ix (cve_CVEID (cs ! i)) = Some j" using h that by (simp_all add: index_exact_def)
    then show ?thesis by simp
  qed
  then show ?thesis by (auto simp: distinct_conv_nth)
qed

lemma index_exact_fresh:
  assumes "index_exact cs ix" "ix cid = None"
  shows "cid \<notin> cve_CVEID ` set cs"
proof
  assume "cid \<in> cve_CVEID ` set cs"
  then obtain i where "i < length cs" "cve_CVEID (cs ! i) = cid" by (metis imageE in_set_conv_nth)
  then have "ix cid = Some i" using assms(1) by (simp add: index_exact_def)
  then show False using assms(2) by simp
qed

lemma index_exact_append:
  assumes "index_exact cs ix" "ix (cve_CVEID c) = None"
  shows "index_exact (cs @ [c]) (ix(cve_CVEID c \<mapsto> length cs))"
proof -
  have "cve_CVEID (cs ! i) \<noteq> cve_CVEID c" if "i < length cs" for i
    using index_exact_fresh [OF assms] that by (metis imageI nth_mem)
  then show ?thesis using assms by (auto simp: index_exact_def nth_append less_Suc_eq)
qed

lemma index_exact_update: "index_exact cs ix \<Longrightarrow> map cve_CVEID ds = map cve_CVEID cs \<Longrightarrow> index_exact ds ix"
  unfolding index_exact_def by (metis length_map nth_map)

lemma index_of_entries_exact: "distinct (map cve_CVEID cs) \<Longrightarrow> index_exact cs (index_of_entries cs)"
proof (induction cs rule: rev_induct)
  case Nil
  then show ?case by (simp add: index_exact_def index_of_entries_def)
next
  case (snoc c cs)
  then have ih: "index_exact cs (index_of_entries cs)" by simp
  have "index_of_entries cs (cve_CVEID c) = None"
  proof (rule ccontr)
    assume "index_of_entries cs (cve_CVEID c) \<noteq> None"
    then obtain i where "index_of_entries cs (cve_CVEID c) = Some i" by blast
    from index_exactD [OF ih this] have "cve_CVEID c \<in> cve_CVEID ` set cs" by (metis imageI nth_mem)
    then show False using snoc.prems by simp
  qed
  then have "index_exact (cs @ [c]) ((index_of_entries cs)(cve_CVEID c \<mapsto> length cs))" by (rule index_exact_append [OF ih])
  moreover have "index_of_entries (cs @ [c]) = (index_of_entries cs)(cve_CVEID c \<mapsto> length cs)"
    unfolding index_of_entries_def enumerate_append_eq by simp
  ultimately show ?case by (simp only:)
qed

lemma index_exact_remove:
  assumes ok: "index_exact cs ix" and w: "w < length cs"
  shows "index_exact (take w cs @ drop (Suc w) cs)
    (\<lambda>cid. if cid = cve_CVEID (cs ! w) then None else map_option (\<lambda>i. if i > w then i - 1 else i) (ix cid))"
proof -
  have n: "(take w cs @ drop (Suc w) cs) ! i = (if i < w then cs ! i else cs ! Suc i)" if "i < length cs - 1" for i
    using that w by (auto simp: nth_append min_def)
  have len: "length (take w cs @ drop (Suc w) cs) = length cs - 1" using w by simp
  have d: "cve_CVEID (cs ! i) = cve_CVEID (cs ! w) \<longleftrightarrow> i = w" if "i < length cs" for i
    using index_exact_distinct [OF ok] w that by (metis distinct_conv_nth length_map nth_map)
  show ?thesis
    unfolding index_exact_def
  proof (intro allI)
    fix cid i
    show "((if cid = cve_CVEID (cs ! w) then None else map_option (\<lambda>i. if w < i then i - 1 else i) (ix cid)) = Some i) =
        (i < length (take w cs @ drop (Suc w) cs) \<and> cve_CVEID ((take w cs @ drop (Suc w) cs) ! i) = cid)" (is "?L = ?R")
    proof
      assume ?L
      then have ne: "cid \<noteq> cve_CVEID (cs ! w)" by (simp split: if_split_asm)
      with \<open>?L\<close> obtain j where "ix cid = Some j" by (cases "ix cid") simp_all
      with \<open>?L\<close> ne have j: "cid \<noteq> cve_CVEID (cs ! w)" "ix cid = Some j" "i = (if w < j then j - 1 else j)" by (simp_all del: if_split)
      with index_exactD [OF ok j(2)] w have "j \<noteq> w" "j < length cs" "cve_CVEID (cs ! j) = cid" by auto
      with j w have "i < length cs - 1" "cve_CVEID (if i < w then cs ! i else cs ! Suc i) = cid" by auto
      then show ?R unfolding len by (simp add: n)
    next
      assume R: ?R
      then have i: "i < length cs - 1" and c: "cve_CVEID (if i < w then cs ! i else cs ! Suc i) = cid" unfolding len using n by auto
      define j where "j = (if i < w then i else Suc i)"
      have j: "j < length cs" "cve_CVEID (cs ! j) = cid" "j \<noteq> w" using i c w by (auto simp: j_def)
      then have "ix cid = Some j" using ok by (simp add: index_exact_def)
      moreover have "cid \<noteq> cve_CVEID (cs ! w)" using d j by blast
      ultimately show ?L by (auto simp: j_def)
    qed
  qed
qed

lemma worst_entry_spec:
  "case worst_entry cs of None \<Rightarrow> list_all cve_InKEV cs | Some w \<Rightarrow> w < length cs \<and> \<not> cve_InKEV (cs ! w)"
proof -
  have "case foldl worst_step None (enumerate 0 cs) of None \<Rightarrow> list_all cve_InKEV cs | Some (w, s) \<Rightarrow> w < length cs \<and> \<not> cve_InKEV (cs ! w)"
  proof (induction cs rule: rev_induct)
    case (snoc c cs)
    then show ?case
      by (auto simp: enumerate_append_eq worst_step_def Let_def nth_append split: option.splits)
  qed simp
  then show ?thesis by (auto simp: worst_entry_def split: option.splits)
qed

section \<open>One operation\<close>

text \<open>What every operation keeps, in one relation: a consistent cache stays so, the bound too, nothing exploited is lost.\<close>

definition keeps_cache :: "spc_module \<Rightarrow> spc_module \<Rightarrow> bool" where
  "keeps_cache m m' \<longleftrightarrow>
     (cache_ok m \<and> within_size m \<longrightarrow> cache_ok m' \<and> within_size m' \<and> kev_ids m \<subseteq> kev_ids m')"

lemma keeps_refl [simp]: "keeps_cache m m"
  by (simp add: keeps_cache_def)

lemma keeps_trans: "keeps_cache a b \<Longrightarrow> keeps_cache b c \<Longrightarrow> keeps_cache a c"
  by (auto simp: keeps_cache_def)

text \<open>An entry changed in place that keeps its identifier and what is known of exploits.\<close>

lemma keeps_in_place:
  assumes "sm_cveCache m' = (sm_cveCache m)[idx := c]" "sm_cveIndex m' = sm_cveIndex m" "sm_maxCacheSize m' = sm_maxCacheSize m"
    "cve_CVEID c = cve_CVEID (sm_cveCache m ! idx)" "cve_InKEV (sm_cveCache m ! idx) \<Longrightarrow> cve_InKEV c"
  shows "keeps_cache m m'"
proof -
  let ?cs = "sm_cveCache m"
  have ids: "map cve_CVEID (?cs[idx := c]) = map cve_CVEID ?cs"
    by (metis assms(4) list_update_beyond list_update_id map_update not_le_imp_less nth_map)
  have all: "list_all cve_InKEV ?cs \<Longrightarrow> list_all cve_InKEV (?cs[idx := c])"
    using assms(5) by (cases "idx < length ?cs") (auto simp: list_all_length nth_list_update)
  have "kev_ids m \<subseteq> kev_ids m'"
  proof
    fix x
    assume "x \<in> kev_ids m"
    then obtain i where i: "i < length ?cs" "cve_InKEV (?cs ! i)" "x = cve_CVEID (?cs ! i)"
      by (auto simp: kev_ids_def in_set_conv_nth)
    then have "?cs[idx := c] ! i \<in> set (?cs[idx := c])" by simp
    moreover have "cve_InKEV (?cs[idx := c] ! i)" "cve_CVEID (?cs[idx := c] ! i) = x"
      using i assms(4,5) by (cases "i = idx"; simp)+
    ultimately show "x \<in> kev_ids m'" unfolding kev_ids_def assms(1) by blast
  qed
  then show ?thesis
    using assms(1-3) all index_exact_update [OF _ ids] by (auto simp: keeps_cache_def cache_ok_def within_size_def)
qed

lemma keeps_merge: "keeps_cache m (mergeCVEInPlace idx c m)"
  by (rule keeps_in_place [where idx = idx and c = "mergeCVE c (sm_cveCache m ! idx)"]) (simp_all add: mergeCVEInPlace_def mergeCVE_def Let_def)

lemma keeps_upd:
  assumes "\<And>c. cve_CVEID (f c) = cve_CVEID c" "\<And>c. cve_InKEV c \<Longrightarrow> cve_InKEV (f c)"
  shows "keeps_cache m (upd_entry idx f m)"
  by (rule keeps_in_place [where idx = idx and c = "f (sm_cveCache m ! idx)"]) (simp_all add: upd_entry_def assms)

lemma append_facts:
  assumes "cache_ok m" "sm_cveIndex m (cve_CVEID c) = None"
  shows "cache_ok (spc_append c m)" "kev_ids m \<subseteq> kev_ids (spc_append c m)"
  using index_exact_append [of "sm_cveCache m" "sm_cveIndex m" c] assms by (auto simp: cache_ok_def spc_append_def kev_ids_def)

lemma keeps_append:
  assumes "sm_cveIndex m (cve_CVEID c) = None" "\<not> cache_full m"
  shows "keeps_cache m (spc_append c m)"
  using append_facts [OF _ assms(1)] assms(2)
  by (auto simp: keeps_cache_def within_size_def cache_full_def spc_append_def)

lemma evict_facts:
  assumes ok: "cache_ok m" and b: "within_size m" and full: "cache_full m" and kev: "cve_InKEV c"
    and fresh: "sm_cveIndex m (cve_CVEID c) = None"
  shows "cache_ok (spc_append c (evictLowestPriorityCVE m)) \<and> within_size (spc_append c (evictLowestPriorityCVE m)) \<and>
    kev_ids m \<subseteq> kev_ids (spc_append c (evictLowestPriorityCVE m))"
proof (cases "worst_entry (sm_cveCache m)")
  case None
  with worst_entry_spec [of "sm_cveCache m"] have "list_all cve_InKEV (sm_cveCache m)" by simp
  then show ?thesis using None append_facts [OF ok fresh] kev
    by (simp add: evictLowestPriorityCVE_def within_size_def spc_append_def)
next
  case (Some w)
  let ?cs = "sm_cveCache m"
  from Some worst_entry_spec [of ?cs] have w: "w < length ?cs" "\<not> cve_InKEV (?cs ! w)" by simp_all
  then have "\<not> list_all cve_InKEV ?cs" by (auto simp: list_all_length)
  with b have size: "int (length ?cs) \<le> sm_maxCacheSize m" by (simp add: within_size_def)
  define m1 where "m1 = evictLowestPriorityCVE m"
  have cs: "sm_cveCache m1 = take w ?cs @ drop (Suc w) ?cs" and mx: "sm_maxCacheSize m1 = sm_maxCacheSize m"
    and ix: "sm_cveIndex m1 = (\<lambda>cid. if cid = cve_CVEID (?cs ! w) then None else map_option (\<lambda>i. if i > w then i - 1 else i) (sm_cveIndex m cid))"
    using Some by (simp_all add: m1_def evictLowestPriorityCVE_def Let_def)
  have ok1: "cache_ok m1" using index_exact_remove [OF ok [unfolded cache_ok_def] w(1)] by (simp add: cache_ok_def cs ix)
  have fresh1: "sm_cveIndex m1 (cve_CVEID c) = None" using fresh by (simp add: ix)
  have split: "?cs = take w ?cs @ ?cs ! w # drop (Suc w) ?cs" using w(1) by (simp add: id_take_nth_drop)
  have "set ?cs = insert (?cs ! w) (set (sm_cveCache m1))"
    by (subst split) (simp add: cs)
  then have "kev_ids m \<subseteq> kev_ids m1" using w(2) by (auto simp: kev_ids_def)
  moreover have "within_size (spc_append c m1)" using size w(1) by (simp add: within_size_def spc_append_def cs mx)
  ultimately show ?thesis using append_facts [OF ok1 fresh1] by (auto simp: m1_def [symmetric])
qed

lemma keeps_put: "keeps_cache m (snd (put_cve c m))"
proof (cases "sm_cveIndex m (cve_CVEID c)")
  case (Some idx)
  then show ?thesis using keeps_merge by (simp add: put_cve_def)
next
  case None
  then show ?thesis using keeps_append [OF None] evict_facts [OF _ _ _ _ None]
    by (auto simp: put_cve_def keeps_cache_def)
qed

lemma keepsI: "(cache_ok m \<Longrightarrow> within_size m \<Longrightarrow> keeps_cache m m') \<Longrightarrow> keeps_cache m m'"
  by (auto simp: keeps_cache_def)

lemma keeps_foldl: "(\<And>m x. keeps_cache m (f m x)) \<Longrightarrow> keeps_cache m (foldl f m xs)"
  by (induction xs arbitrary: m) (auto intro: keeps_trans)

lemma keeps_AddCVE: "keeps_cache m (AddCVE c m)"
  by (simp add: AddCVE_def keeps_put)

lemma keeps_AddCVEs: "keeps_cache m (AddCVEs cs m)"
  unfolding AddCVEs_def by (rule keeps_foldl) (rule keeps_AddCVE)

lemma keeps_MergeCVEs: "keeps_cache m (snd (MergeCVEs cs m))"
proof (induction cs arbitrary: m)
  case (Cons c cs)
  have "snd (MergeCVEs (c # cs) m) = snd (MergeCVEs cs (snd (put_cve c m)))" by (simp add: case_prod_beta Let_def)
  then show ?case using keeps_trans [OF keeps_put Cons.IH] by simp
qed simp

lemma keeps_feed: "keeps_cache m (merge_feed cs m)"
proof (induction cs arbitrary: m)
  case (Cons c cs)
  then show ?case
    using keeps_trans [OF keeps_merge Cons.IH] keeps_trans [OF keeps_append Cons.IH] by (simp split: option.split)
qed simp

lemma keeps_cn: "keeps_cache m (merge_cn cs m)"
proof (induction cs arbitrary: m)
  case (Cons c cs)
  have "keeps_cache m (upd_entry idx (fill_gaps c) m)" for idx by (rule keeps_upd) (simp_all add: fill_gaps_def)
  then show ?case
    using keeps_trans [OF _ Cons.IH] keeps_trans [OF keeps_append Cons.IH] by (simp split: option.split)
qed simp

lemma keeps_oscal: "keeps_cache m (merge_oscal cs m)"
proof (induction cs arbitrary: m)
  case (Cons c cs)
  then show ?case
    using keeps_trans [OF keeps_merge Cons.IH] keeps_trans [OF keeps_append Cons.IH] by (simp split: option.split)
qed simp

lemma index_in_range: "cache_ok m \<Longrightarrow> sm_cveIndex m cid = Some idx \<Longrightarrow> idx < length (sm_cveCache m)"
  by (simp add: cache_ok_def index_exact_def)

lemma keeps_epss: "keeps_cache m (merge_epss order upds m)"
proof -
  have "keeps_cache m (epss_put m u)" for m u
  proof (rule keepsI)
    assume ok: "cache_ok m"
    obtain cid e p where u: "u = (cid, e, p)" by (cases u)
    have "keeps_cache m (upd_entry idx (\<lambda>c. c\<lparr>cve_EPSS := e, cve_EPSSPercent := p\<rparr>) m)" for idx by (rule keeps_upd) simp_all
    moreover have "sm_cveIndex m cid = None \<Longrightarrow> \<not> cache_full m \<Longrightarrow>
        keeps_cache m (spc_append ((empty_cve cid)\<lparr>cve_EPSS := e, cve_EPSSPercent := p\<rparr>) m)"
      by (rule keeps_append) (simp_all add: empty_cve_def)
    ultimately show "keeps_cache m (epss_put m u)" using index_in_range [OF ok] by (simp add: u epss_put_def split: option.split)
  qed
  then show ?thesis unfolding merge_epss_def by (rule keeps_foldl)
qed

lemma keeps_kev: "keeps_cache m (merge_kev vs m)"
proof -
  have "keeps_cache m (kev_put m e)" for m e
  proof (rule keepsI)
    assume ok: "cache_ok m"
    have "keeps_cache m (upd_entry idx (kev_mark e) m)" for idx by (rule keeps_upd) (simp_all add: kev_mark_def)
    moreover have "sm_cveIndex m (kv_CVEID e) = None \<Longrightarrow> \<not> cache_full m \<Longrightarrow> keeps_cache m (spc_append (kev_new e) m)"
      by (rule keeps_append) (simp_all add: kev_new_def empty_cve_def)
    ultimately show "keeps_cache m (kev_put m e)" using index_in_range [OF ok] by (simp add: kev_put_def split: option.split)
  qed
  then have "keeps_cache m (foldl kev_put m (kev_entries vs))" by (rule keeps_foldl)
  then show ?thesis by (simp add: merge_kev_def keeps_cache_def cache_ok_def within_size_def kev_ids_def)
qed

lemma keeps_cleanup: "keeps_cache m (cleanupOldCVEs cutoff m)"
proof -
  let ?cs = "sm_cveCache m"
  have "distinct (map cve_CVEID ?cs) \<Longrightarrow> distinct (map cve_CVEID (cleanup_kept cutoff ?cs))"
    unfolding cleanup_kept_def by (rule distinct_map_filter)
  then have ok: "cache_ok m \<Longrightarrow> cache_ok (cleanup_commit (cleanup_kept cutoff ?cs) m)"
    using index_exact_distinct [of ?cs "sm_cveIndex m"] index_of_entries_exact by (simp add: cache_ok_def cleanup_commit_def)
  have "int (length (cleanup_kept cutoff ?cs)) \<le> int (length ?cs)" "list_all cve_InKEV ?cs \<Longrightarrow> list_all cve_InKEV (cleanup_kept cutoff ?cs)"
    by (simp_all add: cleanup_kept_def list_all_iff)
  then have b: "within_size m \<Longrightarrow> within_size (cleanup_commit (cleanup_kept cutoff ?cs) m)"
    by (auto simp: within_size_def cleanup_commit_def)
  have "kev_ids m \<subseteq> kev_ids (cleanup_commit (cleanup_kept cutoff ?cs) m)"
    by (auto simp: kev_ids_def cleanup_commit_def cleanup_kept_def)
  with ok b show ?thesis by (simp add: cleanupOldCVEs_def keeps_cache_def Let_def)
qed

section \<open>Any sequence of operations\<close>

datatype spc_op =
    Op_Add SPCCVEScore | Op_AddAll "SPCCVEScore list" | Op_Merge "SPCCVEScore list" | Op_Feed "SPCCVEScore list"
  | Op_Cn "SPCCVEScore list" | Op_Oscal "SPCCVEScore list" | Op_Epss "string list" "string list" "string \<Rightarrow> string"
  | Op_Kev "(string \<times> string \<times> string list \<times> string) list" | Op_Cleanup time | Op_Clear | Op_Asset LocalAsset
  | Op_Calculate calc_env string "string list"

fun spc_run :: "spc_module \<Rightarrow> spc_op \<Rightarrow> spc_module" where
  "spc_run m (Op_Add c) = AddCVE c m"
| "spc_run m (Op_AddAll cs) = AddCVEs cs m"
| "spc_run m (Op_Merge cs) = snd (MergeCVEs cs m)"
| "spc_run m (Op_Feed cs) = merge_feed cs m"
| "spc_run m (Op_Cn cs) = merge_cn cs m"
| "spc_run m (Op_Oscal cs) = merge_oscal cs m"
| "spc_run m (Op_Epss order lines uni) = merge_epss order (epss_updates uni lines) m"
| "spc_run m (Op_Kev vs) = merge_kev vs m"
| "spc_run m (Op_Cleanup cutoff) = cleanupOldCVEs cutoff m"
| "spc_run m Op_Clear = ClearCache m"
| "spc_run m (Op_Asset a) = UpsertAsset a m"
| "spc_run m (Op_Calculate ce host packages) = snd (Calculate ce m host packages)"

lemma calculate_frame:
  "sm_cveCache (snd (Calculate ce m host packages)) = sm_cveCache m" "sm_cveIndex (snd (Calculate ce m host packages)) = sm_cveIndex m"
  "sm_maxCacheSize (snd (Calculate ce m host packages)) = sm_maxCacheSize m"
  by (simp_all add: Calculate_def Let_def)

lemma keeps_run: "p \<noteq> Op_Clear \<Longrightarrow> keeps_cache m (spc_run m p)"
  using keeps_AddCVE keeps_AddCVEs keeps_MergeCVEs keeps_feed keeps_cn keeps_oscal keeps_epss keeps_kev keeps_cleanup
  by (cases p) (auto simp: keeps_cache_def cache_ok_def within_size_def kev_ids_def UpsertAsset_def calculate_frame)

lemma cache_new: "cache_ok New" "within_size New"
  by (simp_all add: cache_ok_def within_size_def index_exact_def New_def)

lemma run_ok: "cache_ok (foldl spc_run New ops) \<and> within_size (foldl spc_run New ops)"
proof (induction ops rule: rev_induct)
  case (snoc p ops)
  then show ?case
  proof (cases "p = Op_Clear")
    case True
    then show ?thesis using snoc by (simp add: ClearCache_def cache_ok_def within_size_def index_exact_def)
  next
    case False
    from keeps_run [OF this] snoc show ?thesis by (simp add: keeps_cache_def)
  qed
qed (simp add: cache_new)


text \<open>C13: A vulnerability known to be exploited stays in the cache, and marked, through every operation but the clearing: through
  merges of lesser sources, evictions and the cleanup.\<close>

theorem exploited_never_lost:
  "kev_ids (foldl spc_run New ops) \<subseteq> kev_ids (foldl spc_run New (ops @ filter (\<lambda>p. p \<noteq> Op_Clear) later))"
proof (induction later rule: rev_induct)
  case (snoc p later)
  show ?case
  proof (cases "p = Op_Clear")
    case True
    then show ?thesis using snoc by simp
  next
    case False
    define m where "m = foldl spc_run New (ops @ filter (\<lambda>p. p \<noteq> Op_Clear) later)"
    have "kev_ids m \<subseteq> kev_ids (spc_run m p)"
      using keeps_run [OF False, of m] run_ok [of "ops @ filter (\<lambda>p. p \<noteq> Op_Clear) later"] by (simp add: keeps_cache_def m_def)
    then show ?thesis using snoc False by (simp add: m_def)
  qed
qed simp

end
