(* ===== verification/Spc_Lowered.thy ===== *)
theory Spc_Lowered
  imports Spc_Cache
begin

text \<open>
  The lowered texts of the cache: without the cleanup they are always those of the entries, so that the assessment path matches
  as the reference does. The cleanup breaks this, and loses what is added while it runs.
\<close>

section \<open>Coherence\<close>

definition lowered_right :: "(string \<Rightarrow> string) \<Rightarrow> lower_caches \<Rightarrow> SPCCVEScore \<Rightarrow> bool" where
  "lowered_right lo lc c \<longleftrightarrow> coherent_for lo c lc \<and> (cve_AffectedCPEs c = [] \<longrightarrow> lc_cpes lc (cve_CVEID c) = None)"

definition unlowered :: "lower_caches \<Rightarrow> string \<Rightarrow> bool" where
  "unlowered lc cid \<longleftrightarrow> lc_cpes lc cid = None \<and> lc_descs lc cid = None"

definition coherent :: "(string \<Rightarrow> string) \<Rightarrow> spc_module \<Rightarrow> bool" where
  "coherent lo m \<longleftrightarrow>
     (\<forall>c\<in>set (sm_cveCache m). lowered_right lo (sm_lowered m) c) \<and>
     (\<forall>cid. cid \<notin> cve_CVEID ` set (sm_cveCache m) \<longrightarrow> unlowered (sm_lowered m) cid)"

text \<open>Preservation, for a cache that is consistent already.\<close>

definition keeps_lowered :: "(string \<Rightarrow> string) \<Rightarrow> spc_module \<Rightarrow> spc_module \<Rightarrow> bool" where
  "keeps_lowered lo m m' \<longleftrightarrow> (cache_ok m \<and> within_size m \<and> coherent lo m \<longrightarrow> cache_ok m' \<and> within_size m' \<and> coherent lo m')"

lemma lowered_refl [simp]: "keeps_lowered lo m m"
  by (simp add: keeps_lowered_def)

lemma lowered_trans: "keeps_lowered lo a b \<Longrightarrow> keeps_lowered lo b c \<Longrightarrow> keeps_lowered lo a c"
  by (auto simp: keeps_lowered_def)

lemma lowered_foldl: "(\<And>m x. keeps_lowered lo m (f m x)) \<Longrightarrow> keeps_lowered lo m (foldl f m xs)"
  by (induction xs arbitrary: m) (auto intro: lowered_trans)

lemma loweredI:
  "keeps_cache m m' \<Longrightarrow> (cache_ok m \<Longrightarrow> within_size m \<Longrightarrow> coherent lo m \<Longrightarrow> coherent lo m') \<Longrightarrow> keeps_lowered lo m m'"
  by (auto simp: keeps_lowered_def keeps_cache_def)

lemma unlowered_right: "unlowered lc (cve_CVEID c) \<Longrightarrow> lowered_right lo lc c"
  by (simp add: unlowered_def lowered_right_def coherent_for_def)

lemma invalidate_simps:
  "unlowered (invalidateLowerCaches cid lc) cid"
  "cid' \<noteq> cid \<Longrightarrow> unlowered (invalidateLowerCaches cid lc) cid' = unlowered lc cid'"
  "cve_CVEID c \<noteq> cid \<Longrightarrow> lowered_right lo (invalidateLowerCaches cid lc) c = lowered_right lo lc c"
  by (simp_all add: unlowered_def invalidateLowerCaches_def lowered_right_def coherent_for_def)

lemma others_ids:
  assumes "cache_ok m" "idx < length (sm_cveCache m)" "c \<in> set ((sm_cveCache m)[idx := d])" "c \<noteq> d" "cve_CVEID d = cve_CVEID (sm_cveCache m ! idx)"
  shows "c \<in> set (sm_cveCache m) \<and> cve_CVEID c \<noteq> cve_CVEID (sm_cveCache m ! idx)"
proof -
  let ?cs = "sm_cveCache m"
  from assms(3) obtain i where i: "i < length ?cs" "c = ?cs[idx := d] ! i" by (auto simp: in_set_conv_nth)
  with assms(4) have ne: "i \<noteq> idx" by auto
  have "distinct (map cve_CVEID ?cs)" using assms(1) index_exact_distinct by (auto simp: cache_ok_def)
  then have "cve_CVEID (?cs ! i) \<noteq> cve_CVEID (?cs ! idx)"
    using i(1) assms(2) ne by (metis length_map nth_eq_iff_index_eq nth_map)
  then show ?thesis using i ne by simp
qed

lemma ids_in_place: "cve_CVEID d = cve_CVEID (cs ! idx) \<Longrightarrow> cve_CVEID ` set (cs[idx := d]) = cve_CVEID ` set cs"
  by (metis list.set_map list_update_beyond list_update_id map_update not_le_imp_less nth_map)

lemma coherent_in_place:
  assumes "cache_ok m" "coherent lo m" "idx < length (sm_cveCache m)" "sm_cveCache m' = (sm_cveCache m)[idx := d]"
    "cve_CVEID d = cve_CVEID (sm_cveCache m ! idx)"
    "sm_lowered m' = sm_lowered m \<and> lowered_right lo (sm_lowered m) d \<or>
     sm_lowered m' = invalidateLowerCaches (cve_CVEID d) (sm_lowered m)"
  shows "coherent lo m'"
proof -
  have right: "lowered_right lo (sm_lowered m') c" if "c \<in> set (sm_cveCache m')" for c
  proof (cases "c = d")
    case True
    then show ?thesis using assms(6) unlowered_right invalidate_simps(1) by metis
  next
    case False
    have "c \<in> set (sm_cveCache m)" "cve_CVEID c \<noteq> cve_CVEID d"
      using others_ids [OF assms(1,3) that [unfolded assms(4)] False assms(5)] assms(5) by auto
    then show ?thesis using assms(2,6) invalidate_simps(3) by (metis coherent_def)
  qed
  have "unlowered (sm_lowered m') cid" if "cid \<notin> cve_CVEID ` set (sm_cveCache m')" for cid
  proof -
    have "cid \<notin> cve_CVEID ` set (sm_cveCache m)" using that unfolding assms(4) ids_in_place [OF assms(5)] .
    moreover from this have "cid \<noteq> cve_CVEID d" using assms(3,5) by auto
    ultimately show ?thesis using assms(2,6) invalidate_simps(2) by (metis coherent_def)
  qed
  with right show ?thesis by (simp add: coherent_def)
qed

lemma right_keep:
  "lowered_right lo lc c \<Longrightarrow> cve_CVEID d = cve_CVEID c \<Longrightarrow> cve_Description d = cve_Description c \<Longrightarrow>
   cve_AffectedCPEs d = cve_AffectedCPEs c \<or> cve_AffectedCPEs c = [] \<Longrightarrow> lowered_right lo lc d"
  by (auto simp: lowered_right_def coherent_for_def)

lemma merge_keeps_texts:
  "\<not> merge_invalidates inc old \<Longrightarrow> cve_AffectedCPEs (mergeCVE inc old) = cve_AffectedCPEs old \<and>
    cve_Description (mergeCVE inc old) = cve_Description old"
  by (auto simp: merge_invalidates_def mergeCVE_def Let_def)

lemma mergeCVE_id [simp]: "cve_CVEID (mergeCVE inc old) = cve_CVEID old"
  by (simp add: mergeCVE_def Let_def)

lemma lowered_merge: "sm_cveIndex m cid = Some idx \<Longrightarrow> keeps_lowered lo m (mergeCVEInPlace idx c m)"
proof (rule loweredI [OF keeps_merge])
  assume a: "sm_cveIndex m cid = Some idx" "cache_ok m" "coherent lo m"
  let ?old = "sm_cveCache m ! idx"
  have i: "idx < length (sm_cveCache m)" using index_in_range [OF a(2,1)] .
  then have "lowered_right lo (sm_lowered m) ?old" using a(3) by (simp add: coherent_def)
  then have "\<not> merge_invalidates c ?old \<Longrightarrow> lowered_right lo (sm_lowered m) (mergeCVE c ?old)"
    using right_keep merge_keeps_texts by (metis mergeCVE_id)
  then show "coherent lo (mergeCVEInPlace idx c m)"
    by (intro coherent_in_place [OF a(2,3) i, where d = "mergeCVE c ?old"]) (simp_all add: mergeCVEInPlace_def Let_def)
qed

lemma lowered_upd:
  assumes "sm_cveIndex m cid = Some idx" "\<And>c. cve_CVEID (f c) = cve_CVEID c" "\<And>c. cve_InKEV c \<Longrightarrow> cve_InKEV (f c)"
    "\<And>c. cve_Description (f c) = cve_Description c" "\<And>c. cve_AffectedCPEs (f c) = cve_AffectedCPEs c \<or> cve_AffectedCPEs c = []"
  shows "keeps_lowered lo m (upd_entry idx f m)"
proof (rule loweredI [OF keeps_upd [OF assms(2,3)]])
  assume a: "cache_ok m" "coherent lo m"
  let ?old = "sm_cveCache m ! idx"
  have i: "idx < length (sm_cveCache m)" using index_in_range [OF a(1) assms(1)] .
  then have "lowered_right lo (sm_lowered m) ?old" using a(2) by (simp add: coherent_def)
  then have "lowered_right lo (sm_lowered m) (f ?old)" by (rule right_keep) (use assms in auto)
  then show "coherent lo (upd_entry idx f m)"
    by (intro coherent_in_place [OF a i, where d = "f ?old"]) (simp_all add: upd_entry_def assms(2))
qed

lemma coherent_append:
  assumes "cache_ok m" "coherent lo m" "sm_cveIndex m (cve_CVEID c) = None"
  shows "coherent lo (spc_append c m)"
proof -
  have "cve_CVEID c \<notin> cve_CVEID ` set (sm_cveCache m)" using index_exact_fresh assms(1,3) by (auto simp: cache_ok_def)
  then show ?thesis using assms(2) unlowered_right by (auto simp: coherent_def spc_append_def)
qed

lemma lowered_append: "sm_cveIndex m (cve_CVEID c) = None \<Longrightarrow> \<not> cache_full m \<Longrightarrow> keeps_lowered lo m (spc_append c m)"
  by (rule loweredI [OF keeps_append]) (auto intro: coherent_append)

lemma evict_coherent:
  assumes "cache_ok m" "coherent lo m"
  shows "coherent lo (evictLowestPriorityCVE m)"
proof (cases "worst_entry (sm_cveCache m)")
  case None
  then show ?thesis using assms by (simp add: evictLowestPriorityCVE_def)
next
  case (Some w)
  let ?cs = "sm_cveCache m" and ?ev = "cve_CVEID (sm_cveCache m ! w)"
  from Some worst_entry_spec [of ?cs] have w: "w < length ?cs" by simp
  have d: "distinct (map cve_CVEID ?cs)" using assms(1) index_exact_distinct by (auto simp: cache_ok_def)
  have split: "?cs = take w ?cs @ ?cs ! w # drop (Suc w) ?cs" using w by (simp add: id_take_nth_drop)
  define rest where "rest = take w ?cs @ drop (Suc w) ?cs"
  have ids: "set ?cs = insert (?cs ! w) (set rest)" by (subst split) (simp add: rest_def)
  have "distinct (map cve_CVEID (take w ?cs @ ?cs ! w # drop (Suc w) ?cs))" using d split by simp
  then have ne: "?ev \<notin> cve_CVEID ` set rest" by (auto simp: rest_def)
  have cs: "sm_cveCache (evictLowestPriorityCVE m) = rest" "sm_lowered (evictLowestPriorityCVE m) = invalidateLowerCaches ?ev (sm_lowered m)"
    using Some by (simp_all add: evictLowestPriorityCVE_def rest_def Let_def)
  have right: "lowered_right lo (invalidateLowerCaches ?ev (sm_lowered m)) c" if "c \<in> set rest" for c
  proof -
    have "cve_CVEID c \<noteq> ?ev" using ne that by (metis imageI)
    then show ?thesis using assms(2) ids that invalidate_simps(3) by (metis coherent_def insertI2)
  qed
  have none: "unlowered (invalidateLowerCaches ?ev (sm_lowered m)) cid" if "cid \<notin> cve_CVEID ` set rest" for cid
  proof (cases "cid = ?ev")
    case True
    then show ?thesis by (simp add: invalidate_simps(1))
  next
    case False
    then have "cid \<notin> cve_CVEID ` set ?cs" using that ids by simp
    then show ?thesis using assms(2) False by (simp add: coherent_def invalidate_simps(2))
  qed
  show ?thesis unfolding coherent_def cs using right none by blast
qed

lemma lowered_put: "keeps_lowered lo m (snd (put_cve c m))"
proof (cases "sm_cveIndex m (cve_CVEID c)")
  case (Some idx)
  then show ?thesis using lowered_merge by (simp add: put_cve_def)
next
  case None
  show ?thesis
  proof (rule loweredI [OF keeps_put])
    assume a: "cache_ok m" "within_size m" "coherent lo m"
    have "cache_ok (evictLowestPriorityCVE m)"
    proof (cases "worst_entry (sm_cveCache m)")
      case (Some w)
      with worst_entry_spec [of "sm_cveCache m"] have "w < length (sm_cveCache m)" by simp
      from index_exact_remove [OF a(1) [unfolded cache_ok_def] this] show ?thesis
        by (simp add: cache_ok_def evictLowestPriorityCVE_def Some Let_def)
    qed (simp add: evictLowestPriorityCVE_def a)
    moreover have "sm_cveIndex (evictLowestPriorityCVE m) (cve_CVEID c) = None"
      using None by (simp add: evictLowestPriorityCVE_def Let_def split: option.split)
    ultimately have "coherent lo (spc_append c (evictLowestPriorityCVE m))"
      using coherent_append evict_coherent [OF a(1,3)] by blast
    then show "coherent lo (snd (put_cve c m))"
      using None a coherent_append [OF a(1,3) None] by (simp add: put_cve_def)
  qed
qed

section \<open>The calculation\<close>

definition coherent_on :: "(string \<Rightarrow> string) \<Rightarrow> SPCCVEScore list \<Rightarrow> lower_caches \<Rightarrow> bool" where
  "coherent_on lo cs lc \<longleftrightarrow>
     (\<forall>c\<in>set cs. lowered_right lo lc c) \<and> (\<forall>cid. cid \<notin> cve_CVEID ` set cs \<longrightarrow> unlowered lc cid)"

lemma coherent_on_cache: "coherent lo m = coherent_on lo (sm_cveCache m) (sm_lowered m)"
  by (simp add: coherent_def coherent_on_def)

lemma fast_lowered_other:
  "cid \<noteq> cve_CVEID c \<Longrightarrow> lc_cpes (snd (matchCPEFast lo c names cpes lc)) cid = lc_cpes lc cid \<and>
     lc_descs (snd (matchCPEFast lo c names cpes lc)) cid = lc_descs lc cid"
  by (simp add: matchCPEFast_def loweredAffectedCPEs_def loweredDescription_def Let_def split: option.split)

lemma fast_lowered_self: "lowered_right lo lc c \<Longrightarrow> lowered_right lo (snd (matchCPEFast lo c names cpes lc)) c"
  by (auto simp: lowered_right_def coherent_for_def matchCPEFast_def loweredAffectedCPEs_def loweredDescription_def Let_def split: option.split)

lemma fast_coherent:
  assumes "coherent_on lo cs lc" "c \<in> set cs" "distinct (map cve_CVEID cs)"
  shows "coherent_on lo cs (snd (matchCPEFast lo c names cpes lc))"
proof -
  let ?lc = "snd (matchCPEFast lo c names cpes lc)"
  have "lowered_right lo ?lc d" if d: "d \<in> set cs" for d
  proof (cases "cve_CVEID d = cve_CVEID c")
    case True
    then have "d = c" using assms(2,3) d by (simp add: distinct_map inj_on_def)
    then show ?thesis using assms(1) d fast_lowered_self by (simp add: coherent_on_def)
  next
    case False
    have "lowered_right lo lc d" using assms(1) d by (simp add: coherent_on_def)
    then show ?thesis using fast_lowered_other [OF False] by (simp add: lowered_right_def coherent_for_def)
  qed
  moreover have "unlowered ?lc cid" if "cid \<notin> cve_CVEID ` set cs" for cid
  proof -
    have "cid \<noteq> cve_CVEID c" using assms(2) that by auto
    then show ?thesis using assms(1) that fast_lowered_other by (simp add: coherent_on_def unlowered_def)
  qed
  ultimately show ?thesis by (simp add: coherent_on_def)
qed

lemma calc_step_lowered: "ca_lowered (calc_step lo pen names cpes st c) = snd (matchCPEFast lo c names cpes (ca_lowered st))"
  by (simp add: calc_step_def count_penalty_def Let_def case_prod_beta split: option.split)

lemma calc_coherent:
  assumes "distinct (map cve_CVEID cs)" "set ds \<subseteq> set cs"
  shows "coherent_on lo cs (ca_lowered st) \<Longrightarrow> coherent_on lo cs (ca_lowered (foldl (calc_step lo pen names cpes) st ds))"
  using assms(2)
proof (induction ds arbitrary: st)
  case (Cons d ds)
  have "coherent_on lo cs (ca_lowered (calc_step lo pen names cpes st d))"
    unfolding calc_step_lowered using fast_coherent [OF Cons.prems(1) _ assms(1)] Cons.prems(2) by simp
  then show ?case using Cons by simp
qed simp

lemma lowered_calculate: "ce_lo ce = lo \<Longrightarrow> keeps_lowered lo m (snd (Calculate ce m host packages))"
proof (rule loweredI)
  show "keeps_cache m (snd (Calculate ce m host packages))"
    using keeps_run [of "Op_Calculate ce host packages" m] by simp
  assume a: "ce_lo ce = lo" "cache_ok m" "coherent lo m"
  have "distinct (map cve_CVEID (sm_cveCache m))" using a(2) index_exact_distinct by (auto simp: cache_ok_def)
  note step = calc_coherent [OF this order_refl]
  show "coherent lo (snd (Calculate ce m host packages))"
  proof (cases "sm_cveCache m = []")
    case True
    then show ?thesis using a(3) by (simp add: Calculate_def)
  next
    case False
    then show ?thesis using a step by (simp add: Calculate_def coherent_on_cache calc_start_def Let_def)
  qed
qed

section \<open>Sequences of operations\<close>

text \<open>Everything but the cleanup; the calculations of one process share the lower case function.\<close>

fun no_cleanup :: "(string \<Rightarrow> string) \<Rightarrow> spc_op \<Rightarrow> bool" where
  "no_cleanup lo (Op_Cleanup _) = False"
| "no_cleanup lo (Op_Calculate ce _ _) = (ce_lo ce = lo)"
| "no_cleanup lo _ = True"

lemma lowered_AddCVE: "keeps_lowered lo m (AddCVE c m)"
  by (simp add: AddCVE_def lowered_put)

lemma lowered_AddCVEs: "keeps_lowered lo m (AddCVEs cs m)"
  unfolding AddCVEs_def by (rule lowered_foldl) (rule lowered_AddCVE)

lemma lowered_MergeCVEs: "keeps_lowered lo m (snd (MergeCVEs cs m))"
proof (induction cs arbitrary: m)
  case (Cons c cs)
  have "snd (MergeCVEs (c # cs) m) = snd (MergeCVEs cs (snd (put_cve c m)))" by (simp add: case_prod_beta Let_def)
  then show ?case using lowered_trans [OF lowered_put Cons.IH] by simp
qed simp

lemma lowered_feed: "keeps_lowered lo m (merge_feed cs m)"
proof (induction cs arbitrary: m)
  case (Cons c cs)
  then show ?case
    using lowered_trans [OF lowered_merge Cons.IH] lowered_trans [OF lowered_append Cons.IH] by (simp split: option.split)
qed simp

lemma lowered_oscal: "keeps_lowered lo m (merge_oscal cs m)"
proof (induction cs arbitrary: m)
  case (Cons c cs)
  then show ?case
    using lowered_trans [OF lowered_merge Cons.IH] lowered_trans [OF lowered_append Cons.IH] by (simp split: option.split)
qed simp

lemma lowered_cn: "keeps_lowered lo m (merge_cn cs m)"
proof (induction cs arbitrary: m)
  case (Cons c cs)
  have "sm_cveIndex m cid = Some idx \<Longrightarrow> keeps_lowered lo m (upd_entry idx (fill_gaps c) m)" for idx cid
    by (rule lowered_upd) (auto simp: fill_gaps_def)
  then show ?case
    using lowered_trans [OF _ Cons.IH] lowered_trans [OF lowered_append Cons.IH] by (simp split: option.split)
qed simp

lemma lowered_epss: "keeps_lowered lo m (merge_epss order upds m)"
proof -
  have "keeps_lowered lo m (epss_put m u)" for m u
  proof -
    obtain cid e p where u: "u = (cid, e, p)" by (cases u)
    let ?c = "(empty_cve cid)\<lparr>cve_EPSS := e, cve_EPSSPercent := p\<rparr>"
    have up: "sm_cveIndex m cid = Some idx \<Longrightarrow> keeps_lowered lo m (upd_entry idx (\<lambda>c. c\<lparr>cve_EPSS := e, cve_EPSSPercent := p\<rparr>) m)" for idx
      by (rule lowered_upd) simp_all
    have ap: "sm_cveIndex m cid = None \<Longrightarrow> \<not> cache_full m \<Longrightarrow> keeps_lowered lo m (spc_append ?c m)"
      by (rule lowered_append) (simp_all add: empty_cve_def)
    show ?thesis
    proof (cases "cache_ok m")
      case True
      then show ?thesis using up ap index_in_range [OF True] by (simp add: u epss_put_def split: option.split)
    qed (simp add: keeps_lowered_def)
  qed
  then show ?thesis unfolding merge_epss_def by (rule lowered_foldl)
qed

lemma lowered_kev: "keeps_lowered lo m (merge_kev vs m)"
proof -
  have "keeps_lowered lo m (kev_put m e)" for m e
  proof (cases "cache_ok m")
    case True
    have "sm_cveIndex m cid = Some idx \<Longrightarrow> keeps_lowered lo m (upd_entry idx (kev_mark e) m)" for idx cid
      by (rule lowered_upd) (simp_all add: kev_mark_def)
    moreover have "sm_cveIndex m (kv_CVEID e) = None \<Longrightarrow> \<not> cache_full m \<Longrightarrow> keeps_lowered lo m (spc_append (kev_new e) m)"
      by (rule lowered_append) (simp_all add: kev_new_def empty_cve_def)
    ultimately show ?thesis using index_in_range [OF True] by (simp add: kev_put_def split: option.split)
  qed (simp add: keeps_lowered_def)
  then have "keeps_lowered lo m (foldl kev_put m (kev_entries vs))" by (rule lowered_foldl)
  then show ?thesis by (simp add: merge_kev_def keeps_lowered_def cache_ok_def within_size_def coherent_def)
qed

lemma lowered_clear: "keeps_lowered lo m (ClearCache m)"
  by (simp add: keeps_lowered_def ClearCache_def cache_ok_def within_size_def coherent_def index_exact_def unlowered_def no_lowered_def)

lemma lowered_asset: "keeps_lowered lo m (UpsertAsset a m)"
  by (simp add: keeps_lowered_def UpsertAsset_def cache_ok_def within_size_def coherent_def)

lemma lowered_run: "no_cleanup lo p \<Longrightarrow> keeps_lowered lo m (spc_run m p)"
  by (cases p) (simp_all add: lowered_AddCVE lowered_AddCVEs lowered_MergeCVEs lowered_feed lowered_cn lowered_oscal lowered_epss lowered_kev
      lowered_clear lowered_calculate lowered_asset)

lemma run_coherent: "list_all (no_cleanup lo) ops \<Longrightarrow> coherent lo (foldl spc_run New ops)"
proof -
  assume h: "list_all (no_cleanup lo) ops"
  have "keeps_lowered lo New (foldl spc_run New ops)"
    using h
  proof (induction ops rule: rev_induct)
    case (snoc p ops)
    then show ?case using lowered_trans [OF _ lowered_run] by simp
  qed simp
  moreover have "coherent lo New" by (simp add: coherent_def New_def unlowered_def no_lowered_def)
  ultimately show ?thesis using cache_new by (simp add: keeps_lowered_def)
qed


definition demo_cve :: SPCCVEScore where
  "demo_cve = (empty_cve ''CVE-2024-0001'')\<lparr>cve_AffectedCPEs := [''cpe:2.3:a:acme:tool:1.0'']\<rparr>"

lemma demo_id: "isCVEID ''CVE-2024-0001''"
  by (simp add: isCVEID_def)

lemma demo_added: "sm_cveCache (AddCVE demo_cve New) = [demo_cve]"
  by (simp add: AddCVE_def put_cve_def spc_append_def cache_full_def demo_cve_def empty_cve_def demo_id New_def)


section \<open>The cleanup\<close>

text \<open>The cleanup writes back what it read: a vulnerability added in between is lost, also one known to be exploited.\<close>

theorem cleanup_loses_additions:
  assumes "cache_ok m" "sm_cveIndex m (cve_CVEID c) = None" "isCVEID (cve_CVEID c)" "\<not> cache_full m" "cve_InKEV c"
  shows "cve_CVEID c \<in> kev_ids (AddCVE c m) \<and>
    cve_CVEID c \<notin> kev_ids (cleanup_commit (cleanup_kept cutoff (sm_cveCache m)) (AddCVE c m))"
proof -
  have "cve_CVEID c \<notin> cve_CVEID ` set (sm_cveCache m)" using index_exact_fresh assms(1,2) by (auto simp: cache_ok_def)
  then show ?thesis using assms(2-5)
    by (auto simp: AddCVE_def put_cve_def spc_append_def kev_ids_def cleanup_commit_def cleanup_kept_def)
qed

text \<open>It keeps the lowered names of what it removes: an entry that comes back with other names is matched by the old ones.\<close>

theorem cleanup_leaves_stale_texts:
  assumes "cache_ok m" "c \<in> set (sm_cveCache m)" "cve_DateModified c \<le> cutoff" "\<not> cve_InKEV c"
    "lc_cpes (sm_lowered m) (cve_CVEID c) = Some old" "isCVEID (cve_CVEID c)" "cve_CVEID d = cve_CVEID c" "within_size m"
  shows "fst (loweredAffectedCPEs lo d (sm_lowered (AddCVE d (cleanupOldCVEs cutoff m)))) = old \<and>
    d \<in> set (sm_cveCache (AddCVE d (cleanupOldCVEs cutoff m)))"
proof -
  let ?kept = "cleanup_kept cutoff (sm_cveCache m)"
  have d: "distinct (map cve_CVEID (sm_cveCache m))" using assms(1) index_exact_distinct by (auto simp: cache_ok_def)
  have out: "c \<notin> set ?kept" using assms(3,4) by (simp add: cleanup_kept_def)
  have len: "length ?kept < length (sm_cveCache m)"
    unfolding cleanup_kept_def by (rule length_filter_less [OF assms(2)]) (use assms(3,4) in simp)
  have m1: "cleanupOldCVEs cutoff m = cleanup_commit ?kept m" using len by (simp add: cleanupOldCVEs_def Let_def)
  have exact: "index_exact ?kept (index_of_entries ?kept)"
    by (rule index_of_entries_exact) (use d in \<open>simp add: cleanup_kept_def distinct_map_filter\<close>)
  have ix: "index_of_entries ?kept (cve_CVEID c) = None"
  proof (rule ccontr)
    assume "index_of_entries ?kept (cve_CVEID c) \<noteq> None"
    then obtain i where "index_of_entries ?kept (cve_CVEID c) = Some i" by blast
    from index_exactD [OF exact this] have e: "?kept ! i \<in> set ?kept" "cve_CVEID (?kept ! i) = cve_CVEID c" by simp_all
    then have "?kept ! i \<in> set (sm_cveCache m)" by (simp add: cleanup_kept_def)
    then have "?kept ! i = c" using d assms(2) e(2) by (simp add: distinct_map inj_on_def)
    then show False using out e(1) by simp
  qed
  have "int (length ?kept) < sm_maxCacheSize m"
    using assms(2,4,8) len by (auto simp: within_size_def list_all_iff)
  then show ?thesis using ix assms(5-7)
    by (simp add: m1 AddCVE_def put_cve_def cleanup_commit_def cache_full_def spc_append_def loweredAffectedCPEs_def)
qed

section \<open>What is never set\<close>

text \<open>No source sets whether an entry matched, its exposure or its source.\<close>

definition raw_cve :: "SPCCVEScore \<Rightarrow> bool" where
  "raw_cve c \<longleftrightarrow> \<not> cve_Matched c \<and> cve_Exposure c = 0 \<and> cve_Source c = []"

lemma parsed_raw: "raw_cve (parseNVDCVE stmp rfc n)"
  by (simp add: parseNVDCVE_def raw_cve_def empty_cve_def)

definition raw_module :: "spc_module \<Rightarrow> bool" where
  "raw_module m \<longleftrightarrow> list_all raw_cve (sm_cveCache m)"

fun incoming :: "spc_op \<Rightarrow> SPCCVEScore list" where
  "incoming (Op_Add c) = [c]"
| "incoming (Op_AddAll cs) = cs"
| "incoming (Op_Merge cs) = cs"
| "incoming (Op_Feed cs) = cs"
| "incoming (Op_Cn cs) = cs"
| "incoming (Op_Oscal cs) = cs"
| "incoming _ = []"

lemma raw_in_place: "list_all raw_cve cs \<Longrightarrow> raw_cve d \<Longrightarrow> list_all raw_cve (cs[idx := d])"
  by (auto simp: list_all_iff dest: set_update_subset_insert [THEN subsetD])

lemma raw_upd:
  assumes "raw_module m" "\<And>c. raw_cve c \<Longrightarrow> raw_cve (f c)"
  shows "raw_module (upd_entry idx f m)"
proof (cases "idx < length (sm_cveCache m)")
  case True
  then have "raw_cve (f (sm_cveCache m ! idx))" using assms by (simp add: raw_module_def list_all_length)
  then show ?thesis using assms(1) raw_in_place by (simp add: raw_module_def upd_entry_def)
next
  case False
  then show ?thesis using assms(1) by (simp add: raw_module_def upd_entry_def list_update_beyond)
qed

lemma raw_merge:
  assumes "raw_module m" "raw_cve c"
  shows "raw_module (mergeCVEInPlace idx c m)"
proof -
  have "sm_cveCache (mergeCVEInPlace idx c m) = sm_cveCache (upd_entry idx (mergeCVE c) m)"
    by (simp add: mergeCVEInPlace_def upd_entry_def Let_def)
  moreover have "raw_module (upd_entry idx (mergeCVE c) m)"
    by (rule raw_upd [OF assms(1)]) (use assms(2) in \<open>simp add: raw_cve_def mergeCVE_def Let_def\<close>)
  ultimately show ?thesis by (simp add: raw_module_def)
qed

lemma raw_append: "raw_module m \<Longrightarrow> raw_cve c \<Longrightarrow> raw_module (spc_append c m)"
  by (simp add: raw_module_def spc_append_def)

lemma raw_evict: "raw_module m \<Longrightarrow> raw_module (evictLowestPriorityCVE m)"
  by (auto simp: raw_module_def evictLowestPriorityCVE_def list_all_iff Let_def dest: in_set_takeD in_set_dropD split: option.split)

lemma raw_put: "raw_module m \<Longrightarrow> raw_cve c \<Longrightarrow> raw_module (snd (put_cve c m))"
  by (simp add: put_cve_def raw_merge raw_append raw_evict split: option.split)

lemma raw_foldl: "(\<And>m x. x \<in> set xs \<Longrightarrow> raw_module m \<Longrightarrow> raw_module (f m x)) \<Longrightarrow> raw_module m \<Longrightarrow> raw_module (foldl f m xs)"
  by (induction xs arbitrary: m) simp_all

lemma raw_run: "raw_module m \<Longrightarrow> list_all raw_cve (incoming p) \<Longrightarrow> raw_module (spc_run m p)"
proof (cases p)
  case (Op_Add c)
  then show "raw_module m \<Longrightarrow> list_all raw_cve (incoming p) \<Longrightarrow> ?thesis" by (simp add: AddCVE_def raw_put)
next
  case (Op_AddAll cs)
  then show "raw_module m \<Longrightarrow> list_all raw_cve (incoming p) \<Longrightarrow> ?thesis"
    by (auto simp: AddCVEs_def AddCVE_def list_all_iff intro!: raw_foldl raw_put)
next
  case (Op_Merge cs)
  have "raw_module m \<Longrightarrow> list_all raw_cve cs \<Longrightarrow> raw_module (snd (MergeCVEs cs m))" for m
    by (induction cs arbitrary: m) (simp_all add: case_prod_beta Let_def raw_put)
  then show "raw_module m \<Longrightarrow> list_all raw_cve (incoming p) \<Longrightarrow> ?thesis" using Op_Merge by simp
next
  case (Op_Feed cs)
  have "raw_module m \<Longrightarrow> list_all raw_cve cs \<Longrightarrow> raw_module (merge_feed cs m)" for m
    by (induction cs arbitrary: m) (simp_all add: raw_merge raw_append split: option.split)
  then show "raw_module m \<Longrightarrow> list_all raw_cve (incoming p) \<Longrightarrow> ?thesis" using Op_Feed by simp
next
  case (Op_Oscal cs)
  have "raw_module m \<Longrightarrow> list_all raw_cve cs \<Longrightarrow> raw_module (merge_oscal cs m)" for m
    by (induction cs arbitrary: m) (simp_all add: raw_merge raw_append split: option.split)
  then show "raw_module m \<Longrightarrow> list_all raw_cve (incoming p) \<Longrightarrow> ?thesis" using Op_Oscal by simp
next
  case (Op_Cn cs)
  have "raw_module m \<Longrightarrow> raw_module (upd_entry idx (fill_gaps c) m)" for m idx c
    by (rule raw_upd) (simp_all add: raw_cve_def fill_gaps_def)
  then have "raw_module m \<Longrightarrow> list_all raw_cve cs \<Longrightarrow> raw_module (merge_cn cs m)" for m
    by (induction cs arbitrary: m) (simp_all add: raw_append split: option.split)
  then show "raw_module m \<Longrightarrow> list_all raw_cve (incoming p) \<Longrightarrow> ?thesis" using Op_Cn by simp
next
  case (Op_Epss order lines uni)
  have "raw_module m \<Longrightarrow> raw_module (upd_entry idx (\<lambda>c. c\<lparr>cve_EPSS := e, cve_EPSSPercent := q\<rparr>) m)" for m idx e q
    by (rule raw_upd) (simp_all add: raw_cve_def)
  then have "raw_module m \<Longrightarrow> raw_module (epss_put m u)" for m u
    by (auto simp: epss_put_def case_prod_beta raw_append raw_cve_def empty_cve_def split: option.split)
  then show "raw_module m \<Longrightarrow> list_all raw_cve (incoming p) \<Longrightarrow> ?thesis" by (simp add: Op_Epss merge_epss_def raw_foldl)
next
  case (Op_Kev vs)
  have "raw_module m \<Longrightarrow> raw_module (upd_entry idx (kev_mark e) m)" for m idx e
    by (rule raw_upd) (simp_all add: raw_cve_def kev_mark_def)
  then have "raw_module m \<Longrightarrow> raw_module (kev_put m e)" for m e
    by (simp add: kev_put_def raw_append raw_cve_def kev_new_def empty_cve_def split: option.split)
  then have "raw_module m \<Longrightarrow> raw_module (foldl kev_put m (kev_entries vs))" by (simp add: raw_foldl)
  then show "raw_module m \<Longrightarrow> list_all raw_cve (incoming p) \<Longrightarrow> ?thesis" by (simp add: Op_Kev merge_kev_def raw_module_def)
qed (auto simp: raw_module_def cleanupOldCVEs_def cleanup_commit_def cleanup_kept_def ClearCache_def UpsertAsset_def
    calculate_frame list_all_iff Let_def)

end
