(* ===== verification/Spc_Posture.thy ===== *)
theory Spc_Posture
  imports Spc_Lowered
begin

text \<open>
  What the calculation promises: the score stays between its floor and 1 and a further vulnerability never raises it, through
  every rounding; the ranges of the NVD are read back as they were written. And where it fails: a probability above 1 isolates
  the host, the kill chain and the weights are never touched, the priority of the sources has no effect.
\<close>

section \<open>The square root keeps the order\<close>

lemma isqrt_mono: "m \<le> n \<Longrightarrow> isqrt m \<le> isqrt n"
proof (rule ccontr)
  assume h: "m \<le> n" "\<not> isqrt m \<le> isqrt n"
  then have le: "isqrt n + 1 \<le> isqrt m" by simp
  have "(isqrt n + 1) * (isqrt n + 1) \<le> isqrt m * isqrt m" by (rule mult_le_mono [OF le le])
  then show False using isqrt_bounds [of m] isqrt_bounds [of n] h(1) by linarith
qed

definition sqrt_exp :: "rat \<Rightarrow> int" where
  "sqrt_exp x = flog2 x div 2 - 52"

definition sqrt_scaled :: "rat \<Rightarrow> rat" where
  "sqrt_scaled x = x / (2 powi sqrt_exp x * 2 powi sqrt_exp x)"

definition sqrt_int :: "rat \<Rightarrow> nat" where
  "sqrt_int y = (let n = isqrt (nat \<lfloor>y\<rfloor>); h = of_nat n + 1 / 2 in if h * h < y \<or> y = h * h \<and> odd n then n + 1 else n)"

lemma rsqrt_scaled: "0 < x \<Longrightarrow> rsqrt x = of_nat (sqrt_int (sqrt_scaled x)) * 2 powi sqrt_exp x"
  by (simp add: rsqrt_def sqrt_int_def sqrt_scaled_def sqrt_exp_def Let_def)

lemma sqrt_int_mono:
  assumes "0 \<le> y" "y \<le> z"
  shows "sqrt_int y \<le> sqrt_int z"
proof -
  have n: "isqrt (nat \<lfloor>y\<rfloor>) \<le> isqrt (nat \<lfloor>z\<rfloor>)" by (intro isqrt_mono nat_mono floor_mono assms(2))
  show ?thesis
  proof (cases "isqrt (nat \<lfloor>y\<rfloor>) = isqrt (nat \<lfloor>z\<rfloor>)")
    case True
    then show ?thesis using assms(2) by (auto simp: sqrt_int_def Let_def)
  next
    case False
    have "sqrt_int y \<le> isqrt (nat \<lfloor>y\<rfloor>) + 1" "isqrt (nat \<lfloor>z\<rfloor>) \<le> sqrt_int z" by (auto simp: sqrt_int_def Let_def)
    then show ?thesis using n False by linarith
  qed
qed

lemma scaled_range:
  assumes "0 < x"
  shows "(2::rat) ^ 104 \<le> sqrt_scaled x" "sqrt_scaled x < 2 ^ 106"
proof -
  define k where "k = flog2 x div 2"
  have f: "2 * k \<le> flog2 x" "flog2 x \<le> 2 * k + 1" unfolding k_def by linarith+
  have x: "(2::rat) powi (2 * k) \<le> x" "x < 2 powi (2 * k + 2)"
  proof -
    have "(2::rat) powi (2 * k) \<le> 2 powi flog2 x" by (rule powi_mono2 [OF f(1)])
    then show "(2::rat) powi (2 * k) \<le> x" using flog2_bounds [OF assms] by linarith
    have "(2::rat) powi (flog2 x + 1) \<le> 2 powi (2 * k + 2)" by (rule powi_mono2) (use f(2) in simp)
    then show "x < 2 powi (2 * k + 2)" using flog2_bounds [OF assms] by linarith
  qed
  have d: "(2::rat) powi sqrt_exp x * 2 powi sqrt_exp x = 2 powi (2 * k - 104)"
    by (simp add: sqrt_exp_def k_def flip: power_int_add)
  have p: "(0::rat) < 2 powi (2 * k - 104)" by simp
  have "(2::rat) ^ 104 * 2 powi (2 * k - 104) = 2 powi (2 * k)" "(2::rat) ^ 106 * 2 powi (2 * k - 104) = 2 powi (2 * k + 2)"
    using power_int_add [of "2::rat" 104 "2 * k - 104"] power_int_add [of "2::rat" 106 "2 * k - 104"] by (simp_all add: algebra_simps)
  then show "(2::rat) ^ 104 \<le> sqrt_scaled x" "sqrt_scaled x < 2 ^ 106"
    unfolding sqrt_scaled_def d using x p by (simp_all add: pos_le_divide_eq pos_divide_less_eq)
qed

lemma sqrt_int_range:
  assumes "(2::rat) ^ 104 \<le> y" "y < 2 ^ 106"
  shows "2 ^ 52 \<le> sqrt_int y" "sqrt_int y \<le> 2 ^ 53"
proof -
  define n where "n = isqrt (nat \<lfloor>y\<rfloor>)"
  have y: "(2::int) ^ 104 \<le> \<lfloor>y\<rfloor>" "\<lfloor>y\<rfloor> < 2 ^ 106"
    using assms by (simp_all add: le_floor_iff floor_less_iff)
  then have fl: "(2::nat) ^ 104 \<le> nat \<lfloor>y\<rfloor>" "nat \<lfloor>y\<rfloor> < 2 ^ 106" by (simp_all add: le_nat_iff nat_less_iff)
  have b: "n * n \<le> nat \<lfloor>y\<rfloor>" "nat \<lfloor>y\<rfloor> < (n + 1) * (n + 1)" using isqrt_bounds [of "nat \<lfloor>y\<rfloor>"] by (simp_all add: n_def)
  have "2 ^ 52 \<le> n"
  proof (rule ccontr)
    assume "\<not> 2 ^ 52 \<le> n"
    then have "n + 1 \<le> 2 ^ 52" by simp
    then have "(n + 1) * (n + 1) \<le> 2 ^ 52 * 2 ^ 52" by (rule mult_le_mono) (use \<open>n + 1 \<le> 2 ^ 52\<close> in simp)
    then show False using b(2) fl(1) by simp
  qed
  moreover have "n < 2 ^ 53"
  proof (rule ccontr)
    assume "\<not> n < 2 ^ 53"
    then have "(2::nat) ^ 53 * 2 ^ 53 \<le> n * n" by (intro mult_le_mono) simp_all
    then show False using b(1) fl(2) by simp
  qed
  ultimately show "2 ^ 52 \<le> sqrt_int y" "sqrt_int y \<le> 2 ^ 53" by (auto simp: sqrt_int_def n_def Let_def)
qed

lemma rsqrt_mono:
  assumes "0 \<le> x" "x \<le> y"
  shows "rsqrt x \<le> rsqrt y"
proof (cases "x = 0")
  case True
  then show ?thesis using rsqrt_bounds(1) assms by simp
next
  case False
  then have x: "0 < x" and y: "0 < y" using assms by simp_all
  have e: "sqrt_exp x \<le> sqrt_exp y" using flog2_mono [OF x assms(2)] by (simp add: sqrt_exp_def zdiv_mono1)
  show ?thesis
  proof (cases "sqrt_exp x = sqrt_exp y")
    case True
    have "sqrt_scaled x \<le> sqrt_scaled y" using assms(2) by (simp add: sqrt_scaled_def True divide_right_mono)
    moreover have "0 \<le> sqrt_scaled x" using x by (simp add: sqrt_scaled_def)
    ultimately have "(of_nat (sqrt_int (sqrt_scaled x)) :: rat) \<le> of_nat (sqrt_int (sqrt_scaled y))" using sqrt_int_mono by simp
    then show ?thesis unfolding rsqrt_scaled [OF x] rsqrt_scaled [OF y] True by (rule mult_right_mono) simp
  next
    case False
    note rx = sqrt_int_range [OF scaled_range [OF x]] and ry = sqrt_int_range [OF scaled_range [OF y]]
    have "(of_nat (sqrt_int (sqrt_scaled x)) :: rat) \<le> of_nat (2 ^ 53)" using rx(2) by (simp only: of_nat_le_iff)
    then have "rsqrt x \<le> 2 ^ 53 * 2 powi sqrt_exp x" unfolding rsqrt_scaled [OF x] by (simp add: mult_right_mono)
    also have "\<dots> = 2 ^ 52 * 2 powi (sqrt_exp x + 1)" by (simp add: power_int_add)
    also have "\<dots> \<le> 2 ^ 52 * 2 powi sqrt_exp y" by (intro mult_left_mono powi_mono2) (use e False in simp_all)
    also have "\<dots> \<le> rsqrt y"
    proof -
      have "(of_nat (2 ^ 52) :: rat) \<le> of_nat (sqrt_int (sqrt_scaled y))" using ry(1) by (simp only: of_nat_le_iff)
      then show ?thesis unfolding rsqrt_scaled [OF y] by (simp add: mult_right_mono)
    qed
    finally show ?thesis .
  qed
qed

lemma f64_sqrt_mono_btw:
  assumes "btw 0 b x" "btw 0 b' x'" "f64_le x x'"
  shows "f64_le (f64_sqrt x) (f64_sqrt x')"
  using btwD [OF assms(1)] btwD [OF assms(2)] assms(3) by (auto intro!: f64_of_rat_mono rsqrt_mono)

section \<open>The size of a penalty\<close>

text \<open>The logarithm of a probability is no positive number: \<open>math.Log\<close> on the unit interval.\<close>

definition log_ok :: "(f64 \<Rightarrow> f64) \<Rightarrow> bool" where
  "log_ok lnf \<longleftrightarrow> (\<forall>x. btw 0 1 x \<longrightarrow> wf64 (lnf x) \<and> f64_le (lnf x) f64_0)"

definition sane_cve :: "SPCCVEScore \<Rightarrow> bool" where
  "sane_cve c \<longleftrightarrow>
     btw 0 10 (cve_CVSS c) \<and> btw 0 1 (cve_EPSS c) \<and> length (cve_AttckTechniques c) \<le> 1000 \<and> length (cve_APTGroupAssoc c) \<le> 1000"

lemma lit_btw: "0 \<le> q \<Longrightarrow> q \<le> 1 \<Longrightarrow> btw 0 1 (lit q)"
  by (rule btw_of_rat) simp_all

lemma min_unit: "f64_le f64_0 y \<Longrightarrow> wf64 y \<Longrightarrow> btw 0 1 (f64_min f64_1 y)"
  by (cases y) auto

lemma div_nonneg: "f64_le f64_0 y \<Longrightarrow> 0 < v \<Longrightarrow> f64_le f64_0 (f64_div y (Fin v))"
  by (cases y) (auto simp: f64_of_rat_nonneg)

lemma cvss_unit: "btw 0 10 (cve_CVSS c) \<Longrightarrow> btw 0 1 (cvss_factor c)"
  using btw_div [of 0 10 1 "cve_CVSS c"] min_unit [of "f64_div (cve_CVSS c) (Fin 10)"]
  by (auto simp: cvss_factor_def btw_def split: f64.splits)

lemma epss_unit:
  assumes "log_ok lnf" "btw 0 1 (cve_EPSS c)"
  shows "btw 0 1 (epss_factor lnf c)"
proof -
  have "btw 0 1 (f64_sub f64_1 (cve_EPSS c))" using btw_sub_from [OF assms(2), of 1] by simp
  then have l: "wf64 (lnf (f64_sub f64_1 (cve_EPSS c)))" "f64_le (lnf (f64_sub f64_1 (cve_EPSS c))) f64_0"
    using assms(1) by (auto simp: log_ok_def)
  then have "f64_le f64_0 (f64_neg (lnf (f64_sub f64_1 (cve_EPSS c))))" by (cases "lnf (f64_sub f64_1 (cve_EPSS c))") auto
  then have "f64_le f64_0 (f64_div (f64_neg (lnf (f64_sub f64_1 (cve_EPSS c)))) (Fin 5))" by (rule div_nonneg) simp
  then show ?thesis using min_unit by (simp add: epss_factor_def)
qed

lemma kev_unit: "btw 0 1 (kev_factor kev c)"
  by (auto simp: kev_factor_def Let_def intro: lit_btw)

lemma unit_mul: "btw 0 1 x \<Longrightarrow> btw 0 1 y \<Longrightarrow> btw 0 1 (f64_mul x y)"
  using btw_mul [of 1 x 1 y] by simp

lemma base_impact_btw:
  assumes "btw 0 1 cv" "btw 0 1 ep" "btw 0 1 kv"
  shows "btw 0 (2 ^ 2) (base_impact cv ep kv)"
proof -
  have m: "btw 0 1 (f64_mul (lit (20 / 100)) cv)" "btw 0 1 (f64_mul (lit (50 / 100)) ep)" "btw 0 1 (f64_mul (lit (30 / 100)) kv)"
    by (intro unit_mul lit_btw assms; simp)+
  have "btw 0 2 (f64_add (f64_mul (lit (20 / 100)) cv) (f64_mul (lit (50 / 100)) ep))" using btw_add [OF m(1,2)] by simp
  from btw_add [OF this m(3)] have "btw 0 3 (base_impact cv ep kv)" by (simp add: base_impact_def)
  then show ?thesis by (rule btw_mono) simp_all
qed

lemma boosted_btw:
  assumes "btw 0 (2 ^ k) x" "k \<le> 30" "n \<le> 1000" "0 \<le> s" "s \<le> 1"
  shows "btw 0 (2 ^ (k + 11)) (boosted s n x)"
proof (cases "n = 0")
  case True
  have "(2::rat) ^ k \<le> 2 ^ (k + 11)" by (rule power_increasing) simp_all
  then show ?thesis using btw_mono [OF assms(1) order_refl] True by (simp add: boosted_def)
next
  case False
  have i: "f64_of_int (int n) = Fin (of_nat n)" using rep_of_int [of "int n"] assms(3) by (simp add: f64_of_int_def)
  have n: "btw 0 (2 ^ 10) (Fin (of_nat n))"
  proof -
    have "(of_nat n :: rat) \<le> of_nat 1000" using assms(3) by (simp only: of_nat_le_iff)
    then show ?thesis using rep_of_int [of "int n"] assms(3) by simp
  qed
  have "btw 0 (2 ^ 10) (f64_mul (lit s) (Fin (of_nat n)))"
    using btw_mul [OF lit_btw [OF assms(4,5)] n] by simp
  then have "btw 0 1025 (f64_add f64_1 (f64_mul (lit s) (Fin (of_nat n))))"
    using btw_add [of 1 1 f64_1 0 "2 ^ 10"] btw_mono [of 1 1025 _ 0 1025] by fastforce
  then have f: "btw 0 (2 ^ 11) (f64_add f64_1 (f64_mul (lit s) (Fin (of_nat n))))"
    by (rule btw_mono) simp_all
  have "rep (2 ^ k * 2 ^ 11)" using rep_pow2 [of "k + 11"] assms(2) by (simp add: power_add)
  from btw_mul [OF assms(1) f this] False show ?thesis by (simp add: boosted_def i power_add)
qed

lemma impact_btw:
  assumes "log_ok lnf" "sane_cve c"
  shows "btw 0 (2 ^ 24) (cve_impact lnf kev c)"
proof -
  have "btw 0 (2 ^ 2) (base_impact (cvss_factor c) (epss_factor lnf c) (kev_factor kev c))"
    using assms cvss_unit epss_unit kev_unit by (intro base_impact_btw) (auto simp: sane_cve_def)
  then have "btw 0 (2 ^ (2 + 11)) (boosted (1 / 10) (length (cve_AttckTechniques c)) (base_impact (cvss_factor c) (epss_factor lnf c) (kev_factor kev c)))"
    by (rule boosted_btw) (use assms(2) in \<open>auto simp: sane_cve_def\<close>)
  then have "btw 0 (2 ^ (2 + 11 + 11)) (cve_impact lnf kev c)"
    unfolding cve_impact_def by (rule boosted_btw) (use assms(2) in \<open>auto simp: sane_cve_def\<close>)
  then show ?thesis by (rule btw_mono) simp_all
qed

lemma exposure_unit: "btw 0 1 (exposure_factor e)"
  by (cases e) (simp_all add: lit_btw)

lemma control_unit: "btw 0 1 (control_factor e)"
  by (cases e) (simp_all add: lit_btw)

lemma match_unit: "btw 0 1 (match_factor t)"
  by (simp add: match_factor_def lit_btw)

lemma local_unit: "btw 0 1 (local_factor lo t asset)"
  unfolding local_factor_def by (intro unit_mul match_unit exposure_unit control_unit)

lemma hours_fin:
  assumes "in_int64 d"
  shows "is_fin (duration_hours d) \<and> wf64 (duration_hours d)"
proof -
  define h where "h = 60 * minute"
  define q where "q = (if d \<ge> 0 then d div h else - ((- d) div h))"
  define r where "r = (if d \<ge> 0 then d mod h else - ((- d) mod h))"
  have h: "h = 3600000000000" by (simp add: h_def minute_def second_def)
  have d: "\<bar>d\<bar> \<le> 2 ^ 63" using assms by (auto simp: in_int64_def min_int64_def max_int64_def abs_le_iff)
  have q: "\<bar>q\<bar> \<le> 2 ^ 53"
  proof -
    have "\<bar>d\<bar> div h \<le> 2 ^ 63 div h" by (rule zdiv_mono1 [OF d]) (simp add: h)
    then show ?thesis by (auto simp: q_def h)
  qed
  have r: "\<bar>r\<bar> \<le> h"
    using pos_mod_bound [of h d] pos_mod_sign [of h d] pos_mod_bound [of h "- d"] pos_mod_sign [of h "- d"] by (auto simp: r_def h)
  have rb: "\<bar>r\<bar> \<le> 2 ^ 53" "\<bar>h\<bar> \<le> 2 ^ 53" using r by (simp_all add: h)
  have i: "f64_of_int q = Fin (of_int q)" "f64_of_int r = Fin (of_int r)" "f64_of_int h = Fin (of_int h)"
    using q rb by (simp_all add: f64_of_int_def)
  have qb: "btw (- (2 ^ 53)) (2 ^ 53) (Fin (of_int q))"
  proof -
    have "(of_int (- (2 ^ 53)) :: rat) \<le> of_int q" "(of_int q :: rat) \<le> of_int (2 ^ 53)"
      unfolding of_int_le_iff using q by linarith+
    then show ?thesis using q by simp
  qed
  have ph: "(0::rat) < of_int h" by (simp add: h)
  have "btw (- 1) 1 (f64_div (Fin (of_int r)) (Fin (of_int h)))"
  proof (rule btw_div [OF _ ph])
    have "(of_int (- h) :: rat) \<le> of_int r" "(of_int r :: rat) \<le> of_int h"
      unfolding of_int_le_iff using r by linarith+
    then show "btw (- 1 * of_int h) (1 * of_int h) (Fin (of_int r))" using rb(1) by simp
  qed (use rep_minus [of 1] in simp_all)
  then have f: "btw (- (2 ^ 53)) (2 ^ 53) (f64_div (Fin (of_int r)) (Fin (of_int h)))" by (rule btw_mono) simp_all
  have "rep (2 ^ 54)" "rep (- (2 ^ 54))" using rep_pow2 [of 54] by simp_all
  with btw_add [OF qb f] have "btw (- (2 ^ 54)) (2 ^ 54) (duration_hours d)"
    by (simp add: duration_hours_def h_def [symmetric] q_def [symmetric] r_def [symmetric] i Let_def)
  then show ?thesis using btw_wf by blast
qed

lemma sub_le_one: "f64_le f64_0 y \<Longrightarrow> f64_le (f64_sub f64_1 y) f64_1 \<and> f64_sub f64_1 y \<noteq> NaN"
proof (cases y)
  case (Fin a)
  assume "f64_le f64_0 y"
  then have "f64_le (f64_of_rat (1 + - a)) (f64_of_rat 1)" by (intro f64_of_rat_mono) (simp add: Fin)
  moreover have "f64_of_rat (1 + - a) \<noteq> NaN" by (simp only: f64_of_rat_def Let_def split: if_split) simp
  ultimately show ?thesis by (simp add: Fin f64_sub_def)
qed (simp_all add: f64_sub_def)

lemma lits: "lit 24 = Fin 24" "lit 90 = Fin 90"
  by simp_all

lemma time_unit: "btw 0 1 (time_factor now c)"
proof -
  define d where "d = time_sub now (cve_DatePublished c)"
  have "in_int64 d" by (auto simp: d_def time_sub_def in_int64_def min_int64_def max_int64_def)
  then obtain h where h: "duration_hours d = Fin h" "rep h" using hours_fin by (cases "duration_hours d") fastforce+
  have capped: "btw 0 1 (f64_max (lit (3 / 10)) (f64_sub f64_1 (f64_div x (Fin 90))))" if "f64_le f64_0 x" for x
  proof -
    have "f64_le f64_0 (f64_div x (Fin 90))" by (rule div_nonneg [OF that]) simp
    then have "f64_le (f64_sub f64_1 (f64_div x (Fin 90))) f64_1 \<and> f64_sub f64_1 (f64_div x (Fin 90)) \<noteq> NaN" by (rule sub_le_one)
    moreover obtain t where "lit (3 / 10) = Fin t" "0 \<le> t" "t \<le> 1" "rep t" using btwD [OF lit_btw [of "3 / 10"]] by auto
    moreover have "wf64 (f64_sub f64_1 (f64_div x (Fin 90)))" by simp
    ultimately show ?thesis by (cases "f64_sub f64_1 (f64_div x (Fin 90))") auto
  qed
  define days where "days = f64_div (Fin h) (Fin 24)"
  have "f64_le f64_0 (if f64_lt days f64_0 then f64_0 else days)"
    by (cases days) (auto simp: days_def f64_of_rat_def f64_lt_def Let_def split: if_splits)
  from capped [OF this] show ?thesis by (simp only: time_factor_def d_def [symmetric] h days_def lits Let_def)
qed

lemma penalty_btw:
  assumes "log_ok lnf" "sane_cve c"
  shows "btw 0 (2 ^ 24) (cp_Penalty (cve_penalty lo lnf now kev asset c t))"
proof -
  have "btw 0 (2 ^ 24 * 1) (f64_mul (cve_impact lnf kev c) (local_factor lo t asset))"
    by (rule btw_mul [OF impact_btw [OF assms] local_unit]) (simp add: rep_pow2)
  then have "btw 0 (2 ^ 24) (f64_mul (cve_impact lnf kev c) (local_factor lo t asset))" by simp
  from btw_mul [OF this time_unit] have "btw 0 (2 ^ 24 * 1) (f64_mul (f64_mul (cve_impact lnf kev c) (local_factor lo t asset)) (time_factor now c))"
    by simp
  then show ?thesis by (simp add: cve_penalty_def Let_def)
qed

section \<open>The sum of the penalties\<close>

definition sum_ok :: "nat \<Rightarrow> calc_state \<Rightarrow> bool" where
  "sum_ok n st \<longleftrightarrow> btw 0 (of_nat n * 2 ^ 48) (ca_sum st)"

lemma square_btw: "btw 0 (2 ^ 24) p \<Longrightarrow> btw 0 (2 ^ 48) (f64_mul p p)"
  using btw_mul [of "2 ^ 24" p "2 ^ 24" p] by simp

lemma step_sum:
  assumes "sum_ok n st" "n < 2 ^ 30" "\<And>t. btw 0 (2 ^ 24) (cp_Penalty (pen c t))"
  shows "sum_ok (Suc n) (calc_step lo pen names cpes st c)" "f64_le (ca_sum st) (ca_sum (calc_step lo pen names cpes st c))"
proof -
  have keep: "btw 0 (of_nat (Suc n) * 2 ^ 48) (ca_sum st)"
    by (rule btw_mono [OF assms(1) [unfolded sum_ok_def] order_refl]) simp
  have self: "f64_le (ca_sum st) (ca_sum st)" using btwD [OF keep] by auto
  have add: "btw 0 (of_nat (Suc n) * 2 ^ 48) (f64_add (ca_sum st) (f64_mul p p)) \<and> f64_le (ca_sum st) (f64_add (ca_sum st) (f64_mul p p))"
    if "btw 0 (2 ^ 24) p" for p
  proof -
    note sq = square_btw [OF that]
    have "wf64 (ca_sum st)" using btw_wf [OF keep] by simp
    then have z: "f64_add (ca_sum st) f64_0 = ca_sum st" using btwD [OF keep] by auto
    have "f64_le f64_0 (f64_mul p p)" using btwD [OF sq] by auto
    then have "f64_le (f64_add (ca_sum st) f64_0) (f64_add (ca_sum st) (f64_mul p p))"
      using f64_add_mono_btw [OF keep keep _ sq self, of 0 0] by simp
    then show ?thesis using acc_add [OF assms(1) [unfolded sum_ok_def] sq assms(2)] z by simp
  qed
  show "sum_ok (Suc n) (calc_step lo pen names cpes st c)" "f64_le (ca_sum st) (ca_sum (calc_step lo pen names cpes st c))"
    using keep self add [OF assms(3)] by (auto simp: calc_step_def count_penalty_def sum_ok_def Let_def case_prod_beta split: option.split)
qed

lemma loop_sum:
  assumes "\<And>c t. c \<in> set cs \<Longrightarrow> btw 0 (2 ^ 24) (cp_Penalty (pen c t))" "sum_ok n st" "n + length cs \<le> 2 ^ 30"
  shows "sum_ok (n + length cs) (foldl (calc_step lo pen names cpes) st cs)"
  using assms
proof (induction cs arbitrary: n st)
  case (Cons c cs)
  have "sum_ok (Suc n) (calc_step lo pen names cpes st c)" by (rule step_sum(1)) (use Cons.prems in auto)
  then show ?case using Cons.IH [of "Suc n" "calc_step lo pen names cpes st c"] Cons.prems by simp
qed simp

lemma start_sum: "sum_ok 0 (calc_start lc)"
  by (simp add: sum_ok_def calc_start_def)

section \<open>The score\<close>

definition posture :: "f64 \<Rightarrow> f64 \<Rightarrow> f64" where
  "posture minP s = round_to 1000 (f64_max minP (f64_sub f64_1 (f64_sqrt s)))"

lemma sum_root:
  assumes "sum_ok n st" "n \<le> 2 ^ 30"
  shows "btw 0 (2 ^ 80) (f64_sqrt (ca_sum st))"
proof -
  have "(of_nat n :: rat) \<le> of_nat (2 ^ 30)" using assms(2) by (simp only: of_nat_le_iff)
  then have "(of_nat n :: rat) * 2 ^ 48 \<le> 2 ^ 78" by simp
  with assms(1) have "btw 0 (2 ^ 78) (ca_sum st)" unfolding sum_ok_def by (rule btw_mono [OF _ order_refl])
  from f64_sqrt_nonneg [OF this] show ?thesis by simp
qed

lemma one_minus_root:
  assumes "btw 0 (2 ^ 80) s"
  shows "btw (- (2 ^ 81)) 1 (f64_sub f64_1 s)"
proof -
  obtain u where u: "s = Fin u" "0 \<le> u" "u \<le> 2 ^ 80" using btwD [OF assms] by auto
  show ?thesis unfolding u(1) f64_sub_def using u(2,3) rep_pow2 [of 81] by (simp add: btw_of_rat)
qed

lemma max_between: "btw 0 1 p \<Longrightarrow> btw a 1 x \<Longrightarrow> btw 0 1 (f64_max p x) \<and> f64_le p (f64_max p x)"
  by (cases p; cases x) (auto simp: btw_def)

lemma max_mono_right: "btw 0 1 p \<Longrightarrow> btw a b x \<Longrightarrow> btw a' b' y \<Longrightarrow> f64_le x y \<Longrightarrow> f64_le (f64_max p x) (f64_max p y)"
  by (cases p; cases x; cases y) (auto simp: btw_def)

lemma round_1000_mono:
  assumes "btw 0 1 x" "btw 0 1 y" "f64_le x y"
  shows "f64_le (round_to 1000 x) (round_to 1000 y)"
proof -
  have k: "lit 1000 = Fin 1000" "btw 0 1000 (Fin 1000)" by simp_all
  have m: "f64_le (f64_mul x (Fin 1000)) (f64_mul y (Fin 1000))"
    by (rule f64_mul_mono_btw [OF assms(1,2) k(2) k(2) assms(3)]) simp
  have b: "btw 0 1000 (f64_mul z (Fin 1000))" if "btw 0 1 z" for z using btw_mul [OF that k(2)] by simp
  have r: "btw (of_int 0) (of_int 1000) (f64_round (f64_mul z (Fin 1000)))" if "btw 0 1 z" for z
    by (rule btw_round) (use b [OF that] in simp_all)
  show ?thesis unfolding round_to_def k(1)
    by (rule f64_div_mono_btw [OF r r]) (use assms f64_round_mono [OF m] in simp_all)
qed

lemma round_1000_one: "round_to 1000 f64_1 = f64_1"
  using rha_of_int [of 1000] by (simp add: round_to_def)

lemma posture_range:
  assumes "btw 0 1 minP" "btw 0 (2 ^ 80) (f64_sqrt s)"
  shows "f64_le (round_to 1000 minP) (posture minP s) \<and> f64_le (posture minP s) f64_1"
proof -
  note m = max_between [OF assms(1) one_minus_root [OF assms(2)]]
  have "f64_le (f64_max minP (f64_sub f64_1 (f64_sqrt s))) f64_1" using m by (auto simp: btw_def split: f64.splits)
  then have "f64_le (posture minP s) (round_to 1000 f64_1)" unfolding posture_def
    using round_1000_mono [of _ f64_1] m by simp
  moreover have "f64_le (round_to 1000 minP) (posture minP s)" unfolding posture_def
    by (rule round_1000_mono) (use assms(1) m in simp_all)
  ultimately show ?thesis by (simp add: round_1000_one)
qed

lemma posture_antimono:
  assumes "btw 0 1 minP" "btw 0 b s" "btw 0 b' s'" "f64_le s s'" "btw 0 (2 ^ 80) (f64_sqrt s)" "btw 0 (2 ^ 80) (f64_sqrt s')"
  shows "f64_le (posture minP s') (posture minP s)"
proof -
  have "f64_le (f64_sqrt s) (f64_sqrt s')" by (rule f64_sqrt_mono_btw [OF assms(2,3,4)])
  then have "f64_le (f64_sub f64_1 (f64_sqrt s')) (f64_sub f64_1 (f64_sqrt s))"
    using btwD [OF assms(5)] btwD [OF assms(6)] f64_of_rat_mono by (auto simp: f64_sub_def)
  then have "f64_le (f64_max minP (f64_sub f64_1 (f64_sqrt s'))) (f64_max minP (f64_sub f64_1 (f64_sqrt s)))"
    using max_mono_right [OF assms(1) one_minus_root [OF assms(6)] one_minus_root [OF assms(5)]] by simp
  then show ?thesis unfolding posture_def
    using round_1000_mono max_between [OF assms(1) one_minus_root [OF assms(6)]] max_between [OF assms(1) one_minus_root [OF assms(5)]] by blast
qed

text \<open>The score of a calculation over entries of modest size.\<close>

definition calc_loop :: "calc_env \<Rightarrow> spc_module \<Rightarrow> string \<Rightarrow> string list \<Rightarrow> SPCCVEScore list \<Rightarrow> calc_state" where
  "calc_loop ce m host packages cs =
     (let asset = sm_assetCache m host
      in foldl (calc_step (ce_lo ce) (cve_penalty (ce_lo ce) (ce_log ce) (ce_now ce) (sm_kevCatalog m) asset) (lowered_names (ce_lo ce) packages)
             (case asset of None \<Rightarrow> [] | Some a \<Rightarrow> map (to_lower (ce_lo ce)) (sla_InstalledCPEs a))) (calc_start (sm_lowered m)) cs)"

lemma calculate_score:
  "spc_Score (fst (Calculate ce m host packages)) = f64_1 \<or>
   spc_Score (fst (Calculate ce m host packages)) = posture (sm_minPScore m) (ca_sum (calc_loop ce m host packages (sm_cveCache m)))"
  by (simp add: Calculate_def calc_result_def posture_def calc_loop_def neutral_def Let_def)

definition idle_input :: "calc_env \<Rightarrow> spc_module \<Rightarrow> string \<Rightarrow> string list \<Rightarrow> bool" where
  "idle_input ce m host packages \<longleftrightarrow> lowered_names (ce_lo ce) packages = [] \<and>
     (case sm_assetCache m host of None \<Rightarrow> [] | Some a \<Rightarrow> map (to_lower (ce_lo ce)) (sla_InstalledCPEs a)) = []"

lemma score_idle:
  "sm_cveCache m = [] \<or> idle_input ce m host packages \<Longrightarrow> spc_Score (fst (Calculate ce m host packages)) = f64_1"
  by (auto simp: Calculate_def idle_input_def neutral_def Let_def)

lemma score_busy:
  assumes "sm_cveCache m \<noteq> []" "\<not> idle_input ce m host packages"
  shows "spc_Score (fst (Calculate ce m host packages)) = posture (sm_minPScore m) (ca_sum (calc_loop ce m host packages (sm_cveCache m)))"
  unfolding Calculate_def calc_result_def calc_loop_def posture_def Let_def
  using assms unfolding idle_input_def by (simp only: if_False fst_conv spc_module.simps) (simp add: Let_def)

lemma calc_loop_sum:
  assumes "log_ok (ce_log ce)" "list_all sane_cve cs" "length cs \<le> 2 ^ 30"
  shows "sum_ok (length cs) (calc_loop ce m host packages cs)"
proof -
  have "btw 0 (2 ^ 24) (cp_Penalty (cve_penalty (ce_lo ce) (ce_log ce) (ce_now ce) (sm_kevCatalog m) (sm_assetCache m host) c t))"
    if "c \<in> set cs" for c t
    using penalty_btw [OF assms(1)] assms(2) that by (simp add: list_all_iff)
  from loop_sum [OF this start_sum] assms(3) show ?thesis by (simp add: calc_loop_def Let_def)
qed


text \<open>C15: A further vulnerability in the cache never raises the score of a host.\<close>

theorem further_vulnerability_never_raises_score:
  assumes "log_ok (ce_log ce)" "list_all sane_cve (sm_cveCache m @ [c])" "length (sm_cveCache m) < 2 ^ 30" "btw 0 1 (sm_minPScore m)"
  shows "f64_le (spc_Score (fst (Calculate ce (spc_append c m) host packages))) (spc_Score (fst (Calculate ce m host packages)))"
proof -
  let ?cs = "sm_cveCache m" and ?m = "spc_append c m"
  define st where "st = calc_loop ce m host packages ?cs"
  define st' where "st' = calc_loop ce m host packages (?cs @ [c])"
  have loop: "calc_loop ce ?m host packages cs = calc_loop ce m host packages cs" for cs by (simp add: calc_loop_def spc_append_def)
  have ok: "sum_ok (length ?cs) st" "sum_ok (length (?cs @ [c])) st'"
    unfolding st_def st'_def by (rule calc_loop_sum [OF assms(1)]; use assms(2,3) in simp)+
  have pen: "btw 0 (2 ^ 24) (cp_Penalty (cve_penalty (ce_lo ce) (ce_log ce) (ce_now ce) (sm_kevCatalog m) (sm_assetCache m host) c t))" for t
    using penalty_btw [OF assms(1)] assms(2) by simp
  have le: "f64_le (ca_sum st) (ca_sum st')"
    using step_sum(2) [where pen = "cve_penalty (ce_lo ce) (ce_log ce) (ce_now ce) (sm_kevCatalog m) (sm_assetCache m host)" and c = c,
        OF ok(1) assms(3) pen]
    by (simp add: st_def st'_def calc_loop_def Let_def)
  have root: "btw 0 (2 ^ 80) (f64_sqrt (ca_sum st))" "btw 0 (2 ^ 80) (f64_sqrt (ca_sum st'))"
    by (rule sum_root [OF ok(1)], use assms(3) in simp) (rule sum_root [OF ok(2)], use assms(3) in simp)
  have anti: "f64_le (posture (sm_minPScore m) (ca_sum st')) (posture (sm_minPScore m) (ca_sum st))"
    by (rule posture_antimono [OF assms(4) ok(1) [unfolded sum_ok_def] ok(2) [unfolded sum_ok_def] le root])
  have one: "f64_le (posture (sm_minPScore m) (ca_sum st')) f64_1" using posture_range [OF assms(4) root(2)] by simp
  show ?thesis
  proof (cases "?cs = [] \<or> idle_input ce m host packages")
    case True
    then have "spc_Score (fst (Calculate ce m host packages)) = f64_1" using score_idle by blast
    with calculate_score [of ce ?m host packages] one loop show ?thesis by (auto simp: st'_def spc_append_def)
  next
    case False
    then have "\<not> idle_input ce ?m host packages" "sm_cveCache ?m \<noteq> []" by (simp_all add: idle_input_def spc_append_def)
    with False anti show ?thesis using loop score_busy by (simp add: st_def st'_def spc_append_def)
  qed
qed

text \<open>A logarithm that is nowhere positive, and an empty module with one vulnerability.\<close>

definition zero_env :: calc_env where
  "zero_env = \<lparr>ce_lo = (\<lambda>s. s), ce_log = (\<lambda>_. f64_0), ce_now = 0, ce_order = allStages\<rparr>"

lemma zero_log_ok: "log_ok (ce_log zero_env)"
  by (simp add: log_ok_def zero_env_def)

lemma demo_sane: "sane_cve demo_cve"
  by (simp add: sane_cve_def demo_cve_def empty_cve_def)

lemma new_floor: "btw 0 1 (sm_minPScore New)"
  by (simp add: New_def lit_btw)


lemma further_vulnerability_never_raises_score_witness:
  "f64_le (spc_Score (fst (Calculate zero_env (spc_append demo_cve New) [] [''tool'']))) (spc_Score (fst (Calculate zero_env New [] [''tool''])))"
  using further_vulnerability_never_raises_score [OF zero_log_ok, of New demo_cve "[]" "[''tool'']"] demo_sane new_floor
  by (simp add: New_def)

section \<open>Ranges of the NVD\<close>

definition clean_bound :: "string \<Rightarrow> bool" where
  "clean_bound b \<longleftrightarrow> list_all (\<lambda>c. graphic c \<and> c \<noteq> CHR '','') b"

lemma trim_bound:
  assumes "clean_bound b" "b \<noteq> []" "key \<noteq> []" "graphic (hd key)"
  shows "trim_space (key @ b) = key @ b"
proof (rule trim_space_id)
  have "last b \<in> set b" using assms(2) by simp
  then show "graphic (last (key @ b))" using assms(1,2) by (simp add: clean_bound_def list_all_iff)
qed (use assms in simp_all)

lemma graphic_v: "graphic (CHR ''v'')"
  by (simp add: graphic_def)

lemma bound_constraints:
  assumes "clean_bound b" "b \<noteq> []"
  shows "constraint_holds v (''vsi='' @ b) \<longleftrightarrow> \<not> compareVersions v b < 0" "constraint_holds v (''vse='' @ b) \<longleftrightarrow> \<not> compareVersions v b \<le> 0"
    "constraint_holds v (''vei='' @ b) \<longleftrightarrow> \<not> compareVersions v b > 0" "constraint_holds v (''vee='' @ b) \<longleftrightarrow> \<not> compareVersions v b \<ge> 0"
  using trim_bound [OF assms, of "''vsi=''"] trim_bound [OF assms, of "''vse=''"] trim_bound [OF assms, of "''vei=''"]
    trim_bound [OF assms, of "''vee=''"]
  by (simp_all add: constraint_holds_def graphic_v Let_def)

text \<open>C17: What the parser of the NVD writes behind the name of a product is read back as the bounds it came from.\<close>

theorem nvd_range_roundtrip:
  assumes "range_parts k \<noteq> []" "v \<noteq> ''*''" "v \<noteq> ''-''" "CHR ''|'' \<notin> set (nm_Criteria k)"
    "clean_bound (nm_VersionStartIncluding k)" "clean_bound (nm_VersionStartExcluding k)" "clean_bound (nm_VersionEndIncluding k)"
    "clean_bound (nm_VersionEndExcluding k)" "nm_Vulnerable k" "nm_Criteria k \<noteq> []"
  shows "\<exists>rng. cpe_of_match k = Some (nm_Criteria k @ ''|'' @ rng) \<and> str_index ''|'' (nm_Criteria k @ ''|'' @ rng) = Some (length (nm_Criteria k)) \<and>
    versionInRange v rng =
      ((nm_VersionStartIncluding k = [] \<or> compareVersions v (nm_VersionStartIncluding k) \<ge> 0) \<and>
       (nm_VersionStartExcluding k = [] \<or> compareVersions v (nm_VersionStartExcluding k) > 0) \<and>
       (nm_VersionEndIncluding k = [] \<or> compareVersions v (nm_VersionEndIncluding k) \<le> 0) \<and>
       (nm_VersionEndExcluding k = [] \<or> compareVersions v (nm_VersionEndExcluding k) < 0))"
proof -
  have nc: "list_all (\<lambda>s. CHR '','' \<notin> set s) (range_parts k)"
    using assms(5-8) by (auto simp: range_parts_def clean_bound_def list_all_iff)
  have "versionInRange v (join_with (CHR '','') (range_parts k)) = list_all (constraint_holds v) (range_parts k)"
    using assms(2,3) split_on_join [OF assms(1) nc] by (simp add: versionInRange_def)
  also have "\<dots> =
      ((nm_VersionStartIncluding k = [] \<or> compareVersions v (nm_VersionStartIncluding k) \<ge> 0) \<and>
       (nm_VersionStartExcluding k = [] \<or> compareVersions v (nm_VersionStartExcluding k) > 0) \<and>
       (nm_VersionEndIncluding k = [] \<or> compareVersions v (nm_VersionEndIncluding k) \<le> 0) \<and>
       (nm_VersionEndExcluding k = [] \<or> compareVersions v (nm_VersionEndExcluding k) < 0))"
    using bound_constraints [OF assms(5), of v] bound_constraints [OF assms(6), of v] bound_constraints [OF assms(7), of v]
      bound_constraints [OF assms(8), of v]
    by (auto simp: range_parts_def)
  finally show ?thesis
    using assms(1,4,9,10) str_index_single [of "CHR ''|''" "nm_Criteria k" "join_with (CHR '','') (range_parts k)"]
    by (intro exI [of _ "join_with (CHR '','') (range_parts k)"]) (simp add: cpe_of_match_def)
qed

definition demo_match :: nvdCPEMatch where
  "demo_match =
     \<lparr>nm_Vulnerable = True, nm_Criteria = ''cpe:2.3:a:acme:tool:*'', nm_VersionStartIncluding = ''1.0'', nm_VersionStartExcluding = [],
      nm_VersionEndIncluding = [], nm_VersionEndExcluding = ''2.0''\<rparr>"

lemma nvd_range_roundtrip_witness:
  "\<exists>rng. cpe_of_match demo_match = Some (nm_Criteria demo_match @ ''|'' @ rng) \<and>
     versionInRange ''1.5'' rng = (compareVersions ''1.5'' ''1.0'' \<ge> 0 \<and> compareVersions ''1.5'' ''2.0'' < 0)"
proof -
  have "range_parts demo_match \<noteq> []" "clean_bound ''1.0''" "clean_bound ''2.0''" "clean_bound []"
    by (simp_all add: range_parts_def demo_match_def clean_bound_def graphic_def)
  then show ?thesis using nvd_range_roundtrip [of demo_match "''1.5''"] by (auto simp: demo_match_def)
qed

section \<open>Fields that no feed sets\<close>

lemma raw_new: "raw_module New"
  by (simp add: raw_module_def New_def)

lemma raw_ops: "list_all (\<lambda>p. list_all raw_cve (incoming p)) ops \<Longrightarrow> raw_module (foldl spc_run New ops)"
  by (induction ops rule: rev_induct) (simp_all add: raw_run raw_new)

lemma round_100: "round_to 100 (lit 100) = lit 100"
  using rha_of_int [of 10000] rep_small [of 10000 10000 0] by (simp add: round_to_def)

lemma raw_shift:
  assumes "list_all raw_cve cves"
  shows "generateWeightShift affected cves =
    [DomainAttackSurface \<mapsto> f64_0, DomainBusinessContinuity \<mapsto> f64_0, DomainOperationTrust \<mapsto> f64_0, DomainResilience \<mapsto> f64_0]"
proof -
  define cveMap where "cveMap = foldl (\<lambda>m c. m(cve_CVEID c \<mapsto> c)) Map.empty cves"
  have "\<forall>cid c. cveMap cid = Some c \<longrightarrow> raw_cve c" unfolding cveMap_def using assms
    by (induction cves rule: rev_induct) (auto split: if_splits)
  then have "filter (\<lambda>cid. case cveMap cid of None \<Rightarrow> False | Some c \<Rightarrow> cve_Exposure c \<ge> 2) affected = []"
    by (auto simp: filter_empty_conv raw_cve_def split: option.splits)
  then show ?thesis by (simp add: generateWeightShift_def cveMap_def [symmetric])
qed

text \<open>No fetcher sets the match and the exposure of an entry, so whatever the feeds hold the kill chain reads 100 and no weight
  moves.\<close>

theorem kill_chain_untouched:
  assumes "list_all (\<lambda>p. list_all raw_cve (incoming p)) ops"
  shows "let r = fst (Calculate ce (foldl spc_run New ops) host packages)
    in (co_KillChainScore r = f64_0 \<or> co_KillChainScore r = lit 100) \<and> (spc_Weights r d = None \<or> spc_Weights r d = Some f64_0)"
proof -
  define m where "m = foldl spc_run New ops"
  have "list_all raw_cve (sm_cveCache m)" using raw_ops [OF assms] by (simp add: raw_module_def m_def)
  then have s: "generateWeightShift affected (sm_cveCache m) d = None \<or> generateWeightShift affected (sm_cveCache m) d = Some f64_0"
    and k: "calculateKillChainScore order (sm_cveCache m) asset = lit 100" for affected order asset
    using raw_shift [of "sm_cveCache m" affected] by (auto simp: calculateKillChainScore_def list_all_iff raw_cve_def filter_empty_conv)
  show ?thesis unfolding m_def [symmetric]
    unfolding Calculate_def calc_result_def Let_def using s k round_100 by (simp add: neutral_def)
qed

lemma kill_chain_untouched_witness:
  "\<forall>d. let r = fst (Calculate zero_env (foldl spc_run New [Op_Add demo_cve]) [] [''tool''])
    in (co_KillChainScore r = f64_0 \<or> co_KillChainScore r = lit 100) \<and> (spc_Weights r d = None \<or> spc_Weights r d = Some f64_0)"
  using kill_chain_untouched [of "[Op_Add demo_cve]"] by (simp add: raw_cve_def demo_cve_def empty_cve_def)

text \<open>The fetchers name no source either: the rank of the sources decides nothing, and a later record replaces the CVSS of
  any earlier one.\<close>

theorem latest_record_wins:
  assumes "raw_cve inc" "raw_cve old" "f64_gt (cve_CVSS inc) f64_0"
  shows "cve_CVSS (mergeCVE inc old) = cve_CVSS inc \<and>
    cve_Description (mergeCVE inc old) = (if cve_Description old = [] then cve_Description inc else cve_Description old)"
  using assms by (simp add: mergeCVE_def raw_cve_def)

lemma latest_record_wins_witness:
  "cve_CVSS (mergeCVE (demo_cve\<lparr>cve_CVSS := f64_1\<rparr>) (demo_cve\<lparr>cve_CVSS := lit 9\<rparr>)) = f64_1"
  using latest_record_wins [of "demo_cve\<lparr>cve_CVSS := f64_1\<rparr>" "demo_cve\<lparr>cve_CVSS := lit 9\<rparr>"]
  by (simp add: raw_cve_def demo_cve_def empty_cve_def)

section \<open>A probability above 1\<close>

lemma nan_absorbs [simp]: "f64_add x NaN = NaN" "f64_add NaN x = NaN" "f64_mul x NaN = NaN" "f64_mul NaN x = NaN" "f64_div NaN x = NaN"
  by (cases x; simp)+

lemma nan_max: "btw a b x \<Longrightarrow> f64_max x NaN = NaN"
  by (cases x) (simp_all add: btw_def)

lemma nan_action: "ClassifyAction NaN = ''isolate_host''"
  by (simp add: ClassifyAction_def)

text \<open>An exploit probability above 1, which the parser of the EPSS file accepts, makes the score no number, and the action for it
  is the isolation of the host.\<close>

theorem epss_above_one_isolates:
  assumes "\<And>x. f64_lt x f64_0 \<Longrightarrow> ce_log ce x = NaN" "sm_cveCache m = [c]" "cve_EPSS c = Fin e" "1 < e" "rep (1 - e)"
    "btw 0 1 (sm_minPScore m)" "sm_assetCache m host = None"
    "lowered_names (ce_lo ce) packages \<noteq> []"
    "fst (matchCPEFast (ce_lo ce) c (lowered_names (ce_lo ce) packages) [] (sm_lowered m)) \<noteq> None"
  shows "let r = fst (Calculate ce m host packages) in spc_Score r = NaN \<and> spc_Action r = ''isolate_host''"
proof -
  have "f64_sub f64_1 (cve_EPSS c) = Fin (1 - e)" using assms(3,5) by (simp add: f64_sub_def)
  then have "epss_factor (ce_log ce) c = NaN" using assms(1) [of "Fin (1 - e)"] assms(3,4) by (simp add: epss_factor_def)
  then have "cve_impact (ce_log ce) kev c = NaN" for kev by (simp add: cve_impact_def base_impact_def boosted_def)
  then have pen: "cp_Penalty (cve_penalty (ce_lo ce) (ce_log ce) (ce_now ce) kev None c t) = NaN" for kev t
    by (simp add: cve_penalty_def)
  from assms(9) obtain t lc where "matchCPEFast (ce_lo ce) c (lowered_names (ce_lo ce) packages) [] (sm_lowered m) = (Some t, lc)"
    by (cases "matchCPEFast (ce_lo ce) c (lowered_names (ce_lo ce) packages) [] (sm_lowered m)") auto
  then show ?thesis using assms(2,7,8) pen nan_max [OF assms(6)]
    by (simp add: Calculate_def calc_result_def calc_step_def calc_start_def count_penalty_def nan_action round_to_def f64_sub_def Let_def)
qed

definition loud_cve :: SPCCVEScore where
  "loud_cve = demo_cve\<lparr>cve_EPSS := Fin 2\<rparr>"

lemma tool_name: "lowered_names (\<lambda>s. s) [''tool''] = [''tool'']"
  by code_simp

lemma loud_match:
  "fst (matchCPEFast (\<lambda>s. s) loud_cve (lowered_names (\<lambda>s. s) [''tool'']) [] (sm_lowered (spc_append loud_cve New))) \<noteq> None"
  by (simp add: tool_name matchCPEFast_def loweredAffectedCPEs_def named_in_def str_contains_def Let_def no_lowered_def to_lower_def to_lower_ascii_def loud_cve_def demo_cve_def empty_cve_def spc_append_def New_def)

lemma epss_above_one_isolates_witness:
  "let r = fst (Calculate (zero_env\<lparr>ce_log := \<lambda>x. if f64_lt x f64_0 then NaN else f64_0\<rparr>) (spc_append loud_cve New) [] [''tool''])
   in spc_Score r = NaN \<and> spc_Action r = ''isolate_host''"
proof -
  have names: "lowered_names (\<lambda>s. s) [''tool''] \<noteq> []" by (simp add: tool_name)
  show ?thesis
    using epss_above_one_isolates [of "zero_env\<lparr>ce_log := \<lambda>x. if f64_lt x f64_0 then NaN else f64_0\<rparr>" "spc_append loud_cve New" loud_cve 2 "[]" "[''tool'']"]
      loud_match names new_floor rep_small [of "- 1" "- 1" 0]
    by (simp add: zero_env_def spc_append_def New_def loud_cve_def)
qed

end
