(* ===== verification/Spec2Isabelle.thy ===== *)
theory Spec2Isabelle
  imports Semver Circuit_Breaker Resilience Rate_Limiter Interceptor Extension_Registry Message_Bus DI_Container Plugin_Kernel
    Lifecycle_Engine Secure_Lockout Ssam_Range Prism_Paths Prism_Inference Attck_Core Ssam_Engine Spc_Posture
begin

text \<open>
  Verification library of Asscor, a security posture platform for hosts: a plugin kernel hosts modules that run checks on a
  machine, score the results, watch vulnerabilities and attack techniques, and react; a secure mode keeps its configuration
  encrypted at rest.

  \<^bold>\<open>The parts and how they interact.\<close> The kernel (\<open>internal/kernel\<close>) registers plugins, orders their start by dependencies and
  priorities, gives them a message bus, a dependency container and an extension registry, and guards its remote calls with a
  rate limiter, an audit log and a circuit breaker in one interceptor chain. The configuration text (\<open>internal/config\<close>) is
  parsed into weights, thresholds, confidence rules and the edge factor model. The assessor (\<open>internal/engine\<close>) runs the
  checks and the adapters of external tools (\<open>internal/adapter\<close>), asks its ATT\&CK and SPC providers, and scores the result
  either itself or through a plugin, the adapter of \<open>internal/engine/ssam\<close> around the scoring library (\<open>ssam-lib\<close>); there the
  edge factor model (\<open>internal/edgefactor\<close>) installs its hooks. The risk library (\<open>prism-lib\<close>) scores a node in its network.
  The secure mode (\<open>internal/securemode\<close>) turns the configuration files into vaults and back.

  \<^bold>\<open>Theories.\<close>
  \<^item> \<open>Prelude\<close>, \<open>Float64\<close>, \<open>Float64_Bounds\<close>: Go's integers, strings, times and \<open>float64\<close>, with the interval reasoning that carries
    a bound through every rounding.
  \<^item> \<open>Semver\<close>: \<open>internal/semver/semver.go\<close>.
  \<^item> \<open>Breaker_Interface\<close> (a locale), \<open>Circuit_Breaker\<close> (\<open>kernel/circuitbreaker.go\<close>), \<open>Resilience\<close> (\<open>internal/resilience\<close>),
    \<open>Rate_Limiter\<close> (\<open>kernel/ratelimit.go\<close>), \<open>Interceptor\<close> (\<open>kernel/interceptor.go\<close>, \<open>auditlog.go\<close>, the configuration of
    \<open>common/exec.go\<close>).
  \<^item> \<open>Plugin_Hub\<close> (a locale), \<open>Extension_Registry\<close> (\<open>kernel/extensions.go\<close>), \<open>Message_Bus\<close> (\<open>kernel/bus.go\<close>, with asynchronous
    publishing as interleaved steps), \<open>DI_Container\<close> (\<open>kernel/di.go\<close>), \<open>Plugin_Order\<close>, \<open>Plugin_Kernel\<close> (\<open>kernel.go\<close>,
    \<open>kernel_lifecycle.go\<close>, \<open>plugin.go\<close>), \<open>Lifecycle_Engine\<close> (\<open>lifecycle.go\<close>, \<open>locator.go\<close>, \<open>blocker.go\<close>).
  \<^item> \<open>Secure_Files\<close>, \<open>Secure_Crypt\<close>, \<open>Secure_State\<close>, \<open>Secure_Vault\<close>, \<open>Secure_Controller\<close>, \<open>Secure_Lockout\<close>: \<open>internal/securemode\<close>
    over a file system in which every call may fail or be the last before a crash.
  \<^item> \<open>Ssam_Score\<close>, \<open>Ssam_Formula\<close>, \<open>Ssam_Range\<close>: \<open>ssam-lib\<close>. \<open>Edge_Factor\<close>, \<open>Edge_Synthesis\<close>: \<open>internal/edgefactor\<close>.
    \<open>Edge_Assembly\<close>: \<open>internal/engine/ssam/edgefactor.go\<close>. \<open>Ssam_Engine\<close>: the engine and the adapter of that package.
  \<^item> \<open>Config_Sections\<close>, \<open>Config_Confidence\<close>, \<open>Edge_Config\<close>, \<open>Config_Core\<close>: \<open>internal/config\<close>.
  \<^item> \<open>Model_Data\<close> (\<open>internal/model\<close>), \<open>Legacy_Engine\<close> and \<open>Assessor\<close> (\<open>internal/engine\<close>), \<open>Adapter_Core\<close>
    (\<open>internal/adapter\<close>), \<open>Attck_Core\<close> (\<open>internal/attck/attck.go\<close>).
  \<^item> \<open>Prism_Core\<close>, \<open>Prism_Paths\<close>, \<open>Prism_Inference\<close>: \<open>prism-lib\<close>.

  A struct is a record of the same fields, with a short prefix; a method is a definition of the same name that returns the
  updated state; an error is a value of a sum or an option. A map is a partial function, and where the source ranges over a
  map the order is an argument. A store shared by pointers is explicit (the cells of the edge factor chain).

  \<^bold>\<open>What the lemmas show.\<close> Each component has its invariant with preservation by every operation, its functional behaviour on
  every branch that matters, and where it has a contract, an abstract specification it refines: the depth-first search of the
  propagation paths against the declarative set of routes, the compiled formulas against the interpreter, the reloaded adapter
  against a fresh one, the engine against the library. The scoring theorems hold through every rounding of the \<open>float64\<close>
  computation: a score stays in its range, a further failed check, a further factor or an edge model never raise it. The
  secure mode theorems quantify over every fault and crash. The findings that modelling showed are theorems too; they are
  listed in the manifest.

  \<^bold>\<open>Bounds and fuel.\<close> The lifecycle loop has the hundred passes of the source. The path search is bounded by the hops of the
  source, with a measure. The stack machine of the formulas runs over its program. Size hypotheses such as \<open>2 ^ 20\<close> checks or
  edges keep sums of penalties exact enough for the interval lemmas; they are far above any host.

  \<^bold>\<open>Parameters.\<close> What the sources only call is an argument: \<open>math.Exp\<close>, \<open>math.Pow\<close>, \<open>math.Log\<close> and \<open>math.Log2\<close>, the digests and
  ciphers, JSON, regular expressions, \<open>sort.Slice\<close> on equal keys, map orders, the order in which goroutines end, lower and upper
  case beyond ASCII, the clock, the plugins, and the SPC and ATT\&CK providers of the assessor. The hypotheses about them are
  their documented behaviour. \<open>float64\<close> follows amd64: no fused multiply-add; a zero has no sign, since no modelled code looks
  at it. Hexadecimal floating point text is not parsed.

  \<^bold>\<open>Not modelled.\<close> Command lines, terminals, network servers and clients, generated code, platform calls and the shell commands
  of the checks: they move data between the operating system and the parts above, and their effect is what the parameters
  stand for. Packages of the same kind as those modelled that are still missing (the agent, the federation, topology, the
  extension manager, the detection and intelligence parts of ATT\&CK, persistence) are listed with the reason in the manifest.
\<close>

end
